(* ===== verification/OdbPrelude.thy ===== *)
theory OdbPrelude
  imports
    Complex_Main
    "HOL-Library.Word"
    "HOL-Library.Signed_Division"
    "HOL-Library.Multiset"
    "HOL-Library.Monad_Syntax"
begin

text \<open>
  Shared ground of the development: the machine ranges of the C++ integer types the database
  uses, the pieces of the C string library it calls (\<open>c_str\<close>, \<open>tolower\<close>,
  \<open>strcasecmp\<close>), the standard-library sorting contract, and the collections of lemmas the
  component theories fill.

  Integers. The sources compute with \<^verbatim>\<open>int\<close> (32 bits, overflow undefined), and widen to
  \<^verbatim>\<open>int64_t\<close> for areas and volumes. Coordinates are modelled as \<^typ>\<open>int\<close>;
  \<open>fits_int32\<close> and \<open>fits_int64\<close> say when a mathematical result is one the C++ expression
  can hold, and the bounds theorems of the geometry show for which inputs every intermediate result
  does. C++ division truncates towards zero, which is \<open>sdiv\<close> of the library.
\<close>

section \<open>Collections\<close>

named_theorems geom_simps \<open>unfolding rules of the geometry classes\<close>
named_theorems stream_simps \<open>unfolding rules of the stream operators\<close>
named_theorems char_eval \<open>evaluation of character operations on literals\<close>

section \<open>Machine integers\<close>

definition INT_MAX :: int where
  "INT_MAX = 2 ^ 31 - 1"

definition INT_MIN :: int where
  "INT_MIN = - (2 ^ 31)"

definition fits_int32 :: "int \<Rightarrow> bool" where
  "fits_int32 x \<longleftrightarrow> INT_MIN \<le> x \<and> x \<le> INT_MAX"

definition fits_int64 :: "int \<Rightarrow> bool" where
  "fits_int64 x \<longleftrightarrow> - (2 ^ 63) \<le> x \<and> x \<le> 2 ^ 63 - 1"

lemma fits_int32_iff: "fits_int32 x \<longleftrightarrow> - 2147483648 \<le> x \<and> x \<le> 2147483647"
  by (simp add: fits_int32_def INT_MAX_def INT_MIN_def)

lemma fits_int64_iff:
  "fits_int64 x \<longleftrightarrow> - 9223372036854775808 \<le> x \<and> x \<le> 9223372036854775807"
  by (simp add: fits_int64_def)

lemma fits_int32_minmax:
  assumes "fits_int32 a" and "fits_int32 b"
  shows "fits_int32 (min a b)" and "fits_int32 (max a b)"
  using assms by (auto simp: fits_int32_def min_def max_def)

text \<open>Truncating division by two, the only division of the geometry classes.\<close>

lemma sdiv_two: "(x :: int) sdiv 2 = (if 0 \<le> x then x div 2 else - ((- x) div 2))"
  by (simp add: signed_divide_int_def sgn_if)

lemma sdiv_two_bounds:
  assumes "(lo :: int) \<le> hi"
  shows "lo \<le> (lo + hi) sdiv 2 \<and> (lo + hi) sdiv 2 \<le> hi"
  using assms by (simp add: sdiv_two) linarith

section \<open>C strings\<close>

text \<open>
  A \<^verbatim>\<open>const char*\<close> is the list of its characters up to the terminating NUL;
  \<open>c_str\<close> takes a \<^verbatim>\<open>std::string\<close>, which may hold NULs, to the C string a callee
  sees. \<open>tolower\<close> is the one of the C locale.
\<close>

definition NUL :: char where
  "NUL = char_of (0 :: nat)"

lemma NUL_char: "NUL = CHR 0x00"
  by code_simp

definition c_str :: "string \<Rightarrow> string" where
  "c_str s = takeWhile (\<lambda>c. c \<noteq> NUL) s"

definition tolower :: "char \<Rightarrow> char" where
  "tolower c =
     (if 65 \<le> (of_char c :: nat) \<and> (of_char c :: nat) \<le> 90
      then char_of (of_char c + 32 :: nat) else c)"

text \<open>
  \<^verbatim>\<open>strcasecmp\<close>: the difference of the first two characters that differ after lowering,
  the terminating NUL counting as 0.
\<close>

fun strcasecmp :: "string \<Rightarrow> string \<Rightarrow> int" where
  "strcasecmp [] [] = 0"
| "strcasecmp [] (d # t) = - of_char (tolower d)"
| "strcasecmp (c # s) [] = of_char (tolower c)"
| "strcasecmp (c # s) (d # t) =
     (if tolower c = tolower d then strcasecmp s t
      else of_char (tolower c) - of_char (tolower d))"

definition lower :: "string \<Rightarrow> string" where
  "lower = map tolower"

lemma lower_simps [simp]: "lower [] = []" "lower (c # s) = tolower c # lower s"
  by (simp_all add: lower_def)

lemma strcasecmp_lower: "lower s = lower s' \<Longrightarrow> strcasecmp s t = strcasecmp s' t"
proof (induction s t arbitrary: s' rule: strcasecmp.induct)
  case 1
  then show ?case by (cases s') auto
next
  case (2 d t)
  then show ?case by (cases s') auto
next
  case (3 c s)
  then show ?case by (cases s') auto
next
  case (4 c s d t)
  then obtain c' u where s': "s' = c' # u" and "tolower c = tolower c'" "lower s = lower u"
    by (cases s') auto
  with "4.IH" show ?case by simp
qed

lemma strcasecmp_cong: "lower s = lower s' \<Longrightarrow> strcasecmp s = strcasecmp s'"
  by (rule ext) (rule strcasecmp_lower)

lemma strcasecmp_refl: "lower s = lower t \<Longrightarrow> strcasecmp s t = 0"
proof -
  have "strcasecmp t t = 0" by (induction t) auto
  moreover assume "lower s = lower t"
  ultimately show ?thesis using strcasecmp_lower by metis
qed

lemma of_char_eq_0: "(of_char c :: int) = 0 \<longleftrightarrow> c = NUL"
proof -
  have "(of_char NUL :: int) = 0" by code_simp
  then show ?thesis by (metis of_char_eq_iff)
qed

lemma tolower_NUL: "tolower c = NUL \<longleftrightarrow> c = NUL"
proof
  assume t: "tolower c = NUL"
  show "c = NUL"
  proof (rule ccontr)
    assume "c \<noteq> NUL"
    with t have up: "65 \<le> (of_char c :: nat)" "(of_char c :: nat) \<le> 90"
      and eq: "char_of (of_char c + 32 :: nat) = NUL"
      by (auto simp: tolower_def split: if_splits)
    from eq have "(of_char c + 32 :: nat) mod 256 = of_char NUL"
      by (metis of_char_of)
    with up show False by (simp add: NUL_def)
  qed
qed (simp add: tolower_def NUL_def)

text \<open>On C strings, which hold no NUL, a zero result is equality up to case.\<close>

lemma strcasecmp_0_iff:
  assumes "NUL \<notin> set s" and "NUL \<notin> set t"
  shows "strcasecmp s t = 0 \<longleftrightarrow> lower s = lower t"
  using assms
proof (induction s t rule: strcasecmp.induct)
  case (4 c s d t)
  have "(of_char (tolower c) :: int) = of_char (tolower d) \<longleftrightarrow> tolower c = tolower d"
    by simp
  with 4 show ?case by auto
qed (auto simp: of_char_eq_0 tolower_NUL)

text \<open>The letters, so that literals are compared by rewriting.\<close>

lemma tolower_letters [char_eval]:
  "tolower CHR ''A'' = CHR ''a''" "tolower CHR ''B'' = CHR ''b''" "tolower CHR ''C'' = CHR ''c''"
  "tolower CHR ''D'' = CHR ''d''" "tolower CHR ''E'' = CHR ''e''" "tolower CHR ''F'' = CHR ''f''"
  "tolower CHR ''G'' = CHR ''g''" "tolower CHR ''H'' = CHR ''h''" "tolower CHR ''I'' = CHR ''i''"
  "tolower CHR ''J'' = CHR ''j''" "tolower CHR ''K'' = CHR ''k''" "tolower CHR ''L'' = CHR ''l''"
  "tolower CHR ''M'' = CHR ''m''" "tolower CHR ''N'' = CHR ''n''" "tolower CHR ''O'' = CHR ''o''"
  "tolower CHR ''P'' = CHR ''p''" "tolower CHR ''Q'' = CHR ''q''" "tolower CHR ''R'' = CHR ''r''"
  "tolower CHR ''S'' = CHR ''s''" "tolower CHR ''T'' = CHR ''t''" "tolower CHR ''U'' = CHR ''u''"
  "tolower CHR ''V'' = CHR ''v''" "tolower CHR ''W'' = CHR ''w''" "tolower CHR ''X'' = CHR ''x''"
  "tolower CHR ''Y'' = CHR ''y''" "tolower CHR ''Z'' = CHR ''z''" "tolower CHR ''_'' = CHR ''_''"
  "tolower CHR '' '' = CHR '' ''" "tolower CHR ''0'' = CHR ''0''" "tolower CHR ''1'' = CHR ''1''"
  "tolower CHR ''2'' = CHR ''2''" "tolower CHR ''7'' = CHR ''7''" "tolower CHR ''8'' = CHR ''8''"
  "tolower CHR ''9'' = CHR ''9''" "tolower CHR ''a'' = CHR ''a''" "tolower CHR ''c'' = CHR ''c''"
  "tolower CHR ''d'' = CHR ''d''" "tolower CHR ''e'' = CHR ''e''" "tolower CHR ''f'' = CHR ''f''"
  "tolower CHR ''i'' = CHR ''i''" "tolower CHR ''l'' = CHR ''l''" "tolower CHR ''n'' = CHR ''n''"
  "tolower CHR ''p'' = CHR ''p''" "tolower CHR ''r'' = CHR ''r''" "tolower CHR ''t'' = CHR ''t''"
  "tolower CHR ''b'' = CHR ''b''" "tolower CHR ''y'' = CHR ''y''"
  by code_simp+

section \<open>Numbers as text\<close>

definition digit :: "nat \<Rightarrow> char" where
  "digit d = char_of (48 + d)"

fun to_string :: "nat \<Rightarrow> string" where
  "to_string n = (if n < 10 then [digit n] else to_string (n div 10) @ [digit (n mod 10)])"

declare to_string.simps [simp del]

lemma digit_char: "d < 10 \<Longrightarrow> (of_char (digit d) :: nat) = 48 + d"
  by (simp add: digit_def)

text \<open>A reader of decimal digits: the text of a number determines it.\<close>

definition read_digits :: "string \<Rightarrow> nat" where
  "read_digits s = foldl (\<lambda>n c. 10 * n + (of_char c - 48)) 0 s"

lemma read_digits: "read_digits (to_string n) = n"
proof (induction n rule: to_string.induct)
  case (1 n)
  then show ?case
    by (subst to_string.simps) (simp add: read_digits_def digit_char mult_div_mod_eq)
qed

section \<open>Sorting\<close>

text \<open>
  \<^verbatim>\<open>std::ranges::sort\<close> with a comparison of a key: the result is some permutation of the
  input that is sorted by the key. It is not stable, so elements with equal keys come in an order
  the standard leaves open. A model that sorts takes the sorting function as an argument, and a
  theorem about it assumes this contract only.
\<close>

definition std_sort_on :: "('a \<Rightarrow> 'b::linorder) \<Rightarrow> ('a list \<Rightarrow> 'a list) \<Rightarrow> bool" where
  "std_sort_on key srt \<longleftrightarrow> (\<forall>xs. mset (srt xs) = mset xs \<and> sorted (map key (srt xs)))"

lemma std_sort_onD:
  assumes "std_sort_on key srt"
  shows "mset (srt xs) = mset xs" and "sorted (map key (srt xs))"
    and "set (srt xs) = set xs" and "length (srt xs) = length xs"
proof -
  show m: "mset (srt xs) = mset xs" and "sorted (map key (srt xs))"
    using assms by (auto simp: std_sort_on_def)
  from m show "set (srt xs) = set xs" and "length (srt xs) = length xs"
    by (auto dest: mset_eq_setD mset_eq_length)
qed

lemma std_sort_on_sort_key: "std_sort_on key (sort_key key)"
  by (simp add: std_sort_on_def)

section \<open>Steps that may fail\<close>

text \<open>The next step when the one before has not failed.\<close>

definition and_then :: "'e + 'a \<Rightarrow> ('a \<Rightarrow> 'e + 'b) \<Rightarrow> 'e + 'b" where
  "and_then r k = (case r of Inl e \<Rightarrow> Inl e | Inr a \<Rightarrow> k a)"

lemma and_then_simps [simp]: "and_then (Inl e) k = Inl e" "and_then (Inr a) k = k a"
  by (simp_all add: and_then_def)

lemma and_then_Inr: "and_then r k = Inr b \<longleftrightarrow> (\<exists>a. r = Inr a \<and> k a = Inr b)"
  by (cases r) simp_all

section \<open>Loops that may not return\<close>

text \<open>A loop whose body may not return.\<close>

primrec foldM :: "('s \<Rightarrow> 'a \<Rightarrow> 's option) \<Rightarrow> 's \<Rightarrow> 'a list \<Rightarrow> 's option" where
  "foldM f s [] = Some s"
| "foldM f s (x # xs) = do { s \<leftarrow> f s x; foldM f s xs }"

lemma foldM_cong: "(\<And>s x. x \<in> set xs \<Longrightarrow> f s x = g s x) \<Longrightarrow> foldM f s xs = foldM g s xs"
  by (induction xs arbitrary: s) (auto cong: bind_option_cong)

lemma foldM_append: "foldM f s (xs @ ys) = do { s \<leftarrow> foldM f s xs; foldM f s ys }"
  by (induction xs arbitrary: s) simp_all

lemma foldM_filter: "foldM (\<lambda>s x. if P x then f s x else Some s) s xs = foldM f s (filter P xs)"
  by (induction xs arbitrary: s) simp_all

lemma foldM_concat: "foldM (\<lambda>s x. foldM f s (g x)) s xs = foldM f s (concat (map g xs))"
  by (induction xs arbitrary: s) (simp_all add: foldM_append)

lemma foldM_map: "foldM f s (map g xs) = foldM (\<lambda>s x. f s (g x)) s xs"
  by (induction xs arbitrary: s) simp_all

lemma foldM_map_filter:
  "foldM (\<lambda>s x. case g x of None \<Rightarrow> Some s | Some y \<Rightarrow> f s y) s xs = foldM f s (List.map_filter g xs)"
  by (induction xs arbitrary: s) (auto simp: map_filter_simps split: option.splits)

lemma foldM_SomeD: "foldM f s xs = Some s' \<Longrightarrow> x \<in> set xs \<Longrightarrow> \<exists>t t'. f t x = Some t'"
  by (induction xs arbitrary: s) (auto simp: bind_eq_Some_conv)

lemma foldM_total: "(\<And>s x. x \<in> set xs \<Longrightarrow> \<exists>s'. f s x = Some s') \<Longrightarrow> \<exists>s'. foldM f s xs = Some s'"
proof (induction xs arbitrary: s)
  case (Cons x xs)
  then obtain s1 where "f s x = Some s1" by fastforce
  with Cons show ?case by simp
qed simp

lemma foldM_None: "x \<in> set xs \<Longrightarrow> (\<And>s. f s x = None) \<Longrightarrow> foldM f s xs = None"
proof (induction xs arbitrary: s)
  case (Cons y xs)
  then show ?case by (cases "y = x") (auto split: bind_splits)
qed simp

lemma foldM_inv:
  "foldM f s xs = Some s' \<Longrightarrow> P s \<Longrightarrow> (\<And>s x s'. P s \<Longrightarrow> f s x = Some s' \<Longrightarrow> P s') \<Longrightarrow> P s'"
  by (induction xs arbitrary: s) (auto simp: bind_eq_Some_conv)

end
