(* ===== verification/Isotropy.thy ===== *)
theory Isotropy
  imports OdbPrelude
begin

text \<open>
  Axes and directions in one, two and three dimensions (\<^verbatim>\<open>odb/isotropy.h\<close>). Each class keeps
  its value in an \<^verbatim>\<open>unsigned char\<close> and computes on the bits of the enumeration: the low bit is
  the sign along an axis, the bits above it the axis. The classes are records of that byte, the
  operations the bit expressions of the code; \<open>Direction2D_values\<close> and its kin list the bytes the
  constructors produce. The printed names (\<^verbatim>\<open>operator<<\<close>) are in
  \<^verbatim>\<open>dbStream.cpp\<close>.
\<close>

unbundle bit_operations_syntax

record Direction1D =
  d1_value :: "8 word"

record Orientation2D =
  o2_value :: "8 word"

record Direction2D =
  d2_value :: "8 word"

record Orientation3D =
  o3_value :: "8 word"

record Direction3D =
  d3_value :: "8 word"

section \<open>Convenience objects\<close>

definition horizontal :: Orientation2D where "horizontal = \<lparr>o2_value = 0\<rparr>"
definition vertical :: Orientation2D where "vertical = \<lparr>o2_value = 1\<rparr>"
definition proximal :: Orientation3D where "proximal = \<lparr>o3_value = 2\<rparr>"
definition low :: Direction1D where "low = \<lparr>d1_value = 0\<rparr>"
definition high :: Direction1D where "high = \<lparr>d1_value = 1\<rparr>"
definition west :: Direction2D where "west = \<lparr>d2_value = 0\<rparr>"
definition east :: Direction2D where "east = \<lparr>d2_value = 1\<rparr>"
definition south :: Direction2D where "south = \<lparr>d2_value = 2\<rparr>"
definition north :: Direction2D where "north = \<lparr>d2_value = 3\<rparr>"
definition down :: Direction3D where "down = \<lparr>d3_value = 4\<rparr>"
definition up :: Direction3D where "up = \<lparr>d3_value = 5\<rparr>"

lemmas isotropy_objects =
  horizontal_def vertical_def proximal_def low_def high_def west_def east_def south_def north_def
  down_def up_def

section \<open>Operations\<close>

definition Direction1D_flipped :: "Direction1D \<Rightarrow> Direction1D" where
  "Direction1D_flipped d = \<lparr>d1_value = d1_value d XOR 1\<rparr>"

definition Direction1D_of_Direction2D :: "Direction2D \<Rightarrow> Direction1D" where
  "Direction1D_of_Direction2D d = \<lparr>d1_value = d2_value d AND 1\<rparr>"

definition Direction1D_of_Direction3D :: "Direction3D \<Rightarrow> Direction1D" where
  "Direction1D_of_Direction3D d = \<lparr>d1_value = d3_value d AND 1\<rparr>"

definition Orientation2D_turn_90 :: "Orientation2D \<Rightarrow> Orientation2D" where
  "Orientation2D_turn_90 ori = \<lparr>o2_value = o2_value ori XOR 1\<rparr>"

definition Orientation2D_of_Direction2D :: "Direction2D \<Rightarrow> Orientation2D" where
  "Orientation2D_of_Direction2D d = \<lparr>o2_value = drop_bit 1 (d2_value d)\<rparr>"

definition Orientation2D_getDirection :: "Orientation2D \<Rightarrow> Direction1D \<Rightarrow> Direction2D" where
  "Orientation2D_getDirection ori dir = \<lparr>d2_value = push_bit 1 (o2_value ori) + d1_value dir\<rparr>"

definition Direction2D_flipped :: "Direction2D \<Rightarrow> Direction2D" where
  "Direction2D_flipped d = \<lparr>d2_value = d2_value d XOR 1\<rparr>"

definition Direction2D_turn :: "Direction2D \<Rightarrow> Direction1D \<Rightarrow> Direction2D" where
  "Direction2D_turn d dir =
     \<lparr>d2_value = d2_value d XOR 3 XOR drop_bit 1 (d2_value d) XOR d1_value dir\<rparr>"

definition Direction2D_left :: "Direction2D \<Rightarrow> Direction2D" where
  "Direction2D_left d = Direction2D_turn d high"

definition Direction2D_right :: "Direction2D \<Rightarrow> Direction2D" where
  "Direction2D_right d = Direction2D_turn d low"

definition Direction2D_is_positive :: "Direction2D \<Rightarrow> bool" where
  "Direction2D_is_positive d = (d2_value d AND 1 \<noteq> 0)"

definition Direction2D_is_negative :: "Direction2D \<Rightarrow> bool" where
  "Direction2D_is_negative d = (\<not> Direction2D_is_positive d)"

definition Orientation3D_of_Orientation2D :: "Orientation2D \<Rightarrow> Orientation3D" where
  "Orientation3D_of_Orientation2D ori = \<lparr>o3_value = o2_value ori\<rparr>"

definition Orientation3D_of_Direction2D :: "Direction2D \<Rightarrow> Orientation3D" where
  "Orientation3D_of_Direction2D d = \<lparr>o3_value = drop_bit 1 (d2_value d)\<rparr>"

definition Orientation3D_of_Direction3D :: "Direction3D \<Rightarrow> Orientation3D" where
  "Orientation3D_of_Direction3D d = \<lparr>o3_value = drop_bit 1 (d3_value d)\<rparr>"

definition Orientation3D_getDirection :: "Orientation3D \<Rightarrow> Direction1D \<Rightarrow> Direction3D" where
  "Orientation3D_getDirection ori dir = \<lparr>d3_value = push_bit 1 (o3_value ori) + d1_value dir\<rparr>"

definition Direction3D_of_Direction2D :: "Direction2D \<Rightarrow> Direction3D" where
  "Direction3D_of_Direction2D d = \<lparr>d3_value = d2_value d\<rparr>"

definition Direction3D_flipped :: "Direction3D \<Rightarrow> Direction3D" where
  "Direction3D_flipped d = \<lparr>d3_value = d3_value d XOR 1\<rparr>"

definition Direction3D_is_positive :: "Direction3D \<Rightarrow> bool" where
  "Direction3D_is_positive d = (d3_value d AND 1 \<noteq> 0)"

definition Direction3D_is_negative :: "Direction3D \<Rightarrow> bool" where
  "Direction3D_is_negative d = (\<not> Direction3D_is_positive d)"

section \<open>Printed names\<close>

definition Orientation2D_show :: "Orientation2D \<Rightarrow> string" where
  "Orientation2D_show ori = (if ori = horizontal then ''horizontal'' else ''vertical'')"

definition Orientation3D_show :: "Orientation3D \<Rightarrow> string" where
  "Orientation3D_show ori =
     (if ori = Orientation3D_of_Orientation2D horizontal then ''horizontal''
      else if ori = Orientation3D_of_Orientation2D vertical then ''vertical''
      else ''proximal'')"

definition Direction1D_show :: "Direction1D \<Rightarrow> string" where
  "Direction1D_show dir = (if dir = low then ''low'' else ''high'')"

definition Direction2D_show :: "Direction2D \<Rightarrow> string" where
  "Direction2D_show dir =
     (if dir = north then ''north''
      else if dir = south then ''south''
      else if dir = west then ''west''
      else ''east'')"

definition Direction3D_show :: "Direction3D \<Rightarrow> string" where
  "Direction3D_show dir =
     (if dir = Direction3D_of_Direction2D north then ''north''
      else if dir = Direction3D_of_Direction2D south then ''south''
      else if dir = Direction3D_of_Direction2D west then ''west''
      else if dir = Direction3D_of_Direction2D east then ''east''
      else if dir = up then ''up''
      else ''down'')"

section \<open>The values and what the bit tricks compute\<close>

definition Direction2D_values :: "Direction2D list" where
  "Direction2D_values = [west, east, south, north]"

definition Direction3D_values :: "Direction3D list" where
  "Direction3D_values = map Direction3D_of_Direction2D Direction2D_values @ [down, up]"

lemmas isotropy_defs =
  isotropy_objects Direction1D_flipped_def Direction1D_of_Direction2D_def
  Direction1D_of_Direction3D_def Orientation2D_turn_90_def Orientation2D_of_Direction2D_def
  Orientation2D_getDirection_def Direction2D_flipped_def Direction2D_turn_def
  Direction2D_left_def Direction2D_right_def Direction2D_is_positive_def
  Direction2D_is_negative_def Orientation3D_of_Orientation2D_def Orientation3D_of_Direction2D_def
  Orientation3D_of_Direction3D_def Orientation3D_getDirection_def Direction3D_of_Direction2D_def
  Direction3D_flipped_def Direction3D_is_positive_def Direction3D_is_negative_def

lemma Direction2D_turn_table:
  "Direction2D_left north = west" "Direction2D_left west = south"
  "Direction2D_left south = east" "Direction2D_left east = north"
  "Direction2D_right north = east" "Direction2D_right east = south"
  "Direction2D_right south = west" "Direction2D_right west = north"
  by code_simp+

lemma Direction2D_flip_table:
  "Direction2D_flipped north = south" "Direction2D_flipped south = north"
  "Direction2D_flipped west = east" "Direction2D_flipped east = west"
  by code_simp+

lemma getDirection_inverse:
  "dir \<in> {low, high} \<Longrightarrow> ori \<in> {horizontal, vertical} \<Longrightarrow>
     Orientation2D_of_Direction2D (Orientation2D_getDirection ori dir) = ori \<and>
     Direction1D_of_Direction2D (Orientation2D_getDirection ori dir) = dir"
  by (auto simp: isotropy_defs)

lemma horizontal_neq_vertical [simp]: "horizontal \<noteq> vertical" "vertical \<noteq> horizontal" "low \<noteq> high" "high \<noteq> low"
  by (simp_all add: isotropy_objects)

text \<open>
  The compass group: turning left and right undo each other, two left turns flip, and the axis and
  the sign of a direction determine it.
\<close>

theorem Direction2D_turns:
  assumes "d \<in> set Direction2D_values"
  shows "Direction2D_right (Direction2D_left d) = d"
    and "Direction2D_left (Direction2D_left d) = Direction2D_flipped d"
    and "Orientation2D_of_Direction2D (Direction2D_left d) =
         Orientation2D_turn_90 (Orientation2D_of_Direction2D d)"
    and "Orientation2D_getDirection (Orientation2D_of_Direction2D d) (Direction1D_of_Direction2D d) = d"
    and "Direction2D_is_positive d \<longleftrightarrow> d = north \<or> d = east"
  using assms
  by (auto simp: Direction2D_values_def Direction2D_turn_table Direction2D_flip_table)
     (simp_all add: isotropy_defs)

end
