(* ===== verification/Geom.thy ===== *)
theory Geom
  imports Isotropy
begin

text \<open>
  The geometry classes of \<^verbatim>\<open>odb/geom.h\<close>: points, rectangles, octilinear wire segments, lines,
  polygons and the cuboids of the 3D stack. A method that changes its object is a function from the
  object to the changed one; a method with a \<^verbatim>\<open>result\<close> reference returns that result.
  Overloads carry a suffix for their argument. What is outside: printing, and the polygon
  operations that Boost implements (\<^verbatim>\<open>geom.cpp\<close>); \<^verbatim>\<open>Polygon::setPoints\<close> takes
  \<^verbatim>\<open>boost::geometry::correct\<close> as the argument \<open>correct\<close>.
\<close>

section \<open>Points\<close>

datatype Point = Point (px: int) (py: int)

datatype Point3D = Point3D (p3x: int) (p3y: int) (p3z: int)

definition Point_get :: "Point \<Rightarrow> Orientation2D \<Rightarrow> int" where
  "Point_get p orient = (if orient = horizontal then px p else py p)"

definition Point_setX :: "Point \<Rightarrow> int \<Rightarrow> Point" where
  "Point_setX p x = Point x (py p)"

definition Point_setY :: "Point \<Rightarrow> int \<Rightarrow> Point" where
  "Point_setY p y = Point (px p) y"

definition Point_set :: "Point \<Rightarrow> Orientation2D \<Rightarrow> int \<Rightarrow> Point" where
  "Point_set p orient v = (if orient = horizontal then Point_setX p v else Point_setY p v)"

definition Point_addX :: "Point \<Rightarrow> int \<Rightarrow> Point" where
  "Point_addX p x = Point_setX p (px p + x)"

definition Point_addY :: "Point \<Rightarrow> int \<Rightarrow> Point" where
  "Point_addY p y = Point_setY p (py p + y)"

definition Point_rotate90 :: "Point \<Rightarrow> Point" where
  "Point_rotate90 p = (let xp = - py p; yp = px p in Point xp yp)"

definition Point_rotate180 :: "Point \<Rightarrow> Point" where
  "Point_rotate180 p = (let xp = - px p; yp = - py p in Point xp yp)"

definition Point_rotate270 :: "Point \<Rightarrow> Point" where
  "Point_rotate270 p = (let xp = py p; yp = - px p in Point xp yp)"

definition Point_squaredDistance :: "Point \<Rightarrow> Point \<Rightarrow> int" where
  "Point_squaredDistance p0 p1 =
     (let dx = px p1 - px p0; dy = py p1 - py p0 in dx * dx + dy * dy)"

definition Point_manhattanDistance :: "Point \<Rightarrow> Point \<Rightarrow> int" where
  "Point_manhattanDistance p0 p1 =
     (let dx = \<bar>px p1 - px p0\<bar>; dy = \<bar>py p1 - py p0\<bar> in dx + dy)"

lemmas Point_defs [geom_simps] =
  Point_get_def Point_setX_def Point_setY_def Point_set_def Point_addX_def Point_addY_def
  Point_rotate90_def Point_rotate180_def Point_rotate270_def Point_squaredDistance_def
  Point_manhattanDistance_def Let_def

text \<open>The defaulted \<^verbatim>\<open>operator<=>\<close>: lexicographic in member order.\<close>

instantiation Point :: linorder
begin

definition less_eq_Point :: "Point \<Rightarrow> Point \<Rightarrow> bool" where
  "less_eq_Point p q \<longleftrightarrow> px p < px q \<or> px p = px q \<and> py p \<le> py q"

definition less_Point :: "Point \<Rightarrow> Point \<Rightarrow> bool" where
  "less_Point p q \<longleftrightarrow> px p < px q \<or> px p = px q \<and> py p < py q"

instance
  by standard (auto simp: less_eq_Point_def less_Point_def intro: Point.expand)

end

section \<open>Rectangles\<close>

record Rect =
  rect_xlo :: int
  rect_ylo :: int
  rect_xhi :: int
  rect_yhi :: int

definition Rect_default :: Rect where
  "Rect_default = \<lparr>rect_xlo = 0, rect_ylo = 0, rect_xhi = 0, rect_yhi = 0\<rparr>"

definition Rect_init :: "int \<Rightarrow> int \<Rightarrow> int \<Rightarrow> int \<Rightarrow> Rect" where
  "Rect_init x1 y1 x2 y2 =
     \<lparr>rect_xlo = min x1 x2, rect_ylo = min y1 y2, rect_xhi = max x1 x2, rect_yhi = max y1 y2\<rparr>"

definition mk_Rect :: "int \<Rightarrow> int \<Rightarrow> int \<Rightarrow> int \<Rightarrow> Rect" where
  "mk_Rect x1 y1 x2 y2 = Rect_init x1 y1 x2 y2"

definition Rect_of_points :: "Point \<Rightarrow> Point \<Rightarrow> Rect" where
  "Rect_of_points p1 p2 = mk_Rect (px p1) (py p1) (px p2) (py p2)"

definition Rect_set_xlo :: "Rect \<Rightarrow> int \<Rightarrow> Rect" where
  "Rect_set_xlo r x = r\<lparr>rect_xlo := x\<rparr>"

definition Rect_set_xhi :: "Rect \<Rightarrow> int \<Rightarrow> Rect" where
  "Rect_set_xhi r x = r\<lparr>rect_xhi := x\<rparr>"

definition Rect_set_ylo :: "Rect \<Rightarrow> int \<Rightarrow> Rect" where
  "Rect_set_ylo r y = r\<lparr>rect_ylo := y\<rparr>"

definition Rect_set_yhi :: "Rect \<Rightarrow> int \<Rightarrow> Rect" where
  "Rect_set_yhi r y = r\<lparr>rect_yhi := y\<rparr>"

definition Rect_reset :: "int \<Rightarrow> int \<Rightarrow> int \<Rightarrow> int \<Rightarrow> Rect" where
  "Rect_reset x1 y1 x2 y2 = \<lparr>rect_xlo = x1, rect_ylo = y1, rect_xhi = x2, rect_yhi = y2\<rparr>"

definition Rect_dx :: "Rect \<Rightarrow> int" where
  "Rect_dx r = rect_xhi r - rect_xlo r"

definition Rect_dy :: "Rect \<Rightarrow> int" where
  "Rect_dy r = rect_yhi r - rect_ylo r"

definition Rect_xCenter :: "Rect \<Rightarrow> int" where
  "Rect_xCenter r = (rect_xlo r + rect_xhi r) sdiv 2"

definition Rect_yCenter :: "Rect \<Rightarrow> int" where
  "Rect_yCenter r = (rect_ylo r + rect_yhi r) sdiv 2"

definition Rect_minDXDY :: "Rect \<Rightarrow> int" where
  "Rect_minDXDY r = min (Rect_dx r) (Rect_dy r)"

definition Rect_maxDXDY :: "Rect \<Rightarrow> int" where
  "Rect_maxDXDY r = max (Rect_dx r) (Rect_dy r)"

definition Rect_getDir :: "Rect \<Rightarrow> Orientation2D" where
  "Rect_getDir r = (let DX = Rect_dx r; DY = Rect_dy r in if DX < DY then vertical else horizontal)"

definition Rect_moveTo :: "Rect \<Rightarrow> int \<Rightarrow> int \<Rightarrow> Rect" where
  "Rect_moveTo r x y =
     (let DX = Rect_dx r; DY = Rect_dy r
      in \<lparr>rect_xlo = x, rect_ylo = y, rect_xhi = x + DX, rect_yhi = y + DY\<rparr>)"

definition Rect_moveDelta :: "Rect \<Rightarrow> int \<Rightarrow> int \<Rightarrow> Rect" where
  "Rect_moveDelta r dx dy =
     \<lparr>rect_xlo = rect_xlo r + dx, rect_ylo = rect_ylo r + dy,
      rect_xhi = rect_xhi r + dx, rect_yhi = rect_yhi r + dy\<rparr>"

definition Rect_ll :: "Rect \<Rightarrow> Point" where "Rect_ll r = Point (rect_xlo r) (rect_ylo r)"
definition Rect_ul :: "Rect \<Rightarrow> Point" where "Rect_ul r = Point (rect_xlo r) (rect_yhi r)"
definition Rect_ur :: "Rect \<Rightarrow> Point" where "Rect_ur r = Point (rect_xhi r) (rect_yhi r)"
definition Rect_lr :: "Rect \<Rightarrow> Point" where "Rect_lr r = Point (rect_xhi r) (rect_ylo r)"

definition Rect_center :: "Rect \<Rightarrow> Point" where
  "Rect_center r = Point (Rect_xCenter r) (Rect_yCenter r)"

definition Rect_set :: "Rect \<Rightarrow> Orientation2D \<Rightarrow> Direction1D \<Rightarrow> int \<Rightarrow> Rect" where
  "Rect_set r orient dir v =
     (if dir = low
      then (if orient = horizontal then Rect_set_xlo r v else Rect_set_ylo r v)
      else (if orient = horizontal then Rect_set_xhi r v else Rect_set_yhi r v))"

definition Rect_low :: "Rect \<Rightarrow> Orientation2D \<Rightarrow> int" where
  "Rect_low r orient = (if orient = horizontal then rect_xlo r else rect_ylo r)"

definition Rect_high :: "Rect \<Rightarrow> Orientation2D \<Rightarrow> int" where
  "Rect_high r orient = (if orient = horizontal then rect_xhi r else rect_yhi r)"

definition Rect_get :: "Rect \<Rightarrow> Orientation2D \<Rightarrow> Direction1D \<Rightarrow> int" where
  "Rect_get r orient dir = (if dir = low then Rect_low r orient else Rect_high r orient)"

definition Rect_intersects_pt :: "Rect \<Rightarrow> Point \<Rightarrow> bool" where
  "Rect_intersects_pt r p \<longleftrightarrow>
     px p \<ge> rect_xlo r \<and> px p \<le> rect_xhi r \<and> py p \<ge> rect_ylo r \<and> py p \<le> rect_yhi r"

definition Rect_intersects :: "Rect \<Rightarrow> Rect \<Rightarrow> bool" where
  "Rect_intersects s r \<longleftrightarrow>
     rect_xhi r \<ge> rect_xlo s \<and> rect_xlo r \<le> rect_xhi s \<and>
     rect_yhi r \<ge> rect_ylo s \<and> rect_ylo r \<le> rect_yhi s"

definition Rect_overlaps_pt :: "Rect \<Rightarrow> Point \<Rightarrow> bool" where
  "Rect_overlaps_pt r p \<longleftrightarrow>
     px p > rect_xlo r \<and> px p < rect_xhi r \<and> py p > rect_ylo r \<and> py p < rect_yhi r"

definition Rect_overlaps :: "Rect \<Rightarrow> Rect \<Rightarrow> bool" where
  "Rect_overlaps s r \<longleftrightarrow>
     rect_xhi r > rect_xlo s \<and> rect_xlo r < rect_xhi s \<and>
     rect_yhi r > rect_ylo s \<and> rect_ylo r < rect_yhi s"

definition Rect_contains :: "Rect \<Rightarrow> Rect \<Rightarrow> bool" where
  "Rect_contains s r \<longleftrightarrow>
     rect_xlo s \<le> rect_xlo r \<and> rect_ylo s \<le> rect_ylo r \<and>
     rect_xhi s \<ge> rect_xhi r \<and> rect_yhi s \<ge> rect_yhi r"

definition Rect_inside :: "Rect \<Rightarrow> Rect \<Rightarrow> bool" where
  "Rect_inside s r \<longleftrightarrow>
     rect_xlo s < rect_xlo r \<and> rect_ylo s < rect_ylo r \<and>
     rect_xhi s > rect_xhi r \<and> rect_yhi s > rect_yhi r"

definition Rect_closestPtInside :: "Rect \<Rightarrow> Point \<Rightarrow> Point" where
  "Rect_closestPtInside r pt =
     Point (min (max (px pt) (rect_xlo r)) (rect_xhi r))
           (min (max (py pt) (rect_ylo r)) (rect_yhi r))"

definition Rect_mergeInit :: Rect where
  "Rect_mergeInit =
     \<lparr>rect_xlo = INT_MAX, rect_ylo = INT_MAX, rect_xhi = INT_MIN, rect_yhi = INT_MIN\<rparr>"

definition Rect_merge_pt_to :: "Rect \<Rightarrow> Point \<Rightarrow> Rect" where
  "Rect_merge_pt_to r p =
     \<lparr>rect_xlo = min (rect_xlo r) (px p), rect_ylo = min (rect_ylo r) (py p),
      rect_xhi = max (rect_xhi r) (px p), rect_yhi = max (rect_yhi r) (py p)\<rparr>"

definition Rect_merge_to :: "Rect \<Rightarrow> Rect \<Rightarrow> Rect" where
  "Rect_merge_to s r =
     \<lparr>rect_xlo = min (rect_xlo s) (rect_xlo r), rect_ylo = min (rect_ylo s) (rect_ylo r),
      rect_xhi = max (rect_xhi s) (rect_xhi r), rect_yhi = max (rect_yhi s) (rect_yhi r)\<rparr>"

definition Rect_merge_pt :: "Rect \<Rightarrow> Point \<Rightarrow> Rect" where
  "Rect_merge_pt r p =
     r\<lparr>rect_xlo := min (rect_xlo r) (px p), rect_ylo := min (rect_ylo r) (py p),
       rect_xhi := max (rect_xhi r) (px p), rect_yhi := max (rect_yhi r) (py p)\<rparr>"

definition Rect_merge :: "Rect \<Rightarrow> Rect \<Rightarrow> Rect" where
  "Rect_merge s r =
     s\<lparr>rect_xlo := min (rect_xlo s) (rect_xlo r), rect_ylo := min (rect_ylo s) (rect_ylo r),
       rect_xhi := max (rect_xhi s) (rect_xhi r), rect_yhi := max (rect_yhi s) (rect_yhi r)\<rparr>"

definition Rect_bloat :: "Rect \<Rightarrow> int \<Rightarrow> Rect" where
  "Rect_bloat r margin =
     \<lparr>rect_xlo = rect_xlo r - margin, rect_ylo = rect_ylo r - margin,
      rect_xhi = rect_xhi r + margin, rect_yhi = rect_yhi r + margin\<rparr>"

definition Rect_bloat_orient :: "Rect \<Rightarrow> int \<Rightarrow> Orientation2D \<Rightarrow> Rect" where
  "Rect_bloat_orient r margin orient =
     (if orient = horizontal
      then \<lparr>rect_xlo = rect_xlo r - margin, rect_ylo = rect_ylo r,
            rect_xhi = rect_xhi r + margin, rect_yhi = rect_yhi r\<rparr>
      else \<lparr>rect_xlo = rect_xlo r, rect_ylo = rect_ylo r - margin,
            rect_xhi = rect_xhi r, rect_yhi = rect_yhi r + margin\<rparr>)"

definition Rect_intersection :: "Rect \<Rightarrow> Rect \<Rightarrow> Rect" where
  "Rect_intersection s r =
     (if \<not> Rect_intersects s r
      then \<lparr>rect_xlo = 0, rect_ylo = 0, rect_xhi = 0, rect_yhi = 0\<rparr>
      else \<lparr>rect_xlo = max (rect_xlo s) (rect_xlo r), rect_ylo = max (rect_ylo s) (rect_ylo r),
            rect_xhi = min (rect_xhi s) (rect_xhi r), rect_yhi = min (rect_yhi s) (rect_yhi r)\<rparr>)"

text \<open>\<^verbatim>\<open>Rect::intersect\<close> asserts that the rectangles meet: \<open>None\<close> is the failed assertion.\<close>

definition Rect_intersect :: "Rect \<Rightarrow> Rect \<Rightarrow> Rect option" where
  "Rect_intersect s r =
     (if Rect_intersects s r
      then Some \<lparr>rect_xlo = max (rect_xlo s) (rect_xlo r), rect_ylo = max (rect_ylo s) (rect_ylo r),
                 rect_xhi = min (rect_xhi s) (rect_xhi r), rect_yhi = min (rect_yhi s) (rect_yhi r)\<rparr>
      else None)"

definition Rect_area :: "Rect \<Rightarrow> int" where
  "Rect_area r = Rect_dx r * Rect_dy r"

definition Rect_margin :: "Rect \<Rightarrow> int" where
  "Rect_margin r = (let DX = Rect_dx r; DY = Rect_dy r in DX + DX + DY + DY)"

definition Rect_isInverted :: "Rect \<Rightarrow> bool" where
  "Rect_isInverted r \<longleftrightarrow> rect_xlo r > rect_xhi r \<or> rect_ylo r > rect_yhi r"

definition Rect_getPoints :: "Rect \<Rightarrow> Point list" where
  "Rect_getPoints r = [Rect_ll r, Rect_lr r, Rect_ur r, Rect_ul r, Rect_ll r]"

text \<open>The free function of the header; \<^verbatim>\<open>std::clamp\<close> on a rectangle that is not inverted.\<close>

definition clamp :: "int \<Rightarrow> int \<Rightarrow> int \<Rightarrow> int" where
  "clamp v lo hi = (if v < lo then lo else if hi < v then hi else v)"

definition manhattanDistance :: "Rect \<Rightarrow> Point \<Rightarrow> int" where
  "manhattanDistance r p =
     (let x = px p; y = py p;
          dx = \<bar>x - clamp x (rect_xlo r) (rect_xhi r)\<bar>;
          dy = \<bar>y - clamp y (rect_ylo r) (rect_yhi r)\<bar>
      in dx + dy)"

lemmas Rect_defs [geom_simps] =
  Rect_default_def Rect_init_def mk_Rect_def Rect_of_points_def Rect_set_xlo_def Rect_set_xhi_def
  Rect_set_ylo_def Rect_set_yhi_def Rect_reset_def Rect_dx_def Rect_dy_def Rect_xCenter_def
  Rect_yCenter_def Rect_minDXDY_def Rect_maxDXDY_def Rect_getDir_def Rect_moveTo_def
  Rect_moveDelta_def Rect_ll_def Rect_ul_def Rect_ur_def Rect_lr_def Rect_center_def Rect_set_def
  Rect_low_def Rect_high_def Rect_get_def Rect_intersects_pt_def Rect_intersects_def
  Rect_overlaps_pt_def Rect_overlaps_def Rect_contains_def Rect_inside_def
  Rect_closestPtInside_def Rect_mergeInit_def Rect_merge_pt_to_def Rect_merge_to_def
  Rect_merge_pt_def Rect_merge_def Rect_bloat_def Rect_bloat_orient_def Rect_area_def
  Rect_margin_def Rect_isInverted_def

section \<open>Octilinear segments\<close>

datatype OCT_DIR = RIGHT | LEFT | UNKNOWN

record Oct =
  oct_center_high :: Point
  oct_center_low :: Point
  oct_A :: int

definition Oct_init :: "Point \<Rightarrow> Point \<Rightarrow> int \<Rightarrow> Oct" where
  "Oct_init p1 p2 width =
     (if py p1 > py p2
      then \<lparr>oct_center_high = p1, oct_center_low = p2, oct_A = width sdiv 2\<rparr>
      else \<lparr>oct_center_high = p2, oct_center_low = p1, oct_A = width sdiv 2\<rparr>)"

definition Oct_of_points :: "Point \<Rightarrow> Point \<Rightarrow> int \<Rightarrow> Oct" where
  "Oct_of_points p1 p2 width = Oct_init p1 p2 width"

definition Oct_of_coords :: "int \<Rightarrow> int \<Rightarrow> int \<Rightarrow> int \<Rightarrow> int \<Rightarrow> Oct" where
  "Oct_of_coords x1 y1 x2 y2 width = Oct_init (Point x1 y1) (Point x2 y2) width"

definition Oct_getDir :: "Oct \<Rightarrow> OCT_DIR" where
  "Oct_getDir oct =
     (if oct_center_low oct = oct_center_high oct then OCT_DIR.UNKNOWN
      else if px (oct_center_high oct) > px (oct_center_low oct) then OCT_DIR.RIGHT
      else OCT_DIR.LEFT)"

definition Oct_getWidth :: "Oct \<Rightarrow> int" where
  "Oct_getWidth oct = oct_A oct * 2"

definition Oct_dx :: "Oct \<Rightarrow> int" where
  "Oct_dx oct = (case Oct_getDir oct of
      OCT_DIR.RIGHT \<Rightarrow> \<bar>px (oct_center_high oct) + oct_A oct - px (oct_center_low oct) + oct_A oct\<bar>
    | OCT_DIR.LEFT \<Rightarrow> \<bar>px (oct_center_low oct) + oct_A oct - px (oct_center_high oct) + oct_A oct\<bar>
    | OCT_DIR.UNKNOWN \<Rightarrow> 0)"

definition Oct_dy :: "Oct \<Rightarrow> int" where
  "Oct_dy oct = \<bar>py (oct_center_high oct) + oct_A oct - py (oct_center_low oct) + oct_A oct\<bar>"

definition Oct_xMin :: "Oct \<Rightarrow> int" where
  "Oct_xMin oct = (case Oct_getDir oct of
      OCT_DIR.RIGHT \<Rightarrow> px (oct_center_low oct) - oct_A oct
    | OCT_DIR.LEFT \<Rightarrow> px (oct_center_high oct) - oct_A oct
    | OCT_DIR.UNKNOWN \<Rightarrow> 0)"

definition Oct_yMin :: "Oct \<Rightarrow> int" where
  "Oct_yMin oct = py (oct_center_low oct) - oct_A oct"

definition Oct_xMax :: "Oct \<Rightarrow> int" where
  "Oct_xMax oct = (case Oct_getDir oct of
      OCT_DIR.RIGHT \<Rightarrow> px (oct_center_high oct) + oct_A oct
    | OCT_DIR.LEFT \<Rightarrow> px (oct_center_low oct) + oct_A oct
    | OCT_DIR.UNKNOWN \<Rightarrow> 0)"

definition Oct_yMax :: "Oct \<Rightarrow> int" where
  "Oct_yMax oct = py (oct_center_high oct) + oct_A oct"

definition Oct_bloat :: "Oct \<Rightarrow> int \<Rightarrow> Oct" where
  "Oct_bloat oct margin =
     Oct_of_points (oct_center_low oct) (oct_center_high oct) (2 * (oct_A oct + margin))"

definition Oct_getEnclosingRect :: "Oct \<Rightarrow> Rect" where
  "Oct_getEnclosingRect oct = mk_Rect (Oct_xMin oct) (Oct_yMin oct) (Oct_xMax oct) (Oct_yMax oct)"

definition Rect_merge_oct_to :: "Rect \<Rightarrow> Oct \<Rightarrow> Rect" where
  "Rect_merge_oct_to r oct =
     \<lparr>rect_xlo = min (rect_xlo r) (Oct_xMin oct), rect_ylo = min (rect_ylo r) (Oct_yMin oct),
      rect_xhi = max (rect_xhi r) (Oct_xMax oct), rect_yhi = max (rect_yhi r) (Oct_yMax oct)\<rparr>"

definition Rect_merge_oct :: "Rect \<Rightarrow> Oct \<Rightarrow> Rect" where
  "Rect_merge_oct r oct =
     r\<lparr>rect_xlo := min (rect_xlo r) (Oct_xMin oct), rect_ylo := min (rect_ylo r) (Oct_yMin oct),
       rect_xhi := max (rect_xhi r) (Oct_xMax oct), rect_yhi := max (rect_yhi r) (Oct_yMax oct)\<rparr>"

lemmas Oct_defs [geom_simps] =
  Oct_init_def Oct_of_points_def Oct_of_coords_def Oct_getWidth_def Oct_dx_def Oct_dy_def
  Oct_xMin_def Oct_yMin_def Oct_xMax_def Oct_yMax_def Oct_bloat_def Oct_getEnclosingRect_def
  Rect_merge_oct_to_def Rect_merge_oct_def

section \<open>Polygons and lines\<close>

record Polygon =
  poly_points :: "Point list"

definition Polygon_setPoints :: "(Point list \<Rightarrow> Point list) \<Rightarrow> Point list \<Rightarrow> Polygon" where
  "Polygon_setPoints correct points = \<lparr>poly_points = correct points\<rparr>"

definition Polygon_of_Rect :: "(Point list \<Rightarrow> Point list) \<Rightarrow> Rect \<Rightarrow> Polygon" where
  "Polygon_of_Rect correct rect = Polygon_setPoints correct (Rect_getPoints rect)"

definition Polygon_getEnclosingRect :: "Polygon \<Rightarrow> Rect" where
  "Polygon_getEnclosingRect poly =
     foldl (\<lambda>rect pt. Rect_merge rect (Rect_of_points pt pt)) Rect_mergeInit (poly_points poly)"

definition Polygon_dx :: "Polygon \<Rightarrow> int" where
  "Polygon_dx poly = Rect_dx (Polygon_getEnclosingRect poly)"

definition Polygon_dy :: "Polygon \<Rightarrow> int" where
  "Polygon_dy poly = Rect_dy (Polygon_getEnclosingRect poly)"

definition Polygon_isRect :: "(Point list \<Rightarrow> Point list) \<Rightarrow> Polygon \<Rightarrow> bool" where
  "Polygon_isRect correct poly \<longleftrightarrow>
     poly = Polygon_of_Rect correct (Polygon_getEnclosingRect poly)"

record Line =
  line_pt0 :: Point
  line_pt1 :: Point

definition Line_of_points :: "Point \<Rightarrow> Point \<Rightarrow> Line" where
  "Line_of_points pt0 pt1 = \<lparr>line_pt0 = pt0, line_pt1 = pt1\<rparr>"

definition Line_of_coords :: "int \<Rightarrow> int \<Rightarrow> int \<Rightarrow> int \<Rightarrow> Line" where
  "Line_of_coords x0 y0 x1 y1 = \<lparr>line_pt0 = Point x0 y0, line_pt1 = Point x1 y1\<rparr>"

definition Line_addX :: "Line \<Rightarrow> int \<Rightarrow> Line" where
  "Line_addX l v =
     \<lparr>line_pt0 = Point_setX (line_pt0 l) (px (line_pt0 l) + v),
      line_pt1 = Point_setX (line_pt1 l) (px (line_pt1 l) + v)\<rparr>"

definition Line_addY :: "Line \<Rightarrow> int \<Rightarrow> Line" where
  "Line_addY l v =
     \<lparr>line_pt0 = Point_setY (line_pt0 l) (py (line_pt0 l) + v),
      line_pt1 = Point_setY (line_pt1 l) (py (line_pt1 l) + v)\<rparr>"

definition Line_getPoints :: "Line \<Rightarrow> Point list" where
  "Line_getPoints l = [line_pt0 l, line_pt1 l]"

section \<open>Cuboids\<close>

record Cuboid =
  cub_xlo :: int
  cub_ylo :: int
  cub_zlo :: int
  cub_xhi :: int
  cub_yhi :: int
  cub_zhi :: int

definition Cuboid_init :: "int \<Rightarrow> int \<Rightarrow> int \<Rightarrow> int \<Rightarrow> int \<Rightarrow> int \<Rightarrow> Cuboid" where
  "Cuboid_init x1 y1 z1 x2 y2 z2 =
     \<lparr>cub_xlo = min x1 x2, cub_ylo = min y1 y2, cub_zlo = min z1 z2,
      cub_xhi = max x1 x2, cub_yhi = max y1 y2, cub_zhi = max z1 z2\<rparr>"

definition mk_Cuboid :: "int \<Rightarrow> int \<Rightarrow> int \<Rightarrow> int \<Rightarrow> int \<Rightarrow> int \<Rightarrow> Cuboid" where
  "mk_Cuboid x1 y1 z1 x2 y2 z2 = Cuboid_init x1 y1 z1 x2 y2 z2"

definition Cuboid_of_points :: "Point3D \<Rightarrow> Point3D \<Rightarrow> Cuboid" where
  "Cuboid_of_points p1 p2 = mk_Cuboid (p3x p1) (p3y p1) (p3z p1) (p3x p2) (p3y p2) (p3z p2)"

definition Cuboid_set_xlo :: "Cuboid \<Rightarrow> int \<Rightarrow> Cuboid" where "Cuboid_set_xlo c x = c\<lparr>cub_xlo := x\<rparr>"
definition Cuboid_set_xhi :: "Cuboid \<Rightarrow> int \<Rightarrow> Cuboid" where "Cuboid_set_xhi c x = c\<lparr>cub_xhi := x\<rparr>"
definition Cuboid_set_ylo :: "Cuboid \<Rightarrow> int \<Rightarrow> Cuboid" where "Cuboid_set_ylo c y = c\<lparr>cub_ylo := y\<rparr>"
definition Cuboid_set_yhi :: "Cuboid \<Rightarrow> int \<Rightarrow> Cuboid" where "Cuboid_set_yhi c y = c\<lparr>cub_yhi := y\<rparr>"
definition Cuboid_set_zlo :: "Cuboid \<Rightarrow> int \<Rightarrow> Cuboid" where "Cuboid_set_zlo c z = c\<lparr>cub_zlo := z\<rparr>"
definition Cuboid_set_zhi :: "Cuboid \<Rightarrow> int \<Rightarrow> Cuboid" where "Cuboid_set_zhi c z = c\<lparr>cub_zhi := z\<rparr>"

definition Cuboid_reset :: "int \<Rightarrow> int \<Rightarrow> int \<Rightarrow> int \<Rightarrow> int \<Rightarrow> int \<Rightarrow> Cuboid" where
  "Cuboid_reset x1 y1 z1 x2 y2 z2 =
     \<lparr>cub_xlo = x1, cub_ylo = y1, cub_zlo = z1, cub_xhi = x2, cub_yhi = y2, cub_zhi = z2\<rparr>"

definition Cuboid_dx :: "Cuboid \<Rightarrow> int" where "Cuboid_dx c = cub_xhi c - cub_xlo c"
definition Cuboid_dy :: "Cuboid \<Rightarrow> int" where "Cuboid_dy c = cub_yhi c - cub_ylo c"
definition Cuboid_dz :: "Cuboid \<Rightarrow> int" where "Cuboid_dz c = cub_zhi c - cub_zlo c"

definition Cuboid_xCenter :: "Cuboid \<Rightarrow> int" where "Cuboid_xCenter c = (cub_xlo c + cub_xhi c) sdiv 2"
definition Cuboid_yCenter :: "Cuboid \<Rightarrow> int" where "Cuboid_yCenter c = (cub_ylo c + cub_yhi c) sdiv 2"
definition Cuboid_zCenter :: "Cuboid \<Rightarrow> int" where "Cuboid_zCenter c = (cub_zlo c + cub_zhi c) sdiv 2"

definition Cuboid_moveTo :: "Cuboid \<Rightarrow> int \<Rightarrow> int \<Rightarrow> int \<Rightarrow> Cuboid" where
  "Cuboid_moveTo c x y z =
     (let DX = Cuboid_dx c; DY = Cuboid_dy c; DZ = Cuboid_dz c
      in \<lparr>cub_xlo = x, cub_ylo = y, cub_zlo = z,
          cub_xhi = x + DX, cub_yhi = y + DY, cub_zhi = z + DZ\<rparr>)"

definition Cuboid_moveDelta :: "Cuboid \<Rightarrow> int \<Rightarrow> int \<Rightarrow> int \<Rightarrow> Cuboid" where
  "Cuboid_moveDelta c dx dy dz =
     \<lparr>cub_xlo = cub_xlo c + dx, cub_ylo = cub_ylo c + dy, cub_zlo = cub_zlo c + dz,
      cub_xhi = cub_xhi c + dx, cub_yhi = cub_yhi c + dy, cub_zhi = cub_zhi c + dz\<rparr>"

definition Cuboid_getPoints :: "Cuboid \<Rightarrow> Point3D list" where
  "Cuboid_getPoints c =
     [Point3D (cub_xlo c) (cub_ylo c) (cub_zlo c),
      Point3D (cub_xhi c) (cub_ylo c) (cub_zlo c),
      Point3D (cub_xhi c) (cub_yhi c) (cub_zlo c),
      Point3D (cub_xlo c) (cub_yhi c) (cub_zlo c),
      Point3D (cub_xlo c) (cub_ylo c) (cub_zhi c),
      Point3D (cub_xhi c) (cub_ylo c) (cub_zhi c),
      Point3D (cub_xhi c) (cub_yhi c) (cub_zhi c),
      Point3D (cub_xlo c) (cub_yhi c) (cub_zhi c)]"

definition Cuboid_lll :: "Cuboid \<Rightarrow> Point3D" where
  "Cuboid_lll c = Point3D (cub_xlo c) (cub_ylo c) (cub_zlo c)"

definition Cuboid_uur :: "Cuboid \<Rightarrow> Point3D" where
  "Cuboid_uur c = Point3D (cub_xhi c) (cub_yhi c) (cub_zhi c)"

definition Cuboid_center :: "Cuboid \<Rightarrow> Point3D" where
  "Cuboid_center c = Point3D (Cuboid_xCenter c) (Cuboid_yCenter c) (Cuboid_zCenter c)"

definition Cuboid_getEnclosingRect :: "Cuboid \<Rightarrow> Rect" where
  "Cuboid_getEnclosingRect c = mk_Rect (cub_xlo c) (cub_ylo c) (cub_xhi c) (cub_yhi c)"

definition Cuboid_intersects_pt :: "Cuboid \<Rightarrow> Point3D \<Rightarrow> bool" where
  "Cuboid_intersects_pt c p \<longleftrightarrow>
     p3x p \<ge> cub_xlo c \<and> p3x p \<le> cub_xhi c \<and> p3y p \<ge> cub_ylo c \<and> p3y p \<le> cub_yhi c \<and>
     p3z p \<ge> cub_zlo c \<and> p3z p \<le> cub_zhi c"

definition Cuboid_intersects :: "Cuboid \<Rightarrow> Cuboid \<Rightarrow> bool" where
  "Cuboid_intersects c b \<longleftrightarrow>
     cub_xhi b \<ge> cub_xlo c \<and> cub_xlo b \<le> cub_xhi c \<and> cub_yhi b \<ge> cub_ylo c \<and>
     cub_ylo b \<le> cub_yhi c \<and> cub_zhi b \<ge> cub_zlo c \<and> cub_zlo b \<le> cub_zhi c"

definition Cuboid_xyIntersects :: "Cuboid \<Rightarrow> Cuboid \<Rightarrow> bool" where
  "Cuboid_xyIntersects c b \<longleftrightarrow>
     cub_xhi b \<ge> cub_xlo c \<and> cub_xlo b \<le> cub_xhi c \<and> cub_yhi b \<ge> cub_ylo c \<and>
     cub_ylo b \<le> cub_yhi c"

definition Cuboid_overlaps_pt :: "Cuboid \<Rightarrow> Point3D \<Rightarrow> bool" where
  "Cuboid_overlaps_pt c p \<longleftrightarrow>
     p3x p > cub_xlo c \<and> p3x p < cub_xhi c \<and> p3y p > cub_ylo c \<and> p3y p < cub_yhi c \<and>
     p3z p > cub_zlo c \<and> p3z p < cub_zhi c"

definition Cuboid_overlaps :: "Cuboid \<Rightarrow> Cuboid \<Rightarrow> bool" where
  "Cuboid_overlaps c b \<longleftrightarrow>
     cub_xhi b > cub_xlo c \<and> cub_xlo b < cub_xhi c \<and> cub_yhi b > cub_ylo c \<and>
     cub_ylo b < cub_yhi c \<and> cub_zhi b > cub_zlo c \<and> cub_zlo b < cub_zhi c"

definition Cuboid_xyOverlaps :: "Cuboid \<Rightarrow> Cuboid \<Rightarrow> bool" where
  "Cuboid_xyOverlaps c b \<longleftrightarrow>
     cub_xhi b > cub_xlo c \<and> cub_xlo b < cub_xhi c \<and> cub_yhi b > cub_ylo c \<and>
     cub_ylo b < cub_yhi c"

definition Cuboid_contains :: "Cuboid \<Rightarrow> Cuboid \<Rightarrow> bool" where
  "Cuboid_contains c b \<longleftrightarrow>
     cub_xlo c \<le> cub_xlo b \<and> cub_ylo c \<le> cub_ylo b \<and> cub_zlo c \<le> cub_zlo b \<and>
     cub_xhi c \<ge> cub_xhi b \<and> cub_yhi c \<ge> cub_yhi b \<and> cub_zhi c \<ge> cub_zhi b"

definition Cuboid_inside :: "Cuboid \<Rightarrow> Cuboid \<Rightarrow> bool" where
  "Cuboid_inside c b \<longleftrightarrow>
     cub_xlo c < cub_xlo b \<and> cub_ylo c < cub_ylo b \<and> cub_zlo c < cub_zlo b \<and>
     cub_xhi c > cub_xhi b \<and> cub_yhi c > cub_yhi b \<and> cub_zhi c > cub_zhi b"

definition Cuboid_closestPtInside :: "Cuboid \<Rightarrow> Point3D \<Rightarrow> Point3D" where
  "Cuboid_closestPtInside c pt =
     Point3D (min (max (p3x pt) (cub_xlo c)) (cub_xhi c))
             (min (max (p3y pt) (cub_ylo c)) (cub_yhi c))
             (min (max (p3z pt) (cub_zlo c)) (cub_zhi c))"

definition Cuboid_mergeInit :: Cuboid where
  "Cuboid_mergeInit =
     \<lparr>cub_xlo = INT_MAX, cub_ylo = INT_MAX, cub_zlo = INT_MAX,
      cub_xhi = INT_MIN, cub_yhi = INT_MIN, cub_zhi = INT_MIN\<rparr>"

definition Cuboid_merge_pt_to :: "Cuboid \<Rightarrow> Point3D \<Rightarrow> Cuboid" where
  "Cuboid_merge_pt_to c p =
     \<lparr>cub_xlo = min (cub_xlo c) (p3x p), cub_ylo = min (cub_ylo c) (p3y p),
      cub_zlo = min (cub_zlo c) (p3z p), cub_xhi = max (cub_xhi c) (p3x p),
      cub_yhi = max (cub_yhi c) (p3y p), cub_zhi = max (cub_zhi c) (p3z p)\<rparr>"

definition Cuboid_merge_to :: "Cuboid \<Rightarrow> Cuboid \<Rightarrow> Cuboid" where
  "Cuboid_merge_to c b =
     \<lparr>cub_xlo = min (cub_xlo c) (cub_xlo b), cub_ylo = min (cub_ylo c) (cub_ylo b),
      cub_zlo = min (cub_zlo c) (cub_zlo b), cub_xhi = max (cub_xhi c) (cub_xhi b),
      cub_yhi = max (cub_yhi c) (cub_yhi b), cub_zhi = max (cub_zhi c) (cub_zhi b)\<rparr>"

definition Cuboid_merge_pt :: "Cuboid \<Rightarrow> Point3D \<Rightarrow> Cuboid" where
  "Cuboid_merge_pt c p =
     c\<lparr>cub_xlo := min (cub_xlo c) (p3x p), cub_ylo := min (cub_ylo c) (p3y p),
       cub_zlo := min (cub_zlo c) (p3z p), cub_xhi := max (cub_xhi c) (p3x p),
       cub_yhi := max (cub_yhi c) (p3y p), cub_zhi := max (cub_zhi c) (p3z p)\<rparr>"

definition Cuboid_merge :: "Cuboid \<Rightarrow> Cuboid \<Rightarrow> Cuboid" where
  "Cuboid_merge c b =
     c\<lparr>cub_xlo := min (cub_xlo c) (cub_xlo b), cub_ylo := min (cub_ylo c) (cub_ylo b),
       cub_zlo := min (cub_zlo c) (cub_zlo b), cub_xhi := max (cub_xhi c) (cub_xhi b),
       cub_yhi := max (cub_yhi c) (cub_yhi b), cub_zhi := max (cub_zhi c) (cub_zhi b)\<rparr>"

definition Cuboid_bloat :: "Cuboid \<Rightarrow> int \<Rightarrow> Cuboid" where
  "Cuboid_bloat c margin =
     \<lparr>cub_xlo = cub_xlo c - margin, cub_ylo = cub_ylo c - margin, cub_zlo = cub_zlo c - margin,
      cub_xhi = cub_xhi c + margin, cub_yhi = cub_yhi c + margin, cub_zhi = cub_zhi c + margin\<rparr>"

definition Cuboid_intersect :: "Cuboid \<Rightarrow> Cuboid \<Rightarrow> Cuboid option" where
  "Cuboid_intersect c b =
     (if Cuboid_intersects c b
      then Some
        \<lparr>cub_xlo = max (cub_xlo c) (cub_xlo b), cub_ylo = max (cub_ylo c) (cub_ylo b),
         cub_zlo = max (cub_zlo c) (cub_zlo b), cub_xhi = min (cub_xhi c) (cub_xhi b),
         cub_yhi = min (cub_yhi c) (cub_yhi b), cub_zhi = min (cub_zhi c) (cub_zhi b)\<rparr>
      else None)"

definition Cuboid_volume :: "Cuboid \<Rightarrow> int" where
  "Cuboid_volume c = Cuboid_dx c * Cuboid_dy c * Cuboid_dz c"

definition Cuboid_isInverted :: "Cuboid \<Rightarrow> bool" where
  "Cuboid_isInverted c \<longleftrightarrow>
     cub_xlo c > cub_xhi c \<or> cub_ylo c > cub_yhi c \<or> cub_zlo c > cub_zhi c"

lemmas Cuboid_defs [geom_simps] =
  Cuboid_init_def mk_Cuboid_def Cuboid_of_points_def Cuboid_set_xlo_def Cuboid_set_xhi_def
  Cuboid_set_ylo_def Cuboid_set_yhi_def Cuboid_set_zlo_def Cuboid_set_zhi_def Cuboid_reset_def
  Cuboid_dx_def Cuboid_dy_def Cuboid_dz_def Cuboid_xCenter_def Cuboid_yCenter_def
  Cuboid_zCenter_def Cuboid_moveTo_def Cuboid_moveDelta_def Cuboid_lll_def Cuboid_uur_def
  Cuboid_center_def Cuboid_getEnclosingRect_def Cuboid_intersects_pt_def Cuboid_intersects_def
  Cuboid_xyIntersects_def Cuboid_overlaps_pt_def Cuboid_overlaps_def Cuboid_xyOverlaps_def
  Cuboid_contains_def Cuboid_inside_def Cuboid_closestPtInside_def Cuboid_mergeInit_def
  Cuboid_merge_pt_to_def Cuboid_merge_to_def Cuboid_merge_pt_def Cuboid_merge_def
  Cuboid_bloat_def Cuboid_volume_def Cuboid_isInverted_def

end
