(* ===== verification/DbEnums.thy ===== *)
theory DbEnums
  imports OdbPrelude
begin

text \<open>
  The enumerated database types of \<^verbatim>\<open>odb/dbTypes.h\<close> and \<^verbatim>\<open>odb/dbTypes.cpp\<close> that
  have a string form: for each class \<^verbatim>\<open>dbX\<close>, its \<^verbatim>\<open>Value\<close> enumeration as a
  datatype, the value of the default constructor (\<open>dbX_default\<close>), the constructor from a C string
  (\<open>dbX_of_string\<close>, the chain of \<^verbatim>\<open>strcasecmp\<close> tests in the order of the code with
  its fallback), \<open>dbX_getString\<close> and the classification predicates. The
  \<^verbatim>\<open>return ""\<close> and \<^verbatim>\<open>assert(false)\<close> after each \<^verbatim>\<open>switch\<close> stand for values
  outside the enumeration, which the datatypes do not have. Constructors are always written with
  their type (\<open>dbSigType.POWER\<close>), as the C++ scopes them.

  The interface of such a class is the locale \<open>enum_codec\<close>, interpreted for every class that has both
  directions; its lemmas give that the names are distinct, that reading ignores case, and that
  reading and printing normalises.
\<close>

section \<open>The enumerations\<close>

subsection \<open>dbGroupType\<close>

datatype dbGroupType = PHYSICAL_CLUSTER
  | VOLTAGE_DOMAIN
  | POWER_DOMAIN
  | VISUAL_DEBUG

definition dbGroupType_default :: dbGroupType where
  "dbGroupType_default = dbGroupType.PHYSICAL_CLUSTER"

definition dbGroupType_of_string :: "string \<Rightarrow> dbGroupType" where
  "dbGroupType_of_string value =
    (if strcasecmp value ''PHYSICAL_CLUSTER'' = 0 then dbGroupType.PHYSICAL_CLUSTER
     else if strcasecmp value ''VOLTAGE_DOMAIN'' = 0 then dbGroupType.VOLTAGE_DOMAIN
     else if strcasecmp value ''POWER_DOMAIN'' = 0 then dbGroupType.POWER_DOMAIN
     else dbGroupType.PHYSICAL_CLUSTER)"

primrec dbGroupType_getString :: "dbGroupType \<Rightarrow> string" where
  "dbGroupType_getString dbGroupType.PHYSICAL_CLUSTER = ''PHYSICAL_CLUSTER''"
| "dbGroupType_getString dbGroupType.VOLTAGE_DOMAIN = ''VOLTAGE_DOMAIN''"
| "dbGroupType_getString dbGroupType.POWER_DOMAIN = ''POWER_DOMAIN''"
| "dbGroupType_getString dbGroupType.VISUAL_DEBUG = ''VISUAL_DEBUG''"

subsection \<open>dbSigType\<close>

datatype dbSigType = SIGNAL
  | POWER
  | GROUND
  | CLOCK
  | ANALOG
  | RESET
  | SCAN
  | TIEOFF

definition dbSigType_default :: dbSigType where
  "dbSigType_default = dbSigType.SIGNAL"

definition dbSigType_of_string :: "string \<Rightarrow> dbSigType" where
  "dbSigType_of_string value =
    (if strcasecmp value ''SIGNAL'' = 0 then dbSigType.SIGNAL
     else if strcasecmp value ''POWER'' = 0 then dbSigType.POWER
     else if strcasecmp value ''GROUND'' = 0 then dbSigType.GROUND
     else if strcasecmp value ''CLOCK'' = 0 then dbSigType.CLOCK
     else if strcasecmp value ''ANALOG'' = 0 then dbSigType.ANALOG
     else if strcasecmp value ''RESET'' = 0 then dbSigType.RESET
     else if strcasecmp value ''SCAN'' = 0 then dbSigType.SCAN
     else if strcasecmp value ''TIEOFF'' = 0 then dbSigType.TIEOFF
     else dbSigType.SIGNAL)"

primrec dbSigType_isSupply :: "dbSigType \<Rightarrow> bool" where
  "dbSigType_isSupply dbSigType.POWER = True"
| "dbSigType_isSupply dbSigType.GROUND = True"
| "dbSigType_isSupply dbSigType.SIGNAL = False"
| "dbSigType_isSupply dbSigType.CLOCK = False"
| "dbSigType_isSupply dbSigType.ANALOG = False"
| "dbSigType_isSupply dbSigType.RESET = False"
| "dbSigType_isSupply dbSigType.SCAN = False"
| "dbSigType_isSupply dbSigType.TIEOFF = False"

primrec dbSigType_getString :: "dbSigType \<Rightarrow> string" where
  "dbSigType_getString dbSigType.SIGNAL = ''SIGNAL''"
| "dbSigType_getString dbSigType.POWER = ''POWER''"
| "dbSigType_getString dbSigType.GROUND = ''GROUND''"
| "dbSigType_getString dbSigType.CLOCK = ''CLOCK''"
| "dbSigType_getString dbSigType.ANALOG = ''ANALOG''"
| "dbSigType_getString dbSigType.RESET = ''RESET''"
| "dbSigType_getString dbSigType.SCAN = ''SCAN''"
| "dbSigType_getString dbSigType.TIEOFF = ''TIEOFF''"

subsection \<open>dbIoType\<close>

datatype dbIoType = INPUT
  | OUTPUT
  | INOUT
  | FEEDTHRU

definition dbIoType_default :: dbIoType where
  "dbIoType_default = dbIoType.INPUT"

definition dbIoType_of_string :: "string \<Rightarrow> dbIoType" where
  "dbIoType_of_string value =
    (if strcasecmp value ''INPUT'' = 0 then dbIoType.INPUT
     else if strcasecmp value ''OUTPUT'' = 0 then dbIoType.OUTPUT
     else if strcasecmp value ''INOUT'' = 0 then dbIoType.INOUT
     else if strcasecmp value ''FEEDTHRU'' = 0 then dbIoType.FEEDTHRU
     else dbIoType.INPUT)"

primrec dbIoType_getString :: "dbIoType \<Rightarrow> string" where
  "dbIoType_getString dbIoType.INPUT = ''INPUT''"
| "dbIoType_getString dbIoType.OUTPUT = ''OUTPUT''"
| "dbIoType_getString dbIoType.INOUT = ''INOUT''"
| "dbIoType_getString dbIoType.FEEDTHRU = ''FEEDTHRU''"

subsection \<open>dbPlacementStatus\<close>

datatype dbPlacementStatus = NONE
  | UNPLACED
  | SUGGESTED
  | PLACED
  | LOCKED
  | FIRM
  | COVER

definition dbPlacementStatus_default :: dbPlacementStatus where
  "dbPlacementStatus_default = dbPlacementStatus.NONE"

definition dbPlacementStatus_of_string :: "string \<Rightarrow> dbPlacementStatus" where
  "dbPlacementStatus_of_string value =
    (if strcasecmp value ''NONE'' = 0 then dbPlacementStatus.NONE
     else if strcasecmp value ''UNPLACED'' = 0 then dbPlacementStatus.UNPLACED
     else if strcasecmp value ''SUGGESTED'' = 0 then dbPlacementStatus.SUGGESTED
     else if strcasecmp value ''PLACED'' = 0 then dbPlacementStatus.PLACED
     else if strcasecmp value ''LOCKED'' = 0 then dbPlacementStatus.LOCKED
     else if strcasecmp value ''FIRM'' = 0 then dbPlacementStatus.FIRM
     else if strcasecmp value ''COVER'' = 0 then dbPlacementStatus.COVER
     else dbPlacementStatus.NONE)"

primrec dbPlacementStatus_getString :: "dbPlacementStatus \<Rightarrow> string" where
  "dbPlacementStatus_getString dbPlacementStatus.NONE = ''NONE''"
| "dbPlacementStatus_getString dbPlacementStatus.UNPLACED = ''UNPLACED''"
| "dbPlacementStatus_getString dbPlacementStatus.SUGGESTED = ''SUGGESTED''"
| "dbPlacementStatus_getString dbPlacementStatus.PLACED = ''PLACED''"
| "dbPlacementStatus_getString dbPlacementStatus.LOCKED = ''LOCKED''"
| "dbPlacementStatus_getString dbPlacementStatus.FIRM = ''FIRM''"
| "dbPlacementStatus_getString dbPlacementStatus.COVER = ''COVER''"

primrec dbPlacementStatus_isPlaced :: "dbPlacementStatus \<Rightarrow> bool" where
  "dbPlacementStatus_isPlaced dbPlacementStatus.NONE = False"
| "dbPlacementStatus_isPlaced dbPlacementStatus.UNPLACED = False"
| "dbPlacementStatus_isPlaced dbPlacementStatus.SUGGESTED = False"
| "dbPlacementStatus_isPlaced dbPlacementStatus.PLACED = True"
| "dbPlacementStatus_isPlaced dbPlacementStatus.LOCKED = True"
| "dbPlacementStatus_isPlaced dbPlacementStatus.FIRM = True"
| "dbPlacementStatus_isPlaced dbPlacementStatus.COVER = True"

primrec dbPlacementStatus_isFixed :: "dbPlacementStatus \<Rightarrow> bool" where
  "dbPlacementStatus_isFixed dbPlacementStatus.NONE = False"
| "dbPlacementStatus_isFixed dbPlacementStatus.UNPLACED = False"
| "dbPlacementStatus_isFixed dbPlacementStatus.SUGGESTED = False"
| "dbPlacementStatus_isFixed dbPlacementStatus.PLACED = False"
| "dbPlacementStatus_isFixed dbPlacementStatus.LOCKED = True"
| "dbPlacementStatus_isFixed dbPlacementStatus.FIRM = True"
| "dbPlacementStatus_isFixed dbPlacementStatus.COVER = True"

subsection \<open>dbMasterType\<close>

datatype dbMasterType = COVER
  | COVER_BUMP
  | RING
  | BLOCK
  | BLOCK_BLACKBOX
  | BLOCK_SOFT
  | PAD
  | PAD_INPUT
  | PAD_OUTPUT
  | PAD_INOUT
  | PAD_POWER
  | PAD_SPACER
  | PAD_AREAIO
  | CORE
  | CORE_FEEDTHRU
  | CORE_TIEHIGH
  | CORE_TIELOW
  | CORE_SPACER
  | CORE_ANTENNACELL
  | CORE_WELLTAP
  | ENDCAP
  | ENDCAP_PRE
  | ENDCAP_POST
  | ENDCAP_TOPLEFT
  | ENDCAP_TOPRIGHT
  | ENDCAP_BOTTOMLEFT
  | ENDCAP_BOTTOMRIGHT
  | ENDCAP_LEF58_BOTTOMEDGE
  | ENDCAP_LEF58_TOPEDGE
  | ENDCAP_LEF58_LEFTEDGE
  | ENDCAP_LEF58_RIGHTEDGE
  | ENDCAP_LEF58_RIGHTBOTTOMEDGE
  | ENDCAP_LEF58_LEFTBOTTOMEDGE
  | ENDCAP_LEF58_RIGHTTOPEDGE
  | ENDCAP_LEF58_LEFTTOPEDGE
  | ENDCAP_LEF58_RIGHTBOTTOMCORNER
  | ENDCAP_LEF58_LEFTBOTTOMCORNER
  | ENDCAP_LEF58_RIGHTTOPCORNER
  | ENDCAP_LEF58_LEFTTOPCORNER

definition dbMasterType_default :: dbMasterType where
  "dbMasterType_default = dbMasterType.CORE"

definition dbMasterType_of_string :: "string \<Rightarrow> dbMasterType" where
  "dbMasterType_of_string value =
    (if strcasecmp value ''COVER'' = 0 then dbMasterType.COVER
     else if strcasecmp value ''COVER BUMP'' = 0 then dbMasterType.COVER_BUMP
     else if strcasecmp value ''RING'' = 0 then dbMasterType.RING
     else if strcasecmp value ''BLOCK'' = 0 then dbMasterType.BLOCK
     else if strcasecmp value ''BLOCK BLACKBOX'' = 0 then dbMasterType.BLOCK_BLACKBOX
     else if strcasecmp value ''BLOCK SOFT'' = 0 then dbMasterType.BLOCK_SOFT
     else if strcasecmp value ''PAD'' = 0 then dbMasterType.PAD
     else if strcasecmp value ''PAD INPUT'' = 0 then dbMasterType.PAD_INPUT
     else if strcasecmp value ''PAD OUTPUT'' = 0 then dbMasterType.PAD_OUTPUT
     else if strcasecmp value ''PAD INOUT'' = 0 then dbMasterType.PAD_INOUT
     else if strcasecmp value ''PAD POWER'' = 0 then dbMasterType.PAD_POWER
     else if strcasecmp value ''PAD SPACER'' = 0 then dbMasterType.PAD_SPACER
     else if strcasecmp value ''PAD AREAIO'' = 0 then dbMasterType.PAD_AREAIO
     else if strcasecmp value ''CORE'' = 0 then dbMasterType.CORE
     else if strcasecmp value ''CORE FEEDTHRU'' = 0 then dbMasterType.CORE_FEEDTHRU
     else if strcasecmp value ''CORE TIEHIGH'' = 0 then dbMasterType.CORE_TIEHIGH
     else if strcasecmp value ''CORE TIELOW'' = 0 then dbMasterType.CORE_TIELOW
     else if strcasecmp value ''CORE SPACER'' = 0 then dbMasterType.CORE_SPACER
     else if strcasecmp value ''CORE ANTENNACELL'' = 0 then dbMasterType.CORE_ANTENNACELL
     else if strcasecmp value ''CORE WELLTAP'' = 0 then dbMasterType.CORE_WELLTAP
     else if strcasecmp value ''ENDCAP'' = 0 then dbMasterType.ENDCAP
     else if strcasecmp value ''ENDCAP PRE'' = 0 then dbMasterType.ENDCAP_PRE
     else if strcasecmp value ''ENDCAP POST'' = 0 then dbMasterType.ENDCAP_POST
     else if strcasecmp value ''ENDCAP TOPLEFT'' = 0 then dbMasterType.ENDCAP_TOPLEFT
     else if strcasecmp value ''ENDCAP TOPRIGHT'' = 0 then dbMasterType.ENDCAP_TOPRIGHT
     else if strcasecmp value ''ENDCAP BOTTOMLEFT'' = 0 then dbMasterType.ENDCAP_BOTTOMLEFT
     else if strcasecmp value ''ENDCAP BOTTOMRIGHT'' = 0 then dbMasterType.ENDCAP_BOTTOMRIGHT
     else if strcasecmp value ''ENDCAP BOTTOMEDGE'' = 0 then dbMasterType.ENDCAP_LEF58_BOTTOMEDGE
     else if strcasecmp value ''ENDCAP TOPEDGE'' = 0 then dbMasterType.ENDCAP_LEF58_TOPEDGE
     else if strcasecmp value ''ENDCAP RIGHTEDGE'' = 0 then dbMasterType.ENDCAP_LEF58_RIGHTEDGE
     else if strcasecmp value ''ENDCAP LEFTEDGE'' = 0 then dbMasterType.ENDCAP_LEF58_LEFTEDGE
     else if strcasecmp value ''ENDCAP RIGHTBOTTOMEDGE'' = 0 then dbMasterType.ENDCAP_LEF58_RIGHTBOTTOMEDGE
     else if strcasecmp value ''ENDCAP LEFTBOTTOMEDGE'' = 0 then dbMasterType.ENDCAP_LEF58_LEFTBOTTOMEDGE
     else if strcasecmp value ''ENDCAP RIGHTTOPEDGE'' = 0 then dbMasterType.ENDCAP_LEF58_RIGHTTOPEDGE
     else if strcasecmp value ''ENDCAP LEFTTOPEDGE'' = 0 then dbMasterType.ENDCAP_LEF58_LEFTTOPEDGE
     else if strcasecmp value ''ENDCAP RIGHTBOTTOMCORNER'' = 0 then dbMasterType.ENDCAP_LEF58_RIGHTBOTTOMCORNER
     else if strcasecmp value ''ENDCAP LEFTBOTTOMCORNER'' = 0 then dbMasterType.ENDCAP_LEF58_LEFTBOTTOMCORNER
     else if strcasecmp value ''ENDCAP RIGHTTOPCORNER'' = 0 then dbMasterType.ENDCAP_LEF58_RIGHTTOPCORNER
     else if strcasecmp value ''ENDCAP LEFTTOPCORNER'' = 0 then dbMasterType.ENDCAP_LEF58_LEFTTOPCORNER
     else dbMasterType.CORE)"

primrec dbMasterType_getString :: "dbMasterType \<Rightarrow> string" where
  "dbMasterType_getString dbMasterType.COVER = ''COVER''"
| "dbMasterType_getString dbMasterType.COVER_BUMP = ''COVER BUMP''"
| "dbMasterType_getString dbMasterType.RING = ''RING''"
| "dbMasterType_getString dbMasterType.BLOCK = ''BLOCK''"
| "dbMasterType_getString dbMasterType.BLOCK_BLACKBOX = ''BLOCK BLACKBOX''"
| "dbMasterType_getString dbMasterType.BLOCK_SOFT = ''BLOCK SOFT''"
| "dbMasterType_getString dbMasterType.PAD = ''PAD''"
| "dbMasterType_getString dbMasterType.PAD_INPUT = ''PAD INPUT''"
| "dbMasterType_getString dbMasterType.PAD_OUTPUT = ''PAD OUTPUT''"
| "dbMasterType_getString dbMasterType.PAD_INOUT = ''PAD INOUT''"
| "dbMasterType_getString dbMasterType.PAD_POWER = ''PAD POWER''"
| "dbMasterType_getString dbMasterType.PAD_SPACER = ''PAD SPACER''"
| "dbMasterType_getString dbMasterType.PAD_AREAIO = ''PAD AREAIO''"
| "dbMasterType_getString dbMasterType.CORE = ''CORE''"
| "dbMasterType_getString dbMasterType.CORE_FEEDTHRU = ''CORE FEEDTHRU''"
| "dbMasterType_getString dbMasterType.CORE_TIEHIGH = ''CORE TIEHIGH''"
| "dbMasterType_getString dbMasterType.CORE_TIELOW = ''CORE TIELOW''"
| "dbMasterType_getString dbMasterType.CORE_SPACER = ''CORE SPACER''"
| "dbMasterType_getString dbMasterType.CORE_ANTENNACELL = ''CORE ANTENNACELL''"
| "dbMasterType_getString dbMasterType.CORE_WELLTAP = ''CORE WELLTAP''"
| "dbMasterType_getString dbMasterType.ENDCAP = ''ENDCAP''"
| "dbMasterType_getString dbMasterType.ENDCAP_PRE = ''ENDCAP PRE''"
| "dbMasterType_getString dbMasterType.ENDCAP_POST = ''ENDCAP POST''"
| "dbMasterType_getString dbMasterType.ENDCAP_TOPLEFT = ''ENDCAP TOPLEFT''"
| "dbMasterType_getString dbMasterType.ENDCAP_TOPRIGHT = ''ENDCAP TOPRIGHT''"
| "dbMasterType_getString dbMasterType.ENDCAP_BOTTOMLEFT = ''ENDCAP BOTTOMLEFT''"
| "dbMasterType_getString dbMasterType.ENDCAP_BOTTOMRIGHT = ''ENDCAP BOTTOMRIGHT''"
| "dbMasterType_getString dbMasterType.ENDCAP_LEF58_BOTTOMEDGE = ''ENDCAP BOTTOMEDGE''"
| "dbMasterType_getString dbMasterType.ENDCAP_LEF58_TOPEDGE = ''ENDCAP TOPEDGE''"
| "dbMasterType_getString dbMasterType.ENDCAP_LEF58_RIGHTEDGE = ''ENDCAP RIGHTEDGE''"
| "dbMasterType_getString dbMasterType.ENDCAP_LEF58_LEFTEDGE = ''ENDCAP LEFTEDGE''"
| "dbMasterType_getString dbMasterType.ENDCAP_LEF58_RIGHTBOTTOMEDGE = ''ENDCAP RIGHTBOTTOMEDGE''"
| "dbMasterType_getString dbMasterType.ENDCAP_LEF58_LEFTBOTTOMEDGE = ''ENDCAP LEFTBOTTOMEDGE''"
| "dbMasterType_getString dbMasterType.ENDCAP_LEF58_RIGHTTOPEDGE = ''ENDCAP RIGHTTOPEDGE''"
| "dbMasterType_getString dbMasterType.ENDCAP_LEF58_LEFTTOPEDGE = ''ENDCAP LEFTTOPEDGE''"
| "dbMasterType_getString dbMasterType.ENDCAP_LEF58_RIGHTBOTTOMCORNER = ''ENDCAP RIGHTBOTTOMCORNER''"
| "dbMasterType_getString dbMasterType.ENDCAP_LEF58_LEFTBOTTOMCORNER = ''ENDCAP LEFTBOTTOMCORNER''"
| "dbMasterType_getString dbMasterType.ENDCAP_LEF58_RIGHTTOPCORNER = ''ENDCAP RIGHTTOPCORNER''"
| "dbMasterType_getString dbMasterType.ENDCAP_LEF58_LEFTTOPCORNER = ''ENDCAP LEFTTOPCORNER''"

primrec dbMasterType_isBlock :: "dbMasterType \<Rightarrow> bool" where
  "dbMasterType_isBlock dbMasterType.BLOCK = True"
| "dbMasterType_isBlock dbMasterType.BLOCK_BLACKBOX = True"
| "dbMasterType_isBlock dbMasterType.BLOCK_SOFT = True"
| "dbMasterType_isBlock dbMasterType.COVER = False"
| "dbMasterType_isBlock dbMasterType.COVER_BUMP = False"
| "dbMasterType_isBlock dbMasterType.RING = False"
| "dbMasterType_isBlock dbMasterType.PAD = False"
| "dbMasterType_isBlock dbMasterType.PAD_INPUT = False"
| "dbMasterType_isBlock dbMasterType.PAD_OUTPUT = False"
| "dbMasterType_isBlock dbMasterType.PAD_INOUT = False"
| "dbMasterType_isBlock dbMasterType.PAD_POWER = False"
| "dbMasterType_isBlock dbMasterType.PAD_SPACER = False"
| "dbMasterType_isBlock dbMasterType.PAD_AREAIO = False"
| "dbMasterType_isBlock dbMasterType.CORE = False"
| "dbMasterType_isBlock dbMasterType.CORE_FEEDTHRU = False"
| "dbMasterType_isBlock dbMasterType.CORE_TIEHIGH = False"
| "dbMasterType_isBlock dbMasterType.CORE_TIELOW = False"
| "dbMasterType_isBlock dbMasterType.CORE_SPACER = False"
| "dbMasterType_isBlock dbMasterType.CORE_ANTENNACELL = False"
| "dbMasterType_isBlock dbMasterType.CORE_WELLTAP = False"
| "dbMasterType_isBlock dbMasterType.ENDCAP = False"
| "dbMasterType_isBlock dbMasterType.ENDCAP_PRE = False"
| "dbMasterType_isBlock dbMasterType.ENDCAP_POST = False"
| "dbMasterType_isBlock dbMasterType.ENDCAP_TOPLEFT = False"
| "dbMasterType_isBlock dbMasterType.ENDCAP_TOPRIGHT = False"
| "dbMasterType_isBlock dbMasterType.ENDCAP_BOTTOMLEFT = False"
| "dbMasterType_isBlock dbMasterType.ENDCAP_BOTTOMRIGHT = False"
| "dbMasterType_isBlock dbMasterType.ENDCAP_LEF58_BOTTOMEDGE = False"
| "dbMasterType_isBlock dbMasterType.ENDCAP_LEF58_TOPEDGE = False"
| "dbMasterType_isBlock dbMasterType.ENDCAP_LEF58_RIGHTEDGE = False"
| "dbMasterType_isBlock dbMasterType.ENDCAP_LEF58_LEFTEDGE = False"
| "dbMasterType_isBlock dbMasterType.ENDCAP_LEF58_RIGHTBOTTOMEDGE = False"
| "dbMasterType_isBlock dbMasterType.ENDCAP_LEF58_LEFTBOTTOMEDGE = False"
| "dbMasterType_isBlock dbMasterType.ENDCAP_LEF58_RIGHTTOPEDGE = False"
| "dbMasterType_isBlock dbMasterType.ENDCAP_LEF58_LEFTTOPEDGE = False"
| "dbMasterType_isBlock dbMasterType.ENDCAP_LEF58_RIGHTBOTTOMCORNER = False"
| "dbMasterType_isBlock dbMasterType.ENDCAP_LEF58_LEFTBOTTOMCORNER = False"
| "dbMasterType_isBlock dbMasterType.ENDCAP_LEF58_RIGHTTOPCORNER = False"
| "dbMasterType_isBlock dbMasterType.ENDCAP_LEF58_LEFTTOPCORNER = False"

primrec dbMasterType_isCore :: "dbMasterType \<Rightarrow> bool" where
  "dbMasterType_isCore dbMasterType.CORE = True"
| "dbMasterType_isCore dbMasterType.CORE_FEEDTHRU = True"
| "dbMasterType_isCore dbMasterType.CORE_TIEHIGH = True"
| "dbMasterType_isCore dbMasterType.CORE_TIELOW = True"
| "dbMasterType_isCore dbMasterType.CORE_SPACER = True"
| "dbMasterType_isCore dbMasterType.CORE_ANTENNACELL = True"
| "dbMasterType_isCore dbMasterType.CORE_WELLTAP = True"
| "dbMasterType_isCore dbMasterType.COVER = False"
| "dbMasterType_isCore dbMasterType.COVER_BUMP = False"
| "dbMasterType_isCore dbMasterType.RING = False"
| "dbMasterType_isCore dbMasterType.BLOCK = False"
| "dbMasterType_isCore dbMasterType.BLOCK_BLACKBOX = False"
| "dbMasterType_isCore dbMasterType.BLOCK_SOFT = False"
| "dbMasterType_isCore dbMasterType.PAD = False"
| "dbMasterType_isCore dbMasterType.PAD_INPUT = False"
| "dbMasterType_isCore dbMasterType.PAD_OUTPUT = False"
| "dbMasterType_isCore dbMasterType.PAD_INOUT = False"
| "dbMasterType_isCore dbMasterType.PAD_POWER = False"
| "dbMasterType_isCore dbMasterType.PAD_SPACER = False"
| "dbMasterType_isCore dbMasterType.PAD_AREAIO = False"
| "dbMasterType_isCore dbMasterType.ENDCAP = False"
| "dbMasterType_isCore dbMasterType.ENDCAP_PRE = False"
| "dbMasterType_isCore dbMasterType.ENDCAP_POST = False"
| "dbMasterType_isCore dbMasterType.ENDCAP_TOPLEFT = False"
| "dbMasterType_isCore dbMasterType.ENDCAP_TOPRIGHT = False"
| "dbMasterType_isCore dbMasterType.ENDCAP_BOTTOMLEFT = False"
| "dbMasterType_isCore dbMasterType.ENDCAP_BOTTOMRIGHT = False"
| "dbMasterType_isCore dbMasterType.ENDCAP_LEF58_BOTTOMEDGE = False"
| "dbMasterType_isCore dbMasterType.ENDCAP_LEF58_TOPEDGE = False"
| "dbMasterType_isCore dbMasterType.ENDCAP_LEF58_RIGHTEDGE = False"
| "dbMasterType_isCore dbMasterType.ENDCAP_LEF58_LEFTEDGE = False"
| "dbMasterType_isCore dbMasterType.ENDCAP_LEF58_RIGHTBOTTOMEDGE = False"
| "dbMasterType_isCore dbMasterType.ENDCAP_LEF58_LEFTBOTTOMEDGE = False"
| "dbMasterType_isCore dbMasterType.ENDCAP_LEF58_RIGHTTOPEDGE = False"
| "dbMasterType_isCore dbMasterType.ENDCAP_LEF58_LEFTTOPEDGE = False"
| "dbMasterType_isCore dbMasterType.ENDCAP_LEF58_RIGHTBOTTOMCORNER = False"
| "dbMasterType_isCore dbMasterType.ENDCAP_LEF58_LEFTBOTTOMCORNER = False"
| "dbMasterType_isCore dbMasterType.ENDCAP_LEF58_RIGHTTOPCORNER = False"
| "dbMasterType_isCore dbMasterType.ENDCAP_LEF58_LEFTTOPCORNER = False"

primrec dbMasterType_isPad :: "dbMasterType \<Rightarrow> bool" where
  "dbMasterType_isPad dbMasterType.PAD = True"
| "dbMasterType_isPad dbMasterType.PAD_INPUT = True"
| "dbMasterType_isPad dbMasterType.PAD_OUTPUT = True"
| "dbMasterType_isPad dbMasterType.PAD_INOUT = True"
| "dbMasterType_isPad dbMasterType.PAD_POWER = True"
| "dbMasterType_isPad dbMasterType.PAD_SPACER = True"
| "dbMasterType_isPad dbMasterType.PAD_AREAIO = True"
| "dbMasterType_isPad dbMasterType.COVER = False"
| "dbMasterType_isPad dbMasterType.COVER_BUMP = False"
| "dbMasterType_isPad dbMasterType.RING = False"
| "dbMasterType_isPad dbMasterType.BLOCK = False"
| "dbMasterType_isPad dbMasterType.BLOCK_BLACKBOX = False"
| "dbMasterType_isPad dbMasterType.BLOCK_SOFT = False"
| "dbMasterType_isPad dbMasterType.CORE = False"
| "dbMasterType_isPad dbMasterType.CORE_FEEDTHRU = False"
| "dbMasterType_isPad dbMasterType.CORE_TIEHIGH = False"
| "dbMasterType_isPad dbMasterType.CORE_TIELOW = False"
| "dbMasterType_isPad dbMasterType.CORE_SPACER = False"
| "dbMasterType_isPad dbMasterType.CORE_ANTENNACELL = False"
| "dbMasterType_isPad dbMasterType.CORE_WELLTAP = False"
| "dbMasterType_isPad dbMasterType.ENDCAP = False"
| "dbMasterType_isPad dbMasterType.ENDCAP_PRE = False"
| "dbMasterType_isPad dbMasterType.ENDCAP_POST = False"
| "dbMasterType_isPad dbMasterType.ENDCAP_TOPLEFT = False"
| "dbMasterType_isPad dbMasterType.ENDCAP_TOPRIGHT = False"
| "dbMasterType_isPad dbMasterType.ENDCAP_BOTTOMLEFT = False"
| "dbMasterType_isPad dbMasterType.ENDCAP_BOTTOMRIGHT = False"
| "dbMasterType_isPad dbMasterType.ENDCAP_LEF58_BOTTOMEDGE = False"
| "dbMasterType_isPad dbMasterType.ENDCAP_LEF58_TOPEDGE = False"
| "dbMasterType_isPad dbMasterType.ENDCAP_LEF58_RIGHTEDGE = False"
| "dbMasterType_isPad dbMasterType.ENDCAP_LEF58_LEFTEDGE = False"
| "dbMasterType_isPad dbMasterType.ENDCAP_LEF58_RIGHTBOTTOMEDGE = False"
| "dbMasterType_isPad dbMasterType.ENDCAP_LEF58_LEFTBOTTOMEDGE = False"
| "dbMasterType_isPad dbMasterType.ENDCAP_LEF58_RIGHTTOPEDGE = False"
| "dbMasterType_isPad dbMasterType.ENDCAP_LEF58_LEFTTOPEDGE = False"
| "dbMasterType_isPad dbMasterType.ENDCAP_LEF58_RIGHTBOTTOMCORNER = False"
| "dbMasterType_isPad dbMasterType.ENDCAP_LEF58_LEFTBOTTOMCORNER = False"
| "dbMasterType_isPad dbMasterType.ENDCAP_LEF58_RIGHTTOPCORNER = False"
| "dbMasterType_isPad dbMasterType.ENDCAP_LEF58_LEFTTOPCORNER = False"

primrec dbMasterType_isEndCap :: "dbMasterType \<Rightarrow> bool" where
  "dbMasterType_isEndCap dbMasterType.ENDCAP = True"
| "dbMasterType_isEndCap dbMasterType.ENDCAP_PRE = True"
| "dbMasterType_isEndCap dbMasterType.ENDCAP_POST = True"
| "dbMasterType_isEndCap dbMasterType.ENDCAP_TOPLEFT = True"
| "dbMasterType_isEndCap dbMasterType.ENDCAP_TOPRIGHT = True"
| "dbMasterType_isEndCap dbMasterType.ENDCAP_BOTTOMLEFT = True"
| "dbMasterType_isEndCap dbMasterType.ENDCAP_BOTTOMRIGHT = True"
| "dbMasterType_isEndCap dbMasterType.ENDCAP_LEF58_BOTTOMEDGE = True"
| "dbMasterType_isEndCap dbMasterType.ENDCAP_LEF58_TOPEDGE = True"
| "dbMasterType_isEndCap dbMasterType.ENDCAP_LEF58_RIGHTEDGE = True"
| "dbMasterType_isEndCap dbMasterType.ENDCAP_LEF58_LEFTEDGE = True"
| "dbMasterType_isEndCap dbMasterType.ENDCAP_LEF58_RIGHTBOTTOMEDGE = True"
| "dbMasterType_isEndCap dbMasterType.ENDCAP_LEF58_LEFTBOTTOMEDGE = True"
| "dbMasterType_isEndCap dbMasterType.ENDCAP_LEF58_RIGHTTOPEDGE = True"
| "dbMasterType_isEndCap dbMasterType.ENDCAP_LEF58_LEFTTOPEDGE = True"
| "dbMasterType_isEndCap dbMasterType.ENDCAP_LEF58_RIGHTBOTTOMCORNER = True"
| "dbMasterType_isEndCap dbMasterType.ENDCAP_LEF58_LEFTBOTTOMCORNER = True"
| "dbMasterType_isEndCap dbMasterType.ENDCAP_LEF58_RIGHTTOPCORNER = True"
| "dbMasterType_isEndCap dbMasterType.ENDCAP_LEF58_LEFTTOPCORNER = True"
| "dbMasterType_isEndCap dbMasterType.COVER = False"
| "dbMasterType_isEndCap dbMasterType.COVER_BUMP = False"
| "dbMasterType_isEndCap dbMasterType.RING = False"
| "dbMasterType_isEndCap dbMasterType.BLOCK = False"
| "dbMasterType_isEndCap dbMasterType.BLOCK_BLACKBOX = False"
| "dbMasterType_isEndCap dbMasterType.BLOCK_SOFT = False"
| "dbMasterType_isEndCap dbMasterType.PAD = False"
| "dbMasterType_isEndCap dbMasterType.PAD_INPUT = False"
| "dbMasterType_isEndCap dbMasterType.PAD_OUTPUT = False"
| "dbMasterType_isEndCap dbMasterType.PAD_INOUT = False"
| "dbMasterType_isEndCap dbMasterType.PAD_POWER = False"
| "dbMasterType_isEndCap dbMasterType.PAD_SPACER = False"
| "dbMasterType_isEndCap dbMasterType.PAD_AREAIO = False"
| "dbMasterType_isEndCap dbMasterType.CORE = False"
| "dbMasterType_isEndCap dbMasterType.CORE_FEEDTHRU = False"
| "dbMasterType_isEndCap dbMasterType.CORE_TIEHIGH = False"
| "dbMasterType_isEndCap dbMasterType.CORE_TIELOW = False"
| "dbMasterType_isEndCap dbMasterType.CORE_SPACER = False"
| "dbMasterType_isEndCap dbMasterType.CORE_ANTENNACELL = False"
| "dbMasterType_isEndCap dbMasterType.CORE_WELLTAP = False"

primrec dbMasterType_isCover :: "dbMasterType \<Rightarrow> bool" where
  "dbMasterType_isCover dbMasterType.COVER = True"
| "dbMasterType_isCover dbMasterType.COVER_BUMP = True"
| "dbMasterType_isCover dbMasterType.RING = False"
| "dbMasterType_isCover dbMasterType.BLOCK = False"
| "dbMasterType_isCover dbMasterType.BLOCK_BLACKBOX = False"
| "dbMasterType_isCover dbMasterType.BLOCK_SOFT = False"
| "dbMasterType_isCover dbMasterType.PAD = False"
| "dbMasterType_isCover dbMasterType.PAD_INPUT = False"
| "dbMasterType_isCover dbMasterType.PAD_OUTPUT = False"
| "dbMasterType_isCover dbMasterType.PAD_INOUT = False"
| "dbMasterType_isCover dbMasterType.PAD_POWER = False"
| "dbMasterType_isCover dbMasterType.PAD_SPACER = False"
| "dbMasterType_isCover dbMasterType.PAD_AREAIO = False"
| "dbMasterType_isCover dbMasterType.CORE = False"
| "dbMasterType_isCover dbMasterType.CORE_FEEDTHRU = False"
| "dbMasterType_isCover dbMasterType.CORE_TIEHIGH = False"
| "dbMasterType_isCover dbMasterType.CORE_TIELOW = False"
| "dbMasterType_isCover dbMasterType.CORE_SPACER = False"
| "dbMasterType_isCover dbMasterType.CORE_ANTENNACELL = False"
| "dbMasterType_isCover dbMasterType.CORE_WELLTAP = False"
| "dbMasterType_isCover dbMasterType.ENDCAP = False"
| "dbMasterType_isCover dbMasterType.ENDCAP_PRE = False"
| "dbMasterType_isCover dbMasterType.ENDCAP_POST = False"
| "dbMasterType_isCover dbMasterType.ENDCAP_TOPLEFT = False"
| "dbMasterType_isCover dbMasterType.ENDCAP_TOPRIGHT = False"
| "dbMasterType_isCover dbMasterType.ENDCAP_BOTTOMLEFT = False"
| "dbMasterType_isCover dbMasterType.ENDCAP_BOTTOMRIGHT = False"
| "dbMasterType_isCover dbMasterType.ENDCAP_LEF58_BOTTOMEDGE = False"
| "dbMasterType_isCover dbMasterType.ENDCAP_LEF58_TOPEDGE = False"
| "dbMasterType_isCover dbMasterType.ENDCAP_LEF58_RIGHTEDGE = False"
| "dbMasterType_isCover dbMasterType.ENDCAP_LEF58_LEFTEDGE = False"
| "dbMasterType_isCover dbMasterType.ENDCAP_LEF58_RIGHTBOTTOMEDGE = False"
| "dbMasterType_isCover dbMasterType.ENDCAP_LEF58_LEFTBOTTOMEDGE = False"
| "dbMasterType_isCover dbMasterType.ENDCAP_LEF58_RIGHTTOPEDGE = False"
| "dbMasterType_isCover dbMasterType.ENDCAP_LEF58_LEFTTOPEDGE = False"
| "dbMasterType_isCover dbMasterType.ENDCAP_LEF58_RIGHTBOTTOMCORNER = False"
| "dbMasterType_isCover dbMasterType.ENDCAP_LEF58_LEFTBOTTOMCORNER = False"
| "dbMasterType_isCover dbMasterType.ENDCAP_LEF58_RIGHTTOPCORNER = False"
| "dbMasterType_isCover dbMasterType.ENDCAP_LEF58_LEFTTOPCORNER = False"

subsection \<open>dbTechLayerType\<close>

datatype dbTechLayerType = ROUTING
  | CUT
  | MASTERSLICE
  | OVERLAP
  | IMPLANT
  | NONE

definition dbTechLayerType_default :: dbTechLayerType where
  "dbTechLayerType_default = dbTechLayerType.ROUTING"

definition dbTechLayerType_fromString :: "string \<Rightarrow> dbTechLayerType option" where
  "dbTechLayerType_fromString value =
    (if strcasecmp value ''ROUTING'' = 0 then Some dbTechLayerType.ROUTING
     else if strcasecmp value ''CUT'' = 0 then Some dbTechLayerType.CUT
     else if strcasecmp value ''MASTERSLICE'' = 0 then Some dbTechLayerType.MASTERSLICE
     else if strcasecmp value ''OVERLAP'' = 0 then Some dbTechLayerType.OVERLAP
     else if strcasecmp value ''IMPLANT'' = 0 then Some dbTechLayerType.IMPLANT
     else None)"

definition dbTechLayerType_of_string :: "string \<Rightarrow> dbTechLayerType" where
  "dbTechLayerType_of_string value =
     (case dbTechLayerType_fromString value of Some v \<Rightarrow> v | None \<Rightarrow> dbTechLayerType_default)"

primrec dbTechLayerType_getString :: "dbTechLayerType \<Rightarrow> string" where
  "dbTechLayerType_getString dbTechLayerType.NONE = ''NONE''"
| "dbTechLayerType_getString dbTechLayerType.ROUTING = ''ROUTING''"
| "dbTechLayerType_getString dbTechLayerType.CUT = ''CUT''"
| "dbTechLayerType_getString dbTechLayerType.MASTERSLICE = ''MASTERSLICE''"
| "dbTechLayerType_getString dbTechLayerType.OVERLAP = ''OVERLAP''"
| "dbTechLayerType_getString dbTechLayerType.IMPLANT = ''IMPLANT''"

subsection \<open>dbTechLayerDir\<close>

datatype dbTechLayerDir = NONE
  | HORIZONTAL
  | VERTICAL

definition dbTechLayerDir_default :: dbTechLayerDir where
  "dbTechLayerDir_default = dbTechLayerDir.NONE"

definition dbTechLayerDir_of_string :: "string \<Rightarrow> dbTechLayerDir" where
  "dbTechLayerDir_of_string value =
    (if strcasecmp value ''NONE'' = 0 then dbTechLayerDir.NONE
     else if strcasecmp value ''HORIZONTAL'' = 0 then dbTechLayerDir.HORIZONTAL
     else if strcasecmp value ''VERTICAL'' = 0 then dbTechLayerDir.VERTICAL
     else dbTechLayerDir.NONE)"

primrec dbTechLayerDir_getString :: "dbTechLayerDir \<Rightarrow> string" where
  "dbTechLayerDir_getString dbTechLayerDir.NONE = ''NONE''"
| "dbTechLayerDir_getString dbTechLayerDir.HORIZONTAL = ''HORIZONTAL''"
| "dbTechLayerDir_getString dbTechLayerDir.VERTICAL = ''VERTICAL''"

subsection \<open>dbTechLayerMinStepType\<close>

datatype dbTechLayerMinStepType = INSIDE_CORNER
  | OUTSIDE_CORNER
  | STEP

definition dbTechLayerMinStepType_default :: dbTechLayerMinStepType where
  "dbTechLayerMinStepType_default = dbTechLayerMinStepType.OUTSIDE_CORNER"

definition dbTechLayerMinStepType_of_string :: "string \<Rightarrow> dbTechLayerMinStepType" where
  "dbTechLayerMinStepType_of_string value =
    (if strcasecmp value ''INSIDECORNER'' = 0 then dbTechLayerMinStepType.INSIDE_CORNER
     else if strcasecmp value ''OUTSIDECORNER'' = 0 then dbTechLayerMinStepType.OUTSIDE_CORNER
     else if strcasecmp value ''STEP'' = 0 then dbTechLayerMinStepType.STEP
     else dbTechLayerMinStepType.OUTSIDE_CORNER)"

primrec dbTechLayerMinStepType_getString :: "dbTechLayerMinStepType \<Rightarrow> string" where
  "dbTechLayerMinStepType_getString dbTechLayerMinStepType.INSIDE_CORNER = ''INSIDECORNER''"
| "dbTechLayerMinStepType_getString dbTechLayerMinStepType.OUTSIDE_CORNER = ''OUTSIDECORNER''"
| "dbTechLayerMinStepType_getString dbTechLayerMinStepType.STEP = ''STEP''"

subsection \<open>dbRowDir\<close>

datatype dbRowDir = HORIZONTAL
  | VERTICAL

definition dbRowDir_default :: dbRowDir where
  "dbRowDir_default = dbRowDir.HORIZONTAL"

definition dbRowDir_of_string :: "string \<Rightarrow> dbRowDir" where
  "dbRowDir_of_string value =
    (if strcasecmp value ''HORIZONTAL'' = 0 then dbRowDir.HORIZONTAL
     else if strcasecmp value ''VERTICAL'' = 0 then dbRowDir.VERTICAL
     else dbRowDir.VERTICAL)"

primrec dbRowDir_getString :: "dbRowDir \<Rightarrow> string" where
  "dbRowDir_getString dbRowDir.HORIZONTAL = ''HORIZONTAL''"
| "dbRowDir_getString dbRowDir.VERTICAL = ''VERTICAL''"

subsection \<open>dbBoxOwner\<close>

datatype dbBoxOwner = UNKNOWN
  | BLOCK
  | INST
  | BTERM
  | VIA
  | OBSTRUCTION
  | SWIRE
  | BLOCKAGE
  | MASTER
  | MPIN
  | TECH_VIA
  | REGION
  | BPIN
  | PBOX

definition dbBoxOwner_default :: dbBoxOwner where
  "dbBoxOwner_default = dbBoxOwner.BLOCK"

definition dbBoxOwner_of_string :: "string \<Rightarrow> dbBoxOwner" where
  "dbBoxOwner_of_string value =
    (if strcasecmp value ''UNKNOWN'' = 0 then dbBoxOwner.UNKNOWN
     else if strcasecmp value ''BLOCK'' = 0 then dbBoxOwner.BLOCK
     else if strcasecmp value ''INST'' = 0 then dbBoxOwner.INST
     else if strcasecmp value ''BTERM'' = 0 then dbBoxOwner.BTERM
     else if strcasecmp value ''BPIN'' = 0 then dbBoxOwner.BPIN
     else if strcasecmp value ''VIA'' = 0 then dbBoxOwner.VIA
     else if strcasecmp value ''OBSTRUCTION'' = 0 then dbBoxOwner.OBSTRUCTION
     else if strcasecmp value ''BLOCKAGE'' = 0 then dbBoxOwner.BLOCKAGE
     else if strcasecmp value ''MASTER'' = 0 then dbBoxOwner.MASTER
     else if strcasecmp value ''MPIN'' = 0 then dbBoxOwner.MPIN
     else if strcasecmp value ''TECH VIA'' = 0 then dbBoxOwner.TECH_VIA
     else if strcasecmp value ''SWIRE'' = 0 then dbBoxOwner.SWIRE
     else if strcasecmp value ''REGION'' = 0 then dbBoxOwner.REGION
     else if strcasecmp value ''PBOX'' = 0 then dbBoxOwner.PBOX
     else dbBoxOwner.UNKNOWN)"

primrec dbBoxOwner_getString :: "dbBoxOwner \<Rightarrow> string" where
  "dbBoxOwner_getString dbBoxOwner.UNKNOWN = ''UNKNOWN''"
| "dbBoxOwner_getString dbBoxOwner.BLOCK = ''BLOCK''"
| "dbBoxOwner_getString dbBoxOwner.INST = ''INST''"
| "dbBoxOwner_getString dbBoxOwner.BTERM = ''BTERM''"
| "dbBoxOwner_getString dbBoxOwner.BPIN = ''BPIN''"
| "dbBoxOwner_getString dbBoxOwner.VIA = ''VIA''"
| "dbBoxOwner_getString dbBoxOwner.OBSTRUCTION = ''OBSTRUCTION''"
| "dbBoxOwner_getString dbBoxOwner.BLOCKAGE = ''BLOCKAGE''"
| "dbBoxOwner_getString dbBoxOwner.MASTER = ''MASTER''"
| "dbBoxOwner_getString dbBoxOwner.MPIN = ''MPIN''"
| "dbBoxOwner_getString dbBoxOwner.TECH_VIA = ''TECH VIA''"
| "dbBoxOwner_getString dbBoxOwner.SWIRE = ''SWIRE''"
| "dbBoxOwner_getString dbBoxOwner.REGION = ''REGION''"
| "dbBoxOwner_getString dbBoxOwner.PBOX = ''PBOX''"

subsection \<open>dbPolygonOwner\<close>

datatype dbPolygonOwner = UNKNOWN
  | BPIN
  | OBSTRUCTION
  | SWIRE

definition dbPolygonOwner_default :: dbPolygonOwner where
  "dbPolygonOwner_default = dbPolygonOwner.UNKNOWN"

definition dbPolygonOwner_of_string :: "string \<Rightarrow> dbPolygonOwner" where
  "dbPolygonOwner_of_string value =
    (if strcasecmp value ''UNKNOWN'' = 0 then dbPolygonOwner.UNKNOWN
     else if strcasecmp value ''BPIN'' = 0 then dbPolygonOwner.BPIN
     else if strcasecmp value ''OBSTRUCTION'' = 0 then dbPolygonOwner.OBSTRUCTION
     else if strcasecmp value ''SWIRE'' = 0 then dbPolygonOwner.SWIRE
     else dbPolygonOwner.UNKNOWN)"

primrec dbPolygonOwner_getString :: "dbPolygonOwner \<Rightarrow> string" where
  "dbPolygonOwner_getString dbPolygonOwner.UNKNOWN = ''UNKNOWN''"
| "dbPolygonOwner_getString dbPolygonOwner.BPIN = ''BPIN''"
| "dbPolygonOwner_getString dbPolygonOwner.OBSTRUCTION = ''OBSTRUCTION''"
| "dbPolygonOwner_getString dbPolygonOwner.SWIRE = ''SWIRE''"

subsection \<open>dbWireType\<close>

datatype dbWireType = NONE
  | COVER
  | FIXED
  | ROUTED
  | SHIELD
  | NOSHIELD

definition dbWireType_default :: dbWireType where
  "dbWireType_default = dbWireType.NONE"

definition dbWireType_of_string :: "string \<Rightarrow> dbWireType" where
  "dbWireType_of_string value =
    (if strcasecmp value ''NONE'' = 0 then dbWireType.NONE
     else if strcasecmp value ''COVER'' = 0 then dbWireType.COVER
     else if strcasecmp value ''FIXED'' = 0 then dbWireType.FIXED
     else if strcasecmp value ''ROUTED'' = 0 then dbWireType.ROUTED
     else if strcasecmp value ''SHIELD'' = 0 then dbWireType.SHIELD
     else if strcasecmp value ''NOSHIELD'' = 0 then dbWireType.NOSHIELD
     else dbWireType.NONE)"

primrec dbWireType_getString :: "dbWireType \<Rightarrow> string" where
  "dbWireType_getString dbWireType.NONE = ''NONE''"
| "dbWireType_getString dbWireType.COVER = ''COVER''"
| "dbWireType_getString dbWireType.FIXED = ''FIXED''"
| "dbWireType_getString dbWireType.ROUTED = ''ROUTED''"
| "dbWireType_getString dbWireType.SHIELD = ''SHIELD''"
| "dbWireType_getString dbWireType.NOSHIELD = ''NOSHIELD''"

subsection \<open>dbWireShapeType\<close>

datatype dbWireShapeType = NONE
  | RING
  | PADRING
  | BLOCKRING
  | STRIPE
  | FOLLOWPIN
  | IOWIRE
  | COREWIRE
  | BLOCKWIRE
  | BLOCKAGEWIRE
  | FILLWIRE
  | DRCFILL

definition dbWireShapeType_default :: dbWireShapeType where
  "dbWireShapeType_default = dbWireShapeType.NONE"

definition dbWireShapeType_of_string :: "string \<Rightarrow> dbWireShapeType" where
  "dbWireShapeType_of_string value =
    (if strcasecmp value ''NONE'' = 0 then dbWireShapeType.NONE
     else if strcasecmp value ''RING'' = 0 then dbWireShapeType.RING
     else if strcasecmp value ''PADRING'' = 0 then dbWireShapeType.PADRING
     else if strcasecmp value ''BLOCKRING'' = 0 then dbWireShapeType.BLOCKRING
     else if strcasecmp value ''STRIPE'' = 0 then dbWireShapeType.STRIPE
     else if strcasecmp value ''FOLLOWPIN'' = 0 then dbWireShapeType.FOLLOWPIN
     else if strcasecmp value ''IOWIRE'' = 0 then dbWireShapeType.IOWIRE
     else if strcasecmp value ''COREWIRE'' = 0 then dbWireShapeType.COREWIRE
     else if strcasecmp value ''BLOCKWIRE'' = 0 then dbWireShapeType.BLOCKWIRE
     else if strcasecmp value ''BLOCKAGEWIRE'' = 0 then dbWireShapeType.BLOCKAGEWIRE
     else if strcasecmp value ''FILLWIRE'' = 0 then dbWireShapeType.FILLWIRE
     else if strcasecmp value ''DRCFILL'' = 0 then dbWireShapeType.DRCFILL
     else dbWireShapeType.NONE)"

primrec dbWireShapeType_getString :: "dbWireShapeType \<Rightarrow> string" where
  "dbWireShapeType_getString dbWireShapeType.NONE = ''NONE''"
| "dbWireShapeType_getString dbWireShapeType.RING = ''RING''"
| "dbWireShapeType_getString dbWireShapeType.PADRING = ''PADRING''"
| "dbWireShapeType_getString dbWireShapeType.BLOCKRING = ''BLOCKRING''"
| "dbWireShapeType_getString dbWireShapeType.STRIPE = ''STRIPE''"
| "dbWireShapeType_getString dbWireShapeType.FOLLOWPIN = ''FOLLOWPIN''"
| "dbWireShapeType_getString dbWireShapeType.IOWIRE = ''IOWIRE''"
| "dbWireShapeType_getString dbWireShapeType.COREWIRE = ''COREWIRE''"
| "dbWireShapeType_getString dbWireShapeType.BLOCKWIRE = ''BLOCKWIRE''"
| "dbWireShapeType_getString dbWireShapeType.BLOCKAGEWIRE = ''BLOCKAGEWIRE''"
| "dbWireShapeType_getString dbWireShapeType.FILLWIRE = ''FILLWIRE''"
| "dbWireShapeType_getString dbWireShapeType.DRCFILL = ''DRCFILL''"

subsection \<open>dbSiteClass\<close>

datatype dbSiteClass = NONE
  | PAD
  | CORE

definition dbSiteClass_default :: dbSiteClass where
  "dbSiteClass_default = dbSiteClass.NONE"

definition dbSiteClass_of_string :: "string \<Rightarrow> dbSiteClass" where
  "dbSiteClass_of_string value =
    (if strcasecmp value ''NONE'' = 0 then dbSiteClass.NONE
     else if strcasecmp value ''PAD'' = 0 then dbSiteClass.PAD
     else if strcasecmp value ''CORE'' = 0 then dbSiteClass.CORE
     else dbSiteClass.NONE)"

primrec dbSiteClass_getString :: "dbSiteClass \<Rightarrow> string" where
  "dbSiteClass_getString dbSiteClass.NONE = ''NONE''"
| "dbSiteClass_getString dbSiteClass.PAD = ''PAD''"
| "dbSiteClass_getString dbSiteClass.CORE = ''CORE''"

subsection \<open>dbOnOffType\<close>

datatype dbOnOffType = OFF
  | ON

definition dbOnOffType_default :: dbOnOffType where
  "dbOnOffType_default = dbOnOffType.OFF"

definition dbOnOffType_of_string :: "string \<Rightarrow> dbOnOffType" where
  "dbOnOffType_of_string value =
    (if strcasecmp value ''ON'' = 0 then dbOnOffType.ON
     else if strcasecmp value ''OFF'' = 0 then dbOnOffType.OFF
     else dbOnOffType.OFF)"

primrec dbOnOffType_getString :: "dbOnOffType \<Rightarrow> string" where
  "dbOnOffType_getString dbOnOffType.OFF = ''OFF''"
| "dbOnOffType_getString dbOnOffType.ON = ''ON''"

definition dbOnOffType_getAsInt :: "dbOnOffType \<Rightarrow> int" where
  "dbOnOffType_getAsInt v = (if v = dbOnOffType.ON then 1 else 0)"

definition dbOnOffType_isSet :: "dbOnOffType \<Rightarrow> bool" where
  "dbOnOffType_isSet v = (v = dbOnOffType.ON)"

subsection \<open>dbClMeasureType\<close>

datatype dbClMeasureType = EUCLIDEAN
  | MAXXY

definition dbClMeasureType_default :: dbClMeasureType where
  "dbClMeasureType_default = dbClMeasureType.EUCLIDEAN"

definition dbClMeasureType_of_string :: "string \<Rightarrow> dbClMeasureType" where
  "dbClMeasureType_of_string value =
    (if strcasecmp value ''MAXXY'' = 0 then dbClMeasureType.MAXXY
     else if strcasecmp value ''EUCLIDEAN'' = 0 then dbClMeasureType.EUCLIDEAN
     else dbClMeasureType.EUCLIDEAN)"

primrec dbClMeasureType_getString :: "dbClMeasureType \<Rightarrow> string" where
  "dbClMeasureType_getString dbClMeasureType.EUCLIDEAN = ''EUCLIDEAN''"
| "dbClMeasureType_getString dbClMeasureType.MAXXY = ''MAXXY''"

subsection \<open>dbJournalEntryType\<close>

datatype dbJournalEntryType = NONE
  | OWNER
  | ADD
  | DESTROY

definition dbJournalEntryType_default :: dbJournalEntryType where
  "dbJournalEntryType_default = dbJournalEntryType.NONE"

definition dbJournalEntryType_of_string :: "string \<Rightarrow> dbJournalEntryType" where
  "dbJournalEntryType_of_string value =
    (if strcasecmp value ''NONE'' = 0 then dbJournalEntryType.NONE
     else if strcasecmp value ''OWNER'' = 0 then dbJournalEntryType.OWNER
     else if strcasecmp value ''ADD'' = 0 then dbJournalEntryType.ADD
     else if strcasecmp value ''DESTROY'' = 0 then dbJournalEntryType.DESTROY
     else dbJournalEntryType.NONE)"

primrec dbJournalEntryType_getString :: "dbJournalEntryType \<Rightarrow> string" where
  "dbJournalEntryType_getString dbJournalEntryType.NONE = ''NONE''"
| "dbJournalEntryType_getString dbJournalEntryType.OWNER = ''OWNER''"
| "dbJournalEntryType_getString dbJournalEntryType.ADD = ''ADD''"
| "dbJournalEntryType_getString dbJournalEntryType.DESTROY = ''DESTROY''"

subsection \<open>dbDirection\<close>

datatype dbDirection = NONE
  | NORTH
  | EAST
  | SOUTH
  | WEST
  | UP
  | DOWN

definition dbDirection_default :: dbDirection where
  "dbDirection_default = dbDirection.NONE"

definition dbDirection_of_string :: "string \<Rightarrow> dbDirection" where
  "dbDirection_of_string value =
    (if strcasecmp value ''NONE'' = 0 then dbDirection.NONE
     else if strcasecmp value ''NORTH'' = 0 then dbDirection.NORTH
     else if strcasecmp value ''EAST'' = 0 then dbDirection.EAST
     else if strcasecmp value ''SOUTH'' = 0 then dbDirection.SOUTH
     else if strcasecmp value ''WEST'' = 0 then dbDirection.WEST
     else if strcasecmp value ''UP'' = 0 then dbDirection.UP
     else if strcasecmp value ''DOWN'' = 0 then dbDirection.DOWN
     else dbDirection.NONE)"

primrec dbDirection_getString :: "dbDirection \<Rightarrow> string" where
  "dbDirection_getString dbDirection.NONE = ''NONE''"
| "dbDirection_getString dbDirection.NORTH = ''NORTH''"
| "dbDirection_getString dbDirection.EAST = ''EAST''"
| "dbDirection_getString dbDirection.SOUTH = ''SOUTH''"
| "dbDirection_getString dbDirection.WEST = ''WEST''"
| "dbDirection_getString dbDirection.UP = ''UP''"
| "dbDirection_getString dbDirection.DOWN = ''DOWN''"

subsection \<open>dbRegionType\<close>

datatype dbRegionType = INCLUSIVE
  | EXCLUSIVE
  | SUGGESTED

definition dbRegionType_default :: dbRegionType where
  "dbRegionType_default = dbRegionType.INCLUSIVE"

definition dbRegionType_of_string :: "string \<Rightarrow> dbRegionType" where
  "dbRegionType_of_string value =
    (if strcasecmp value ''INCLUSIVE'' = 0 then dbRegionType.INCLUSIVE
     else if strcasecmp value ''EXCLUSIVE'' = 0 then dbRegionType.EXCLUSIVE
     else if strcasecmp value ''SUGGESTED'' = 0 then dbRegionType.SUGGESTED
     else dbRegionType.INCLUSIVE)"

primrec dbRegionType_getString :: "dbRegionType \<Rightarrow> string" where
  "dbRegionType_getString dbRegionType.INCLUSIVE = ''INCLUSIVE''"
| "dbRegionType_getString dbRegionType.EXCLUSIVE = ''EXCLUSIVE''"
| "dbRegionType_getString dbRegionType.SUGGESTED = ''SUGGESTED''"

subsection \<open>dbSourceType\<close>

datatype dbSourceType = NONE
  | NETLIST
  | DIST
  | USER
  | TIMING
  | TEST

definition dbSourceType_default :: dbSourceType where
  "dbSourceType_default = dbSourceType.NONE"

definition dbSourceType_of_string :: "string \<Rightarrow> dbSourceType" where
  "dbSourceType_of_string value =
    (if strcasecmp value ''NETLIST'' = 0 then dbSourceType.NETLIST
     else if strcasecmp value ''DIST'' = 0 then dbSourceType.DIST
     else if strcasecmp value ''USER'' = 0 then dbSourceType.USER
     else if strcasecmp value ''TIMING'' = 0 then dbSourceType.TIMING
     else if strcasecmp value ''TEST'' = 0 then dbSourceType.TEST
     else if strcasecmp value ''NONE'' = 0 then dbSourceType.NONE
     else dbSourceType.NETLIST)"

primrec dbSourceType_getString :: "dbSourceType \<Rightarrow> string" where
  "dbSourceType_getString dbSourceType.NONE = ''NONE''"
| "dbSourceType_getString dbSourceType.NETLIST = ''NETLIST''"
| "dbSourceType_getString dbSourceType.DIST = ''DIST''"
| "dbSourceType_getString dbSourceType.USER = ''USER''"
| "dbSourceType_getString dbSourceType.TIMING = ''TIMING''"
| "dbSourceType_getString dbSourceType.TEST = ''TEST''"

subsection \<open>dbMTermShapeType\<close>

datatype dbMTermShapeType = NONE
  | RING
  | FEEDTHRU
  | ABUTMENT

definition dbMTermShapeType_default :: dbMTermShapeType where
  "dbMTermShapeType_default = dbMTermShapeType.NONE"

definition dbMTermShapeType_of_string :: "string \<Rightarrow> dbMTermShapeType" where
  "dbMTermShapeType_of_string value =
    (if strcasecmp value ''NONE'' = 0 then dbMTermShapeType.NONE
     else if strcasecmp value ''RING'' = 0 then dbMTermShapeType.RING
     else if strcasecmp value ''ABUTMENT'' = 0 then dbMTermShapeType.ABUTMENT
     else if strcasecmp value ''FEEDTHRU'' = 0 then dbMTermShapeType.FEEDTHRU
     else dbMTermShapeType.NONE)"

primrec dbMTermShapeType_getString :: "dbMTermShapeType \<Rightarrow> string" where
  "dbMTermShapeType_getString dbMTermShapeType.NONE = ''NONE''"
| "dbMTermShapeType_getString dbMTermShapeType.RING = ''RING''"
| "dbMTermShapeType_getString dbMTermShapeType.FEEDTHRU = ''FEEDTHRU''"
| "dbMTermShapeType_getString dbMTermShapeType.ABUTMENT = ''ABUTMENT''"

subsection \<open>dbAccessType\<close>

datatype dbAccessType = OnGrid
  | HalfGrid
  | Center
  | EncOpt
  | NearbyGrid

definition dbAccessType_default :: dbAccessType where
  "dbAccessType_default = dbAccessType.OnGrid"

definition dbAccessType_of_string :: "string \<Rightarrow> dbAccessType" where
  "dbAccessType_of_string value =
    (if strcasecmp value ''OnGrid'' = 0 then dbAccessType.OnGrid
     else if strcasecmp value ''HalfGrid'' = 0 then dbAccessType.HalfGrid
     else if strcasecmp value ''Center'' = 0 then dbAccessType.Center
     else if strcasecmp value ''EncOpt'' = 0 then dbAccessType.EncOpt
     else if strcasecmp value ''NearbyGrid'' = 0 then dbAccessType.NearbyGrid
     else dbAccessType.OnGrid)"

primrec dbAccessType_getString :: "dbAccessType \<Rightarrow> string" where
  "dbAccessType_getString dbAccessType.OnGrid = ''OnGrid''"
| "dbAccessType_getString dbAccessType.HalfGrid = ''HalfGrid''"
| "dbAccessType_getString dbAccessType.Center = ''Center''"
| "dbAccessType_getString dbAccessType.EncOpt = ''EncOpt''"
| "dbAccessType_getString dbAccessType.NearbyGrid = ''NearbyGrid''"

subsection \<open>dbNameUniquifyType\<close>

datatype dbNameUniquifyType = ALWAYS
  | ALWAYS_WITH_UNDERSCORE
  | IF_NEEDED
  | IF_NEEDED_WITH_UNDERSCORE

definition dbNameUniquifyType_default :: dbNameUniquifyType where
  "dbNameUniquifyType_default = dbNameUniquifyType.ALWAYS"

primrec dbNameUniquifyType_getString :: "dbNameUniquifyType \<Rightarrow> string" where
  "dbNameUniquifyType_getString dbNameUniquifyType.ALWAYS = ''ALWAYS''"
| "dbNameUniquifyType_getString dbNameUniquifyType.ALWAYS_WITH_UNDERSCORE = ''ALWAYS_WITH_UNDERSCORE''"
| "dbNameUniquifyType_getString dbNameUniquifyType.IF_NEEDED = ''IF_NEEDED''"
| "dbNameUniquifyType_getString dbNameUniquifyType.IF_NEEDED_WITH_UNDERSCORE = ''IF_NEEDED_WITH_UNDERSCORE''"

subsection \<open>dbHierSearchDir\<close>

datatype dbHierSearchDir = FANIN
  | FANOUT

definition dbHierSearchDir_default :: dbHierSearchDir where
  "dbHierSearchDir_default = dbHierSearchDir.FANOUT"

primrec dbHierSearchDir_getString :: "dbHierSearchDir \<Rightarrow> string" where
  "dbHierSearchDir_getString dbHierSearchDir.FANIN = ''FANIN''"
| "dbHierSearchDir_getString dbHierSearchDir.FANOUT = ''FANOUT''"

section \<open>The interface of an enumerated type\<close>

text \<open>
  \<open>good\<close> are the values whose printed name is read back; reading only ever produces such values.
\<close>

locale enum_codec =
  fixes getString :: "'a \<Rightarrow> string"
    and of_string :: "string \<Rightarrow> 'a"
    and good :: "'a \<Rightarrow> bool"
  assumes of_string_getString: "good v \<Longrightarrow> of_string (getString v) = v"
    and of_string_case: "strcasecmp s = strcasecmp t \<Longrightarrow> of_string s = of_string t"
    and good_of_string: "good (of_string s)"
begin

lemma getString_inj: "good v \<Longrightarrow> good w \<Longrightarrow> getString v = getString w \<Longrightarrow> v = w"
  by (metis of_string_getString)

lemma of_string_any_case: "good v \<Longrightarrow> lower s = lower (getString v) \<Longrightarrow> of_string s = v"
  using of_string_getString of_string_case [OF strcasecmp_cong] by metis

lemma of_string_normalises: "of_string (getString (of_string s)) = of_string s"
  by (rule of_string_getString) (rule good_of_string)

lemma range_of_string: "range of_string = {v. good v}"
proof
  show "range of_string \<subseteq> {v. good v}" using good_of_string by auto
  show "{v. good v} \<subseteq> range of_string"
    using of_string_getString by (metis mem_Collect_eq rangeI subsetI)
qed

end

text \<open>
  Every class with both directions provides the interface. Two have a value outside it:
  \<^term>\<open>dbGroupType.VISUAL_DEBUG\<close> is printed under a name the constructor does not know, and
  \<^term>\<open>dbTechLayerType.NONE\<close> likewise.
\<close>

interpretation groupType: enum_codec dbGroupType_getString dbGroupType_of_string "\<lambda>v. v \<noteq> dbGroupType.VISUAL_DEBUG"
proof unfold_locales
  show "dbGroupType_of_string (dbGroupType_getString v) = v" if "v \<noteq> dbGroupType.VISUAL_DEBUG" for v
    using that by (cases v) (simp_all add: dbGroupType_of_string_def char_eval)
qed (auto simp: dbGroupType_of_string_def)

interpretation sigType: enum_codec dbSigType_getString dbSigType_of_string "\<lambda>_. True"
proof unfold_locales
  show "dbSigType_of_string (dbSigType_getString v) = v" for v
    by (cases v) (simp_all add: dbSigType_of_string_def char_eval)
qed (auto simp: dbSigType_of_string_def)

interpretation ioType: enum_codec dbIoType_getString dbIoType_of_string "\<lambda>_. True"
proof unfold_locales
  show "dbIoType_of_string (dbIoType_getString v) = v" for v
    by (cases v) (simp_all add: dbIoType_of_string_def char_eval)
qed (auto simp: dbIoType_of_string_def)

interpretation placementStatus: enum_codec dbPlacementStatus_getString dbPlacementStatus_of_string "\<lambda>_. True"
proof unfold_locales
  show "dbPlacementStatus_of_string (dbPlacementStatus_getString v) = v" for v
    by (cases v) (simp_all add: dbPlacementStatus_of_string_def char_eval)
qed (auto simp: dbPlacementStatus_of_string_def)

interpretation masterType: enum_codec dbMasterType_getString dbMasterType_of_string "\<lambda>_. True"
proof unfold_locales
  show "dbMasterType_of_string (dbMasterType_getString v) = v" for v
    by (cases v) (simp_all add: dbMasterType_of_string_def char_eval)
qed (auto simp: dbMasterType_of_string_def)

interpretation techLayerType: enum_codec dbTechLayerType_getString dbTechLayerType_of_string "\<lambda>v. v \<noteq> dbTechLayerType.NONE"
proof unfold_locales
  show "dbTechLayerType_of_string (dbTechLayerType_getString v) = v" if "v \<noteq> dbTechLayerType.NONE" for v
    using that by (cases v) (simp_all add: dbTechLayerType_of_string_def dbTechLayerType_fromString_def dbTechLayerType_default_def char_eval)
qed (auto simp: dbTechLayerType_of_string_def dbTechLayerType_fromString_def dbTechLayerType_default_def)

interpretation techLayerDir: enum_codec dbTechLayerDir_getString dbTechLayerDir_of_string "\<lambda>_. True"
proof unfold_locales
  show "dbTechLayerDir_of_string (dbTechLayerDir_getString v) = v" for v
    by (cases v) (simp_all add: dbTechLayerDir_of_string_def char_eval)
qed (auto simp: dbTechLayerDir_of_string_def)

interpretation techLayerMinStepType: enum_codec dbTechLayerMinStepType_getString dbTechLayerMinStepType_of_string "\<lambda>_. True"
proof unfold_locales
  show "dbTechLayerMinStepType_of_string (dbTechLayerMinStepType_getString v) = v" for v
    by (cases v) (simp_all add: dbTechLayerMinStepType_of_string_def char_eval)
qed (auto simp: dbTechLayerMinStepType_of_string_def)

interpretation rowDir: enum_codec dbRowDir_getString dbRowDir_of_string "\<lambda>_. True"
proof unfold_locales
  show "dbRowDir_of_string (dbRowDir_getString v) = v" for v
    by (cases v) (simp_all add: dbRowDir_of_string_def char_eval)
qed (auto simp: dbRowDir_of_string_def)

interpretation boxOwner: enum_codec dbBoxOwner_getString dbBoxOwner_of_string "\<lambda>_. True"
proof unfold_locales
  show "dbBoxOwner_of_string (dbBoxOwner_getString v) = v" for v
    by (cases v) (simp_all add: dbBoxOwner_of_string_def char_eval)
qed (auto simp: dbBoxOwner_of_string_def)

interpretation polygonOwner: enum_codec dbPolygonOwner_getString dbPolygonOwner_of_string "\<lambda>_. True"
proof unfold_locales
  show "dbPolygonOwner_of_string (dbPolygonOwner_getString v) = v" for v
    by (cases v) (simp_all add: dbPolygonOwner_of_string_def char_eval)
qed (auto simp: dbPolygonOwner_of_string_def)

interpretation wireType: enum_codec dbWireType_getString dbWireType_of_string "\<lambda>_. True"
proof unfold_locales
  show "dbWireType_of_string (dbWireType_getString v) = v" for v
    by (cases v) (simp_all add: dbWireType_of_string_def char_eval)
qed (auto simp: dbWireType_of_string_def)

interpretation wireShapeType: enum_codec dbWireShapeType_getString dbWireShapeType_of_string "\<lambda>_. True"
proof unfold_locales
  show "dbWireShapeType_of_string (dbWireShapeType_getString v) = v" for v
    by (cases v) (simp_all add: dbWireShapeType_of_string_def char_eval)
qed (auto simp: dbWireShapeType_of_string_def)

interpretation siteClass: enum_codec dbSiteClass_getString dbSiteClass_of_string "\<lambda>_. True"
proof unfold_locales
  show "dbSiteClass_of_string (dbSiteClass_getString v) = v" for v
    by (cases v) (simp_all add: dbSiteClass_of_string_def char_eval)
qed (auto simp: dbSiteClass_of_string_def)

interpretation onOffType: enum_codec dbOnOffType_getString dbOnOffType_of_string "\<lambda>_. True"
proof unfold_locales
  show "dbOnOffType_of_string (dbOnOffType_getString v) = v" for v
    by (cases v) (simp_all add: dbOnOffType_of_string_def char_eval)
qed (auto simp: dbOnOffType_of_string_def)

interpretation clMeasureType: enum_codec dbClMeasureType_getString dbClMeasureType_of_string "\<lambda>_. True"
proof unfold_locales
  show "dbClMeasureType_of_string (dbClMeasureType_getString v) = v" for v
    by (cases v) (simp_all add: dbClMeasureType_of_string_def char_eval)
qed (auto simp: dbClMeasureType_of_string_def)

interpretation journalEntryType: enum_codec dbJournalEntryType_getString dbJournalEntryType_of_string "\<lambda>_. True"
proof unfold_locales
  show "dbJournalEntryType_of_string (dbJournalEntryType_getString v) = v" for v
    by (cases v) (simp_all add: dbJournalEntryType_of_string_def char_eval)
qed (auto simp: dbJournalEntryType_of_string_def)

interpretation direction: enum_codec dbDirection_getString dbDirection_of_string "\<lambda>_. True"
proof unfold_locales
  show "dbDirection_of_string (dbDirection_getString v) = v" for v
    by (cases v) (simp_all add: dbDirection_of_string_def char_eval)
qed (auto simp: dbDirection_of_string_def)

interpretation regionType: enum_codec dbRegionType_getString dbRegionType_of_string "\<lambda>_. True"
proof unfold_locales
  show "dbRegionType_of_string (dbRegionType_getString v) = v" for v
    by (cases v) (simp_all add: dbRegionType_of_string_def char_eval)
qed (auto simp: dbRegionType_of_string_def)

interpretation sourceType: enum_codec dbSourceType_getString dbSourceType_of_string "\<lambda>_. True"
proof unfold_locales
  show "dbSourceType_of_string (dbSourceType_getString v) = v" for v
    by (cases v) (simp_all add: dbSourceType_of_string_def char_eval)
qed (auto simp: dbSourceType_of_string_def)

interpretation mTermShapeType: enum_codec dbMTermShapeType_getString dbMTermShapeType_of_string "\<lambda>_. True"
proof unfold_locales
  show "dbMTermShapeType_of_string (dbMTermShapeType_getString v) = v" for v
    by (cases v) (simp_all add: dbMTermShapeType_of_string_def char_eval)
qed (auto simp: dbMTermShapeType_of_string_def)

interpretation accessType: enum_codec dbAccessType_getString dbAccessType_of_string "\<lambda>_. True"
proof unfold_locales
  show "dbAccessType_of_string (dbAccessType_getString v) = v" for v
    by (cases v) (simp_all add: dbAccessType_of_string_def char_eval)
qed (auto simp: dbAccessType_of_string_def)

end
