(* ===== verification/DbWire.thy ===== *)
theory DbWire
  imports OdbPrelude Geom DbEnums
begin

text \<open>
  The wires of nets (\<^verbatim>\<open>dbWireOpcode.h\<close>, \<^verbatim>\<open>dbWireCodec.cpp\<close>, \<^verbatim>\<open>dbWireShapeItr.cpp\<close>,
  \<^verbatim>\<open>dbShape.h\<close>, \<^verbatim>\<open>dbShape.cpp\<close>): a wire is a string of operation bytes, each with an integer, which
  \<open>dbWireEncoder\<close> writes, \<open>dbWireDecoder\<close> reads and \<open>dbWireShapeItr\<close> turns into rectangles.

  A pointer to a layer, a via or a rule is its id in the table of the technology or the block, and 0 is
  the null pointer. \<open>wire_db\<close> is what the tables hold. \<open>dbg\<close> says whether assertions are compiled in;
  what the code does to memory it does not own (a null pointer, an index outside the vectors) is an error value.
\<close>

unbundle bit_operations_syntax

section \<open>Technology and block\<close>

record dbTechLayer =
  tl_id :: nat
  tl_number :: int
  tl_name :: string
  tl_type :: dbTechLayerType
  tl_direction :: dbTechLayerDir
  tl_thickness :: "nat option"
  tl_width :: nat
  tl_wrong_way_width :: nat

text \<open>A block via or a technology via: the layers it joins, its bounding box, its boxes with their layers.\<close>

record wire_via =
  via_top :: nat
  via_bottom :: nat
  via_bbox :: "Rect option"
  via_boxes :: "(nat \<times> Rect) list"

record wire_db =
  wd_layers :: "dbTechLayer list"
  wd_vias :: "(nat \<times> wire_via) list"
  wd_tech_vias :: "(nat \<times> wire_via) list"
  wd_block_rules :: "(nat \<times> nat) list"
  wd_tech_rules :: "(nat \<times> nat) list"

datatype wire_error = AssertFailed | BadPointer | OutOfRange | Hangs | Throws nat

definition dbTech_getLayer :: "wire_db \<Rightarrow> nat \<Rightarrow> wire_error + dbTechLayer" where
  "dbTech_getLayer db layer =
     (case List.find (\<lambda>l. tl_id l = layer) (wd_layers db) of Some l \<Rightarrow> Inr l | None \<Rightarrow> Inl BadPointer)"

definition via_of :: "wire_db \<Rightarrow> bool \<Rightarrow> nat \<Rightarrow> wire_error + wire_via" where
  "via_of db tech via =
     (case map_of (if tech then wd_tech_vias db else wd_vias db) via of Some v \<Rightarrow> Inr v | None \<Rightarrow> Inl BadPointer)"

definition rule_width :: "wire_db \<Rightarrow> bool \<Rightarrow> nat \<Rightarrow> wire_error + nat" where
  "rule_width db block_rule rule =
     (case map_of (if block_rule then wd_block_rules db else wd_tech_rules db) rule of
        Some w \<Rightarrow> Inr w | None \<Rightarrow> Inl BadPointer)"

text \<open>An id is a \<^verbatim>\<open>uint32_t\<close> that is stored in an \<^verbatim>\<open>int\<close> and converted back.\<close>

definition int_of_uint32 :: "nat \<Rightarrow> int" where
  "int_of_uint32 n = sint (of_nat n :: 32 word)"

definition uint32_of_int :: "int \<Rightarrow> nat" where
  "uint32_of_int d = unat (of_int d :: 32 word)"

lemma uint32_of_int_of_uint32: "n < 2 ^ 32 \<Longrightarrow> uint32_of_int (int_of_uint32 n) = n"
  by (simp add: uint32_of_int_def int_of_uint32_def unat_of_nat take_bit_eq_mod)

definition assert_that :: "bool \<Rightarrow> bool \<Rightarrow> wire_error + unit" where
  "assert_that dbg P = (if dbg \<and> \<not> P then Inl AssertFailed else Inr ())"

lemma assert_that_Inr [simp]: "assert_that dbg P = Inr u \<longleftrightarrow> (dbg \<longrightarrow> P)"
  by (simp add: assert_that_def)

section \<open>Opcodes\<close>

named_theorems wire_ops \<open>the operation bytes, for evaluation\<close>

definition WOP_OPCODE_MASK :: "8 word" where [wire_ops]: "WOP_OPCODE_MASK = 0x1F"
definition kPath :: "8 word" where [wire_ops]: "kPath = 0"
definition kShort :: "8 word" where [wire_ops]: "kShort = 1"
definition kJunction :: "8 word" where [wire_ops]: "kJunction = 2"
definition kRule :: "8 word" where [wire_ops]: "kRule = 3"
definition kX :: "8 word" where [wire_ops]: "kX = 4"
definition kY :: "8 word" where [wire_ops]: "kY = 5"
definition kColinear :: "8 word" where [wire_ops]: "kColinear = 6"
definition kVia :: "8 word" where [wire_ops]: "kVia = 7"
definition kTechVia :: "8 word" where [wire_ops]: "kTechVia = 8"
definition kIterm :: "8 word" where [wire_ops]: "kIterm = 9"
definition kBterm :: "8 word" where [wire_ops]: "kBterm = 10"
definition kOperand :: "8 word" where [wire_ops]: "kOperand = 11"
definition kProperty :: "8 word" where [wire_ops]: "kProperty = 12"
definition kVwire :: "8 word" where [wire_ops]: "kVwire = 13"
definition kRect :: "8 word" where [wire_ops]: "kRect = 14"
definition kNop :: "8 word" where [wire_ops]: "kNop = 15"
definition kColor :: "8 word" where [wire_ops]: "kColor = 16"
definition kViaColor :: "8 word" where [wire_ops]: "kViaColor = 17"

definition WOP_VIA_EXIT_TOP :: "8 word" where [wire_ops]: "WOP_VIA_EXIT_TOP = 0x80"
definition WOP_DEFAULT_WIDTH :: "8 word" where [wire_ops]: "WOP_DEFAULT_WIDTH = 0x40"
definition WOP_EXTENSION :: "8 word" where [wire_ops]: "WOP_EXTENSION = 0x80"
definition WOP_BLOCK_RULE :: "8 word" where [wire_ops]: "WOP_BLOCK_RULE = 0x80"
definition WOP_WIRE_TYPE_MASK :: "8 word" where [wire_ops]: "WOP_WIRE_TYPE_MASK = 0xE0"

definition kNone :: "8 word" where [wire_ops]: "kNone = 0x00"
definition kCover :: "8 word" where [wire_ops]: "kCover = 0x20"
definition kFixed :: "8 word" where [wire_ops]: "kFixed = 0x40"
definition kRouted :: "8 word" where [wire_ops]: "kRouted = 0x60"
definition kNoShield :: "8 word" where [wire_ops]: "kNoShield = 0x80"

definition WOP_NON_DEFAULT_WIDTH_POINT_CNT :: nat where [wire_ops]: "WOP_NON_DEFAULT_WIDTH_POINT_CNT = 16"

section \<open>The point at an index\<close>

record WirePoint =
  pnt_x :: int
  pnt_y :: int
  pnt_layer :: nat

definition via_exit_layer :: "wire_db \<Rightarrow> bool \<Rightarrow> 8 word \<Rightarrow> int \<Rightarrow> wire_error + nat" where
  "via_exit_layer db tech opcode d =
     and_then (via_of db tech (uint32_of_int d))
       (\<lambda>v. Inr (if opcode AND WOP_VIA_EXIT_TOP \<noteq> 0 then via_top v else via_bottom v))"

text \<open>
  One turn of the walk back: it returns, or goes on at another index with the flags and the point so far.
\<close>

record prev_state =
  ps_idx :: int
  ps_get_layer :: bool
  ps_look_for_x :: bool
  ps_look_for_y :: bool
  ps_pnt :: WirePoint

definition prev_turn ::
  "wire_db \<Rightarrow> 8 word \<Rightarrow> int \<Rightarrow> prev_state \<Rightarrow> (wire_error + WirePoint) + prev_state" where
  "prev_turn db opcode d s =
     (let wire_op = opcode AND WOP_OPCODE_MASK;
          go_on = s\<lparr>ps_idx := ps_idx s - 1\<rparr>
      in if wire_op = kPath \<or> wire_op = kShort then
           if ps_get_layer s then
             let pnt = (ps_pnt s)\<lparr>pnt_layer := uint32_of_int d\<rparr>
             in if \<not> ps_look_for_x s \<and> \<not> ps_look_for_y s then Inl (Inr pnt)
                else Inr (go_on\<lparr>ps_get_layer := False, ps_pnt := pnt\<rparr>)
           else Inr go_on
         else if wire_op = kJunction then Inr (s\<lparr>ps_idx := d\<rparr>)
         else if wire_op = kX then
           if ps_look_for_x s then
             let pnt = (ps_pnt s)\<lparr>pnt_x := d\<rparr>
             in if \<not> ps_look_for_y s \<and> \<not> ps_get_layer s then Inl (Inr pnt)
                else Inr (go_on\<lparr>ps_look_for_x := False, ps_pnt := pnt\<rparr>)
           else Inr go_on
         else if wire_op = kY then
           if ps_look_for_y s then
             let pnt = (ps_pnt s)\<lparr>pnt_y := d\<rparr>
             in if \<not> ps_look_for_x s \<and> \<not> ps_get_layer s then Inl (Inr pnt)
                else Inr (go_on\<lparr>ps_look_for_y := False, ps_pnt := pnt\<rparr>)
           else Inr go_on
         else if wire_op = kVia \<or> wire_op = kTechVia then
           if ps_get_layer s then
             case via_exit_layer db (wire_op = kTechVia) opcode d of
               Inl e \<Rightarrow> Inl (Inl e)
             | Inr layer \<Rightarrow>
                 let pnt = (ps_pnt s)\<lparr>pnt_layer := layer\<rparr>
                 in if \<not> ps_look_for_x s \<and> \<not> ps_look_for_y s then Inl (Inr pnt)
                    else Inr (go_on\<lparr>ps_get_layer := False, ps_pnt := pnt\<rparr>)
           else Inr go_on
         else Inr go_on)"

text \<open>The walk may go on for ever over bytes that no encoder writes.\<close>

partial_function (option) prev_point ::
  "wire_db \<Rightarrow> 8 word list \<Rightarrow> int list \<Rightarrow> prev_state \<Rightarrow> (wire_error + WirePoint) option" where
  "prev_point db opcodes data s =
     (if ps_idx s < 0 \<or> int (length opcodes) \<le> ps_idx s \<or> int (length data) \<le> ps_idx s then Some (Inl OutOfRange)
      else case prev_turn db (opcodes ! nat (ps_idx s)) (data ! nat (ps_idx s)) s of
             Inl r \<Rightarrow> Some r
           | Inr s \<Rightarrow> prev_point db opcodes data s)"

lemmas prev_point_code [code] = prev_point.simps

definition getPrevPoint ::
  "wire_db \<Rightarrow> 8 word list \<Rightarrow> int list \<Rightarrow> int \<Rightarrow> bool \<Rightarrow> wire_error + WirePoint" where
  "getPrevPoint db opcodes data idx get_layer =
     (case prev_point db opcodes data
             \<lparr>ps_idx = idx, ps_get_layer = get_layer, ps_look_for_x = True, ps_look_for_y = True,
              ps_pnt = \<lparr>pnt_x = 0, pnt_y = 0, pnt_layer = 0\<rparr>\<rparr> of
        None \<Rightarrow> Inl Hangs | Some r \<Rightarrow> r)"

section \<open>The encoder\<close>

record dbWireEncoder =
  enc_data :: "int list"
  enc_opcodes :: "8 word list"
  enc_layer :: nat
  enc_idx :: nat
  enc_x :: int
  enc_y :: int
  enc_non_default_rule :: nat
  enc_point_cnt :: nat
  enc_via_cnt :: nat
  enc_prev_extended_colinear_pnt :: bool
  enc_wire_type :: "8 word"
  enc_rule_opcode :: "8 word"

definition addOp :: "8 word \<Rightarrow> int \<Rightarrow> dbWireEncoder \<Rightarrow> dbWireEncoder" where
  "addOp opcode val e =
     e\<lparr>enc_data := enc_data e @ [val], enc_opcodes := enc_opcodes e @ [opcode], enc_idx := enc_idx e + 1\<rparr>"

fun getWireType :: "dbWireType \<Rightarrow> wire_error + 8 word" where
  "getWireType dbWireType.NONE = Inr kNone"
| "getWireType dbWireType.COVER = Inr kCover"
| "getWireType dbWireType.FIXED = Inr kFixed"
| "getWireType dbWireType.ROUTED = Inr kRouted"
| "getWireType dbWireType.NOSHIELD = Inr kNoShield"
| "getWireType dbWireType.SHIELD = Inl (Throws 1113)"

text \<open>A non-default rule: its id, and whether it is one of the block.\<close>

definition initPath :: "nat \<Rightarrow> 8 word \<Rightarrow> dbWireEncoder \<Rightarrow> dbWireEncoder" where
  "initPath layer wire_type e =
     e\<lparr>enc_wire_type := wire_type, enc_point_cnt := 0, enc_via_cnt := 0, enc_layer := layer,
       enc_non_default_rule := 0, enc_rule_opcode := 0, enc_prev_extended_colinear_pnt := False\<rparr>"

definition initPath_rule :: "nat \<Rightarrow> 8 word \<Rightarrow> nat \<times> bool \<Rightarrow> dbWireEncoder \<Rightarrow> dbWireEncoder" where
  "initPath_rule layer wire_type rule e =
     e\<lparr>enc_wire_type := wire_type, enc_point_cnt := 0, enc_via_cnt := 0, enc_layer := layer,
       enc_non_default_rule := fst rule,
       enc_rule_opcode := (if snd rule then kRule OR WOP_BLOCK_RULE else kRule),
       enc_prev_extended_colinear_pnt := False, enc_x := 0, enc_y := 0\<rparr>"

text \<open>\<open>begin\<close> on a constructed encoder, and \<open>append\<close> to the bytes of a wire.\<close>

definition dbWireEncoder_begin :: dbWireEncoder where
  "dbWireEncoder_begin =
     \<lparr>enc_data = [], enc_opcodes = [], enc_layer = 0, enc_idx = 0, enc_x = 0, enc_y = 0,
      enc_non_default_rule = 0, enc_point_cnt = 0, enc_via_cnt = 0, enc_prev_extended_colinear_pnt = False,
      enc_wire_type = 0, enc_rule_opcode = 0\<rparr>"

definition dbWireEncoder_append :: "8 word list \<Rightarrow> int list \<Rightarrow> dbWireEncoder \<Rightarrow> dbWireEncoder" where
  "dbWireEncoder_append opcodes data e =
     e\<lparr>enc_data := data, enc_opcodes := opcodes, enc_layer := 0, enc_idx := length data, enc_x := 0, enc_y := 0,
       enc_non_default_rule := 0, enc_rule_opcode := 0, enc_point_cnt := 0, enc_via_cnt := 0,
       enc_prev_extended_colinear_pnt := False\<rparr>"

text \<open>
  \<open>addPoint\<close>. The two halves of its body, for the default width and for a rule, differ in the
  flag \<open>width\<close> and in the rule that is repeated every 16 points.
\<close>

definition enc_count :: "dbWireEncoder \<Rightarrow> dbWireEncoder" where
  "enc_count e = e\<lparr>enc_point_cnt := enc_point_cnt e + 1\<rparr>"

definition enc_repeat_rule :: "dbWireEncoder \<Rightarrow> dbWireEncoder" where
  "enc_repeat_rule e =
     (if enc_non_default_rule e \<noteq> 0 \<and> enc_point_cnt e \<noteq> 0
         \<and> enc_point_cnt e AND (WOP_NON_DEFAULT_WIDTH_POINT_CNT - 1) = 0
      then addOp (enc_rule_opcode e) (int_of_uint32 (enc_non_default_rule e)) e else e)"

definition enc_property :: "nat \<Rightarrow> dbWireEncoder \<Rightarrow> dbWireEncoder" where
  "enc_property prop e = (if enc_point_cnt e \<noteq> 1 then addOp kProperty (int_of_uint32 prop) e else e)"

definition addPoint ::
  "bool \<Rightarrow> int \<Rightarrow> int \<Rightarrow> nat \<Rightarrow> dbWireEncoder \<Rightarrow> wire_error + dbWireEncoder \<times> nat" where
  "addPoint dbg x y prop e =
     (let width = (if enc_non_default_rule e = 0 then WOP_DEFAULT_WIDTH else 0);
          r = (if enc_point_cnt e = 0
               then Inr (enc_count ((addOp (kY OR width) y (addOp (kX OR width) x e))\<lparr>enc_x := x, enc_y := y\<rparr>),
                         enc_idx e + 1)
               else if enc_x e = x \<and> enc_y e = y then Inr (addOp (kColinear OR width) 0 e, enc_idx e)
               else if enc_y e = y then Inr (enc_count ((addOp (kX OR width) x e)\<lparr>enc_x := x\<rparr>), enc_idx e)
               else if enc_x e = x then Inr (enc_count ((addOp (kY OR width) y e)\<lparr>enc_y := y\<rparr>), enc_idx e)
               else and_then (assert_that dbg False) (\<lambda>_. Inr (e, enc_idx e)))
      in and_then r (\<lambda>(e, jct_id).
           Inr ((enc_property prop (enc_repeat_rule e))\<lparr>enc_prev_extended_colinear_pnt := False\<rparr>, jct_id)))"

definition addPoint_ext ::
  "bool \<Rightarrow> int \<Rightarrow> int \<Rightarrow> int \<Rightarrow> nat \<Rightarrow> dbWireEncoder \<Rightarrow> wire_error + dbWireEncoder \<times> nat" where
  "addPoint_ext dbg x y ext prop e =
     (let width = (if enc_non_default_rule e = 0 then WOP_DEFAULT_WIDTH else 0);
          clr = (\<lambda>e. e\<lparr>enc_prev_extended_colinear_pnt := False\<rparr>);
          r = (if enc_point_cnt e = 0
               then Inr (clr (enc_count ((addOp kOperand ext (addOp (kY OR WOP_EXTENSION OR width) y
                           (addOp (kX OR width) x e)))\<lparr>enc_x := x, enc_y := y\<rparr>)), enc_idx e + 1)
               else if enc_x e = x \<and> enc_y e = y then
                 and_then (assert_that dbg (enc_point_cnt e > 1 \<or> enc_point_cnt e > 0 \<and> enc_via_cnt e > 0)) (\<lambda>_.
                 and_then (assert_that dbg (\<not> enc_prev_extended_colinear_pnt e)) (\<lambda>_.
                 Inr ((addOp (kColinear OR WOP_EXTENSION OR width) ext e)\<lparr>enc_prev_extended_colinear_pnt := True\<rparr>,
                      enc_idx e)))
               else if enc_y e = y
               then Inr (clr (enc_count ((addOp kOperand ext (addOp (kX OR WOP_EXTENSION OR width) x e))\<lparr>enc_x := x\<rparr>)),
                         enc_idx e)
               else if enc_x e = x
               then Inr (clr (enc_count ((addOp kOperand ext (addOp (kY OR WOP_EXTENSION OR width) y e))\<lparr>enc_y := y\<rparr>)),
                         enc_idx e)
               else and_then (assert_that dbg False) (\<lambda>_. Inr (e, enc_idx e)))
      in and_then r (\<lambda>(e, jct_id). Inr (enc_property prop (enc_repeat_rule e), jct_id)))"

definition setColor :: "nat \<Rightarrow> dbWireEncoder \<Rightarrow> wire_error + dbWireEncoder" where
  "setColor mask_color e =
     (if mask_color < 1 \<or> 3 < mask_color then Inl (Throws 1102) else Inr (addOp kColor (int mask_color) e))"

definition clearColor :: "dbWireEncoder \<Rightarrow> dbWireEncoder" where
  "clearColor e = addOp kColor 0 e"

text \<open>The colours are bytes, and so is their encoding.\<close>

definition setViaColor :: "nat \<Rightarrow> nat \<Rightarrow> nat \<Rightarrow> dbWireEncoder \<Rightarrow> wire_error + dbWireEncoder" where
  "setViaColor bottom_color cut_color top_color e =
     (if 3 < bottom_color \<or> 3 < cut_color \<or> 3 < top_color then Inl (Throws 1103)
      else Inr (addOp kViaColor
                  (int ((push_bit 4 bottom_color OR push_bit 2 cut_color OR top_color) mod 2 ^ 8)) e))"

definition clearViaColor :: "dbWireEncoder \<Rightarrow> dbWireEncoder" where
  "clearViaColor e = addOp kViaColor 0 e"

definition addVia ::
  "bool \<Rightarrow> wire_db \<Rightarrow> nat \<Rightarrow> dbWireEncoder \<Rightarrow> wire_error + dbWireEncoder \<times> nat" where
  "addVia dbg db via e =
     and_then (assert_that dbg (enc_point_cnt e \<noteq> 0)) (\<lambda>_.
     and_then (via_of db False via) (\<lambda>v.
     and_then
       (if via_top v = enc_layer e
        then Inr (addOp kVia (int_of_uint32 via) (e\<lparr>enc_layer := via_bottom v\<rparr>))
        else if via_bottom v = enc_layer e
        then Inr (addOp (kVia OR WOP_VIA_EXIT_TOP) (int_of_uint32 via) (e\<lparr>enc_layer := via_top v\<rparr>))
        else and_then (assert_that dbg False) (\<lambda>_. Inr (addOp kVia 0 e))) (\<lambda>e'.
     Inr (e'\<lparr>enc_via_cnt := enc_via_cnt e' + 1\<rparr>, enc_idx e))))"

definition addTechVia ::
  "bool \<Rightarrow> wire_db \<Rightarrow> nat \<Rightarrow> dbWireEncoder \<Rightarrow> wire_error + dbWireEncoder \<times> nat" where
  "addTechVia dbg db via e =
     and_then (assert_that dbg (enc_point_cnt e \<noteq> 0)) (\<lambda>_.
     and_then (via_of db True via) (\<lambda>v.
     and_then
       (if via_top v = enc_layer e
        then Inr (addOp kTechVia (int_of_uint32 via) (e\<lparr>enc_layer := via_bottom v\<rparr>))
        else if via_bottom v = enc_layer e
        then Inr (addOp (kTechVia OR WOP_VIA_EXIT_TOP) (int_of_uint32 via) (e\<lparr>enc_layer := via_top v\<rparr>))
        else and_then (assert_that dbg False) (\<lambda>_. Inr (addOp kTechVia 0 e))) (\<lambda>e'.
     Inr ((clearColor e')\<lparr>enc_via_cnt := enc_via_cnt e' + 1\<rparr>, enc_idx e))))"

definition addRect ::
  "bool \<Rightarrow> int \<Rightarrow> int \<Rightarrow> int \<Rightarrow> int \<Rightarrow> dbWireEncoder \<Rightarrow> wire_error + dbWireEncoder" where
  "addRect dbg deltaX1 deltaY1 deltaX2 deltaY2 e =
     and_then (assert_that dbg (enc_point_cnt e \<noteq> 0)) (\<lambda>_.
     Inr (addOp kOperand deltaY2 (addOp kOperand deltaX2 (addOp kOperand deltaY1 (addOp kRect deltaX1 e)))))"

definition addITerm :: "bool \<Rightarrow> nat \<Rightarrow> dbWireEncoder \<Rightarrow> wire_error + dbWireEncoder" where
  "addITerm dbg iterm e =
     and_then (assert_that dbg (enc_point_cnt e \<noteq> 0)) (\<lambda>_. Inr (addOp kIterm (int_of_uint32 iterm) e))"

definition addBTerm :: "bool \<Rightarrow> nat \<Rightarrow> dbWireEncoder \<Rightarrow> wire_error + dbWireEncoder" where
  "addBTerm dbg bterm e =
     and_then (assert_that dbg (enc_point_cnt e \<noteq> 0)) (\<lambda>_. Inr (addOp kBterm (int_of_uint32 bterm) e))"

subsection \<open>New paths\<close>

definition add_rule :: "dbWireEncoder \<Rightarrow> dbWireEncoder" where
  "add_rule e = addOp (enc_rule_opcode e) (int_of_uint32 (enc_non_default_rule e)) e"

definition newPath :: "nat \<Rightarrow> dbWireType \<Rightarrow> dbWireEncoder \<Rightarrow> wire_error + dbWireEncoder" where
  "newPath layer type e =
     and_then (getWireType type) (\<lambda>t. Inr (addOp (kPath OR t) (int_of_uint32 layer) (initPath layer t e)))"

definition newPath_rule ::
  "nat \<Rightarrow> dbWireType \<Rightarrow> nat \<times> bool \<Rightarrow> dbWireEncoder \<Rightarrow> wire_error + dbWireEncoder" where
  "newPath_rule layer type rule e =
     and_then (getWireType type) (\<lambda>t.
     Inr (add_rule (addOp (kPath OR t) (int_of_uint32 layer) (initPath_rule layer t rule e))))"

text \<open>A path from a junction: the point of the junction is looked up in what has been written.\<close>

definition at_junction ::
  "bool \<Rightarrow> wire_db \<Rightarrow> int \<Rightarrow> (nat \<Rightarrow> dbWireEncoder \<Rightarrow> wire_error + dbWireEncoder) \<Rightarrow> dbWireEncoder
   \<Rightarrow> wire_error + dbWireEncoder" where
  "at_junction dbg db jct_id init e =
     and_then (assert_that dbg (0 \<le> jct_id \<and> jct_id < int (enc_idx e))) (\<lambda>_.
     and_then (getPrevPoint db (enc_opcodes e) (enc_data e) jct_id True) (\<lambda>pnt.
     and_then (init (pnt_layer pnt) e) (\<lambda>e.
     Inr (addOp (kJunction OR enc_wire_type e) jct_id
            (e\<lparr>enc_x := pnt_x pnt, enc_y := pnt_y pnt, enc_point_cnt := 1\<rparr>)))))"

definition newPath_jct :: "bool \<Rightarrow> wire_db \<Rightarrow> int \<Rightarrow> dbWireEncoder \<Rightarrow> wire_error + dbWireEncoder" where
  "newPath_jct dbg db jct_id e =
     and_then (at_junction dbg db jct_id (\<lambda>layer e. Inr (initPath layer (enc_wire_type e) e)) e) (\<lambda>e.
     Inr (addOp (kColinear OR WOP_DEFAULT_WIDTH) 0 e))"

definition newPath_jct_type ::
  "bool \<Rightarrow> wire_db \<Rightarrow> int \<Rightarrow> dbWireType \<Rightarrow> dbWireEncoder \<Rightarrow> wire_error + dbWireEncoder" where
  "newPath_jct_type dbg db jct_id type e =
     and_then (at_junction dbg db jct_id
                 (\<lambda>layer e. and_then (getWireType type) (\<lambda>t. Inr (initPath layer t e))) e) (\<lambda>e.
     Inr (addOp (kColinear OR WOP_DEFAULT_WIDTH) 0 e))"

definition newPathShort ::
  "bool \<Rightarrow> int \<Rightarrow> nat \<Rightarrow> dbWireType \<Rightarrow> dbWireEncoder \<Rightarrow> wire_error + dbWireEncoder" where
  "newPathShort dbg jct_id layer type e =
     and_then (assert_that dbg (0 \<le> jct_id \<and> jct_id < int (enc_idx e))) (\<lambda>_.
     and_then (getWireType type) (\<lambda>t.
     Inr (addOp kOperand jct_id (addOp (kShort OR t) (int_of_uint32 layer) (initPath layer t e)))))"

definition newPathVirtualWire ::
  "bool \<Rightarrow> int \<Rightarrow> nat \<Rightarrow> dbWireType \<Rightarrow> dbWireEncoder \<Rightarrow> wire_error + dbWireEncoder" where
  "newPathVirtualWire dbg jct_id layer type e =
     and_then (assert_that dbg (0 \<le> jct_id \<and> jct_id < int (enc_idx e))) (\<lambda>_.
     and_then (getWireType type) (\<lambda>t.
     Inr (addOp kOperand jct_id (addOp (kVwire OR t) (int_of_uint32 layer) (initPath layer t e)))))"

definition newPathExt ::
  "bool \<Rightarrow> wire_db \<Rightarrow> int \<Rightarrow> int \<Rightarrow> dbWireEncoder \<Rightarrow> wire_error + dbWireEncoder" where
  "newPathExt dbg db jct_id ext e =
     and_then (at_junction dbg db jct_id (\<lambda>layer e. Inr (initPath layer (enc_wire_type e) e)) e) (\<lambda>e.
     Inr (addOp (kColinear OR WOP_EXTENSION OR WOP_DEFAULT_WIDTH) ext e))"

definition newPathExt_type ::
  "bool \<Rightarrow> wire_db \<Rightarrow> int \<Rightarrow> int \<Rightarrow> dbWireType \<Rightarrow> dbWireEncoder \<Rightarrow> wire_error + dbWireEncoder" where
  "newPathExt_type dbg db jct_id ext type e =
     and_then (at_junction dbg db jct_id
                 (\<lambda>layer e. and_then (getWireType type) (\<lambda>t. Inr (initPath layer t e))) e) (\<lambda>e.
     Inr (addOp (kColinear OR WOP_EXTENSION OR WOP_DEFAULT_WIDTH) ext e))"

definition newPath_jct_rule ::
  "bool \<Rightarrow> wire_db \<Rightarrow> int \<Rightarrow> nat \<times> bool \<Rightarrow> dbWireEncoder \<Rightarrow> wire_error + dbWireEncoder" where
  "newPath_jct_rule dbg db jct_id rule e =
     and_then (at_junction dbg db jct_id (\<lambda>layer e. Inr (initPath_rule layer (enc_wire_type e) rule e)) e) (\<lambda>e.
     Inr (addOp kColinear 0 (add_rule e)))"

definition newPath_jct_type_rule ::
  "bool \<Rightarrow> wire_db \<Rightarrow> int \<Rightarrow> dbWireType \<Rightarrow> nat \<times> bool \<Rightarrow> dbWireEncoder \<Rightarrow> wire_error + dbWireEncoder" where
  "newPath_jct_type_rule dbg db jct_id type rule e =
     and_then (at_junction dbg db jct_id
                 (\<lambda>layer e. and_then (getWireType type) (\<lambda>t. Inr (initPath_rule layer t rule e))) e) (\<lambda>e.
     Inr (addOp kColinear 0 (add_rule e)))"

definition newPathShort_rule ::
  "bool \<Rightarrow> int \<Rightarrow> nat \<Rightarrow> dbWireType \<Rightarrow> nat \<times> bool \<Rightarrow> dbWireEncoder \<Rightarrow> wire_error + dbWireEncoder" where
  "newPathShort_rule dbg jct_id layer type rule e =
     and_then (assert_that dbg (0 \<le> jct_id \<and> jct_id < int (enc_idx e))) (\<lambda>_.
     and_then (getWireType type) (\<lambda>t.
     Inr (add_rule (addOp kOperand jct_id
            (addOp (kShort OR t) (int_of_uint32 layer) (initPath_rule layer t rule e))))))"

definition newPathVirtualWire_rule ::
  "bool \<Rightarrow> int \<Rightarrow> nat \<Rightarrow> dbWireType \<Rightarrow> nat \<times> bool \<Rightarrow> dbWireEncoder \<Rightarrow> wire_error + dbWireEncoder" where
  "newPathVirtualWire_rule dbg jct_id layer type rule e =
     and_then (assert_that dbg (0 \<le> jct_id \<and> jct_id < int (enc_idx e))) (\<lambda>_.
     and_then (getWireType type) (\<lambda>t.
     Inr (add_rule (addOp kOperand jct_id
            (addOp (kVwire OR t) (int_of_uint32 layer) (initPath_rule layer t rule e))))))"

definition newPathExt_rule ::
  "bool \<Rightarrow> wire_db \<Rightarrow> int \<Rightarrow> int \<Rightarrow> nat \<times> bool \<Rightarrow> dbWireEncoder \<Rightarrow> wire_error + dbWireEncoder" where
  "newPathExt_rule dbg db jct_id ext rule e =
     and_then (at_junction dbg db jct_id (\<lambda>layer e. Inr (initPath_rule layer (enc_wire_type e) rule e)) e) (\<lambda>e.
     Inr (addOp (kColinear OR WOP_EXTENSION) ext (add_rule e)))"

definition newPathExt_type_rule ::
  "bool \<Rightarrow> wire_db \<Rightarrow> int \<Rightarrow> int \<Rightarrow> dbWireType \<Rightarrow> nat \<times> bool \<Rightarrow> dbWireEncoder
   \<Rightarrow> wire_error + dbWireEncoder" where
  "newPathExt_type_rule dbg db jct_id ext type rule e =
     and_then (at_junction dbg db jct_id
                 (\<lambda>layer e. and_then (getWireType type) (\<lambda>t. Inr (initPath_rule layer t rule e))) e) (\<lambda>e.
     Inr (addOp (kColinear OR WOP_EXTENSION) ext (add_rule e)))"

text \<open>\<open>end\<close>: the bytes of the wire are replaced, unless none was written.\<close>

record wire_code =
  wc_opcodes :: "8 word list"
  wc_data :: "int list"

definition dbWireEncoder_end :: "wire_code \<Rightarrow> dbWireEncoder \<Rightarrow> wire_code \<times> dbWireEncoder" where
  "dbWireEncoder_end w e =
     (if enc_opcodes e = [] then (w, e)
      else (\<lparr>wc_opcodes = enc_opcodes e, wc_data = enc_data e\<rparr>, e\<lparr>enc_point_cnt := 0\<rparr>))"

section \<open>The decoder\<close>

datatype OpCode = PATH | JUNCTION | SHORT | VWIRE | POINT | POINT_EXT | VIA | TECH_VIA | RECT | ITERM | BTERM
  | RULE | END_DECODE

record dbWireDecoder =
  dec_x :: int
  dec_y :: int
  dec_default_width :: bool
  dec_block_rule :: bool
  dec_layer :: nat
  dec_operand :: int
  dec_operand2 :: int
  dec_idx :: nat
  dec_jct_id :: int
  dec_wire_type :: dbWireType
  dec_point_cnt :: nat
  dec_opcode :: OpCode
  dec_property :: nat
  dec_deltaX1 :: int
  dec_deltaY1 :: int
  dec_deltaX2 :: int
  dec_deltaY2 :: int
  dec_color :: "nat option"
  dec_viacolor :: "(nat \<times> nat \<times> nat) option"

text \<open>
  \<open>begin\<close> leaves the members it does not set as they are: in a new decoder there is no colour, and the rest is
  indeterminate, which \<open>d0\<close> stands for.
\<close>

definition dbWireDecoder_begin :: "dbWireDecoder \<Rightarrow> dbWireDecoder" where
  "dbWireDecoder_begin d0 =
     d0\<lparr>dec_x := 0, dec_y := 0, dec_default_width := True, dec_layer := 0, dec_idx := 0, dec_jct_id := - 1,
        dec_opcode := OpCode.END_DECODE, dec_wire_type := dbWireType.NONE, dec_point_cnt := 0, dec_property := 0,
        dec_deltaX1 := 0, dec_deltaY1 := 0, dec_deltaX2 := 0, dec_deltaY2 := 0\<rparr>"

text \<open>\<open>nextOp\<close> at an index: the byte and its integer. Past the end it reads outside the vectors.\<close>

definition fetch :: "wire_code \<Rightarrow> nat \<Rightarrow> wire_error + 8 word \<times> int" where
  "fetch w idx =
     (if idx < length (wc_opcodes w) \<and> idx < length (wc_data w)
      then Inr (wc_opcodes w ! idx, wc_data w ! idx) else Inl OutOfRange)"

definition nextOp :: "wire_code \<Rightarrow> dbWireDecoder \<Rightarrow> wire_error + 8 word \<times> int \<times> dbWireDecoder" where
  "nextOp w d = and_then (fetch w (dec_idx d)) (\<lambda>(opcode, val). Inr (opcode, val, d\<lparr>dec_idx := dec_idx d + 1\<rparr>))"

definition flushRule :: "wire_code \<Rightarrow> dbWireDecoder \<Rightarrow> dbWireDecoder" where
  "flushRule w d =
     (if dec_idx d \<noteq> length (wc_opcodes w) \<and> (wc_opcodes w ! dec_idx d) AND WOP_OPCODE_MASK = kRule
      then d\<lparr>dec_idx := dec_idx d + 1\<rparr> else d)"

definition set_wire_type :: "8 word \<Rightarrow> dbWireDecoder \<Rightarrow> dbWireDecoder" where
  "set_wire_type opcode d =
     (let wire_type = opcode AND WOP_WIRE_TYPE_MASK
      in if wire_type = kNone then d\<lparr>dec_wire_type := dbWireType.NONE\<rparr>
         else if wire_type = kCover then d\<lparr>dec_wire_type := dbWireType.COVER\<rparr>
         else if wire_type = kFixed then d\<lparr>dec_wire_type := dbWireType.FIXED\<rparr>
         else if wire_type = kRouted then d\<lparr>dec_wire_type := dbWireType.ROUTED\<rparr>
         else if wire_type = kNoShield then d\<lparr>dec_wire_type := dbWireType.NOSHIELD\<rparr>
         else d)"

definition new_layer :: "nat \<Rightarrow> dbWireDecoder \<Rightarrow> dbWireDecoder" where
  "new_layer layer d = d\<lparr>dec_layer := layer, dec_point_cnt := 0, dec_default_width := True\<rparr>"

definition returns :: "OpCode \<Rightarrow> dbWireDecoder \<Rightarrow> dbWireDecoder \<times> bool" where
  "returns opcode d = (d\<lparr>dec_opcode := opcode\<rparr>, True)"

definition next_path_point :: "wire_code \<Rightarrow> 8 word \<Rightarrow> dbWireDecoder \<Rightarrow> wire_error + dbWireDecoder \<times> bool" where
  "next_path_point w opcode d =
     and_then
       (if opcode AND WOP_EXTENSION \<noteq> 0
        then and_then (nextOp w d) (\<lambda>(_, ext, d). Inr (d\<lparr>dec_operand2 := ext, dec_opcode := OpCode.POINT_EXT\<rparr>))
        else Inr (d\<lparr>dec_opcode := OpCode.POINT\<rparr>))
       (\<lambda>d. Inr (flushRule w (d\<lparr>dec_property := 0\<rparr>), True))"

text \<open>
  One turn of \<open>next\<close>: the result says whether the call returns \<open>dec_opcode\<close> or goes to the next opcode.
\<close>

definition next_turn ::
  "bool \<Rightarrow> wire_db \<Rightarrow> wire_code \<Rightarrow> dbWireDecoder \<Rightarrow> wire_error + dbWireDecoder \<times> bool" where
  "next_turn dbg db w d0 =
     and_then (nextOp w (d0\<lparr>dec_jct_id := int (dec_idx d0)\<rparr>)) (\<lambda>(opcode, operand, d1).
     let d = d1\<lparr>dec_operand := operand\<rparr>; wire_op = opcode AND WOP_OPCODE_MASK
     in if wire_op = kPath then
          Inr (returns OpCode.PATH (set_wire_type opcode (new_layer (uint32_of_int operand) d)))
        else if wire_op = kShort \<or> wire_op = kVwire then
          and_then (nextOp w (set_wire_type opcode (new_layer (uint32_of_int operand) d))) (\<lambda>(_, operand2, d).
          Inr (returns (if wire_op = kShort then OpCode.SHORT else OpCode.VWIRE) (d\<lparr>dec_operand2 := operand2\<rparr>)))
        else if wire_op = kJunction then
          and_then (getPrevPoint db (wc_opcodes w) (wc_data w) operand True) (\<lambda>pnt.
          Inr (returns OpCode.JUNCTION
                 (set_wire_type opcode (new_layer (pnt_layer pnt) (d\<lparr>dec_x := pnt_x pnt, dec_y := pnt_y pnt\<rparr>)))))
        else if wire_op = kRule then
          Inr (returns OpCode.RULE
                 (d\<lparr>dec_default_width := False, dec_block_rule := (opcode AND WOP_BLOCK_RULE \<noteq> 0)\<rparr>))
        else if wire_op = kX then
          if dec_point_cnt d = 0 then
            and_then (nextOp w (d\<lparr>dec_x := operand, dec_jct_id := int (dec_idx d)\<rparr>)) (\<lambda>(opcode, y, d).
            if opcode AND WOP_EXTENSION \<noteq> 0 then
              and_then (nextOp w (d\<lparr>dec_y := y, dec_point_cnt := 1\<rparr>)) (\<lambda>(_, ext, d).
              Inr (returns OpCode.POINT_EXT (d\<lparr>dec_operand2 := ext\<rparr>)))
            else Inr (returns OpCode.POINT (d\<lparr>dec_y := y, dec_point_cnt := 1\<rparr>)))
          else next_path_point w opcode (d\<lparr>dec_x := operand, dec_point_cnt := dec_point_cnt d + 1\<rparr>)
        else if wire_op = kY then
          and_then (assert_that dbg (dec_point_cnt d \<noteq> 0)) (\<lambda>_.
          next_path_point w opcode (d\<lparr>dec_y := operand, dec_point_cnt := dec_point_cnt d + 1\<rparr>))
        else if wire_op = kColinear then
          Inr (flushRule w ((if opcode AND WOP_EXTENSION \<noteq> 0
                             then d\<lparr>dec_operand2 := operand, dec_opcode := OpCode.POINT_EXT\<rparr>
                             else d\<lparr>dec_opcode := OpCode.POINT\<rparr>)
                 \<lparr>dec_point_cnt := dec_point_cnt d + 1, dec_property := 0\<rparr>), True)
        else if wire_op = kVia \<or> wire_op = kTechVia then
          and_then (via_exit_layer db (wire_op = kTechVia) opcode operand) (\<lambda>layer.
          Inr (returns (if wire_op = kVia then OpCode.VIA else OpCode.TECH_VIA) (d\<lparr>dec_layer := layer\<rparr>)))
        else if wire_op = kRect then
          and_then (nextOp w (d\<lparr>dec_deltaX1 := operand\<rparr>)) (\<lambda>(_, deltaY1, d).
          and_then (nextOp w (d\<lparr>dec_deltaY1 := deltaY1\<rparr>)) (\<lambda>(_, deltaX2, d).
          and_then (nextOp w (d\<lparr>dec_deltaX2 := deltaX2\<rparr>)) (\<lambda>(_, deltaY2, d).
          Inr (returns OpCode.RECT (d\<lparr>dec_deltaY2 := deltaY2\<rparr>)))))
        else if wire_op = kIterm then Inr (returns OpCode.ITERM d)
        else if wire_op = kBterm then Inr (returns OpCode.BTERM d)
        else if wire_op = kOperand then and_then (assert_that dbg False) (\<lambda>_. Inr (d, False))
        else if wire_op = kProperty \<or> wire_op = kNop then Inr (d, False)
        else if wire_op = kColor then
          let color = nat (operand mod 2 ^ 8)
          in Inr (d\<lparr>dec_color := (if color = 0 then None else Some color)\<rparr>, False)
        else if wire_op = kViaColor then
          let viacolor = nat (operand mod 2 ^ 8)
          in Inr (d\<lparr>dec_viacolor :=
                      (if viacolor = 0 then None
                       else Some (drop_bit 4 (viacolor AND 0x30), drop_bit 2 (viacolor AND 0x0C), viacolor AND 0x03))\<rparr>,
                  False)
        else and_then (assert_that dbg False) (\<lambda>_. Inr (d, False)))"

text \<open>What holds of the result when there is one.\<close>

definition on_success :: "'e + 'a \<Rightarrow> ('a \<Rightarrow> bool) \<Rightarrow> bool" where
  "on_success r P = (case r of Inl e \<Rightarrow> True | Inr x \<Rightarrow> P x)"

lemma on_success_simps [simp]: "on_success (Inl e) P" "on_success (Inr x) P = P x"
  by (simp_all add: on_success_def)

lemma on_success_and_then: "on_success (and_then r k) P = on_success r (\<lambda>a. on_success (k a) P)"
  by (cases r) simp_all

lemma on_success_if:
  "on_success (if b then r else s) P = ((b \<longrightarrow> on_success r P) \<and> (\<not> b \<longrightarrow> on_success s P))"
  by simp

lemma on_success_assert: "on_success (assert_that dbg Q) P = ((dbg \<longrightarrow> Q) \<longrightarrow> P ())"
  by (simp add: assert_that_def)

lemma on_success_True [simp]: "on_success r (\<lambda>x. True)"
  by (simp add: on_success_def split: sum.split)

lemma on_successD: "on_success r P \<Longrightarrow> r = Inr x \<Longrightarrow> P x"
  by simp

lemma on_success_nextOp:
  "on_success (nextOp w d) P =
     (dec_idx d < length (wc_opcodes w) \<and> dec_idx d < length (wc_data w)
      \<longrightarrow> P (wc_opcodes w ! dec_idx d, wc_data w ! dec_idx d, d\<lparr>dec_idx := dec_idx d + 1\<rparr>))"
  by (auto simp: nextOp_def fetch_def)

lemma flushRule_bounds:
  "dec_idx d \<le> dec_idx (flushRule w d)"
  "dec_idx d \<le> length (wc_opcodes w) \<Longrightarrow> dec_idx (flushRule w d) \<le> length (wc_opcodes w)"
  "n < dec_idx d \<Longrightarrow> n < dec_idx (flushRule w d)"
  "n \<le> dec_idx d \<Longrightarrow> n \<le> dec_idx (flushRule w d)"
  by (simp_all add: flushRule_def)

lemma flushRule_simps [simp]:
  "dec_opcode (flushRule w d) = dec_opcode d" "dec_x (flushRule w d) = dec_x d" "dec_y (flushRule w d) = dec_y d"
  "dec_layer (flushRule w d) = dec_layer d" "dec_point_cnt (flushRule w d) = dec_point_cnt d"
  "dec_operand (flushRule w d) = dec_operand d" "dec_operand2 (flushRule w d) = dec_operand2 d"
  "dec_color (flushRule w d) = dec_color d" "dec_viacolor (flushRule w d) = dec_viacolor d"
  "dec_jct_id (flushRule w d) = dec_jct_id d"
  by (simp_all add: flushRule_def)

lemma set_wire_type_simps [simp]:
  "dec_idx (set_wire_type opcode d) = dec_idx d" "dec_x (set_wire_type opcode d) = dec_x d"
  "dec_y (set_wire_type opcode d) = dec_y d" "dec_layer (set_wire_type opcode d) = dec_layer d"
  "dec_point_cnt (set_wire_type opcode d) = dec_point_cnt d" "dec_operand (set_wire_type opcode d) = dec_operand d"
  "dec_color (set_wire_type opcode d) = dec_color d" "dec_viacolor (set_wire_type opcode d) = dec_viacolor d"
  "dec_jct_id (set_wire_type opcode d) = dec_jct_id d"
  by (simp_all add: set_wire_type_def Let_def)

lemma new_layer_simps [simp]:
  "dec_idx (new_layer l d) = dec_idx d" "dec_layer (new_layer l d) = l" "dec_point_cnt (new_layer l d) = 0"
  "dec_x (new_layer l d) = dec_x d" "dec_y (new_layer l d) = dec_y d" "dec_operand (new_layer l d) = dec_operand d"
  "dec_color (new_layer l d) = dec_color d" "dec_viacolor (new_layer l d) = dec_viacolor d"
  "dec_jct_id (new_layer l d) = dec_jct_id d"
  by (simp_all add: new_layer_def)

lemma next_path_point_post:
  assumes "dec_idx d \<le> length (wc_opcodes w)"
    and "\<And>d'. dec_idx d \<le> dec_idx d' \<Longrightarrow> dec_idx d' \<le> length (wc_opcodes w)
           \<Longrightarrow> dec_opcode d' \<noteq> OpCode.END_DECODE \<Longrightarrow> P (d', True)"
  shows "on_success (next_path_point w opcode d) P"
  using assms(1)
  by (auto simp: next_path_point_def on_success_and_then on_success_nextOp intro!: assms(2) flushRule_bounds)

lemma next_turn_post:
  "on_success (next_turn dbg db w d) (\<lambda>(d', ret). dec_idx d < dec_idx d' \<and> dec_idx d' \<le> length (wc_opcodes w)
     \<and> (ret \<longrightarrow> dec_opcode d' \<noteq> OpCode.END_DECODE))"
proof -
  have *: "on_success (next_path_point w opcode d1) (\<lambda>(d', ret). dec_idx d < dec_idx d'
      \<and> dec_idx d' \<le> length (wc_opcodes w) \<and> (ret \<longrightarrow> dec_opcode d' \<noteq> OpCode.END_DECODE))"
    if "dec_idx d < dec_idx d1" "dec_idx d1 \<le> length (wc_opcodes w)" for opcode d1
    using that by (intro next_path_point_post) auto
  show ?thesis
    unfolding next_turn_def Let_def
    by (simp only: on_success_and_then on_success_nextOp on_success_if on_success_simps case_prod_conv
          on_success_assert returns_def)
       (auto simp: wire_ops intro!: * flushRule_bounds)
qed

lemmas next_turn_idx = next_turn_post [THEN on_successD]

text \<open>\<open>next\<close>, which goes on to the next operation as long as the turn says so, and \<open>peek\<close>.\<close>

function next_op :: "bool \<Rightarrow> wire_db \<Rightarrow> wire_code \<Rightarrow> dbWireDecoder \<Rightarrow> wire_error + OpCode \<times> dbWireDecoder" where
  "next_op dbg db w d =
     (if dec_idx d = length (wc_opcodes w) then Inr (OpCode.END_DECODE, d)
      else case next_turn dbg db w d of
             Inl e \<Rightarrow> Inl e
           | Inr (d', True) \<Rightarrow> Inr (dec_opcode d', d')
           | Inr (d', False) \<Rightarrow> next_op dbg db w d')"
  by pat_completeness auto

termination
  by (relation "measure (\<lambda>(dbg, db, w, d). length (wc_opcodes w) - dec_idx d)")
     (auto dest!: next_turn_idx)

declare next_op.simps [simp del]

function peek_from :: "wire_code \<Rightarrow> nat \<Rightarrow> wire_error + OpCode" where
  "peek_from w idx =
     (if idx = length (wc_opcodes w) then Inr OpCode.END_DECODE
      else if length (wc_opcodes w) < idx then Inl OutOfRange
      else let opcode = wc_opcodes w ! idx; wire_op = opcode AND WOP_OPCODE_MASK
      in if wire_op = kPath then Inr OpCode.PATH
         else if wire_op = kShort then Inr OpCode.SHORT
         else if wire_op = kJunction then Inr OpCode.JUNCTION
         else if wire_op = kRule then Inr OpCode.RULE
         else if wire_op = kX \<or> wire_op = kY \<or> wire_op = kColinear then
           (if opcode AND WOP_EXTENSION \<noteq> 0 then Inr OpCode.POINT_EXT else Inr OpCode.POINT)
         else if wire_op = kVia then Inr OpCode.VIA
         else if wire_op = kTechVia then Inr OpCode.TECH_VIA
         else if wire_op = kIterm then Inr OpCode.ITERM
         else if wire_op = kBterm then Inr OpCode.BTERM
         else if wire_op = kRect then Inr OpCode.RECT
         else if wire_op = kVwire then Inr OpCode.VWIRE
         else peek_from w (idx + 1))"
  by pat_completeness auto

termination
  by (relation "measure (\<lambda>(w, idx). length (wc_opcodes w) - idx)") auto

declare peek_from.simps [simp del]

definition peek_op :: "wire_code \<Rightarrow> dbWireDecoder \<Rightarrow> wire_error + OpCode" where
  "peek_op w d = peek_from w (dec_idx d)"

subsection \<open>What a client reads\<close>

definition getPoint :: "bool \<Rightarrow> dbWireDecoder \<Rightarrow> wire_error + int \<times> int" where
  "getPoint dbg d = and_then (assert_that dbg (dec_opcode d = OpCode.POINT)) (\<lambda>_. Inr (dec_x d, dec_y d))"

definition getPoint_ext :: "bool \<Rightarrow> dbWireDecoder \<Rightarrow> wire_error + int \<times> int \<times> int" where
  "getPoint_ext dbg d =
     and_then (assert_that dbg (dec_opcode d = OpCode.POINT_EXT)) (\<lambda>_. Inr (dec_x d, dec_y d, dec_operand2 d))"

definition getRule :: "bool \<Rightarrow> dbWireDecoder \<Rightarrow> wire_error + nat \<times> bool" where
  "getRule dbg d =
     and_then (assert_that dbg (dec_opcode d = OpCode.RULE))
       (\<lambda>_. Inr (uint32_of_int (dec_operand d), dec_block_rule d))"

definition getVia :: "bool \<Rightarrow> dbWireDecoder \<Rightarrow> wire_error + nat" where
  "getVia dbg d = and_then (assert_that dbg (dec_opcode d = OpCode.VIA)) (\<lambda>_. Inr (uint32_of_int (dec_operand d)))"

definition getTechVia :: "bool \<Rightarrow> dbWireDecoder \<Rightarrow> wire_error + nat" where
  "getTechVia dbg d =
     and_then (assert_that dbg (dec_opcode d = OpCode.TECH_VIA)) (\<lambda>_. Inr (uint32_of_int (dec_operand d)))"

definition getRect :: "bool \<Rightarrow> dbWireDecoder \<Rightarrow> wire_error + int \<times> int \<times> int \<times> int" where
  "getRect dbg d =
     and_then (assert_that dbg (dec_opcode d = OpCode.RECT))
       (\<lambda>_. Inr (dec_deltaX1 d, dec_deltaY1 d, dec_deltaX2 d, dec_deltaY2 d))"

definition getITerm :: "bool \<Rightarrow> dbWireDecoder \<Rightarrow> wire_error + nat" where
  "getITerm dbg d =
     and_then (assert_that dbg (dec_opcode d = OpCode.ITERM)) (\<lambda>_. Inr (uint32_of_int (dec_operand d)))"

definition getBTerm :: "bool \<Rightarrow> dbWireDecoder \<Rightarrow> wire_error + nat" where
  "getBTerm dbg d =
     and_then (assert_that dbg (dec_opcode d = OpCode.BTERM)) (\<lambda>_. Inr (uint32_of_int (dec_operand d)))"

definition dec_getWireType :: "bool \<Rightarrow> dbWireDecoder \<Rightarrow> wire_error + dbWireType" where
  "dec_getWireType dbg d =
     and_then (assert_that dbg (dec_opcode d \<in> {OpCode.PATH, OpCode.JUNCTION, OpCode.SHORT, OpCode.VWIRE}))
       (\<lambda>_. Inr (dec_wire_type d))"

definition getJunctionValue :: "bool \<Rightarrow> dbWireDecoder \<Rightarrow> wire_error + int" where
  "getJunctionValue dbg d =
     and_then (assert_that dbg (dec_opcode d \<in> {OpCode.JUNCTION, OpCode.SHORT, OpCode.VWIRE}))
       (\<lambda>_. Inr (if dec_opcode d = OpCode.SHORT \<or> dec_opcode d = OpCode.VWIRE then dec_operand2 d else dec_operand d))"

end
