(* ===== verification/SpatialIndex.thy ===== *)
theory SpatialIndex
  imports OdbPrelude
begin

text \<open>
  The spatial index of the three-dimensional viewer
  (\<^verbatim>\<open>gui/openroad3D/render/backend_osg/SpatialIndex.h\<close> and \<^verbatim>\<open>.cpp\<close>): axis-aligned boxes, the
  view frustum and an octree of object ids.

  A \<^verbatim>\<open>float\<close> is the rational number it stands for, and the result of every arithmetic operation is rounded
  by \<open>fl\<close>, an argument of the definitions that compute. \<open>float_rounding\<close> is what the theorems need of it:
  rounding is monotone, fixes what it returns and commutes with doubling, as rounding to a fixed number of
  binary digits does (no overflow, no underflow). Exact arithmetic is the rounding that changes nothing.
  Comparisons, minima and maxima are exact in floating point. \<^verbatim>\<open>std::sqrt\<close> is the argument \<open>sqrtf\<close>, of
  which nothing is assumed. Printing for debugging is left out.
\<close>

section \<open>Floating point\<close>

definition float_rounding :: "(rat \<Rightarrow> rat) \<Rightarrow> bool" where
  "float_rounding fl \<longleftrightarrow> mono fl \<and> fl 0 = 0 \<and> (\<forall>x. fl (fl x) = fl x) \<and> (\<forall>x. fl (2 * x) = 2 * fl x)"

section \<open>Boxes\<close>

datatype vec3 = Vec3 (v3x: rat) (v3y: rat) (v3z: rat)

record AABB =
  bb_min :: vec3
  bb_max :: vec3

definition AABB_default :: AABB where
  "AABB_default = \<lparr>bb_min = Vec3 0 0 0, bb_max = Vec3 0 0 0\<rparr>"

definition AABB_contains :: "AABB \<Rightarrow> AABB \<Rightarrow> bool" where
  "AABB_contains b c =
     (v3x (bb_min b) \<le> v3x (bb_min c) \<and> v3y (bb_min b) \<le> v3y (bb_min c) \<and> v3z (bb_min b) \<le> v3z (bb_min c) \<and>
      v3x (bb_max b) \<ge> v3x (bb_max c) \<and> v3y (bb_max b) \<ge> v3y (bb_max c) \<and> v3z (bb_max b) \<ge> v3z (bb_max c))"

definition AABB_intersects :: "AABB \<Rightarrow> AABB \<Rightarrow> bool" where
  "AABB_intersects b c =
     (\<not> (v3x (bb_min c) > v3x (bb_max b) \<or> v3x (bb_max c) < v3x (bb_min b) \<or>
         v3y (bb_min c) > v3y (bb_max b) \<or> v3y (bb_max c) < v3y (bb_min b) \<or>
         v3z (bb_min c) > v3z (bb_max b) \<or> v3z (bb_max c) < v3z (bb_min b)))"

definition AABB_center :: "(rat \<Rightarrow> rat) \<Rightarrow> AABB \<Rightarrow> vec3" where
  "AABB_center fl b =
     Vec3 (fl (fl (v3x (bb_min b) + v3x (bb_max b)) * (1 / 2)))
          (fl (fl (v3y (bb_min b) + v3y (bb_max b)) * (1 / 2)))
          (fl (fl (v3z (bb_min b) + v3z (bb_max b)) * (1 / 2)))"

definition AABB_halfExtent :: "(rat \<Rightarrow> rat) \<Rightarrow> AABB \<Rightarrow> vec3" where
  "AABB_halfExtent fl b =
     Vec3 (fl (fl (v3x (bb_max b) - v3x (bb_min b)) * (1 / 2)))
          (fl (fl (v3y (bb_max b) - v3y (bb_min b)) * (1 / 2)))
          (fl (fl (v3z (bb_max b) - v3z (bb_min b)) * (1 / 2)))"

definition AABB_expand_point :: "AABB \<Rightarrow> vec3 \<Rightarrow> AABB" where
  "AABB_expand_point b p =
     \<lparr>bb_min = Vec3 (min (v3x (bb_min b)) (v3x p)) (min (v3y (bb_min b)) (v3y p)) (min (v3z (bb_min b)) (v3z p)),
      bb_max = Vec3 (max (v3x (bb_max b)) (v3x p)) (max (v3y (bb_max b)) (v3y p)) (max (v3z (bb_max b)) (v3z p))\<rparr>"

definition AABB_expand :: "AABB \<Rightarrow> AABB \<Rightarrow> AABB" where
  "AABB_expand b c =
     \<lparr>bb_min = Vec3 (min (v3x (bb_min b)) (v3x (bb_min c))) (min (v3y (bb_min b)) (v3y (bb_min c)))
                    (min (v3z (bb_min b)) (v3z (bb_min c))),
      bb_max = Vec3 (max (v3x (bb_max b)) (v3x (bb_max c))) (max (v3y (bb_max b)) (v3y (bb_max c)))
                    (max (v3z (bb_max b)) (v3z (bb_max c)))\<rparr>"

section \<open>The view frustum\<close>

datatype FrustumTest = Outside | Inside | Intersect

text \<open>\<^verbatim>\<open>planes_[4 * i + k]\<close> is component \<open>k\<close> of plane \<open>i\<close>.\<close>

datatype plane = Plane (pl_x: rat) (pl_y: rat) (pl_z: rat) (pl_w: rat)

type_synonym Frustum = "plane list"

definition raw_planes :: "(rat \<Rightarrow> rat) \<Rightarrow> rat list \<Rightarrow> Frustum" where
  "raw_planes fl m =
     [Plane (fl (m ! 3 + m ! 0)) (fl (m ! 7 + m ! 4)) (fl (m ! 11 + m ! 8)) (fl (m ! 15 + m ! 12)),
      Plane (fl (m ! 3 - m ! 0)) (fl (m ! 7 - m ! 4)) (fl (m ! 11 - m ! 8)) (fl (m ! 15 - m ! 12)),
      Plane (fl (m ! 3 + m ! 1)) (fl (m ! 7 + m ! 5)) (fl (m ! 11 + m ! 9)) (fl (m ! 15 + m ! 13)),
      Plane (fl (m ! 3 - m ! 1)) (fl (m ! 7 - m ! 5)) (fl (m ! 11 - m ! 9)) (fl (m ! 15 - m ! 13)),
      Plane (fl (m ! 3 + m ! 2)) (fl (m ! 7 + m ! 6)) (fl (m ! 11 + m ! 10)) (fl (m ! 15 + m ! 14)),
      Plane (fl (m ! 3 - m ! 2)) (fl (m ! 7 - m ! 6)) (fl (m ! 11 - m ! 10)) (fl (m ! 15 - m ! 14))]"

definition normalize_plane :: "(rat \<Rightarrow> rat) \<Rightarrow> (rat \<Rightarrow> rat) \<Rightarrow> plane \<Rightarrow> plane" where
  "normalize_plane fl sqrtf p =
     (let len = sqrtf (fl (fl (fl (pl_x p * pl_x p) + fl (pl_y p * pl_y p)) + fl (pl_z p * pl_z p)))
      in if len > fl (1 / 1000000)
         then Plane (fl (pl_x p / len)) (fl (pl_y p / len)) (fl (pl_z p / len)) (fl (pl_w p / len))
         else p)"

definition setFromMatrix :: "(rat \<Rightarrow> rat) \<Rightarrow> (rat \<Rightarrow> rat) \<Rightarrow> rat list \<Rightarrow> Frustum" where
  "setFromMatrix fl sqrtf matrix = map (normalize_plane fl sqrtf) (raw_planes fl matrix)"

definition plane_dist :: "(rat \<Rightarrow> rat) \<Rightarrow> plane \<Rightarrow> vec3 \<Rightarrow> rat" where
  "plane_dist fl p c =
     fl (fl (fl (fl (pl_x p * v3x c) + fl (pl_y p * v3y c)) + fl (pl_z p * v3z c)) + pl_w p)"

definition plane_radius :: "(rat \<Rightarrow> rat) \<Rightarrow> plane \<Rightarrow> vec3 \<Rightarrow> rat" where
  "plane_radius fl p h =
     fl (fl (\<bar>fl (pl_x p * v3x h)\<bar> + \<bar>fl (pl_y p * v3y h)\<bar>) + \<bar>fl (pl_z p * v3z h)\<bar>)"

primrec test_planes :: "(rat \<Rightarrow> rat) \<Rightarrow> vec3 \<Rightarrow> vec3 \<Rightarrow> bool \<Rightarrow> plane list \<Rightarrow> FrustumTest" where
  "test_planes fl boxCenter boxHalf allInside [] = (if allInside then Inside else Intersect)"
| "test_planes fl boxCenter boxHalf allInside (p # ps) =
     (let dist = plane_dist fl p boxCenter;
          radius = plane_radius fl p boxHalf
      in if dist < - radius then Outside
         else test_planes fl boxCenter boxHalf (if dist < radius then False else allInside) ps)"

definition testBox :: "(rat \<Rightarrow> rat) \<Rightarrow> Frustum \<Rightarrow> AABB \<Rightarrow> FrustumTest" where
  "testBox fl fr b = test_planes fl (AABB_center fl b) (AABB_halfExtent fl b) True fr"

section \<open>The octree\<close>

datatype OctreeNode =
  OctreeNode (on_isLeaf: bool) (on_box: AABB) (on_children: "OctreeNode option list") (on_objectIds: "string list")

type_synonym objects = "(string \<times> AABB) list"

definition world_bounds :: "(rat \<Rightarrow> rat) \<Rightarrow> objects \<Rightarrow> AABB" where
  "world_bounds fl objs =
     (let w = foldl (\<lambda>w (i, b). AABB_expand w b) AABB_default objs;
          margin = (\<lambda>lo hi. let m = fl (fl (hi - lo) * fl (1 / 100)) in if m < fl (1 / 10000) then 1 else m);
          lo = (\<lambda>f. fl (f (bb_min w) - margin (f (bb_min w)) (f (bb_max w))));
          hi = (\<lambda>f. fl (f (bb_max w) + margin (f (bb_min w)) (f (bb_max w))))
      in \<lparr>bb_min = Vec3 (lo v3x) (lo v3y) (lo v3z), bb_max = Vec3 (hi v3x) (hi v3y) (hi v3z)\<rparr>)"

text \<open>Child \<open>i\<close> is on the upper side of the centre in x, y, z when bit 0, 1, 2 of \<open>i\<close> is set.\<close>

definition child_box :: "vec3 \<Rightarrow> AABB \<Rightarrow> nat \<Rightarrow> AABB" where
  "child_box center b i =
     (let xMax = odd i; yMax = odd (i div 2); zMax = odd (i div 4)
      in \<lparr>bb_min = Vec3 (if xMax then v3x center else v3x (bb_min b))
                        (if yMax then v3y center else v3y (bb_min b))
                        (if zMax then v3z center else v3z (bb_min b)),
          bb_max = Vec3 (if xMax then v3x (bb_max b) else v3x center)
                        (if yMax then v3y (bb_max b) else v3y center)
                        (if zMax then v3z (bb_max b) else v3z center)\<rparr>)"

definition child_index :: "(rat \<Rightarrow> rat) \<Rightarrow> vec3 \<Rightarrow> AABB \<Rightarrow> nat" where
  "child_index fl center b =
     (let c = AABB_center fl b
      in (if v3x c \<ge> v3x center then 1 else 0) + (if v3y c \<ge> v3y center then 2 else 0)
         + (if v3z c \<ge> v3z center then 4 else 0))"

definition child_objects :: "(rat \<Rightarrow> rat) \<Rightarrow> vec3 \<Rightarrow> objects \<Rightarrow> nat \<Rightarrow> objects" where
  "child_objects fl center objs i = filter (\<lambda>(_, b). child_index fl center b = i) objs"

text \<open>The node that is built and what it adds to \<^verbatim>\<open>nodeCount_\<close>.\<close>

function buildRecursive ::
    "(rat \<Rightarrow> rat) \<Rightarrow> int \<Rightarrow> AABB \<Rightarrow> objects \<Rightarrow> int \<Rightarrow> OctreeNode \<times> nat" where
  "buildRecursive fl maxDepth b objs depth =
     (if length objs \<le> 1 \<or> depth \<ge> maxDepth then (OctreeNode True b (replicate 8 None) (map fst objs), 1)
      else
        let center = AABB_center fl b;
            built = map (\<lambda>i.
              if child_objects fl center objs i \<noteq> []
              then Some (buildRecursive fl maxDepth (child_box center b i) (child_objects fl center objs i) (depth + 1))
              else None) [0..<8]
        in (OctreeNode False b (map (map_option fst) built) [],
            sum_list (map (\<lambda>r. case r of None \<Rightarrow> 0 | Some (_, n) \<Rightarrow> n) built) + 1))"
  by pat_completeness auto
termination
  by (relation "measure (\<lambda>(_, maxDepth, _, _, depth). nat (maxDepth - depth))") auto

declare buildRecursive.simps [simp del]

record SpatialIndex =
  si_root :: "OctreeNode option"
  si_maxDepth :: int
  si_nodeCount :: nat

definition mk_SpatialIndex :: SpatialIndex where
  "mk_SpatialIndex = \<lparr>si_root = None, si_maxDepth = 6, si_nodeCount = 0\<rparr>"

definition SpatialIndex_clear :: "SpatialIndex \<Rightarrow> SpatialIndex" where
  "SpatialIndex_clear s = s\<lparr>si_root := None, si_nodeCount := 0\<rparr>"

definition SpatialIndex_build :: "(rat \<Rightarrow> rat) \<Rightarrow> SpatialIndex \<Rightarrow> objects \<Rightarrow> int \<Rightarrow> SpatialIndex" where
  "SpatialIndex_build fl s objs maxDepth =
     (let s = (SpatialIndex_clear s)\<lparr>si_maxDepth := maxDepth\<rparr>
      in if objs = [] then s
         else
           let (r, n) = buildRecursive fl maxDepth (world_bounds fl objs) objs 0
           in s\<lparr>si_root := Some r, si_nodeCount := si_nodeCount s + n\<rparr>)"

fun queryFrustumRecursive :: "(rat \<Rightarrow> rat) \<Rightarrow> Frustum \<Rightarrow> OctreeNode \<Rightarrow> string list" where
  "queryFrustumRecursive fl fr (OctreeNode isLeaf b children objectIds) =
     (if testBox fl fr b = Outside then []
      else if isLeaf then objectIds
      else concat (map (\<lambda>c. case c of None \<Rightarrow> [] | Some n \<Rightarrow> queryFrustumRecursive fl fr n) children))"

fun queryBoxRecursive :: "AABB \<Rightarrow> OctreeNode \<Rightarrow> string list" where
  "queryBoxRecursive q (OctreeNode isLeaf b children objectIds) =
     (if \<not> AABB_intersects b q then []
      else if isLeaf then objectIds
      else concat (map (\<lambda>c. case c of None \<Rightarrow> [] | Some n \<Rightarrow> queryBoxRecursive q n) children))"

definition getObjectsInFrustum :: "(rat \<Rightarrow> rat) \<Rightarrow> SpatialIndex \<Rightarrow> Frustum \<Rightarrow> string list" where
  "getObjectsInFrustum fl s fr =
     (case si_root s of None \<Rightarrow> [] | Some r \<Rightarrow> queryFrustumRecursive fl fr r)"

definition getObjectsInBox :: "SpatialIndex \<Rightarrow> AABB \<Rightarrow> string list" where
  "getObjectsInBox s q = (case si_root s of None \<Rightarrow> [] | Some r \<Rightarrow> queryBoxRecursive q r)"


section \<open>What the tree holds\<close>

fun leaf_ids :: "OctreeNode \<Rightarrow> string list" where
  "leaf_ids (OctreeNode isLeaf b children objectIds) =
     (if isLeaf then objectIds else concat (map (\<lambda>c. case c of None \<Rightarrow> [] | Some n \<Rightarrow> leaf_ids n) children))"

fun node_count :: "OctreeNode \<Rightarrow> nat" where
  "node_count (OctreeNode isLeaf b children objectIds) =
     1 + sum_list (map (\<lambda>c. case c of None \<Rightarrow> 0 | Some n \<Rightarrow> node_count n) children)"

lemma child_index_less: "child_index fl center b < 8"
  by (simp add: child_index_def Let_def)

lemma mset_split_by_index:
  assumes "\<And>x. x \<in> set xs \<Longrightarrow> f x < (n :: nat)"
  shows "mset (concat (map (\<lambda>i. filter (\<lambda>x. f x = i) xs) [0..<n])) = mset xs"
  using assms
proof (induction n arbitrary: xs)
  case 0
  then show ?case by (cases xs) auto
next
  case (Suc n)
  let ?ys = "filter (\<lambda>x. f x < n) xs"
  have "map (\<lambda>i. filter (\<lambda>x. f x = i) xs) [0..<n] = map (\<lambda>i. filter (\<lambda>x. f x = i) ?ys) [0..<n]"
    by (auto simp: filter_filter intro!: filter_cong)
  then have "mset (concat (map (\<lambda>i. filter (\<lambda>x. f x = i) xs) [0..<n])) = mset ?ys"
    by (simp only:) (rule Suc.IH, simp)
  then have "mset (concat (map (\<lambda>i. filter (\<lambda>x. f x = i) xs) [0..<Suc n]))
      = mset ?ys + mset (filter (\<lambda>x. f x = n) xs)" by simp
  also have "\<dots> = mset xs"
  proof -
    have "filter (\<lambda>x. f x = n) xs = filter (\<lambda>x. \<not> f x < n) xs"
      using Suc.prems by (intro filter_cong) (auto simp: less_Suc_eq)
    then show ?thesis using multiset_partition [of "mset xs" "\<lambda>x. f x < n"] by simp
  qed
  finally show ?case .
qed

lemma mset_child_objects:
  "mset (concat (map (child_objects fl center objs) [0..<8])) = mset objs"
  using mset_split_by_index [of objs "\<lambda>(_, b). child_index fl center b" 8]
  by (simp add: child_objects_def [abs_def] child_index_less case_prod_beta')

lemma child_objects_empty: "child_objects fl center [] i = []"
  by (simp add: child_objects_def)

text \<open>The children of an inner node, as one list comprehension would build them.\<close>

lemma buildRecursive_leaf:
  "length objs \<le> 1 \<or> depth \<ge> maxDepth \<Longrightarrow>
     buildRecursive fl maxDepth b objs depth = (OctreeNode True b (replicate 8 None) (map fst objs), 1)"
  by (simp add: buildRecursive.simps)

lemma buildRecursive_node:
  fixes fl b objs maxDepth depth
  assumes "\<not> (length objs \<le> 1 \<or> depth \<ge> maxDepth)"
  defines "center \<equiv> AABB_center fl b"
  defines "sub \<equiv> \<lambda>i. buildRecursive fl maxDepth (child_box center b i) (child_objects fl center objs i) (depth + 1)"
  shows "buildRecursive fl maxDepth b objs depth =
    (OctreeNode False b (map (\<lambda>i. if child_objects fl center objs i \<noteq> [] then Some (fst (sub i)) else None) [0..<8]) [],
     sum_list (map (\<lambda>i. if child_objects fl center objs i \<noteq> [] then snd (sub i) else 0) [0..<8]) + 1)"
  using assms(1)
  by (subst buildRecursive.simps)
     (simp only: if_False Let_def map_map comp_def sub_def center_def if_distrib [of "map_option fst"]
        option.map if_distrib [of "case_option _ _"] option.case case_prod_beta)

lemma concat_if_Nil:
  "concat (map (\<lambda>c. case c of None \<Rightarrow> [] | Some n \<Rightarrow> g n) (map (\<lambda>i. if xs i \<noteq> [] then Some (h i) else None) is))
     = concat (map (\<lambda>i. if xs i \<noteq> [] then g (h i) else []) is)"
  by (induction "is") auto

lemma build_leaf_ids:
  "mset (leaf_ids (fst (buildRecursive fl maxDepth b objs depth))) = mset (map fst objs)"
proof (induction fl maxDepth b objs depth rule: buildRecursive.induct)
  case (1 fl maxDepth b objs depth)
  show ?case
  proof (cases "length objs \<le> 1 \<or> depth \<ge> maxDepth")
    case False
    let ?c = "AABB_center fl b"
    let ?sub = "\<lambda>i. fst (buildRecursive fl maxDepth (child_box ?c b i) (child_objects fl ?c objs i) (depth + 1))"
    have sub: "mset (if child_objects fl ?c objs i \<noteq> [] then leaf_ids (?sub i) else [])
        = mset (map fst (child_objects fl ?c objs i))" if "i \<in> set [0..<8]" for i
      using "1.IH" [OF False refl that] by auto
    have "mset (leaf_ids (fst (buildRecursive fl maxDepth b objs depth)))
        = sum_list (map (\<lambda>i. mset (if child_objects fl ?c objs i \<noteq> [] then leaf_ids (?sub i) else [])) [0..<8])"
      by (simp only: buildRecursive_node [OF False] fst_conv leaf_ids.simps if_False concat_if_Nil)
         (simp only: mset_concat map_map comp_def)
    also have "\<dots> = sum_list (map (\<lambda>i. mset (map fst (child_objects fl ?c objs i))) [0..<8])"
      by (rule arg_cong [where f = sum_list], rule map_cong [OF refl], rule sub)
    also have "\<dots> = mset (map fst (concat (map (child_objects fl ?c objs) [0..<8])))"
      by (simp only: mset_concat map_concat map_map comp_def)
    also have "\<dots> = image_mset fst (mset objs)" by (simp only: mset_map mset_child_objects)
    finally show ?thesis by simp
  qed (simp add: buildRecursive_leaf)
qed


lemma build_node_count:
  "node_count (fst (buildRecursive fl maxDepth b objs depth)) = snd (buildRecursive fl maxDepth b objs depth)"
proof (induction fl maxDepth b objs depth rule: buildRecursive.induct)
  case (1 fl maxDepth b objs depth)
  show ?case
  proof (cases "length objs \<le> 1 \<or> depth \<ge> maxDepth")
    case False
    let ?c = "AABB_center fl b"
    have "(case if child_objects fl ?c objs i \<noteq> [] then
          Some (fst (buildRecursive fl maxDepth (child_box ?c b i) (child_objects fl ?c objs i) (depth + 1))) else None of
          None \<Rightarrow> 0 | Some n \<Rightarrow> node_count n)
        = (if child_objects fl ?c objs i \<noteq> []
           then snd (buildRecursive fl maxDepth (child_box ?c b i) (child_objects fl ?c objs i) (depth + 1)) else 0)"
      if "i \<in> set [0..<8]" for i
      using "1.IH" [OF False refl that] by simp
    then show ?thesis
      by (simp only: buildRecursive_node [OF False] fst_conv snd_conv node_count.simps map_map comp_def cong: map_cong)
  qed (simp add: buildRecursive_leaf)
qed

lemma sum_list_map_le: "(\<And>x. x \<in> set xs \<Longrightarrow> f x \<le> g x) \<Longrightarrow> sum_list (map f xs) \<le> sum_list (map g xs)"
  for f g :: "'a \<Rightarrow> nat"
  by (induction xs) (auto intro: add_mono)

lemma sum_length_child_objects:
  "sum_list (map (\<lambda>i. length (child_objects fl center objs i)) [0..<8]) = length objs"
  using arg_cong [OF mset_child_objects [of fl center objs], of size]
  by (simp only: size_mset length_concat map_map comp_def)

lemma build_node_bound:
  "objs \<noteq> [] \<Longrightarrow> snd (buildRecursive fl maxDepth b objs depth) \<le> length objs * (nat (maxDepth - depth) + 1)"
proof (induction fl maxDepth b objs depth rule: buildRecursive.induct)
  case (1 fl maxDepth b objs depth)
  show ?case
  proof (cases "length objs \<le> 1 \<or> depth \<ge> maxDepth")
    case True
    then show ?thesis using "1.prems" by (cases objs) (auto simp: buildRecursive_leaf)
  next
    case False
    let ?c = "AABB_center fl b" and ?k = "nat (maxDepth - depth)"
    let ?n = "\<lambda>i. if child_objects fl ?c objs i \<noteq> []
      then snd (buildRecursive fl maxDepth (child_box ?c b i) (child_objects fl ?c objs i) (depth + 1)) else 0"
    have k: "nat (maxDepth - (depth + 1)) + 1 = ?k" using False by auto
    have "?n i \<le> length (child_objects fl ?c objs i) * ?k" if "i \<in> set [0..<8]" for i
      using "1.IH" [OF False refl that] unfolding k by auto
    then have "sum_list (map ?n [0..<8]) \<le> sum_list (map (\<lambda>i. length (child_objects fl ?c objs i) * ?k) [0..<8])"
      by (rule sum_list_map_le)
    also have "\<dots> = length objs * ?k"
      by (simp only: sum_list_mult_const sum_length_child_objects)
    finally have "snd (buildRecursive fl maxDepth b objs depth) \<le> length objs * ?k + 1"
      by (simp only: buildRecursive_node [OF False] snd_conv add_le_cancel_right)
    also have "\<dots> \<le> length objs * (?k + 1)" using False by (cases objs) auto
    finally show ?thesis .
  qed
qed

section \<open>Searching the tree\<close>

definition in_box :: "vec3 \<Rightarrow> AABB \<Rightarrow> bool" where
  "in_box p b \<longleftrightarrow>
     v3x (bb_min b) \<le> v3x p \<and> v3x p \<le> v3x (bb_max b) \<and> v3y (bb_min b) \<le> v3y p \<and> v3y p \<le> v3y (bb_max b) \<and>
     v3z (bb_min b) \<le> v3z p \<and> v3z p \<le> v3z (bb_max b)"

lemma center_in_child:
  assumes "in_box (AABB_center fl ob) b"
  shows "in_box (AABB_center fl ob) (child_box center b (child_index fl center ob))"
  using assms by (simp add: in_box_def child_box_def child_index_def Let_def)

text \<open>
  Both searches skip the subtrees whose box fails a test. Whatever the test, they return objects of the
  index, none more often than it is there, and no object is lost whose centre only lies in boxes that
  pass the test.
\<close>

locale pruned_search =
  fixes query :: "OctreeNode \<Rightarrow> string list" and hits :: "AABB \<Rightarrow> bool"
  assumes query_node: "query (OctreeNode isLeaf b children objectIds) =
    (if \<not> hits b then [] else if isLeaf then objectIds
     else concat (map (\<lambda>c. case c of None \<Rightarrow> [] | Some n \<Rightarrow> query n) children))"
begin

lemma query_subset: "mset (query n) \<subseteq># mset (leaf_ids n)"
proof (induction n rule: leaf_ids.induct)
  case (1 isLeaf b children objectIds)
  have "mset (concat (map (\<lambda>c. case c of None \<Rightarrow> [] | Some n \<Rightarrow> query n) children))
      \<subseteq># mset (concat (map (\<lambda>c. case c of None \<Rightarrow> [] | Some n \<Rightarrow> leaf_ids n) children))" if "\<not> isLeaf"
    using "1.IH" [OF that]
    by (induction children) (auto split: option.split intro!: subset_mset.add_mono)
  then show ?case by (auto simp: query_node)
qed

lemma query_complete:
  assumes "(i, ob) \<in> set objs" and "in_box (AABB_center fl ob) b"
    and hits: "\<And>c. in_box (AABB_center fl ob) c \<Longrightarrow> hits c"
  shows "i \<in> set (query (fst (buildRecursive fl maxDepth b objs depth)))"
  using assms
proof (induction fl maxDepth b objs depth rule: buildRecursive.induct)
  case (1 fl maxDepth b objs depth)
  have b: "hits b" using "1.prems"(2,3) by blast
  show ?case
  proof (cases "length objs \<le> 1 \<or> depth \<ge> maxDepth")
    case True
    then show ?thesis using b "1.prems"(1) by (force simp: buildRecursive_leaf query_node)
  next
    case False
    let ?c = "AABB_center fl b" and ?k = "child_index fl (AABB_center fl b) ob"
    let ?sub = "\<lambda>k. fst (buildRecursive fl maxDepth (child_box ?c b k) (child_objects fl ?c objs k) (depth + 1))"
    have k: "?k \<in> set [0..<8]" by (simp add: child_index_less)
    have ob: "(i, ob) \<in> set (child_objects fl ?c objs ?k)" using "1.prems"(1) by (simp add: child_objects_def)
    then have "child_objects fl ?c objs ?k \<noteq> []" by auto
    moreover from this have "i \<in> set (query (?sub ?k))"
      by (rule "1.IH" [OF False refl k _ ob center_in_child [OF "1.prems"(2)] "1.prems"(3)])
    ultimately have "i \<in> set (if child_objects fl ?c objs ?k \<noteq> [] then query (?sub ?k) else [])" by simp
    then show ?thesis
      unfolding buildRecursive_node [OF False] fst_conv query_node concat_if_Nil
      using b k by (simp only: if_True if_False set_concat set_map not_True_eq_False) blast
  qed
qed

end

interpretation box_search: pruned_search "queryBoxRecursive q" "\<lambda>b. AABB_intersects b q" for q
  by unfold_locales simp

interpretation frustum_search: pruned_search "queryFrustumRecursive fl fr" "\<lambda>b. testBox fl fr b \<noteq> Outside" for fl fr
  by unfold_locales simp

subsection \<open>The centres lie in the root\<close>

definition box_ok :: "(rat \<Rightarrow> rat) \<Rightarrow> AABB \<Rightarrow> bool" where
  "box_ok fl b \<longleftrightarrow>
     (\<forall>f \<in> {v3x, v3y, v3z}. fl (f (bb_min b)) = f (bb_min b) \<and> fl (f (bb_max b)) = f (bb_max b) \<and>
       f (bb_min b) \<le> f (bb_max b))"

lemma float_roundingD:
  assumes "float_rounding fl"
  shows "x \<le> y \<Longrightarrow> fl x \<le> fl y" "fl 0 = 0" "fl (fl x) = fl x" "fl (2 * x) = 2 * fl x"
  using assms by (auto simp: float_rounding_def mono_def)

lemma fl_midpoint:
  assumes fl: "float_rounding fl" and "fl x = x" "fl y = y" "x \<le> y"
  shows "x \<le> fl (fl (x + y) * (1 / 2))" "fl (fl (x + y) * (1 / 2)) \<le> y"
proof -
  have "2 * x \<le> fl (x + y)" "fl (x + y) \<le> 2 * y"
    using float_roundingD(1) [OF fl, of "2 * x" "x + y"] float_roundingD(1) [OF fl, of "x + y" "2 * y"] assms
    by (simp_all add: float_roundingD(4) [OF fl])
  then show "x \<le> fl (fl (x + y) * (1 / 2))" "fl (fl (x + y) * (1 / 2)) \<le> y"
    using float_roundingD(1) [OF fl, of x "fl (x + y) * (1 / 2)"] float_roundingD(1) [OF fl, of "fl (x + y) * (1 / 2)" y]
      assms by auto
qed

lemma center_in_box:
  assumes "float_rounding fl" "box_ok fl b"
  shows "in_box (AABB_center fl b) b"
  using assms(2) by (simp add: in_box_def box_ok_def AABB_center_def fl_midpoint [OF assms(1), simplified])

lemma foldl_expand_bounds:
  assumes "\<forall>(i, b)\<in>set objs. box_ok fl b" and "box_ok fl w"
  shows "box_ok fl (foldl (\<lambda>w (i, b). AABB_expand w b) w objs) \<and>
    AABB_contains (foldl (\<lambda>w (i, b). AABB_expand w b) w objs) w \<and>
    (\<forall>(i, b)\<in>set objs. AABB_contains (foldl (\<lambda>w (i, b). AABB_expand w b) w objs) b)"
  using assms
proof (induction objs arbitrary: w)
  case (Cons x objs)
  obtain i b where x: "x = (i, b)" by fastforce
  let ?w = "AABB_expand w b"
  have w: "box_ok fl ?w" "AABB_contains ?w w" "AABB_contains ?w b"
    using Cons.prems by (auto simp: x box_ok_def AABB_expand_def AABB_contains_def min_def max_def)
  have trans: "AABB_contains v w'" if "AABB_contains v ?w" "AABB_contains ?w w'" for v w'
    using that by (auto simp: AABB_contains_def)
  show ?case using Cons.IH [of ?w] Cons.prems(1) w trans by (simp add: x)
qed (simp add: AABB_contains_def)

lemma contains_in_box: "AABB_contains w b \<Longrightarrow> in_box p b \<Longrightarrow> in_box p w"
  by (auto simp: AABB_contains_def in_box_def)

lemma center_in_world:
  assumes fl: "float_rounding fl" and objs: "\<forall>(i, b)\<in>set objs. box_ok fl b" and ob: "(i, ob) \<in> set objs"
  shows "in_box (AABB_center fl ob) (world_bounds fl objs)"
proof -
  let ?w = "foldl (\<lambda>w (i, b). AABB_expand w b) AABB_default objs"
  have "box_ok fl AABB_default" using float_roundingD(2) [OF fl] by (simp add: box_ok_def AABB_default_def)
  from foldl_expand_bounds [OF objs this] have w: "box_ok fl ?w" "AABB_contains ?w ob" using ob by auto
  let ?m = "\<lambda>lo hi. let m = fl (fl (hi - lo) * fl (1 / 100)) in if m < fl (1 / 10000) then 1 else m"
  have m: "0 \<le> ?m lo hi" for lo hi
    using float_roundingD(1) [OF fl, of 0 "1 / 10000"] float_roundingD(2) [OF fl] by (simp add: Let_def)
  have lo: "fl (x - ?m x y) \<le> x" and hi: "y \<le> fl (y + ?m x y)" if "fl x = x" "fl y = y" for x y
    using float_roundingD(1) [OF fl, of "x - ?m x y" x] float_roundingD(1) [OF fl, of y "y + ?m x y"] m [of y x] that
    by auto
  have "AABB_contains (world_bounds fl objs) ?w"
    using w(1) lo hi unfolding box_ok_def AABB_contains_def world_bounds_def Let_def by simp
  then show ?thesis
    using contains_in_box w(2) center_in_box [OF fl, of ob] objs ob by (metis (no_types, lifting) case_prod_conv)
qed

lemma SpatialIndex_build_fields:
  "si_root (SpatialIndex_build fl s objs maxDepth) =
     (if objs = [] then None else Some (fst (buildRecursive fl maxDepth (world_bounds fl objs) objs 0)))"
  "si_nodeCount (SpatialIndex_build fl s objs maxDepth) =
     (if objs = [] then 0 else snd (buildRecursive fl maxDepth (world_bounds fl objs) objs 0))"
  by (simp_all add: SpatialIndex_build_def SpatialIndex_clear_def Let_def case_prod_beta)

lemma box_query_finds_centres:
  assumes "float_rounding fl" "\<forall>(i, b)\<in>set objs. box_ok fl b" "(i, ob) \<in> set objs" "in_box (AABB_center fl ob) q"
  shows "i \<in> set (getObjectsInBox (SpatialIndex_build fl s objs maxDepth) q)"
proof -
  have "AABB_intersects c q" if "in_box (AABB_center fl ob) c" for c
    using that assms(4) by (auto simp: in_box_def AABB_intersects_def)
  from box_search.query_complete [OF assms(3) center_in_world [OF assms(1-3)] this]
  show ?thesis using assms(3) by (auto simp: getObjectsInBox_def SpatialIndex_build_fields)
qed

lemma frustum_query_finds_centres:
  assumes "float_rounding fl" "\<forall>(i, b)\<in>set objs. box_ok fl b" "(i, ob) \<in> set objs"
    and "\<And>c. in_box (AABB_center fl ob) c \<Longrightarrow> testBox fl fr c \<noteq> Outside"
  shows "i \<in> set (getObjectsInFrustum fl (SpatialIndex_build fl s objs maxDepth) fr)"
  using frustum_search.query_complete [OF assms(3) center_in_world [OF assms(1-3)] assms(4)] assms(3)
  by (auto simp: getObjectsInFrustum_def SpatialIndex_build_fields)

section \<open>The frustum test in exact arithmetic\<close>

definition plane_value :: "plane \<Rightarrow> vec3 \<Rightarrow> rat" where
  "plane_value p v = pl_x p * v3x v + pl_y p * v3y v + pl_z p * v3z v + pl_w p"

lemma axis_range:
  fixes a :: rat
  assumes "lo \<le> x" "x \<le> hi"
  shows "a * ((lo + hi) / 2) - \<bar>a * ((hi - lo) / 2)\<bar> \<le> a * x" "a * x \<le> a * ((lo + hi) / 2) + \<bar>a * ((hi - lo) / 2)\<bar>"
proof -
  have "\<bar>x - (lo + hi) / 2\<bar> \<le> (hi - lo) / 2" using assms by (simp add: abs_le_iff field_simps)
  then have "\<bar>a\<bar> * \<bar>x - (lo + hi) / 2\<bar> \<le> \<bar>a\<bar> * \<bar>(hi - lo) / 2\<bar>" using assms by (intro mult_left_mono) auto
  then have "\<bar>a * (x - (lo + hi) / 2)\<bar> \<le> \<bar>a * ((hi - lo) / 2)\<bar>" by (simp only: abs_mult)
  then have "\<bar>a * x - a * ((lo + hi) / 2)\<bar> \<le> \<bar>a * ((hi - lo) / 2)\<bar>" by (simp only: right_diff_distrib)
  then show "a * ((lo + hi) / 2) - \<bar>a * ((hi - lo) / 2)\<bar> \<le> a * x" "a * x \<le> a * ((lo + hi) / 2) + \<bar>a * ((hi - lo) / 2)\<bar>"
    by linarith+
qed

lemma axis_ends:
  fixes a :: rat
  assumes "lo \<le> hi"
  shows "a * (if a \<ge> 0 then hi else lo) = a * ((lo + hi) / 2) + \<bar>a * ((hi - lo) / 2)\<bar>"
    and "a * (if a \<ge> 0 then lo else hi) = a * ((lo + hi) / 2) - \<bar>a * ((hi - lo) / 2)\<bar>"
proof -
  have "\<bar>a * ((hi - lo) / 2)\<bar> = \<bar>a\<bar> * ((hi - lo) / 2)" using assms by (simp add: abs_mult)
  moreover have "\<bar>a\<bar> = (if a \<ge> 0 then a else - a)" by simp
  ultimately have *: "\<bar>a * ((hi - lo) / 2)\<bar> = (if a \<ge> 0 then a else - a) * ((hi - lo) / 2)" by metis
  show "a * (if a \<ge> 0 then hi else lo) = a * ((lo + hi) / 2) + \<bar>a * ((hi - lo) / 2)\<bar>"
    unfolding * by (simp add: field_simps)
  show "a * (if a \<ge> 0 then lo else hi) = a * ((lo + hi) / 2) - \<bar>a * ((hi - lo) / 2)\<bar>"
    unfolding * by (simp add: field_simps)
qed

text \<open>The middle and the radius of the values a plane takes on a box.\<close>

definition plane_mid :: "plane \<Rightarrow> AABB \<Rightarrow> rat" where
  "plane_mid p b =
     pl_x p * ((v3x (bb_min b) + v3x (bb_max b)) / 2) + pl_y p * ((v3y (bb_min b) + v3y (bb_max b)) / 2) +
     pl_z p * ((v3z (bb_min b) + v3z (bb_max b)) / 2) + pl_w p"

definition plane_spread :: "plane \<Rightarrow> AABB \<Rightarrow> rat" where
  "plane_spread p b =
     \<bar>pl_x p * ((v3x (bb_max b) - v3x (bb_min b)) / 2)\<bar> + \<bar>pl_y p * ((v3y (bb_max b) - v3y (bb_min b)) / 2)\<bar> +
     \<bar>pl_z p * ((v3z (bb_max b) - v3z (bb_min b)) / 2)\<bar>"

lemma exact_test_values:
  "plane_dist (\<lambda>x. x) p (AABB_center (\<lambda>x. x) b) = plane_mid p b"
  "plane_radius (\<lambda>x. x) p (AABB_halfExtent (\<lambda>x. x) b) = plane_spread p b"
  by (simp_all add: plane_dist_def plane_radius_def AABB_center_def AABB_halfExtent_def plane_mid_def plane_spread_def)

lemma plane_range:
  assumes "in_box v b"
  shows "plane_mid p b - plane_spread p b \<le> plane_value p v" "plane_value p v \<le> plane_mid p b + plane_spread p b"
proof -
  have v: "v3x (bb_min b) \<le> v3x v" "v3x v \<le> v3x (bb_max b)" "v3y (bb_min b) \<le> v3y v" "v3y v \<le> v3y (bb_max b)"
    "v3z (bb_min b) \<le> v3z v" "v3z v \<le> v3z (bb_max b)" using assms by (auto simp: in_box_def)
  show "plane_mid p b - plane_spread p b \<le> plane_value p v" "plane_value p v \<le> plane_mid p b + plane_spread p b"
    using axis_range [OF v(1,2), of "pl_x p"] axis_range [OF v(3,4), of "pl_y p"] axis_range [OF v(5,6), of "pl_z p"]
    unfolding plane_mid_def plane_spread_def plane_value_def by linarith+
qed

lemma plane_range_attained:
  assumes "in_box v0 b"
  obtains u v where "in_box u b" "plane_value p u = plane_mid p b + plane_spread p b"
    "in_box v b" "plane_value p v = plane_mid p b - plane_spread p b"
proof
  have le: "v3x (bb_min b) \<le> v3x (bb_max b)" "v3y (bb_min b) \<le> v3y (bb_max b)" "v3z (bb_min b) \<le> v3z (bb_max b)"
    using assms(1) by (auto simp: in_box_def)
  let ?hi = "\<lambda>a f. if a \<ge> 0 then f (bb_max b) else f (bb_min b)" and ?lo = "\<lambda>a f. if a \<ge> 0 then f (bb_min b) else f (bb_max b)"
  let ?u = "Vec3 (?hi (pl_x p) v3x) (?hi (pl_y p) v3y) (?hi (pl_z p) v3z)"
  let ?v = "Vec3 (?lo (pl_x p) v3x) (?lo (pl_y p) v3y) (?lo (pl_z p) v3z)"
  show "in_box ?u b" "in_box ?v b" using le by (auto simp: in_box_def)
  show "plane_value p ?u = plane_mid p b + plane_spread p b"
    using axis_ends(1) [OF le(1), of "pl_x p"] axis_ends(1) [OF le(2), of "pl_y p"] axis_ends(1) [OF le(3), of "pl_z p"]
    unfolding plane_mid_def plane_spread_def plane_value_def vec3.sel by linarith
  show "plane_value p ?v = plane_mid p b - plane_spread p b"
    using axis_ends(2) [OF le(1), of "pl_x p"] axis_ends(2) [OF le(2), of "pl_y p"] axis_ends(2) [OF le(3), of "pl_z p"]
    unfolding plane_mid_def plane_spread_def plane_value_def vec3.sel by linarith
qed

lemma plane_spread_nonneg: "0 \<le> plane_spread p b"
  by (simp add: plane_spread_def)

lemma test_planes_exact:
  "test_planes (\<lambda>x. x) (AABB_center (\<lambda>x. x) b) (AABB_halfExtent (\<lambda>x. x) b) inside ps =
     (if \<exists>p\<in>set ps. plane_mid p b + plane_spread p b < 0 then Outside
      else if inside \<and> (\<forall>p\<in>set ps. plane_mid p b - plane_spread p b \<ge> 0) then Inside else Intersect)"
proof (induction ps arbitrary: inside)
  case (Cons p ps)
  show ?case
    using plane_spread_nonneg [of p b]
    by (simp add: exact_test_values Let_def Cons.IH)
qed simp

lemma testBox_exact:
  assumes "in_box v0 b"
  shows "testBox (\<lambda>x. x) fr b = Outside \<longleftrightarrow> (\<exists>p\<in>set fr. \<forall>v. in_box v b \<longrightarrow> plane_value p v < 0)"
    and "testBox (\<lambda>x. x) fr b = Inside \<longleftrightarrow> (\<forall>p\<in>set fr. \<forall>v. in_box v b \<longrightarrow> 0 \<le> plane_value p v)"
proof -
  have out: "plane_mid p b + plane_spread p b < 0 \<longleftrightarrow> (\<forall>v. in_box v b \<longrightarrow> plane_value p v < 0)" for p
    using plane_range(2) [of _ b p] plane_range_attained [OF assms, of p] by (metis le_less_trans)
  have ins: "plane_mid p b - plane_spread p b \<ge> 0 \<longleftrightarrow> (\<forall>v. in_box v b \<longrightarrow> 0 \<le> plane_value p v)" for p
    using plane_range(1) [of _ b p] plane_range_attained [OF assms, of p] by (metis order_trans)
  have both: "\<not> (plane_mid p b + plane_spread p b < 0 \<and> plane_mid p b - plane_spread p b \<ge> 0)" for p
    using plane_spread_nonneg [of p b] by linarith
  show "testBox (\<lambda>x. x) fr b = Outside \<longleftrightarrow> (\<exists>p\<in>set fr. \<forall>v. in_box v b \<longrightarrow> plane_value p v < 0)"
    unfolding testBox_def test_planes_exact out [symmetric] by simp
  show "testBox (\<lambda>x. x) fr b = Inside \<longleftrightarrow> (\<forall>p\<in>set fr. \<forall>v. in_box v b \<longrightarrow> 0 \<le> plane_value p v)"
    unfolding testBox_def test_planes_exact ins [symmetric] using both by auto
qed

text \<open>
  Clip coordinates of a point under the column-major matrix. A point is seen when its clip x, y and z
  lie between \<open>- w\<close> and \<open>w\<close>, and the six planes say just that, whatever length they are scaled by.
\<close>

definition clip :: "rat list \<Rightarrow> vec3 \<Rightarrow> nat \<Rightarrow> rat" where
  "clip m v k = m ! k * v3x v + m ! (4 + k) * v3y v + m ! (8 + k) * v3z v + m ! (12 + k)"

definition seen :: "rat list \<Rightarrow> vec3 \<Rightarrow> bool" where
  "seen m v \<longleftrightarrow> (\<forall>k<3. - clip m v 3 \<le> clip m v k \<and> clip m v k \<le> clip m v 3)"

lemma all_less_3: "(\<forall>k<3. P k) \<longleftrightarrow> P 0 \<and> P 1 \<and> P (2 :: nat)"
  by (auto simp: numeral_3_eq_3 numeral_2_eq_2 less_Suc_eq)

lemma normalize_plane_sign:
  "0 \<le> plane_value (normalize_plane (\<lambda>x. x) sqrtf p) v \<longleftrightarrow> 0 \<le> plane_value p v"
proof -
  let ?len = "sqrtf (pl_x p * pl_x p + pl_y p * pl_y p + pl_z p * pl_z p)"
  have "plane_value (normalize_plane (\<lambda>x. x) sqrtf p) v = plane_value p v / ?len" if "?len > 1 / 1000000"
    using that by (simp add: normalize_plane_def plane_value_def Let_def add_divide_distrib)
  moreover have "normalize_plane (\<lambda>x. x) sqrtf p = p" if "\<not> ?len > 1 / 1000000"
    using that by (simp add: normalize_plane_def Let_def)
  ultimately show ?thesis by (cases "?len > 1 / 1000000") (auto simp: zero_le_divide_iff)
qed

lemma raw_planes_clip:
  "(\<forall>p\<in>set (raw_planes (\<lambda>x. x) m). 0 \<le> plane_value p v) \<longleftrightarrow> seen m v"
  by (simp add: raw_planes_def plane_value_def seen_def all_less_3 clip_def algebra_simps) linarith

lemma setFromMatrix_seen:
  "(\<forall>p\<in>set (setFromMatrix (\<lambda>x. x) sqrtf m). 0 \<le> plane_value p v) \<longleftrightarrow> seen m v"
  by (simp add: setFromMatrix_def normalize_plane_sign raw_planes_clip)

lemma testBox_setFromMatrix:
  assumes "in_box v b"
  shows "testBox (\<lambda>x. x) (setFromMatrix (\<lambda>x. x) sqrtf m) b = Inside \<longleftrightarrow> (\<forall>v. in_box v b \<longrightarrow> seen m v)"
    and "testBox (\<lambda>x. x) (setFromMatrix (\<lambda>x. x) sqrtf m) b = Outside \<Longrightarrow> \<not> seen m v"
  using testBox_exact [OF assms, of "setFromMatrix (\<lambda>x. x) sqrtf m"] assms setFromMatrix_seen [of sqrtf m, symmetric]
  by (auto simp: not_le [symmetric])

lemma exact_rounding: "float_rounding (\<lambda>x. x)"
  by (simp add: float_rounding_def mono_def)

lemma seen_centres_found:
  assumes "\<forall>(i, b)\<in>set objs. box_ok (\<lambda>x. x) b" "(i, ob) \<in> set objs" "seen m (AABB_center (\<lambda>x. x) ob)"
  shows "i \<in> set (getObjectsInFrustum (\<lambda>x. x) (SpatialIndex_build (\<lambda>x. x) s objs maxDepth) (setFromMatrix (\<lambda>x. x) sqrtf m))"
  using frustum_query_finds_centres [OF exact_rounding assms(1,2)] testBox_setFromMatrix(2) assms(3) by blast

text \<open>
  An object is stored in one child only, the one its centre falls in, and the box of a child does
  not grow to hold it. So a search can miss an object that reaches out of its child: here the view volume,
  x from 54 to 56, is well inside \<open>A\<close>, and the search returns \<open>B\<close> alone, which is not in view.
\<close>

definition seen_matrix :: "rat list" where
  "seen_matrix = [1, 0, 0, 0, 0, 1, 0, 0, 0, 0, 1, 0, - 55, 0, 0, 1]"

definition reaching_objects :: objects where
  "reaching_objects =
     [(''A'', \<lparr>bb_min = Vec3 0 (- 1) (- 1), bb_max = Vec3 60 1 1\<rparr>),
      (''B'', \<lparr>bb_min = Vec3 90 (- 1) (- 1), bb_max = Vec3 100 1 1\<rparr>)]"

lemma frustum_query_misses:
  "getObjectsInFrustum (\<lambda>x. x) (SpatialIndex_build (\<lambda>x. x) mk_SpatialIndex reaching_objects 6)
     (setFromMatrix (\<lambda>x. x) (\<lambda>x. x) seen_matrix) = [''B'']"
  "seen seen_matrix (Vec3 55 0 0)" "in_box (Vec3 55 0 0) (snd (reaching_objects ! 0))"
  "in_box v (snd (reaching_objects ! 1)) \<Longrightarrow> \<not> seen seen_matrix v"
  subgoal by code_simp
  subgoal by (simp add: seen_def clip_def seen_matrix_def all_less_3)
  subgoal by (simp add: in_box_def reaching_objects_def)
  subgoal by (auto simp: in_box_def reaching_objects_def seen_def clip_def seen_matrix_def all_less_3)
  done

end
