(* ===== verification/SceneTypes.thy ===== *)
theory SceneTypes
  imports DbWire SpatialIndex "HOL-Library.Signed_Division"
begin

text \<open>
  What the viewer draws (\<^verbatim>\<open>gui/openroad3D/core/domain/SceneTypes.h\<close>) and the functions of
  \<^verbatim>\<open>OdbSceneBuilder.cpp\<close> that compute colours, patterns, names and heights.

  A \<^verbatim>\<open>float\<close> is a rational, \<open>fl\<close> rounds to one and \<open>dbl\<close> to a \<^verbatim>\<open>double\<close>. Hashes are 32-bit
  integers that wrap around: the source overflows an \<^verbatim>\<open>int\<close>, which is what compilers make of it. Characters
  are signed.
\<close>

section \<open>Records\<close>

datatype ObjectType = Wire | Via | Inst | Pin | Drc | Blockage | Track | Bump | Text | Unknown

record ColorRgba =
  col_r :: rat
  col_g :: rat
  col_b :: rat
  col_a :: rat

datatype LineStyle = Solid | Dashed | Dotted | DashDot | DashDotDot

record LayerRecord =
  lr_layerId :: string
  lr_name :: string
  lr_zBase :: rat
  lr_thickness :: rat
  lr_visible :: bool
  lr_selectable :: bool
  lr_isHorizontal :: bool
  lr_color :: ColorRgba
  lr_stippleId :: string
  lr_transparency :: rat
  lr_lighten :: rat
  lr_lineWidth :: rat
  lr_lineStyle :: LineStyle

record ObjectRecord =
  ob_objectId :: string
  ob_type :: ObjectType
  ob_layerId :: string
  ob_groupId :: string
  ob_visible :: bool
  ob_transform :: "rat list"
  ob_bbox :: AABB
  ob_hasBbox :: bool
  ob_geometryRef :: string
  ob_styleRef :: string
  ob_displayName :: string
  ob_isHorizontal :: bool

definition ObjectRecord_default :: ObjectRecord where
  "ObjectRecord_default =
     \<lparr>ob_objectId = [], ob_type = ObjectType.Unknown, ob_layerId = [], ob_groupId = [], ob_visible = True,
      ob_transform = [1, 0, 0, 0, 0, 1, 0, 0, 0, 0, 1, 0, 0, 0, 0, 1], ob_bbox = AABB_default, ob_hasBbox = False,
      ob_geometryRef = [], ob_styleRef = [], ob_displayName = [], ob_isHorizontal = True\<rparr>"

record SceneSnapshot =
  snap_sourceTag :: string
  snap_layers :: "LayerRecord list"
  snap_objects :: "ObjectRecord list"

section \<open>Colours and patterns\<close>

definition signed_char :: "char \<Rightarrow> int" where
  "signed_char c = (let n = of_char c in if n < 128 then n else n - 256)"

definition name_hash :: "string \<Rightarrow> 32 word" where
  "name_hash name = foldl (\<lambda>hash c. hash * 31 + of_int (signed_char c)) 0 name"

definition trunc_to_int :: "rat \<Rightarrow> int" where
  "trunc_to_int x = (if 0 \<le> x then \<lfloor>x\<rfloor> else \<lceil>x\<rceil>)"

definition fmod_1 :: "rat \<Rightarrow> rat" where
  "fmod_1 x = x - of_int (trunc_to_int x)"

definition hue_of_hash :: "(rat \<Rightarrow> rat) \<Rightarrow> (rat \<Rightarrow> rat) \<Rightarrow> string \<Rightarrow> rat" where
  "hue_of_hash fl dbl name =
     fl (fmod_1 (dbl (of_int (sint (name_hash name)) * dbl (618033988749 / 10 ^ 12))))"

definition hsv_color :: "(rat \<Rightarrow> rat) \<Rightarrow> rat \<Rightarrow> rat \<Rightarrow> rat \<Rightarrow> ColorRgba \<Rightarrow> ColorRgba" where
  "hsv_color fl h s v color =
     (let hi = trunc_to_int (fl (h * 6));
          f = fl (fl (h * 6) - fl (of_int hi));
          p = fl (v * fl (1 - s));
          q = fl (v * fl (1 - fl (f * s)));
          t = fl (v * fl (1 - fl (fl (1 - f) * s)));
          rgb = (\<lambda>r g b. color\<lparr>col_r := r, col_g := g, col_b := b\<rparr>);
          k = hi smod 6
      in if k = 0 then rgb v t p
         else if k = 1 then rgb q v p
         else if k = 2 then rgb p v t
         else if k = 3 then rgb p q v
         else if k = 4 then rgb t p v
         else rgb v p q)"

definition metal_colors :: "(string list \<times> rat \<times> rat \<times> rat) list" where
  "metal_colors =
     [([''metal1'', ''Metal1'', ''METAL1''], 9/10, 2/10, 2/10),
      ([''metal2'', ''Metal2'', ''METAL2''], 2/10, 9/10, 2/10),
      ([''metal3'', ''Metal3'', ''METAL3''], 9/10, 9/10, 2/10),
      ([''metal4'', ''Metal4'', ''METAL4''], 2/10, 9/10, 9/10),
      ([''metal5'', ''Metal5'', ''METAL5''], 9/10, 5/10, 2/10),
      ([''metal6'', ''Metal6'', ''METAL6''], 5/10, 2/10, 9/10),
      ([''metal7'', ''Metal7'', ''METAL7''], 2/10, 5/10, 9/10),
      ([''metal8'', ''Metal8'', ''METAL8''], 9/10, 2/10, 9/10),
      ([''metal9'', ''Metal9'', ''METAL9''], 4/10, 9/10, 4/10),
      ([''metal10'', ''Metal10'', ''METAL10''], 9/10, 4/10, 6/10)]"

definition fixedLayerColor :: "(rat \<Rightarrow> rat) \<Rightarrow> (rat \<Rightarrow> rat) \<Rightarrow> string \<Rightarrow> ColorRgba" where
  "fixedLayerColor fl dbl layerName =
     (let color = \<lparr>col_r = 0, col_g = 0, col_b = 0, col_a = fl (85/100)\<rparr>
      in case List.find (\<lambda>(names, _). layerName \<in> set names) metal_colors of
           Some (_, r, g, b) \<Rightarrow> color\<lparr>col_r := fl r, col_g := fl g, col_b := fl b\<rparr>
         | None \<Rightarrow> hsv_color fl (hue_of_hash fl dbl layerName) (fl (75/100)) (fl (9/10)) color)"

definition colorFromLayerName :: "(rat \<Rightarrow> rat) \<Rightarrow> (rat \<Rightarrow> rat) \<Rightarrow> string \<Rightarrow> ColorRgba" where
  "colorFromLayerName fl dbl name =
     (let color = fixedLayerColor fl dbl name
      in if col_r color > 0 \<or> col_g color > 0 \<or> col_b color > 0 then color
         else hsv_color fl (hue_of_hash fl dbl name) (fl (7/10)) (fl (9/10)) color)"

definition kStippleNames :: "string list" where
  "kStippleNames =
     [''horizontal'', ''vertical'', ''grid'', ''slash'', ''backslash'', ''cross'', ''brick'', ''dot1'', ''dot2'',
      ''dot4'', ''slash2'', ''backslash2'', ''dot8_1'', ''dot8_2'']"

text \<open>\<^verbatim>\<open>std::abs(INT_MIN)\<close> is \<^verbatim>\<open>INT_MIN\<close>, and the index is then negative.\<close>

definition abs_int32 :: "32 word \<Rightarrow> int" where
  "abs_int32 w = sint (if sint w < 0 then - w else w)"

definition stippleForLayer :: "string \<Rightarrow> wire_error + string" where
  "stippleForLayer layerName =
     (let idx = abs_int32 (name_hash layerName) smod int (length kStippleNames)
      in if 0 \<le> idx then Inr (kStippleNames ! nat idx) else Inl OutOfRange)"

section \<open>Names\<close>

definition int_to_string :: "int \<Rightarrow> string" where
  "int_to_string i = (if i < 0 then CHR ''-'' # to_string (nat (- i)) else to_string (nat i))"

definition makePointerObjectId :: "nat \<Rightarrow> string \<Rightarrow> int \<Rightarrow> string \<Rightarrow> string" where
  "makePointerObjectId ptr category index role =
     ''ptr_'' @ to_string ptr @ ''_'' @ category @
     (if 0 \<le> index then ''_'' @ int_to_string index else []) @ (if role \<noteq> [] then ''_'' @ role else [])"

definition getViaLayerName :: "dbTechLayer option \<Rightarrow> dbTechLayer option \<Rightarrow> string" where
  "getViaLayerName topLayer bottomLayer =
     ''via'' @ (case bottomLayer of None \<Rightarrow> [] | Some l \<Rightarrow> int_to_string (tl_number l)) @
     (case topLayer of None \<Rightarrow> [] | Some l \<Rightarrow> int_to_string (tl_number l))"

section \<open>Heights\<close>

text \<open>The cache of layer centres, filled from the bottom of the stack to its top.\<close>

definition stack_thickness :: "(rat \<Rightarrow> rat) \<Rightarrow> int \<Rightarrow> dbTechLayer \<Rightarrow> rat" where
  "stack_thickness fl dbu l =
     (case tl_thickness l of
        Some t \<Rightarrow> fl (fl (of_nat t) / fl (of_int dbu))
      | None \<Rightarrow> fl (fl (fl (of_nat (tl_width l)) / fl (of_int dbu)) / 2))"

fun stack_layers ::
  "(rat \<Rightarrow> rat) \<Rightarrow> int \<Rightarrow> dbTechLayer option \<Rightarrow> dbTechLayer list \<Rightarrow> (int \<rightharpoonup> rat) \<Rightarrow> (int \<rightharpoonup> rat)" where
  "stack_layers fl dbu prev [] cache = cache"
| "stack_layers fl dbu prev (layer # layers) cache =
     (let thickness = stack_thickness fl dbu layer;
          zCenter = (case prev of
                       None \<Rightarrow> fl (thickness / 2)
                     | Some prev_layer \<Rightarrow>
                         let prev_center = (case cache (tl_number prev_layer) of Some z \<Rightarrow> z | None \<Rightarrow> 0)
                         in fl (fl (prev_center + fl (stack_thickness fl dbu prev_layer / 2)) + fl (thickness / 2)))
      in stack_layers fl dbu (Some layer) layers (cache(tl_number layer \<mapsto> zCenter)))"

definition computeLayerZPositions ::
  "(rat \<Rightarrow> rat) \<Rightarrow> int \<Rightarrow> dbTechLayer list option \<Rightarrow> (int \<rightharpoonup> rat)" where
  "computeLayerZPositions fl dbu tech =
     (case tech of None \<Rightarrow> Map.empty | Some layers \<Rightarrow> stack_layers fl dbu None layers Map.empty)"

definition getLayerZBase :: "(rat \<Rightarrow> rat) \<Rightarrow> (int \<rightharpoonup> rat) \<Rightarrow> dbTechLayer option \<Rightarrow> rat" where
  "getLayerZBase fl cache layer =
     (case layer of
        None \<Rightarrow> 0
      | Some l \<Rightarrow>
          (case cache (tl_number l) of
             Some z \<Rightarrow> z
           | None \<Rightarrow>
               let n = fl (of_int (tl_number l))
               in if tl_type l = dbTechLayerType.ROUTING then fl (n * fl (1/10))
                  else if tl_type l = dbTechLayerType.CUT then fl (fl (n * fl (1/10)) - fl (5/100))
                  else fl (n * fl (6/100))))"

definition getViaZBase ::
  "(rat \<Rightarrow> rat) \<Rightarrow> (int \<rightharpoonup> rat) \<Rightarrow> dbTechLayer option \<Rightarrow> dbTechLayer option \<Rightarrow> rat" where
  "getViaZBase fl cache topLayer bottomLayer =
     (let topZ = (if topLayer = None then fl (1/10) else getLayerZBase fl cache topLayer);
          bottomZ = (if bottomLayer = None then fl (5/100) else getLayerZBase fl cache bottomLayer)
      in fl (fl (topZ + bottomZ) * (1/2)))"

definition getLayerThickness :: "(rat \<Rightarrow> rat) \<Rightarrow> int \<Rightarrow> dbTechLayer option \<Rightarrow> rat" where
  "getLayerThickness fl dbu layer =
     (case layer of
        None \<Rightarrow> fl (1/10)
      | Some l \<Rightarrow>
          (case tl_thickness l of
             Some t \<Rightarrow> fl (fl (of_nat t) / fl (of_int dbu))
           | None \<Rightarrow> fl (fl (fl (of_int (int_of_uint32 (tl_width l))) / fl (of_int dbu)) / 2)))"

end
