(* ===== verification/DbStream.thy ===== *)
theory DbStream
  imports OdbPrelude
begin

text \<open>
  The binary streams of \<^verbatim>\<open>odb/dbStream.h\<close>: \<^verbatim>\<open>dbOStream\<close> writes values as the
  bytes of their representation, \<^verbatim>\<open>dbIStream\<close> reads them back. A stream is the list of its
  bytes; an \<^verbatim>\<open>operator<<\<close> is the bytes it appends (\<open>put_\<dots>\<close>) and an \<^verbatim>\<open>operator>>\<close> is a
  reader (\<open>get_\<dots>\<close>) that consumes a prefix, \<open>None\<close> when the stream ends first or the bytes are no
  value (the code then goes on with an indeterminate variable). Multi-byte values are in the byte
  order of the host, taken as little endian. Floating point values are carried as their bit
  patterns; nothing here computes with them.

  The locale \<open>stream_codec\<close> is the contract of a pair of operators: what was written is read back and
  nothing more is consumed. Containers are proved once inside it for any element type and any
  element contract.
\<close>

unbundle bit_operations_syntax

section \<open>Bytes of machine words\<close>

type_synonym byte = "8 word"
type_synonym 'a reader = "byte list \<Rightarrow> ('a \<times> byte list) option"

definition bytes_of_word :: "nat \<Rightarrow> 'w::len word \<Rightarrow> byte list" where
  "bytes_of_word n w = map (\<lambda>i. ucast (drop_bit (8 * i) w)) [0..<n]"

primrec word_of_bytes :: "byte list \<Rightarrow> 'w::len word" where
  "word_of_bytes [] = 0"
| "word_of_bytes (b # bs) = ucast b OR push_bit 8 (word_of_bytes bs)"

definition read_bytes :: "nat \<Rightarrow> byte list reader" where
  "read_bytes n s = (if length s < n then None else Some (take n s, drop n s))"

lemma length_bytes_of_word [simp]: "length (bytes_of_word n w) = n"
  by (simp add: bytes_of_word_def)

lemma bit_word_of_bytes:
  "bit (word_of_bytes bs :: 'w::len word) i \<longleftrightarrow>
     i < LENGTH('w) \<and> i < 8 * length bs \<and> bit (bs ! (i div 8)) (i mod 8)"
proof (induction bs arbitrary: i)
  case Nil
  then show ?case by simp
next
  case (Cons b bs)
  show ?case
  proof (cases "i < 8")
    case True
    then show ?thesis by (auto simp: bit_or_iff bit_push_bit_iff bit_ucast_iff)
  next
    case False
    then have "(b # bs) ! (i div 8) = bs ! ((i - 8) div 8)" and m: "(i - 8) mod 8 = i mod 8"
      by (auto simp: nth_Cons' le_div_geq le_mod_geq)
    moreover have "\<not> bit b i" using False
      by (auto dest!: bit_imp_le_length)
    ultimately show ?thesis using False Cons [of "i - 8"]
      by (auto simp: bit_or_iff bit_push_bit_iff bit_ucast_iff)
  qed
qed

lemma word_of_bytes_of_word:
  assumes "LENGTH('w) \<le> 8 * n"
  shows "word_of_bytes (bytes_of_word n w) = (w :: 'w::len word)"
proof (rule bit_eqI)
  fix i
  assume "possible_bit TYPE('w word) i"
  then have i: "i < LENGTH('w)" by simp
  with assms have "i div 8 < n" by linarith
  then have "bytes_of_word n w ! (i div 8) = ucast (drop_bit (8 * (i div 8)) w)"
    by (simp add: bytes_of_word_def)
  moreover have "i mod 8 < 8" by simp
  ultimately show "bit (word_of_bytes (bytes_of_word n w) :: 'w word) i \<longleftrightarrow> bit w i"
    using i assms by (auto simp: bit_word_of_bytes bit_ucast_iff bit_drop_bit_eq)
qed

lemma read_bytes_append [simp]: "length bs = n \<Longrightarrow> read_bytes n (bs @ rest) = Some (bs, rest)"
  by (simp add: read_bytes_def)

section \<open>Scalars\<close>

definition put_uchar :: "8 word \<Rightarrow> byte list" where
  "put_uchar c = bytes_of_word 1 c"

definition put_bool :: "bool \<Rightarrow> byte list" where
  "put_bool c = put_uchar (if c then 1 else 0)"

definition put_char :: "char \<Rightarrow> byte list" where
  "put_char c = bytes_of_word 1 (of_char c :: 8 word)"

definition put_int16 :: "int \<Rightarrow> byte list" where
  "put_int16 c = bytes_of_word 2 (word_of_int c :: 16 word)"

definition put_uint16 :: "16 word \<Rightarrow> byte list" where
  "put_uint16 c = bytes_of_word 2 c"

definition put_int :: "int \<Rightarrow> byte list" where
  "put_int c = bytes_of_word 4 (word_of_int c :: 32 word)"

definition put_uint64 :: "64 word \<Rightarrow> byte list" where
  "put_uint64 c = bytes_of_word 8 c"

definition put_uint :: "32 word \<Rightarrow> byte list" where
  "put_uint c = bytes_of_word 4 c"

definition put_int8 :: "int \<Rightarrow> byte list" where
  "put_int8 c = bytes_of_word 1 (word_of_int c :: 8 word)"

definition put_float :: "32 word \<Rightarrow> byte list" where
  "put_float c = bytes_of_word 4 c"

definition put_double :: "64 word \<Rightarrow> byte list" where
  "put_double c = bytes_of_word 8 c"

definition get_uchar :: "(8 word) reader" where
  "get_uchar s = do { (bs, r) \<leftarrow> read_bytes 1 s; Some (word_of_bytes bs, r) }"

definition get_bool :: "bool reader" where
  "get_bool s = do { (b, r) \<leftarrow> get_uchar s; Some (b = 1, r) }"

definition get_char :: "char reader" where
  "get_char s = do { (bs, r) \<leftarrow> read_bytes 1 s; Some (char_of (unat (word_of_bytes bs :: 8 word)), r) }"

definition get_int16 :: "int reader" where
  "get_int16 s = do { (bs, r) \<leftarrow> read_bytes 2 s; Some (sint (word_of_bytes bs :: 16 word), r) }"

definition get_uint16 :: "(16 word) reader" where
  "get_uint16 s = do { (bs, r) \<leftarrow> read_bytes 2 s; Some (word_of_bytes bs, r) }"

definition get_int :: "int reader" where
  "get_int s = do { (bs, r) \<leftarrow> read_bytes 4 s; Some (sint (word_of_bytes bs :: 32 word), r) }"

definition get_uint64 :: "(64 word) reader" where
  "get_uint64 s = do { (bs, r) \<leftarrow> read_bytes 8 s; Some (word_of_bytes bs, r) }"

definition get_uint :: "(32 word) reader" where
  "get_uint s = do { (bs, r) \<leftarrow> read_bytes 4 s; Some (word_of_bytes bs, r) }"

definition get_int8 :: "int reader" where
  "get_int8 s = do { (bs, r) \<leftarrow> read_bytes 1 s; Some (sint (word_of_bytes bs :: 8 word), r) }"

definition get_float :: "(32 word) reader" where
  "get_float s = do { (bs, r) \<leftarrow> read_bytes 4 s; Some (word_of_bytes bs, r) }"

definition get_double :: "(64 word) reader" where
  "get_double s = do { (bs, r) \<leftarrow> read_bytes 8 s; Some (word_of_bytes bs, r) }"

section \<open>Strings\<close>

text \<open>
  A \<^verbatim>\<open>char*\<close> is null (\<open>None\<close>) or a C string. The length that is written counts the
  terminating NUL, so 0 is left for the null pointer. The buffer that is read is a C string only up
  to its first NUL; without one the code reads past the buffer, and the reader has no value.
\<close>

definition put_cstr :: "string option \<Rightarrow> byte list" where
  "put_cstr c = (case c of
      None \<Rightarrow> put_int 0
    | Some c \<Rightarrow> (let l = int (length c) + 1 in put_int l @ map of_char c @ [of_char NUL]))"

definition get_cstr :: "string option reader" where
  "get_cstr s = do {
     (l, r) \<leftarrow> get_int s;
     if l = 0 then Some (None, r)
     else if l < 0 then None
     else do {
       (bs, r) \<leftarrow> read_bytes (nat l) r;
       let buf = map (\<lambda>b. char_of (unat b)) bs;
       if NUL \<in> set buf then Some (Some (c_str buf), r) else None } }"

definition put_string :: "string \<Rightarrow> byte list" where
  "put_string s = put_cstr (Some (c_str s))"

definition get_string :: "string reader" where
  "get_string s = do {
     (tmp, r) \<leftarrow> get_cstr s;
     (case tmp of None \<Rightarrow> Some ('''', r) | Some t \<Rightarrow> Some (t, r)) }"

section \<open>Containers\<close>

definition put_pair :: "('a \<Rightarrow> byte list) \<Rightarrow> ('b \<Rightarrow> byte list) \<Rightarrow> 'a \<times> 'b \<Rightarrow> byte list" where
  "put_pair putA putB p = putA (fst p) @ putB (snd p)"

definition get_pair :: "'a reader \<Rightarrow> 'b reader \<Rightarrow> ('a \<times> 'b) reader" where
  "get_pair getA getB s = do { (a, r) \<leftarrow> getA s; (b, r) \<leftarrow> getB r; Some ((a, b), r) }"

text \<open>The loop that reads a given number of values.\<close>

primrec get_n :: "'a reader \<Rightarrow> nat \<Rightarrow> 'a list reader" where
  "get_n getA 0 s = Some ([], s)"
| "get_n getA (Suc n) s = do { (a, r) \<leftarrow> getA s; (as, r) \<leftarrow> get_n getA n r; Some (a # as, r) }"

definition put_vector :: "('a \<Rightarrow> byte list) \<Rightarrow> 'a list \<Rightarrow> byte list" where
  "put_vector putA m = put_uint (of_nat (length m)) @ concat (map putA m)"

definition get_vector :: "'a reader \<Rightarrow> 'a list reader" where
  "get_vector getA s = do { (sz, r) \<leftarrow> get_uint s; get_n getA (unat sz) r }"

definition put_array :: "('a \<Rightarrow> byte list) \<Rightarrow> 'a list \<Rightarrow> byte list" where
  "put_array putA a = concat (map putA a)"

definition get_array :: "'a reader \<Rightarrow> nat \<Rightarrow> 'a list reader" where
  "get_array getA SIZE s = get_n getA SIZE s"

text \<open>
  \<^verbatim>\<open>std::map\<close> is kept as its list of entries in key order; \<open>map_assign\<close> is
  \<^verbatim>\<open>m[key] = val\<close>. The \<^verbatim>\<open>flat_map\<close> overloads are the same code. An
  \<^verbatim>\<open>unordered_map\<close> is a finite map, written in an order the library chooses: \<open>put_umap\<close> takes
  the entries in that order.
\<close>

fun map_assign :: "'k::linorder \<Rightarrow> 'v \<Rightarrow> ('k \<times> 'v) list \<Rightarrow> ('k \<times> 'v) list" where
  "map_assign k v [] = [(k, v)]"
| "map_assign k v ((k', v') # m) =
     (if k < k' then (k, v) # (k', v') # m
      else if k = k' then (k, v) # m
      else (k', v') # map_assign k v m)"

definition put_map :: "('k \<Rightarrow> byte list) \<Rightarrow> ('v \<Rightarrow> byte list) \<Rightarrow> ('k \<times> 'v) list \<Rightarrow> byte list" where
  "put_map putK putV m = put_uint (of_nat (length m)) @ concat (map (put_pair putK putV) m)"

definition get_map :: "'k::linorder reader \<Rightarrow> 'v reader \<Rightarrow> ('k \<times> 'v) list reader" where
  "get_map getK getV s = do {
     (sz, r) \<leftarrow> get_uint s;
     (kvs, r) \<leftarrow> get_n (get_pair getK getV) (unat sz) r;
     Some (fold (\<lambda>(k, v). map_assign k v) kvs [], r) }"

definition umap_assign :: "'k \<times> 'v \<Rightarrow> ('k \<rightharpoonup> 'v) \<Rightarrow> ('k \<rightharpoonup> 'v)" where
  "umap_assign kv m = m(fst kv \<mapsto> snd kv)"

definition put_umap :: "('k \<Rightarrow> byte list) \<Rightarrow> ('v \<Rightarrow> byte list) \<Rightarrow> ('k \<times> 'v) list \<Rightarrow> byte list" where
  "put_umap putK putV m = put_uint (of_nat (length m)) @ concat (map (put_pair putK putV) m)"

definition get_umap :: "'k reader \<Rightarrow> 'v reader \<Rightarrow> ('k \<rightharpoonup> 'v) reader" where
  "get_umap getK getV s = do {
     (sz, r) \<leftarrow> get_uint s;
     (kvs, r) \<leftarrow> get_n (get_pair getK getV) (unat sz) r;
     Some (fold umap_assign kvs Map.empty, r) }"

section \<open>Reading back a scalar\<close>

lemma sint_word_of_int:
  assumes "- (2 ^ (LENGTH('w) - 1)) \<le> x" and "x < 2 ^ (LENGTH('w) - 1)"
  shows "sint (word_of_int x :: 'w::len word) = x"
  using assms by (simp add: sint_sbintrunc' signed_take_bit_int_eq_self)

lemma uint_get_put: "get_uint (put_uint c @ rest) = Some (c, rest)"
  by (simp add: get_uint_def put_uint_def word_of_bytes_of_word)

lemma int_get_put: "fits_int32 c \<Longrightarrow> get_int (put_int c @ rest) = Some (c, rest)"
  by (simp add: get_int_def put_int_def word_of_bytes_of_word sint_word_of_int fits_int32_iff)

section \<open>The contract\<close>

text \<open>\<open>ok\<close> are the values the C++ type can hold.\<close>

locale stream_codec =
  fixes put :: "'a \<Rightarrow> byte list"
    and get :: "'a reader"
    and ok :: "'a \<Rightarrow> bool"
  assumes get_put: "ok x \<Longrightarrow> get (put x @ rest) = Some (x, rest)"
begin

text \<open>Two encodings never overlap: a written value is determined by any stream it starts.\<close>

lemma put_prefix_free:
  assumes "ok x" and "ok y" and "put x @ r = put y @ s"
  shows "x = y \<and> r = s"
proof -
  have "Some (x, r) = get (put y @ s)"
    unfolding assms(3) [symmetric] by (rule get_put [OF assms(1), symmetric])
  also have "\<dots> = Some (y, s)" by (rule get_put [OF assms(2)])
  finally show ?thesis by simp
qed

lemma get_n_puts: "list_all ok xs \<Longrightarrow> get_n get (length xs) (concat (map put xs) @ rest) = Some (xs, rest)"
  by (induction xs) (simp_all add: get_put)

lemma get_vector_put:
  assumes "list_all ok xs" and "length xs < 2 ^ 32"
  shows "get_vector get (put_vector put xs @ rest) = Some (xs, rest)"
proof -
  from assms(2) have "unat (of_nat (length xs) :: 32 word) = length xs"
    by (simp add: unat_of_nat take_bit_nat_eq_self)
  with assms(1) show ?thesis
    by (simp add: get_vector_def put_vector_def uint_get_put get_n_puts)
qed

lemma get_array_put:
  "list_all ok xs \<Longrightarrow> get_array get (length xs) (put_array put xs @ rest) = Some (xs, rest)"
  by (simp add: get_array_def put_array_def get_n_puts)

end

section \<open>Scalars and strings meet the contract\<close>

interpretation uchar: stream_codec put_uchar get_uchar "\<lambda>_. True"
  by unfold_locales (simp add: get_uchar_def put_uchar_def word_of_bytes_of_word)

interpretation bool: stream_codec put_bool get_bool "\<lambda>_. True"
  by unfold_locales (auto simp: get_bool_def put_bool_def uchar.get_put)

lemma char_of_unat_of_char [simp]: "char_of (unat (of_char c :: 8 word)) = c"
proof -
  have "(of_char c :: nat) mod 256 = of_char c" by simp
  then have "take_bit 8 (of_char c :: nat) = of_char c" by (simp add: take_bit_eq_mod)
  then have "unat (of_nat (of_char c) :: 8 word) = of_char c"
    by (simp add: unat_of_nat)
  then show ?thesis by (simp add: of_nat_of_char)
qed

interpretation char: stream_codec put_char get_char "\<lambda>_. True"
  by unfold_locales (simp add: get_char_def put_char_def word_of_bytes_of_word)

interpretation int16: stream_codec put_int16 get_int16 "\<lambda>x. - 32768 \<le> x \<and> x < 32768"
  by unfold_locales (simp add: get_int16_def put_int16_def word_of_bytes_of_word sint_word_of_int)

interpretation uint16: stream_codec put_uint16 get_uint16 "\<lambda>_. True"
  by unfold_locales (simp add: get_uint16_def put_uint16_def word_of_bytes_of_word)

interpretation int32: stream_codec put_int get_int fits_int32
  by unfold_locales (rule int_get_put)

interpretation uint64: stream_codec put_uint64 get_uint64 "\<lambda>_. True"
  by unfold_locales (simp add: get_uint64_def put_uint64_def word_of_bytes_of_word)

interpretation uint32: stream_codec put_uint get_uint "\<lambda>_. True"
  by unfold_locales (rule uint_get_put)

interpretation int8: stream_codec put_int8 get_int8 "\<lambda>x. - 128 \<le> x \<and> x < 128"
  by unfold_locales (simp add: get_int8_def put_int8_def word_of_bytes_of_word sint_word_of_int)

interpretation float: stream_codec put_float get_float "\<lambda>_. True"
  by unfold_locales (simp add: get_float_def put_float_def word_of_bytes_of_word)

interpretation double: stream_codec put_double get_double "\<lambda>_. True"
  by unfold_locales (simp add: get_double_def put_double_def word_of_bytes_of_word)

text \<open>A C string fits when its length with the NUL fits an \<^verbatim>\<open>int\<close>.\<close>

definition cstr_ok :: "string \<Rightarrow> bool" where
  "cstr_ok s \<longleftrightarrow> NUL \<notin> set s \<and> int (length s) < INT_MAX"

lemma c_str_id: "NUL \<notin> set s \<Longrightarrow> c_str s = s"
  by (auto simp: c_str_def takeWhile_eq_all_conv)

lemma c_str_NUL: "NUL \<notin> set s \<Longrightarrow> c_str (s @ NUL # t) = s"
  by (induction s) (auto simp: c_str_def)

lemma c_str_no_NUL: "NUL \<notin> set (c_str s)"
  by (auto simp: c_str_def dest: set_takeWhileD)

interpretation cstr: stream_codec put_cstr get_cstr
  "\<lambda>c. case c of None \<Rightarrow> True | Some c \<Rightarrow> cstr_ok c"
proof unfold_locales
  fix c :: "string option" and rest
  assume ok: "case c of None \<Rightarrow> True | Some c \<Rightarrow> cstr_ok c"
  show "get_cstr (put_cstr c @ rest) = Some (c, rest)"
  proof (cases c)
    case None
    then show ?thesis
      by (simp add: get_cstr_def put_cstr_def int_get_put fits_int32_iff)
  next
    case (Some t)
    with ok have "fits_int32 (int (length t) + 1)" and nn: "NUL \<notin> set t"
      by (auto simp: cstr_ok_def fits_int32_iff INT_MAX_def)
    then have "get_int (put_cstr c @ rest) =
        Some (int (length t) + 1, map of_char (t @ [NUL]) @ rest)"
      by (simp add: Some put_cstr_def Let_def int_get_put)
    moreover have "read_bytes (nat (int (length t) + 1)) (map of_char (t @ [NUL]) @ rest) =
        Some (map of_char (t @ [NUL]), rest)"
      by (rule read_bytes_append) simp
    moreover have "map (\<lambda>b. char_of (unat (b :: byte))) (map of_char (t @ [NUL])) = t @ [NUL]"
      by (simp add: o_def)
    ultimately show ?thesis
      using nn by (simp add: get_cstr_def Some c_str_NUL del: map_map map_append)
  qed
qed

interpretation string: stream_codec put_string get_string cstr_ok
  by unfold_locales (simp add: get_string_def put_string_def c_str_id cstr.get_put cstr_ok_def)

section \<open>Rebuilding a map\<close>

lemma fold_upds_map_of:
  "distinct (map fst m) \<Longrightarrow> fold umap_assign m Map.empty = map_of m"
proof (induction m rule: rev_induct)
  case (snoc p m)
  obtain k v where p: "p = (k, v)" by fastforce
  with snoc.prems have "map_of m k = None" by (simp add: map_of_eq_None_iff)
  then have "(map_of m)(k \<mapsto> v) = [k \<mapsto> v] ++ map_of m"
    by (auto simp: map_add_def split: option.splits)
  then have "umap_assign p (map_of m) = map_of (m @ [p])"
    by (simp add: umap_assign_def p)
  with snoc show ?case by simp
qed simp

lemma map_assign_last:
  "sorted_wrt (<) (map fst m @ [k]) \<Longrightarrow> map_assign k v m = m @ [(k, v)]"
  by (induction m) (auto simp: sorted_wrt_append)

lemma fold_map_assign:
  "sorted_wrt (<) (map fst m) \<Longrightarrow> fold (\<lambda>(k, v). map_assign k v) m [] = m"
proof (induction m rule: rev_induct)
  case (snoc p m)
  then have "fold (\<lambda>(k, v). map_assign k v) m [] = m"
    by (simp add: sorted_wrt_append)
  then show ?case using snoc.prems by (cases p) (simp add: map_assign_last)
qed simp

section \<open>Pairs and maps\<close>

locale stream_codec2 =
  A: stream_codec putA getA okA + B: stream_codec putB getB okB
  for putA :: "'a \<Rightarrow> byte list" and getA okA
    and putB :: "'b \<Rightarrow> byte list" and getB okB
begin

lemma get_pair_put:
  "okA (fst p) \<Longrightarrow> okB (snd p) \<Longrightarrow>
     get_pair getA getB (put_pair putA putB p @ rest) = Some (p, rest)"
  by (simp add: get_pair_def put_pair_def A.get_put B.get_put)

sublocale pair: stream_codec "put_pair putA putB" "get_pair getA getB"
  "\<lambda>p. okA (fst p) \<and> okB (snd p)"
  by unfold_locales (simp add: get_pair_put)

lemma get_entries_put:
  assumes "list_all (\<lambda>p. okA (fst p) \<and> okB (snd p)) m" and "length m < 2 ^ 32"
  shows "get_uint (put_uint (of_nat (length m)) @ concat (map (put_pair putA putB) m) @ rest) =
      Some (of_nat (length m), concat (map (put_pair putA putB) m) @ rest)"
    and "get_n (get_pair getA getB) (unat (of_nat (length m) :: 32 word))
        (concat (map (put_pair putA putB) m) @ rest) = Some (m, rest)"
  using assms by (simp_all add: uint_get_put pair.get_n_puts unat_of_nat take_bit_nat_eq_self)

text \<open>An unordered map comes back as the same map, whatever order it was written in.\<close>

lemma get_umap_put:
  assumes "distinct (map fst m)" and "list_all (\<lambda>p. okA (fst p) \<and> okB (snd p)) m"
    and "length m < 2 ^ 32"
  shows "get_umap getA getB (put_umap putA putB m @ rest) = Some (map_of m, rest)"
  using get_entries_put [OF assms(2,3), of rest] assms(1)
  by (simp add: get_umap_def put_umap_def fold_upds_map_of)

end

text \<open>An ordered map is read back entry by entry into its key order.\<close>

locale stream_codec_map = stream_codec2 putA getA okA putB getB okB
  for putA :: "'a::linorder \<Rightarrow> byte list" and getA okA
    and putB :: "'b \<Rightarrow> byte list" and getB okB
begin

lemma get_map_put:
  assumes "sorted_wrt (<) (map fst m)" and "list_all (\<lambda>p. okA (fst p) \<and> okB (snd p)) m"
    and "length m < 2 ^ 32"
  shows "get_map getA getB (put_map putA putB m @ rest) = Some (m, rest)"
  using get_entries_put [OF assms(2,3), of rest] assms(1)
  by (simp add: get_map_def put_map_def fold_map_assign)

end

text \<open>
  The containers the database streams most: vectors of names, name to id maps and id to id maps.
\<close>

interpretation name_id: stream_codec_map put_uint get_uint "\<lambda>_. True" put_string get_string cstr_ok
  by unfold_locales

end
