(* ===== verification/DbOrient.thy ===== *)
theory DbOrient
  imports DbStream Geom
begin

text \<open>
  Orientations (\<^verbatim>\<open>dbOrientType\<close>, \<^verbatim>\<open>dbOrientType3D\<close>) and the two GDS
  attribute classes of \<^verbatim>\<open>odb/dbTypes.h\<close>, with their names and their stream operators. The
  eight planar orientations are the symmetries of the square: \<open>orient_point\<close> is what an orientation
  means, the map \<^verbatim>\<open>dbTransform::apply\<close> performs before it adds the offset, and
  the name and flip tables are checked against it. A byte read from a stream is cast to the
  enumeration unchecked; the readers have no value for a byte that is no enumerator.
\<close>

section \<open>Planar orientations\<close>

datatype dbOrientType = R0 | R90 | R180 | R270 | MY | MYR90 | MX | MXR90

definition dbOrientType_DEFAULT :: dbOrientType where
  "dbOrientType_DEFAULT = R0"

definition dbOrientType_fromString :: "string \<Rightarrow> dbOrientType option" where
  "dbOrientType_fromString orient =
    (if strcasecmp orient ''R0'' = 0 then Some R0
     else if strcasecmp orient ''R90'' = 0 then Some R90
     else if strcasecmp orient ''R180'' = 0 then Some R180
     else if strcasecmp orient ''R270'' = 0 then Some R270
     else if strcasecmp orient ''MY'' = 0 then Some MY
     else if strcasecmp orient ''MYR90'' = 0 \<or> strcasecmp orient ''MY_R90'' = 0 then Some MYR90
     else if strcasecmp orient ''MX'' = 0 then Some MX
     else if strcasecmp orient ''MXR90'' = 0 \<or> strcasecmp orient ''MX_R90'' = 0 then Some MXR90
     else if strcasecmp orient ''N'' = 0 then Some R0
     else if strcasecmp orient ''W'' = 0 then Some R90
     else if strcasecmp orient ''S'' = 0 then Some R180
     else if strcasecmp orient ''E'' = 0 then Some R270
     else if strcasecmp orient ''FN'' = 0 then Some MY
     else if strcasecmp orient ''FE'' = 0 then Some MYR90
     else if strcasecmp orient ''FS'' = 0 then Some MX
     else if strcasecmp orient ''FW'' = 0 then Some MXR90
     else None)"

definition dbOrientType_of_string :: "string \<Rightarrow> dbOrientType" where
  "dbOrientType_of_string orient =
     (case dbOrientType_fromString orient of Some v \<Rightarrow> v | None \<Rightarrow> dbOrientType_DEFAULT)"

primrec dbOrientType_getString :: "dbOrientType \<Rightarrow> string" where
  "dbOrientType_getString R0 = ''R0''"
| "dbOrientType_getString R90 = ''R90''"
| "dbOrientType_getString R180 = ''R180''"
| "dbOrientType_getString R270 = ''R270''"
| "dbOrientType_getString MY = ''MY''"
| "dbOrientType_getString MYR90 = ''MYR90''"
| "dbOrientType_getString MX = ''MX''"
| "dbOrientType_getString MXR90 = ''MXR90''"

primrec dbOrientType_flipX :: "dbOrientType \<Rightarrow> dbOrientType" where
  "dbOrientType_flipX R0 = MX"
| "dbOrientType_flipX R90 = MYR90"
| "dbOrientType_flipX R180 = MY"
| "dbOrientType_flipX R270 = MXR90"
| "dbOrientType_flipX MY = R180"
| "dbOrientType_flipX MYR90 = R90"
| "dbOrientType_flipX MX = R0"
| "dbOrientType_flipX MXR90 = R270"

primrec dbOrientType_flipY :: "dbOrientType \<Rightarrow> dbOrientType" where
  "dbOrientType_flipY R0 = MY"
| "dbOrientType_flipY R90 = MXR90"
| "dbOrientType_flipY R180 = MX"
| "dbOrientType_flipY R270 = MYR90"
| "dbOrientType_flipY MY = R0"
| "dbOrientType_flipY MYR90 = R270"
| "dbOrientType_flipY MX = R180"
| "dbOrientType_flipY MXR90 = R90"

primrec dbOrientType_isRightAngleRotation :: "dbOrientType \<Rightarrow> bool" where
  "dbOrientType_isRightAngleRotation R90 = True"
| "dbOrientType_isRightAngleRotation R270 = True"
| "dbOrientType_isRightAngleRotation MYR90 = True"
| "dbOrientType_isRightAngleRotation MXR90 = True"
| "dbOrientType_isRightAngleRotation R0 = False"
| "dbOrientType_isRightAngleRotation R180 = False"
| "dbOrientType_isRightAngleRotation MY = False"
| "dbOrientType_isRightAngleRotation MX = False"

text \<open>The numbering of the enumerators, and the cast of a number to the enumeration.\<close>

primrec dbOrientType_value :: "dbOrientType \<Rightarrow> nat" where
  "dbOrientType_value R0 = 0"
| "dbOrientType_value R90 = 1"
| "dbOrientType_value R180 = 2"
| "dbOrientType_value R270 = 3"
| "dbOrientType_value MY = 4"
| "dbOrientType_value MYR90 = 5"
| "dbOrientType_value MX = 6"
| "dbOrientType_value MXR90 = 7"

definition dbOrientType_of_nat :: "nat \<Rightarrow> dbOrientType option" where
  "dbOrientType_of_nat n =
     (if n < 8 then Some ([R0, R90, R180, R270, MY, MYR90, MX, MXR90] ! n) else None)"

section \<open>Orientations with a flip of the stack\<close>

record dbOrientType3D =
  o3d_value :: dbOrientType
  o3d_mirror_z :: bool

definition mk_dbOrientType3D :: "dbOrientType \<Rightarrow> bool \<Rightarrow> dbOrientType3D" where
  "mk_dbOrientType3D orient mirror_z = \<lparr>o3d_value = orient, o3d_mirror_z = mirror_z\<rparr>"

definition dbOrientType3D_default :: dbOrientType3D where
  "dbOrientType3D_default = \<lparr>o3d_value = R0, o3d_mirror_z = False\<rparr>"

text \<open>\<^verbatim>\<open>std::string::find\<close>: the first position the pattern occurs at.\<close>

fun str_find :: "string \<Rightarrow> string \<Rightarrow> nat option" where
  "str_find pat [] = (if pat = [] then Some 0 else None)"
| "str_find pat (c # s) =
     (if take (length pat) (c # s) = pat then Some 0 else map_option Suc (str_find pat s))"

definition str_erase :: "string \<Rightarrow> nat \<Rightarrow> nat \<Rightarrow> string" where
  "str_erase s pos n = take pos s @ drop (pos + n) s"

definition dbOrientType3D_fromString :: "string \<Rightarrow> dbOrientType3D option" where
  "dbOrientType3D_fromString orient =
     (if orient = ''MZ'' then Some (mk_dbOrientType3D R0 True)
      else
        let (mirror_z, orient_str) =
              (case str_find ''MZ_'' orient of
                 Some pos \<Rightarrow> (True, str_erase orient pos 3)
               | None \<Rightarrow> (False, orient))
        in (case dbOrientType_fromString (c_str orient_str) of
              None \<Rightarrow> None
            | Some v \<Rightarrow> Some (mk_dbOrientType3D v mirror_z)))"

definition dbOrientType3D_of_string :: "string \<Rightarrow> dbOrientType3D" where
  "dbOrientType3D_of_string orient =
     (case dbOrientType3D_fromString orient of
        Some v \<Rightarrow> v
      | None \<Rightarrow> \<lparr>o3d_value = dbOrientType_DEFAULT, o3d_mirror_z = False\<rparr>)"

definition dbOrientType3D_getOrientType2D :: "dbOrientType3D \<Rightarrow> dbOrientType" where
  "dbOrientType3D_getOrientType2D t = o3d_value t"

definition dbOrientType3D_isMirrorZ :: "dbOrientType3D \<Rightarrow> bool" where
  "dbOrientType3D_isMirrorZ t = o3d_mirror_z t"

definition dbOrientType3D_getString :: "dbOrientType3D \<Rightarrow> string" where
  "dbOrientType3D_getString t =
     (if o3d_mirror_z t \<and> dbOrientType3D_getOrientType2D t = R0 then ''MZ''
      else
        let orient_2d_str = dbOrientType_getString (dbOrientType3D_getOrientType2D t);
            orient_2d_str =
              (if orient_2d_str = ''MXR90'' then ''MX_R90''
               else if orient_2d_str = ''MYR90'' then ''MY_R90''
               else orient_2d_str)
        in (if o3d_mirror_z t then ''MZ_'' else '''') @ orient_2d_str)"

definition put_dbOrientType3D :: "dbOrientType3D \<Rightarrow> byte list" where
  "put_dbOrientType3D t =
     put_uchar (of_nat (dbOrientType_value (o3d_value t))) @ put_bool (o3d_mirror_z t)"

definition get_dbOrientType3D :: "dbOrientType3D reader" where
  "get_dbOrientType3D s = do {
     (value, s) \<leftarrow> get_uchar s;
     v \<leftarrow> dbOrientType_of_nat (unat value);
     (m, s) \<leftarrow> get_bool s;
     Some (\<lparr>o3d_value = v, o3d_mirror_z = m\<rparr>, s) }"

section \<open>GDS attributes\<close>

text \<open>The magnification and the angle are doubles, kept as their bit patterns.\<close>

record dbGDSSTrans =
  sts_flipX :: bool
  sts_mag :: "64 word"
  sts_angle :: "64 word"

definition put_dbGDSSTrans :: "dbGDSSTrans \<Rightarrow> byte list" where
  "put_dbGDSSTrans t = put_bool (sts_flipX t) @ put_double (sts_mag t) @ put_double (sts_angle t)"

definition get_dbGDSSTrans :: "dbGDSSTrans reader" where
  "get_dbGDSSTrans s = do {
     (f, s) \<leftarrow> get_bool s; (m, s) \<leftarrow> get_double s; (a, s) \<leftarrow> get_double s;
     Some (\<lparr>sts_flipX = f, sts_mag = m, sts_angle = a\<rparr>, s) }"

datatype VPres = TOP | MIDDLE | BOTTOM

datatype HPres = LEFT | CENTER | RIGHT

record dbGDSTextPres =
  v_pres :: VPres
  h_pres :: HPres

definition dbGDSTextPres_to_string :: "dbGDSTextPres \<Rightarrow> string" where
  "dbGDSTextPres_to_string t =
     ''FONT '' @ (if v_pres t = VPres.TOP then ''TOP '' else ''BOTTOM '') @
     (if h_pres t = HPres.LEFT then ''LEFT '' else ''RIGHT '')"

primrec VPres_value :: "VPres \<Rightarrow> nat" where
  "VPres_value VPres.TOP = 0"
| "VPres_value VPres.MIDDLE = 1"
| "VPres_value VPres.BOTTOM = 2"

primrec HPres_value :: "HPres \<Rightarrow> nat" where
  "HPres_value HPres.LEFT = 0"
| "HPres_value HPres.CENTER = 1"
| "HPres_value HPres.RIGHT = 2"

definition VPres_of_nat :: "nat \<Rightarrow> VPres option" where
  "VPres_of_nat n = (if n < 3 then Some ([VPres.TOP, VPres.MIDDLE, VPres.BOTTOM] ! n) else None)"

definition HPres_of_nat :: "nat \<Rightarrow> HPres option" where
  "HPres_of_nat n = (if n < 3 then Some ([HPres.LEFT, HPres.CENTER, HPres.RIGHT] ! n) else None)"

definition put_dbGDSTextPres :: "dbGDSTextPres \<Rightarrow> byte list" where
  "put_dbGDSTextPres t =
     put_uchar (of_nat (VPres_value (v_pres t))) @ put_uchar (of_nat (HPres_value (h_pres t)))"

definition get_dbGDSTextPres :: "dbGDSTextPres reader" where
  "get_dbGDSTextPres s = do {
     (vPresTemp, s) \<leftarrow> get_uchar s;
     (hPresTemp, s) \<leftarrow> get_uchar s;
     v \<leftarrow> VPres_of_nat (unat vPresTemp);
     h \<leftarrow> HPres_of_nat (unat hPresTemp);
     Some (\<lparr>v_pres = v, h_pres = h\<rparr>, s) }"

section \<open>Names\<close>

lemma dbOrientType_fromString_getString:
  "dbOrientType_fromString (dbOrientType_getString v) = Some v"
  by (cases v) (simp_all add: dbOrientType_fromString_def char_eval)

lemma dbOrientType_fromString_case:
  "strcasecmp s = strcasecmp t \<Longrightarrow> dbOrientType_fromString s = dbOrientType_fromString t"
  by (simp add: dbOrientType_fromString_def)

text \<open>The LEF/DEF names are the same eight orientations.\<close>

lemma dbOrientType_lefdef_names:
  "map dbOrientType_fromString [''N'', ''W'', ''S'', ''E'', ''FN'', ''FE'', ''FS'', ''FW''] =
   map Some [R0, R90, R180, R270, MY, MYR90, MX, MXR90]"
  by (simp add: dbOrientType_fromString_def char_eval)

lemma dbOrientType3D_cases:
  obtains v m where "t = mk_dbOrientType3D v m"
  by (cases t) (auto simp: mk_dbOrientType3D_def)

lemma dbOrientType3D_fromString_getString:
  "dbOrientType3D_fromString (dbOrientType3D_getString t) = Some t"
  by (cases t rule: dbOrientType3D_cases; rename_tac v m; case_tac v; case_tac m)
     (simp_all add: dbOrientType3D_fromString_def dbOrientType3D_getString_def
       dbOrientType3D_getOrientType2D_def mk_dbOrientType3D_def str_erase_def c_str_def NUL_char
       dbOrientType_fromString_def char_eval)

text \<open>
  The flag is taken out of the name wherever it stands, so names no writer produces are read as
  flipped orientations.
\<close>

lemma dbOrientType3D_flag_anywhere:
  "dbOrientType3D_fromString ''R9MZ_0'' = Some (mk_dbOrientType3D R90 True)"
  by (simp add: dbOrientType3D_fromString_def str_erase_def c_str_def NUL_char
      dbOrientType_fromString_def char_eval)

section \<open>Streams\<close>

lemma dbOrientType_of_nat_value [simp]: "dbOrientType_of_nat (dbOrientType_value v) = Some v"
  by (cases v) (simp_all add: dbOrientType_of_nat_def)

lemma dbOrientType_value_less: "dbOrientType_value v < 8"
  by (cases v) simp_all

lemma unat_orient_byte [simp]: "unat (of_nat (dbOrientType_value v) :: 8 word) = dbOrientType_value v"
  by (cases v) simp_all

interpretation orient3d_io: stream_codec put_dbOrientType3D get_dbOrientType3D "\<lambda>_. True"
  by unfold_locales
     (simp add: put_dbOrientType3D_def get_dbOrientType3D_def uchar.get_put bool.get_put)

interpretation gdsstrans_io: stream_codec put_dbGDSSTrans get_dbGDSSTrans "\<lambda>_. True"
  by unfold_locales
     (simp add: put_dbGDSSTrans_def get_dbGDSSTrans_def double.get_put bool.get_put)

lemma VPres_byte [simp]: "VPres_of_nat (unat (of_nat (VPres_value v) :: 8 word)) = Some v"
  by (cases v) (simp_all add: VPres_of_nat_def)

lemma HPres_byte [simp]: "HPres_of_nat (unat (of_nat (HPres_value v) :: 8 word)) = Some v"
  by (cases v) (simp_all add: HPres_of_nat_def)

interpretation gdstextpres_io: stream_codec put_dbGDSTextPres get_dbGDSTextPres "\<lambda>_. True"
  by unfold_locales (simp add: put_dbGDSTextPres_def get_dbGDSTextPres_def uchar.get_put)

section \<open>What an orientation does to the plane\<close>

primrec orient_point :: "dbOrientType \<Rightarrow> Point \<Rightarrow> Point" where
  "orient_point R0 p = p"
| "orient_point R90 p = Point_rotate90 p"
| "orient_point R180 p = Point_rotate180 p"
| "orient_point R270 p = Point_rotate270 p"
| "orient_point MY p = Point_setX p (- px p)"
| "orient_point MYR90 p = Point_rotate90 (Point_setX p (- px p))"
| "orient_point MX p = Point_setY p (- py p)"
| "orient_point MXR90 p = Point_rotate90 (Point_setY p (- py p))"

lemma orient_point_inj: "(\<forall>p. orient_point v p = orient_point w p) \<longleftrightarrow> v = w"
proof
  assume "\<forall>p. orient_point v p = orient_point w p"
  then have "orient_point v (Point 1 2) = orient_point w (Point 1 2)" by blast
  then show "v = w" by (cases v; cases w) (simp_all add: Point_defs)
qed simp

text \<open>
  \<open>flipX\<close> mirrors the placed shape about the x axis and \<open>flipY\<close> about the y axis: the flip acts after
  the orientation.
\<close>

lemma orient_point_flipX: "orient_point (dbOrientType_flipX v) p = Point (px (orient_point v p)) (- py (orient_point v p))"
  by (cases v) (simp_all add: Point_defs)

lemma orient_point_flipY: "orient_point (dbOrientType_flipY v) p = Point (- px (orient_point v p)) (py (orient_point v p))"
  by (cases v) (simp_all add: Point_defs)

lemma isRightAngleRotation_swaps:
  "dbOrientType_isRightAngleRotation v \<longleftrightarrow> px (orient_point v (Point 1 0)) = 0"
  by (cases v) (simp_all add: Point_defs)

end
