(* ===== verification/GeomLaws.thy ===== *)
theory GeomLaws
  imports Geom DbStream
begin

text \<open>
  What the boxes of \<^verbatim>\<open>odb/geom.h\<close> promise. A box denotes the set of grid points it covers
  (\<open>Rect_pts\<close>, \<open>Cuboid_pts\<close>); the locale \<open>box_algebra\<close> states the contract of the box operations
  against that denotation (containment is inclusion, \<open>merge\<close> is the least box above both,
  \<open>intersects\<close> and \<open>intersect\<close> are the meeting and the intersection of the sets) and derives the
  algebra from it. Rectangles and cuboids are its two interpretations. The theory closes with the
  machine bounds and the stream operators of the geometry classes (\<^verbatim>\<open>dbStream.cpp\<close>).
\<close>

section \<open>The contract of a box\<close>

locale box_algebra =
  fixes pts :: "'b \<Rightarrow> 'p set"
    and inverted :: "'b \<Rightarrow> bool"
    and contains :: "'b \<Rightarrow> 'b \<Rightarrow> bool"
    and merge :: "'b \<Rightarrow> 'b \<Rightarrow> 'b"
    and intersects :: "'b \<Rightarrow> 'b \<Rightarrow> bool"
    and intersect :: "'b \<Rightarrow> 'b \<Rightarrow> 'b option"
  assumes pts_empty_iff: "pts b = {} \<longleftrightarrow> inverted b"
    and contains_pts: "\<not> inverted b \<Longrightarrow> contains a b \<longleftrightarrow> pts b \<subseteq> pts a"
    and contains_refl: "contains a a"
    and contains_antisym: "contains a b \<Longrightarrow> contains b a \<Longrightarrow> a = b"
    and contains_trans: "contains a b \<Longrightarrow> contains b c \<Longrightarrow> contains a c"
    and merge_upper: "contains (merge a b) a" "contains (merge a b) b"
    and merge_least: "contains c a \<Longrightarrow> contains c b \<Longrightarrow> contains c (merge a b)"
    and intersects_pts:
      "\<not> inverted a \<Longrightarrow> \<not> inverted b \<Longrightarrow> intersects a b \<longleftrightarrow> pts a \<inter> pts b \<noteq> {}"
    and intersect_Some: "intersects a b \<Longrightarrow> \<exists>c. intersect a b = Some c \<and> pts c = pts a \<inter> pts b"
    and intersect_None: "\<not> intersects a b \<Longrightarrow> intersect a b = None"
begin

lemma merge_comm: "merge a b = merge b a"
  by (rule contains_antisym) (simp_all add: merge_least merge_upper)

lemma merge_assoc: "merge (merge a b) c = merge a (merge b c)"
  by (rule contains_antisym)
     (meson contains_trans merge_least merge_upper)+

lemma merge_idem: "merge a a = a"
  by (rule contains_antisym) (simp_all add: merge_least merge_upper contains_refl)

lemma merge_contains_iff: "contains c (merge a b) \<longleftrightarrow> contains c a \<and> contains c b"
  by (meson contains_trans merge_least merge_upper)

lemma contains_iff_merge: "contains a b \<longleftrightarrow> merge a b = a"
  by (metis contains_antisym contains_refl merge_least merge_upper)

text \<open>
  Merging a list of boxes onto a start box gives the least box above all of them: the bounding box
  loops of the code.
\<close>

lemma foldl_merge_contains_iff:
  "contains c (foldl (\<lambda>acc x. merge acc (f x)) b xs) \<longleftrightarrow> contains c b \<and> (\<forall>x\<in>set xs. contains c (f x))"
  by (induction xs arbitrary: b) (auto simp: merge_contains_iff)

lemma intersects_comm:
  "\<not> inverted a \<Longrightarrow> \<not> inverted b \<Longrightarrow> intersects a b = intersects b a"
  by (simp add: intersects_pts Int_commute)

lemma intersect_inside:
  assumes "intersect a b = Some c" and "\<not> inverted a" and "\<not> inverted b"
  shows "pts c = pts a \<inter> pts b" and "\<not> inverted c" and "contains a c" and "contains b c"
proof -
  from assms(1) have i: "intersects a b" using intersect_None by fastforce
  with assms(1) show p: "pts c = pts a \<inter> pts b" using intersect_Some by fastforce
  have "pts c \<noteq> {}" using i p assms by (simp add: intersects_pts)
  then show v: "\<not> inverted c" by (simp add: pts_empty_iff)
  then show "contains a c" "contains b c" by (simp_all add: contains_pts p)
qed

end

section \<open>Rectangles\<close>

definition Rect_pts :: "Rect \<Rightarrow> Point set" where
  "Rect_pts r = {p. Rect_intersects_pt r p}"

lemma Rect_corners: "\<not> Rect_isInverted b \<Longrightarrow> Rect_ll b \<in> Rect_pts b \<and> Rect_ur b \<in> Rect_pts b"
  by (auto simp: Rect_pts_def Rect_defs)

lemma Rect_contains_pts:
  assumes "\<not> Rect_isInverted b"
  shows "Rect_contains a b \<longleftrightarrow> Rect_pts b \<subseteq> Rect_pts a"
proof
  assume "Rect_pts b \<subseteq> Rect_pts a"
  with Rect_corners [OF assms] have "Rect_ll b \<in> Rect_pts a" "Rect_ur b \<in> Rect_pts a"
    by blast+
  then show "Rect_contains a b" by (auto simp: Rect_pts_def Rect_defs)
qed (auto simp: Rect_pts_def Rect_defs)

interpretation rect: box_algebra Rect_pts Rect_isInverted Rect_contains Rect_merge
  Rect_intersects Rect_intersect
proof unfold_locales
  fix a b :: Rect
  show "Rect_pts b = {} \<longleftrightarrow> Rect_isInverted b"
  proof
    assume "Rect_pts b = {}"
    then have "Rect_ll b \<notin> Rect_pts b" by simp
    then show "Rect_isInverted b" by (auto simp: Rect_pts_def Rect_defs)
  qed (auto simp: Rect_pts_def Rect_defs)
  show "Rect_intersects a b \<longleftrightarrow> Rect_pts a \<inter> Rect_pts b \<noteq> {}"
    if "\<not> Rect_isInverted a" "\<not> Rect_isInverted b"
  proof
    assume "Rect_intersects a b"
    with that have "Point (max (rect_xlo a) (rect_xlo b)) (max (rect_ylo a) (rect_ylo b))
        \<in> Rect_pts a \<inter> Rect_pts b"
      by (auto simp: Rect_pts_def Rect_defs)
    then show "Rect_pts a \<inter> Rect_pts b \<noteq> {}" by blast
  qed (auto simp: Rect_pts_def Rect_defs)
  show "\<exists>c. Rect_intersect a b = Some c \<and> Rect_pts c = Rect_pts a \<inter> Rect_pts b"
    if "Rect_intersects a b"
    using that by (auto simp: Rect_intersect_def Rect_pts_def Rect_intersects_pt_def)
  show "Rect_contains a b \<longleftrightarrow> Rect_pts b \<subseteq> Rect_pts a" if "\<not> Rect_isInverted b"
    using that by (rule Rect_contains_pts)
qed (auto simp: Rect_contains_def Rect_merge_def Rect_intersect_def)

section \<open>Cuboids\<close>

definition Cuboid_pts :: "Cuboid \<Rightarrow> Point3D set" where
  "Cuboid_pts c = {p. Cuboid_intersects_pt c p}"

lemma Cuboid_corners: "\<not> Cuboid_isInverted b \<Longrightarrow> Cuboid_lll b \<in> Cuboid_pts b \<and> Cuboid_uur b \<in> Cuboid_pts b"
  by (auto simp: Cuboid_pts_def Cuboid_defs)

lemma Cuboid_contains_pts:
  assumes "\<not> Cuboid_isInverted b"
  shows "Cuboid_contains a b \<longleftrightarrow> Cuboid_pts b \<subseteq> Cuboid_pts a"
proof
  assume "Cuboid_pts b \<subseteq> Cuboid_pts a"
  with Cuboid_corners [OF assms] have "Cuboid_lll b \<in> Cuboid_pts a" "Cuboid_uur b \<in> Cuboid_pts a"
    by blast+
  then show "Cuboid_contains a b" by (auto simp: Cuboid_pts_def Cuboid_defs)
qed (auto simp: Cuboid_pts_def Cuboid_defs)

interpretation cuboid: box_algebra Cuboid_pts Cuboid_isInverted Cuboid_contains Cuboid_merge
  Cuboid_intersects Cuboid_intersect
proof unfold_locales
  fix a b :: Cuboid
  show "Cuboid_pts b = {} \<longleftrightarrow> Cuboid_isInverted b"
  proof
    assume "Cuboid_pts b = {}"
    then have "Cuboid_lll b \<notin> Cuboid_pts b" by simp
    then show "Cuboid_isInverted b" by (auto simp: Cuboid_pts_def Cuboid_defs)
  qed (auto simp: Cuboid_pts_def Cuboid_defs)
  show "Cuboid_intersects a b \<longleftrightarrow> Cuboid_pts a \<inter> Cuboid_pts b \<noteq> {}"
    if "\<not> Cuboid_isInverted a" "\<not> Cuboid_isInverted b"
  proof
    assume "Cuboid_intersects a b"
    with that have "Point3D (max (cub_xlo a) (cub_xlo b)) (max (cub_ylo a) (cub_ylo b))
        (max (cub_zlo a) (cub_zlo b)) \<in> Cuboid_pts a \<inter> Cuboid_pts b"
      by (auto simp: Cuboid_pts_def Cuboid_defs)
    then show "Cuboid_pts a \<inter> Cuboid_pts b \<noteq> {}" by blast
  qed (auto simp: Cuboid_pts_def Cuboid_defs)
  show "\<exists>c. Cuboid_intersect a b = Some c \<and> Cuboid_pts c = Cuboid_pts a \<inter> Cuboid_pts b"
    if "Cuboid_intersects a b"
    using that by (auto simp: Cuboid_intersect_def Cuboid_pts_def Cuboid_intersects_pt_def)
  show "Cuboid_contains a b \<longleftrightarrow> Cuboid_pts b \<subseteq> Cuboid_pts a" if "\<not> Cuboid_isInverted b"
    using that by (rule Cuboid_contains_pts)
qed (auto simp: Cuboid_contains_def Cuboid_merge_def Cuboid_intersect_def)

text \<open>
  \<open>overlaps\<close> is about interiors. On the grid the interior of a box one unit thick holds no point, so
  the interior is the open box in real space; boxes with positive extent overlap exactly when their
  interiors meet.
\<close>

definition Cuboid_interior :: "Cuboid \<Rightarrow> (real \<times> real \<times> real) set" where
  "Cuboid_interior c = {(x, y, z).
     real_of_int (cub_xlo c) < x \<and> x < real_of_int (cub_xhi c) \<and>
     real_of_int (cub_ylo c) < y \<and> y < real_of_int (cub_yhi c) \<and>
     real_of_int (cub_zlo c) < z \<and> z < real_of_int (cub_zhi c)}"

definition Cuboid_solid :: "Cuboid \<Rightarrow> bool" where
  "Cuboid_solid c \<longleftrightarrow> cub_xlo c < cub_xhi c \<and> cub_ylo c < cub_yhi c \<and> cub_zlo c < cub_zhi c"

lemma open_intervals_meet:
  assumes "(a :: int) < b" and "c < d"
  shows "(a < d \<and> c < b) \<longleftrightarrow>
     (\<exists>x. real_of_int a < x \<and> x < real_of_int b \<and> real_of_int c < x \<and> x < real_of_int d)"
proof
  assume "a < d \<and> c < b"
  with assms have "real_of_int (max a c) < real_of_int (min b d)"
    by (auto simp: max_def min_def)
  then obtain x where "real_of_int (max a c) < x" "x < real_of_int (min b d)"
    using dense by blast
  then have "real_of_int a < x \<and> x < real_of_int b \<and> real_of_int c < x \<and> x < real_of_int d"
    by (simp add: of_int_max of_int_min)
  then show "\<exists>x. real_of_int a < x \<and> x < real_of_int b \<and> real_of_int c < x \<and> x < real_of_int d"
    by blast
qed auto

lemma Cuboid_overlaps_interior:
  assumes "Cuboid_solid a" and "Cuboid_solid b"
  shows "Cuboid_overlaps a b \<longleftrightarrow> Cuboid_interior a \<inter> Cuboid_interior b \<noteq> {}"
proof -
  have "Cuboid_overlaps a b \<longleftrightarrow>
      (cub_xlo a < cub_xhi b \<and> cub_xlo b < cub_xhi a) \<and>
      (cub_ylo a < cub_yhi b \<and> cub_ylo b < cub_yhi a) \<and>
      (cub_zlo a < cub_zhi b \<and> cub_zlo b < cub_zhi a)"
    by (auto simp: Cuboid_overlaps_def)
  also have "\<dots> \<longleftrightarrow> Cuboid_interior a \<inter> Cuboid_interior b \<noteq> {}"
    using assms by (auto simp: Cuboid_solid_def open_intervals_meet Cuboid_interior_def)
  finally show ?thesis .
qed

section \<open>Distances\<close>

lemma clamp_eq: "lo \<le> hi \<Longrightarrow> clamp v lo hi = min (max v lo) hi"
  by (auto simp: clamp_def)

lemma clamp_nearest: "(lo :: int) \<le> x \<Longrightarrow> x \<le> hi \<Longrightarrow> \<bar>v - min (max v lo) hi\<bar> \<le> \<bar>v - x\<bar>"
  by (auto simp: min_def max_def)

lemma Rect_closestPtInside_in:
  "\<not> Rect_isInverted r \<Longrightarrow> Rect_closestPtInside r p \<in> Rect_pts r"
  by (auto simp: Rect_pts_def Rect_closestPtInside_def Rect_intersects_pt_def Rect_isInverted_def)

lemma Rect_closestPtInside_nearest:
  assumes "q \<in> Rect_pts r"
  shows "Point_manhattanDistance (Rect_closestPtInside r p) p \<le> Point_manhattanDistance q p"
  using assms clamp_nearest [of "rect_xlo r" "px q" "rect_xhi r" "px p"]
    clamp_nearest [of "rect_ylo r" "py q" "rect_yhi r" "py p"]
  by (simp add: Rect_pts_def Rect_intersects_pt_def Point_manhattanDistance_def
      Rect_closestPtInside_def)

lemma manhattanDistance_closest:
  "\<not> Rect_isInverted r \<Longrightarrow>
     manhattanDistance r p = Point_manhattanDistance (Rect_closestPtInside r p) p"
  by (simp add: manhattanDistance_def clamp_eq Rect_isInverted_def Point_manhattanDistance_def
      Rect_closestPtInside_def Let_def)

section \<open>Machine bounds\<close>

text \<open>Half the range of \<^verbatim>\<open>int\<close>: coordinates whose sums and differences are still \<^verbatim>\<open>int\<close>s.\<close>

definition half_int32 :: "int \<Rightarrow> bool" where
  "half_int32 x \<longleftrightarrow> - (2 ^ 30) \<le> x \<and> x < 2 ^ 30"

definition Rect_half :: "Rect \<Rightarrow> bool" where
  "Rect_half r \<longleftrightarrow> half_int32 (rect_xlo r) \<and> half_int32 (rect_ylo r) \<and>
     half_int32 (rect_xhi r) \<and> half_int32 (rect_yhi r)"

definition Cuboid_half :: "Cuboid \<Rightarrow> bool" where
  "Cuboid_half c \<longleftrightarrow> half_int32 (cub_xlo c) \<and> half_int32 (cub_ylo c) \<and> half_int32 (cub_zlo c) \<and>
     half_int32 (cub_xhi c) \<and> half_int32 (cub_yhi c) \<and> half_int32 (cub_zhi c)"

lemma half_sum_diff:
  "half_int32 x \<Longrightarrow> half_int32 y \<Longrightarrow> fits_int32 (x + y) \<and> fits_int32 (x - y) \<and> \<bar>x - y\<bar> < 2 ^ 31"
  by (auto simp: half_int32_def fits_int32_iff)

lemma abs_mult_bound:
  assumes "\<bar>a\<bar> \<le> m" and "\<bar>b\<bar> \<le> n"
  shows "\<bar>a * b :: int\<bar> \<le> m * n"
  using assms by (simp add: abs_mult mult_mono')

lemma Rect_area_fits:
  assumes "Rect_half r"
  shows "fits_int32 (Rect_dx r)" and "fits_int32 (Rect_dy r)" and "fits_int64 (Rect_area r)"
    and "fits_int64 (Rect_margin r)"
proof -
  from assms have d: "\<bar>Rect_dx r\<bar> \<le> 2 ^ 31 - 1" "\<bar>Rect_dy r\<bar> \<le> 2 ^ 31 - 1"
    and "fits_int32 (Rect_dx r)" "fits_int32 (Rect_dy r)"
    by (auto simp: Rect_half_def half_int32_def Rect_dx_def Rect_dy_def fits_int32_iff)
  then show "fits_int32 (Rect_dx r)" and "fits_int32 (Rect_dy r)" by blast+
  from abs_mult_bound [OF d] show "fits_int64 (Rect_area r)"
    by (simp add: Rect_area_def fits_int64_iff abs_le_iff)
  from d show "fits_int64 (Rect_margin r)"
    by (auto simp: Rect_margin_def Let_def fits_int64_iff abs_le_iff)
qed

lemma Cuboid_volume_bound:
  assumes "\<bar>Cuboid_dx c\<bar> < 2 ^ 21" and "\<bar>Cuboid_dy c\<bar> < 2 ^ 21" and "\<bar>Cuboid_dz c\<bar> < 2 ^ 21"
  shows "fits_int64 (Cuboid_volume c)"
proof -
  have "\<bar>Cuboid_dx c * Cuboid_dy c\<bar> \<le> (2 ^ 21 - 1) * (2 ^ 21 - 1)"
    by (rule abs_mult_bound) (use assms in simp_all)
  moreover have "\<bar>Cuboid_dz c\<bar> \<le> 2 ^ 21 - 1" using assms by simp
  ultimately have "\<bar>Cuboid_volume c\<bar> \<le> ((2 ^ 21 - 1) * (2 ^ 21 - 1)) * (2 ^ 21 - 1)"
    unfolding Cuboid_volume_def by (rule abs_mult_bound)
  then show ?thesis by (simp add: fits_int64_iff abs_le_iff)
qed

section \<open>Bounding boxes of point lists\<close>

definition Point_fits :: "Point \<Rightarrow> bool" where
  "Point_fits p \<longleftrightarrow> fits_int32 (px p) \<and> fits_int32 (py p)"

lemma Rect_contains_point: "Rect_contains r (Rect_of_points p p) \<longleftrightarrow> p \<in> Rect_pts r"
  by (auto simp: Rect_pts_def Rect_defs)

lemma Rect_merge_mergeInit:
  "Point_fits p \<Longrightarrow> Rect_merge Rect_mergeInit (Rect_of_points p p) = Rect_of_points p p"
  by (auto simp: Rect_defs Point_fits_def fits_int32_def)

lemma Polygon_enclosing_Cons:
  "Point_fits p \<Longrightarrow> Polygon_getEnclosingRect \<lparr>poly_points = p # ps\<rparr> =
     foldl (\<lambda>rect pt. Rect_merge rect (Rect_of_points pt pt)) (Rect_of_points p p) ps"
  by (simp add: Polygon_getEnclosingRect_def Rect_merge_mergeInit)

lemma Polygon_enclosing_least:
  assumes "\<forall>p\<in>set (poly_points poly). Point_fits p" and "poly_points poly \<noteq> []"
  shows "Rect_contains r (Polygon_getEnclosingRect poly) \<longleftrightarrow> set (poly_points poly) \<subseteq> Rect_pts r"
proof -
  obtain p ps where ps: "poly = \<lparr>poly_points = p # ps\<rparr>"
    using assms(2) by (cases poly) (auto simp: neq_Nil_conv)
  with assms(1) have "Point_fits p" by simp
  then show ?thesis
    by (simp add: ps Polygon_enclosing_Cons rect.foldl_merge_contains_iff Rect_contains_point
        subset_code(1))
qed

section \<open>Stream operators\<close>

definition put_Rect :: "Rect \<Rightarrow> byte list" where
  "put_Rect r = put_int (rect_xlo r) @ put_int (rect_ylo r) @ put_int (rect_xhi r) @ put_int (rect_yhi r)"

definition get_Rect :: "Rect reader" where
  "get_Rect s = do {
     (xlo, s) \<leftarrow> get_int s; (ylo, s) \<leftarrow> get_int s; (xhi, s) \<leftarrow> get_int s; (yhi, s) \<leftarrow> get_int s;
     Some (\<lparr>rect_xlo = xlo, rect_ylo = ylo, rect_xhi = xhi, rect_yhi = yhi\<rparr>, s) }"

definition put_Point :: "Point \<Rightarrow> byte list" where
  "put_Point p = put_int (px p) @ put_int (py p)"

definition get_Point :: "Point reader" where
  "get_Point s = do { (x, s) \<leftarrow> get_int s; (y, s) \<leftarrow> get_int s; Some (Point x y, s) }"

definition put_Point3D :: "Point3D \<Rightarrow> byte list" where
  "put_Point3D p = put_int (p3x p) @ put_int (p3y p) @ put_int (p3z p)"

definition get_Point3D :: "Point3D reader" where
  "get_Point3D s = do {
     (x, s) \<leftarrow> get_int s; (y, s) \<leftarrow> get_int s; (z, s) \<leftarrow> get_int s; Some (Point3D x y z, s) }"

definition put_Polygon :: "Polygon \<Rightarrow> byte list" where
  "put_Polygon p = put_vector put_Point (poly_points p)"

definition get_Polygon :: "Polygon reader" where
  "get_Polygon s = do { (ps, s) \<leftarrow> get_vector get_Point s; Some (\<lparr>poly_points = ps\<rparr>, s) }"

definition put_Line :: "Line \<Rightarrow> byte list" where
  "put_Line l = put_Point (line_pt0 l) @ put_Point (line_pt1 l)"

definition get_Line :: "Line reader" where
  "get_Line s = do {
     (p0, s) \<leftarrow> get_Point s; (p1, s) \<leftarrow> get_Point s; Some (\<lparr>line_pt0 = p0, line_pt1 = p1\<rparr>, s) }"

definition put_Cuboid :: "Cuboid \<Rightarrow> byte list" where
  "put_Cuboid c =
     put_int (cub_xlo c) @ put_int (cub_ylo c) @ put_int (cub_zlo c) @
     put_int (cub_xhi c) @ put_int (cub_yhi c) @ put_int (cub_zhi c)"

definition get_Cuboid :: "Cuboid reader" where
  "get_Cuboid s = do {
     (xlo, s) \<leftarrow> get_int s; (ylo, s) \<leftarrow> get_int s; (zlo, s) \<leftarrow> get_int s;
     (xhi, s) \<leftarrow> get_int s; (yhi, s) \<leftarrow> get_int s; (zhi, s) \<leftarrow> get_int s;
     Some (\<lparr>cub_xlo = xlo, cub_ylo = ylo, cub_zlo = zlo,
            cub_xhi = xhi, cub_yhi = yhi, cub_zhi = zhi\<rparr>, s) }"

definition put_Oct :: "Oct \<Rightarrow> byte list" where
  "put_Oct oct = put_Point (oct_center_high oct) @ put_Point (oct_center_low oct) @ put_int (oct_A oct)"

definition get_Oct :: "Oct reader" where
  "get_Oct s = do {
     (h, s) \<leftarrow> get_Point s; (l, s) \<leftarrow> get_Point s; (a, s) \<leftarrow> get_int s;
     Some (\<lparr>oct_center_high = h, oct_center_low = l, oct_A = a\<rparr>, s) }"

definition Rect_fits :: "Rect \<Rightarrow> bool" where
  "Rect_fits r \<longleftrightarrow> fits_int32 (rect_xlo r) \<and> fits_int32 (rect_ylo r) \<and>
     fits_int32 (rect_xhi r) \<and> fits_int32 (rect_yhi r)"

definition Point3D_fits :: "Point3D \<Rightarrow> bool" where
  "Point3D_fits p \<longleftrightarrow> fits_int32 (p3x p) \<and> fits_int32 (p3y p) \<and> fits_int32 (p3z p)"

definition Cuboid_fits :: "Cuboid \<Rightarrow> bool" where
  "Cuboid_fits c \<longleftrightarrow> fits_int32 (cub_xlo c) \<and> fits_int32 (cub_ylo c) \<and> fits_int32 (cub_zlo c) \<and>
     fits_int32 (cub_xhi c) \<and> fits_int32 (cub_yhi c) \<and> fits_int32 (cub_zhi c)"

interpretation rect_io: stream_codec put_Rect get_Rect Rect_fits
  by unfold_locales (simp add: put_Rect_def get_Rect_def Rect_fits_def int_get_put)

interpretation point_io: stream_codec put_Point get_Point Point_fits
  by unfold_locales (simp add: put_Point_def get_Point_def Point_fits_def int_get_put)

interpretation point3d_io: stream_codec put_Point3D get_Point3D Point3D_fits
  by unfold_locales (simp add: put_Point3D_def get_Point3D_def Point3D_fits_def int_get_put)

interpretation polygon_io: stream_codec put_Polygon get_Polygon
  "\<lambda>p. list_all Point_fits (poly_points p) \<and> length (poly_points p) < 2 ^ 32"
  by unfold_locales (simp add: put_Polygon_def get_Polygon_def point_io.get_vector_put)

interpretation line_io: stream_codec put_Line get_Line
  "\<lambda>l. Point_fits (line_pt0 l) \<and> Point_fits (line_pt1 l)"
  by unfold_locales (simp add: put_Line_def get_Line_def point_io.get_put)

interpretation cuboid_io: stream_codec put_Cuboid get_Cuboid Cuboid_fits
  by unfold_locales (simp add: put_Cuboid_def get_Cuboid_def Cuboid_fits_def int_get_put)

interpretation oct_io: stream_codec put_Oct get_Oct
  "\<lambda>oct. Point_fits (oct_center_high oct) \<and> Point_fits (oct_center_low oct) \<and> fits_int32 (oct_A oct)"
  by unfold_locales (simp add: put_Oct_def get_Oct_def point_io.get_put int_get_put)

end
