(* ===== verification/DbTransform.thy ===== *)
theory DbTransform
  imports DbOrient GeomLaws
begin

text \<open>
  Placement transforms (\<^verbatim>\<open>odb/dbTransform.h\<close>, \<^verbatim>\<open>dbTransform.cpp\<close>): a planar
  orientation, a flip of the z axis and an offset. \<open>concat\<close> composes through the 8 by 8 table
  \<open>orientMul\<close>, \<open>invert\<close> through a hand-written case distinction. The locale \<open>transform_group\<close> is what
  the rest of the program relies on: transforms act on points, faithfully, \<open>concat\<close> is composition
  and \<open>invert\<close> undoes. The group laws follow inside it; the interpretation at the end of the second
  section checks all 64 entries of the table and the eight cases of \<open>invert\<close>.

  \<^verbatim>\<open>invert\<close> throws for a value outside the enumeration, which the datatype does not have.
\<close>

section \<open>The class\<close>

record dbTransform =
  tr_orient :: dbOrientType
  tr_offset :: Point3D
  tr_mirror_z :: bool

definition dbTransform_default :: dbTransform where
  "dbTransform_default = \<lparr>tr_orient = R0, tr_offset = Point3D 0 0 0, tr_mirror_z = False\<rparr>"

definition dbTransform_of_Point :: "Point \<Rightarrow> dbTransform" where
  "dbTransform_of_Point offset = dbTransform_default\<lparr>tr_offset := Point3D (px offset) (py offset) 0\<rparr>"

definition dbTransform_of_Point3D :: "Point3D \<Rightarrow> dbTransform" where
  "dbTransform_of_Point3D offset = dbTransform_default\<lparr>tr_offset := offset\<rparr>"

definition dbTransform_of_orient :: "dbOrientType \<Rightarrow> dbTransform" where
  "dbTransform_of_orient orient = dbTransform_default\<lparr>tr_orient := orient\<rparr>"

definition dbTransform_of_orient3D :: "dbOrientType3D \<Rightarrow> dbTransform" where
  "dbTransform_of_orient3D orient =
     dbTransform_default\<lparr>tr_orient := dbOrientType3D_getOrientType2D orient,
                         tr_mirror_z := dbOrientType3D_isMirrorZ orient\<rparr>"

definition mk_dbTransform :: "dbOrientType \<Rightarrow> Point \<Rightarrow> dbTransform" where
  "mk_dbTransform orient offset =
     \<lparr>tr_orient = orient, tr_offset = Point3D (px offset) (py offset) 0, tr_mirror_z = False\<rparr>"

definition mk_dbTransform3D :: "dbOrientType3D \<Rightarrow> Point3D \<Rightarrow> dbTransform" where
  "mk_dbTransform3D orient offset =
     \<lparr>tr_orient = dbOrientType3D_getOrientType2D orient, tr_offset = offset,
      tr_mirror_z = dbOrientType3D_isMirrorZ orient\<rparr>"

definition dbTransform_setOrient :: "dbTransform \<Rightarrow> dbOrientType \<Rightarrow> dbTransform" where
  "dbTransform_setOrient t orient = t\<lparr>tr_orient := orient\<rparr>"

definition dbTransform_setOrient3D :: "dbTransform \<Rightarrow> dbOrientType3D \<Rightarrow> dbTransform" where
  "dbTransform_setOrient3D t orient =
     t\<lparr>tr_orient := dbOrientType3D_getOrientType2D orient, tr_mirror_z := dbOrientType3D_isMirrorZ orient\<rparr>"

definition dbTransform_setOffset :: "dbTransform \<Rightarrow> Point \<Rightarrow> dbTransform" where
  "dbTransform_setOffset t offset = t\<lparr>tr_offset := Point3D (px offset) (py offset) 0\<rparr>"

definition dbTransform_setOffset3D :: "dbTransform \<Rightarrow> Point3D \<Rightarrow> dbTransform" where
  "dbTransform_setOffset3D t offset = t\<lparr>tr_offset := offset\<rparr>"

definition dbTransform_setTransform :: "dbTransform \<Rightarrow> dbOrientType \<Rightarrow> Point \<Rightarrow> dbTransform" where
  "dbTransform_setTransform t orient offset =
     t\<lparr>tr_orient := orient, tr_offset := Point3D (px offset) (py offset) 0\<rparr>"

definition dbTransform_getOffset :: "dbTransform \<Rightarrow> Point" where
  "dbTransform_getOffset t = Point (p3x (tr_offset t)) (p3y (tr_offset t))"

definition orientMul :: "dbOrientType list list" where
  "orientMul =
    [[R0, R90, R180, R270, MY, MYR90, MX, MXR90],
     [R90, R180, R270, R0, MXR90, MY, MYR90, MX],
     [R180, R270, R0, R90, MX, MXR90, MY, MYR90],
     [R270, R0, R90, R180, MYR90, MX, MXR90, MY],
     [MY, MYR90, MX, MXR90, R0, R90, R180, R270],
     [MYR90, MX, MXR90, MY, R270, R0, R90, R180],
     [MX, MXR90, MY, MYR90, R180, R270, R0, R90],
     [MXR90, MY, MYR90, MX, R90, R180, R270, R0]]"

definition dbTransform_invert :: "dbTransform \<Rightarrow> dbTransform" where
  "dbTransform_invert t =
     (let offset = Point (- p3x (tr_offset t)) (- p3y (tr_offset t));
          (orient, offset) =
            (case tr_orient t of
               R0 \<Rightarrow> (R0, offset)
             | R90 \<Rightarrow> (R270, Point_rotate270 offset)
             | R180 \<Rightarrow> (R180, Point_rotate180 offset)
             | R270 \<Rightarrow> (R90, Point_rotate90 offset)
             | MY \<Rightarrow> (MY, Point_setX offset (- px offset))
             | MYR90 \<Rightarrow> (MYR90, Point_rotate90 (Point_setX offset (- px offset)))
             | MX \<Rightarrow> (MX, Point_setY offset (- py offset))
             | MXR90 \<Rightarrow> (MXR90, Point_rotate90 (Point_setY offset (- py offset))))
      in \<lparr>tr_orient = orient,
          tr_offset = Point3D (px offset) (py offset)
            (if tr_mirror_z t then p3z (tr_offset t) else - p3z (tr_offset t)),
          tr_mirror_z = tr_mirror_z t\<rparr>)"

definition dbTransform_apply_Point :: "dbTransform \<Rightarrow> Point \<Rightarrow> Point" where
  "dbTransform_apply_Point t p =
     (let p = (case tr_orient t of
               R0 \<Rightarrow> p
             | R90 \<Rightarrow> Point_rotate90 p
             | R180 \<Rightarrow> Point_rotate180 p
             | R270 \<Rightarrow> Point_rotate270 p
             | MY \<Rightarrow> Point_setX p (- px p)
             | MYR90 \<Rightarrow> Point_rotate90 (Point_setX p (- px p))
             | MX \<Rightarrow> Point_setY p (- py p)
             | MXR90 \<Rightarrow> Point_rotate90 (Point_setY p (- py p)))
      in Point_addY (Point_addX p (p3x (tr_offset t))) (p3y (tr_offset t)))"

definition dbTransform_apply :: "dbTransform \<Rightarrow> Point3D \<Rightarrow> Point3D" where
  "dbTransform_apply t p =
     (let p2d = dbTransform_apply_Point t (Point (p3x p) (p3y p));
          z = (if tr_mirror_z t then - p3z p else p3z p)
      in Point3D (px p2d) (py p2d) (z + p3z (tr_offset t)))"

definition dbTransform_apply_Rect :: "dbTransform \<Rightarrow> Rect \<Rightarrow> Rect" where
  "dbTransform_apply_Rect t r =
     (let ll = dbTransform_apply_Point t (Rect_ll r); ur = dbTransform_apply_Point t (Rect_ur r)
      in Rect_init (px ll) (py ll) (px ur) (py ur))"

definition dbTransform_apply_Cuboid :: "dbTransform \<Rightarrow> Cuboid \<Rightarrow> Cuboid" where
  "dbTransform_apply_Cuboid t c =
     (let lll = dbTransform_apply t (Cuboid_lll c); uur = dbTransform_apply t (Cuboid_uur c)
      in Cuboid_init (p3x lll) (p3y lll) (p3z lll) (p3x uur) (p3y uur) (p3z uur))"

definition dbTransform_apply_Polygon ::
    "(Point list \<Rightarrow> Point list) \<Rightarrow> dbTransform \<Rightarrow> Polygon \<Rightarrow> Polygon" where
  "dbTransform_apply_Polygon correct t p =
     Polygon_setPoints correct (map (dbTransform_apply_Point t) (poly_points p))"

definition dbTransform_concat :: "dbTransform \<Rightarrow> dbTransform \<Rightarrow> dbTransform" where
  "dbTransform_concat this t =
     \<lparr>tr_orient = orientMul ! dbOrientType_value (tr_orient this) ! dbOrientType_value (tr_orient t),
      tr_offset = dbTransform_apply t (tr_offset this),
      tr_mirror_z = (tr_mirror_z this \<noteq> tr_mirror_z t)\<rparr>"

text \<open>
  The stream operators. The reader fills the orientation and the offset of the transform it is given
  and leaves the flip as it was.
\<close>

definition put_dbTransform :: "dbTransform \<Rightarrow> byte list" where
  "put_dbTransform t = put_int (int (dbOrientType_value (tr_orient t))) @ put_Point3D (tr_offset t)"

definition get_dbTransform :: "dbTransform \<Rightarrow> dbTransform reader" where
  "get_dbTransform t s = do {
     (orient, s) \<leftarrow> get_int s;
     v \<leftarrow> (if orient < 0 then None else dbOrientType_of_nat (nat orient));
     (offset, s) \<leftarrow> get_Point3D s;
     Some (t\<lparr>tr_orient := v, tr_offset := offset\<rparr>, s) }"

section \<open>The contract of transforms\<close>

locale transform_group =
  fixes act :: "'t \<Rightarrow> 'p \<Rightarrow> 'p"
    and comp :: "'t \<Rightarrow> 't \<Rightarrow> 't"
    and inv :: "'t \<Rightarrow> 't"
    and unit :: 't
  assumes act_unit: "act unit p = p"
    and act_comp: "act (comp a b) p = act b (act a p)"
    and act_inv: "act (inv a) (act a p) = p"
    and faithful: "(\<And>p. act a p = act b p) \<Longrightarrow> a = b"
begin

lemma comp_assoc: "comp (comp a b) c = comp a (comp b c)"
  by (rule faithful) (simp add: act_comp)

lemma comp_unit: "comp a unit = a" "comp unit a = a"
  by (rule faithful, simp add: act_comp act_unit)+

lemma comp_inv: "comp a (inv a) = unit"
  by (rule faithful) (simp add: act_comp act_inv act_unit)

lemma inv_comp: "comp (inv a) a = unit"
proof -
  have "comp (inv a) a = comp (comp (inv a) a) (comp (inv a) (inv (inv a)))"
    by (simp add: comp_inv comp_unit)
  also have "\<dots> = comp (inv a) (comp (comp a (inv a)) (inv (inv a)))"
    by (simp add: comp_assoc)
  also have "\<dots> = unit" by (simp add: comp_inv comp_unit)
  finally show ?thesis .
qed

lemma act_inv_right: "act a (act (inv a) p) = p"
  using act_comp [of "inv a" a p] by (simp add: inv_comp act_unit)

lemma inv_inv: "inv (inv a) = a"
  by (rule faithful) (metis act_inv act_inv_right)

lemma inv_comp_distrib: "inv (comp a b) = comp (inv b) (inv a)"
  by (rule faithful) (metis act_comp act_inv act_inv_right)

lemma act_image: "act a ` S = {q. act (inv a) q \<in> S}"
  by (auto simp: act_inv image_iff intro: act_inv_right [symmetric])

lemma comp_cancel: "comp a c = comp b c \<longleftrightarrow> a = b"
  by (metis comp_assoc comp_inv comp_unit(1))

text \<open>A chain of placements, innermost first, applied one after the other.\<close>

lemma act_foldl_comp: "act (foldl comp a ts) p = fold act ts (act a p)"
  by (induction ts arbitrary: a) (simp_all add: act_comp)

lemma foldl_comp_split: "foldl comp a ts = comp a (foldl comp unit ts)"
  by (induction ts rule: rev_induct) (simp_all add: comp_unit comp_assoc)

end

section \<open>The model meets the contract\<close>

lemma orientMul_correct:
  "orient_point (orientMul ! dbOrientType_value v ! dbOrientType_value w) p = orient_point w (orient_point v p)"
  by (cases v; cases w) (simp_all add: orientMul_def Point_defs)

lemma apply_Point_orient:
  "dbTransform_apply_Point t p =
     Point (px (orient_point (tr_orient t) p) + p3x (tr_offset t))
           (py (orient_point (tr_orient t) p) + p3y (tr_offset t))"
  by (cases "tr_orient t") (simp_all add: dbTransform_apply_Point_def Point_defs)

lemma orient_point_add:
  "orient_point v (Point (x + a) (y + b)) =
     Point (px (orient_point v (Point x y)) + px (orient_point v (Point a b)))
           (py (orient_point v (Point x y)) + py (orient_point v (Point a b)))"
  by (cases v) (simp_all add: Point_defs)

lemma apply_concat: "dbTransform_apply (dbTransform_concat a b) p = dbTransform_apply b (dbTransform_apply a p)"
proof -
  let ?va = "tr_orient a" and ?vb = "tr_orient b"
  have "orient_point ?vb (orient_point ?va q) =
      orient_point ?vb (Point (px (orient_point ?va q)) (py (orient_point ?va q)))" for q
    by simp
  then show ?thesis
    by (simp add: dbTransform_apply_def dbTransform_concat_def apply_Point_orient
        orientMul_correct orient_point_add Let_def)
qed

lemma apply_invert: "dbTransform_apply (dbTransform_invert t) (dbTransform_apply t p) = p"
  by (cases p; cases "tr_orient t")
     (simp_all add: dbTransform_apply_def dbTransform_invert_def apply_Point_orient Point_defs)

lemma transform_faithful:
  assumes "\<And>p. dbTransform_apply a p = dbTransform_apply b p"
  shows "a = b"
proof -
  have o: "orient_point v (Point 0 0) = Point 0 0" for v
    by (cases v) (simp_all add: Point_defs)
  from assms [of "Point3D 0 0 0"] have off: "tr_offset a = tr_offset b"
    by (cases "tr_offset a"; cases "tr_offset b")
       (simp add: dbTransform_apply_def apply_Point_orient o split: if_splits)
  from assms [of "Point3D 0 0 1"] off have m: "tr_mirror_z a = tr_mirror_z b"
    by (auto simp: dbTransform_apply_def Let_def split: if_splits)
  have "orient_point (tr_orient a) p = orient_point (tr_orient b) p" for p
    using assms [of "Point3D (px p) (py p) 0"] off
    by (simp add: dbTransform_apply_def apply_Point_orient Let_def Point.expand)
  then have "tr_orient a = tr_orient b" using orient_point_inj by blast
  with off m show ?thesis by simp
qed

interpretation tr: transform_group dbTransform_apply dbTransform_concat dbTransform_invert
  dbTransform_default
proof unfold_locales
  show "dbTransform_apply dbTransform_default p = p" for p
    by (cases p) (simp add: dbTransform_apply_def dbTransform_default_def apply_Point_orient)
qed (rule apply_concat apply_invert transform_faithful; assumption?)+

section \<open>Boxes\<close>

text \<open>A box is moved to the box of the moved corners; it covers exactly the moved points.\<close>

lemma apply_Cuboid_mem:
  assumes "\<not> Cuboid_isInverted c"
  shows "dbTransform_apply t p \<in> Cuboid_pts (dbTransform_apply_Cuboid t c) \<longleftrightarrow> p \<in> Cuboid_pts c"
  using assms
  by (cases "tr_orient t"; cases "tr_mirror_z t")
     (auto simp: Cuboid_pts_def Cuboid_intersects_pt_def Cuboid_isInverted_def
       dbTransform_apply_Cuboid_def Cuboid_init_def Cuboid_lll_def Cuboid_uur_def
       dbTransform_apply_def apply_Point_orient Point_defs min_def max_def)

lemma apply_Cuboid_image:
  assumes "\<not> Cuboid_isInverted c"
  shows "Cuboid_pts (dbTransform_apply_Cuboid t c) = dbTransform_apply t ` Cuboid_pts c"
proof -
  have "q \<in> Cuboid_pts (dbTransform_apply_Cuboid t c) \<longleftrightarrow> dbTransform_apply (dbTransform_invert t) q \<in> Cuboid_pts c" for q
    using apply_Cuboid_mem [OF assms, of t "dbTransform_apply (dbTransform_invert t) q"]
    by (simp add: tr.act_inv_right)
  then show ?thesis by (auto simp: tr.act_image)
qed

lemma apply_Cuboid_not_inverted: "\<not> Cuboid_isInverted (dbTransform_apply_Cuboid t c)"
  by (auto simp: dbTransform_apply_Cuboid_def Cuboid_init_def Cuboid_isInverted_def Let_def)

lemma Cuboid_pts_inject:
  assumes "\<not> Cuboid_isInverted a" and "\<not> Cuboid_isInverted b" and "Cuboid_pts a = Cuboid_pts b"
  shows "a = b"
  using assms by (metis Cuboid_contains_pts cuboid.contains_antisym order_refl)

lemma apply_Cuboid_concat:
  assumes "\<not> Cuboid_isInverted c"
  shows "dbTransform_apply_Cuboid (dbTransform_concat a b) c =
         dbTransform_apply_Cuboid b (dbTransform_apply_Cuboid a c)"
  by (rule Cuboid_pts_inject)
     (use assms in \<open>auto simp: apply_Cuboid_not_inverted apply_Cuboid_image tr.act_comp image_image\<close>)

lemma apply_Cuboid_default: "\<not> Cuboid_isInverted c \<Longrightarrow> dbTransform_apply_Cuboid dbTransform_default c = c"
  by (rule Cuboid_pts_inject)
     (auto simp: apply_Cuboid_not_inverted apply_Cuboid_image tr.act_unit)

lemma apply_Cuboid_invert:
  "\<not> Cuboid_isInverted c \<Longrightarrow>
     dbTransform_apply_Cuboid (dbTransform_invert t) (dbTransform_apply_Cuboid t c) = c"
  by (simp add: apply_Cuboid_concat [symmetric] tr.comp_inv apply_Cuboid_default)

text \<open>A right-angle orientation exchanges the two planar extents; nothing else changes a size.\<close>

lemma apply_Cuboid_extents:
  "\<not> Cuboid_isInverted c \<Longrightarrow>
     Cuboid_dx (dbTransform_apply_Cuboid t c) =
       (if dbOrientType_isRightAngleRotation (tr_orient t) then Cuboid_dy c else Cuboid_dx c) \<and>
     Cuboid_dy (dbTransform_apply_Cuboid t c) =
       (if dbOrientType_isRightAngleRotation (tr_orient t) then Cuboid_dx c else Cuboid_dy c) \<and>
     Cuboid_dz (dbTransform_apply_Cuboid t c) = Cuboid_dz c"
  by (cases "tr_orient t"; cases "tr_mirror_z t")
     (auto simp: Cuboid_isInverted_def dbTransform_apply_Cuboid_def Cuboid_init_def Cuboid_lll_def
       Cuboid_uur_def dbTransform_apply_def apply_Point_orient Point_defs min_def max_def
       Cuboid_dx_def Cuboid_dy_def Cuboid_dz_def)

lemma apply_Cuboid_volume:
  "\<not> Cuboid_isInverted c \<Longrightarrow> Cuboid_volume (dbTransform_apply_Cuboid t c) = Cuboid_volume c"
  by (simp add: Cuboid_volume_def apply_Cuboid_extents)

lemma apply_Rect_mem:
  assumes "\<not> Rect_isInverted r"
  shows "dbTransform_apply_Point t p \<in> Rect_pts (dbTransform_apply_Rect t r) \<longleftrightarrow> p \<in> Rect_pts r"
  using assms
  by (cases "tr_orient t")
     (auto simp: Rect_pts_def Rect_intersects_pt_def Rect_isInverted_def dbTransform_apply_Rect_def
       Rect_init_def Rect_ll_def Rect_ur_def apply_Point_orient Point_defs min_def max_def)

lemma apply_Point_lift:
  "dbTransform_apply_Point t p =
     (let q = dbTransform_apply t (Point3D (px p) (py p) 0) in Point (p3x q) (p3y q))"
  by (simp add: dbTransform_apply_def Let_def)

lemma apply_Point_invert:
  "dbTransform_apply_Point t (dbTransform_apply_Point (dbTransform_invert t) p) = p"
  by (cases p; cases "tr_orient t")
     (simp_all add: dbTransform_invert_def apply_Point_orient Point_defs)

lemma apply_Rect_image:
  assumes "\<not> Rect_isInverted r"
  shows "Rect_pts (dbTransform_apply_Rect t r) = dbTransform_apply_Point t ` Rect_pts r"
proof (intro set_eqI iffI)
  fix q
  assume q: "q \<in> Rect_pts (dbTransform_apply_Rect t r)"
  let ?p = "dbTransform_apply_Point (dbTransform_invert t) q"
  have "dbTransform_apply_Point t ?p = q" by (rule apply_Point_invert)
  moreover from this q have "?p \<in> Rect_pts r" using apply_Rect_mem [OF assms, of t ?p] by simp
  ultimately show "q \<in> dbTransform_apply_Point t ` Rect_pts r" by force
qed (auto simp: apply_Rect_mem [OF assms])

section \<open>Streams\<close>

lemma get_dbTransform_put:
  assumes "Point3D_fits (tr_offset t)"
  shows "get_dbTransform u (put_dbTransform t @ rest) = Some (t\<lparr>tr_mirror_z := tr_mirror_z u\<rparr>, rest)"
proof -
  have "fits_int32 (int (dbOrientType_value (tr_orient t)))"
    using dbOrientType_value_less [of "tr_orient t"] by (simp add: fits_int32_iff)
  with assms show ?thesis
    by (simp add: get_dbTransform_def put_dbTransform_def int_get_put point3d_io.get_put)
qed

end
