(* ===== verification/DbShape.thy ===== *)
theory DbShape
  imports DbWire DbTransform GeomLaws
begin

text \<open>
  Shapes (\<^verbatim>\<open>dbShape.h\<close>, \<^verbatim>\<open>dbShape.cpp\<close>), the iterator that makes them from a wire
  (\<^verbatim>\<open>dbWireShapeItr.cpp\<close>), the box of a wire (\<^verbatim>\<open>dbWire.cpp\<close>) and the iterator over the pins of an
  instance (\<^verbatim>\<open>dbITermShapeItr.cpp\<close>).

  An iterator of a \<^verbatim>\<open>dbSet\<close> is the list of what it has still to visit. Both iterators are state machines with
  \<^verbatim>\<open>goto\<close>; each is a turn, and \<open>next\<close> repeats turns.
\<close>

section \<open>Shapes\<close>

datatype dbShape_Type = VIA | TECH_VIA | SEGMENT | TECH_VIA_BOX | VIA_BOX

record dbShape =
  sh_type :: dbShape_Type
  sh_rect :: Rect
  sh_layer :: nat
  sh_via :: nat

definition dbShape_default :: dbShape where
  "dbShape_default = \<lparr>sh_type = dbShape_Type.SEGMENT, sh_rect = Rect_default, sh_layer = 0, sh_via = 0\<rparr>"

definition setVia :: "bool \<Rightarrow> nat \<Rightarrow> Rect \<Rightarrow> dbShape" where
  "setVia tech via r =
     \<lparr>sh_type = (if tech then dbShape_Type.TECH_VIA else dbShape_Type.VIA), sh_rect = r, sh_layer = 0, sh_via = via\<rparr>"

definition setSegment_layer :: "nat \<Rightarrow> Rect \<Rightarrow> dbShape" where
  "setSegment_layer layer r = \<lparr>sh_type = dbShape_Type.SEGMENT, sh_rect = r, sh_layer = layer, sh_via = 0\<rparr>"

definition setViaBox :: "bool \<Rightarrow> nat \<Rightarrow> nat \<Rightarrow> Rect \<Rightarrow> dbShape" where
  "setViaBox tech via layer r =
     \<lparr>sh_type = (if tech then dbShape_Type.TECH_VIA_BOX else dbShape_Type.VIA_BOX),
      sh_rect = r, sh_layer = layer, sh_via = via\<rparr>"

definition setSegmentFromRect :: "int \<Rightarrow> int \<Rightarrow> int \<Rightarrow> int \<Rightarrow> nat \<Rightarrow> dbShape" where
  "setSegmentFromRect x1 y1 x2 y2 layer = setSegment_layer layer (Rect_reset x1 y1 x2 y2)"

definition isVia :: "dbShape \<Rightarrow> bool" where
  "isVia s \<longleftrightarrow> sh_type s = dbShape_Type.VIA \<or> sh_type s = dbShape_Type.TECH_VIA"

definition isSegment :: "dbShape \<Rightarrow> bool" where
  "isSegment s \<longleftrightarrow> sh_type s = dbShape_Type.SEGMENT"

definition isViaBox :: "dbShape \<Rightarrow> bool" where
  "isViaBox s \<longleftrightarrow> sh_type s = dbShape_Type.VIA_BOX \<or> sh_type s = dbShape_Type.TECH_VIA_BOX"

definition shape_getTechVia :: "dbShape \<Rightarrow> nat" where
  "shape_getTechVia s =
     (if sh_type s \<noteq> dbShape_Type.TECH_VIA \<and> sh_type s \<noteq> dbShape_Type.TECH_VIA_BOX then 0 else sh_via s)"

definition shape_getVia :: "dbShape \<Rightarrow> nat" where
  "shape_getVia s = (if sh_type s \<noteq> dbShape_Type.VIA \<and> sh_type s \<noteq> dbShape_Type.VIA_BOX then 0 else sh_via s)"

definition shape_getLength :: "dbShape \<Rightarrow> int" where
  "shape_getLength s = \<bar>Rect_dx (sh_rect s) - Rect_dy (sh_rect s)\<bar>"

text \<open>
  The rectangle of a leg of a path: half a width to both sides of it, and at each end the extension given there
  or the default one.
\<close>

definition setSegment ::
  "bool \<Rightarrow> int \<Rightarrow> int \<Rightarrow> int \<Rightarrow> bool \<Rightarrow> int \<Rightarrow> int \<Rightarrow> int \<Rightarrow> bool \<Rightarrow> int \<Rightarrow> int \<Rightarrow> nat \<Rightarrow> wire_error + dbShape" where
  "setSegment dbg prev_x prev_y prev_ext has_prev_ext cur_x cur_y cur_ext has_cur_ext dw default_ext layer =
     (let pe = (if has_prev_ext then prev_ext else default_ext);
          ce = (if has_cur_ext then cur_ext else default_ext);
          rect = (\<lambda>x1 y1 x2 y2. Inr (setSegment_layer layer (Rect_reset x1 y1 x2 y2)))
      in if cur_x = prev_x then
           if cur_y > prev_y then rect (cur_x - dw) (prev_y - pe) (cur_x + dw) (cur_y + ce)
           else if cur_y < prev_y then rect (cur_x - dw) (cur_y - ce) (cur_x + dw) (prev_y + pe)
           else rect (cur_x - dw) (cur_y - dw) (cur_x + dw) (cur_y + dw)
         else if cur_y = prev_y then
           if cur_x > prev_x then rect (prev_x - pe) (cur_y - dw) (cur_x + ce) (cur_y + dw)
           else if cur_x < prev_x then rect (cur_x - ce) (cur_y - dw) (prev_x + pe) (cur_y + dw)
           else rect (cur_x - dw) (cur_y - dw) (cur_x + dw) (cur_y + dw)
         else and_then (assert_that dbg False) (\<lambda>_. rect 0 0 0 0))"

text \<open>The place of a via: its box against the box of its definition. A shape that is no via leaves x and y as they are.\<close>

definition getViaXY :: "wire_db \<Rightarrow> dbShape \<Rightarrow> int \<times> int \<Rightarrow> wire_error + int \<times> int" where
  "getViaXY db s xy =
     (if isVia s then
        and_then (via_of db (sh_type s = dbShape_Type.TECH_VIA) (sh_via s)) (\<lambda>v.
        case via_bbox v of
          None \<Rightarrow> Inl BadPointer
        | Some b \<Rightarrow> Inr (rect_xlo (sh_rect s) - rect_xlo b, rect_ylo (sh_rect s) - rect_ylo b))
      else Inr xy)"

text \<open>\<open>indet\<close> is what the uninitialised x and y hold when the shape is a via box.\<close>

definition getViaBoxes :: "wire_db \<Rightarrow> int \<times> int \<Rightarrow> dbShape \<Rightarrow> dbShape list \<Rightarrow> wire_error + dbShape list" where
  "getViaBoxes db indet via shapes =
     (let boxes = (\<lambda>tech v. and_then (getViaXY db via indet) (\<lambda>(x, y).
                     and_then (via_of db tech v) (\<lambda>d.
                     Inr (map (\<lambda>(layer, b). setViaBox tech v layer (Rect_moveDelta b x y)) (via_boxes d)))))
      in if shape_getTechVia via \<noteq> 0 then boxes True (shape_getTechVia via)
         else if shape_getVia via \<noteq> 0 then boxes False (shape_getVia via)
         else Inr shapes)"

section \<open>The shapes of a wire\<close>

record dbWireShapeItr =
  si_idx :: nat
  si_prev_x :: int
  si_prev_y :: int
  si_prev_ext :: int
  si_has_prev_ext :: bool
  si_layer :: nat
  si_dw :: int
  si_point_cnt :: nat
  si_shape_id :: nat
  si_has_width :: bool

definition dbWireShapeItr_begin :: dbWireShapeItr where
  "dbWireShapeItr_begin =
     \<lparr>si_idx = 0, si_prev_x = 0, si_prev_y = 0, si_prev_ext = 0, si_has_prev_ext = False, si_layer = 0, si_dw = 0,
      si_point_cnt = 0, si_shape_id = 0, si_has_width = False\<rparr>"

definition si_nextOp :: "wire_code \<Rightarrow> dbWireShapeItr \<Rightarrow> wire_error + 8 word \<times> int \<times> dbWireShapeItr" where
  "si_nextOp w i = and_then (fetch w (si_idx i)) (\<lambda>(opcode, val). Inr (opcode, val, i\<lparr>si_idx := si_idx i + 1\<rparr>))"

definition half_width :: "wire_db \<Rightarrow> nat \<Rightarrow> wire_error + int" where
  "half_width db layer = and_then (dbTech_getLayer db layer) (\<lambda>l. Inr (int (tl_width l div 2)))"

text \<open>Across its direction a layer has its wrong-way width, unless a width was given.\<close>

definition leg_width :: "wire_db \<Rightarrow> dbTechLayerDir \<Rightarrow> dbWireShapeItr \<Rightarrow> wire_error + int" where
  "leg_width db wrong i =
     (if si_has_width i then Inr (si_dw i)
      else and_then (dbTech_getLayer db (si_layer i)) (\<lambda>l.
           Inr (if tl_direction l = wrong then int (tl_wrong_way_width l div 2) else si_dw i)))"

definition leg :: "bool \<Rightarrow> wire_db \<Rightarrow> dbTechLayerDir \<Rightarrow> int \<Rightarrow> int \<Rightarrow> int \<Rightarrow> bool \<Rightarrow> dbWireShapeItr
   \<Rightarrow> wire_error + dbWireShapeItr \<times> dbShape option" where
  "leg dbg db wrong cur_x cur_y cur_ext has_cur_ext i =
     and_then (leg_width db wrong i) (\<lambda>dw.
     and_then (setSegment dbg (si_prev_x i) (si_prev_y i) (si_prev_ext i) (si_has_prev_ext i)
                 cur_x cur_y cur_ext has_cur_ext dw (si_dw i) (si_layer i)) (\<lambda>shape.
     Inr (i\<lparr>si_prev_x := cur_x, si_prev_y := cur_y, si_prev_ext := cur_ext, si_has_prev_ext := has_cur_ext\<rparr>,
          Some shape)))"

definition si_extension ::
  "wire_code \<Rightarrow> 8 word \<Rightarrow> dbWireShapeItr \<Rightarrow> wire_error + int \<times> bool \<times> dbWireShapeItr" where
  "si_extension w opcode i =
     (if opcode AND WOP_EXTENSION \<noteq> 0 then and_then (si_nextOp w i) (\<lambda>(_, ext, i). Inr (ext, True, i))
      else Inr (0, False, i))"

definition si_via ::
  "wire_db \<Rightarrow> bool \<Rightarrow> 8 word \<Rightarrow> int \<Rightarrow> dbWireShapeItr \<Rightarrow> wire_error + dbWireShapeItr \<times> dbShape option" where
  "si_via db tech opcode operand i =
     and_then (via_of db tech (uint32_of_int operand)) (\<lambda>v.
     let layer = (if opcode AND WOP_VIA_EXIT_TOP \<noteq> 0 then via_top v else via_bottom v)
     in and_then (if si_has_width i then Inr (si_dw i) else half_width db layer) (\<lambda>dw.
        let i = i\<lparr>si_layer := layer, si_dw := dw, si_prev_ext := 0, si_has_prev_ext := False\<rparr>
        in Inr (i, case via_bbox v of
                     None \<Rightarrow> None
                   | Some b \<Rightarrow>
                       Some (setVia tech (uint32_of_int operand)
                         (mk_Rect (rect_xlo b + si_prev_x i) (rect_ylo b + si_prev_y i)
                                  (rect_xhi b + si_prev_x i) (rect_yhi b + si_prev_y i))))))"

definition si_turn ::
  "bool \<Rightarrow> wire_db \<Rightarrow> wire_code \<Rightarrow> dbWireShapeItr \<Rightarrow> wire_error + dbWireShapeItr \<times> dbShape option" where
  "si_turn dbg db w i0 =
     and_then (si_nextOp w (i0\<lparr>si_shape_id := si_idx i0\<rparr>)) (\<lambda>(opcode, operand, i).
     let wire_op = opcode AND WOP_OPCODE_MASK
     in if wire_op = kPath \<or> wire_op = kShort \<or> wire_op = kVwire then
          and_then (half_width db (uint32_of_int operand)) (\<lambda>dw.
          Inr (i\<lparr>si_layer := uint32_of_int operand, si_point_cnt := 0, si_dw := dw\<rparr>, None))
        else if wire_op = kJunction then
          and_then (getPrevPoint db (wc_opcodes w) (wc_data w) operand True) (\<lambda>pnt.
          and_then (half_width db (pnt_layer pnt)) (\<lambda>dw.
          Inr (i\<lparr>si_layer := pnt_layer pnt, si_prev_x := pnt_x pnt, si_prev_y := pnt_y pnt, si_prev_ext := 0,
                 si_has_prev_ext := False, si_point_cnt := 0, si_dw := dw\<rparr>, None)))
        else if wire_op = kRule then
          and_then (rule_width db (opcode AND WOP_BLOCK_RULE \<noteq> 0) (uint32_of_int operand)) (\<lambda>width.
          Inr (i\<lparr>si_dw := int (width div 2), si_has_width := True\<rparr>, None))
        else if wire_op = kX then
          and_then (if si_point_cnt i = 0 then si_nextOp w i else Inr (opcode, si_prev_y i, i)) (\<lambda>(opcode, cur_y, i).
          and_then (si_extension w opcode i) (\<lambda>(cur_ext, has_cur_ext, i).
          let i' = i\<lparr>si_point_cnt := si_point_cnt i + 1\<rparr>
          in if si_point_cnt i = 0 then
               Inr (i'\<lparr>si_prev_x := operand, si_prev_y := cur_y, si_prev_ext := cur_ext,
                       si_has_prev_ext := has_cur_ext\<rparr>, None)
             else leg dbg db dbTechLayerDir.VERTICAL operand cur_y cur_ext has_cur_ext i'))
        else if wire_op = kY then
          and_then (assert_that dbg (si_point_cnt i \<noteq> 0)) (\<lambda>_.
          and_then (si_extension w opcode (i\<lparr>si_point_cnt := si_point_cnt i + 1\<rparr>)) (\<lambda>(cur_ext, has_cur_ext, i).
          leg dbg db dbTechLayerDir.HORIZONTAL (si_prev_x i) operand cur_ext has_cur_ext i))
        else if wire_op = kColinear then
          let i = i\<lparr>si_point_cnt := si_point_cnt i + 1\<rparr>
          in if opcode AND WOP_EXTENSION \<noteq> 0 then
               Inr (i\<lparr>si_prev_ext := operand, si_has_prev_ext := True\<rparr>, None)
             else if si_has_prev_ext i then Inr (i\<lparr>si_prev_ext := 0, si_has_prev_ext := False\<rparr>, None)
             else if si_point_cnt i > 1 then
               and_then (setSegment dbg (si_prev_x i) (si_prev_y i) (si_prev_ext i) (si_has_prev_ext i)
                           (si_prev_x i) (si_prev_y i) 0 False (si_dw i) (si_dw i) (si_layer i)) (\<lambda>shape.
               Inr (i\<lparr>si_has_prev_ext := False\<rparr>, Some shape))
             else Inr (i\<lparr>si_has_prev_ext := False\<rparr>, None)
        else if wire_op = kVia then si_via db False opcode operand i
        else if wire_op = kTechVia then si_via db True opcode operand i
        else if wire_op = kRect then
          and_then (si_nextOp w i) (\<lambda>(_, deltaY1, i).
          and_then (si_nextOp w i) (\<lambda>(_, deltaX2, i).
          and_then (si_nextOp w i) (\<lambda>(_, deltaY2, i).
          Inr (i, Some (setSegmentFromRect (si_prev_x i + operand) (si_prev_y i + deltaY1)
                          (si_prev_x i + deltaX2) (si_prev_y i + deltaY2) (si_layer i))))))
        else if wire_op \<in> {kIterm, kBterm, kOperand, kProperty, kColor, kViaColor, kNop} then Inr (i, None)
        else and_then (assert_that dbg False) (\<lambda>_. Inr (i, None)))"

lemma on_success_si_nextOp:
  "on_success (si_nextOp w i) P =
     (si_idx i < length (wc_opcodes w) \<and> si_idx i < length (wc_data w)
      \<longrightarrow> P (wc_opcodes w ! si_idx i, wc_data w ! si_idx i, i\<lparr>si_idx := si_idx i + 1\<rparr>))"
  by (auto simp: si_nextOp_def fetch_def)

text \<open>A turn reads its operation and the operands of it, never past the end.\<close>

lemma on_success_all: "(\<And>x. P x) \<Longrightarrow> on_success r P"
  by (simp add: on_success_def split: sum.split)

lemma leg_post:
  assumes "\<And>i' s. si_idx i' = si_idx i \<Longrightarrow> P (i', s)"
  shows "on_success (leg dbg db wrong x y ext has i) P"
  unfolding leg_def on_success_and_then by (rule on_success_all, rule on_success_all, simp add: assms)

lemma si_via_post:
  assumes "\<And>i' s. si_idx i' = si_idx i \<Longrightarrow> P (i', s)"
  shows "on_success (si_via db tech opcode operand i) P"
  unfolding si_via_def Let_def on_success_and_then by (rule on_success_all, rule on_success_all, simp add: assms)

lemma si_extension_post:
  assumes "\<And>ext has i'. si_idx i \<le> si_idx i' \<Longrightarrow> si_idx i' \<le> length (wc_opcodes w) \<Longrightarrow> P (ext, has, i')"
    "si_idx i \<le> length (wc_opcodes w)"
  shows "on_success (si_extension w opcode i) P"
  using assms by (auto simp: si_extension_def on_success_and_then on_success_if on_success_si_nextOp)

lemma si_turn_post:
  "on_success (si_turn dbg db w i) (\<lambda>(i', s). si_idx i < si_idx i' \<and> si_idx i' \<le> length (wc_opcodes w))"
  unfolding si_turn_def Let_def
  by (simp only: on_success_and_then on_success_si_nextOp on_success_if on_success_simps case_prod_conv on_success_assert)
     (auto simp: wire_ops on_success_if on_success_and_then on_success_si_nextOp
       intro!: leg_post si_via_post si_extension_post intro: on_success_True)

lemmas si_turn_idx = si_turn_post [THEN on_successD]

function shape_next ::
  "bool \<Rightarrow> wire_db \<Rightarrow> wire_code \<Rightarrow> dbWireShapeItr \<Rightarrow> wire_error + (dbShape \<times> dbWireShapeItr) option" where
  "shape_next dbg db w i =
     (if si_idx i = length (wc_opcodes w) then Inr None
      else case si_turn dbg db w i of
             Inl e \<Rightarrow> Inl e
           | Inr (i', Some s) \<Rightarrow> Inr (Some (s, i'))
           | Inr (i', None) \<Rightarrow> shape_next dbg db w i')"
  by pat_completeness auto

termination
  by (relation "measure (\<lambda>(dbg, db, w, i). length (wc_opcodes w) - si_idx i)") (auto dest!: si_turn_idx)

declare shape_next.simps [simp del]

lemma shape_next_idx:
  "shape_next dbg db w i = Inr (Some (s, i')) \<Longrightarrow> si_idx i < si_idx i' \<and> si_idx i' \<le> length (wc_opcodes w)"
proof (induction dbg db w i rule: shape_next.induct)
  case (1 dbg db w i)
  then obtain i1 s1 where t: "si_idx i \<noteq> length (wc_opcodes w)" "si_turn dbg db w i = Inr (i1, s1)"
    by (auto simp: shape_next.simps [of _ _ _ i] split: if_splits sum.splits)
  show ?case
  proof (cases s1)
    case None
    with t have "shape_next dbg db w i = shape_next dbg db w i1" by (simp add: shape_next.simps [of _ _ _ i])
    with "1.IH" [OF t(1,2) refl None] "1.prems" si_turn_idx [OF t(2)] show ?thesis by simp
  next
    case (Some a)
    with t "1.prems" si_turn_idx [OF t(2)] show ?thesis by (simp add: shape_next.simps [of _ _ _ i])
  qed
qed

text \<open>All shapes, as a client that calls \<open>next\<close> until it returns false sees them.\<close>

function shapes_from :: "bool \<Rightarrow> wire_db \<Rightarrow> wire_code \<Rightarrow> dbWireShapeItr \<Rightarrow> wire_error + dbShape list" where
  "shapes_from dbg db w i =
     (case shape_next dbg db w i of
        Inl e \<Rightarrow> Inl e
      | Inr None \<Rightarrow> Inr []
      | Inr (Some (s, i')) \<Rightarrow>
          (case shapes_from dbg db w i' of Inl e \<Rightarrow> Inl e | Inr ss \<Rightarrow> Inr (s # ss)))"
  by pat_completeness auto

termination
  by (relation "measure (\<lambda>(dbg, db, w, i). length (wc_opcodes w) - si_idx i)") (auto dest!: shape_next_idx)

declare shapes_from.simps [simp del]

definition wire_shapes :: "bool \<Rightarrow> wire_db \<Rightarrow> wire_code \<Rightarrow> wire_error + dbShape list" where
  "wire_shapes dbg db w = shapes_from dbg db w dbWireShapeItr_begin"

definition dbWire_getBBox :: "bool \<Rightarrow> wire_db \<Rightarrow> wire_code \<Rightarrow> wire_error + Rect option" where
  "dbWire_getBBox dbg db w =
     and_then (wire_shapes dbg db w) (\<lambda>shapes.
     let bbox = foldl (\<lambda>b s. Rect_merge b (sh_rect s)) Rect_mergeInit shapes
     in Inr (if Rect_isInverted bbox then None else Some bbox))"

section \<open>Legs and vias\<close>

definition orthogonal :: "int \<Rightarrow> int \<Rightarrow> int \<Rightarrow> int \<Rightarrow> bool" where
  "orthogonal x0 y0 x y \<longleftrightarrow> x0 = x \<or> y0 = y"

text \<open>
  A leg between two points on a line along an axis has a rectangle, the same in both directions of drawing,
  that holds both points; it is as wide as told, and as long as the points are apart and the ends require.
\<close>

lemma setSegment_both_ways:
  "orthogonal x0 y0 x y \<Longrightarrow>
   setSegment dbg x0 y0 pe hp x y ce hc dw de l = setSegment dbg x y ce hc x0 y0 pe hp dw de l"
  by (auto simp: setSegment_def orthogonal_def)

lemma setSegment_rect:
  assumes "orthogonal x0 y0 x y" "0 \<le> dw" "0 \<le> de" "hp \<longrightarrow> 0 \<le> pe" "hc \<longrightarrow> 0 \<le> ce"
  obtains r where "setSegment dbg x0 y0 pe hp x y ce hc dw de l = Inr (setSegment_layer l r)"
    "\<not> Rect_isInverted r" "Rect_intersects_pt r (Point x0 y0)" "Rect_intersects_pt r (Point x y)"
    "(x0, y0) \<noteq> (x, y) \<Longrightarrow> min (Rect_dx r) (Rect_dy r) \<le> 2 * dw"
proof -
  have "\<exists>r. setSegment dbg x0 y0 pe hp x y ce hc dw de l = Inr (setSegment_layer l r)
      \<and> \<not> Rect_isInverted r \<and> Rect_intersects_pt r (Point x0 y0) \<and> Rect_intersects_pt r (Point x y)
      \<and> ((x0, y0) \<noteq> (x, y) \<longrightarrow> min (Rect_dx r) (Rect_dy r) \<le> 2 * dw)"
    using assms
    by (auto simp: setSegment_def orthogonal_def Let_def Rect_reset_def Rect_isInverted_def Rect_intersects_pt_def
        Rect_dx_def Rect_dy_def)
  with that show ?thesis by blast
qed

text \<open>A via that the iterator has made is found at its point again, and its boxes there.\<close>

lemma via_is_placed:
  fixes x y :: int
  assumes v: "via_of db tech via = Inr v" "via_bbox v = Some b" "\<not> Rect_isInverted b" "via \<noteq> 0"
  defines "s \<equiv> setVia tech via (mk_Rect (rect_xlo b + x) (rect_ylo b + y) (rect_xhi b + x) (rect_yhi b + y))"
  shows "getViaXY db s xy = Inr (x, y)"
    and "getViaBoxes db xy s shapes =
      Inr (map (\<lambda>(layer, r). setViaBox tech via layer (Rect_moveDelta r x y)) (via_boxes v))"
proof -
  show xy: "getViaXY db s xy = Inr (x, y)"
    using v by (cases tech) (auto simp: getViaXY_def s_def setVia_def isVia_def mk_Rect_def Rect_init_def Rect_isInverted_def)
  show "getViaBoxes db xy s shapes =
      Inr (map (\<lambda>(layer, r). setViaBox tech via layer (Rect_moveDelta r x y)) (via_boxes v))"
    using v xy by (cases tech) (auto simp: getViaBoxes_def s_def setVia_def shape_getTechVia_def shape_getVia_def)
qed

section \<open>The pins of an instance\<close>

text \<open>A box of a pin: its rectangle, its layer, and the technology via it is, if it is one.\<close>

record dbBox =
  bx_rect :: Rect
  bx_layer :: nat
  bx_via :: nat

datatype iterm_state = kInit | kMpinItr | kMboxItr | kViaBoxItr

record dbITermShapeItr =
  it_state :: iterm_state
  it_mterm :: "dbBox list list"
  it_mpins :: "dbBox list list"
  it_boxes :: "dbBox list"
  it_via_boxes :: "(nat \<times> Rect) list"
  it_transform :: dbTransform
  it_via :: nat
  it_via_pt :: Point
  it_expand_vias :: bool

definition dbITermShapeItr_begin :: "bool \<Rightarrow> dbTransform \<Rightarrow> dbBox list list \<Rightarrow> dbITermShapeItr" where
  "dbITermShapeItr_begin expand_vias t mpins =
     \<lparr>it_state = kInit, it_mterm = mpins, it_mpins = [], it_boxes = [], it_via_boxes = [], it_transform = t,
      it_via = 0, it_via_pt = Point 0 0, it_expand_vias = expand_vias\<rparr>"

definition iterm_getShape :: "dbTransform \<Rightarrow> dbBox \<Rightarrow> dbShape" where
  "iterm_getShape t box =
     (let r = dbTransform_apply_Rect t (bx_rect box)
      in if bx_via box \<noteq> 0 then setVia True (bx_via box) r else setSegment_layer (bx_layer box) r)"

definition iterm_getViaBox :: "dbTransform \<Rightarrow> nat \<Rightarrow> Point \<Rightarrow> nat \<times> Rect \<Rightarrow> dbShape" where
  "iterm_getViaBox t via pt box =
     setViaBox True via (fst box) (dbTransform_apply_Rect t (Rect_moveDelta (snd box) (px pt) (py pt)))"

definition box_getViaXY :: "wire_db \<Rightarrow> dbBox \<Rightarrow> wire_error + Point" where
  "box_getViaXY db box =
     (if bx_via box = 0 then Inr (Point 0 0)
      else and_then (via_of db True (bx_via box)) (\<lambda>v.
           case via_bbox v of
             None \<Rightarrow> Inl BadPointer
           | Some b \<Rightarrow> Inr (Point (rect_xlo (bx_rect box) - rect_xlo b) (rect_ylo (bx_rect box) - rect_ylo b))))"

text \<open>\<open>next\<close>: the states of the machine, and what is left to visit in each.\<close>

function iterm_next :: "wire_db \<Rightarrow> dbITermShapeItr \<Rightarrow> wire_error + (dbShape \<times> dbITermShapeItr) option" where
  "iterm_next db i =
     (case it_state i of
        kInit \<Rightarrow> iterm_next db (i\<lparr>it_mpins := it_mterm i, it_state := kMpinItr\<rparr>)
      | kMpinItr \<Rightarrow>
          (case it_mpins i of
             [] \<Rightarrow> Inr None
           | mpin # mpins \<Rightarrow> iterm_next db (i\<lparr>it_mpins := mpins, it_boxes := mpin, it_state := kMboxItr\<rparr>))
      | kMboxItr \<Rightarrow>
          (case it_boxes i of
             [] \<Rightarrow> iterm_next db (i\<lparr>it_state := kMpinItr\<rparr>)
           | box # boxes \<Rightarrow>
               if \<not> it_expand_vias i \<or> bx_via box = 0
               then Inr (Some (iterm_getShape (it_transform i) box, i\<lparr>it_boxes := boxes\<rparr>))
               else case (box_getViaXY db box, via_of db True (bx_via box)) of
                      (Inr pt, Inr v) \<Rightarrow>
                        iterm_next db (i\<lparr>it_boxes := boxes, it_via_pt := pt, it_via := bx_via box,
                                         it_via_boxes := via_boxes v, it_state := kViaBoxItr\<rparr>)
                    | _ \<Rightarrow> Inl BadPointer)
      | kViaBoxItr \<Rightarrow>
          (case it_via_boxes i of
             [] \<Rightarrow> iterm_next db (i\<lparr>it_state := kMboxItr\<rparr>)
           | box # boxes \<Rightarrow>
               Inr (Some (iterm_getViaBox (it_transform i) (it_via i) (it_via_pt i) box,
                          i\<lparr>it_via_boxes := boxes\<rparr>))))"
  by pat_completeness auto

termination
  by (relation "measures [\<lambda>(db, i). if it_state i = kInit then 1 else 0, \<lambda>(db, i). length (it_mpins i),
        \<lambda>(db, i). if it_state i = kMpinItr then 0 else 1 + length (it_boxes i),
        \<lambda>(db, i). if it_state i = kViaBoxItr then 1 else 0]") (auto split: sum.splits)

declare iterm_next.simps [simp del]

text \<open>The reference: the boxes of all pins, in order, each via replaced by its placed boxes where that is asked for.\<close>

definition box_shapes :: "wire_db \<Rightarrow> bool \<Rightarrow> dbTransform \<Rightarrow> dbBox \<Rightarrow> wire_error + dbShape list" where
  "box_shapes db expand t box =
     (if \<not> expand \<or> bx_via box = 0 then Inr [iterm_getShape t box]
      else case (box_getViaXY db box, via_of db True (bx_via box)) of
             (Inr pt, Inr v) \<Rightarrow> Inr (map (iterm_getViaBox t (bx_via box) pt) (via_boxes v))
           | _ \<Rightarrow> Inl BadPointer)"

fun boxes_shapes :: "wire_db \<Rightarrow> bool \<Rightarrow> dbTransform \<Rightarrow> dbBox list \<Rightarrow> wire_error + dbShape list" where
  "boxes_shapes db expand t [] = Inr []"
| "boxes_shapes db expand t (b # bs) =
     and_then (box_shapes db expand t b) (\<lambda>s. and_then (boxes_shapes db expand t bs) (\<lambda>ss. Inr (s @ ss)))"

text \<open>The iterator yields these shapes, then false.\<close>

inductive iterm_yields :: "wire_db \<Rightarrow> dbITermShapeItr \<Rightarrow> dbShape list \<Rightarrow> bool" for db where
  iterm_end: "iterm_next db i = Inr None \<Longrightarrow> iterm_yields db i []"
| iterm_more: "iterm_next db i = Inr (Some (s, i')) \<Longrightarrow> iterm_yields db i' ss \<Longrightarrow> iterm_yields db i (s # ss)"

lemma iterm_yields_step: "iterm_next db i = iterm_next db i' \<Longrightarrow> iterm_yields db i' ss \<Longrightarrow> iterm_yields db i ss"
  by (erule iterm_yields.cases) (auto intro: iterm_yields.intros)

lemma iterm_yields_via_boxes:
  assumes "it_state i = kViaBoxItr" "iterm_yields db (i\<lparr>it_via_boxes := [], it_state := kMboxItr\<rparr>) ss"
  shows "iterm_yields db i (map (iterm_getViaBox (it_transform i) (it_via i) (it_via_pt i)) (it_via_boxes i) @ ss)"
  using assms
proof (induction "it_via_boxes i" arbitrary: i)
  case Nil
  then have eq: "i\<lparr>it_via_boxes := [], it_state := kMboxItr\<rparr> = i\<lparr>it_state := kMboxItr\<rparr>" by (cases i) simp
  have "iterm_next db i = iterm_next db (i\<lparr>it_via_boxes := [], it_state := kMboxItr\<rparr>)"
    unfolding eq using Nil.hyps Nil.prems(1) by (subst iterm_next.simps) simp
  from iterm_yields_step [OF this Nil.prems(2)] Nil.hyps show ?case by simp
next
  case (Cons b bs)
  have n: "iterm_next db i = Inr (Some (iterm_getViaBox (it_transform i) (it_via i) (it_via_pt i) b, i\<lparr>it_via_boxes := bs\<rparr>))"
    using Cons.hyps(2) [symmetric] Cons.prems(1) by (subst iterm_next.simps) simp
  from iterm_more [OF n Cons.hyps(1) [of "i\<lparr>it_via_boxes := bs\<rparr>"]] Cons.prems Cons.hyps(2) [symmetric] show ?case by simp
qed

lemma iterm_yields_boxes:
  assumes "it_state i = kMboxItr" "boxes_shapes db (it_expand_vias i) (it_transform i) (it_boxes i) = Inr ss1"
    and "\<And>i'. it_state i' = kMboxItr \<Longrightarrow> it_boxes i' = [] \<Longrightarrow> it_mpins i' = it_mpins i
        \<Longrightarrow> it_expand_vias i' = it_expand_vias i \<Longrightarrow> it_transform i' = it_transform i \<Longrightarrow> iterm_yields db i' ss"
  shows "iterm_yields db i (ss1 @ ss)"
  using assms
proof (induction "it_boxes i" arbitrary: i ss1)
  case Nil
  then show ?case by simp
next
  case (Cons b bs)
  from Cons.prems(2) Cons.hyps(2) [symmetric] obtain s1 s2 where s1: "box_shapes db (it_expand_vias i) (it_transform i) b = Inr s1"
    and s2: "boxes_shapes db (it_expand_vias i) (it_transform i) bs = Inr s2" and ss: "ss1 = s1 @ s2"
    by (auto simp: and_then_Inr)
  show ?case
  proof (cases "\<not> it_expand_vias i \<or> bx_via b = 0")
    case True
    have n: "iterm_next db i = Inr (Some (iterm_getShape (it_transform i) b, i\<lparr>it_boxes := bs\<rparr>))"
      using True Cons.hyps(2) [symmetric] Cons.prems(1) by (subst iterm_next.simps) simp
    have "iterm_yields db (i\<lparr>it_boxes := bs\<rparr>) (s2 @ ss)"
      by (rule Cons.hyps(1)) (use Cons.prems s2 in auto)
    from iterm_more [OF n this] s1 True show ?thesis by (auto simp: box_shapes_def ss)
  next
    case False
    with s1 obtain pt v where p: "box_getViaXY db b = Inr pt" "via_of db True (bx_via b) = Inr v"
      and s1': "s1 = map (iterm_getViaBox (it_transform i) (bx_via b) pt) (via_boxes v)"
      by (auto simp: box_shapes_def split: sum.splits)
    let ?i = "i\<lparr>it_boxes := bs, it_via_pt := pt, it_via := bx_via b, it_via_boxes := via_boxes v, it_state := kViaBoxItr\<rparr>"
    have n: "iterm_next db i = iterm_next db ?i"
      using False p Cons.hyps(2) [symmetric] Cons.prems(1) by (subst iterm_next.simps) simp
    have "iterm_yields db (?i\<lparr>it_via_boxes := [], it_state := kMboxItr\<rparr>) (s2 @ ss)"
      by (rule Cons.hyps(1)) (use Cons.prems s2 in auto)
    from iterm_yields_via_boxes [OF _ this] iterm_yields_step [OF n] show ?thesis by (simp add: ss s1')
  qed
qed

lemma iterm_yields_pins:
  assumes "it_state i = kMpinItr" "boxes_shapes db (it_expand_vias i) (it_transform i) (concat (it_mpins i)) = Inr ss"
  shows "iterm_yields db i ss"
  using assms
proof (induction "it_mpins i" arbitrary: i ss)
  case Nil
  then have "iterm_next db i = Inr None" by (subst iterm_next.simps) simp
  with Nil show ?case by (auto intro: iterm_end)
next
  case (Cons m ms)
  have app: "boxes_shapes db e t (xs @ ys) =
      and_then (boxes_shapes db e t xs) (\<lambda>s. and_then (boxes_shapes db e t ys) (\<lambda>ss. Inr (s @ ss)))" for e t xs ys
  proof (induction xs)
    case (Cons x xs)
    then show ?case
      by (cases "box_shapes db e t x"; cases "boxes_shapes db e t xs"; cases "boxes_shapes db e t ys") auto
  qed (cases "boxes_shapes db e t ys"; simp)
  from Cons.prems(2) Cons.hyps(2) [symmetric] obtain s1 s2
    where s1: "boxes_shapes db (it_expand_vias i) (it_transform i) m = Inr s1"
      and s2: "boxes_shapes db (it_expand_vias i) (it_transform i) (concat ms) = Inr s2" and ss: "ss = s1 @ s2"
    by (auto simp: app and_then_Inr)
  let ?i = "i\<lparr>it_mpins := ms, it_boxes := m, it_state := kMboxItr\<rparr>"
  have n: "iterm_next db i = iterm_next db ?i"
    using Cons.hyps(2) [symmetric] Cons.prems(1) by (subst iterm_next.simps) simp
  have "iterm_yields db ?i (s1 @ s2)"
  proof (rule iterm_yields_boxes)
    fix i' :: dbITermShapeItr assume i': "it_state i' = kMboxItr" "it_boxes i' = []" "it_mpins i' = it_mpins ?i"
      "it_expand_vias i' = it_expand_vias ?i" "it_transform i' = it_transform ?i"
    then have n': "iterm_next db i' = iterm_next db (i'\<lparr>it_state := kMpinItr\<rparr>)" by (subst iterm_next.simps) simp
    have "iterm_yields db (i'\<lparr>it_state := kMpinItr\<rparr>) s2" by (rule Cons.hyps(1)) (use i' s2 in auto)
    with n' show "iterm_yields db i' s2" by (rule iterm_yields_step)
  qed (use s1 in auto)
  with n show ?case unfolding ss by (rule iterm_yields_step)
qed

lemma iterm_iterator_flattens:
  assumes "boxes_shapes db expand t (concat mpins) = Inr ss"
  shows "iterm_yields db (dbITermShapeItr_begin expand t mpins) ss"
proof -
  let ?i = "(dbITermShapeItr_begin expand t mpins)\<lparr>it_mpins := mpins, it_state := kMpinItr\<rparr>"
  have "iterm_next db (dbITermShapeItr_begin expand t mpins) = iterm_next db ?i"
    by (subst iterm_next.simps) (simp add: dbITermShapeItr_begin_def)
  moreover have "iterm_yields db ?i ss" by (rule iterm_yields_pins) (use assms in \<open>simp_all add: dbITermShapeItr_begin_def\<close>)
  ultimately show ?thesis by (rule iterm_yields_step)
qed

end
