(* ===== verification/DbTrackGrid.thy ===== *)
theory DbTrackGrid
  imports DbWire
begin

text \<open>
  The routing tracks of a layer (\<^verbatim>\<open>dbTrackGrid.cpp\<close>): patterns of equally spaced lines along each axis,
  the coordinates they give, and the average spacing.

  The coordinates are computed when they are first asked for and kept in the object, so the getters return
  the object too. The layer is an id; \<open>dbTech_getLayer\<close> follows it.
\<close>

record dbTrackGrid =
  tg_layer :: nat
  tg_x_origin :: "int list"
  tg_x_count :: "int list"
  tg_x_step :: "int list"
  tg_y_origin :: "int list"
  tg_y_count :: "int list"
  tg_y_step :: "int list"
  tg_first_mask :: "int list"
  tg_samemask :: "bool list"
  tg_grid_x :: "int list"
  tg_grid_y :: "int list"

definition mk_dbTrackGrid :: "nat \<Rightarrow> dbTrackGrid" where
  "mk_dbTrackGrid layer =
     \<lparr>tg_layer = layer, tg_x_origin = [], tg_x_count = [], tg_x_step = [], tg_y_origin = [], tg_y_count = [],
      tg_y_step = [], tg_first_mask = [], tg_samemask = [], tg_grid_x = [], tg_grid_y = []\<rparr>"

section \<open>Coordinates\<close>

definition sort_and_unique :: "int list \<Rightarrow> int list" where
  "sort_and_unique c = remdups_adj (sort c)"

definition pattern_lines :: "int \<Rightarrow> int \<Rightarrow> int \<Rightarrow> int list" where
  "pattern_lines origin cnt stp = map (\<lambda>j. origin + int j * stp) [0..<nat cnt]"

definition grid_lines :: "int list \<Rightarrow> int list \<Rightarrow> int list \<Rightarrow> int list" where
  "grid_lines origins counts steps =
     concat (map (\<lambda>i. pattern_lines (origins ! i) (counts ! i) (steps ! i)) [0..<length origins])"

definition getGridX :: "dbTrackGrid \<Rightarrow> int list \<times> dbTrackGrid" where
  "getGridX g =
     (let grid = (if tg_grid_x g = [] then sort_and_unique (grid_lines (tg_x_origin g) (tg_x_count g) (tg_x_step g))
                  else tg_grid_x g)
      in (grid, g\<lparr>tg_grid_x := grid\<rparr>))"

definition getGridY :: "dbTrackGrid \<Rightarrow> int list \<times> dbTrackGrid" where
  "getGridY g =
     (let grid = (if tg_grid_y g = [] then sort_and_unique (grid_lines (tg_y_origin g) (tg_y_count g) (tg_y_step g))
                  else tg_grid_y g)
      in (grid, g\<lparr>tg_grid_y := grid\<rparr>))"

section \<open>Patterns\<close>

definition addGridPatternX :: "int \<Rightarrow> int \<Rightarrow> int \<Rightarrow> int \<Rightarrow> bool \<Rightarrow> dbTrackGrid \<Rightarrow> dbTrackGrid" where
  "addGridPatternX origin_x line_count stp first_mask samemask g =
     g\<lparr>tg_x_origin := tg_x_origin g @ [origin_x], tg_x_count := tg_x_count g @ [line_count],
       tg_x_step := tg_x_step g @ [stp], tg_first_mask := tg_first_mask g @ [first_mask],
       tg_samemask := tg_samemask g @ [samemask], tg_grid_x := []\<rparr>"

definition addGridPatternY :: "int \<Rightarrow> int \<Rightarrow> int \<Rightarrow> int \<Rightarrow> bool \<Rightarrow> dbTrackGrid \<Rightarrow> dbTrackGrid" where
  "addGridPatternY origin_y line_count stp first_mask samemask g =
     g\<lparr>tg_y_origin := tg_y_origin g @ [origin_y], tg_y_count := tg_y_count g @ [line_count],
       tg_y_step := tg_y_step g @ [stp], tg_first_mask := tg_first_mask g @ [first_mask],
       tg_samemask := tg_samemask g @ [samemask], tg_grid_y := []\<rparr>"

definition getNumGridPatternsX :: "dbTrackGrid \<Rightarrow> nat" where
  "getNumGridPatternsX g = length (tg_x_origin g)"

definition getNumGridPatternsY :: "dbTrackGrid \<Rightarrow> nat" where
  "getNumGridPatternsY g = length (tg_y_origin g)"

definition vector_at :: "'a list \<Rightarrow> nat \<Rightarrow> wire_error + 'a" where
  "vector_at xs i = (if i < length xs then Inr (xs ! i) else Inl OutOfRange)"

definition getGridPatternX :: "bool \<Rightarrow> nat \<Rightarrow> dbTrackGrid \<Rightarrow> wire_error + int \<times> int \<times> int" where
  "getGridPatternX dbg i g =
     and_then (assert_that dbg (i < length (tg_x_origin g))) (\<lambda>_.
     and_then (vector_at (tg_x_origin g) i) (\<lambda>origin_x.
     and_then (vector_at (tg_x_count g) i) (\<lambda>line_count.
     and_then (vector_at (tg_x_step g) i) (\<lambda>stp. Inr (origin_x, line_count, stp)))))"

definition getGridPatternX_masks ::
  "bool \<Rightarrow> nat \<Rightarrow> dbTrackGrid \<Rightarrow> wire_error + int \<times> int \<times> int \<times> int \<times> bool" where
  "getGridPatternX_masks dbg i g =
     and_then (getGridPatternX dbg i g) (\<lambda>(origin_x, line_count, stp).
     and_then (vector_at (tg_first_mask g) i) (\<lambda>first_mask.
     and_then (vector_at (tg_samemask g) i) (\<lambda>samemask.
     Inr (origin_x, line_count, stp, first_mask, samemask))))"

definition getGridPatternY :: "bool \<Rightarrow> nat \<Rightarrow> dbTrackGrid \<Rightarrow> wire_error + int \<times> int \<times> int" where
  "getGridPatternY dbg i g =
     and_then (assert_that dbg (i < length (tg_y_origin g))) (\<lambda>_.
     and_then (vector_at (tg_y_origin g) i) (\<lambda>origin_y.
     and_then (vector_at (tg_y_count g) i) (\<lambda>line_count.
     and_then (vector_at (tg_y_step g) i) (\<lambda>stp. Inr (origin_y, line_count, stp)))))"

definition getGridPatternY_masks ::
  "bool \<Rightarrow> nat \<Rightarrow> dbTrackGrid \<Rightarrow> wire_error + int \<times> int \<times> int \<times> int \<times> bool" where
  "getGridPatternY_masks dbg i g =
     and_then (getGridPatternY dbg i g) (\<lambda>(origin_y, line_count, stp).
     and_then (vector_at (tg_first_mask g) i) (\<lambda>first_mask.
     and_then (vector_at (tg_samemask g) i) (\<lambda>samemask.
     Inr (origin_y, line_count, stp, first_mask, samemask))))"

section \<open>Average spacing\<close>

text \<open>
  The results are (step, first track, number of tracks). \<open>fl\<close> rounds to a \<^verbatim>\<open>float\<close>. The first and last
  element of no coordinates lie outside the vector.
\<close>

definition getAverageTrackPattern ::
  "(rat \<Rightarrow> rat) \<Rightarrow> bool \<Rightarrow> dbTrackGrid \<Rightarrow> wire_error + int \<times> int \<times> int" where
  "getAverageTrackPattern fl is_x g =
     (let coordinates = fst (if is_x then getGridX g else getGridY g)
      in if coordinates = [] then Inl OutOfRange
         else let spn = last coordinates - hd coordinates
              in Inr (\<lceil>fl (fl (of_int spn) / fl (of_nat (length coordinates)))\<rceil>, hd coordinates,
                      int (length coordinates)))"

definition getAverageTrackSpacing ::
  "(rat \<Rightarrow> rat) \<Rightarrow> bool \<Rightarrow> wire_db \<Rightarrow> dbTrackGrid \<Rightarrow> wire_error + int \<times> int \<times> int" where
  "getAverageTrackSpacing fl dbg db g =
     and_then (dbTech_getLayer db (tg_layer g)) (\<lambda>layer.
     if tl_direction layer = dbTechLayerDir.HORIZONTAL then
       if getNumGridPatternsY g = 1 then
         and_then (getGridPatternY dbg 0 g) (\<lambda>(track_init, num_tracks, track_step).
         Inr (track_step, track_init, num_tracks))
       else if getNumGridPatternsY g > 1 then getAverageTrackPattern fl False g
       else Inl (Throws 414)
     else if tl_direction layer = dbTechLayerDir.VERTICAL then
       if getNumGridPatternsX g = 1 then
         and_then (getGridPatternX dbg 0 g) (\<lambda>(track_init, num_tracks, track_step).
         Inr (track_step, track_init, num_tracks))
       else if getNumGridPatternsX g > 1 then getAverageTrackPattern fl True g
       else Inl (Throws 415)
     else Inl (Throws 416))"

text \<open>The grids of a block; a second one for a layer is refused.\<close>

definition findTrackGrid :: "dbTrackGrid list \<Rightarrow> nat \<Rightarrow> dbTrackGrid option" where
  "findTrackGrid grids layer = List.find (\<lambda>g. tg_layer g = layer) grids"

definition dbTrackGrid_create :: "dbTrackGrid list \<Rightarrow> nat \<Rightarrow> dbTrackGrid list \<times> nat option" where
  "dbTrackGrid_create grids layer =
     (if findTrackGrid grids layer \<noteq> None then (grids, None)
      else (grids @ [mk_dbTrackGrid layer], Some (length grids)))"

section \<open>What the coordinates are\<close>

text \<open>The three vectors of an axis go together, and coordinates that are kept are those of the patterns.\<close>

definition track_grid_ok :: "dbTrackGrid \<Rightarrow> bool" where
  "track_grid_ok g \<longleftrightarrow>
     length (tg_x_count g) = length (tg_x_origin g) \<and> length (tg_x_step g) = length (tg_x_origin g) \<and>
     length (tg_y_count g) = length (tg_y_origin g) \<and> length (tg_y_step g) = length (tg_y_origin g) \<and>
     length (tg_first_mask g) = length (tg_x_origin g) + length (tg_y_origin g) \<and>
     length (tg_samemask g) = length (tg_x_origin g) + length (tg_y_origin g) \<and>
     (tg_grid_x g \<noteq> [] \<longrightarrow> tg_grid_x g = sort_and_unique (grid_lines (tg_x_origin g) (tg_x_count g) (tg_x_step g))) \<and>
     (tg_grid_y g \<noteq> [] \<longrightarrow> tg_grid_y g = sort_and_unique (grid_lines (tg_y_origin g) (tg_y_count g) (tg_y_step g)))"

text \<open>The lines of the patterns, as a set.\<close>

definition tracks_of :: "int list \<Rightarrow> int list \<Rightarrow> int list \<Rightarrow> int set" where
  "tracks_of origins counts steps =
     (\<Union>i < length origins. {origins ! i + j * steps ! i |j. 0 \<le> j \<and> j < counts ! i})"

lemma distinct_remdups_adj: "sorted xs \<Longrightarrow> distinct (remdups_adj xs)"
  for xs :: "int list"
proof (induction xs rule: remdups_adj.induct)
  case (3 x y xs)
  then show ?case by (cases "x = y") force+
qed auto

lemma sort_and_unique:
  "sorted (sort_and_unique c)" "distinct (sort_and_unique c)" "set (sort_and_unique c) = set c"
  by (simp_all add: sort_and_unique_def distinct_remdups_adj)

lemma set_pattern_lines: "set (pattern_lines a n s) = {a + j * s |j. 0 \<le> j \<and> j < n}"
proof -
  have "{a + j * s |j. 0 \<le> j \<and> j < n} = (\<lambda>j. a + int j * s) ` {0..<nat n}"
    by (auto simp: image_iff) (metis atLeast0LessThan lessThan_iff nat_0_le zless_nat_conj zless_nat_eq_int_zless)
  then show ?thesis by (simp add: pattern_lines_def)
qed

lemma set_grid_lines: "set (grid_lines origins counts steps) = tracks_of origins counts steps"
  by (auto simp: grid_lines_def tracks_of_def set_pattern_lines)

lemma track_grid_ok_simps:
  "track_grid_ok (mk_dbTrackGrid layer)"
  "track_grid_ok g \<Longrightarrow> track_grid_ok (addGridPatternX a n s m b g)"
  "track_grid_ok g \<Longrightarrow> track_grid_ok (addGridPatternY a n s m b g)"
  "track_grid_ok g \<Longrightarrow> track_grid_ok (snd (getGridX g))"
  "track_grid_ok g \<Longrightarrow> track_grid_ok (snd (getGridY g))"
  by (auto simp: track_grid_ok_def mk_dbTrackGrid_def addGridPatternX_def addGridPatternY_def getGridX_def getGridY_def Let_def)

lemma getGridX_tracks:
  assumes "track_grid_ok g"
  shows "sorted (fst (getGridX g)) \<and> distinct (fst (getGridX g)) \<and>
    set (fst (getGridX g)) = tracks_of (tg_x_origin g) (tg_x_count g) (tg_x_step g)"
proof -
  have "fst (getGridX g) = sort_and_unique (grid_lines (tg_x_origin g) (tg_x_count g) (tg_x_step g))"
    using assms by (simp add: getGridX_def Let_def track_grid_ok_def)
  then show ?thesis by (simp add: sort_and_unique set_grid_lines)
qed

lemma getGridY_tracks:
  assumes "track_grid_ok g"
  shows "sorted (fst (getGridY g)) \<and> distinct (fst (getGridY g)) \<and>
    set (fst (getGridY g)) = tracks_of (tg_y_origin g) (tg_y_count g) (tg_y_step g)"
proof -
  have "fst (getGridY g) = sort_and_unique (grid_lines (tg_y_origin g) (tg_y_count g) (tg_y_step g))"
    using assms by (simp add: getGridY_def Let_def track_grid_ok_def)
  then show ?thesis by (simp add: sort_and_unique set_grid_lines)
qed

lemma tracks_of_append:
  assumes "length counts = length origins" "length steps = length origins"
  shows "tracks_of (origins @ [a]) (counts @ [n]) (steps @ [s]) =
    tracks_of origins counts steps \<union> {a + j * s |j. 0 \<le> j \<and> j < n}"
  using assms by (auto simp: tracks_of_def lessThan_Suc nth_append split: if_splits)

text \<open>A pattern adds its lines to one axis and leaves the other alone.\<close>

lemma addGridPattern_tracks:
  assumes "track_grid_ok g"
  shows "set (fst (getGridX (addGridPatternX a n s m b g))) = set (fst (getGridX g)) \<union> {a + j * s |j. 0 \<le> j \<and> j < n}"
    and "set (fst (getGridY (addGridPatternY a n s m b g))) = set (fst (getGridY g)) \<union> {a + j * s |j. 0 \<le> j \<and> j < n}"
    and "fst (getGridY (addGridPatternX a n s m b g)) = fst (getGridY g)"
    and "fst (getGridX (addGridPatternY a n s m b g)) = fst (getGridX g)"
proof -
  note ok = track_grid_ok_simps(2,3) [OF assms, of a n s m b]
  show "set (fst (getGridX (addGridPatternX a n s m b g))) = set (fst (getGridX g)) \<union> {a + j * s |j. 0 \<le> j \<and> j < n}"
    using getGridX_tracks [OF ok(1)] getGridX_tracks [OF assms] assms
    by (simp add: addGridPatternX_def track_grid_ok_def tracks_of_append)
  show "set (fst (getGridY (addGridPatternY a n s m b g))) = set (fst (getGridY g)) \<union> {a + j * s |j. 0 \<le> j \<and> j < n}"
    using getGridY_tracks [OF ok(2)] getGridY_tracks [OF assms] assms
    by (simp add: addGridPatternY_def track_grid_ok_def tracks_of_append)
qed (simp_all add: getGridX_def getGridY_def addGridPatternX_def addGridPatternY_def Let_def)

text \<open>
  The masks of both axes are in one vector, in the order the patterns were added, and are read by the number of
  the pattern on its axis: that is right on the axis that came first only.
\<close>

lemma masks_of_first_axis:
  assumes "track_grid_ok g" "tg_y_origin g = []"
  shows "getGridPatternX_masks dbg (length (tg_x_origin g)) (addGridPatternX a n s m b g) = Inr (a, n, s, m, b)"
  using assms by (simp add: getGridPatternX_masks_def getGridPatternX_def vector_at_def addGridPatternX_def track_grid_ok_def nth_append assert_that_def)

lemma masks_of_second_axis:
  assumes "track_grid_ok g" "tg_y_origin g = []" "tg_x_origin g \<noteq> []"
  shows "getGridPatternY_masks dbg 0 (addGridPatternY a n s m b g) =
    Inr (a, n, s, tg_first_mask g ! 0, tg_samemask g ! 0)"
  using assms by (auto simp: getGridPatternY_masks_def getGridPatternY_def vector_at_def addGridPatternY_def track_grid_ok_def nth_append assert_that_def)

text \<open>
  With exact arithmetic, for \<open>n\<close> tracks a step \<open>s\<close> apart that come from more than one pattern the average is \<open>s\<close>
  only when there are more tracks than units in a step: the span is divided by the tracks, not by the gaps.
\<close>

lemma average_of_even_tracks:
  assumes "fst (getGridX g) = map (\<lambda>j. a + int j * s) [0..<n]" "0 < n" "0 < s"
  shows "getAverageTrackPattern (\<lambda>x. x) True g = Inr (\<lceil>of_int (s * (int n - 1)) / (of_nat n :: rat)\<rceil>, a, int n)"
    and "\<lceil>of_int (s * (int n - 1)) / (of_nat n :: rat)\<rceil> = s \<longleftrightarrow> s < int n"
proof -
  have l: "last (map (\<lambda>j. a + int j * s) [0..<n]) = a + (int n - 1) * s"
    using assms(2) by (simp add: last_map of_nat_diff)
  have h: "hd (map (\<lambda>j. a + int j * s) [0..<n]) = a" using assms(2) by (simp add: hd_map)
  show "getAverageTrackPattern (\<lambda>x. x) True g = Inr (\<lceil>of_int (s * (int n - 1)) / (of_nat n :: rat)\<rceil>, a, int n)"
    using assms(2) l h by (simp add: getAverageTrackPattern_def assms(1) Let_def mult.commute)
  have e: "of_int (s * (int n - 1)) / (of_nat n :: rat) = of_int s - of_int s / of_nat n"
    using assms(2) by (simp add: field_simps)
  have "0 < (of_int s :: rat) / of_nat n" using assms(2,3) by simp
  then have "\<lceil>of_int (s * (int n - 1)) / (of_nat n :: rat)\<rceil> = s \<longleftrightarrow> (of_int s :: rat) / of_nat n < 1"
    unfolding e by (auto simp: ceiling_eq_iff)
  also have "\<dots> \<longleftrightarrow> s < int n" 
    using assms(2) of_int_less_iff [of s "int n", where 'a = rat] by simp
  finally show "\<lceil>of_int (s * (int n - 1)) / (of_nat n :: rat)\<rceil> = s \<longleftrightarrow> s < int n" .
qed

end
