(* ===== verification/DbObject.thy ===== *)
theory DbObject
  imports Main
begin

text \<open>
  \<^verbatim>\<open>dbObject.h\<close>: the types of the objects of a database, of its 111 those that markers and journals name, in the order of
  the enumeration.
\<close>

datatype dbObjectType =
    dbBlockObj | dbInstObj | dbNetObj | dbBTermObj | dbITermObj | dbObstructionObj | dbCapNodeObj | dbRSegObj
  | dbCCSegObj | dbChipBumpInstObj | dbChipConnObj | dbChipInstObj | dbChipRegionInstObj | dbGuideObj | dbModBTermObj
  | dbModInstObj | dbModITermObj | dbModNetObj | dbModuleObj | dbTechNonDefaultRuleObj | dbNameObj

text \<open>The number of a type in the enumeration, which is what a journal holds.\<close>

primrec object_code :: "dbObjectType \<Rightarrow> int" where
  "object_code dbBlockObj = 1"
| "object_code dbInstObj = 3"
| "object_code dbNetObj = 4"
| "object_code dbBTermObj = 5"
| "object_code dbITermObj = 6"
| "object_code dbObstructionObj = 10"
| "object_code dbCapNodeObj = 15"
| "object_code dbRSegObj = 16"
| "object_code dbCCSegObj = 17"
| "object_code dbChipBumpInstObj = 28"
| "object_code dbChipConnObj = 29"
| "object_code dbChipInstObj = 30"
| "object_code dbChipRegionInstObj = 33"
| "object_code dbGuideObj = 46"
| "object_code dbModBTermObj = 54"
| "object_code dbModInstObj = 55"
| "object_code dbModITermObj = 56"
| "object_code dbModNetObj = 57"
| "object_code dbModuleObj = 58"
| "object_code dbTechNonDefaultRuleObj = 99"
| "object_code dbNameObj = 110"

end
