(* ===== verification/DbTable.thy ===== *)
theory DbTable
  imports OdbPrelude
begin

text \<open>
  The object table of the database (\<^verbatim>\<open>db/dbTable.h\<close>, \<^verbatim>\<open>db/dbTable.inc\<close>). Objects
  live in pages of a fixed power-of-two size and are named by ids; the id splits into page and offset,
  so the pages laid end to end are one array indexed by the id, which is how \<open>tbl_slots\<close> keeps them.
  A slot holds an object or a node of the doubly linked free list. Slot 0 is never handed out: id 0
  is the null reference. \<open>tbl_page_allocs\<close> counts the objects of each page. \<open>tbl_bottom\<close> and \<open>tbl_top\<close> cache the least and the greatest allocated id.

  The searches that restore these two after a \<open>destroy\<close> assert that they find an object; the model
  returns \<open>None\<close> where an assertion fails. Ids are natural numbers: a table stays below
  the \<open>2 ^ 32\<close> ids of \<^verbatim>\<open>uint32_t\<close>.

  The locale \<open>object_table\<close> is the contract the rest of the database relies on.
\<close>

section \<open>The class\<close>

datatype 'a slot = Free (fr_next: nat) (fr_prev: nat) | Alloc (obj: 'a)

record 'a dbTable =
  tbl_page_size :: nat
  tbl_slots :: "'a slot list"
  tbl_top :: nat
  tbl_bottom :: nat
  tbl_page_allocs :: "nat list"
  tbl_page_cnt :: nat
  tbl_page_tbl_size :: nat
  tbl_alloc_cnt :: nat
  tbl_free_list :: nat

definition is_alloc :: "'a slot list \<Rightarrow> nat \<Rightarrow> bool" where
  "is_alloc s i = (case s ! i of Alloc _ \<Rightarrow> True | Free _ _ \<Rightarrow> False)"

definition mk_dbTable :: "nat \<Rightarrow> 'a dbTable" where
  "mk_dbTable page_size =
     \<lparr>tbl_page_size = page_size, tbl_slots = [], tbl_top = 0, tbl_bottom = 0, tbl_page_allocs = [], tbl_page_cnt = 0,
      tbl_page_tbl_size = 0, tbl_alloc_cnt = 0, tbl_free_list = 0\<rparr>"

definition dbTable_validId :: "'a dbTable \<Rightarrow> nat \<Rightarrow> bool" where
  "dbTable_validId t oid =
     (oid \<noteq> 0 \<and> oid div tbl_page_size t < tbl_page_cnt t \<and> is_alloc (tbl_slots t) oid)"

definition dbTable_getPtr :: "'a dbTable \<Rightarrow> nat \<Rightarrow> 'a option" where
  "dbTable_getPtr t oid =
     (if oid \<noteq> 0 \<and> oid div tbl_page_size t < tbl_page_cnt t
      then (case tbl_slots t ! oid of Alloc a \<Rightarrow> Some a | Free _ _ \<Rightarrow> None) else None)"

definition dbTable_pushQ :: "'a slot list \<Rightarrow> nat \<Rightarrow> nat \<Rightarrow> 'a slot list \<times> nat" where
  "dbTable_pushQ s Q e =
     (let s = s[e := Free Q 0];
          s = (if Q \<noteq> 0 then s[Q := Free (fr_next (s ! Q)) e] else s)
      in (s, e))"

definition dbTable_popQ :: "'a slot list \<Rightarrow> nat \<Rightarrow> 'a slot list \<times> nat \<times> nat" where
  "dbTable_popQ s Q =
     (let e = Q; Q = fr_next (s ! e);
          s = (if Q \<noteq> 0 then s[Q := Free (fr_next (s ! Q)) 0] else s)
      in (s, Q, e))"

definition dbTable_resizePageTbl :: "'a dbTable \<Rightarrow> 'a dbTable" where
  "dbTable_resizePageTbl t = t\<lparr>tbl_page_tbl_size := tbl_page_tbl_size t * 2\<rparr>"

text \<open>
  A new page is zeroed and its slots go on the free list from the last to the first, so that they are
  handed out in ascending order; slot 0 of the first page stays off the list.
\<close>

definition dbTable_newPage :: "'a dbTable \<Rightarrow> 'a dbTable" where
  "dbTable_newPage t =
     (let page_id = tbl_page_cnt t;
          t = (if tbl_page_tbl_size t = 0 then t\<lparr>tbl_page_tbl_size := 1\<rparr>
               else if tbl_page_tbl_size t = tbl_page_cnt t then dbTable_resizePageTbl t else t);
          addr = page_id * tbl_page_size t;
          ids = (if page_id = 0 then [1..<tbl_page_size t] else [addr..<addr + tbl_page_size t]);
          (s, Q) = foldr (\<lambda>i (s, Q). dbTable_pushQ s Q i) ids
                     (tbl_slots t @ replicate (tbl_page_size t) (Free 0 0), tbl_free_list t)
      in t\<lparr>tbl_page_cnt := page_id + 1, tbl_page_allocs := tbl_page_allocs t @ [0], tbl_slots := s, tbl_free_list := Q\<rparr>)"

text \<open>\<^verbatim>\<open>page->alloc_cnt_\<close> of the page of an object goes up and down with the objects in it.\<close>

definition count_page :: "(nat \<Rightarrow> nat) \<Rightarrow> 'a dbTable \<Rightarrow> nat \<Rightarrow> nat list" where
  "count_page f t oid =
     (let page = oid div tbl_page_size t in (tbl_page_allocs t)[page := f (tbl_page_allocs t ! page)])"

definition dbTable_create :: "'a dbTable \<Rightarrow> 'a \<Rightarrow> nat \<times> 'a dbTable" where
  "dbTable_create t init =
     (let t = t\<lparr>tbl_alloc_cnt := tbl_alloc_cnt t + 1\<rparr>;
          t = (if tbl_free_list t = 0 then dbTable_newPage t else t);
          (s, Q, oid) = dbTable_popQ (tbl_slots t) (tbl_free_list t)
      in (oid, t\<lparr>tbl_slots := s[oid := Alloc init], tbl_free_list := Q,
                tbl_page_allocs := count_page (\<lambda>n. n + 1) t oid,
                tbl_top := max oid (tbl_top t),
                tbl_bottom := (if tbl_bottom t = 0 \<or> oid < tbl_bottom t then oid else tbl_bottom t)\<rparr>))"

definition first_alloc :: "'a slot list \<Rightarrow> nat list \<Rightarrow> nat option" where
  "first_alloc s ids = find (is_alloc s) ids"

definition page_ids :: "'a dbTable \<Rightarrow> nat \<Rightarrow> nat list" where
  "page_ids t page_id = [page_id * tbl_page_size t..<(page_id + 1) * tbl_page_size t]"

definition valid_page :: "'a dbTable \<Rightarrow> nat \<Rightarrow> bool" where
  "valid_page t page_id = (tbl_page_allocs t ! page_id \<noteq> 0)"

definition dbTable_findBottom :: "'a dbTable \<Rightarrow> nat option" where
  "dbTable_findBottom t =
     (if tbl_alloc_cnt t = 0 then Some 0
      else
        let page_id = tbl_bottom t div tbl_page_size t in
        if valid_page t page_id
        then first_alloc (tbl_slots t) [tbl_bottom t + 1..<(page_id + 1) * tbl_page_size t]
        else do {
          page_id \<leftarrow> find (valid_page t) [page_id + 1..<tbl_page_cnt t];
          first_alloc (tbl_slots t) (page_ids t page_id)
        })"

definition dbTable_findTop :: "'a dbTable \<Rightarrow> nat option" where
  "dbTable_findTop t =
     (if tbl_alloc_cnt t = 0 then Some 0
      else
        let page_id = tbl_top t div tbl_page_size t in
        if valid_page t page_id
        then first_alloc (tbl_slots t) (rev [page_id * tbl_page_size t..<tbl_top t])
        else do {
          page_id \<leftarrow> find (valid_page t) (rev [0..<page_id]);
          first_alloc (tbl_slots t) (rev (page_ids t page_id))
        })"

definition dbTable_destroy :: "'a dbTable \<Rightarrow> nat \<Rightarrow> 'a dbTable option" where
  "dbTable_destroy t oid =
     (if \<not> dbTable_validId t oid then None
      else
        let (s, Q) = dbTable_pushQ (tbl_slots t) (tbl_free_list t) oid;
            t = t\<lparr>tbl_alloc_cnt := tbl_alloc_cnt t - 1, tbl_page_allocs := count_page (\<lambda>n. n - 1) t oid,
                  tbl_slots := s, tbl_free_list := Q\<rparr>
        in do {
          b \<leftarrow> (if oid = tbl_bottom t then dbTable_findBottom t else Some (tbl_bottom t));
          let t = t\<lparr>tbl_bottom := b\<rparr>;
          u \<leftarrow> (if oid = tbl_top t then dbTable_findTop t else Some (tbl_top t));
          Some (t\<lparr>tbl_top := u\<rparr>)
        })"

definition dbTable_begin :: "'a dbTable \<Rightarrow> nat" where
  "dbTable_begin t = tbl_bottom t"

definition dbTable_next :: "'a dbTable \<Rightarrow> nat \<Rightarrow> nat" where
  "dbTable_next t oid =
     (let oid = oid + 1 in
      if oid > tbl_top t then 0
      else
        let page_id = oid div tbl_page_size t in
        case first_alloc (tbl_slots t) [oid..<(page_id + 1) * tbl_page_size t] of
          Some n \<Rightarrow> n
        | None \<Rightarrow>
            (case find (valid_page t) [page_id + 1..<tbl_page_cnt t] of
               None \<Rightarrow> 0
             | Some page_id \<Rightarrow>
                 (case first_alloc (tbl_slots t) (page_ids t page_id) of Some n \<Rightarrow> n | None \<Rightarrow> 0)))"

text \<open>A field of an object is assigned through the pointer \<open>getPtr\<close> returns.\<close>

definition dbTable_update :: "'a dbTable \<Rightarrow> nat \<Rightarrow> ('a \<Rightarrow> 'a) \<Rightarrow> 'a dbTable" where
  "dbTable_update t oid f =
     (case dbTable_getPtr t oid of
        None \<Rightarrow> t | Some a \<Rightarrow> t\<lparr>tbl_slots := (tbl_slots t)[oid := Alloc (f a)]\<rparr>)"

section \<open>The free list\<close>

lemma is_alloc_update:
  "is_alloc (s[e := v]) i =
     (if i = e \<and> e < length s then (case v of Alloc _ \<Rightarrow> True | Free _ _ \<Rightarrow> False) else is_alloc s i)"
  by (cases "i = e"; cases "e < length s") (simp_all add: is_alloc_def list_update_beyond)

text \<open>\<open>free_chain s q p xs\<close>: from head \<open>q\<close> the free list runs through \<open>xs\<close>; \<open>p\<close> is the node before.\<close>

fun free_chain :: "'a slot list \<Rightarrow> nat \<Rightarrow> nat \<Rightarrow> nat list \<Rightarrow> bool" where
  "free_chain s q p [] \<longleftrightarrow> q = 0"
| "free_chain s q p (x # xs) \<longleftrightarrow>
     q = x \<and> x \<noteq> 0 \<and> x < length s \<and> (\<exists>n. s ! x = Free n p \<and> free_chain s n x xs)"

lemma free_chain_cong:
  "\<forall>x\<in>set xs. s' ! x = s ! x \<Longrightarrow> length s' = length s \<Longrightarrow> free_chain s' q p xs = free_chain s q p xs"
  by (induction xs arbitrary: q p) auto

lemma free_chain_range: "free_chain s q p xs \<Longrightarrow> x \<in> set xs \<Longrightarrow> x \<noteq> 0 \<and> x < length s \<and> \<not> is_alloc s x"
  by (induction xs arbitrary: q p) (auto simp: is_alloc_def)

lemma free_chain_update: "e \<notin> set xs \<Longrightarrow> free_chain (s[e := v]) q p xs = free_chain s q p xs"
  by (rule free_chain_cong) (metis nth_list_update_neq, simp)

lemma free_chain_prev:
  assumes "free_chain s x p (x # xs)" and "distinct (x # xs)"
  shows "free_chain (s[x := Free (fr_next (s ! x)) p']) x p' (x # xs)"
proof -
  from assms obtain n where "s ! x = Free n p" "free_chain s n x xs" by auto
  with assms show ?thesis by (auto simp: free_chain_update)
qed

lemma pushQ_chain:
  assumes c: "free_chain s q 0 xs" and d: "distinct xs" and e: "e \<noteq> 0" "e < length s" "e \<notin> set xs"
    and p: "dbTable_pushQ s q e = (s', q')"
  shows "free_chain s' q' 0 (e # xs)"
proof (cases xs)
  case Nil
  with c p e show ?thesis by (auto simp: dbTable_pushQ_def)
next
  case (Cons x ys)
  with c have q: "q = x" "x \<noteq> 0" by auto
  let ?s = "s[e := Free q 0]"
  have "free_chain ?s x 0 (x # ys)" using c e Cons q by (simp add: free_chain_update del: free_chain.simps)
  then have "free_chain (?s[x := Free (fr_next (?s ! x)) e]) x e (x # ys)"
    using d Cons by (intro free_chain_prev) auto
  moreover have "s' = ?s[x := Free (fr_next (?s ! x)) e]" "q' = e"
    using p q by (auto simp: dbTable_pushQ_def Let_def)
  ultimately show ?thesis using e Cons q by (auto simp del: free_chain.simps simp: free_chain.simps(2) [of _ _ _ e])
qed

lemma pushQ_slots:
  assumes c: "free_chain s q 0 xs" and e: "e < length s" and p: "dbTable_pushQ s q e = (s', q')"
  shows "length s' = length s" and "q' = e"
    and "i < length s \<Longrightarrow> is_alloc s' i \<longleftrightarrow> i \<noteq> e \<and> is_alloc s i"
    and "i < length s \<Longrightarrow> is_alloc s i \<Longrightarrow> i \<noteq> e \<Longrightarrow> s' ! i = s ! i"
proof -
  have q: "q \<noteq> 0 \<Longrightarrow> q < length s \<and> \<not> is_alloc s q"
    using c by (cases xs) (auto simp: is_alloc_def)
  have s': "s' = (if q \<noteq> 0 then (s[e := Free q 0])[q := Free (fr_next (s[e := Free q 0] ! q)) e] else s[e := Free q 0])"
    and "q' = e" using p by (auto simp: dbTable_pushQ_def Let_def)
  then show "length s' = length s" and "q' = e" by auto
  show "is_alloc s' i \<longleftrightarrow> i \<noteq> e \<and> is_alloc s i" if "i < length s"
    using that q e unfolding s' by (auto simp: is_alloc_update)
  show "s' ! i = s ! i" if "i < length s" "is_alloc s i" "i \<noteq> e"
    using that q e unfolding s' by (cases "i = q") auto
qed

lemma popQ_chain:
  assumes "free_chain s q 0 (x # xs)" and "distinct (x # xs)" and "dbTable_popQ s q = (s', q', e)"
  shows "e = x" and "free_chain s' q' 0 xs" and "length s' = length s"
    and "\<And>i. i < length s \<Longrightarrow> is_alloc s' i \<longleftrightarrow> is_alloc s i"
    and "\<And>i. i < length s \<Longrightarrow> is_alloc s i \<Longrightarrow> s' ! i = s ! i"
proof -
  from assms(1) obtain n where n: "q = x" "s ! x = Free n 0" "free_chain s n x xs" by auto
  with assms(3) have s': "s' = (if n \<noteq> 0 then s[n := Free (fr_next (s ! n)) 0] else s)"
    and q': "q' = n" "e = x" by (auto simp: dbTable_popQ_def Let_def)
  then show "e = x" and "length s' = length s" by auto
  show "free_chain s' q' 0 xs"
  proof (cases xs)
    case Nil
    with n q' show ?thesis by simp
  next
    case (Cons y ys)
    with n have "n = y" "y \<noteq> 0" by auto
    with n(3) Cons assms(2) show ?thesis
      using free_chain_prev [of s y x ys 0] by (simp add: s' q' del: free_chain.simps)
  qed
  have "n \<noteq> 0 \<Longrightarrow> n < length s \<and> \<not> is_alloc s n"
    using n(3) by (cases xs) (auto simp: is_alloc_def)
  then show "\<And>i. i < length s \<Longrightarrow> is_alloc s' i \<longleftrightarrow> is_alloc s i"
    and "\<And>i. i < length s \<Longrightarrow> is_alloc s i \<Longrightarrow> s' ! i = s ! i"
    by (auto simp: s' is_alloc_update) (metis nth_list_update_neq)
qed

section \<open>Searching by page\<close>

lemma find_append: "find P (xs @ ys) = (case find P xs of Some x \<Rightarrow> Some x | None \<Rightarrow> find P ys)"
  by (induction xs) auto

lemma find_None_set: "(\<And>x. x \<in> set xs \<Longrightarrow> \<not> P x) \<Longrightarrow> find P xs = None"
  by (induction xs) auto

lemma find_upt_Min:
  assumes "{i. lo \<le> i \<and> i < hi \<and> P i} \<noteq> {}"
  shows "find P [lo..<hi] = Some (Min {i. lo \<le> i \<and> i < hi \<and> P (i :: nat)})"
proof -
  let ?S = "{i. lo \<le> i \<and> i < hi \<and> P i}"
  have fin: "finite ?S" by simp
  have m: "Min ?S \<in> ?S" using fin assms by (rule Min_in)
  then have "[lo..<hi] = [lo..<Min ?S] @ Min ?S # [Suc (Min ?S)..<hi]"
    by (metis (mono_tags, lifting) less_imp_add_positive mem_Collect_eq order.strict_implies_order
        upt_add_eq_append upt_conv_Cons)
  moreover have "find P [lo..<Min ?S] = None"
  proof (rule find_None_set)
    fix x
    assume "x \<in> set [lo..<Min ?S]"
    then have x: "lo \<le> x" "x < Min ?S" by auto
    with m have "x < hi" by auto
    show "\<not> P x"
    proof
      assume "P x"
      with x \<open>x < hi\<close> have "Min ?S \<le> x" by (intro Min_le) auto
      with x show False by simp
    qed
  qed
  ultimately show ?thesis using m by (simp add: find_append)
qed

lemma find_rev_upt_Max:
  assumes "{i. lo \<le> i \<and> i < hi \<and> P i} \<noteq> {}"
  shows "find P (rev [lo..<hi]) = Some (Max {i. lo \<le> i \<and> i < hi \<and> P (i :: nat)})"
proof -
  let ?S = "{i. lo \<le> i \<and> i < hi \<and> P i}"
  have fin: "finite ?S" by simp
  have m: "Max ?S \<in> ?S" using fin assms by (rule Max_in)
  then have "[lo..<hi] = [lo..<Max ?S] @ Max ?S # [Suc (Max ?S)..<hi]"
    by (metis (mono_tags, lifting) less_imp_add_positive mem_Collect_eq order.strict_implies_order
        upt_add_eq_append upt_conv_Cons)
  moreover have "find P (rev [Suc (Max ?S)..<hi]) = None"
  proof (rule find_None_set)
    fix x
    assume "x \<in> set (rev [Suc (Max ?S)..<hi])"
    then have x: "Max ?S < x" "x < hi" by auto
    show "\<not> P x"
    proof
      assume "P x"
      with x m have "x \<le> Max ?S" by (intro Max_ge) auto
      with x show False by simp
    qed
  qed
  ultimately show ?thesis using m by (simp add: find_append)
qed

definition page_used :: "'a dbTable \<Rightarrow> nat \<Rightarrow> bool" where
  "page_used t page_id \<longleftrightarrow> (\<exists>i\<in>set (page_ids t page_id). is_alloc (tbl_slots t) i)"

lemma page_ids_append:
  "lo \<le> p * tbl_page_size t \<Longrightarrow>
     [lo..<Suc p * tbl_page_size t] = [lo..<p * tbl_page_size t] @ page_ids t p"
proof -
  assume "lo \<le> p * tbl_page_size t"
  moreover have "Suc p * tbl_page_size t = p * tbl_page_size t + tbl_page_size t" by simp
  ultimately show ?thesis
    using upt_add_eq_append [of lo "p * tbl_page_size t" "tbl_page_size t"]
    by (simp only: page_ids_def Suc_eq_plus1)
qed

lemma first_alloc_page:
  "find (is_alloc (tbl_slots t)) (page_ids t p) = None \<longleftrightarrow> \<not> page_used t p"
  by (auto simp: find_None_iff page_used_def)

lemma first_alloc_page_rev:
  "find (is_alloc (tbl_slots t)) (rev (page_ids t p)) = None \<longleftrightarrow> \<not> page_used t p"
  by (auto simp: find_None_iff page_used_def)

text \<open>Looking for the next page with an object and then in it is looking at all slots in order.\<close>

lemma page_search_up:
  "p \<le> n \<Longrightarrow>
   (do { q \<leftarrow> find (page_used t) [p..<n]; first_alloc (tbl_slots t) (page_ids t q) }) =
   find (is_alloc (tbl_slots t)) [p * tbl_page_size t..<n * tbl_page_size t]"
proof (induction n)
  case (Suc n)
  show ?case
  proof (cases "p = Suc n")
    case False
    then have p: "p \<le> n" using Suc.prems by simp
    have split: "[p * tbl_page_size t..<Suc n * tbl_page_size t] =
        [p * tbl_page_size t..<n * tbl_page_size t] @ page_ids t n"
      using p by (intro page_ids_append mult_le_mono1)
    show ?thesis
    proof (cases "find (page_used t) [p..<n]")
      case None
      then show ?thesis unfolding split using Suc.IH [OF p] p first_alloc_page [of t n]
        by (auto simp: find_append first_alloc_def split: option.splits)
    next
      case (Some q)
      then have v: "page_used t q" by (auto simp: find_Some_iff)
      then obtain i where "find (is_alloc (tbl_slots t)) (page_ids t q) = Some i"
        using first_alloc_page [of t q] by auto
      moreover from this Some Suc.IH [OF p]
      have "find (is_alloc (tbl_slots t)) [p * tbl_page_size t..<n * tbl_page_size t] = Some i"
        by (simp add: first_alloc_def)
      ultimately show ?thesis unfolding split using Some p by (simp add: find_append first_alloc_def)
    qed
  qed simp
qed simp

lemma page_search_down:
  "(do { q \<leftarrow> find (page_used t) (rev [0..<p]); first_alloc (tbl_slots t) (rev (page_ids t q)) }) =
   find (is_alloc (tbl_slots t)) (rev [0..<p * tbl_page_size t])"
proof (induction p)
  case (Suc p)
  have split: "[0..<Suc p * tbl_page_size t] = [0..<p * tbl_page_size t] @ page_ids t p"
    by (rule page_ids_append) simp
  show ?case
  proof (cases "page_used t p")
    case True
    then obtain i where "find (is_alloc (tbl_slots t)) (rev (page_ids t p)) = Some i"
      using first_alloc_page_rev [of t p] by auto
    with True show ?thesis unfolding split by (simp add: find_append first_alloc_def)
  next
    case False
    then have "find (is_alloc (tbl_slots t)) (rev (page_ids t p)) = None"
      using first_alloc_page_rev by blast
    with False Suc show ?thesis unfolding split by (simp add: find_append)
  qed
qed simp

section \<open>The invariant\<close>

definition tbl_ids :: "'a dbTable \<Rightarrow> nat set" where
  "tbl_ids t = {i. i < length (tbl_slots t) \<and> is_alloc (tbl_slots t) i}"

definition tbl_free_ok :: "'a slot list \<Rightarrow> nat \<Rightarrow> nat list \<Rightarrow> bool" where
  "tbl_free_ok s q xs \<longleftrightarrow> distinct xs \<and> free_chain s q 0 xs \<and>
     set xs = {i. i \<noteq> 0 \<and> i < length s \<and> \<not> is_alloc s i} \<and> (s \<noteq> [] \<longrightarrow> \<not> is_alloc s 0)"

definition tbl_counts :: "'a dbTable \<Rightarrow> bool" where
  "tbl_counts t \<longleftrightarrow> length (tbl_page_allocs t) = tbl_page_cnt t \<and>
     (\<forall>p<tbl_page_cnt t. tbl_page_allocs t ! p = card {i \<in> tbl_ids t. i div tbl_page_size t = p})"

definition tbl_shape :: "'a dbTable \<Rightarrow> bool" where
  "tbl_shape t \<longleftrightarrow> 1 < tbl_page_size t \<and> length (tbl_slots t) = tbl_page_cnt t * tbl_page_size t \<and> tbl_counts t \<and>
     (\<exists>xs. tbl_free_ok (tbl_slots t) (tbl_free_list t) xs)"

definition tbl_inv :: "'a dbTable \<Rightarrow> bool" where
  "tbl_inv t \<longleftrightarrow> tbl_shape t \<and> tbl_alloc_cnt t = card (tbl_ids t) \<and>
     tbl_bottom t = (if tbl_ids t = {} then 0 else Min (tbl_ids t)) \<and>
     tbl_top t = (if tbl_ids t = {} then 0 else Max (tbl_ids t))"

lemma finite_tbl_ids [simp]: "finite (tbl_ids t)"
  by (simp add: tbl_ids_def)

lemma tbl_ids_not_0: "tbl_shape t \<Longrightarrow> 0 \<notin> tbl_ids t"
  unfolding tbl_shape_def tbl_free_ok_def tbl_ids_def by fastforce

lemma tbl_page_less: "tbl_shape t \<Longrightarrow> i div tbl_page_size t < tbl_page_cnt t \<longleftrightarrow> i < length (tbl_slots t)"
  by (simp add: tbl_shape_def div_less_iff_less_mult)

lemma validId_iff: "tbl_shape t \<Longrightarrow> dbTable_validId t i \<longleftrightarrow> i \<in> tbl_ids t"
  using tbl_ids_not_0 [of t]
  by (cases "i = 0") (simp_all add: dbTable_validId_def tbl_page_less tbl_ids_def)

lemma getPtr_eq:
  "tbl_shape t \<Longrightarrow> dbTable_getPtr t i = (if i \<in> tbl_ids t then Some (obj (tbl_slots t ! i)) else None)"
  using tbl_ids_not_0 [of t]
  by (cases "i = 0")
     (auto simp: dbTable_getPtr_def tbl_page_less tbl_ids_def is_alloc_def split: slot.splits)

text \<open>The counts of the pages say which pages hold an object.\<close>

lemma valid_page_iff: "tbl_shape t \<Longrightarrow> p < tbl_page_cnt t \<Longrightarrow> valid_page t p \<longleftrightarrow> page_used t p"
proof -
  assume t: "tbl_shape t" and p: "p < tbl_page_cnt t"
  have ps: "0 < tbl_page_size t" using t by (simp add: tbl_shape_def)
  have "i \<in> set (page_ids t p) \<longleftrightarrow> i div tbl_page_size t = p" for i
    using ps dividend_less_div_times [OF ps, of i]
    by (auto simp: page_ids_def div_nat_eqI mult.commute add.commute)
  moreover have "i < length (tbl_slots t)" if "i div tbl_page_size t = p" for i
    using tbl_page_less [OF t, of i] that p by simp
  ultimately have "page_used t p \<longleftrightarrow> {i \<in> tbl_ids t. i div tbl_page_size t = p} \<noteq> {}"
    by (auto simp: page_used_def tbl_ids_def)
  also have "\<dots> \<longleftrightarrow> tbl_page_allocs t ! p \<noteq> 0" using t p by (simp add: tbl_shape_def tbl_counts_def)
  finally show ?thesis by (simp add: valid_page_def)
qed

lemma find_valid_page:
  "tbl_shape t \<Longrightarrow> (\<And>p. p \<in> set ps \<Longrightarrow> p < tbl_page_cnt t) \<Longrightarrow> find (valid_page t) ps = find (page_used t) ps"
  by (intro find_cong) (simp_all add: valid_page_iff)

lemma tbl_counts_cong:
  "tbl_counts t \<Longrightarrow> tbl_page_allocs t' = tbl_page_allocs t \<Longrightarrow> tbl_page_cnt t' = tbl_page_cnt t \<Longrightarrow>
     tbl_page_size t' = tbl_page_size t \<Longrightarrow> tbl_ids t' = tbl_ids t \<Longrightarrow> tbl_counts t'"
  by (simp add: tbl_counts_def)

lemma tbl_counts_step:
  assumes t: "tbl_counts t" and p: "i div tbl_page_size t < tbl_page_cnt t"
    and f: "f (card {j \<in> tbl_ids t. j div tbl_page_size t = i div tbl_page_size t}) =
      card {j \<in> tbl_ids t'. j div tbl_page_size t = i div tbl_page_size t}"
    and other: "\<And>j. j \<noteq> i \<Longrightarrow> j \<in> tbl_ids t' \<longleftrightarrow> j \<in> tbl_ids t"
    and t': "tbl_page_allocs t' = count_page f t i" "tbl_page_cnt t' = tbl_page_cnt t" "tbl_page_size t' = tbl_page_size t"
  shows "tbl_counts t'"
proof -
  let ?ps = "tbl_page_size t"
  have "count_page f t i ! p = card {j \<in> tbl_ids t'. j div ?ps = p}" if "p < tbl_page_cnt t" for p
  proof (cases "p = i div ?ps")
    case True
    then show ?thesis using t that f by (simp add: count_page_def tbl_counts_def Let_def)
  next
    case False
    then have "{j \<in> tbl_ids t'. j div ?ps = p} = {j \<in> tbl_ids t. j div ?ps = p}"
      using other by (intro Collect_cong) metis
    then show ?thesis using t that False by (simp add: count_page_def tbl_counts_def Let_def)
  qed
  then show ?thesis using t by (simp add: tbl_counts_def t' count_page_def Let_def)
qed

lemma mk_dbTable_inv: "1 < n \<Longrightarrow> tbl_inv (mk_dbTable n)"
  by (auto simp: tbl_inv_def tbl_shape_def tbl_counts_def tbl_free_ok_def tbl_ids_def mk_dbTable_def intro: exI [of _ "[]"])

section \<open>create\<close>

lemma pushQ_foldr:
  assumes "free_chain s q 0 xs" and "distinct (ids @ xs)"
    and "\<forall>i\<in>set ids. i \<noteq> 0 \<and> i < length s \<and> \<not> is_alloc s i"
    and "foldr (\<lambda>i (s, Q). dbTable_pushQ s Q i) ids (s, q) = (s', q')"
  shows "free_chain s' q' 0 (ids @ xs) \<and> length s' = length s \<and>
    (\<forall>i < length s. (is_alloc s' i \<longleftrightarrow> is_alloc s i) \<and> (is_alloc s i \<longrightarrow> s' ! i = s ! i))"
  using assms(2-4)
proof (induction ids arbitrary: s' q')
  case Nil
  then show ?case using assms(1) by simp
next
  case (Cons e ids)
  obtain s1 q1 where f: "foldr (\<lambda>i (s, Q). dbTable_pushQ s Q i) ids (s, q) = (s1, q1)" by fastforce
  with Cons have IH: "free_chain s1 q1 0 (ids @ xs)" "length s1 = length s"
    "\<forall>i < length s. (is_alloc s1 i \<longleftrightarrow> is_alloc s i) \<and> (is_alloc s i \<longrightarrow> s1 ! i = s ! i)" by auto
  have p: "dbTable_pushQ s1 q1 e = (s', q')" using Cons.prems f by simp
  have e: "e \<noteq> 0" "e < length s1" "e \<notin> set (ids @ xs)" "\<not> is_alloc s e"
    using Cons.prems IH by auto
  have "free_chain s' q' 0 (e # ids @ xs)"
    using Cons.prems e by (intro pushQ_chain [OF IH(1) _ _ _ _ p]) auto
  then show ?case using pushQ_slots [OF IH(1) e(2) p] IH e by auto
qed

lemma newPage_shape:
  assumes "tbl_shape t" and "tbl_free_list t = 0"
  shows "tbl_shape (dbTable_newPage t)" and "tbl_free_list (dbTable_newPage t) \<noteq> 0"
    and "tbl_ids (dbTable_newPage t) = tbl_ids t"
    and "i \<in> tbl_ids t \<Longrightarrow> tbl_slots (dbTable_newPage t) ! i = tbl_slots t ! i"
    and "tbl_alloc_cnt (dbTable_newPage t) = tbl_alloc_cnt t \<and> tbl_top (dbTable_newPage t) = tbl_top t \<and>
         tbl_bottom (dbTable_newPage t) = tbl_bottom t"
proof -
  let ?ps = "tbl_page_size t" and ?s = "tbl_slots t" and ?n = "tbl_page_cnt t"
  let ?z = "?s @ replicate ?ps (Free 0 0)"
  let ?ids = "if ?n = 0 then [1..<?ps] else [?n * ?ps..<?n * ?ps + ?ps]"
  have ps: "1 < ?ps" and len: "length ?s = ?n * ?ps"
    using assms(1) unfolding tbl_shape_def by blast+
  obtain xs where xs: "tbl_free_ok ?s (tbl_free_list t) xs"
    using assms(1) unfolding tbl_shape_def by blast
  with assms(2) have "xs = []" by (cases xs) (auto simp: tbl_free_ok_def)
  with xs have full: "\<forall>i. i \<noteq> 0 \<and> i < length ?s \<longrightarrow> is_alloc ?s i" "?s \<noteq> [] \<longrightarrow> \<not> is_alloc ?s 0"
    by (auto simp: tbl_free_ok_def)
  have old: "is_alloc ?z i \<longleftrightarrow> is_alloc ?s i" if "i < length ?s" for i
    using that by (simp add: is_alloc_def nth_append)
  have new: "\<not> is_alloc ?z i" if "length ?s \<le> i" "i < length ?z" for i
    using that by (simp add: is_alloc_def nth_append)
  obtain s' q' where f: "foldr (\<lambda>i (s, Q). dbTable_pushQ s Q i) ?ids (?z, 0) = (s', q')" by fastforce
  have nz: "0 < x" if "?n * ?ps \<le> x" "0 < ?n" for x
  proof -
    have "0 < ?n * ?ps" using ps that by simp
    with that show ?thesis by linarith
  qed
  have ids: "\<forall>i\<in>set ?ids. i \<noteq> 0 \<and> i < length ?z \<and> \<not> is_alloc ?z i"
    using len ps new by (auto intro: nz)
  have push: "free_chain s' q' 0 ?ids" "length s' = length ?z"
    "\<forall>i < length ?z. (is_alloc s' i \<longleftrightarrow> is_alloc ?z i) \<and> (is_alloc ?z i \<longrightarrow> s' ! i = ?z ! i)"
    using pushQ_foldr [OF _ _ ids f, of "[]"] by auto
  have t': "tbl_slots (dbTable_newPage t) = s'" "tbl_free_list (dbTable_newPage t) = q'"
    "tbl_page_cnt (dbTable_newPage t) = ?n + 1" "tbl_page_size (dbTable_newPage t) = ?ps"
    and "tbl_alloc_cnt (dbTable_newPage t) = tbl_alloc_cnt t \<and> tbl_top (dbTable_newPage t) = tbl_top t \<and>
      tbl_bottom (dbTable_newPage t) = tbl_bottom t"
    using f assms(2) by (auto simp: dbTable_newPage_def dbTable_resizePageTbl_def Let_def split: prod.splits)
  then show "tbl_alloc_cnt (dbTable_newPage t) = tbl_alloc_cnt t \<and> tbl_top (dbTable_newPage t) = tbl_top t \<and>
      tbl_bottom (dbTable_newPage t) = tbl_bottom t" by blast
  have "?ids \<noteq> []" using ps by auto
  then show "tbl_free_list (dbTable_newPage t) \<noteq> 0" using push(1) t' by (cases ?ids) auto
  have "set ?ids = {i. i \<noteq> 0 \<and> i < length s' \<and> \<not> is_alloc s' i}"
  proof (intro set_eqI iffI)
    fix i
    assume "i \<in> {i. i \<noteq> 0 \<and> i < length s' \<and> \<not> is_alloc s' i}"
    then have i: "i \<noteq> 0" "i < length ?z" "\<not> is_alloc ?z i" using push by auto
    then have "\<not> i < length ?s" using full(1) old by blast
    with i len show "i \<in> set ?ids" by (cases "?n = 0") auto
  next
    fix i
    assume "i \<in> set ?ids"
    with ids have "i \<noteq> 0 \<and> i < length ?z \<and> \<not> is_alloc ?z i" by blast
    with push(2,3) show "i \<in> {i. i \<noteq> 0 \<and> i < length s' \<and> \<not> is_alloc s' i}" by simp
  qed
  moreover have "\<not> is_alloc s' 0"
  proof -
    have "0 < length ?z" using ps by simp
    moreover from this have "\<not> is_alloc ?z 0"
      using full(2) old [of 0] new [of 0] by (cases "?s = []") simp_all
    ultimately show ?thesis using push(3) by blast
  qed
  ultimately have "tbl_free_ok s' q' ?ids" using push(1) by (simp add: tbl_free_ok_def)
  then have free: "\<exists>xs. tbl_free_ok (tbl_slots (dbTable_newPage t)) (tbl_free_list (dbTable_newPage t)) xs"
    using t' by auto
  show ids': "tbl_ids (dbTable_newPage t) = tbl_ids t"
  proof (intro set_eqI)
    fix i
    show "i \<in> tbl_ids (dbTable_newPage t) \<longleftrightarrow> i \<in> tbl_ids t"
      using push(2,3) old [of i] new [of i]
      by (cases "i < length ?s") (auto simp: tbl_ids_def t' not_less)
  qed
  have "tbl_page_allocs (dbTable_newPage t) = tbl_page_allocs t @ [0]"
    using f assms(2) by (auto simp: dbTable_newPage_def dbTable_resizePageTbl_def Let_def split: prod.splits)
  moreover have "i div ?ps \<noteq> ?n" if "i \<in> tbl_ids t" for i
    using tbl_page_less [OF assms(1), of i] that by (simp add: tbl_ids_def)
  then have "{i \<in> tbl_ids t. i div ?ps = ?n} = {}" by blast
  moreover have "length (tbl_page_allocs t) = ?n"
    "\<forall>p<?n. tbl_page_allocs t ! p = card {i \<in> tbl_ids t. i div ?ps = p}"
    using assms(1) by (simp_all add: tbl_shape_def tbl_counts_def)
  ultimately have "tbl_counts (dbTable_newPage t)"
    unfolding tbl_counts_def ids' t'(3,4) by (simp add: nth_append less_Suc_eq)
  then show "tbl_shape (dbTable_newPage t)" using ps len push(2) t' free by (simp add: tbl_shape_def)
  show "tbl_slots (dbTable_newPage t) ! i = ?s ! i" if "i \<in> tbl_ids t"
    using that push old by (auto simp: tbl_ids_def t' nth_append)
qed

text \<open>Taking the head of a non-empty free list for a new object.\<close>

lemma alloc_shape:
  assumes t: "tbl_shape t" and q: "tbl_free_list t \<noteq> 0"
    and p: "dbTable_popQ (tbl_slots t) (tbl_free_list t) = (s, q', i)"
    and t': "tbl_slots t' = s[i := Alloc a]" "tbl_free_list t' = q'"
      "tbl_page_size t' = tbl_page_size t" "tbl_page_cnt t' = tbl_page_cnt t"
      "tbl_page_allocs t' = count_page (\<lambda>n. n + 1) t i"
  shows "tbl_shape t'" and "i \<noteq> 0" and "i \<notin> tbl_ids t" and "tbl_ids t' = insert i (tbl_ids t)"
    and "\<forall>j\<in>tbl_ids t. tbl_slots t' ! j = tbl_slots t ! j" and "tbl_slots t' ! i = Alloc a"
proof -
  let ?s = "tbl_slots t"
  obtain xs where xs: "tbl_free_ok ?s (tbl_free_list t) xs" using t unfolding tbl_shape_def by blast
  then obtain x ys where ys: "xs = x # ys" using q by (cases xs) (auto simp: tbl_free_ok_def)
  have c: "free_chain ?s (tbl_free_list t) 0 (x # ys)" "distinct (x # ys)"
    using xs ys by (simp_all add: tbl_free_ok_def)
  note pop = popQ_chain [OF c p]
  have x: "x \<noteq> 0" "x < length ?s" "\<not> is_alloc ?s x" using free_chain_range [OF c(1)] by auto
  then show "i \<noteq> 0" and "i \<notin> tbl_ids t" and "tbl_slots t' ! i = Alloc a"
    using pop(1,3) by (simp_all add: tbl_ids_def t')
  have al: "is_alloc (s[i := Alloc a]) j \<longleftrightarrow> j = x \<or> is_alloc ?s j" if "j < length ?s" for j
    using pop(1,3,4) x that by (simp add: is_alloc_update)
  then show ids: "tbl_ids t' = insert i (tbl_ids t)"
    using pop(1,3) x by (auto simp: tbl_ids_def t')
  have "{j \<in> tbl_ids t'. j div tbl_page_size t = i div tbl_page_size t} =
      insert i {j \<in> tbl_ids t. j div tbl_page_size t = i div tbl_page_size t}" by (auto simp: ids)
  moreover have "i \<notin> tbl_ids t" "i < length ?s" using pop(1,3) x by (simp_all add: tbl_ids_def)
  moreover from this(2) have "i div tbl_page_size t < tbl_page_cnt t" using tbl_page_less [OF t] by blast
  moreover have "tbl_counts t" using t by (simp add: tbl_shape_def)
  ultimately have "tbl_counts t'"
    by - (rule tbl_counts_step [of t i "\<lambda>n. n + 1"], simp_all add: t'(3-5) ids)
  show "\<forall>j\<in>tbl_ids t. tbl_slots t' ! j = ?s ! j"
  proof
    fix j
    assume "j \<in> tbl_ids t"
    then have j: "j < length ?s" "is_alloc ?s j" by (simp_all add: tbl_ids_def)
    with x have "j \<noteq> x" by blast
    with j pop(1,5) show "tbl_slots t' ! j = ?s ! j" by (simp add: t')
  qed
  have "free_chain (s[i := Alloc a]) q' 0 ys"
    using pop(1,2) c(2) by (simp add: free_chain_update)
  moreover have "set ys = {j. j \<noteq> 0 \<and> j < length (s[i := Alloc a]) \<and> \<not> is_alloc (s[i := Alloc a]) j}"
    using xs ys c(2) al pop(3) by (auto simp: tbl_free_ok_def)
  moreover have "\<not> is_alloc (s[i := Alloc a]) 0" if "s[i := Alloc a] \<noteq> []"
  proof -
    from that pop(3) have "?s \<noteq> []" by auto
    with xs al [of 0] x show ?thesis by (simp add: tbl_free_ok_def)
  qed
  ultimately have "tbl_free_ok (s[i := Alloc a]) q' ys" using c(2) by (simp add: tbl_free_ok_def)
  then show "tbl_shape t'" using t pop(3) \<open>tbl_counts t'\<close> by (auto simp: tbl_shape_def t')
qed

lemma tbl_bounds_insert:
  assumes "finite S" and "i \<noteq> (0 :: nat)" and "0 \<notin> S"
  shows "max i (if S = {} then 0 else Max S) = Max (insert i S)"
    and "(if (if S = {} then 0 else Min S) = 0 \<or> i < (if S = {} then 0 else Min S) then i
          else (if S = {} then 0 else Min S)) = Min (insert i S)"
proof -
  show "max i (if S = {} then 0 else Max S) = Max (insert i S)" using assms by simp
  define m where "m = Min S"
  have m: "S \<noteq> {} \<Longrightarrow> m \<noteq> 0" using assms Min_in unfolding m_def by metis
  have "Min (insert i S) = (if S = {} then i else min i m)" using assms by (simp add: m_def)
  with m show "(if (if S = {} then 0 else Min S) = 0 \<or> i < (if S = {} then 0 else Min S) then i
          else (if S = {} then 0 else Min S)) = Min (insert i S)"
    by (simp only: m_def [symmetric] min_def) auto
qed

lemma dbTable_create_correct:
  assumes t: "tbl_inv t" and c: "dbTable_create t a = (i, t')"
  shows "tbl_inv t' \<and> i \<noteq> 0 \<and> i \<notin> tbl_ids t \<and> dbTable_getPtr t' = (dbTable_getPtr t)(i \<mapsto> a) \<and>
    tbl_page_size t' = tbl_page_size t"
proof -
  let ?t0 = "t\<lparr>tbl_alloc_cnt := tbl_alloc_cnt t + 1\<rparr>"
  define t1 where "t1 = (if tbl_free_list ?t0 = 0 then dbTable_newPage ?t0 else ?t0)"
  have sh: "tbl_shape t" using t by (simp add: tbl_inv_def)
  then have sh0: "tbl_shape ?t0" by (simp add: tbl_shape_def tbl_counts_def tbl_ids_def)
  have ids0: "tbl_ids ?t0 = tbl_ids t" by (simp add: tbl_ids_def)
  have one: "tbl_shape t1" "tbl_free_list t1 \<noteq> 0" "tbl_ids t1 = tbl_ids t"
    "\<forall>j\<in>tbl_ids t. tbl_slots t1 ! j = tbl_slots t ! j"
    "tbl_alloc_cnt t1 = tbl_alloc_cnt t + 1" "tbl_top t1 = tbl_top t" "tbl_bottom t1 = tbl_bottom t"
    using newPage_shape [OF sh0] sh0 ids0 unfolding t1_def by auto
  have psz: "tbl_page_size t1 = tbl_page_size t"
    by (simp add: t1_def dbTable_newPage_def dbTable_resizePageTbl_def Let_def split: prod.splits)
  obtain s q' where p: "dbTable_popQ (tbl_slots t1) (tbl_free_list t1) = (s, q', i)"
    and t': "t' = t1\<lparr>tbl_slots := s[i := Alloc a], tbl_free_list := q',
        tbl_page_allocs := count_page (\<lambda>n. n + 1) t1 i, tbl_top := max i (tbl_top t1),
        tbl_bottom := (if tbl_bottom t1 = 0 \<or> i < tbl_bottom t1 then i else tbl_bottom t1)\<rparr>"
    using c unfolding dbTable_create_def Let_def t1_def [symmetric] by (auto split: prod.splits)
  note al = alloc_shape [OF one(1,2) p, of t' a]
  have al': "tbl_shape t'" "i \<noteq> 0" "i \<notin> tbl_ids t" "tbl_ids t' = insert i (tbl_ids t)"
    "\<forall>j\<in>tbl_ids t. tbl_slots t' ! j = tbl_slots t ! j" "tbl_slots t' ! i = Alloc a"
    using al one(3,4) unfolding t' by simp_all
  have eqs: "tbl_alloc_cnt t = card (tbl_ids t)"
    "tbl_bottom t = (if tbl_ids t = {} then 0 else Min (tbl_ids t))"
    "tbl_top t = (if tbl_ids t = {} then 0 else Max (tbl_ids t))"
    using t unfolding tbl_inv_def by blast+
  note b = tbl_bounds_insert [OF finite_tbl_ids al'(2) tbl_ids_not_0 [OF sh]]
  have "tbl_top t' = max i (tbl_top t)" using one by (simp add: t')
  then have top: "tbl_top t' = Max (insert i (tbl_ids t))" unfolding eqs b .
  have "tbl_bottom t' = (if tbl_bottom t = 0 \<or> i < tbl_bottom t then i else tbl_bottom t)"
    using one by (simp add: t')
  then have bot: "tbl_bottom t' = Min (insert i (tbl_ids t))" unfolding eqs b .
  have "tbl_alloc_cnt t' = card (insert i (tbl_ids t))" using one eqs al'(3) by (simp add: t')
  then have "tbl_inv t'" using al'(1) top bot by (simp add: tbl_inv_def al'(4))
  moreover have "dbTable_getPtr t' = (dbTable_getPtr t)(i \<mapsto> a)"
    using al' by (auto simp: getPtr_eq [OF al'(1)] getPtr_eq [OF sh] fun_eq_iff)
  ultimately show ?thesis using al' psz by (simp add: t')
qed

section \<open>The cached bounds and the iterator\<close>

definition min_id :: "nat set \<Rightarrow> nat" where
  "min_id S = (if S = {} then 0 else Min S)"

definition max_id :: "nat set \<Rightarrow> nat" where
  "max_id S = (if S = {} then 0 else Max S)"

lemma page_end_le: "tbl_shape t \<Longrightarrow> i < length (tbl_slots t) \<Longrightarrow>
    i < (i div tbl_page_size t + 1) * tbl_page_size t \<and>
    (i div tbl_page_size t + 1) * tbl_page_size t \<le> length (tbl_slots t)"
proof -
  assume t: "tbl_shape t" and i: "i < length (tbl_slots t)"
  then have "i div tbl_page_size t < tbl_page_cnt t" by (simp add: tbl_page_less)
  then have "(i div tbl_page_size t + 1) * tbl_page_size t \<le> tbl_page_cnt t * tbl_page_size t"
    by (intro mult_le_mono1) simp
  moreover have "0 < tbl_page_size t" using t by (simp add: tbl_shape_def)
  then have "i < (i div tbl_page_size t + 1) * tbl_page_size t"
    using dividend_less_div_times [of "tbl_page_size t" i] by (simp add: add.commute)
  ultimately show ?thesis using t by (simp add: tbl_shape_def)
qed

lemma upt_split: "i \<le> j \<Longrightarrow> j \<le> k \<Longrightarrow> [i..<k] = [i..<j] @ [j..<k]"
  using upt_add_eq_append [of i j "k - j"] by simp

lemma find_above:
  assumes "{j \<in> tbl_ids t. i \<le> j} \<noteq> {}"
  shows "find (is_alloc (tbl_slots t)) [i..<length (tbl_slots t)] = Some (Min {j \<in> tbl_ids t. i \<le> j})"
proof -
  have "{j. i \<le> j \<and> j < length (tbl_slots t) \<and> is_alloc (tbl_slots t) j} = {j \<in> tbl_ids t. i \<le> j}"
    by (auto simp: tbl_ids_def)
  with assms find_upt_Min show ?thesis by metis
qed

lemma find_above_None:
  "{j \<in> tbl_ids t. i \<le> j} = {} \<Longrightarrow> find (is_alloc (tbl_slots t)) [i..<length (tbl_slots t)] = None"
  by (rule find_None_set) (auto simp: tbl_ids_def)

lemma find_below:
  assumes "{j \<in> tbl_ids t. j < i} \<noteq> {}" and "i \<le> length (tbl_slots t)"
  shows "find (is_alloc (tbl_slots t)) (rev [0..<i]) = Some (Max {j \<in> tbl_ids t. j < i})"
proof -
  have "{j. 0 \<le> j \<and> j < i \<and> is_alloc (tbl_slots t) j} = {j \<in> tbl_ids t. j < i}"
    using assms(2) by (auto simp: tbl_ids_def)
  with assms find_rev_upt_Max show ?thesis by metis
qed

text \<open>The rest of a page and then the pages after it: all slots from \<open>i\<close> on.\<close>

lemma search_from:
  assumes t: "tbl_shape t" and i: "i < length (tbl_slots t)" and lo: "lo \<le> i + 1" "i \<le> lo"
  shows "find (is_alloc (tbl_slots t)) [lo..<length (tbl_slots t)] =
    (case first_alloc (tbl_slots t) [lo..<(i div tbl_page_size t + 1) * tbl_page_size t] of
       Some n \<Rightarrow> Some n
     | None \<Rightarrow> (do { q \<leftarrow> find (page_used t) [i div tbl_page_size t + 1..<tbl_page_cnt t];
                    first_alloc (tbl_slots t) (page_ids t q) }))"
proof -
  let ?p = "i div tbl_page_size t + 1"
  have len: "length (tbl_slots t) = tbl_page_cnt t * tbl_page_size t" using t by (simp add: tbl_shape_def)
  have e: "lo \<le> ?p * tbl_page_size t" "?p * tbl_page_size t \<le> length (tbl_slots t)"
    using page_end_le [OF t i] lo by auto
  have "?p \<le> tbl_page_cnt t" using tbl_page_less [OF t, of i] i by simp
  note up = page_search_up [OF this, unfolded first_alloc_def]
  show ?thesis
    unfolding upt_split [OF e] find_append first_alloc_def up len [symmetric] ..
qed

lemma findBottom_correct:
  assumes t: "tbl_shape t" and cnt: "tbl_alloc_cnt t = card (tbl_ids t)"
    and b: "tbl_bottom t < length (tbl_slots t)" "\<forall>j\<in>tbl_ids t. tbl_bottom t < j"
  shows "dbTable_findBottom t = Some (min_id (tbl_ids t))"
proof (cases "tbl_ids t = {}")
  case True
  then show ?thesis using cnt by (simp add: dbTable_findBottom_def min_id_def)
next
  case False
  let ?b = "tbl_bottom t" and ?p = "tbl_bottom t div tbl_page_size t"
  have all: "{j \<in> tbl_ids t. ?b + 1 \<le> j} = tbl_ids t" using b by auto
  have F: "find (is_alloc (tbl_slots t)) [?b + 1..<length (tbl_slots t)] = Some (Min (tbl_ids t))"
    using find_above [of t "?b + 1", unfolded all] False by blast
  have S: "Some (Min (tbl_ids t)) = (case first_alloc (tbl_slots t) [?b + 1..<(?p + 1) * tbl_page_size t] of
       Some n \<Rightarrow> Some n
     | None \<Rightarrow> (do { q \<leftarrow> find (page_used t) [?p + 1..<tbl_page_cnt t];
                    first_alloc (tbl_slots t) (page_ids t q) }))"
    using search_from [OF t b(1), of "?b + 1"] unfolding F by simp
  have v: "page_used t ?p \<longleftrightarrow> first_alloc (tbl_slots t) [?b + 1..<(?p + 1) * tbl_page_size t] \<noteq> None"
  proof
    assume "page_used t ?p"
    then obtain j where j: "?p * tbl_page_size t \<le> j" "j < (?p + 1) * tbl_page_size t"
      "is_alloc (tbl_slots t) j" by (auto simp: page_used_def page_ids_def)
    with page_end_le [OF t b(1)] have "j \<in> tbl_ids t" by (simp add: tbl_ids_def)
    with b j have "j \<in> set [?b + 1..<(?p + 1) * tbl_page_size t]" by (simp add: Suc_le_eq)
    with j show "first_alloc (tbl_slots t) [?b + 1..<(?p + 1) * tbl_page_size t] \<noteq> None"
      unfolding first_alloc_def find_None_iff by blast
  next
    assume "first_alloc (tbl_slots t) [?b + 1..<(?p + 1) * tbl_page_size t] \<noteq> None"
    then obtain j where j: "?b < j" "j < (?p + 1) * tbl_page_size t" "is_alloc (tbl_slots t) j"
      by (auto simp: first_alloc_def find_None_iff Suc_le_eq)
    have "?p * tbl_page_size t \<le> ?b" by (rule div_times_less_eq_dividend)
    with j(1) have "?p * tbl_page_size t \<le> j" by linarith
    with j(2,3) show "page_used t ?p" by (auto simp: page_used_def page_ids_def intro!: bexI [of _ j])
  qed
  have "tbl_alloc_cnt t \<noteq> 0" using cnt False by simp
  moreover have "valid_page t ?p \<longleftrightarrow> page_used t ?p"
    using valid_page_iff [OF t] tbl_page_less [OF t, of ?b] b(1) by blast
  moreover have "find (valid_page t) [?p + 1..<tbl_page_cnt t] = find (page_used t) [?p + 1..<tbl_page_cnt t]"
    by (rule find_valid_page [OF t]) simp
  ultimately show ?thesis using S v False
    by (auto simp: dbTable_findBottom_def min_id_def Let_def split: option.splits)
qed

lemma findTop_correct:
  assumes t: "tbl_shape t" and cnt: "tbl_alloc_cnt t = card (tbl_ids t)"
    and u: "tbl_top t < length (tbl_slots t)" "\<forall>j\<in>tbl_ids t. j < tbl_top t"
  shows "dbTable_findTop t = Some (max_id (tbl_ids t))"
proof (cases "tbl_ids t = {}")
  case True
  then show ?thesis using cnt by (simp add: dbTable_findTop_def max_id_def)
next
  case False
  let ?u = "tbl_top t" and ?p = "tbl_top t div tbl_page_size t"
  have all: "{j \<in> tbl_ids t. j < ?u} = tbl_ids t" using u by auto
  have F: "find (is_alloc (tbl_slots t)) (rev [0..<?u]) = Some (Max (tbl_ids t))"
    using find_below [of t ?u, unfolded all] False u by simp
  have le: "?p * tbl_page_size t \<le> ?u" by (rule div_times_less_eq_dividend)
  have S: "Some (Max (tbl_ids t)) = (case first_alloc (tbl_slots t) (rev [?p * tbl_page_size t..<?u]) of
       Some n \<Rightarrow> Some n
     | None \<Rightarrow> (do { q \<leftarrow> find (page_used t) (rev [0..<?p]);
                    first_alloc (tbl_slots t) (rev (page_ids t q)) }))"
    using F unfolding upt_split [OF le0 le] rev_append find_append first_alloc_def
      page_search_down [unfolded first_alloc_def] by simp
  have v: "page_used t ?p \<longleftrightarrow> first_alloc (tbl_slots t) (rev [?p * tbl_page_size t..<?u]) \<noteq> None"
  proof
    assume "page_used t ?p"
    then obtain j where j: "?p * tbl_page_size t \<le> j" "j < (?p + 1) * tbl_page_size t"
      "is_alloc (tbl_slots t) j" by (auto simp: page_used_def page_ids_def)
    with page_end_le [OF t u(1)] have "j \<in> tbl_ids t" by (simp add: tbl_ids_def)
    with u j show "first_alloc (tbl_slots t) (rev [?p * tbl_page_size t..<?u]) \<noteq> None"
      by (auto simp: first_alloc_def find_None_iff)
  next
    assume "first_alloc (tbl_slots t) (rev [?p * tbl_page_size t..<?u]) \<noteq> None"
    then obtain j where "j < ?u" "?p * tbl_page_size t \<le> j" "is_alloc (tbl_slots t) j"
      by (auto simp: first_alloc_def find_None_iff)
    moreover have "?u < (?p + 1) * tbl_page_size t" using page_end_le [OF t u(1)] by simp
    ultimately show "page_used t ?p" by (auto simp: page_used_def page_ids_def intro!: bexI [of _ j])
  qed
  have "tbl_alloc_cnt t \<noteq> 0" using cnt False by simp
  moreover have p: "?p < tbl_page_cnt t" using tbl_page_less [OF t, of ?u] u(1) by blast
  moreover from p have "valid_page t ?p \<longleftrightarrow> page_used t ?p" by (rule valid_page_iff [OF t])
  moreover from p have "find (valid_page t) (rev [0..<?p]) = find (page_used t) (rev [0..<?p])"
    by (intro find_valid_page [OF t]) simp
  ultimately show ?thesis using S v False
    by (auto simp: dbTable_findTop_def max_id_def Let_def split: option.splits)
qed

lemma next_correct:
  assumes t: "tbl_inv t"
  shows "dbTable_next t i = min_id {j \<in> tbl_ids t. i < j}"
proof (cases "i + 1 > tbl_top t")
  case True
  have "j \<le> tbl_top t" if "j \<in> tbl_ids t" for j
    using t that by (auto simp: tbl_inv_def)
  with True have "{j \<in> tbl_ids t. i < j} = {}" by force
  with True show ?thesis by (simp add: dbTable_next_def min_id_def)
next
  case False
  have sh: "tbl_shape t" using t by (simp add: tbl_inv_def)
  have ne: "tbl_ids t \<noteq> {}" and top: "tbl_top t = Max (tbl_ids t)"
    using t False by (auto simp: tbl_inv_def split: if_splits)
  then have "tbl_top t \<in> tbl_ids t" by simp
  then have mem: "tbl_top t \<in> {j \<in> tbl_ids t. i + 1 \<le> j}" and len: "i + 1 < length (tbl_slots t)"
    using False by (auto simp: tbl_ids_def)
  then have "find (is_alloc (tbl_slots t)) [i + 1..<length (tbl_slots t)] = Some (Min {j \<in> tbl_ids t. i + 1 \<le> j})"
    by (intro find_above) auto
  moreover have "find (valid_page t) [(i + 1) div tbl_page_size t + 1..<tbl_page_cnt t] =
      find (page_used t) [(i + 1) div tbl_page_size t + 1..<tbl_page_cnt t]"
    by (rule find_valid_page [OF sh]) simp
  ultimately show ?thesis using search_from [OF sh len, of "i + 1"] mem False
    by (auto simp: dbTable_next_def min_id_def Let_def Suc_le_eq split: option.splits bind_splits)
qed

section \<open>destroy and assignment\<close>

lemma tbl_inv_iff:
  "tbl_inv t \<longleftrightarrow> tbl_shape t \<and> tbl_alloc_cnt t = card (tbl_ids t) \<and>
     tbl_bottom t = min_id (tbl_ids t) \<and> tbl_top t = max_id (tbl_ids t)"
  by (simp add: tbl_inv_def min_id_def max_id_def)

lemma free_shape:
  assumes t: "tbl_shape t" and i: "i \<in> tbl_ids t"
    and p: "dbTable_pushQ (tbl_slots t) (tbl_free_list t) i = (s, q)"
    and t': "tbl_slots t' = s" "tbl_free_list t' = q"
      "tbl_page_size t' = tbl_page_size t" "tbl_page_cnt t' = tbl_page_cnt t"
      "tbl_page_allocs t' = count_page (\<lambda>n. n - 1) t i"
  shows "tbl_shape t'" and "tbl_ids t' = tbl_ids t - {i}" and "length (tbl_slots t') = length (tbl_slots t)"
    and "\<forall>j\<in>tbl_ids t'. tbl_slots t' ! j = tbl_slots t ! j"
proof -
  let ?s = "tbl_slots t"
  obtain xs where xs: "tbl_free_ok ?s (tbl_free_list t) xs" using t unfolding tbl_shape_def by blast
  then have c: "free_chain ?s (tbl_free_list t) 0 xs" "distinct xs" by (simp_all add: tbl_free_ok_def)
  have i0: "i \<noteq> 0" using i tbl_ids_not_0 [OF t] by metis
  have i1: "i < length ?s" "is_alloc ?s i" using i by (simp_all add: tbl_ids_def)
  then have "i \<notin> set xs" using xs by (simp add: tbl_free_ok_def)
  note i' = i0 i1 this
  note push = pushQ_slots [OF c(1) i'(2) p]
  show len: "length (tbl_slots t') = length ?s" by (simp add: t' push(1))
  show ids: "tbl_ids t' = tbl_ids t - {i}" using push(1,3) by (auto simp: tbl_ids_def t')
  show "\<forall>j\<in>tbl_ids t'. tbl_slots t' ! j = ?s ! j"
    using push(4) unfolding ids by (auto simp: tbl_ids_def t')
  have "free_chain s q 0 (i # xs)" using pushQ_chain [OF c i'(1,2,4) p] .
  moreover have "set (i # xs) = {j. j \<noteq> 0 \<and> j < length s \<and> \<not> is_alloc s j}"
  proof (intro set_eqI)
    fix j
    show "j \<in> set (i # xs) \<longleftrightarrow> j \<in> {j. j \<noteq> 0 \<and> j < length s \<and> \<not> is_alloc s j}"
      using xs i' push(1) push(3) [of j] by (cases "j = i") (auto simp: tbl_free_ok_def)
  qed
  moreover have "\<not> is_alloc s 0"
  proof -
    have "0 < length ?s" by (rule le_less_trans [OF le0 i'(2)])
    with xs have "\<not> is_alloc ?s 0" by (simp add: tbl_free_ok_def)
    with push(3) [OF \<open>0 < length ?s\<close>] show ?thesis by blast
  qed
  ultimately have "tbl_free_ok s q (i # xs)" using c(2) i'(4) by (simp add: tbl_free_ok_def del: free_chain.simps)
  moreover have "tbl_counts t'"
  proof (rule tbl_counts_step [of t i "\<lambda>n. n - 1"])
    show "card {j \<in> tbl_ids t. j div tbl_page_size t = i div tbl_page_size t} - 1 =
        card {j \<in> tbl_ids t'. j div tbl_page_size t = i div tbl_page_size t}"
      using i card_Diff_singleton [of i "{j \<in> tbl_ids t. j div tbl_page_size t = i div tbl_page_size t}"]
      by (simp add: ids Collect_conj_eq Int_Diff set_diff_eq conj_commute conj_left_commute)
  qed (use t i'(2) tbl_page_less [OF t, of i] in \<open>auto simp: tbl_shape_def t' ids\<close>)
  ultimately show "tbl_shape t'" using t push(1) by (auto simp: tbl_shape_def t')
qed

lemma min_id_mem: "finite S \<Longrightarrow> S \<noteq> {} \<Longrightarrow> min_id S \<in> S" "finite S \<Longrightarrow> j \<in> S \<Longrightarrow> min_id S \<le> j"
  by (auto simp: min_id_def)

lemma max_id_mem: "finite S \<Longrightarrow> S \<noteq> {} \<Longrightarrow> max_id S \<in> S" "finite S \<Longrightarrow> j \<in> S \<Longrightarrow> j \<le> max_id S"
  by (auto simp: max_id_def)

lemma min_id_remove: "finite S \<Longrightarrow> i \<in> S \<Longrightarrow> i \<noteq> min_id S \<Longrightarrow> min_id (S - {i}) = min_id S"
proof -
  assume S: "finite S" "i \<in> S" "i \<noteq> min_id S"
  then have "min_id S \<in> S - {i}" using min_id_mem(1) by auto
  moreover from this have "Min (S - {i}) = min_id S"
    using S min_id_mem(2) by (intro Min_eqI) auto
  ultimately show ?thesis unfolding min_id_def [of "S - {i}"] by auto
qed

lemma max_id_remove: "finite S \<Longrightarrow> i \<in> S \<Longrightarrow> i \<noteq> max_id S \<Longrightarrow> max_id (S - {i}) = max_id S"
proof -
  assume S: "finite S" "i \<in> S" "i \<noteq> max_id S"
  then have "max_id S \<in> S - {i}" using max_id_mem(1) by auto
  moreover from this have "Max (S - {i}) = max_id S"
    using S max_id_mem(2) by (intro Max_eqI) auto
  ultimately show ?thesis unfolding max_id_def [of "S - {i}"] by auto
qed

lemma dbTable_destroy_correct:
  assumes t: "tbl_inv t" and i: "i \<in> tbl_ids t"
  shows "\<exists>t'. dbTable_destroy t i = Some t' \<and> tbl_inv t' \<and> dbTable_getPtr t' = (dbTable_getPtr t)(i := None) \<and>
    tbl_page_size t' = tbl_page_size t"
proof -
  have sh: "tbl_shape t" and b: "tbl_bottom t = min_id (tbl_ids t)" and u: "tbl_top t = max_id (tbl_ids t)"
    using t by (simp_all add: tbl_inv_iff)
  obtain s q where p: "dbTable_pushQ (tbl_slots t) (tbl_free_list t) i = (s, q)" by fastforce
  define t1 where "t1 = t\<lparr>tbl_alloc_cnt := tbl_alloc_cnt t - 1, tbl_page_allocs := count_page (\<lambda>n. n - 1) t i,
    tbl_slots := s, tbl_free_list := q\<rparr>"
  note f = free_shape [OF sh i p, of t1]
  have one: "tbl_shape t1" "tbl_ids t1 = tbl_ids t - {i}" "length (tbl_slots t1) = length (tbl_slots t)"
    "\<forall>j\<in>tbl_ids t1. tbl_slots t1 ! j = tbl_slots t ! j" "tbl_alloc_cnt t1 = card (tbl_ids t1)"
    "tbl_bottom t1 = tbl_bottom t" "tbl_top t1 = tbl_top t"
    using f t i by (simp_all add: t1_def tbl_inv_def card_Diff_singleton)
  have rng: "i < length (tbl_slots t1)" using i one by (simp add: tbl_ids_def)
  have bot: "(if i = tbl_bottom t1 then dbTable_findBottom t1 else Some (tbl_bottom t1)) = Some (min_id (tbl_ids t1))"
  proof (cases "i = tbl_bottom t1")
    case True
    have "tbl_bottom t1 < j" if "j \<in> tbl_ids t1" for j
      using that True one(2,6) b min_id_mem(2) [OF finite_tbl_ids, of j t] by simp
    with True rng findBottom_correct [OF one(1,5)] show ?thesis by simp
  next
    case False
    then show ?thesis using one(2,6) b min_id_remove [OF finite_tbl_ids i] by simp
  qed
  define t2 where "t2 = t1\<lparr>tbl_bottom := min_id (tbl_ids t1)\<rparr>"
  have two: "tbl_shape t2" "tbl_ids t2 = tbl_ids t1" "tbl_top t2 = max_id (tbl_ids t)"
    "tbl_alloc_cnt t2 = card (tbl_ids t2)" "i < length (tbl_slots t2)"
  proof -
    have "tbl_counts t2" using one(1) by - (rule tbl_counts_cong [of t1], simp_all add: t2_def tbl_shape_def tbl_ids_def)
    then show "tbl_shape t2" using one(1) by (simp add: t2_def tbl_shape_def)
  qed (use one u rng in \<open>simp_all add: t2_def tbl_ids_def\<close>)
  have top: "(if i = tbl_top t2 then dbTable_findTop t2 else Some (tbl_top t2)) = Some (max_id (tbl_ids t1))"
  proof (cases "i = tbl_top t2")
    case True
    have "j < tbl_top t2" if "j \<in> tbl_ids t2" for j
    proof -
      have "j \<in> tbl_ids t" "j \<noteq> i" using that two(2) one(2) by auto
      then show ?thesis using True two(3) max_id_mem(2) [OF finite_tbl_ids, of j t] by simp
    qed
    with True two(5) findTop_correct [OF two(1,4)] show ?thesis by (simp add: two(2))
  next
    case False
    then show ?thesis using one(2) two(3) max_id_remove [OF finite_tbl_ids i] by simp
  qed
  define t3 where "t3 = t2\<lparr>tbl_top := max_id (tbl_ids t1)\<rparr>"
  have "dbTable_validId t i" using validId_iff [OF sh] i by blast
  then have "dbTable_destroy t i = do {
      b \<leftarrow> (if i = tbl_bottom t1 then dbTable_findBottom t1 else Some (tbl_bottom t1));
      let t = t1\<lparr>tbl_bottom := b\<rparr>;
      u \<leftarrow> (if i = tbl_top t then dbTable_findTop t else Some (tbl_top t));
      Some (t\<lparr>tbl_top := u\<rparr>) }"
    unfolding dbTable_destroy_def p Let_def prod.case t1_def [symmetric] by simp
  also have "\<dots> = Some t3"
    unfolding bot bind.bind_lunit Let_def t2_def [symmetric] top t3_def ..
  finally have "dbTable_destroy t i = Some t3" .
  moreover have ids: "tbl_ids t3 = tbl_ids t1" "tbl_slots t3 = tbl_slots t1"
    by (simp_all add: t3_def t2_def tbl_ids_def)
  have "tbl_counts t3" using two(1) by - (rule tbl_counts_cong [of t2], simp_all add: t3_def tbl_shape_def tbl_ids_def)
  then have inv: "tbl_inv t3" using one two ids by (simp add: tbl_inv_iff tbl_shape_def t3_def t2_def)
  then have sh3: "tbl_shape t3" by (simp add: tbl_inv_iff)
  have "dbTable_getPtr t3 = (dbTable_getPtr t)(i := None)"
    using one ids by (auto simp: getPtr_eq [OF sh3] getPtr_eq [OF sh] fun_eq_iff)
  ultimately show ?thesis using inv by (auto simp: t1_def t2_def t3_def)
qed

lemma dbTable_update_correct:
  assumes t: "tbl_inv t" and i: "i \<in> tbl_ids t"
  shows "tbl_inv (dbTable_update t i f) \<and>
    dbTable_getPtr (dbTable_update t i f) = (dbTable_getPtr t)(i := map_option f (dbTable_getPtr t i))"
proof -
  have sh: "tbl_shape t" using t by (simp add: tbl_inv_def)
  let ?a = "obj (tbl_slots t ! i)" and ?s = "tbl_slots t"
  have g: "dbTable_getPtr t i = Some ?a" using getPtr_eq [OF sh] i by simp
  define t' where "t' = dbTable_update t i f"
  have t': "t' = t\<lparr>tbl_slots := ?s[i := Alloc (f ?a)]\<rparr>" by (simp add: t'_def dbTable_update_def g)
  have i': "i < length ?s" "is_alloc ?s i" using i by (simp_all add: tbl_ids_def)
  have al: "is_alloc (?s[i := Alloc (f ?a)]) j \<longleftrightarrow> is_alloc ?s j" for j
    using i' by (simp add: is_alloc_update)
  then have ids: "tbl_ids t' = tbl_ids t" by (simp add: tbl_ids_def t')
  obtain xs where xs: "tbl_free_ok ?s (tbl_free_list t) xs" using sh unfolding tbl_shape_def by blast
  then have "i \<notin> set xs" using i' by (auto simp: tbl_free_ok_def)
  with xs have "tbl_free_ok (?s[i := Alloc (f ?a)]) (tbl_free_list t) xs"
    by (simp add: tbl_free_ok_def free_chain_update al)
  moreover have "tbl_counts t'" using sh ids by - (rule tbl_counts_cong [of t], simp_all add: tbl_shape_def t')
  ultimately have sh': "tbl_shape t'" using sh by (auto simp: tbl_shape_def t')
  then have "tbl_inv t'" using t ids by (simp add: tbl_inv_iff t')
  moreover have "dbTable_getPtr t' = (dbTable_getPtr t)(i := map_option f (dbTable_getPtr t i))"
  proof
    fix j
    have "tbl_slots t' ! j = (if j = i then Alloc (f ?a) else ?s ! j)" using i' by (simp add: t')
    then show "dbTable_getPtr t' j = ((dbTable_getPtr t)(i := map_option f (dbTable_getPtr t i))) j"
      using i by (cases "j = i") (simp_all add: getPtr_eq [OF sh'] getPtr_eq [OF sh] ids)
  qed
  ultimately show ?thesis by (simp add: t'_def)
qed

section \<open>The contract\<close>

text \<open>
  The loop over a table: from \<open>begin\<close> by \<open>next\<close> until the id is 0, which is \<open>end\<close>.
\<close>

partial_function (option) table_iter :: "('t \<Rightarrow> nat \<Rightarrow> nat) \<Rightarrow> 't \<Rightarrow> nat \<Rightarrow> nat list option" where
  "table_iter nxt t i =
     (if i = 0 then Some [] else do { is \<leftarrow> table_iter nxt t (nxt t i); Some (i # is) })"

declare table_iter.simps [code]

locale object_table =
  fixes lookup :: "'t \<Rightarrow> nat \<Rightarrow> 'a option"
    and create :: "'t \<Rightarrow> 'a \<Rightarrow> nat \<times> 't"
    and destroy :: "'t \<Rightarrow> nat \<Rightarrow> 't option"
    and assign :: "'t \<Rightarrow> nat \<Rightarrow> ('a \<Rightarrow> 'a) \<Rightarrow> 't"
    and begin_id :: "'t \<Rightarrow> nat"
    and next_id :: "'t \<Rightarrow> nat \<Rightarrow> nat"
    and inv :: "'t \<Rightarrow> bool"
  assumes null: "inv t \<Longrightarrow> lookup t 0 = None"
    and fin: "inv t \<Longrightarrow> finite (dom (lookup t))"
    and create: "inv t \<Longrightarrow> create t a = (i, t') \<Longrightarrow>
      inv t' \<and> i \<noteq> 0 \<and> lookup t i = None \<and> lookup t' = (lookup t)(i \<mapsto> a)"
    and destroy: "inv t \<Longrightarrow> lookup t i = Some a \<Longrightarrow>
      \<exists>t'. destroy t i = Some t' \<and> inv t' \<and> lookup t' = (lookup t)(i := None)"
    and assign: "inv t \<Longrightarrow> lookup t i = Some a \<Longrightarrow>
      inv (assign t i f) \<and> lookup (assign t i f) = (lookup t)(i \<mapsto> f a)"
    and begin_id: "inv t \<Longrightarrow> begin_id t = min_id (dom (lookup t))"
    and next_id: "inv t \<Longrightarrow> next_id t i = min_id {j \<in> dom (lookup t). i < j}"
begin

lemma destroy_create:
  assumes "inv t" and "create t a = (i, t')"
  shows "\<exists>t''. destroy t' i = Some t'' \<and> inv t'' \<and> lookup t'' = lookup t"
proof -
  from create [OF assms] have "inv t'" "lookup t i = None" "lookup t' = (lookup t)(i \<mapsto> a)" by auto
  with destroy [of t' i a] show ?thesis by (metis fun_upd_same fun_upd_triv fun_upd_upd)
qed

lemma two_creates:
  assumes "inv t" and "create t a = (i, t')" and "create t' b = (j, t'')"
  shows "i \<noteq> j \<and> lookup t'' i = Some a \<and> lookup t'' j = Some b"
  using create [OF assms(1,2)] create [of t' b j t''] assms(3) by auto

lemma iter_above:
  assumes "inv t"
  shows "table_iter next_id t (min_id {j \<in> dom (lookup t). i < j}) =
    Some (sorted_list_of_set {j \<in> dom (lookup t). i < j})"
proof (induction "card {j \<in> dom (lookup t). i < j}" arbitrary: i rule: less_induct)
  case less
  let ?S = "\<lambda>i. {j \<in> dom (lookup t). i < j}"
  have fin': "finite (?S i)" using fin [OF assms] by simp
  show ?case
  proof (cases "?S i = {}")
    case True
    show ?thesis unfolding True by (subst table_iter.simps) (simp add: min_id_def)
  next
    case False
    let ?m = "min_id (?S i)"
    have m: "?m \<in> ?S i" using min_id_mem(1) [OF fin' False] .
    have rest: "?S i - {?m} = ?S ?m"
      using m min_id_mem(2) [OF fin'] by (force simp: le_less)
    then have "card (?S ?m) < card (?S i)" using card_Diff1_less [OF fin' m] by simp
    from less [OF this] have "table_iter next_id t (next_id t ?m) = Some (sorted_list_of_set (?S ?m))"
      by (simp add: next_id [OF assms])
    moreover have "i < ?m" using m by blast
    then have "?m \<noteq> 0" by linarith
    moreover have "sorted_list_of_set (?S i) = ?m # sorted_list_of_set (?S i - {?m})"
      using sorted_list_of_set_nonempty [OF fin' False] False unfolding min_id_def by presburger
    ultimately show ?thesis unfolding rest by (subst table_iter.simps) simp
  qed
qed

lemma iterates:
  assumes "inv t"
  shows "table_iter next_id t (begin_id t) = Some (sorted_list_of_set (dom (lookup t)))"
proof -
  have "0 \<notin> dom (lookup t)" using null [OF assms] by auto
  then have "{j \<in> dom (lookup t). 0 < j} = dom (lookup t)" by (auto intro: gr0I)
  then show ?thesis using iter_above [OF assms, of 0] begin_id [OF assms] by simp
qed

end

lemma dom_getPtr: "tbl_shape t \<Longrightarrow> dom (dbTable_getPtr t) = tbl_ids t"
  by (auto simp: getPtr_eq split: if_splits)

interpretation tbl: object_table dbTable_getPtr dbTable_create dbTable_destroy dbTable_update
  dbTable_begin dbTable_next tbl_inv
proof unfold_locales
  fix t :: "'a dbTable" and t' a i f
  assume inv: "tbl_inv t"
  then have sh: "tbl_shape t" by (simp add: tbl_inv_def)
  show "dbTable_getPtr t 0 = None" by (simp add: dbTable_getPtr_def)
  show "finite (dom (dbTable_getPtr t))" by (simp add: dom_getPtr sh)
  show "dbTable_begin t = min_id (dom (dbTable_getPtr t))"
    using inv by (simp add: dbTable_begin_def dom_getPtr sh tbl_inv_iff)
  show "dbTable_next t i = min_id {j \<in> dom (dbTable_getPtr t). i < j}"
    using next_correct [OF inv] by (simp add: dom_getPtr sh)
  show "tbl_inv t' \<and> i \<noteq> 0 \<and> dbTable_getPtr t i = None \<and> dbTable_getPtr t' = (dbTable_getPtr t)(i \<mapsto> a)"
    if "dbTable_create t a = (i, t')"
    using dbTable_create_correct [OF inv that] by (simp add: getPtr_eq [OF sh])
  show "\<exists>t'. dbTable_destroy t i = Some t' \<and> tbl_inv t' \<and> dbTable_getPtr t' = (dbTable_getPtr t)(i := None)"
    if "dbTable_getPtr t i = Some a"
    using dbTable_destroy_correct [OF inv, of i] that by (auto simp: getPtr_eq [OF sh] split: if_splits)
  show "tbl_inv (dbTable_update t i f) \<and> dbTable_getPtr (dbTable_update t i f) = (dbTable_getPtr t)(i \<mapsto> f a)"
    if "dbTable_getPtr t i = Some a"
    using dbTable_update_correct [OF inv, of i f] that
    by (auto simp: getPtr_eq [OF sh] split: if_splits)
qed

end
