(* ===== verification/DbMarker.thy ===== *)
theory DbMarker
  imports DbObject DbTable GeomLaws
begin

text \<open>
  Markers (\<^verbatim>\<open>db/dbMarker.cpp\<close>) and their categories (\<^verbatim>\<open>db/dbMarkerCategory.cpp\<close>): the
  place where checks leave what they found. A category holds markers, up to a limit, and
  subcategories found by name; the top categories of a chip are in a table and in a map from names
  to ids.

  The markers of a category are the list of them in the order they were created. The subcategories of
  a category are a list with one entry per name; the order of that list is not the order of the table
  in the code, and nothing below depends on it. A pointer to a subcategory is its name, a pointer to a
  top category its id, 0 the null pointer. The types of the objects are those of \<open>DbObject\<close>.
\<close>

section \<open>Markers\<close>

datatype MarkerShape =
    ShapePoint Point | ShapeLine Line | ShapeRect Rect | ShapePolygon Polygon | ShapeCuboid Cuboid

record dbMarker =
  mk_visited :: bool
  mk_visible :: bool
  mk_waived :: bool
  mk_layer :: nat
  mk_comment :: string
  mk_line_number :: int
  mk_sources :: "(dbObjectType \<times> nat) set"
  mk_shapes :: "MarkerShape list"

definition mk_dbMarker :: dbMarker where
  "mk_dbMarker =
     \<lparr>mk_visited = False, mk_visible = True, mk_waived = False, mk_layer = 0, mk_comment = '''',
      mk_line_number = - 1, mk_sources = {}, mk_shapes = []\<rparr>"

definition dbMarker_setComment :: "string \<Rightarrow> dbMarker \<Rightarrow> dbMarker" where
  "dbMarker_setComment comment m = m\<lparr>mk_comment := comment\<rparr>"

definition dbMarker_addShape :: "MarkerShape \<Rightarrow> dbMarker \<Rightarrow> dbMarker" where
  "dbMarker_addShape shape m = m\<lparr>mk_shapes := mk_shapes m @ [shape]\<rparr>"

definition dbMarker_addSource :: "dbObjectType \<Rightarrow> nat \<Rightarrow> dbMarker \<Rightarrow> dbMarker" where
  "dbMarker_addSource type i m =
     (if i = 0 then m else m\<lparr>mk_sources := insert (type, i) (mk_sources m)\<rparr>)"

definition merge_shape :: "Rect \<Rightarrow> MarkerShape \<Rightarrow> Rect" where
  "merge_shape bbox shape =
     (case shape of
        ShapePoint pt \<Rightarrow> Rect_merge bbox (Rect_of_points pt pt)
      | ShapeLine l \<Rightarrow> foldl (\<lambda>bbox pt. Rect_merge bbox (Rect_of_points pt pt)) bbox (Line_getPoints l)
      | ShapeRect r \<Rightarrow> Rect_merge bbox r
      | ShapePolygon p \<Rightarrow> Rect_merge bbox (Polygon_getEnclosingRect p)
      | ShapeCuboid c \<Rightarrow> Rect_merge bbox (Cuboid_getEnclosingRect c))"

definition dbMarker_getBBox :: "dbMarker \<Rightarrow> Rect" where
  "dbMarker_getBBox m = foldl merge_shape Rect_mergeInit (mk_shapes m)"

section \<open>Categories\<close>

datatype dbMarkerCategory =
  MarkerCategory (cat_name: string) (cat_description: string) (cat_source: string)
    (cat_max_markers: int) (cat_markers: "dbMarker list") (cat_categories: "dbMarkerCategory list")

definition mk_dbMarkerCategory :: "string \<Rightarrow> dbMarkerCategory" where
  "mk_dbMarkerCategory name = MarkerCategory name '''' '''' 10000 [] []"

definition dbMarkerCategory_hasMaxMarkerLimit :: "dbMarkerCategory \<Rightarrow> bool" where
  "dbMarkerCategory_hasMaxMarkerLimit cat = (cat_max_markers cat > 0)"

fun dbMarkerCategory_setMaxMarkers :: "dbMarkerCategory \<Rightarrow> int \<Rightarrow> dbMarkerCategory" where
  "dbMarkerCategory_setMaxMarkers (MarkerCategory n d s _ ms cs) max_markers =
     MarkerCategory n d s max_markers ms cs"

fun set_markers :: "dbMarkerCategory \<Rightarrow> dbMarker list \<Rightarrow> dbMarkerCategory" where
  "set_markers (MarkerCategory n d s k _ cs) ms = MarkerCategory n d s k ms cs"

fun set_categories :: "dbMarkerCategory \<Rightarrow> dbMarkerCategory list \<Rightarrow> dbMarkerCategory" where
  "set_categories (MarkerCategory n d s k ms _) cs = MarkerCategory n d s k ms cs"

fun set_name :: "dbMarkerCategory \<Rightarrow> string \<Rightarrow> dbMarkerCategory" where
  "set_name (MarkerCategory _ d s k ms cs) n = MarkerCategory n d s k ms cs"

text \<open>\<^verbatim>\<open>dbMarker::create\<close>: the marker is the last of the list; \<open>None\<close> is the null pointer.\<close>

definition dbMarker_create :: "dbMarkerCategory \<Rightarrow> dbMarkerCategory option" where
  "dbMarker_create cat =
     (if dbMarkerCategory_hasMaxMarkerLimit cat \<and> int (length (cat_markers cat)) \<ge> cat_max_markers cat
      then None
      else Some (set_markers cat (cat_markers cat @ [mk_dbMarker])))"

fun dbMarkerCategory_getMarkerCount :: "dbMarkerCategory \<Rightarrow> nat" where
  "dbMarkerCategory_getMarkerCount (MarkerCategory _ _ _ _ ms cs) =
     foldl (\<lambda>count c. count + c) (length ms) (map dbMarkerCategory_getMarkerCount cs)"

definition dbMarkerCategory_findMarkerCategory :: "dbMarkerCategory \<Rightarrow> string \<Rightarrow> dbMarkerCategory option" where
  "dbMarkerCategory_findMarkerCategory cat name = find (\<lambda>c. cat_name c = name) (cat_categories cat)"

definition dbMarkerCategory_create :: "dbMarkerCategory \<Rightarrow> string \<Rightarrow> dbMarkerCategory option" where
  "dbMarkerCategory_create cat name =
     (if dbMarkerCategory_findMarkerCategory cat name \<noteq> None then None
      else Some (set_categories cat (cat_categories cat @ [mk_dbMarkerCategory name])))"

definition dbMarkerCategory_destroy :: "dbMarkerCategory \<Rightarrow> string \<Rightarrow> dbMarkerCategory" where
  "dbMarkerCategory_destroy cat name =
     set_categories cat (filter (\<lambda>c. cat_name c \<noteq> name) (cat_categories cat))"

definition dbMarkerCategory_createOrGet :: "dbMarkerCategory \<Rightarrow> string \<Rightarrow> dbMarkerCategory option" where
  "dbMarkerCategory_createOrGet cat name =
     (if dbMarkerCategory_findMarkerCategory cat name \<noteq> None then Some cat
      else dbMarkerCategory_create cat name)"

definition dbMarkerCategory_createOrReplace :: "dbMarkerCategory \<Rightarrow> string \<Rightarrow> dbMarkerCategory option" where
  "dbMarkerCategory_createOrReplace cat name =
     (let cat = (if dbMarkerCategory_findMarkerCategory cat name \<noteq> None
                 then dbMarkerCategory_destroy cat name else cat)
      in dbMarkerCategory_create cat name)"

text \<open>\<^verbatim>\<open>rename\<close> of the subcategory \<open>old\<close> of \<open>cat\<close>; \<open>None\<close> is the result \<open>false\<close>.\<close>

definition dbMarkerCategory_rename :: "dbMarkerCategory \<Rightarrow> string \<Rightarrow> string \<Rightarrow> dbMarkerCategory option" where
  "dbMarkerCategory_rename cat old name =
     (if dbMarkerCategory_findMarkerCategory cat name \<noteq> None then None
      else Some (set_categories cat
        (map (\<lambda>c. if cat_name c = old then set_name c name else c) (cat_categories cat))))"

section \<open>The top categories of a chip\<close>

record MarkerCategories =
  mcs_tbl :: "dbMarkerCategory dbTable"
  mcs_map :: "string \<rightharpoonup> nat"

definition mk_MarkerCategories :: "nat \<Rightarrow> MarkerCategories" where
  "mk_MarkerCategories page_size = \<lparr>mcs_tbl = mk_dbTable page_size, mcs_map = Map.empty\<rparr>"

definition top_create :: "MarkerCategories \<Rightarrow> string \<Rightarrow> MarkerCategories \<times> nat" where
  "top_create cs name =
     (if mcs_map cs name \<noteq> None then (cs, 0)
      else
        let (i, tbl) = dbTable_create (mcs_tbl cs) (mk_dbMarkerCategory name)
        in (cs\<lparr>mcs_tbl := tbl, mcs_map := (mcs_map cs)(name \<mapsto> i)\<rparr>, i))"

definition top_destroy :: "MarkerCategories \<Rightarrow> nat \<Rightarrow> MarkerCategories" where
  "top_destroy cs i =
     cs\<lparr>mcs_map := (mcs_map cs)(cat_name (the (dbTable_getPtr (mcs_tbl cs) i)) := None),
        mcs_tbl := the (dbTable_destroy (mcs_tbl cs) i)\<rparr>"

definition top_createOrGet :: "MarkerCategories \<Rightarrow> string \<Rightarrow> MarkerCategories \<times> nat" where
  "top_createOrGet cs name =
     (case mcs_map cs name of Some i \<Rightarrow> (cs, i) | None \<Rightarrow> top_create cs name)"

definition top_createOrReplace :: "MarkerCategories \<Rightarrow> string \<Rightarrow> MarkerCategories \<times> nat" where
  "top_createOrReplace cs name =
     (let cs = (case mcs_map cs name of Some i \<Rightarrow> top_destroy cs i | None \<Rightarrow> cs)
      in top_create cs name)"

text \<open>The name that is erased from the map is the new one, which is not in it.\<close>

definition top_rename :: "MarkerCategories \<Rightarrow> nat \<Rightarrow> string \<Rightarrow> MarkerCategories \<times> bool" where
  "top_rename cs i name =
     (if mcs_map cs name \<noteq> None then (cs, False)
      else (cs\<lparr>mcs_tbl := dbTable_update (mcs_tbl cs) i (\<lambda>c. set_name c name),
               mcs_map := ((mcs_map cs)(name := None))(name \<mapsto> i)\<rparr>, True))"

section \<open>Bounding boxes\<close>

definition shape_inside :: "Rect \<Rightarrow> MarkerShape \<Rightarrow> bool" where
  "shape_inside r shape =
     (case shape of
        ShapePoint pt \<Rightarrow> pt \<in> Rect_pts r
      | ShapeLine l \<Rightarrow> set (Line_getPoints l) \<subseteq> Rect_pts r
      | ShapeRect b \<Rightarrow> Rect_contains r b
      | ShapePolygon p \<Rightarrow> Rect_contains r (Polygon_getEnclosingRect p)
      | ShapeCuboid c \<Rightarrow> Rect_contains r (Cuboid_getEnclosingRect c))"

lemma merge_shape_contains_iff:
  "Rect_contains r (merge_shape bbox shape) \<longleftrightarrow> Rect_contains r bbox \<and> shape_inside r shape"
proof (cases shape)
  case (ShapeLine l)
  have "Rect_contains r (foldl (\<lambda>bbox pt. Rect_merge bbox (Rect_of_points pt pt)) bbox pts) \<longleftrightarrow>
      Rect_contains r bbox \<and> set pts \<subseteq> Rect_pts r" for pts
    using rect.foldl_merge_contains_iff [of r "\<lambda>pt. Rect_of_points pt pt" bbox pts]
    by (auto simp: Rect_contains_point)
  then show ?thesis by (simp add: merge_shape_def shape_inside_def ShapeLine)
qed (simp_all add: merge_shape_def shape_inside_def rect.merge_contains_iff Rect_contains_point)

lemma getBBox_contains_iff:
  "Rect_contains r (dbMarker_getBBox m) \<longleftrightarrow>
     Rect_contains r Rect_mergeInit \<and> (\<forall>shape\<in>set (mk_shapes m). shape_inside r shape)"
proof -
  have "Rect_contains r (foldl merge_shape b shapes) \<longleftrightarrow>
      Rect_contains r b \<and> (\<forall>shape\<in>set shapes. shape_inside r shape)" for b shapes
    by (induction shapes arbitrary: b) (auto simp: merge_shape_contains_iff)
  then show ?thesis by (simp add: dbMarker_getBBox_def)
qed

section \<open>Subcategories\<close>

lemma category_fields [simp]:
  "cat_markers (set_markers cat ms) = ms" "cat_categories (set_markers cat ms) = cat_categories cat"
  "cat_name (set_markers cat ms) = cat_name cat" "cat_max_markers (set_markers cat ms) = cat_max_markers cat"
  "cat_categories (set_categories cat cs) = cs" "cat_markers (set_categories cat cs) = cat_markers cat"
  "cat_name (set_categories cat cs) = cat_name cat" "cat_name (set_name cat n) = n"
  "cat_markers (set_name cat n) = cat_markers cat" "cat_categories (set_name cat n) = cat_categories cat"
  "set_markers (set_markers cat ms) ms' = set_markers cat ms'"
  "set_categories (set_categories cat cs) cs' = set_categories cat cs'"
  "set_markers cat (cat_markers cat) = cat" "set_categories cat (cat_categories cat) = cat"
  by (cases cat; simp)+

lemma find_eq_None: "find P xs = None \<longleftrightarrow> (\<forall>x\<in>set xs. \<not> P x)"
  by (induction xs) auto

text \<open>Creating or replacing always succeeds, gives an empty category and leaves the others alone.\<close>

lemma createOrReplace_eq:
  "dbMarkerCategory_createOrReplace cat name =
     Some (set_categories cat (filter (\<lambda>c. cat_name c \<noteq> name) (cat_categories cat) @ [mk_dbMarkerCategory name]))"
proof (cases "dbMarkerCategory_findMarkerCategory cat name")
  case None
  then have "filter (\<lambda>c. cat_name c \<noteq> name) (cat_categories cat) = cat_categories cat"
    by (simp add: dbMarkerCategory_findMarkerCategory_def find_eq_None filter_id_conv)
  with None show ?thesis
    by (simp add: dbMarkerCategory_createOrReplace_def dbMarkerCategory_create_def)
next
  case (Some c)
  have "find (\<lambda>c. cat_name c = name) (filter (\<lambda>c. cat_name c \<noteq> name) (cat_categories cat)) = None"
    by (simp add: find_eq_None)
  with Some show ?thesis
    by (simp add: dbMarkerCategory_createOrReplace_def dbMarkerCategory_create_def
        dbMarkerCategory_destroy_def dbMarkerCategory_findMarkerCategory_def Let_def)
qed

lemma getMarkerCount_sum:
  "dbMarkerCategory_getMarkerCount cat =
     length (cat_markers cat) + sum_list (map dbMarkerCategory_getMarkerCount (cat_categories cat))"
proof -
  have "foldl (\<lambda>count c. count + c) n xs = n + sum_list xs" for n :: nat and xs
    by (induction xs arbitrary: n) simp_all
  then show ?thesis by (cases cat) simp
qed

section \<open>Top categories\<close>

text \<open>The map and the table agree: every name in the map is the name of the category it leads to.\<close>

definition mcs_ok :: "MarkerCategories \<Rightarrow> bool" where
  "mcs_ok cs \<longleftrightarrow> tbl_inv (mcs_tbl cs) \<and>
     (\<forall>name i. mcs_map cs name = Some i \<longleftrightarrow> map_option cat_name (dbTable_getPtr (mcs_tbl cs) i) = Some name)"

lemma mcs_okD:
  "mcs_ok cs \<Longrightarrow> tbl_inv (mcs_tbl cs)"
  "mcs_ok cs \<Longrightarrow> mcs_map cs name = Some i \<Longrightarrow>
     \<exists>c. dbTable_getPtr (mcs_tbl cs) i = Some c \<and> cat_name c = name"
  "mcs_ok cs \<Longrightarrow> dbTable_getPtr (mcs_tbl cs) i = Some c \<Longrightarrow> mcs_map cs (cat_name c) = Some i"
  by (auto simp: mcs_ok_def)

lemma mcs_okI:
  "tbl_inv (mcs_tbl cs) \<Longrightarrow>
     (\<And>name i. mcs_map cs name = Some i \<Longrightarrow> map_option cat_name (dbTable_getPtr (mcs_tbl cs) i) = Some name) \<Longrightarrow>
     (\<And>c i. dbTable_getPtr (mcs_tbl cs) i = Some c \<Longrightarrow> mcs_map cs (cat_name c) = Some i) \<Longrightarrow> mcs_ok cs"
  unfolding mcs_ok_def by auto

lemma mk_MarkerCategories_ok: "1 < n \<Longrightarrow> mcs_ok (mk_MarkerCategories n)"
  by (auto simp: mcs_ok_def mk_MarkerCategories_def mk_dbTable_inv)
     (simp add: mk_dbTable_def dbTable_getPtr_def)

lemma top_create_ok:
  assumes ok: "mcs_ok cs" and new: "mcs_map cs name = None"
  obtains i cs' where "top_create cs name = (cs', i)" "mcs_ok cs'" "i \<noteq> 0" "mcs_map cs' name = Some i"
    "dbTable_getPtr (mcs_tbl cs) i = None"
    "dbTable_getPtr (mcs_tbl cs') = (dbTable_getPtr (mcs_tbl cs))(i \<mapsto> mk_dbMarkerCategory name)"
proof -
  obtain i tbl where c: "dbTable_create (mcs_tbl cs) (mk_dbMarkerCategory name) = (i, tbl)" by fastforce
  from tbl.create [OF mcs_okD(1) [OF ok] c] have t: "tbl_inv tbl" "i \<noteq> 0" "dbTable_getPtr (mcs_tbl cs) i = None"
    "dbTable_getPtr tbl = (dbTable_getPtr (mcs_tbl cs))(i \<mapsto> mk_dbMarkerCategory name)" by auto
  let ?cs = "cs\<lparr>mcs_tbl := tbl, mcs_map := (mcs_map cs)(name \<mapsto> i)\<rparr>"
  have "mcs_ok ?cs"
  proof (rule mcs_okI)
    fix n j assume j: "mcs_map ?cs n = Some j"
    show "map_option cat_name (dbTable_getPtr (mcs_tbl ?cs) j) = Some n"
    proof (cases "n = name")
      case True
      with j t show ?thesis by (simp add: mk_dbMarkerCategory_def)
    next
      case False
      with j have "mcs_map cs n = Some j" by simp
      with mcs_okD(2) [OF ok] t show ?thesis by fastforce
    qed
  next
    fix c j assume j: "dbTable_getPtr (mcs_tbl ?cs) j = Some c"
    then show "mcs_map ?cs (cat_name c) = Some j"
    proof (cases "j = i")
      case True
      with j t show ?thesis by (auto simp: mk_dbMarkerCategory_def)
    next
      case False
      with j t have "mcs_map cs (cat_name c) = Some j" using mcs_okD(3) [OF ok] by simp
      with new show ?thesis by auto
    qed
  qed (simp add: t)
  with t new show thesis by (intro that [of ?cs i]) (simp_all add: top_create_def c)
qed

lemma top_destroy_ok:
  assumes ok: "mcs_ok cs" and c: "dbTable_getPtr (mcs_tbl cs) i = Some c"
  shows "mcs_ok (top_destroy cs i)" and "mcs_map (top_destroy cs i) = (mcs_map cs)(cat_name c := None)"
    and "dbTable_getPtr (mcs_tbl (top_destroy cs i)) = (dbTable_getPtr (mcs_tbl cs))(i := None)"
proof -
  obtain tbl where d: "dbTable_destroy (mcs_tbl cs) i = Some tbl" "tbl_inv tbl"
    "dbTable_getPtr tbl = (dbTable_getPtr (mcs_tbl cs))(i := None)"
    using tbl.destroy [OF mcs_okD(1) [OF ok] c] by blast
  show m: "mcs_map (top_destroy cs i) = (mcs_map cs)(cat_name c := None)"
    by (simp add: top_destroy_def c)
  show g: "dbTable_getPtr (mcs_tbl (top_destroy cs i)) = (dbTable_getPtr (mcs_tbl cs))(i := None)"
    by (simp add: top_destroy_def d)
  show "mcs_ok (top_destroy cs i)"
  proof (rule mcs_okI)
    fix n j assume "mcs_map (top_destroy cs i) n = Some j"
    then have j: "mcs_map cs n = Some j" "n \<noteq> cat_name c" by (auto simp: m split: if_splits)
    with mcs_okD(2) [OF ok j(1)] c show "map_option cat_name (dbTable_getPtr (mcs_tbl (top_destroy cs i)) j) = Some n"
      by (auto simp: g)
  next
    fix e j assume "dbTable_getPtr (mcs_tbl (top_destroy cs i)) j = Some e"
    then have j: "dbTable_getPtr (mcs_tbl cs) j = Some e" "j \<noteq> i" by (auto simp: g split: if_splits)
    with mcs_okD(3) [OF ok] c show "mcs_map (top_destroy cs i) (cat_name e) = Some j"
      by (auto simp: m) (metis option.inject)
  qed (simp add: top_destroy_def d)
qed

lemma top_createOrReplace_ok:
  assumes ok: "mcs_ok cs"
  obtains i cs' where "top_createOrReplace cs name = (cs', i)" "mcs_ok cs'" "i \<noteq> 0"
    "mcs_map cs' name = Some i" "dbTable_getPtr (mcs_tbl cs') i = Some (mk_dbMarkerCategory name)"
    "\<And>j c. dbTable_getPtr (mcs_tbl cs) j = Some c \<Longrightarrow> cat_name c \<noteq> name \<Longrightarrow>
       dbTable_getPtr (mcs_tbl cs') j = Some c"
proof -
  define ds where "ds = (case mcs_map cs name of Some i \<Rightarrow> top_destroy cs i | None \<Rightarrow> cs)"
  have ds: "mcs_ok ds \<and> mcs_map ds name = None \<and>
      (\<forall>j c. dbTable_getPtr (mcs_tbl cs) j = Some c \<longrightarrow> cat_name c \<noteq> name \<longrightarrow> dbTable_getPtr (mcs_tbl ds) j = Some c)"
  proof (cases "mcs_map cs name")
    case None
    then show ?thesis by (simp add: ds_def ok)
  next
    case (Some i)
    then obtain c where "dbTable_getPtr (mcs_tbl cs) i = Some c" "cat_name c = name"
      using mcs_okD(2) [OF ok] by blast
    with top_destroy_ok [OF ok this(1)] Some show ?thesis by (auto simp: ds_def)
  qed
  then have "mcs_ok ds" "mcs_map ds name = None" by simp_all
  from top_create_ok [OF this] obtain i cs' where c: "top_create ds name = (cs', i)" "mcs_ok cs'" "i \<noteq> 0"
    "mcs_map cs' name = Some i" "dbTable_getPtr (mcs_tbl ds) i = None"
    "dbTable_getPtr (mcs_tbl cs') = (dbTable_getPtr (mcs_tbl ds))(i \<mapsto> mk_dbMarkerCategory name)" .
  have "dbTable_getPtr (mcs_tbl cs') j = Some e"
    if "dbTable_getPtr (mcs_tbl cs) j = Some e" "cat_name e \<noteq> name" for j e
    using ds that c(5) by (auto simp: c(6))
  moreover have "top_createOrReplace cs name = (cs', i)"
    by (simp add: top_createOrReplace_def c(1) flip: ds_def)
  ultimately show thesis using c by (intro that [of cs' i]) simp_all
qed

text \<open>
  After a top category was renamed its old name still leads to it. Replacing a category of the old
  name then destroys the renamed one, whose name is taken out of the map, and gives up: the old name is
  still there.
\<close>

lemma rename_then_replace:
  assumes ok: "mcs_ok cs" and old: "mcs_map cs old = Some i" and new: "mcs_map cs name = None"
    and r: "top_rename cs i name = (cs', True)"
  shows "mcs_map cs' old = Some i" and "snd (top_createOrReplace cs' old) = 0"
    and "dbTable_getPtr (mcs_tbl (fst (top_createOrReplace cs' old))) i = None"
proof -
  obtain c where c: "dbTable_getPtr (mcs_tbl cs) i = Some c" "cat_name c = old"
    using mcs_okD(2) [OF ok old] by blast
  from r new have cs': "cs' = cs\<lparr>mcs_tbl := dbTable_update (mcs_tbl cs) i (\<lambda>c. set_name c name),
      mcs_map := (mcs_map cs)(name \<mapsto> i)\<rparr>" by (auto simp: top_rename_def)
  from tbl.assign [OF mcs_okD(1) [OF ok] c(1)] have a: "tbl_inv (mcs_tbl cs')"
    "dbTable_getPtr (mcs_tbl cs') = (dbTable_getPtr (mcs_tbl cs))(i \<mapsto> set_name c name)"
    by (simp_all add: cs')
  have ne: "old \<noteq> name" using old new by auto
  then show m: "mcs_map cs' old = Some i" by (simp add: cs' old)
  obtain tbl where d: "dbTable_destroy (mcs_tbl cs') i = Some tbl"
    "dbTable_getPtr tbl = (dbTable_getPtr (mcs_tbl cs'))(i := None)"
    using tbl.destroy [OF a(1)] a(2) by fastforce
  let ?ds = "top_destroy cs' i"
  have "mcs_map ?ds old = Some i" using m ne by (simp add: top_destroy_def a(2))
  then have e: "top_createOrReplace cs' old = (?ds, 0)"
    by (simp add: top_createOrReplace_def m top_create_def)
  then show "snd (top_createOrReplace cs' old) = 0" by simp
  show "dbTable_getPtr (mcs_tbl (fst (top_createOrReplace cs' old))) i = None"
    by (simp add: e top_destroy_def d)
qed

end
