(* ===== verification/SceneBuilder.thy ===== *)
theory SceneBuilder
  imports SceneTypes DbShape DbTrackGrid DbMarker
begin

text \<open>
  The scene of a design (\<^verbatim>\<open>gui/openroad3D/OdbSceneBuilder.cpp\<close>): one object for each instance, wire segment,
  via part, pin shape, blockage, marker and track grid, and the layers they are on.

  \<open>scene_env\<close> is what the builder reads from outside the block and the machine it runs on: rounding, the growth
  of a full vector, the printing of a float, the technology. The records \<open>scene_inst\<close> to \<open>scene_block\<close> are
  the block, as the getters the builder calls show it; \<open>scene_state\<close> is the snapshot and the static variables of
  the file.

  The map of layers by name holds pointers into the vector of layers. When a push finds the vector full its
  elements move, and the pointers made before dangle: a pointer is an index with the number of the move after which it
  was made, and using an old one is the error \<open>BadPointer\<close>.
\<close>

section \<open>The design\<close>

record scene_env =
  se_fl :: "rat \<Rightarrow> rat"
  se_dbl :: "rat \<Rightarrow> rat"
  se_grow :: "nat \<Rightarrow> nat"
  se_show :: "rat \<Rightarrow> string"
  se_asserts :: bool
  se_db :: wire_db
  se_has_tech :: bool
  se_dbu :: int

record scene_iterm =
  ite_ptr :: nat
  ite_mterm_name :: "string option"
  ite_mpins :: "dbBox list list"

record scene_inst =
  in_ptr :: nat
  in_name :: string
  in_master_name :: string
  in_bbox :: "Rect option"
  in_transform :: dbTransform
  in_iterms :: "scene_iterm list"

record scene_net =
  ne_name :: string
  ne_wire :: "(nat \<times> wire_code) option"

record scene_bterm =
  bt_ptr :: nat
  bt_name :: string
  bt_bpins :: "dbBox list list"

record scene_marker =
  ma_marker :: dbMarker
  ma_name :: string

record scene_block =
  bl_insts :: "scene_inst list"
  bl_nets :: "scene_net list"
  bl_bterms :: "scene_bterm list"
  bl_blockages :: "Rect option list"
  bl_marker_categories :: "scene_marker list list"
  bl_track_grids :: "dbTrackGrid list"
  bl_bbox :: "Rect option"

record scene_state =
  ss_layers :: "LayerRecord list"
  ss_objects :: "ObjectRecord list"
  ss_capacity :: nat
  ss_moves :: nat
  ss_layer_map :: "string \<rightharpoonup> nat \<times> nat"
  ss_z_cache :: "int \<rightharpoonup> rat"
  ss_counter :: int

section \<open>Steps that may fail\<close>

primrec for_each_in :: "('a \<Rightarrow> 's \<Rightarrow> 'e + 's) \<Rightarrow> 'a list \<Rightarrow> 's \<Rightarrow> 'e + 's" where
  "for_each_in f [] s = Inr s"
| "for_each_in f (x # xs) s = and_then (f x s) (for_each_in f xs)"

text \<open>A pointer to a layer, null or not, as it is dereferenced.\<close>

definition layer_ref :: "scene_env \<Rightarrow> nat \<Rightarrow> wire_error + dbTechLayer option" where
  "layer_ref env layer =
     (if layer = 0 then Inr None else and_then (dbTech_getLayer (se_db env) layer) (\<lambda>l. Inr (Some l)))"

definition compute_z :: "scene_env \<Rightarrow> scene_state \<Rightarrow> scene_state" where
  "compute_z env st =
     st\<lparr>ss_z_cache := computeLayerZPositions (se_fl env) (se_dbu env)
                        (if se_has_tech env then Some (wd_layers (se_db env)) else None)\<rparr>"

definition z_base :: "scene_env \<Rightarrow> scene_state \<Rightarrow> dbTechLayer option \<Rightarrow> rat" where
  "z_base env st layer = getLayerZBase (se_fl env) (ss_z_cache st) layer"

definition z_thickness :: "scene_env \<Rightarrow> dbTechLayer option \<Rightarrow> rat" where
  "z_thickness env layer = getLayerThickness (se_fl env) (se_dbu env) layer"

definition dbuToMicrons :: "scene_env \<Rightarrow> int \<Rightarrow> rat" where
  "dbuToMicrons env dbu = se_fl env (se_fl env (of_int dbu) / se_fl env (of_int (se_dbu env)))"

definition generateObjectId :: "string \<Rightarrow> scene_state \<Rightarrow> string \<times> scene_state" where
  "generateObjectId prefix st =
     (prefix @ ''_'' @ int_to_string (ss_counter st), st\<lparr>ss_counter := ss_counter st + 1\<rparr>)"

section \<open>Layers\<close>

definition new_layer_record :: "scene_env \<Rightarrow> string \<Rightarrow> rat \<Rightarrow> wire_error + LayerRecord" where
  "new_layer_record env layerName zBase =
     (let isHorizontal =
        (if se_has_tech env then
           case List.find (\<lambda>l. tl_name l = layerName) (wd_layers (se_db env)) of
             Some techLayer \<Rightarrow> tl_direction techLayer = dbTechLayerDir.HORIZONTAL
           | None \<Rightarrow> True
         else True)
      in and_then (stippleForLayer layerName) (\<lambda>stipple.
         Inr \<lparr>lr_layerId = layerName, lr_name = layerName, lr_zBase = zBase, lr_thickness = se_fl env (3/10),
              lr_visible = True, lr_selectable = True, lr_isHorizontal = isHorizontal,
              lr_color = colorFromLayerName (se_fl env) (se_dbl env) layerName, lr_stippleId = stipple,
              lr_transparency = 0, lr_lighten = 0, lr_lineWidth = 1, lr_lineStyle = LineStyle.Solid\<rparr>))"

definition push_layer :: "scene_env \<Rightarrow> LayerRecord \<Rightarrow> scene_state \<Rightarrow> scene_state" where
  "push_layer env layer st =
     (let full = (length (ss_layers st) = ss_capacity st)
      in st\<lparr>ss_layers := ss_layers st @ [layer],
            ss_capacity := (if full then se_grow env (ss_capacity st) else ss_capacity st),
            ss_moves := (if full then ss_moves st + 1 else ss_moves st)\<rparr>)"

text \<open>The result is the index of the layer, which the callers use before the next push.\<close>

definition getOrCreateLayer ::
  "scene_env \<Rightarrow> string \<Rightarrow> rat \<Rightarrow> scene_state \<Rightarrow> wire_error + nat \<times> scene_state" where
  "getOrCreateLayer env layerName zBase st =
     (case ss_layer_map st layerName of
        Some (moves, i) \<Rightarrow>
          if moves \<noteq> ss_moves st then Inl BadPointer
          else let layer = ss_layers st ! i
               in if \<bar>se_fl env (lr_zBase layer - zBase)\<bar> > se_fl env (1 / 1000000)
                  then Inr (i, st\<lparr>ss_layers := (ss_layers st)[i := layer\<lparr>lr_zBase := zBase\<rparr>]\<rparr>)
                  else Inr (i, st)
      | None \<Rightarrow>
          and_then (new_layer_record env layerName zBase) (\<lambda>layer.
          let st = push_layer env layer st;
              i = length (ss_layers st) - 1
          in Inr (i, st\<lparr>ss_layer_map := (ss_layer_map st)(layerName \<mapsto> (ss_moves st, i))\<rparr>)))"

section \<open>Objects\<close>

definition translation :: "vec3 \<Rightarrow> rat list" where
  "translation v = [1, 0, 0, 0, 0, 1, 0, 0, 0, 0, 1, 0, v3x v, v3y v, v3z v, 1]"

text \<open>The box of an object, from a rectangle in database units and an interval of heights, and its centre.\<close>

definition place :: "scene_env \<Rightarrow> Rect \<Rightarrow> rat \<Rightarrow> rat \<Rightarrow> ObjectRecord \<Rightarrow> ObjectRecord" where
  "place env rect zMin zMax ob =
     (let b = \<lparr>bb_min = Vec3 (dbuToMicrons env (rect_xlo rect)) (dbuToMicrons env (rect_ylo rect)) zMin,
               bb_max = Vec3 (dbuToMicrons env (rect_xhi rect)) (dbuToMicrons env (rect_yhi rect)) zMax\<rparr>
      in ob\<lparr>ob_hasBbox := True, ob_bbox := b, ob_transform := translation (AABB_center (se_fl env) b)\<rparr>)"

text \<open>At a height, with a thickness: half of it below and half above.\<close>

definition place_at :: "scene_env \<Rightarrow> Rect \<Rightarrow> rat \<Rightarrow> rat \<Rightarrow> ObjectRecord \<Rightarrow> ObjectRecord" where
  "place_at env rect zCenter thickness ob =
     (let half = se_fl env (thickness * (1/2))
      in place env rect (se_fl env (zCenter - half)) (se_fl env (zCenter + half)) ob)"

definition push_object :: "ObjectRecord \<Rightarrow> scene_state \<Rightarrow> scene_state" where
  "push_object ob st = st\<lparr>ss_objects := ss_objects st @ [ob]\<rparr>"

text \<open>The object goes on the layer of a name, which is made if need be.\<close>

definition push_on_layer ::
  "scene_env \<Rightarrow> string \<Rightarrow> rat \<Rightarrow> ObjectRecord \<Rightarrow> scene_state \<Rightarrow> wire_error + scene_state" where
  "push_on_layer env layerName zBase ob st =
     and_then (getOrCreateLayer env layerName zBase st) (\<lambda>(i, st).
     Inr (push_object (ob\<lparr>ob_layerId := lr_layerId (ss_layers st ! i)\<rparr>) st))"

section \<open>Instances\<close>

definition iterm_shapes :: "scene_env \<Rightarrow> scene_inst \<Rightarrow> scene_iterm \<Rightarrow> wire_error + dbShape list" where
  "iterm_shapes env inst iterm = boxes_shapes (se_db env) True (in_transform inst) (concat (ite_mpins iterm))"

record pin_span =
  sp_hasPinShape :: bool
  sp_centerSum :: rat
  sp_centerCount :: nat
  sp_thicknessSum :: rat
  sp_zMin :: rat
  sp_zMax :: rat
  sp_seen :: "int set"

definition pin_span_begin :: pin_span where
  "pin_span_begin = \<lparr>sp_hasPinShape = False, sp_centerSum = 0, sp_centerCount = 0, sp_thicknessSum = 0, sp_zMin = 0,
                     sp_zMax = 0, sp_seen = {}\<rparr>"

definition span_layer :: "scene_env \<Rightarrow> scene_state \<Rightarrow> dbTechLayer \<Rightarrow> pin_span \<Rightarrow> pin_span" where
  "span_layer env st pinLayer sp =
     (let fl = se_fl env;
          layerCenter = z_base env st (Some pinLayer);
          layerThickness = z_thickness env (Some pinLayer);
          half = fl (layerThickness * (1/2));
          shapeZMin = fl (layerCenter - half);
          shapeZMax = fl (layerCenter + half);
          layerNum = tl_number pinLayer
      in if layerNum \<in> sp_seen sp then sp
         else sp\<lparr>sp_seen := insert layerNum (sp_seen sp), sp_centerSum := fl (sp_centerSum sp + layerCenter),
                 sp_centerCount := sp_centerCount sp + 1, sp_thicknessSum := fl (sp_thicknessSum sp + layerThickness),
                 sp_hasPinShape := True,
                 sp_zMin := (if sp_hasPinShape sp then min (sp_zMin sp) shapeZMin else shapeZMin),
                 sp_zMax := (if sp_hasPinShape sp then max (sp_zMax sp) shapeZMax else shapeZMax)\<rparr>)"

definition span_shape :: "scene_env \<Rightarrow> scene_state \<Rightarrow> dbShape \<Rightarrow> pin_span \<Rightarrow> wire_error + pin_span" where
  "span_shape env st shape sp =
     and_then (layer_ref env (sh_layer shape)) (\<lambda>layer.
     Inr (case layer of None \<Rightarrow> sp | Some pinLayer \<Rightarrow> span_layer env st pinLayer sp))"

definition span_pins :: "scene_env \<Rightarrow> scene_state \<Rightarrow> scene_inst \<Rightarrow> wire_error + pin_span" where
  "span_pins env st inst =
     for_each_in (\<lambda>iterm sp. and_then (iterm_shapes env inst iterm) (\<lambda>shapes.
                             for_each_in (span_shape env st) shapes sp)) (in_iterms inst) pin_span_begin"

text \<open>The centre and the thickness of an instance.\<close>

definition inst_height :: "scene_env \<Rightarrow> pin_span \<Rightarrow> rat \<times> rat" where
  "inst_height env sp =
     (let fl = se_fl env
      in if sp_hasPinShape sp \<and> 0 < sp_centerCount sp then
           let centerZ = fl (sp_centerSum sp / fl (of_nat (sp_centerCount sp)));
               halfSpan = max (fl (centerZ - sp_zMin sp)) (fl (sp_zMax sp - centerZ));
               coverThickness = fl (halfSpan * 2)
           in (centerZ, max (fl (1/100)) (max coverThickness (sp_thicknessSum sp)))
         else (1/4, 1/2))"

definition gray_instances :: "scene_env \<Rightarrow> nat \<Rightarrow> scene_state \<Rightarrow> scene_state" where
  "gray_instances env i st =
     st\<lparr>ss_layers := (ss_layers st)[i := (ss_layers st ! i)
          \<lparr>lr_color := \<lparr>col_r = se_fl env (6/10), col_g = se_fl env (6/10), col_b = se_fl env (6/10), col_a = 1\<rparr>,
           lr_transparency := se_fl env (55/100)\<rparr>]\<rparr>"

definition process_inst :: "scene_env \<Rightarrow> scene_inst \<Rightarrow> scene_state \<Rightarrow> wire_error + scene_state" where
  "process_inst env inst st =
     (case in_bbox inst of
        None \<Rightarrow> Inr st
      | Some rect \<Rightarrow>
          and_then (span_pins env st inst) (\<lambda>sp.
          let (centerZ, thicknessZ) = inst_height env sp;
              ob = ObjectRecord_default\<lparr>ob_objectId := makePointerObjectId (in_ptr inst) ''inst'' (- 1) [],
                     ob_type := ObjectType.Inst, ob_displayName := in_name inst\<rparr>
          in and_then (getOrCreateLayer env ''instance'' 0 st) (\<lambda>(i, st).
             let st = gray_instances env i st
             in Inr (push_object ((place_at env rect centerZ thicknessZ ob)
                       \<lparr>ob_layerId := lr_layerId (ss_layers st ! i), ob_styleRef := in_master_name inst\<rparr>) st))))"

definition processInstances :: "scene_env \<Rightarrow> scene_block \<Rightarrow> scene_state \<Rightarrow> wire_error + scene_state" where
  "processInstances env block st = for_each_in (process_inst env) (bl_insts block) (compute_z env st)"

section \<open>Nets\<close>

text \<open>The union of the boxes of a via on one of its layers, once there is one.\<close>

definition union_box :: "Rect option \<Rightarrow> Rect \<Rightarrow> Rect option" where
  "union_box u r = Some (case u of None \<Rightarrow> r | Some u \<Rightarrow> Rect_merge u r)"

record via_unions =
  vu_top :: "Rect option"
  vu_bottom :: "Rect option"
  vu_cut :: "Rect option"
  vu_cutThickness :: rat

definition union_via_box ::
  "scene_env \<Rightarrow> dbTechLayer \<Rightarrow> dbTechLayer \<Rightarrow> dbShape \<Rightarrow> via_unions \<Rightarrow> wire_error + via_unions" where
  "union_via_box env physTop physBottom box u =
     and_then (layer_ref env (sh_layer box)) (\<lambda>layer.
     Inr (case layer of
            None \<Rightarrow> u
          | Some boxLayer \<Rightarrow>
              let r = sh_rect box;
                  u = (if tl_number boxLayer = tl_number physTop then u\<lparr>vu_top := union_box (vu_top u) r\<rparr> else u);
                  u = (if tl_number boxLayer = tl_number physBottom
                       then u\<lparr>vu_bottom := union_box (vu_bottom u) r\<rparr> else u)
              in if tl_type boxLayer = dbTechLayerType.CUT
                 then u\<lparr>vu_cutThickness := z_thickness env (Some boxLayer), vu_cut := union_box (vu_cut u) r\<rparr>
                 else u))"

definition via_part ::
  "scene_env \<Rightarrow> string \<Rightarrow> string \<Rightarrow> string \<Rightarrow> string \<Rightarrow> Rect \<Rightarrow> rat \<Rightarrow> rat \<Rightarrow> string \<Rightarrow> scene_state
   \<Rightarrow> wire_error + scene_state" where
  "via_part env objectId netName styleRef groupId rect zCenter thickness layerName =
     push_on_layer env layerName zCenter
       (place_at env rect zCenter thickness
          (ObjectRecord_default\<lparr>ob_objectId := objectId, ob_type := ObjectType.Via, ob_displayName := netName,
             ob_styleRef := styleRef, ob_groupId := groupId\<rparr>))"

text \<open>The two layers of a via shape, as pointers.\<close>

definition via_layers :: "scene_env \<Rightarrow> dbShape \<Rightarrow> wire_error + nat \<times> nat" where
  "via_layers env shape =
     (if shape_getVia shape \<noteq> 0 then
        and_then (via_of (se_db env) False (shape_getVia shape)) (\<lambda>v. Inr (via_top v, via_bottom v))
      else if shape_getTechVia shape \<noteq> 0 then
        and_then (via_of (se_db env) True (shape_getTechVia shape)) (\<lambda>v. Inr (via_top v, via_bottom v))
      else Inr (0, 0))"

definition process_via ::
  "scene_env \<Rightarrow> string \<Rightarrow> nat \<Rightarrow> int \<Rightarrow> dbTechLayer \<Rightarrow> dbTechLayer \<Rightarrow> dbShape \<Rightarrow> scene_state
   \<Rightarrow> wire_error + scene_state" where
  "process_via env netName wire shapeIndex topLayer bottomLayer shape st =
     (let fl = se_fl env;
          topZ_raw = z_base env st (Some topLayer);
          bottomZ_raw = z_base env st (Some bottomLayer);
          (physTop, physBottom, physTopZ, physBottomZ) =
            (if bottomZ_raw > topZ_raw then (bottomLayer, topLayer, bottomZ_raw, topZ_raw)
             else (topLayer, bottomLayer, topZ_raw, bottomZ_raw));
          viaLayerName = getViaLayerName (Some physTop) (Some physBottom);
          viaGroupId = netName @ ''_'' @ viaLayerName;
          topThickness = z_thickness env (Some physTop);
          bottomThickness = z_thickness env (Some physBottom)
      in and_then (getViaBoxes (se_db env) (0, 0) shape []) (\<lambda>viaBoxes.
         and_then (for_each_in (union_via_box env physTop physBottom) viaBoxes
                     \<lparr>vu_top = None, vu_bottom = None, vu_cut = None, vu_cutThickness = bottomThickness\<rparr>) (\<lambda>u.
         and_then (if vu_top u = None \<or> vu_bottom u = None \<or> vu_cut u = None
                   then getViaXY (se_db env) shape (0, 0) else Inr (0, 0)) (\<lambda>(viaX, viaY).
         let at_point = Rect_reset viaX viaY viaX viaY;
             or_point = (\<lambda>u. case u of None \<Rightarrow> at_point | Some r \<Rightarrow> r);
             cutThickness = vu_cutThickness u;
             viaZ = fl (fl (physBottomZ + fl (bottomThickness / 2)) + fl (cutThickness / 2))
         in and_then (via_part env [] netName ''via_top'' viaGroupId (or_point (vu_top u)) physTopZ topThickness
                        (tl_name physTop) st) (\<lambda>st.
            and_then (via_part env (makePointerObjectId wire ''via'' shapeIndex ''bottom'') netName ''via_bottom''
                        viaGroupId (or_point (vu_bottom u)) physBottomZ bottomThickness (tl_name physBottom) st) (\<lambda>st.
            via_part env (makePointerObjectId wire ''via'' shapeIndex ''cut'') netName ''via_cut'' viaGroupId
              (or_point (vu_cut u)) viaZ cutThickness (viaLayerName @ ''_cut'') st))))))"

definition process_segment ::
  "scene_env \<Rightarrow> string \<Rightarrow> nat \<Rightarrow> int \<Rightarrow> dbShape \<Rightarrow> scene_state \<Rightarrow> wire_error + scene_state" where
  "process_segment env netName wire shapeIndex shape st =
     and_then (layer_ref env (sh_layer shape)) (\<lambda>layer.
     let fl = se_fl env;
         zBase = z_base env st layer;
         thickness = z_thickness env layer;
         ob = place_at env (sh_rect shape) zBase thickness
                (ObjectRecord_default\<lparr>ob_objectId := makePointerObjectId wire ''wire'' shapeIndex [],
                   ob_type := ObjectType.Wire, ob_displayName := netName, ob_styleRef := ''wire''\<rparr>);
         xlen = fl (v3x (bb_max (ob_bbox ob)) - v3x (bb_min (ob_bbox ob)));
         ylen = fl (v3y (bb_max (ob_bbox ob)) - v3y (bb_min (ob_bbox ob)));
         ob = ob\<lparr>ob_isHorizontal := xlen > ylen\<rparr>
     in case layer of
          None \<Rightarrow> Inr (push_object ob st)
        | Some l \<Rightarrow> push_on_layer env (tl_name l) zBase ob st)"

text \<open>A via without layers is passed over and does not count.\<close>

definition process_shape ::
  "scene_env \<Rightarrow> string \<Rightarrow> nat \<Rightarrow> dbShape \<Rightarrow> int \<times> scene_state \<Rightarrow> wire_error + int \<times> scene_state" where
  "process_shape env netName wire shape ist =
     (let (shapeIndex, st) = ist
      in if isVia shape \<or> isViaBox shape then
           and_then (via_layers env shape) (\<lambda>(topLayer, bottomLayer).
           if topLayer = 0 \<or> bottomLayer = 0 then Inr (shapeIndex, st)
           else and_then (dbTech_getLayer (se_db env) topLayer) (\<lambda>topLayer.
                and_then (dbTech_getLayer (se_db env) bottomLayer) (\<lambda>bottomLayer.
                and_then (process_via env netName wire shapeIndex topLayer bottomLayer shape st) (\<lambda>st.
                Inr (shapeIndex + 1, st)))))
         else and_then (process_segment env netName wire shapeIndex shape st) (\<lambda>st. Inr (shapeIndex + 1, st)))"

definition process_net :: "scene_env \<Rightarrow> scene_net \<Rightarrow> scene_state \<Rightarrow> wire_error + scene_state" where
  "process_net env net st =
     (case ne_wire net of
        None \<Rightarrow> Inr st
      | Some (wire, code) \<Rightarrow>
          and_then (wire_shapes (se_asserts env) (se_db env) code) (\<lambda>shapes.
          and_then (for_each_in (process_shape env (ne_name net) wire) shapes (0, st)) (\<lambda>(shapeIndex, st). Inr st)))"

definition processNets :: "scene_env \<Rightarrow> scene_block \<Rightarrow> scene_state \<Rightarrow> wire_error + scene_state" where
  "processNets env block st = for_each_in (process_net env) (bl_nets block) (compute_z env st)"

section \<open>Pins\<close>

definition bpin_bbox :: "dbBox list \<Rightarrow> Rect" where
  "bpin_bbox boxes = foldl (\<lambda>bbox box. Rect_merge bbox (bx_rect box)) Rect_mergeInit boxes"

definition bpin_layer :: "dbBox list \<Rightarrow> nat" where
  "bpin_layer boxes = (case List.find (\<lambda>box. bx_layer box \<noteq> 0) boxes of Some box \<Rightarrow> bx_layer box | None \<Rightarrow> 0)"

definition process_bterm :: "scene_env \<Rightarrow> scene_bterm \<Rightarrow> scene_state \<Rightarrow> wire_error + scene_state" where
  "process_bterm env bterm st =
     (let ob = ObjectRecord_default\<lparr>ob_objectId := makePointerObjectId (bt_ptr bterm) ''bterm_pin'' (- 1) [],
                 ob_type := ObjectType.Pin, ob_displayName := bt_name bterm\<rparr>
      in case List.find (\<lambda>boxes. Rect_area (bpin_bbox boxes) > 0) (bt_bpins bterm) of
           None \<Rightarrow> Inr (push_object (ob\<lparr>ob_layerId := ''pin''\<rparr>) st)
         | Some boxes \<Rightarrow>
             and_then (layer_ref env (bpin_layer boxes)) (\<lambda>pinLayer.
             let zCenter = (if pinLayer = None then se_fl env (1/10) else z_base env st pinLayer);
                 zThickness = (if pinLayer = None then se_fl env (2/10) else z_thickness env pinLayer);
                 ob = place_at env (bpin_bbox boxes) zCenter zThickness ob
             in case pinLayer of
                  None \<Rightarrow> Inr (push_object (ob\<lparr>ob_layerId := ''pin''\<rparr>) st)
                | Some l \<Rightarrow> push_on_layer env (tl_name l) zCenter ob st))"

definition process_iterm_shape ::
  "scene_env \<Rightarrow> scene_inst \<Rightarrow> scene_iterm \<Rightarrow> dbShape \<Rightarrow> int \<times> scene_state \<Rightarrow> wire_error + int \<times> scene_state" where
  "process_iterm_shape env inst iterm shape ist =
     (let (shapeIndex, st) = ist
      in and_then (layer_ref env (sh_layer shape)) (\<lambda>layer.
         case layer of
           None \<Rightarrow> Inr (shapeIndex, st)
         | Some l \<Rightarrow>
             let pinName = (case ite_mterm_name iterm of Some n \<Rightarrow> n | None \<Rightarrow> ''iterm'');
                 zCenter = z_base env st layer;
                 zThickness = z_thickness env layer;
                 ob = ObjectRecord_default
                        \<lparr>ob_objectId := makePointerObjectId (ite_ptr iterm) ''iterm_pin'' shapeIndex [],
                         ob_type := ObjectType.Pin, ob_displayName := in_name inst @ ''/'' @ pinName\<rparr>
             in and_then (push_on_layer env (tl_name l) zCenter
                            (place_at env (sh_rect shape) zCenter zThickness ob) st) (\<lambda>st.
                Inr (shapeIndex + 1, st))))"

definition process_iterm :: "scene_env \<Rightarrow> scene_inst \<Rightarrow> scene_iterm \<Rightarrow> scene_state \<Rightarrow> wire_error + scene_state" where
  "process_iterm env inst iterm st =
     and_then (iterm_shapes env inst iterm) (\<lambda>shapes.
     and_then (for_each_in (process_iterm_shape env inst iterm) shapes (0, st)) (\<lambda>(shapeIndex, st). Inr st))"

definition processPins :: "scene_env \<Rightarrow> scene_block \<Rightarrow> scene_state \<Rightarrow> wire_error + scene_state" where
  "processPins env block st =
     and_then (for_each_in (process_bterm env) (bl_bterms block) st)
       (for_each_in (\<lambda>inst. for_each_in (process_iterm env inst) (in_iterms inst)) (bl_insts block))"

section \<open>Blockages, markers, tracks\<close>

definition process_blockage :: "scene_env \<Rightarrow> Rect option \<Rightarrow> scene_state \<Rightarrow> wire_error + scene_state" where
  "process_blockage env bbox st =
     (case bbox of
        None \<Rightarrow> Inr st
      | Some rect \<Rightarrow>
          let (objectId, st) = generateObjectId ''blk'' st;
              layer = (if se_has_tech env then List.find (\<lambda>l. tl_name l = ''metal1'') (wd_layers (se_db env)) else None);
              zBase = (if layer = None then 0 else z_base env st layer);
              thickness = (if layer = None then 1/2 else z_thickness env layer)
          in push_on_layer env ''blockage'' zBase
               (place_at env rect zBase thickness
                  (ObjectRecord_default\<lparr>ob_objectId := objectId, ob_type := ObjectType.Blockage,
                     ob_displayName := ''blockage''\<rparr>)) st)"

definition processBlockages :: "scene_env \<Rightarrow> scene_block \<Rightarrow> scene_state \<Rightarrow> wire_error + scene_state" where
  "processBlockages env block = for_each_in (process_blockage env) (bl_blockages block)"

definition process_marker :: "scene_env \<Rightarrow> scene_marker \<Rightarrow> scene_state \<Rightarrow> wire_error + scene_state" where
  "process_marker env m st =
     and_then (layer_ref env (mk_layer (ma_marker m))) (\<lambda>techLayer.
     let (objectId, st) = generateObjectId ''drc'' st;
         zBase = (if techLayer = None then 1/2 else z_base env st techLayer);
         thickness = (if techLayer = None then se_fl env (1/10) else z_thickness env techLayer);
         ob = place_at env (dbMarker_getBBox (ma_marker m)) zBase thickness
                (ObjectRecord_default\<lparr>ob_objectId := objectId, ob_type := ObjectType.Drc, ob_displayName := ma_name m\<rparr>)
     in case techLayer of
          None \<Rightarrow> Inr (push_object ob st)
        | Some l \<Rightarrow> push_on_layer env (tl_name l) zBase ob st)"

definition processDrcMarkers :: "scene_env \<Rightarrow> scene_block \<Rightarrow> scene_state \<Rightarrow> wire_error + scene_state" where
  "processDrcMarkers env block = for_each_in (for_each_in (process_marker env)) (bl_marker_categories block)"

fun join_with :: "string \<Rightarrow> string list \<Rightarrow> string" where
  "join_with sep [] = []"
| "join_with sep [x] = x"
| "join_with sep (x # y # ys) = x @ sep @ join_with sep (y # ys)"

text \<open>The end points of the track lines, as text.\<close>

definition track_lines :: "scene_env \<Rightarrow> rat \<Rightarrow> rat \<Rightarrow> rat \<Rightarrow> rat \<Rightarrow> int list \<Rightarrow> int list \<Rightarrow> string" where
  "track_lines env dieMinXF dieMinYF dieMaxXF dieMaxYF xGrid yGrid =
     (let sh = se_show env;
          line = (\<lambda>x1 y1 x2 y2. sh x1 @ '','' @ sh y1 @ '';'' @ sh x2 @ '','' @ sh y2);
          segments = map (\<lambda>x. let fx = dbuToMicrons env x in line fx dieMinYF fx dieMaxYF) xGrid @
                     map (\<lambda>y. let fy = dbuToMicrons env y in line dieMinXF fy dieMaxXF fy) yGrid
      in join_with '';'' segments)"

definition process_track_grid ::
  "scene_env \<Rightarrow> Rect \<Rightarrow> dbTrackGrid \<Rightarrow> scene_state \<Rightarrow> wire_error + scene_state" where
  "process_track_grid env die tg st =
     and_then (layer_ref env (tg_layer tg)) (\<lambda>techLayer.
     case techLayer of
       None \<Rightarrow> Inr st
     | Some l \<Rightarrow>
         let zBase = z_base env st techLayer;
             (xGrid, tg) = getGridX tg;
             (yGrid, tg) = getGridY tg;
             polyDesc = track_lines env (dbuToMicrons env (rect_xlo die)) (dbuToMicrons env (rect_ylo die))
                          (dbuToMicrons env (rect_xhi die)) (dbuToMicrons env (rect_yhi die)) xGrid yGrid;
             (objectId, st) = generateObjectId ''track'' st;
             ob = place env die zBase zBase
                    (ObjectRecord_default\<lparr>ob_objectId := objectId, ob_type := ObjectType.Track,
                       ob_displayName := ''track_'' @ tl_name l,
                       ob_geometryRef := (if polyDesc \<noteq> [] then ''poly:'' @ polyDesc else [])\<rparr>)
         in push_on_layer env (tl_name l) zBase ob st)"

definition processTrackGrids :: "scene_env \<Rightarrow> scene_block \<Rightarrow> scene_state \<Rightarrow> wire_error + scene_state" where
  "processTrackGrids env block st =
     (let die = (case bl_bbox block of Some r \<Rightarrow> r | None \<Rightarrow> Rect_reset 0 0 0 0)
      in for_each_in (process_track_grid env die) (bl_track_grids block) (compute_z env st))"

section \<open>The scene\<close>

definition scene_begin :: "int \<Rightarrow> (int \<rightharpoonup> rat) \<Rightarrow> scene_state" where
  "scene_begin counter cache =
     \<lparr>ss_layers = [], ss_objects = [], ss_capacity = 50, ss_moves = 0, ss_layer_map = Map.empty, ss_z_cache = cache,
      ss_counter = counter\<rparr>"

primrec unique_layers :: "LayerRecord list \<Rightarrow> string set \<Rightarrow> LayerRecord list" where
  "unique_layers [] names = []"
| "unique_layers (layer # layers) names =
     (if lr_name layer \<in> names then unique_layers layers names
      else layer # unique_layers layers (insert (lr_name layer) names))"

definition process_block :: "scene_env \<Rightarrow> scene_block \<Rightarrow> scene_state \<Rightarrow> wire_error + scene_state" where
  "process_block env block st =
     and_then (processInstances env block st) (\<lambda>st.
     and_then (processNets env block st) (\<lambda>st.
     and_then (processPins env block st) (\<lambda>st.
     and_then (processBlockages env block st) (\<lambda>st.
     and_then (processDrcMarkers env block st) (\<lambda>st.
     processTrackGrids env block st)))))"

text \<open>
  \<open>srt\<close> is the sort by \<open>lr_zBase\<close>. The counter of the builder and the cache of heights are what earlier builds
  have left; a design without a block gives an empty scene.
\<close>

definition OdbSceneBuilder_build ::
  "scene_env \<Rightarrow> (LayerRecord list \<Rightarrow> LayerRecord list) \<Rightarrow> int \<Rightarrow> (int \<rightharpoonup> rat) \<Rightarrow> scene_block option
   \<Rightarrow> wire_error + SceneSnapshot" where
  "OdbSceneBuilder_build env srt counter cache block =
     and_then (case block of None \<Rightarrow> Inr (scene_begin counter cache)
               | Some block \<Rightarrow> process_block env block (scene_begin counter cache)) (\<lambda>st.
     Inr \<lparr>snap_sourceTag = ''openroad_db'', snap_layers = srt (unique_layers (ss_layers st) {}),
          snap_objects = ss_objects st\<rparr>)"

end
