(* ===== verification/SceneLaws.thy ===== *)
theory SceneLaws
  imports SceneBuilder
begin

text \<open>
  What a scene is: its layers have different names, every object is on one of them and has a box in order with
  its centre as translation, and there is one object for each thing of the design that is drawn. \<open>yields\<close> says
  that a step returns and what holds then; \<open>block_ok\<close> is what the design has to satisfy for that.
\<close>

section \<open>Steps that return\<close>

definition yields :: "'e + 'a \<Rightarrow> ('a \<Rightarrow> bool) \<Rightarrow> bool" where
  "yields r Q \<longleftrightarrow> (\<exists>a. r = Inr a \<and> Q a)"

lemma yields_simps [simp]: "yields (Inr a) Q = Q a" "yields (Inl e) Q = False"
  by (simp_all add: yields_def)

lemma yields_and_then: "yields (and_then r k) Q = yields r (\<lambda>a. yields (k a) Q)"
  by (cases r) simp_all

lemma yields_mono: "yields r P \<Longrightarrow> (\<And>a. P a \<Longrightarrow> Q a) \<Longrightarrow> yields r Q"
  by (auto simp: yields_def)

text \<open>A loop keeps an invariant and adds to a list what each of its turns adds.\<close>

lemma yields_for_each:
  assumes "\<And>x s. x \<in> set xs \<Longrightarrow> I s \<Longrightarrow> yields (f x s) (\<lambda>s'. I s' \<and> lab s' = lab s @ g x)" "I s"
  shows "yields (for_each_in f xs s) (\<lambda>s'. I s' \<and> lab s' = lab s @ concat (map g xs))"
  using assms
proof (induction xs arbitrary: s)
  case (Cons x xs)
  have "yields (f x s) (\<lambda>s'. I s' \<and> lab s' = lab s @ g x)" using Cons.prems by simp
  then show ?case
    unfolding for_each_in.simps yields_and_then
    by (rule yields_mono) (rule yields_mono [OF Cons.IH], use Cons.prems in auto)
qed simp

lemma yields_for_each_inv:
  assumes "\<And>x s. x \<in> set xs \<Longrightarrow> I s \<Longrightarrow> yields (f x s) I" "I s"
  shows "yields (for_each_in f xs s) I"
  using yields_for_each [where I = I and lab = "\<lambda>_. []" and g = "\<lambda>_. []", of xs f s] assms by (auto elim: yields_mono)

section \<open>Boxes\<close>

definition env_ok :: "scene_env \<Rightarrow> bool" where
  "env_ok env \<longleftrightarrow> float_rounding (se_fl env) \<and> 0 < se_dbu env"

definition box_ordered :: "AABB \<Rightarrow> bool" where
  "box_ordered b \<longleftrightarrow> v3x (bb_min b) \<le> v3x (bb_max b) \<and> v3y (bb_min b) \<le> v3y (bb_max b) \<and> v3z (bb_min b) \<le> v3z (bb_max b)"

definition object_box_ok :: "scene_env \<Rightarrow> ObjectRecord \<Rightarrow> bool" where
  "object_box_ok env ob \<longleftrightarrow>
     (ob_hasBbox ob \<longrightarrow>
        box_ordered (ob_bbox ob) \<and> ob_transform ob = translation (AABB_center (se_fl env) (ob_bbox ob)))"

definition rect_ok :: "Rect \<Rightarrow> bool" where
  "rect_ok r \<longleftrightarrow> rect_xlo r \<le> rect_xhi r \<and> rect_ylo r \<le> rect_yhi r"

lemma fl_mono: "env_ok env \<Longrightarrow> x \<le> y \<Longrightarrow> se_fl env x \<le> se_fl env y"
  by (auto simp: env_ok_def dest: float_roundingD(1))

lemma fl_nonneg: "env_ok env \<Longrightarrow> 0 \<le> x \<Longrightarrow> 0 \<le> se_fl env x"
  using fl_mono [of env 0 x] by (auto simp: env_ok_def float_rounding_def)

lemma dbuToMicrons_mono:
  assumes "env_ok env" "x \<le> y"
  shows "dbuToMicrons env x \<le> dbuToMicrons env y"
proof -
  have d: "0 \<le> se_fl env (of_int (se_dbu env))" using assms(1) by (simp add: fl_nonneg env_ok_def)
  have "se_fl env (of_int x) \<le> se_fl env (of_int y)" using assms by (intro fl_mono) simp_all
  then show ?thesis
    unfolding dbuToMicrons_def by (intro fl_mono [OF assms(1)]) (rule divide_right_mono [OF _ d])
qed

lemma place_ok:
  assumes "env_ok env" "rect_ok r" "zMin \<le> zMax"
  shows "object_box_ok env (place env r zMin zMax ob)"
  using assms by (simp add: place_def object_box_ok_def box_ordered_def rect_ok_def Let_def dbuToMicrons_mono)

lemma place_at_ok:
  assumes "env_ok env" "rect_ok r" "0 \<le> thickness"
  shows "object_box_ok env (place_at env r z thickness ob)"
proof -
  have "0 \<le> se_fl env (thickness * (1/2))" using assms by (intro fl_nonneg) simp_all
  then show ?thesis
    unfolding place_at_def Let_def by (intro place_ok assms fl_mono) simp_all
qed

lemma place_fields [simp]:
  "ob_layerId (place env r a b ob) = ob_layerId ob" "ob_type (place env r a b ob) = ob_type ob"
  "ob_displayName (place env r a b ob) = ob_displayName ob" "ob_hasBbox (place env r a b ob)"
  "ob_layerId (place_at env r z t ob) = ob_layerId ob" "ob_type (place_at env r z t ob) = ob_type ob"
  "ob_displayName (place_at env r z t ob) = ob_displayName ob" "ob_hasBbox (place_at env r z t ob)"
  by (simp_all add: place_at_def place_def Let_def)

lemma object_box_ok_fields [simp]:
  "object_box_ok env (ob\<lparr>ob_layerId := l\<rparr>) = object_box_ok env ob" "object_box_ok env (ob\<lparr>ob_styleRef := s\<rparr>) = object_box_ok env ob"
  "object_box_ok env (ob\<lparr>ob_isHorizontal := h\<rparr>) = object_box_ok env ob"
  by (simp_all add: object_box_ok_def)

section \<open>Layers and objects\<close>

type_synonym label = "ObjectType \<times> string"

definition labels :: "scene_state \<Rightarrow> label list" where
  "labels st = map (\<lambda>ob. (ob_type ob, ob_displayName ob)) (ss_objects st)"

definition layer_names :: "scene_state \<Rightarrow> string set" where
  "layer_names st = set (map lr_name (ss_layers st))"

text \<open>The names that may come up: there is a pattern for each and there are fewer than the reserved capacity.\<close>

definition names_ok :: "string set \<Rightarrow> bool" where
  "names_ok N \<longleftrightarrow> finite N \<and> card N \<le> 50 \<and> (\<forall>n \<in> N. \<exists>p. stippleForLayer n = Inr p)"

definition layers_ok :: "string set \<Rightarrow> scene_state \<Rightarrow> bool" where
  "layers_ok N st \<longleftrightarrow>
     ss_moves st = 0 \<and> ss_capacity st = 50 \<and> distinct (map lr_name (ss_layers st)) \<and> layer_names st \<subseteq> N \<and>
     (\<forall>l \<in> set (ss_layers st). lr_layerId l = lr_name l) \<and>
     (\<forall>name m i. ss_layer_map st name = Some (m, i) \<longleftrightarrow>
        m = 0 \<and> i < length (ss_layers st) \<and> lr_name (ss_layers st ! i) = name)"

definition objects_ok :: "scene_env \<Rightarrow> scene_state \<Rightarrow> bool" where
  "objects_ok env st \<longleftrightarrow>
     (\<forall>ob \<in> set (ss_objects st). object_box_ok env ob \<and> ob_layerId ob \<in> {[], ''pin''} \<union> layer_names st)"

definition scene_ok :: "scene_env \<Rightarrow> string set \<Rightarrow> scene_state \<Rightarrow> bool" where
  "scene_ok env N st \<longleftrightarrow> layers_ok N st \<and> objects_ok env st"

lemma scene_begin_ok: "scene_ok env N (scene_begin counter cache) \<and> labels (scene_begin counter cache) = []"
  by (simp add: scene_ok_def layers_ok_def objects_ok_def layer_names_def scene_begin_def labels_def)

lemma scene_ok_updates [simp]:
  "scene_ok env N (st\<lparr>ss_z_cache := z\<rparr>) = scene_ok env N st" "scene_ok env N (st\<lparr>ss_counter := c\<rparr>) = scene_ok env N st"
  "labels (st\<lparr>ss_z_cache := z\<rparr>) = labels st" "labels (st\<lparr>ss_counter := c\<rparr>) = labels st"
  "labels (st\<lparr>ss_layers := ls\<rparr>) = labels st" "labels (st\<lparr>ss_layer_map := m\<rparr>) = labels st"
  by (simp_all add: scene_ok_def layers_ok_def objects_ok_def layer_names_def labels_def)

lemma names_update:
  assumes "i < length ls" "lr_name l = lr_name (ls ! i)" "lr_layerId l = lr_layerId (ls ! i)"
  shows "map lr_name (ls[i := l]) = map lr_name ls" "map lr_layerId (ls[i := l]) = map lr_layerId ls"
  using assms by (simp_all add: map_update list_update_same_conv)

lemma layers_ok_update:
  assumes "layers_ok N st" "i < length (ss_layers st)" "lr_name l = lr_name (ss_layers st ! i)"
    "lr_layerId l = lr_layerId (ss_layers st ! i)"
  shows "layers_ok N (st\<lparr>ss_layers := (ss_layers st)[i := l]\<rparr>)"
    and "layer_names (st\<lparr>ss_layers := (ss_layers st)[i := l]\<rparr>) = layer_names st"
proof -
  note u = names_update [OF assms(2-4)]
  show n: "layer_names (st\<lparr>ss_layers := (ss_layers st)[i := l]\<rparr>) = layer_names st" by (simp add: layer_names_def u(1) del: set_map)
  have nth: "lr_name ((ss_layers st)[i := l] ! j) = lr_name (ss_layers st ! j)" if "j < length (ss_layers st)" for j
    using u(1) that by (metis length_list_update nth_map)
  have ids: "\<forall>k \<in> set ((ss_layers st)[i := l]). lr_layerId k = lr_name k"
    using assms by (auto simp: layers_ok_def dest!: set_update_subset_insert [THEN subsetD])
  show "layers_ok N (st\<lparr>ss_layers := (ss_layers st)[i := l]\<rparr>)"
    using assms(1) ids n u(1) nth by (auto simp: layers_ok_def)
qed

lemma scene_ok_update:
  assumes "scene_ok env N st" "i < length (ss_layers st)" "lr_name l = lr_name (ss_layers st ! i)"
    "lr_layerId l = lr_layerId (ss_layers st ! i)"
  shows "scene_ok env N (st\<lparr>ss_layers := (ss_layers st)[i := l]\<rparr>)"
  using assms layers_ok_update [of N st i l] by (auto simp: scene_ok_def objects_ok_def)

lemma layers_ok_room:
  assumes "layers_ok N st" "names_ok N" "name \<in> N" "name \<notin> layer_names st"
  shows "length (ss_layers st) < 50"
proof -
  have "length (ss_layers st) = card (layer_names st)"
    using assms(1) distinct_card [of "map lr_name (ss_layers st)"] by (simp add: layers_ok_def layer_names_def)
  also have "\<dots> < card N"
    using assms by (intro psubset_card_mono) (auto simp: names_ok_def layers_ok_def)
  finally show ?thesis using assms(2) by (simp add: names_ok_def)
qed

lemma new_layer_record_yields:
  "names_ok N \<Longrightarrow> name \<in> N \<Longrightarrow>
   yields (new_layer_record env name z) (\<lambda>l. lr_layerId l = name \<and> lr_name l = name \<and> lr_zBase l = z)"
  by (auto simp: new_layer_record_def names_ok_def Let_def)

text \<open>The lookup returns the one layer of that name, at the height asked for or closer to it than can be seen.\<close>

lemma getOrCreateLayer_yields:
  assumes ok: "scene_ok env N st" and N: "names_ok N" "name \<in> N"
  shows "yields (getOrCreateLayer env name z st) (\<lambda>(i, st'). scene_ok env N st' \<and> labels st' = labels st \<and>
    ss_objects st' = ss_objects st \<and> i < length (ss_layers st') \<and> lr_name (ss_layers st' ! i) = name \<and>
    lr_layerId (ss_layers st' ! i) = name \<and>
    (lr_zBase (ss_layers st' ! i) = z \<or> \<bar>se_fl env (lr_zBase (ss_layers st' ! i) - z)\<bar> \<le> se_fl env (1 / 1000000)))"
proof (cases "ss_layer_map st name")
  case (Some mi)
  obtain m i where mi: "mi = (m, i)" by (cases mi)
  from ok Some have i: "m = 0" "ss_moves st = 0" "i < length (ss_layers st)" "lr_name (ss_layers st ! i) = name"
    "lr_layerId (ss_layers st ! i) = name"
    by (auto simp: scene_ok_def layers_ok_def mi)
  then show ?thesis
    using ok scene_ok_update [OF ok i(3), of "(ss_layers st ! i)\<lparr>lr_zBase := z\<rparr>"]
    by (auto simp: getOrCreateLayer_def Some mi Let_def)
next
  case None
  have n: "name \<notin> layer_names st"
  proof
    assume "name \<in> layer_names st"
    then obtain i where "i < length (ss_layers st)" "lr_name (ss_layers st ! i) = name"
      by (auto simp: layer_names_def in_set_conv_nth)
    with ok have "ss_layer_map st name = Some (0, i)" unfolding scene_ok_def layers_ok_def by blast
    with None show False by simp
  qed
  note room = layers_ok_room [OF _ N n]
  obtain l where l: "new_layer_record env name z = Inr l" "lr_layerId l = name" "lr_name l = name" "lr_zBase l = z"
    using new_layer_record_yields [OF N, of env z] by (auto simp: yields_def)
  let ?st = "st\<lparr>ss_layers := ss_layers st @ [l], ss_layer_map := (ss_layer_map st)(name \<mapsto> (0, length (ss_layers st)))\<rparr>"
  have g: "getOrCreateLayer env name z st = Inr (length (ss_layers st), ?st)"
    using ok room by (simp add: getOrCreateLayer_def None l(1) push_layer_def scene_ok_def layers_ok_def Let_def)
  have "layer_names ?st = insert name (layer_names st)" by (auto simp: layer_names_def l)
  moreover have "layers_ok N ?st"
    using ok n N(2) unfolding scene_ok_def layers_ok_def layer_names_def
    by (auto simp: l nth_append less_Suc_eq)
  ultimately have "scene_ok env N ?st" using ok by (auto simp: scene_ok_def objects_ok_def)
  then show ?thesis by (simp add: g l labels_def)
qed

lemma push_object_ok:
  assumes "scene_ok env N st" "object_box_ok env ob" "ob_layerId ob \<in> {[], ''pin''} \<union> layer_names st"
  shows "scene_ok env N (push_object ob st)"
  using assms by (auto simp: scene_ok_def push_object_def layers_ok_def objects_ok_def layer_names_def)

lemma labels_push [simp]: "labels (push_object ob st) = labels st @ [(ob_type ob, ob_displayName ob)]"
  by (simp add: labels_def push_object_def)

lemma push_on_layer_yields:
  assumes "scene_ok env N st" "names_ok N" "name \<in> N" "object_box_ok env ob"
  shows "yields (push_on_layer env name z ob st)
    (\<lambda>st'. scene_ok env N st' \<and> labels st' = labels st @ [(ob_type ob, ob_displayName ob)])"
  unfolding push_on_layer_def yields_and_then
  by (rule yields_mono [OF getOrCreateLayer_yields [OF assms(1-3)]])
    (auto intro!: push_object_ok simp: assms(4) layer_names_def)

section \<open>Designs that can be drawn\<close>

definition layer_known :: "scene_env \<Rightarrow> string set \<Rightarrow> nat \<Rightarrow> bool" where
  "layer_known env N layer \<longleftrightarrow>
     (\<exists>l. dbTech_getLayer (se_db env) layer = Inr l \<and> tl_name l \<in> N \<and> tl_width l < 2 ^ 31)"

definition shape_ok :: "scene_env \<Rightarrow> string set \<Rightarrow> dbShape \<Rightarrow> bool" where
  "shape_ok env N s \<longleftrightarrow> rect_ok (sh_rect s) \<and> (sh_layer s = 0 \<or> layer_known env N (sh_layer s))"

definition via_ok :: "scene_env \<Rightarrow> string set \<Rightarrow> dbShape \<Rightarrow> bool" where
  "via_ok env N s \<longleftrightarrow>
     (\<exists>t b. via_layers env s = Inr (t, b) \<and>
        (t = 0 \<or> b = 0 \<or>
         (\<exists>lt lb boxes xy. dbTech_getLayer (se_db env) t = Inr lt \<and> dbTech_getLayer (se_db env) b = Inr lb \<and>
            layer_known env N t \<and> layer_known env N b \<and>
            getViaBoxes (se_db env) (0, 0) s [] = Inr boxes \<and> (\<forall>x \<in> set boxes. shape_ok env N x) \<and>
            getViaXY (se_db env) s (0, 0) = Inr xy \<and>
            getViaLayerName (Some lt) (Some lb) @ ''_cut'' \<in> N \<and> getViaLayerName (Some lb) (Some lt) @ ''_cut'' \<in> N)))"

definition wire_shape_ok :: "scene_env \<Rightarrow> string set \<Rightarrow> dbShape \<Rightarrow> bool" where
  "wire_shape_ok env N s \<longleftrightarrow> (if isVia s \<or> isViaBox s then via_ok env N s else shape_ok env N s)"

definition inst_ok :: "scene_env \<Rightarrow> string set \<Rightarrow> scene_inst \<Rightarrow> bool" where
  "inst_ok env N inst \<longleftrightarrow> (\<forall>r. in_bbox inst = Some r \<longrightarrow> rect_ok r) \<and>
     (\<forall>t \<in> set (in_iterms inst). \<exists>ss. iterm_shapes env inst t = Inr ss \<and> (\<forall>s \<in> set ss. shape_ok env N s))"

definition scene_net_ok :: "scene_env \<Rightarrow> string set \<Rightarrow> scene_net \<Rightarrow> bool" where
  "scene_net_ok env N net \<longleftrightarrow> (\<forall>w code. ne_wire net = Some (w, code) \<longrightarrow>
     (\<exists>ss. wire_shapes (se_asserts env) (se_db env) code = Inr ss \<and> (\<forall>s \<in> set ss. wire_shape_ok env N s)))"

definition bterm_ok :: "scene_env \<Rightarrow> string set \<Rightarrow> scene_bterm \<Rightarrow> bool" where
  "bterm_ok env N bterm \<longleftrightarrow> (\<forall>boxes \<in> set (bt_bpins bterm). Rect_area (bpin_bbox boxes) > 0 \<longrightarrow>
     rect_ok (bpin_bbox boxes) \<and> (bpin_layer boxes = 0 \<or> layer_known env N (bpin_layer boxes)))"

definition marker_ok :: "scene_env \<Rightarrow> string set \<Rightarrow> scene_marker \<Rightarrow> bool" where
  "marker_ok env N m \<longleftrightarrow> rect_ok (dbMarker_getBBox (ma_marker m)) \<and>
     (mk_layer (ma_marker m) = 0 \<or> layer_known env N (mk_layer (ma_marker m)))"

definition block_ok :: "scene_env \<Rightarrow> string set \<Rightarrow> scene_block \<Rightarrow> bool" where
  "block_ok env N block \<longleftrightarrow> ''instance'' \<in> N \<and> ''blockage'' \<in> N \<and>
     (\<forall>x \<in> set (bl_insts block). inst_ok env N x) \<and> (\<forall>x \<in> set (bl_nets block). scene_net_ok env N x) \<and>
     (\<forall>x \<in> set (bl_bterms block). bterm_ok env N x) \<and> (\<forall>r. Some r \<in> set (bl_blockages block) \<longrightarrow> rect_ok r) \<and>
     (\<forall>ms \<in> set (bl_marker_categories block). \<forall>m \<in> set ms. marker_ok env N m) \<and>
     (\<forall>r. bl_bbox block = Some r \<longrightarrow> rect_ok r) \<and>
     (\<forall>g \<in> set (bl_track_grids block). tg_layer g = 0 \<or> layer_known env N (tg_layer g))"

section \<open>What is drawn\<close>

definition inst_labels :: "scene_inst \<Rightarrow> label list" where
  "inst_labels inst = (if in_bbox inst = None then [] else [(ObjectType.Inst, in_name inst)])"

definition wire_shape_labels :: "scene_env \<Rightarrow> string \<Rightarrow> dbShape \<Rightarrow> label list" where
  "wire_shape_labels env name s =
     (if isVia s \<or> isViaBox s then
        case via_layers env s of
          Inr (t, b) \<Rightarrow> if t = 0 \<or> b = 0 then [] else replicate 3 (ObjectType.Via, name)
        | Inl e \<Rightarrow> []
      else [(ObjectType.Wire, name)])"

definition net_labels :: "scene_env \<Rightarrow> scene_net \<Rightarrow> label list" where
  "net_labels env net =
     (case ne_wire net of
        None \<Rightarrow> []
      | Some (w, code) \<Rightarrow>
          (case wire_shapes (se_asserts env) (se_db env) code of
             Inl e \<Rightarrow> [] | Inr ss \<Rightarrow> concat (map (wire_shape_labels env (ne_name net)) ss)))"

definition iterm_labels :: "scene_env \<Rightarrow> scene_inst \<Rightarrow> scene_iterm \<Rightarrow> label list" where
  "iterm_labels env inst iterm =
     (case iterm_shapes env inst iterm of
        Inl e \<Rightarrow> []
      | Inr ss \<Rightarrow> map (\<lambda>s. (ObjectType.Pin, in_name inst @ ''/'' @
                              (case ite_mterm_name iterm of Some n \<Rightarrow> n | None \<Rightarrow> ''iterm'')))
                   (filter (\<lambda>s. sh_layer s \<noteq> 0) ss))"

definition track_labels :: "scene_env \<Rightarrow> dbTrackGrid \<Rightarrow> label list" where
  "track_labels env g =
     (case layer_ref env (tg_layer g) of Inr (Some l) \<Rightarrow> [(ObjectType.Track, ''track_'' @ tl_name l)] | _ \<Rightarrow> [])"

definition scene_labels :: "scene_env \<Rightarrow> scene_block \<Rightarrow> label list" where
  "scene_labels env block =
     concat (map inst_labels (bl_insts block)) @
     concat (map (net_labels env) (bl_nets block)) @
     map (\<lambda>b. (ObjectType.Pin, bt_name b)) (bl_bterms block) @
     concat (map (\<lambda>i. concat (map (iterm_labels env i) (in_iterms i))) (bl_insts block)) @
     concat (map (\<lambda>b. if b = None then [] else [(ObjectType.Blockage, ''blockage'')]) (bl_blockages block)) @
     map (\<lambda>m. (ObjectType.Drc, ma_name m)) (concat (bl_marker_categories block)) @
     concat (map (track_labels env) (bl_track_grids block))"

section \<open>The parts of the builder\<close>

lemma layer_ref_yields:
  "layer = 0 \<or> layer_known env N layer \<Longrightarrow>
   yields (layer_ref env layer) (\<lambda>l. (layer = 0 \<longleftrightarrow> l = None) \<and> (\<forall>t. l = Some t \<longrightarrow> tl_name t \<in> N \<and> tl_width t < 2 ^ 31))"
  by (auto simp: layer_ref_def layer_known_def)

lemma z_thickness_nonneg:
  assumes "env_ok env" "\<And>t. l = Some t \<Longrightarrow> tl_width t < 2 ^ 31"
  shows "0 \<le> z_thickness env l"
proof -
  have w: "int_of_uint32 n = int n" if "n < 2 ^ 31" for n
    using that by (simp add: int_of_uint32_def signed_of_nat signed_take_bit_int_eq_self)
  have d: "0 \<le> se_fl env (of_int (se_dbu env))" using assms(1) by (simp add: fl_nonneg env_ok_def)
  show ?thesis
    using assms(2)
    by (auto simp: z_thickness_def getLayerThickness_def w fl_nonneg [OF assms(1)] d intro!: fl_nonneg [OF assms(1)]
        split: option.splits)
qed

lemmas scene_rule = yields_mono [OF push_on_layer_yields]

lemma span_pins_yields:
  assumes "env_ok env" "inst_ok env N inst"
  shows "yields (span_pins env st inst) (\<lambda>sp. True)"
  unfolding span_pins_def
proof (rule yields_for_each_inv [where I = "\<lambda>_. True"])
  fix t sp assume "t \<in> set (in_iterms inst)"
  with assms(2) obtain ss where ss: "iterm_shapes env inst t = Inr ss" "\<forall>s \<in> set ss. shape_ok env N s"
    by (auto simp: inst_ok_def)
  have "yields (for_each_in (span_shape env st) ss sp) (\<lambda>_. True)"
    by (rule yields_for_each_inv)
      (use ss in \<open>auto simp: span_shape_def yields_and_then shape_ok_def intro: yields_mono [OF layer_ref_yields]\<close>)
  with ss show "yields (and_then (iterm_shapes env inst t) (\<lambda>shapes. for_each_in (span_shape env st) shapes sp)) (\<lambda>_. True)"
    by simp
qed simp

lemma inst_height_nonneg: "env_ok env \<Longrightarrow> 0 \<le> snd (inst_height env sp)"
  by (auto simp: inst_height_def Let_def le_max_iff_disj fl_nonneg)

lemma process_inst_yields:
  assumes "scene_ok env N st" "env_ok env" "names_ok N" "''instance'' \<in> N" "inst_ok env N inst"
  shows "yields (process_inst env inst st) (\<lambda>st'. scene_ok env N st' \<and> labels st' = labels st @ inst_labels inst)"
proof (cases "in_bbox inst")
  case None
  with assms show ?thesis by (simp add: process_inst_def inst_labels_def)
next
  case (Some r)
  then have r: "rect_ok r" using assms(5) by (simp add: inst_ok_def)
  obtain sp where sp: "span_pins env st inst = Inr sp" using span_pins_yields [OF assms(2,5)] by (auto simp: yields_def)
  obtain cz tz where h: "inst_height env sp = (cz, tz)" by fastforce
  with inst_height_nonneg [OF assms(2), of sp] have tz: "0 \<le> tz" by simp
  obtain i st' where g: "getOrCreateLayer env ''instance'' 0 st = Inr (i, st')" "scene_ok env N st'"
    "labels st' = labels st" "i < length (ss_layers st')" "lr_layerId (ss_layers st' ! i) = ''instance''"
    "lr_name (ss_layers st' ! i) = ''instance''"
    using getOrCreateLayer_yields [OF assms(1,3,4), of 0] by (auto simp: yields_def)
  let ?st = "gray_instances env i st'"
  have ok: "scene_ok env N ?st" unfolding gray_instances_def by (rule scene_ok_update [OF g(2,4)]) simp_all
  have "layer_names ?st = layer_names st'"
    unfolding gray_instances_def by (rule layers_ok_update(2)) (use g in \<open>auto simp: scene_ok_def\<close>)
  moreover have "''instance'' \<in> layer_names st'" 
    using nth_mem [OF g(4)] g(6) by (auto simp: layer_names_def intro: image_eqI [where x = "ss_layers st' ! i"])
  ultimately have n: "''instance'' \<in> layer_names ?st" "lr_layerId (ss_layers ?st ! i) = ''instance''" "labels ?st = labels st"
    using g(3-5) by (simp_all add: gray_instances_def)
  show ?thesis
    using place_at_ok [OF assms(2) r tz] ok n
    by (auto simp: process_inst_def Some sp h g(1) inst_labels_def intro!: push_object_ok)
qed

lemma compute_z_ok [simp]: "scene_ok env N (compute_z env st) = scene_ok env N st" "labels (compute_z env st) = labels st"
  by (simp_all add: compute_z_def)

lemma processInstances_yields:
  assumes "scene_ok env N st" "env_ok env" "names_ok N" "block_ok env N block"
  shows "yields (processInstances env block st)
    (\<lambda>st'. scene_ok env N st' \<and> labels st' = labels st @ concat (map inst_labels (bl_insts block)))"
  unfolding processInstances_def compute_z_ok(2) [of env st, symmetric]
  by (rule yields_for_each, rule process_inst_yields) (use assms in \<open>auto simp: block_ok_def\<close>)

definition some_rect_ok :: "Rect option \<Rightarrow> bool" where
  "some_rect_ok u \<longleftrightarrow> (\<forall>r. u = Some r \<longrightarrow> rect_ok r)"

definition unions_ok :: "via_unions \<Rightarrow> bool" where
  "unions_ok u \<longleftrightarrow> some_rect_ok (vu_top u) \<and> some_rect_ok (vu_bottom u) \<and> some_rect_ok (vu_cut u) \<and> 0 \<le> vu_cutThickness u"

lemma union_box_ok: "some_rect_ok u \<Longrightarrow> rect_ok r \<Longrightarrow> some_rect_ok (union_box u r)"
  by (auto simp: some_rect_ok_def union_box_def rect_ok_def Rect_merge_def split: option.splits)

lemma union_via_box_yields:
  assumes "env_ok env" "shape_ok env N box" "unions_ok u"
  shows "yields (union_via_box env p b box u) unions_ok"
  unfolding union_via_box_def yields_and_then
proof (rule yields_mono [OF layer_ref_yields])
  show "sh_layer box = 0 \<or> layer_known env N (sh_layer box)" using assms(2) by (simp add: shape_ok_def)
  fix l :: "dbTechLayer option" assume l: "(sh_layer box = 0 \<longleftrightarrow> l = None) \<and> (\<forall>t. l = Some t \<longrightarrow> tl_name t \<in> N \<and> tl_width t < 2 ^ 31)"
  have t: "0 \<le> z_thickness env l" using l by (intro z_thickness_nonneg [OF assms(1)]) simp
  have r: "rect_ok (sh_rect box)" using assms(2) by (simp add: shape_ok_def)
  show "yields (Inr (case l of None \<Rightarrow> u | Some boxLayer \<Rightarrow>
      let r = sh_rect box;
          u = if tl_number boxLayer = tl_number p then u\<lparr>vu_top := union_box (vu_top u) r\<rparr> else u;
          u = if tl_number boxLayer = tl_number b then u\<lparr>vu_bottom := union_box (vu_bottom u) r\<rparr> else u
      in if tl_type boxLayer = dbTechLayerType.CUT
         then u\<lparr>vu_cutThickness := z_thickness env (Some boxLayer), vu_cut := union_box (vu_cut u) r\<rparr> else u)) unions_ok"
  proof (cases l)
    case None
    then show ?thesis using assms(3) by simp
  next
    case (Some boxLayer)
    then show ?thesis using assms(3) r t by (simp add: Let_def unions_ok_def union_box_ok)
  qed
qed

lemma via_part_yields:
  assumes "scene_ok env N st" "env_ok env" "names_ok N" "name \<in> N" "rect_ok r" "0 \<le> t"
  shows "yields (via_part env i net style grp r z t name st)
    (\<lambda>st'. scene_ok env N st' \<and> labels st' = labels st @ [(ObjectType.Via, net)])"
  unfolding via_part_def
  by (rule scene_rule [OF assms(1,3,4) place_at_ok [OF assms(2,5,6)]]) simp

lemma process_via_yields:
  assumes ok: "scene_ok env N st" "env_ok env" "names_ok N"
    and l: "tl_name lt \<in> N" "tl_width lt < 2 ^ 31" "tl_name lb \<in> N" "tl_width lb < 2 ^ 31"
    and b: "getViaBoxes (se_db env) (0, 0) s [] = Inr boxes" "\<forall>x \<in> set boxes. shape_ok env N x"
    and xy: "getViaXY (se_db env) s (0, 0) = Inr xy"
    and cut: "getViaLayerName (Some lt) (Some lb) @ ''_cut'' \<in> N" "getViaLayerName (Some lb) (Some lt) @ ''_cut'' \<in> N"
  shows "yields (process_via env net w i lt lb s st)
    (\<lambda>st'. scene_ok env N st' \<and> labels st' = labels st @ replicate 3 (ObjectType.Via, net))"
proof -
  define swap where "swap = (z_base env st (Some lb) > z_base env st (Some lt))"
  define pt where "pt = (if swap then lb else lt)"
  define pb where "pb = (if swap then lt else lb)"
  have n: "tl_name pt \<in> N" "tl_name pb \<in> N" "getViaLayerName (Some pt) (Some pb) @ ''_cut'' \<in> N"
    using l cut by (auto simp: pt_def pb_def)
  have t: "0 \<le> z_thickness env (Some pt)" "0 \<le> z_thickness env (Some pb)"
    using l by (auto simp: pt_def pb_def intro!: z_thickness_nonneg [OF ok(2)])
  let ?u0 = "\<lparr>vu_top = None, vu_bottom = None, vu_cut = None, vu_cutThickness = z_thickness env (Some pb)\<rparr>"
  have "yields (for_each_in (union_via_box env pt pb) boxes ?u0) unions_ok"
    by (rule yields_for_each_inv) (use b(2) t union_via_box_yields [OF ok(2)] in \<open>auto simp: unions_ok_def some_rect_ok_def\<close>)
  then obtain u where u: "for_each_in (union_via_box env pt pb) boxes ?u0 = Inr u" "unions_ok u" by (auto simp: yields_def)
  have r: "rect_ok (case v of None \<Rightarrow> Rect_reset x y x y | Some r \<Rightarrow> r)"
    if "v \<in> {vu_top u, vu_bottom u, vu_cut u}" for v and x y :: int
    using that u(2) by (auto simp: unions_ok_def some_rect_ok_def rect_ok_def Rect_reset_def split: option.splits)
  obtain x y where p: "(if vu_top u = None \<or> vu_bottom u = None \<or> vu_cut u = None then getViaXY (se_db env) s (0, 0) else Inr (0, 0)) =
      Inr (x, y)" using xy by (cases xy) (metis (no_types))
  have c: "0 \<le> vu_cutThickness u" using u(2) by (simp add: unions_ok_def)
  have e: "(if z_base env st (Some lb) > z_base env st (Some lt)
            then (lb, lt, z_base env st (Some lb), z_base env st (Some lt))
            else (lt, lb, z_base env st (Some lt), z_base env st (Some lb))) =
      (pt, pb, z_base env st (Some pt), z_base env st (Some pb))"
    by (simp add: pt_def pb_def swap_def)
  show ?thesis
    unfolding process_via_def Let_def e case_prod_conv b(1) and_then_simps u(1) p yields_and_then
    by (rule yields_mono [OF via_part_yields [OF ok n(1) r t(1)]], simp,
        rule yields_mono [OF via_part_yields [OF _ ok(2,3) n(2) r t(2)]], simp, simp,
        rule yields_mono [OF via_part_yields [OF _ ok(2,3) n(3) r c]], simp, simp)
      (simp add: eval_nat_numeral)
qed

lemma process_segment_yields:
  assumes "scene_ok env N st" "env_ok env" "names_ok N" "shape_ok env N s"
  shows "yields (process_segment env net w i s st)
    (\<lambda>st'. scene_ok env N st' \<and> labels st' = labels st @ [(ObjectType.Wire, net)])"
  unfolding process_segment_def yields_and_then Let_def
proof (rule yields_mono [OF layer_ref_yields])
  show "sh_layer s = 0 \<or> layer_known env N (sh_layer s)" using assms(4) by (simp add: shape_ok_def)
  fix l :: "dbTechLayer option" assume l: "(sh_layer s = 0 \<longleftrightarrow> l = None) \<and> (\<forall>t. l = Some t \<longrightarrow> tl_name t \<in> N \<and> tl_width t < 2 ^ 31)"
  have t: "0 \<le> z_thickness env l" using l by (intro z_thickness_nonneg [OF assms(2)]) simp
  have r: "rect_ok (sh_rect s)" using assms(4) by (simp add: shape_ok_def)
  note p = place_at_ok [OF assms(2) r t]
  show "yields (case l of None \<Rightarrow> Inr (push_object (place_at env (sh_rect s) (z_base env st l) (z_thickness env l)
           (ObjectRecord_default\<lparr>ob_objectId := makePointerObjectId w ''wire'' i [], ob_type := ObjectType.Wire,
              ob_displayName := net, ob_styleRef := ''wire''\<rparr>)\<lparr>ob_isHorizontal := h\<rparr>) st)
      | Some k \<Rightarrow> push_on_layer env (tl_name k) (z_base env st l) (place_at env (sh_rect s) (z_base env st l) (z_thickness env l)
           (ObjectRecord_default\<lparr>ob_objectId := makePointerObjectId w ''wire'' i [], ob_type := ObjectType.Wire,
              ob_displayName := net, ob_styleRef := ''wire''\<rparr>)\<lparr>ob_isHorizontal := h\<rparr>) st)
      (\<lambda>st'. scene_ok env N st' \<and> labels st' = labels st @ [(ObjectType.Wire, net)])" for h
    using l p by (cases l) (auto intro!: push_object_ok assms scene_rule simp: ObjectRecord_default_def)
qed

text \<open>One shape of a wire, in the loop that counts them.\<close>

definition shape_inv :: "scene_env \<Rightarrow> string set \<Rightarrow> int \<times> scene_state \<Rightarrow> bool" where
  "shape_inv env N s \<longleftrightarrow> scene_ok env N (snd s)"

lemma process_shape_yields:
  assumes "shape_inv env N ist" "env_ok env" "names_ok N" "wire_shape_ok env N s"
  shows "yields (process_shape env net w s ist)
    (\<lambda>ist'. shape_inv env N ist' \<and> labels (snd ist') = labels (snd ist) @ wire_shape_labels env net s)"
proof -
  obtain i st where ist: "ist = (i, st)" by (cases ist)
  have ok: "scene_ok env N st" using assms(1) by (simp add: ist shape_inv_def)
  show ?thesis
  proof (cases "isVia s \<or> isViaBox s")
    case False
    have "yields (process_segment env net w i s st)
        (\<lambda>st'. scene_ok env N st' \<and> labels st' = labels st @ [(ObjectType.Wire, net)])"
      by (rule process_segment_yields [OF ok assms(2,3)]) (use assms(4) False in \<open>simp add: wire_shape_ok_def\<close>)
    with False show ?thesis
      by (auto simp: process_shape_def ist yields_and_then wire_shape_labels_def shape_inv_def elim: yields_mono)
  next
    case True
    with assms(4) obtain t b where tb: "via_layers env s = Inr (t, b)"
      and or: "t = 0 \<or> b = 0 \<or>
         (\<exists>lt lb boxes xy. dbTech_getLayer (se_db env) t = Inr lt \<and> dbTech_getLayer (se_db env) b = Inr lb \<and>
            layer_known env N t \<and> layer_known env N b \<and>
            getViaBoxes (se_db env) (0, 0) s [] = Inr boxes \<and> (\<forall>x \<in> set boxes. shape_ok env N x) \<and>
            getViaXY (se_db env) s (0, 0) = Inr xy \<and>
            getViaLayerName (Some lt) (Some lb) @ ''_cut'' \<in> N \<and> getViaLayerName (Some lb) (Some lt) @ ''_cut'' \<in> N)"
      unfolding wire_shape_ok_def via_ok_def by (simp only: if_True) blast
    show ?thesis
    proof (cases "t = 0 \<or> b = 0")
      case z: True
      with True tb ok show ?thesis
        by (auto simp: process_shape_def ist wire_shape_labels_def shape_inv_def)
    next
      case nz: False
      with or obtain lt lb boxes xy where l: "dbTech_getLayer (se_db env) t = Inr lt" "dbTech_getLayer (se_db env) b = Inr lb"
        "layer_known env N t" "layer_known env N b" and v: "getViaBoxes (se_db env) (0, 0) s [] = Inr boxes"
        "\<forall>x \<in> set boxes. shape_ok env N x" "getViaXY (se_db env) s (0, 0) = Inr xy"
        "getViaLayerName (Some lt) (Some lb) @ ''_cut'' \<in> N" "getViaLayerName (Some lb) (Some lt) @ ''_cut'' \<in> N"
        by blast
      from l have "tl_name lt \<in> N" "tl_width lt < 2 ^ 31" "tl_name lb \<in> N" "tl_width lb < 2 ^ 31"
        by (auto simp: layer_known_def)
      from process_via_yields [OF ok assms(2,3) this v]
      have "yields (process_via env net w i lt lb s st)
        (\<lambda>st'. scene_ok env N st' \<and> labels st' = labels st @ replicate 3 (ObjectType.Via, net))" .
      with True nz tb l(1,2) show ?thesis
        by (auto simp: process_shape_def ist yields_and_then wire_shape_labels_def shape_inv_def elim: yields_mono)
    qed
  qed
qed

lemma process_net_yields:
  assumes "scene_ok env N st" "env_ok env" "names_ok N" "scene_net_ok env N net"
  shows "yields (process_net env net st) (\<lambda>st'. scene_ok env N st' \<and> labels st' = labels st @ net_labels env net)"
proof (cases "ne_wire net")
  case None
  with assms(1) show ?thesis by (simp add: process_net_def net_labels_def)
next
  case (Some wc)
  obtain w code where wc: "wc = (w, code)" by (cases wc)
  from assms(4) Some obtain ss where ss: "wire_shapes (se_asserts env) (se_db env) code = Inr ss"
    "\<forall>s \<in> set ss. wire_shape_ok env N s" unfolding scene_net_ok_def wc by blast
  have "yields (for_each_in (process_shape env (ne_name net) w) ss (0, st))
      (\<lambda>ist'. shape_inv env N ist' \<and> labels (snd ist') =
         labels (snd (0 :: int, st)) @ concat (map (wire_shape_labels env (ne_name net)) ss))"
    by (rule yields_for_each, rule process_shape_yields) (use assms ss(2) in \<open>auto simp: shape_inv_def\<close>)
  then show ?thesis
    by (auto simp: process_net_def Some wc ss(1) yields_and_then net_labels_def shape_inv_def elim!: yields_mono)
qed

lemma processNets_yields:
  assumes "scene_ok env N st" "env_ok env" "names_ok N" "block_ok env N block"
  shows "yields (processNets env block st)
    (\<lambda>st'. scene_ok env N st' \<and> labels st' = labels st @ concat (map (net_labels env) (bl_nets block)))"
  unfolding processNets_def compute_z_ok(2) [of env st, symmetric]
  by (rule yields_for_each, rule process_net_yields) (use assms in \<open>auto simp: block_ok_def\<close>)

text \<open>An object on the layer of a pointer, or on one of the two that no layer stands for.\<close>

lemma on_layer_yields:
  assumes "scene_ok env N st" "names_ok N" "object_box_ok env ob" "\<And>t. l = Some t \<Longrightarrow> tl_name t \<in> N" "name \<in> {[], ''pin''}"
  shows "yields (case l of None \<Rightarrow> Inr (push_object (ob\<lparr>ob_layerId := name\<rparr>) st)
                 | Some t \<Rightarrow> push_on_layer env (tl_name t) z ob st)
    (\<lambda>st'. scene_ok env N st' \<and> labels st' = labels st @ [(ob_type ob, ob_displayName ob)])"
  using assms by (cases l) (auto intro!: push_object_ok push_on_layer_yields)

lemma process_bterm_yields:
  assumes "scene_ok env N st" "env_ok env" "names_ok N" "bterm_ok env N bterm"
  shows "yields (process_bterm env bterm st)
    (\<lambda>st'. scene_ok env N st' \<and> labels st' = labels st @ [(ObjectType.Pin, bt_name bterm)])"
proof (cases "List.find (\<lambda>boxes. Rect_area (bpin_bbox boxes) > 0) (bt_bpins bterm)")
  case None
  with assms(1) show ?thesis
    by (auto simp: process_bterm_def ObjectRecord_default_def object_box_ok_def intro!: push_object_ok)
next
  case (Some boxes)
  then have "boxes \<in> set (bt_bpins bterm)" "Rect_area (bpin_bbox boxes) > 0"
    by (auto simp: find_Some_iff in_set_conv_nth)
  with assms(4) have r: "rect_ok (bpin_bbox boxes)" and k: "bpin_layer boxes = 0 \<or> layer_known env N (bpin_layer boxes)"
    by (auto simp: bterm_ok_def)
  obtain l where l: "layer_ref env (bpin_layer boxes) = Inr l" "\<And>t. l = Some t \<Longrightarrow> tl_name t \<in> N \<and> tl_width t < 2 ^ 31"
    using layer_ref_yields [OF k] by (auto simp: yields_def)
  have "0 \<le> (if l = None then se_fl env (2/10) else z_thickness env l)"
    using z_thickness_nonneg [OF assms(2)] fl_nonneg [OF assms(2)] l(2) by (cases l) auto
  note p = place_at_ok [OF assms(2) r this]
  show ?thesis
    unfolding process_bterm_def Let_def Some option.case l(1) and_then_simps
    by (rule yields_mono [OF on_layer_yields [OF assms(1,3) p]]) (use l in auto)
qed

lemma process_iterm_yields:
  assumes "scene_ok env N st" "env_ok env" "names_ok N" "inst_ok env N inst" "iterm \<in> set (in_iterms inst)"
  shows "yields (process_iterm env inst iterm st)
    (\<lambda>st'. scene_ok env N st' \<and> labels st' = labels st @ iterm_labels env inst iterm)"
proof -
  let ?pin = "(ObjectType.Pin, in_name inst @ ''/'' @ (case ite_mterm_name iterm of Some n \<Rightarrow> n | None \<Rightarrow> ''iterm''))"
  from assms(4,5) obtain ss where ss: "iterm_shapes env inst iterm = Inr ss" "\<forall>s \<in> set ss. shape_ok env N s"
    by (auto simp: inst_ok_def)
  have "yields (for_each_in (process_iterm_shape env inst iterm) ss (0, st))
      (\<lambda>ist'. shape_inv env N ist' \<and> labels (snd ist') =
         labels (snd (0 :: int, st)) @ concat (map (\<lambda>s. if sh_layer s = 0 then [] else [?pin]) ss))"
  proof (rule yields_for_each)
    fix s and ist :: "int \<times> scene_state" assume s: "s \<in> set ss" and inv: "shape_inv env N ist"
    obtain i st1 where ist: "ist = (i, st1)" by (cases ist)
    from s ss(2) have r: "rect_ok (sh_rect s)" and k: "sh_layer s = 0 \<or> layer_known env N (sh_layer s)"
      by (auto simp: shape_ok_def)
    obtain l where l: "layer_ref env (sh_layer s) = Inr l" "sh_layer s = 0 \<longleftrightarrow> l = None"
      "\<And>t. l = Some t \<Longrightarrow> tl_name t \<in> N \<and> tl_width t < 2 ^ 31"
      using layer_ref_yields [OF k] by (auto simp: yields_def)
    have "0 \<le> z_thickness env l" using l(3) by (intro z_thickness_nonneg [OF assms(2)]) simp
    note p = place_at_ok [OF assms(2) r this]
    show "yields (process_iterm_shape env inst iterm s ist) (\<lambda>ist'. shape_inv env N ist' \<and>
        labels (snd ist') = labels (snd ist) @ (if sh_layer s = 0 then [] else [?pin]))"
    proof (cases l)
      case None
      with l inv show ?thesis by (simp add: process_iterm_shape_def ist)
    next
      case (Some t)
      show ?thesis
        unfolding process_iterm_shape_def ist case_prod_conv l(1) and_then_simps Some option.case Let_def yields_and_then
        by (rule yields_mono [OF push_on_layer_yields [OF _ assms(3) _ p [unfolded Some]]])
          (use inv l Some in \<open>auto simp: shape_inv_def ist\<close>)
    qed
  qed (use assms(1) in \<open>simp add: shape_inv_def\<close>)
  moreover have "concat (map (\<lambda>s. if sh_layer s = 0 then [] else [?pin]) ss) = iterm_labels env inst iterm"
    unfolding iterm_labels_def ss(1) by (induction ss) auto
  ultimately show ?thesis
    by (auto simp: process_iterm_def ss(1) yields_and_then shape_inv_def elim!: yields_mono)
qed

lemma processPins_yields:
  assumes "scene_ok env N st" "env_ok env" "names_ok N" "block_ok env N block"
  shows "yields (processPins env block st)
    (\<lambda>st'. scene_ok env N st' \<and> labels st' = labels st @ map (\<lambda>b. (ObjectType.Pin, bt_name b)) (bl_bterms block) @
       concat (map (\<lambda>i. concat (map (iterm_labels env i) (in_iterms i))) (bl_insts block)))"
proof -
  have b: "yields (for_each_in (process_bterm env) (bl_bterms block) st)
      (\<lambda>st'. scene_ok env N st' \<and> labels st' = labels st @ concat (map (\<lambda>b. [(ObjectType.Pin, bt_name b)]) (bl_bterms block)))"
    by (rule yields_for_each, rule process_bterm_yields) (use assms in \<open>auto simp: block_ok_def\<close>)
  have i: "yields (for_each_in (\<lambda>inst. for_each_in (process_iterm env inst) (in_iterms inst)) (bl_insts block) st1)
      (\<lambda>st'. scene_ok env N st' \<and> labels st' =
         labels st1 @ concat (map (\<lambda>i. concat (map (iterm_labels env i) (in_iterms i))) (bl_insts block)))"
    if "scene_ok env N st1" for st1
    by (rule yields_for_each, rule yields_for_each, rule process_iterm_yields) (use assms that in \<open>auto simp: block_ok_def\<close>)
  show ?thesis
    unfolding processPins_def yields_and_then
    by (rule yields_mono [OF b], erule conjE, rule yields_mono [OF i], assumption) simp
qed

lemma generateObjectId_ok [simp]:
  "scene_ok env N (snd (generateObjectId p st)) = scene_ok env N st" "labels (snd (generateObjectId p st)) = labels st"
  by (simp_all add: generateObjectId_def)

lemma process_blockage_yields:
  assumes "scene_ok env N st" "env_ok env" "names_ok N" "''blockage'' \<in> N" "\<And>r. b = Some r \<Longrightarrow> rect_ok r"
    and w: "\<And>l. l \<in> set (wd_layers (se_db env)) \<Longrightarrow> tl_width l < 2 ^ 31"
  shows "yields (process_blockage env b st) (\<lambda>st'. scene_ok env N st' \<and>
    labels st' = labels st @ (if b = None then [] else [(ObjectType.Blockage, ''blockage'')]))"
proof (cases b)
  case None
  with assms(1) show ?thesis by (simp add: process_blockage_def)
next
  case (Some r)
  then have r: "rect_ok r" using assms(5) by blast
  let ?l = "if se_has_tech env then List.find (\<lambda>l. tl_name l = ''metal1'') (wd_layers (se_db env)) else None"
  have "tl_width t < 2 ^ 31" if "?l = Some t" for t using that w by (auto simp: find_Some_iff split: if_splits)
  then have "0 \<le> z_thickness env ?l" by (rule z_thickness_nonneg [OF assms(2)])
  then have "0 \<le> (if ?l = None then 1/2 else z_thickness env ?l)" by (simp del: if_split)
  note p = place_at_ok [OF assms(2) r this]
  have st: "scene_ok env N (st\<lparr>ss_counter := c\<rparr>)" for c using assms(1) by simp
  show ?thesis
    unfolding process_blockage_def Some option.case Let_def generateObjectId_def case_prod_conv
    by (rule yields_mono [OF push_on_layer_yields [OF st assms(3,4) p]]) simp
qed

lemma process_marker_yields:
  assumes "scene_ok env N st" "env_ok env" "names_ok N" "marker_ok env N m"
  shows "yields (process_marker env m st)
    (\<lambda>st'. scene_ok env N st' \<and> labels st' = labels st @ [(ObjectType.Drc, ma_name m)])"
proof -
  have r: "rect_ok (dbMarker_getBBox (ma_marker m))" and k: "mk_layer (ma_marker m) = 0 \<or> layer_known env N (mk_layer (ma_marker m))"
    using assms(4) by (simp_all add: marker_ok_def)
  obtain l where l: "layer_ref env (mk_layer (ma_marker m)) = Inr l" "\<And>t. l = Some t \<Longrightarrow> tl_name t \<in> N \<and> tl_width t < 2 ^ 31"
    using layer_ref_yields [OF k] by (auto simp: yields_def)
  have "0 \<le> (if l = None then se_fl env (1/10) else z_thickness env l)"
    using z_thickness_nonneg [OF assms(2)] fl_nonneg [OF assms(2)] l(2) by (cases l) auto
  note p = place_at_ok [OF assms(2) r this]
  have st: "scene_ok env N (st\<lparr>ss_counter := c\<rparr>)" for c using assms(1) by simp
  show ?thesis
  proof (cases l)
    case None
    have "object_box_ok env (place_at env (dbMarker_getBBox (ma_marker m)) z (se_fl env (1/10)) ob)" for z ob
      using p None by simp
    then show ?thesis
      using st by (auto simp: process_marker_def l(1) None Let_def generateObjectId_def ObjectRecord_default_def
          intro!: push_object_ok)
  next
    case (Some t)
    have "object_box_ok env (place_at env (dbMarker_getBBox (ma_marker m)) z (z_thickness env (Some t)) ob)" for z ob
      using p Some by simp
    note q = yields_mono [OF push_on_layer_yields [OF st assms(3) _ this]]
    have n: "tl_name t \<in> N" using l(2) Some by blast
    show ?thesis
      by (simp only: process_marker_def l(1) and_then_simps Let_def generateObjectId_def case_prod_conv Some
          option.simps if_False) (rule q [OF n], simp)
  qed
qed

lemma process_track_grid_yields:
  assumes "scene_ok env N st" "env_ok env" "names_ok N" "rect_ok die" "tg_layer g = 0 \<or> layer_known env N (tg_layer g)"
  shows "yields (process_track_grid env die g st) (\<lambda>st'. scene_ok env N st' \<and> labels st' = labels st @ track_labels env g)"
proof -
  obtain l where l: "layer_ref env (tg_layer g) = Inr l" "\<And>t. l = Some t \<Longrightarrow> tl_name t \<in> N \<and> tl_width t < 2 ^ 31"
    using layer_ref_yields [OF assms(5)] by (auto simp: yields_def)
  have st: "scene_ok env N (st\<lparr>ss_counter := c\<rparr>)" for c using assms(1) by simp
  show ?thesis
  proof (cases l)
    case None
    with l assms(1) show ?thesis by (simp add: process_track_grid_def track_labels_def)
  next
    case (Some t)
    have n: "tl_name t \<in> N" using l(2) Some by blast
    show ?thesis
      unfolding process_track_grid_def l(1) and_then_simps Some option.case Let_def generateObjectId_def case_prod_beta prod.sel
      by (rule yields_mono [OF push_on_layer_yields [OF st assms(3) n place_ok [OF assms(2,4) order.refl]]])
        (simp add: track_labels_def l(1) Some)
  qed
qed

section \<open>The whole scene\<close>

lemma process_block_yields:
  assumes "scene_ok env N st" "env_ok env" "names_ok N" "block_ok env N block"
    and "\<And>l. l \<in> set (wd_layers (se_db env)) \<Longrightarrow> tl_width l < 2 ^ 31"
  shows "yields (process_block env block st)
    (\<lambda>st'. scene_ok env N st' \<and> labels st' = labels st @ scene_labels env block)"
proof -
  let ?die = "case bl_bbox block of Some r \<Rightarrow> r | None \<Rightarrow> Rect_reset 0 0 0 0"
  have die: "rect_ok ?die" using assms(4) by (auto simp: block_ok_def rect_ok_def Rect_reset_def split: option.splits)
  have blk: "yields (processBlockages env block s) (\<lambda>s'. scene_ok env N s' \<and>
      labels s' = labels s @ concat (map (\<lambda>b. if b = None then [] else [(ObjectType.Blockage, ''blockage'')]) (bl_blockages block)))"
    if "scene_ok env N s" for s
    unfolding processBlockages_def
    by (rule yields_for_each, rule process_blockage_yields) (use assms that in \<open>auto simp: block_ok_def\<close>)
  have drc: "yields (processDrcMarkers env block s) (\<lambda>s'. scene_ok env N s' \<and>
      labels s' = labels s @ concat (map (\<lambda>ms. concat (map (\<lambda>m. [(ObjectType.Drc, ma_name m)]) ms)) (bl_marker_categories block)))"
    if "scene_ok env N s" for s
    unfolding processDrcMarkers_def
    by (rule yields_for_each, rule yields_for_each, rule process_marker_yields) (use assms that in \<open>auto simp: block_ok_def\<close>)
  have trk: "yields (processTrackGrids env block s) (\<lambda>s'. scene_ok env N s' \<and>
      labels s' = labels s @ concat (map (track_labels env) (bl_track_grids block)))" if "scene_ok env N s" for s
    unfolding processTrackGrids_def Let_def compute_z_ok(2) [of env s, symmetric]
    by (rule yields_for_each, rule process_track_grid_yields) (use assms that die in \<open>auto simp: block_ok_def\<close>)
  show ?thesis
    unfolding process_block_def yields_and_then
    by (rule yields_mono [OF processInstances_yields [OF assms(1-4)]], erule conjE,
        rule yields_mono [OF processNets_yields [OF _ assms(2-4)]], assumption, erule conjE,
        rule yields_mono [OF processPins_yields [OF _ assms(2-4)]], assumption, erule conjE,
        rule yields_mono [OF blk], assumption, erule conjE,
        rule yields_mono [OF drc], assumption, erule conjE,
        rule yields_mono [OF trk], assumption)
      (simp add: scene_labels_def map_concat)
qed

lemma unique_layers_distinct:
  "distinct (map lr_name ls) \<Longrightarrow> names \<inter> set (map lr_name ls) = {} \<Longrightarrow> unique_layers ls names = ls"
  by (induction ls arbitrary: names) auto

text \<open>The pass that removes layers of the same name removes nothing: the lookup has made none.\<close>

theorem scene_is_drawn:
  assumes "env_ok env" "names_ok N" "block_ok env N block" "std_sort_on lr_zBase srt"
    and "\<And>l. l \<in> set (wd_layers (se_db env)) \<Longrightarrow> tl_width l < 2 ^ 31"
  obtains snap where "OdbSceneBuilder_build env srt counter cache (Some block) = Inr snap"
    "distinct (map lr_name (snap_layers snap))" "sorted (map lr_zBase (snap_layers snap))"
    "set (map lr_name (snap_layers snap)) \<subseteq> N" "\<forall>l \<in> set (snap_layers snap). lr_layerId l = lr_name l"
    "\<forall>ob \<in> set (snap_objects snap). object_box_ok env ob \<and> ob_layerId ob \<in> {[], ''pin''} \<union> set (map lr_name (snap_layers snap))"
    "map (\<lambda>ob. (ob_type ob, ob_displayName ob)) (snap_objects snap) = scene_labels env block"
proof -
  obtain st where st: "process_block env block (scene_begin counter cache) = Inr st" "scene_ok env N st"
    "labels st = scene_labels env block"
    using process_block_yields [OF _ assms(1-3,5), of "scene_begin counter cache"] scene_begin_ok [of env N counter cache]
    by (auto simp: yields_def)
  from st(2) have d: "distinct (map lr_name (ss_layers st))" by (simp add: scene_ok_def layers_ok_def)
  note u = unique_layers_distinct [OF d, of "{}"]
  note srt = std_sort_onD [OF assms(4), of "ss_layers st"]
  let ?snap = "\<lparr>snap_sourceTag = ''openroad_db'', snap_layers = srt (ss_layers st), snap_objects = ss_objects st\<rparr>"
  have n: "set (map lr_name (srt (ss_layers st))) = layer_names st" by (simp add: srt(3) layer_names_def)
  have "mset (map lr_name (srt (ss_layers st))) = mset (map lr_name (ss_layers st))" by (simp add: srt(1))
  then have "distinct (map lr_name (srt (ss_layers st)))" using d mset_eq_imp_distinct_iff by blast
  with that [of ?snap] u st srt n show ?thesis
    by (simp add: OdbSceneBuilder_build_def scene_ok_def layers_ok_def objects_ok_def labels_def)
qed

end
