(* ===== verification/SceneHeights.thy ===== *)
theory SceneHeights
  imports SceneLaws
begin

text \<open>
  The heights of what is drawn, in exact arithmetic: the layers lie on each other without gaps, an instance reaches
  over all its pins, and the three parts of a via fill the space from the lower layer to the upper one.
\<close>

definition exact_env :: "scene_env \<Rightarrow> bool" where
  "exact_env env \<longleftrightarrow> se_fl env = (\<lambda>x. x)"

section \<open>The stack of layers\<close>

definition exact_thickness :: "int \<Rightarrow> dbTechLayer \<Rightarrow> rat" where
  "exact_thickness dbu l = stack_thickness (\<lambda>x. x) dbu l"

definition layer_bottom :: "int \<Rightarrow> dbTechLayer list \<Rightarrow> nat \<Rightarrow> rat" where
  "layer_bottom dbu layers i = sum_list (map (exact_thickness dbu) (take i layers))"

lemma layer_bottom_simps:
  "layer_bottom dbu layers 0 = 0"
  "i < length layers \<Longrightarrow> layer_bottom dbu layers (Suc i) = layer_bottom dbu layers i + exact_thickness dbu (layers ! i)"
  by (simp_all add: layer_bottom_def take_Suc_conv_app_nth)

lemma stack_layers_other:
  "n \<notin> tl_number ` set layers \<Longrightarrow> stack_layers fl dbu prev layers cache n = cache n"
  by (induction layers arbitrary: prev cache) (auto simp: Let_def)

lemma stack_layers_exact:
  assumes "distinct (map tl_number layers)" "i < length layers"
    and "case prev of None \<Rightarrow> base = 0 | Some p \<Rightarrow> cache (tl_number p) = Some (base - exact_thickness dbu p / 2)"
  shows "stack_layers (\<lambda>x. x) dbu prev layers cache (tl_number (layers ! i)) =
    Some (base + layer_bottom dbu layers i + exact_thickness dbu (layers ! i) / 2)"
  using assms
proof (induction layers arbitrary: prev cache base i)
  case (Cons l layers)
  let ?z = "base + exact_thickness dbu l / 2"
  have step: "stack_layers (\<lambda>x. x) dbu prev (l # layers) cache = stack_layers (\<lambda>x. x) dbu (Some l) layers (cache(tl_number l \<mapsto> ?z))"
    using Cons.prems(3) by (cases prev) (simp_all add: exact_thickness_def)
  show ?case
  proof (cases i)
    case 0
    then show ?thesis
      using Cons.prems(1) by (simp add: step stack_layers_other layer_bottom_def del: stack_layers.simps)
  next
    case (Suc k)
    have "stack_layers (\<lambda>x. x) dbu (Some l) layers (cache(tl_number l \<mapsto> ?z)) (tl_number (layers ! k)) =
        Some ((base + exact_thickness dbu l) + layer_bottom dbu layers k + exact_thickness dbu (layers ! k) / 2)"
      by (rule Cons.IH) (use Cons.prems Suc in \<open>simp_all add: field_simps\<close>)
    with Suc show ?thesis by (simp add: step layer_bottom_def del: stack_layers.simps)
  qed
qed simp

lemma layers_are_stacked:
  assumes "distinct (map tl_number layers)" "i < length layers"
  shows "computeLayerZPositions (\<lambda>x. x) dbu (Some layers) (tl_number (layers ! i)) =
    Some (layer_bottom dbu layers i + exact_thickness dbu (layers ! i) / 2)"
  using stack_layers_exact [OF assms, where prev = None and base = 0] by (simp add: computeLayerZPositions_def)

text \<open>The two functions for the thickness agree on widths below \<open>2 ^ 31\<close>.\<close>

lemma int_of_uint32_small: "n < 2 ^ 31 \<Longrightarrow> int_of_uint32 n = int n"
  by (simp add: int_of_uint32_def signed_of_nat signed_take_bit_int_eq_self)

lemma z_thickness_exact:
  "exact_env env \<Longrightarrow> tl_width l < 2 ^ 31 \<Longrightarrow> z_thickness env (Some l) = exact_thickness (se_dbu env) l"
  by (simp add: exact_env_def z_thickness_def getLayerThickness_def exact_thickness_def stack_thickness_def
      int_of_uint32_small split: option.splits)

definition layer_span :: "scene_env \<Rightarrow> scene_state \<Rightarrow> dbTechLayer \<Rightarrow> rat \<times> rat" where
  "layer_span env st l =
     (z_base env st (Some l) - z_thickness env (Some l) / 2, z_base env st (Some l) + z_thickness env (Some l) / 2)"

lemma layer_span_stacked:
  assumes "exact_env env" "se_has_tech env" "distinct (map tl_number (wd_layers (se_db env)))"
    and "i < length (wd_layers (se_db env))" "tl_width (wd_layers (se_db env) ! i) < 2 ^ 31"
  shows "layer_span env (compute_z env st) (wd_layers (se_db env) ! i) =
    (layer_bottom (se_dbu env) (wd_layers (se_db env)) i, layer_bottom (se_dbu env) (wd_layers (se_db env)) (Suc i))"
  using assms layers_are_stacked [OF assms(3,4), of "se_dbu env"]
  by (simp add: layer_span_def z_base_def compute_z_def getLayerZBase_def exact_env_def z_thickness_exact layer_bottom_simps)

section \<open>Instances\<close>

definition z_span :: "ObjectRecord \<Rightarrow> rat \<times> rat" where
  "z_span ob = (v3z (bb_min (ob_bbox ob)), v3z (bb_max (ob_bbox ob)))"

lemma z_span_place_at:
  "exact_env env \<Longrightarrow> z_span (place_at env r z t ob) = (z - t / 2, z + t / 2)"
  by (simp add: z_span_def place_at_def place_def Let_def exact_env_def)

lemma z_span_fields [simp]:
  "z_span (ob\<lparr>ob_layerId := l\<rparr>) = z_span ob" "z_span (ob\<lparr>ob_styleRef := l\<rparr>) = z_span ob"
  by (simp_all add: z_span_def)

text \<open>What the pass over the pins has found so far.\<close>

definition span_inv :: "scene_env \<Rightarrow> scene_state \<Rightarrow> pin_span \<Rightarrow> bool" where
  "span_inv env st sp \<longleftrightarrow>
     (sp_hasPinShape sp \<longleftrightarrow> sp_seen sp \<noteq> {}) \<and> (sp_hasPinShape sp \<longrightarrow> 0 < sp_centerCount sp) \<and>
     (\<forall>l \<in> set (wd_layers (se_db env)). tl_number l \<in> sp_seen sp \<longrightarrow>
        sp_zMin sp \<le> fst (layer_span env st l) \<and> snd (layer_span env st l) \<le> sp_zMax sp)"

lemma span_inv_begin: "span_inv env st pin_span_begin"
  by (simp add: span_inv_def pin_span_begin_def)

lemma getLayer_in: "dbTech_getLayer db layer = Inr l \<Longrightarrow> l \<in> set (wd_layers db)"
  by (auto simp: dbTech_getLayer_def find_Some_iff split: option.splits)

lemma layer_ref_in: "layer_ref env layer = Inr (Some l) \<Longrightarrow> l \<in> set (wd_layers (se_db env))"
  by (auto simp: layer_ref_def and_then_Inr dest: getLayer_in split: if_splits)

lemma span_layer_inv:
  assumes "exact_env env" "inj_on tl_number (set (wd_layers (se_db env)))" "l \<in> set (wd_layers (se_db env))"
    and "span_inv env st sp"
  shows "span_inv env st (span_layer env st l sp)" and "tl_number l \<in> sp_seen (span_layer env st l sp)"
    and "sp_seen sp \<subseteq> sp_seen (span_layer env st l sp)"
proof -
  have "k = l" if "k \<in> set (wd_layers (se_db env))" "tl_number k = tl_number l" for k
    using assms(2,3) that by (auto dest: inj_onD)
  then show "span_inv env st (span_layer env st l sp)"
    using assms(1,4)
    by (auto simp: span_inv_def span_layer_def Let_def exact_env_def layer_span_def min_le_iff_disj le_max_iff_disj)
  show "tl_number l \<in> sp_seen (span_layer env st l sp)" "sp_seen sp \<subseteq> sp_seen (span_layer env st l sp)"
    by (auto simp: span_layer_def Let_def)
qed

definition span_knows :: "scene_env \<Rightarrow> dbShape list \<Rightarrow> pin_span \<Rightarrow> bool" where
  "span_knows env ss sp \<longleftrightarrow>
     (\<forall>s l. s \<in> set ss \<longrightarrow> layer_ref env (sh_layer s) = Inr (Some l) \<longrightarrow> tl_number l \<in> sp_seen sp)"

lemma span_shapes_inv:
  assumes "exact_env env" "inj_on tl_number (set (wd_layers (se_db env)))"
    and "for_each_in (span_shape env st) ss sp = Inr sp'" "span_inv env st sp"
  shows "span_inv env st sp' \<and> sp_seen sp \<subseteq> sp_seen sp' \<and> span_knows env ss sp'"
  using assms(3,4)
proof (induction ss arbitrary: sp)
  case (Cons s ss)
  then obtain sp1 where s: "span_shape env st s sp = Inr sp1" and ss: "for_each_in (span_shape env st) ss sp1 = Inr sp'"
    by (auto simp: and_then_Inr)
  then obtain l where l: "layer_ref env (sh_layer s) = Inr l"
    "sp1 = (case l of None \<Rightarrow> sp | Some pinLayer \<Rightarrow> span_layer env st pinLayer sp)"
    by (auto simp: span_shape_def and_then_Inr)
  have "span_inv env st sp1 \<and> sp_seen sp \<subseteq> sp_seen sp1 \<and> (\<forall>k. l = Some k \<longrightarrow> tl_number k \<in> sp_seen sp1)"
    using span_layer_inv [OF assms(1,2) _ Cons.prems(2)] l layer_ref_in [of env "sh_layer s"] Cons.prems(2)
    by (cases l) auto
  with Cons.IH [OF ss] l(1) show ?case by (auto simp: span_knows_def)
qed (simp add: span_knows_def)

lemma span_pins_inv:
  assumes "exact_env env" "inj_on tl_number (set (wd_layers (se_db env)))" "span_pins env st inst = Inr sp"
  shows "span_inv env st sp"
    and "t \<in> set (in_iterms inst) \<Longrightarrow> iterm_shapes env inst t = Inr ss \<Longrightarrow> span_knows env ss sp"
proof -
  let ?f = "\<lambda>iterm sp. and_then (iterm_shapes env inst iterm) (\<lambda>shapes. for_each_in (span_shape env st) shapes sp)"
  have "span_inv env st sp' \<and> sp_seen sp0 \<subseteq> sp_seen sp' \<and>
      (\<forall>t \<in> set ts. \<forall>ss. iterm_shapes env inst t = Inr ss \<longrightarrow> span_knows env ss sp')"
    if "for_each_in ?f ts sp0 = Inr sp'" "span_inv env st sp0" for ts sp0 sp'
    using that
  proof (induction ts arbitrary: sp0)
    case (Cons t ts)
    then obtain ss sp1 where s: "iterm_shapes env inst t = Inr ss" "for_each_in (span_shape env st) ss sp0 = Inr sp1"
      "for_each_in ?f ts sp1 = Inr sp'" by (auto simp: and_then_Inr)
    note 1 = span_shapes_inv [OF assms(1,2) s(2) Cons.prems(2)]
    from Cons.IH [OF s(3)] 1 have 2: "span_inv env st sp'" "sp_seen sp1 \<subseteq> sp_seen sp'"
      "\<forall>t \<in> set ts. \<forall>ss. iterm_shapes env inst t = Inr ss \<longrightarrow> span_knows env ss sp'" by blast+
    from 1 2(2) have "span_knows env ss sp'" by (auto simp: span_knows_def)
    with s(1) 1 2 show ?case by auto
  qed simp
  from this [OF assms(3) [unfolded span_pins_def] span_inv_begin]
  show "span_inv env st sp"
    and "t \<in> set (in_iterms inst) \<Longrightarrow> iterm_shapes env inst t = Inr ss \<Longrightarrow> span_knows env ss sp" by blast+
qed

lemma half_of_max: "max a b * 2 \<le> t \<Longrightarrow> a \<le> t / 2 \<and> b \<le> t / 2" for a b t :: rat
  by (auto simp: max_def split: if_splits)

lemma inst_height_covers:
  assumes "exact_env env" "span_inv env st sp" "l \<in> set (wd_layers (se_db env))" "tl_number l \<in> sp_seen sp"
  defines "h \<equiv> inst_height env sp"
  shows "fst h - snd h / 2 \<le> fst (layer_span env st l)" and "snd (layer_span env st l) \<le> fst h + snd h / 2"
proof -
  from assms(2-4) have sp: "sp_hasPinShape sp" "0 < sp_centerCount sp" "sp_zMin sp \<le> fst (layer_span env st l)"
    "snd (layer_span env st l) \<le> sp_zMax sp" by (auto simp: span_inv_def)
  let ?c = "sp_centerSum sp / of_nat (sp_centerCount sp)"
  let ?t = "max (1/100) (max (max (?c - sp_zMin sp) (sp_zMax sp - ?c) * 2) (sp_thicknessSum sp))"
  have h: "h = (?c, ?t)" using sp(1,2) assms(1) by (simp add: h_def inst_height_def exact_env_def Let_def)
  have "max (?c - sp_zMin sp) (sp_zMax sp - ?c) * 2 \<le> ?t" by simp
  then have "?c - sp_zMin sp \<le> ?t / 2 \<and> sp_zMax sp - ?c \<le> ?t / 2"
    using half_of_max [of "?c - sp_zMin sp" "sp_zMax sp - ?c" ?t] by blast
  with sp(3,4) show "fst h - snd h / 2 \<le> fst (layer_span env st l)" "snd (layer_span env st l) \<le> fst h + snd h / 2"
    unfolding h fst_conv snd_conv by linarith+
qed

lemma getOrCreateLayer_objects: "getOrCreateLayer env n z st = Inr (i, st') \<Longrightarrow> ss_objects st' = ss_objects st"
  by (auto simp: getOrCreateLayer_def push_layer_def Let_def and_then_Inr split: option.splits if_splits)

lemma instances_cover_pins:
  assumes "exact_env env" "inj_on tl_number (set (wd_layers (se_db env)))"
    and "process_inst env inst st = Inr st'" "in_bbox inst = Some r"
    and "t \<in> set (in_iterms inst)" "iterm_shapes env inst t = Inr ss" "s \<in> set ss" "layer_ref env (sh_layer s) = Inr (Some l)"
  obtains ob where "ss_objects st' = ss_objects st @ [ob]" "fst (z_span ob) \<le> fst (layer_span env st l)"
    "snd (layer_span env st l) \<le> snd (z_span ob)"
proof -
  obtain sp where sp: "span_pins env st inst = Inr sp"
    using assms(3,4) by (auto simp: process_inst_def and_then_Inr)
  obtain c h where ch: "inst_height env sp = (c, h)" by fastforce
  from assms(3,4) sp ch obtain i st1 where g: "getOrCreateLayer env ''instance'' 0 st = Inr (i, st1)"
    "st' = push_object ((place_at env r c h (ObjectRecord_default\<lparr>ob_objectId := makePointerObjectId (in_ptr inst) ''inst'' (- 1) [],
        ob_type := ObjectType.Inst, ob_displayName := in_name inst\<rparr>))
          \<lparr>ob_layerId := lr_layerId (ss_layers (gray_instances env i st1) ! i), ob_styleRef := in_master_name inst\<rparr>)
        (gray_instances env i st1)"
    by (auto simp: process_inst_def and_then_Inr Let_def)
  note k = span_pins_inv(2) [OF assms(1,2) sp assms(5,6)]
  have n: "tl_number l \<in> sp_seen sp" using k assms(7,8) by (auto simp: span_knows_def)
  note cov = inst_height_covers [OF assms(1) span_pins_inv(1) [OF assms(1,2) sp] layer_ref_in [OF assms(8)] n, unfolded ch]
  note z = z_span_place_at [OF assms(1)]
  show ?thesis
    by (rule that, simp add: g(2) push_object_def gray_instances_def getOrCreateLayer_objects [OF g(1)])
      (use cov in \<open>simp_all add: z\<close>)
qed

section \<open>Vias\<close>

lemma push_on_layer_objects:
  "push_on_layer env n z ob st = Inr st' \<Longrightarrow> \<exists>l. ss_objects st' = ss_objects st @ [ob\<lparr>ob_layerId := l\<rparr>]"
  by (auto simp: push_on_layer_def push_object_def and_then_Inr dest: getOrCreateLayer_objects)

lemma union_via_box_cut:
  "union_via_box env pt pb b u = Inr u1 \<Longrightarrow> layer_ref env (sh_layer b) = Inr l \<Longrightarrow>
   vu_cutThickness u1 = (case l of Some k \<Rightarrow> if tl_type k = dbTechLayerType.CUT then z_thickness env l else vu_cutThickness u
     | None \<Rightarrow> vu_cutThickness u)"
  by (auto simp: union_via_box_def Let_def split: option.splits)

lemma union_cut_thickness:
  assumes "for_each_in (union_via_box env pt pb) boxes u = Inr u'"
    and "\<And>b l. b \<in> set boxes \<Longrightarrow> layer_ref env (sh_layer b) = Inr (Some l) \<Longrightarrow>
      tl_type l = dbTechLayerType.CUT \<Longrightarrow> z_thickness env (Some l) = T"
    and "vu_cutThickness u = T \<or> (\<exists>b \<in> set boxes. \<exists>l. layer_ref env (sh_layer b) = Inr (Some l) \<and> tl_type l = dbTechLayerType.CUT)"
  shows "vu_cutThickness u' = T"
  using assms
proof (induction boxes arbitrary: u)
  case (Cons b boxes)
  then obtain u1 where u1: "union_via_box env pt pb b u = Inr u1" and rest: "for_each_in (union_via_box env pt pb) boxes u1 = Inr u'"
    by (auto simp: and_then_Inr)
  then obtain l where l: "layer_ref env (sh_layer b) = Inr l" by (auto simp: union_via_box_def and_then_Inr)
  note v = union_via_box_cut [OF u1 l]
  show ?case
  proof (rule Cons.IH [OF rest])
    show "vu_cutThickness u1 = T \<or> (\<exists>b \<in> set boxes. \<exists>l. layer_ref env (sh_layer b) = Inr (Some l) \<and> tl_type l = dbTechLayerType.CUT)"
      using Cons.prems(2,3) l v by (auto split: option.splits)
  qed (use Cons.prems(2) in auto)
qed auto

lemma and_then_InrE: "and_then r k = Inr b \<Longrightarrow> (\<And>a. r = Inr a \<Longrightarrow> k a = Inr b \<Longrightarrow> P) \<Longrightarrow> P"
  by (auto simp: and_then_Inr)

lemma and_then_pairE:
  "and_then r (\<lambda>(x, y). k x y) = Inr b \<Longrightarrow> (\<And>x y. r = Inr (x, y) \<Longrightarrow> k x y = Inr b \<Longrightarrow> P) \<Longrightarrow> P"
  by (auto simp: and_then_Inr)

lemma via_part_objects:
  assumes "exact_env env" "via_part env i net style grp r z t name st = Inr st'"
  shows "\<exists>ob. ss_objects st' = ss_objects st @ [ob] \<and> z_span ob = (z - t / 2, z + t / 2) \<and> ob_groupId ob = grp \<and>
    ob_objectId ob = i"
  using push_on_layer_objects [OF assms(2) [unfolded via_part_def]] z_span_place_at [OF assms(1)]
  by (auto simp: place_at_def place_def Let_def)

lemma via_parts_are_stacked:
  assumes ex: "exact_env env" and st: "process_via env net w i lt lb s st = Inr st'"
    and z: "z_base env st (Some lb) \<le> z_base env st (Some lt)"
    and boxes: "getViaBoxes (se_db env) (0, 0) s [] = Inr boxes"
    and cut: "b \<in> set boxes" "layer_ref env (sh_layer b) = Inr (Some lc)" "tl_type lc = dbTechLayerType.CUT"
    and one: "\<And>b l. b \<in> set boxes \<Longrightarrow> layer_ref env (sh_layer b) = Inr (Some l) \<Longrightarrow>
      tl_type l = dbTechLayerType.CUT \<Longrightarrow> l = lc"
  obtains top_part bottom_part cut_part where "ss_objects st' = ss_objects st @ [top_part, bottom_part, cut_part]"
    "z_span top_part = layer_span env st lt" "z_span bottom_part = layer_span env st lb"
    "z_span cut_part = (snd (layer_span env st lb), snd (layer_span env st lb) + z_thickness env (Some lc))"
    "ob_groupId top_part = net @ ''_'' @ getViaLayerName (Some lt) (Some lb)"
    "ob_groupId bottom_part = ob_groupId top_part" "ob_groupId cut_part = ob_groupId top_part"
    "ob_objectId top_part = []"
proof -
  have nz: "\<not> z_base env st (Some lb) > z_base env st (Some lt)" using z by simp
  let ?g = "net @ ''_'' @ getViaLayerName (Some lt) (Some lb)"
  obtain u r1 r2 r3 st1 st2 where
    u: "for_each_in (union_via_box env lt lb) boxes
          \<lparr>vu_top = None, vu_bottom = None, vu_cut = None, vu_cutThickness = z_thickness env (Some lb)\<rparr> = Inr u"
    and p1: "via_part env [] net ''via_top'' ?g r1 (z_base env st (Some lt)) (z_thickness env (Some lt)) (tl_name lt) st = Inr st1"
    and p2: "via_part env (makePointerObjectId w ''via'' i ''bottom'') net ''via_bottom'' ?g r2
          (z_base env st (Some lb)) (z_thickness env (Some lb)) (tl_name lb) st1 = Inr st2"
    and p3: "via_part env (makePointerObjectId w ''via'' i ''cut'') net ''via_cut'' ?g r3
          (se_fl env (se_fl env (z_base env st (Some lb) + se_fl env (z_thickness env (Some lb) / 2)) + se_fl env (vu_cutThickness u / 2)))
          (vu_cutThickness u) (getViaLayerName (Some lt) (Some lb) @ ''_cut'') st2 = Inr st'"
    using st unfolding process_via_def Let_def if_not_P [OF nz] case_prod_conv boxes and_then_simps
    by (elim and_then_pairE and_then_InrE) (rule that)
  have t: "vu_cutThickness u = z_thickness env (Some lc)"
  proof (rule union_cut_thickness [OF u])
    show "z_thickness env (Some l) = z_thickness env (Some lc)"
      if "b' \<in> set boxes" "layer_ref env (sh_layer b') = Inr (Some l)" "tl_type l = dbTechLayerType.CUT" for b' l
      using one [OF that] by simp
  qed (use cut in blast)
  from via_part_objects [OF ex p1] via_part_objects [OF ex p2] via_part_objects [OF ex p3]
  obtain o1 o2 o3 where "ss_objects st' = ss_objects st @ [o1, o2, o3]"
    "z_span o1 = layer_span env st lt" "z_span o2 = layer_span env st lb"
    "z_span o3 = (snd (layer_span env st lb), snd (layer_span env st lb) + z_thickness env (Some lc))"
    "ob_groupId o1 = ?g" "ob_groupId o2 = ?g" "ob_groupId o3 = ?g" "ob_objectId o1 = []"
    by (auto simp: layer_span_def ex [unfolded exact_env_def] t)
  then show ?thesis by - (rule that, assumption+, simp_all)
qed

text \<open>A via across a cut of the stack: the cut reaches from the top of the lower layer to the bottom of the upper one.\<close>

lemma exact_thickness_nonneg: "0 < dbu \<Longrightarrow> 0 \<le> exact_thickness dbu l"
  by (simp add: exact_thickness_def stack_thickness_def split: option.split)

lemma layer_middle:
  assumes "layer_span env st l = (a, b)"
  shows "z_base env st (Some l) = (a + b) / 2" "z_thickness env (Some l) = b - a"
  using assms by (auto simp: layer_span_def field_simps)

lemma vias_fill_gap:
  assumes dbu: "0 < se_dbu env" and ex: "exact_env env" "se_has_tech env" "distinct (map tl_number (wd_layers (se_db env)))"
    and w: "\<forall>l \<in> set (wd_layers (se_db env)). tl_width l < 2 ^ 31" and k: "k + 2 < length (wd_layers (se_db env))"
    and c: "ss_z_cache st = ss_z_cache (compute_z env st)"
    and st: "process_via env net wi i (wd_layers (se_db env) ! (k + 2)) (wd_layers (se_db env) ! k) s st = Inr st'"
    and boxes: "getViaBoxes (se_db env) (0, 0) s [] = Inr boxes"
    and cut: "\<exists>b \<in> set boxes. layer_ref env (sh_layer b) = Inr (Some (wd_layers (se_db env) ! (k + 1)))"
      "tl_type (wd_layers (se_db env) ! (k + 1)) = dbTechLayerType.CUT"
    and one: "\<forall>b \<in> set boxes. \<forall>l. layer_ref env (sh_layer b) = Inr (Some l) \<longrightarrow>
      tl_type l = dbTechLayerType.CUT \<longrightarrow> l = wd_layers (se_db env) ! (k + 1)"
  shows "\<exists>t b c. ss_objects st' = ss_objects st @ [t, b, c] \<and> z_span b = layer_span env st (wd_layers (se_db env) ! k) \<and>
    z_span c = (snd (z_span b), fst (z_span t)) \<and> z_span t = layer_span env st (wd_layers (se_db env) ! (k + 2)) \<and>
    ob_groupId b = ob_groupId t \<and> ob_groupId c = ob_groupId t \<and> ob_objectId t = []"
proof -
  let ?ls = "wd_layers (se_db env)"
  have same: "layer_span env st l = layer_span env (compute_z env st) l" "z_base env st l' = z_base env (compute_z env st) l'" for l l'
    by (simp_all add: layer_span_def z_base_def c [symmetric])
  have span: "layer_span env st (?ls ! j) = (layer_bottom (se_dbu env) ?ls j, layer_bottom (se_dbu env) ?ls (Suc j))"
    if "j \<le> k + 2" for j
    unfolding same by (rule layer_span_stacked [OF ex]) (use k w that in auto)
  obtain b where b: "b \<in> set boxes" "layer_ref env (sh_layer b) = Inr (Some (?ls ! (k + 1)))" using cut(1) by blast
  have up: "layer_bottom (se_dbu env) ?ls j \<le> layer_bottom (se_dbu env) ?ls (Suc j)" if "j \<le> k + 2" for j
    using that k exact_thickness_nonneg [OF dbu] by (simp add: layer_bottom_simps)
  note m0 = layer_middle [OF span [of k]] and m1 = layer_middle [OF span [of "k + 1"]] and m2 = layer_middle [OF span [of "k + 2"]]
  have "z_base env st (Some (?ls ! k)) \<le> z_base env st (Some (?ls ! (k + 2)))"
    using m0(1) m2(1) up [of k] up [of "Suc k"] up [of "k + 2"] by (simp add: divide_right_mono)
  then show ?thesis
    by (rule via_parts_are_stacked [OF ex(1) st _ boxes b cut(2)]) (use m1 span [of k] span [of "k + 2"] one in auto)
qed

end
