(* ===== verification/ChipDb.thy ===== *)
theory ChipDb
  imports DbMarker DbTransform
begin

text \<open>
  The chip objects of the database (\<^verbatim>\<open>db/dbChip*.cpp\<close>): chips with their regions and bumps,
  instances of chips inside hierarchical chips, the region and bump instances that come with them,
  connections between regions and nets between bumps.

  Each \<^verbatim>\<open>dbTable\<close> of the code is a \<open>dbTable\<close>; pointers to objects are ids, 0 the null
  pointer. A list threaded through \<^verbatim>\<open>next\<close> fields (\<^verbatim>\<open>chipinsts_\<close>,
  \<^verbatim>\<open>conns_\<close>, \<^verbatim>\<open>nets_\<close>, \<^verbatim>\<open>chip_region_insts_\<close>, \<^verbatim>\<open>chip_bump_insts_\<close>) is the
  list of the ids on it, head first, kept in its owner. Names go through maps. Of a block only the
  locations of its instances matter here (\<open>chip_block\<close>, \<open>None\<close> without a block); the instances of a
  block are not modelled further.

  \<^verbatim>\<open>Logger::error\<close> throws: a creation returns the database it leaves behind together with the
  new id or the reason there is none.
\<close>

section \<open>Objects\<close>

datatype ChipType = DIE | RDL | IP | SUBSTRATE | HIER

datatype Side = FRONT | BACK | INTERNAL | INTERNAL_EXT

record dbChipBump =
  bump_inst :: nat
  bump_chip :: nat
  bump_region :: nat
  bump_net :: nat
  bump_bterm :: nat

record dbChipRegion =
  rgn_name :: string
  rgn_side :: Side
  rgn_layer :: nat
  rgn_box :: Rect
  rgn_z_min :: int
  rgn_z_max :: int
  rgn_bump_tbl :: "dbChipBump dbTable"

record dbChip =
  chip_name :: string
  chip_type :: ChipType
  chip_offset :: Point
  chip_width :: int
  chip_height :: int
  chip_thickness :: int
  chip_shrink :: rat
  chip_seal_ring_east :: int
  chip_seal_ring_west :: int
  chip_seal_ring_north :: int
  chip_seal_ring_south :: int
  chip_scribe_line_east :: int
  chip_scribe_line_west :: int
  chip_scribe_line_north :: int
  chip_scribe_line_south :: int
  chip_tsv :: bool
  chip_tech :: nat
  chip_insts :: "nat list"
  chip_conns :: "nat list"
  chip_nets :: "nat list"
  chip_insts_map :: "string \<rightharpoonup> nat"
  chip_region_map :: "string \<rightharpoonup> nat"
  chip_region_tbl :: "dbChipRegion dbTable"
  chip_block :: "(nat \<rightharpoonup> Point) option"
  chip_marker_categories :: MarkerCategories
  chip_string_props :: "string \<rightharpoonup> string"

record dbChipInst =
  ci_name :: string
  ci_origin :: Point3D
  ci_orient :: dbOrientType3D
  ci_master :: nat
  ci_parent :: nat
  ci_region_insts :: "nat list"
  ci_region_map :: "nat \<rightharpoonup> nat"

record dbChipRegionInst =
  cri_region :: nat
  cri_parent :: nat
  cri_bump_insts :: "nat list"

record dbChipBumpInst =
  cbi_bump :: nat
  cbi_region_inst :: nat

record dbChipConn =
  cc_name :: string
  cc_thickness :: int
  cc_chip :: nat
  cc_top_region :: nat
  cc_top_path :: "nat list"
  cc_bottom_region :: nat
  cc_bottom_path :: "nat list"

record dbChipNet =
  cn_name :: string
  cn_chip :: nat
  cn_bump_insts :: "(nat list \<times> nat) list"

record dbDatabase =
  db_chip :: nat
  db_dbu_per_micron :: nat
  db_chip_hash :: "string \<rightharpoonup> nat"
  chip_tbl :: "dbChip dbTable"
  chip_inst_tbl :: "dbChipInst dbTable"
  chip_region_inst_tbl :: "dbChipRegionInst dbTable"
  chip_bump_inst_tbl :: "dbChipBumpInst dbTable"
  chip_conn_tbl :: "dbChipConn dbTable"
  chip_net_tbl :: "dbChipNet dbTable"

text \<open>\<open>Throws n\<close>: \<^verbatim>\<open>Logger::error\<close> with message number \<open>n\<close>.\<close>

datatype odb_error = ReturnsNull | Throws nat

text \<open>\<^verbatim>\<open>table->getPtr(id)\<close>, which asserts that the id is allocated.\<close>

definition deref :: "'a dbTable \<Rightarrow> nat \<Rightarrow> 'a" where
  "deref t i = the (dbTable_getPtr t i)"

definition table_ids :: "'a dbTable \<Rightarrow> nat list" where
  "table_ids t = the (table_iter dbTable_next t (dbTable_begin t))"

abbreviation chip_of :: "dbDatabase \<Rightarrow> nat \<Rightarrow> dbChip" where
  "chip_of db c \<equiv> deref (chip_tbl db) c"

abbreviation inst_of :: "dbDatabase \<Rightarrow> nat \<Rightarrow> dbChipInst" where
  "inst_of db i \<equiv> deref (chip_inst_tbl db) i"

abbreviation region_inst_of :: "dbDatabase \<Rightarrow> nat \<Rightarrow> dbChipRegionInst" where
  "region_inst_of db r \<equiv> deref (chip_region_inst_tbl db) r"

abbreviation bump_inst_of :: "dbDatabase \<Rightarrow> nat \<Rightarrow> dbChipBumpInst" where
  "bump_inst_of db b \<equiv> deref (chip_bump_inst_tbl db) b"

abbreviation conn_of :: "dbDatabase \<Rightarrow> nat \<Rightarrow> dbChipConn" where
  "conn_of db k \<equiv> deref (chip_conn_tbl db) k"

abbreviation net_of :: "dbDatabase \<Rightarrow> nat \<Rightarrow> dbChipNet" where
  "net_of db n \<equiv> deref (chip_net_tbl db) n"

definition PAGE_SIZE :: nat where
  "PAGE_SIZE = 128"

definition mk_dbDatabase :: dbDatabase where
  "mk_dbDatabase =
     \<lparr>db_chip = 0, db_dbu_per_micron = 0, db_chip_hash = Map.empty,
      chip_tbl = mk_dbTable PAGE_SIZE, chip_inst_tbl = mk_dbTable PAGE_SIZE,
      chip_region_inst_tbl = mk_dbTable PAGE_SIZE, chip_bump_inst_tbl = mk_dbTable PAGE_SIZE,
      chip_conn_tbl = mk_dbTable PAGE_SIZE, chip_net_tbl = mk_dbTable PAGE_SIZE\<rparr>"

section \<open>Chips\<close>

definition mk_dbChip :: dbChip where
  "mk_dbChip =
     \<lparr>chip_name = '''', chip_type = DIE, chip_offset = Point 0 0, chip_width = 0, chip_height = 0,
      chip_thickness = 0, chip_shrink = 0,
      chip_seal_ring_east = 0, chip_seal_ring_west = 0, chip_seal_ring_north = 0,
      chip_seal_ring_south = 0, chip_scribe_line_east = 0, chip_scribe_line_west = 0,
      chip_scribe_line_north = 0, chip_scribe_line_south = 0, chip_tsv = False, chip_tech = 0, chip_insts = [],
      chip_conns = [], chip_nets = [], chip_insts_map = Map.empty, chip_region_map = Map.empty,
      chip_region_tbl = mk_dbTable PAGE_SIZE, chip_block = None,
      chip_marker_categories = mk_MarkerCategories PAGE_SIZE, chip_string_props = Map.empty\<rparr>"

definition dbChip_getBBox :: "dbChip \<Rightarrow> Rect" where
  "dbChip_getBBox chip =
     (let dx = chip_width chip + chip_scribe_line_east chip + chip_seal_ring_east chip
               + chip_scribe_line_west chip + chip_seal_ring_west chip;
          dy = chip_height chip + chip_scribe_line_north chip + chip_seal_ring_north chip
               + chip_scribe_line_south chip + chip_seal_ring_south chip
      in mk_Rect 0 0 dx dy)"

definition dbChip_getCuboid :: "dbChip \<Rightarrow> Cuboid" where
  "dbChip_getCuboid chip =
     (let box = dbChip_getBBox chip
      in mk_Cuboid (rect_xlo box) (rect_ylo box) 0 (rect_xhi box) (rect_yhi box) (chip_thickness chip))"

definition dbChip_findChipInst :: "dbDatabase \<Rightarrow> nat \<Rightarrow> string \<Rightarrow> nat" where
  "dbChip_findChipInst db chip name =
     (case chip_insts_map (chip_of db chip) name of Some i \<Rightarrow> i | None \<Rightarrow> 0)"

definition dbChip_findChipRegion :: "dbDatabase \<Rightarrow> nat \<Rightarrow> string \<Rightarrow> nat" where
  "dbChip_findChipRegion db chip name =
     (case chip_region_map (chip_of db chip) name of Some i \<Rightarrow> i | None \<Rightarrow> 0)"

text \<open>
  The check for a technology comes after the chip is in the table and in the hash.
\<close>

definition dbChip_create ::
    "dbDatabase \<Rightarrow> nat \<Rightarrow> string \<Rightarrow> ChipType \<Rightarrow> dbDatabase \<times> (odb_error + nat)" where
  "dbChip_create db tech name type =
     (if db_chip_hash db (c_str name) \<noteq> None then (db, Inl (Throws 385))
      else
        let (i, tbl) = dbTable_create (chip_tbl db) mk_dbChip;
            tbl = dbTable_update tbl i (\<lambda>c. c\<lparr>chip_name := c_str name, chip_type := type\<rparr>);
            db = db\<lparr>chip_tbl := tbl, db_chip := (if db_chip db = 0 then i else db_chip db),
                    db_chip_hash := (db_chip_hash db)(c_str name \<mapsto> i)\<rparr>
        in if tech \<noteq> 0 then
             (db\<lparr>chip_tbl := dbTable_update (chip_tbl db) i (\<lambda>c. c\<lparr>chip_tech := tech\<rparr>)\<rparr>, Inr i)
           else if type = DIE then (db, Inl (Throws 422))
           else (db, Inr i))"

section \<open>Regions and bumps\<close>

definition dbChipRegion_getCuboid :: "dbChipRegion \<Rightarrow> Cuboid" where
  "dbChipRegion_getCuboid r =
     (let box = rgn_box r
      in mk_Cuboid (rect_xlo box) (rect_ylo box) (rgn_z_min r) (rect_xhi box) (rect_yhi box) (rgn_z_max r))"

definition mk_dbChipRegion :: dbChipRegion where
  "mk_dbChipRegion =
     \<lparr>rgn_name = '''', rgn_side = FRONT, rgn_layer = 0, rgn_box = Rect_default, rgn_z_min = 0,
      rgn_z_max = 0, rgn_bump_tbl = mk_dbTable PAGE_SIZE\<rparr>"

text \<open>\<open>layer_tech\<close> is the technology of the layer; \<open>layer\<close> 0 is no layer.\<close>

definition dbChipRegion_create ::
    "dbDatabase \<Rightarrow> nat \<Rightarrow> string \<Rightarrow> Side \<Rightarrow> nat \<Rightarrow> nat \<Rightarrow> dbDatabase \<times> (odb_error + nat)" where
  "dbChipRegion_create db chip name side layer layer_tech =
     (if chip = 0 then (db, Inl ReturnsNull)
      else if layer \<noteq> 0 \<and> chip_tech (chip_of db chip) \<noteq> layer_tech then (db, Inl (Throws 509))
      else if dbChip_findChipRegion db chip name \<noteq> 0 then (db, Inl (Throws 520))
      else
        let (r, tbl) = dbTable_create (chip_region_tbl (chip_of db chip)) mk_dbChipRegion;
            chip_thickness = chip_thickness (chip_of db chip);
            (z_min, z_max) =
              (if side = FRONT then (chip_thickness, chip_thickness)
               else if side = BACK then (0, 0)
               else (0, chip_thickness));
            tbl = dbTable_update tbl r (\<lambda>g. g\<lparr>rgn_name := name, rgn_side := side,
              rgn_layer := (if layer \<noteq> 0 then layer else 0), rgn_box := Rect_default,
              rgn_z_min := z_min, rgn_z_max := z_max\<rparr>)
        in (db\<lparr>chip_tbl := dbTable_update (chip_tbl db) chip
                  (\<lambda>c. c\<lparr>chip_region_tbl := tbl, chip_region_map := (chip_region_map c)(name \<mapsto> r)\<rparr>)\<rparr>,
            Inr r))"

section \<open>Chip instances\<close>

definition dbChipInst_getTransform :: "dbChipInst \<Rightarrow> dbTransform" where
  "dbChipInst_getTransform inst = mk_dbTransform3D (ci_orient inst) (ci_origin inst)"

definition dbChipInst_setOrient :: "dbDatabase \<Rightarrow> nat \<Rightarrow> dbOrientType3D \<Rightarrow> dbDatabase" where
  "dbChipInst_setOrient db i orient =
     db\<lparr>chip_inst_tbl := dbTable_update (chip_inst_tbl db) i (\<lambda>x. x\<lparr>ci_orient := orient\<rparr>)\<rparr>"

definition dbChipInst_getMasterChip :: "dbDatabase \<Rightarrow> nat \<Rightarrow> dbChip" where
  "dbChipInst_getMasterChip db i = chip_of db (ci_master (inst_of db i))"

definition dbChipInst_getBBox :: "dbDatabase \<Rightarrow> nat \<Rightarrow> Rect" where
  "dbChipInst_getBBox db i =
     dbTransform_apply_Rect (dbChipInst_getTransform (inst_of db i))
       (dbChip_getBBox (dbChipInst_getMasterChip db i))"

definition dbChipInst_getCuboid :: "dbDatabase \<Rightarrow> nat \<Rightarrow> Cuboid" where
  "dbChipInst_getCuboid db i =
     dbTransform_apply_Cuboid (dbChipInst_getTransform (inst_of db i))
       (dbChip_getCuboid (dbChipInst_getMasterChip db i))"

definition dbChipInst_setLoc :: "dbDatabase \<Rightarrow> nat \<Rightarrow> Point3D \<Rightarrow> dbDatabase" where
  "dbChipInst_setLoc db i loc =
     (let cuboid = dbChip_getCuboid (dbChipInst_getMasterChip db i);
          t = dbTransform_of_orient3D (ci_orient (inst_of db i));
          cuboid = dbTransform_apply_Cuboid t cuboid;
          dx = p3x loc - p3x (Cuboid_lll cuboid);
          dy = p3y loc - p3y (Cuboid_lll cuboid);
          dz = p3z loc - p3z (Cuboid_lll cuboid)
      in db\<lparr>chip_inst_tbl := dbTable_update (chip_inst_tbl db) i (\<lambda>x. x\<lparr>ci_origin := Point3D dx dy dz\<rparr>)\<rparr>)"

definition dbChipInst_getLoc :: "dbDatabase \<Rightarrow> nat \<Rightarrow> Point3D" where
  "dbChipInst_getLoc db i = Cuboid_lll (dbChipInst_getCuboid db i)"

definition dbChipInst_findChipRegionInst :: "dbDatabase \<Rightarrow> nat \<Rightarrow> nat \<Rightarrow> nat" where
  "dbChipInst_findChipRegionInst db i chip_region =
     (if chip_region = 0 then 0
      else (case ci_region_map (inst_of db i) chip_region of Some r \<Rightarrow> r | None \<Rightarrow> 0))"

definition dbChipInst_findChipRegionInst_name :: "dbDatabase \<Rightarrow> nat \<Rightarrow> string \<Rightarrow> nat" where
  "dbChipInst_findChipRegionInst_name db i name =
     dbChipInst_findChipRegionInst db i (dbChip_findChipRegion db (ci_master (inst_of db i)) name)"

text \<open>The bump instances of one region instance, pushed on the list and then reversed.\<close>

definition create_bump_insts :: "dbDatabase \<Rightarrow> dbChipRegion \<Rightarrow> nat \<Rightarrow> dbDatabase" where
  "create_bump_insts db region regioninst =
     (let db = fold (\<lambda>bump db.
            let (b, tbl) = dbTable_create (chip_bump_inst_tbl db) \<lparr>cbi_bump = bump, cbi_region_inst = regioninst\<rparr>
            in db\<lparr>chip_bump_inst_tbl := tbl,
                  chip_region_inst_tbl := dbTable_update (chip_region_inst_tbl db) regioninst
                    (\<lambda>r. r\<lparr>cri_bump_insts := b # cri_bump_insts r\<rparr>)\<rparr>)
          (table_ids (rgn_bump_tbl region)) db
      in db\<lparr>chip_region_inst_tbl := dbTable_update (chip_region_inst_tbl db) regioninst
              (\<lambda>r. r\<lparr>cri_bump_insts := rev (cri_bump_insts r)\<rparr>)\<rparr>)"

definition create_region_inst :: "nat \<Rightarrow> nat \<Rightarrow> nat \<Rightarrow> dbDatabase \<Rightarrow> dbDatabase" where
  "create_region_inst master chipinst region db =
     (let (r, tbl) = dbTable_create (chip_region_inst_tbl db)
            \<lparr>cri_region = region, cri_parent = chipinst, cri_bump_insts = []\<rparr>;
          db = db\<lparr>chip_region_inst_tbl := tbl,
                  chip_inst_tbl := dbTable_update (chip_inst_tbl db) chipinst
                    (\<lambda>i. i\<lparr>ci_region_insts := r # ci_region_insts i,
                           ci_region_map := (ci_region_map i)(region \<mapsto> r)\<rparr>)\<rparr>
      in create_bump_insts db (deref (chip_region_tbl (chip_of db master)) region) r)"

definition dbChipInst_create ::
    "dbDatabase \<Rightarrow> nat \<Rightarrow> nat \<Rightarrow> string \<Rightarrow> dbDatabase \<times> (odb_error + nat)" where
  "dbChipInst_create db parent_chip master_chip name =
     (if parent_chip = 0 \<or> master_chip = 0 then (db, Inl ReturnsNull)
      else if chip_type (chip_of db parent_chip) \<noteq> HIER then (db, Inl (Throws 506))
      else if parent_chip = master_chip then (db, Inl (Throws 507))
      else if dbChip_findChipInst db parent_chip name \<noteq> 0 then (db, Inl (Throws 514))
      else
        let (i, tbl) = dbTable_create (chip_inst_tbl db)
              \<lparr>ci_name = name, ci_origin = Point3D 0 0 0, ci_orient = dbOrientType3D_default,
               ci_master = master_chip, ci_parent = parent_chip, ci_region_insts = [],
               ci_region_map = Map.empty\<rparr>;
            db = db\<lparr>chip_inst_tbl := tbl,
                    chip_tbl := dbTable_update (chip_tbl db) parent_chip
                      (\<lambda>c. c\<lparr>chip_insts := i # chip_insts c, chip_insts_map := (chip_insts_map c)(name \<mapsto> i)\<rparr>)\<rparr>;
            db = fold (create_region_inst master_chip i)
                   (table_ids (chip_region_tbl (chip_of db master_chip))) db
        in (db\<lparr>chip_inst_tbl := dbTable_update (chip_inst_tbl db) i
                  (\<lambda>x. x\<lparr>ci_region_insts := rev (ci_region_insts x)\<rparr>)\<rparr>, Inr i))"

definition destroy_all :: "'a dbTable \<Rightarrow> nat list \<Rightarrow> 'a dbTable" where
  "destroy_all tbl ids = fold (\<lambda>i tbl. the (dbTable_destroy tbl i)) ids tbl"

definition dbChipInst_destroy :: "dbDatabase \<Rightarrow> nat \<Rightarrow> dbDatabase" where
  "dbChipInst_destroy db i =
     (if i = 0 then db
      else
        let inst = inst_of db i;
            bumps = concat (map (\<lambda>r. cri_bump_insts (region_inst_of db r)) (ci_region_insts inst))
        in db\<lparr>chip_region_inst_tbl := destroy_all (chip_region_inst_tbl db) (ci_region_insts inst),
              chip_bump_inst_tbl := destroy_all (chip_bump_inst_tbl db) bumps,
              chip_tbl := dbTable_update (chip_tbl db) (ci_parent inst)
                (\<lambda>c. c\<lparr>chip_insts_map := (chip_insts_map c)(ci_name inst := None),
                       chip_insts := remove1 i (chip_insts c)\<rparr>),
              chip_inst_tbl := the (dbTable_destroy (chip_inst_tbl db) i)\<rparr>)"

definition dbChipRegionInst_getChipRegion :: "dbDatabase \<Rightarrow> nat \<Rightarrow> dbChipRegion" where
  "dbChipRegionInst_getChipRegion db r =
     deref (chip_region_tbl (dbChipInst_getMasterChip db (cri_parent (region_inst_of db r))))
       (cri_region (region_inst_of db r))"

definition dbChipRegionInst_getCuboid :: "dbDatabase \<Rightarrow> nat \<Rightarrow> Cuboid" where
  "dbChipRegionInst_getCuboid db r =
     dbTransform_apply_Cuboid (dbChipInst_getTransform (inst_of db (cri_parent (region_inst_of db r))))
       (dbChipRegion_getCuboid (dbChipRegionInst_getChipRegion db r))"

definition dbChipBumpInst_getChipBump :: "dbDatabase \<Rightarrow> nat \<Rightarrow> dbChipBump" where
  "dbChipBumpInst_getChipBump db b =
     deref (rgn_bump_tbl (dbChipRegionInst_getChipRegion db (cbi_region_inst (bump_inst_of db b))))
       (cbi_bump (bump_inst_of db b))"

text \<open>The location of the instance a bump stands for: \<^verbatim>\<open>bump->getInst()->getLocation()\<close>.\<close>

definition dbChipBump_getInst :: "dbDatabase \<Rightarrow> dbChipBump \<Rightarrow> Point option" where
  "dbChipBump_getInst db bump =
     (if bump_inst bump = 0 then None
      else Some (the ((the (chip_block (chip_of db (bump_chip bump)))) (bump_inst bump))))"

section \<open>Connections and nets\<close>

text \<open>
  The path of a connection goes down the hierarchy: each instance is in the chip the last one is an
  instance of.
\<close>

fun extractChipInstsPath :: "dbDatabase \<Rightarrow> nat \<Rightarrow> nat list \<Rightarrow> odb_error + nat list" where
  "extractChipInstsPath db parent_chip [] = Inr []"
| "extractChipInstsPath db parent_chip (i # is) =
     (if ci_parent (inst_of db i) \<noteq> parent_chip then Inl (Throws 510)
      else (case extractChipInstsPath db (ci_master (inst_of db i)) is of
              Inl e \<Rightarrow> Inl e | Inr path \<Rightarrow> Inr (i # path)))"

text \<open>The paths are checked after the connection is in the table, before it is on the chip's list.\<close>

definition dbChipConn_create ::
    "dbDatabase \<Rightarrow> string \<Rightarrow> nat \<Rightarrow> nat list \<Rightarrow> nat \<Rightarrow> nat list \<Rightarrow> nat \<Rightarrow> dbDatabase \<times> (odb_error + nat)" where
  "dbChipConn_create db name parent_chip top_path top_region bottom_path bottom_region =
     (if parent_chip = 0 then (db, Inl ReturnsNull)
      else if top_region = 0 \<or> top_path = [] then (db, Inl (Throws 511))
      else if cri_parent (region_inst_of db top_region) \<noteq> last top_path then (db, Inl (Throws 515))
      else if bottom_region \<noteq> 0 \<and> bottom_path = [] then (db, Inl (Throws 517))
      else if bottom_region \<noteq> 0 \<and> cri_parent (region_inst_of db bottom_region) \<noteq> last bottom_path
        then (db, Inl (Throws 518))
      else
        let (k, tbl) = dbTable_create (chip_conn_tbl db)
              \<lparr>cc_name = name, cc_thickness = 0, cc_chip = parent_chip, cc_top_region = top_region,
               cc_top_path = [], cc_bottom_region = bottom_region, cc_bottom_path = []\<rparr>;
            db = db\<lparr>chip_conn_tbl := tbl\<rparr>
        in case extractChipInstsPath db parent_chip top_path of
             Inl e \<Rightarrow> (db, Inl e)
           | Inr tpath \<Rightarrow>
               let db = db\<lparr>chip_conn_tbl := dbTable_update (chip_conn_tbl db) k (\<lambda>x. x\<lparr>cc_top_path := tpath\<rparr>)\<rparr>
               in case (if bottom_region \<noteq> 0 then extractChipInstsPath db parent_chip bottom_path else Inr []) of
                    Inl e \<Rightarrow> (db, Inl e)
                  | Inr bpath \<Rightarrow>
                      (db\<lparr>chip_conn_tbl := dbTable_update (chip_conn_tbl db) k (\<lambda>x. x\<lparr>cc_bottom_path := bpath\<rparr>),
                          chip_tbl := dbTable_update (chip_tbl db) parent_chip
                            (\<lambda>c. c\<lparr>chip_conns := k # chip_conns c\<rparr>)\<rparr>, Inr k))"

definition dbChipConn_destroy :: "dbDatabase \<Rightarrow> nat \<Rightarrow> dbDatabase" where
  "dbChipConn_destroy db k =
     db\<lparr>chip_tbl := dbTable_update (chip_tbl db) (cc_chip (conn_of db k))
          (\<lambda>c. c\<lparr>chip_conns := remove1 k (chip_conns c)\<rparr>),
        chip_conn_tbl := the (dbTable_destroy (chip_conn_tbl db) k)\<rparr>"

definition dbChipNet_create :: "dbDatabase \<Rightarrow> nat \<Rightarrow> string \<Rightarrow> dbDatabase \<times> nat" where
  "dbChipNet_create db chip name =
     (let (n, tbl) = dbTable_create (chip_net_tbl db) \<lparr>cn_name = name, cn_chip = chip, cn_bump_insts = []\<rparr>
      in (db\<lparr>chip_net_tbl := tbl,
             chip_tbl := dbTable_update (chip_tbl db) chip (\<lambda>c. c\<lparr>chip_nets := n # chip_nets c\<rparr>)\<rparr>, n))"

definition dbChipNet_addBumpInst ::
    "dbDatabase \<Rightarrow> nat \<Rightarrow> nat \<Rightarrow> nat list \<Rightarrow> dbDatabase \<times> (odb_error + unit)" where
  "dbChipNet_addBumpInst db n binst path =
     (if binst = 0 then (db, Inl (Throws 479))
      else if 0 \<in> set path then (db, Inl (Throws 480))
      else (db\<lparr>chip_net_tbl := dbTable_update (chip_net_tbl db) n
                 (\<lambda>x. x\<lparr>cn_bump_insts := cn_bump_insts x @ [(path, binst)]\<rparr>)\<rparr>, Inr ()))"

definition dbChipNet_getBumpInst :: "dbChipNet \<Rightarrow> nat \<Rightarrow> (nat list \<times> nat) option" where
  "dbChipNet_getBumpInst net index =
     (if index \<ge> length (cn_bump_insts net) then None else Some (cn_bump_insts net ! index))"

definition dbChipNet_destroy :: "dbDatabase \<Rightarrow> nat \<Rightarrow> dbDatabase" where
  "dbChipNet_destroy db n =
     db\<lparr>chip_tbl := dbTable_update (chip_tbl db) (cn_chip (net_of db n))
          (\<lambda>c. c\<lparr>chip_nets := remove1 n (chip_nets c)\<rparr>),
        chip_net_tbl := the (dbTable_destroy (chip_net_tbl db) n)\<rparr>"

end
