(* ===== verification/UnfoldedModel.thy ===== *)
theory UnfoldedModel
  imports ChipDb
begin

text \<open>
  Unfolding the chip hierarchy (\<^verbatim>\<open>odb/unfoldedModel.h\<close>, \<^verbatim>\<open>db/unfoldedModel.cpp\<close>):
  every path of chip instances that ends in a chip without hierarchy becomes an \<open>UnfoldedChip\<close> with
  the placement composed along the path; connections and nets are resolved to the regions and bumps of
  these chips.

  The unfolded objects point at each other. They live in sequences that only grow, so a pointer is a
  position: a chip is its index, a region a pair and a bump a triple of indices; \<open>None\<close> is the null
  pointer. \<^verbatim>\<open>buildUnfoldedChip\<close> recurses into the master of the instance it is given, which
  the database does not prevent from containing itself: the model recurses under fuel, and \<open>None\<close>
  means the fuel ran out. The pointer it returns is used by no caller and is left out.
\<close>

section \<open>Data\<close>

datatype UnfoldedRegionSide = TOP | BOTTOM | INTERNAL | INTERNAL_EXT

type_synonym region_ptr = "nat \<times> nat"
type_synonym bump_ptr = "nat \<times> nat \<times> nat"

record UnfoldedBump =
  ub_bump_inst :: nat
  ub_parent_region :: "region_ptr option"
  ub_global_position :: Point3D

record UnfoldedRegion =
  ur_region_inst :: nat
  ur_effective_side :: UnfoldedRegionSide
  ur_cuboid :: Cuboid
  ur_parent_chip :: "nat option"
  ur_bumps :: "UnfoldedBump list"
  ur_isUsed :: bool

record UnfoldedConnection =
  ucn_connection :: nat
  ucn_top_region :: "region_ptr option"
  ucn_bottom_region :: "region_ptr option"

record UnfoldedNet =
  un_chip_net :: nat
  un_connected_bumps :: "bump_ptr list"

record UnfoldedChip =
  uc_name :: string
  uc_chip_inst_path :: "nat list"
  uc_cuboid :: Cuboid
  uc_transform :: dbTransform
  uc_regions :: "UnfoldedRegion list"
  uc_region_map :: "nat \<rightharpoonup> nat"

record UnfoldedModel =
  um_chips :: "UnfoldedChip list"
  um_connections :: "UnfoldedConnection list"
  um_nets :: "UnfoldedNet list"
  um_chip_path_map :: "nat list \<rightharpoonup> nat"
  um_bump_inst_map :: "nat \<times> nat list \<rightharpoonup> bump_ptr"

section \<open>Operations\<close>

definition UR_isTop :: "UnfoldedRegion \<Rightarrow> bool" where
  "UR_isTop r = (ur_effective_side r = UnfoldedRegionSide.TOP)"

definition UR_isBottom :: "UnfoldedRegion \<Rightarrow> bool" where
  "UR_isBottom r = (ur_effective_side r = UnfoldedRegionSide.BOTTOM)"

definition UR_isInternal :: "UnfoldedRegion \<Rightarrow> bool" where
  "UR_isInternal r = (ur_effective_side r = UnfoldedRegionSide.INTERNAL)"

definition UR_isInternalExt :: "UnfoldedRegion \<Rightarrow> bool" where
  "UR_isInternalExt r = (ur_effective_side r = UnfoldedRegionSide.INTERNAL_EXT)"

definition UR_getSurfaceZ :: "UnfoldedRegion \<Rightarrow> int" where
  "UR_getSurfaceZ r =
     (if UR_isTop r then cub_zhi (ur_cuboid r)
      else if UR_isBottom r then cub_zlo (ur_cuboid r)
      else Cuboid_zCenter (ur_cuboid r))"

definition concatPath :: "nat list \<Rightarrow> nat list \<Rightarrow> nat list" where
  "concatPath hd_path tl_path = (if tl_path = [] then hd_path else hd_path @ tl_path)"

definition getFullPathName :: "dbDatabase \<Rightarrow> nat list \<Rightarrow> string" where
  "getFullPathName db path =
     foldl (\<lambda>name p. (if name \<noteq> '''' then name @ ''/'' else name) @ ci_name (inst_of db p)) '''' path"

definition mirrorSide :: "UnfoldedRegionSide \<Rightarrow> UnfoldedRegionSide" where
  "mirrorSide side =
     (if side = UnfoldedRegionSide.TOP then UnfoldedRegionSide.BOTTOM
      else if side = UnfoldedRegionSide.BOTTOM then UnfoldedRegionSide.TOP
      else side)"

primrec side_of :: "Side \<Rightarrow> UnfoldedRegionSide" where
  "side_of Side.FRONT = UnfoldedRegionSide.TOP"
| "side_of Side.BACK = UnfoldedRegionSide.BOTTOM"
| "side_of Side.INTERNAL = UnfoldedRegionSide.INTERNAL"
| "side_of Side.INTERNAL_EXT = UnfoldedRegionSide.INTERNAL_EXT"

definition unfoldBumps :: "dbDatabase \<Rightarrow> UnfoldedRegion \<Rightarrow> dbTransform \<Rightarrow> UnfoldedRegion" where
  "unfoldBumps db uf_region transform =
     (let z = UR_getSurfaceZ uf_region
      in foldl (\<lambda>r bump_inst.
           (case dbChipBump_getInst db (dbChipBumpInst_getChipBump db bump_inst) of
              None \<Rightarrow> r
            | Some location \<Rightarrow>
                (let global_xy = dbTransform_apply_Point transform location
                 in r\<lparr>ur_bumps := ur_bumps r @
                      [\<lparr>ub_bump_inst = bump_inst, ub_parent_region = None,
                        ub_global_position = Point3D (px global_xy) (py global_xy) z\<rparr>]\<rparr>)))
           uf_region (cri_bump_insts (region_inst_of db (ur_region_inst uf_region))))"

definition unfoldRegion :: "dbDatabase \<Rightarrow> dbTransform \<Rightarrow> nat \<Rightarrow> UnfoldedRegion" where
  "unfoldRegion db transform region_inst =
     (let region = dbChipRegionInst_getChipRegion db region_inst;
          side = side_of (rgn_side region);
          side = (if tr_mirror_z transform then mirrorSide side else side);
          uf_region =
            \<lparr>ur_region_inst = region_inst, ur_effective_side = side,
             ur_cuboid = dbTransform_apply_Cuboid transform (dbChipRegion_getCuboid region),
             ur_parent_chip = None, ur_bumps = [], ur_isUsed = False\<rparr>
      in unfoldBumps db uf_region transform)"

definition unfoldRegions :: "dbDatabase \<Rightarrow> UnfoldedChip \<Rightarrow> nat \<Rightarrow> UnfoldedChip" where
  "unfoldRegions db uf_chip inst =
     foldl (\<lambda>c region_inst. c\<lparr>uc_regions := uc_regions c @ [unfoldRegion db (uc_transform c) region_inst]\<rparr>)
       uf_chip (ci_region_insts (inst_of db inst))"

text \<open>Parent pointers and maps of the chip at position \<open>c\<close>, the one just appended.\<close>

definition set_parents :: "nat \<Rightarrow> nat \<Rightarrow> UnfoldedRegion \<Rightarrow> UnfoldedRegion" where
  "set_parents c j region =
     region\<lparr>ur_parent_chip := Some c,
            ur_bumps := map (\<lambda>b. b\<lparr>ub_parent_region := Some (c, j)\<rparr>) (ur_bumps region)\<rparr>"

definition registered_chip :: "nat \<Rightarrow> UnfoldedChip \<Rightarrow> UnfoldedChip" where
  "registered_chip c chip =
     chip\<lparr>uc_regions := map (\<lambda>(j, r). set_parents c j r) (enumerate 0 (uc_regions chip)),
          uc_region_map := foldl (\<lambda>m (j, r). m(ur_region_inst r \<mapsto> j)) (uc_region_map chip)
            (enumerate 0 (uc_regions chip))\<rparr>"

definition registerUnfoldedChip :: "UnfoldedModel \<Rightarrow> nat \<Rightarrow> UnfoldedModel" where
  "registerUnfoldedChip um c =
     (let chip = um_chips um ! c;
          bump_map = foldl (\<lambda>m (j, r).
              foldl (\<lambda>m (k, b). m((ub_bump_inst b, uc_chip_inst_path chip) \<mapsto> (c, j, k))) m
                (enumerate 0 (ur_bumps r)))
            (um_bump_inst_map um) (enumerate 0 (uc_regions chip))
      in um\<lparr>um_chips := (um_chips um)[c := registered_chip c chip], um_bump_inst_map := bump_map,
            um_chip_path_map := (um_chip_path_map um)(uc_chip_inst_path chip \<mapsto> c)\<rparr>)"

definition findUnfoldedChip :: "UnfoldedModel \<Rightarrow> nat list \<Rightarrow> nat option" where
  "findUnfoldedChip um path = um_chip_path_map um path"

text \<open>The region instance 0 is the null pointer of a connection without a bottom region.\<close>

definition findUnfoldedRegion :: "UnfoldedModel \<Rightarrow> nat option \<Rightarrow> nat \<Rightarrow> region_ptr option" where
  "findUnfoldedRegion um chip inst =
     (case chip of
        None \<Rightarrow> None
      | Some c \<Rightarrow>
          if inst = 0 then None
          else map_option (\<lambda>j. (c, j)) (uc_region_map (um_chips um ! c) inst))"

definition region_at :: "UnfoldedModel \<Rightarrow> region_ptr \<Rightarrow> UnfoldedRegion" where
  "region_at um p = uc_regions (um_chips um ! fst p) ! snd p"

definition update_region :: "UnfoldedModel \<Rightarrow> region_ptr \<Rightarrow> (UnfoldedRegion \<Rightarrow> UnfoldedRegion) \<Rightarrow> UnfoldedModel" where
  "update_region um p f =
     (let chip = um_chips um ! fst p
      in um\<lparr>um_chips := (um_chips um)[fst p := chip\<lparr>uc_regions := (uc_regions chip)[snd p := f (region_at um p)]\<rparr>]\<rparr>)"

definition mark_used :: "UnfoldedModel \<Rightarrow> region_ptr option \<Rightarrow> UnfoldedModel" where
  "mark_used um p =
     (case p of
        None \<Rightarrow> um
      | Some p \<Rightarrow>
          if UR_isInternalExt (region_at um p) then update_region um p (\<lambda>r. r\<lparr>ur_isUsed := True\<rparr>) else um)"

definition unfoldConnection :: "dbDatabase \<Rightarrow> nat list \<Rightarrow> UnfoldedModel \<Rightarrow> nat \<Rightarrow> UnfoldedModel" where
  "unfoldConnection db parent_path um conn =
     (let tpr = findUnfoldedRegion um (findUnfoldedChip um (concatPath parent_path (cc_top_path (conn_of db conn))))
            (cc_top_region (conn_of db conn));
          btr = findUnfoldedRegion um (findUnfoldedChip um (concatPath parent_path (cc_bottom_path (conn_of db conn))))
            (cc_bottom_region (conn_of db conn))
      in if tpr \<noteq> None \<or> btr \<noteq> None then
           (let um = mark_used (mark_used um tpr) btr
            in um\<lparr>um_connections := um_connections um @
                 [\<lparr>ucn_connection = conn, ucn_top_region = tpr, ucn_bottom_region = btr\<rparr>]\<rparr>)
         else um)"

definition unfoldConnections :: "dbDatabase \<Rightarrow> UnfoldedModel \<Rightarrow> nat \<Rightarrow> nat list \<Rightarrow> UnfoldedModel" where
  "unfoldConnections db um chip parent_path =
     foldl (unfoldConnection db parent_path) um (chip_conns (chip_of db chip))"

definition unfoldNet :: "dbDatabase \<Rightarrow> nat list \<Rightarrow> UnfoldedModel \<Rightarrow> nat \<Rightarrow> UnfoldedModel" where
  "unfoldNet db parent_path um net =
     um\<lparr>um_nets := um_nets um @
          [\<lparr>un_chip_net = net,
            un_connected_bumps =
              List.map_filter (\<lambda>i. um_bump_inst_map um
                  (snd (cn_bump_insts (net_of db net) ! i), concatPath parent_path (fst (cn_bump_insts (net_of db net) ! i))))
                [0..<length (cn_bump_insts (net_of db net))]\<rparr>]\<rparr>"

definition unfoldNets :: "dbDatabase \<Rightarrow> UnfoldedModel \<Rightarrow> nat \<Rightarrow> nat list \<Rightarrow> UnfoldedModel" where
  "unfoldNets db um chip parent_path = foldl (unfoldNet db parent_path) um (chip_nets (chip_of db chip))"

definition leaf_chip :: "dbDatabase \<Rightarrow> nat \<Rightarrow> nat list \<Rightarrow> dbTransform \<Rightarrow> UnfoldedChip" where
  "leaf_chip db inst path xform =
     unfoldRegions db
       \<lparr>uc_name = getFullPathName db path, uc_chip_inst_path = path,
        uc_cuboid = dbTransform_apply_Cuboid xform (dbChip_getCuboid (dbChipInst_getMasterChip db inst)),
        uc_transform = xform, uc_regions = [], uc_region_map = Map.empty\<rparr> inst"

primrec buildUnfoldedChip ::
    "nat \<Rightarrow> dbDatabase \<Rightarrow> nat list \<Rightarrow> dbTransform \<Rightarrow> UnfoldedModel \<Rightarrow> nat \<Rightarrow> UnfoldedModel option" where
  "buildUnfoldedChip 0 = (\<lambda>db path parent_xform um inst. None)"
| "buildUnfoldedChip (Suc fuel) = (\<lambda>db path parent_xform um inst.
     let master = ci_master (inst_of db inst);
         path = path @ [inst];
         xform = dbTransform_concat (dbChipInst_getTransform (inst_of db inst)) parent_xform
     in if chip_type (chip_of db master) = HIER then do {
          um \<leftarrow> foldM (buildUnfoldedChip fuel db path xform) um (chip_insts (chip_of db master));
          Some (unfoldNets db (unfoldConnections db um master path) master path)
        }
        else
          let um = um\<lparr>um_chips := um_chips um @ [leaf_chip db inst path xform]\<rparr>
          in Some (registerUnfoldedChip um (length (um_chips um) - 1)))"

definition empty_model :: UnfoldedModel where
  "empty_model =
     \<lparr>um_chips = [], um_connections = [], um_nets = [], um_chip_path_map = Map.empty,
      um_bump_inst_map = Map.empty\<rparr>"

definition mk_UnfoldedModel :: "nat \<Rightarrow> dbDatabase \<Rightarrow> nat \<Rightarrow> UnfoldedModel option" where
  "mk_UnfoldedModel fuel db chip = do {
     um \<leftarrow> foldM (buildUnfoldedChip fuel db [] dbTransform_default) empty_model (chip_insts (chip_of db chip));
     Some (unfoldNets db (unfoldConnections db um chip []) chip [])
   }"

section \<open>The chips of the model\<close>

text \<open>
  What unfolding an instance should produce: the list of the paths to the chips below it and the
  placement of each.
\<close>

primrec placements ::
    "nat \<Rightarrow> dbDatabase \<Rightarrow> nat list \<Rightarrow> dbTransform \<Rightarrow> nat \<Rightarrow> (nat list \<times> dbTransform) list" where
  "placements 0 = (\<lambda>db path xform inst. [])"
| "placements (Suc fuel) = (\<lambda>db path xform inst.
     let master = ci_master (inst_of db inst);
         path = path @ [inst];
         xform = dbTransform_concat (dbChipInst_getTransform (inst_of db inst)) xform
     in if chip_type (chip_of db master) = HIER
        then concat (map (placements fuel db path xform) (chip_insts (chip_of db master)))
        else [(path, xform)])"

text \<open>The flags \<^verbatim>\<open>isUsed\<close> are the only part of a chip that changes later.\<close>

definition erase_chip :: "UnfoldedChip \<Rightarrow> UnfoldedChip" where
  "erase_chip c = c\<lparr>uc_regions := map (\<lambda>r. r\<lparr>ur_isUsed := False\<rparr>) (uc_regions c)\<rparr>"

abbreviation erased :: "UnfoldedModel \<Rightarrow> UnfoldedChip list" where
  "erased um \<equiv> map erase_chip (um_chips um)"

definition placed_chip :: "dbDatabase \<Rightarrow> nat \<times> nat list \<times> dbTransform \<Rightarrow> UnfoldedChip" where
  "placed_chip db = (\<lambda>(c, path, xform). erase_chip (registered_chip c (leaf_chip db (last path) path xform)))"

lemma mark_used_erased [simp]: "erased (mark_used um p) = erased um"
proof (cases p)
  case (Some q)
  let ?chip = "um_chips um ! fst q"
  have "erase_chip (?chip\<lparr>uc_regions := (uc_regions ?chip)[snd q := region_at um q\<lparr>ur_isUsed := True\<rparr>]\<rparr>) =
      erase_chip ?chip"
  proof (cases "snd q < length (uc_regions ?chip)")
    case True
    then show ?thesis
      by (simp add: erase_chip_def map_update region_at_def list_update_same_conv nth_map)
  qed (simp add: list_update_beyond)
  then show ?thesis using Some
    by (cases "fst q < length (um_chips um)")
       (auto simp: mark_used_def update_region_def map_update list_update_same_conv Let_def
         list_update_beyond)
qed (simp add: mark_used_def)

lemma unfoldConnection_erased [simp]: "erased (unfoldConnection db path um k) = erased um"
  by (simp add: unfoldConnection_def Let_def)

lemma unfoldConnections_erased [simp]: "erased (unfoldConnections db um chip path) = erased um"
proof -
  have "erased (foldl (unfoldConnection db path) um ks) = erased um" for ks
    by (induction ks arbitrary: um) simp_all
  then show ?thesis by (simp add: unfoldConnections_def)
qed

lemma unfoldNets_chips [simp]: "um_chips (unfoldNets db um chip path) = um_chips um"
proof -
  have "um_chips (foldl (unfoldNet db path) um ns) = um_chips um" for ns
    by (induction ns arbitrary: um) (simp_all add: unfoldNet_def)
  then show ?thesis by (simp add: unfoldNets_def)
qed

lemma length_chips_erased: "length (um_chips um) = length (erased um)"
  by simp

lemma enumerate_append: "enumerate n (xs @ ys) = enumerate n xs @ enumerate (n + length xs) ys"
  by (simp add: enumerate_append_eq)

lemma register_chips:
  "um_chips (registerUnfoldedChip (um\<lparr>um_chips := um_chips um @ [chip]\<rparr>) (length (um_chips um))) =
     um_chips um @ [registered_chip (length (um_chips um)) chip]"
  by (simp add: registerUnfoldedChip_def Let_def)

lemma foldM_build_erased:
  assumes "\<And>um um' i. i \<in> set is \<Longrightarrow> f um i = Some um' \<Longrightarrow>
      erased um' = erased um @ map (placed_chip db) (enumerate (length (um_chips um)) (g i))"
    and "foldM f um is = Some um'"
  shows "erased um' = erased um @
    map (placed_chip db) (enumerate (length (um_chips um)) (concat (map g is)))"
  using assms
proof (induction "is" arbitrary: um)
  case (Cons i "is")
  from Cons.prems(2) obtain u where u: "f um i = Some u" "foldM f u is = Some um'"
    by (auto simp: bind_eq_Some_conv)
  from Cons.prems(1) [OF _ u(1)]
  have e: "erased u = erased um @ map (placed_chip db) (enumerate (length (um_chips um)) (g i))" by simp
  then have "length (um_chips u) = length (um_chips um) + length (g i)"
    unfolding length_chips_erased by simp
  with Cons.IH [OF Cons.prems(1) u(2)] e show ?case by (simp add: enumerate_append)
qed simp

lemma build_erased:
  "buildUnfoldedChip k db path xform um i = Some um' \<Longrightarrow>
     erased um' = erased um @
       map (placed_chip db) (enumerate (length (um_chips um)) (placements k db path xform i))"
proof (induction k arbitrary: path xform um i um')
  case (Suc k)
  let ?x = "dbTransform_concat (dbChipInst_getTransform (inst_of db i)) xform"
  let ?m = "ci_master (inst_of db i)"
  show ?case
  proof (cases "chip_type (chip_of db ?m) = HIER")
    case True
    with Suc.prems obtain u where
      u: "foldM (buildUnfoldedChip k db (path @ [i]) ?x) um (chip_insts (chip_of db ?m)) = Some u"
      and um': "um' = unfoldNets db (unfoldConnections db u ?m (path @ [i])) ?m (path @ [i])"
      by (auto simp: Let_def bind_eq_Some_conv)
    have "erased u = erased um @ map (placed_chip db) (enumerate (length (um_chips um))
        (concat (map (placements k db (path @ [i]) ?x) (chip_insts (chip_of db ?m)))))"
      by (rule foldM_build_erased [OF _ u]) (rule Suc.IH)
    then show ?thesis using True by (simp add: um' Let_def)
  next
    case False
    with Suc.prems show ?thesis
      by (auto simp: Let_def register_chips placed_chip_def)
  qed
qed simp

lemma unfolded_chips:
  assumes "mk_UnfoldedModel k db chip = Some um"
  shows "erased um = map (placed_chip db) (enumerate 0
    (concat (map (placements k db [] dbTransform_default) (chip_insts (chip_of db chip)))))"
proof -
  from assms obtain u where
    u: "foldM (buildUnfoldedChip k db [] dbTransform_default) empty_model (chip_insts (chip_of db chip)) = Some u"
    and um: "um = unfoldNets db (unfoldConnections db u chip []) chip []"
    by (auto simp: mk_UnfoldedModel_def bind_eq_Some_conv)
  have "erased u = erased empty_model @ map (placed_chip db) (enumerate (length (um_chips empty_model))
      (concat (map (placements k db [] dbTransform_default) (chip_insts (chip_of db chip)))))"
    by (rule foldM_build_erased [OF _ u]) (rule build_erased)
  then show ?thesis by (simp add: um empty_model_def)
qed

section \<open>Paths, placements and the depth of the hierarchy\<close>

text \<open>
  \<open>hier_path db i p\<close>: \<open>p\<close> starts with the instance \<open>i\<close>, goes down through hierarchical masters and ends
  at the first chip without hierarchy. \<open>path_transform\<close> composes the placements of its instances, the
  innermost acting first.
\<close>

inductive hier_path :: "dbDatabase \<Rightarrow> nat \<Rightarrow> nat list \<Rightarrow> bool" for db where
  leaf: "chip_type (chip_of db (ci_master (inst_of db i))) \<noteq> HIER \<Longrightarrow> hier_path db i [i]"
| down: "chip_type (chip_of db (ci_master (inst_of db i))) = HIER \<Longrightarrow>
     j \<in> set (chip_insts (chip_of db (ci_master (inst_of db i)))) \<Longrightarrow> hier_path db j p \<Longrightarrow>
     hier_path db i (i # p)"

definition path_transform :: "dbDatabase \<Rightarrow> dbTransform \<Rightarrow> nat list \<Rightarrow> dbTransform" where
  "path_transform db x p = foldl (\<lambda>t i. dbTransform_concat (dbChipInst_getTransform (inst_of db i)) t) x p"

lemma path_transform_simps [simp]:
  "path_transform db x [] = x"
  "path_transform db x (i # p) =
     path_transform db (dbTransform_concat (dbChipInst_getTransform (inst_of db i)) x) p"
  by (simp_all add: path_transform_def)

text \<open>A point of the chip goes through the placements from the inside out.\<close>

lemma apply_path_transform:
  "dbTransform_apply (path_transform db x p) pt =
     dbTransform_apply x (foldr (\<lambda>i q. dbTransform_apply (dbChipInst_getTransform (inst_of db i)) q) p pt)"
  by (induction p arbitrary: x) (simp_all add: tr.act_comp)

lemma path_transform_mirror:
  "tr_mirror_z (path_transform db x p) =
     (odd (length (filter (\<lambda>i. o3d_mirror_z (ci_orient (inst_of db i))) p)) \<noteq> tr_mirror_z x)"
  by (induction p arbitrary: x)
     (auto simp: dbTransform_concat_def dbChipInst_getTransform_def mk_dbTransform3D_def
       dbOrientType3D_isMirrorZ_def)

lemma placements_sound:
  "(q, y) \<in> set (placements k db path x i) \<Longrightarrow>
     \<exists>p. q = path @ p \<and> y = path_transform db x p \<and> hier_path db i p"
proof (induction k arbitrary: path x i)
  case (Suc k)
  show ?case
  proof (cases "chip_type (chip_of db (ci_master (inst_of db i))) = HIER")
    case True
    with Suc.prems obtain j where j: "j \<in> set (chip_insts (chip_of db (ci_master (inst_of db i))))"
      and m: "(q, y) \<in> set (placements k db (path @ [i])
        (dbTransform_concat (dbChipInst_getTransform (inst_of db i)) x) j)"
      by (auto simp: Let_def)
    from Suc.IH [OF m] obtain p where "q = (path @ [i]) @ p" "hier_path db j p"
      "y = path_transform db (dbTransform_concat (dbChipInst_getTransform (inst_of db i)) x) p" by blast
    with True j show ?thesis by (intro exI [of _ "i # p"]) (auto intro: hier_path.down)
  next
    case False
    with Suc.prems show ?thesis by (auto simp: Let_def intro!: exI [of _ "[i]"] hier_path.leaf)
  qed
qed simp

lemma placements_complete:
  "hier_path db i p \<Longrightarrow> length p \<le> k \<Longrightarrow>
     (path @ p, path_transform db x p) \<in> set (placements k db path x i)"
proof (induction arbitrary: k path x rule: hier_path.induct)
  case (leaf i)
  then show ?case by (cases k) (auto simp: Let_def)
next
  case (down i j p)
  then obtain k' where k: "k = Suc k'" "length p \<le> k'" by (cases k) auto
  from down.IH [OF k(2), of "path @ [i]"] down.hyps show ?case by (auto simp: k Let_def)
qed

text \<open>When the fuel was enough no path is longer than it.\<close>

lemma build_path_length:
  "hier_path db i p \<Longrightarrow> buildUnfoldedChip k db path x um i = Some um' \<Longrightarrow> length p \<le> k"
proof (induction arbitrary: k path x um um' rule: hier_path.induct)
  case (leaf i)
  then show ?case by (cases k) simp_all
next
  case (down i j p)
  then obtain k' where k: "k = Suc k'" by (cases k) simp_all
  let ?x = "dbTransform_concat (dbChipInst_getTransform (inst_of db i)) x"
  obtain u where "foldM (buildUnfoldedChip k' db (path @ [i]) ?x) um
      (chip_insts (chip_of db (ci_master (inst_of db i)))) = Some u"
    using down.prems down.hyps(1) by (auto simp: k Let_def bind_eq_Some_conv)
  from foldM_SomeD [OF this down.hyps(2)] down.IH show ?case by (auto simp: k)
qed

lemma unfoldRegions_fields [simp]:
  "uc_chip_inst_path (unfoldRegions db c i) = uc_chip_inst_path c"
  "uc_transform (unfoldRegions db c i) = uc_transform c" "uc_cuboid (unfoldRegions db c i) = uc_cuboid c"
proof -
  let ?f = "\<lambda>c r. c\<lparr>uc_regions := uc_regions c @ [unfoldRegion db (uc_transform c) r]\<rparr>"
  have "uc_chip_inst_path (foldl ?f c rs) = uc_chip_inst_path c \<and> uc_transform (foldl ?f c rs) = uc_transform c \<and>
      uc_cuboid (foldl ?f c rs) = uc_cuboid c" for rs
    by (induction rs arbitrary: c) simp_all
  then show "uc_chip_inst_path (unfoldRegions db c i) = uc_chip_inst_path c"
    "uc_transform (unfoldRegions db c i) = uc_transform c" "uc_cuboid (unfoldRegions db c i) = uc_cuboid c"
    by (simp_all add: unfoldRegions_def)
qed

definition chip_place :: "UnfoldedChip \<Rightarrow> nat list \<times> dbTransform \<times> Cuboid" where
  "chip_place c = (uc_chip_inst_path c, uc_transform c, uc_cuboid c)"

lemma chip_place_erase: "chip_place (erase_chip c) = chip_place c"
  by (simp add: chip_place_def erase_chip_def)

lemma chip_place_placed:
  "chip_place (placed_chip db (c, p, x)) =
     (p, x, dbTransform_apply_Cuboid x (dbChip_getCuboid (dbChipInst_getMasterChip db (last p))))"
  by (simp add: chip_place_def placed_chip_def registered_chip_def leaf_chip_def erase_chip_def)

lemma placed_places:
  "map chip_place (map (placed_chip db) (enumerate n ps)) =
     map (\<lambda>(p, x). (p, x, dbTransform_apply_Cuboid x (dbChip_getCuboid (dbChipInst_getMasterChip db (last p))))) ps"
  by (induction ps arbitrary: n) (auto simp: chip_place_placed)

lemma unfolded_places:
  assumes um: "mk_UnfoldedModel k db chip = Some um"
  shows "chip_place ` set (um_chips um) =
    {(p, path_transform db dbTransform_default p,
      dbTransform_apply_Cuboid (path_transform db dbTransform_default p)
        (dbChip_getCuboid (dbChipInst_getMasterChip db (last p)))) | i p.
      i \<in> set (chip_insts (chip_of db chip)) \<and> hier_path db i p}"
proof -
  let ?ps = "concat (map (placements k db [] dbTransform_default) (chip_insts (chip_of db chip)))"
  from um obtain u where
    u: "foldM (buildUnfoldedChip k db [] dbTransform_default) empty_model (chip_insts (chip_of db chip)) = Some u"
    by (auto simp: mk_UnfoldedModel_def bind_eq_Some_conv)
  have "chip_place ` set (um_chips um) = chip_place ` set (erased um)"
    by (simp add: image_image chip_place_erase)
  also have "\<dots> = (\<lambda>(p, x). (p, x, dbTransform_apply_Cuboid x (dbChip_getCuboid (dbChipInst_getMasterChip db (last p))))) ` set ?ps"
    unfolding unfolded_chips [OF um] set_map [symmetric] placed_places ..
  finally have places: "chip_place ` set (um_chips um) =
      (\<lambda>(p, x). (p, x, dbTransform_apply_Cuboid x (dbChip_getCuboid (dbChipInst_getMasterChip db (last p))))) ` set ?ps" .
  have "(p, x) \<in> set ?ps \<longleftrightarrow> x = path_transform db dbTransform_default p \<and>
      (\<exists>i\<in>set (chip_insts (chip_of db chip)). hier_path db i p)" for p x
  proof
    assume "(p, x) \<in> set ?ps"
    then show "x = path_transform db dbTransform_default p \<and> (\<exists>i\<in>set (chip_insts (chip_of db chip)). hier_path db i p)"
      using placements_sound [of p x k db "[]"] by fastforce
  next
    assume "x = path_transform db dbTransform_default p \<and> (\<exists>i\<in>set (chip_insts (chip_of db chip)). hier_path db i p)"
    then obtain i where i: "i \<in> set (chip_insts (chip_of db chip))" "hier_path db i p"
      and x: "x = path_transform db dbTransform_default p" by blast
    have "length p \<le> k" using foldM_SomeD [OF u i(1)] build_path_length [OF i(2)] by blast
    from placements_complete [OF i(2) this, of "[]" dbTransform_default] i(1) x show "(p, x) \<in> set ?ps" by auto
  qed
  then have ps: "set ?ps = {(p, path_transform db dbTransform_default p) | i p.
      i \<in> set (chip_insts (chip_of db chip)) \<and> hier_path db i p}" by fast
  show ?thesis unfolding places ps by fastforce
qed

text \<open>No chip contains itself: a rank falls from a hierarchical chip to the masters inside it.\<close>

definition hier_ranked :: "dbDatabase \<Rightarrow> (nat \<Rightarrow> nat) \<Rightarrow> bool" where
  "hier_ranked db rk \<longleftrightarrow> (\<forall>c x. dbTable_getPtr (chip_tbl db) c = Some x \<longrightarrow> chip_type x = HIER \<longrightarrow>
     (\<forall>i\<in>set (chip_insts x). dbTable_getPtr (chip_tbl db) (ci_master (inst_of db i)) \<noteq> None \<and>
        rk (ci_master (inst_of db i)) < rk c))"

lemma build_total:
  assumes "hier_ranked db rk"
  shows "dbTable_getPtr (chip_tbl db) (ci_master (inst_of db i)) \<noteq> None \<Longrightarrow> rk (ci_master (inst_of db i)) < k \<Longrightarrow>
    \<exists>um'. buildUnfoldedChip k db path x um i = Some um'"
proof (induction k arbitrary: path x um i)
  case (Suc k)
  let ?m = "ci_master (inst_of db i)"
  let ?x = "dbTransform_concat (dbChipInst_getTransform (inst_of db i)) x"
  show ?case
  proof (cases "chip_type (chip_of db ?m) = HIER")
    case True
    have "\<exists>u. buildUnfoldedChip k db (path @ [i]) ?x v j = Some u"
      if "j \<in> set (chip_insts (chip_of db ?m))" for v j
    proof (rule Suc.IH)
      obtain x where m: "dbTable_getPtr (chip_tbl db) ?m = Some x" using Suc.prems(1) by blast
      then have x: "chip_of db ?m = x" by (simp add: deref_def)
      have "dbTable_getPtr (chip_tbl db) (ci_master (inst_of db j)) \<noteq> None \<and> rk (ci_master (inst_of db j)) < rk ?m"
        using assms m that True unfolding hier_ranked_def x by blast
      with Suc.prems(2) show "dbTable_getPtr (chip_tbl db) (ci_master (inst_of db j)) \<noteq> None"
        "rk (ci_master (inst_of db j)) < k" by simp_all
    qed
    then obtain u where "foldM (buildUnfoldedChip k db (path @ [i]) ?x) um (chip_insts (chip_of db ?m)) = Some u"
      using foldM_total [of "chip_insts (chip_of db ?m)"] by metis
    with True show ?thesis by (simp add: Let_def)
  next
    case False
    then show ?thesis by (simp add: Let_def)
  qed
qed simp

lemma mk_UnfoldedModel_total:
  assumes "hier_ranked db rk" and "\<forall>i\<in>set (chip_insts (chip_of db chip)).
      dbTable_getPtr (chip_tbl db) (ci_master (inst_of db i)) \<noteq> None \<and> rk (ci_master (inst_of db i)) < k"
  shows "\<exists>um. mk_UnfoldedModel k db chip = Some um"
proof -
  obtain u where
    "foldM (buildUnfoldedChip k db [] dbTransform_default) empty_model (chip_insts (chip_of db chip)) = Some u"
    using foldM_total [of "chip_insts (chip_of db chip)" "buildUnfoldedChip k db [] dbTransform_default" empty_model]
      build_total [OF assms(1)] assms(2) by meson
  then show ?thesis by (simp add: mk_UnfoldedModel_def)
qed

text \<open>
  A hierarchical chip whose list holds an instance of itself is never unfolded, whatever the fuel: the
  recursion of the code does not end.
\<close>

lemma build_cycle:
  assumes "\<And>i. i \<in> I \<Longrightarrow> chip_type (chip_of db (ci_master (inst_of db i))) = HIER \<and>
      (\<exists>j\<in>I. j \<in> set (chip_insts (chip_of db (ci_master (inst_of db i)))))"
  shows "i \<in> I \<Longrightarrow> buildUnfoldedChip k db path x um i = None"
proof (induction k arbitrary: path x um i)
  case (Suc k)
  from assms [OF Suc.prems] obtain j where h: "chip_type (chip_of db (ci_master (inst_of db i))) = HIER"
    and j: "j \<in> I" "j \<in> set (chip_insts (chip_of db (ci_master (inst_of db i))))" by blast
  have "foldM (buildUnfoldedChip k db (path @ [i])
      (dbTransform_concat (dbChipInst_getTransform (inst_of db i)) x)) um
      (chip_insts (chip_of db (ci_master (inst_of db i)))) = None"
    by (rule foldM_None [OF j(2)]) (rule Suc.IH [OF j(1)])
  with h show ?case by (simp add: Let_def)
qed simp

section \<open>Faces\<close>

text \<open>
  The outward face of a region on the front or the back of its chip stays its face: the z the model
  computes with after mirroring the side is the image of the master's face.
\<close>

lemma unfoldBumps_fields [simp]:
  "ur_cuboid (unfoldBumps db r t) = ur_cuboid r"
  "ur_effective_side (unfoldBumps db r t) = ur_effective_side r"
  "ur_region_inst (unfoldBumps db r t) = ur_region_inst r"
  "ur_isUsed (unfoldBumps db r t) = ur_isUsed r"
proof -
  let ?f = "\<lambda>z r bump_inst. (case dbChipBump_getInst db (dbChipBumpInst_getChipBump db bump_inst) of
      None \<Rightarrow> r
    | Some location \<Rightarrow> (let global_xy = dbTransform_apply_Point t location
         in r\<lparr>ur_bumps := ur_bumps r @ [\<lparr>ub_bump_inst = bump_inst, ub_parent_region = None,
              ub_global_position = Point3D (px global_xy) (py global_xy) z\<rparr>]\<rparr>))"
  have "ur_cuboid (foldl (?f z) r bs) = ur_cuboid r \<and>
      ur_effective_side (foldl (?f z) r bs) = ur_effective_side r \<and>
      ur_region_inst (foldl (?f z) r bs) = ur_region_inst r \<and>
      ur_isUsed (foldl (?f z) r bs) = ur_isUsed r" for z bs
    by (induction bs arbitrary: r) (auto simp: Let_def split: option.splits)
  then show "ur_cuboid (unfoldBumps db r t) = ur_cuboid r"
    "ur_effective_side (unfoldBumps db r t) = ur_effective_side r"
    "ur_region_inst (unfoldBumps db r t) = ur_region_inst r"
    "ur_isUsed (unfoldBumps db r t) = ur_isUsed r"
    by (simp_all add: unfoldBumps_def Let_def)
qed

definition z_apply :: "dbTransform \<Rightarrow> int \<Rightarrow> int" where
  "z_apply t z = p3z (dbTransform_apply t (Point3D 0 0 z))"

definition face_z :: "dbChipRegion \<Rightarrow> int" where
  "face_z g = (if rgn_side g = Side.FRONT then max (rgn_z_min g) (rgn_z_max g)
               else min (rgn_z_min g) (rgn_z_max g))"

lemma unfoldRegion_surface:
  assumes "rgn_side (dbChipRegionInst_getChipRegion db r) \<in> {Side.FRONT, Side.BACK}"
  shows "UR_getSurfaceZ (unfoldRegion db t r) = z_apply t (face_z (dbChipRegionInst_getChipRegion db r))"
proof -
  let ?g = "dbChipRegionInst_getChipRegion db r"
  have z: "cub_zlo (dbTransform_apply_Cuboid t (dbChipRegion_getCuboid ?g)) =
      min (z_apply t (rgn_z_min ?g)) (z_apply t (rgn_z_max ?g))"
    "cub_zhi (dbTransform_apply_Cuboid t (dbChipRegion_getCuboid ?g)) =
      max (z_apply t (rgn_z_min ?g)) (z_apply t (rgn_z_max ?g))"
    by (auto simp: dbTransform_apply_Cuboid_def Cuboid_init_def dbChipRegion_getCuboid_def mk_Cuboid_def
        Cuboid_lll_def Cuboid_uur_def z_apply_def dbTransform_apply_def Let_def min_def max_def)
  have m: "z_apply t z = (if tr_mirror_z t then - z else z) + p3z (tr_offset t)" for z
    by (simp add: z_apply_def dbTransform_apply_def Let_def)
  from assms show ?thesis
    by (auto simp: unfoldRegion_def Let_def UR_getSurfaceZ_def UR_isTop_def UR_isBottom_def z m
        mirrorSide_def face_z_def min_def max_def)
qed

end
