(* ===== verification/UnfoldedPointers.thy ===== *)
theory UnfoldedPointers
  imports UnfoldedModel
begin

text \<open>
  The pointers inside an unfolded model. The invariant \<open>um_ok\<close> says that every map, parent pointer,
  connection and net of the model refers to a chip, region or bump that is there and is the one it
  should be, and that exactly the external internal regions some connection uses are flagged. Every
  step of the construction keeps it, so the constructor establishes it.
\<close>

section \<open>The invariant\<close>

definition region_ok :: "UnfoldedChip list \<Rightarrow> region_ptr \<Rightarrow> bool" where
  "region_ok cs p \<longleftrightarrow> fst p < length cs \<and> snd p < length (uc_regions (cs ! fst p))"

definition region_in :: "UnfoldedChip list \<Rightarrow> region_ptr \<Rightarrow> UnfoldedRegion" where
  "region_in cs p = uc_regions (cs ! fst p) ! snd p"

definition bump_ok :: "UnfoldedChip list \<Rightarrow> bump_ptr \<Rightarrow> bool" where
  "bump_ok cs = (\<lambda>(c, j, k). region_ok cs (c, j) \<and> k < length (ur_bumps (region_in cs (c, j))))"

definition bump_in :: "UnfoldedChip list \<Rightarrow> bump_ptr \<Rightarrow> UnfoldedBump" where
  "bump_in cs = (\<lambda>(c, j, k). ur_bumps (region_in cs (c, j)) ! k)"

definition chip_ok :: "nat \<Rightarrow> UnfoldedChip \<Rightarrow> bool" where
  "chip_ok c chip \<longleftrightarrow>
     (\<forall>i j. uc_region_map chip i = Some j \<longrightarrow>
        j < length (uc_regions chip) \<and> ur_region_inst (uc_regions chip ! j) = i) \<and>
     (\<forall>j < length (uc_regions chip). ur_parent_chip (uc_regions chip ! j) = Some c \<and>
        (\<forall>b\<in>set (ur_bumps (uc_regions chip ! j)). ub_parent_region b = Some (c, j)))"

definition chips_ok :: "UnfoldedChip list \<Rightarrow> bool" where
  "chips_ok cs \<longleftrightarrow> (\<forall>c < length cs. chip_ok c (cs ! c))"

definition path_map_ok :: "UnfoldedChip list \<Rightarrow> (nat list \<rightharpoonup> nat) \<Rightarrow> bool" where
  "path_map_ok cs pm \<longleftrightarrow>
     (\<forall>p c. pm p = Some c \<longrightarrow> c < length cs \<and> uc_chip_inst_path (cs ! c) = p) \<and>
     (\<forall>c < length cs. pm (uc_chip_inst_path (cs ! c)) \<noteq> None)"

definition bump_map_ok :: "UnfoldedChip list \<Rightarrow> (nat \<times> nat list \<rightharpoonup> bump_ptr) \<Rightarrow> bool" where
  "bump_map_ok cs bm \<longleftrightarrow> (\<forall>b p q. bm (b, p) = Some q \<longrightarrow>
     bump_ok cs q \<and> ub_bump_inst (bump_in cs q) = b \<and> uc_chip_inst_path (cs ! fst q) = p)"

definition refers :: "UnfoldedChip list \<Rightarrow> region_ptr option \<Rightarrow> nat \<Rightarrow> bool" where
  "refers cs p r = (case p of None \<Rightarrow> True | Some p \<Rightarrow> region_ok cs p \<and> ur_region_inst (region_in cs p) = r)"

definition conn_ok :: "dbDatabase \<Rightarrow> UnfoldedChip list \<Rightarrow> UnfoldedConnection \<Rightarrow> bool" where
  "conn_ok db cs k \<longleftrightarrow>
     refers cs (ucn_top_region k) (cc_top_region (conn_of db (ucn_connection k))) \<and>
     refers cs (ucn_bottom_region k) (cc_bottom_region (conn_of db (ucn_connection k))) \<and>
     (ucn_top_region k \<noteq> None \<or> ucn_bottom_region k \<noteq> None)"

definition net_ok :: "dbDatabase \<Rightarrow> UnfoldedChip list \<Rightarrow> UnfoldedNet \<Rightarrow> bool" where
  "net_ok db cs n \<longleftrightarrow> (\<forall>q\<in>set (un_connected_bumps n). bump_ok cs q \<and>
     ub_bump_inst (bump_in cs q) \<in> snd ` set (cn_bump_insts (net_of db (un_chip_net n))))"

definition used_ok :: "UnfoldedChip list \<Rightarrow> UnfoldedConnection list \<Rightarrow> bool" where
  "used_ok cs ks \<longleftrightarrow> (\<forall>p. region_ok cs p \<longrightarrow>
     (ur_isUsed (region_in cs p) \<longleftrightarrow> UR_isInternalExt (region_in cs p) \<and>
        (\<exists>k\<in>set ks. ucn_top_region k = Some p \<or> ucn_bottom_region k = Some p)))"

definition um_ok :: "dbDatabase \<Rightarrow> UnfoldedModel \<Rightarrow> bool" where
  "um_ok db um \<longleftrightarrow> chips_ok (erased um) \<and> path_map_ok (erased um) (um_chip_path_map um) \<and>
     bump_map_ok (erased um) (um_bump_inst_map um) \<and>
     (\<forall>k\<in>set (um_connections um). conn_ok db (erased um) k) \<and>
     (\<forall>n\<in>set (um_nets um). net_ok db (erased um) n) \<and>
     used_ok (um_chips um) (um_connections um)"

section \<open>Erasing the flags\<close>

lemma erase_fields [simp]:
  "uc_chip_inst_path (erase_chip c) = uc_chip_inst_path c" "uc_region_map (erase_chip c) = uc_region_map c"
  "uc_cuboid (erase_chip c) = uc_cuboid c" "uc_transform (erase_chip c) = uc_transform c"
  "uc_name (erase_chip c) = uc_name c" "length (uc_regions (erase_chip c)) = length (uc_regions c)"
  by (simp_all add: erase_chip_def)

lemma region_ok_erased [simp]: "region_ok (map erase_chip cs) p = region_ok cs p"
  by (auto simp: region_ok_def)

lemma region_in_erased:
  "region_ok cs p \<Longrightarrow> region_in (map erase_chip cs) p = (region_in cs p)\<lparr>ur_isUsed := False\<rparr>"
  by (simp add: region_ok_def region_in_def erase_chip_def)

lemma path_map_ok_erased [simp]: "path_map_ok (map erase_chip cs) pm = path_map_ok cs pm"
  by (simp add: path_map_ok_def cong: conj_cong)

lemma region_at_in: "region_at um = region_in (um_chips um)"
  by (rule ext) (simp add: region_at_def region_in_def)

section \<open>Appending a chip\<close>

lemma region_ok_append: "region_ok cs p \<Longrightarrow> region_ok (cs @ ds) p \<and> region_in (cs @ ds) p = region_in cs p"
  by (simp add: region_ok_def region_in_def nth_append)

lemma bump_ok_append: "bump_ok cs q \<Longrightarrow> bump_ok (cs @ ds) q \<and> bump_in (cs @ ds) q = bump_in cs q"
  by (cases q) (auto simp: bump_ok_def bump_in_def region_ok_append)

lemma conn_ok_append: "conn_ok db cs k \<Longrightarrow> conn_ok db (cs @ ds) k"
  by (auto simp: conn_ok_def refers_def region_ok_append split: option.splits)

lemma net_ok_append: "net_ok db cs n \<Longrightarrow> net_ok db (cs @ ds) n"
  by (auto simp: net_ok_def bump_ok_append)

lemma foldl_enumerate_map:
  "foldl (\<lambda>m (j, r). m(f r \<mapsto> g j)) m (enumerate n rs) x = Some y \<Longrightarrow>
     m x = Some y \<or> (\<exists>j < length rs. f (rs ! j) = x \<and> y = g (n + j))"
proof (induction rs arbitrary: m n)
  case (Cons r rs)
  from Cons.IH [of "m(f r \<mapsto> g n)" "Suc n"] Cons.prems
  have "(m(f r \<mapsto> g n)) x = Some y \<or> (\<exists>j < length rs. f (rs ! j) = x \<and> y = g (Suc n + j))" by simp
  then show ?case
  proof
    assume "(m(f r \<mapsto> g n)) x = Some y"
    then show ?thesis by (auto split: if_splits intro: exI [of _ 0])
  next
    assume "\<exists>j < length rs. f (rs ! j) = x \<and> y = g (Suc n + j)"
    then obtain j where "j < length rs" "f (rs ! j) = x" "y = g (Suc n + j)" by blast
    then show ?thesis by (intro disjI2 exI [of _ "Suc j"]) simp
  qed
qed simp

lemma foldl_foldl_enumerate_map:
  "foldl (\<lambda>m (j, r). foldl (\<lambda>m (k, b). m(f b \<mapsto> g j k)) m (enumerate 0 (h r))) m (enumerate n rs) x = Some y \<Longrightarrow>
     m x = Some y \<or> (\<exists>j < length rs. \<exists>k < length (h (rs ! j)). f (h (rs ! j) ! k) = x \<and> y = g (n + j) k)"
proof (induction rs arbitrary: m n)
  case (Cons r rs)
  let ?m = "foldl (\<lambda>m (k, b). m(f b \<mapsto> g n k)) m (enumerate 0 (h r))"
  from Cons.IH [of ?m "Suc n"] Cons.prems
  have "?m x = Some y \<or> (\<exists>j < length rs. \<exists>k < length (h (rs ! j)). f (h (rs ! j) ! k) = x \<and> y = g (Suc n + j) k)"
    by (simp only: enumerate_simps foldl_Cons prod.case)
  then show ?case
  proof
    assume "?m x = Some y"
    from foldl_enumerate_map [OF this] show ?thesis by fastforce
  next
    assume "\<exists>j < length rs. \<exists>k < length (h (rs ! j)). f (h (rs ! j) ! k) = x \<and> y = g (Suc n + j) k"
    then obtain j k where "j < length rs" "k < length (h (rs ! j))" "f (h (rs ! j) ! k) = x" "y = g (Suc n + j) k"
      by blast
    then show ?thesis by (intro disjI2 exI [of _ "Suc j"]) auto
  qed
qed simp

lemma unfoldRegions_keeps [simp]:
  "uc_chip_inst_path (unfoldRegions db c i) = uc_chip_inst_path c"
  "uc_region_map (unfoldRegions db c i) = uc_region_map c"
  "uc_transform (unfoldRegions db c i) = uc_transform c"
  "uc_cuboid (unfoldRegions db c i) = uc_cuboid c"
  "uc_regions (unfoldRegions db c i) =
     uc_regions c @ map (unfoldRegion db (uc_transform c)) (ci_region_insts (inst_of db i))"
proof -
  let ?f = "\<lambda>c r. c\<lparr>uc_regions := uc_regions c @ [unfoldRegion db (uc_transform c) r]\<rparr>"
  have "uc_chip_inst_path (foldl ?f c rs) = uc_chip_inst_path c \<and>
      uc_region_map (foldl ?f c rs) = uc_region_map c \<and> uc_transform (foldl ?f c rs) = uc_transform c \<and>
      uc_cuboid (foldl ?f c rs) = uc_cuboid c \<and>
      uc_regions (foldl ?f c rs) = uc_regions c @ map (unfoldRegion db (uc_transform c)) rs" for rs
    by (induction rs arbitrary: c) simp_all
  then show "uc_chip_inst_path (unfoldRegions db c i) = uc_chip_inst_path c"
    "uc_region_map (unfoldRegions db c i) = uc_region_map c"
    "uc_transform (unfoldRegions db c i) = uc_transform c"
    "uc_cuboid (unfoldRegions db c i) = uc_cuboid c"
    "uc_regions (unfoldRegions db c i) =
       uc_regions c @ map (unfoldRegion db (uc_transform c)) (ci_region_insts (inst_of db i))"
    by (simp_all add: unfoldRegions_def)
qed

lemma leaf_chip_fields [simp]:
  "uc_chip_inst_path (leaf_chip db i path x) = path" "uc_region_map (leaf_chip db i path x) = Map.empty"
  "uc_transform (leaf_chip db i path x) = x"
  "uc_cuboid (leaf_chip db i path x) = dbTransform_apply_Cuboid x (dbChip_getCuboid (dbChipInst_getMasterChip db i))"
  "uc_regions (leaf_chip db i path x) = map (unfoldRegion db x) (ci_region_insts (inst_of db i))"
  by (simp_all add: leaf_chip_def)

lemma registered_fields [simp]:
  "uc_chip_inst_path (registered_chip c chip) = uc_chip_inst_path chip"
  "uc_transform (registered_chip c chip) = uc_transform chip"
  "uc_cuboid (registered_chip c chip) = uc_cuboid chip"
  "length (uc_regions (registered_chip c chip)) = length (uc_regions chip)"
  "j < length (uc_regions chip) \<Longrightarrow> uc_regions (registered_chip c chip) ! j = set_parents c j (uc_regions chip ! j)"
  by (simp_all add: registered_chip_def nth_enumerate_eq)

lemma set_parents_fields [simp]:
  "ur_region_inst (set_parents c j r) = ur_region_inst r" "ur_isUsed (set_parents c j r) = ur_isUsed r"
  "ur_effective_side (set_parents c j r) = ur_effective_side r" "ur_cuboid (set_parents c j r) = ur_cuboid r"
  "length (ur_bumps (set_parents c j r)) = length (ur_bumps r)"
  "k < length (ur_bumps r) \<Longrightarrow> ub_bump_inst (ur_bumps (set_parents c j r) ! k) = ub_bump_inst (ur_bumps r ! k)"
  by (simp_all add: set_parents_def)

lemma unfoldRegion_unused [simp]: "\<not> ur_isUsed (unfoldRegion db x r)" "ur_region_inst (unfoldRegion db x r) = r"
  by (simp_all add: unfoldRegion_def Let_def)

lemma registered_leaf_ok: "chip_ok c (erase_chip (registered_chip c (leaf_chip db i path x)))"
proof -
  let ?l = "leaf_chip db i path x"
  have "j < length (uc_regions ?l) \<and> ur_region_inst (uc_regions ?l ! j) = r"
    if "uc_region_map (registered_chip c ?l) r = Some j" for r j
    using foldl_enumerate_map [where f = ur_region_inst and g = "\<lambda>j. j" and n = 0] that
    by (force simp: registered_chip_def)
  then have "j < length (ci_region_insts (inst_of db i)) \<and> ci_region_insts (inst_of db i) ! j = r"
    if "uc_region_map (registered_chip c ?l) r = Some j" for r j
    using that by fastforce
  then show ?thesis
    by (auto simp: chip_ok_def erase_chip_def set_parents_def)
qed

lemma chips_ok_append: "chips_ok cs \<Longrightarrow> chip_ok (length cs) c \<Longrightarrow> chips_ok (cs @ [c])"
  by (auto simp: chips_ok_def nth_append less_Suc_eq)

lemma register_maps:
  fixes um chip
  defines "um' \<equiv> registerUnfoldedChip (um\<lparr>um_chips := um_chips um @ [chip]\<rparr>) (length (um_chips um))"
  shows "um_chip_path_map um' = (um_chip_path_map um)(uc_chip_inst_path chip \<mapsto> length (um_chips um))"
    and "um_connections um' = um_connections um" and "um_nets um' = um_nets um"
    and "um_bump_inst_map um' (b, p) = Some q \<Longrightarrow> um_bump_inst_map um (b, p) = Some q \<or>
      (\<exists>j < length (uc_regions chip). \<exists>k < length (ur_bumps (uc_regions chip ! j)).
         ub_bump_inst (ur_bumps (uc_regions chip ! j) ! k) = b \<and> uc_chip_inst_path chip = p \<and>
         q = (length (um_chips um), j, k))"
proof -
  let ?n = "length (um_chips um)"
  show "um_chip_path_map um' = (um_chip_path_map um)(uc_chip_inst_path chip \<mapsto> ?n)"
    "um_connections um' = um_connections um" "um_nets um' = um_nets um"
    by (simp_all add: um'_def registerUnfoldedChip_def Let_def)
  assume "um_bump_inst_map um' (b, p) = Some q"
  then have "foldl (\<lambda>m (j, r). foldl (\<lambda>m (k, b). m((ub_bump_inst b, uc_chip_inst_path chip) \<mapsto> (?n, j, k))) m
      (enumerate 0 (ur_bumps r))) (um_bump_inst_map um) (enumerate 0 (uc_regions chip)) (b, p) = Some q"
    by (simp add: um'_def registerUnfoldedChip_def Let_def)
  from foldl_foldl_enumerate_map [OF this] show "um_bump_inst_map um (b, p) = Some q \<or>
      (\<exists>j < length (uc_regions chip). \<exists>k < length (ur_bumps (uc_regions chip ! j)).
         ub_bump_inst (ur_bumps (uc_regions chip ! j) ! k) = b \<and> uc_chip_inst_path chip = p \<and> q = (?n, j, k))"
    by auto
qed

lemma register_ok:
  assumes ok: "um_ok db um"
  shows "um_ok db (registerUnfoldedChip (um\<lparr>um_chips := um_chips um @ [leaf_chip db i path x]\<rparr>) (length (um_chips um)))"
proof -
  let ?l = "leaf_chip db i path x" and ?n = "length (um_chips um)"
  define um' where "um' = registerUnfoldedChip (um\<lparr>um_chips := um_chips um @ [?l]\<rparr>) ?n"
  let ?c = "registered_chip ?n ?l"
  have ch: "um_chips um' = um_chips um @ [?c]" by (simp add: um'_def register_chips)
  then have er: "erased um' = erased um @ [erase_chip ?c]" by simp
  note maps = register_maps [of um ?l, folded um'_def]
  have "chips_ok (erased um')"
    using ok registered_leaf_ok [of ?n db i path x] unfolding er um_ok_def
    by (intro chips_ok_append) simp_all
  moreover have "path_map_ok (erased um') (um_chip_path_map um')"
  proof -
    have "path_map_ok (um_chips um) (um_chip_path_map um)" using ok by (simp add: um_ok_def)
    then show ?thesis unfolding path_map_ok_erased ch maps(1) path_map_ok_def
      by (auto simp: nth_append less_Suc_eq split: if_splits)
  qed
  moreover have "bump_map_ok (erased um') (um_bump_inst_map um')"
    unfolding bump_map_ok_def er
  proof (intro allI impI)
    fix b p q
    assume "um_bump_inst_map um' (b, p) = Some q"
    from maps(4) [OF this] show "bump_ok (erased um @ [erase_chip ?c]) q \<and>
        ub_bump_inst (bump_in (erased um @ [erase_chip ?c]) q) = b \<and>
        uc_chip_inst_path ((erased um @ [erase_chip ?c]) ! fst q) = p"
    proof
      assume "um_bump_inst_map um (b, p) = Some q"
      then have old: "bump_ok (erased um) q" "ub_bump_inst (bump_in (erased um) q) = b"
        "uc_chip_inst_path (erased um ! fst q) = p" using ok unfolding um_ok_def bump_map_ok_def by blast+
      then have "fst q < length (erased um)" by (cases q) (simp add: bump_ok_def region_ok_def)
      with old show ?thesis by (simp add: bump_ok_append nth_append del: length_map)
    qed (auto simp: bump_ok_def bump_in_def region_ok_def region_in_def nth_append erase_chip_def)
  qed
  moreover have "\<forall>k\<in>set (um_connections um'). conn_ok db (erased um') k"
    "\<forall>n\<in>set (um_nets um'). net_ok db (erased um') n"
    using ok unfolding er maps(2,3) um_ok_def by (auto intro: conn_ok_append net_ok_append)
  moreover have "used_ok (um_chips um') (um_connections um')"
  proof -
    have "\<not> (ucn_top_region k = Some (?n, j) \<or> ucn_bottom_region k = Some (?n, j))"
      if "k \<in> set (um_connections um)" for k j
      using ok that by (force simp: um_ok_def conn_ok_def refers_def region_ok_def split: option.splits)
    then show ?thesis
      using ok unfolding ch maps(2) um_ok_def used_ok_def
      by (auto simp: region_ok_def region_in_def nth_append less_Suc_eq split: if_splits)
  qed
  ultimately show ?thesis unfolding um'_def [symmetric] um_ok_def by blast
qed

section \<open>Connections\<close>

lemma find_refers:
  assumes ok: "um_ok db um"
  shows "refers (um_chips um) (findUnfoldedRegion um (findUnfoldedChip um path) r) r"
proof (cases "findUnfoldedRegion um (findUnfoldedChip um path) r")
  case None
  then show ?thesis by (simp add: refers_def)
next
  case (Some q)
  then obtain c j where c: "um_chip_path_map um path = Some c"
    and j: "uc_region_map (um_chips um ! c) r = Some j" and q: "q = (c, j)"
    by (auto simp: findUnfoldedRegion_def findUnfoldedChip_def split: option.splits if_splits)
  have "path_map_ok (um_chips um) (um_chip_path_map um)" using ok by (simp add: um_ok_def)
  with c have len: "c < length (um_chips um)" by (auto simp: path_map_ok_def)
  then have "chip_ok c (erase_chip (um_chips um ! c))" using ok by (simp add: um_ok_def chips_ok_def)
  with j have "j < length (uc_regions (um_chips um ! c)) \<and>
      ur_region_inst (uc_regions (erase_chip (um_chips um ! c)) ! j) = r"
    unfolding chip_ok_def by simp
  with len Some q show ?thesis
    by (auto simp: refers_def region_ok_def region_in_def erase_chip_def)
qed

lemma refers_erased: "refers (map erase_chip cs) p r = refers cs p r"
  by (auto simp: refers_def region_in_erased split: option.splits)

lemma mark_used_region:
  assumes "\<And>q. p = Some q \<Longrightarrow> region_ok (um_chips um) q" and "region_ok (um_chips um) q"
  shows "region_ok (um_chips (mark_used um p)) q"
    and "region_in (um_chips (mark_used um p)) q =
      (if p = Some q \<and> UR_isInternalExt (region_in (um_chips um) q)
       then (region_in (um_chips um) q)\<lparr>ur_isUsed := True\<rparr> else region_in (um_chips um) q)"
proof -
  show "region_ok (um_chips (mark_used um p)) q"
    using assms(2) region_ok_erased mark_used_erased by metis
  show "region_in (um_chips (mark_used um p)) q =
      (if p = Some q \<and> UR_isInternalExt (region_in (um_chips um) q)
       then (region_in (um_chips um) q)\<lparr>ur_isUsed := True\<rparr> else region_in (um_chips um) q)"
  proof (cases p)
    case (Some s)
    with assms show ?thesis
      by (cases s; cases q)
         (auto simp: mark_used_def update_region_def region_at_in region_in_def region_ok_def
           nth_list_update Let_def)
  qed (simp add: mark_used_def)
qed

lemma mark_used_other [simp]:
  "um_connections (mark_used um p) = um_connections um" "um_nets (mark_used um p) = um_nets um"
  "um_chip_path_map (mark_used um p) = um_chip_path_map um"
  "um_bump_inst_map (mark_used um p) = um_bump_inst_map um"
  by (simp_all add: mark_used_def update_region_def Let_def split: option.splits)

lemma used_ok_mark:
  assumes used: "used_ok (um_chips um) ks"
    and p: "\<And>q. p = Some q \<Longrightarrow> region_ok (um_chips um) q" and p': "\<And>q. p' = Some q \<Longrightarrow> region_ok (um_chips um) q"
  shows "used_ok (um_chips (mark_used (mark_used um p) p'))
    (ks @ [\<lparr>ucn_connection = n, ucn_top_region = p, ucn_bottom_region = p'\<rparr>])"
  unfolding used_ok_def
proof (intro allI impI)
  fix q
  assume "region_ok (um_chips (mark_used (mark_used um p) p')) q"
  then have q: "region_ok (um_chips um) q" by (metis mark_used_erased region_ok_erased)
  have ok1: "region_ok (um_chips (mark_used um p)) s" if "region_ok (um_chips um) s" for s
    by (rule mark_used_region(1) [OF p that])
  have ok2: "region_ok (um_chips (mark_used um p)) s" if "p' = Some s" for s
    using p' [OF that] by (rule ok1)
  have two: "region_in (um_chips (mark_used (mark_used um p) p')) q =
      (if p' = Some q \<and> UR_isInternalExt (region_in (um_chips (mark_used um p)) q)
       then (region_in (um_chips (mark_used um p)) q)\<lparr>ur_isUsed := True\<rparr>
       else region_in (um_chips (mark_used um p)) q)"
    by (rule mark_used_region(2)) (auto intro: ok1 [OF q] ok2)
  have one: "region_in (um_chips (mark_used um p)) q =
      (if p = Some q \<and> UR_isInternalExt (region_in (um_chips um) q)
       then (region_in (um_chips um) q)\<lparr>ur_isUsed := True\<rparr> else region_in (um_chips um) q)"
    by (rule mark_used_region(2)) (auto intro: p q)
  have zero: "ur_isUsed (region_in (um_chips um) q) \<longleftrightarrow> UR_isInternalExt (region_in (um_chips um) q) \<and>
      (\<exists>k\<in>set ks. ucn_top_region k = Some q \<or> ucn_bottom_region k = Some q)"
    using used q unfolding used_ok_def by blast
  have ext [simp]: "UR_isInternalExt (r\<lparr>ur_isUsed := True\<rparr>) = UR_isInternalExt r" for r
    by (simp add: UR_isInternalExt_def)
  show "ur_isUsed (region_in (um_chips (mark_used (mark_used um p) p')) q) \<longleftrightarrow>
      UR_isInternalExt (region_in (um_chips (mark_used (mark_used um p) p')) q) \<and>
      (\<exists>k\<in>set (ks @ [\<lparr>ucn_connection = n, ucn_top_region = p, ucn_bottom_region = p'\<rparr>]).
         ucn_top_region k = Some q \<or> ucn_bottom_region k = Some q)"
    unfolding two one by (cases "UR_isInternalExt (region_in (um_chips um) q)") (auto simp: zero)
qed

lemma unfoldConnection_ok:
  assumes ok: "um_ok db um"
  shows "um_ok db (unfoldConnection db path um k)"
proof -
  let ?t = "findUnfoldedRegion um (findUnfoldedChip um (concatPath path (cc_top_path (conn_of db k))))
      (cc_top_region (conn_of db k))"
  let ?b = "findUnfoldedRegion um (findUnfoldedChip um (concatPath path (cc_bottom_path (conn_of db k))))
      (cc_bottom_region (conn_of db k))"
  show ?thesis
  proof (cases "?t \<noteq> None \<or> ?b \<noteq> None")
    case True
    let ?k = "\<lparr>ucn_connection = k, ucn_top_region = ?t, ucn_bottom_region = ?b\<rparr>"
    have r: "refers (um_chips um) ?t (cc_top_region (conn_of db k))"
      "refers (um_chips um) ?b (cc_bottom_region (conn_of db k))" by (rule find_refers [OF ok])+
    then have "conn_ok db (erased um) ?k" using True by (simp add: conn_ok_def refers_erased)
    moreover have "used_ok (um_chips (mark_used (mark_used um ?t) ?b)) (um_connections um @ [?k])"
      using ok r by (intro used_ok_mark) (auto simp: um_ok_def refers_def)
    ultimately show ?thesis using ok True by (auto simp: unfoldConnection_def Let_def um_ok_def)
  next
    case False
    then show ?thesis using ok by (simp add: unfoldConnection_def Let_def)
  qed
qed

lemma unfoldConnections_ok: "um_ok db um \<Longrightarrow> um_ok db (unfoldConnections db um chip path)"
proof -
  have "um_ok db um \<Longrightarrow> um_ok db (foldl (unfoldConnection db path) um ks)" for ks
    by (induction ks arbitrary: um) (simp_all add: unfoldConnection_ok)
  then show "um_ok db um \<Longrightarrow> ?thesis" by (simp add: unfoldConnections_def)
qed

section \<open>Nets\<close>

lemma unfoldNet_ok:
  assumes ok: "um_ok db um"
  shows "um_ok db (unfoldNet db path um n)"
proof -
  let ?bs = "cn_bump_insts (net_of db n)"
  let ?qs = "List.map_filter (\<lambda>i. um_bump_inst_map um (snd (?bs ! i), concatPath path (fst (?bs ! i))))
      [0..<length ?bs]"
  have "bump_ok (erased um) q \<and> ub_bump_inst (bump_in (erased um) q) \<in> snd ` set ?bs" if "q \<in> set ?qs" for q
  proof -
    from that obtain i where i: "i < length ?bs"
      "um_bump_inst_map um (snd (?bs ! i), concatPath path (fst (?bs ! i))) = Some q"
      by (auto simp: map_filter_def)
    moreover have "bump_map_ok (erased um) (um_bump_inst_map um)" using ok by (simp add: um_ok_def)
    ultimately have "bump_ok (erased um) q" "ub_bump_inst (bump_in (erased um) q) = snd (?bs ! i)"
      unfolding bump_map_ok_def by blast+
    moreover from i(1) have "snd (?bs ! i) \<in> snd ` set ?bs" by simp
    ultimately show ?thesis by simp
  qed
  then have "net_ok db (erased um) \<lparr>un_chip_net = n, un_connected_bumps = ?qs\<rparr>"
    by (simp add: net_ok_def)
  with ok show ?thesis by (auto simp: um_ok_def unfoldNet_def)
qed

lemma unfoldNets_ok: "um_ok db um \<Longrightarrow> um_ok db (unfoldNets db um chip path)"
proof -
  have "um_ok db um \<Longrightarrow> um_ok db (foldl (unfoldNet db path) um ns)" for ns
    by (induction ns arbitrary: um) (simp_all add: unfoldNet_ok)
  then show "um_ok db um \<Longrightarrow> ?thesis" by (simp add: unfoldNets_def)
qed

section \<open>The constructor\<close>

lemma build_ok: "um_ok db um \<Longrightarrow> buildUnfoldedChip k db path x um i = Some um' \<Longrightarrow> um_ok db um'"
proof (induction k arbitrary: path x um i um')
  case (Suc k)
  let ?m = "ci_master (inst_of db i)"
  show ?case
  proof (cases "chip_type (chip_of db ?m) = HIER")
    case True
    with Suc.prems obtain u where
      u: "foldM (buildUnfoldedChip k db (path @ [i]) (dbTransform_concat (dbChipInst_getTransform (inst_of db i)) x))
        um (chip_insts (chip_of db ?m)) = Some u"
      and um': "um' = unfoldNets db (unfoldConnections db u ?m (path @ [i])) ?m (path @ [i])"
      by (auto simp: Let_def bind_eq_Some_conv)
    from u Suc.prems(1) have "um_ok db u" by (rule foldM_inv) (rule Suc.IH)
    then show ?thesis by (simp add: um' unfoldNets_ok unfoldConnections_ok)
  next
    case False
    with Suc.prems register_ok [OF Suc.prems(1)] show ?thesis by (auto simp: Let_def)
  qed
qed simp

lemma empty_model_ok: "um_ok db empty_model"
  by (simp add: um_ok_def empty_model_def chips_ok_def path_map_ok_def bump_map_ok_def used_ok_def region_ok_def)

lemma mk_UnfoldedModel_ok: "mk_UnfoldedModel k db chip = Some um \<Longrightarrow> um_ok db um"
proof -
  assume "mk_UnfoldedModel k db chip = Some um"
  then obtain u where
    u: "foldM (buildUnfoldedChip k db [] dbTransform_default) empty_model (chip_insts (chip_of db chip)) = Some u"
    and um: "um = unfoldNets db (unfoldConnections db u chip []) chip []"
    by (auto simp: mk_UnfoldedModel_def bind_eq_Some_conv)
  from u empty_model_ok have "um_ok db u" by (rule foldM_inv) (rule build_ok)
  then show ?thesis by (simp add: um unfoldNets_ok unfoldConnections_ok)
qed

end
