(* ===== verification/UnionFind.thy ===== *)
theory UnionFind
  imports OdbPrelude
begin

text \<open>
  The union-find of \<^verbatim>\<open>utl/unionFind.cpp\<close>: union by rank, and \<open>find\<close> with full path
  compression, which changes the object while it reads it. \<open>UF_find\<close> recurses along the parents; on
  an arbitrary array it need not end, so it is a partial function whose undefined value also covers
  an index past the end. The invariant \<open>UF_inv\<close> is the one the rank field maintains: ranks grow
  strictly towards the root and a root of rank r has at least 2 to the r members. It gives that every
  call returns, and how deep it recurses.

  Clients use the locale \<open>union_find\<close>: the classes after any sequence of \<open>unite\<close> calls are those of
  the equivalence generated by the united pairs.
\<close>

section \<open>The class\<close>

record UnionFind =
  uf_parent :: "nat list"
  uf_rank :: "nat list"

definition mk_UnionFind :: "nat \<Rightarrow> UnionFind" where
  "mk_UnionFind n = \<lparr>uf_parent = [0..<n], uf_rank = replicate n 0\<rparr>"

partial_function (option) UF_find :: "UnionFind \<Rightarrow> nat \<Rightarrow> (nat \<times> UnionFind) option" where
  "UF_find uf x =
     (if x \<ge> length (uf_parent uf) then None
      else if uf_parent uf ! x \<noteq> x then do {
        (r, uf') \<leftarrow> UF_find uf (uf_parent uf ! x);
        Some (r, uf'\<lparr>uf_parent := (uf_parent uf')[x := r]\<rparr>)
      }
      else Some (uf_parent uf ! x, uf))"

declare UF_find.simps [code]

definition UF_unite :: "UnionFind \<Rightarrow> nat \<Rightarrow> nat \<Rightarrow> UnionFind option" where
  "UF_unite uf x y = do {
     (px, uf) \<leftarrow> UF_find uf x;
     (py, uf) \<leftarrow> UF_find uf y;
     Some (if px = py then uf
           else if uf_rank uf ! px < uf_rank uf ! py then
             uf\<lparr>uf_parent := (uf_parent uf)[px := py]\<rparr>
           else if uf_rank uf ! px > uf_rank uf ! py then
             uf\<lparr>uf_parent := (uf_parent uf)[py := px]\<rparr>
           else
             uf\<lparr>uf_parent := (uf_parent uf)[py := px],
                uf_rank := (uf_rank uf)[px := uf_rank uf ! px + 1]\<rparr>)
   }"

section \<open>Roots\<close>

text \<open>\<open>uf_root p x r k\<close>: from \<open>x\<close> the parents lead to the root \<open>r\<close> in \<open>k\<close> steps.\<close>

inductive uf_root :: "nat list \<Rightarrow> nat \<Rightarrow> nat \<Rightarrow> nat \<Rightarrow> bool" for p where
  root: "x < length p \<Longrightarrow> p ! x = x \<Longrightarrow> uf_root p x x 0"
| step: "x < length p \<Longrightarrow> p ! x \<noteq> x \<Longrightarrow> uf_root p (p ! x) r k \<Longrightarrow> uf_root p x r (Suc k)"

inductive_cases uf_rootE: "uf_root p x r k"

lemma uf_root_range: "uf_root p x r k \<Longrightarrow> x < length p \<and> r < length p \<and> p ! r = r"
  by (induction rule: uf_root.induct) auto

lemma uf_root_unique: "uf_root p x r k \<Longrightarrow> uf_root p x s j \<Longrightarrow> s = r \<and> j = k"
proof (induction arbitrary: s j rule: uf_root.induct)
  case (root x)
  then show ?case by (auto elim: uf_rootE)
next
  case (step x r k)
  from step.prems step.hyps obtain j' where "j = Suc j'" "uf_root p (p ! x) s j'"
    by (auto elim: uf_rootE)
  with step.IH show ?case by blast
qed

definition uf_rooted :: "nat list \<Rightarrow> nat \<Rightarrow> nat \<Rightarrow> bool" where
  "uf_rooted p x r \<longleftrightarrow> (\<exists>k. uf_root p x r k)"

lemma uf_rooted_unique: "uf_rooted p x r \<Longrightarrow> uf_rooted p x s \<Longrightarrow> s = r"
  unfolding uf_rooted_def using uf_root_unique by blast

lemma uf_rooted_range: "uf_rooted p x r \<Longrightarrow> x < length p \<and> r < length p \<and> p ! r = r"
  unfolding uf_rooted_def using uf_root_range by blast

lemma uf_rooted_root: "x < length p \<Longrightarrow> p ! x = x \<Longrightarrow> uf_rooted p x x"
  unfolding uf_rooted_def using uf_root.root by blast

lemma uf_rooted_step: "x < length p \<Longrightarrow> p ! x \<noteq> x \<Longrightarrow> uf_rooted p (p ! x) r \<Longrightarrow> uf_rooted p x r"
  unfolding uf_rooted_def using uf_root.step by blast

lemma uf_rooted_induct [consumes 1, case_names root step]:
  assumes "uf_rooted p x r"
    and "\<And>x. x < length p \<Longrightarrow> p ! x = x \<Longrightarrow> P x x"
    and "\<And>x r. x < length p \<Longrightarrow> p ! x \<noteq> x \<Longrightarrow> uf_rooted p (p ! x) r \<Longrightarrow> P (p ! x) r \<Longrightarrow> P x r"
  shows "P x r"
proof -
  from assms(1) obtain k where "uf_root p x r k" by (auto simp: uf_rooted_def)
  then show ?thesis
  proof (induction rule: uf_root.induct)
    case (step x r k)
    then show ?case using assms(3) [of x r] by (auto simp: uf_rooted_def)
  qed (rule assms(2))
qed

section \<open>Compression and linking\<close>

text \<open>Pointing an element at its root changes no root.\<close>

lemma uf_compress:
  assumes x: "uf_rooted p x r" and y: "uf_rooted p y s"
  shows "uf_rooted (p[x := r]) y s"
  using y
proof (induction rule: uf_rooted_induct)
  case (root y)
  then have "y = x \<Longrightarrow> r = x" using x uf_rooted_unique uf_rooted_root by blast
  with root have "p[x := r] ! y = y" by (cases "y = x") auto
  with root show ?case by (simp add: uf_rooted_root)
next
  case (step y s)
  show ?case
  proof (cases "y = x")
    case True
    with step have "uf_rooted p x s" by (blast intro: uf_rooted_step)
    then have s: "s = r" using x uf_rooted_unique by blast
    from x have r: "r < length p" "p ! r = r" by (auto dest: uf_rooted_range)
    with True step have "r \<noteq> x" by auto
    with r have "uf_rooted (p[x := r]) r r" by (intro uf_rooted_root) auto
    with True step \<open>r \<noteq> x\<close> s show ?thesis using uf_rooted_step [of x "p[x := r]" r] by simp
  next
    case False
    with step show ?thesis using uf_rooted_step [of y "p[x := r]"] by simp
  qed
qed

text \<open>Linking root \<open>a\<close> below root \<open>b\<close> moves the members of \<open>a\<close> to \<open>b\<close> and no others.\<close>

lemma uf_link:
  assumes "uf_rooted p y s" and "a < length p" "b < length p" "p ! a = a" "p ! b = b" "a \<noteq> b"
  shows "uf_rooted (p[a := b]) y (if s = a then b else s)"
  using assms(1)
proof (induction rule: uf_rooted_induct)
  case (root y)
  have b: "uf_rooted (p[a := b]) b b" using assms by (intro uf_rooted_root) auto
  show ?case
  proof (cases "y = a")
    case True
    with b assms show ?thesis using uf_rooted_step [of a "p[a := b]" b] by simp
  next
    case False
    with root show ?thesis by (simp add: uf_rooted_root)
  qed
next
  case (step y s)
  then have "y \<noteq> a" using assms by auto
  with step show ?case using uf_rooted_step [of y "p[a := b]"] by simp
qed

section \<open>The invariant\<close>

definition uf_members :: "nat list \<Rightarrow> nat \<Rightarrow> nat set" where
  "uf_members p r = {y. uf_rooted p y r}"

definition UF_ranked :: "UnionFind \<Rightarrow> bool" where
  "UF_ranked uf \<longleftrightarrow>
     length (uf_rank uf) = length (uf_parent uf) \<and>
     (\<forall>x < length (uf_parent uf). uf_parent uf ! x < length (uf_parent uf) \<and>
        (uf_parent uf ! x \<noteq> x \<longrightarrow> uf_rank uf ! x < uf_rank uf ! (uf_parent uf ! x)))"

definition UF_inv :: "UnionFind \<Rightarrow> bool" where
  "UF_inv uf \<longleftrightarrow> UF_ranked uf \<and>
     (\<forall>r < length (uf_parent uf). uf_parent uf ! r = r \<longrightarrow>
        2 ^ (uf_rank uf ! r) \<le> card (uf_members (uf_parent uf) r))"

lemma uf_members_range: "uf_members p r \<subseteq> {..<length p}"
  by (auto simp: uf_members_def dest: uf_rooted_range)

lemma uf_members_finite [simp]: "finite (uf_members p r)"
  by (rule finite_subset [OF uf_members_range]) simp

lemma UF_ranked_rooted:
  assumes "UF_ranked uf" and "x < length (uf_parent uf)"
  shows "\<exists>r. uf_rooted (uf_parent uf) x r"
proof -
  let ?p = "uf_parent uf" and ?m = "Max (set (uf_rank uf))"
  have len: "length (uf_rank uf) = length ?p"
    and step: "\<And>x. x < length ?p \<Longrightarrow> ?p ! x < length ?p \<and> (?p ! x \<noteq> x \<longrightarrow> uf_rank uf ! x < uf_rank uf ! (?p ! x))"
    using assms(1) by (auto simp: UF_ranked_def)
  have max: "uf_rank uf ! x \<le> ?m" if "x < length ?p" for x
    using that len by simp
  show ?thesis
    using assms(2)
  proof (induction "?m - uf_rank uf ! x" arbitrary: x rule: less_induct)
    case less
    show ?case
    proof (cases "?p ! x = x")
      case True
      with less show ?thesis by (auto intro: uf_rooted_root)
    next
      case False
      with step [OF less.prems] max [of "?p ! x"]
      have "?m - uf_rank uf ! (?p ! x) < ?m - uf_rank uf ! x" by auto
      with less step [OF less.prems] obtain r where "uf_rooted ?p (?p ! x) r" by blast
      with False less.prems show ?thesis by (blast intro: uf_rooted_step)
    qed
  qed
qed

lemma UF_root_depth:
  assumes "UF_ranked uf" and "uf_root (uf_parent uf) x r k"
  shows "k + uf_rank uf ! x \<le> uf_rank uf ! r"
  using assms(2)
  by (induction rule: uf_root.induct) (use assms(1) in \<open>force simp: UF_ranked_def\<close>)+

lemma UF_rank_less:
  "UF_ranked uf \<Longrightarrow> uf_rooted (uf_parent uf) x r \<Longrightarrow> x \<noteq> r \<Longrightarrow> uf_rank uf ! x < uf_rank uf ! r"
proof -
  assume u: "UF_ranked uf" and "uf_rooted (uf_parent uf) x r" and "x \<noteq> r"
  then obtain k where k: "uf_root (uf_parent uf) x r k" "k \<noteq> 0"
    by (auto simp: uf_rooted_def elim: uf_rootE)
  with UF_root_depth [OF u k(1)] show ?thesis by simp
qed

lemma UF_rank_log:
  assumes "UF_inv uf" and "x < length (uf_parent uf)"
  shows "2 ^ (uf_rank uf ! x) \<le> length (uf_parent uf)"
proof -
  let ?p = "uf_parent uf"
  from assms have u: "UF_ranked uf" by (simp add: UF_inv_def)
  then obtain r where r: "uf_rooted ?p x r" using UF_ranked_rooted assms(2) by blast
  then have "uf_rank uf ! x \<le> uf_rank uf ! r" using UF_rank_less [OF u r] by (cases "x = r") auto
  then have "(2::nat) ^ (uf_rank uf ! x) \<le> 2 ^ (uf_rank uf ! r)" by simp
  also have "\<dots> \<le> card (uf_members ?p r)"
    using assms(1) uf_rooted_range [OF r] by (auto simp: UF_inv_def)
  also have "\<dots> \<le> card {..<length ?p}" by (rule card_mono [OF _ uf_members_range]) simp
  finally show ?thesis by simp
qed

section \<open>find\<close>

text \<open>The relation \<open>uf_same_roots\<close>: equal up to compression.\<close>

definition uf_same_roots :: "UnionFind \<Rightarrow> UnionFind \<Rightarrow> bool" where
  "uf_same_roots uf uf' \<longleftrightarrow>
     uf_rank uf' = uf_rank uf \<and> length (uf_parent uf') = length (uf_parent uf) \<and>
     (\<forall>y s. uf_rooted (uf_parent uf') y s \<longleftrightarrow> uf_rooted (uf_parent uf) y s)"

lemma uf_same_roots_rootD: "uf_same_roots uf uf' \<Longrightarrow> r < length (uf_parent uf) \<Longrightarrow>
    uf_parent uf' ! r = r \<longleftrightarrow> uf_parent uf ! r = r"
  unfolding uf_same_roots_def by (metis uf_rooted_range uf_rooted_root)

lemma UF_compress_inv:
  assumes "UF_inv uf" and x: "uf_rooted (uf_parent uf) x r"
  shows "UF_inv (uf\<lparr>uf_parent := (uf_parent uf)[x := r]\<rparr>)"
    and "uf_same_roots uf (uf\<lparr>uf_parent := (uf_parent uf)[x := r]\<rparr>)"
proof -
  let ?p = "uf_parent uf" and ?q = "(uf_parent uf)[x := r]"
  from assms have u: "UF_ranked uf" by (simp add: UF_inv_def)
  have r: "x < length ?p" "r < length ?p" "?p ! r = r" using uf_rooted_range [OF x] by auto
  have same: "uf_rooted ?q y s \<longleftrightarrow> uf_rooted ?p y s" for y s
  proof
    assume q: "uf_rooted ?q y s"
    then have "y < length ?p" by (auto dest: uf_rooted_range)
    then obtain t where t: "uf_rooted ?p y t" using UF_ranked_rooted [OF u] by blast
    then have "uf_rooted ?q y t" by (rule uf_compress [OF x])
    with q t show "uf_rooted ?p y s" using uf_rooted_unique by blast
  qed (rule uf_compress [OF x])
  then show "uf_same_roots uf (uf\<lparr>uf_parent := ?q\<rparr>)" by (simp add: uf_same_roots_def)
  have "uf_members ?q = uf_members ?p" by (rule ext) (simp add: uf_members_def same)
  moreover have "y < length ?p \<Longrightarrow> ?q ! y = y \<Longrightarrow> ?p ! y = y" for y
    using r x by (metis length_list_update same uf_rooted_range uf_rooted_root)
  moreover have "UF_ranked (uf\<lparr>uf_parent := ?q\<rparr>)"
    using u r UF_rank_less [OF u x] by (auto simp: UF_ranked_def nth_list_update)
  ultimately show "UF_inv (uf\<lparr>uf_parent := ?q\<rparr>)"
    using assms(1) by (auto simp: UF_inv_def)
qed

lemma UF_find_correct:
  assumes "UF_inv uf" and "uf_rooted (uf_parent uf) x r"
  shows "\<exists>uf'. UF_find uf x = Some (r, uf') \<and> UF_inv uf' \<and> uf_same_roots uf uf'"
  using assms(2)
proof (induction rule: uf_rooted_induct)
  case (root x)
  then show ?case using assms(1) by (subst UF_find.simps) (auto simp: uf_same_roots_def)
next
  case (step x r)
  then obtain uf' where f: "UF_find uf (uf_parent uf ! x) = Some (r, uf')"
    and u: "UF_inv uf'" "uf_same_roots uf uf'" by blast
  from step have "uf_rooted (uf_parent uf) x r" by (blast intro: uf_rooted_step)
  with u have "uf_rooted (uf_parent uf') x r" by (simp add: uf_same_roots_def)
  note c = UF_compress_inv [OF u(1) this]
  from step f have "UF_find uf x = Some (r, uf'\<lparr>uf_parent := (uf_parent uf')[x := r]\<rparr>)"
    by (subst UF_find.simps) simp
  moreover have "uf_same_roots uf (uf'\<lparr>uf_parent := (uf_parent uf')[x := r]\<rparr>)"
    using u(2) c(2) by (simp add: uf_same_roots_def)
  ultimately show ?case using c(1) by blast
qed

section \<open>unite\<close>

text \<open>
  The representative of an element, computed by climbing: the number of elements bounds the way
  to the root.
\<close>

primrec uf_climb :: "nat list \<Rightarrow> nat \<Rightarrow> nat \<Rightarrow> nat" where
  "uf_climb p 0 x = x"
| "uf_climb p (Suc k) x = uf_climb p k (p ! x)"

definition uf_rep :: "UnionFind \<Rightarrow> nat \<Rightarrow> nat" where
  "uf_rep uf x = uf_climb (uf_parent uf) (length (uf_parent uf)) x"

lemma uf_climb_root: "uf_root p x r k \<Longrightarrow> k \<le> n \<Longrightarrow> uf_climb p n x = r"
proof (induction arbitrary: n rule: uf_root.induct)
  case (root x)
  then show ?case by (induction n) auto
next
  case (step x r k)
  then show ?case by (cases n) auto
qed

lemma uf_rep_iff:
  assumes "UF_inv uf" and "x < length (uf_parent uf)"
  shows "uf_rooted (uf_parent uf) x r \<longleftrightarrow> uf_rep uf x = r"
proof -
  have u: "UF_ranked uf" using assms by (simp add: UF_inv_def)
  then obtain s where s: "uf_rooted (uf_parent uf) x s" using UF_ranked_rooted assms(2) by blast
  then obtain k where k: "uf_root (uf_parent uf) x s k" by (auto simp: uf_rooted_def)
  have "k \<le> uf_rank uf ! s" using UF_root_depth [OF u k] by simp
  also have "uf_rank uf ! s < 2 ^ (uf_rank uf ! s)" by simp
  also have "\<dots> \<le> length (uf_parent uf)"
    using UF_rank_log [OF assms(1)] uf_rooted_range [OF s] by blast
  finally have "uf_rep uf x = s" using uf_climb_root [OF k] by (simp add: uf_rep_def)
  with s show ?thesis using uf_rooted_unique by blast
qed

lemma UF_link_inv:
  assumes u: "UF_inv uf" and a: "a < length (uf_parent uf)" "uf_parent uf ! a = a"
    and b: "b < length (uf_parent uf)" "uf_parent uf ! b = b" and ab: "a \<noteq> b"
    and uf': "uf' = uf\<lparr>uf_parent := (uf_parent uf)[a := b], uf_rank := rk\<rparr>"
    and rk: "rk = uf_rank uf \<and> uf_rank uf ! a < uf_rank uf ! b \<or>
             rk = (uf_rank uf)[b := uf_rank uf ! b + 1] \<and> uf_rank uf ! a = uf_rank uf ! b"
  shows "UF_inv uf'" and "uf_rooted (uf_parent uf) y s \<Longrightarrow> uf_rooted (uf_parent uf') y (if s = a then b else s)"
proof -
  let ?p = "uf_parent uf" and ?q = "(uf_parent uf)[a := b]"
  have r: "UF_ranked uf" using u by (simp add: UF_inv_def)
  show link: "uf_rooted (uf_parent uf') y (if s = a then b else s)" if "uf_rooted ?p y s" for y s
    using uf_link [OF that a(1) b(1) a(2) b(2) ab] by (simp add: uf')
  have len: "length (uf_rank uf) = length ?p" using r by (simp add: UF_ranked_def)
  have mono: "uf_rank uf ! z \<le> rk ! z" and keep: "z \<noteq> b \<Longrightarrow> rk ! z = uf_rank uf ! z"
    and rkab: "rk ! a < rk ! b" if "z < length ?p" for z
    using rk len b ab that by (auto simp: nth_list_update)
  have "?q ! z < length ?p \<and> (?q ! z \<noteq> z \<longrightarrow> rk ! z < rk ! (?q ! z))" if z: "z < length ?p" for z
  proof (cases "z = a")
    case True
    then show ?thesis using a b rkab by simp
  next
    case False
    have "?p ! z < length ?p" "?p ! z \<noteq> z \<Longrightarrow> uf_rank uf ! z < uf_rank uf ! (?p ! z)"
      using r z by (auto simp: UF_ranked_def)
    moreover have "?p ! z \<noteq> z \<Longrightarrow> z \<noteq> b" using b by auto
    ultimately show ?thesis using False keep [OF z] mono [of "?p ! z"] by auto
  qed
  then have ranked: "UF_ranked uf'"
    using len rk by (auto simp: UF_ranked_def uf')
  have sub: "uf_members ?p s \<subseteq> uf_members ?q s" if "s \<noteq> a" for s
    using link [of _ s] that by (auto simp: uf_members_def uf')
  have subab: "uf_members ?p a \<union> uf_members ?p b \<subseteq> uf_members ?q b"
    using link [of _ a] link [of _ b] ab by (auto simp: uf_members_def uf')
  have disj: "uf_members ?p a \<inter> uf_members ?p b = {}"
    using ab by (auto simp: uf_members_def dest: uf_rooted_unique)
  have sz: "2 ^ (uf_rank uf ! s) \<le> card (uf_members ?p s)" if "s < length ?p" "?p ! s = s" for s
    using u that by (auto simp: UF_inv_def)
  have "2 ^ (rk ! s) \<le> card (uf_members ?q s)" if s: "s < length ?p" "?q ! s = s" for s
  proof (cases "s = b")
    case True
    have "card (uf_members ?p a) + card (uf_members ?p b) \<le> card (uf_members ?q b)"
      using card_mono [OF _ subab] disj by (simp add: card_Un_disjoint)
    then show ?thesis using sz [OF a] sz [OF b] rk b len by (auto simp: True)
  next
    case False
    with s ab a have "s \<noteq> a" "?p ! s = s" by (auto simp: nth_list_update split: if_splits)
    with sz [OF s(1)] card_mono [OF _ sub] False rk show ?thesis
      by (metis nth_list_update_neq order_trans uf_members_finite)
  qed
  with ranked show "UF_inv uf'" by (simp add: UF_inv_def uf')
qed

text \<open>
  \<open>UF_united uf uf' x y\<close> is the effect of \<open>unite\<close>: the invariant and the number of elements are
  kept, and the new representatives are the old ones with one of the two renamed to the other.
\<close>

definition UF_united :: "UnionFind \<Rightarrow> UnionFind \<Rightarrow> nat \<Rightarrow> nat \<Rightarrow> bool" where
  "UF_united uf uf' x y \<longleftrightarrow>
     UF_inv uf' \<and> length (uf_parent uf') = length (uf_parent uf) \<and>
     (\<exists>a b. {a, b} = {uf_rep uf x, uf_rep uf y} \<and>
        (\<forall>z < length (uf_parent uf). uf_rep uf' z = (if uf_rep uf z = a then b else uf_rep uf z)))"

lemma UF_unitedI:
  assumes "UF_inv uf'" and "length (uf_parent uf') = length (uf_parent uf)"
    and "{a, b} = {uf_rep uf x, uf_rep uf y}"
    and "\<And>z. z < length (uf_parent uf) \<Longrightarrow>
       uf_rooted (uf_parent uf') z (if uf_rep uf z = a then b else uf_rep uf z)"
  shows "UF_united uf uf' x y"
proof -
  have "uf_rep uf' z = (if uf_rep uf z = a then b else uf_rep uf z)" if "z < length (uf_parent uf)" for z
    using uf_rep_iff [OF assms(1)] that assms(2) assms(4) [OF that] by simp
  with assms show ?thesis unfolding UF_united_def by blast
qed

lemma UF_united_link:
  assumes u: "UF_inv uf" and u2: "UF_inv u2" and same: "uf_same_roots uf u2"
    and x: "x < length (uf_parent uf)" and y: "y < length (uf_parent uf)"
    and ab: "{a, b} = {uf_rep uf x, uf_rep uf y}" "a \<noteq> b"
    and uf': "uf' = u2\<lparr>uf_parent := (uf_parent u2)[a := b], uf_rank := rk\<rparr>"
    and rk: "rk = uf_rank u2 \<and> uf_rank u2 ! a < uf_rank u2 ! b \<or>
        rk = (uf_rank u2)[b := uf_rank u2 ! b + 1] \<and> uf_rank u2 ! a = uf_rank u2 ! b"
  shows "UF_united uf uf' x y"
proof -
  have len: "length (uf_parent u2) = length (uf_parent uf)" using same by (simp add: uf_same_roots_def)
  have rep: "uf_rooted (uf_parent uf) z (uf_rep uf z)" if "z < length (uf_parent uf)" for z
    using uf_rep_iff [OF u that] by simp
  have "uf_rep uf z < length (uf_parent u2) \<and> uf_parent u2 ! uf_rep uf z = uf_rep uf z"
    if "z < length (uf_parent uf)" for z
    using uf_rooted_range [OF rep [OF that]] uf_same_roots_rootD [OF same] len by auto
  then have r: "a < length (uf_parent u2)" "uf_parent u2 ! a = a" "b < length (uf_parent u2)"
    "uf_parent u2 ! b = b" using ab x y by (auto simp: doubleton_eq_iff)
  note link = UF_link_inv [OF u2 r ab(2) uf' rk]
  show ?thesis
  proof (rule UF_unitedI [OF link(1) _ ab(1)])
    show "length (uf_parent uf') = length (uf_parent uf)" using len by (simp add: uf')
    fix z
    assume "z < length (uf_parent uf)"
    with rep same have "uf_rooted (uf_parent u2) z (uf_rep uf z)" by (simp add: uf_same_roots_def)
    then show "uf_rooted (uf_parent uf') z (if uf_rep uf z = a then b else uf_rep uf z)"
      by (rule link(2))
  qed
qed

lemma UF_finds:
  assumes u: "UF_inv uf" and x: "x < length (uf_parent uf)" and y: "y < length (uf_parent uf)"
  shows "\<exists>u1 u2. UF_find uf x = Some (uf_rep uf x, u1) \<and> UF_find u1 y = Some (uf_rep uf y, u2) \<and>
    UF_inv u2 \<and> uf_same_roots uf u2"
proof -
  have rx: "uf_rooted (uf_parent uf) x (uf_rep uf x)" and ry: "uf_rooted (uf_parent uf) y (uf_rep uf y)"
    using uf_rep_iff [OF u] x y by blast+
  obtain u1 where u1: "UF_find uf x = Some (uf_rep uf x, u1)" "UF_inv u1" "uf_same_roots uf u1"
    using UF_find_correct [OF u rx] by blast
  then have "uf_rooted (uf_parent u1) y (uf_rep uf y)" using ry by (simp add: uf_same_roots_def)
  with u1 obtain u2 where "UF_find u1 y = Some (uf_rep uf y, u2)" "UF_inv u2" "uf_same_roots u1 u2"
    using UF_find_correct [OF u1(2)] by blast
  with u1 show ?thesis by (auto simp: uf_same_roots_def)
qed

lemma UF_unite_correct:
  assumes u: "UF_inv uf" and x: "x < length (uf_parent uf)" and y: "y < length (uf_parent uf)"
  shows "\<exists>uf'. UF_unite uf x y = Some uf' \<and> UF_united uf uf' x y"
proof -
  let ?px = "uf_rep uf x" and ?py = "uf_rep uf y"
  obtain u1 u2 where f: "UF_find uf x = Some (?px, u1)" "UF_find u1 y = Some (?py, u2)"
    and u2: "UF_inv u2" "uf_same_roots uf u2" using UF_finds [OF assms] by blast
  note link = UF_united_link [OF u u2 x y]
  consider "?px = ?py" | "?px \<noteq> ?py" "uf_rank u2 ! ?px < uf_rank u2 ! ?py"
    | "?px \<noteq> ?py" "uf_rank u2 ! ?px > uf_rank u2 ! ?py"
    | "?px \<noteq> ?py" "uf_rank u2 ! ?px = uf_rank u2 ! ?py" by linarith
  then show ?thesis
  proof cases
    case 1
    have "UF_united uf u2 x y"
      by (rule UF_unitedI [of _ _ ?px ?px])
         (use u2 1 uf_rep_iff [OF u] in \<open>auto simp: uf_same_roots_def\<close>)
    with 1 f show ?thesis by (simp add: UF_unite_def)
  next
    case 2
    with f show ?thesis by (simp add: UF_unite_def) (rule link [of ?px ?py _ "uf_rank u2"], auto)
  next
    case 3
    with f show ?thesis by (simp add: UF_unite_def) (rule link [of ?py ?px _ "uf_rank u2"], auto)
  next
    case 4
    with f show ?thesis by (simp add: UF_unite_def) (rule link [of ?py ?px], auto)
  qed
qed

section \<open>The contract\<close>

text \<open>
  The two loops clients run: \<open>unite_all\<close> unites a list of pairs, \<open>find_all\<close> looks up a list of
  elements, each call on the object the last one left.
\<close>

primrec unite_all :: "('u \<Rightarrow> nat \<Rightarrow> nat \<Rightarrow> 'u option) \<Rightarrow> (nat \<times> nat) list \<Rightarrow> 'u \<Rightarrow> 'u option" where
  "unite_all unite [] u = Some u"
| "unite_all unite (p # ps) u = do { u \<leftarrow> unite u (fst p) (snd p); unite_all unite ps u }"

primrec find_all :: "('u \<Rightarrow> nat \<Rightarrow> (nat \<times> 'u) option) \<Rightarrow> nat list \<Rightarrow> 'u \<Rightarrow> (nat list \<times> 'u) option" where
  "find_all fnd [] u = Some ([], u)"
| "find_all fnd (x # xs) u = do {
     (r, u) \<leftarrow> fnd u x; (rs, u) \<leftarrow> find_all fnd xs u; Some (r # rs, u) }"

definition sym_closure :: "(nat \<times> nat) list \<Rightarrow> (nat \<times> nat) set" where
  "sym_closure ps = (set ps \<union> (set ps)\<inverse>)\<^sup>*"

locale union_find =
  fixes mk :: "nat \<Rightarrow> 'u"
    and find :: "'u \<Rightarrow> nat \<Rightarrow> (nat \<times> 'u) option"
    and unite :: "'u \<Rightarrow> nat \<Rightarrow> nat \<Rightarrow> 'u option"
    and inv :: "'u \<Rightarrow> bool"
    and size :: "'u \<Rightarrow> nat"
    and rep :: "'u \<Rightarrow> nat \<Rightarrow> nat"
  assumes mk: "inv (mk n) \<and> size (mk n) = n \<and> (\<forall>x<n. rep (mk n) x = x)"
    and rep_range: "inv u \<Longrightarrow> x < size u \<Longrightarrow> rep u x < size u"
    and rep_idem: "inv u \<Longrightarrow> x < size u \<Longrightarrow> rep u (rep u x) = rep u x"
    and find: "inv u \<Longrightarrow> x < size u \<Longrightarrow>
      \<exists>u'. find u x = Some (rep u x, u') \<and> inv u' \<and> size u' = size u \<and> (\<forall>z < size u. rep u' z = rep u z)"
    and unite: "inv u \<Longrightarrow> x < size u \<Longrightarrow> y < size u \<Longrightarrow>
      \<exists>u'. unite u x y = Some u' \<and> inv u' \<and> size u' = size u \<and>
        (\<exists>a b. {a, b} = {rep u x, rep u y} \<and>
          (\<forall>z < size u. rep u' z = (if rep u z = a then b else rep u z)))"
begin

lemma unite_classes:
  assumes "inv u" "x < size u" "y < size u"
  shows "\<exists>u'. unite u x y = Some u' \<and> inv u' \<and> size u' = size u \<and>
    (\<forall>z < size u. \<forall>w < size u. rep u' z = rep u' w \<longleftrightarrow>
       rep u z = rep u w \<or> {rep u z, rep u w} = {rep u x, rep u y})"
proof -
  obtain u' a b where u': "unite u x y = Some u'" "inv u'" "size u' = size u"
    and ab: "{a, b} = {rep u x, rep u y}"
    and r: "\<forall>z < size u. rep u' z = (if rep u z = a then b else rep u z)"
    using unite [OF assms] by blast
  have "rep u' z = rep u' w \<longleftrightarrow> rep u z = rep u w \<or> {rep u z, rep u w} = {a, b}"
    if "z < size u" "w < size u" for z w
    using r that by (auto simp: doubleton_eq_iff)
  with u' ab show ?thesis by auto
qed

lemma unite_all_closure:
  assumes "inv u" and "\<forall>p\<in>set ps. fst p < size u \<and> snd p < size u"
  shows "\<exists>u'. unite_all unite ps u = Some u' \<and> inv u' \<and> size u' = size u \<and>
    (\<forall>z < size u. \<forall>w < size u. rep u' z = rep u' w \<longleftrightarrow>
       (z, w) \<in> ({(z, w). z < size u \<and> w < size u \<and> rep u z = rep u w} \<union> (set ps \<union> (set ps)\<inverse>))\<^sup>*)"
  using assms
proof (induction ps arbitrary: u)
  case Nil
  have "(z, w) \<in> {(z, w). z < size u \<and> w < size u \<and> rep u z = rep u w}\<^sup>* \<longleftrightarrow> rep u z = rep u w"
    if "z < size u" "w < size u" for z w
  proof
    assume "(z, w) \<in> {(z, w). z < size u \<and> w < size u \<and> rep u z = rep u w}\<^sup>*"
    then show "rep u z = rep u w" by (induction rule: rtrancl_induct) auto
  qed (use that in auto)
  with Nil show ?case by auto
next
  case (Cons p ps)
  obtain x y where p: "p = (x, y)" by fastforce
  let ?n = "size u" and ?S = "\<lambda>v. {(z, w). z < size u \<and> w < size u \<and> rep v z = rep v w}"
  have xy: "x < ?n" "y < ?n" using Cons.prems p by auto
  obtain v where v: "unite u x y = Some v" "inv v" "size v = ?n"
    and cls: "\<And>z w. z < ?n \<Longrightarrow> w < ?n \<Longrightarrow>
      rep v z = rep v w \<longleftrightarrow> rep u z = rep u w \<or> {rep u z, rep u w} = {rep u x, rep u y}"
    using unite_classes [OF Cons.prems(1) xy] by blast
  let ?R = "set ps \<union> (set ps)\<inverse>" and ?T = "?S u \<union> (set (p # ps) \<union> (set (p # ps))\<inverse>)"
  have "(z, w) \<in> ?T\<^sup>*" if zw: "(z, w) \<in> ?S v" for z w
  proof (cases "rep u z = rep u w")
    case True
    with zw show ?thesis by auto
  next
    case False
    with zw cls have "rep u z = rep u x \<and> rep u y = rep u w \<or> rep u z = rep u y \<and> rep u x = rep u w"
      by (auto simp: doubleton_eq_iff)
    moreover have "(x, y) \<in> ?T" "(y, x) \<in> ?T" by (simp_all add: p)
    moreover have S: "(s, t) \<in> ?T" if "rep u s = rep u t" "s < ?n" "t < ?n" for s t
      using that by simp
    moreover have "z < ?n" "w < ?n" using zw by auto
    ultimately have "\<exists>s t. (z, s) \<in> ?T \<and> (s, t) \<in> ?T \<and> (t, w) \<in> ?T" using xy by blast
    then show ?thesis by (meson converse_rtrancl_into_rtrancl r_into_rtrancl)
  qed
  then have "?S v \<union> ?R \<subseteq> ?T\<^sup>*" by (auto simp: p)
  moreover have "?T \<subseteq> (?S v \<union> ?R)\<^sup>*" using cls xy by (auto simp: p)
  ultimately have eq: "(?S v \<union> ?R)\<^sup>* = ?T\<^sup>*" by (meson rtrancl_subset_rtrancl subset_antisym)
  have "\<forall>q\<in>set ps. fst q < size v \<and> snd q < size v" using Cons.prems v by auto
  from Cons.IH [OF v(2) this] obtain u' where "unite_all unite ps v = Some u'" "inv u'" "size u' = ?n"
    "\<forall>z<?n. \<forall>w<?n. rep u' z = rep u' w \<longleftrightarrow> (z, w) \<in> (?S v \<union> ?R)\<^sup>*"
    unfolding v(3) by blast
  then show ?case unfolding eq using v(1) p by simp
qed

lemma unite_all_mk:
  assumes "\<forall>p\<in>set ps. fst p < n \<and> snd p < n"
  shows "\<exists>u. unite_all unite ps (mk n) = Some u \<and> inv u \<and> size u = n \<and>
    (\<forall>z<n. \<forall>w<n. rep u z = rep u w \<longleftrightarrow> (z, w) \<in> sym_closure ps)"
proof -
  let ?R = "set ps \<union> (set ps)\<inverse>"
  let ?S = "{(z, w). z < n \<and> w < n \<and> rep (mk n) z = rep (mk n) w}"
  have "?S \<union> ?R \<subseteq> ?R\<^sup>*" using mk by auto
  then have "(?S \<union> ?R)\<^sup>* = ?R\<^sup>*"
    by (meson Un_upper2 rtrancl_mono rtrancl_subset_rtrancl subset_antisym)
  moreover have "inv (mk n)" and n: "size (mk n) = n" using mk by auto
  ultimately show ?thesis
    using unite_all_closure [of "mk n" ps] assms by (simp add: sym_closure_def)
qed

lemma find_all:
  assumes "inv u" and "\<forall>x\<in>set xs. x < size u"
  shows "\<exists>u'. find_all find xs u = Some (map (rep u) xs, u') \<and> inv u' \<and> size u' = size u \<and>
    (\<forall>z < size u. rep u' z = rep u z)"
  using assms
proof (induction xs arbitrary: u)
  case (Cons x xs)
  then obtain v where v: "find u x = Some (rep u x, v)" "inv v" "size v = size u"
    "\<forall>z < size u. rep v z = rep u z" using find [of u x] by auto
  with Cons.IH [of v] Cons.prems obtain u' where
    "find_all find xs v = Some (map (rep v) xs, u')" "inv u'" "size u' = size u"
    "\<forall>z < size u. rep u' z = rep v z" by auto
  moreover have "map (rep v) xs = map (rep u) xs" using v(4) Cons.prems by auto
  ultimately show ?case using v by auto
qed simp

end

lemma uf_rooted_id:
  assumes "uf_rooted [0..<n] y s"
  shows "y = s"
  using assms by (induction rule: uf_rooted_induct) auto

lemma mk_UnionFind_inv: "UF_inv (mk_UnionFind n)"
proof -
  have "uf_members [0..<n] r = {r}" if "r < n" for r
    using that by (auto simp: uf_members_def intro: uf_rooted_root dest: uf_rooted_id)
  then show ?thesis by (simp add: UF_inv_def UF_ranked_def mk_UnionFind_def)
qed

interpretation uf: union_find mk_UnionFind UF_find UF_unite UF_inv "\<lambda>u. length (uf_parent u)" uf_rep
proof unfold_locales
  fix n :: nat
  have "uf_rep (mk_UnionFind n) x = x" if "x < n" for x
    using uf_rep_iff [OF mk_UnionFind_inv, of x n x] that uf_rooted_root [of x "[0..<n]"]
    by (simp add: mk_UnionFind_def)
  then show "UF_inv (mk_UnionFind n) \<and> length (uf_parent (mk_UnionFind n)) = n \<and>
      (\<forall>x<n. uf_rep (mk_UnionFind n) x = x)"
    using mk_UnionFind_inv by (auto simp: mk_UnionFind_def)
next
  fix u x
  assume u: "UF_inv u" and x: "x < length (uf_parent u)"
  then have r: "uf_rooted (uf_parent u) x (uf_rep u x)" by (simp add: uf_rep_iff)
  from uf_rooted_range [OF r] show rr: "uf_rep u x < length (uf_parent u)" by simp
  then show "uf_rep u (uf_rep u x) = uf_rep u x"
    using uf_rep_iff [OF u] uf_rooted_range [OF r] uf_rooted_root by blast
  obtain u' where u': "UF_find u x = Some (uf_rep u x, u')" "UF_inv u'" "uf_same_roots u u'"
    using UF_find_correct [OF u r] by blast
  then have len: "length (uf_parent u') = length (uf_parent u)" by (simp add: uf_same_roots_def)
  have "uf_rep u' z = uf_rep u z" if "z < length (uf_parent u)" for z
    using uf_rep_iff [OF u that] uf_rep_iff [OF u'(2)] u'(3) that by (auto simp: uf_same_roots_def)
  with u' len show "\<exists>u'. UF_find u x = Some (uf_rep u x, u') \<and> UF_inv u' \<and>
      length (uf_parent u') = length (uf_parent u) \<and> (\<forall>z<length (uf_parent u). uf_rep u' z = uf_rep u z)"
    by blast
next
  fix u x y
  assume "UF_inv u" "x < length (uf_parent u)" "y < length (uf_parent u)"
  from UF_unite_correct [OF this] show "\<exists>u'. UF_unite u x y = Some u' \<and> UF_inv u' \<and>
      length (uf_parent u') = length (uf_parent u) \<and>
      (\<exists>a b. {a, b} = {uf_rep u x, uf_rep u y} \<and>
        (\<forall>z<length (uf_parent u). uf_rep u' z = (if uf_rep u z = a then b else uf_rep u z)))"
    unfolding UF_united_def by blast
qed

section \<open>Depth of the recursion\<close>

text \<open>
  How many calls of \<^verbatim>\<open>find\<close> are on the stack at once: the same recursion, counting.
\<close>

partial_function (option) UF_find_depth :: "UnionFind \<Rightarrow> nat \<Rightarrow> nat option" where
  "UF_find_depth uf x =
     (if x \<ge> length (uf_parent uf) then None
      else if uf_parent uf ! x \<noteq> x then do { d \<leftarrow> UF_find_depth uf (uf_parent uf ! x); Some (d + 1) }
      else Some 1)"

lemma UF_find_depth_root: "uf_root (uf_parent uf) x r k \<Longrightarrow> UF_find_depth uf x = Some (Suc k)"
  by (induction rule: uf_root.induct) (subst UF_find_depth.simps, simp)+

lemma UF_find_depth_log:
  assumes "UF_inv uf" and "x < length (uf_parent uf)"
  shows "\<exists>d. UF_find_depth uf x = Some (Suc d) \<and> 2 ^ d \<le> length (uf_parent uf)"
proof -
  have u: "UF_ranked uf" using assms by (simp add: UF_inv_def)
  then obtain r k where k: "uf_root (uf_parent uf) x r k"
    using UF_ranked_rooted [OF u assms(2)] by (auto simp: uf_rooted_def)
  have "(2::nat) ^ k \<le> 2 ^ (uf_rank uf ! r)" using UF_root_depth [OF u k] by simp
  also have "\<dots> \<le> length (uf_parent uf)"
    using UF_rank_log [OF assms(1)] uf_root_range [OF k] by blast
  finally show ?thesis using UF_find_depth_root [OF k] by blast
qed

end
