(* ===== verification/Checker.thy ===== *)
theory Checker
  imports UnfoldedPointers UnionFind
begin

text \<open>
  The checks of an assembly of chips (\<^verbatim>\<open>3dblox/checker.cpp\<close>) over its unfolded model. Each check
  goes through chips, regions, bumps or connections and leaves a marker for every violation in a
  subcategory of the category \<^verbatim>\<open>3DBlox\<close>, which is created when the first one is found.

  A check takes the top category and returns it changed. \<open>None\<close> as the argument is a null
  \<^verbatim>\<open>top_cat\<close>, \<open>None\<close> as the result a null pointer that is dereferenced: \<^verbatim>\<open>dbMarker::create\<close>
  returns one for a category that is full. \<open>asserts\<close> says whether the build keeps \<^verbatim>\<open>assert\<close>;
  an assertion that fails ends the check as a null pointer does. Messages to the logger are left out.
\<close>

section \<open>Printing\<close>

fun digits :: "nat \<Rightarrow> string" where
  "digits n = (if n < 10 then [char_of (48 + n)] else digits (n div 10) @ [char_of (48 + n mod 10)])"

declare digits.simps [simp del]

definition print_int :: "int \<Rightarrow> string" where
  "print_int i = (if i < 0 then ''-'' @ digits (nat (- i)) else digits (nat i))"

primrec sideToString :: "UnfoldedRegionSide \<Rightarrow> string" where
  "sideToString UnfoldedRegionSide.TOP = ''TOP''"
| "sideToString UnfoldedRegionSide.BOTTOM = ''BOTTOM''"
| "sideToString UnfoldedRegionSide.INTERNAL = ''INTERNAL''"
| "sideToString UnfoldedRegionSide.INTERNAL_EXT = ''INTERNAL_EXT''"

section \<open>Valid connections\<close>

record MatingSurfaces =
  ms_valid :: bool
  ms_top_z :: int
  ms_bot_z :: int

definition getMatingSurfaces :: "UnfoldedModel \<Rightarrow> UnfoldedConnection \<Rightarrow> MatingSurfaces" where
  "getMatingSurfaces um conn =
     (case (ucn_top_region conn, ucn_bottom_region conn) of
        (Some p1, Some p2) \<Rightarrow>
          (let r1 = region_at um p1;
               r2 = region_at um p2;
               r1_down_r2_up = UR_isBottom r1 \<and> UR_isTop r2;
               r1_up_r2_down = UR_isTop r1 \<and> UR_isBottom r2
           in if r1_down_r2_up = r1_up_r2_down then \<lparr>ms_valid = False, ms_top_z = 0, ms_bot_z = 0\<rparr>
              else
                let upper = (if r1_down_r2_up then r1 else r2);
                    lower = (if r1_down_r2_up then r2 else r1)
                in \<lparr>ms_valid = True, ms_top_z = UR_getSurfaceZ upper, ms_bot_z = UR_getSurfaceZ lower\<rparr>)
      | _ \<Rightarrow> \<lparr>ms_valid = False, ms_top_z = 0, ms_bot_z = 0\<rparr>)"

definition isValid :: "dbDatabase \<Rightarrow> UnfoldedModel \<Rightarrow> UnfoldedConnection \<Rightarrow> bool" where
  "isValid db um conn =
     (case (ucn_top_region conn, ucn_bottom_region conn) of
        (Some p1, Some p2) \<Rightarrow>
          (let c1 = ur_cuboid (region_at um p1);
               c2 = ur_cuboid (region_at um p2)
           in if \<not> Cuboid_xyIntersects c1 c2 then False
              else if UR_isInternalExt (region_at um p1) \<or> UR_isInternalExt (region_at um p2)
              then max (cub_zlo c1) (cub_zlo c2) \<le> min (cub_zhi c1) (cub_zhi c2)
              else
                let surfaces = getMatingSurfaces um conn
                in if \<not> ms_valid surfaces then False
                   else if ms_top_z surfaces < ms_bot_z surfaces then False
                   else ms_top_z surfaces - ms_bot_z surfaces = cc_thickness (conn_of db (ucn_connection conn)))
      | _ \<Rightarrow> True)"

section \<open>Leaving markers\<close>

text \<open>
  The subcategory a loop reports to: \<^verbatim>\<open>cat\<close> is null until the first report. \<open>report\<close> creates
  a marker in it and fills it in by \<open>f\<close>.
\<close>

definition update_category ::
    "dbMarkerCategory \<Rightarrow> string \<Rightarrow> (dbMarkerCategory \<Rightarrow> dbMarkerCategory option) \<Rightarrow> dbMarkerCategory option" where
  "update_category top_cat name f = do {
     cat \<leftarrow> dbMarkerCategory_findMarkerCategory top_cat name;
     cat \<leftarrow> f cat;
     Some (set_categories top_cat (map (\<lambda>c. if cat_name c = name then cat else c) (cat_categories top_cat)))
   }"

definition fill_marker :: "(dbMarker \<Rightarrow> dbMarker option) \<Rightarrow> dbMarkerCategory \<Rightarrow> dbMarkerCategory option" where
  "fill_marker f cat = do {
     cat \<leftarrow> dbMarker_create cat;
     m \<leftarrow> f (last (cat_markers cat));
     Some (set_markers cat (butlast (cat_markers cat) @ [m]))
   }"

type_synonym report_state = "bool \<times> dbMarkerCategory option"

definition report :: "string \<Rightarrow> (dbMarker \<Rightarrow> dbMarker option) \<Rightarrow> report_state \<Rightarrow> report_state option" where
  "report name f = (\<lambda>(have_cat, top_cat). do {
     top_cat \<leftarrow> top_cat;
     top_cat \<leftarrow> (if have_cat then Some top_cat else dbMarkerCategory_createOrReplace top_cat name);
     top_cat \<leftarrow> update_category top_cat name (fill_marker f);
     Some (True, Some top_cat)
   })"

section \<open>The checks\<close>

definition chip_source :: "UnfoldedChip \<Rightarrow> dbMarker \<Rightarrow> dbMarker" where
  "chip_source chip = dbMarker_addSource dbChipInstObj (last (uc_chip_inst_path chip))"

definition region_name :: "dbDatabase \<Rightarrow> UnfoldedRegion \<Rightarrow> string" where
  "region_name db region = rgn_name (dbChipRegionInst_getChipRegion db (ur_region_inst region))"

text \<open>
  \<open>chip_map_find\<close> is the lookup of a parent pointer in the map from the chips of the model to their
  positions.
\<close>

definition chip_map_find :: "UnfoldedModel \<Rightarrow> nat option \<Rightarrow> nat option" where
  "chip_map_find um p = (case p of Some c \<Rightarrow> if c < length (um_chips um) then Some c else None | None \<Rightarrow> None)"

definition unite_connection :: "dbDatabase \<Rightarrow> UnfoldedModel \<Rightarrow> UnionFind \<Rightarrow> UnfoldedConnection \<Rightarrow> UnionFind option" where
  "unite_connection db um uf conn =
     (let parent = (\<lambda>p. chip_map_find um (ur_parent_chip (region_at um p)));
          ground_node = length (um_chips um)
      in if isValid db um conn then
           (case (ucn_top_region conn, ucn_bottom_region conn) of
              (Some p1, Some p2) \<Rightarrow>
                (case (parent p1, parent p2) of
                   (Some c1, Some c2) \<Rightarrow> UF_unite uf c1 c2
                 | _ \<Rightarrow> Some uf)
            | (Some p, None) \<Rightarrow> (case parent p of Some c \<Rightarrow> UF_unite uf c ground_node | None \<Rightarrow> Some uf)
            | (None, Some p) \<Rightarrow> (case parent p of Some c \<Rightarrow> UF_unite uf c ground_node | None \<Rightarrow> Some uf)
            | (None, None) \<Rightarrow> Some uf)
         else Some uf)"

definition add_to_group :: "(UnionFind \<times> nat list list) \<Rightarrow> nat \<Rightarrow> (UnionFind \<times> nat list list) option" where
  "add_to_group = (\<lambda>(uf, groups) i. do {
     (leader, uf) \<leftarrow> UF_find uf i;
     Some (uf, groups[leader := groups ! leader @ [i]])
   })"

definition erase_at :: "'a list \<Rightarrow> nat \<Rightarrow> 'a list" where
  "erase_at xs i = take i xs @ drop (Suc i) xs"

text \<open>The sets of chips that \<^verbatim>\<open>checkFloatingChips\<close> reports, in the order of its last loop.\<close>

definition floating_groups ::
    "(nat list list \<Rightarrow> nat list list) \<Rightarrow> dbDatabase \<Rightarrow> UnfoldedModel \<Rightarrow> nat list list option" where
  "floating_groups sort_groups db um = do {
     let n = length (um_chips um);
     uf \<leftarrow> foldM (unite_connection db um) (mk_UnionFind (n + 1)) (um_connections um);
     (uf, groups) \<leftarrow> foldM add_to_group (uf, replicate (n + 1) []) [0..<n];
     (ground_leader, uf) \<leftarrow> UF_find uf n;
     let ground_empty = (groups ! ground_leader = []);
     let groups = erase_at groups ground_leader;
     let groups = filter (\<lambda>g. g \<noteq> []) groups;
     let groups = sort_groups groups;
     let groups = (if ground_empty \<and> groups \<noteq> [] then butlast groups else groups);
     Some (rev groups)
   }"

definition floating_marker :: "UnfoldedModel \<Rightarrow> nat list \<Rightarrow> dbMarker \<Rightarrow> dbMarker" where
  "floating_marker um grp m =
     dbMarker_setComment (''Isolated chip set starting with '' @ uc_name (um_chips um ! hd grp))
       (foldl (\<lambda>m c. chip_source (um_chips um ! c)
           (dbMarker_addShape (ShapeCuboid (uc_cuboid (um_chips um ! c))) m)) m grp)"

definition checkFloatingChips ::
    "(nat list list \<Rightarrow> nat list list) \<Rightarrow> dbDatabase \<Rightarrow> UnfoldedModel \<Rightarrow> dbMarkerCategory option \<Rightarrow>
       dbMarkerCategory option option" where
  "checkFloatingChips sort_groups db um top_cat = do {
     groups \<leftarrow> floating_groups sort_groups db um;
     (_, top_cat) \<leftarrow> foldM (\<lambda>s grp. report ''Floating chips'' (\<lambda>m. Some (floating_marker um grp m)) s) (False, top_cat) groups;
     Some top_cat
   }"

text \<open>
  The sweep over the chips sorted by their lower x: the inner loop stops at the first chip that starts
  at or after the end of the outer one.
\<close>

definition chip_cuboid :: "UnfoldedModel \<Rightarrow> nat \<Rightarrow> Cuboid" where
  "chip_cuboid um c = uc_cuboid (um_chips um ! c)"

primrec sweep_inner :: "UnfoldedModel \<Rightarrow> nat \<Rightarrow> nat list \<Rightarrow> (nat \<times> nat) list" where
  "sweep_inner um c1 [] = []"
| "sweep_inner um c1 (c2 # cs) =
     (if cub_xlo (chip_cuboid um c2) \<ge> cub_xhi (chip_cuboid um c1) then []
      else (if Cuboid_overlaps (chip_cuboid um c1) (chip_cuboid um c2) then [(c1, c2)] else [])
             @ sweep_inner um c1 cs)"

primrec sweep :: "UnfoldedModel \<Rightarrow> nat list \<Rightarrow> (nat \<times> nat) list" where
  "sweep um [] = []"
| "sweep um (c1 # cs) = sweep_inner um c1 cs @ sweep um cs"

definition overlapping_chips :: "(nat list \<Rightarrow> nat list) \<Rightarrow> UnfoldedModel \<Rightarrow> (nat \<times> nat) list" where
  "overlapping_chips sort_chips um = sweep um (sort_chips [0..<length (um_chips um)])"

text \<open>
  \<^verbatim>\<open>Cuboid::intersect\<close> asserts that the cuboids meet; without the assertion it computes the
  corners all the same.
\<close>

definition intersect_in_build :: "bool \<Rightarrow> Cuboid \<Rightarrow> Cuboid \<Rightarrow> Cuboid option" where
  "intersect_in_build asserts a b =
     (if asserts \<and> \<not> Cuboid_intersects a b then None
      else Some
        \<lparr>cub_xlo = max (cub_xlo a) (cub_xlo b), cub_ylo = max (cub_ylo a) (cub_ylo b),
         cub_zlo = max (cub_zlo a) (cub_zlo b), cub_xhi = min (cub_xhi a) (cub_xhi b),
         cub_yhi = min (cub_yhi a) (cub_yhi b), cub_zhi = min (cub_zhi a) (cub_zhi b)\<rparr>)"

definition overlap_marker :: "bool \<Rightarrow> UnfoldedModel \<Rightarrow> nat \<times> nat \<Rightarrow> dbMarker \<Rightarrow> dbMarker option" where
  "overlap_marker asserts um = (\<lambda>(c1, c2) m. do {
     intersection \<leftarrow> intersect_in_build asserts (chip_cuboid um c1) (chip_cuboid um c2);
     Some (dbMarker_setComment
       (''Chips '' @ uc_name (um_chips um ! c1) @ '' and '' @ uc_name (um_chips um ! c2) @ '' overlap'')
       (chip_source (um_chips um ! c2) (chip_source (um_chips um ! c1)
         (dbMarker_addShape (ShapeCuboid intersection) m))))
   })"

definition checkOverlappingChips ::
    "bool \<Rightarrow> (nat list \<Rightarrow> nat list) \<Rightarrow> UnfoldedModel \<Rightarrow> dbMarkerCategory option \<Rightarrow>
       dbMarkerCategory option option" where
  "checkOverlappingChips asserts sort_chips um top_cat = do {
     (_, top_cat) \<leftarrow> foldM (\<lambda>s p. report ''Overlapping chips'' (overlap_marker asserts um p) s) (False, top_cat)
       (overlapping_chips sort_chips um);
     Some top_cat
   }"

definition unused_marker :: "dbDatabase \<Rightarrow> UnfoldedRegion \<Rightarrow> dbMarker \<Rightarrow> dbMarker" where
  "unused_marker db region m =
     dbMarker_setComment (''Unused internal_ext region: '' @ region_name db region)
       (dbMarker_addShape (ShapeCuboid (ur_cuboid region))
         (dbMarker_addSource dbChipRegionInstObj (ur_region_inst region) m))"

definition checkInternalExtUsage ::
    "dbDatabase \<Rightarrow> UnfoldedModel \<Rightarrow> dbMarkerCategory option \<Rightarrow> dbMarkerCategory option option" where
  "checkInternalExtUsage db um top_cat = do {
     (_, top_cat) \<leftarrow> foldM (\<lambda>s chip.
         foldM (\<lambda>s region.
           if UR_isInternalExt region \<and> \<not> ur_isUsed region
           then report ''Unused internal_ext'' (\<lambda>m. Some (unused_marker db region m)) s
           else Some s) s (uc_regions chip))
       (False, top_cat) (um_chips um);
     Some top_cat
   }"

text \<open>
  The two calls of \<^verbatim>\<open>describe\<close> are arguments of one call, so which comes first is open:
  \<open>top_first\<close>. Each one changes the marker and returns a text.
\<close>

definition describe ::
    "dbDatabase \<Rightarrow> UnfoldedModel \<Rightarrow> region_ptr option \<Rightarrow> dbMarker \<Rightarrow> (string \<times> dbMarker) option" where
  "describe db um p m = do {
     p \<leftarrow> p;
     let r = region_at um p;
     chip \<leftarrow> ur_parent_chip r;
     let m = dbMarker_addSource dbChipRegionInstObj (ur_region_inst r) m;
     let m = dbMarker_addShape (ShapeRect (mk_Rect (cub_xlo (ur_cuboid r)) (cub_ylo (ur_cuboid r))
               (cub_xhi (ur_cuboid r)) (cub_yhi (ur_cuboid r)))) m;
     Some (uc_name (um_chips um ! chip) @ ''/'' @ region_name db r @ '' (faces ''
             @ sideToString (ur_effective_side r) @ '')'', m)
   }"

definition connection_marker ::
    "bool \<Rightarrow> dbDatabase \<Rightarrow> UnfoldedModel \<Rightarrow> UnfoldedConnection \<Rightarrow> dbMarker \<Rightarrow> dbMarker option" where
  "connection_marker top_first db um conn m = do {
     let m = dbMarker_addSource dbChipConnObj (ucn_connection conn) m;
     (tstr, bstr, m) \<leftarrow>
       (if top_first then do {
          (tstr, m) \<leftarrow> describe db um (ucn_top_region conn) m;
          (bstr, m) \<leftarrow> describe db um (ucn_bottom_region conn) m;
          Some (tstr, bstr, m)
        } else do {
          (bstr, m) \<leftarrow> describe db um (ucn_bottom_region conn) m;
          (tstr, m) \<leftarrow> describe db um (ucn_top_region conn) m;
          Some (tstr, bstr, m)
        });
     Some (dbMarker_setComment
       (''Invalid connection '' @ cc_name (conn_of db (ucn_connection conn)) @ '': '' @ tstr @ '' to '' @ bstr) m)
   }"

definition checkConnectionRegions ::
    "bool \<Rightarrow> dbDatabase \<Rightarrow> UnfoldedModel \<Rightarrow> dbMarkerCategory option \<Rightarrow> dbMarkerCategory option option" where
  "checkConnectionRegions top_first db um top_cat = do {
     (_, top_cat) \<leftarrow> foldM (\<lambda>s conn.
         if \<not> isValid db um conn
         then report ''Connection regions'' (connection_marker top_first db um conn) s
         else Some s)
       (False, top_cat) (um_connections um);
     Some top_cat
   }"

definition kBumpMarkerHalfSize :: int where
  "kBumpMarkerHalfSize = 50"

definition bump_outside :: "UnfoldedRegion \<Rightarrow> UnfoldedBump \<Rightarrow> bool" where
  "bump_outside region bump =
     (let p = ub_global_position bump
      in \<not> Rect_intersects_pt (Cuboid_getEnclosingRect (ur_cuboid region)) (Point (p3x p) (p3y p)))"

definition bump_marker :: "dbDatabase \<Rightarrow> UnfoldedRegion \<Rightarrow> UnfoldedBump \<Rightarrow> dbMarker \<Rightarrow> dbMarker" where
  "bump_marker db region bump m =
     (let p = ub_global_position bump
      in dbMarker_setComment (''Bump is outside its parent region '' @ region_name db region)
           (dbMarker_addShape (ShapeRect (mk_Rect (p3x p - kBumpMarkerHalfSize) (p3y p - kBumpMarkerHalfSize)
               (p3x p + kBumpMarkerHalfSize) (p3y p + kBumpMarkerHalfSize)))
             (dbMarker_addSource dbChipBumpInstObj (ub_bump_inst bump) m)))"

definition checkBumpPhysicalAlignment ::
    "dbDatabase \<Rightarrow> UnfoldedModel \<Rightarrow> dbMarkerCategory option \<Rightarrow> dbMarkerCategory option option" where
  "checkBumpPhysicalAlignment db um top_cat = do {
     (_, top_cat) \<leftarrow> foldM (\<lambda>s chip.
         foldM (\<lambda>s region.
           foldM (\<lambda>s bump.
             if bump_outside region bump
             then report ''Bump Alignment'' (\<lambda>m. Some (bump_marker db region bump m)) s
             else Some s) s (ur_bumps region)) s (uc_regions chip))
       (False, top_cat) (um_chips um);
     Some top_cat
   }"

definition checkNetConnectivity ::
    "UnfoldedModel \<Rightarrow> dbMarkerCategory option \<Rightarrow> dbMarkerCategory option option" where
  "checkNetConnectivity um top_cat = Some top_cat"

text \<open>\<^verbatim>\<open>bump_net_map\<close>: a bump on several nets is mapped to the last of them.\<close>

definition bump_net_map :: "UnfoldedModel \<Rightarrow> bump_ptr \<rightharpoonup> nat" where
  "bump_net_map um =
     foldl (\<lambda>m (i, net). foldl (\<lambda>m b. m(b \<mapsto> i)) m (un_connected_bumps net)) Map.empty
       (enumerate 0 (um_nets um))"

definition get_net_name :: "dbDatabase \<Rightarrow> UnfoldedModel \<Rightarrow> bump_ptr \<Rightarrow> string" where
  "get_net_name db um b =
     (case bump_net_map um b of
        Some i \<Rightarrow> cn_name (net_of db (un_chip_net (um_nets um ! i)))
      | None \<Rightarrow> ''defines no net'')"

definition bump_xy :: "UnfoldedBump \<Rightarrow> Point" where
  "bump_xy bump = Point (p3x (ub_global_position bump)) (p3y (ub_global_position bump))"

definition bot_bumps_at :: "UnfoldedRegion \<Rightarrow> Point \<rightharpoonup> nat" where
  "bot_bumps_at region =
     foldl (\<lambda>m (k, bump). m(bump_xy bump \<mapsto> k)) Map.empty (enumerate 0 (ur_bumps region))"

definition logical_marker ::
    "bool \<Rightarrow> dbDatabase \<Rightarrow> UnfoldedModel \<Rightarrow> bump_ptr \<Rightarrow> bump_ptr \<Rightarrow> dbMarker \<Rightarrow> dbMarker option" where
  "logical_marker asserts db um = (\<lambda>(c1, j1, k1) (c2, j2, k2) m. do {
     let r1 = region_at um (c1, j1);
     let r2 = region_at um (c2, j2);
     let p = bump_xy (ur_bumps r1 ! k1);
     let m = dbMarker_addSource dbChipBumpInstObj (ub_bump_inst (ur_bumps r1 ! k1)) m;
     let m = dbMarker_addSource dbChipBumpInstObj (ub_bump_inst (ur_bumps r2 ! k2)) m;
     overlap \<leftarrow> intersect_in_build asserts (ur_cuboid r1) (ur_cuboid r2);
     let m = dbMarker_addShape (ShapeCuboid overlap) m;
     Some (dbMarker_setComment
       (''Bumps at ('' @ print_int (px p) @ '', '' @ print_int (py p)
          @ '') align physically but logical connectivity mismatch: Top bump ''
          @ get_net_name db um (c1, j1, k1) @ '' vs Bottom bump '' @ get_net_name db um (c2, j2, k2)) m)
   })"

definition check_connection_bumps ::
    "bool \<Rightarrow> dbDatabase \<Rightarrow> UnfoldedModel \<Rightarrow> report_state \<Rightarrow> UnfoldedConnection \<Rightarrow> report_state option" where
  "check_connection_bumps asserts db um s conn =
     (if \<not> isValid db um conn then Some s
      else case (ucn_top_region conn, ucn_bottom_region conn) of
        (Some (c1, j1), Some (c2, j2)) \<Rightarrow>
          (let bot_bumps = bot_bumps_at (region_at um (c2, j2))
           in foldM (\<lambda>s (k1, top_bump).
                (case bot_bumps (bump_xy top_bump) of
                   None \<Rightarrow> Some s
                 | Some k2 \<Rightarrow>
                     if bump_net_map um (c1, j1, k1) \<noteq> bump_net_map um (c2, j2, k2)
                     then report ''Logical Connectivity'' (logical_marker asserts db um (c1, j1, k1) (c2, j2, k2)) s
                     else Some s))
              s (enumerate 0 (ur_bumps (region_at um (c1, j1)))))
      | _ \<Rightarrow> Some s)"

definition checkLogicalConnectivity ::
    "bool \<Rightarrow> dbDatabase \<Rightarrow> UnfoldedModel \<Rightarrow> dbMarkerCategory option \<Rightarrow> dbMarkerCategory option option" where
  "checkLogicalConnectivity asserts db um top_cat = do {
     (_, top_cat) \<leftarrow> foldM (check_connection_bumps asserts db um) (False, top_cat) (um_connections um);
     Some top_cat
   }"

text \<open>What the code leaves open: the build, the two sorts and the order of evaluation.\<close>

record build =
  bld_asserts :: bool
  bld_top_first :: bool
  bld_sort_groups :: "nat list list \<Rightarrow> nat list list"
  bld_sort_chips :: "nat list \<Rightarrow> nat list"

definition run_checks ::
    "build \<Rightarrow> dbDatabase \<Rightarrow> UnfoldedModel \<Rightarrow> dbMarkerCategory option \<Rightarrow> dbMarkerCategory option option" where
  "run_checks bld db um top_cat = do {
     top_cat \<leftarrow> checkLogicalConnectivity (bld_asserts bld) db um top_cat;
     top_cat \<leftarrow> checkFloatingChips (bld_sort_groups bld) db um top_cat;
     top_cat \<leftarrow> checkOverlappingChips (bld_asserts bld) (bld_sort_chips bld) um top_cat;
     top_cat \<leftarrow> checkInternalExtUsage db um top_cat;
     top_cat \<leftarrow> checkConnectionRegions (bld_top_first bld) db um top_cat;
     checkBumpPhysicalAlignment db um top_cat
   }"

text \<open>
  \<open>model\<close> is the unfolded model the database keeps, \<open>None\<close> before it is built. The category is written
  back to the table of the chip, where the checks change it in place.
\<close>

definition Checker_check :: "build \<Rightarrow> dbDatabase \<Rightarrow> UnfoldedModel option \<Rightarrow> dbDatabase option" where
  "Checker_check bld db model =
     (case model of
        None \<Rightarrow> Some db
      | Some um \<Rightarrow>
          let chip = db_chip db in
          if chip = 0 then Some db
          else
            let (cs, i) = top_createOrReplace (chip_marker_categories (chip_of db chip)) ''3DBlox''
            in do {
              top_cat \<leftarrow> run_checks bld db um (if i = 0 then None else dbTable_getPtr (mcs_tbl cs) i);
              let cs = (case top_cat of
                  None \<Rightarrow> cs
                | Some cat \<Rightarrow> cs\<lparr>mcs_tbl := dbTable_update (mcs_tbl cs) i (\<lambda>_. cat)\<rparr>);
              Some (db\<lparr>chip_tbl := dbTable_update (chip_tbl db) chip (\<lambda>c. c\<lparr>chip_marker_categories := cs\<rparr>)\<rparr>)
            })"

end
