(* ===== verification/CheckerLaws.thy ===== *)
theory CheckerLaws
  imports Checker
begin

text \<open>
  What the checks find. Every check is the same as going through the list of its violations, given by a
  specification that does not mention how the code looks for them, and leaving one marker for each:
  \<open>found\<close>. The specifications are the pairs of overlapping chips, the classes of chips that no valid
  connection ties to the ground, the unused external regions, the invalid connections, the bumps outside
  their region, and the aligned pairs of bumps on different nets.
\<close>

section \<open>Loops\<close>

lemma concat_map_concat: "concat (map f (concat xss)) = concat (map (\<lambda>xs. concat (map f xs)) xss)"
  by (induction xss) simp_all

lemma foldM_unite_all: "foldM (\<lambda>u p. unite u (fst p) (snd p)) u ps = unite_all unite ps u"
  by (induction ps arbitrary: u) simp_all

section \<open>Reporting\<close>

definition with_category :: "dbMarkerCategory \<Rightarrow> string \<Rightarrow> dbMarker list \<Rightarrow> dbMarkerCategory" where
  "with_category top_cat name ms =
     set_categories top_cat (filter (\<lambda>c. cat_name c \<noteq> name) (cat_categories top_cat)
       @ [MarkerCategory name '''' '''' 10000 ms []])"

definition found :: "string \<Rightarrow> dbMarker list \<Rightarrow> dbMarkerCategory option \<Rightarrow> dbMarkerCategory option option" where
  "found name ms top_cat =
     (if ms = [] then Some top_cat
      else case top_cat of
        None \<Rightarrow> None
      | Some cat \<Rightarrow> if length ms \<le> 10000 then Some (Some (with_category cat name ms)) else None)"

lemma update_with_category:
  "update_category (with_category cat name ms) name f = do {
     c \<leftarrow> f (MarkerCategory name '''' '''' 10000 ms []);
     Some (set_categories cat (filter (\<lambda>c. cat_name c \<noteq> name) (cat_categories cat) @ [c])) }"
proof -
  let ?cs = "filter (\<lambda>c. cat_name c \<noteq> name) (cat_categories cat)"
  have "find (\<lambda>c. cat_name c = name) ?cs = None" by (simp add: find_eq_None)
  moreover have "map (\<lambda>c. if cat_name c = name then d else c) ?cs = ?cs" for d
    by (rule map_idI) simp
  ultimately show ?thesis
    by (simp add: update_category_def with_category_def dbMarkerCategory_findMarkerCategory_def find_append)
qed

lemma fill_marker_eq:
  "fill_marker f (MarkerCategory name '''' '''' 10000 ms []) =
     (if length ms < 10000
      then map_option (\<lambda>m. MarkerCategory name '''' '''' 10000 (ms @ [m]) []) (f mk_dbMarker) else None)"
  by (cases "f mk_dbMarker")
     (auto simp: fill_marker_def dbMarker_create_def dbMarkerCategory_hasMaxMarkerLimit_def)

lemma report_more:
  "report name f (True, Some (with_category cat name ms)) =
     (if length ms < 10000
      then map_option (\<lambda>m. (True, Some (with_category cat name (ms @ [m])))) (f mk_dbMarker) else None)"
proof -
  have "report name f (True, Some (with_category cat name ms)) = do {
      c \<leftarrow> fill_marker f (MarkerCategory name '''' '''' 10000 ms []);
      Some (True, Some (set_categories cat (filter (\<lambda>c. cat_name c \<noteq> name) (cat_categories cat) @ [c]))) }"
    by (simp add: report_def update_with_category)
  then show ?thesis by (cases "f mk_dbMarker") (simp_all add: fill_marker_eq with_category_def)
qed

lemma report_first:
  "report name f (False, Some cat) = report name f (True, Some (with_category cat name []))"
  by (simp add: report_def createOrReplace_eq with_category_def mk_dbMarkerCategory_def)

lemma report_null: "report name f (have_cat, None) = None"
  by (simp add: report_def)

lemma foldM_report_more:
  assumes "\<And>x. x \<in> set xs \<Longrightarrow> f x mk_dbMarker = Some (g x)"
  shows "length ms \<le> 10000 \<Longrightarrow>
    foldM (\<lambda>s x. report name (f x) s) (True, Some (with_category cat name ms)) xs =
      (if length ms + length xs \<le> 10000 then Some (True, Some (with_category cat name (ms @ map g xs))) else None)"
  using assms by (induction xs arbitrary: ms) (auto simp: report_more)

lemma report_loop:
  assumes "\<And>x. x \<in> set xs \<Longrightarrow> f x mk_dbMarker = Some (g x)"
  shows "do { (_, t) \<leftarrow> foldM (\<lambda>s x. report name (f x) s) (False, top_cat) xs; Some t } = found name (map g xs) top_cat"
proof (cases xs)
  case (Cons x ys)
  show ?thesis
  proof (cases top_cat)
    case (Some cat)
    have "foldM (\<lambda>s x. report name (f x) s) (False, Some cat) xs =
        foldM (\<lambda>s x. report name (f x) s) (True, Some (with_category cat name [])) xs"
      by (simp add: Cons report_first)
    also have "\<dots> = (if length xs \<le> 10000 then Some (True, Some (with_category cat name (map g xs))) else None)"
      using foldM_report_more [of xs f g "[]" name cat] assms by simp
    finally show ?thesis by (simp add: Some found_def Cons)
  qed (simp add: Cons found_def report_null)
qed (simp add: found_def)

lemma report_fails: "f mk_dbMarker = None \<Longrightarrow> report name f s = None"
proof -
  assume f: "f mk_dbMarker = None"
  have "fill_marker f c = None" for c
    by (simp add: fill_marker_def dbMarker_create_def f split: if_splits)
  then have "update_category c name (fill_marker f) = None" for c
    by (simp add: update_category_def split: bind_splits)
  then show "report name f s = None"
    by (cases s) (auto simp: report_def split: bind_splits)
qed

section \<open>Unused regions, connections and bumps\<close>

definition model_regions :: "UnfoldedModel \<Rightarrow> UnfoldedRegion list" where
  "model_regions um = concat (map uc_regions (um_chips um))"

definition model_bumps :: "UnfoldedModel \<Rightarrow> (UnfoldedRegion \<times> UnfoldedBump) list" where
  "model_bumps um = concat (map (\<lambda>r. map (Pair r) (ur_bumps r)) (model_regions um))"

lemma checkInternalExtUsage_eq:
  "checkInternalExtUsage db um top_cat = found ''Unused internal_ext''
     (map (\<lambda>r. unused_marker db r mk_dbMarker)
       (filter (\<lambda>r. UR_isInternalExt r \<and> \<not> ur_isUsed r) (model_regions um))) top_cat"
  unfolding checkInternalExtUsage_def foldM_concat
  unfolding foldM_filter
  by (subst report_loop) (simp_all add: model_regions_def)

lemma checkBumpPhysicalAlignment_eq:
  "checkBumpPhysicalAlignment db um top_cat = found ''Bump Alignment''
     (map (\<lambda>(r, b). bump_marker db r b mk_dbMarker) (filter (\<lambda>(r, b). bump_outside r b) (model_bumps um))) top_cat"
proof -
  let ?f = "\<lambda>p m. Some (bump_marker db (fst p) (snd p) m)"
  have "foldM (\<lambda>s bump. if bump_outside r bump
        then report ''Bump Alignment'' (\<lambda>m. Some (bump_marker db r bump m)) s else Some s) s bs =
      foldM (\<lambda>s p. if bump_outside (fst p) (snd p) then report ''Bump Alignment'' (?f p) s else Some s) s (map (Pair r) bs)"
    for r s bs
    unfolding foldM_map prod.sel ..
  then have "checkBumpPhysicalAlignment db um top_cat =
      do { (_, t) \<leftarrow> foldM (\<lambda>s p. report ''Bump Alignment'' (?f p) s) (False, top_cat)
        (filter (\<lambda>p. bump_outside (fst p) (snd p)) (model_bumps um)); Some t }"
    unfolding checkBumpPhysicalAlignment_def
    by (simp only: foldM_concat) (simp add: foldM_filter model_bumps_def model_regions_def concat_map_concat comp_def)
  also have "\<dots> = found ''Bump Alignment'' (map (\<lambda>p. bump_marker db (fst p) (snd p) mk_dbMarker)
      (filter (\<lambda>p. bump_outside (fst p) (snd p)) (model_bumps um))) top_cat"
    by (rule report_loop) simp
  finally show ?thesis by (simp add: case_prod_unfold)
qed

section \<open>Invalid connections\<close>

text \<open>An invalid connection has both regions, so describing them never meets a null pointer.\<close>

lemma invalid_regions:
  "\<not> isValid db um k \<Longrightarrow> \<exists>p q. ucn_top_region k = Some p \<and> ucn_bottom_region k = Some q"
  by (auto simp: isValid_def split: option.splits)

text \<open>
  The marker of an invalid connection between the regions \<open>p\<close> and \<open>q\<close>: the connection and both region
  instances are its sources, the outlines of both regions its shapes.
\<close>

definition region_text :: "dbDatabase \<Rightarrow> UnfoldedModel \<Rightarrow> region_ptr \<Rightarrow> string" where
  "region_text db um p =
     (let r = region_at um p
      in uc_name (um_chips um ! fst p) @ ''/'' @ region_name db r @ '' (faces ''
           @ sideToString (ur_effective_side r) @ '')'')"

definition region_shape :: "UnfoldedModel \<Rightarrow> region_ptr \<Rightarrow> MarkerShape" where
  "region_shape um p =
     (let c = ur_cuboid (region_at um p)
      in ShapeRect (mk_Rect (cub_xlo c) (cub_ylo c) (cub_xhi c) (cub_yhi c)))"

definition invalid_marker :: "bool \<Rightarrow> dbDatabase \<Rightarrow> UnfoldedModel \<Rightarrow> UnfoldedConnection \<Rightarrow> dbMarker" where
  "invalid_marker top_first db um k =
     (let p = the (ucn_top_region k); q = the (ucn_bottom_region k)
      in mk_dbMarker
        \<lparr>mk_sources := {s. snd s \<noteq> 0 \<and> s \<in> {(dbChipConnObj, ucn_connection k),
           (dbChipRegionInstObj, ur_region_inst (region_at um p)),
           (dbChipRegionInstObj, ur_region_inst (region_at um q))}},
         mk_shapes := (if top_first then [region_shape um p, region_shape um q]
                       else [region_shape um q, region_shape um p]),
         mk_comment := ''Invalid connection '' @ cc_name (conn_of db (ucn_connection k)) @ '': ''
           @ region_text db um p @ '' to '' @ region_text db um q\<rparr>)"

lemma region_parent:
  assumes ok: "um_ok db um" and p: "region_ok (um_chips um) p"
  shows "ur_parent_chip (region_at um p) = Some (fst p)"
proof -
  have "chip_ok (fst p) (erased um ! fst p)" "fst p < length (um_chips um)"
    using ok p by (auto simp: um_ok_def chips_ok_def region_ok_def)
  with p show ?thesis
    by (auto simp: chip_ok_def region_ok_def region_at_def erase_chip_def)
qed

lemma conn_regions_ok:
  assumes ok: "um_ok db um" and k: "k \<in> set (um_connections um)"
  shows "ucn_top_region k = Some p \<Longrightarrow> region_ok (um_chips um) p"
    and "ucn_bottom_region k = Some q \<Longrightarrow> region_ok (um_chips um) q"
  using ok k by (auto simp: um_ok_def conn_ok_def refers_def)

lemma connection_marker_eq:
  assumes ok: "um_ok db um" and k: "k \<in> set (um_connections um)" and inv: "\<not> isValid db um k"
  shows "connection_marker top_first db um k mk_dbMarker = Some (invalid_marker top_first db um k)"
proof -
  obtain p q where pq: "ucn_top_region k = Some p" "ucn_bottom_region k = Some q"
    using invalid_regions [OF inv] by blast
  have "ur_parent_chip (region_at um p) = Some (fst p)" "ur_parent_chip (region_at um q) = Some (fst q)"
    using region_parent [OF ok] conn_regions_ok [OF ok k] pq by blast+
  with pq show ?thesis
    by (auto simp: connection_marker_def describe_def Let_def invalid_marker_def region_text_def
        region_shape_def dbMarker_addSource_def dbMarker_addShape_def dbMarker_setComment_def mk_dbMarker_def)
qed

lemma checkConnectionRegions_eq:
  assumes "um_ok db um"
  shows "checkConnectionRegions top_first db um top_cat = found ''Connection regions''
    (map (invalid_marker top_first db um) (filter (\<lambda>k. \<not> isValid db um k) (um_connections um))) top_cat"
  unfolding checkConnectionRegions_def foldM_filter
  by (rule report_loop) (auto intro: connection_marker_eq [OF assms])

section \<open>Overlapping chips\<close>

lemma sweep_inner_eq:
  assumes "sorted (map (\<lambda>c. cub_xlo (chip_cuboid um c)) cs)"
  shows "sweep_inner um c1 cs =
    map (Pair c1) (filter (\<lambda>c2. Cuboid_overlaps (chip_cuboid um c1) (chip_cuboid um c2)) cs)"
  using assms
proof (induction cs)
  case (Cons c cs)
  show ?case
  proof (cases "cub_xhi (chip_cuboid um c1) \<le> cub_xlo (chip_cuboid um c)")
    case True
    then have "\<forall>c2\<in>set (c # cs). \<not> Cuboid_overlaps (chip_cuboid um c1) (chip_cuboid um c2)"
      using Cons.prems by (auto simp: Cuboid_overlaps_def)
    with True show ?thesis by (simp add: filter_False)
  qed (use Cons in simp)
qed simp

lemma Cuboid_overlaps_sym: "Cuboid_overlaps a b = Cuboid_overlaps b a"
  by (auto simp: Cuboid_overlaps_def)

lemma sweep_sound:
  assumes "sorted (map (\<lambda>c. cub_xlo (chip_cuboid um c)) cs)" and "distinct cs"
  shows "set (sweep um cs) \<subseteq> {(a, b). a \<in> set cs \<and> b \<in> set cs \<and> a \<noteq> b \<and>
    Cuboid_overlaps (chip_cuboid um a) (chip_cuboid um b)}"
  using assms by (induction cs) (auto simp: sweep_inner_eq)

lemma distinct_filter_one: "distinct xs \<Longrightarrow> y \<in> set xs \<Longrightarrow> length (filter (\<lambda>x. x = y) xs) = 1"
  by (induction xs) (auto simp: filter_empty_conv)

lemma sweep_unique:
  assumes "sorted (map (\<lambda>c. cub_xlo (chip_cuboid um c)) cs)" and "distinct cs"
    and "a \<in> set cs" "b \<in> set cs" "a \<noteq> b" "Cuboid_overlaps (chip_cuboid um a) (chip_cuboid um b)"
  shows "length (filter (\<lambda>p. p = (a, b) \<or> p = (b, a)) (sweep um cs)) = 1"
  using assms
proof (induction cs)
  case (Cons c cs)
  let ?P = "\<lambda>p. p = (a, b) \<or> p = (b, a)"
  have s: "sorted (map (\<lambda>c. cub_xlo (chip_cuboid um c)) cs)" "distinct cs" "c \<notin> set cs" using Cons.prems by auto
  note inner = sweep_inner_eq [OF s(1), of c]
  have one: "length (filter (\<lambda>x. x = y) cs) = 1" if "y \<in> set cs" for y
    using s(2) that by (simp add: distinct_filter_one)
  show ?case
  proof (cases "c = a \<or> c = b")
    case True
    let ?y = "if c = a then b else a"
    have y: "?y \<in> set cs" "Cuboid_overlaps (chip_cuboid um c) (chip_cuboid um ?y)"
      using Cons.prems True by (auto simp: Cuboid_overlaps_sym)
    have "filter ?P (sweep um cs) = []"
      using sweep_sound [OF s(1,2)] s(3) True by (auto simp: filter_empty_conv)
    moreover have "filter ?P (sweep_inner um c cs) = map (Pair c) (filter (\<lambda>x. x = ?y) cs)"
      using True y(2) Cons.prems(5) unfolding inner by (induction cs) auto
    ultimately show ?thesis using one [OF y(1)] by simp
  next
    case False
    then have "filter ?P (sweep_inner um c cs) = []" unfolding inner by (auto simp: filter_empty_conv)
    with False Cons s show ?thesis by simp
  qed
qed simp

text \<open>
  What the sweep reports: every pair of chips whose cuboids overlap, in one of its two orders and once.
\<close>

lemma overlapping_chips_correct:
  assumes srt: "std_sort_on (\<lambda>c. cub_xlo (chip_cuboid um c)) srt"
  shows "set (overlapping_chips srt um) \<subseteq> {(a, b). a < length (um_chips um) \<and> b < length (um_chips um) \<and> a \<noteq> b \<and>
      Cuboid_overlaps (chip_cuboid um a) (chip_cuboid um b)}"
    and "a < length (um_chips um) \<Longrightarrow> b < length (um_chips um) \<Longrightarrow> a \<noteq> b \<Longrightarrow>
      Cuboid_overlaps (chip_cuboid um a) (chip_cuboid um b) \<Longrightarrow>
      length (filter (\<lambda>p. p = (a, b) \<or> p = (b, a)) (overlapping_chips srt um)) = 1"
proof -
  let ?cs = "srt [0..<length (um_chips um)]"
  have m: "mset ?cs = mset [0..<length (um_chips um)]"
    and s: "sorted (map (\<lambda>c. cub_xlo (chip_cuboid um c)) ?cs)" by (rule std_sort_onD [OF srt])+
  have set: "set ?cs = {..<length (um_chips um)}" unfolding std_sort_onD(3) [OF srt] by (simp add: lessThan_atLeast0)
  have d: "distinct ?cs" using mset_eq_imp_distinct_iff [OF m] by simp
  show "set (overlapping_chips srt um) \<subseteq> {(a, b). a < length (um_chips um) \<and> b < length (um_chips um) \<and> a \<noteq> b \<and>
      Cuboid_overlaps (chip_cuboid um a) (chip_cuboid um b)}"
    using sweep_sound [OF s d] set by (auto simp: overlapping_chips_def)
  show "length (filter (\<lambda>p. p = (a, b) \<or> p = (b, a)) (overlapping_chips srt um)) = 1"
    if "a < length (um_chips um)" "b < length (um_chips um)" "a \<noteq> b"
      "Cuboid_overlaps (chip_cuboid um a) (chip_cuboid um b)"
    using sweep_unique [OF s d] set that by (auto simp: overlapping_chips_def)
qed

definition overlap_found :: "UnfoldedModel \<Rightarrow> nat \<times> nat \<Rightarrow> dbMarker" where
  "overlap_found um = (\<lambda>(a, b). mk_dbMarker
     \<lparr>mk_sources := {s. snd s \<noteq> 0 \<and> s \<in> {(dbChipInstObj, last (uc_chip_inst_path (um_chips um ! a))),
        (dbChipInstObj, last (uc_chip_inst_path (um_chips um ! b)))}},
      mk_shapes := [ShapeCuboid (the (Cuboid_intersect (chip_cuboid um a) (chip_cuboid um b)))],
      mk_comment := ''Chips '' @ uc_name (um_chips um ! a) @ '' and '' @ uc_name (um_chips um ! b) @ '' overlap''\<rparr>)"

lemma overlaps_intersects: "Cuboid_overlaps a b \<Longrightarrow> Cuboid_intersects a b"
  by (auto simp: Cuboid_overlaps_def Cuboid_intersects_def)

lemma checkOverlappingChips_eq:
  assumes srt: "std_sort_on (\<lambda>c. cub_xlo (chip_cuboid um c)) srt"
  shows "checkOverlappingChips asserts srt um top_cat =
    found ''Overlapping chips'' (map (overlap_found um) (overlapping_chips srt um)) top_cat"
  unfolding checkOverlappingChips_def
proof (rule report_loop)
  fix p assume "p \<in> set (overlapping_chips srt um)"
  then obtain a b where "p = (a, b)" "Cuboid_intersects (chip_cuboid um a) (chip_cuboid um b)"
    using subsetD [OF overlapping_chips_correct(1) [OF srt]] overlaps_intersects by blast
  then show "overlap_marker asserts um p mk_dbMarker = Some (overlap_found um p)"
    by (auto simp: overlap_marker_def overlap_found_def intersect_in_build_def Cuboid_intersect_def
        chip_source_def dbMarker_addSource_def dbMarker_addShape_def dbMarker_setComment_def mk_dbMarker_def)
qed

section \<open>Logical connectivity\<close>

text \<open>
  The pairs of bumps of a connection that are aligned and not on the same net. A bump is aligned with the
  last bump of the bottom region at its x and y.
\<close>

definition aligned_mismatches ::
    "dbDatabase \<Rightarrow> UnfoldedModel \<Rightarrow> UnfoldedConnection \<Rightarrow> (bump_ptr \<times> bump_ptr) list" where
  "aligned_mismatches db um k =
     (case (ucn_top_region k, ucn_bottom_region k) of
        (Some (c1, j1), Some (c2, j2)) \<Rightarrow>
          if isValid db um k then
            [((c1, j1, k1), (c2, j2, k2)).
               (k1, b1) \<leftarrow> enumerate 0 (ur_bumps (region_at um (c1, j1))),
               k2 \<leftarrow> (case bot_bumps_at (region_at um (c2, j2)) (bump_xy b1) of None \<Rightarrow> [] | Some k2 \<Rightarrow> [k2]),
               bump_net_map um (c1, j1, k1) \<noteq> bump_net_map um (c2, j2, k2)]
          else []
      | _ \<Rightarrow> [])"

definition logical_found :: "dbDatabase \<Rightarrow> UnfoldedModel \<Rightarrow> bump_ptr \<times> bump_ptr \<Rightarrow> dbMarker" where
  "logical_found db um = (\<lambda>(a, b). the (logical_marker False db um a b mk_dbMarker))"

lemma check_connection_bumps_eq:
  "check_connection_bumps asserts db um s k =
     foldM (\<lambda>s p. report ''Logical Connectivity'' (logical_marker asserts db um (fst p) (snd p)) s) s
       (aligned_mismatches db um k)"
proof (cases "isValid db um k \<and> ucn_top_region k \<noteq> None \<and> ucn_bottom_region k \<noteq> None")
  case True
  then obtain c1 j1 c2 j2 where k: "ucn_top_region k = Some (c1, j1)" "ucn_bottom_region k = Some (c2, j2)"
    by auto
  let ?r1 = "region_at um (c1, j1)" and ?m = "bot_bumps_at (region_at um (c2, j2))"
  let ?R = "\<lambda>s p. report ''Logical Connectivity'' (logical_marker asserts db um (fst p) (snd p)) s"
  have "foldM (\<lambda>s (k1, top_bump). (case ?m (bump_xy top_bump) of
          None \<Rightarrow> Some s
        | Some k2 \<Rightarrow> if bump_net_map um (c1, j1, k1) \<noteq> bump_net_map um (c2, j2, k2)
            then report ''Logical Connectivity'' (logical_marker asserts db um (c1, j1, k1) (c2, j2, k2)) s
            else Some s)) s bs =
      foldM ?R s [((c1, j1, k1), (c2, j2, k2)). (k1, b1) \<leftarrow> bs,
        k2 \<leftarrow> (case ?m (bump_xy b1) of None \<Rightarrow> [] | Some k2 \<Rightarrow> [k2]),
        bump_net_map um (c1, j1, k1) \<noteq> bump_net_map um (c2, j2, k2)]" for bs
    by (induction bs arbitrary: s) (auto simp: foldM_append split: option.splits)
  with True show ?thesis by (simp add: check_connection_bumps_def aligned_mismatches_def k Let_def)
next
  case False
  then show ?thesis
    by (auto simp: check_connection_bumps_def aligned_mismatches_def split: option.splits)
qed

lemma logical_loop:
  "checkLogicalConnectivity asserts db um top_cat =
     do { (_, t) \<leftarrow> foldM (\<lambda>s p. report ''Logical Connectivity'' (logical_marker asserts db um (fst p) (snd p)) s)
            (False, top_cat) (concat (map (aligned_mismatches db um) (um_connections um)));
          Some t }"
  unfolding checkLogicalConnectivity_def foldM_concat [symmetric]
  by (simp add: check_connection_bumps_eq cong: foldM_cong)

lemma checkLogicalConnectivity_eq:
  "checkLogicalConnectivity False db um top_cat = found ''Logical Connectivity''
     (map (logical_found db um) (concat (map (aligned_mismatches db um) (um_connections um)))) top_cat"
  unfolding logical_loop
  by (rule report_loop)
     (auto simp: logical_found_def logical_marker_def intersect_in_build_def Let_def)

text \<open>
  The maps of the check: the last entry wins.
\<close>

definition last_index :: "(nat \<Rightarrow> bool) \<Rightarrow> nat \<Rightarrow> nat option" where
  "last_index P n = (if \<exists>i<n. P i then Some (Max {i. i < n \<and> P i}) else None)"

lemma last_index_Suc: "last_index P (Suc n) = (if P n then Some n else last_index P n)"
proof -
  have "{i. i < Suc n \<and> P i} = (if P n then insert n {i. i < n \<and> P i} else {i. i < n \<and> P i})"
    by (auto simp: less_Suc_eq)
  moreover have "Max (insert n {i. i < n \<and> P i}) = n" by (rule Max_eqI) auto
  ultimately show ?thesis by (auto simp: last_index_def less_Suc_eq)
qed

lemma enumerate_snoc: "enumerate n (xs @ [x]) = enumerate n xs @ [(n + length xs, x)]"
  by (simp add: enumerate_append)

lemma last_index_cong: "(\<And>i. i < n \<Longrightarrow> P i = Q i) \<Longrightarrow> last_index P n = last_index Q n"
  unfolding last_index_def by (metis (mono_tags, lifting) Collect_cong)

lemma bot_bumps_at_eq:
  "bot_bumps_at r pt = last_index (\<lambda>k. bump_xy (ur_bumps r ! k) = pt) (length (ur_bumps r))"
proof -
  have "foldl (\<lambda>m (k, b). m(bump_xy b \<mapsto> k)) Map.empty (enumerate 0 bs) pt =
      last_index (\<lambda>k. bump_xy (bs ! k) = pt) (length bs)" for bs
  proof (induction bs rule: rev_induct)
    case (snoc b bs)
    have "last_index (\<lambda>k. bump_xy ((bs @ [b]) ! k) = pt) (length bs) =
        last_index (\<lambda>k. bump_xy (bs ! k) = pt) (length bs)"
      by (rule last_index_cong) (simp add: nth_append)
    with snoc show ?case by (simp add: enumerate_snoc last_index_Suc)
  qed (simp add: last_index_def)
  then show ?thesis by (simp add: bot_bumps_at_def)
qed

lemma foldl_map_upd_set: "foldl (\<lambda>m b. m(b \<mapsto> i)) m bs x = (if x \<in> set bs then Some i else m x)"
  by (induction bs arbitrary: m) auto

lemma bump_net_map_eq:
  "bump_net_map um b = last_index (\<lambda>i. b \<in> set (un_connected_bumps (um_nets um ! i))) (length (um_nets um))"
proof -
  have "foldl (\<lambda>m (i, net). foldl (\<lambda>m b. m(b \<mapsto> i)) m (un_connected_bumps net)) Map.empty (enumerate 0 ns) b =
      last_index (\<lambda>i. b \<in> set (un_connected_bumps (ns ! i))) (length ns)" for ns
  proof (induction ns rule: rev_induct)
    case (snoc n ns)
    have "last_index (\<lambda>i. b \<in> set (un_connected_bumps ((ns @ [n]) ! i))) (length ns) =
        last_index (\<lambda>i. b \<in> set (un_connected_bumps (ns ! i))) (length ns)"
      by (rule last_index_cong) (simp add: nth_append)
    with snoc show ?case by (simp add: enumerate_snoc last_index_Suc foldl_map_upd_set del: fun_upd_apply)
  qed (simp add: last_index_def)
  then show ?thesis by (simp add: bump_net_map_def)
qed

text \<open>
  A valid connection of positive thickness keeps its regions apart in z, so with assertions on the first
  mismatch found across one ends the check.
\<close>

lemma valid_apart:
  assumes v: "isValid db um k" and k: "ucn_top_region k = Some p" "ucn_bottom_region k = Some q"
    and flat: "UR_isTop (region_at um p) \<or> UR_isBottom (region_at um p)"
      "UR_isTop (region_at um q) \<or> UR_isBottom (region_at um q)"
    and th: "cc_thickness (conn_of db (ucn_connection k)) > 0"
  shows "\<not> Cuboid_intersects (ur_cuboid (region_at um p)) (ur_cuboid (region_at um q))"
proof -
  have "\<not> UR_isInternalExt (region_at um p)" "\<not> UR_isInternalExt (region_at um q)"
    using flat by (auto simp: UR_isTop_def UR_isBottom_def UR_isInternalExt_def)
  with v k th show ?thesis
    by (auto simp: isValid_def getMatingSurfaces_def Let_def UR_getSurfaceZ_def UR_isTop_def UR_isBottom_def
        Cuboid_intersects_def split: if_splits)
qed

lemma logical_asserts:
  assumes k: "k \<in> set (um_connections um)" "((c1, j1, k1), (c2, j2, k2)) \<in> set (aligned_mismatches db um k)"
    and apart: "\<not> Cuboid_intersects (ur_cuboid (region_at um (c1, j1))) (ur_cuboid (region_at um (c2, j2)))"
  shows "checkLogicalConnectivity True db um top_cat = None"
proof -
  let ?p = "((c1, j1, k1), (c2, j2, k2))"
  let ?ps = "concat (map (aligned_mismatches db um) (um_connections um))"
  let ?R = "\<lambda>s p. report ''Logical Connectivity'' (logical_marker True db um (fst p) (snd p)) s"
  have "foldM ?R (False, top_cat) ?ps = None"
  proof (rule foldM_None)
    show "?p \<in> set ?ps" using k by auto
    show "?R s ?p = None" for s
      by (rule report_fails) (simp add: logical_marker_def intersect_in_build_def apart Let_def)
  qed
  then show ?thesis by (simp add: logical_loop)
qed

end
