(* ===== verification/FloatingChips.thy ===== *)
theory FloatingChips
  imports CheckerLaws
begin

text \<open>
  The floating chips. The valid connections make a graph on the chips and one more node, the ground;
  \<open>tied\<close> is connectedness in it. The check reports the components without the ground, biggest first,
  each once and complete; when nothing is tied to the ground one biggest component is let off.
\<close>

section \<open>The graph\<close>

definition chip_edge :: "dbDatabase \<Rightarrow> UnfoldedModel \<Rightarrow> UnfoldedConnection \<Rightarrow> (nat \<times> nat) option" where
  "chip_edge db um k =
     (if \<not> isValid db um k then None
      else case (ucn_top_region k, ucn_bottom_region k) of
        (Some p, Some q) \<Rightarrow> Some (fst p, fst q)
      | (Some p, None) \<Rightarrow> Some (fst p, length (um_chips um))
      | (None, Some q) \<Rightarrow> Some (fst q, length (um_chips um))
      | (None, None) \<Rightarrow> None)"

definition tied :: "dbDatabase \<Rightarrow> UnfoldedModel \<Rightarrow> (nat \<times> nat) set" where
  "tied db um = sym_closure (List.map_filter (chip_edge db um) (um_connections um))"

definition component :: "dbDatabase \<Rightarrow> UnfoldedModel \<Rightarrow> nat \<Rightarrow> nat set" where
  "component db um i = {j. j < length (um_chips um) \<and> (i, j) \<in> tied db um}"

definition grounded :: "dbDatabase \<Rightarrow> UnfoldedModel \<Rightarrow> nat \<Rightarrow> bool" where
  "grounded db um i \<longleftrightarrow> (i, length (um_chips um)) \<in> tied db um"

definition loose_components :: "dbDatabase \<Rightarrow> UnfoldedModel \<Rightarrow> nat set set" where
  "loose_components db um = {component db um i | i. i < length (um_chips um) \<and> \<not> grounded db um i}"

lemma chip_map_find_parent:
  assumes "um_ok db um" and "region_ok (um_chips um) p"
  shows "chip_map_find um (ur_parent_chip (region_at um p)) = Some (fst p)" and "fst p < length (um_chips um)"
  using region_parent [OF assms] assms(2) by (auto simp: chip_map_find_def region_ok_def)

lemma unite_connection_edge:
  assumes ok: "um_ok db um" and k: "k \<in> set (um_connections um)"
  shows "unite_connection db um u k =
      (case chip_edge db um k of None \<Rightarrow> Some u | Some e \<Rightarrow> UF_unite u (fst e) (snd e))"
    and "chip_edge db um k = Some e \<Longrightarrow> fst e < length (um_chips um) + 1 \<and> snd e < length (um_chips um) + 1"
proof -
  note find = chip_map_find_parent [OF ok conn_regions_ok(1) [OF ok k]]
    chip_map_find_parent [OF ok conn_regions_ok(2) [OF ok k]]
  show "unite_connection db um u k =
      (case chip_edge db um k of None \<Rightarrow> Some u | Some e \<Rightarrow> UF_unite u (fst e) (snd e))"
    using find by (simp add: unite_connection_def chip_edge_def Let_def split: option.splits)
  show "chip_edge db um k = Some e \<Longrightarrow> fst e < length (um_chips um) + 1 \<and> snd e < length (um_chips um) + 1"
    using find by (fastforce simp: chip_edge_def split: if_splits option.splits)
qed

lemma unite_loop:
  assumes ok: "um_ok db um"
  obtains u where "foldM (unite_connection db um) (mk_UnionFind (length (um_chips um) + 1)) (um_connections um) = Some u"
    "UF_inv u" "length (uf_parent u) = length (um_chips um) + 1"
    "\<And>i j. i \<le> length (um_chips um) \<Longrightarrow> j \<le> length (um_chips um) \<Longrightarrow> uf_rep u i = uf_rep u j \<longleftrightarrow> (i, j) \<in> tied db um"
proof -
  let ?es = "List.map_filter (chip_edge db um) (um_connections um)" and ?n = "length (um_chips um) + 1"
  have "\<forall>e\<in>set ?es. fst e < ?n \<and> snd e < ?n"
    using unite_connection_edge(2) [OF ok] by (auto simp: map_filter_def simp del: One_nat_def)
  then obtain u where u: "unite_all UF_unite ?es (mk_UnionFind ?n) = Some u" "UF_inv u"
    "length (uf_parent u) = ?n" "\<forall>i<?n. \<forall>j<?n. uf_rep u i = uf_rep u j \<longleftrightarrow> (i, j) \<in> sym_closure ?es"
    using uf.unite_all_mk by blast
  have "foldM (unite_connection db um) (mk_UnionFind ?n) (um_connections um) =
      foldM (\<lambda>u k. case chip_edge db um k of None \<Rightarrow> Some u | Some e \<Rightarrow> UF_unite u (fst e) (snd e))
        (mk_UnionFind ?n) (um_connections um)"
    by (rule foldM_cong) (rule unite_connection_edge(1) [OF ok])
  with u(1) have "foldM (unite_connection db um) (mk_UnionFind ?n) (um_connections um) = Some u"
    by (simp add: foldM_map_filter foldM_unite_all)
  with u show thesis by (intro that [of u]) (auto simp: tied_def)
qed

section \<open>Groups\<close>

definition members :: "(nat \<Rightarrow> nat) \<Rightarrow> nat \<Rightarrow> nat \<Rightarrow> nat list" where
  "members r n l = filter (\<lambda>i. r i = l) [0..<n]"

lemma group_loop:
  assumes "find_all UF_find xs u = Some (ls, u')"
  shows "foldM add_to_group (u, gs) xs = Some (u', foldl (\<lambda>gs (l, i). gs[l := gs ! l @ [i]]) gs (zip ls xs))"
  using assms
  by (induction xs arbitrary: u ls gs) (auto simp: add_to_group_def bind_eq_Some_conv)

lemma foldl_groups:
  assumes "\<forall>i\<in>set xs. r i < length gs"
  shows "foldl (\<lambda>gs (l, i). gs[l := gs ! l @ [i]]) gs (zip (map r xs) xs) =
    map (\<lambda>l. gs ! l @ filter (\<lambda>i. r i = l) xs) [0..<length gs]"
  using assms
proof (induction xs arbitrary: gs)
  case (Cons x xs)
  then show ?case by (auto intro!: map_cong simp: nth_list_update)
qed (simp add: map_nth)

lemma groups_of_chips:
  assumes u: "UF_inv u" "length (uf_parent u) = m" and n: "n \<le> m"
  obtains u' where "foldM add_to_group (u, replicate m []) [0..<n] =
      Some (u', map (members (uf_rep u) n) [0..<m])"
    "UF_inv u'" "length (uf_parent u') = m" "\<forall>i<m. uf_rep u' i = uf_rep u i"
proof -
  have "\<forall>i\<in>set [0..<n]. i < length (uf_parent u)" using u n by auto
  then obtain u' where f: "find_all UF_find [0..<n] u = Some (map (uf_rep u) [0..<n], u')"
    and u': "UF_inv u'" "length (uf_parent u') = m" "\<forall>i<m. uf_rep u' i = uf_rep u i"
    using uf.find_all [OF u(1), of "[0..<n]"] u(2) by auto
  have "\<forall>i\<in>set [0..<n]. uf_rep u i < length (replicate m [])"
    using uf.rep_range [OF u(1)] u(2) n by simp
  from foldl_groups [OF this] have "foldl (\<lambda>gs (l, i). gs[l := gs ! l @ [i]]) (replicate m [])
      (zip (map (uf_rep u) [0..<n]) [0..<n]) = map (members (uf_rep u) n) [0..<m]"
    by (auto simp: members_def intro!: map_cong)
  with group_loop [OF f] u' show thesis by (intro that [of u']) simp_all
qed

lemma erase_at_map_upt:
  assumes "g < n"
  shows "erase_at (map f [0..<n]) g = map f (filter (\<lambda>l. l \<noteq> g) [0..<n])"
proof -
  have "[0..<n] = [0..<g] @ g # [Suc g..<n]"
    using assms upt_split [of 0 g n] by (simp add: upt_conv_Cons)
  moreover have "filter (\<lambda>l. l \<noteq> g) ([0..<g] @ g # [Suc g..<n]) = [0..<g] @ [Suc g..<n]"
    by (simp add: filter_id_conv)
  ultimately show ?thesis using assms by (simp add: erase_at_def take_map drop_map)
qed

lemma members_set: "set (members r n l) = {i. i < n \<and> r i = l}"
  by (auto simp: members_def)

lemma members_sorted: "sorted_wrt (<) (members r n l)"
  unfolding members_def by (intro sorted_wrt_filter sorted_wrt_upt)

definition loose_groups :: "(nat \<Rightarrow> nat) \<Rightarrow> nat \<Rightarrow> nat \<Rightarrow> nat \<Rightarrow> nat list list" where
  "loose_groups r n m g = filter (\<lambda>xs. xs \<noteq> []) (map (members r n) (filter (\<lambda>l. l \<noteq> g) [0..<m]))"

lemma loose_groups_props:
  assumes r: "\<And>i. i < n \<Longrightarrow> r i < m"
  shows "distinct (loose_groups r n m g)" and "inj_on set (set (loose_groups r n m g))"
    and "set ` set (loose_groups r n m g) = {{j. j < n \<and> r j = r i} | i. i < n \<and> r i \<noteq> g}"
    and "\<forall>xs\<in>set (loose_groups r n m g). sorted_wrt (<) xs"
proof -
  have inj: "inj_on (\<lambda>l. set (members r n l)) {l. members r n l \<noteq> []}"
  proof (rule inj_onI)
    fix l l' assume l: "l \<in> {l. members r n l \<noteq> []}" and e: "set (members r n l) = set (members r n l')"
    from l have "hd (members r n l) \<in> set (members r n l)" by simp
    then obtain i where "i \<in> set (members r n l)" by blast
    with e have "i \<in> set (members r n l)" "i \<in> set (members r n l')" by simp_all
    then show "l = l'" by (simp add: members_set)
  qed
  have eq: "loose_groups r n m g = map (members r n) (filter (\<lambda>l. members r n l \<noteq> []) (filter (\<lambda>l. l \<noteq> g) [0..<m]))"
    by (simp add: loose_groups_def filter_map comp_def)
  from inj have "inj_on (members r n) {l. members r n l \<noteq> []}" by (auto simp: inj_on_def)
  then show "distinct (loose_groups r n m g)" unfolding eq
    by (auto simp: distinct_map intro: inj_on_subset)
  show "inj_on set (set (loose_groups r n m g))"
    using inj unfolding eq by (auto simp: inj_on_def)
  have "members r n (r i) \<noteq> []" if "i < n" for i
  proof -
    have "i \<in> set (members r n (r i))" using that by (simp add: members_set)
    then show ?thesis by auto
  qed
  moreover have "\<exists>i<n. r i = l" if "members r n l \<noteq> []" for l
    using that members_set [of r n l] by (metis (mono_tags, lifting) empty_Collect_eq set_empty)
  ultimately show "set ` set (loose_groups r n m g) = {{j. j < n \<and> r j = r i} | i. i < n \<and> r i \<noteq> g}"
    unfolding eq using r by (auto simp: image_image members_set)
  show "\<forall>xs\<in>set (loose_groups r n m g). sorted_wrt (<) xs"
    by (auto simp: loose_groups_def members_sorted)
qed

section \<open>What is reported\<close>

definition reported :: "dbDatabase \<Rightarrow> UnfoldedModel \<Rightarrow> nat list list \<Rightarrow> bool" where
  "reported db um gs \<longleftrightarrow> distinct gs \<and> inj_on set (set gs) \<and> (\<forall>g\<in>set gs. sorted_wrt (<) g) \<and>
     sorted_wrt (\<lambda>a b. length b \<le> length a) gs \<and>
     (if \<exists>i<length (um_chips um). grounded db um i then set ` set gs = loose_components db um
      else loose_components db um = {} \<and> gs = [] \<or>
        (\<exists>B\<in>loose_components db um. (\<forall>C\<in>loose_components db um. card C \<le> card B) \<and>
           set ` set gs = loose_components db um - {B}))"

lemma std_sort_length:
  assumes "std_sort_on (\<lambda>g. int (length g)) srt" and "distinct gs"
  shows "distinct (srt gs)" and "set (srt gs) = set gs" and "sorted_wrt (\<lambda>a b. length a \<le> length b) (srt gs)"
proof -
  show "distinct (srt gs)" using mset_eq_imp_distinct_iff [OF std_sort_onD(1) [OF assms(1), of gs]] assms(2) by simp
  show "set (srt gs) = set gs" by (rule std_sort_onD(3) [OF assms(1)])
  show "sorted_wrt (\<lambda>a b. length a \<le> length b) (srt gs)"
    using std_sort_onD(2) [OF assms(1), of gs] by (simp add: sorted_wrt_map)
qed

lemma sorted_wrt_rev_length:
  "sorted_wrt (\<lambda>a b. length b \<le> length a) (rev gs) = sorted_wrt (\<lambda>a b. length a \<le> length b) gs"
  by (simp add: sorted_wrt_rev)

lemma reported_all:
  assumes L: "distinct L" "sorted_wrt (\<lambda>a b. length a \<le> length b) L" "inj_on set (set L)"
      "\<forall>g\<in>set L. sorted_wrt (<) g" "set ` set L = loose_components db um"
    and g: "\<exists>i<length (um_chips um). grounded db um i"
  shows "reported db um (rev L)"
  using assms by (simp add: reported_def sorted_wrt_rev_length)

lemma reported_butlast:
  assumes L: "distinct L" "sorted_wrt (\<lambda>a b. length a \<le> length b) L" "inj_on set (set L)"
      "\<forall>g\<in>set L. sorted_wrt (<) g" "set ` set L = loose_components db um"
    and g: "\<not> (\<exists>i<length (um_chips um). grounded db um i)" and ne: "L \<noteq> []"
  shows "reported db um (rev (butlast L))"
proof -
  obtain M B where M: "L = M @ [B]" using ne by (cases L rule: rev_cases) auto
  have card: "card (set C) = length C" if "C \<in> set L" for C
    using L(4) that by (auto intro: distinct_card simp: strict_sorted_iff)
  have "\<forall>C\<in>set ` set L. card C \<le> card (set B)"
    using L(2) card by (auto simp: M sorted_wrt_append)
  then have "\<forall>C\<in>loose_components db um. card C \<le> card (set B)" unfolding L(5) .
  moreover have "set ` set M = loose_components db um - {set B}"
    using L(1,3,5) by (auto simp: M inj_on_def)
  moreover have "set B \<in> loose_components db um" using L(5) by (auto simp: M)
  ultimately have "\<exists>B\<in>loose_components db um. (\<forall>C\<in>loose_components db um. card C \<le> card B) \<and>
      set ` set (rev (butlast L)) = loose_components db um - {B}" by (auto simp: M)
  moreover have "distinct (rev (butlast L))" "inj_on set (set (rev (butlast L)))"
    "\<forall>g\<in>set (rev (butlast L)). sorted_wrt (<) g" using L(1,3,4) by (auto simp: M)
  moreover have "sorted_wrt (\<lambda>a b. length b \<le> length a) (rev (butlast L))"
    unfolding sorted_wrt_rev_length using L(2) by (simp add: M sorted_wrt_append)
  ultimately show ?thesis unfolding reported_def if_not_P [OF g] by blast
qed

lemma floating_groups_correct:
  assumes ok: "um_ok db um" and srt: "std_sort_on (\<lambda>g. int (length g)) srt"
  obtains gs where "floating_groups srt db um = Some gs" "reported db um gs"
proof -
  let ?n = "length (um_chips um)"
  obtain u where u: "foldM (unite_connection db um) (mk_UnionFind (?n + 1)) (um_connections um) = Some u"
    "UF_inv u" "length (uf_parent u) = ?n + 1"
    and tied: "\<And>i j. i \<le> ?n \<Longrightarrow> j \<le> ?n \<Longrightarrow> uf_rep u i = uf_rep u j \<longleftrightarrow> (i, j) \<in> tied db um"
    using unite_loop [OF ok] by metis
  let ?r = "uf_rep u"
  let ?g = "?r ?n"
  obtain u' where u': "foldM add_to_group (u, replicate (?n + 1) []) [0..<?n] =
      Some (u', map (members ?r ?n) [0..<?n + 1])" "UF_inv u'" "length (uf_parent u') = ?n + 1"
      "\<forall>i<?n + 1. uf_rep u' i = ?r i"
    using groups_of_chips [OF u(2,3), of ?n] by auto
  obtain u'' where find: "UF_find u' ?n = Some (?g, u'')" using uf.find [OF u'(2), of ?n] u'(3,4) by auto
  have g: "?g < ?n + 1" using uf.rep_range [OF u(2), of ?n] u(3) by simp
  define H where "H = loose_groups ?r ?n (?n + 1) ?g"
  define L where "L = srt H"
  have r: "?r i < ?n + 1" if "i < ?n" for i using uf.rep_range [OF u(2), of i] u(3) that by simp
  note H = loose_groups_props [of ?n ?r "?n + 1" ?g, OF r, folded H_def]
  note L = std_sort_length [OF srt H(1), folded L_def]
  have empty: "members ?r ?n ?g = [] \<longleftrightarrow> \<not> (\<exists>i < ?n. grounded db um i)"
    using tied by (auto simp: members_def filter_empty_conv grounded_def)
  have "{{j. j < ?n \<and> ?r j = ?r i} | i. i < ?n \<and> ?r i \<noteq> ?g} = loose_components db um"
  proof -
    have "{j. j < ?n \<and> ?r j = ?r i} = component db um i" "?r i \<noteq> ?g \<longleftrightarrow> \<not> grounded db um i" if "i < ?n" for i
      using tied [of i] that by (auto simp: component_def grounded_def eq_commute [of "?r i"])
    then show ?thesis unfolding loose_components_def by blast
  qed
  with H(3) L(2) have cls: "set ` set L = loose_components db um" by simp
  have inj: "inj_on set (set L)" and asc: "\<forall>g\<in>set L. sorted_wrt (<) g" using H(2,4) L(2) by simp_all
  let ?gs = "rev (if \<not> (\<exists>i < ?n. grounded db um i) \<and> L \<noteq> [] then butlast L else L)"
  let ?G = "map (members ?r ?n) [0..<?n + 1]"
  have "?G ! ?g = members ?r ?n ?g" using g by (simp del: upt_Suc)
  moreover have "srt (filter (\<lambda>xs. xs \<noteq> []) (erase_at ?G ?g)) = L"
    unfolding L_def H_def loose_groups_def erase_at_map_upt [OF g] ..
  moreover have "floating_groups srt db um = Some (rev
      (if ?G ! ?g = [] \<and> srt (filter (\<lambda>xs. xs \<noteq> []) (erase_at ?G ?g)) \<noteq> []
       then butlast (srt (filter (\<lambda>xs. xs \<noteq> []) (erase_at ?G ?g)))
       else srt (filter (\<lambda>xs. xs \<noteq> []) (erase_at ?G ?g))))"
    by (simp only: floating_groups_def u(1) u'(1) find Let_def Option.bind.simps prod.case)
  ultimately have "floating_groups srt db um = Some ?gs" by (simp only: empty)
  moreover have "reported db um ?gs"
  proof (cases "\<exists>i < ?n. grounded db um i")
    case True
    then show ?thesis using reported_all [OF L(1,3) inj asc cls] by simp
  next
    case False
    show ?thesis
    proof (cases "L = []")
      case True
      with False cls show ?thesis by (simp add: reported_def)
    next
      case ne: False
      with False reported_butlast [OF L(1,3) inj asc cls] show ?thesis by simp
    qed
  qed
  ultimately show thesis by (rule that)
qed

end
