(* ===== verification/CheckerResult.thy ===== *)
theory CheckerResult
  imports FloatingChips
begin

text \<open>
  The whole check: which categories it leaves under \<^verbatim>\<open>3DBlox\<close> and when it does not get to the
  end. A category that would need more than 10000 markers makes the code use a null marker.
\<close>

definition violations ::
    "build \<Rightarrow> dbDatabase \<Rightarrow> UnfoldedModel \<Rightarrow> nat list list \<Rightarrow> (string \<times> dbMarker list) list" where
  "violations bld db um floating =
     [(''Logical Connectivity'',
         map (logical_found db um) (concat (map (aligned_mismatches db um) (um_connections um)))),
      (''Floating chips'', map (\<lambda>g. floating_marker um g mk_dbMarker) floating),
      (''Overlapping chips'', map (overlap_found um) (overlapping_chips (bld_sort_chips bld) um)),
      (''Unused internal_ext'', map (\<lambda>r. unused_marker db r mk_dbMarker)
         (filter (\<lambda>r. UR_isInternalExt r \<and> \<not> ur_isUsed r) (model_regions um))),
      (''Connection regions'', map (invalid_marker (bld_top_first bld) db um)
         (filter (\<lambda>k. \<not> isValid db um k) (um_connections um))),
      (''Bump Alignment'', map (\<lambda>(r, b). bump_marker db r b mk_dbMarker)
         (filter (\<lambda>(r, b). bump_outside r b) (model_bumps um)))]"

definition build_ok :: "build \<Rightarrow> UnfoldedModel \<Rightarrow> bool" where
  "build_ok bld um \<longleftrightarrow> std_sort_on (\<lambda>g. int (length g)) (bld_sort_groups bld) \<and>
     std_sort_on (\<lambda>c. cub_xlo (chip_cuboid um c)) (bld_sort_chips bld)"

definition category_of :: "string \<times> dbMarker list \<Rightarrow> dbMarkerCategory" where
  "category_of = (\<lambda>(name, ms). MarkerCategory name '''' '''' 10000 ms [])"

definition checked_category :: "(string \<times> dbMarker list) list \<Rightarrow> dbMarkerCategory" where
  "checked_category vs =
     MarkerCategory ''3DBlox'' '''' '''' 10000 [] (map category_of (filter (\<lambda>(name, ms). ms \<noteq> []) vs))"

lemma checkFloatingChips_eq:
  assumes "floating_groups srt db um = Some gs"
  shows "checkFloatingChips srt db um top_cat =
    found ''Floating chips'' (map (\<lambda>g. floating_marker um g mk_dbMarker) gs) top_cat"
  by (simp add: checkFloatingChips_def assms) (rule report_loop, simp)

lemma run_checks_found:
  assumes ok: "um_ok db um" and bld: "build_ok bld um" "\<not> bld_asserts bld"
    and gs: "floating_groups (bld_sort_groups bld) db um = Some gs"
  shows "run_checks bld db um top_cat = foldM (\<lambda>t (name, ms). found name ms t) top_cat (violations bld db um gs)"
proof -
  have srt: "std_sort_on (\<lambda>c. cub_xlo (chip_cuboid um c)) (bld_sort_chips bld)"
    using bld(1) by (simp add: build_ok_def)
  show ?thesis
    unfolding run_checks_def violations_def foldM.simps prod.case
      checkFloatingChips_eq [OF gs] checkOverlappingChips_eq [OF srt]
      checkInternalExtUsage_eq checkConnectionRegions_eq [OF ok] checkBumpPhysicalAlignment_eq
    using bld(2) by (simp add: checkLogicalConnectivity_eq)
qed

lemma foldM_found:
  assumes "distinct (map cat_name (cat_categories cat) @ map fst vs)"
  shows "foldM (\<lambda>t (name, ms). found name ms t) (Some cat) vs =
    (if \<forall>v\<in>set vs. length (snd v) \<le> 10000
     then Some (Some (set_categories cat (cat_categories cat @
       map category_of (filter (\<lambda>(name, ms). ms \<noteq> []) vs)))) else None)"
  using assms
proof (induction vs arbitrary: cat)
  case (Cons v vs)
  obtain name ms where v: "v = (name, ms)" by fastforce
  show ?case
  proof (cases "ms = []")
    case True
    with Cons show ?thesis by (simp add: v found_def)
  next
    case False
    have "\<forall>c\<in>set (cat_categories cat). cat_name c \<noteq> name" using Cons.prems by (auto simp: v)
    then have w: "with_category cat name ms = set_categories cat (cat_categories cat @ [category_of v])"
      by (simp add: with_category_def category_of_def v filter_id_conv)
    have "distinct (map cat_name (cat_categories (set_categories cat (cat_categories cat @ [category_of v]))) @ map fst vs)"
      using Cons.prems by (auto simp: v category_of_def)
    from Cons.IH [OF this] False show ?thesis by (simp add: v found_def w [unfolded v] split: prod.splits)
  qed
qed simp

lemma run_checks_result:
  assumes "um_ok db um" "build_ok bld um" "\<not> bld_asserts bld"
    "floating_groups (bld_sort_groups bld) db um = Some gs"
  shows "run_checks bld db um (Some (mk_dbMarkerCategory ''3DBlox'')) =
    (if \<forall>v\<in>set (violations bld db um gs). length (snd v) \<le> 10000
     then Some (Some (checked_category (violations bld db um gs))) else None)"
proof -
  have "distinct (map cat_name (cat_categories (mk_dbMarkerCategory ''3DBlox'')) @ map fst (violations bld db um gs))"
    by (simp add: mk_dbMarkerCategory_def violations_def)
  from foldM_found [OF this] show ?thesis
    unfolding run_checks_found [OF assms]
    by (simp add: checked_category_def mk_dbMarkerCategory_def)
qed

section \<open>The database after the check\<close>

definition chip_categories :: "dbDatabase \<Rightarrow> MarkerCategories" where
  "chip_categories db = chip_marker_categories (chip_of db (db_chip db))"

definition db_ok :: "dbDatabase \<Rightarrow> bool" where
  "db_ok db \<longleftrightarrow> tbl_inv (chip_tbl db) \<and> dbTable_getPtr (chip_tbl db) (db_chip db) \<noteq> None \<and>
     mcs_ok (chip_categories db)"

lemma Checker_check_result:
  assumes db: "db_ok db" and um: "um_ok db um" "build_ok bld um" "\<not> bld_asserts bld"
    and gs: "floating_groups (bld_sort_groups bld) db um = Some gs"
  shows "if \<forall>v\<in>set (violations bld db um gs). length (snd v) \<le> 10000
    then \<exists>db' i. Checker_check bld db (Some um) = Some db' \<and> mcs_ok (chip_categories db') \<and>
      mcs_map (chip_categories db') ''3DBlox'' = Some i \<and>
      dbTable_getPtr (mcs_tbl (chip_categories db')) i = Some (checked_category (violations bld db um gs)) \<and>
      (\<forall>j c. dbTable_getPtr (mcs_tbl (chip_categories db)) j = Some c \<longrightarrow> cat_name c \<noteq> ''3DBlox'' \<longrightarrow>
         dbTable_getPtr (mcs_tbl (chip_categories db')) j = Some c)
    else Checker_check bld db (Some um) = None"
proof -
  obtain chip where chip: "dbTable_getPtr (chip_tbl db) (db_chip db) = Some chip"
    and inv: "tbl_inv (chip_tbl db)" and ok: "mcs_ok (chip_categories db)"
    using db by (auto simp: db_ok_def)
  have nz: "db_chip db \<noteq> 0" using chip tbl.null [OF inv] by (metis option.distinct(1))
  obtain cs i where cs: "top_createOrReplace (chip_categories db) ''3DBlox'' = (cs, i)" "mcs_ok cs" "i \<noteq> 0"
    "mcs_map cs ''3DBlox'' = Some i" "dbTable_getPtr (mcs_tbl cs) i = Some (mk_dbMarkerCategory ''3DBlox'')"
    "\<And>j c. dbTable_getPtr (mcs_tbl (chip_categories db)) j = Some c \<Longrightarrow> cat_name c \<noteq> ''3DBlox'' \<Longrightarrow>
       dbTable_getPtr (mcs_tbl cs) j = Some c"
    by (rule top_createOrReplace_ok [OF ok, of "''3DBlox''"]) (use that in blast)
  let ?vs = "violations bld db um gs"
  let ?cs = "cs\<lparr>mcs_tbl := dbTable_update (mcs_tbl cs) i (\<lambda>_. checked_category ?vs)\<rparr>"
  let ?db = "db\<lparr>chip_tbl := dbTable_update (chip_tbl db) (db_chip db) (\<lambda>c. c\<lparr>chip_marker_categories := ?cs\<rparr>)\<rparr>"
  have run: "Checker_check bld db (Some um) =
      (if \<forall>v\<in>set ?vs. length (snd v) \<le> 10000 then Some ?db else None)"
    unfolding Checker_check_def Let_def using nz cs(1,3,5) run_checks_result [OF um gs]
    by (simp add: chip_categories_def)
  have cat: "chip_categories ?db = ?cs"
    using tbl.assign [OF inv chip] by (simp add: chip_categories_def deref_def)
  from tbl.assign [OF mcs_okD(1) [OF cs(2)] cs(5), of "\<lambda>_. checked_category ?vs"]
  have t: "tbl_inv (mcs_tbl ?cs)"
    "dbTable_getPtr (mcs_tbl ?cs) = (dbTable_getPtr (mcs_tbl cs))(i \<mapsto> checked_category ?vs)" by simp_all
  have name: "cat_name (checked_category ?vs) = ''3DBlox''" by (simp add: checked_category_def)
  have "mcs_ok ?cs"
    using cs(2,5) t(1) unfolding mcs_ok_def t(2) by (auto simp: name mk_dbMarkerCategory_def)
  moreover have "dbTable_getPtr (mcs_tbl ?cs) j = Some c"
    if "dbTable_getPtr (mcs_tbl (chip_categories db)) j = Some c" "cat_name c \<noteq> ''3DBlox''" for j c
    using cs(5,6) that unfolding t(2) by (auto simp: mk_dbMarkerCategory_def)
  ultimately show ?thesis using run cat cs(4) t(2) by auto
qed

end
