(* ===== verification/SceneLimits.thy ===== *)
theory SceneLimits
  imports SceneHeights CheckerResult
begin

text \<open>
  Where the scene goes wrong: more layers than the vector was reserved for, names whose hash is negative or the
  least \<^verbatim>\<open>int\<close>, names of cuts that two vias share, and markers of subcategories.
\<close>

section \<open>The fifty-first layer\<close>

lemma fifty_first_layer_dangles:
  assumes "layers_ok N st" "length (ss_layers st) = 50" "name \<notin> layer_names st" "stippleForLayer name = Inr p"
  obtains st' where "getOrCreateLayer env name z st = Inr (50, st')"
    "\<forall>old \<in> layer_names st. \<forall>z'. getOrCreateLayer env old z' st' = Inl BadPointer"
proof -
  obtain l where l: "new_layer_record env name z = Inr l" using assms(4) by (simp add: new_layer_record_def Let_def)
  have none: "ss_layer_map st name = None"
  proof (rule ccontr)
    assume "ss_layer_map st name \<noteq> None"
    then obtain m i where "ss_layer_map st name = Some (m, i)" by auto
    then have "i < length (ss_layers st)" "lr_name (ss_layers st ! i) = name" using assms(1) by (auto simp: layers_ok_def)
    with assms(3) show False by (auto simp: layer_names_def dest: nth_mem)
  qed
  have m: "ss_moves st = 0" "ss_capacity st = 50" using assms(1) by (simp_all add: layers_ok_def)
  let ?st = "(push_layer env l st)\<lparr>ss_layer_map := (ss_layer_map st)(name \<mapsto> (1, 50))\<rparr>"
  have g: "getOrCreateLayer env name z st = Inr (50, ?st)"
    using assms(2) m by (simp add: getOrCreateLayer_def none l Let_def push_layer_def)
  have "getOrCreateLayer env old z' ?st = Inl BadPointer" if old: "old \<in> layer_names st" for old z'
  proof -
    obtain i where "i < length (ss_layers st)" "lr_name (ss_layers st ! i) = old"
      using old by (auto simp: layer_names_def in_set_conv_nth)
    then have "ss_layer_map st old = Some (0, i)" using assms(1) unfolding layers_ok_def by blast
    moreover have "old \<noteq> name" using old assms(3) by blast
    ultimately show ?thesis using assms(2) m by (simp add: getOrCreateLayer_def push_layer_def Let_def)
  qed
  with that [OF g] show ?thesis by blast
qed

section \<open>Hashes\<close>

lemma find_in_set: "List.find P xs = Some x \<Longrightarrow> x \<in> set xs"
  by (induction xs) (auto split: if_splits)

lemma abs_int32:
  "abs_int32 w = (if w = 0x80000000 then - (2 ^ 31) else \<bar>sint w\<bar>)"
proof -
  have r: "- (2 ^ 31) \<le> sint w \<and> sint w < 2 ^ 31" using sint_range_size [of w] by (simp add: word_size)
  show ?thesis
  proof (cases "sint w < 0")
    case True
    show ?thesis
    proof (cases "sint w = - (2 ^ 31)")
      case True
      then have "sint w = sint (0x80000000 :: 32 word)" by simp
      then have "w = 0x80000000" by (rule signed_word_eqI)
      then show ?thesis by (simp add: abs_int32_def)
    next
      case False
      have "sint (- w) = signed_take_bit 31 (- sint w)" by (simp add: sint_word_ariths)
      then have "sint (- w) = - sint w"
        using r False True by (simp add: signed_take_bit_int_eq_self)
      moreover have "w \<noteq> 0x80000000" using False by auto
      ultimately show ?thesis using True by (simp add: abs_int32_def)
    qed
  next
    case False
    moreover have "sint (0x80000000 :: 32 word) < 0" by simp
    ultimately show ?thesis by (auto simp: abs_int32_def)
  qed
qed

lemma stippleForLayer_cases:
  "stippleForLayer name =
     (if name_hash name = 0x80000000 then Inl OutOfRange
      else Inr (kStippleNames ! nat (\<bar>sint (name_hash name)\<bar> mod 14)))"
proof (cases "name_hash name = 0x80000000")
  case True
  have "(- (2 ^ 31) :: int) smod 14 < 0" by code_simp
  with True show ?thesis by (simp add: stippleForLayer_def abs_int32 kStippleNames_def)
next
  case False
  have "a smod 14 = a mod 14" if "0 \<le> a" for a :: int
    using that by (cases "a = 0") (simp_all add: smod_int_alt_def)
  with False show ?thesis by (simp add: stippleForLayer_def abs_int32 kStippleNames_def)
qed

lemma stipple_names:
  assumes "stippleForLayer name = Inr p"
  shows "p \<in> set kStippleNames"
proof -
  have "nat (\<bar>sint (name_hash name)\<bar> mod 14) < length kStippleNames"
    by (simp add: kStippleNames_def)
  with assms show ?thesis by (auto simp: stippleForLayer_cases split: if_splits)
qed

lemma polygenelubricants: "stippleForLayer ''polygenelubricants'' = Inl OutOfRange"
  by code_simp

text \<open>The fixed colours and those of the hash all have a positive component: the second hash is never used.\<close>

lemma colorFromLayerName_fixed:
  assumes "0 < fl (9/10)"
  shows "colorFromLayerName fl dbl name = fixedLayerColor fl dbl name"
proof -
  let ?c = "fixedLayerColor fl dbl name"
  have "fl (9/10) \<in> {col_r ?c, col_g ?c, col_b ?c}"
  proof (cases "List.find (\<lambda>(names, _). name \<in> set names) metal_colors")
    case None
    then show ?thesis by (simp add: fixedLayerColor_def hsv_color_def Let_def)
  next
    case (Some m)
    then have "m \<in> set metal_colors" by (rule find_in_set)
    then show ?thesis using Some by (auto simp: fixedLayerColor_def metal_colors_def)
  qed
  with assms show ?thesis by (auto simp: colorFromLayerName_def Let_def)
qed

definition in_unit :: "rat \<Rightarrow> bool" where
  "in_unit x \<longleftrightarrow> 0 \<le> x \<and> x \<le> 1"

text \<open>In exact arithmetic a hash that is not negative gives a colour, and one that is negative may not.\<close>

lemma hsv_color_in_unit:
  assumes "0 \<le> h" "h < 1"
  shows "in_unit (col_r (hsv_color (\<lambda>x. x) h (75/100) (9/10) c)) \<and> in_unit (col_g (hsv_color (\<lambda>x. x) h (75/100) (9/10) c)) \<and>
    in_unit (col_b (hsv_color (\<lambda>x. x) h (75/100) (9/10) c))"
proof -
  define f where "f = h * 6 - of_int (trunc_to_int (h * 6))"
  have t: "trunc_to_int (h * 6) = \<lfloor>h * 6\<rfloor>" using assms by (simp add: trunc_to_int_def)
  have f: "0 \<le> f" "f < 1" unfolding f_def t by linarith+
  have "in_unit (9/10 * (1 - 75/100))" "in_unit (9/10)" "in_unit (9/10 * (1 - f * (75/100)))" "in_unit (9/10 * (1 - (1 - f) * (75/100)))"
    using f by (auto simp: in_unit_def field_simps)
  then show ?thesis by (simp add: hsv_color_def Let_def f_def [symmetric])
qed

lemma layer_color_in_unit:
  assumes "0 \<le> sint (name_hash name)"
  shows "in_unit (col_r (colorFromLayerName (\<lambda>x. x) (\<lambda>x. x) name)) \<and> in_unit (col_g (colorFromLayerName (\<lambda>x. x) (\<lambda>x. x) name)) \<and>
    in_unit (col_b (colorFromLayerName (\<lambda>x. x) (\<lambda>x. x) name))"
proof -
  let ?x = "of_int (sint (name_hash name)) * (618033988749 / 10 ^ 12) :: rat"
  have "(0 :: rat) \<le> of_int (sint (name_hash name))" using assms by (subst of_int_0_le_iff)
  then have "0 \<le> ?x" by (rule mult_nonneg_nonneg) simp
  then have h: "0 \<le> hue_of_hash (\<lambda>x. x) (\<lambda>x. x) name" "hue_of_hash (\<lambda>x. x) (\<lambda>x. x) name < 1"
    unfolding hue_of_hash_def fmod_1_def trunc_to_int_def by (simp_all, linarith+)
  show ?thesis
  proof (cases "List.find (\<lambda>(names, _). name \<in> set names) metal_colors")
    case None
    then show ?thesis
      using hsv_color_in_unit [OF h] by (simp add: colorFromLayerName_fixed fixedLayerColor_def)
  next
    case (Some m)
    then have "m \<in> set metal_colors" by (rule find_in_set)
    then show ?thesis
      using Some by (auto simp: colorFromLayerName_fixed fixedLayerColor_def metal_colors_def in_unit_def)
  qed
qed

lemma blockage_color: "1 < col_b (colorFromLayerName (\<lambda>x. x) (\<lambda>x. x) ''blockage'')"
  by code_simp

section \<open>Names and markers\<close>

text \<open>The cut from layer 1 to layer 12 and the one from 11 to 2 are on the same layer of the scene.\<close>

lemma cut_names_collide:
  "tl_number a = 1 \<Longrightarrow> tl_number b = 12 \<Longrightarrow> tl_number c = 11 \<Longrightarrow> tl_number d = 2 \<Longrightarrow>
   getViaLayerName (Some b) (Some a) = getViaLayerName (Some d) (Some c)"
proof -
  have "int_to_string 1 @ int_to_string 12 = int_to_string 11 @ int_to_string 2" by code_simp
  then show "tl_number a = 1 \<Longrightarrow> tl_number b = 12 \<Longrightarrow> tl_number c = 11 \<Longrightarrow> tl_number d = 2 \<Longrightarrow>
   getViaLayerName (Some b) (Some a) = getViaLayerName (Some d) (Some c)" by (simp add: getViaLayerName_def)
qed

text \<open>The builder goes over the markers of the top categories, and not of those below them.\<close>

definition marker_view :: "(dbMarker \<Rightarrow> string) \<Rightarrow> dbMarkerCategory list \<Rightarrow> scene_marker list list" where
  "marker_view getName cats = map (\<lambda>c. map (\<lambda>m. \<lparr>ma_marker = m, ma_name = getName m\<rparr>) (cat_markers c)) cats"

lemma violations_not_drawn:
  "processDrcMarkers env (block\<lparr>bl_marker_categories := marker_view getName [checked_category vs]\<rparr>) st = Inr st"
  by (simp add: processDrcMarkers_def marker_view_def checked_category_def)

end
