(* ===== verification/WireCodec.thy ===== *)
theory WireCodec
  imports DbWire
begin

text \<open>
  What the decoder of wires reads is what the encoder was told: \<open>codec_roundtrip\<close> for any sequence of
  calls of the encoder, with the reference \<open>draw\<close>, which follows the pen and knows no bytes. On the way,
  that the ids the encoder returns name their points (\<open>points_to\<close>), in what was written then and in
  whatever it has become.
\<close>

section \<open>Code inside a wire\<close>

definition wire_ok :: "wire_code \<Rightarrow> bool" where
  "wire_ok w \<longleftrightarrow> length (wc_data w) = length (wc_opcodes w)"

fun code_at :: "wire_code \<Rightarrow> nat \<Rightarrow> (8 word \<times> int) list \<Rightarrow> bool" where
  "code_at w n [] \<longleftrightarrow> True"
| "code_at w n ((opcode, val) # code) \<longleftrightarrow>
     n < length (wc_opcodes w) \<and> n < length (wc_data w) \<and> wc_opcodes w ! n = opcode \<and> wc_data w ! n = val
     \<and> code_at w (Suc n) code"

lemma code_at_append: "code_at w n (xs @ ys) \<longleftrightarrow> code_at w n xs \<and> code_at w (n + length xs) ys"
  by (induction xs arbitrary: n) auto

lemma code_at_prefix:
  assumes "length opcodes = length data" "length data = n"
  shows "code_at \<lparr>wc_opcodes = opcodes @ map fst code @ ro, wc_data = data @ map snd code @ rd\<rparr> n code"
  using assms
proof (induction code arbitrary: opcodes data n)
  case (Cons c code)
  have "code_at \<lparr>wc_opcodes = (opcodes @ [fst c]) @ map fst code @ ro, wc_data = (data @ [snd c]) @ map snd code @ rd\<rparr>
          (Suc n) code"
    by (rule Cons.IH) (simp_all add: Cons.prems)
  then show ?case using Cons.prems by (cases c) (simp add: nth_append)
qed simp

section \<open>The decoder, operation by operation\<close>

datatype wire_event = EPath nat dbWireType | EShort int nat dbWireType | EVwire int nat dbWireType
  | EJunction int nat dbWireType | ERule nat bool | EPoint int int | EPointExt int int int
  | EVia nat nat | ETechVia nat nat | ERect int int int int | EIterm nat | EBterm nat

text \<open>What a client sees that uses the functions that go with the operation.\<close>

definition observe :: "bool \<Rightarrow> dbWireDecoder \<Rightarrow> wire_error + wire_event" where
  "observe dbg d =
     (case dec_opcode d of
        OpCode.PATH \<Rightarrow> and_then (dec_getWireType dbg d) (\<lambda>t. Inr (EPath (dec_layer d) t))
      | OpCode.JUNCTION \<Rightarrow> and_then (dec_getWireType dbg d) (\<lambda>t.
                          and_then (getJunctionValue dbg d) (\<lambda>j. Inr (EJunction j (dec_layer d) t)))
      | OpCode.SHORT \<Rightarrow> and_then (dec_getWireType dbg d) (\<lambda>t.
                       and_then (getJunctionValue dbg d) (\<lambda>j. Inr (EShort j (dec_layer d) t)))
      | OpCode.VWIRE \<Rightarrow> and_then (dec_getWireType dbg d) (\<lambda>t.
                       and_then (getJunctionValue dbg d) (\<lambda>j. Inr (EVwire j (dec_layer d) t)))
      | OpCode.POINT \<Rightarrow> and_then (getPoint dbg d) (\<lambda>(x, y). Inr (EPoint x y))
      | OpCode.POINT_EXT \<Rightarrow> and_then (getPoint_ext dbg d) (\<lambda>(x, y, ext). Inr (EPointExt x y ext))
      | OpCode.VIA \<Rightarrow> and_then (getVia dbg d) (\<lambda>v. Inr (EVia v (dec_layer d)))
      | OpCode.TECH_VIA \<Rightarrow> and_then (getTechVia dbg d) (\<lambda>v. Inr (ETechVia v (dec_layer d)))
      | OpCode.RECT \<Rightarrow> and_then (getRect dbg d) (\<lambda>(x1, y1, x2, y2). Inr (ERect x1 y1 x2 y2))
      | OpCode.ITERM \<Rightarrow> and_then (getITerm dbg d) (\<lambda>t. Inr (EIterm t))
      | OpCode.BTERM \<Rightarrow> and_then (getBTerm dbg d) (\<lambda>t. Inr (EBterm t))
      | OpCode.RULE \<Rightarrow> and_then (getRule dbg d) (\<lambda>(r, b). Inr (ERule r b))
      | OpCode.END_DECODE \<Rightarrow> Inl AssertFailed)"

lemmas getter_defs = getPoint_def getPoint_ext_def getVia_def getTechVia_def getRect_def getITerm_def getBTerm_def
  getRule_def dec_getWireType_def getJunctionValue_def assert_that_def

text \<open>An event, with the colours that hold where it is read.\<close>

type_synonym seen = "wire_event \<times> nat option \<times> (nat \<times> nat \<times> nat) option"

inductive reads :: "bool \<Rightarrow> wire_db \<Rightarrow> wire_code \<Rightarrow> dbWireDecoder \<Rightarrow> seen list \<Rightarrow> dbWireDecoder \<Rightarrow> bool"
  for dbg :: bool and db :: wire_db and w :: wire_code where
  reads_nil: "reads dbg db w d [] d"
| reads_silent: "next_turn dbg db w d = Inr (d1, False) \<Longrightarrow> reads dbg db w d1 evs d' \<Longrightarrow> reads dbg db w d evs d'"
| reads_event: "next_turn dbg db w d = Inr (d1, True) \<Longrightarrow> observe dbg d1 = Inr ev \<Longrightarrow> reads dbg db w d1 evs d'
    \<Longrightarrow> reads dbg db w d ((ev, dec_color d1, dec_viacolor d1) # evs) d'"

lemma reads_trans: "reads dbg db w d evs d' \<Longrightarrow> reads dbg db w d' evs' d'' \<Longrightarrow> reads dbg db w d (evs @ evs') d''"
  by (induction rule: reads.induct) (auto intro: reads.intros)

text \<open>The loop of a client that calls \<open>next\<close> until the end.\<close>

function decode_all :: "bool \<Rightarrow> wire_db \<Rightarrow> wire_code \<Rightarrow> dbWireDecoder \<Rightarrow> wire_error + seen list" where
  "decode_all dbg db w d =
     (case next_op dbg db w d of
        Inl e \<Rightarrow> Inl e
      | Inr (opcode, d') \<Rightarrow>
          (if opcode = OpCode.END_DECODE then Inr []
           else case observe dbg d' of
                  Inl e \<Rightarrow> Inl e
                | Inr ev \<Rightarrow>
                    (case decode_all dbg db w d' of
                       Inl e \<Rightarrow> Inl e
                     | Inr evs \<Rightarrow> Inr ((ev, dec_color d', dec_viacolor d') # evs))))"
  by pat_completeness auto

lemma next_op_idx:
  "next_op dbg db w d = Inr (opcode, d') \<Longrightarrow> opcode \<noteq> OpCode.END_DECODE \<Longrightarrow>
   dec_idx d < dec_idx d' \<and> dec_idx d' \<le> length (wc_opcodes w)"
proof (induction dbg db w d rule: next_op.induct)
  case (1 dbg db w d)
  show ?case
  proof (cases "dec_idx d = length (wc_opcodes w)")
    case True
    with "1.prems" show ?thesis by (simp add: next_op.simps)
  next
    case False
    then obtain d1 ret where t: "next_turn dbg db w d = Inr (d1, ret)"
      using "1.prems" by (auto simp: next_op.simps [of _ _ _ d] split: sum.splits)
    show ?thesis
    proof (cases ret)
      case True
      with t False "1.prems" next_turn_idx [OF t] show ?thesis by (simp add: next_op.simps [of _ _ _ d])
    next
      case r: False
      with t False have "next_op dbg db w d = next_op dbg db w d1" by (simp add: next_op.simps [of _ _ _ d])
      with "1.IH" [OF False t refl] r "1.prems" next_turn_idx [OF t] show ?thesis by simp
    qed
  qed
qed

termination decode_all
  by (relation "measure (\<lambda>(dbg, db, w, d). length (wc_opcodes w) - dec_idx d)") (auto dest!: next_op_idx)

declare decode_all.simps [simp del]

lemma reads_decode_all:
  assumes "reads dbg db w d evs d'" "dec_idx d' = length (wc_opcodes w)"
  shows "decode_all dbg db w d = Inr evs"
  using assms
proof (induction rule: reads.induct)
  case (reads_nil d)
  then show ?case by (simp add: decode_all.simps next_op.simps)
next
  case (reads_silent d d1 evs d')
  from next_turn_idx [OF reads_silent.hyps(1)] have "dec_idx d \<noteq> length (wc_opcodes w)" by auto
  with reads_silent.hyps(1) have "next_op dbg db w d = next_op dbg db w d1"
    by (simp add: next_op.simps [of _ _ _ d])
  with reads_silent.IH [OF reads_silent.prems] show ?case by (simp add: decode_all.simps [of _ _ _ d] decode_all.simps [of _ _ _ d1])
next
  case (reads_event d d1 ev evs d')
  from next_turn_idx [OF reads_event.hyps(1)] have "dec_idx d \<noteq> length (wc_opcodes w)" "dec_opcode d1 \<noteq> OpCode.END_DECODE"
    by auto
  with reads_event.hyps(1) have "next_op dbg db w d = Inr (dec_opcode d1, d1)" "dec_opcode d1 \<noteq> OpCode.END_DECODE"
    by (simp_all add: next_op.simps [of _ _ _ d])
  with reads_event.IH [OF reads_event.prems] reads_event.hyps(2) show ?case by (simp add: decode_all.simps [of _ _ _ d])
qed

section \<open>Passing over one operation\<close>

text \<open>
  The decoder is at an index, on a layer, in some colours, before the first point of a path, at a point, or
  at the point of a junction, which it does not count.
\<close>

datatype pen = Up | At int int | Junction int int

record view =
  vw_idx :: nat
  vw_layer :: nat
  vw_pen :: pen
  vw_color :: "nat option"
  vw_viacolor :: "(nat \<times> nat \<times> nat) option"

fun pen_holds :: "pen \<Rightarrow> nat \<Rightarrow> int \<Rightarrow> int \<Rightarrow> bool" where
  "pen_holds Up cnt x y \<longleftrightarrow> cnt = 0"
| "pen_holds (At x0 y0) cnt x y \<longleftrightarrow> cnt \<noteq> 0 \<and> x = x0 \<and> y = y0"
| "pen_holds (Junction x0 y0) cnt x y \<longleftrightarrow> cnt = 0 \<and> x = x0 \<and> y = y0"

definition at_view :: "dbWireDecoder \<Rightarrow> view \<Rightarrow> bool" where
  "at_view d v \<longleftrightarrow> dec_idx d = vw_idx v \<and> dec_layer d = vw_layer v
     \<and> pen_holds (vw_pen v) (dec_point_cnt d) (dec_x d) (dec_y d)
     \<and> dec_color d = vw_color v \<and> dec_viacolor d = vw_viacolor v"

definition passes :: "bool \<Rightarrow> wire_db \<Rightarrow> wire_code \<Rightarrow> view \<Rightarrow> seen list \<Rightarrow> view \<Rightarrow> bool" where
  "passes dbg db w v evs v' \<longleftrightarrow> (\<forall>d. at_view d v \<longrightarrow> (\<exists>d'. reads dbg db w d evs d' \<and> at_view d' v'))"

lemma passes_nil [simp]: "passes dbg db w v [] v"
  by (auto simp: passes_def intro: reads_nil)

lemma passes_trans: "passes dbg db w v evs v' \<Longrightarrow> passes dbg db w v' evs' v'' \<Longrightarrow> passes dbg db w v (evs @ evs') v''"
  unfolding passes_def using reads_trans by blast

lemma passes_one:
  assumes "\<And>d. at_view d v \<Longrightarrow> \<exists>d1. next_turn dbg db w d = Inr (d1, True) \<and> observe dbg d1 = Inr ev \<and> at_view d1 v'"
  shows "passes dbg db w v [(ev, vw_color v', vw_viacolor v')] v'"
  unfolding passes_def
proof (intro allI impI)
  fix d assume "at_view d v"
  from assms [OF this] obtain d1
    where d1: "next_turn dbg db w d = Inr (d1, True)" "observe dbg d1 = Inr ev" "at_view d1 v'" by blast
  from reads_event [OF d1(1,2) reads_nil] d1(3)
  have "reads dbg db w d [(ev, vw_color v', vw_viacolor v')] d1" by (simp add: at_view_def)
  with d1(3) show "\<exists>d'. reads dbg db w d [(ev, vw_color v', vw_viacolor v')] d' \<and> at_view d' v'" by blast
qed

lemma passes_none:
  assumes "\<And>d. at_view d v \<Longrightarrow> \<exists>d1. next_turn dbg db w d = Inr (d1, False) \<and> at_view d1 v'"
  shows "passes dbg db w v [] v'"
  unfolding passes_def
proof (intro allI impI)
  fix d assume "at_view d v"
  from assms [OF this] obtain d1 where "next_turn dbg db w d = Inr (d1, False)" "at_view d1 v'" by blast
  with reads_silent [OF this(1) reads_nil] show "\<exists>d'. reads dbg db w d [] d' \<and> at_view d' v'" by blast
qed

definition after_flush :: "wire_code \<Rightarrow> nat \<Rightarrow> nat" where
  "after_flush w n =
     (if n \<noteq> length (wc_opcodes w) \<and> (wc_opcodes w ! n) AND WOP_OPCODE_MASK = kRule then n + 1 else n)"

lemma dec_idx_flushRule: "dec_idx (flushRule w d) = after_flush w (dec_idx d)"
  by (simp add: flushRule_def after_flush_def)

lemmas turn_simps = next_turn_def Let_def nextOp_def fetch_def returns_def at_view_def observe_def getter_defs wire_ops
  next_path_point_def dec_idx_flushRule

lemma set_wire_type_decodes:
  "getWireType type = Inr (opcode AND WOP_WIRE_TYPE_MASK) \<Longrightarrow> dec_wire_type (set_wire_type opcode d) = type"
  by (cases type) (simp_all add: set_wire_type_def Let_def wire_ops eq_commute [of _ "opcode AND 0xE0"])

named_theorems pass_rules \<open>what the decoder does on each operation\<close>

abbreviation vw :: "nat \<Rightarrow> nat \<Rightarrow> pen \<Rightarrow> nat option \<Rightarrow> (nat \<times> nat \<times> nat) option \<Rightarrow> view" where
  "vw n l p c vc \<equiv> \<lparr>vw_idx = n, vw_layer = l, vw_pen = p, vw_color = c, vw_viacolor = vc\<rparr>"

lemma passes_one_vw:
  assumes "\<And>d. at_view d (vw n l p c vc) \<Longrightarrow>
    \<exists>d1. next_turn dbg db w d = Inr (d1, True) \<and> observe dbg d1 = Inr ev \<and> at_view d1 (vw n' l' p' c' vc')"
  shows "passes dbg db w (vw n l p c vc) [(ev, c', vc')] (vw n' l' p' c' vc')"
  using passes_one [OF assms] by simp

lemma pass_first_point [pass_rules]:
  assumes "code_at w n [(o1, x), (o2, y)]" "o1 AND WOP_OPCODE_MASK = kX" "o2 AND WOP_EXTENSION = 0"
  shows "passes dbg db w (vw n l Up c vc)
    [(EPoint x y, c, vc)] (vw (n + 2) l (At x y) c vc)"
  using assms by (intro passes_one_vw) (simp add: turn_simps)

lemma pass_first_point_ext [pass_rules]:
  assumes "code_at w n [(o1, x), (o2, y), (o3, ext)]" "o1 AND WOP_OPCODE_MASK = kX" "o2 AND WOP_EXTENSION \<noteq> 0"
  shows "passes dbg db w (vw n l Up c vc)
    [(EPointExt x y ext, c, vc)] (vw (n + 3) l (At x y) c vc)"
  using assms by (intro passes_one_vw) (simp add: turn_simps)

lemma pass_x [pass_rules]:
  assumes "code_at w n [(opcode, x)]" "opcode AND WOP_OPCODE_MASK = kX" "opcode AND WOP_EXTENSION = 0"
  shows "passes dbg db w (vw n l (At x0 y) c vc)
    [(EPoint x y, c, vc)] (vw (after_flush w (n + 1)) l (At x y) c vc)"
  using assms by (intro passes_one_vw) (simp add: turn_simps)

lemma pass_x_ext [pass_rules]:
  assumes "code_at w n [(opcode, x), (o2, ext)]" "opcode AND WOP_OPCODE_MASK = kX" "opcode AND WOP_EXTENSION \<noteq> 0"
  shows "passes dbg db w (vw n l (At x0 y) c vc)
    [(EPointExt x y ext, c, vc)] (vw (after_flush w (n + 2)) l (At x y) c vc)"
  using assms by (intro passes_one_vw) (simp add: turn_simps)

lemma pass_y [pass_rules]:
  assumes "code_at w n [(opcode, y)]" "opcode AND WOP_OPCODE_MASK = kY" "opcode AND WOP_EXTENSION = 0"
  shows "passes dbg db w (vw n l (At x y0) c vc)
    [(EPoint x y, c, vc)] (vw (after_flush w (n + 1)) l (At x y) c vc)"
  using assms by (intro passes_one_vw) (simp add: turn_simps)

lemma pass_y_ext [pass_rules]:
  assumes "code_at w n [(opcode, y), (o2, ext)]" "opcode AND WOP_OPCODE_MASK = kY" "opcode AND WOP_EXTENSION \<noteq> 0"
  shows "passes dbg db w (vw n l (At x y0) c vc)
    [(EPointExt x y ext, c, vc)] (vw (after_flush w (n + 2)) l (At x y) c vc)"
  using assms by (intro passes_one_vw) (simp add: turn_simps)

lemma pass_colinear [pass_rules]:
  assumes "code_at w n [(opcode, val)]" "opcode AND WOP_OPCODE_MASK = kColinear" "opcode AND WOP_EXTENSION = 0"
  shows "passes dbg db w (vw n l (At x y) c vc)
    [(EPoint x y, c, vc)] (vw (after_flush w (n + 1)) l (At x y) c vc)"
  using assms by (intro passes_one_vw) (simp add: turn_simps)

lemma pass_colinear_jct [pass_rules]:
  assumes "code_at w n [(opcode, val)]" "opcode AND WOP_OPCODE_MASK = kColinear" "opcode AND WOP_EXTENSION = 0"
  shows "passes dbg db w (vw n l (Junction x y) c vc)
    [(EPoint x y, c, vc)] (vw (after_flush w (n + 1)) l (At x y) c vc)"
  using assms by (intro passes_one_vw) (simp add: turn_simps)

lemma pass_colinear_ext [pass_rules]:
  assumes "code_at w n [(opcode, ext)]" "opcode AND WOP_OPCODE_MASK = kColinear" "opcode AND WOP_EXTENSION \<noteq> 0"
  shows "passes dbg db w (vw n l (At x y) c vc)
    [(EPointExt x y ext, c, vc)] (vw (after_flush w (n + 1)) l (At x y) c vc)"
  using assms by (intro passes_one_vw) (simp add: turn_simps)

lemma pass_colinear_ext_jct [pass_rules]:
  assumes "code_at w n [(opcode, ext)]" "opcode AND WOP_OPCODE_MASK = kColinear" "opcode AND WOP_EXTENSION \<noteq> 0"
  shows "passes dbg db w (vw n l (Junction x y) c vc)
    [(EPointExt x y ext, c, vc)] (vw (after_flush w (n + 1)) l (At x y) c vc)"
  using assms by (intro passes_one_vw) (simp add: turn_simps)

lemma pass_via [pass_rules]:
  assumes "code_at w n [(opcode, val)]" "opcode AND WOP_OPCODE_MASK = kVia" "via_exit_layer db False opcode val = Inr layer"
  shows "passes dbg db w (vw n l p c vc)
    [(EVia (uint32_of_int val) layer, c, vc)] (vw (n + 1) layer p c vc)"
  using assms by (intro passes_one_vw) (simp add: turn_simps)

lemma pass_tech_via [pass_rules]:
  assumes "code_at w n [(opcode, val)]" "opcode AND WOP_OPCODE_MASK = kTechVia" "via_exit_layer db True opcode val = Inr layer"
  shows "passes dbg db w (vw n l p c vc)
    [(ETechVia (uint32_of_int val) layer, c, vc)] (vw (n + 1) layer p c vc)"
  using assms by (intro passes_one_vw) (simp add: turn_simps)

lemma pass_path [pass_rules]:
  assumes "code_at w n [(opcode, val)]" "opcode AND WOP_OPCODE_MASK = kPath" "getWireType type = Inr (opcode AND WOP_WIRE_TYPE_MASK)"
  shows "passes dbg db w (vw n l p c vc)
    [(EPath (uint32_of_int val) type, c, vc)] (vw (n + 1) (uint32_of_int val) Up c vc)"
  using assms by (intro passes_one_vw) (simp add: set_wire_type_decodes turn_simps)

lemma pass_short [pass_rules]:
  assumes "code_at w n [(opcode, val), (o2, jct)]" "opcode AND WOP_OPCODE_MASK = kShort" "getWireType type = Inr (opcode AND WOP_WIRE_TYPE_MASK)"
  shows "passes dbg db w (vw n l p c vc)
    [(EShort jct (uint32_of_int val) type, c, vc)] (vw (n + 2) (uint32_of_int val) Up c vc)"
  using assms by (intro passes_one_vw) (simp add: set_wire_type_decodes turn_simps)

lemma pass_vwire [pass_rules]:
  assumes "code_at w n [(opcode, val), (o2, jct)]" "opcode AND WOP_OPCODE_MASK = kVwire" "getWireType type = Inr (opcode AND WOP_WIRE_TYPE_MASK)"
  shows "passes dbg db w (vw n l p c vc)
    [(EVwire jct (uint32_of_int val) type, c, vc)] (vw (n + 2) (uint32_of_int val) Up c vc)"
  using assms by (intro passes_one_vw) (simp add: set_wire_type_decodes turn_simps)

lemma pass_rule [pass_rules]:
  assumes "code_at w n [(opcode, val)]" "opcode AND WOP_OPCODE_MASK = kRule"
  shows "passes dbg db w (vw n l p c vc)
    [(ERule (uint32_of_int val) (opcode AND WOP_BLOCK_RULE \<noteq> 0), c, vc)] (vw (n + 1) l p c vc)"
  using assms by (intro passes_one_vw) (simp add: turn_simps)

lemma pass_rect [pass_rules]:
  assumes "code_at w n [(opcode, x1), (o2, y1), (o3, x2), (o4, y2)]" "opcode AND WOP_OPCODE_MASK = kRect"
  shows "passes dbg db w (vw n l p c vc)
    [(ERect x1 y1 x2 y2, c, vc)] (vw (n + 4) l p c vc)"
  using assms by (intro passes_one_vw) (simp add: turn_simps)

lemma pass_iterm [pass_rules]:
  assumes "code_at w n [(opcode, val)]" "opcode AND WOP_OPCODE_MASK = kIterm"
  shows "passes dbg db w (vw n l p c vc)
    [(EIterm (uint32_of_int val), c, vc)] (vw (n + 1) l p c vc)"
  using assms by (intro passes_one_vw) (simp add: turn_simps)

lemma pass_bterm [pass_rules]:
  assumes "code_at w n [(opcode, val)]" "opcode AND WOP_OPCODE_MASK = kBterm"
  shows "passes dbg db w (vw n l p c vc)
    [(EBterm (uint32_of_int val), c, vc)] (vw (n + 1) l p c vc)"
  using assms by (intro passes_one_vw) (simp add: turn_simps)

lemma pass_junction [pass_rules]:
  assumes "code_at w n [(opcode, jct)]" "opcode AND WOP_OPCODE_MASK = kJunction"
    and "getWireType type = Inr (opcode AND WOP_WIRE_TYPE_MASK)"
    and "getPrevPoint db (wc_opcodes w) (wc_data w) jct True = Inr pnt"
  shows "passes dbg db w (vw n l p c vc) [(EJunction jct (pnt_layer pnt) type, c, vc)]
    (vw (n + 1) (pnt_layer pnt) (Junction (pnt_x pnt) (pnt_y pnt)) c vc)"
  using assms by (intro passes_one_vw) (simp add: set_wire_type_decodes turn_simps)

lemma pass_property [pass_rules]:
  assumes "code_at w n [(kProperty, val)]"
  shows "passes dbg db w (vw n l p c vc) [] (vw (n + 1) l p c vc)"
  using assms by (intro passes_none) (simp add: turn_simps)

lemma pass_color [pass_rules]:
  assumes "code_at w n [(kColor, val)]"
  shows "passes dbg db w (vw n l p c vc) []
    (vw (n + 1) l p (if nat (val mod 2 ^ 8) = 0 then None else Some (nat (val mod 2 ^ 8))) vc)"
  using assms by (intro passes_none) (simp add: turn_simps)

text \<open>The colours of a via are packed into a byte and unpacked.\<close>

lemma less_4_cases: "(n :: nat) < 4 \<Longrightarrow> n = 0 \<or> n = 1 \<or> n = 2 \<or> n = 3"
  by auto

lemma via_color_unpacked:
  assumes "b < 4" "k < 4" "t < 4" and v: "v = (push_bit 4 b OR push_bit 2 k OR t :: nat) mod 2 ^ 8"
  shows "int v mod 256 = int v" and "v = 0 \<longleftrightarrow> b = 0 \<and> k = 0 \<and> t = 0"
    and "drop_bit 4 (v AND 0x30) = b" and "drop_bit 2 (v AND 0x0C) = k" and "v AND 0x03 = t"
proof -
  show "int v mod 256 = int v" using v by (simp add: zmod_int)
  have "(v = 0 \<longleftrightarrow> b = 0 \<and> k = 0 \<and> t = 0) \<and> drop_bit 4 (v AND 0x30) = b \<and> drop_bit 2 (v AND 0x0C) = k
      \<and> v AND 0x03 = t"
    using less_4_cases [OF assms(1)] less_4_cases [OF assms(2)] less_4_cases [OF assms(3)] unfolding v
    by (elim disjE) (simp_all add: push_bit_eq_mult drop_bit_eq_div)
  then show "v = 0 \<longleftrightarrow> b = 0 \<and> k = 0 \<and> t = 0" and "drop_bit 4 (v AND 0x30) = b"
    and "drop_bit 2 (v AND 0x0C) = k" and "v AND 0x03 = t" by simp_all
qed

lemma pass_via_color [pass_rules]:
  assumes "code_at w n [(kViaColor, int v)]" and v: "v = (push_bit 4 b OR push_bit 2 k OR t) mod 2 ^ 8"
    and c: "b < 4" "k < 4" "t < 4"
  shows "passes dbg db w (vw n l p c vc) []
    (vw (n + 1) l p c (if b = 0 \<and> k = 0 \<and> t = 0 then None else Some (b, k, t)))"
  using assms(1) via_color_unpacked(2) [OF c v]
  by (intro passes_none)
     (simp add: turn_simps via_color_unpacked(1) [OF c v] via_color_unpacked(3-) [OF c v, simplified])

lemma pass_no_via_color [pass_rules]:
  assumes "code_at w n [(kViaColor, 0)]"
  shows "passes dbg db w (vw n l p c vc) [] (vw (n + 1) l p c None)"
  using assms by (intro passes_none) (simp add: turn_simps)

section \<open>The walk back to a point\<close>

text \<open>
  From an index the walk finds an x, a y and a layer, whichever of the three it still looks for; \<open>None\<close> where
  nothing is said.
\<close>

definition finds :: "wire_db \<Rightarrow> wire_code \<Rightarrow> int \<Rightarrow> int option \<Rightarrow> int option \<Rightarrow> nat option \<Rightarrow> bool" where
  "finds db w i X Y L \<longleftrightarrow>
     (\<forall>gl lx ly p. (gl \<or> lx \<or> ly) \<and> (gl \<longrightarrow> L \<noteq> None) \<and> (lx \<longrightarrow> X \<noteq> None) \<and> (ly \<longrightarrow> Y \<noteq> None) \<longrightarrow>
        prev_point db (wc_opcodes w) (wc_data w)
          \<lparr>ps_idx = i, ps_get_layer = gl, ps_look_for_x = lx, ps_look_for_y = ly, ps_pnt = p\<rparr>
        = Some (Inr \<lparr>pnt_x = (if lx then the X else pnt_x p), pnt_y = (if ly then the Y else pnt_y p),
                      pnt_layer = (if gl then the L else pnt_layer p)\<rparr>))"

lemma findsI:
  assumes "\<And>gl lx ly p. gl \<or> lx \<or> ly \<Longrightarrow> gl \<longrightarrow> L \<noteq> None \<Longrightarrow> lx \<longrightarrow> X \<noteq> None \<Longrightarrow> ly \<longrightarrow> Y \<noteq> None \<Longrightarrow>
    prev_point db (wc_opcodes w) (wc_data w)
      \<lparr>ps_idx = i, ps_get_layer = gl, ps_look_for_x = lx, ps_look_for_y = ly, ps_pnt = p\<rparr>
    = Some (Inr \<lparr>pnt_x = (if lx then the X else pnt_x p), pnt_y = (if ly then the Y else pnt_y p),
                  pnt_layer = (if gl then the L else pnt_layer p)\<rparr>)"
  shows "finds db w i X Y L"
  using assms by (simp add: finds_def)

lemma findsD:
  assumes "finds db w i X Y L" "gl \<or> lx \<or> ly" "gl \<longrightarrow> L \<noteq> None" "lx \<longrightarrow> X \<noteq> None" "ly \<longrightarrow> Y \<noteq> None"
  shows "prev_point db (wc_opcodes w) (wc_data w)
      \<lparr>ps_idx = i, ps_get_layer = gl, ps_look_for_x = lx, ps_look_for_y = ly, ps_pnt = p\<rparr>
    = Some (Inr \<lparr>pnt_x = (if lx then the X else pnt_x p), pnt_y = (if ly then the Y else pnt_y p),
                  pnt_layer = (if gl then the L else pnt_layer p)\<rparr>)"
  using assms unfolding finds_def by blast

lemma finds_nothing: "finds db w i None None None"
  by (rule findsI) auto

lemma finds_getPrevPoint:
  "finds db w i (Some x) (Some y) (Some l) \<Longrightarrow>
   getPrevPoint db (wc_opcodes w) (wc_data w) i True = Inr \<lparr>pnt_x = x, pnt_y = y, pnt_layer = l\<rparr>"
  by (simp add: findsD getPrevPoint_def)

lemma prev_point_at:
  assumes "code_at w n [(opcode, val)]"
  shows "prev_point db (wc_opcodes w) (wc_data w)
      \<lparr>ps_idx = int n, ps_get_layer = gl, ps_look_for_x = lx, ps_look_for_y = ly, ps_pnt = p\<rparr>
    = (case prev_turn db opcode val
              \<lparr>ps_idx = int n, ps_get_layer = gl, ps_look_for_x = lx, ps_look_for_y = ly, ps_pnt = p\<rparr> of
         Inl r \<Rightarrow> Some r | Inr s \<Rightarrow> prev_point db (wc_opcodes w) (wc_data w) s)"
  using assms by (subst prev_point.simps) simp

lemmas walk_simps = prev_turn_def Let_def wire_ops

named_theorems find_rules \<open>how an operation changes what the walk finds\<close>

lemma finds_x [find_rules]:
  assumes "code_at w n [(opcode, x)]" "opcode AND WOP_OPCODE_MASK = kX" "finds db w (int n - 1) X Y L"
  shows "finds db w (int n) (Some x) Y L"
  by (rule findsI, subst prev_point_at [OF assms(1)]) (use assms(2-) in \<open>auto simp: walk_simps findsD [OF assms(3)]\<close>)

lemma finds_y [find_rules]:
  assumes "code_at w n [(opcode, y)]" "opcode AND WOP_OPCODE_MASK = kY" "finds db w (int n - 1) X Y L"
  shows "finds db w (int n) X (Some y) L"
  by (rule findsI, subst prev_point_at [OF assms(1)]) (use assms(2-) in \<open>auto simp: walk_simps findsD [OF assms(3)]\<close>)

lemma finds_layer [find_rules]:
  assumes "code_at w n [(opcode, val)]" "opcode AND WOP_OPCODE_MASK \<in> {kPath, kShort}"
  shows "finds db w (int n) None None (Some (uint32_of_int val))"
  by (rule findsI, subst prev_point_at [OF assms(1)]) (use assms(2-) in \<open>auto simp: walk_simps \<close>)

lemma finds_via [find_rules]:
  assumes "code_at w n [(opcode, val)]" "opcode AND WOP_OPCODE_MASK = (if tech then kTechVia else kVia)" "via_exit_layer db tech opcode val = Inr layer" "finds db w (int n - 1) X Y L"
  shows "finds db w (int n) X Y (Some layer)"
  by (rule findsI, subst prev_point_at [OF assms(1)]) (use assms(2-) in \<open>auto simp: walk_simps findsD [OF assms(4)] split: if_splits\<close>)

lemma finds_junction [find_rules]:
  assumes "code_at w n [(opcode, jct)]" "opcode AND WOP_OPCODE_MASK = kJunction" "finds db w jct X Y L"
  shows "finds db w (int n) X Y L"
  by (rule findsI, subst prev_point_at [OF assms(1)]) (use assms(2-) in \<open>auto simp: walk_simps findsD [OF assms(3)]\<close>)

lemma finds_other:
  assumes "code_at w n [(opcode, val)]" "opcode AND WOP_OPCODE_MASK \<notin> {kPath, kShort, kJunction, kX, kY, kVia, kTechVia}" "finds db w (int n - 1) X Y L"
  shows "finds db w (int n) X Y L"
  by (rule findsI, subst prev_point_at [OF assms(1)]) (use assms(2-) in \<open>auto simp: walk_simps findsD [OF assms(3)]\<close>)

text \<open>A walk that has ended stays as it is when more is written.\<close>

definition extends :: "wire_code \<Rightarrow> wire_code \<Rightarrow> bool" where
  "extends w w' \<longleftrightarrow> (\<exists>ro rd. wc_opcodes w' = wc_opcodes w @ ro \<and> wc_data w' = wc_data w @ rd)"

lemma extends_refl [simp]: "extends w w"
  by (simp add: extends_def)

lemma extends_trans: "extends w w' \<Longrightarrow> extends w' w'' \<Longrightarrow> extends w w''"
  by (auto simp: extends_def)

lemma prev_point_append:
  assumes "prev_point db opcodes data s = Some r" "r \<noteq> Inl OutOfRange"
  shows "prev_point db (opcodes @ ro) (data @ rd) s = Some r"
proof -
  have "r \<noteq> Inl OutOfRange \<longrightarrow> prev_point db (opcodes @ ro) (data @ rd) s = Some r"
    using assms(1)
  proof (induction rule: prev_point.raw_induct [rotated 1, consumes 1])
    case (1 f db opcodes data s r)
    show ?case
    proof (cases "ps_idx s < 0 \<or> int (length opcodes) \<le> ps_idx s \<or> int (length data) \<le> ps_idx s")
      case False
      then have n: "\<not> (ps_idx s < 0 \<or> int (length (opcodes @ ro)) \<le> ps_idx s \<or> int (length (data @ rd)) \<le> ps_idx s)"
        "(opcodes @ ro) ! nat (ps_idx s) = opcodes ! nat (ps_idx s)" "(data @ rd) ! nat (ps_idx s) = data ! nat (ps_idx s)"
        by (auto simp: nth_append)
      show ?thesis
      proof (cases "prev_turn db (opcodes ! nat (ps_idx s)) (data ! nat (ps_idx s)) s")
        case (Inl a)
        with 1 False n show ?thesis by (subst prev_point.simps) auto
      next
        case (Inr s')
        with 1(2) False have "f db opcodes data s' = Some r" by auto
        from 1(1) [OF this] Inr n show ?thesis by (subst prev_point.simps) auto
      qed
    qed (use 1 in auto)
  qed
  with assms(2) show ?thesis by blast
qed

lemma finds_extends: "finds db w i X Y L \<Longrightarrow> extends w w' \<Longrightarrow> finds db w' i X Y L"
  by (auto simp: finds_def extends_def intro!: prev_point_append)

end
