(* ===== verification/WireRoundtrip.thy ===== *)
theory WireRoundtrip
  imports WireCodec
begin

text \<open>
  Sequences of calls of the encoder (\<open>wire_cmd\<close>), what they mean on paper (\<open>draw\<close>: a pen on a layer that
  visits points), and the theorem that the decoder reads that back from the bytes.
\<close>

section \<open>Calls\<close>

text \<open>
  A junction is named by the number, from 0, of the call that returned its id. The two options of a path are
  its wire type (without it the encoder uses that of the path before) and its rule.
\<close>

datatype wire_cmd = AddPoint int int nat | AddPointExt int int int nat | AddVia nat | AddTechVia nat
  | AddRect int int int int | AddITerm nat | AddBTerm nat
  | SetColor nat | ClearColor | SetViaColor nat nat nat | ClearViaColor
  | NewPath nat dbWireType "(nat \<times> bool) option"
  | NewPathShort nat nat dbWireType "(nat \<times> bool) option"
  | NewPathVirtualWire nat nat dbWireType "(nat \<times> bool) option"
  | NewPathJct nat "dbWireType option" "(nat \<times> bool) option"
  | NewPathExt nat int "dbWireType option" "(nat \<times> bool) option"

definition jct_id :: "nat list \<Rightarrow> nat \<Rightarrow> int" where
  "jct_id ids k = (if k < length ids then int (ids ! k) else - 1)"

definition with_id ::
  "nat list \<Rightarrow> wire_error + dbWireEncoder \<times> nat \<Rightarrow> wire_error + dbWireEncoder \<times> nat list" where
  "with_id ids r = and_then r (\<lambda>(e, i). Inr (e, ids @ [i]))"

definition without_id :: "nat list \<Rightarrow> wire_error + dbWireEncoder \<Rightarrow> wire_error + dbWireEncoder \<times> nat list" where
  "without_id ids r = and_then r (\<lambda>e. Inr (e, ids))"

fun call ::
  "bool \<Rightarrow> wire_db \<Rightarrow> wire_cmd \<Rightarrow> dbWireEncoder \<times> nat list \<Rightarrow> wire_error + dbWireEncoder \<times> nat list" where
  "call dbg db (AddPoint x y prop) (e, ids) = with_id ids (addPoint dbg x y prop e)"
| "call dbg db (AddPointExt x y ext prop) (e, ids) = with_id ids (addPoint_ext dbg x y ext prop e)"
| "call dbg db (AddVia via) (e, ids) = with_id ids (addVia dbg db via e)"
| "call dbg db (AddTechVia via) (e, ids) = with_id ids (addTechVia dbg db via e)"
| "call dbg db (AddRect x1 y1 x2 y2) (e, ids) = without_id ids (addRect dbg x1 y1 x2 y2 e)"
| "call dbg db (AddITerm t) (e, ids) = without_id ids (addITerm dbg t e)"
| "call dbg db (AddBTerm t) (e, ids) = without_id ids (addBTerm dbg t e)"
| "call dbg db (SetColor c) (e, ids) = without_id ids (setColor c e)"
| "call dbg db ClearColor (e, ids) = Inr (clearColor e, ids)"
| "call dbg db (SetViaColor b c t) (e, ids) = without_id ids (setViaColor b c t e)"
| "call dbg db ClearViaColor (e, ids) = Inr (clearViaColor e, ids)"
| "call dbg db (NewPath layer type rule) (e, ids) = without_id ids
     (case rule of None \<Rightarrow> newPath layer type e | Some r \<Rightarrow> newPath_rule layer type r e)"
| "call dbg db (NewPathShort k layer type rule) (e, ids) = without_id ids
     (case rule of None \<Rightarrow> newPathShort dbg (jct_id ids k) layer type e
      | Some r \<Rightarrow> newPathShort_rule dbg (jct_id ids k) layer type r e)"
| "call dbg db (NewPathVirtualWire k layer type rule) (e, ids) = without_id ids
     (case rule of None \<Rightarrow> newPathVirtualWire dbg (jct_id ids k) layer type e
      | Some r \<Rightarrow> newPathVirtualWire_rule dbg (jct_id ids k) layer type r e)"
| "call dbg db (NewPathJct k type rule) (e, ids) = without_id ids
     (case type of
        None \<Rightarrow> (case rule of None \<Rightarrow> newPath_jct dbg db (jct_id ids k) e
                  | Some r \<Rightarrow> newPath_jct_rule dbg db (jct_id ids k) r e)
      | Some t \<Rightarrow> (case rule of None \<Rightarrow> newPath_jct_type dbg db (jct_id ids k) t e
                  | Some r \<Rightarrow> newPath_jct_type_rule dbg db (jct_id ids k) t r e))"
| "call dbg db (NewPathExt k ext type rule) (e, ids) = without_id ids
     (case type of
        None \<Rightarrow> (case rule of None \<Rightarrow> newPathExt dbg db (jct_id ids k) ext e
                  | Some r \<Rightarrow> newPathExt_rule dbg db (jct_id ids k) ext r e)
      | Some t \<Rightarrow> (case rule of None \<Rightarrow> newPathExt_type dbg db (jct_id ids k) ext t e
                  | Some r \<Rightarrow> newPathExt_type_rule dbg db (jct_id ids k) ext t r e))"

fun calls ::
  "bool \<Rightarrow> wire_db \<Rightarrow> wire_cmd list \<Rightarrow> dbWireEncoder \<times> nat list \<Rightarrow> wire_error + dbWireEncoder \<times> nat list" where
  "calls dbg db [] s = Inr s"
| "calls dbg db (c # cs) s = and_then (call dbg db c s) (calls dbg db cs)"

section \<open>The drawing\<close>

text \<open>
  The pen: its layer; whether the layer can be found again from the bytes, which a virtual wire does not
  allow (\<open>getPrevPoint\<close> does not know its operation); its point, once it has one on this path; the wire type
  and colours in force; the points that ids have been returned for.
\<close>

record pencil =
  pn_layer :: nat
  pn_found :: bool
  pn_point :: "(int \<times> int) option"
  pn_type :: dbWireType
  pn_color :: "nat option"
  pn_viacolor :: "(nat \<times> nat \<times> nat) option"
  pn_points :: "(int \<times> int \<times> nat option) list"

definition pencil_begin :: pencil where
  "pencil_begin = \<lparr>pn_layer = 0, pn_found = False, pn_point = None, pn_type = dbWireType.NONE, pn_color = None,
                   pn_viacolor = None, pn_points = []\<rparr>"

definition see :: "pencil \<Rightarrow> wire_event \<Rightarrow> seen" where
  "see s ev = (ev, pn_color s, pn_viacolor s)"

definition pn_known :: "pencil \<Rightarrow> nat option" where
  "pn_known s = (if pn_found s then Some (pn_layer s) else None)"

definition move_to :: "int \<Rightarrow> int \<Rightarrow> pencil \<Rightarrow> pencil option" where
  "move_to x y s =
     (let s' = s\<lparr>pn_point := Some (x, y), pn_points := pn_points s @ [(x, y, pn_known s)]\<rparr>
      in case pn_point s of
           None \<Rightarrow> Some s'
         | Some (x0, y0) \<Rightarrow> if x0 = x \<or> y0 = y then Some s' else None)"

definition through_via :: "wire_db \<Rightarrow> bool \<Rightarrow> nat \<Rightarrow> pencil \<Rightarrow> pencil option" where
  "through_via db tech via s =
     (case (pn_point s, via_of db tech via) of
        (Some (x, y), Inr v) \<Rightarrow>
          (if via < 2 ^ 32 \<and> (via_top v = pn_layer s \<or> via_bottom v = pn_layer s) then
             let l = (if via_top v = pn_layer s then via_bottom v else via_top v)
             in Some (s\<lparr>pn_layer := l, pn_found := True, pn_points := pn_points s @ [(x, y, Some l)]\<rparr>)
           else None)
      | _ \<Rightarrow> None)"

definition rule_ok :: "(nat \<times> bool) option \<Rightarrow> bool" where
  "rule_ok rule = (case rule of None \<Rightarrow> True | Some (r, b) \<Rightarrow> r < 2 ^ 32)"

definition see_rule :: "pencil \<Rightarrow> (nat \<times> bool) option \<Rightarrow> seen list" where
  "see_rule s rule = (case rule of None \<Rightarrow> [] | Some (r, b) \<Rightarrow> [see s (ERule r b)])"

definition start_path :: "nat \<Rightarrow> bool \<Rightarrow> dbWireType \<Rightarrow> (nat \<times> bool) option \<Rightarrow> pencil \<Rightarrow> pencil option" where
  "start_path layer found type rule s =
     (if layer < 2 ^ 32 \<and> rule_ok rule \<and> type \<noteq> dbWireType.SHIELD
      then Some (s\<lparr>pn_layer := layer, pn_found := found, pn_point := None, pn_type := type\<rparr>) else None)"

definition start_at :: "nat \<Rightarrow> dbWireType option \<Rightarrow> (nat \<times> bool) option \<Rightarrow> pencil \<Rightarrow> (int \<times> int \<times> pencil) option" where
  "start_at k type rule s =
     (if k < length (pn_points s) \<and> rule_ok rule \<and> type \<noteq> Some dbWireType.SHIELD then
        case pn_points s ! k of
          (x, y, Some l) \<Rightarrow>
            Some (x, y, s\<lparr>pn_layer := l, pn_found := True, pn_point := Some (x, y),
                          pn_type := (case type of None \<Rightarrow> pn_type s | Some t \<Rightarrow> t)\<rparr>)
        | _ \<Rightarrow> None
      else None)"

text \<open>What one call adds to the drawing, and the pen after it; \<open>None\<close> where the calls make no sense.\<close>

fun draw :: "wire_db \<Rightarrow> (nat \<Rightarrow> int) \<Rightarrow> wire_cmd \<Rightarrow> pencil \<Rightarrow> (seen list \<times> pencil) option" where
  "draw db j (AddPoint x y prop) s = map_option (\<lambda>s'. ([see s (EPoint x y)], s')) (move_to x y s)"
| "draw db j (AddPointExt x y ext prop) s = map_option (\<lambda>s'. ([see s (EPointExt x y ext)], s')) (move_to x y s)"
| "draw db j (AddVia via) s = map_option (\<lambda>s'. ([see s (EVia via (pn_layer s'))], s')) (through_via db False via s)"
| "draw db j (AddTechVia via) s =
     map_option (\<lambda>s'. ([see s (ETechVia via (pn_layer s'))], s'\<lparr>pn_color := None\<rparr>)) (through_via db True via s)"
| "draw db j (AddRect x1 y1 x2 y2) s = (if pn_point s = None then None else Some ([see s (ERect x1 y1 x2 y2)], s))"
| "draw db j (AddITerm t) s = (if pn_point s \<noteq> None \<and> t < 2 ^ 32 then Some ([see s (EIterm t)], s) else None)"
| "draw db j (AddBTerm t) s = (if pn_point s \<noteq> None \<and> t < 2 ^ 32 then Some ([see s (EBterm t)], s) else None)"
| "draw db j (SetColor c) s = Some ([], s\<lparr>pn_color := Some c\<rparr>)"
| "draw db j ClearColor s = Some ([], s\<lparr>pn_color := None\<rparr>)"
| "draw db j (SetViaColor b c t) s =
     Some ([], s\<lparr>pn_viacolor := (if b = 0 \<and> c = 0 \<and> t = 0 then None else Some (b, c, t))\<rparr>)"
| "draw db j ClearViaColor s = Some ([], s\<lparr>pn_viacolor := None\<rparr>)"
| "draw db j (NewPath layer type rule) s =
     map_option (\<lambda>s'. (see s (EPath layer type) # see_rule s rule, s')) (start_path layer True type rule s)"
| "draw db j (NewPathShort k layer type rule) s =
     (if k < length (pn_points s)
      then map_option (\<lambda>s'. (see s (EShort (j k) layer type) # see_rule s rule, s')) (start_path layer True type rule s)
      else None)"
| "draw db j (NewPathVirtualWire k layer type rule) s =
     (if k < length (pn_points s)
      then map_option (\<lambda>s'. (see s (EVwire (j k) layer type) # see_rule s rule, s')) (start_path layer False type rule s)
      else None)"
| "draw db j (NewPathJct k type rule) s =
     map_option (\<lambda>(x, y, s'). (see s (EJunction (j k) (pn_layer s') (pn_type s')) # see_rule s rule
                                 @ [see s (EPoint x y)], s')) (start_at k type rule s)"
| "draw db j (NewPathExt k ext type rule) s =
     map_option (\<lambda>(x, y, s'). (see s (EJunction (j k) (pn_layer s') (pn_type s')) # see_rule s rule
                                 @ [see s (EPointExt x y ext)], s')) (start_at k type rule s)"

fun drawing :: "wire_db \<Rightarrow> (nat \<Rightarrow> int) \<Rightarrow> wire_cmd list \<Rightarrow> pencil \<Rightarrow> (seen list \<times> pencil) option" where
  "drawing db j [] s = Some ([], s)"
| "drawing db j (c # cs) s =
     (case draw db j c s of
        None \<Rightarrow> None
      | Some (evs, s') \<Rightarrow> map_option (\<lambda>(evs', s''). (evs @ evs', s'')) (drawing db j cs s'))"

section \<open>The encoder keeps up with the pen\<close>

definition enc_wire :: "dbWireEncoder \<Rightarrow> wire_code" where
  "enc_wire e = \<lparr>wc_opcodes = enc_opcodes e, wc_data = enc_data e\<rparr>"

definition grows :: "dbWireEncoder \<Rightarrow> (8 word \<times> int) list \<Rightarrow> dbWireEncoder \<Rightarrow> bool" where
  "grows e code e' \<longleftrightarrow> enc_opcodes e' = enc_opcodes e @ map fst code \<and> enc_data e' = enc_data e @ map snd code
     \<and> enc_idx e' = enc_idx e + length code"

definition enc_ok :: "dbWireEncoder \<Rightarrow> pencil \<Rightarrow> bool" where
  "enc_ok e s \<longleftrightarrow> length (enc_data e) = length (enc_opcodes e) \<and> enc_idx e = length (enc_opcodes e)
     \<and> enc_layer e = pn_layer s
     \<and> (case pn_point s of None \<Rightarrow> enc_point_cnt e = 0
        | Some (x, y) \<Rightarrow> enc_point_cnt e \<noteq> 0 \<and> enc_x e = x \<and> enc_y e = y)
     \<and> getWireType (pn_type s) = Inr (enc_wire_type e)
     \<and> (enc_non_default_rule e \<noteq> 0 \<longrightarrow> enc_rule_opcode e AND WOP_OPCODE_MASK = kRule)"

fun pen_of :: "(int \<times> int) option \<Rightarrow> pen" where
  "pen_of None = Up"
| "pen_of (Some (x, y)) = At x y"

text \<open>The ids returned so far lead to their points, and the end of the wire to where the pen is.\<close>

definition points_to :: "wire_db \<Rightarrow> wire_code \<Rightarrow> nat \<Rightarrow> int \<times> int \<times> nat option \<Rightarrow> bool" where
  "points_to db w i p \<longleftrightarrow>
     (case p of (x, y, L) \<Rightarrow> i < length (wc_opcodes w) \<and> finds db w (int i) (Some x) (Some y) L)"

definition tracks :: "wire_db \<Rightarrow> wire_code \<Rightarrow> nat list \<Rightarrow> pencil \<Rightarrow> bool" where
  "tracks db w ids s \<longleftrightarrow>
     finds db w (int (length (wc_opcodes w)) - 1) (map_option fst (pn_point s)) (map_option snd (pn_point s)) (pn_known s)
     \<and> list_all2 (points_to db w) ids (pn_points s)"

lemma points_to_extends: "points_to db w i p \<Longrightarrow> extends w w' \<Longrightarrow> points_to db w' i p"
  by (auto simp: points_to_def finds_extends) (auto simp: extends_def)

lemma grows_extends: "grows e code e' \<Longrightarrow> extends (enc_wire e) (enc_wire e')"
  by (auto simp: grows_def enc_wire_def extends_def)

lemma grows_code_at:
  "grows e code e' \<Longrightarrow> enc_ok e s \<Longrightarrow> code_at (enc_wire e') (enc_idx e) code"
  using code_at_prefix [of "enc_opcodes e" "enc_data e" "enc_idx e" code "[]" "[]"]
  by (simp add: grows_def enc_wire_def enc_ok_def)

lemma tracks_grows:
  assumes "tracks db (enc_wire e) ids s" "grows e code e'"
    and "finds db (enc_wire e') (int (length (enc_opcodes e')) - 1)
           (map_option fst (pn_point s')) (map_option snd (pn_point s')) (pn_known s')"
    and "pn_points s' = pn_points s @ new" "list_all2 (points_to db (enc_wire e')) ids_new new"
  shows "tracks db (enc_wire e') (ids @ ids_new) s'"
  using assms points_to_extends [OF _ grows_extends [OF assms(2)]]
  by (auto simp: tracks_def enc_wire_def intro!: list_all2_appendI elim!: list_all2_mono)

lemma finds_now:
  assumes "tracks db (enc_wire e) ids s" "grows e code e'" "enc_ok e s"
  shows "finds db (enc_wire e') (int (enc_idx e) - 1) (map_option fst (pn_point s)) (map_option snd (pn_point s))
           (pn_known s)"
  using assms finds_extends [OF _ grows_extends [OF assms(2)]] by (auto simp: tracks_def enc_ok_def enc_wire_def)

lemma finds_others:
  assumes "code_at w n code" "finds db w (int n - 1) X Y L"
    and "\<forall>(opcode, val)\<in>set code.
           opcode AND WOP_OPCODE_MASK \<notin> {kPath, kShort, kJunction, kX, kY, kVia, kTechVia}"
  shows "finds db w (int (n + length code) - 1) X Y L"
  using assms
proof (induction code arbitrary: n)
  case (Cons c code)
  obtain opcode val where c: "c = (opcode, val)" by (cases c)
  have "finds db w (int n) X Y L"
    using Cons.prems by (intro finds_other [of w n opcode val]) (auto simp: c)
  with Cons.IH [of "Suc n"] Cons.prems show ?case by (auto simp: c)
qed simp

section \<open>Points\<close>

definition operand_of :: "int option \<Rightarrow> (8 word \<times> int) list" where
  "operand_of ext = (case ext of None \<Rightarrow> [] | Some v \<Rightarrow> [(kOperand, v)])"

definition point_event :: "int option \<Rightarrow> int \<Rightarrow> int \<Rightarrow> wire_event" where
  "point_event ext x y = (case ext of None \<Rightarrow> EPoint x y | Some v \<Rightarrow> EPointExt x y v)"

text \<open>The operations of a point, from the pen before to the point; the last argument is where its id points.\<close>

inductive point_head ::
  "int option \<Rightarrow> (int \<times> int) option \<Rightarrow> int \<Rightarrow> int \<Rightarrow> (8 word \<times> int) list \<Rightarrow> nat \<Rightarrow> bool" for ext where
  first: "o1 AND WOP_OPCODE_MASK = kX \<Longrightarrow> o2 AND WOP_OPCODE_MASK = kY \<Longrightarrow> o2 AND WOP_EXTENSION = 0 \<longleftrightarrow> ext = None
    \<Longrightarrow> point_head ext None x y ((o1, x) # (o2, y) # operand_of ext) 1"
| along_x: "opcode AND WOP_OPCODE_MASK = kX \<Longrightarrow> opcode AND WOP_EXTENSION = 0 \<longleftrightarrow> ext = None
    \<Longrightarrow> point_head ext (Some (x0, y)) x y ((opcode, x) # operand_of ext) 0"
| along_y: "opcode AND WOP_OPCODE_MASK = kY \<Longrightarrow> opcode AND WOP_EXTENSION = 0 \<longleftrightarrow> ext = None
    \<Longrightarrow> point_head ext (Some (x, y0)) x y ((opcode, y) # operand_of ext) 0"
| same: "opcode AND WOP_OPCODE_MASK = kColinear \<Longrightarrow> opcode AND WOP_EXTENSION = 0 \<longleftrightarrow> ext = None
    \<Longrightarrow> point_head ext (Some (x, y)) x y [(opcode, case ext of None \<Rightarrow> 0 | Some v \<Rightarrow> v)] 0"

definition index_after :: "wire_code \<Rightarrow> (int \<times> int) option \<Rightarrow> nat \<Rightarrow> nat" where
  "index_after w P n = (if P = None then n else after_flush w n)"

lemma point_head_passes:
  assumes "point_head ext P x y code k" "code_at w n code"
  shows "passes dbg db w (vw n l (pen_of P) c vc) [(point_event ext x y, c, vc)]
           (vw (index_after w P (n + length code)) l (At x y) c vc)"
  using assms
proof cases
  case (first o1 o2)
  with assms(2) show ?thesis
    using pass_first_point [of w n o1 x o2 y] pass_first_point_ext [of w n o1 x o2 y "kOperand"]
    by (cases ext) (simp_all add: operand_of_def point_event_def index_after_def eval_nat_numeral)
next
  case (along_x opcode x0)
  with assms(2) show ?thesis
    using pass_x [of w n opcode x] pass_x_ext [of w n opcode x "kOperand"]
    by (cases ext) (simp_all add: operand_of_def point_event_def index_after_def eval_nat_numeral)
next
  case (along_y opcode y0)
  with assms(2) show ?thesis
    using pass_y [of w n opcode y] pass_y_ext [of w n opcode y "kOperand"]
    by (cases ext) (simp_all add: operand_of_def point_event_def index_after_def eval_nat_numeral)
next
  case (same opcode)
  with assms(2) show ?thesis
    using pass_colinear [of w n opcode] pass_colinear_ext [of w n opcode]
    by (cases ext) (simp_all add: point_event_def index_after_def)
qed

lemma point_head_finds:
  assumes "point_head ext P x y code k" "code_at w n code"
    and "finds db w (int n - 1) (map_option fst P) (map_option snd P) L"
  shows "finds db w (int (n + length code) - 1) (Some x) (Some y) L" and "finds db w (int (n + k)) (Some x) (Some y) L"
    and "k < length code"
proof -
  have *: "finds db w (int (m + length (operand_of ext)) - 1) X Y L"
    if "code_at w m (operand_of ext)" "finds db w (int m - 1) X Y L" for m X Y
    using that by (intro finds_others) (auto simp: operand_of_def wire_ops split: option.splits)
  have "finds db w (int (n + length code) - 1) (Some x) (Some y) L \<and> finds db w (int (n + k)) (Some x) (Some y) L
      \<and> k < length code"
    using assms(1)
  proof cases
    case (first o1 o2)
    have x: "finds db w (int n) (Some x) None L"
      using assms(2,3) first by (intro finds_x [of w n o1]) auto
    have y: "finds db w (int (n + 1)) (Some x) (Some y) L"
      using assms(2) first x by (intro finds_y [of w "n + 1" o2]) auto
    with * [of "n + 2"] assms(2) first show ?thesis by (simp add: add.commute)
  next
    case (along_x opcode x0)
    have x: "finds db w (int n) (Some x) (Some y) L"
      using assms(2,3) along_x by (intro finds_x [of w n opcode]) auto
    with * [of "n + 1"] assms(2) along_x show ?thesis by (simp add: add.commute)
  next
    case (along_y opcode y0)
    have y: "finds db w (int n) (Some x) (Some y) L"
      using assms(2,3) along_y by (intro finds_y [of w n opcode]) auto
    with * [of "n + 1"] assms(2) along_y show ?thesis by (simp add: add.commute)
  next
    case (same opcode)
    have "finds db w (int n) (Some x) (Some y) L"
      using assms(2,3) same by (intro finds_other [of w n opcode]) (auto simp: wire_ops)
    with same show ?thesis by simp
  qed
  then show "finds db w (int (n + length code) - 1) (Some x) (Some y) L" and "finds db w (int (n + k)) (Some x) (Some y) L"
    and "k < length code" by simp_all
qed

text \<open>After a point: the rule again, and the property.\<close>

definition point_tail :: "(8 word \<times> int) list \<Rightarrow> bool" where
  "point_tail code \<longleftrightarrow> (\<exists>rl pr. code = rl @ pr
     \<and> (rl = [] \<or> (\<exists>opcode val. rl = [(opcode, val)] \<and> opcode AND WOP_OPCODE_MASK = kRule))
     \<and> (pr = [] \<or> (\<exists>val. pr = [(kProperty, val)])))"

lemma point_tail_finds:
  assumes "point_tail code" "code_at w n code" "finds db w (int n - 1) X Y L"
  shows "finds db w (int (n + length code) - 1) X Y L"
  using assms by (intro finds_others) (auto simp: point_tail_def wire_ops)

lemma point_tail_passes:
  assumes "point_tail code" "code_at w n code" "after_flush w (n + length code) = n + length code"
  shows "passes dbg db w (vw (after_flush w n) l p c vc) [] (vw (n + length code) l p c vc)"
proof -
  from assms(1) obtain rl pr where code: "code = rl @ pr"
    and rl: "rl = [] \<or> (\<exists>opcode val. rl = [(opcode, val)] \<and> opcode AND WOP_OPCODE_MASK = kRule)"
    and pr: "pr = [] \<or> (\<exists>val. pr = [(kProperty, val)])" by (auto simp: point_tail_def)
  have m: "after_flush w n = n + length rl"
  proof (cases "rl = []")
    case True
    with code pr assms(2,3) show ?thesis by (auto simp: after_flush_def wire_ops)
  next
    case False
    with rl code assms(2) show ?thesis by (auto simp: after_flush_def wire_ops)
  qed
  from pr show ?thesis
  proof
    assume "pr = []"
    with m code show ?thesis by simp
  next
    assume "\<exists>val. pr = [(kProperty, val)]"
    then obtain val where p: "pr = [(kProperty, val)]" by blast
    with assms(2) code have "code_at w (n + length rl) [(kProperty, val)]" by (simp add: code_at_append)
    from pass_property [OF this, of dbg db l p c vc] m code p show ?thesis by simp
  qed
qed

lemma end_of_point:
  assumes "enc_non_default_rule e \<noteq> 0 \<longrightarrow> enc_rule_opcode e AND WOP_OPCODE_MASK = kRule"
  obtains code where "point_tail code" "grows e code (enc_property prop (enc_repeat_rule e))"
    "enc_point_cnt e = 1 \<longrightarrow> code = []"
    "enc_layer (enc_property prop (enc_repeat_rule e)) = enc_layer e"
    "enc_point_cnt (enc_property prop (enc_repeat_rule e)) = enc_point_cnt e"
    "enc_x (enc_property prop (enc_repeat_rule e)) = enc_x e" "enc_y (enc_property prop (enc_repeat_rule e)) = enc_y e"
    "enc_wire_type (enc_property prop (enc_repeat_rule e)) = enc_wire_type e"
    "enc_non_default_rule (enc_property prop (enc_repeat_rule e)) = enc_non_default_rule e"
    "enc_rule_opcode (enc_property prop (enc_repeat_rule e)) = enc_rule_opcode e"
proof -
  define rl where "rl = (if enc_non_default_rule e \<noteq> 0 \<and> enc_point_cnt e \<noteq> 0
         \<and> enc_point_cnt e AND (WOP_NON_DEFAULT_WIDTH_POINT_CNT - 1) = 0
      then [(enc_rule_opcode e, int_of_uint32 (enc_non_default_rule e))] else [])"
  define pr where "pr = (if enc_point_cnt e \<noteq> 1 then [(kProperty, int_of_uint32 prop)] else [])"
  have "point_tail (rl @ pr)"
    unfolding point_tail_def using assms by (intro exI [of _ rl] exI [of _ pr]) (auto simp: rl_def pr_def)
  moreover have "grows e (rl @ pr) (enc_property prop (enc_repeat_rule e))"
    by (auto simp: grows_def rl_def pr_def enc_property_def enc_repeat_rule_def addOp_def)
  moreover have "enc_point_cnt e = 1 \<longrightarrow> rl @ pr = []"
    by (auto simp: rl_def pr_def wire_ops)
  ultimately show ?thesis
    by (rule that) (auto simp: enc_property_def enc_repeat_rule_def addOp_def)
qed

lemma prev_extended_irrelevant [simp]:
  "enc_ok (e\<lparr>enc_prev_extended_colinear_pnt := b\<rparr>) s = enc_ok e s"
  "grows e code (e'\<lparr>enc_prev_extended_colinear_pnt := b\<rparr>) = grows e code e'"
  "enc_wire (e\<lparr>enc_prev_extended_colinear_pnt := b\<rparr>) = enc_wire e"
  by (simp_all add: enc_ok_def grows_def enc_wire_def split: option.split)

lemma enc_grows_trans: "grows e code e1 \<Longrightarrow> grows e1 code' e2 \<Longrightarrow> grows e (code @ code') e2"
  by (simp add: grows_def)

text \<open>What the two forms of \<open>addPoint\<close> have in common: a head, and the end of a point.\<close>

definition point_shape ::
  "int option \<Rightarrow> int \<Rightarrow> int \<Rightarrow> nat \<Rightarrow> dbWireEncoder \<Rightarrow> pencil \<Rightarrow> pencil \<Rightarrow> dbWireEncoder \<Rightarrow> nat \<Rightarrow> bool" where
  "point_shape ext x y prop e s s' e' i \<longleftrightarrow>
     (\<exists>head k e1 b. point_head ext (pn_point s) x y head k \<and> grows e head e1 \<and> i = enc_idx e + k \<and> enc_ok e1 s'
        \<and> (pn_point s = None \<longrightarrow> enc_point_cnt e1 = 1)
        \<and> e' = (enc_property prop (enc_repeat_rule e1))\<lparr>enc_prev_extended_colinear_pnt := b\<rparr>)"

lemma point_shapeI:
  assumes "point_head ext (pn_point s) x y head k" "grows e head em" "i = enc_idx e + k" "enc_ok em s'"
    "pn_point s = None \<longrightarrow> enc_point_cnt em = 1"
    "e' = (enc_property prop (enc_repeat_rule em))\<lparr>enc_prev_extended_colinear_pnt := b\<rparr>"
  shows "point_shape ext x y prop e s s' e' i"
  unfolding point_shape_def by (intro exI conjI) (rule assms)+

lemmas shape_simps = grows_def enc_ok_def addOp_def enc_count_def operand_of_def move_to_def Let_def

lemma addPoint_shape:
  assumes a: "addPoint dbg x y prop e = Inr (e', i)" and e: "enc_ok e s" and m: "move_to x y s = Some s'"
  shows "point_shape None x y prop e s s' e' i"
proof -
  define w :: "8 word" where "w = (if enc_non_default_rule e = 0 then WOP_DEFAULT_WIDTH else 0)"
  have w: "w = 0x40 \<or> w = 0" by (simp add: w_def wire_ops)
  have heads:
    "point_head None None x y ((kX OR w, x) # (kY OR w, y) # operand_of None) 1"
    "point_head None (Some (x0, y)) x y ((kX OR w, x) # operand_of None) 0"
    "point_head None (Some (x, y0)) x y ((kY OR w, y) # operand_of None) 0"
    "point_head None (Some (x, y)) x y [(kColinear OR w, case None of None \<Rightarrow> 0 | Some v \<Rightarrow> v)] 0" for x0 y0
    by (rule point_head.intros; use w in \<open>auto simp: wire_ops\<close>)+
  show ?thesis
  proof (cases "pn_point s")
    case None
    with heads(1) a e m show ?thesis
      by (intro point_shapeI [where b = "False" and em =
            "enc_count (((addOp (kY OR w) y (addOp (kX OR w) x e)))\<lparr>enc_x := x, enc_y := y\<rparr>)"])
         (auto simp: addPoint_def w_def [symmetric] shape_simps)
  next
    case (Some p)
    then obtain x0 y0 where P: "pn_point s = Some (x0, y0)" by (cases p) auto
    consider "x0 = x" "y0 = y" | "x0 \<noteq> x" "y0 = y" | "x0 = x" "y0 \<noteq> y"
      using m P by (auto simp: move_to_def split: if_splits)
    then show ?thesis
    proof cases
      case 1
      with heads(4) a e m P show ?thesis
        by (intro point_shapeI [where b = "False" and em = "addOp (kColinear OR w) 0 e"])
           (auto simp: addPoint_def w_def [symmetric] shape_simps and_then_Inr)
    next
      case 2
      with heads(2) a e m P show ?thesis
        by (intro point_shapeI [where b = "False" and em =
              "enc_count (((addOp (kX OR w) x e))\<lparr>enc_x := x\<rparr>)"])
           (auto simp: addPoint_def w_def [symmetric] shape_simps)
    next
      case 3
      with heads(3) a e m P show ?thesis
        by (intro point_shapeI [where b = "False" and em =
              "enc_count (((addOp (kY OR w) y e))\<lparr>enc_y := y\<rparr>)"])
           (auto simp: addPoint_def w_def [symmetric] shape_simps)
    qed
  qed
qed

lemma addPoint_ext_shape:
  assumes a: "addPoint_ext dbg x y ext prop e = Inr (e', i)" and e: "enc_ok e s" and m: "move_to x y s = Some s'"
  shows "point_shape (Some ext) x y prop e s s' e' i"
proof -
  define w :: "8 word" where "w = (if enc_non_default_rule e = 0 then WOP_DEFAULT_WIDTH else 0)"
  have w: "w = 0x40 \<or> w = 0" by (simp add: w_def wire_ops)
  have heads:
    "point_head (Some ext) None x y ((kX OR w, x) # (kY OR WOP_EXTENSION OR w, y) # operand_of (Some ext)) 1"
    "point_head (Some ext) (Some (x0, y)) x y ((kX OR WOP_EXTENSION OR w, x) # operand_of (Some ext)) 0"
    "point_head (Some ext) (Some (x, y0)) x y ((kY OR WOP_EXTENSION OR w, y) # operand_of (Some ext)) 0"
    "point_head (Some ext) (Some (x, y)) x y [(kColinear OR WOP_EXTENSION OR w, case (Some ext) of None \<Rightarrow> 0 | Some v \<Rightarrow> v)] 0" for x0 y0
    by (rule point_head.intros; use w in \<open>auto simp: wire_ops\<close>)+
  show ?thesis
  proof (cases "pn_point s")
    case None
    with heads(1) a e m show ?thesis
      by (intro point_shapeI [where b = "enc_prev_extended_colinear_pnt e'" and em =
            "(enc_count ((addOp kOperand ext (addOp (kY OR WOP_EXTENSION OR w) y (addOp (kX OR w) x e)))\<lparr>enc_x := x, enc_y := y\<rparr>))\<lparr>enc_prev_extended_colinear_pnt := False\<rparr>"])
         (auto simp: addPoint_ext_def w_def [symmetric] shape_simps)
  next
    case (Some p)
    then obtain x0 y0 where P: "pn_point s = Some (x0, y0)" by (cases p) auto
    consider "x0 = x" "y0 = y" | "x0 \<noteq> x" "y0 = y" | "x0 = x" "y0 \<noteq> y"
      using m P by (auto simp: move_to_def split: if_splits)
    then show ?thesis
    proof cases
      case 1
      with heads(4) a e m P show ?thesis
        by (intro point_shapeI [where b = "enc_prev_extended_colinear_pnt e'" and em = "(addOp (kColinear OR WOP_EXTENSION OR w) ext e)\<lparr>enc_prev_extended_colinear_pnt := True\<rparr>"])
           (auto simp: addPoint_ext_def w_def [symmetric] shape_simps and_then_Inr)
    next
      case 2
      with heads(2) a e m P show ?thesis
        by (intro point_shapeI [where b = "enc_prev_extended_colinear_pnt e'" and em =
              "(enc_count ((addOp kOperand ext (addOp (kX OR WOP_EXTENSION OR w) x e))\<lparr>enc_x := x\<rparr>))\<lparr>enc_prev_extended_colinear_pnt := False\<rparr>"])
           (auto simp: addPoint_ext_def w_def [symmetric] shape_simps)
    next
      case 3
      with heads(3) a e m P show ?thesis
        by (intro point_shapeI [where b = "enc_prev_extended_colinear_pnt e'" and em =
              "(enc_count ((addOp kOperand ext (addOp (kY OR WOP_EXTENSION OR w) y e))\<lparr>enc_y := y\<rparr>))\<lparr>enc_prev_extended_colinear_pnt := False\<rparr>"])
           (auto simp: addPoint_ext_def w_def [symmetric] shape_simps)
    qed
  qed
qed

section \<open>One call\<close>

abbreviation view_of :: "dbWireEncoder \<Rightarrow> pencil \<Rightarrow> view" where
  "view_of e s \<equiv> vw (enc_idx e) (pn_layer s) (pen_of (pn_point s)) (pn_color s) (pn_viacolor s)"

definition keeps_up ::
  "bool \<Rightarrow> wire_db \<Rightarrow> dbWireEncoder \<Rightarrow> nat list \<Rightarrow> pencil \<Rightarrow> seen list \<Rightarrow> dbWireEncoder \<Rightarrow> nat list \<Rightarrow> pencil \<Rightarrow> bool" where
  "keeps_up dbg db e ids s evs e' ids' s' \<longleftrightarrow>
     enc_ok e' s' \<and> tracks db (enc_wire e') ids' s' \<and> (\<exists>new. ids' = ids @ new)
     \<and> (\<exists>code. code \<noteq> [] \<and> fst (hd code) AND WOP_OPCODE_MASK \<noteq> kRule \<and> grows e code e')
     \<and> (\<forall>w. extends (enc_wire e') w \<and> after_flush w (enc_idx e') = enc_idx e' \<longrightarrow>
          passes dbg db w (view_of e s) evs (view_of e' s'))"

lemma code_at_extends: "code_at w n code \<Longrightarrow> extends w w' \<Longrightarrow> code_at w' n code"
  by (induction code arbitrary: n) (auto simp: extends_def nth_append)

lemma keeps_upI:
  assumes e: "enc_ok e s" "tracks db (enc_wire e) ids s" and e': "enc_ok e' s'"
    and g: "grows e code e'" and code: "code \<noteq> []" "fst (hd code) AND WOP_OPCODE_MASK \<noteq> kRule"
    and f: "code_at (enc_wire e') (enc_idx e) code \<Longrightarrow>
        finds db (enc_wire e') (int (enc_idx e) - 1) (map_option fst (pn_point s)) (map_option snd (pn_point s)) (pn_known s)
        \<Longrightarrow> finds db (enc_wire e') (int (enc_idx e + length code) - 1)
          (map_option fst (pn_point s')) (map_option snd (pn_point s')) (pn_known s')
         \<and> list_all2 (points_to db (enc_wire e')) ids_new new"
    and new: "pn_points s' = pn_points s @ new" "ids' = ids @ ids_new"
    and p: "\<And>w. code_at w (enc_idx e) code \<Longrightarrow> extends (enc_wire e') w
        \<Longrightarrow> after_flush w (enc_idx e + length code) = enc_idx e + length code
        \<Longrightarrow> passes dbg db w (view_of e s) evs
              (vw (enc_idx e + length code) (pn_layer s') (pen_of (pn_point s')) (pn_color s') (pn_viacolor s'))"
  shows "keeps_up dbg db e ids s evs e' ids' s'"
proof -
  note c = grows_code_at [OF g e(1)]
  note f = f [OF c finds_now [OF e(2) g e(1)]]
  have idx: "enc_idx e' = enc_idx e + length code" "length (enc_opcodes e') = enc_idx e + length code"
    using g e(1) by (simp_all add: grows_def enc_ok_def)
  have "tracks db (enc_wire e') ids' s'"
    unfolding new(2) by (rule tracks_grows [OF e(2) g _ new(1)]) (use f idx in simp_all)
  moreover have "passes dbg db w (view_of e s) evs (view_of e' s')"
    if "extends (enc_wire e') w" "after_flush w (enc_idx e') = enc_idx e'" for w
    using p [OF code_at_extends [OF c that(1)] that(1)] that(2) idx by simp
  ultimately show ?thesis using e' code g new(2) unfolding keeps_up_def by blast
qed

lemma keeps_up_point:
  assumes e: "enc_ok e s" "tracks db (enc_wire e) ids s"
    and sh: "point_shape ext x y prop e s s' e' i" and m: "move_to x y s = Some s'"
  shows "keeps_up dbg db e ids s [see s (point_event ext x y)] e' (ids @ [i]) s'"
proof -
  from sh obtain head k e1 b where h: "point_head ext (pn_point s) x y head k" "grows e head e1" "i = enc_idx e + k"
    "enc_ok e1 s'" "pn_point s = None \<longrightarrow> enc_point_cnt e1 = 1"
    and e': "e' = (enc_property prop (enc_repeat_rule e1))\<lparr>enc_prev_extended_colinear_pnt := b\<rparr>"
    unfolding point_shape_def by (elim exE conjE) (rule that; assumption)
  define e2 where "e2 = enc_property prop (enc_repeat_rule e1)"
  obtain tail where t: "point_tail tail" "grows e1 tail e2" "enc_point_cnt e1 = 1 \<longrightarrow> tail = []"
    "enc_layer e2 = enc_layer e1" "enc_point_cnt e2 = enc_point_cnt e1" "enc_x e2 = enc_x e1" "enc_y e2 = enc_y e1"
    "enc_wire_type e2 = enc_wire_type e1" "enc_non_default_rule e2 = enc_non_default_rule e1"
    "enc_rule_opcode e2 = enc_rule_opcode e1"
    unfolding e2_def by (rule end_of_point [where e = e1 ]) (use h(4) in \<open>auto simp: enc_ok_def\<close>)
  have s': "pn_point s' = Some (x, y)" "pn_points s' = pn_points s @ [(x, y, pn_known s)]" "pn_layer s' = pn_layer s"
    "pn_color s' = pn_color s" "pn_viacolor s' = pn_viacolor s" "pn_known s' = pn_known s"
    using m by (auto simp: move_to_def Let_def pn_known_def split: option.splits if_splits)
  have g: "grows e (head @ tail) e'" using enc_grows_trans [OF h(2) t(2)] by (simp add: e' e2_def)
  have ok: "enc_ok e' s'" using h(4) t(2,4-) by (auto simp: e' enc_ok_def grows_def e2_def [symmetric] split: option.splits)
  have hd: "fst (hd (head @ tail)) AND WOP_OPCODE_MASK \<noteq> kRule" "head \<noteq> []"
    using h(1) by (cases; auto simp: wire_ops)+
  show ?thesis
  proof (rule keeps_upI [OF e ok g _ hd(1) _ s'(2) refl])
    show "head @ tail \<noteq> []" using hd(2) by simp
  next
    assume c: "code_at (enc_wire e') (enc_idx e) (head @ tail)"
      and f: "finds db (enc_wire e') (int (enc_idx e) - 1) (map_option fst (pn_point s)) (map_option snd (pn_point s)) (pn_known s)"
    from c have c': "code_at (enc_wire e') (enc_idx e) head" "code_at (enc_wire e') (enc_idx e + length head) tail"
      by (simp_all add: code_at_append)
    note hf = point_head_finds [OF h(1) c'(1) f]
    have "enc_idx e + k < length (wc_opcodes (enc_wire e'))"
      using hf(3) g e(1) by (auto simp: grows_def enc_ok_def enc_wire_def)
    with point_tail_finds [OF t(1) c'(2) hf(1)] hf(2)
    show "finds db (enc_wire e') (int (enc_idx e + length (head @ tail)) - 1)
        (map_option fst (pn_point s')) (map_option snd (pn_point s')) (pn_known s')
      \<and> list_all2 (points_to db (enc_wire e')) [i] [(x, y, pn_known s)]"
      by (simp add: s' points_to_def h(3) add.assoc)
  next
    fix w
    assume c: "code_at w (enc_idx e) (head @ tail)"
      and fl: "after_flush w (enc_idx e + length (head @ tail)) = enc_idx e + length (head @ tail)"
    from c have c': "code_at w (enc_idx e) head" "code_at w (enc_idx e + length head) tail"
      by (simp_all add: code_at_append)
    have p1: "passes dbg db w (view_of e s) [see s (point_event ext x y)]
        (vw (index_after w (pn_point s) (enc_idx e + length head)) (pn_layer s) (At x y) (pn_color s) (pn_viacolor s))"
      unfolding see_def by (rule point_head_passes [OF h(1) c'(1)])
    have p2: "passes dbg db w
        (vw (index_after w (pn_point s) (enc_idx e + length head)) (pn_layer s) (At x y) (pn_color s) (pn_viacolor s)) []
        (vw (enc_idx e + length (head @ tail)) (pn_layer s) (At x y) (pn_color s) (pn_viacolor s))"
    proof (cases "pn_point s")
      case None
      with h(5) t(3) show ?thesis by (simp add: index_after_def)
    next
      case (Some p)
      with point_tail_passes [OF t(1) c'(2)] fl show ?thesis by (simp add: index_after_def add.assoc)
    qed
    from passes_trans [OF p1 p2]
    show "passes dbg db w (view_of e s) [see s (point_event ext x y)]
        (vw (enc_idx e + length (head @ tail)) (pn_layer s') (pen_of (pn_point s')) (pn_color s') (pn_viacolor s'))"
      by (simp add: s')
  qed
qed

text \<open>Calls that leave the pen where it is.\<close>

lemma keeps_up_same:
  assumes e: "enc_ok e s" "tracks db (enc_wire e) ids s"
    and g: "grows e code e'" and code: "code \<noteq> []"
      "\<forall>(opcode, val)\<in>set code.
         opcode AND WOP_OPCODE_MASK \<notin> {kPath, kShort, kJunction, kX, kY, kVia, kTechVia, kRule}"
    and same: "enc_layer e' = enc_layer e" "enc_point_cnt e' = enc_point_cnt e" "enc_x e' = enc_x e"
      "enc_y e' = enc_y e" "enc_wire_type e' = enc_wire_type e"
      "enc_non_default_rule e' = enc_non_default_rule e" "enc_rule_opcode e' = enc_rule_opcode e"
    and s': "pn_layer s' = pn_layer s" "pn_found s' = pn_found s" "pn_point s' = pn_point s" "pn_type s' = pn_type s"
      "pn_points s' = pn_points s"
    and p: "\<And>w. code_at w (enc_idx e) code \<Longrightarrow> passes dbg db w (view_of e s) evs
       (vw (enc_idx e + length code) (pn_layer s) (pen_of (pn_point s)) (pn_color s') (pn_viacolor s'))"
  shows "keeps_up dbg db e ids s evs e' ids s'"
proof (rule keeps_upI [OF e _ g, where new = "[]" and ids_new = "[]"])
  show "enc_ok e' s'" using e(1) g same s' by (auto simp: enc_ok_def grows_def split: option.splits)
  show "fst (hd code) AND WOP_OPCODE_MASK \<noteq> kRule" using code by (cases code) auto
next
  assume c: "code_at (enc_wire e') (enc_idx e) code"
    and f: "finds db (enc_wire e') (int (enc_idx e) - 1)
      (map_option fst (pn_point s)) (map_option snd (pn_point s)) (pn_known s)"
  have "finds db (enc_wire e') (int (enc_idx e + length code) - 1)
      (map_option fst (pn_point s)) (map_option snd (pn_point s)) (pn_known s)"
    by (rule finds_others [OF c f]) (use code(2) in auto)
  then show "finds db (enc_wire e') (int (enc_idx e + length code) - 1)
      (map_option fst (pn_point s')) (map_option snd (pn_point s')) (pn_known s')
      \<and> list_all2 (points_to db (enc_wire e')) [] []"
    using s' by (auto simp: pn_known_def split: if_splits)
qed (use code p s' in auto)

lemmas call_simps = grows_def addOp_def wire_ops see_def

lemma keeps_up_color:
  assumes e: "enc_ok e s" "tracks db (enc_wire e) ids s" and c: "c \<le> 3"
  shows "keeps_up dbg db e ids s [] (addOp kColor (int c) e) ids (s\<lparr>pn_color := (if c = 0 then None else Some c)\<rparr>)"
proof (rule keeps_up_same [OF e, where code = "[(kColor, int c)]"])
  fix w assume "code_at w (enc_idx e) [(kColor, int c)]"
  from pass_color [OF this, of dbg db "pn_layer s" "pen_of (pn_point s)" "pn_color s" "pn_viacolor s"] c
  show "passes dbg db w (view_of e s) []
      (vw (enc_idx e + length [(kColor, int c)]) (pn_layer s) (pen_of (pn_point s))
        (pn_color (s\<lparr>pn_color := (if c = 0 then None else Some c)\<rparr>))
        (pn_viacolor (s\<lparr>pn_color := (if c = 0 then None else Some c)\<rparr>)))"
    by (simp split: if_splits)
qed (simp_all add: call_simps)

lemma keeps_up_via_color:
  assumes e: "enc_ok e s" "tracks db (enc_wire e) ids s" and c: "b \<le> 3" "c \<le> 3" "t \<le> 3"
  shows "keeps_up dbg db e ids s [] (addOp kViaColor (int ((push_bit 4 b OR push_bit 2 c OR t) mod 2 ^ 8)) e) ids
    (s\<lparr>pn_viacolor := (if b = 0 \<and> c = 0 \<and> t = 0 then None else Some (b, c, t))\<rparr>)"
proof -
  define v where "v = (push_bit 4 b OR push_bit 2 c OR t) mod 2 ^ 8"
  show ?thesis
    unfolding v_def [symmetric]
  proof (rule keeps_up_same [OF e, where code = "[(kViaColor, int v)]"])
    fix w assume "code_at w (enc_idx e) [(kViaColor, int v)]"
    from pass_via_color [OF this v_def, of dbg db "pn_layer s" "pen_of (pn_point s)" "pn_color s" "pn_viacolor s"] c
    show "passes dbg db w (view_of e s) []
        (vw (enc_idx e + length [(kViaColor, int v)]) (pn_layer s) (pen_of (pn_point s))
          (pn_color (s\<lparr>pn_viacolor := (if b = 0 \<and> c = 0 \<and> t = 0 then None else Some (b, c, t))\<rparr>))
          (pn_viacolor (s\<lparr>pn_viacolor := (if b = 0 \<and> c = 0 \<and> t = 0 then None else Some (b, c, t))\<rparr>)))"
      by simp
  qed (simp_all add: call_simps)
qed

lemma keeps_up_rect:
  assumes e: "enc_ok e s" "tracks db (enc_wire e) ids s" and a: "addRect dbg x1 y1 x2 y2 e = Inr e'"
  shows "keeps_up dbg db e ids s [see s (ERect x1 y1 x2 y2)] e' ids s"
proof -
  have e': "e' = addOp kOperand y2 (addOp kOperand x2 (addOp kOperand y1 (addOp kRect x1 e)))"
    using a by (auto simp: addRect_def and_then_Inr)
  let ?code = "[(kRect, x1), (kOperand, y1), (kOperand, x2), (kOperand, y2)]"
  show ?thesis
    unfolding e'
  proof (rule keeps_up_same [OF e, where code = ?code])
    fix w assume "code_at w (enc_idx e) ?code"
    from pass_rect [OF this, of dbg db "pn_layer s" "pen_of (pn_point s)" "pn_color s" "pn_viacolor s"]
    show "passes dbg db w (view_of e s) [see s (ERect x1 y1 x2 y2)]
        (vw (enc_idx e + length ?code) (pn_layer s) (pen_of (pn_point s)) (pn_color s) (pn_viacolor s))"
      by (simp add: see_def wire_ops eval_nat_numeral)
  qed (simp_all add: call_simps)
qed

lemma keeps_up_iterm:
  assumes e: "enc_ok e s" "tracks db (enc_wire e) ids s" and a: "addITerm dbg t e = Inr e'" and t: "t < 2 ^ 32"
  shows "keeps_up dbg db e ids s [see s (EIterm t)] e' ids s"
proof -
  have e': "e' = addOp kIterm (int_of_uint32 t) e"
    using a by (auto simp: addITerm_def and_then_Inr)
  show ?thesis
    unfolding e'
  proof (rule keeps_up_same [OF e, where code = "[(kIterm, int_of_uint32 t)]"])
    fix w assume "code_at w (enc_idx e) [(kIterm, int_of_uint32 t)]"
    from pass_iterm [OF this, of dbg db "pn_layer s" "pen_of (pn_point s)" "pn_color s" "pn_viacolor s"]
    show "passes dbg db w (view_of e s) [see s (EIterm t)]
        (vw (enc_idx e + length [(kIterm, int_of_uint32 t)]) (pn_layer s) (pen_of (pn_point s)) (pn_color s) (pn_viacolor s))"
      by (simp add: see_def wire_ops uint32_of_int_of_uint32 [OF t])
  qed (simp_all add: call_simps)
qed

lemma keeps_up_bterm:
  assumes e: "enc_ok e s" "tracks db (enc_wire e) ids s" and a: "addBTerm dbg t e = Inr e'" and t: "t < 2 ^ 32"
  shows "keeps_up dbg db e ids s [see s (EBterm t)] e' ids s"
proof -
  have e': "e' = addOp kBterm (int_of_uint32 t) e"
    using a by (auto simp: addBTerm_def and_then_Inr)
  show ?thesis
    unfolding e'
  proof (rule keeps_up_same [OF e, where code = "[(kBterm, int_of_uint32 t)]"])
    fix w assume "code_at w (enc_idx e) [(kBterm, int_of_uint32 t)]"
    from pass_bterm [OF this, of dbg db "pn_layer s" "pen_of (pn_point s)" "pn_color s" "pn_viacolor s"]
    show "passes dbg db w (view_of e s) [see s (EBterm t)]
        (vw (enc_idx e + length [(kBterm, int_of_uint32 t)]) (pn_layer s) (pen_of (pn_point s)) (pn_color s) (pn_viacolor s))"
      by (simp add: see_def wire_ops uint32_of_int_of_uint32 [OF t])
  qed (simp_all add: call_simps)
qed

text \<open>Vias.\<close>

lemma through_viaE:
  assumes "through_via db tech via s = Some s'"
  obtains x y v l where "pn_point s = Some (x, y)" "via_of db tech via = Inr v" "via < 2 ^ 32"
    "via_top v = pn_layer s \<and> l = via_bottom v \<or> via_top v \<noteq> pn_layer s \<and> via_bottom v = pn_layer s \<and> l = via_top v"
    "s' = s\<lparr>pn_layer := l, pn_found := True, pn_points := pn_points s @ [(x, y, Some l)]\<rparr>"
  using assms
  by (auto simp: through_via_def Let_def split: option.splits sum.splits if_splits prod.splits)

lemma via_finds:
  assumes c: "code_at (enc_wire e') (enc_idx e) ((opcode, int_of_uint32 via) # code)"
    and o: "opcode AND WOP_OPCODE_MASK = (if tech then kTechVia else kVia)"
    and l: "via_exit_layer db tech opcode (int_of_uint32 via) = Inr l"
    and P: "pn_point s = Some (x, y)"
    and f: "finds db (enc_wire e') (int (enc_idx e) - 1) (map_option fst (pn_point s)) (map_option snd (pn_point s)) (pn_known s)"
    and i: "enc_idx e < length (enc_opcodes e')"
    and code: "code = [] \<or> code = [(kColor, 0)]"
  shows "finds db (enc_wire e') (int (enc_idx e + length ((opcode, int_of_uint32 via) # code)) - 1) (Some x) (Some y) (Some l)"
    and "list_all2 (points_to db (enc_wire e')) [enc_idx e] [(x, y, Some l)]"
proof -
  from c have c0: "code_at (enc_wire e') (enc_idx e) [(opcode, int_of_uint32 via)]"
    and c1: "code_at (enc_wire e') (enc_idx e + 1) code" by simp_all
  have v: "finds db (enc_wire e') (int (enc_idx e)) (Some x) (Some y) (Some l)"
    by (rule finds_via [OF c0 o l]) (use f P in simp)
  with i show "list_all2 (points_to db (enc_wire e')) [enc_idx e] [(x, y, Some l)]"
    by (simp add: points_to_def enc_wire_def)
  have "finds db (enc_wire e') (int (enc_idx e + 1 + length code) - 1) (Some x) (Some y) (Some l)"
    by (rule finds_others [OF c1]) (use v code in \<open>auto simp: wire_ops\<close>)
  then show "finds db (enc_wire e') (int (enc_idx e + length ((opcode, int_of_uint32 via) # code)) - 1) (Some x) (Some y) (Some l)"
    by simp
qed

lemma via_flag:
  assumes v: "via_of db tech via = Inr v" "via < 2 ^ 32"
    and l: "via_top v = pn_layer s \<and> l = via_bottom v
      \<or> via_top v \<noteq> pn_layer s \<and> via_bottom v = pn_layer s \<and> l = via_top v"
  defines "opcode \<equiv> (if tech then kTechVia else kVia) OR (if via_top v = pn_layer s then 0 else WOP_VIA_EXIT_TOP)"
  shows "opcode AND WOP_OPCODE_MASK = (if tech then kTechVia else kVia)"
    and "via_exit_layer db tech opcode (int_of_uint32 via) = Inr l"
    and "opcode AND WOP_OPCODE_MASK \<noteq> kRule"
  using v l by (auto simp: opcode_def via_exit_layer_def uint32_of_int_of_uint32 wire_ops)

lemma keeps_up_via:
  assumes e: "enc_ok e s" "tracks db (enc_wire e) ids s"
    and a: "addVia dbg db via e = Inr (e', i)" and t: "through_via db False via s = Some s'"
  shows "keeps_up dbg db e ids s [see s (EVia via (pn_layer s'))] e' (ids @ [i]) s'"
proof -
  obtain x y v l where P: "pn_point s = Some (x, y)" and v: "via_of db False via = Inr v" "via < 2 ^ 32"
    "via_top v = pn_layer s \<and> l = via_bottom v \<or> via_top v \<noteq> pn_layer s \<and> via_bottom v = pn_layer s \<and> l = via_top v"
    and s': "s' = s\<lparr>pn_layer := l, pn_found := True, pn_points := pn_points s @ [(x, y, Some l)]\<rparr>"
    using through_viaE [OF t] by metis
  define opcode where "opcode = (if False then kTechVia else kVia) OR (if via_top v = pn_layer s then 0 else WOP_VIA_EXIT_TOP)"
  note op = via_flag [OF v, folded opcode_def]
  have e': "e' = (addOp opcode (int_of_uint32 via) (e\<lparr>enc_layer := l\<rparr>))\<lparr>enc_via_cnt := enc_via_cnt e + 1\<rparr>" "i = enc_idx e"
    using a v e(1) by (auto simp: addVia_def and_then_Inr enc_ok_def addOp_def opcode_def split: if_splits)
  have g: "grows e [(opcode, int_of_uint32 via)] e'" by (simp add: e' grows_def addOp_def)
  show ?thesis
  proof (rule keeps_upI [OF e _ g, where new = "[(x, y, Some l)]" and ids_new = "[i]"])
    show "enc_ok e' s'" using e(1) by (simp add: enc_ok_def e' addOp_def s' P)
  next
    assume c: "code_at (enc_wire e') (enc_idx e) [(opcode, int_of_uint32 via)]"
      and f: "finds db (enc_wire e') (int (enc_idx e) - 1) (map_option fst (pn_point s)) (map_option snd (pn_point s)) (pn_known s)"
    have "enc_idx e < length (enc_opcodes e')" using e(1) by (simp add: enc_ok_def e' addOp_def)
    from via_finds [OF c op(1,2) P f this] show "finds db (enc_wire e') (int (enc_idx e + length [(opcode, int_of_uint32 via)]) - 1)
      (map_option fst (pn_point s')) (map_option snd (pn_point s')) (pn_known s')
      \<and> list_all2 (points_to db (enc_wire e')) [i] [(x, y, Some l)]"
      by (simp add: s' P pn_known_def e'(2))
  next
    fix w assume "code_at w (enc_idx e) [(opcode, int_of_uint32 via)]"
    from pass_via [OF this _ op(2), where l = "pn_layer s" and p = "At x y" and c = "pn_color s" and vc = "pn_viacolor s" and dbg = dbg] op(1)
    show "passes dbg db w (view_of e s) [see s (EVia via (pn_layer s'))] (vw (enc_idx e + length [(opcode, int_of_uint32 via)])
        (pn_layer s') (pen_of (pn_point s')) (pn_color s') (pn_viacolor s'))"
      by (simp add: s' P see_def uint32_of_int_of_uint32 [OF v(2)])
  qed (use op(3) in \<open>simp_all add: s'\<close>)
qed

lemma keeps_up_tech_via:
  assumes e: "enc_ok e s" "tracks db (enc_wire e) ids s"
    and a: "addTechVia dbg db via e = Inr (e', i)" and t: "through_via db True via s = Some s'"
  shows "keeps_up dbg db e ids s [see s (ETechVia via (pn_layer s'))] e' (ids @ [i]) (s'\<lparr>pn_color := None\<rparr>)"
proof -
  obtain x y v l where P: "pn_point s = Some (x, y)" and v: "via_of db True via = Inr v" "via < 2 ^ 32"
    "via_top v = pn_layer s \<and> l = via_bottom v \<or> via_top v \<noteq> pn_layer s \<and> via_bottom v = pn_layer s \<and> l = via_top v"
    and s': "s' = s\<lparr>pn_layer := l, pn_found := True, pn_points := pn_points s @ [(x, y, Some l)]\<rparr>"
    using through_viaE [OF t] by metis
  define opcode where "opcode = (if True then kTechVia else kVia) OR (if via_top v = pn_layer s then 0 else WOP_VIA_EXIT_TOP)"
  note op = via_flag [OF v, folded opcode_def]
  have e': "e' = (addOp kColor 0 (addOp opcode (int_of_uint32 via) (e\<lparr>enc_layer := l\<rparr>)))\<lparr>enc_via_cnt := enc_via_cnt e + 1\<rparr>" "i = enc_idx e"
    using a v e(1) by (auto simp: addTechVia_def and_then_Inr enc_ok_def addOp_def opcode_def clearColor_def split: if_splits)
  have g: "grows e [(opcode, int_of_uint32 via), (kColor, 0)] e'" by (simp add: e' grows_def addOp_def)
  show ?thesis
  proof (rule keeps_upI [OF e _ g, where new = "[(x, y, Some l)]" and ids_new = "[i]"])
    show "enc_ok e' (s'\<lparr>pn_color := None\<rparr>)" using e(1) by (simp add: enc_ok_def e' addOp_def s' P)
  next
    assume c: "code_at (enc_wire e') (enc_idx e) [(opcode, int_of_uint32 via), (kColor, 0)]"
      and f: "finds db (enc_wire e') (int (enc_idx e) - 1) (map_option fst (pn_point s)) (map_option snd (pn_point s)) (pn_known s)"
    have "enc_idx e < length (enc_opcodes e')" using e(1) by (simp add: enc_ok_def e' addOp_def)
    from via_finds [OF c op(1,2) P f this] show "finds db (enc_wire e') (int (enc_idx e + length [(opcode, int_of_uint32 via), (kColor, 0)]) - 1)
      (map_option fst (pn_point (s'\<lparr>pn_color := None\<rparr>))) (map_option snd (pn_point (s'\<lparr>pn_color := None\<rparr>)))
      (pn_known (s'\<lparr>pn_color := None\<rparr>))
      \<and> list_all2 (points_to db (enc_wire e')) [i] [(x, y, Some l)]"
      by (simp add: s' P pn_known_def e'(2))
  next
    fix w assume c: "code_at w (enc_idx e) [(opcode, int_of_uint32 via), (kColor, 0)]"
    then have "code_at w (enc_idx e) [(opcode, int_of_uint32 via)]" "code_at w (enc_idx e + 1) [(kColor, 0)]" by simp_all
    with passes_trans [OF pass_tech_via [OF this(1) _ op(2), where l = "pn_layer s" and p = "At x y"
        and c = "pn_color s" and vc = "pn_viacolor s" and dbg = dbg]
        pass_color [OF this(2), of dbg db l "At x y" "pn_color s" "pn_viacolor s"]] op(1)
    show "passes dbg db w (view_of e s) [see s (ETechVia via (pn_layer s'))]
        (vw (enc_idx e + length [(opcode, int_of_uint32 via), (kColor, 0)]) (pn_layer (s'\<lparr>pn_color := None\<rparr>))
          (pen_of (pn_point (s'\<lparr>pn_color := None\<rparr>))) (pn_color (s'\<lparr>pn_color := None\<rparr>)) (pn_viacolor (s'\<lparr>pn_color := None\<rparr>)))"
      by (simp add: s' P see_def uint32_of_int_of_uint32 [OF v(2)])
  qed (use op(3) in \<open>simp_all add: s'\<close>)
qed

text \<open>New paths: the operation of the path, then its rule.\<close>

definition rule_code :: "(nat \<times> bool) option \<Rightarrow> (8 word \<times> int) list" where
  "rule_code rule =
     (case rule of None \<Rightarrow> [] | Some (r, b) \<Rightarrow> [(if b then kRule OR WOP_BLOCK_RULE else kRule, int_of_uint32 r)])"

lemma rule_code_others:
  "\<forall>(opcode, val)\<in>set (rule_code rule).
     opcode AND WOP_OPCODE_MASK \<notin> {kPath, kShort, kJunction, kX, kY, kVia, kTechVia}"
  by (auto simp: rule_code_def wire_ops split: option.splits)

lemma rule_code_passes:
  assumes "code_at w n (rule_code rule)" "rule_ok rule" "c = pn_color s" "vc = pn_viacolor s"
  shows "passes dbg db w (vw n l p c vc) (see_rule s rule) (vw (n + length (rule_code rule)) l p c vc)"
proof (cases rule)
  case None
  then show ?thesis by (simp add: rule_code_def see_rule_def)
next
  case (Some rb)
  then obtain r b where rb: "rule = Some (r, b)" by (cases rb) auto
  define opcode where "opcode = (if b then kRule OR WOP_BLOCK_RULE else kRule)"
  have "opcode AND WOP_OPCODE_MASK = kRule" "opcode AND WOP_BLOCK_RULE \<noteq> 0 \<longleftrightarrow> b"
    by (auto simp: opcode_def wire_ops)
  moreover from assms(1) rb have "code_at w n [(opcode, int_of_uint32 r)]" by (simp add: rule_code_def opcode_def)
  ultimately show ?thesis
    using pass_rule [of w n opcode "int_of_uint32 r" dbg db l p c vc] assms(2-) rb
    by (simp add: rule_code_def see_rule_def see_def rule_ok_def uint32_of_int_of_uint32)
qed

definition path_head :: "8 word \<Rightarrow> nat \<Rightarrow> 8 word \<Rightarrow> int \<Rightarrow> (8 word \<times> int) list" where
  "path_head wop layer t j =
     (wop OR t, int_of_uint32 layer) # (if wop = kPath then [] else [(kOperand, j)])"

definition path_event :: "8 word \<Rightarrow> nat \<Rightarrow> dbWireType \<Rightarrow> int \<Rightarrow> wire_event" where
  "path_event wop layer type j =
     (if wop = kPath then EPath layer type else if wop = kShort then EShort j layer type else EVwire j layer type)"

lemma getWireType_bytes:
  assumes "getWireType type = Inr t" "wop \<in> {kPath, kShort, kVwire, kJunction}"
  shows "(wop OR t) AND WOP_OPCODE_MASK = wop" "(wop OR t) AND WOP_WIRE_TYPE_MASK = t"
  using assms by (cases type; auto simp: wire_ops)+

lemma path_head_passes:
  assumes "code_at w n (path_head wop layer t j)" "wop \<in> {kPath, kShort, kVwire}" "getWireType type = Inr t" "layer < 2 ^ 32"
  shows "passes dbg db w (vw n l p c vc) [(path_event wop layer type j, c, vc)]
    (vw (n + length (path_head wop layer t j)) layer Up c vc)"
proof -
  have ne: "kShort \<noteq> kPath" "kVwire \<noteq> kPath" "kVwire \<noteq> kShort" by (simp_all add: wire_ops)
  have b: "(wop OR t) AND WOP_OPCODE_MASK = wop" "getWireType type = Inr ((wop OR t) AND WOP_WIRE_TYPE_MASK)"
    using getWireType_bytes [OF assms(3), of wop] assms(2,3) by auto
  consider "wop = kPath" | "wop = kShort" | "wop = kVwire" using assms(2) by auto
  then show ?thesis
  proof cases
    case 1
    with assms(1) have "code_at w n [(wop OR t, int_of_uint32 layer)]" by (simp add: path_head_def)
    from pass_path [OF this trans [OF b(1) 1] b(2), of dbg db l p c vc] show ?thesis
      by (simp add: 1 path_head_def path_event_def uint32_of_int_of_uint32 [OF assms(4)])
  next
    case 2
    with assms(1) have "code_at w n [(wop OR t, int_of_uint32 layer), (kOperand, j)]" by (simp add: path_head_def ne)
    from pass_short [OF this trans [OF b(1) 2] b(2), of dbg db l p c vc] show ?thesis
      by (simp add: 2 ne path_head_def path_event_def uint32_of_int_of_uint32 [OF assms(4)])
  next
    case 3
    with assms(1) have "code_at w n [(wop OR t, int_of_uint32 layer), (kOperand, j)]" by (simp add: path_head_def ne)
    from pass_vwire [OF this trans [OF b(1) 3] b(2), of dbg db l p c vc] show ?thesis
      by (simp add: 3 ne path_head_def path_event_def uint32_of_int_of_uint32 [OF assms(4)])
  qed
qed

lemma keeps_up_path:
  assumes e: "enc_ok e s" "tracks db (enc_wire e) ids s"
    and wop: "wop \<in> {kPath, kShort, kVwire}" and t: "getWireType type = Inr t"
    and st: "start_path layer (wop \<noteq> kVwire) type rule s = Some s'"
    and g: "grows e (path_head wop layer t j @ rule_code rule) e'"
    and e': "enc_layer e' = layer" "enc_point_cnt e' = 0" "enc_wire_type e' = t"
      "enc_non_default_rule e' \<noteq> 0 \<longrightarrow> enc_rule_opcode e' AND WOP_OPCODE_MASK = kRule"
  shows "keeps_up dbg db e ids s (see s (path_event wop layer type j) # see_rule s rule) e' ids s'"
proof -
  from st have l: "layer < 2 ^ 32" "rule_ok rule"
    and s': "s' = s\<lparr>pn_layer := layer, pn_found := (wop \<noteq> kVwire), pn_point := None, pn_type := type\<rparr>"
    by (auto simp: start_path_def split: if_splits)
  note b = getWireType_bytes [OF t, of wop]
  have wop': "wop = kPath \<or> wop = kShort \<or> wop = kVwire" using wop by simp
  let ?code = "path_head wop layer t j @ rule_code rule"
  show ?thesis
  proof (rule keeps_upI [OF e _ g, where new = "[]" and ids_new = "[]"])
    show "enc_ok e' s'" using e(1) g e' t by (simp add: enc_ok_def grows_def s')
    show "fst (hd ?code) AND WOP_OPCODE_MASK \<noteq> kRule" using b(1) wop' by (auto simp: path_head_def wire_ops)
  next
    assume c: "code_at (enc_wire e') (enc_idx e) ?code"
    have "finds db (enc_wire e') (int (enc_idx e + length ?code) - 1) None None (pn_known s')"
    proof (cases "wop = kVwire")
      case True
      then show ?thesis by (simp add: s' pn_known_def finds_nothing)
    next
      case False
      from c have c0: "code_at (enc_wire e') (enc_idx e) [(wop OR t, int_of_uint32 layer)]"
        and c1: "code_at (enc_wire e') (enc_idx e + 1) (tl (path_head wop layer t j) @ rule_code rule)"
        by (simp_all add: path_head_def)
      have "finds db (enc_wire e') (int (enc_idx e)) None None (Some (uint32_of_int (int_of_uint32 layer)))"
        by (rule finds_layer [OF c0]) (use b(1) wop False in auto)
      then have f: "finds db (enc_wire e') (int (enc_idx e + 1) - 1) None None (Some layer)"
        by (simp add: uint32_of_int_of_uint32 [OF l(1)])
      have "finds db (enc_wire e') (int (enc_idx e + 1 + length (tl (path_head wop layer t j) @ rule_code rule)) - 1)
          None None (Some layer)"
        by (rule finds_others [OF c1 f]) (use rule_code_others [of rule] in \<open>auto simp: path_head_def wire_ops\<close>)
      then show ?thesis using False by (simp add: s' pn_known_def path_head_def)
    qed
    then show "finds db (enc_wire e') (int (enc_idx e + length ?code) - 1)
        (map_option fst (pn_point s')) (map_option snd (pn_point s')) (pn_known s')
      \<and> list_all2 (points_to db (enc_wire e')) [] []" by (simp add: s')
  next
    fix w assume c: "code_at w (enc_idx e) ?code"
    then have c0: "code_at w (enc_idx e) (path_head wop layer t j)"
      and c1: "code_at w (enc_idx e + length (path_head wop layer t j)) (rule_code rule)"
      by (simp_all add: code_at_append)
    from passes_trans [OF path_head_passes [OF c0 wop t l(1)] rule_code_passes [OF c1 l(2) refl refl]]
    show "passes dbg db w (view_of e s) (see s (path_event wop layer type j) # see_rule s rule)
      (vw (enc_idx e + length ?code) (pn_layer s') (pen_of (pn_point s')) (pn_color s') (pn_viacolor s'))"
      by (simp add: s' see_def add.assoc)
  qed (simp_all add: s' path_head_def)
qed

text \<open>Paths from a junction.\<close>

lemma junction_found:
  assumes "tracks db w ids s" "k < length (pn_points s)" "pn_points s ! k = (x, y, Some l)"
  shows "jct_id ids k = int (ids ! k)" "finds db w (jct_id ids k) (Some x) (Some y) (Some l)" "k < length ids"
proof -
  from assms(1) have p: "list_all2 (points_to db w) ids (pn_points s)" by (simp add: tracks_def)
  with assms(2) show k: "k < length ids" by (simp add: list_all2_lengthD)
  then show j: "jct_id ids k = int (ids ! k)" by (simp add: jct_id_def)
  from list_all2_nthD [OF p k] assms(3) j show "finds db w (jct_id ids k) (Some x) (Some y) (Some l)"
    by (simp add: points_to_def)
qed

lemma start_atE:
  assumes "start_at k type rule s = Some (x, y, s')"
  obtains l where "k < length (pn_points s)" "pn_points s ! k = (x, y, Some l)" "rule_ok rule" "type \<noteq> Some dbWireType.SHIELD"
    "s' = s\<lparr>pn_layer := l, pn_found := True, pn_point := Some (x, y),
            pn_type := (case type of None \<Rightarrow> pn_type s | Some t \<Rightarrow> t)\<rparr>"
  using assms by (auto simp: start_at_def split: if_splits prod.splits option.splits)

lemma colinear_passes:
  assumes "code_at w n [(opcode, val)]" "opcode AND WOP_OPCODE_MASK = kColinear"
    "opcode AND WOP_EXTENSION = 0 \<longleftrightarrow> ext = None" "ext = None \<or> ext = Some val"
  shows "passes dbg db w (vw n l (Junction x y) c vc) [(point_event ext x y, c, vc)]
    (vw (after_flush w (n + 1)) l (At x y) c vc)"
  using assms pass_colinear_jct [OF assms(1,2)] pass_colinear_ext_jct [OF assms(1,2)]
  by (cases ext) (simp_all add: point_event_def)

lemma keeps_up_junction:
  assumes e: "enc_ok e s" "tracks db (enc_wire e) ids s"
    and st: "start_at k type rule s = Some (x, y, s')"
    and t: "getWireType (pn_type s') = Inr t"
    and g: "grows e ((kJunction OR t, jct_id ids k) # rule_code rule @ [(opcode, val)]) e'"
    and op: "opcode AND WOP_OPCODE_MASK = kColinear" "opcode AND WOP_EXTENSION = 0 \<longleftrightarrow> ext = None"
      "ext = None \<or> ext = Some val"
    and e': "enc_layer e' = pn_layer s'" "enc_point_cnt e' = 1" "enc_x e' = x" "enc_y e' = y" "enc_wire_type e' = t"
      "enc_non_default_rule e' \<noteq> 0 \<longrightarrow> enc_rule_opcode e' AND WOP_OPCODE_MASK = kRule"
  shows "keeps_up dbg db e ids s
    (see s (EJunction (jct_id ids k) (pn_layer s') (pn_type s')) # see_rule s rule @ [see s (point_event ext x y)]) e' ids s'"
proof -
  from start_atE [OF st] obtain l where k: "k < length (pn_points s)" "pn_points s ! k = (x, y, Some l)" "rule_ok rule"
    and s': "s' = s\<lparr>pn_layer := l, pn_found := True, pn_point := Some (x, y),
            pn_type := (case type of None \<Rightarrow> pn_type s | Some t \<Rightarrow> t)\<rparr>" by metis
  note j = junction_found [OF e(2) k(1,2)]
  note b = getWireType_bytes [OF t, of kJunction, simplified]
  define type' where "type' = pn_type s'"
  let ?code = "(kJunction OR t, jct_id ids k) # rule_code rule @ [(opcode, val)]"
  show ?thesis
  proof (rule keeps_upI [OF e _ g, where new = "[]" and ids_new = "[]"])
    show "enc_ok e' s'" using e(1) g e' t by (simp add: enc_ok_def grows_def s')
    show "fst (hd ?code) AND WOP_OPCODE_MASK \<noteq> kRule" using b(1) by (simp add: wire_ops)
  next
    assume c: "code_at (enc_wire e') (enc_idx e) ?code"
    then have c0: "code_at (enc_wire e') (enc_idx e) [(kJunction OR t, jct_id ids k)]"
      and c1: "code_at (enc_wire e') (enc_idx e + 1) (rule_code rule @ [(opcode, val)])" by simp_all
    have "finds db (enc_wire e') (int (enc_idx e)) (Some x) (Some y) (Some l)"
      by (rule finds_junction [OF c0 b(1) finds_extends [OF j(2) grows_extends [OF g]]])
    then have f: "finds db (enc_wire e') (int (enc_idx e + 1) - 1) (Some x) (Some y) (Some l)" by simp
    have "finds db (enc_wire e') (int (enc_idx e + 1 + length (rule_code rule @ [(opcode, val)])) - 1)
        (Some x) (Some y) (Some l)"
      by (rule finds_others [OF c1 f]) (use rule_code_others [of rule] op(1) in \<open>auto simp: wire_ops\<close>)
    then show "finds db (enc_wire e') (int (enc_idx e + length ?code) - 1)
        (map_option fst (pn_point s')) (map_option snd (pn_point s')) (pn_known s')
      \<and> list_all2 (points_to db (enc_wire e')) [] []" by (simp add: s' pn_known_def)
  next
    fix w assume c: "code_at w (enc_idx e) ?code" and ex: "extends (enc_wire e') w"
      and fl: "after_flush w (enc_idx e + length ?code) = enc_idx e + length ?code"
    from c have c0: "code_at w (enc_idx e) [(kJunction OR t, jct_id ids k)]"
      and c1: "code_at w (enc_idx e + 1) (rule_code rule)"
      and c2: "code_at w (enc_idx e + 1 + length (rule_code rule)) [(opcode, val)]"
      by (simp_all add: code_at_append)
    have "finds db w (jct_id ids k) (Some x) (Some y) (Some l)"
      by (rule finds_extends [OF j(2) extends_trans [OF grows_extends [OF g] ex]])
    note gp = finds_getPrevPoint [OF this]
    have "getWireType type' = Inr ((kJunction OR t) AND WOP_WIRE_TYPE_MASK)" using t b(2) by (simp add: type'_def)
    from passes_trans [OF pass_junction [OF c0 b(1) this gp, where dbg = dbg and l = "pn_layer s"
          and p = "pen_of (pn_point s)" and c = "pn_color s" and vc = "pn_viacolor s"]
        passes_trans [OF rule_code_passes [OF c1 k(3) refl refl] colinear_passes [OF c2 op]]] fl
    show "passes dbg db w (view_of e s)
       (see s (EJunction (jct_id ids k) (pn_layer s') (pn_type s')) # see_rule s rule @ [see s (point_event ext x y)])
       (vw (enc_idx e + length ?code) (pn_layer s') (pen_of (pn_point s')) (pn_color s') (pn_viacolor s'))"
      unfolding type'_def by (simp add: s' see_def add.assoc)
  qed (simp_all add: s')
qed

section \<open>Any calls\<close>

lemmas path_simps = grows_def addOp_def initPath_def initPath_rule_def add_rule_def rule_code_def path_head_def
  path_event_def wire_ops

lemma call_path:
  assumes "enc_ok e s" "tracks db (enc_wire e) ids s"
  shows
    "call dbg db (NewPath layer type rule) (e, ids) = Inr (e', ids') \<Longrightarrow> draw db j (NewPath layer type rule) s = Some (evs, s')
       \<Longrightarrow> keeps_up dbg db e ids s evs e' ids' s'"
    "call dbg db (NewPathShort k layer type rule) (e, ids) = Inr (e', ids')
       \<Longrightarrow> draw db (jct_id ids) (NewPathShort k layer type rule) s = Some (evs, s')
       \<Longrightarrow> keeps_up dbg db e ids s evs e' ids' s'"
    "call dbg db (NewPathVirtualWire k layer type rule) (e, ids) = Inr (e', ids')
       \<Longrightarrow> draw db (jct_id ids) (NewPathVirtualWire k layer type rule) s = Some (evs, s')
       \<Longrightarrow> keeps_up dbg db e ids s evs e' ids' s'"
proof -
  assume c: "call dbg db (NewPath layer type rule) (e, ids) = Inr (e', ids')" and d: "draw db j (NewPath layer type rule) s = Some (evs, s')"
  then obtain t where t: "getWireType type = Inr t"
    by (auto simp: without_id_def newPath_def newPath_rule_def and_then_Inr split: option.splits)
  with c have i: "ids' = ids" and g: "grows e (path_head kPath layer t 0 @ rule_code rule) e'"
    and e': "enc_layer e' = layer" "enc_point_cnt e' = 0" "enc_wire_type e' = t"
      "enc_non_default_rule e' \<noteq> 0 \<longrightarrow> enc_rule_opcode e' AND WOP_OPCODE_MASK = kRule"
    by (auto simp: without_id_def newPath_def newPath_rule_def path_simps split: option.splits)
  from d have st: "start_path layer (kPath \<noteq> kVwire) type rule s = Some s'"
    and evs: "evs = see s (path_event kPath layer type 0) # see_rule s rule"
    by (auto simp: path_event_def wire_ops)
  show "keeps_up dbg db e ids s evs e' ids' s'"
    unfolding evs i by (rule keeps_up_path [OF assms _ t st g e']) simp
next
  assume c: "call dbg db (NewPathShort k layer type rule) (e, ids) = Inr (e', ids')"
    and d: "draw db (jct_id ids) (NewPathShort k layer type rule) s = Some (evs, s')"
  then obtain t where t: "getWireType type = Inr t"
    by (auto simp: without_id_def newPathShort_def newPathShort_rule_def and_then_Inr split: option.splits)
  with c have i: "ids' = ids" and g: "grows e (path_head kShort layer t (jct_id ids k) @ rule_code rule) e'"
    and e': "enc_layer e' = layer" "enc_point_cnt e' = 0" "enc_wire_type e' = t"
      "enc_non_default_rule e' \<noteq> 0 \<longrightarrow> enc_rule_opcode e' AND WOP_OPCODE_MASK = kRule"
    by (auto simp: without_id_def newPathShort_def newPathShort_rule_def and_then_Inr path_simps split: option.splits)
  from d have st: "start_path layer (kShort \<noteq> kVwire) type rule s = Some s'"
    and evs: "evs = see s (path_event kShort layer type (jct_id ids k)) # see_rule s rule"
    by (auto simp: path_event_def wire_ops split: if_splits)
  show "keeps_up dbg db e ids s evs e' ids' s'"
    unfolding evs i by (rule keeps_up_path [OF assms _ t st g e']) simp
next
  assume c: "call dbg db (NewPathVirtualWire k layer type rule) (e, ids) = Inr (e', ids')"
    and d: "draw db (jct_id ids) (NewPathVirtualWire k layer type rule) s = Some (evs, s')"
  then obtain t where t: "getWireType type = Inr t"
    by (auto simp: without_id_def newPathVirtualWire_def newPathVirtualWire_rule_def and_then_Inr split: option.splits)
  with c have i: "ids' = ids" and g: "grows e (path_head kVwire layer t (jct_id ids k) @ rule_code rule) e'"
    and e': "enc_layer e' = layer" "enc_point_cnt e' = 0" "enc_wire_type e' = t"
      "enc_non_default_rule e' \<noteq> 0 \<longrightarrow> enc_rule_opcode e' AND WOP_OPCODE_MASK = kRule"
    by (auto simp: without_id_def newPathVirtualWire_def newPathVirtualWire_rule_def and_then_Inr path_simps split: option.splits)
  from d have st: "start_path layer (kVwire \<noteq> kVwire) type rule s = Some s'"
    and evs: "evs = see s (path_event kVwire layer type (jct_id ids k)) # see_rule s rule"
    by (auto simp: path_event_def wire_ops split: if_splits)
  show "keeps_up dbg db e ids s evs e' ids' s'"
    unfolding evs i by (rule keeps_up_path [OF assms _ t st g e']) simp
qed

lemma at_junction_Inr:
  assumes e: "enc_ok e s" "tracks db (enc_wire e) ids s" and k: "k < length (pn_points s)" "pn_points s ! k = (x, y, Some l)"
  shows "at_junction dbg db (jct_id ids k) init e = Inr e' \<longleftrightarrow>
    (\<exists>e1. init l e = Inr e1 \<and> (dbg \<longrightarrow> ids ! k < enc_idx e)
       \<and> e' = addOp (kJunction OR enc_wire_type e1) (jct_id ids k) (e1\<lparr>enc_x := x, enc_y := y, enc_point_cnt := 1\<rparr>))"
proof -
  note j = junction_found [OF e(2) k]
  have "getPrevPoint db (enc_opcodes e) (enc_data e) (jct_id ids k) True = Inr \<lparr>pnt_x = x, pnt_y = y, pnt_layer = l\<rparr>"
    using finds_getPrevPoint [OF j(2)] by (simp add: enc_wire_def)
  then show ?thesis using j(1) by (auto simp: at_junction_def and_then_Inr)
qed

lemma call_junction:
  assumes e: "enc_ok e s" "tracks db (enc_wire e) ids s"
  shows
    "call dbg db (NewPathJct k type rule) (e, ids) = Inr (e', ids')
       \<Longrightarrow> draw db (jct_id ids) (NewPathJct k type rule) s = Some (evs, s')
       \<Longrightarrow> keeps_up dbg db e ids s evs e' ids' s'"
    "call dbg db (NewPathExt k ext type rule) (e, ids) = Inr (e', ids')
       \<Longrightarrow> draw db (jct_id ids) (NewPathExt k ext type rule) s = Some (evs, s')
       \<Longrightarrow> keeps_up dbg db e ids s evs e' ids' s'"
proof -
  assume c: "call dbg db (NewPathJct k type rule) (e, ids) = Inr (e', ids')"
    and d: "draw db (jct_id ids) (NewPathJct k type rule) s = Some (evs, s')"
  from d obtain x y where st: "start_at k type rule s = Some (x, y, s')"
    and evs: "evs = see s (EJunction (jct_id ids k) (pn_layer s') (pn_type s')) # see_rule s rule @ [see s (point_event None x y)]"
    by (auto simp: point_event_def)
  from start_atE [OF st] obtain l where k: "k < length (pn_points s)" "pn_points s ! k = (x, y, Some l)"
    and s': "s' = s\<lparr>pn_layer := l, pn_found := True, pn_point := Some (x, y),
            pn_type := (case type of None \<Rightarrow> pn_type s | Some t \<Rightarrow> t)\<rparr>" by metis
  note at = at_junction_Inr [OF e k]
  define cop where "cop = (if rule = None then kColinear OR WOP_DEFAULT_WIDTH else kColinear)"
  have i: "ids' = ids" using c by (auto simp: without_id_def and_then_Inr)
  have wt: "getWireType (pn_type s) = Inr (enc_wire_type e)" using e(1) by (simp add: enc_ok_def)
  from c [unfolded i] wt obtain t where t: "getWireType (pn_type s') = Inr t"
    and g: "grows e ((kJunction OR t, jct_id ids k) # rule_code rule @ [(cop, 0)]) e'"
    and e': "enc_layer e' = pn_layer s'" "enc_point_cnt e' = 1" "enc_x e' = x" "enc_y e' = y" "enc_wire_type e' = t"
      "enc_non_default_rule e' \<noteq> 0 \<longrightarrow> enc_rule_opcode e' AND WOP_OPCODE_MASK = kRule"
    by (auto simp: without_id_def newPath_jct_def newPath_jct_type_def newPath_jct_rule_def newPath_jct_type_rule_def
        and_then_Inr at path_simps s' cop_def split: option.splits)
  show "keeps_up dbg db e ids s evs e' ids' s'"
    unfolding evs i by (rule keeps_up_junction [OF e st t g _ _ _ e']) (auto simp: cop_def wire_ops)
next
  assume c: "call dbg db (NewPathExt k ext type rule) (e, ids) = Inr (e', ids')"
    and d: "draw db (jct_id ids) (NewPathExt k ext type rule) s = Some (evs, s')"
  from d obtain x y where st: "start_at k type rule s = Some (x, y, s')"
    and evs: "evs = see s (EJunction (jct_id ids k) (pn_layer s') (pn_type s')) # see_rule s rule
      @ [see s (point_event (Some ext) x y)]"
    by (auto simp: point_event_def)
  from start_atE [OF st] obtain l where k: "k < length (pn_points s)" "pn_points s ! k = (x, y, Some l)"
    and s': "s' = s\<lparr>pn_layer := l, pn_found := True, pn_point := Some (x, y),
            pn_type := (case type of None \<Rightarrow> pn_type s | Some t \<Rightarrow> t)\<rparr>" by metis
  note at = at_junction_Inr [OF e k]
  define cop where "cop = (if rule = None then kColinear OR WOP_EXTENSION OR WOP_DEFAULT_WIDTH else kColinear OR WOP_EXTENSION)"
  have i: "ids' = ids" using c by (auto simp: without_id_def and_then_Inr)
  have wt: "getWireType (pn_type s) = Inr (enc_wire_type e)" using e(1) by (simp add: enc_ok_def)
  from c [unfolded i] wt obtain t where t: "getWireType (pn_type s') = Inr t"
    and g: "grows e ((kJunction OR t, jct_id ids k) # rule_code rule @ [(cop, ext)]) e'"
    and e': "enc_layer e' = pn_layer s'" "enc_point_cnt e' = 1" "enc_x e' = x" "enc_y e' = y" "enc_wire_type e' = t"
      "enc_non_default_rule e' \<noteq> 0 \<longrightarrow> enc_rule_opcode e' AND WOP_OPCODE_MASK = kRule"
    by (auto simp: without_id_def newPathExt_def newPathExt_type_def newPathExt_rule_def newPathExt_type_rule_def
        and_then_Inr at path_simps s' cop_def split: option.splits)
  show "keeps_up dbg db e ids s evs e' ids' s'"
    unfolding evs i by (rule keeps_up_junction [OF e st t g _ _ _ e']) (auto simp: cop_def wire_ops)
qed

lemma draw_ids_cong:
  assumes "\<And>k. k < length (pn_points s) \<Longrightarrow> j k = j' k"
  shows "draw db j c s = draw db j' c s"
  using assms
  by (cases c) (auto simp: start_at_def split: option.splits if_splits prod.splits)

lemma call_keeps_up:
  assumes e: "enc_ok e s" "tracks db (enc_wire e) ids s"
    and c: "call dbg db cmd (e, ids) = Inr (e', ids')" and d: "draw db (jct_id ids) cmd s = Some (evs, s')"
  shows "keeps_up dbg db e ids s evs e' ids' s'"
proof (cases cmd)
  case (AddPoint x y "prop")
  with c obtain i where a: "addPoint dbg x y prop e = Inr (e', i)" "ids' = ids @ [i]"
    by (auto simp: with_id_def and_then_Inr)
  from d AddPoint have m: "move_to x y s = Some s'" "evs = [see s (EPoint x y)]" by auto
  from keeps_up_point [OF e addPoint_shape [OF a(1) e(1) m(1)] m(1), of dbg] show ?thesis
    by (simp add: a(2) m(2) point_event_def)
next
  case (AddPointExt x y ext "prop")
  with c obtain i where a: "addPoint_ext dbg x y ext prop e = Inr (e', i)" "ids' = ids @ [i]"
    by (auto simp: with_id_def and_then_Inr)
  from d AddPointExt have m: "move_to x y s = Some s'" "evs = [see s (EPointExt x y ext)]" by auto
  from keeps_up_point [OF e addPoint_ext_shape [OF a(1) e(1) m(1)] m(1), of dbg] show ?thesis
    by (simp add: a(2) m(2) point_event_def)
next
  case (AddVia via)
  with c obtain i where a: "addVia dbg db via e = Inr (e', i)" "ids' = ids @ [i]"
    by (auto simp: with_id_def and_then_Inr)
  with d AddVia keeps_up_via [OF e a(1)] show ?thesis by auto
next
  case (AddTechVia via)
  with c obtain i where a: "addTechVia dbg db via e = Inr (e', i)" "ids' = ids @ [i]"
    by (auto simp: with_id_def and_then_Inr)
  with d AddTechVia keeps_up_tech_via [OF e a(1)] show ?thesis by auto
next
  case (AddRect x1 y1 x2 y2)
  with c d keeps_up_rect [OF e] show ?thesis by (auto simp: without_id_def and_then_Inr split: if_splits)
next
  case (AddITerm t)
  with c d keeps_up_iterm [OF e] show ?thesis by (auto simp: without_id_def and_then_Inr split: if_splits)
next
  case (AddBTerm t)
  with c d keeps_up_bterm [OF e] show ?thesis by (auto simp: without_id_def and_then_Inr split: if_splits)
next
  case (SetColor k)
  with c d keeps_up_color [OF e, of k dbg] show ?thesis
    by (auto simp: without_id_def and_then_Inr setColor_def split: if_splits)
next
  case ClearColor
  with c d keeps_up_color [OF e, of 0 dbg] show ?thesis by (auto simp: clearColor_def)
next
  case (SetViaColor b k t)
  with c d keeps_up_via_color [OF e, of b k t dbg] show ?thesis
    by (auto simp: without_id_def and_then_Inr setViaColor_def split: if_splits)
next
  case ClearViaColor
  with c d keeps_up_via_color [OF e, of 0 0 0 dbg] show ?thesis by (auto simp: clearViaColor_def)
next
  case (NewPath layer type rule)
  show ?thesis by (rule call_path(1) [OF e c [unfolded NewPath] d [unfolded NewPath]])
next
  case (NewPathShort k layer type rule)
  show ?thesis by (rule call_path(2) [OF e c [unfolded NewPathShort] d [unfolded NewPathShort]])
next
  case (NewPathVirtualWire k layer type rule)
  show ?thesis by (rule call_path(3) [OF e c [unfolded NewPathVirtualWire] d [unfolded NewPathVirtualWire]])
next
  case (NewPathJct k type rule)
  show ?thesis by (rule call_junction(1) [OF e c [unfolded NewPathJct] d [unfolded NewPathJct]])
next
  case (NewPathExt k ext type rule)
  show ?thesis by (rule call_junction(2) [OF e c [unfolded NewPathExt] d [unfolded NewPathExt]])
qed

lemma jct_id_append: "k < length ids \<Longrightarrow> jct_id (ids @ new) k = jct_id ids k"
  by (simp add: jct_id_def nth_append)

lemma with_id_grows: "with_id ids r = Inr x \<Longrightarrow> \<exists>new. snd x = ids @ new"
  by (auto simp: with_id_def and_then_Inr)

lemma without_id_grows: "without_id ids r = Inr x \<Longrightarrow> \<exists>new. snd x = ids @ new"
  by (auto simp: without_id_def and_then_Inr)

lemma call_ids: "call dbg db c (e, ids) = Inr x \<Longrightarrow> \<exists>new. snd x = ids @ new"
  by (cases c) (auto dest!: with_id_grows without_id_grows)

lemma calls_ids: "calls dbg db cs (e, ids) = Inr x \<Longrightarrow> \<exists>new. snd x = ids @ new"
proof (induction cs arbitrary: e ids)
  case (Cons c cs)
  then show ?case using call_ids by (fastforce simp: and_then_Inr)
qed auto

lemma calls_read:
  assumes "enc_ok e s" "tracks db (enc_wire e) ids s" "calls dbg db cs (e, ids) = Inr (e', ids')"
    and "drawing db (jct_id ids') cs s = Some (evs, s')"
  shows "enc_ok e' s' \<and> tracks db (enc_wire e') ids' s' \<and> extends (enc_wire e) (enc_wire e')
    \<and> after_flush (enc_wire e') (enc_idx e) = enc_idx e
    \<and> passes dbg db (enc_wire e') (view_of e s) evs (view_of e' s')"
  using assms
proof (induction cs arbitrary: e ids s evs)
  case Nil
  then show ?case by (auto simp: after_flush_def enc_ok_def enc_wire_def)
next
  case (Cons c cs)
  from Cons.prems(3) obtain e1 ids1 where c1: "call dbg db c (e, ids) = Inr (e1, ids1)"
    and cs: "calls dbg db cs (e1, ids1) = Inr (e', ids')" by (auto simp: and_then_Inr)
  from Cons.prems(4) obtain evs1 s1 evs2 where d1: "draw db (jct_id ids') c s = Some (evs1, s1)"
    and ds: "drawing db (jct_id ids') cs s1 = Some (evs2, s')" and evs: "evs = evs1 @ evs2"
    by (auto split: option.splits)
  from calls_ids [OF Cons.prems(3)] obtain new where n: "ids' = ids @ new" by auto
  have len: "length ids = length (pn_points s)"
    using Cons.prems(2) by (auto simp: tracks_def dest: list_all2_lengthD)
  have "draw db (jct_id ids) c s = Some (evs1, s1)"
    using d1 draw_ids_cong [of s "jct_id ids'" "jct_id ids"] len by (simp add: n jct_id_append)
  from call_keeps_up [OF Cons.prems(1,2) c1 this] have k: "keeps_up dbg db e ids s evs1 e1 ids1 s1" .
  from k obtain code where code: "code \<noteq> []" "fst (hd code) AND WOP_OPCODE_MASK \<noteq> kRule" "grows e code e1"
    unfolding keeps_up_def by blast
  from k Cons.IH [OF _ _ cs ds] have s': "enc_ok e' s'" "tracks db (enc_wire e') ids' s'"
    "extends (enc_wire e1) (enc_wire e')" "after_flush (enc_wire e') (enc_idx e1) = enc_idx e1"
    "passes dbg db (enc_wire e') (view_of e1 s1) evs2 (view_of e' s')"
    unfolding keeps_up_def by blast+
  have ex: "extends (enc_wire e) (enc_wire e')"
    using extends_trans [OF grows_extends [OF code(3)] s'(3)] .
  have "code_at (enc_wire e') (enc_idx e) code"
    by (rule code_at_extends [OF grows_code_at [OF code(3) Cons.prems(1)] s'(3)])
  with code(1,2) have "after_flush (enc_wire e') (enc_idx e) = enc_idx e"
    by (cases code) (auto simp: after_flush_def)
  moreover have "passes dbg db (enc_wire e') (view_of e s) evs1 (view_of e1 s1)"
    using k s'(3,4) unfolding keeps_up_def by blast
  ultimately show ?case using s' ex passes_trans [OF _ s'(5)] unfolding evs by blast
qed

lemma enc_ok_begin: "enc_ok dbWireEncoder_begin pencil_begin"
  by (simp add: enc_ok_def dbWireEncoder_begin_def pencil_begin_def wire_ops)

lemma tracks_begin: "tracks db (enc_wire dbWireEncoder_begin) [] pencil_begin"
  by (simp add: tracks_def pencil_begin_def pn_known_def finds_nothing)

text \<open>What the encoder was told is what the decoder reads; and every id it returned is an index of its point.\<close>

lemma codec_roundtrip:
  assumes "calls dbg db cs (dbWireEncoder_begin, []) = Inr (e, ids)"
    and "drawing db (jct_id ids) cs pencil_begin = Some (evs, s')" and "dec_color d0 = None" "dec_viacolor d0 = None"
  shows "decode_all dbg db (enc_wire e) (dbWireDecoder_begin d0) = Inr evs"
proof -
  from calls_read [OF enc_ok_begin tracks_begin assms(1,2)] have ok: "enc_ok e s'"
    and p: "passes dbg db (enc_wire e) (view_of dbWireEncoder_begin pencil_begin) evs (view_of e s')" by blast+
  have "at_view (dbWireDecoder_begin d0) (view_of dbWireEncoder_begin pencil_begin)"
    using assms(3,4) by (simp add: at_view_def dbWireDecoder_begin_def dbWireEncoder_begin_def pencil_begin_def)
  with p obtain d' where r: "reads dbg db (enc_wire e) (dbWireDecoder_begin d0) evs d'" "at_view d' (view_of e s')"
    unfolding passes_def by blast
  from reads_decode_all [OF r(1)] r(2) ok show ?thesis by (simp add: at_view_def enc_ok_def enc_wire_def)
qed

lemma ids_name_points:
  assumes "calls dbg db cs (dbWireEncoder_begin, []) = Inr (e, ids)"
    and "drawing db (jct_id ids) cs pencil_begin = Some (evs, s')"
  shows "length ids = length (pn_points s')"
    and "k < length ids \<Longrightarrow> pn_points s' ! k = (x, y, Some l) \<Longrightarrow>
      getPrevPoint db (enc_opcodes e) (enc_data e) (int (ids ! k)) True = Inr \<lparr>pnt_x = x, pnt_y = y, pnt_layer = l\<rparr>"
proof -
  from calls_read [OF enc_ok_begin tracks_begin assms] have t: "tracks db (enc_wire e) ids s'" by blast
  then show l: "length ids = length (pn_points s')" by (auto simp: tracks_def dest: list_all2_lengthD)
  assume k: "k < length ids" "pn_points s' ! k = (x, y, Some l)"
  note j = junction_found [OF t k(1) [unfolded l] k(2)]
  from finds_getPrevPoint [OF j(2)] j(1)
  show "getPrevPoint db (enc_opcodes e) (enc_data e) (int (ids ! k)) True = Inr \<lparr>pnt_x = x, pnt_y = y, pnt_layer = l\<rparr>"
    by (simp add: enc_wire_def)
qed

text \<open>
  On a virtual wire the walk goes past the operation that names the layer, to the path before: the id of a
  point on layer 2 names a point on layer 1, and a path from there starts on the wrong layer.
\<close>

definition vwire_calls :: "wire_cmd list" where
  "vwire_calls =
     [NewPath 1 dbWireType.ROUTED None, AddPoint 0 0 0, NewPathVirtualWire 0 2 dbWireType.ROUTED None,
      AddPoint 100 0 0, NewPathJct 1 None None]"

definition no_db :: wire_db where
  "no_db = \<lparr>wd_layers = [], wd_vias = [], wd_tech_vias = [], wd_block_rules = [], wd_tech_rules = []\<rparr>"

lemma virtual_wire_loses_layer:
  "\<exists>e. calls True no_db vwire_calls (dbWireEncoder_begin, []) = Inr (e, [2, 6])
     \<and> getPrevPoint no_db (enc_opcodes e) (enc_data e) 6 True = Inr \<lparr>pnt_x = 100, pnt_y = 0, pnt_layer = 1\<rparr>"
  by (simp add: vwire_calls_def without_id_def with_id_def newPath_def newPathVirtualWire_def newPath_jct_def
      addPoint_def jct_id_def dbWireEncoder_begin_def addOp_def initPath_def enc_count_def enc_property_def
      enc_repeat_rule_def at_junction_def getPrevPoint_def prev_point.simps prev_turn_def Let_def wire_ops
      assert_that_def int_of_uint32_def uint32_of_int_def)

end
