(* ===== verification/WireShapes.thy ===== *)
theory WireShapes
  imports WireRoundtrip DbShape
begin

text \<open>
  The shapes of what the encoder was told, and a flag of the iterator that outlives its path:
  \<open>has_width_\<close> is set by the rule of one path and holds for all that follow.
\<close>

definition drawn_shapes :: "wire_db \<Rightarrow> wire_cmd list \<Rightarrow> wire_error + Rect list" where
  "drawn_shapes db cs =
     and_then (calls True db cs (dbWireEncoder_begin, [])) (\<lambda>(e, ids).
     and_then (wire_shapes True db (enc_wire e)) (\<lambda>ss. Inr (map sh_rect ss)))"

text \<open>Two layers, a via between them and a rule of width 300.\<close>

definition two_layers :: wire_db where
  "two_layers = \<lparr>wd_layers =
     [\<lparr>tl_id = 1, tl_number = 1, tl_name = ''m1'', tl_type = dbTechLayerType.ROUTING,
       tl_direction = dbTechLayerDir.HORIZONTAL, tl_thickness = None, tl_width = 40, tl_wrong_way_width = 60\<rparr>,
      \<lparr>tl_id = 2, tl_number = 2, tl_name = ''m2'', tl_type = dbTechLayerType.ROUTING,
       tl_direction = dbTechLayerDir.VERTICAL, tl_thickness = None, tl_width = 80, tl_wrong_way_width = 90\<rparr>],
     wd_vias = [], wd_tech_vias = [(5, \<lparr>via_top = 2, via_bottom = 1, via_bbox = None, via_boxes = []\<rparr>)],
     wd_block_rules = [], wd_tech_rules = [(7, 300)]\<rparr>"

definition plain_path :: "wire_cmd list" where
  "plain_path = [NewPath 1 dbWireType.ROUTED None, AddPoint 0 0 0, AddTechVia 5, AddPoint 0 1000 0]"

definition ruled_path :: "wire_cmd list" where
  "ruled_path = [NewPath 1 dbWireType.ROUTED (Some (7, False)), AddPoint 0 5000 0, AddPoint 1000 5000 0]"

lemma plain_path_alone: "drawn_shapes two_layers plain_path = Inr [Rect_reset (- 40) (- 40) 40 1040]"
  by code_simp

lemma plain_path_after_ruled:
  "drawn_shapes two_layers (ruled_path @ plain_path) =
     Inr [Rect_reset (- 150) 4850 1150 5150, Rect_reset (- 20) (- 20) 20 1020]"
  by code_simp

section \<open>A wire with a branch\<close>

text \<open>Up through a via, along the upper layer, and from the end of that leg a coloured branch in a rule's width to a pin.\<close>

definition branching_path :: "wire_cmd list" where
  "branching_path =
     [NewPath 1 dbWireType.ROUTED None, AddPoint 0 0 0, AddTechVia 5, AddPoint 0 700 0, SetColor 2,
      NewPathJct 2 (Some dbWireType.COVER) (Some (7, False)), AddPointExt 400 700 25 0, AddITerm 9]"

definition branching_ids :: "nat list" where "branching_ids = [2, 3, 5, 11]"

definition branching_events :: "seen list" where
  "branching_events =
     [(EPath 1 dbWireType.ROUTED, None, None), (EPoint 0 0, None, None), (ETechVia 5 2, None, None),
      (EPoint 0 700, None, None), (EJunction 5 2 dbWireType.COVER, Some 2, None), (ERule 7 False, Some 2, None),
      (EPoint 0 700, Some 2, None), (EPointExt 400 700 25, Some 2, None), (EIterm 9, Some 2, None)]"

definition branching_end :: pencil where
  "branching_end = \<lparr>pn_layer = 2, pn_found = True, pn_point = Some (400, 700), pn_type = dbWireType.COVER,
     pn_color = Some 2, pn_viacolor = None,
     pn_points = [(0, 0, Some 1), (0, 0, Some 2), (0, 700, Some 2), (400, 700, Some 2)]\<rparr>"

definition fresh_decoder :: dbWireDecoder where
  "fresh_decoder = \<lparr>dec_x = 0, dec_y = 0, dec_default_width = False, dec_block_rule = False, dec_layer = 0,
     dec_operand = 0, dec_operand2 = 0, dec_idx = 0, dec_jct_id = 0, dec_wire_type = dbWireType.NONE, dec_point_cnt = 0,
     dec_opcode = OpCode.END_DECODE, dec_property = 0, dec_deltaX1 = 0, dec_deltaY1 = 0, dec_deltaX2 = 0,
     dec_deltaY2 = 0, dec_color = None, dec_viacolor = None\<rparr>"

lemma branching_encodes_ids:
  "map_sum id snd (calls True two_layers branching_path (dbWireEncoder_begin, [])) = Inr branching_ids"
  by code_simp

lemma branching_encodes: "\<exists>e. calls True two_layers branching_path (dbWireEncoder_begin, []) = Inr (e, branching_ids)"
  using branching_encodes_ids by (cases "calls True two_layers branching_path (dbWireEncoder_begin, [])") auto

lemma branching_draws:
  "drawing two_layers (jct_id branching_ids) branching_path pencil_begin = Some (branching_events, branching_end)"
  by (simp add: branching_path_def branching_ids_def branching_events_def branching_end_def two_layers_def
      pencil_begin_def start_path_def rule_ok_def see_rule_def see_def move_to_def through_via_def via_of_def
      pn_known_def start_at_def jct_id_def)

end
