(* ===== verification/SceneDemo.thy ===== *)
theory SceneDemo
  imports SceneLimits WireShapes
begin

text \<open>
  Small designs on which the theorems about the scene are tried: one instance, one net and one blockage; a via
  through a stack of three layers; and a scene with as many layers as there was room for.
\<close>

section \<open>One of each\<close>

definition tiny_env :: scene_env where
  "tiny_env = \<lparr>se_fl = (\<lambda>x. x), se_dbl = (\<lambda>x. x), se_grow = (\<lambda>n. 2 * n), se_show = (\<lambda>_. []), se_asserts = True,
     se_db = two_layers, se_has_tech = True, se_dbu = 1000\<rparr>"

definition tiny_names :: "string set" where
  "tiny_names = {''instance'', ''blockage'', ''m1'', ''m2''}"

definition tiny_iterm :: scene_iterm where
  "tiny_iterm = \<lparr>ite_ptr = 20, ite_mterm_name = Some ''A'',
     ite_mpins = [[\<lparr>bx_rect = Rect_reset 0 0 10 10, bx_layer = 1, bx_via = 0\<rparr>]]\<rparr>"

definition tiny_inst :: scene_inst where
  "tiny_inst = \<lparr>in_ptr = 10, in_name = ''u1'', in_master_name = ''buf'', in_bbox = Some (Rect_reset 0 0 100 200),
     in_transform = dbTransform_default, in_iterms = [tiny_iterm]\<rparr>"

definition tiny_code :: wire_code where
  "tiny_code = \<lparr>wc_opcodes = [0x60, 0x44, 0x45, 0x44], wc_data = [1, 0, 0, 1000]\<rparr>"

definition tiny_block :: scene_block where
  "tiny_block = \<lparr>bl_insts = [tiny_inst], bl_nets = [\<lparr>ne_name = ''n1'', ne_wire = Some (30, tiny_code)\<rparr>],
     bl_bterms = [], bl_blockages = [Some (Rect_reset 0 0 5 5)], bl_marker_categories = [], bl_track_grids = [],
     bl_bbox = None\<rparr>"

definition tiny_pin_shape :: dbShape where
  "tiny_pin_shape = setSegment_layer 1 (Rect_reset 0 0 10 10)"

lemma tiny_env_ok: "env_ok tiny_env"
  by (simp add: env_ok_def tiny_env_def exact_rounding)

lemma is_right: "\<not> isl r \<Longrightarrow> \<exists>p. r = Inr p"
  by (cases r) simp_all

lemma tiny_stipples: "list_all (\<lambda>n. \<not> isl (stippleForLayer n)) [''instance'', ''blockage'', ''m1'', ''m2'', ''metal1'']"
  by code_simp

lemma tiny_stipple: "\<exists>p. stippleForLayer ''metal1'' = Inr p"
  using tiny_stipples by (intro is_right) simp

lemma tiny_names_ok: "names_ok tiny_names"
  using tiny_stipples by (simp add: names_ok_def tiny_names_def is_right)

lemma tiny_layer: "layer_known tiny_env tiny_names 1"
  by (simp add: layer_known_def tiny_env_def two_layers_def dbTech_getLayer_def tiny_names_def)

lemma tiny_pin_shapes: "iterm_shapes tiny_env tiny_inst tiny_iterm = Inr [tiny_pin_shape]"
  by code_simp

lemma tiny_pin_layer: "layer_ref tiny_env (sh_layer tiny_pin_shape) = Inr (Some (wd_layers two_layers ! 0))"
  by code_simp

lemma tiny_wire_shapes:
  "wire_shapes True two_layers tiny_code = Inr [setSegment_layer 1 (Rect_reset (- 20) (- 20) 1020 20)]"
  by code_simp

lemma tiny_inst_ok: "inst_ok tiny_env tiny_names tiny_inst"
  using tiny_pin_shapes tiny_layer
  by (simp add: inst_ok_def tiny_inst_def shape_ok_def tiny_pin_shape_def setSegment_layer_def rect_ok_def Rect_reset_def)

lemma tiny_inst_box: "in_bbox tiny_inst = Some (Rect_reset 0 0 100 200)"
  and tiny_inst_pin: "tiny_iterm \<in> set (in_iterms tiny_inst)"
  by (simp_all add: tiny_inst_def)

lemma tiny_block_ok: "block_ok tiny_env tiny_names tiny_block"
proof -
  have "scene_net_ok tiny_env tiny_names \<lparr>ne_name = ''n1'', ne_wire = Some (30, tiny_code)\<rparr>"
    using tiny_wire_shapes tiny_layer
    by (simp add: scene_net_ok_def tiny_env_def wire_shape_ok_def isVia_def isViaBox_def shape_ok_def setSegment_layer_def
        rect_ok_def Rect_reset_def)
  then show ?thesis using tiny_inst_ok by (simp add: block_ok_def tiny_block_def tiny_names_def rect_ok_def Rect_reset_def)
qed

lemma tiny_scene_labels:
  "scene_labels tiny_env tiny_block =
     [(ObjectType.Inst, ''u1''), (ObjectType.Wire, ''n1''), (ObjectType.Pin, ''u1/A''), (ObjectType.Blockage, ''blockage'')]"
  by code_simp

lemma tiny_widths: "\<forall>l \<in> set (wd_layers (se_db tiny_env)). tl_width l < 2 ^ 31"
  by (simp add: tiny_env_def two_layers_def)

definition tiny_state :: scene_state where
  "tiny_state = compute_z tiny_env (scene_begin 0 Map.empty)"

lemma tiny_state_objects: "ss_objects tiny_state = []"
  by (simp add: tiny_state_def compute_z_def scene_begin_def)

lemma tiny_spans:
  "layer_span tiny_env tiny_state (wd_layers two_layers ! 0) = (0, 1/50)"
  "layer_span tiny_env tiny_state (wd_layers two_layers ! 1) = (1/50, 3/50)"
  by code_simp+

lemma tiny_inst_drawn: "\<exists>st'. process_inst tiny_env tiny_inst tiny_state = Inr st'"
proof (rule is_right)
  show "\<not> isl (process_inst tiny_env tiny_inst tiny_state)" by code_simp
qed

section \<open>A via\<close>

definition tiny_stack :: wire_db where
  "tiny_stack = two_layers\<lparr>wd_layers :=
     [\<lparr>tl_id = 1, tl_number = 1, tl_name = ''m1'', tl_type = dbTechLayerType.ROUTING,
       tl_direction = dbTechLayerDir.HORIZONTAL, tl_thickness = None, tl_width = 40, tl_wrong_way_width = 40\<rparr>,
      \<lparr>tl_id = 2, tl_number = 2, tl_name = ''v1'', tl_type = dbTechLayerType.CUT,
       tl_direction = dbTechLayerDir.NONE, tl_thickness = Some 30, tl_width = 40, tl_wrong_way_width = 40\<rparr>,
      \<lparr>tl_id = 3, tl_number = 3, tl_name = ''m2'', tl_type = dbTechLayerType.ROUTING,
       tl_direction = dbTechLayerDir.VERTICAL, tl_thickness = None, tl_width = 40, tl_wrong_way_width = 40\<rparr>],
     wd_tech_vias := [(5, \<lparr>via_top = 3, via_bottom = 1, via_bbox = Some (Rect_reset (- 30) (- 30) 30 30),
       via_boxes = [(1, Rect_reset (- 30) (- 20) 30 20), (2, Rect_reset (- 20) (- 20) 20 20), (3, Rect_reset (- 20) (- 30) 20 30)]\<rparr>)]\<rparr>"

definition tiny_via_env :: scene_env where
  "tiny_via_env = tiny_env\<lparr>se_db := tiny_stack\<rparr>"

definition tiny_via :: dbShape where
  "tiny_via = setVia True 5 (Rect_reset 70 170 130 230)"

definition tiny_via_boxes :: "dbShape list" where
  "tiny_via_boxes =
     [setViaBox True 5 1 (Rect_reset 70 180 130 220), setViaBox True 5 2 (Rect_reset 80 180 120 220),
      setViaBox True 5 3 (Rect_reset 80 170 120 230)]"

definition tiny_via_state :: scene_state where
  "tiny_via_state = compute_z tiny_via_env (scene_begin 0 Map.empty)"

lemma tiny_via_boxes: "getViaBoxes (se_db tiny_via_env) (0, 0) tiny_via [] = Inr tiny_via_boxes"
  by code_simp

lemma tiny_via_drawn:
  "\<exists>st'. process_via tiny_via_env ''n'' 7 0 (wd_layers tiny_stack ! 2) (wd_layers tiny_stack ! 0) tiny_via tiny_via_state = Inr st'"
proof (rule is_right)
  show "\<not> isl (process_via tiny_via_env ''n'' 7 0 (wd_layers tiny_stack ! 2) (wd_layers tiny_stack ! 0) tiny_via tiny_via_state)"
    by code_simp
qed

lemma tiny_via_facts:
  "exact_env tiny_via_env" "se_has_tech tiny_via_env" "0 < se_dbu tiny_via_env"
  "distinct (map tl_number (wd_layers (se_db tiny_via_env)))"
  "\<forall>l \<in> set (wd_layers (se_db tiny_via_env)). tl_width l < 2 ^ 31" "2 < length (wd_layers (se_db tiny_via_env))"
  "ss_z_cache tiny_via_state = ss_z_cache (compute_z tiny_via_env tiny_via_state)" "ss_objects tiny_via_state = []"
  "se_db tiny_via_env = tiny_stack"
  "\<exists>b \<in> set tiny_via_boxes. layer_ref tiny_via_env (sh_layer b) = Inr (Some (wd_layers tiny_stack ! Suc 0))"
  "tl_type (wd_layers tiny_stack ! Suc 0) = dbTechLayerType.CUT"
  "\<forall>b \<in> set tiny_via_boxes. \<forall>l. layer_ref tiny_via_env (sh_layer b) = Inr (Some l) \<longrightarrow>
      tl_type l = dbTechLayerType.CUT \<longrightarrow> l = wd_layers tiny_stack ! Suc 0"
  by (auto simp: exact_env_def tiny_via_env_def tiny_env_def tiny_stack_def tiny_via_state_def compute_z_def scene_begin_def
      tiny_via_boxes_def layer_ref_def dbTech_getLayer_def setViaBox_def)

lemma tiny_via_spans:
  "layer_span tiny_via_env tiny_via_state (wd_layers tiny_stack ! 0) = (0, 1/50)"
  "layer_span tiny_via_env tiny_via_state (wd_layers tiny_stack ! 2) = (1/20, 7/100)"
  by code_simp+

section \<open>A full scene\<close>

definition tiny_name :: "nat \<Rightarrow> string" where
  "tiny_name i = CHR ''x'' # replicate i (CHR ''a'')"

definition tiny_layer_record :: "string \<Rightarrow> LayerRecord" where
  "tiny_layer_record name =
     \<lparr>lr_layerId = name, lr_name = name, lr_zBase = 0, lr_thickness = 0, lr_visible = True, lr_selectable = True,
      lr_isHorizontal = True, lr_color = \<lparr>col_r = 0, col_g = 0, col_b = 0, col_a = 0\<rparr>, lr_stippleId = [],
      lr_transparency = 0, lr_lighten = 0, lr_lineWidth = 1, lr_lineStyle = LineStyle.Solid\<rparr>"

definition tiny_full :: scene_state where
  "tiny_full = \<lparr>ss_layers = map (tiny_layer_record \<circ> tiny_name) [0..<50], ss_objects = [], ss_capacity = 50, ss_moves = 0,
     ss_layer_map = (\<lambda>name. let i = length name - 1 in if i < 50 \<and> name = tiny_name i then Some (0, i) else None),
     ss_z_cache = Map.empty, ss_counter = 0\<rparr>"

lemma tiny_name_inj: "tiny_name i = tiny_name j \<longleftrightarrow> i = j"
  using arg_cong [where f = length, of "tiny_name i" "tiny_name j"] by (auto simp: tiny_name_def)

lemma tiny_full_ok: "layers_ok (tiny_name ` {0..<50}) tiny_full"
proof -
  have "length (tiny_name i) - 1 = i" for i by (simp add: tiny_name_def)
  moreover have "map lr_name (ss_layers tiny_full) = map tiny_name [0..<50]"
    by (simp add: tiny_full_def tiny_layer_record_def)
  moreover have "inj_on tiny_name A" for A by (simp add: inj_on_def tiny_name_inj)
  ultimately show ?thesis
    by (auto simp: layers_ok_def layer_names_def distinct_map Let_def tiny_full_def tiny_layer_record_def
        tiny_name_inj comp_def simp del: upt_rec_numeral)
qed

lemma tiny_full_length: "length (ss_layers tiny_full) = 50"
  by (simp add: tiny_full_def)

lemma tiny_full_names: "layer_names tiny_full = tiny_name ` {0..<50}"
  by (simp add: layer_names_def tiny_full_def tiny_layer_record_def comp_def image_image del: upt_rec_numeral)

lemma tiny_full_new: "''metal1'' \<notin> layer_names tiny_full"
  by (auto simp: tiny_full_names tiny_name_def)

lemma tiny_full_old: "tiny_name 3 \<in> layer_names tiny_full"
  by (simp add: tiny_full_names)

end
