(* ===== verification/ChipDbLaws.thy ===== *)
theory ChipDbLaws
  imports ChipDb
begin

text \<open>
  The operations on chip objects over the table contract: where an instance is placed, what creating an
  instance adds to the database, and what a creation that fails leaves behind.
\<close>

section \<open>Placement\<close>

text \<open>
  The location of an instance is the lower corner of its placed cuboid; \<open>setLoc\<close> moves the origin so
  that it is the one asked for, whatever the orientation.
\<close>

lemma apply_origin:
  "dbTransform_apply_Cuboid (mk_dbTransform3D orient p) c =
     Cuboid_moveDelta (dbTransform_apply_Cuboid (dbTransform_of_orient3D orient) c) (p3x p) (p3y p) (p3z p)"
proof -
  have "dbTransform_apply (mk_dbTransform3D orient p) q =
      (let q' = dbTransform_apply (dbTransform_of_orient3D orient) q
       in Point3D (p3x q' + p3x p) (p3y q' + p3y p) (p3z q' + p3z p))" for q
    by (simp add: dbTransform_apply_def Let_def apply_Point_orient mk_dbTransform3D_def
        dbTransform_of_orient3D_def dbTransform_default_def)
  then show ?thesis
    by (simp add: dbTransform_apply_Cuboid_def Let_def Cuboid_moveDelta_def Cuboid_init_def min_add_distrib_left
        max_add_distrib_left)
qed

lemma setLoc_getLoc:
  assumes inv: "tbl_inv (chip_inst_tbl db)" and i: "dbTable_getPtr (chip_inst_tbl db) i = Some x"
  shows "dbChipInst_getLoc (dbChipInst_setLoc db i loc) i = loc"
proof -
  note a = tbl.assign [OF inv i]
  have x: "inst_of db i = x" by (simp add: deref_def i)
  show ?thesis
    by (cases loc)
       (simp add: dbChipInst_getLoc_def dbChipInst_getCuboid_def dbChipInst_setLoc_def Let_def a x
         dbChipInst_getMasterChip_def dbChipInst_getTransform_def apply_origin Cuboid_lll_def
         Cuboid_moveDelta_def deref_def [of "dbTable_update _ _ _"])
qed

section \<open>What creating an instance adds\<close>

text \<open>
  \<open>grows t t'\<close>: objects of \<open>t\<close> are in \<open>t'\<close> unchanged. \<open>same_but_insts\<close>: only the tables of region and
  bump instances may differ.
\<close>

definition grows :: "'a dbTable \<Rightarrow> 'a dbTable \<Rightarrow> bool" where
  "grows t t' \<longleftrightarrow> tbl_inv t' \<and> dbTable_getPtr t \<subseteq>\<^sub>m dbTable_getPtr t'"

lemma grows_trans: "grows t t' \<Longrightarrow> grows t' t'' \<Longrightarrow> grows t t''"
  unfolding grows_def by (meson map_le_trans)

lemma grows_lookup: "grows t t' \<Longrightarrow> dbTable_getPtr t i = Some a \<Longrightarrow> dbTable_getPtr t' i = Some a"
  unfolding grows_def map_le_def by (metis domI)

lemma create_grows:
  assumes "tbl_inv t" and "dbTable_create t a = (i, t')"
  shows "grows t t'" and "dbTable_getPtr t i = None" and "dbTable_getPtr t' i = Some a" and "i \<noteq> 0"
    and "dbTable_getPtr t' = (dbTable_getPtr t)(i \<mapsto> a)"
  using tbl.create [OF assms] by (auto simp: grows_def map_le_def)

definition bump_inst_step :: "nat \<Rightarrow> nat \<Rightarrow> dbDatabase \<Rightarrow> dbDatabase" where
  "bump_inst_step r bump db =
     (let (b, tbl) = dbTable_create (chip_bump_inst_tbl db) \<lparr>cbi_bump = bump, cbi_region_inst = r\<rparr>
      in db\<lparr>chip_bump_inst_tbl := tbl,
            chip_region_inst_tbl := dbTable_update (chip_region_inst_tbl db) r
              (\<lambda>r. r\<lparr>cri_bump_insts := b # cri_bump_insts r\<rparr>)\<rparr>)"

definition same_but_insts :: "dbDatabase \<Rightarrow> dbDatabase \<Rightarrow> bool" where
  "same_but_insts db db' \<longleftrightarrow> db_chip db' = db_chip db \<and> db_dbu_per_micron db' = db_dbu_per_micron db \<and> db_chip_hash db' = db_chip_hash db \<and>
     chip_tbl db' = chip_tbl db \<and> chip_inst_tbl db' = chip_inst_tbl db \<and>
     chip_conn_tbl db' = chip_conn_tbl db \<and> chip_net_tbl db' = chip_net_tbl db"

lemma same_but_insts_trans: "same_but_insts a b \<Longrightarrow> same_but_insts b c \<Longrightarrow> same_but_insts a c"
  by (auto simp: same_but_insts_def)

lemma bump_inst_loop:
  assumes "tbl_inv (chip_bump_inst_tbl db)" "tbl_inv (chip_region_inst_tbl db)"
    "dbTable_getPtr (chip_region_inst_tbl db) r = Some x"
  shows "\<exists>db' bs. fold (bump_inst_step r) bumps db = db' \<and> same_but_insts db db' \<and>
    grows (chip_bump_inst_tbl db) (chip_bump_inst_tbl db') \<and> tbl_inv (chip_region_inst_tbl db') \<and>
    dbTable_getPtr (chip_region_inst_tbl db') =
      (dbTable_getPtr (chip_region_inst_tbl db))(r \<mapsto> x\<lparr>cri_bump_insts := rev bs @ cri_bump_insts x\<rparr>) \<and>
    list_all2 (\<lambda>b bump. dbTable_getPtr (chip_bump_inst_tbl db') b = Some \<lparr>cbi_bump = bump, cbi_region_inst = r\<rparr>) bs bumps"
  using assms
proof (induction bumps arbitrary: db x)
  case Nil
  then show ?case
    by (intro exI [of _ db] exI [of _ "[]"]) (auto simp: same_but_insts_def grows_def)
next
  case (Cons bump bumps)
  obtain b tbl where c: "dbTable_create (chip_bump_inst_tbl db) \<lparr>cbi_bump = bump, cbi_region_inst = r\<rparr> = (b, tbl)"
    by fastforce
  define d where "d = bump_inst_step r bump db"
  have d: "d = db\<lparr>chip_bump_inst_tbl := tbl, chip_region_inst_tbl := dbTable_update (chip_region_inst_tbl db) r
      (\<lambda>r. r\<lparr>cri_bump_insts := b # cri_bump_insts r\<rparr>)\<rparr>" by (simp add: d_def bump_inst_step_def c)
  note g = create_grows [OF Cons.prems(1) c]
  note a = tbl.assign [OF Cons.prems(2,3), of "\<lambda>r. r\<lparr>cri_bump_insts := b # cri_bump_insts r\<rparr>"]
  let ?x = "x\<lparr>cri_bump_insts := b # cri_bump_insts x\<rparr>"
  have "tbl_inv (chip_bump_inst_tbl d)" using g(1) by (simp add: d grows_def)
  moreover have "tbl_inv (chip_region_inst_tbl d)" and region: "dbTable_getPtr (chip_region_inst_tbl d) =
      (dbTable_getPtr (chip_region_inst_tbl db))(r \<mapsto> ?x)" using a by (simp_all add: d)
  moreover have "dbTable_getPtr (chip_region_inst_tbl d) r = Some ?x" by (simp add: region)
  ultimately obtain db' bs where f: "fold (bump_inst_step r) bumps d = db'" "same_but_insts d db'"
    "grows (chip_bump_inst_tbl d) (chip_bump_inst_tbl db')" "tbl_inv (chip_region_inst_tbl db')"
    "dbTable_getPtr (chip_region_inst_tbl db') =
      (dbTable_getPtr (chip_region_inst_tbl d))(r \<mapsto> ?x\<lparr>cri_bump_insts := rev bs @ cri_bump_insts ?x\<rparr>)"
    "list_all2 (\<lambda>b bump. dbTable_getPtr (chip_bump_inst_tbl db') b = Some \<lparr>cbi_bump = bump, cbi_region_inst = r\<rparr>) bs bumps"
    using Cons.IH [of d ?x] by blast
  have tbl: "chip_bump_inst_tbl d = tbl" by (simp add: d)
  have "same_but_insts db d" by (auto simp: same_but_insts_def d)
  then show ?case
    using f g(1) grows_lookup [OF f(3) [unfolded tbl] g(3)]
    by (intro exI [of _ db'] exI [of _ "b # bs"])
       (auto simp: d_def [symmetric] tbl region intro: same_but_insts_trans grows_trans)
qed

text \<open>The bump instances of a region instance, in the order of the bumps of its region.\<close>

definition bump_insts_ok :: "dbDatabase \<Rightarrow> nat \<Rightarrow> nat list \<Rightarrow> dbChipRegion \<Rightarrow> bool" where
  "bump_insts_ok db r bs region \<longleftrightarrow>
     list_all2 (\<lambda>b bump. dbTable_getPtr (chip_bump_inst_tbl db) b = Some \<lparr>cbi_bump = bump, cbi_region_inst = r\<rparr>)
       bs (table_ids (rgn_bump_tbl region))"

lemma create_bump_insts_correct:
  assumes inv: "tbl_inv (chip_bump_inst_tbl db)" "tbl_inv (chip_region_inst_tbl db)"
    and r: "dbTable_getPtr (chip_region_inst_tbl db) r = Some x" "cri_bump_insts x = []"
  shows "\<exists>db' bs. create_bump_insts db region r = db' \<and> same_but_insts db db' \<and>
    grows (chip_bump_inst_tbl db) (chip_bump_inst_tbl db') \<and> tbl_inv (chip_region_inst_tbl db') \<and>
    dbTable_getPtr (chip_region_inst_tbl db') = (dbTable_getPtr (chip_region_inst_tbl db))(r \<mapsto> x\<lparr>cri_bump_insts := bs\<rparr>) \<and>
    bump_insts_ok db' r bs region"
proof -
  obtain d bs where d: "fold (bump_inst_step r) (table_ids (rgn_bump_tbl region)) db = d" "same_but_insts db d"
    "grows (chip_bump_inst_tbl db) (chip_bump_inst_tbl d)" "tbl_inv (chip_region_inst_tbl d)"
    "dbTable_getPtr (chip_region_inst_tbl d) =
      (dbTable_getPtr (chip_region_inst_tbl db))(r \<mapsto> x\<lparr>cri_bump_insts := rev bs\<rparr>)"
    and bs: "list_all2 (\<lambda>b bump. dbTable_getPtr (chip_bump_inst_tbl d) b = Some \<lparr>cbi_bump = bump, cbi_region_inst = r\<rparr>)
      bs (table_ids (rgn_bump_tbl region))"
    using bump_inst_loop [OF inv r(1), of "table_ids (rgn_bump_tbl region)"] r(2) by auto
  have e: "create_bump_insts db region r = d\<lparr>chip_region_inst_tbl := dbTable_update (chip_region_inst_tbl d) r
      (\<lambda>r. r\<lparr>cri_bump_insts := rev (cri_bump_insts r)\<rparr>)\<rparr>"
    unfolding d(1) [symmetric] create_bump_insts_def bump_inst_step_def Let_def ..
  note a = tbl.assign [OF d(4), of r "x\<lparr>cri_bump_insts := rev bs\<rparr>" "\<lambda>r. r\<lparr>cri_bump_insts := rev (cri_bump_insts r)\<rparr>"]
  show ?thesis
    using d(2,3) a bs
    unfolding e by (intro exI [of _ bs] exI) (auto simp: d(5) bump_insts_ok_def same_but_insts_def)
qed

text \<open>A region instance of the instance \<open>i\<close> with its bump instances.\<close>

definition region_inst_ok :: "dbDatabase \<Rightarrow> nat \<Rightarrow> nat \<Rightarrow> nat \<Rightarrow> nat \<Rightarrow> bool" where
  "region_inst_ok db master i r region \<longleftrightarrow>
     (\<exists>bs. dbTable_getPtr (chip_region_inst_tbl db) r = Some \<lparr>cri_region = region, cri_parent = i, cri_bump_insts = bs\<rparr> \<and>
        bump_insts_ok db r bs (deref (chip_region_tbl (chip_of db master)) region))"

definition insts_inv :: "dbDatabase \<Rightarrow> bool" where
  "insts_inv db \<longleftrightarrow> tbl_inv (chip_inst_tbl db) \<and> tbl_inv (chip_region_inst_tbl db) \<and> tbl_inv (chip_bump_inst_tbl db)"

definition insts_grow :: "dbDatabase \<Rightarrow> dbDatabase \<Rightarrow> bool" where
  "insts_grow db db' \<longleftrightarrow> db_chip db' = db_chip db \<and> db_dbu_per_micron db' = db_dbu_per_micron db \<and> db_chip_hash db' = db_chip_hash db \<and>
     chip_tbl db' = chip_tbl db \<and> chip_conn_tbl db' = chip_conn_tbl db \<and> chip_net_tbl db' = chip_net_tbl db \<and>
     grows (chip_region_inst_tbl db) (chip_region_inst_tbl db') \<and>
     grows (chip_bump_inst_tbl db) (chip_bump_inst_tbl db')"

lemma insts_grow_trans: "insts_grow a b \<Longrightarrow> insts_grow b c \<Longrightarrow> insts_grow a c"
  by (auto simp: insts_grow_def intro: grows_trans)

lemma region_inst_ok_grows:
  assumes "region_inst_ok db master i r region" and g: "insts_grow db db'"
  shows "region_inst_ok db' master i r region"
proof -
  from assms(1) obtain bs where bs: "dbTable_getPtr (chip_region_inst_tbl db) r =
      Some \<lparr>cri_region = region, cri_parent = i, cri_bump_insts = bs\<rparr>"
    "bump_insts_ok db r bs (deref (chip_region_tbl (chip_of db master)) region)"
    by (auto simp: region_inst_ok_def)
  have "bump_insts_ok db' r bs (deref (chip_region_tbl (chip_of db' master)) region)"
    using bs(2) g unfolding bump_insts_ok_def insts_grow_def
    by (auto elim!: list_all2_mono intro: grows_lookup)
  with bs(1) g show ?thesis by (auto simp: region_inst_ok_def insts_grow_def intro: grows_lookup)
qed

lemma create_region_inst_correct:
  assumes inv: "insts_inv db" and i: "dbTable_getPtr (chip_inst_tbl db) i = Some y"
  shows "\<exists>db' r. create_region_inst master i region db = db' \<and> insts_inv db' \<and> insts_grow db db' \<and>
    dbTable_getPtr (chip_inst_tbl db') = (dbTable_getPtr (chip_inst_tbl db))
      (i \<mapsto> y\<lparr>ci_region_insts := r # ci_region_insts y, ci_region_map := (ci_region_map y)(region \<mapsto> r)\<rparr>) \<and>
    region_inst_ok db' master i r region \<and> r \<noteq> 0"
proof -
  let ?x = "\<lparr>cri_region = region, cri_parent = i, cri_bump_insts = []\<rparr>"
  obtain r tbl where c: "dbTable_create (chip_region_inst_tbl db) ?x = (r, tbl)" by fastforce
  have I: "tbl_inv (chip_inst_tbl db)" and R: "tbl_inv (chip_region_inst_tbl db)"
    and B: "tbl_inv (chip_bump_inst_tbl db)" using inv by (auto simp: insts_inv_def)
  note g = create_grows [OF R c]
  let ?f = "\<lambda>i. i\<lparr>ci_region_insts := r # ci_region_insts i, ci_region_map := (ci_region_map i)(region \<mapsto> r)\<rparr>"
  note a = tbl.assign [OF I i, of ?f]
  define d where "d = db\<lparr>chip_region_inst_tbl := tbl, chip_inst_tbl := dbTable_update (chip_inst_tbl db) i ?f\<rparr>"
  let ?region = "deref (chip_region_tbl (chip_of d master)) region"
  have "tbl_inv (chip_bump_inst_tbl d)" "tbl_inv (chip_region_inst_tbl d)"
    "dbTable_getPtr (chip_region_inst_tbl d) r = Some ?x" "cri_bump_insts ?x = []"
    using B g by (auto simp: d_def grows_def)
  from create_bump_insts_correct [OF this] obtain db' bs where
    db': "create_bump_insts d ?region r = db'" "same_but_insts d db'"
      "grows (chip_bump_inst_tbl d) (chip_bump_inst_tbl db')" "tbl_inv (chip_region_inst_tbl db')"
      "dbTable_getPtr (chip_region_inst_tbl db') =
        (dbTable_getPtr (chip_region_inst_tbl d))(r \<mapsto> ?x\<lparr>cri_bump_insts := bs\<rparr>)"
      "bump_insts_ok db' r bs ?region" by blast
  have "create_region_inst master i region db = db'"
    unfolding create_region_inst_def c Let_def prod.case d_def [symmetric] db'(1) ..
  moreover have "grows (chip_region_inst_tbl db) (chip_region_inst_tbl db')"
    using db'(4,5) g(2) by (auto simp: grows_def d_def g(5) map_le_def)
  then have "insts_grow db db'" using db'(2,3) by (auto simp: insts_grow_def same_but_insts_def d_def)
  moreover have "insts_inv db'" using db' a by (auto simp: insts_inv_def same_but_insts_def d_def grows_def)
  moreover have "region_inst_ok db' master i r region"
    using db'(2,5,6) by (auto simp: region_inst_ok_def same_but_insts_def)
  ultimately show ?thesis using a db'(2) g(4) by (auto simp: same_but_insts_def d_def)
qed

lemma region_inst_loop:
  assumes "insts_inv db" and "dbTable_getPtr (chip_inst_tbl db) i = Some y"
  shows "\<exists>db' ls. fold (create_region_inst master i) regions db = db' \<and> insts_inv db' \<and> insts_grow db db' \<and>
    dbTable_getPtr (chip_inst_tbl db') = (dbTable_getPtr (chip_inst_tbl db))
      (i \<mapsto> y\<lparr>ci_region_insts := rev ls @ ci_region_insts y, ci_region_map := (ci_region_map y)(regions [\<mapsto>] ls)\<rparr>) \<and>
    list_all2 (region_inst_ok db' master i) ls regions \<and> 0 \<notin> set ls"
  using assms
proof (induction regions arbitrary: db y)
  case Nil
  then show ?case
    by (intro exI [of _ db] exI [of _ "[]"]) (auto simp: insts_grow_def insts_inv_def grows_def)
next
  case (Cons region regions)
  from create_region_inst_correct [OF Cons.prems] obtain d r where
    d: "create_region_inst master i region db = d" "insts_inv d" "insts_grow db d"
      "dbTable_getPtr (chip_inst_tbl d) = (dbTable_getPtr (chip_inst_tbl db))
        (i \<mapsto> y\<lparr>ci_region_insts := r # ci_region_insts y, ci_region_map := (ci_region_map y)(region \<mapsto> r)\<rparr>)"
      "region_inst_ok d master i r region" "r \<noteq> 0" by blast
  let ?y = "y\<lparr>ci_region_insts := r # ci_region_insts y, ci_region_map := (ci_region_map y)(region \<mapsto> r)\<rparr>"
  have "dbTable_getPtr (chip_inst_tbl d) i = Some ?y" by (simp add: d(4))
  from Cons.IH [OF d(2) this] obtain db' ls where
    f: "fold (create_region_inst master i) regions d = db'" "insts_inv db'" "insts_grow d db'"
      "dbTable_getPtr (chip_inst_tbl db') = (dbTable_getPtr (chip_inst_tbl d))
        (i \<mapsto> ?y\<lparr>ci_region_insts := rev ls @ ci_region_insts ?y, ci_region_map := (ci_region_map ?y)(regions [\<mapsto>] ls)\<rparr>)"
      "list_all2 (region_inst_ok db' master i) ls regions" "0 \<notin> set ls" by blast
  then show ?case using d insts_grow_trans [OF d(3) f(3)] region_inst_ok_grows [OF d(5) f(3)]
    by (intro exI [of _ db'] exI [of _ "r # ls"]) auto
qed

text \<open>
  A new instance: it is on its parent's list and found there by name, every region of its master has one
  region instance with one bump instance per bump, and no object that was there before has changed but
  the parent.
\<close>

definition inst_created ::
    "dbDatabase \<Rightarrow> nat \<Rightarrow> nat \<Rightarrow> string \<Rightarrow> dbDatabase \<Rightarrow> nat \<Rightarrow> bool" where
  "inst_created db parent_chip master_chip name db' i \<longleftrightarrow>
     i \<noteq> 0 \<and> dbTable_getPtr (chip_inst_tbl db) i = None \<and>
     (\<forall>j a. dbTable_getPtr (chip_inst_tbl db) j = Some a \<longrightarrow> dbTable_getPtr (chip_inst_tbl db') j = Some a) \<and>
     grows (chip_region_inst_tbl db) (chip_region_inst_tbl db') \<and>
     grows (chip_bump_inst_tbl db) (chip_bump_inst_tbl db') \<and>
     db_chip db' = db_chip db \<and> db_dbu_per_micron db' = db_dbu_per_micron db \<and> db_chip_hash db' = db_chip_hash db \<and>
     chip_conn_tbl db' = chip_conn_tbl db \<and> chip_net_tbl db' = chip_net_tbl db \<and>
     dom (dbTable_getPtr (chip_inst_tbl db')) = insert i (dom (dbTable_getPtr (chip_inst_tbl db))) \<and>
     dom (dbTable_getPtr (chip_tbl db')) = dom (dbTable_getPtr (chip_tbl db)) \<and>
     chip_of db' parent_chip = (chip_of db parent_chip)
       \<lparr>chip_insts := i # chip_insts (chip_of db parent_chip),
        chip_insts_map := (chip_insts_map (chip_of db parent_chip))(name \<mapsto> i)\<rparr> \<and>
     (\<forall>c. c \<noteq> parent_chip \<longrightarrow> dbTable_getPtr (chip_tbl db') c = dbTable_getPtr (chip_tbl db) c) \<and>
     (let inst = inst_of db' i; regions = table_ids (chip_region_tbl (chip_of db master_chip))
      in ci_name inst = name \<and> ci_master inst = master_chip \<and> ci_parent inst = parent_chip \<and>
         ci_origin inst = Point3D 0 0 0 \<and> ci_orient inst = dbOrientType3D_default \<and>
         ci_region_map inst = Map.empty(regions [\<mapsto>] ci_region_insts inst) \<and>
         list_all2 (region_inst_ok db' master_chip i) (ci_region_insts inst) regions \<and>
         0 \<notin> set (ci_region_insts inst))"

lemma dbChipInst_create_correct:
  assumes inv: "insts_inv db" "tbl_inv (chip_tbl db)"
    and p: "dbTable_getPtr (chip_tbl db) parent_chip = Some pc" and m: "master_chip \<noteq> 0"
    and hier: "chip_type pc = HIER" and ne: "parent_chip \<noteq> master_chip"
    and new: "dbChip_findChipInst db parent_chip name = 0"
  shows "\<exists>db' i. dbChipInst_create db parent_chip master_chip name = (db', Inr i) \<and>
    insts_inv db' \<and> tbl_inv (chip_tbl db') \<and> inst_created db parent_chip master_chip name db' i"
proof -
  let ?y = "\<lparr>ci_name = name, ci_origin = Point3D 0 0 0, ci_orient = dbOrientType3D_default,
     ci_master = master_chip, ci_parent = parent_chip, ci_region_insts = [], ci_region_map = Map.empty\<rparr>"
  have nz: "parent_chip \<noteq> 0" using p tbl.null [OF inv(2)] by (metis option.distinct(1))
  have pc: "chip_of db parent_chip = pc" by (simp add: deref_def p)
  obtain i tbl where c: "dbTable_create (chip_inst_tbl db) ?y = (i, tbl)" by fastforce
  have "tbl_inv (chip_inst_tbl db)" using inv by (simp add: insts_inv_def)
  note g = create_grows [OF this c]
  let ?f = "\<lambda>c. c\<lparr>chip_insts := i # chip_insts c, chip_insts_map := (chip_insts_map c)(name \<mapsto> i)\<rparr>"
  note a = tbl.assign [OF inv(2) p, of ?f]
  define d where "d = db\<lparr>chip_inst_tbl := tbl, chip_tbl := dbTable_update (chip_tbl db) parent_chip ?f\<rparr>"
  have "insts_inv d" "dbTable_getPtr (chip_inst_tbl d) i = Some ?y"
    using inv g by (auto simp: insts_inv_def d_def grows_def)
  from region_inst_loop [OF this] obtain e ls where
    e: "fold (create_region_inst master_chip i) (table_ids (chip_region_tbl (chip_of d master_chip))) d = e"
      "insts_inv e" "insts_grow d e" "dbTable_getPtr (chip_inst_tbl e) = (dbTable_getPtr (chip_inst_tbl d))
        (i \<mapsto> ?y\<lparr>ci_region_insts := rev ls, ci_region_map := Map.empty(table_ids (chip_region_tbl (chip_of d master_chip)) [\<mapsto>] ls)\<rparr>)"
      "list_all2 (region_inst_ok e master_chip i) ls (table_ids (chip_region_tbl (chip_of d master_chip)))" "0 \<notin> set ls"
    by (metis append_Nil2 dbChipInst.select_convs(6,7))
  let ?h = "\<lambda>x. x\<lparr>ci_region_insts := rev (ci_region_insts x)\<rparr>"
  let ?db = "e\<lparr>chip_inst_tbl := dbTable_update (chip_inst_tbl e) i ?h\<rparr>"
  have "tbl_inv (chip_inst_tbl e)" using e(2) by (simp add: insts_inv_def)
  from tbl.assign [OF this, of i _ ?h] have b: "tbl_inv (chip_inst_tbl ?db)"
    "dbTable_getPtr (chip_inst_tbl ?db) = (dbTable_getPtr tbl)
        (i \<mapsto> ?y\<lparr>ci_region_insts := ls, ci_region_map := Map.empty(table_ids (chip_region_tbl (chip_of d master_chip)) [\<mapsto>] ls)\<rparr>)"
    by (simp_all add: e(4)) (simp add: d_def)
  have master: "chip_of d master_chip = chip_of db master_chip" using a ne by (simp add: d_def deref_def)
  have run: "dbChipInst_create db parent_chip master_chip name = (?db, Inr i)"
    unfolding dbChipInst_create_def c Let_def prod.case d_def [symmetric] e(1)
    using nz m hier ne new by (simp add: pc)
  have ok: "region_inst_ok ?db master_chip i r region = region_inst_ok e master_chip i r region" for r region
    by (simp add: region_inst_ok_def bump_insts_ok_def)
  have grow: "insts_grow d ?db" using e(3) by (simp add: insts_grow_def)
  then have chips: "dbTable_getPtr (chip_tbl ?db) = (dbTable_getPtr (chip_tbl db))(parent_chip \<mapsto> ?f pc)"
    using a by (simp add: insts_grow_def d_def)
  have inst: "inst_of ?db i = ?y\<lparr>ci_region_insts := ls,
      ci_region_map := Map.empty(table_ids (chip_region_tbl (chip_of db master_chip)) [\<mapsto>] ls)\<rparr>"
    by (simp only: deref_def b(2) master [unfolded deref_def]) simp
  have "dbTable_getPtr (chip_inst_tbl ?db) j = Some x" if "dbTable_getPtr (chip_inst_tbl db) j = Some x" for j x
    using that g(2) unfolding b(2) g(5) by auto
  moreover have "dom (dbTable_getPtr (chip_inst_tbl ?db)) = insert i (dom (dbTable_getPtr (chip_inst_tbl db)))"
    unfolding b(2) g(5) by auto
  moreover have "dom (dbTable_getPtr (chip_tbl ?db)) = dom (dbTable_getPtr (chip_tbl db))"
    unfolding chips using p by auto
  moreover have "chip_of ?db parent_chip = ?f pc" by (simp only: deref_def chips) simp
  moreover have "dbTable_getPtr (chip_tbl ?db) c = dbTable_getPtr (chip_tbl db) c" if "c \<noteq> parent_chip" for c
    using that by (simp only: chips) simp
  moreover have "grows (chip_region_inst_tbl db) (chip_region_inst_tbl ?db)"
    "grows (chip_bump_inst_tbl db) (chip_bump_inst_tbl ?db)"
    "db_chip ?db = db_chip db" "db_dbu_per_micron ?db = db_dbu_per_micron db" "db_chip_hash ?db = db_chip_hash db"
    "chip_conn_tbl ?db = chip_conn_tbl db" "chip_net_tbl ?db = chip_net_tbl db"
    using grow by (simp_all add: insts_grow_def d_def)
  ultimately have "inst_created db parent_chip master_chip name ?db i"
    using g(2,4) e(5,6) unfolding inst_created_def Let_def inst pc master ok by simp
  moreover have "insts_inv ?db" "tbl_inv (chip_tbl ?db)"
    using e(2,3) a b(1) by (auto simp: insts_inv_def insts_grow_def d_def)
  ultimately show ?thesis using run by blast
qed

section \<open>Creations that fail\<close>

lemma dbChipInst_create_error:
  "snd (dbChipInst_create db parent_chip master_chip name) = Inl e \<Longrightarrow>
     fst (dbChipInst_create db parent_chip master_chip name) = db"
  by (auto simp: dbChipInst_create_def Let_def split: if_splits prod.splits)

lemma dbChipRegion_create_error:
  "snd (dbChipRegion_create db chip name side layer layer_tech) = Inl e \<Longrightarrow>
     fst (dbChipRegion_create db chip name side layer layer_tech) = db"
  by (auto simp: dbChipRegion_create_def Let_def split: if_splits prod.splits)

text \<open>
  A die without a technology: the call throws, and the chip stays in the table and under its name, so
  that the name is taken from then on.
\<close>

lemma dbChip_create_no_tech:
  assumes inv: "tbl_inv (chip_tbl db)" and new: "db_chip_hash db (c_str name) = None"
  shows "\<exists>db' i c. dbChip_create db 0 name DIE = (db', Inl (Throws 422)) \<and>
    db_chip_hash db' (c_str name) = Some i \<and> dbTable_getPtr (chip_tbl db) i = None \<and>
    dbTable_getPtr (chip_tbl db') i = Some c \<and> chip_name c = c_str name \<and> tbl_inv (chip_tbl db') \<and>
    dbChip_create db' tech name type = (db', Inl (Throws 385))"
proof -
  obtain i tbl where c: "dbTable_create (chip_tbl db) mk_dbChip = (i, tbl)" by fastforce
  note g = create_grows [OF inv c]
  have t: "tbl_inv tbl" using g(1) by (simp add: grows_def)
  note a = tbl.assign [OF t g(3), of "\<lambda>c. c\<lparr>chip_name := c_str name, chip_type := DIE\<rparr>"]
  define db' where "db' = db\<lparr>chip_tbl := dbTable_update tbl i (\<lambda>c. c\<lparr>chip_name := c_str name, chip_type := DIE\<rparr>),
      db_chip := (if db_chip db = 0 then i else db_chip db), db_chip_hash := (db_chip_hash db)(c_str name \<mapsto> i)\<rparr>"
  have "dbChip_create db 0 name DIE = (db', Inl (Throws 422))"
    by (simp add: dbChip_create_def new c db'_def Let_def)
  moreover have "dbChip_create db' tech name type = (db', Inl (Throws 385))"
    by (simp add: dbChip_create_def db'_def)
  ultimately show ?thesis using a g(2) by (auto simp: db'_def)
qed

text \<open>A region of a chip: its side decides where it is in z.\<close>

lemma dbChipRegion_create_correct:
  assumes inv: "tbl_inv (chip_tbl db)" and chip: "dbTable_getPtr (chip_tbl db) c = Some x"
    and regions: "tbl_inv (chip_region_tbl x)"
    and layer: "layer = 0 \<or> chip_tech x = layer_tech" and new: "dbChip_findChipRegion db c name = 0"
  shows "\<exists>db' r g. dbChipRegion_create db c name side layer layer_tech = (db', Inr r) \<and> r \<noteq> 0 \<and>
    dbTable_getPtr (chip_region_tbl x) r = None \<and> dbChip_findChipRegion db' c name = r \<and>
    dbTable_getPtr (chip_region_tbl (chip_of db' c)) = (dbTable_getPtr (chip_region_tbl x))(r \<mapsto> g) \<and>
    tbl_inv (chip_region_tbl (chip_of db' c)) \<and>
    rgn_name g = name \<and> rgn_side g = side \<and> rgn_layer g = layer \<and>
    (rgn_z_min g, rgn_z_max g) = (case side of Side.FRONT \<Rightarrow> (chip_thickness x, chip_thickness x)
       | Side.BACK \<Rightarrow> (0, 0) | _ \<Rightarrow> (0, chip_thickness x))"
proof -
  have nz: "c \<noteq> 0" using chip tbl.null [OF inv] by (metis option.distinct(1))
  have x: "chip_of db c = x" by (simp add: deref_def chip)
  obtain r tbl where cr: "dbTable_create (chip_region_tbl x) mk_dbChipRegion = (r, tbl)" by fastforce
  note g = create_grows [OF regions cr]
  have t: "tbl_inv tbl" using g(1) by (simp add: grows_def)
  let ?z = "if side = Side.FRONT then (chip_thickness x, chip_thickness x)
     else if side = Side.BACK then (0, 0) else (0, chip_thickness x)"
  let ?f = "\<lambda>g. g\<lparr>rgn_name := name, rgn_side := side, rgn_layer := (if layer \<noteq> 0 then layer else 0),
     rgn_box := Rect_default, rgn_z_min := fst ?z, rgn_z_max := snd ?z\<rparr>"
  note a = tbl.assign [OF t g(3), of ?f]
  let ?h = "\<lambda>c. c\<lparr>chip_region_tbl := dbTable_update tbl r ?f, chip_region_map := (chip_region_map c)(name \<mapsto> r)\<rparr>"
  let ?db = "db\<lparr>chip_tbl := dbTable_update (chip_tbl db) c ?h\<rparr>"
  have run: "dbChipRegion_create db c name side layer layer_tech = (?db, Inr r)"
    unfolding dbChipRegion_create_def x cr Let_def prod.case using nz layer new by (auto simp: case_prod_unfold)
  define db' where "db' = ?db"
  define g' where "g' = ?f mk_dbChipRegion"
  have chip': "chip_of db' c = ?h x" using tbl.assign [OF inv chip, of ?h] by (simp add: deref_def db'_def)
  have "dbChip_findChipRegion db' c name = r" by (simp add: dbChip_findChipRegion_def chip')
  moreover have "dbTable_getPtr (chip_region_tbl (chip_of db' c)) = (dbTable_getPtr (chip_region_tbl x))(r \<mapsto> g')"
    "tbl_inv (chip_region_tbl (chip_of db' c))" unfolding chip' g'_def using a by (simp_all add: g(5))
  moreover have "rgn_name g' = name \<and> rgn_side g' = side \<and> rgn_layer g' = layer \<and>
      (rgn_z_min g', rgn_z_max g') = (case side of Side.FRONT \<Rightarrow> (chip_thickness x, chip_thickness x)
         | Side.BACK \<Rightarrow> (0, 0) | _ \<Rightarrow> (0, chip_thickness x))"
    by (cases side) (simp_all add: g'_def)
  ultimately show ?thesis using run [folded db'_def] g(2,4)
    by (intro exI [of _ db'] exI [of _ r] exI [of _ g']) simp
qed

section \<open>Connections\<close>

text \<open>\<open>path_in db c p\<close>: \<open>p\<close> goes down from the chip \<open>c\<close>, each instance inside the master of the one before.\<close>

fun path_in :: "dbDatabase \<Rightarrow> nat \<Rightarrow> nat list \<Rightarrow> bool" where
  "path_in db c [] \<longleftrightarrow> True"
| "path_in db c (i # p) \<longleftrightarrow> ci_parent (inst_of db i) = c \<and> path_in db (ci_master (inst_of db i)) p"

lemma extractChipInstsPath_eq:
  "extractChipInstsPath db c p = (if path_in db c p then Inr p else Inl (Throws 510))"
  by (induction db c p rule: extractChipInstsPath.induct) auto

lemma path_in_insts: "chip_inst_tbl db' = chip_inst_tbl db \<Longrightarrow> path_in db' c p = path_in db c p"
  by (induction db c p rule: path_in.induct) auto

lemma dbChipConn_create_correct:
  assumes inv: "tbl_inv (chip_conn_tbl db)" "tbl_inv (chip_tbl db)"
    and c: "dbTable_getPtr (chip_tbl db) c = Some x"
    and tp: "top_region \<noteq> 0" "top_path \<noteq> []" "cri_parent (region_inst_of db top_region) = last top_path"
    and bt: "bottom_region \<noteq> 0 \<longrightarrow> bottom_path \<noteq> [] \<and> cri_parent (region_inst_of db bottom_region) = last bottom_path"
  shows "\<exists>db' k v. dbTable_getPtr (chip_conn_tbl db) k = None \<and> dbTable_getPtr (chip_conn_tbl db') k = Some v \<and>
    (if path_in db c top_path \<and> (bottom_region \<noteq> 0 \<longrightarrow> path_in db c bottom_path)
     then dbChipConn_create db name c top_path top_region bottom_path bottom_region = (db', Inr k) \<and>
       v = \<lparr>cc_name = name, cc_thickness = 0, cc_chip = c, cc_top_region = top_region, cc_top_path = top_path,
            cc_bottom_region = bottom_region, cc_bottom_path = (if bottom_region \<noteq> 0 then bottom_path else [])\<rparr> \<and>
       chip_conns (chip_of db' c) = k # chip_conns x \<and> tbl_inv (chip_conn_tbl db') \<and> tbl_inv (chip_tbl db') \<and>
       dbTable_getPtr (chip_tbl db') = (dbTable_getPtr (chip_tbl db))(c \<mapsto> x\<lparr>chip_conns := k # chip_conns x\<rparr>) \<and>
       db' = db\<lparr>chip_conn_tbl := chip_conn_tbl db', chip_tbl := chip_tbl db'\<rparr>
     else dbChipConn_create db name c top_path top_region bottom_path bottom_region = (db', Inl (Throws 510)) \<and>
       chip_tbl db' = chip_tbl db)"
proof -
  let ?v = "\<lparr>cc_name = name, cc_thickness = 0, cc_chip = c, cc_top_region = top_region,
     cc_top_path = [], cc_bottom_region = bottom_region, cc_bottom_path = []\<rparr>"
  obtain k tbl where cr: "dbTable_create (chip_conn_tbl db) ?v = (k, tbl)" by fastforce
  note g = create_grows [OF inv(1) cr]
  have t: "tbl_inv tbl" using g(1) by (simp add: grows_def)
  note a = tbl.assign [OF t g(3), of "\<lambda>x. x\<lparr>cc_top_path := top_path\<rparr>"]
  let ?t1 = "dbTable_update tbl k (\<lambda>x. x\<lparr>cc_top_path := top_path\<rparr>)"
  have t1: "tbl_inv ?t1" "dbTable_getPtr ?t1 k = Some (?v\<lparr>cc_top_path := top_path\<rparr>)" using a by simp_all
  note b = tbl.assign [OF t1, of "\<lambda>x. x\<lparr>cc_bottom_path := (if bottom_region \<noteq> 0 then bottom_path else [])\<rparr>"]
  note h = tbl.assign [OF inv(2) c, of "\<lambda>c. c\<lparr>chip_conns := k # chip_conns c\<rparr>"]
  have nz: "c \<noteq> 0" using c tbl.null [OF inv(2)] by (metis option.distinct(1))
  have p: "path_in (db\<lparr>chip_conn_tbl := X\<rparr>) c q = path_in db c q" for X q by (rule path_in_insts) simp
  let ?bp = "if bottom_region \<noteq> 0 then bottom_path else []"
  let ?db3 = "db\<lparr>chip_conn_tbl := dbTable_update ?t1 k (\<lambda>x. x\<lparr>cc_bottom_path := ?bp\<rparr>),
     chip_tbl := dbTable_update (chip_tbl db) c (\<lambda>c. c\<lparr>chip_conns := k # chip_conns c\<rparr>)\<rparr>"
  have run: "dbChipConn_create db name c top_path top_region bottom_path bottom_region =
      (if \<not> path_in db c top_path then (db\<lparr>chip_conn_tbl := tbl\<rparr>, Inl (Throws 510))
       else if bottom_region \<noteq> 0 \<and> \<not> path_in db c bottom_path then (db\<lparr>chip_conn_tbl := ?t1\<rparr>, Inl (Throws 510))
       else (?db3, Inr k))"
    unfolding dbChipConn_create_def cr Let_def prod.case extractChipInstsPath_eq p using nz tp bt by (simp add: p)
  have conns: "chip_conns (chip_of ?db3 c) = k # chip_conns x" using h by (simp add: deref_def)
  have last: "dbTable_getPtr (chip_conn_tbl ?db3) k = Some (?v\<lparr>cc_top_path := top_path, cc_bottom_path := ?bp\<rparr>)"
    using b by simp
  consider "\<not> path_in db c top_path" | "path_in db c top_path" "bottom_region \<noteq> 0 \<and> \<not> path_in db c bottom_path"
    | "path_in db c top_path" "\<not> (bottom_region \<noteq> 0 \<and> \<not> path_in db c bottom_path)" by blast
  then show ?thesis
  proof cases
    case 1
    then show ?thesis unfolding run using g(2,3)
      by (intro exI [of _ "db\<lparr>chip_conn_tbl := tbl\<rparr>"] exI [of _ k] exI [of _ ?v]) simp
  next
    case 2
    then show ?thesis unfolding run using g(2) t1(2)
      by (intro exI [of _ "db\<lparr>chip_conn_tbl := ?t1\<rparr>"] exI [of _ k] exI [of _ "?v\<lparr>cc_top_path := top_path\<rparr>"]) simp
  next
    case 3
    then show ?thesis unfolding run using g(2) last conns b h
      by (intro exI [of _ ?db3] exI [of _ k] exI [of _ "?v\<lparr>cc_top_path := top_path, cc_bottom_path := ?bp\<rparr>"]) auto
  qed
qed

end
