(* ===== verification/BumpMap.thy ===== *)
theory BumpMap
  imports ChipDb
begin

text \<open>
  Bump maps (\<^verbatim>\<open>3dblox/bmapParser.cpp\<close>, \<^verbatim>\<open>3dblox/bmapWriter.cpp\<close>): a text file with one bump per
  line, its instance, cell, coordinates in microns, port and net. The file is its text; opening it is left
  out.

  \<^verbatim>\<open>std::stod\<close> is the argument \<open>stod\<close>, \<open>None\<close> where it throws; \<open>stod_exact\<close> is what the
  theorems need of it: it reads the decimal numbers of 32 bits exactly, which a double holds. What the writer
  reads from a bump (the names and the origin of its instance) is the record \<open>written_bump\<close>.
\<close>

section \<open>Lines and words\<close>

text \<open>\<^verbatim>\<open>std::getline\<close> until the stream ends: a delimiter at the end of the text starts no new part.\<close>

function getlines :: "char \<Rightarrow> string \<Rightarrow> string list" where
  "getlines d s =
     (if s = [] then []
      else takeWhile (\<lambda>c. c \<noteq> d) s # getlines d (drop 1 (dropWhile (\<lambda>c. c \<noteq> d) s)))"
  by auto

termination getlines
proof (relation "measure (\<lambda>(d, s). length s)")
  fix d :: char and s :: string
  assume "s \<noteq> []"
  then have "length (drop 1 (dropWhile (\<lambda>c. c \<noteq> d) s)) < length s"
    using length_dropWhile_le [of "\<lambda>c. c \<noteq> d" s] by (metis One_nat_def diff_less length_drop length_greater_0_conv
      less_imp_diff_less nat_less_le order_le_less_trans zero_less_one)
  then show "((d, drop 1 (dropWhile (\<lambda>c. c \<noteq> d) s)), (d, s)) \<in> measure (\<lambda>(d, s). length s)" by simp
qed simp

declare getlines.simps [simp del]

definition isspace :: "char \<Rightarrow> bool" where
  "isspace c \<longleftrightarrow> c \<in> {CHR '' '', CHR 0x09, CHR 0x0A, CHR 0x0B, CHR 0x0C, CHR 0x0D}"

text \<open>\<^verbatim>\<open>stream >> token\<close> skips white space and reads up to the next.\<close>

function splitLine :: "string \<Rightarrow> string list" where
  "splitLine line =
     (let s = dropWhile isspace line
      in if s = [] then [] else takeWhile (\<lambda>c. \<not> isspace c) s # splitLine (dropWhile (\<lambda>c. \<not> isspace c) s))"
  by auto

termination splitLine
proof (relation "measure length")
  fix line s :: string
  assume s: "s = dropWhile isspace line" and "s \<noteq> []"
  then obtain c t where c: "s = c # t" "\<not> isspace c" using hd_dropWhile [of isspace line] by (metis list.sel(1) neq_Nil_conv)
  have "length (dropWhile (\<lambda>c. \<not> isspace c) s) \<le> length t" using c length_dropWhile_le [of _ t] by simp
  also have "\<dots> < length line" using c(1) s length_dropWhile_le [of isspace line] by (metis Suc_le_lessD length_Cons)
  finally show "(dropWhile (\<lambda>c. \<not> isspace c) s, line) \<in> measure length" by simp
qed simp

declare splitLine.simps [simp del]

section \<open>The parser\<close>

record BumpMapEntry =
  bme_inst_name :: string
  bme_cell_type :: string
  bme_x :: rat
  bme_y :: rat
  bme_port_name :: string
  bme_net_name :: string

definition parseBumpMapLine :: "(string \<Rightarrow> rat option) \<Rightarrow> string \<Rightarrow> odb_error + BumpMapEntry" where
  "parseBumpMapLine stod line =
     (let tokens = splitLine line
      in if length tokens \<noteq> 6 then Inl (Throws 536)
         else case (stod (tokens ! 2), stod (tokens ! 3)) of
                (Some x, Some y) \<Rightarrow>
                  Inr \<lparr>bme_inst_name = tokens ! 0, bme_cell_type = tokens ! 1, bme_x = x, bme_y = y,
                       bme_port_name = tokens ! 4, bme_net_name = tokens ! 5\<rparr>
              | _ \<Rightarrow> Inl (Throws 537))"

definition skipped_line :: "string \<Rightarrow> bool" where
  "skipped_line line \<longleftrightarrow> line = [] \<or> line ! 0 = CHR ''#''"

fun parse_lines :: "(string \<Rightarrow> rat option) \<Rightarrow> string list \<Rightarrow> odb_error + BumpMapEntry list" where
  "parse_lines stod [] = Inr []"
| "parse_lines stod (line # lines) =
     (if skipped_line line then parse_lines stod lines
      else case parseBumpMapLine stod line of
             Inl e \<Rightarrow> Inl e
           | Inr entry \<Rightarrow> (case parse_lines stod lines of Inl e \<Rightarrow> Inl e | Inr entries \<Rightarrow> Inr (entry # entries)))"

definition parseBumpMapContent :: "(string \<Rightarrow> rat option) \<Rightarrow> string \<Rightarrow> odb_error + BumpMapEntry list" where
  "parseBumpMapContent stod content = parse_lines stod (getlines (CHR 0x0A) content)"

section \<open>The writer\<close>

record written_bump =
  wb_inst_name :: string
  wb_cell_type :: string
  wb_origin :: Point
  wb_bterm :: "string option"
  wb_net :: "string option"

text \<open>
  \<^verbatim>\<open>point.getX() / u\<close>: the units per micron are a \<^verbatim>\<open>uint32_t\<close>, so the coordinate is converted
  to one and the division is of unsigned numbers.
\<close>

definition write_coord :: "nat \<Rightarrow> int \<Rightarrow> string" where
  "write_coord u x = to_string (unat ((of_int x :: 32 word) div of_nat u))"

definition write_bump :: "nat \<Rightarrow> written_bump \<Rightarrow> string" where
  "write_bump u b =
     wb_inst_name b @ '' '' @ wb_cell_type b @ '' '' @ write_coord u (px (wb_origin b)) @ '' '' @
     write_coord u (py (wb_origin b)) @ '' '' @
     (case wb_bterm b of Some name \<Rightarrow> name | None \<Rightarrow> ''-'') @ '' '' @
     (case wb_net b of Some name \<Rightarrow> name | None \<Rightarrow> ''-'') @ [CHR 0x0A]"

definition writeFile :: "nat \<Rightarrow> written_bump list \<Rightarrow> string" where
  "writeFile u bumps = concat (map (write_bump u) bumps)"

section \<open>Reading back\<close>

definition is_word :: "string \<Rightarrow> bool" where
  "is_word w \<longleftrightarrow> w \<noteq> [] \<and> (\<forall>c \<in> set w. \<not> isspace c)"

lemma getlines_line: "d \<notin> set l \<Longrightarrow> getlines d (l @ d # r) = l # getlines d r"
  by (subst getlines.simps) (simp add: takeWhile_append dropWhile_append)

lemma getlines_lines: "(\<And>l. l \<in> set ls \<Longrightarrow> d \<notin> set l) \<Longrightarrow> getlines d (concat (map (\<lambda>l. l @ [d]) ls)) = ls"
proof (induction ls)
  case Nil
  then show ?case by (subst getlines.simps) simp
qed (simp add: getlines_line)

lemma splitLine_space: "isspace c \<Longrightarrow> splitLine (c # s) = splitLine s"
  by (subst (1 2) splitLine.simps) simp

lemma splitLine_word:
  assumes "is_word w"
  shows "splitLine w = [w]" and "isspace c \<Longrightarrow> splitLine (w @ c # s) = w # splitLine s"
proof -
  have d: "dropWhile isspace (w @ s) = w @ s" for s using assms by (cases w) (auto simp: is_word_def)
  have e: "splitLine [] = []" by (subst splitLine.simps) simp
  have t: "takeWhile (\<lambda>c. \<not> isspace c) w = w" "dropWhile (\<lambda>c. \<not> isspace c) w = []"
    using assms by (auto simp: is_word_def)
  have "w \<noteq> []" using assms by (simp add: is_word_def)
  then show "splitLine w = [w]" using d [of "[]"] by (subst splitLine.simps) (simp only: append_Nil2 t e Let_def if_False)
  show "splitLine (w @ c # s) = w # splitLine s" if "isspace c"
    using d [of "c # s"] assms that t
    by (subst splitLine.simps) (simp add: is_word_def takeWhile_append dropWhile_append splitLine_space)
qed

lemma digit_not_space: "d < 10 \<Longrightarrow> \<not> isspace (digit d)"
proof -
  assume "d < 10"
  then have c: "(of_char (digit d) :: nat) = 48 + d" by (rule digit_char)
  have "(of_char e :: nat) < 48" if "isspace e" for e using that by (auto simp: isspace_def)
  with c show ?thesis by force
qed

lemma to_string_word: "is_word (to_string n)"
proof (induction n rule: to_string.induct)
  case (1 n)
  then show ?case by (subst to_string.simps) (auto simp: is_word_def digit_not_space)
qed

text \<open>The reader of decimal digits shows that \<open>stod_exact\<close> can hold.\<close>

definition stod_exact :: "(string \<Rightarrow> rat option) \<Rightarrow> bool" where
  "stod_exact stod \<longleftrightarrow> (\<forall>n < 2 ^ 32. stod (to_string n) = Some (of_nat n))"

lemma stod_exact_digits: "stod_exact (\<lambda>s. Some (of_nat (read_digits s)))"
  by (simp add: stod_exact_def read_digits)

definition name_or_dash :: "string option \<Rightarrow> string" where
  "name_or_dash n = (case n of Some name \<Rightarrow> name | None \<Rightarrow> ''-'')"

definition bump_names_ok :: "written_bump \<Rightarrow> bool" where
  "bump_names_ok b \<longleftrightarrow> is_word (wb_inst_name b) \<and> hd (wb_inst_name b) \<noteq> CHR ''#'' \<and> is_word (wb_cell_type b) \<and>
     is_word (name_or_dash (wb_bterm b)) \<and> is_word (name_or_dash (wb_net b))"

text \<open>What the reader makes of a written bump: the coordinates are whole microns, computed modulo \<open>2 ^ 32\<close>.\<close>

definition micron_coord :: "nat \<Rightarrow> int \<Rightarrow> nat" where
  "micron_coord u x = nat (x mod 2 ^ 32) div u"

definition read_back :: "nat \<Rightarrow> written_bump \<Rightarrow> BumpMapEntry" where
  "read_back u b =
     \<lparr>bme_inst_name = wb_inst_name b, bme_cell_type = wb_cell_type b,
      bme_x = of_nat (micron_coord u (px (wb_origin b))), bme_y = of_nat (micron_coord u (py (wb_origin b))),
      bme_port_name = name_or_dash (wb_bterm b), bme_net_name = name_or_dash (wb_net b)\<rparr>"

lemma unat_div_units: "u < 2 ^ 32 \<Longrightarrow> unat ((of_int x :: 32 word) div of_nat u) = micron_coord u x"
  by (simp add: unat_div_distrib micron_coord_def unat_of_nat unat_eq_nat_uint [of "word_of_int x"] uint_word_of_int)

lemma micron_coord_less: "micron_coord u x < 2 ^ 32"
proof -
  have "micron_coord u x \<le> nat (x mod 2 ^ 32)" by (simp add: micron_coord_def)
  also have "\<dots> < 2 ^ 32" by (simp add: nat_less_iff)
  finally show ?thesis .
qed

lemma parse_written_line:
  assumes stod: "stod_exact stod" and u: "u < 2 ^ 32" and b: "bump_names_ok b"
  shows "\<exists>line. write_bump u b = line @ [CHR 0x0A] \<and> CHR 0x0A \<notin> set line \<and> \<not> skipped_line line \<and>
    parseBumpMapLine stod line = Inr (read_back u b)"
proof -
  let ?x = "micron_coord u (px (wb_origin b))" and ?y = "micron_coord u (py (wb_origin b))"
  let ?line = "wb_inst_name b @ CHR '' '' # wb_cell_type b @ CHR '' '' # to_string ?x @ CHR '' '' #
    to_string ?y @ CHR '' '' # name_or_dash (wb_bterm b) @ CHR '' '' # name_or_dash (wb_net b)"
  have w: "is_word (wb_inst_name b)" "is_word (wb_cell_type b)" "is_word (name_or_dash (wb_bterm b))"
    "is_word (name_or_dash (wb_net b))" using b by (simp_all add: bump_names_ok_def)
  have "isspace (CHR '' '')" "isspace (CHR 0x0A)" by (simp_all add: isspace_def)
  note sp = this
  have "splitLine ?line = [wb_inst_name b, wb_cell_type b, to_string ?x, to_string ?y, name_or_dash (wb_bterm b),
      name_or_dash (wb_net b)]"
    by (simp add: splitLine_word w to_string_word sp)
  moreover have "stod (to_string ?x) = Some (of_nat ?x)" "stod (to_string ?y) = Some (of_nat ?y)"
    using stod micron_coord_less by (simp_all add: stod_exact_def)
  ultimately have "parseBumpMapLine stod ?line = Inr (read_back u b)"
    by (simp add: parseBumpMapLine_def read_back_def numeral_eq_Suc)
  moreover have "write_bump u b = ?line @ [CHR 0x0A]"
    using u by (simp add: write_bump_def write_coord_def unat_div_units name_or_dash_def)
  moreover have "CHR 0x0A \<notin> set ?line"
    using w to_string_word [of ?x] to_string_word [of ?y] sp(2) by (auto simp: is_word_def)
  moreover have "\<not> skipped_line ?line"
    using b by (cases "wb_inst_name b") (auto simp: bump_names_ok_def skipped_line_def is_word_def)
  ultimately show ?thesis by blast
qed

lemma parse_lines_all:
  assumes "list_all2 (\<lambda>line e. \<not> skipped_line line \<and> parseBumpMapLine stod line = Inr e) lines es"
  shows "parse_lines stod lines = Inr es"
  using assms by (induction rule: list_all2_induct) simp_all

lemma bump_map_read_back:
  assumes stod: "stod_exact stod" and u: "u < 2 ^ 32" and b: "\<forall>b \<in> set bumps. bump_names_ok b"
  shows "parseBumpMapContent stod (writeFile u bumps) = Inr (map (read_back u) bumps)"
proof -
  from parse_written_line [OF stod u] b have "\<forall>b \<in> set bumps. \<exists>line. write_bump u b = line @ [CHR 0x0A] \<and>
      CHR 0x0A \<notin> set line \<and> \<not> skipped_line line \<and> parseBumpMapLine stod line = Inr (read_back u b)" by blast
  then obtain l where l: "\<And>b. b \<in> set bumps \<Longrightarrow> write_bump u b = l b @ [CHR 0x0A] \<and> CHR 0x0A \<notin> set (l b) \<and>
      \<not> skipped_line (l b) \<and> parseBumpMapLine stod (l b) = Inr (read_back u b)" by metis
  have "writeFile u bumps = concat (map (\<lambda>l. l @ [CHR 0x0A]) (map l bumps))"
    using l by (simp add: writeFile_def comp_def cong: map_cong)
  then have "getlines (CHR 0x0A) (writeFile u bumps) = map l bumps"
    using l by (simp only:) (rule getlines_lines, auto)
  moreover have "parse_lines stod (map l bumps) = Inr (map (read_back u) bumps)"
    using l by (intro parse_lines_all) (auto simp: list_all2_conv_all_nth)
  ultimately show ?thesis by (simp add: parseBumpMapContent_def)
qed

text \<open>Coordinates that are whole microns and not negative survive; others do not.\<close>

lemma micron_coord_exact_iff:
  assumes "0 \<le> x" and "x < 2 ^ 31" and "0 < u"
  shows "(of_nat (micron_coord u x) :: rat) * of_nat u = of_int x \<longleftrightarrow> int u dvd x"
proof -
  from assms(1) obtain n where n: "x = int n" by (metis nonneg_int_cases)
  have "micron_coord u x = n div u" using assms(2) n by (simp add: micron_coord_def)
  then have "(of_nat (micron_coord u x) :: rat) * of_nat u = of_nat (n div u * u)" by simp
  moreover have "(of_nat (n div u * u) :: rat) = of_int x \<longleftrightarrow> n div u * u = n" unfolding n of_int_of_nat_eq of_nat_eq_iff ..
  moreover have "n div u * u = n \<longleftrightarrow> u dvd n" by (metis dvd_div_mult_self dvd_triv_right)
  ultimately show ?thesis using assms(3) by (simp add: n)
qed

lemma micron_coord_negative: "- (2 ^ 31) \<le> x \<Longrightarrow> x < 0 \<Longrightarrow> micron_coord u x = nat (2 ^ 32 + x) div u"
  using mod_pos_pos_trivial [of "2 ^ 32 + x" "2 ^ 32"] by (simp add: micron_coord_def)

section \<open>What parses\<close>

definition data_lines :: "string \<Rightarrow> string list" where
  "data_lines content = filter (\<lambda>l. \<not> skipped_line l) (getlines (CHR 0x0A) content)"

lemma parse_lines_data:
  "parse_lines stod lines = Inr es \<longleftrightarrow>
     list_all2 (\<lambda>line e. parseBumpMapLine stod line = Inr e) (filter (\<lambda>l. \<not> skipped_line l) lines) es"
proof (induction lines arbitrary: es)
  case (Cons l lines)
  show ?case
  proof (cases "skipped_line l")
    case False
    then show ?thesis using Cons
      by (cases es; cases "parseBumpMapLine stod l"; cases "parse_lines stod lines") auto
  qed (simp add: Cons)
qed auto

lemma parse_lines_error:
  "parse_lines stod lines = Inl e \<Longrightarrow> \<exists>l \<in> set lines. \<not> skipped_line l \<and> parseBumpMapLine stod l = Inl e"
  by (induction lines) (auto split: if_splits sum.splits)

text \<open>A line of white space is not an empty line: it is refused.\<close>

lemma blank_line_is_refused: "c \<noteq> CHR ''#'' \<Longrightarrow> isspace c \<Longrightarrow> \<not> skipped_line [c] \<and> parseBumpMapLine stod [c] = Inl (Throws 536)"
  by (simp add: skipped_line_def parseBumpMapLine_def splitLine.simps Let_def)

end
