(* ===== verification/ThreeDBlox.thy ===== *)
theory ThreeDBlox
  imports ChipDbLaws BumpMap
begin

text \<open>
  Building a design from a 3Dblox description (\<^verbatim>\<open>3dblox/3dblox.cpp\<close>, \<^verbatim>\<open>3dblox/objects.h\<close>): the
  top chip, its chip instances, the connections between their regions, the size of the whole.

  The data is what the YAML parser leaves in the structs of \<^verbatim>\<open>objects.h\<close>; a \<^verbatim>\<open>std::map\<close> that
  is iterated over is the list of its values in the order of the keys. Doubles are rationals; \<open>fl\<close> rounds a
  product to a double. \<^verbatim>\<open>Logger::error\<close> throws, so each step returns the database it leaves behind and
  the error or the result. The included files are read by \<open>readHeaderIncludes\<close>, an argument. Nets are read from
  Verilog only when there is a timing engine; the model is of a reader that has none.
\<close>

section \<open>The description\<close>

datatype Coordinate = Coordinate (co_x: rat) (co_y: rat)

record ChipletInst =
  cin_name :: string
  cin_reference :: string
  cin_loc :: Coordinate
  cin_z :: rat
  cin_orient :: string

record Connection =
  con_name :: string
  con_top :: string
  con_bot :: string
  con_thickness :: rat

record DesignDef =
  dd_name :: string
  dd_verilog_file :: string

record DbxData =
  dbx_includes :: "string list"
  dbx_design :: DesignDef
  dbx_chiplet_instances :: "ChipletInst list"
  dbx_connections :: "Connection list"

section \<open>Numbers and names\<close>

text \<open>\<^verbatim>\<open>std::round\<close>: to the nearest integer, halves away from zero.\<close>

definition std_round :: "rat \<Rightarrow> int" where
  "std_round x = (if 0 \<le> x then \<lfloor>x + 1 / 2\<rfloor> else - \<lfloor>1 / 2 - x\<rfloor>)"

definition to_dbu :: "(rat \<Rightarrow> rat) \<Rightarrow> dbDatabase \<Rightarrow> rat \<Rightarrow> int" where
  "to_dbu fl db x = std_round (fl (x * of_nat (db_dbu_per_micron db)))"

text \<open>A key that is given twice keeps its first value.\<close>

definition dup_orient_map :: "string \<rightharpoonup> string" where
  "dup_orient_map = map_of
     [(''MY_R180'', ''MX''), (''MY_R270'', ''MX_R90''), (''MX_R180'', ''MY''), (''MX_R180'', ''MY_R90''),
      (''MZ_MY_R180'', ''MZ_MX''), (''MZ_MY_R270'', ''MZ_MX_R90''), (''MZ_MX_R180'', ''MZ_MY''),
      (''MZ_MX_R270'', ''MZ_MY_R90'')]"

definition parse_orient :: "string \<Rightarrow> dbOrientType3D option" where
  "parse_orient orient_str =
     dbOrientType3D_fromString (case dup_orient_map orient_str of Some s \<Rightarrow> s | None \<Rightarrow> orient_str)"

definition getChipType :: "string \<Rightarrow> odb_error + ChipType" where
  "getChipType type =
     (if type = ''die'' then Inr DIE else if type = ''rdl'' then Inr RDL else if type = ''ip'' then Inr IP
      else if type = ''substrate'' then Inr SUBSTRATE else if type = ''hier'' then Inr HIER
      else Inl (Throws 527))"

definition getChipRegionSide :: "string \<Rightarrow> odb_error + Side" where
  "getChipRegionSide side =
     (if side = ''front'' then Inr FRONT else if side = ''back'' then Inr BACK
      else if side = ''internal'' then Inr INTERNAL else if side = ''internal_ext'' then Inr INTERNAL_EXT
      else Inl (Throws 528))"

definition splitPath :: "string \<Rightarrow> string list" where
  "splitPath path = filter (\<lambda>part. part \<noteq> []) (getlines (CHR ''/'') path)"

section \<open>The database\<close>

definition dbDatabase_findChip :: "dbDatabase \<Rightarrow> string \<Rightarrow> nat" where
  "dbDatabase_findChip db name = (case db_chip_hash db (c_str name) of Some c \<Rightarrow> c | None \<Rightarrow> 0)"

definition dbDatabase_setTopChip :: "dbDatabase \<Rightarrow> nat \<Rightarrow> dbDatabase" where
  "dbDatabase_setTopChip db chip = db\<lparr>db_chip := chip\<rparr>"

definition dbChip_setWidth :: "dbDatabase \<Rightarrow> nat \<Rightarrow> int \<Rightarrow> dbDatabase" where
  "dbChip_setWidth db chip width =
     db\<lparr>chip_tbl := dbTable_update (chip_tbl db) chip (\<lambda>c. c\<lparr>chip_width := width\<rparr>)\<rparr>"

definition dbChip_setHeight :: "dbDatabase \<Rightarrow> nat \<Rightarrow> int \<Rightarrow> dbDatabase" where
  "dbChip_setHeight db chip height =
     db\<lparr>chip_tbl := dbTable_update (chip_tbl db) chip (\<lambda>c. c\<lparr>chip_height := height\<rparr>)\<rparr>"

definition dbChip_setThickness :: "dbDatabase \<Rightarrow> nat \<Rightarrow> int \<Rightarrow> dbDatabase" where
  "dbChip_setThickness db chip thickness =
     db\<lparr>chip_tbl := dbTable_update (chip_tbl db) chip (\<lambda>c. c\<lparr>chip_thickness := thickness\<rparr>)\<rparr>"

definition dbChipConn_setThickness :: "dbDatabase \<Rightarrow> nat \<Rightarrow> int \<Rightarrow> dbDatabase" where
  "dbChipConn_setThickness db k thickness =
     db\<lparr>chip_conn_tbl := dbTable_update (chip_conn_tbl db) k (\<lambda>x. x\<lparr>cc_thickness := thickness\<rparr>)\<rparr>"

text \<open>\<^verbatim>\<open>dbStringProperty::create\<close> appends to a property that exists.\<close>

definition dbStringProperty_create :: "dbDatabase \<Rightarrow> nat \<Rightarrow> string \<Rightarrow> string \<Rightarrow> dbDatabase" where
  "dbStringProperty_create db chip name val =
     db\<lparr>chip_tbl := dbTable_update (chip_tbl db) chip
          (\<lambda>c. c\<lparr>chip_string_props := (chip_string_props c)(name \<mapsto>
             (case chip_string_props c name of Some old \<Rightarrow> old @ '' '' @ val | None \<Rightarrow> val))\<rparr>)\<rparr>"

section \<open>The reader\<close>

definition createDesignTopChiplet :: "dbDatabase \<Rightarrow> DesignDef \<Rightarrow> dbDatabase \<times> (odb_error + nat)" where
  "createDesignTopChiplet db design =
     (case dbChip_create db 0 (dd_name design) HIER of
        (db, Inl e) \<Rightarrow> (db, Inl e)
      | (db, Inr chip) \<Rightarrow>
          let db = (if dd_verilog_file design \<noteq> [] \<and> chip_string_props (chip_of db chip) ''verilog_file'' = None
                    then dbStringProperty_create db chip ''verilog_file'' (c_str (dd_verilog_file design)) else db)
          in (dbDatabase_setTopChip db chip, Inr chip))"

definition createChipInst :: "(rat \<Rightarrow> rat) \<Rightarrow> dbDatabase \<Rightarrow> ChipletInst \<Rightarrow> dbDatabase \<times> (odb_error + nat)" where
  "createChipInst fl db chip_inst =
     (let chip = dbDatabase_findChip db (cin_reference chip_inst)
      in if chip = 0 then (db, Inl (Throws 519))
         else case dbChipInst_create db (db_chip db) chip (cin_name chip_inst) of
                (db, Inl e) \<Rightarrow> (db, Inl e)
              | (db, Inr inst) \<Rightarrow>
                  (case parse_orient (cin_orient chip_inst) of
                     None \<Rightarrow> (db, Inl (Throws 525))
                   | Some orient \<Rightarrow>
                       let db = dbChipInst_setOrient db inst orient;
                           db = dbChipInst_setLoc db inst
                                  (Point3D (to_dbu fl db (co_x (cin_loc chip_inst)))
                                           (to_dbu fl db (co_y (cin_loc chip_inst)))
                                           (to_dbu fl db (cin_z chip_inst)))
                       in (db, Inr inst)))"

text \<open>The instances named by the parts of a path, each found in the chip the last one is an instance of.\<close>

fun walk_path :: "dbDatabase \<Rightarrow> nat \<Rightarrow> string list \<Rightarrow> odb_error + nat list" where
  "walk_path db curr_chip [] = Inr []"
| "walk_path db curr_chip (inst_name # parts) =
     (let curr_chip_inst = dbChip_findChipInst db curr_chip inst_name
      in if curr_chip_inst = 0 then Inl (Throws 522)
         else case walk_path db (ci_master (inst_of db curr_chip_inst)) parts of
                Inl e \<Rightarrow> Inl e | Inr insts \<Rightarrow> Inr (curr_chip_inst # insts))"

definition resolvePath :: "dbDatabase \<Rightarrow> string \<Rightarrow> odb_error + (nat \<times> nat list)" where
  "resolvePath db path =
     (if path = ''~'' then Inr (0, [])
      else
        let path_parts = splitPath path
        in if path_parts = [] then Inl (Throws 524)
           else case str_find ''.regions.'' (last path_parts) of
                  None \<Rightarrow> Inr (0, [])
                | Some regions_pos \<Rightarrow>
                    let last_chip_inst = take regions_pos (last path_parts);
                        region_name = drop (regions_pos + 9) (last path_parts)
                    in case walk_path db (db_chip db) (butlast path_parts @ [last_chip_inst]) of
                         Inl e \<Rightarrow> Inl e
                       | Inr path_insts \<Rightarrow>
                           let region = dbChipInst_findChipRegionInst_name db (last path_insts) region_name
                           in if region = 0 then Inl (Throws 523) else Inr (region, path_insts))"

definition createConnection :: "(rat \<Rightarrow> rat) \<Rightarrow> dbDatabase \<Rightarrow> Connection \<Rightarrow> dbDatabase \<times> (odb_error + nat)" where
  "createConnection fl db connection =
     (case resolvePath db (con_top connection) of
        Inl e \<Rightarrow> (db, Inl e)
      | Inr (top_region, top_region_path) \<Rightarrow>
          (case resolvePath db (con_bot connection) of
             Inl e \<Rightarrow> (db, Inl e)
           | Inr (bottom_region, bottom_region_path) \<Rightarrow>
               (case dbChipConn_create db (con_name connection) (db_chip db) top_region_path top_region
                       bottom_region_path bottom_region of
                  (db, Inl e) \<Rightarrow> (db, Inl e)
                | (db, Inr conn) \<Rightarrow>
                    (dbChipConn_setThickness db conn (to_dbu fl db (con_thickness connection)), Inr conn))))"

definition calculateSize :: "dbDatabase \<Rightarrow> nat \<Rightarrow> dbDatabase" where
  "calculateSize db chip =
     (let cuboid = foldl (\<lambda>c inst. Cuboid_merge c (dbChipInst_getCuboid db inst)) Cuboid_mergeInit
                     (chip_insts (chip_of db chip));
          db = dbChip_setWidth db chip (Cuboid_dx cuboid);
          db = dbChip_setHeight db chip (Cuboid_dy cuboid)
      in dbChip_setThickness db chip (Cuboid_dz cuboid))"

text \<open>A loop over a map; the first error ends it.\<close>

fun for_each :: "(dbDatabase \<Rightarrow> 'a \<Rightarrow> dbDatabase \<times> (odb_error + 'b)) \<Rightarrow> dbDatabase \<Rightarrow> 'a list
    \<Rightarrow> dbDatabase \<times> (odb_error + 'b list)" where
  "for_each f db [] = (db, Inr [])"
| "for_each f db (x # xs) =
     (case f db x of
        (db, Inl e) \<Rightarrow> (db, Inl e)
      | (db, Inr y) \<Rightarrow>
          (case for_each f db xs of (db, Inl e) \<Rightarrow> (db, Inl e) | (db, Inr ys) \<Rightarrow> (db, Inr (y # ys))))"

definition readDbx ::
    "(rat \<Rightarrow> rat) \<Rightarrow> (dbDatabase \<Rightarrow> string list \<Rightarrow> dbDatabase \<times> (odb_error + unit)) \<Rightarrow> dbDatabase \<Rightarrow> DbxData
      \<Rightarrow> dbDatabase \<times> (odb_error + nat)" where
  "readDbx fl readHeaderIncludes db data =
     (case readHeaderIncludes db (dbx_includes data) of
        (db, Inl e) \<Rightarrow> (db, Inl e)
      | (db, Inr _) \<Rightarrow>
          (case createDesignTopChiplet db (dbx_design data) of
             (db, Inl e) \<Rightarrow> (db, Inl e)
           | (db, Inr chip) \<Rightarrow>
               (case for_each (createChipInst fl) db (dbx_chiplet_instances data) of
                  (db, Inl e) \<Rightarrow> (db, Inl e)
                | (db, Inr _) \<Rightarrow>
                    (case for_each (createConnection fl) db (dbx_connections data) of
                       (db, Inl e) \<Rightarrow> (db, Inl e)
                     | (db, Inr _) \<Rightarrow> (calculateSize db chip, Inr chip)))))"

end
