(* ===== verification/ThreeDBloxLaws.thy ===== *)
theory ThreeDBloxLaws
  imports ThreeDBlox
begin

text \<open>
  The reader of 3Dblox designs over the laws of the chip database: where an instance ends up, what a
  connection path denotes, which errors are possible, how large the design is. \<open>hier_ok\<close> is the invariant of the
  hierarchy that makes paths meaningful; it is kept by every step.
\<close>

section \<open>The hierarchy\<close>

definition hier_ok :: "dbDatabase \<Rightarrow> bool" where
  "hier_ok db \<longleftrightarrow> insts_inv db \<and> tbl_inv (chip_tbl db) \<and>
     (\<forall>c x n i. dbTable_getPtr (chip_tbl db) c = Some x \<longrightarrow> chip_insts_map x n = Some i \<longrightarrow>
        (\<exists>y. dbTable_getPtr (chip_inst_tbl db) i = Some y \<and> ci_parent y = c \<and> ci_name y = n)) \<and>
     (\<forall>i y. dbTable_getPtr (chip_inst_tbl db) i = Some y \<longrightarrow>
        ci_master y \<in> dom (dbTable_getPtr (chip_tbl db)) \<and>
        (\<forall>g r. ci_region_map y g = Some r \<longrightarrow>
           (\<exists>z. dbTable_getPtr (chip_region_inst_tbl db) r = Some z \<and> cri_parent z = i \<and> cri_region z = g))) \<and>
     (\<forall>n c. db_chip_hash db n = Some c \<longrightarrow> c \<in> dom (dbTable_getPtr (chip_tbl db)))"

lemma hier_ok_inv: "hier_ok db \<Longrightarrow> insts_inv db" "hier_ok db \<Longrightarrow> tbl_inv (chip_tbl db)"
  "hier_ok db \<Longrightarrow> tbl_inv (chip_inst_tbl db)"
  by (simp_all add: hier_ok_def insts_inv_def)

lemma hier_ok_chip:
  assumes "hier_ok db" and "dbTable_getPtr (chip_tbl db) c = Some x" and "chip_insts_map x n = Some i"
  shows "\<exists>y. dbTable_getPtr (chip_inst_tbl db) i = Some y \<and> ci_parent y = c \<and> ci_name y = n"
  using assms by (simp add: hier_ok_def)

lemma hier_ok_inst:
  assumes "hier_ok db" and "dbTable_getPtr (chip_inst_tbl db) i = Some y"
  shows "\<exists>m. dbTable_getPtr (chip_tbl db) (ci_master y) = Some m"
    and "ci_region_map y g = Some r \<Longrightarrow>
      \<exists>z. dbTable_getPtr (chip_region_inst_tbl db) r = Some z \<and> cri_parent z = i \<and> cri_region z = g"
  using assms unfolding hier_ok_def by (metis domD, metis)

lemma hier_ok_hash: "hier_ok db \<Longrightarrow> db_chip_hash db n = Some c \<Longrightarrow> \<exists>x. dbTable_getPtr (chip_tbl db) c = Some x"
  unfolding hier_ok_def by (metis domD)

lemma findChipInst_named:
  assumes "hier_ok db" and "dbTable_getPtr (chip_tbl db) c = Some x" and "dbChip_findChipInst db c n \<noteq> 0"
  shows "\<exists>y. dbTable_getPtr (chip_inst_tbl db) (dbChip_findChipInst db c n) = Some y \<and> ci_parent y = c \<and> ci_name y = n"
  using assms hier_ok_chip [OF assms(1,2)]
  by (auto simp: dbChip_findChipInst_def deref_def split: option.splits)

lemma map_upds_nth: "(Map.empty(ks [\<mapsto>] vs)) k = Some v \<Longrightarrow> list_all2 P vs ks \<Longrightarrow> P v k"
proof -
  assume m: "(Map.empty(ks [\<mapsto>] vs)) k = Some v" and l: "list_all2 P vs ks"
  have "length vs = length ks" using l by (rule list_all2_lengthD)
  then have "map_of (rev (zip ks vs)) k = Some v" using m by (simp add: map_upds_def)
  then have "(k, v) \<in> set (zip ks vs)" by (auto dest: map_of_SomeD)
  then show "P v k" using l by (auto simp: set_zip list_all2_conv_all_nth)
qed

text \<open>An instance created in a chip keeps the hierarchy in order.\<close>

lemma hier_ok_created:
  assumes ok: "hier_ok db" and inv: "insts_inv db'" "tbl_inv (chip_tbl db')"
    and p: "dbTable_getPtr (chip_tbl db) p = Some x" and m: "m \<in> dom (dbTable_getPtr (chip_tbl db))"
    and c: "inst_created db p m name db' i"
  shows "hier_ok db'"
proof -
  let ?I = "dbTable_getPtr (chip_inst_tbl db)" and ?I' = "dbTable_getPtr (chip_inst_tbl db')"
  let ?C = "dbTable_getPtr (chip_tbl db)" and ?C' = "dbTable_getPtr (chip_tbl db')"
  note c' = c [unfolded inst_created_def Let_def]
  have old: "?I j = Some y \<Longrightarrow> ?I' j = Some y" for j y using c' by blast
  have domI: "dom ?I' = insert i (dom ?I)" and domC: "dom ?C' = dom ?C" using c' by blast+
  have others: "?C' q = ?C q" if "q \<noteq> p" for q using c' that by blast
  have "i \<in> dom ?I'" "p \<in> dom ?C'" using domI domC p by auto
  then have y: "?I' i = Some (inst_of db' i)" and p': "?C' p = Some (chip_of db' p)" by (auto simp: deref_def)
  have px: "chip_insts_map (chip_of db' p) = (chip_insts_map x)(name \<mapsto> i)" using c' p by (simp add: deref_def)
  have chips: "\<exists>y. ?I' j = Some y \<and> ci_parent y = q \<and> ci_name y = n"
    if q: "?C' q = Some x'" and j: "chip_insts_map x' n = Some j" for q x' n j
  proof (cases "q = p \<and> n = name")
    case True
    then have "j = i" using q j p' px by simp
    then show ?thesis using True y c' by simp
  next
    case False
    then have "\<exists>z. ?C q = Some z \<and> chip_insts_map z n = Some j"
      using q j p' px others p by (cases "q = p") auto
    then show ?thesis using hier_ok_chip [OF ok] old by metis
  qed
  have insts: "ci_master y' \<in> dom ?C' \<and> (\<forall>g r. ci_region_map y' g = Some r \<longrightarrow>
      (\<exists>z. dbTable_getPtr (chip_region_inst_tbl db') r = Some z \<and> cri_parent z = j \<and> cri_region z = g))"
    if "?I' j = Some y'" for j y'
  proof (cases "j = i")
    case True
    then have y': "y' = inst_of db' i" using that y by simp
    have "list_all2 (region_inst_ok db' m i) (ci_region_insts y') (table_ids (chip_region_tbl (chip_of db m)))"
      "ci_region_map y' = Map.empty(table_ids (chip_region_tbl (chip_of db m)) [\<mapsto>] ci_region_insts y')"
      "ci_master y' = m" using c' unfolding y' by blast+
    then have "region_inst_ok db' m i r g" if "ci_region_map y' g = Some r" for g r
      using that map_upds_nth [where P = "region_inst_ok db' m i"] by simp
    then have "\<exists>z. dbTable_getPtr (chip_region_inst_tbl db') r = Some z \<and> cri_parent z = i \<and> cri_region z = g"
      if "ci_region_map y' g = Some r" for g r using that by (fastforce simp: region_inst_ok_def)
    then show ?thesis using True m domC \<open>ci_master y' = m\<close> by blast
  next
    case False
    then have "j \<in> dom ?I" using that domI by auto
    then obtain y0 where "?I j = Some y0" by blast
    with old that have j: "?I j = Some y'" by fastforce
    have g: "grows (chip_region_inst_tbl db) (chip_region_inst_tbl db')" using c' by blast
    have "ci_master y' \<in> dom ?C'" using hier_ok_inst(1) [OF ok j] domC by auto
    then show ?thesis using hier_ok_inst(2) [OF ok j] grows_lookup [OF g] by metis
  qed
  have "db_chip_hash db' = db_chip_hash db" using c' by blast
  then have "\<forall>n c. db_chip_hash db' n = Some c \<longrightarrow> c \<in> dom ?C'"
    using ok domC unfolding hier_ok_def by simp
  then show ?thesis unfolding hier_ok_def using inv chips insts by blast
qed

text \<open>Assigning to fields the hierarchy does not depend on.\<close>

lemma hier_ok_assign_inst:
  assumes ok: "hier_ok db" and i: "dbTable_getPtr (chip_inst_tbl db) i = Some y"
    and f: "ci_parent (f y) = ci_parent y" "ci_name (f y) = ci_name y" "ci_master (f y) = ci_master y"
      "ci_region_map (f y) = ci_region_map y"
  shows "hier_ok (db\<lparr>chip_inst_tbl := dbTable_update (chip_inst_tbl db) i f\<rparr>)"
proof -
  note a = tbl.assign [OF hier_ok_inv(3) [OF ok] i, of f]
  let ?I = "dbTable_getPtr (dbTable_update (chip_inst_tbl db) i f)"
  have "\<exists>y. ?I j = Some y \<and> ci_parent y = c \<and> ci_name y = n"
    if "dbTable_getPtr (chip_tbl db) c = Some x" "chip_insts_map x n = Some j" for c x n j
    using hier_ok_chip [OF ok that] a f i by auto
  moreover have "ci_master y' \<in> dom (dbTable_getPtr (chip_tbl db)) \<and> (\<forall>g r. ci_region_map y' g = Some r \<longrightarrow>
      (\<exists>z. dbTable_getPtr (chip_region_inst_tbl db) r = Some z \<and> cri_parent z = j \<and> cri_region z = g))"
    if "?I j = Some y'" for j y'
  proof -
    have "\<exists>y0. dbTable_getPtr (chip_inst_tbl db) j = Some y0 \<and> ci_master y0 = ci_master y' \<and> ci_region_map y0 = ci_region_map y'"
      using that a f i by (cases "j = i") auto
    then show ?thesis using hier_ok_inst [OF ok] by (metis domI)
  qed
  ultimately show ?thesis using ok a unfolding hier_ok_def insts_inv_def by simp
qed

section \<open>Instances\<close>

text \<open>
  \<open>inst_placed\<close>: the new instance \<open>i\<close> is the one the description asks for, at the described location; the other
  instances and chips are as they were, except that the top chip has the new instance.
\<close>

definition described :: "(rat \<Rightarrow> rat) \<Rightarrow> dbDatabase \<Rightarrow> ChipletInst \<Rightarrow> nat \<Rightarrow> bool" where
  "described fl db ci i \<longleftrightarrow>
     (\<exists>y. dbTable_getPtr (chip_inst_tbl db) i = Some y \<and> ci_name y = cin_name ci \<and>
        ci_master y = dbDatabase_findChip db (cin_reference ci) \<and> ci_parent y = db_chip db \<and>
        parse_orient (cin_orient ci) = Some (ci_orient y)) \<and>
     dbChipInst_getLoc db i =
       Point3D (to_dbu fl db (co_x (cin_loc ci))) (to_dbu fl db (co_y (cin_loc ci))) (to_dbu fl db (cin_z ci))"

definition inst_added :: "dbDatabase \<Rightarrow> string \<Rightarrow> dbDatabase \<Rightarrow> nat \<Rightarrow> bool" where
  "inst_added db name db' i \<longleftrightarrow>
     db_chip db' = db_chip db \<and> db_dbu_per_micron db' = db_dbu_per_micron db \<and> db_chip_hash db' = db_chip_hash db \<and>
     chip_conn_tbl db' = chip_conn_tbl db \<and>
     dbTable_getPtr (chip_inst_tbl db) i = None \<and>
     (\<forall>j y. dbTable_getPtr (chip_inst_tbl db) j = Some y \<longrightarrow> dbTable_getPtr (chip_inst_tbl db') j = Some y) \<and>
     (\<forall>c. c \<noteq> db_chip db \<longrightarrow> dbTable_getPtr (chip_tbl db') c = dbTable_getPtr (chip_tbl db) c) \<and>
     (\<exists>x x'. dbTable_getPtr (chip_tbl db) (db_chip db) = Some x \<and> dbTable_getPtr (chip_tbl db') (db_chip db) = Some x' \<and>
        x' = x\<lparr>chip_insts := i # chip_insts x, chip_insts_map := (chip_insts_map x)(name \<mapsto> i)\<rparr>)"

definition placeable :: "dbDatabase \<Rightarrow> ChipletInst \<Rightarrow> bool" where
  "placeable db ci \<longleftrightarrow> dbDatabase_findChip db (cin_reference ci) \<notin> {0, db_chip db} \<and>
     parse_orient (cin_orient ci) \<noteq> None"

definition top_ok :: "dbDatabase \<Rightarrow> bool" where
  "top_ok db \<longleftrightarrow> hier_ok db \<and> (\<exists>x. dbTable_getPtr (chip_tbl db) (db_chip db) = Some x \<and> chip_type x = HIER)"

lemma setOrient_setLoc:
  fixes orient loc
  assumes ok: "hier_ok db" and i: "dbTable_getPtr (chip_inst_tbl db) i = Some y"
  defines "db' \<equiv> dbChipInst_setLoc (dbChipInst_setOrient db i orient) i loc"
  shows "hier_ok db' \<and> dbChipInst_getLoc db' i = loc \<and>
    (\<exists>origin. dbTable_getPtr (chip_inst_tbl db') = (dbTable_getPtr (chip_inst_tbl db))
      (i \<mapsto> y\<lparr>ci_orient := orient, ci_origin := origin\<rparr>))"
proof -
  let ?f = "\<lambda>x. x\<lparr>ci_orient := orient\<rparr>" and ?d = "dbChipInst_setOrient db i orient"
  note a = tbl.assign [OF hier_ok_inv(3) [OF ok] i, of ?f]
  have d: "hier_ok ?d" "dbTable_getPtr (chip_inst_tbl ?d) i = Some (?f y)"
    using hier_ok_assign_inst [OF ok i, of ?f] a by (simp_all add: dbChipInst_setOrient_def)
  obtain origin where eq: "db' = ?d\<lparr>chip_inst_tbl := dbTable_update (chip_inst_tbl ?d) i (\<lambda>x. x\<lparr>ci_origin := origin\<rparr>)\<rparr>"
    by (simp add: db'_def dbChipInst_setLoc_def Let_def)
  note b = tbl.assign [OF hier_ok_inv(3) [OF d(1)] d(2), of "\<lambda>x. x\<lparr>ci_origin := origin\<rparr>"]
  have "hier_ok db'" unfolding eq by (rule hier_ok_assign_inst [OF d]) simp_all
  moreover have "dbChipInst_getLoc db' i = loc" unfolding db'_def
    by (rule setLoc_getLoc [OF hier_ok_inv(3) [OF d(1)] d(2)])
  moreover have "dbTable_getPtr (chip_inst_tbl db') = (dbTable_getPtr (chip_inst_tbl db))
      (i \<mapsto> y\<lparr>ci_orient := orient, ci_origin := origin\<rparr>)"
    using a b unfolding eq by (simp add: dbChipInst_setOrient_def)
  ultimately show ?thesis by blast
qed

lemma setLoc_frame:
  "db_chip (dbChipInst_setLoc (dbChipInst_setOrient db i o') i loc) = db_chip db"
  "db_dbu_per_micron (dbChipInst_setLoc (dbChipInst_setOrient db i o') i loc) = db_dbu_per_micron db"
  "db_chip_hash (dbChipInst_setLoc (dbChipInst_setOrient db i o') i loc) = db_chip_hash db"
  "chip_conn_tbl (dbChipInst_setLoc (dbChipInst_setOrient db i o') i loc) = chip_conn_tbl db"
  "chip_tbl (dbChipInst_setLoc (dbChipInst_setOrient db i o') i loc) = chip_tbl db"
  by (simp_all add: dbChipInst_setLoc_def dbChipInst_setOrient_def Let_def)

lemma to_dbu_cong: "db_dbu_per_micron db' = db_dbu_per_micron db \<Longrightarrow> to_dbu fl db' x = to_dbu fl db x"
  by (simp add: to_dbu_def)

lemma createChipInst_correct:
  assumes ok: "top_ok db" and ci: "placeable db ci" and new: "dbChip_findChipInst db (db_chip db) (cin_name ci) = 0"
  shows "\<exists>db' i. createChipInst fl db ci = (db', Inr i) \<and> top_ok db' \<and> inst_added db (cin_name ci) db' i \<and>
    described fl db' ci i"
proof -
  let ?p = "db_chip db" and ?m = "dbDatabase_findChip db (cin_reference ci)" and ?n = "cin_name ci"
  have h: "hier_ok db" using ok by (simp add: top_ok_def)
  from ok obtain x where x: "dbTable_getPtr (chip_tbl db) ?p = Some x" "chip_type x = HIER" by (auto simp: top_ok_def)
  from ci have m: "?m \<noteq> 0" "?p \<noteq> ?m" by (auto simp: placeable_def)
  from ci obtain o' where o': "parse_orient (cin_orient ci) = Some o'" by (auto simp: placeable_def)
  have md: "?m \<in> dom (dbTable_getPtr (chip_tbl db))"
    using m(1) hier_ok_hash [OF h] by (auto simp: dbDatabase_findChip_def split: option.splits)
  from dbChipInst_create_correct [OF hier_ok_inv(1,2) [OF h] x(1) m(1) x(2) m(2) new] obtain d i where
    d: "dbChipInst_create db ?p ?m ?n = (d, Inr i)" "insts_inv d" "tbl_inv (chip_tbl d)" "inst_created db ?p ?m ?n d i"
    by blast
  have hd: "hier_ok d" by (rule hier_ok_created [OF h d(2,3) x(1) md d(4)])
  note c = d(4) [unfolded inst_created_def Let_def]
  have "i \<in> dom (dbTable_getPtr (chip_inst_tbl d))" "?p \<in> dom (dbTable_getPtr (chip_tbl d))" using c x(1) by auto
  then have y: "dbTable_getPtr (chip_inst_tbl d) i = Some (inst_of d i)"
    and xp: "dbTable_getPtr (chip_tbl d) ?p = Some (chip_of d ?p)" by (auto simp: deref_def)
  let ?loc = "Point3D (to_dbu fl d (co_x (cin_loc ci))) (to_dbu fl d (co_y (cin_loc ci))) (to_dbu fl d (cin_z ci))"
  let ?e = "dbChipInst_setLoc (dbChipInst_setOrient d i o') i ?loc"
  from setOrient_setLoc [OF hd y, of o' ?loc] obtain origin where
    e: "hier_ok ?e" "dbChipInst_getLoc ?e i = ?loc"
      "dbTable_getPtr (chip_inst_tbl ?e) = (dbTable_getPtr (chip_inst_tbl d))
        (i \<mapsto> (inst_of d i)\<lparr>ci_orient := o', ci_origin := origin\<rparr>)" by blast
  have run: "createChipInst fl db ci = (?e, Inr i)"
    using m(1) o' by (simp add: createChipInst_def d(1) Let_def dbChipInst_setOrient_def to_dbu_def)
  have xe: "chip_of d ?p = x\<lparr>chip_insts := i # chip_insts x, chip_insts_map := (chip_insts_map x)(?n \<mapsto> i)\<rparr>"
    using c x(1) by (simp add: deref_def)
  have "top_ok ?e" using e(1) xp xe x(2) c by (simp add: top_ok_def setLoc_frame)
  moreover have "inst_added db ?n ?e i"
    unfolding inst_added_def setLoc_frame e(3) using c x(1) xp xe by (auto split: if_splits)
  moreover have "described fl ?e ci i"
    using e(2) c o' unfolding described_def setLoc_frame e(3)
    by (simp add: to_dbu_def setLoc_frame dbDatabase_findChip_def)
  ultimately show ?thesis using run by blast
qed

text \<open>Later instances leave an instance where it is: its master is not the top chip.\<close>

lemma described_later:
  assumes d: "described fl db ci i" and a: "inst_added db n db' j" and m: "placeable db ci"
  shows "described fl db' ci i"
proof -
  from d obtain y where y: "dbTable_getPtr (chip_inst_tbl db) i = Some y"
    "ci_master y = dbDatabase_findChip db (cin_reference ci)" by (auto simp: described_def)
  have y': "dbTable_getPtr (chip_inst_tbl db') i = Some y" using a y by (simp add: inst_added_def)
  have "ci_master y \<noteq> db_chip db" using m y(2) by (simp add: placeable_def)
  then have "dbTable_getPtr (chip_tbl db') (ci_master y) = dbTable_getPtr (chip_tbl db) (ci_master y)"
    using a by (simp add: inst_added_def)
  then have "dbChipInst_getLoc db' i = dbChipInst_getLoc db i"
    using y y' by (simp add: dbChipInst_getLoc_def dbChipInst_getCuboid_def dbChipInst_getMasterChip_def deref_def)
  moreover have "db_chip db' = db_chip db" "db_dbu_per_micron db' = db_dbu_per_micron db"
    "db_chip_hash db' = db_chip_hash db" using a by (simp_all add: inst_added_def)
  ultimately show ?thesis using d y y' by (simp add: described_def to_dbu_def dbDatabase_findChip_def)
qed

lemma placeable_later: "inst_added db n db' j \<Longrightarrow> placeable db' ci = placeable db ci"
  by (simp add: placeable_def inst_added_def dbDatabase_findChip_def)

lemma findChipInst_added:
  "inst_added db n db' j \<Longrightarrow> dbChip_findChipInst db' (db_chip db') n' =
     (if n' = n then j else dbChip_findChipInst db (db_chip db) n')"
  by (auto simp: inst_added_def dbChip_findChipInst_def deref_def)

lemma chip_insts_added: "inst_added db n db' j \<Longrightarrow>
    chip_insts (chip_of db' (db_chip db')) = j # chip_insts (chip_of db (db_chip db))"
  by (auto simp: inst_added_def deref_def)

lemma createChipInsts_correct:
  assumes "top_ok db" and "\<forall>ci \<in> set insts. placeable db ci" and "distinct (map cin_name insts)"
    and "\<forall>ci \<in> set insts. dbChip_findChipInst db (db_chip db) (cin_name ci) = 0"
  shows "\<exists>db' is. for_each (createChipInst fl) db insts = (db', Inr is) \<and> top_ok db' \<and>
    list_all2 (described fl db') insts is \<and> db_chip db' = db_chip db \<and> db_chip_hash db' = db_chip_hash db \<and>
    chip_conn_tbl db' = chip_conn_tbl db \<and> db_dbu_per_micron db' = db_dbu_per_micron db \<and>
    chip_insts (chip_of db' (db_chip db')) = rev is @ chip_insts (chip_of db (db_chip db)) \<and>
    (\<forall>ci i. placeable db ci \<longrightarrow> described fl db ci i \<longrightarrow> described fl db' ci i)"
  using assms
proof (induction insts arbitrary: db)
  case Nil
  then show ?case by simp
next
  case (Cons ci insts)
  then obtain d i where d: "createChipInst fl db ci = (d, Inr i)" "top_ok d" "inst_added db (cin_name ci) d i"
    "described fl d ci i"
    using createChipInst_correct [of db ci fl] by auto
  have "\<forall>ci \<in> set insts. placeable d ci" using Cons.prems(2) placeable_later [OF d(3)] by simp
  moreover have "\<forall>ci \<in> set insts. dbChip_findChipInst d (db_chip d) (cin_name ci) = 0"
  proof
    fix c
    assume "c \<in> set insts"
    then have "cin_name c \<noteq> cin_name ci" "dbChip_findChipInst db (db_chip db) (cin_name c) = 0"
      using Cons.prems(3,4) by (auto simp: image_iff)
    then show "dbChip_findChipInst d (db_chip d) (cin_name c) = 0" by (simp add: findChipInst_added [OF d(3)])
  qed
  ultimately obtain db' ids where r: "for_each (createChipInst fl) d insts = (db', Inr ids)" "top_ok db'"
    "list_all2 (described fl db') insts ids" "db_chip db' = db_chip d"
    "db_chip_hash db' = db_chip_hash d" "chip_conn_tbl db' = chip_conn_tbl d" "db_dbu_per_micron db' = db_dbu_per_micron d"
    "chip_insts (chip_of db' (db_chip db')) = rev ids @ chip_insts (chip_of d (db_chip d))"
    "\<forall>ci i. placeable d ci \<longrightarrow> described fl d ci i \<longrightarrow> described fl db' ci i"
    using Cons.IH [OF d(2)] Cons.prems(3) by fastforce
  have "described fl db' ci i" using r(9) d(4) Cons.prems(2) placeable_later [OF d(3)] by simp
  moreover have "\<forall>ci i. placeable db ci \<longrightarrow> described fl db ci i \<longrightarrow> described fl db' ci i"
    using r(9) described_later [OF _ d(3)] placeable_later [OF d(3)] by blast
  moreover have "db_chip d = db_chip db" "db_chip_hash d = db_chip_hash db" "chip_conn_tbl d = chip_conn_tbl db"
    "db_dbu_per_micron d = db_dbu_per_micron db" using d(3) by (simp_all add: inst_added_def)
  ultimately show ?case using r d(1) chip_insts_added [OF d(3)] by simp
qed

section \<open>Paths and connections\<close>

lemma walk_path_in:
  assumes "hier_ok db" and "walk_path db c names = Inr p" and "c \<in> dom (dbTable_getPtr (chip_tbl db))"
  shows "path_in db c p \<and> length p = length names \<and> (\<forall>i \<in> set p. i \<in> dom (dbTable_getPtr (chip_inst_tbl db)))"
  using assms(2,3)
proof (induction names arbitrary: c p)
  case (Cons n names)
  let ?i = "dbChip_findChipInst db c n"
  from Cons.prems(1) obtain q where q: "?i \<noteq> 0" "walk_path db (ci_master (inst_of db ?i)) names = Inr q" "p = ?i # q"
    by (auto simp: Let_def split: if_splits sum.splits)
  from Cons.prems(2) obtain x where "dbTable_getPtr (chip_tbl db) c = Some x" by blast
  from findChipInst_named [OF assms(1) this q(1)] obtain y where
    y: "dbTable_getPtr (chip_inst_tbl db) ?i = Some y" "ci_parent y = c" by blast
  then have "ci_master (inst_of db ?i) \<in> dom (dbTable_getPtr (chip_tbl db))"
    using hier_ok_inst(1) [OF assms(1) y(1)] by (auto simp: deref_def)
  from Cons.IH [OF q(2) this] y q(3) show ?case by (auto simp: deref_def)
qed simp

lemma walk_path_error: "walk_path db c names = Inl e \<Longrightarrow> e = Throws 522"
  by (induction names arbitrary: c) (auto simp: Let_def split: if_splits sum.splits)

lemma resolvePath_error: "resolvePath db path = Inl e \<Longrightarrow> e \<in> {Throws 522, Throws 523, Throws 524}"
  by (auto simp: resolvePath_def Let_def dest: walk_path_error split: if_splits option.splits sum.splits)

lemma resolvePath_none: "resolvePath db path = Inr (0, p) \<Longrightarrow> p = []"
  by (auto simp: resolvePath_def Let_def split: if_splits option.splits sum.splits)

text \<open>A path that misspells \<open>.regions.\<close> is no error: it denotes no region, as the ground does.\<close>

lemma resolvePath_misspelt:
  "splitPath path \<noteq> [] \<Longrightarrow> str_find ''.regions.'' (last (splitPath path)) = None \<Longrightarrow> resolvePath db path = Inr (0, [])"
  by (simp add: resolvePath_def)

lemma resolvePath_region:
  assumes ok: "hier_ok db" and "resolvePath db path = Inr (r, p)" and "r \<noteq> 0"
    and c: "db_chip db \<in> dom (dbTable_getPtr (chip_tbl db))"
  shows "p \<noteq> [] \<and> path_in db (db_chip db) p \<and> cri_parent (region_inst_of db r) = last p"
proof -
  from assms(2,3) obtain names region_name where w: "walk_path db (db_chip db) names = Inr p" "names \<noteq> []"
    "r = dbChipInst_findChipRegionInst_name db (last p) region_name"
    by (auto simp: resolvePath_def Let_def split: if_splits option.splits sum.splits)
  from walk_path_in [OF ok w(1) c] w(2) have p: "path_in db (db_chip db) p" "p \<noteq> []"
    "\<forall>i \<in> set p. i \<in> dom (dbTable_getPtr (chip_inst_tbl db))" by auto
  from p(2,3) obtain y where y: "dbTable_getPtr (chip_inst_tbl db) (last p) = Some y" by (meson domD last_in_set)
  from w(3) assms(3) obtain g where "ci_region_map y g = Some r"
    using y by (auto simp: dbChipInst_findChipRegionInst_name_def dbChipInst_findChipRegionInst_def deref_def
        split: if_splits option.splits)
  from hier_ok_inst(2) [OF ok y this] p show ?thesis by (auto simp: deref_def)
qed

text \<open>
  With the paths the reader resolved, creating the connection cannot fail on a path or a parent: the only
  errors left are a name that is not found, an empty path, and a top that is no region.
\<close>

definition conn_added :: "(rat \<Rightarrow> rat) \<Rightarrow> dbDatabase \<Rightarrow> Connection \<Rightarrow> dbDatabase \<Rightarrow> nat \<Rightarrow> bool" where
  "conn_added fl db con db' k \<longleftrightarrow>
     (\<exists>tr tp br bp. resolvePath db (con_top con) = Inr (tr, tp) \<and> tr \<noteq> 0 \<and> resolvePath db (con_bot con) = Inr (br, bp) \<and>
        dbTable_getPtr (chip_conn_tbl db) k = None \<and>
        dbTable_getPtr (chip_conn_tbl db') k =
          Some \<lparr>cc_name = con_name con, cc_thickness = to_dbu fl db (con_thickness con), cc_chip = db_chip db,
            cc_top_region = tr, cc_top_path = tp, cc_bottom_region = br, cc_bottom_path = bp\<rparr>) \<and>
     chip_conns (chip_of db' (db_chip db)) = k # chip_conns (chip_of db (db_chip db))"

lemma hier_ok_conns:
  assumes "hier_ok db" and "tbl_inv ct" and "dbTable_getPtr ct = (dbTable_getPtr (chip_tbl db))(c \<mapsto> x')"
    and "dbTable_getPtr (chip_tbl db) c = Some x" and "chip_insts_map x' = chip_insts_map x"
  shows "hier_ok (db\<lparr>chip_conn_tbl := kt, chip_tbl := ct\<rparr>)"
proof -
  have "\<exists>y. dbTable_getPtr (chip_inst_tbl db) i = Some y \<and> ci_parent y = q \<and> ci_name y = n"
    if "dbTable_getPtr ct q = Some z" "chip_insts_map z n = Some i" for q z n i
    using hier_ok_chip [OF assms(1), of q _ n i] that assms(3-5) by (cases "q = c") auto
  moreover have "dom (dbTable_getPtr ct) = dom (dbTable_getPtr (chip_tbl db))" using assms(3,4) by auto
  ultimately show ?thesis using assms(1,2) unfolding hier_ok_def insts_inv_def by simp
qed

text \<open>What no step after the instances touches.\<close>

definition insts_same :: "dbDatabase \<Rightarrow> dbDatabase \<Rightarrow> bool" where
  "insts_same db db' \<longleftrightarrow> chip_inst_tbl db' = chip_inst_tbl db \<and> db_chip db' = db_chip db \<and>
     db_dbu_per_micron db' = db_dbu_per_micron db \<and> db_chip_hash db' = db_chip_hash db \<and>
     chip_insts (chip_of db' (db_chip db)) = chip_insts (chip_of db (db_chip db)) \<and>
     (\<forall>c. c \<noteq> db_chip db \<longrightarrow> dbTable_getPtr (chip_tbl db') c = dbTable_getPtr (chip_tbl db) c)"

lemma insts_same_refl [simp]: "insts_same db db"
  by (simp add: insts_same_def)

lemma insts_same_trans: "insts_same a b \<Longrightarrow> insts_same b c \<Longrightarrow> insts_same a c"
  by (simp add: insts_same_def)

lemma createConnection_created:
  assumes ok: "top_ok db" and k: "tbl_inv (chip_conn_tbl db)"
    and t: "resolvePath db (con_top con) = Inr (tr, tp)" "tr \<noteq> 0" and b: "resolvePath db (con_bot con) = Inr (br, bp)"
  shows "\<exists>db' k. createConnection fl db con = (db', Inr k) \<and> conn_added fl db con db' k \<and>
    top_ok db' \<and> tbl_inv (chip_conn_tbl db') \<and> insts_same db db'"
proof -
  have h: "hier_ok db" using ok by (simp add: top_ok_def)
  from ok obtain x where x: "dbTable_getPtr (chip_tbl db) (db_chip db) = Some x" "chip_type x = HIER" by (auto simp: top_ok_def)
  have c: "db_chip db \<in> dom (dbTable_getPtr (chip_tbl db))" using x by blast
  note rt = resolvePath_region [OF h t c]
  have rb: "br \<noteq> 0 \<longrightarrow> bp \<noteq> [] \<and> path_in db (db_chip db) bp \<and> cri_parent (region_inst_of db br) = last bp"
    using resolvePath_region [OF h b _ c] by blast
  from rt rb dbChipConn_create_correct [OF k hier_ok_inv(2) [OF h] x(1) t(2), of tp br bp "con_name con"]
  obtain d k v where d: "dbTable_getPtr (chip_conn_tbl db) k = None" "dbTable_getPtr (chip_conn_tbl d) k = Some v"
    "dbChipConn_create db (con_name con) (db_chip db) tp tr bp br = (d, Inr k)"
    "v = \<lparr>cc_name = con_name con, cc_thickness = 0, cc_chip = db_chip db, cc_top_region = tr, cc_top_path = tp,
       cc_bottom_region = br, cc_bottom_path = (if br \<noteq> 0 then bp else [])\<rparr>"
    "chip_conns (chip_of d (db_chip db)) = k # chip_conns x" "tbl_inv (chip_conn_tbl d)" "tbl_inv (chip_tbl d)"
    "dbTable_getPtr (chip_tbl d) = (dbTable_getPtr (chip_tbl db))(db_chip db \<mapsto> x\<lparr>chip_conns := k # chip_conns x\<rparr>)"
    "d = db\<lparr>chip_conn_tbl := chip_conn_tbl d, chip_tbl := chip_tbl d\<rparr>" by auto
  have bp: "(if br \<noteq> 0 then bp else []) = bp" using resolvePath_none [of db "con_bot con" bp] b by auto
  have "hier_ok d" using hier_ok_conns [OF h d(7,8) x(1), where kt = "chip_conn_tbl d"] d(9) by simp
  have dbu: "db_dbu_per_micron d = db_dbu_per_micron db" "db_chip d = db_chip db" by (subst d(9), simp)+
  let ?f = "\<lambda>x. x\<lparr>cc_thickness := to_dbu fl d (con_thickness con)\<rparr>"
  let ?e = "dbChipConn_setThickness d k (to_dbu fl d (con_thickness con))"
  note a = tbl.assign [OF d(6,2), of ?f]
  have run: "createConnection fl db con = (?e, Inr k)" by (simp add: createConnection_def t b d(3))
  have "dbTable_getPtr (chip_conn_tbl ?e) k = Some (v\<lparr>cc_thickness := to_dbu fl db (con_thickness con)\<rparr>)"
    using a dbu by (simp add: dbChipConn_setThickness_def to_dbu_def)
  then have "conn_added fl db con ?e k"
    using t b d(1,4,5) bp x(1) by (simp add: conn_added_def dbChipConn_setThickness_def deref_def)
  moreover have "hier_ok ?e"
    using \<open>hier_ok d\<close> unfolding hier_ok_def insts_inv_def dbChipConn_setThickness_def by simp
  then have "top_ok ?e" using d(8) x(2) dbu by (simp add: top_ok_def dbChipConn_setThickness_def)
  moreover have "tbl_inv (chip_conn_tbl ?e)" using a by (simp add: dbChipConn_setThickness_def)
  moreover have "insts_same db d" by (subst d(9)) (simp add: insts_same_def d(8) x(1) deref_def)
  then have "insts_same db ?e" by (simp add: insts_same_def dbChipConn_setThickness_def)
  ultimately show ?thesis using run by blast
qed

lemma createConnection_error:
  assumes ok: "top_ok db" and k: "tbl_inv (chip_conn_tbl db)" and e: "createConnection fl db con = (db', Inl e)"
  shows "e \<in> {Throws 511, Throws 522, Throws 523, Throws 524} \<and> db' = db"
proof (cases "resolvePath db (con_top con)")
  case (Inl e')
  then show ?thesis using e resolvePath_error [OF Inl] by (auto simp: createConnection_def)
next
  case top': (Inr t)
  obtain tr tp where t: "t = (tr, tp)" by fastforce
  show ?thesis
  proof (cases "resolvePath db (con_bot con)")
    case (Inl e')
    then show ?thesis using e top' t resolvePath_error [OF Inl] by (auto simp: createConnection_def)
  next
    case (Inr b)
    obtain br bp where b: "b = (br, bp)" by fastforce
    show ?thesis
    proof (cases "tr = 0")
      case True
      have "db_chip db \<noteq> 0"
        using ok tbl.null [of "chip_tbl db"] hier_ok_inv(2) unfolding top_ok_def by (metis option.distinct(1))
      then have "dbChipConn_create db (con_name con) (db_chip db) tp tr bp br = (db, Inl (Throws 511))"
        using True by (simp add: dbChipConn_create_def)
      then show ?thesis using e top' t Inr b by (simp add: createConnection_def)
    next
      case False
      then show ?thesis using createConnection_created [OF ok k, of con tr tp br bp fl] top' t Inr b e by auto
    qed
  qed
qed

lemma createConnections_result:
  assumes "top_ok db" and "tbl_inv (chip_conn_tbl db)" and "for_each (createConnection fl) db cons = (db', r)"
  shows "insts_same db db' \<and> top_ok db' \<and> tbl_inv (chip_conn_tbl db') \<and>
    (\<forall>e. r = Inl e \<longrightarrow> e \<in> {Throws 511, Throws 522, Throws 523, Throws 524})"
  using assms
proof (induction cons arbitrary: db r)
  case (Cons con cons)
  obtain d res where d: "createConnection fl db con = (d, res)" by fastforce
  show ?case
  proof (cases res)
    case (Inl e)
    then show ?thesis using createConnection_error [OF Cons.prems(1,2), of fl con d e] d Cons.prems by auto
  next
    case (Inr k)
    then have run: "createConnection fl db con = (d, Inr k)" using d by simp
    then obtain tr tp br bp where "resolvePath db (con_top con) = Inr (tr, tp)" "resolvePath db (con_bot con) = Inr (br, bp)"
      by (auto simp: createConnection_def split: sum.splits prod.splits)
    moreover from this run have "tr \<noteq> 0"
      by (auto simp: createConnection_def dbChipConn_create_def split: if_splits)
    ultimately have "top_ok d" "tbl_inv (chip_conn_tbl d)" "insts_same db d"
      using createConnection_created [OF Cons.prems(1,2), of con tr tp br bp fl] run by auto
    moreover obtain r' where "for_each (createConnection fl) d cons = (db', r')" "\<forall>e. r = Inl e \<longrightarrow> r' = Inl e"
      using Cons.prems(3) run by (auto split: prod.splits sum.splits)
    ultimately show ?thesis using Cons.IH [of d r'] insts_same_trans by blast
  qed
qed simp

section \<open>The size of a design\<close>

lemma fold_merge_bounds:
  "foldl (\<lambda>c i. Cuboid_merge c (f i)) c is =
     \<lparr>cub_xlo = fold (\<lambda>i. min (cub_xlo (f i))) is (cub_xlo c), cub_ylo = fold (\<lambda>i. min (cub_ylo (f i))) is (cub_ylo c),
      cub_zlo = fold (\<lambda>i. min (cub_zlo (f i))) is (cub_zlo c), cub_xhi = fold (\<lambda>i. max (cub_xhi (f i))) is (cub_xhi c),
      cub_yhi = fold (\<lambda>i. max (cub_yhi (f i))) is (cub_yhi c), cub_zhi = fold (\<lambda>i. max (cub_zhi (f i))) is (cub_zhi c)\<rparr>"
  by (induction "is" arbitrary: c) (simp_all add: Cuboid_merge_def min.commute max.commute)

lemma fold_min: "fold (\<lambda>i. min (f i)) is (b :: int) = Min (insert b (f ` set is))"
proof (induction "is" arbitrary: b)
  case (Cons i "is")
  then show ?case by (cases "is = []") (simp_all add: ac_simps)
qed simp

lemma fold_max: "fold (\<lambda>i. max (f i)) is (b :: int) = Max (insert b (f ` set is))"
proof (induction "is" arbitrary: b)
  case (Cons i "is")
  then show ?case by (cases "is = []") (simp_all add: ac_simps)
qed simp

definition Cuboid_fits :: "Cuboid \<Rightarrow> bool" where
  "Cuboid_fits c \<longleftrightarrow> fits_int32 (cub_xlo c) \<and> fits_int32 (cub_ylo c) \<and> fits_int32 (cub_zlo c) \<and>
     fits_int32 (cub_xhi c) \<and> fits_int32 (cub_yhi c) \<and> fits_int32 (cub_zhi c)"

lemma fold_minmax_ints:
  assumes "is \<noteq> []" and "\<forall>i \<in> set is. fits_int32 (f i)"
  shows "fold (\<lambda>i. min (f i)) is INT_MAX = Min (f ` set is)" and "fold (\<lambda>i. max (f i)) is INT_MIN = Max (f ` set is)"
proof -
  from assms(1) obtain i where i: "i \<in> set is" by (cases "is") auto
  have "Min (f ` set is) \<le> f i" "f i \<le> Max (f ` set is)" using i by simp_all
  moreover have "INT_MIN \<le> f i" "f i \<le> INT_MAX" using assms(2) i by (simp_all add: fits_int32_def)
  ultimately have "Min (f ` set is) \<le> INT_MAX" "INT_MIN \<le> Max (f ` set is)" by linarith+
  then show "fold (\<lambda>i. min (f i)) is INT_MAX = Min (f ` set is)" and "fold (\<lambda>i. max (f i)) is INT_MIN = Max (f ` set is)"
    using assms(1) by (simp_all add: fold_min fold_max)
qed

text \<open>The distance between the lowest and the highest end of the instances along an axis.\<close>

definition extent :: "(Cuboid \<Rightarrow> int) \<Rightarrow> (Cuboid \<Rightarrow> int) \<Rightarrow> Cuboid set \<Rightarrow> int" where
  "extent lo hi S = Max (hi ` S) - Min (lo ` S)"

lemma calculateSize_fields:
  assumes inv: "tbl_inv (chip_tbl db)" and c: "dbTable_getPtr (chip_tbl db) c = Some x"
  defines "box \<equiv> foldl (\<lambda>c i. Cuboid_merge c (dbChipInst_getCuboid db i)) Cuboid_mergeInit (chip_insts x)"
  shows "calculateSize db c = db\<lparr>chip_tbl := chip_tbl (calculateSize db c)\<rparr>"
    and "tbl_inv (chip_tbl (calculateSize db c))"
    and "dbTable_getPtr (chip_tbl (calculateSize db c)) = (dbTable_getPtr (chip_tbl db))
      (c \<mapsto> x\<lparr>chip_width := Cuboid_dx box, chip_height := Cuboid_dy box, chip_thickness := Cuboid_dz box\<rparr>)"
proof -
  have x: "chip_of db c = x" by (simp add: deref_def c)
  let ?w = "\<lambda>c. c\<lparr>chip_width := Cuboid_dx box\<rparr>" and ?h = "\<lambda>c. c\<lparr>chip_height := Cuboid_dy box\<rparr>"
    and ?t = "\<lambda>c. c\<lparr>chip_thickness := Cuboid_dz box\<rparr>"
  let ?t1 = "dbTable_update (chip_tbl db) c ?w"
  let ?t2 = "dbTable_update ?t1 c ?h"
  note a = tbl.assign [OF inv c, of ?w]
  have t1: "tbl_inv ?t1" "dbTable_getPtr ?t1 c = Some (?w x)" using a by simp_all
  note b = tbl.assign [OF t1, of ?h]
  have t2: "tbl_inv ?t2" "dbTable_getPtr ?t2 c = Some (?h (?w x))" using b by simp_all
  note d = tbl.assign [OF t2, of ?t]
  have run: "calculateSize db c = db\<lparr>chip_tbl := dbTable_update ?t2 c ?t\<rparr>"
    by (simp add: calculateSize_def Let_def x box_def dbChip_setWidth_def dbChip_setHeight_def dbChip_setThickness_def)
  show "calculateSize db c = db\<lparr>chip_tbl := chip_tbl (calculateSize db c)\<rparr>" by (simp add: run)
  show "tbl_inv (chip_tbl (calculateSize db c))" using d by (simp add: run)
  show "dbTable_getPtr (chip_tbl (calculateSize db c)) = (dbTable_getPtr (chip_tbl db))
      (c \<mapsto> x\<lparr>chip_width := Cuboid_dx box, chip_height := Cuboid_dy box, chip_thickness := Cuboid_dz box\<rparr>)"
    using a b d by (simp add: run)
qed

lemma calculateSize_extents:
  assumes inv: "tbl_inv (chip_tbl db)" and c: "dbTable_getPtr (chip_tbl db) c = Some x"
    and ne: "chip_insts x \<noteq> []" and fits: "\<forall>i \<in> set (chip_insts x). Cuboid_fits (dbChipInst_getCuboid db i)"
  defines "S \<equiv> dbChipInst_getCuboid db ` set (chip_insts x)"
  shows "chip_of (calculateSize db c) c = x\<lparr>chip_width := extent cub_xlo cub_xhi S,
    chip_height := extent cub_ylo cub_yhi S, chip_thickness := extent cub_zlo cub_zhi S\<rparr>"
proof -
  let ?f = "dbChipInst_getCuboid db"
  have f: "fits_int32 (cub_xlo (?f i))" "fits_int32 (cub_ylo (?f i))" "fits_int32 (cub_zlo (?f i))"
    "fits_int32 (cub_xhi (?f i))" "fits_int32 (cub_yhi (?f i))" "fits_int32 (cub_zhi (?f i))"
    if "i \<in> set (chip_insts x)" for i using fits that by (auto simp: Cuboid_fits_def)
  show ?thesis unfolding deref_def calculateSize_fields(3) [OF inv c] fold_merge_bounds Cuboid_mergeInit_def
    by (simp add: Cuboid_dx_def Cuboid_dy_def Cuboid_dz_def fold_minmax_ints ne f extent_def S_def image_image)
qed

text \<open>A design without instances: the extents of the empty box do not fit an \<^verbatim>\<open>int\<close>.\<close>

lemma calculateSize_empty:
  assumes "tbl_inv (chip_tbl db)" and "dbTable_getPtr (chip_tbl db) c = Some x" and "chip_insts x = []"
  shows "\<not> fits_int32 (chip_width (chip_of (calculateSize db c) c))"
  using assms(3) unfolding deref_def calculateSize_fields(3) [OF assms(1,2)]
  by (simp add: Cuboid_dx_def Cuboid_mergeInit_def fits_int32_iff INT_MIN_def INT_MAX_def)

section \<open>Reading a design\<close>

lemma hier_ok_new_chip:
  assumes ok: "hier_ok db" and t: "tbl_inv t" "dbTable_getPtr t = (dbTable_getPtr (chip_tbl db))(c \<mapsto> x)"
    and new: "dbTable_getPtr (chip_tbl db) c = None" and x: "chip_insts_map x = Map.empty"
  shows "hier_ok (db\<lparr>db_chip_hash := (db_chip_hash db)(n \<mapsto> c), chip_tbl := t, db_chip := c'\<rparr>)"
proof -
  have "\<exists>y. dbTable_getPtr (chip_inst_tbl db) i = Some y \<and> ci_parent y = q \<and> ci_name y = m"
    if "dbTable_getPtr t q = Some z" "chip_insts_map z m = Some i" for q z m i
    using hier_ok_chip [OF ok, of q z m i] that t(2) x by (cases "q = c") auto
  moreover have "dom (dbTable_getPtr t) = insert c (dom (dbTable_getPtr (chip_tbl db)))" using t(2) by auto
  ultimately show ?thesis using ok t(1) unfolding hier_ok_def insts_inv_def by auto
qed

lemma createDesignTopChiplet_correct:
  assumes ok: "hier_ok db" and new: "db_chip_hash db (c_str (dd_name dd)) = None"
  shows "\<exists>db' c x. createDesignTopChiplet db dd = (db', Inr c) \<and> top_ok db' \<and> db_chip db' = c \<and>
    dbTable_getPtr (chip_tbl db) c = None \<and> dbTable_getPtr (chip_tbl db') = (dbTable_getPtr (chip_tbl db))(c \<mapsto> x) \<and>
    chip_insts x = [] \<and> chip_insts_map x = Map.empty \<and> chip_name x = c_str (dd_name dd) \<and>
    db_chip_hash db' = (db_chip_hash db)(c_str (dd_name dd) \<mapsto> c) \<and> chip_conn_tbl db' = chip_conn_tbl db \<and>
    db_dbu_per_micron db' = db_dbu_per_micron db"
proof -
  let ?n = "c_str (dd_name dd)"
  obtain c tbl where cr: "dbTable_create (chip_tbl db) mk_dbChip = (c, tbl)" by fastforce
  note g = create_grows [OF hier_ok_inv(2) [OF ok] cr]
  have t: "tbl_inv tbl" using g(1) by (simp add: grows_def)
  let ?f = "\<lambda>x. x\<lparr>chip_name := ?n, chip_type := HIER\<rparr>"
  let ?x = "?f mk_dbChip" and ?t = "dbTable_update tbl c ?f"
  note a = tbl.assign [OF t g(3), of ?f]
  have t1: "tbl_inv ?t" "dbTable_getPtr ?t c = Some ?x" using a by simp_all
  let ?d = "db\<lparr>chip_tbl := ?t, db_chip := (if db_chip db = 0 then c else db_chip db),
     db_chip_hash := (db_chip_hash db)(?n \<mapsto> c)\<rparr>"
  have d: "dbChip_create db 0 (dd_name dd) HIER = (?d, Inr c)" by (simp add: dbChip_create_def new cr Let_def)
  let ?v = "c_str (dd_verilog_file dd)"
  let ?p = "\<lambda>x. x\<lparr>chip_string_props := (chip_string_props x)(''verilog_file'' \<mapsto>
     (case chip_string_props x ''verilog_file'' of Some old \<Rightarrow> old @ '' '' @ ?v | None \<Rightarrow> ?v))\<rparr>"
  note b = tbl.assign [OF t1, of ?p]
  let ?has = "dd_verilog_file dd \<noteq> [] \<and> chip_string_props (chip_of ?d c) ''verilog_file'' = None"
  define y where "y = (if ?has then ?p ?x else ?x)"
  define t' where "t' = (if ?has then dbTable_update ?t c ?p else ?t)"
  have run: "createDesignTopChiplet db dd = (?d\<lparr>chip_tbl := t', db_chip := c\<rparr>, Inr c)"
    by (simp add: createDesignTopChiplet_def d Let_def dbStringProperty_create_def dbDatabase_setTopChip_def t'_def)
  have t': "tbl_inv t'" "dbTable_getPtr t' = (dbTable_getPtr (chip_tbl db))(c \<mapsto> y)"
    using a b g(5) by (simp_all add: t'_def y_def)
  have y: "chip_insts y = []" "chip_insts_map y = Map.empty" "chip_name y = ?n" "chip_type y = HIER"
    by (simp_all add: y_def mk_dbChip_def)
  have "top_ok (?d\<lparr>chip_tbl := t', db_chip := c\<rparr>)"
    using hier_ok_new_chip [where c' = c and n = ?n, OF ok t' g(2) y(2)] t'(2) y(4) by (simp add: top_ok_def)
  with run show ?thesis using t' y g(2) by (auto intro!: exI [of _ y])
qed

lemma insts_same_described: "insts_same db db' \<Longrightarrow> placeable db ci \<Longrightarrow> described fl db ci i \<Longrightarrow> described fl db' ci i"
  by (auto simp: insts_same_def described_def placeable_def to_dbu_def dbDatabase_findChip_def dbChipInst_getLoc_def
      dbChipInst_getCuboid_def dbChipInst_getMasterChip_def deref_def)

lemma insts_same_placeable: "insts_same db db' \<Longrightarrow> placeable db' ci = placeable db ci"
  by (simp add: insts_same_def placeable_def dbDatabase_findChip_def)

lemma insts_same_cuboid:
  assumes "insts_same db db'" and "ci_master (inst_of db i) \<noteq> db_chip db"
  shows "dbChipInst_getCuboid db' i = dbChipInst_getCuboid db i"
  using assms by (simp add: insts_same_def dbChipInst_getCuboid_def dbChipInst_getMasterChip_def deref_def)

lemma calculateSize_frame:
  "chip_inst_tbl (calculateSize db c) = chip_inst_tbl db" "db_chip (calculateSize db c) = db_chip db"
  "db_dbu_per_micron (calculateSize db c) = db_dbu_per_micron db" "db_chip_hash (calculateSize db c) = db_chip_hash db"
  by (simp_all add: calculateSize_def Let_def dbChip_setWidth_def dbChip_setHeight_def dbChip_setThickness_def)

lemma calculateSize_insts_same:
  assumes "tbl_inv (chip_tbl db)" and "dbTable_getPtr (chip_tbl db) (db_chip db) = Some x"
  shows "insts_same db (calculateSize db (db_chip db))"
proof -
  note f = calculateSize_fields [OF assms]
  have "dbTable_getPtr (chip_tbl (calculateSize db (db_chip db))) c = dbTable_getPtr (chip_tbl db) c" if "c \<noteq> db_chip db" for c
    unfolding f(3) using that by simp
  moreover have "chip_insts (chip_of (calculateSize db (db_chip db)) (db_chip db)) = chip_insts (chip_of db (db_chip db))"
    unfolding deref_def f(3) assms(2) by simp
  ultimately show ?thesis by (simp add: insts_same_def calculateSize_frame)
qed

text \<open>
  A design whose instances refer to chips that were read, with orientations the reader knows and names
  that differ: every instance is placed as described, whatever becomes of the connections; and when they are
  all resolved, the size of the design is that of its instances.
\<close>

definition design_ok :: "dbDatabase \<Rightarrow> DbxData \<Rightarrow> bool" where
  "design_ok db data \<longleftrightarrow> hier_ok db \<and> tbl_inv (chip_conn_tbl db) \<and>
     db_chip_hash db (c_str (dd_name (dbx_design data))) = None \<and>
     distinct (map cin_name (dbx_chiplet_instances data)) \<and>
     (\<forall>ci \<in> set (dbx_chiplet_instances data).
        dbDatabase_findChip db (cin_reference ci) \<noteq> 0 \<and> parse_orient (cin_orient ci) \<noteq> None)"

lemma design_placeable:
  assumes d: "design_ok db data" and ci: "ci \<in> set (dbx_chiplet_instances data)"
    and c: "dbTable_getPtr (chip_tbl db) c = None" "db_chip db' = c"
      "db_chip_hash db' = (db_chip_hash db)(c_str (dd_name (dbx_design data)) \<mapsto> c)"
  shows "placeable db' ci"
proof -
  from d ci have f: "dbDatabase_findChip db (cin_reference ci) \<noteq> 0" "parse_orient (cin_orient ci) \<noteq> None"
    by (auto simp: design_ok_def)
  then obtain m where m: "db_chip_hash db (c_str (cin_reference ci)) = Some m" "m \<noteq> 0"
    by (auto simp: dbDatabase_findChip_def split: option.splits)
  have h: "hier_ok db" using d by (simp add: design_ok_def)
  have "m \<noteq> c" using hier_ok_hash [OF h m(1)] c(1) by auto
  moreover have "c_str (cin_reference ci) \<noteq> c_str (dd_name (dbx_design data))" using m(1) d by (auto simp: design_ok_def)
  then have "db_chip_hash db' (c_str (cin_reference ci)) = Some m" using m(1) c(3) by simp
  ultimately show ?thesis using m(2) f(2) c(2) by (simp add: placeable_def dbDatabase_findChip_def)
qed

lemma readDbx_instances:
  assumes "readHeaderIncludes db (dbx_includes data) = (db1, Inr ())" and d: "design_ok db1 data"
  shows "\<exists>db2 c ids. top_ok db2 \<and> db_chip db2 = c \<and> db_dbu_per_micron db2 = db_dbu_per_micron db1 \<and> tbl_inv (chip_conn_tbl db2) \<and>
    (\<forall>ci \<in> set (dbx_chiplet_instances data). placeable db2 ci) \<and>
    list_all2 (described fl db2) (dbx_chiplet_instances data) ids \<and> chip_insts (chip_of db2 c) = rev ids \<and>
    readDbx fl readHeaderIncludes db data =
      (case for_each (createConnection fl) db2 (dbx_connections data) of
         (db', Inl e) \<Rightarrow> (db', Inl e) | (db', Inr _) \<Rightarrow> (calculateSize db' c, Inr c))"
proof -
  have h: "hier_ok db1" "db_chip_hash db1 (c_str (dd_name (dbx_design data))) = None" "tbl_inv (chip_conn_tbl db1)"
    using d by (simp_all add: design_ok_def)
  from createDesignTopChiplet_correct [OF h(1,2)] obtain t c x where
    t: "createDesignTopChiplet db1 (dbx_design data) = (t, Inr c)" "top_ok t" "db_chip t = c"
      "dbTable_getPtr (chip_tbl db1) c = None" "dbTable_getPtr (chip_tbl t) = (dbTable_getPtr (chip_tbl db1))(c \<mapsto> x)"
      "chip_insts x = []" "chip_insts_map x = Map.empty"
      "db_chip_hash t = (db_chip_hash db1)(c_str (dd_name (dbx_design data)) \<mapsto> c)" "chip_conn_tbl t = chip_conn_tbl db1"
      "db_dbu_per_micron t = db_dbu_per_micron db1" by metis
  have p: "\<forall>ci \<in> set (dbx_chiplet_instances data). placeable t ci" using design_placeable [OF d _ t(4,3,8)] by blast
  have "\<forall>ci \<in> set (dbx_chiplet_instances data). dbChip_findChipInst t (db_chip t) (cin_name ci) = 0"
    using t(3,5,7) by (simp add: dbChip_findChipInst_def deref_def)
  moreover have "distinct (map cin_name (dbx_chiplet_instances data))" using d by (simp add: design_ok_def)
  ultimately obtain db2 ids where i: "for_each (createChipInst fl) t (dbx_chiplet_instances data) = (db2, Inr ids)"
    "top_ok db2" "list_all2 (described fl db2) (dbx_chiplet_instances data) ids" "db_chip db2 = db_chip t"
    "db_chip_hash db2 = db_chip_hash t" "chip_conn_tbl db2 = chip_conn_tbl t" "db_dbu_per_micron db2 = db_dbu_per_micron t"
    "chip_insts (chip_of db2 (db_chip db2)) = rev ids @ chip_insts (chip_of t (db_chip t))"
    using createChipInsts_correct [OF t(2) p] by metis
  have "placeable db2 ci = placeable t ci" for ci using i(4,5) by (simp add: placeable_def dbDatabase_findChip_def)
  moreover have "chip_insts (chip_of t c) = []" using t(5,6) by (simp add: deref_def)
  moreover have "readDbx fl readHeaderIncludes db data =
      (case for_each (createConnection fl) db2 (dbx_connections data) of
         (db', Inl e) \<Rightarrow> (db', Inl e) | (db', Inr _) \<Rightarrow> (calculateSize db' c, Inr c))"
    using assms(1) t(1) i(1) by (simp add: readDbx_def)
  ultimately show ?thesis using i(2-4,6-8) t(3,9,10) h(3) p by (intro exI [of _ db2] exI [of _ c] exI [of _ ids]) simp
qed

lemma readDbx_correct:
  assumes "readHeaderIncludes db (dbx_includes data) = (db1, Inr ())" and "design_ok db1 data"
  shows "\<exists>db' r ids. readDbx fl readHeaderIncludes db data = (db', r) \<and> top_ok db' \<and>
    db_dbu_per_micron db' = db_dbu_per_micron db1 \<and> list_all2 (described fl db') (dbx_chiplet_instances data) ids \<and> chip_insts (chip_of db' (db_chip db')) = rev ids \<and>
    (case r of Inl e \<Rightarrow> e \<in> {Throws 511, Throws 522, Throws 523, Throws 524}
     | Inr c \<Rightarrow> c = db_chip db' \<and>
         (ids \<noteq> [] \<and> (\<forall>i \<in> set ids. Cuboid_fits (dbChipInst_getCuboid db' i)) \<longrightarrow>
          (let S = dbChipInst_getCuboid db' ` set ids; x = chip_of db' c
           in chip_width x = extent cub_xlo cub_xhi S \<and> chip_height x = extent cub_ylo cub_yhi S \<and>
              chip_thickness x = extent cub_zlo cub_zhi S)))"
proof -
  from readDbx_instances [where readHeaderIncludes = readHeaderIncludes and fl = fl, OF assms] obtain db2 c ids where
    u: "db_dbu_per_micron db2 = db_dbu_per_micron db1" and
    r: "top_ok db2" "db_chip db2 = c" "tbl_inv (chip_conn_tbl db2)"
      "\<forall>ci \<in> set (dbx_chiplet_instances data). placeable db2 ci"
      "list_all2 (described fl db2) (dbx_chiplet_instances data) ids" "chip_insts (chip_of db2 c) = rev ids"
      "readDbx fl readHeaderIncludes db data = (case for_each (createConnection fl) db2 (dbx_connections data) of
         (db', Inl e) \<Rightarrow> (db', Inl e) | (db', Inr _) \<Rightarrow> (calculateSize db' c, Inr c))" by blast
  obtain db3 res where f: "for_each (createConnection fl) db2 (dbx_connections data) = (db3, res)" by fastforce
  from createConnections_result [OF r(1,3) f] have
    s: "insts_same db2 db3" "top_ok db3" "\<forall>e. res = Inl e \<longrightarrow> e \<in> {Throws 511, Throws 522, Throws 523, Throws 524}" by auto
  have kept: "list_all2 (described fl d) (dbx_chiplet_instances data) ids \<and> chip_insts (chip_of d (db_chip d)) = rev ids \<and>
      db_dbu_per_micron d = db_dbu_per_micron db1" if "insts_same db2 d" for d
  proof (intro conjI)
    show "db_dbu_per_micron d = db_dbu_per_micron db1" using that u by (simp add: insts_same_def)
    show "list_all2 (described fl d) (dbx_chiplet_instances data) ids"
      using r(5) r(4) insts_same_described [OF that] by (auto intro: list.rel_mono_strong)
    show "chip_insts (chip_of d (db_chip d)) = rev ids" using that r(2,6) by (simp add: insts_same_def)
  qed
  show ?thesis
  proof (cases res)
    case (Inl e)
    then show ?thesis using kept [OF s(1)] s r(7) f by auto
  next
    case (Inr ks)
    let ?d = "calculateSize db3 c"
    have c: "db_chip db3 = c" using s(1) r(2) by (simp add: insts_same_def)
    from s(2) c obtain x where x: "dbTable_getPtr (chip_tbl db3) c = Some x" "chip_type x = HIER" "hier_ok db3"
      by (auto simp: top_ok_def)
    note inv = hier_ok_inv(2) [OF x(3)]
    have same: "insts_same db3 ?d" using calculateSize_insts_same [OF inv, of x] x(1) c by simp
    have ids: "chip_insts x = rev ids" using kept [OF s(1)] c x(1) by (simp add: deref_def)
    have "ci_master (inst_of db3 i) \<noteq> c" if "i \<in> set ids" for i
      using that kept [OF s(1)] r(4) c insts_same_placeable [OF s(1)]
      by (auto simp: list_all2_conv_all_nth in_set_conv_nth described_def placeable_def deref_def) (metis nth_mem option.sel)
    then have cub: "dbChipInst_getCuboid ?d i = dbChipInst_getCuboid db3 i" if "i \<in> set ids" for i
      using that insts_same_cuboid [OF same] c by simp
    have "top_ok ?d"
      using hier_ok_conns [OF x(3) calculateSize_fields(2,3) [OF inv x(1)] x(1), where kt = "chip_conn_tbl db3"]
        calculateSize_fields(1,3) [OF inv x(1)] calculateSize_frame(2) [of db3 c] x(2) c by (simp add: top_ok_def)
    moreover have "chip_of ?d c = x\<lparr>chip_width := extent cub_xlo cub_xhi (dbChipInst_getCuboid ?d ` set ids),
        chip_height := extent cub_ylo cub_yhi (dbChipInst_getCuboid ?d ` set ids),
        chip_thickness := extent cub_zlo cub_zhi (dbChipInst_getCuboid ?d ` set ids)\<rparr>"
      if "ids \<noteq> []" "\<forall>i \<in> set ids. Cuboid_fits (dbChipInst_getCuboid ?d i)"
      using calculateSize_extents [OF inv x(1)] that ids cub by (simp cong: image_cong)
    ultimately show ?thesis
      using kept [OF insts_same_trans [OF s(1) same]] r(7) f Inr c calculateSize_frame(2) [of db3 c] by auto
  qed
qed

section \<open>Orientations\<close>

text \<open>
  A name \<open>M_R\<close> asks for a mirror and then a rotation. \<open>names_orient\<close> says that the reader gives it that meaning,
  with and without the mirror in z.
\<close>

definition names_orient :: "string \<times> dbOrientType \<times> dbOrientType \<Rightarrow> bool" where
  "names_orient = (\<lambda>(s, mirror, rotation). \<exists>v. parse_orient s = Some (mk_dbOrientType3D v False) \<and>
     parse_orient (''MZ_'' @ s) = Some (mk_dbOrientType3D v True) \<and>
     (\<forall>p. dbTransform_apply_Point (dbTransform_of_orient v) p =
        dbTransform_apply_Point (dbTransform_of_orient rotation) (dbTransform_apply_Point (dbTransform_of_orient mirror) p)))"

lemmas parse_orient_eval = parse_orient_def dup_orient_map_def dbOrientType3D_fromString_def str_erase_def c_str_def
  NUL_char dbOrientType_fromString_def

lemma mirror_rotations:
  "names_orient (''MX'', MX, R0)" "names_orient (''MX_R90'', MX, R90)" "names_orient (''MX_R180'', MX, R180)"
  "names_orient (''MY'', MY, R0)" "names_orient (''MY_R90'', MY, R90)" "names_orient (''MY_R180'', MY, R180)"
  "names_orient (''MY_R270'', MY, R270)"
proof -
  note ev = names_orient_def mk_dbOrientType3D_def parse_orient_eval char_eval dbTransform_apply_Point_def
    dbTransform_of_orient_def dbTransform_default_def Point_rotate90_def
  show "names_orient (''MX'', MX, R0)" by (simp add: ev geom_simps)
  show "names_orient (''MX_R90'', MX, R90)" by (simp add: ev geom_simps)
  show "names_orient (''MX_R180'', MX, R180)" by (simp add: ev geom_simps)
  show "names_orient (''MY'', MY, R0)" by (simp add: ev geom_simps)
  show "names_orient (''MY_R90'', MY, R90)" by (simp add: ev geom_simps)
  show "names_orient (''MY_R180'', MY, R180)" by (simp add: ev geom_simps)
  show "names_orient (''MY_R270'', MY, R270)" by (simp add: ev geom_simps)
qed

text \<open>The table of synonyms lists \<open>MX_R180\<close> twice and \<open>MX_R270\<close> never, so that only the latter's flipped form is known.\<close>

lemma MX_R270_unknown:
  "parse_orient ''MX_R270'' = None" "parse_orient ''MZ_MX_R270'' = Some (mk_dbOrientType3D MYR90 True)"
  by (simp_all add: parse_orient_eval char_eval mk_dbOrientType3D_def)

section \<open>Path syntax\<close>

fun join_path :: "string list \<Rightarrow> string" where
  "join_path [] = []"
| "join_path [p] = p"
| "join_path (p # q # ps) = p @ ''/'' @ join_path (q # ps)"

lemma splitPath_join:
  "\<forall>p \<in> set ps. p \<noteq> [] \<and> CHR ''/'' \<notin> set p \<Longrightarrow> splitPath (join_path ps) = ps"
proof (induction ps rule: join_path.induct)
  case 1
  then show ?case by (simp add: splitPath_def getlines.simps)
next
  case (2 p)
  then have tp: "takeWhile (\<lambda>c. c \<noteq> CHR ''/'') p = p" and dp: "dropWhile (\<lambda>c. c \<noteq> CHR ''/'') p = []"
    by (auto simp: takeWhile_eq_all_conv dropWhile_eq_Nil_conv)
  have "getlines (CHR ''/'') p = p # getlines (CHR ''/'') []"
    using 2 unfolding getlines.simps [of _ p] tp dp by simp
  then show ?case using 2 by (simp add: splitPath_def getlines.simps [of _ "[]"])
next
  case (3 p q ps)
  then show ?case using getlines_line [of "CHR ''/''" p "join_path (q # ps)"] by (simp add: splitPath_def)
qed

end
