(* ===== verification/Demo.thy ===== *)
theory Demo
  imports CheckerResult ThreeDBloxLaws
begin

text \<open>
  A small assembly, on which the theorems are tried: a hierarchical chip with three instances of one die,
  the second stacked on the first and tied to it, the first tied to the ground, the third apart. Each
  side of the die has a bump, and a net has the bump on the front of the first instance only.
\<close>

text \<open>A table of one page with the given objects at the ids 1, 2, ... and one free slot.\<close>

definition table_of :: "'a list \<Rightarrow> 'a dbTable" where
  "table_of xs =
     \<lparr>tbl_page_size = length xs + 2, tbl_slots = Free 0 0 # map Alloc xs @ [Free 0 0], tbl_top = length xs,
      tbl_bottom = (if xs = [] then 0 else 1), tbl_page_allocs = [length xs], tbl_page_cnt = 1, tbl_page_tbl_size = 1,
      tbl_alloc_cnt = length xs, tbl_free_list = length xs + 1\<rparr>"

lemma table_of_slot:
  "is_alloc (tbl_slots (table_of xs)) i \<longleftrightarrow> 0 < i \<and> i \<le> length xs" if "i < length xs + 2" for xs :: "'a list"
  using that by (cases i) (auto simp: table_of_def is_alloc_def nth_append less_Suc_eq)

lemma table_of_inv: "tbl_inv (table_of xs)"
proof -
  let ?s = "tbl_slots (table_of xs)"
  have len: "length ?s = length xs + 2" by (simp add: table_of_def)
  have ids: "tbl_ids (table_of xs) = {1..length xs}"
    unfolding tbl_ids_def len using table_of_slot [where xs = xs] by auto
  have "free_chain ?s (length xs + 1) 0 [length xs + 1]" by (simp add: table_of_def nth_append)
  moreover have "{i. i \<noteq> 0 \<and> i < length ?s \<and> \<not> is_alloc ?s i} = {length xs + 1}"
    unfolding len using table_of_slot [where xs = xs] by auto
  moreover have "\<not> is_alloc ?s 0" using table_of_slot [of 0 xs] by simp
  ultimately have "tbl_free_ok ?s (length xs + 1) [length xs + 1]" by (simp add: tbl_free_ok_def)
  moreover have "{i \<in> {1..length xs}. i div (length xs + 2) = 0} = {1..length xs}" by auto
  then have "tbl_counts (table_of xs)" unfolding tbl_counts_def ids by (simp add: table_of_def)
  ultimately have "tbl_shape (table_of xs)"
    unfolding tbl_shape_def by (intro conjI exI [of _ "[length xs + 1]"]) (simp_all add: table_of_def)
  moreover have "Min {1..length xs} = 1" "Max {1..length xs} = length xs" "{1..length xs} \<noteq> {}" if "xs \<noteq> []"
    using that by (auto intro: Min_eqI Max_eqI simp: Suc_le_eq)
  moreover have "tbl_alloc_cnt (table_of xs) = length xs" "tbl_bottom (table_of xs) = (if xs = [] then 0 else 1)"
    "tbl_top (table_of xs) = length xs" by (simp_all add: table_of_def)
  ultimately show ?thesis unfolding tbl_inv_def ids by (cases "xs = []") auto
qed

lemma table_of_getPtr:
  "dbTable_getPtr (table_of xs) i = (if 0 < i \<and> i \<le> length xs then Some (xs ! (i - 1)) else None)"
proof -
  have "i div (length xs + 2) < 1 \<longleftrightarrow> i < length xs + 2"
    using div_less_iff_less_mult [of "length xs + 2" i 1] by simp
  then show ?thesis
    by (cases i) (auto simp: dbTable_getPtr_def table_of_def nth_append less_Suc_eq)
qed

lemma table_of_deref [simp]: "0 < i \<Longrightarrow> i \<le> length xs \<Longrightarrow> deref (table_of xs) i = xs ! (i - 1)"
  by (simp add: deref_def table_of_getPtr)

definition demo_bump :: "nat \<Rightarrow> dbChipBump" where
  "demo_bump r = \<lparr>bump_inst = 1, bump_chip = 2, bump_region = r, bump_net = 0, bump_bterm = 0\<rparr>"

definition demo_region :: "string \<Rightarrow> Side \<Rightarrow> int \<Rightarrow> nat \<Rightarrow> dbChipRegion" where
  "demo_region name side z r =
     \<lparr>rgn_name = name, rgn_side = side, rgn_layer = 0, rgn_box = mk_Rect 0 0 100 50, rgn_z_min = z,
      rgn_z_max = z, rgn_bump_tbl = table_of [demo_bump r]\<rparr>"

definition demo_die :: dbChip where
  "demo_die = mk_dbChip
     \<lparr>chip_name := ''die'', chip_type := DIE, chip_width := 100, chip_height := 50, chip_thickness := 10,
      chip_tech := 1, chip_region_map := [''front'' \<mapsto> 1, ''back'' \<mapsto> 2],
      chip_region_tbl := table_of [demo_region ''front'' Side.FRONT 10 1, demo_region ''back'' Side.BACK 0 2],
      chip_block := Some [1 \<mapsto> Point 5 5]\<rparr>"

definition demo_top :: dbChip where
  "demo_top = mk_dbChip
     \<lparr>chip_name := ''top'', chip_type := HIER, chip_insts := [1, 2, 3], chip_conns := [1, 2], chip_nets := [1],
      chip_insts_map := [''a'' \<mapsto> 1, ''b'' \<mapsto> 2, ''c'' \<mapsto> 3]\<rparr>"

definition demo_inst :: "string \<Rightarrow> Point3D \<Rightarrow> nat \<Rightarrow> nat \<Rightarrow> dbChipInst" where
  "demo_inst name origin r1 r2 =
     \<lparr>ci_name = name, ci_origin = origin, ci_orient = dbOrientType3D_default, ci_master = 2, ci_parent = 1,
      ci_region_insts = [r1, r2], ci_region_map = [1 \<mapsto> r1, 2 \<mapsto> r2]\<rparr>"

definition demo_db :: dbDatabase where
  "demo_db =
     \<lparr>db_chip = 1, db_dbu_per_micron = 1000, db_chip_hash = [''top'' \<mapsto> 1, ''die'' \<mapsto> 2], chip_tbl = table_of [demo_top, demo_die],
      chip_inst_tbl = table_of [demo_inst ''a'' (Point3D 0 0 0) 1 2, demo_inst ''b'' (Point3D 0 0 10) 3 4,
        demo_inst ''c'' (Point3D 200 0 0) 5 6],
      chip_region_inst_tbl = table_of
        [\<lparr>cri_region = 1, cri_parent = 1, cri_bump_insts = [1]\<rparr>, \<lparr>cri_region = 2, cri_parent = 1, cri_bump_insts = [2]\<rparr>,
         \<lparr>cri_region = 1, cri_parent = 2, cri_bump_insts = [3]\<rparr>, \<lparr>cri_region = 2, cri_parent = 2, cri_bump_insts = [4]\<rparr>,
         \<lparr>cri_region = 1, cri_parent = 3, cri_bump_insts = [5]\<rparr>, \<lparr>cri_region = 2, cri_parent = 3, cri_bump_insts = [6]\<rparr>],
      chip_bump_inst_tbl = table_of (map (\<lambda>r. \<lparr>cbi_bump = 1, cbi_region_inst = r\<rparr>) [1, 2, 3, 4, 5, 6]),
      chip_conn_tbl = table_of
        [\<lparr>cc_name = ''ab'', cc_thickness = 0, cc_chip = 1, cc_top_region = 4, cc_top_path = [2],
          cc_bottom_region = 1, cc_bottom_path = [1]\<rparr>,
         \<lparr>cc_name = ''ground'', cc_thickness = 0, cc_chip = 1, cc_top_region = 2, cc_top_path = [1],
          cc_bottom_region = 0, cc_bottom_path = []\<rparr>],
      chip_net_tbl = table_of [\<lparr>cn_name = ''n'', cn_chip = 1, cn_bump_insts = [([1], 1)]\<rparr>]\<rparr>"

lemma demo_chips [simp]:
  "dbTable_getPtr (chip_tbl demo_db) i = (if i = 1 then Some demo_top else if i = 2 then Some demo_die else None)"
  by (auto simp: demo_db_def table_of_getPtr le_Suc_eq numeral_2_eq_2)

lemma demo_chip_of [simp]:
  "chip_of demo_db 1 = demo_top" "chip_of demo_db (Suc 0) = demo_top" "chip_of demo_db 2 = demo_die"
  by (simp_all add: deref_def)

lemma demo_insts [simp]:
  "inst_of demo_db 1 = demo_inst ''a'' (Point3D 0 0 0) 1 2" "inst_of demo_db (Suc 0) = demo_inst ''a'' (Point3D 0 0 0) 1 2" "inst_of demo_db 2 = demo_inst ''b'' (Point3D 0 0 10) 3 4"
  "inst_of demo_db 3 = demo_inst ''c'' (Point3D 200 0 0) 5 6"
  by (simp_all add: demo_db_def)

definition demo_um :: UnfoldedModel where
  "demo_um = the (mk_UnfoldedModel 2 demo_db 1)"

lemma demo_um: "mk_UnfoldedModel 2 demo_db 1 = Some demo_um"
proof -
  have "hier_ranked demo_db (\<lambda>c. if c = 1 then 1 else 0)"
    by (auto simp: hier_ranked_def demo_top_def demo_die_def demo_inst_def split: if_splits)
  then have "\<exists>um. mk_UnfoldedModel 2 demo_db 1 = Some um"
    by (rule mk_UnfoldedModel_total) (auto simp: demo_top_def demo_inst_def)
  then show ?thesis by (auto simp: demo_um_def)
qed

text \<open>The unfolded model of the assembly with the second chip at \<open>z\<close>, written out.\<close>

definition demo_unfolded_region :: "nat \<Rightarrow> UnfoldedRegionSide \<Rightarrow> int \<Rightarrow> int \<Rightarrow> nat \<Rightarrow> nat \<Rightarrow> UnfoldedRegion" where
  "demo_unfolded_region r side x z c j =
     \<lparr>ur_region_inst = r, ur_effective_side = side, ur_cuboid = mk_Cuboid x 0 z (x + 100) 50 z, ur_parent_chip = Some c,
      ur_bumps = [\<lparr>ub_bump_inst = r, ub_parent_region = Some (c, j), ub_global_position = Point3D (x + 5) 5 z\<rparr>],
      ur_isUsed = False\<rparr>"

definition demo_unfolded_chip :: "string \<Rightarrow> nat \<Rightarrow> int \<Rightarrow> int \<Rightarrow> nat \<Rightarrow> nat \<Rightarrow> UnfoldedChip" where
  "demo_unfolded_chip name i x z r c =
     \<lparr>uc_name = name, uc_chip_inst_path = [i], uc_cuboid = mk_Cuboid x 0 z (x + 100) 50 (z + 10),
      uc_transform = mk_dbTransform3D dbOrientType3D_default (Point3D x 0 z),
      uc_regions = [demo_unfolded_region r UnfoldedRegionSide.TOP x (z + 10) c 0,
        demo_unfolded_region (r + 1) UnfoldedRegionSide.BOTTOM x z c 1],
      uc_region_map = [r \<mapsto> 0, r + 1 \<mapsto> 1]\<rparr>"

definition demo_assembly :: "int \<Rightarrow> UnfoldedModel" where
  "demo_assembly z =
     \<lparr>um_chips = [demo_unfolded_chip ''a'' 1 0 0 1 0, demo_unfolded_chip ''b'' 2 0 z 3 1,
        demo_unfolded_chip ''c'' 3 200 0 5 2],
      um_connections = [\<lparr>ucn_connection = 1, ucn_top_region = Some (1, 1), ucn_bottom_region = Some (0, 0)\<rparr>,
        \<lparr>ucn_connection = 2, ucn_top_region = Some (0, 1), ucn_bottom_region = None\<rparr>],
      um_nets = [\<lparr>un_chip_net = 1, un_connected_bumps = [(0, 0, 0)]\<rparr>],
      um_chip_path_map = [[1] \<mapsto> 0, [2] \<mapsto> 1, [3] \<mapsto> 2],
      um_bump_inst_map = [(1, [1]) \<mapsto> (0, 0, 0), (2, [1]) \<mapsto> (0, 1, 0), (3, [2]) \<mapsto> (1, 0, 0),
        (4, [2]) \<mapsto> (1, 1, 0), (5, [3]) \<mapsto> (2, 0, 0), (6, [3]) \<mapsto> (2, 1, 0)]\<rparr>"

lemma demo_conns [simp]:
  "conn_of demo_db 1 = \<lparr>cc_name = ''ab'', cc_thickness = 0, cc_chip = 1, cc_top_region = 4, cc_top_path = [2],
     cc_bottom_region = 1, cc_bottom_path = [1]\<rparr>"
  "conn_of demo_db (Suc 0) = \<lparr>cc_name = ''ab'', cc_thickness = 0, cc_chip = 1, cc_top_region = 4, cc_top_path = [2],
     cc_bottom_region = 1, cc_bottom_path = [1]\<rparr>"
  "conn_of demo_db 2 = \<lparr>cc_name = ''ground'', cc_thickness = 0, cc_chip = 1, cc_top_region = 2, cc_top_path = [1],
     cc_bottom_region = 0, cc_bottom_path = []\<rparr>"
  "net_of demo_db 1 = \<lparr>cn_name = ''n'', cn_chip = 1, cn_bump_insts = [([1], 1)]\<rparr>"
  "net_of demo_db (Suc 0) = \<lparr>cn_name = ''n'', cn_chip = 1, cn_bump_insts = [([1], 1)]\<rparr>"
  by (simp_all add: demo_db_def)

lemma demo_chip_ok:
  "chip_ok c (erase_chip (demo_unfolded_chip name i x z r c))"
  by (auto simp: chip_ok_def erase_chip_def demo_unfolded_chip_def demo_unfolded_region_def less_Suc_eq)

lemma demo_assembly_ok: "um_ok demo_db (demo_assembly z)"
proof -
  have "chips_ok (erased (demo_assembly z))"
    using demo_chip_ok [of 2]
    by (auto simp: chips_ok_def demo_assembly_def less_Suc_eq demo_chip_ok numeral_2_eq_2)
  moreover have "path_map_ok (erased (demo_assembly z)) (um_chip_path_map (demo_assembly z))"
    by (auto simp: path_map_ok_def demo_assembly_def less_Suc_eq demo_unfolded_chip_def split: if_splits)
  moreover have "bump_map_ok (erased (demo_assembly z)) (um_bump_inst_map (demo_assembly z))"
    by (auto simp: bump_map_ok_def demo_assembly_def bump_ok_def bump_in_def region_ok_def region_in_def erase_chip_def
        demo_unfolded_chip_def demo_unfolded_region_def split: if_splits)
  moreover have "\<forall>k\<in>set (um_connections (demo_assembly z)). conn_ok demo_db (erased (demo_assembly z)) k"
    by (auto simp: demo_assembly_def conn_ok_def refers_def region_ok_def region_in_def erase_chip_def
        demo_unfolded_chip_def demo_unfolded_region_def)
  moreover have "\<forall>n\<in>set (um_nets (demo_assembly z)). net_ok demo_db (erased (demo_assembly z)) n"
    by (auto simp: demo_assembly_def net_ok_def bump_ok_def bump_in_def region_ok_def region_in_def erase_chip_def
        demo_unfolded_chip_def demo_unfolded_region_def)
  moreover have "used_ok (um_chips (demo_assembly z)) (um_connections (demo_assembly z))"
    by (auto simp: demo_assembly_def used_ok_def region_ok_def region_in_def UR_isInternalExt_def less_Suc_eq
        demo_unfolded_chip_def demo_unfolded_region_def)
  ultimately show ?thesis by (simp add: um_ok_def)
qed

definition demo_model :: UnfoldedModel where
  "demo_model = demo_assembly 10"

lemma demo_model_ok: "um_ok demo_db demo_model"
  unfolding demo_model_def by (rule demo_assembly_ok)

lemma demo_floating: "floating_groups (sort_key (\<lambda>g. int (length g))) demo_db demo_model = Some [[2]]"
  by code_simp

lemma demo_mismatch:
  "concat (map (aligned_mismatches demo_db demo_model) (um_connections demo_model)) = [((1, 1, 0), (0, 0, 0))]"
  by code_simp

definition demo_build :: build where
  "demo_build = \<lparr>bld_asserts = False, bld_top_first = True, bld_sort_groups = sort_key (\<lambda>g. int (length g)),
     bld_sort_chips = sort_key (\<lambda>c. cub_xlo (chip_cuboid demo_model c))\<rparr>"

lemma demo_build_ok: "build_ok demo_build demo_model"
  by (simp add: build_ok_def demo_build_def std_sort_on_sort_key)

lemma demo_build_floating: "floating_groups (bld_sort_groups demo_build) demo_db demo_model = Some [[2]]"
  by (simp add: demo_build_def demo_floating)

lemma demo_counts:
  "overlapping_chips (bld_sort_chips demo_build) demo_model = []"
  "filter (\<lambda>r. UR_isInternalExt r \<and> \<not> ur_isUsed r) (model_regions demo_model) = []"
  "filter (\<lambda>k. \<not> isValid demo_db demo_model k) (um_connections demo_model) = []"
  "filter (\<lambda>(r, b). bump_outside r b) (model_bumps demo_model) = []"
  "concat (map (aligned_mismatches demo_db demo_model) (um_connections demo_model)) = [((1, 1, 0), (0, 0, 0))]"
proof -
  show "overlapping_chips (bld_sort_chips demo_build) demo_model = []" by code_simp
  show "filter (\<lambda>r. UR_isInternalExt r \<and> \<not> ur_isUsed r) (model_regions demo_model) = []"
    by (simp add: demo_model_def demo_assembly_def model_regions_def demo_unfolded_chip_def demo_unfolded_region_def UR_isInternalExt_def)
  show "filter (\<lambda>k. \<not> isValid demo_db demo_model k) (um_connections demo_model) = []" by code_simp
  show "filter (\<lambda>(r, b). bump_outside r b) (model_bumps demo_model) = []" by code_simp
  show "concat (map (aligned_mismatches demo_db demo_model) (um_connections demo_model)) = [((1, 1, 0), (0, 0, 0))]"
    by (rule demo_mismatch)
qed

lemma demo_db_ok: "db_ok demo_db"
proof -
  have "chip_categories demo_db = mk_MarkerCategories PAGE_SIZE"
    by (simp add: chip_categories_def demo_db_def demo_top_def mk_dbChip_def)
  then show ?thesis
    using table_of_inv [of "[demo_top, demo_die]"]
    by (simp add: db_ok_def mk_MarkerCategories_ok PAGE_SIZE_def) (simp add: demo_db_def)
qed

section \<open>Assemblies with a fault\<close>

text \<open>Two chips in the same place.\<close>

definition demo_overlap :: UnfoldedModel where
  "demo_overlap = demo_model\<lparr>um_chips := [demo_unfolded_chip ''a'' 1 0 0 1 0, demo_unfolded_chip ''b'' 2 50 5 3 1]\<rparr>"

text \<open>The second chip is not on the first: their connection is invalid.\<close>

definition demo_apart :: UnfoldedModel where
  "demo_apart = demo_assembly 13"

lemma demo_apart_ok: "um_ok demo_db demo_apart"
  unfolding demo_apart_def by (rule demo_assembly_ok)

lemma demo_apart_invalid:
  "filter (\<lambda>k. \<not> isValid demo_db demo_apart k) (um_connections demo_apart) =
     [\<lparr>ucn_connection = 1, ucn_top_region = Some (1, 1), ucn_bottom_region = Some (0, 0)\<rparr>]"
  by code_simp

text \<open>The same gap between the chips, filled by a connection of that thickness.\<close>

definition demo_conn :: UnfoldedConnection where
  "demo_conn = \<lparr>ucn_connection = 1, ucn_top_region = Some (1, 1), ucn_bottom_region = Some (0, 0)\<rparr>"

definition demo_gap :: UnfoldedModel where
  "demo_gap = demo_apart\<lparr>um_connections := [demo_conn]\<rparr>"

definition demo_thick :: dbDatabase where
  "demo_thick = demo_db\<lparr>chip_conn_tbl := table_of
     [\<lparr>cc_name = ''ab'', cc_thickness = 3, cc_chip = 1, cc_top_region = 4, cc_top_path = [2],
       cc_bottom_region = 1, cc_bottom_path = [1]\<rparr>]\<rparr>"

text \<open>Two hierarchical chips, each given an instance of the other.\<close>

definition demo_pair :: dbDatabase where
  "demo_pair = demo_db\<lparr>chip_tbl := table_of [mk_dbChip\<lparr>chip_type := HIER\<rparr>, mk_dbChip\<lparr>chip_type := HIER\<rparr>],
     chip_inst_tbl := mk_dbTable 4\<rparr>"

definition demo_ring :: dbDatabase where
  "demo_ring = fst (dbChipInst_create (fst (dbChipInst_create demo_pair 1 2 ''x'')) 2 1 ''y'')"

lemma demo_ring:
  "ci_master (inst_of demo_ring 1) = 2" "ci_master (inst_of demo_ring 2) = 1"
  "chip_type (chip_of demo_ring 1) = HIER" "chip_type (chip_of demo_ring 2) = HIER"
  "chip_insts (chip_of demo_ring 1) = [1]" "chip_insts (chip_of demo_ring 2) = [2]"
proof -
  show "ci_master (inst_of demo_ring 1) = 2" by code_simp
  show "ci_master (inst_of demo_ring 2) = 1" by code_simp
  show "chip_type (chip_of demo_ring 1) = HIER" by code_simp
  show "chip_type (chip_of demo_ring 2) = HIER" by code_simp
  show "chip_insts (chip_of demo_ring 1) = [1]" by code_simp
  show "chip_insts (chip_of demo_ring 2) = [2]" by code_simp
qed

section \<open>A design read on top\<close>

lemma demo_top_ok: "top_ok demo_db"
proof -
  let ?I = "dbTable_getPtr (chip_inst_tbl demo_db)" and ?R = "dbTable_getPtr (chip_region_inst_tbl demo_db)"
  have inv: "insts_inv demo_db" "tbl_inv (chip_tbl demo_db)" by (simp_all add: insts_inv_def demo_db_def table_of_inv)
  have I: "?I i = (if i = 1 then Some (demo_inst ''a'' (Point3D 0 0 0) 1 2) else if i = 2 then Some (demo_inst ''b'' (Point3D 0 0 10) 3 4)
      else if i = 3 then Some (demo_inst ''c'' (Point3D 200 0 0) 5 6) else None)" for i
    by (auto simp: demo_db_def table_of_getPtr le_Suc_eq numeral_2_eq_2 numeral_3_eq_3)
  have R: "?R 1 = Some \<lparr>cri_region = 1, cri_parent = 1, cri_bump_insts = [1]\<rparr>"
    "?R 2 = Some \<lparr>cri_region = 2, cri_parent = 1, cri_bump_insts = [2]\<rparr>"
    "?R 3 = Some \<lparr>cri_region = 1, cri_parent = 2, cri_bump_insts = [3]\<rparr>"
    "?R 4 = Some \<lparr>cri_region = 2, cri_parent = 2, cri_bump_insts = [4]\<rparr>"
    "?R 5 = Some \<lparr>cri_region = 1, cri_parent = 3, cri_bump_insts = [5]\<rparr>"
    "?R 6 = Some \<lparr>cri_region = 2, cri_parent = 3, cri_bump_insts = [6]\<rparr>"
    by (simp_all add: demo_db_def table_of_getPtr numeral_eq_Suc)
  have "\<exists>y. ?I i = Some y \<and> ci_parent y = c \<and> ci_name y = n"
    if "dbTable_getPtr (chip_tbl demo_db) c = Some x" "chip_insts_map x n = Some i" for c x n i
    using that by (auto simp: I demo_top_def demo_die_def demo_inst_def mk_dbChip_def split: if_splits)
  moreover have "ci_master y \<in> dom (dbTable_getPtr (chip_tbl demo_db)) \<and> (\<forall>g r. ci_region_map y g = Some r \<longrightarrow>
      (\<exists>z. ?R r = Some z \<and> cri_parent z = i \<and> cri_region z = g))" if "?I i = Some y" for i y
    using that R by (auto simp: I demo_inst_def split: if_splits)
  moreover have "c \<in> dom (dbTable_getPtr (chip_tbl demo_db))" if "db_chip_hash demo_db n = Some c" for n c
    using that by (auto simp: demo_db_def table_of_getPtr split: if_splits)
  ultimately have "hier_ok demo_db" unfolding hier_ok_def using inv by blast
  moreover have "db_chip demo_db = 1" by (simp add: demo_db_def)
  ultimately show ?thesis by (simp add: top_ok_def demo_top_def)
qed

definition demo_design :: DbxData where
  "demo_design =
     \<lparr>dbx_includes = [], dbx_design = \<lparr>dd_name = ''design'', dd_verilog_file = []\<rparr>,
      dbx_chiplet_instances =
        [\<lparr>cin_name = ''p'', cin_reference = ''die'', cin_loc = Coordinate 1 2, cin_z = 0, cin_orient = ''R0''\<rparr>,
         \<lparr>cin_name = ''q'', cin_reference = ''die'', cin_loc = Coordinate (3 / 2) 2, cin_z = 1 / 100, cin_orient = ''MX_R180''\<rparr>],
      dbx_connections = [\<lparr>con_name = ''k'', con_top = ''q.regions.back'', con_bot = ''p.regions.front'', con_thickness = 0\<rparr>]\<rparr>"

lemma demo_design_ok: "design_ok demo_db demo_design"
  using demo_top_ok mirror_rotations(3)
  by (simp add: design_ok_def top_ok_def demo_design_def demo_db_def table_of_inv dbDatabase_findChip_def c_str_def NUL_char
      names_orient_def parse_orient_eval char_eval)

end
