(* ===== verification/DbHashTable.thy ===== *)
theory DbHashTable
  imports DbTable
begin

text \<open>
  The hash table of named objects (\<^verbatim>\<open>db/dbHashTable.h\<close>, \<^verbatim>\<open>db/dbHashTable.hpp\<close>). The table keeps
  the id of the first object of each bucket; an object holds its name and the id of the next one of its
  bucket, and lives in a \<^verbatim>\<open>dbTable\<close>. The table doubles when the chains get longer than four on
  average and halves when they get shorter than two.

  Names are C strings. The hash is computed modulo \<open>2 ^ 32\<close> and cut to the size of the table by a bitwise and.
  The loops follow the links of the objects, so they are partial functions; \<open>None\<close> is a loop that does not
  end or an index out of range. The locale \<open>name_index\<close> is the contract: a finite map from names to ids.
\<close>

unbundle bit_operations_syntax

section \<open>The class\<close>

record named_object =
  no_name :: string
  no_next_entry :: nat

record dbHashTable =
  ht_hash_tbl :: "nat list"
  ht_num_entries :: nat
  ht_obj_tbl :: "named_object dbTable"

definition kChainLength :: nat where
  "kChainLength = 4"

definition hash_string :: "string \<Rightarrow> 32 word" where
  "hash_string str =
     foldl (\<lambda>hash c. of_char c + push_bit 6 hash + push_bit 16 hash - hash) 0 (c_str str)"

definition hash_index :: "string \<Rightarrow> nat \<Rightarrow> nat" where
  "hash_index name sz = unat (hash_string name AND of_nat sz)"

definition mk_dbHashTable :: "named_object dbTable \<Rightarrow> dbHashTable" where
  "mk_dbHashTable tbl = \<lparr>ht_hash_tbl = [], ht_num_entries = 0, ht_obj_tbl = tbl\<rparr>"

definition set_next_entry :: "named_object dbTable \<Rightarrow> nat \<Rightarrow> nat \<Rightarrow> named_object dbTable" where
  "set_next_entry objs i n = dbTable_update objs i (\<lambda>x. x\<lparr>no_next_entry := n\<rparr>)"

text \<open>Every object of a bucket is put in front of the list \<open>entries\<close>.\<close>

partial_function (option) unlink_bucket ::
    "named_object dbTable \<Rightarrow> nat \<Rightarrow> nat \<Rightarrow> (named_object dbTable \<times> nat) option" where
  "unlink_bucket objs cur entries =
     (if cur = 0 then Some (objs, entries)
      else do {
        entry \<leftarrow> dbTable_getPtr objs cur;
        unlink_bucket (set_next_entry objs cur entries) (no_next_entry entry) cur
      })"

definition unlink_all :: "named_object dbTable \<Rightarrow> nat list \<Rightarrow> (named_object dbTable \<times> nat) option" where
  "unlink_all objs tbl = foldM (\<lambda>(objs, entries) cur. unlink_bucket objs cur entries) (objs, 0) tbl"

text \<open>The objects of the list \<open>cur\<close> are put in front of their buckets.\<close>

partial_function (option) reinsert ::
    "nat list \<Rightarrow> named_object dbTable \<Rightarrow> nat \<Rightarrow> (nat list \<times> named_object dbTable) option" where
  "reinsert tbl objs cur =
     (if cur = 0 then Some (tbl, objs)
      else do {
        entry \<leftarrow> dbTable_getPtr objs cur;
        let hid = hash_index (no_name entry) (length tbl - 1);
        if hid < length tbl
        then reinsert (tbl[hid := cur]) (set_next_entry objs cur (tbl ! hid)) (no_next_entry entry)
        else None
      })"

definition growTable :: "dbHashTable \<Rightarrow> dbHashTable option" where
  "growTable h = do {
     let sz = length (ht_hash_tbl h);
     (objs, entries) \<leftarrow> unlink_all (ht_obj_tbl h) (ht_hash_tbl h);
     (tbl, objs) \<leftarrow> reinsert (replicate sz 0 @ replicate sz 0) objs entries;
     Some (h\<lparr>ht_hash_tbl := tbl, ht_obj_tbl := objs\<rparr>)
   }"

definition shrinkTable :: "dbHashTable \<Rightarrow> dbHashTable option" where
  "shrinkTable h = do {
     let sz = length (ht_hash_tbl h);
     (objs, entries) \<leftarrow> unlink_all (ht_obj_tbl h) (ht_hash_tbl h);
     (tbl, objs) \<leftarrow> reinsert (replicate (sz div 2) 0) objs entries;
     Some (h\<lparr>ht_hash_tbl := tbl, ht_obj_tbl := objs\<rparr>)
   }"

definition dbHashTable_insert :: "dbHashTable \<Rightarrow> nat \<Rightarrow> dbHashTable option" where
  "dbHashTable_insert h i = do {
     let h = h\<lparr>ht_num_entries := ht_num_entries h + 1\<rparr>;
     h \<leftarrow> (if length (ht_hash_tbl h) = 0 then Some (h\<lparr>ht_hash_tbl := [0]\<rparr>)
          else if ht_num_entries h div length (ht_hash_tbl h) > kChainLength then growTable h
          else Some h);
     entry \<leftarrow> dbTable_getPtr (ht_obj_tbl h) i;
     let hid = hash_index (no_name entry) (length (ht_hash_tbl h) - 1);
     if hid < length (ht_hash_tbl h)
     then Some (h\<lparr>ht_hash_tbl := (ht_hash_tbl h)[hid := i],
                  ht_obj_tbl := set_next_entry (ht_obj_tbl h) i (ht_hash_tbl h ! hid)\<rparr>)
     else None
   }"

partial_function (option) find_in_bucket :: "named_object dbTable \<Rightarrow> string \<Rightarrow> nat \<Rightarrow> nat option" where
  "find_in_bucket objs name cur =
     (if cur = 0 then Some 0
      else do {
        entry \<leftarrow> dbTable_getPtr objs cur;
        if c_str (no_name entry) = c_str name then Some cur
        else find_in_bucket objs name (no_next_entry entry)
      })"

definition dbHashTable_find :: "dbHashTable \<Rightarrow> string \<Rightarrow> nat option" where
  "dbHashTable_find h name =
     (if length (ht_hash_tbl h) = 0 then Some 0
      else
        let hid = hash_index name (length (ht_hash_tbl h) - 1)
        in if hid < length (ht_hash_tbl h) then find_in_bucket (ht_obj_tbl h) name (ht_hash_tbl h ! hid) else None)"

definition dbHashTable_hasMember :: "dbHashTable \<Rightarrow> string \<Rightarrow> bool option" where
  "dbHashTable_hasMember h name =
     (if length (ht_hash_tbl h) = 0 then Some False
      else
        let hid = hash_index name (length (ht_hash_tbl h) - 1)
        in if hid < length (ht_hash_tbl h)
           then map_option (\<lambda>i. i \<noteq> 0) (find_in_bucket (ht_obj_tbl h) name (ht_hash_tbl h ! hid)) else None)"

text \<open>
  The walk along the bucket of the object: \<open>prev\<close> is the id before \<open>cur\<close>. The result is the first id of the
  bucket and the objects, or nothing when the object is not there.
\<close>

partial_function (option) unlink_object ::
    "named_object dbTable \<Rightarrow> nat \<Rightarrow> nat \<Rightarrow> nat \<Rightarrow> nat \<Rightarrow> (nat \<times> named_object dbTable) option option" where
  "unlink_object objs i head prev cur =
     (if cur = 0 then Some None
      else do {
        entry \<leftarrow> dbTable_getPtr objs cur;
        if cur = i then
          (if prev = 0 then Some (Some (no_next_entry entry, objs))
           else do { _ \<leftarrow> dbTable_getPtr objs prev;
                     Some (Some (head, set_next_entry objs prev (no_next_entry entry))) })
        else unlink_object objs i head cur (no_next_entry entry)
      })"

definition dbHashTable_remove :: "dbHashTable \<Rightarrow> nat \<Rightarrow> dbHashTable option" where
  "dbHashTable_remove h i = do {
     let sz = length (ht_hash_tbl h);
     object \<leftarrow> dbTable_getPtr (ht_obj_tbl h) i;
     let hid = hash_index (no_name object) (sz - 1);
     if hid < sz then do {
       found \<leftarrow> unlink_object (ht_obj_tbl h) i (ht_hash_tbl h ! hid) 0 (ht_hash_tbl h ! hid);
       case found of
         None \<Rightarrow> Some h
       | Some (head, objs) \<Rightarrow>
           let h = h\<lparr>ht_hash_tbl := (ht_hash_tbl h)[hid := head], ht_obj_tbl := objs,
                     ht_num_entries := ht_num_entries h - 1\<rparr>;
               r = (ht_num_entries h + ht_num_entries h div 10) div sz
           in if r < kChainLength div 2 \<and> sz > 1 then shrinkTable h else Some h
     } else None
   }"

section \<open>Chains\<close>

text \<open>
  \<open>chain g cur ids\<close> says that following the links from \<open>cur\<close> in the objects \<open>g\<close> visits \<open>ids\<close> and ends at 0.
  \<open>buckets\<close> says it of every bucket, that no object is on two chains, and that each is on the chain of its hash.
\<close>

type_synonym heap = "nat \<Rightarrow> named_object option"

primrec chain :: "heap \<Rightarrow> nat \<Rightarrow> nat list \<Rightarrow> bool" where
  "chain g cur [] \<longleftrightarrow> cur = 0"
| "chain g cur (i # is) \<longleftrightarrow> cur = i \<and> i \<noteq> 0 \<and> (\<exists>x. g i = Some x \<and> chain g (no_next_entry x) is)"

definition bucket_of :: "nat \<Rightarrow> heap \<Rightarrow> nat \<Rightarrow> nat" where
  "bucket_of n g i = hash_index (no_name (the (g i))) (n - 1)"

definition buckets :: "heap \<Rightarrow> nat list \<Rightarrow> nat list list \<Rightarrow> bool" where
  "buckets g tbl cs \<longleftrightarrow>
     list_all2 (chain g) tbl cs \<and> distinct (concat cs) \<and>
     (\<forall>k < length tbl. \<forall>i \<in> set (cs ! k). bucket_of (length tbl) g i = k)"

definition same_names :: "heap \<Rightarrow> heap \<Rightarrow> bool" where
  "same_names g g' \<longleftrightarrow> (\<forall>i. map_option no_name (g' i) = map_option no_name (g i))"

lemma same_names_refl [simp]: "same_names g g"
  by (simp add: same_names_def)

lemma same_names_trans [trans]: "same_names g g' \<Longrightarrow> same_names g' g'' \<Longrightarrow> same_names g g''"
  by (simp add: same_names_def)

lemma same_names_next: "g i = Some x \<Longrightarrow> same_names g (g(i \<mapsto> x\<lparr>no_next_entry := n\<rparr>))"
  by (simp add: same_names_def)

lemma same_names_Some: "same_names g g' \<Longrightarrow> g i = Some x \<Longrightarrow> \<exists>y. g' i = Some y \<and> no_name y = no_name x"
  by (auto simp: same_names_def dest!: spec [of _ i])

lemma chain_0: "chain g 0 ids \<longleftrightarrow> ids = []"
  by (cases ids) auto

lemma chain_in: "chain g cur ids \<Longrightarrow> i \<in> set ids \<Longrightarrow> i \<noteq> 0 \<and> (\<exists>x. g i = Some x)"
  by (induction ids arbitrary: cur) auto

lemma chain_cong: "(\<And>i. i \<in> set ids \<Longrightarrow> g' i = g i) \<Longrightarrow> chain g' cur ids = chain g cur ids"
  by (induction ids arbitrary: cur) auto

lemma chain_upd: "i \<notin> set ids \<Longrightarrow> chain (g(i := v)) cur ids = chain g cur ids"
  by (rule chain_cong) auto

lemma hash_index_less: "0 < n \<Longrightarrow> hash_index name (n - 1) < n"
proof -
  assume "0 < n"
  have "unat (hash_string name AND of_nat (n - 1)) \<le> unat (of_nat (n - 1) :: 32 word)"
    by (simp add: word_and_le1 word_le_nat_alt [symmetric])
  also have "\<dots> \<le> n - 1" by (simp add: unat_of_nat)
  finally show ?thesis using \<open>0 < n\<close> by (simp add: hash_index_def)
qed

lemma hash_index_c_str: "c_str s = c_str t \<Longrightarrow> hash_index s n = hash_index t n"
  by (simp add: hash_index_def hash_string_def)

lemma bucket_of_same_names: "same_names g g' \<Longrightarrow> g i = Some x \<Longrightarrow> bucket_of n g' i = bucket_of n g i"
  by (auto simp: bucket_of_def dest: same_names_Some)

lemma in_concat_nth: "i \<in> set (concat cs) \<Longrightarrow> \<exists>k < length cs. i \<in> set (cs ! k)"
  by (metis UN_E in_set_conv_nth set_concat)

lemma set_next_entry:
  assumes "tbl_inv objs" and "dbTable_getPtr objs i = Some x"
  shows "tbl_inv (set_next_entry objs i n)"
    and "dbTable_getPtr (set_next_entry objs i n) = (dbTable_getPtr objs)(i \<mapsto> x\<lparr>no_next_entry := n\<rparr>)"
  using tbl.assign [OF assms] by (simp_all add: set_next_entry_def)

section \<open>Rebuilding the table\<close>

lemma unlink_bucket_correct:
  assumes "tbl_inv objs" and "chain (dbTable_getPtr objs) cur ids" and "chain (dbTable_getPtr objs) entries es"
    and "distinct (ids @ es)"
  shows "\<exists>objs' entries'. unlink_bucket objs cur entries = Some (objs', entries') \<and> tbl_inv objs' \<and>
    same_names (dbTable_getPtr objs) (dbTable_getPtr objs') \<and>
    chain (dbTable_getPtr objs') entries' (rev ids @ es) \<and>
    (\<forall>j. j \<notin> set ids \<longrightarrow> dbTable_getPtr objs' j = dbTable_getPtr objs j)"
  using assms
proof (induction ids arbitrary: objs cur entries es)
  case Nil
  then show ?case by (subst unlink_bucket.simps) simp
next
  case (Cons i ids)
  then obtain x where x: "cur = i" "i \<noteq> 0" "dbTable_getPtr objs i = Some x"
    "chain (dbTable_getPtr objs) (no_next_entry x) ids" by auto
  let ?objs = "set_next_entry objs i entries"
  note u = set_next_entry [OF Cons.prems(1) x(3), of entries]
  have "chain (dbTable_getPtr ?objs) (no_next_entry x) ids" "chain (dbTable_getPtr ?objs) i (i # es)"
    "distinct (ids @ i # es)"
    using x(2,4) Cons.prems(3,4) by (simp_all add: u chain_upd)
  from Cons.IH [OF u(1) this] obtain objs' entries' where
    r: "unlink_bucket ?objs (no_next_entry x) i = Some (objs', entries')" "tbl_inv objs'"
      "same_names (dbTable_getPtr ?objs) (dbTable_getPtr objs')"
      "chain (dbTable_getPtr objs') entries' (rev ids @ i # es)"
      "\<forall>j. j \<notin> set ids \<longrightarrow> dbTable_getPtr objs' j = dbTable_getPtr ?objs j" by blast
  have "unlink_bucket objs cur entries = Some (objs', entries')"
    by (subst unlink_bucket.simps) (simp add: x r(1))
  moreover have "same_names (dbTable_getPtr objs) (dbTable_getPtr objs')"
    using same_names_next [where g = "dbTable_getPtr objs" and n = entries, OF x(3)] r(3)
    unfolding u by (rule same_names_trans)
  ultimately show ?case using r by (simp add: u)
qed

lemma unlink_all_correct:
  assumes "list_all2 (chain (dbTable_getPtr objs)) tbl cs" and "tbl_inv objs"
    and "chain (dbTable_getPtr objs) entries es" and "distinct (concat cs @ es)"
  shows "\<exists>objs' entries'. foldM (\<lambda>(objs, entries) cur. unlink_bucket objs cur entries) (objs, entries) tbl
      = Some (objs', entries') \<and> tbl_inv objs' \<and> same_names (dbTable_getPtr objs) (dbTable_getPtr objs') \<and>
    chain (dbTable_getPtr objs') entries' (rev (concat cs) @ es)"
  using assms
proof (induction tbl arbitrary: cs objs entries es)
  case Nil
  then show ?case by simp
next
  case (Cons cur tbl)
  then obtain ids cs' where cs: "cs = ids # cs'" "chain (dbTable_getPtr objs) cur ids"
    "list_all2 (chain (dbTable_getPtr objs)) tbl cs'" by (auto simp: list_all2_Cons1)
  have d: "distinct (ids @ es)" using Cons.prems(4) cs(1) by auto
  from unlink_bucket_correct [OF Cons.prems(2) cs(2) Cons.prems(3) d] obtain objs1 entries1 where
    r: "unlink_bucket objs cur entries = Some (objs1, entries1)" "tbl_inv objs1"
      "same_names (dbTable_getPtr objs) (dbTable_getPtr objs1)"
      "chain (dbTable_getPtr objs1) entries1 (rev ids @ es)"
      "\<And>j. j \<notin> set ids \<Longrightarrow> dbTable_getPtr objs1 j = dbTable_getPtr objs j" by blast
  have "chain (dbTable_getPtr objs1) c is = chain (dbTable_getPtr objs) c is" if "is \<in> set cs'" for c "is"
    using that Cons.prems(4) cs(1) by (intro chain_cong r(5)) auto
  then have "list_all2 (chain (dbTable_getPtr objs1)) tbl cs'"
    using cs(3) by (auto intro: list.rel_mono_strong)
  moreover have "distinct (concat cs' @ rev ids @ es)" using Cons.prems(4) cs(1) by auto
  ultimately obtain objs2 entries2 where
    q: "foldM (\<lambda>(objs, entries) cur. unlink_bucket objs cur entries) (objs1, entries1) tbl = Some (objs2, entries2)"
      "tbl_inv objs2" "same_names (dbTable_getPtr objs1) (dbTable_getPtr objs2)"
      "chain (dbTable_getPtr objs2) entries2 (rev (concat cs') @ rev ids @ es)"
    using Cons.IH [of objs1 cs' entries1 "rev ids @ es"] r(2,4) by auto
  with r(1) same_names_trans [OF r(3) q(3)] show ?case by (simp add: cs(1))
qed

lemma concat_update_mset: "k < length cs \<Longrightarrow> mset (concat (cs[k := i # cs ! k])) = add_mset i (mset (concat cs))"
  by (induction cs arbitrary: k) (auto split: nat.split)

lemma buckets_push:
  assumes b: "buckets g tbl cs" and i: "i \<notin> set (concat cs)" "i \<noteq> 0" "g i = Some x"
    and k: "k = hash_index (no_name x) (length tbl - 1)" "k < length tbl"
  shows "buckets (g(i \<mapsto> x\<lparr>no_next_entry := tbl ! k\<rparr>)) (tbl[k := i]) (cs[k := i # cs ! k])"
proof -
  let ?g = "g(i \<mapsto> x\<lparr>no_next_entry := tbl ! k\<rparr>)" and ?cs = "cs[k := i # cs ! k]"
  from b have len: "length cs = length tbl" and ch: "\<And>j. j < length tbl \<Longrightarrow> chain g (tbl ! j) (cs ! j)"
    by (auto simp: buckets_def list_all2_conv_all_nth)
  have notin: "i \<notin> set (cs ! j)" if "j < length tbl" for j using i(1) that len by auto
  have "chain ?g (tbl[k := i] ! j) (?cs ! j)" if "j < length tbl" for j
    using that ch [OF that] ch [OF k(2)] notin [OF that] notin [OF k(2)] i(2) k(2) len
    by (cases "j = k") (simp_all add: chain_upd)
  then have "list_all2 (chain ?g) (tbl[k := i]) ?cs" using len by (simp add: list_all2_conv_all_nth)
  moreover have "distinct (concat ?cs)"
    using b i(1) len k(2) mset_eq_imp_distinct_iff [of "concat ?cs" "i # concat cs"]
    by (simp add: concat_update_mset buckets_def)
  moreover have "bucket_of (length tbl) ?g j = bucket_of (length tbl) g j" for j
    using i(3) by (simp add: bucket_of_def)
  then have "\<forall>m < length tbl. \<forall>j \<in> set (?cs ! m). bucket_of (length tbl) ?g j = m"
    using b len k i(3) by (auto simp: buckets_def nth_list_update bucket_of_def)
  ultimately show ?thesis by (simp add: buckets_def)
qed

lemma reinsert_correct:
  assumes "tbl_inv objs" and "chain (dbTable_getPtr objs) cur es" and "buckets (dbTable_getPtr objs) tbl cs"
    and "distinct (es @ concat cs)" and "0 < length tbl"
  shows "\<exists>tbl' objs' cs'. reinsert tbl objs cur = Some (tbl', objs') \<and> tbl_inv objs' \<and>
    same_names (dbTable_getPtr objs) (dbTable_getPtr objs') \<and> length tbl' = length tbl \<and>
    buckets (dbTable_getPtr objs') tbl' cs' \<and> mset (concat cs') = mset es + mset (concat cs)"
  using assms
proof (induction es arbitrary: objs cur tbl cs)
  case Nil
  then show ?case by (subst reinsert.simps) auto
next
  case (Cons i es)
  then obtain x where x: "cur = i" "i \<noteq> 0" "dbTable_getPtr objs i = Some x"
    "chain (dbTable_getPtr objs) (no_next_entry x) es" by auto
  let ?k = "hash_index (no_name x) (length tbl - 1)"
  let ?objs = "set_next_entry objs i (tbl ! ?k)" and ?tbl = "tbl[?k := i]" and ?cs = "cs[?k := i # cs ! ?k]"
  note u = set_next_entry [OF Cons.prems(1) x(3), of "tbl ! ?k"]
  have k: "?k < length tbl" using Cons.prems(5) by (rule hash_index_less)
  have len: "length cs = length tbl" using Cons.prems(3) by (auto simp: buckets_def dest: list_all2_lengthD)
  have i: "i \<notin> set (concat cs)" "i \<notin> set es" using Cons.prems(4) by auto
  have b: "buckets (dbTable_getPtr ?objs) ?tbl ?cs"
    unfolding u using buckets_push [OF Cons.prems(3) i(1) x(2,3) refl k] .
  have m: "mset (concat ?cs) = add_mset i (mset (concat cs))" using k len by (simp add: concat_update_mset)
  have "chain (dbTable_getPtr ?objs) (no_next_entry x) es" unfolding u(2) using x(4) i(2) by (simp add: chain_upd)
  moreover have "distinct (es @ concat ?cs)"
    using Cons.prems(4) m mset_eq_imp_distinct_iff [of "es @ concat ?cs" "i # es @ concat cs"] by simp
  ultimately obtain tbl' objs' cs' where
    r: "reinsert ?tbl ?objs (no_next_entry x) = Some (tbl', objs')" "tbl_inv objs'"
      "same_names (dbTable_getPtr ?objs) (dbTable_getPtr objs')" "length tbl' = length ?tbl"
      "buckets (dbTable_getPtr objs') tbl' cs'" "mset (concat cs') = mset es + mset (concat ?cs)"
    using Cons.IH [of ?objs "no_next_entry x" ?tbl ?cs] b u(1) Cons.prems(5) by auto
  have "reinsert tbl objs cur = Some (tbl', objs')"
    by (subst reinsert.simps) (simp add: x r(1) k Let_def del: One_nat_def)
  moreover have "same_names (dbTable_getPtr objs) (dbTable_getPtr objs')"
    using same_names_next [where g = "dbTable_getPtr objs" and n = "tbl ! ?k", OF x(3)] r(3)
    unfolding u by (rule same_names_trans)
  ultimately show ?case using r m by auto
qed

lemma buckets_empty: "buckets g (replicate n 0) (replicate n [])"
  by (simp add: buckets_def list_all2_conv_all_nth)

lemma rebuild_correct:
  assumes "tbl_inv objs" and "buckets (dbTable_getPtr objs) tbl cs" and "0 < n"
  shows "\<exists>objs1 entries tbl' objs' cs'. unlink_all objs tbl = Some (objs1, entries) \<and>
    reinsert (replicate n 0) objs1 entries = Some (tbl', objs') \<and> tbl_inv objs' \<and> length tbl' = n \<and>
    same_names (dbTable_getPtr objs) (dbTable_getPtr objs') \<and> buckets (dbTable_getPtr objs') tbl' cs' \<and>
    mset (concat cs') = mset (concat cs)"
proof -
  from assms(2) have d: "distinct (concat cs @ [])" and l: "list_all2 (chain (dbTable_getPtr objs)) tbl cs"
    by (simp_all add: buckets_def)
  have "chain (dbTable_getPtr objs) 0 []" by simp
  from unlink_all_correct [OF l assms(1) this d] obtain objs1 entries where
    u: "unlink_all objs tbl = Some (objs1, entries)" "tbl_inv objs1"
      "same_names (dbTable_getPtr objs) (dbTable_getPtr objs1)"
      "chain (dbTable_getPtr objs1) entries (rev (concat cs))" by (auto simp: unlink_all_def)
  have "distinct (rev (concat cs) @ concat (replicate n []))" using d by simp
  from reinsert_correct [OF u(2,4) buckets_empty this] \<open>0 < n\<close> obtain tbl' objs' cs' where
    r: "reinsert (replicate n 0) objs1 entries = Some (tbl', objs')" "tbl_inv objs'" "length tbl' = n"
      "same_names (dbTable_getPtr objs1) (dbTable_getPtr objs')" "buckets (dbTable_getPtr objs') tbl' cs'"
      "mset (concat cs') = mset (concat cs)" by auto
  show ?thesis using u(1) r same_names_trans [OF u(3) r(4)] by blast
qed

section \<open>The invariant\<close>

text \<open>
  \<open>ht_members h M\<close>: the objects of the table are exactly those with the ids \<open>M\<close>, each on the chain of its hash,
  and \<open>num_entries_\<close> counts them. \<open>ht_load\<close>: the size is a power of two, and the chains are at most
  four long on average, rounded down.
\<close>

definition ht_members :: "dbHashTable \<Rightarrow> nat set \<Rightarrow> bool" where
  "ht_members h M \<longleftrightarrow> tbl_inv (ht_obj_tbl h) \<and>
     (\<exists>cs. buckets (dbTable_getPtr (ht_obj_tbl h)) (ht_hash_tbl h) cs \<and> set (concat cs) = M \<and>
           ht_num_entries h = length (concat cs))"

definition ht_load :: "dbHashTable \<Rightarrow> bool" where
  "ht_load h \<longleftrightarrow> ht_hash_tbl h = [] \<or>
     (\<exists>k. length (ht_hash_tbl h) = 2 ^ k) \<and> ht_num_entries h div length (ht_hash_tbl h) \<le> kChainLength"

definition ht_name :: "dbHashTable \<Rightarrow> nat \<Rightarrow> string option" where
  "ht_name h i = map_option no_name (dbTable_getPtr (ht_obj_tbl h) i)"

lemma ht_name_same: "same_names (dbTable_getPtr (ht_obj_tbl h)) (dbTable_getPtr (ht_obj_tbl h')) \<longleftrightarrow> ht_name h' = ht_name h"
  by (auto simp: same_names_def ht_name_def fun_eq_iff)

lemma ht_membersE:
  assumes "ht_members h M"
  obtains cs where "tbl_inv (ht_obj_tbl h)" "buckets (dbTable_getPtr (ht_obj_tbl h)) (ht_hash_tbl h) cs"
    "length cs = length (ht_hash_tbl h)" "set (concat cs) = M" "ht_num_entries h = length (concat cs)"
    "distinct (concat cs)" "\<And>k. k < length cs \<Longrightarrow> chain (dbTable_getPtr (ht_obj_tbl h)) (ht_hash_tbl h ! k) (cs ! k)"
    "\<And>k i. k < length cs \<Longrightarrow> i \<in> set (cs ! k) \<Longrightarrow> bucket_of (length cs) (dbTable_getPtr (ht_obj_tbl h)) i = k"
  using assms by (auto simp: ht_members_def buckets_def list_all2_conv_all_nth)

lemma ht_membersI:
  assumes "tbl_inv (ht_obj_tbl h)" and "buckets (dbTable_getPtr (ht_obj_tbl h)) (ht_hash_tbl h) cs"
    and "mset (concat cs) = mset ids" and "set ids = M" and "ht_num_entries h = length ids"
  shows "ht_members h M"
  using assms mset_eq_setD [OF assms(3)] mset_eq_length [OF assms(3)] unfolding ht_members_def by metis

lemma ht_members_card: "ht_members h M \<Longrightarrow> finite M \<and> ht_num_entries h = card M"
  by (auto simp: ht_members_def buckets_def simp flip: distinct_card)

lemma ht_members_ids:
  assumes "ht_members h M" and "i \<in> M"
  shows "i \<noteq> 0 \<and> (\<exists>x. dbTable_getPtr (ht_obj_tbl h) i = Some x)"
proof -
  from assms(1) obtain cs where "set (concat cs) = M"
    "\<forall>k < length cs. chain (dbTable_getPtr (ht_obj_tbl h)) (ht_hash_tbl h ! k) (cs ! k)"
    by (elim ht_membersE) blast
  moreover from this assms(2) obtain k where "k < length cs" "i \<in> set (cs ! k)" using in_concat_nth by metis
  ultimately show ?thesis using chain_in by blast
qed

lemma resize_correct:
  assumes "ht_members h M" and "0 < n"
  shows "\<exists>objs1 entries tbl objs. unlink_all (ht_obj_tbl h) (ht_hash_tbl h) = Some (objs1, entries) \<and>
    reinsert (replicate n 0) objs1 entries = Some (tbl, objs) \<and> length tbl = n \<and>
    ht_members (h\<lparr>ht_hash_tbl := tbl, ht_obj_tbl := objs\<rparr>) M \<and>
    ht_name (h\<lparr>ht_hash_tbl := tbl, ht_obj_tbl := objs\<rparr>) = ht_name h"
proof -
  from assms(1) obtain cs where h: "tbl_inv (ht_obj_tbl h)"
    "buckets (dbTable_getPtr (ht_obj_tbl h)) (ht_hash_tbl h) cs" "set (concat cs) = M"
    "ht_num_entries h = length (concat cs)" by (elim ht_membersE) blast
  from rebuild_correct [OF h(1,2) assms(2)] obtain objs1 entries tbl objs cs' where
    r: "unlink_all (ht_obj_tbl h) (ht_hash_tbl h) = Some (objs1, entries)"
      "reinsert (replicate n 0) objs1 entries = Some (tbl, objs)" "tbl_inv objs" "length tbl = n"
      "same_names (dbTable_getPtr (ht_obj_tbl h)) (dbTable_getPtr objs)" "buckets (dbTable_getPtr objs) tbl cs'"
      "mset (concat cs') = mset (concat cs)" by blast
  let ?h = "h\<lparr>ht_hash_tbl := tbl, ht_obj_tbl := objs\<rparr>"
  have "ht_members ?h M" using r h by - (rule ht_membersI [where ids = "concat cs" and cs = cs'], simp_all)
  moreover have "ht_name ?h = ht_name h" using ht_name_same [of h ?h] r(5) by simp
  ultimately show ?thesis using r(1,2,4) by blast
qed

lemma growTable_correct:
  assumes "ht_members h M" and "ht_hash_tbl h \<noteq> []"
  shows "\<exists>h'. growTable h = Some h' \<and> ht_members h' M \<and> ht_name h' = ht_name h \<and>
    length (ht_hash_tbl h') = 2 * length (ht_hash_tbl h) \<and> ht_num_entries h' = ht_num_entries h"
proof -
  let ?n = "length (ht_hash_tbl h)"
  have "0 < ?n + ?n" using assms(2) by simp
  from resize_correct [OF assms(1) this] show ?thesis
    by (fastforce simp: growTable_def Let_def replicate_add)
qed

lemma shrinkTable_correct:
  assumes "ht_members h M" and "1 < length (ht_hash_tbl h)"
  shows "\<exists>h'. shrinkTable h = Some h' \<and> ht_members h' M \<and> ht_name h' = ht_name h \<and>
    length (ht_hash_tbl h') = length (ht_hash_tbl h) div 2 \<and> ht_num_entries h' = ht_num_entries h"
proof -
  have "0 < length (ht_hash_tbl h) div 2" using assms(2) by simp
  from resize_correct [OF assms(1) this] show ?thesis
    by (fastforce simp: shrinkTable_def Let_def)
qed

section \<open>The operations\<close>

lemma find_in_bucket_correct:
  assumes "chain (dbTable_getPtr objs) cur ids"
  shows "find_in_bucket objs name cur =
    Some (case find (\<lambda>i. c_str (no_name (the (dbTable_getPtr objs i))) = c_str name) ids of None \<Rightarrow> 0 | Some i \<Rightarrow> i)"
  using assms
proof (induction ids arbitrary: cur)
  case Nil
  then show ?case by (subst find_in_bucket.simps) simp
next
  case (Cons i ids)
  then obtain x where x: "cur = i" "i \<noteq> 0" "dbTable_getPtr objs i = Some x"
    "chain (dbTable_getPtr objs) (no_next_entry x) ids" by auto
  then show ?case using Cons.IH [OF x(4)] by (subst find_in_bucket.simps) simp
qed

lemma dbHashTable_find_correct:
  assumes "ht_members h M"
  shows "\<exists>i. dbHashTable_find h name = Some i \<and>
    (if \<exists>j \<in> M. map_option c_str (ht_name h j) = Some (c_str name)
     then i \<in> M \<and> map_option c_str (ht_name h i) = Some (c_str name) else i = 0)"
proof (cases "ht_hash_tbl h = []")
  case True
  with assms have "M = {}" by (auto simp: ht_members_def buckets_def)
  with True show ?thesis by (simp add: dbHashTable_find_def)
next
  case False
  let ?g = "dbTable_getPtr (ht_obj_tbl h)" and ?n = "length (ht_hash_tbl h)"
  let ?k = "hash_index name (?n - 1)" and ?P = "\<lambda>i. c_str (no_name (the (dbTable_getPtr (ht_obj_tbl h) i))) = c_str name"
  from assms obtain cs where cs: "length cs = ?n" "set (concat cs) = M"
    "\<forall>k < length cs. chain ?g (ht_hash_tbl h ! k) (cs ! k)"
    "\<forall>k < length cs. \<forall>i \<in> set (cs ! k). bucket_of (length cs) ?g i = k" by (elim ht_membersE) blast
  have k: "?k < ?n" using False by (simp add: hash_index_less del: One_nat_def)
  have f: "dbHashTable_find h name = Some (case find ?P (cs ! ?k) of None \<Rightarrow> 0 | Some i \<Rightarrow> i)"
    using False k cs(1,3) find_in_bucket_correct [of "ht_obj_tbl h" "ht_hash_tbl h ! ?k" "cs ! ?k" name]
    by (simp add: dbHashTable_find_def Let_def)
  have named: "map_option c_str (ht_name h i) = Some (c_str name) \<longleftrightarrow> ?P i" if "i \<in> M" for i
    using ht_members_ids [OF assms that] by (auto simp: ht_name_def)
  have mem: "i \<in> M" if "i \<in> set (cs ! ?k)" for i using that k cs(1,2) by auto
  show ?thesis
  proof (cases "find ?P (cs ! ?k)")
    case None
    have "\<not> ?P j" if j: "j \<in> M" for j
    proof
      assume p: "?P j"
      from j cs(2) obtain m where m: "m < length cs" "j \<in> set (cs ! m)" using in_concat_nth by metis
      then have "bucket_of (length cs) ?g j = m" using cs(4) by simp
      then have "m = ?k" using hash_index_c_str [OF p] cs(1) by (simp add: bucket_of_def)
      with m(2) p None show False by (auto simp: find_None_iff)
    qed
    with None f named show ?thesis by auto
  next
    case (Some i)
    then have "i \<in> set (cs ! ?k)" "?P i" by (auto simp: find_Some_iff)
    with Some f mem named show ?thesis by auto
  qed
qed

lemma dbHashTable_hasMember_find:
  "dbHashTable_hasMember h name = map_option (\<lambda>i. i \<noteq> 0) (dbHashTable_find h name)"
  by (simp add: dbHashTable_hasMember_def dbHashTable_find_def Let_def)

lemma div_le_four: "0 < sz \<Longrightarrow> n div sz \<le> 4 \<longleftrightarrow> n < 5 * (sz :: nat)"
  using div_less_iff_less_mult [of sz n 5] by (auto simp: mult.commute)

lemma grow_or_not:
  assumes "ht_members h M" and "ht_load h"
  defines "h1 \<equiv> h\<lparr>ht_num_entries := ht_num_entries h + 1\<rparr>"
  shows "\<exists>h'. (if length (ht_hash_tbl h1) = 0 then Some (h1\<lparr>ht_hash_tbl := [0]\<rparr>)
          else if ht_num_entries h1 div length (ht_hash_tbl h1) > kChainLength then growTable h1
          else Some h1) = Some h' \<and> ht_hash_tbl h' \<noteq> [] \<and> ht_load h' \<and> ht_name h' = ht_name h \<and>
        ht_num_entries h' = ht_num_entries h + 1 \<and> ht_members (h'\<lparr>ht_num_entries := ht_num_entries h\<rparr>) M"
proof -
  let ?n = "length (ht_hash_tbl h)"
  have name1: "ht_name h1 = ht_name h" by (simp add: h1_def ht_name_def fun_eq_iff)
  consider "ht_hash_tbl h = []" | "ht_hash_tbl h \<noteq> []" "(ht_num_entries h + 1) div ?n > kChainLength"
    | "ht_hash_tbl h \<noteq> []" "(ht_num_entries h + 1) div ?n \<le> kChainLength" by fastforce
  then show ?thesis
  proof cases
    case 1
    then have "M = {}" "ht_num_entries h = 0" "tbl_inv (ht_obj_tbl h)"
      using assms(1) by (auto simp: ht_members_def buckets_def)
    moreover have "ht_members (h1\<lparr>ht_hash_tbl := [0], ht_num_entries := 0\<rparr>) {}"
      using calculation(3) buckets_empty [of "dbTable_getPtr (ht_obj_tbl h)" 1]
      by - (rule ht_membersI [where cs = "[[]]" and ids = "[]"], simp_all add: h1_def)
    ultimately show ?thesis using 1
      by (simp add: h1_def ht_load_def ht_name_def fun_eq_iff kChainLength_def exI [of _ 0])
  next
    case 2
    from growTable_correct [OF assms(1) 2(1)] obtain g where
      g: "growTable h = Some g" "ht_members g M" "ht_name g = ht_name h"
        "length (ht_hash_tbl g) = 2 * ?n" "ht_num_entries g = ht_num_entries h" by blast
    define h' where "h' = g\<lparr>ht_num_entries := ht_num_entries h + 1\<rparr>"
    have "growTable h1 = Some h'" using g(1)
      by (auto simp: h'_def h1_def growTable_def Let_def bind_eq_Some_conv)
    moreover have "h'\<lparr>ht_num_entries := ht_num_entries h\<rparr> = g" using g(5) by (simp add: h'_def)
    moreover have "ht_name h' = ht_name h" using g(3) by (simp add: h'_def ht_name_def fun_eq_iff)
    moreover have "ht_load h'"
    proof -
      from assms(2) 2(1) obtain k where k: "?n = 2 ^ k" "ht_num_entries h < 5 * ?n"
        by (auto simp: ht_load_def kChainLength_def div_le_four)
      then have "length (ht_hash_tbl h') = 2 ^ Suc k" "ht_num_entries h' < 5 * length (ht_hash_tbl h')"
        using g(4) by (simp_all add: h'_def)
      then show ?thesis unfolding ht_load_def kChainLength_def by (metis div_le_four zero_less_power zero_less_numeral)
    qed
    ultimately show ?thesis using 2 g(2,4) by (auto simp: h1_def h'_def)
  next
    case 3
    then show ?thesis using assms(1,2) name1 by (auto simp: h1_def ht_load_def)
  qed
qed

lemma dbHashTable_insert_correct:
  assumes "ht_members h M" and "ht_load h" and "i \<notin> M" and "ht_name h i = Some name"
  shows "\<exists>h'. dbHashTable_insert h i = Some h' \<and> ht_members h' (insert i M) \<and> ht_load h' \<and> ht_name h' = ht_name h"
proof -
  let ?h1 = "h\<lparr>ht_num_entries := ht_num_entries h + 1\<rparr>"
  from grow_or_not [OF assms(1,2)] obtain h' where
    g: "(if length (ht_hash_tbl ?h1) = 0 then Some (?h1\<lparr>ht_hash_tbl := [0]\<rparr>)
          else if ht_num_entries ?h1 div length (ht_hash_tbl ?h1) > kChainLength then growTable ?h1
          else Some ?h1) = Some h'"
      "ht_hash_tbl h' \<noteq> []" "ht_load h'" "ht_name h' = ht_name h" "ht_num_entries h' = ht_num_entries h + 1"
      "ht_members (h'\<lparr>ht_num_entries := ht_num_entries h\<rparr>) M" by blast
  let ?g = "dbTable_getPtr (ht_obj_tbl h')" and ?tbl = "ht_hash_tbl h'"
  from assms(4) g(4) obtain x where x: "?g i = Some x" by (metis ht_name_def map_option_eq_Some)
  from g(6) obtain cs where cs: "tbl_inv (ht_obj_tbl h')" "buckets ?g ?tbl cs" "length cs = length ?tbl"
    "set (concat cs) = M" "ht_num_entries h = length (concat cs)" by (elim ht_membersE) simp
  have i0: "i \<noteq> 0" using x tbl.null [OF cs(1)] by (metis option.distinct(1))
  define k where "k = hash_index (no_name x) (length ?tbl - 1)"
  have k: "k < length ?tbl" using g(2) by (simp add: k_def hash_index_less del: One_nat_def)
  note u = set_next_entry [OF cs(1) x, of "?tbl ! k"]
  let ?h = "h'\<lparr>ht_hash_tbl := ?tbl[k := i], ht_obj_tbl := set_next_entry (ht_obj_tbl h') i (?tbl ! k)\<rparr>"
  have "i \<notin> set (concat cs)" using assms(3) cs(4) by simp
  from buckets_push [OF cs(2) this i0 x k_def k]
  have b: "buckets (dbTable_getPtr (ht_obj_tbl ?h)) (ht_hash_tbl ?h) (cs[k := i # cs ! k])" by (simp add: u(2))
  have m: "mset (concat (cs[k := i # cs ! k])) = mset (i # concat cs)" using k cs(3) by (simp add: concat_update_mset)
  have "ht_members ?h (insert i M)" using ht_membersI [OF _ b m] u(1) cs(4,5) g(5) by simp
  moreover have "dbHashTable_insert h i = Some ?h"
    unfolding dbHashTable_insert_def Let_def g(1) by (simp add: x k flip: k_def del: One_nat_def)
  moreover have "ht_load ?h" using g(3) by (simp add: ht_load_def)
  moreover have "ht_name ?h = ht_name h'"
    using same_names_next [where g = ?g and n = "?tbl ! k", OF x] ht_name_same [of h' ?h] by (simp add: u(2))
  ultimately show ?thesis using g(4) by auto
qed

section \<open>Removal\<close>

lemma chain_append: "chain g cur (xs @ ys) \<Longrightarrow> \<exists>m. chain g m ys"
  by (induction xs arbitrary: cur) auto

text \<open>The walk of \<open>remove\<close>, started after the ids \<open>pre\<close> of the bucket, the last of which is \<open>prev\<close>.\<close>

lemma chain_remove:
  assumes "chain g cur (xs @ p # i # ys)" and "distinct (xs @ p # i # ys)" and "g i = Some x" and "g p = Some y"
  shows "chain (g(p \<mapsto> y\<lparr>no_next_entry := no_next_entry x\<rparr>)) cur (xs @ p # ys)"
  using assms by (induction xs arbitrary: cur) (auto simp: chain_upd)

lemma unlink_object_correct:
  assumes "tbl_inv objs" and "chain (dbTable_getPtr objs) head (pre @ ids)" and "distinct (pre @ ids)"
    and "chain (dbTable_getPtr objs) cur ids" and "prev = (if pre = [] then 0 else last pre)" and "i \<notin> set pre"
  shows "\<exists>found. unlink_object objs i head prev cur = Some found \<and>
    (if i \<in> set ids then \<exists>head' objs'. found = Some (head', objs') \<and> tbl_inv objs' \<and>
       same_names (dbTable_getPtr objs) (dbTable_getPtr objs') \<and>
       chain (dbTable_getPtr objs') head' (remove1 i (pre @ ids)) \<and>
       (\<forall>j. j \<notin> set pre \<union> set ids \<longrightarrow> dbTable_getPtr objs' j = dbTable_getPtr objs j)
     else found = None)"
  using assms
proof (induction ids arbitrary: pre cur prev)
  case Nil
  then show ?case by (subst unlink_object.simps) simp
next
  case (Cons k ids)
  let ?g = "dbTable_getPtr objs"
  from Cons.prems(4) obtain x where x: "cur = k" "k \<noteq> 0" "?g k = Some x" "chain ?g (no_next_entry x) ids" by auto
  show ?case
  proof (cases "k = i")
    case False
    have "prev' = k \<Longrightarrow> ?thesis" for prev'
      using Cons.IH [of "pre @ [k]" "no_next_entry x" k] Cons.prems x False
      by (subst unlink_object.simps) auto
    then show ?thesis by blast
  next
    case True
    show ?thesis
    proof (cases pre rule: rev_cases)
      case Nil
      with True Cons.prems x show ?thesis by (subst unlink_object.simps) simp
    next
      case (snoc qs p)
      then have p: "p \<noteq> 0 \<and> (\<exists>y. ?g p = Some y)" using chain_in [OF Cons.prems(2), of p] by simp
      then obtain y where y: "?g p = Some y" by blast
      let ?objs = "set_next_entry objs p (no_next_entry x)"
      note u = set_next_entry [OF Cons.prems(1) y, of "no_next_entry x"]
      have "unlink_object objs i head prev cur = Some (Some (head, ?objs))"
        using snoc p y x True Cons.prems(5) by (subst unlink_object.simps) simp
      moreover have "remove1 i (pre @ k # ids) = qs @ p # ids"
        using snoc True Cons.prems(6) by (simp add: remove1_append)
      moreover have "chain (dbTable_getPtr ?objs) head (qs @ p # ids)"
        using chain_remove [of ?g head qs p i ids x y] Cons.prems(2,3) snoc True x(3) y by (simp add: u(2))
      moreover have "same_names ?g (dbTable_getPtr ?objs)"
        using same_names_next [where g = ?g, OF y] by (simp add: u(2))
      ultimately show ?thesis using True u snoc by auto
    qed
  qed
qed

lemma remove1_concat_mset:
  "k < length cs \<Longrightarrow> i \<in> set (cs ! k) \<Longrightarrow> add_mset i (mset (concat (cs[k := remove1 i (cs ! k)]))) = mset (concat cs)"
proof (induction cs arbitrary: k)
  case (Cons c cs)
  show ?case
  proof (cases k)
    case 0
    with Cons.prems show ?thesis by (simp flip: union_mset_add_mset_left)
  next
    case (Suc m)
    with Cons.prems Cons.IH [of m] show ?thesis by (simp flip: union_mset_add_mset_right)
  qed
qed simp

lemma buckets_remove:
  assumes b: "buckets g tbl cs" and k: "k < length tbl" "i \<in> set (cs ! k)"
    and c: "chain g' head (remove1 i (cs ! k))" and n: "same_names g g'"
    and same: "\<And>j. j \<notin> set (cs ! k) \<Longrightarrow> g' j = g j"
  shows "buckets g' (tbl[k := head]) (cs[k := remove1 i (cs ! k)])"
proof -
  let ?cs = "cs[k := remove1 i (cs ! k)]"
  from b have len: "length cs = length tbl" and ch: "\<And>j. j < length tbl \<Longrightarrow> chain g (tbl ! j) (cs ! j)"
    and d: "distinct (concat cs)" by (auto simp: buckets_def list_all2_conv_all_nth)
  have m: "mset (concat cs) = mset (i # concat ?cs)" using remove1_concat_mset [of k cs i] k len by simp
  have sub: "set (?cs ! m) \<subseteq> set (cs ! m)" if "m < length tbl" for m
    using that len set_remove1_subset [of i "cs ! k"] by (cases "m = k") auto
  have other: "set (cs ! m) \<inter> set (cs ! k) = {}" if "m < length tbl" "m \<noteq> k" for m
    using b that k(1) unfolding buckets_def by (metis disjoint_iff)
  have "chain g' (tbl[k := head] ! m) (?cs ! m)" if "m < length tbl" for m
    using that len k(1) c ch [OF that] other [OF that] chain_cong [of "cs ! m" g' g "tbl ! m"] same
    by (cases "m = k") auto
  moreover have "distinct (concat ?cs)" using d mset_eq_imp_distinct_iff [OF m] by simp
  moreover have "bucket_of (length tbl) g' j = m" if "m < length tbl" "j \<in> set (?cs ! m)" for m j
  proof -
    have "j \<in> set (cs ! m)" using sub that by blast
    then show ?thesis
      using b that(1) chain_in [OF ch [OF that(1)]] bucket_of_same_names [OF n, of j] by (fastforce simp: buckets_def)
  qed
  ultimately show ?thesis using len by (simp add: buckets_def list_all2_conv_all_nth)
qed

lemma dbHashTable_remove_correct:
  assumes "ht_members h M" and "ht_load h" and "i \<in> M"
  shows "\<exists>h'. dbHashTable_remove h i = Some h' \<and> ht_members h' (M - {i}) \<and> ht_load h' \<and> ht_name h' = ht_name h"
proof -
  let ?g = "dbTable_getPtr (ht_obj_tbl h)" and ?tbl = "ht_hash_tbl h"
  let ?n = "length ?tbl"
  from assms(1) obtain cs where cs: "tbl_inv (ht_obj_tbl h)" "buckets ?g ?tbl cs" "length cs = ?n"
    "set (concat cs) = M" "ht_num_entries h = length (concat cs)" "distinct (concat cs)"
    "\<forall>k < length cs. chain ?g (?tbl ! k) (cs ! k)"
    "\<forall>k < length cs. \<forall>i \<in> set (cs ! k). bucket_of (length cs) ?g i = k" by (elim ht_membersE) blast
  from ht_members_ids [OF assms(1,3)] obtain x where x: "?g i = Some x" by blast
  from assms(3) cs(4) obtain k where k: "k < length cs" "i \<in> set (cs ! k)" using in_concat_nth by metis
  then have "bucket_of (length cs) ?g i = k" using cs(8) by simp
  then have hid: "hash_index (no_name x) (?n - 1) = k" by (simp add: bucket_of_def x cs(3))
  have "distinct (cs ! k)" using cs(6) k(1) by (simp add: distinct_concat_iff)
  then obtain head objs where
    u: "unlink_object (ht_obj_tbl h) i (?tbl ! k) 0 (?tbl ! k) = Some (Some (head, objs))" "tbl_inv objs"
      "same_names ?g (dbTable_getPtr objs)" "chain (dbTable_getPtr objs) head (remove1 i (cs ! k))"
      "\<And>j. j \<notin> set (cs ! k) \<Longrightarrow> dbTable_getPtr objs j = ?g j"
    using unlink_object_correct [OF cs(1), of "?tbl ! k" "[]" "cs ! k" "?tbl ! k" 0 i] cs(7) k by auto
  let ?h = "h\<lparr>ht_hash_tbl := ?tbl[k := head], ht_obj_tbl := objs, ht_num_entries := ht_num_entries h - 1\<rparr>"
  let ?r = "(ht_num_entries ?h + ht_num_entries ?h div 10) div ?n"
  let ?cs = "cs[k := remove1 i (cs ! k)]"
  have m: "mset (concat cs) = mset (i # concat ?cs)" using remove1_concat_mset [OF k] by simp
  have "buckets (dbTable_getPtr (ht_obj_tbl ?h)) (ht_hash_tbl ?h) ?cs"
    using buckets_remove [OF cs(2) _ k(2) u(4,3,5)] k(1) cs(3) by simp
  moreover have "distinct (i # concat ?cs)" using mset_eq_imp_distinct_iff [OF m] cs(6) by simp
  then have "set (concat ?cs) = M - {i}" using mset_eq_setD [OF m] cs(4) by auto
  moreover have "ht_num_entries ?h = length (concat ?cs)" using mset_eq_length [OF m] cs(5) by simp
  ultimately have mem: "ht_members ?h (M - {i})" using u(2) by - (rule ht_membersI [OF _ _ refl], simp_all)
  have name: "ht_name ?h = ht_name h" using u(3) ht_name_same [of h ?h] by simp
  have rem: "dbHashTable_remove h i = (if ?r < kChainLength div 2 \<and> ?n > 1 then shrinkTable ?h else Some ?h)"
    using k(1) cs(3) by (simp add: dbHashTable_remove_def x hid u(1) Let_def del: One_nat_def)
  from assms(2) k(1) cs(3) obtain q where q: "?n = 2 ^ q" "ht_num_entries h < 5 * ?n"
    by (auto simp: ht_load_def kChainLength_def div_le_four)
  show ?thesis
  proof (cases "?r < kChainLength div 2 \<and> ?n > 1")
    case True
    with shrinkTable_correct [OF mem] obtain h' where h': "shrinkTable ?h = Some h'" "ht_members h' (M - {i})"
      "ht_name h' = ht_name ?h" "length (ht_hash_tbl h') = ?n div 2" "ht_num_entries h' = ht_num_entries h - 1" by auto
    from True q(1) obtain p where p: "q = Suc p" by (cases q) auto
    have "0 < ?n" using q(1) by simp
    then have "ht_num_entries ?h + ht_num_entries ?h div 10 < 2 * ?n"
      using True div_less_iff_less_mult [of ?n "ht_num_entries ?h + ht_num_entries ?h div 10" 2]
      by (simp add: kChainLength_def)
    then have "ht_num_entries h - 1 < 2 * ?n" by simp
    then have "ht_load h'" using h'(4,5) q(1) p
      by (simp add: ht_load_def kChainLength_def div_le_four)
    with True h' rem name show ?thesis by auto
  next
    case False
    have "ht_load ?h" using q by (auto simp: ht_load_def kChainLength_def div_le_four)
    with False mem rem name show ?thesis by auto
  qed
qed

lemma dbHashTable_remove_absent:
  assumes "ht_members h M" and "i \<notin> M" and "ht_name h i = Some name" and "ht_hash_tbl h \<noteq> []"
  shows "dbHashTable_remove h i = Some h"
proof -
  let ?g = "dbTable_getPtr (ht_obj_tbl h)" and ?tbl = "ht_hash_tbl h"
  from assms(3) obtain x where x: "?g i = Some x" by (auto simp: ht_name_def)
  let ?k = "hash_index (no_name x) (length ?tbl - 1)"
  have k: "?k < length ?tbl" using assms(4) by (simp add: hash_index_less del: One_nat_def)
  from assms(1) obtain cs where cs: "tbl_inv (ht_obj_tbl h)" "length cs = length ?tbl" "set (concat cs) = M"
    "distinct (concat cs)" "\<forall>k < length cs. chain ?g (?tbl ! k) (cs ! k)" by (elim ht_membersE) blast
  have "distinct (cs ! ?k)" "i \<notin> set (cs ! ?k)" using cs(2-4) k assms(2) by (auto simp: distinct_concat_iff)
  then have "unlink_object (ht_obj_tbl h) i (?tbl ! ?k) 0 (?tbl ! ?k) = Some None"
    using unlink_object_correct [OF cs(1), of "?tbl ! ?k" "[]" "cs ! ?k" "?tbl ! ?k" 0 i] cs(2,5) k by auto
  then show ?thesis using k by (simp add: dbHashTable_remove_def x Let_def del: One_nat_def)
qed

section \<open>The contract\<close>

text \<open>
  What the owner of a name index relies on: \<open>members\<close> is the set of ids in the index, \<open>name\<close> the name of each
  object as a C string. No operation renames an object.
\<close>

locale name_index =
  fixes members :: "'h \<Rightarrow> nat set \<Rightarrow> bool"
    and name :: "'h \<Rightarrow> nat \<Rightarrow> string option"
    and lookup :: "'h \<Rightarrow> string \<Rightarrow> nat option"
    and add :: "'h \<Rightarrow> nat \<Rightarrow> 'h option"
    and del :: "'h \<Rightarrow> nat \<Rightarrow> 'h option"
  assumes lookup: "members h M \<Longrightarrow> \<exists>i. lookup h s = Some i \<and>
      (if \<exists>j \<in> M. name h j = Some (c_str s) then i \<in> M \<and> name h i = Some (c_str s) else i = 0)"
    and add: "members h M \<Longrightarrow> i \<notin> M \<Longrightarrow> name h i = Some n \<Longrightarrow>
      \<exists>h'. add h i = Some h' \<and> members h' (insert i M) \<and> name h' = name h"
    and del: "members h M \<Longrightarrow> i \<in> M \<Longrightarrow> \<exists>h'. del h i = Some h' \<and> members h' (M - {i}) \<and> name h' = name h"
    and proper: "members h M \<Longrightarrow> i \<in> M \<Longrightarrow> i \<noteq> 0 \<and> (\<exists>n. name h i = Some n)"
begin

definition unique :: "'h \<Rightarrow> nat set \<Rightarrow> bool" where
  "unique h M \<longleftrightarrow> inj_on (name h) M"

text \<open>With unique names the index is a finite map from names to ids.\<close>

lemma lookup_unique:
  assumes "members h M" and "unique h M" and "i \<in> M" and "name h i = Some (c_str s)"
  shows "lookup h s = Some i"
proof -
  from lookup [OF assms(1), of s] assms(3,4) obtain j where
    "lookup h s = Some j" "j \<in> M" "name h j = Some (c_str s)" by metis
  with assms(2-4) show ?thesis by (metis inj_onD unique_def)
qed

lemma lookup_absent: "members h M \<Longrightarrow> \<forall>j \<in> M. name h j \<noteq> Some (c_str s) \<Longrightarrow> lookup h s = Some 0"
  using lookup [of h M s] by auto

lemma add_lookup:
  assumes "members h M" and "unique h M" and "i \<notin> M" and "name h i = Some n"
    and "\<And>j. j \<in> M \<Longrightarrow> name h j \<noteq> Some n"
  shows "\<exists>h'. add h i = Some h' \<and> members h' (insert i M) \<and> unique h' (insert i M) \<and> name h' = name h \<and>
    (\<forall>s. lookup h' s = (if c_str s = n then Some i else lookup h s))"
proof -
  from add [OF assms(1,3,4)] obtain h' where
    h': "add h i = Some h'" "members h' (insert i M)" "name h' = name h" by blast
  have u: "unique h' (insert i M)" using assms(2,4,5) h'(3) by (force simp: unique_def inj_on_def)
  have "lookup h' s = (if c_str s = n then Some i else lookup h s)" for s
  proof (cases "\<exists>j \<in> insert i M. name h j = Some (c_str s)")
    case True
    then obtain j where j: "j \<in> insert i M" "name h j = Some (c_str s)" by blast
    then show ?thesis
      using lookup_unique [OF h'(2) u, of j s] lookup_unique [OF assms(1,2), of j s] assms(4,5) h'(3)
      by (cases "j = i") auto
  next
    case False
    then show ?thesis
      using lookup_absent [OF h'(2), of s] lookup_absent [OF assms(1), of s] assms(4) h'(3) by auto
  qed
  with h' u show ?thesis by blast
qed

lemma del_lookup:
  assumes "members h M" and "unique h M" and "i \<in> M" and "name h i = Some n"
  shows "\<exists>h'. del h i = Some h' \<and> members h' (M - {i}) \<and> unique h' (M - {i}) \<and> name h' = name h \<and>
    (\<forall>s. lookup h' s = (if c_str s = n then Some 0 else lookup h s))"
proof -
  from del [OF assms(1,3)] obtain h' where
    h': "del h i = Some h'" "members h' (M - {i})" "name h' = name h" by blast
  have u: "unique h' (M - {i})" using assms(2) h'(3) by (auto simp: unique_def inj_on_diff)
  have "lookup h' s = (if c_str s = n then Some 0 else lookup h s)" for s
  proof (cases "\<exists>j \<in> M - {i}. name h j = Some (c_str s)")
    case True
    then obtain j where j: "j \<in> M - {i}" "name h j = Some (c_str s)" by blast
    then have "c_str s \<noteq> n" using assms(2-4) by (auto simp: unique_def inj_on_def)
    with j show ?thesis
      using lookup_unique [OF h'(2) u, of j s] lookup_unique [OF assms(1,2), of j s] h'(3) by auto
  next
    case False
    then have "lookup h' s = Some 0" using lookup_absent [OF h'(2), of s] h'(3) by simp
    moreover have "lookup h s = Some 0" if "c_str s \<noteq> n"
      using False that assms(4) by - (rule lookup_absent [OF assms(1)], auto)
    ultimately show ?thesis by simp
  qed
  with h' u show ?thesis by blast
qed

text \<open>Adding an object and deleting it again leaves every lookup as it was.\<close>

lemma add_del:
  assumes "members h M" and "unique h M" and "i \<notin> M" and "name h i = Some n"
    and "\<And>j. j \<in> M \<Longrightarrow> name h j \<noteq> Some n"
  shows "\<exists>h' h''. add h i = Some h' \<and> del h' i = Some h'' \<and> members h'' M \<and> lookup h'' = lookup h"
proof -
  from add_lookup [OF assms] obtain h' where h': "add h i = Some h'" "members h' (insert i M)"
    "unique h' (insert i M)" "name h' = name h" "\<And>s. lookup h' s = (if c_str s = n then Some i else lookup h s)" by blast
  have "name h' i = Some n" using h'(4) assms(4) by simp
  from del_lookup [OF h'(2,3) _ this] obtain h'' where h'': "del h' i = Some h''" "members h'' (insert i M - {i})"
    "\<And>s. lookup h'' s = (if c_str s = n then Some 0 else lookup h' s)" by blast
  have "lookup h'' s = lookup h s" for s using h'(5) h''(3) lookup_absent [OF assms(1)] assms(5) by auto
  moreover have "insert i M - {i} = M" using assms(3) by blast
  ultimately show ?thesis using h' h'' by auto
qed

end

definition ht_cname :: "dbHashTable \<Rightarrow> nat \<Rightarrow> string option" where
  "ht_cname h i = map_option c_str (ht_name h i)"

definition ht_index :: "dbHashTable \<Rightarrow> nat set \<Rightarrow> bool" where
  "ht_index h M \<longleftrightarrow> ht_members h M \<and> ht_load h"

lemma ht_cname_cong: "ht_name h' = ht_name h \<Longrightarrow> ht_cname h' = ht_cname h"
  by (simp add: ht_cname_def fun_eq_iff)

interpretation names: name_index ht_index ht_cname dbHashTable_find dbHashTable_insert dbHashTable_remove
proof unfold_locales
  fix h :: dbHashTable and M i n s
  assume h: "ht_index h M"
  then have m: "ht_members h M" and l: "ht_load h" by (simp_all add: ht_index_def)
  show "\<exists>i. dbHashTable_find h s = Some i \<and>
      (if \<exists>j \<in> M. ht_cname h j = Some (c_str s) then i \<in> M \<and> ht_cname h i = Some (c_str s) else i = 0)"
    unfolding ht_cname_def by (rule dbHashTable_find_correct [OF m])
  show "\<exists>h'. dbHashTable_insert h i = Some h' \<and> ht_index h' (insert i M) \<and> ht_cname h' = ht_cname h"
    if "i \<notin> M" "ht_cname h i = Some n"
    using dbHashTable_insert_correct [OF m l that(1)] that(2) ht_cname_cong
    unfolding ht_index_def ht_cname_def by (metis map_option_eq_Some)
  show "\<exists>h'. dbHashTable_remove h i = Some h' \<and> ht_index h' (M - {i}) \<and> ht_cname h' = ht_cname h" if "i \<in> M"
    using dbHashTable_remove_correct [OF m l that] ht_cname_cong unfolding ht_index_def by metis
  show "i \<noteq> 0 \<and> (\<exists>n. ht_cname h i = Some n)" if "i \<in> M"
    using ht_members_ids [OF m that] by (auto simp: ht_cname_def ht_name_def)
qed

lemma ht_index_empty: "tbl_inv objs \<Longrightarrow> ht_index (mk_dbHashTable objs) {}"
  by (simp add: ht_index_def ht_members_def ht_load_def mk_dbHashTable_def buckets_def)

end
