(* ===== verification/JournalLog.thy ===== *)
theory JournalLog
  imports DbStream
begin

text \<open>
  The log of a journal (\<^verbatim>\<open>dbJournalLog.h\<close>, \<^verbatim>\<open>dbJournalLog.cpp\<close>) and the journal as a writer and
  a reader of it (\<^verbatim>\<open>dbJournal.cpp\<close>): bytes with a position. When the log checks itself (\<^verbatim>\<open>debug_\<close>) each
  value has a byte for its type in front. An action is a byte, its parameters, an end mark, and the place in the log where it
  starts, so that the log can be read backwards.

  \<^verbatim>\<open>Logger::error\<close> throws, \<^verbatim>\<open>Logger::critical\<close> ends the program; reading outside the log and asking
  a table for an id it does not hold are errors of their own. \<open>Unmodelled\<close> marks the branches that are left out.
\<close>

datatype eco_error = LogError nat | LogCritical nat | BadId | BadLog | Unmodelled | NoFuel

section \<open>Values\<close>

datatype LogDataType = kLogBool | kLogChar | kLogUChar | kLogInt | kLogUInt | kLogFloat | kLogDouble | kLogString

primrec log_type_byte :: "LogDataType \<Rightarrow> byte" where
  "log_type_byte kLogBool = 0"
| "log_type_byte kLogChar = 1"
| "log_type_byte kLogUChar = 2"
| "log_type_byte kLogInt = 3"
| "log_type_byte kLogUInt = 4"
| "log_type_byte kLogFloat = 5"
| "log_type_byte kLogDouble = 6"
| "log_type_byte kLogString = 7"

record dbJournalLog =
  jl_data :: "byte list"
  jl_idx :: int
  jl_debug :: bool

definition mk_dbJournalLog :: "bool \<Rightarrow> dbJournalLog" where
  "mk_dbJournalLog debug = \<lparr>jl_data = [], jl_idx = 0, jl_debug = debug\<rparr>"

definition log_size :: "dbJournalLog \<Rightarrow> int" where
  "log_size l = int (length (jl_data l))"

definition push_back :: "byte list \<Rightarrow> dbJournalLog \<Rightarrow> dbJournalLog" where
  "push_back bs l = l\<lparr>jl_data := jl_data l @ bs\<rparr>"

definition set_type :: "LogDataType \<Rightarrow> dbJournalLog \<Rightarrow> dbJournalLog" where
  "set_type type l = (if jl_debug l then push_back [log_type_byte type] l else l)"

definition push_bool :: "bool \<Rightarrow> dbJournalLog \<Rightarrow> dbJournalLog" where
  "push_bool value l = push_back [if value then 1 else 0] (set_type kLogBool l)"

definition push_char :: "char \<Rightarrow> dbJournalLog \<Rightarrow> dbJournalLog" where
  "push_char value l = push_back [of_char value] (set_type kLogChar l)"

definition push_uchar :: "byte \<Rightarrow> dbJournalLog \<Rightarrow> dbJournalLog" where
  "push_uchar value l = push_back [value] (set_type kLogUChar l)"

definition push_int :: "int \<Rightarrow> dbJournalLog \<Rightarrow> dbJournalLog" where
  "push_int value l = push_back (put_int value) (set_type kLogInt l)"

definition push_uint :: "32 word \<Rightarrow> dbJournalLog \<Rightarrow> dbJournalLog" where
  "push_uint value l = push_back (put_uint value) (set_type kLogUInt l)"

definition push_float :: "32 word \<Rightarrow> dbJournalLog \<Rightarrow> dbJournalLog" where
  "push_float value l = push_back (put_float value) (set_type kLogFloat l)"

definition push_double :: "64 word \<Rightarrow> dbJournalLog \<Rightarrow> dbJournalLog" where
  "push_double value l = push_back (put_double value) (set_type kLogDouble l)"

definition push_string :: "string option \<Rightarrow> dbJournalLog \<Rightarrow> dbJournalLog" where
  "push_string value l =
     (let l = set_type kLogString l
      in case value of
           None \<Rightarrow> push_int (- 1) l
         | Some s \<Rightarrow> let s = c_str s in push_back (map of_char s) (push_int (int (length s)) l))"

definition log_begin :: "dbJournalLog \<Rightarrow> dbJournalLog" where
  "log_begin l = l\<lparr>jl_idx := 0\<rparr>"

definition log_end :: "dbJournalLog \<Rightarrow> bool" where
  "log_end l \<longleftrightarrow> jl_idx l = log_size l"

definition log_set :: "int \<Rightarrow> dbJournalLog \<Rightarrow> dbJournalLog" where
  "log_set idx l = l\<lparr>jl_idx := idx\<rparr>"

definition moveBackOneInt :: "dbJournalLog \<Rightarrow> dbJournalLog" where
  "moveBackOneInt l = l\<lparr>jl_idx := jl_idx l - 4 - (if jl_debug l then 1 else 0)\<rparr>"

definition moveToEnd :: "dbJournalLog \<Rightarrow> dbJournalLog" where
  "moveToEnd l = l\<lparr>jl_idx := log_size l\<rparr>"

definition log_next :: "dbJournalLog \<Rightarrow> eco_error + byte \<times> dbJournalLog" where
  "log_next l =
     (if 0 \<le> jl_idx l \<and> jl_idx l < log_size l then Inr (jl_data l ! nat (jl_idx l), l\<lparr>jl_idx := jl_idx l + 1\<rparr>)
      else Inl BadLog)"

primrec log_nexts :: "nat \<Rightarrow> dbJournalLog \<Rightarrow> eco_error + byte list \<times> dbJournalLog" where
  "log_nexts 0 l = Inr ([], l)"
| "log_nexts (Suc n) l =
     and_then (log_next l) (\<lambda>(b, l). and_then (log_nexts n l) (\<lambda>(bs, l). Inr (b # bs, l)))"

definition check_type :: "LogDataType \<Rightarrow> dbJournalLog \<Rightarrow> eco_error + dbJournalLog" where
  "check_type expected_type l =
     (if jl_debug l then
        and_then (log_next l) (\<lambda>(type, l). if type \<noteq> log_type_byte expected_type then Inl (LogCritical 426) else Inr l)
      else Inr l)"

definition pop_bool :: "dbJournalLog \<Rightarrow> eco_error + bool \<times> dbJournalLog" where
  "pop_bool l = and_then (check_type kLogBool l) (\<lambda>l. and_then (log_next l) (\<lambda>(b, l). Inr (b = 1, l)))"

definition pop_char :: "dbJournalLog \<Rightarrow> eco_error + char \<times> dbJournalLog" where
  "pop_char l = and_then (check_type kLogChar l) (\<lambda>l. and_then (log_next l) (\<lambda>(b, l). Inr (char_of (unat b), l)))"

definition pop_uchar :: "dbJournalLog \<Rightarrow> eco_error + byte \<times> dbJournalLog" where
  "pop_uchar l = and_then (check_type kLogUChar l) log_next"

definition pop_int :: "dbJournalLog \<Rightarrow> eco_error + int \<times> dbJournalLog" where
  "pop_int l = and_then (check_type kLogInt l) (\<lambda>l.
     and_then (log_nexts 4 l) (\<lambda>(bs, l). Inr (sint (word_of_bytes bs :: 32 word), l)))"

definition pop_uint :: "dbJournalLog \<Rightarrow> eco_error + 32 word \<times> dbJournalLog" where
  "pop_uint l = and_then (check_type kLogUInt l) (\<lambda>l.
     and_then (log_nexts 4 l) (\<lambda>(bs, l). Inr (word_of_bytes bs, l)))"

definition pop_float :: "dbJournalLog \<Rightarrow> eco_error + 32 word \<times> dbJournalLog" where
  "pop_float l = and_then (check_type kLogFloat l) (\<lambda>l.
     and_then (log_nexts 4 l) (\<lambda>(bs, l). Inr (word_of_bytes bs, l)))"

definition pop_double :: "dbJournalLog \<Rightarrow> eco_error + 64 word \<times> dbJournalLog" where
  "pop_double l = and_then (check_type kLogDouble l) (\<lambda>l.
     and_then (log_nexts 8 l) (\<lambda>(bs, l). Inr (word_of_bytes bs, l)))"

text \<open>A string of negative length other than - 1 makes \<^verbatim>\<open>reserve\<close> throw.\<close>

definition pop_string :: "dbJournalLog \<Rightarrow> eco_error + string \<times> dbJournalLog" where
  "pop_string l = and_then (check_type kLogString l) (\<lambda>l.
     and_then (pop_int l) (\<lambda>(len, l).
     if len = - 1 then Inr ([], l)
     else if len < - 1 then Inl BadLog
     else and_then (log_nexts (nat len) l) (\<lambda>(bs, l). Inr (map (\<lambda>b. char_of (unat b)) bs, l))))"

section \<open>Actions\<close>

datatype Action =
  kCreateObject | kDeleteObject | kConnectObject | kDisconnectObject | kSwapObject | kUpdateField | kEndAction

primrec action_byte :: "Action \<Rightarrow> byte" where
  "action_byte kCreateObject = 0"
| "action_byte kDeleteObject = 1"
| "action_byte kConnectObject = 2"
| "action_byte kDisconnectObject = 3"
| "action_byte kSwapObject = 4"
| "action_byte kUpdateField = 5"
| "action_byte kEndAction = 6"

text \<open>A parameter, with the type that chooses among the overloads of \<^verbatim>\<open>pushParam\<close>.\<close>

datatype param = PBool bool | PChar char | PUChar byte | PInt int | PUInt "32 word" | PFloat "32 word"
  | PDouble "64 word" | PString "string option"

primrec pushParam :: "param \<Rightarrow> dbJournalLog \<Rightarrow> dbJournalLog" where
  "pushParam (PBool v) l = push_bool v l"
| "pushParam (PChar v) l = push_char v l"
| "pushParam (PUChar v) l = push_uchar v l"
| "pushParam (PInt v) l = push_int v l"
| "pushParam (PUInt v) l = push_uint v l"
| "pushParam (PFloat v) l = push_float v l"
| "pushParam (PDouble v) l = push_double v l"
| "pushParam (PString v) l = push_string v l"

record dbJournal =
  jn_log :: dbJournalLog
  jn_start_action :: bool
  jn_action_idx :: int

definition mk_dbJournal :: "bool \<Rightarrow> dbJournal" where
  "mk_dbJournal debug = \<lparr>jn_log = mk_dbJournalLog debug, jn_start_action = False, jn_action_idx = 0\<rparr>"

definition beginAction :: "Action \<Rightarrow> dbJournal \<Rightarrow> eco_error + dbJournal" where
  "beginAction action j =
     (if jn_start_action j then Inl (LogCritical 398)
      else Inr (j\<lparr>jn_start_action := True, jn_action_idx := log_size (jn_log j),
                  jn_log := push_uchar (action_byte action) (jn_log j)\<rparr>))"

definition endAction :: "dbJournal \<Rightarrow> dbJournal" where
  "endAction j =
     j\<lparr>jn_start_action := False,
       jn_log := push_uint (word_of_int (jn_action_idx j)) (push_uchar (action_byte kEndAction) (jn_log j))\<rparr>"

text \<open>Every writer begins an action, pushes its parameters and ends it.\<close>

definition write_action :: "Action \<Rightarrow> param list \<Rightarrow> dbJournal \<Rightarrow> eco_error + dbJournal" where
  "write_action action params j =
     and_then (beginAction action j) (\<lambda>j. Inr (endAction (j\<lparr>jn_log := fold pushParam params (jn_log j)\<rparr>)))"

definition action_of_byte :: "byte \<Rightarrow> Action option" where
  "action_of_byte b =
     find (\<lambda>a. action_byte a = b)
       [kCreateObject, kDeleteObject, kConnectObject, kDisconnectObject, kSwapObject, kUpdateField, kEndAction]"

type_synonym 's handler = "Action \<Rightarrow> dbJournalLog \<Rightarrow> 's \<Rightarrow> (eco_error + dbJournalLog) \<times> 's"

text \<open>
  The loop of \<^verbatim>\<open>undo\<close> from the last action to the first; what an action does is an argument. A byte that
  is no action is passed over by the \<^verbatim>\<open>switch\<close>. In a damaged log the loop may not end.
\<close>

definition do_action :: "'s handler \<Rightarrow> byte \<Rightarrow> 's \<Rightarrow> dbJournalLog \<Rightarrow> (eco_error + dbJournalLog) \<times> 's" where
  "do_action h action s l =
     (case action_of_byte action of None \<Rightarrow> (Inr l, s) | Some a \<Rightarrow> h a l s)"

partial_function (option) undo_from ::
  "'s handler \<Rightarrow> dbJournalLog \<Rightarrow> 's \<Rightarrow> ((eco_error + unit) \<times> 's) option" where
  "undo_from h l s =
     (case pop_uint l of
        Inl e \<Rightarrow> Some (Inl e, s)
      | Inr (action_idx, l) \<Rightarrow>
          (case pop_uchar (log_set (uint action_idx) l) of
             Inl e \<Rightarrow> Some (Inl e, s)
           | Inr (action, l) \<Rightarrow>
               (case do_action h action s l of
                  (Inl e, s) \<Rightarrow> Some (Inl e, s)
                | (Inr l, s) \<Rightarrow>
                    if action_idx = 0 then Some (Inr (), s)
                    else undo_from h (moveBackOneInt (log_set (uint action_idx) l)) s)))"

declare undo_from.simps [code]

definition undo_log :: "'s handler \<Rightarrow> dbJournalLog \<Rightarrow> 's \<Rightarrow> ((eco_error + unit) \<times> 's) option" where
  "undo_log h l s = (if jl_data l = [] then Some (Inr (), s) else undo_from h (moveBackOneInt (moveToEnd l)) s)"

text \<open>The loop of \<^verbatim>\<open>redo\<close>, which checks the end mark of every action.\<close>

partial_function (option) redo_from ::
  "'s handler \<Rightarrow> dbJournalLog \<Rightarrow> 's \<Rightarrow> ((eco_error + unit) \<times> 's) option" where
  "redo_from h l s =
     (if log_end l then Some (Inr (), s)
      else
        case pop_uchar l of
          Inl e \<Rightarrow> Some (Inl e, s)
        | Inr (action, l') \<Rightarrow>
            if action = action_byte kEndAction then Some (Inl (LogCritical 399), s)
            else
              (case do_action h action s l' of
                 (Inl e, s) \<Rightarrow> Some (Inl e, s)
               | (Inr l', s) \<Rightarrow>
                   (case and_then (pop_uchar l') (\<lambda>(end_action, l').
                         and_then (pop_uint l') (\<lambda>(action_idx, l'). Inr (end_action, action_idx, l'))) of
                      Inl e \<Rightarrow> Some (Inl e, s)
                    | Inr (end_action, action_idx, l') \<Rightarrow>
                        if end_action \<noteq> action_byte kEndAction \<or> uint action_idx \<noteq> jl_idx l
                        then Some (Inl (LogCritical 419), s)
                        else redo_from h l' s)))"

declare redo_from.simps [code]

definition redo_log :: "'s handler \<Rightarrow> dbJournalLog \<Rightarrow> 's \<Rightarrow> ((eco_error + unit) \<times> 's) option" where
  "redo_log h l s = redo_from h (log_begin l) s"

section \<open>Appending a log\<close>

partial_function (option) action_indices :: "dbJournalLog \<Rightarrow> int list \<Rightarrow> (eco_error + int list) option" where
  "action_indices other indices =
     (case pop_uint other of
        Inl e \<Rightarrow> Some (Inl e)
      | Inr (idx, other) \<Rightarrow>
          if idx = 0 then Some (Inr (0 # indices))
          else action_indices (moveBackOneInt (log_set (uint idx) other)) (uint idx # indices))"

declare action_indices.simps [code]

definition end_size :: "dbJournalLog \<Rightarrow> int" where
  "end_size l = 5 + (if jl_debug l then 2 else 0)"

fun copy_actions ::
  "int \<Rightarrow> int list \<Rightarrow> dbJournalLog \<Rightarrow> dbJournalLog \<Rightarrow> eco_error + dbJournalLog" where
  "copy_actions shift_idx indices other l =
     (if log_end other then Inr l
      else case indices of
        [] \<Rightarrow> Inl BadLog
      | supposed_idx # indices \<Rightarrow>
          let current_idx = jl_idx other;
              next_idx = (case indices of [] \<Rightarrow> log_size other | i # _ \<Rightarrow> i) - end_size other
          in if current_idx \<noteq> supposed_idx then Inl (LogCritical 438)
             else and_then (log_nexts (nat (next_idx - current_idx)) other) (\<lambda>(bs, other).
                  and_then (pop_uchar other) (\<lambda>(end_action, other).
                  and_then (pop_uint other) (\<lambda>(action_idx, other).
                  if end_action \<noteq> action_byte kEndAction \<or> uint action_idx \<noteq> current_idx then Inl (LogCritical 459)
                  else copy_actions shift_idx indices other
                         (push_uint (word_of_int (current_idx + shift_idx)) (push_uchar end_action (push_back bs l)))))))"

definition log_append :: "dbJournalLog \<Rightarrow> dbJournalLog \<Rightarrow> (eco_error + dbJournalLog) option" where
  "log_append l other =
     (if jl_debug l \<noteq> jl_debug other then Some (Inl (LogError 429))
      else if jl_data other = [] then Some (Inr l)
      else do {
        r \<leftarrow> action_indices (moveBackOneInt (moveToEnd other)) [];
        Some (and_then r (\<lambda>indices. copy_actions (log_size l) indices (log_begin other) l)) })"

end
