(* ===== verification/DbFreeList.thy ===== *)
theory DbFreeList
  imports DbTable
begin

text \<open>
  Which id a table hands out next. The free list is a stack: a new object takes the id on top of it, and the id of a
  destroyed object is put back on top. So the ids come back when a sequence of \<^verbatim>\<open>create\<close> and \<^verbatim>\<open>destroy\<close> is
  run backwards, which the journal relies on: an undone deletion must give the object its old id, because the actions before it
  in the log name it by that id. The locale \<open>recycling_table\<close> states this, and \<open>room\<close> compares the two stacks.
\<close>

definition tbl_free :: "'a dbTable \<Rightarrow> nat list \<Rightarrow> bool" where
  "tbl_free t xs \<longleftrightarrow> tbl_free_ok (tbl_slots t) (tbl_free_list t) xs"

lemma free_chain_unique: "free_chain s q p xs \<Longrightarrow> free_chain s q p ys \<Longrightarrow> xs = ys"
proof (induction xs arbitrary: q p ys)
  case Nil
  then show ?case by (cases ys) auto
next
  case (Cons x xs)
  then show ?case by (cases ys) auto
qed

lemma tbl_free_unique: "tbl_free t xs \<Longrightarrow> tbl_free t ys \<Longrightarrow> xs = ys"
  using free_chain_unique by (auto simp: tbl_free_def tbl_free_ok_def)

lemma tbl_free_ex: "tbl_inv t \<Longrightarrow> \<exists>xs. tbl_free t xs"
  by (simp add: tbl_free_def tbl_inv_def tbl_shape_def)

lemma tbl_free_okI:
  assumes "free_chain s q 0 xs" "distinct xs" "\<exists>ys. tbl_free_ok s q ys"
  shows "tbl_free_ok s q xs"
proof -
  obtain ys where ys: "tbl_free_ok s q ys" using assms(3) by blast
  then have "xs = ys" using assms(1) free_chain_unique unfolding tbl_free_ok_def by blast
  with ys show ?thesis by simp
qed

lemma tbl_freeI: "tbl_inv t \<Longrightarrow> free_chain (tbl_slots t) (tbl_free_list t) 0 xs \<Longrightarrow> distinct xs \<Longrightarrow> tbl_free t xs"
  using tbl_free_ex [of t] by (auto simp: tbl_free_def intro: tbl_free_okI)

lemma create_takes_head:
  assumes t: "tbl_inv t" and f: "tbl_free t (x # xs)" and c: "dbTable_create t a = (i, t')"
  shows "i = x \<and> tbl_free t' xs"
proof -
  have ch: "free_chain (tbl_slots t) (tbl_free_list t) 0 (x # xs)" "distinct (x # xs)"
    using f by (simp_all add: tbl_free_def tbl_free_ok_def del: free_chain.simps)
  then have "tbl_free_list t \<noteq> 0" by auto
  then obtain s q where p: "dbTable_popQ (tbl_slots t) (tbl_free_list t) = (s, q, i)"
    and t': "tbl_slots t' = s[i := Alloc a]" "tbl_free_list t' = q"
    using c by (auto simp: dbTable_create_def Let_def split: prod.splits)
  note pop = popQ_chain [OF ch p]
  have "free_chain (s[i := Alloc a]) q 0 xs" using pop(1,2) ch(2) by (simp add: free_chain_update)
  then have "free_chain (tbl_slots t') (tbl_free_list t') 0 xs" by (simp add: t')
  moreover have "tbl_inv t'" using dbTable_create_correct [OF t c] by blast
  ultimately have "tbl_free t' xs" using ch(2) by (intro tbl_freeI) simp_all
  with pop(1) show ?thesis by simp
qed

lemma destroy_puts_head:
  assumes t: "tbl_inv t" and i: "i \<in> tbl_ids t" and f: "tbl_free t xs" and d: "dbTable_destroy t i = Some t'"
  shows "tbl_free t' (i # xs)"
proof -
  have c: "free_chain (tbl_slots t) (tbl_free_list t) 0 xs" "distinct xs"
    and set: "set xs = {i. i \<noteq> 0 \<and> i < length (tbl_slots t) \<and> \<not> is_alloc (tbl_slots t) i}"
    using f by (simp_all add: tbl_free_def tbl_free_ok_def)
  have "tbl_shape t" using t by (simp add: tbl_inv_def)
  then have i': "i \<noteq> 0" "i < length (tbl_slots t)" "i \<notin> set xs"
    using i tbl_ids_not_0 set by (metis, auto simp: tbl_ids_def)
  obtain s q where p: "dbTable_pushQ (tbl_slots t) (tbl_free_list t) i = (s, q)" by fastforce
  have t': "tbl_slots t' = s" "tbl_free_list t' = q"
    using d p by (auto simp: dbTable_destroy_def Let_def bind_eq_Some_conv split: if_splits)
  have "free_chain (tbl_slots t') (tbl_free_list t') 0 (i # xs)"
    unfolding t' by (rule pushQ_chain [OF c i' p])
  moreover have "tbl_inv t'" using dbTable_destroy_correct [OF t i] d by auto
  ultimately show ?thesis using c(2) i'(3) by (intro tbl_freeI) (simp_all del: free_chain.simps)
qed

lemma update_free: "tbl_inv t \<Longrightarrow> tbl_free t xs \<Longrightarrow> tbl_free (dbTable_update t i f) xs"
proof (cases "dbTable_getPtr t i")
  case None
  then show "tbl_free t xs \<Longrightarrow> ?thesis" by (simp add: dbTable_update_def)
next
  case (Some a)
  assume t: "tbl_inv t" and f: "tbl_free t xs"
  have sh: "tbl_shape t" using t by (simp add: tbl_inv_def)
  have i: "i \<in> tbl_ids t" using Some getPtr_eq [OF sh, of i] by (simp split: if_splits)
  then have "i \<notin> set xs" using f by (auto simp: tbl_free_def tbl_free_ok_def tbl_ids_def)
  then have "free_chain (tbl_slots (dbTable_update t i f)) (tbl_free_list (dbTable_update t i f)) 0 xs" "distinct xs"
    using f Some by (simp_all add: tbl_free_def tbl_free_ok_def dbTable_update_def free_chain_update)
  moreover have "tbl_inv (dbTable_update t i f)" using dbTable_update_correct [OF t i] by blast
  ultimately show ?thesis by (intro tbl_freeI)
qed

section \<open>The contract\<close>

locale recycling_table = object_table lookup create destroy assign begin_id next_id inv
  for lookup :: "'t \<Rightarrow> nat \<Rightarrow> 'a option"
    and create :: "'t \<Rightarrow> 'a \<Rightarrow> nat \<times> 't"
    and destroy :: "'t \<Rightarrow> nat \<Rightarrow> 't option"
    and assign :: "'t \<Rightarrow> nat \<Rightarrow> ('a \<Rightarrow> 'a) \<Rightarrow> 't"
    and begin_id :: "'t \<Rightarrow> nat"
    and next_id :: "'t \<Rightarrow> nat \<Rightarrow> nat"
    and inv :: "'t \<Rightarrow> bool" +
  fixes free :: "'t \<Rightarrow> nat list \<Rightarrow> bool"
  assumes free_ex: "inv t \<Longrightarrow> \<exists>xs. free t xs"
    and free_unique: "free t xs \<Longrightarrow> free t ys \<Longrightarrow> xs = ys"
    and create_head: "inv t \<Longrightarrow> free t (x # xs) \<Longrightarrow> create t a = (i, t') \<Longrightarrow> i = x \<and> free t' xs"
    and destroy_head: "inv t \<Longrightarrow> lookup t i = Some a \<Longrightarrow> free t xs \<Longrightarrow> destroy t i = Some t' \<Longrightarrow> free t' (i # xs)"
    and assign_free: "inv t \<Longrightarrow> free t xs \<Longrightarrow> free (assign t i f) xs"
begin

text \<open>\<open>u\<close> hands out the same ids as \<open>t\<close> as long as \<open>t\<close> has some.\<close>

definition room :: "'t \<Rightarrow> 't \<Rightarrow> bool" where
  "room t u \<longleftrightarrow> (\<exists>xs ys. free t xs \<and> free u (xs @ ys))"

lemma room_refl: "inv t \<Longrightarrow> room t t"
  using free_ex [of t] unfolding room_def by (metis append_Nil2)

lemma room_assign: "inv t \<Longrightarrow> room t u \<Longrightarrow> room (assign t i f) u"
  using assign_free unfolding room_def by blast

lemma room_assign_rev: "inv t \<Longrightarrow> room (assign t i f) u \<Longrightarrow> room t u"
proof -
  assume t: "inv t" and r: "room (assign t i f) u"
  obtain xs where "free t xs" using free_ex [OF t] by blast
  moreover from this have "free (assign t i f) xs" using assign_free [OF t] by blast
  ultimately show ?thesis using r free_unique unfolding room_def by metis
qed

lemma assign_room: "inv u \<Longrightarrow> room t u \<Longrightarrow> room t (assign u i f)"
  using assign_free unfolding room_def by blast

text \<open>Undoing a \<open>create\<close>: \<open>u\<close> has as much room as the table after it.\<close>

lemma create_undone:
  assumes "inv t" and "create t a = (i, t')" and "inv u" and "room t' u" and "lookup u i = Some b" and "destroy u i = Some u'"
  shows "room t u'"
proof -
  obtain xs where xs: "free t xs" using free_ex [OF assms(1)] by blast
  obtain zs ys where z: "free t' zs" "free u (zs @ ys)" using assms(4) by (auto simp: room_def)
  have u': "free u' (i # zs @ ys)" using destroy_head [OF assms(3,5) z(2) assms(6)] .
  show ?thesis
  proof (cases xs)
    case Nil
    then show ?thesis using xs u' unfolding room_def by fastforce
  next
    case (Cons x ws)
    then have "i = x" "zs = ws" using create_head [OF assms(1) _ assms(2)] xs z(1) free_unique by (blast, metis)
    then show ?thesis using xs u' Cons unfolding room_def by fastforce
  qed
qed

text \<open>Undoing a \<open>destroy\<close> gives the object its id again.\<close>

lemma destroy_undone:
  assumes "inv t" and "lookup t i = Some a" and "destroy t i = Some t'" and "inv u" and "room t' u" and "create u b = (j, u')"
  shows "j = i \<and> room t u'"
proof -
  obtain xs where xs: "free t xs" using free_ex [OF assms(1)] by blast
  have "free t' (i # xs)" using destroy_head [OF assms(1,2) xs assms(3)] .
  then obtain ys where "free u (i # xs @ ys)" using assms(5) free_unique unfolding room_def by (metis append_Cons)
  then have "j = i \<and> free u' (xs @ ys)" using create_head [OF assms(4) _ assms(6)] by blast
  with xs show ?thesis unfolding room_def by blast
qed

end

interpretation ids: recycling_table dbTable_getPtr dbTable_create dbTable_destroy dbTable_update
  dbTable_begin dbTable_next tbl_inv tbl_free
proof unfold_locales
  fix t t' :: "'a dbTable" and i a xs
  assume t: "tbl_inv t" and l: "dbTable_getPtr t i = Some a" and "tbl_free t xs" and "dbTable_destroy t i = Some t'"
  moreover have "i \<in> tbl_ids t"
    using l getPtr_eq [of t i] t by (simp add: tbl_inv_def split: if_splits)
  ultimately show "tbl_free t' (i # xs)" by (intro destroy_puts_head)
qed (simp_all add: tbl_free_ex tbl_free_unique create_takes_head update_free)

end
