(* ===== verification/NetLinks.thy ===== *)
theory NetLinks
  imports DbFreeList
begin

text \<open>
  The lists of terminals. A net does not hold its terminals: it holds the id of the first one, and each terminal the
  ids of the next and the previous one of its net. The same code, with other field names, is in \<^verbatim>\<open>dbITerm.cpp\<close> and
  \<^verbatim>\<open>dbBTerm.cpp\<close> for nets and for module nets, so the fields are arguments of \<open>link_front\<close> and \<open>unlink\<close>.
  \<open>links\<close> is the list that starts at a head. \<open>lists_ok\<close> is the invariant: the list of a net holds every terminal that names the net,
  once, and no other. The locale \<open>link_fields\<close> proves it of both operations for any choice of the fields.
\<close>

section \<open>The operations\<close>

definition link_front ::
  "((nat \<Rightarrow> nat) \<Rightarrow> 't \<Rightarrow> 't) \<Rightarrow> ((nat \<Rightarrow> nat) \<Rightarrow> 't \<Rightarrow> 't) \<Rightarrow> nat \<Rightarrow> nat \<Rightarrow> 't dbTable \<Rightarrow> 't dbTable" where
  "link_front set_nx set_pv head t tbl =
     (let tbl = dbTable_update tbl t (set_pv (\<lambda>_. 0) \<circ> set_nx (\<lambda>_. head))
      in if head \<noteq> 0 then dbTable_update tbl head (set_pv (\<lambda>_. t)) else tbl)"

definition unlink ::
  "('t \<Rightarrow> nat) \<Rightarrow> ('t \<Rightarrow> nat) \<Rightarrow> ((nat \<Rightarrow> nat) \<Rightarrow> 't \<Rightarrow> 't) \<Rightarrow> ((nat \<Rightarrow> nat) \<Rightarrow> 't \<Rightarrow> 't) \<Rightarrow>
   nat \<Rightarrow> nat \<Rightarrow> 't \<Rightarrow> 't dbTable \<Rightarrow> nat \<times> 't dbTable" where
  "unlink nx pv set_nx set_pv head t term tbl =
     (if head = t then
        (nx term, if nx term \<noteq> 0 then dbTable_update tbl (nx term) (set_pv (\<lambda>_. 0)) else tbl)
      else
        let tbl = (if nx term \<noteq> 0 then dbTable_update tbl (nx term) (set_pv (\<lambda>_. pv term)) else tbl);
            tbl = (if pv term \<noteq> 0 then dbTable_update tbl (pv term) (set_nx (\<lambda>_. nx term)) else tbl)
        in (head, tbl))"

section \<open>Chains\<close>

fun links :: "('t \<Rightarrow> nat) \<Rightarrow> ('t \<Rightarrow> nat) \<Rightarrow> (nat \<rightharpoonup> 't) \<Rightarrow> nat \<Rightarrow> nat \<Rightarrow> nat list \<Rightarrow> bool" where
  "links nx pv g h p [] \<longleftrightarrow> h = 0"
| "links nx pv g h p (x # xs) \<longleftrightarrow>
     h = x \<and> x \<noteq> 0 \<and> (\<exists>a. g x = Some a \<and> pv a = p \<and> links nx pv g (nx a) x xs)"

lemma links_cong: "\<forall>x \<in> set xs. g' x = g x \<Longrightarrow> links nx pv g' h p xs = links nx pv g h p xs"
  by (induction xs arbitrary: h p) auto

lemma links_in: "links nx pv g h p xs \<Longrightarrow> x \<in> set xs \<Longrightarrow> x \<noteq> 0 \<and> (\<exists>a. g x = Some a)"
  by (induction xs arbitrary: h p) auto

lemma chain_head: "links nx pv g h p xs \<Longrightarrow> h = (case xs of [] \<Rightarrow> 0 | x # _ \<Rightarrow> x)"
  by (cases xs) auto

lemma chain_unique: "links nx pv g h p xs \<Longrightarrow> links nx pv g h p ys \<Longrightarrow> xs = ys"
proof (induction xs arbitrary: h p ys)
  case Nil
  then show ?case by (cases ys) auto
next
  case (Cons x xs)
  then show ?case by (cases ys) auto
qed

lemma chain_map:
  assumes "\<forall>x a. g x = Some a \<longrightarrow> (\<exists>b. g' x = Some b \<and> nx' b = nx a \<and> pv' b = pv a)"
  shows "links nx pv g h p xs \<Longrightarrow> links nx' pv' g' h p xs"
  using assms by (induction xs arbitrary: h p) fastforce+

section \<open>The invariant\<close>

definition lists_ok :: "('t \<Rightarrow> nat) \<Rightarrow> ('t \<Rightarrow> nat) \<Rightarrow> ('t \<Rightarrow> nat) \<Rightarrow> (nat \<rightharpoonup> 't) \<Rightarrow> (nat \<rightharpoonup> nat) \<Rightarrow> bool" where
  "lists_ok own nx pv g heads \<longleftrightarrow>
     (\<forall>n h. heads n = Some h \<longrightarrow>
        (\<exists>xs. links nx pv g h 0 xs \<and> distinct xs \<and> set xs = {t. \<exists>a. g t = Some a \<and> own a = n})) \<and>
     (\<forall>t a. g t = Some a \<longrightarrow> own a = 0 \<or> heads (own a) \<noteq> None) \<and> heads 0 = None"

lemma lists_okE:
  assumes "lists_ok own nx pv g heads" "heads n = Some h"
  obtains xs where "links nx pv g h 0 xs" "distinct xs" "set xs = {t. \<exists>a. g t = Some a \<and> own a = n}" "n \<noteq> 0"
proof -
  have "heads 0 = None" using assms(1) by (simp add: lists_ok_def)
  then have "n \<noteq> 0" using assms(2) by (metis option.distinct(1))
  moreover have "\<exists>xs. links nx pv g h 0 xs \<and> distinct xs \<and> set xs = {t. \<exists>a. g t = Some a \<and> own a = n}"
    using assms unfolding lists_ok_def by blast
  ultimately show ?thesis using that by blast
qed

lemma lists_ok_own: "lists_ok own nx pv g heads \<Longrightarrow> g t = Some a \<Longrightarrow> own a = 0 \<or> (\<exists>h. heads (own a) = Some h)"
  by (simp add: lists_ok_def)

text \<open>The three fields are all that the invariant looks at.\<close>

lemma lists_ok_cong:
  assumes "\<And>t. map_option (\<lambda>a. (own a, nx a, pv a)) (g t) = map_option (\<lambda>a. (own' a, nx' a, pv' a)) (g' t)"
    and "lists_ok own nx pv g heads"
  shows "lists_ok own' nx' pv' g' heads"
proof -
  have g: "\<exists>b. g' t = Some b \<and> own' b = own a \<and> nx' b = nx a \<and> pv' b = pv a" if "g t = Some a" for t a
    using assms(1) [of t] that by (cases "g' t") auto
  have g': "\<exists>a. g t = Some a \<and> own' b = own a" if "g' t = Some b" for t b
    using assms(1) [of t] that by (cases "g t") auto
  have mem: "{t. \<exists>a. g' t = Some a \<and> own' a = n} = {t. \<exists>a. g t = Some a \<and> own a = n}" for n
  proof (intro set_eqI iffI)
    fix t
    assume "t \<in> {t. \<exists>a. g' t = Some a \<and> own' a = n}"
    then obtain b where "g' t = Some b" "own' b = n" by blast
    then show "t \<in> {t. \<exists>a. g t = Some a \<and> own a = n}" using g' [of t b] by auto
  next
    fix t
    assume "t \<in> {t. \<exists>a. g t = Some a \<and> own a = n}"
    then obtain a where "g t = Some a" "own a = n" by blast
    then show "t \<in> {t. \<exists>a. g' t = Some a \<and> own' a = n}" using g [of t a] by auto
  qed
  have ch: "links nx' pv' g' h p xs" if "links nx pv g h p xs" for h p xs
  proof (rule chain_map [OF _ that])
    show "\<forall>x a. g x = Some a \<longrightarrow> (\<exists>b. g' x = Some b \<and> nx' b = nx a \<and> pv' b = pv a)" using g by blast
  qed
  show ?thesis
    unfolding lists_ok_def mem
  proof (intro conjI allI impI)
    fix n h
    assume "heads n = Some h"
    then show "\<exists>xs. links nx' pv' g' h 0 xs \<and> distinct xs \<and> set xs = {t. \<exists>a. g t = Some a \<and> own a = n}"
      using assms(2) ch unfolding lists_ok_def by blast
  next
    fix t b
    assume "g' t = Some b"
    then obtain a where "g t = Some a" "own' b = own a" using g' by blast
    then show "own' b = 0 \<or> heads (own' b) \<noteq> None" using assms(2) unfolding lists_ok_def by metis
  qed (use assms(2) in \<open>simp add: lists_ok_def\<close>)
qed

text \<open>A new net has no terminals, and a net without terminals can be taken away.\<close>

lemma lists_ok_new:
  assumes "lists_ok own nx pv g heads" "heads n = None" "n \<noteq> 0"
  shows "lists_ok own nx pv g (heads(n \<mapsto> 0))"
proof -
  have none: "own a \<noteq> n" if "g t = Some a" for t a
    using lists_ok_own [OF assms(1) that] assms(2,3) by auto
  show ?thesis
    unfolding lists_ok_def
  proof (intro conjI allI impI)
    fix m h
    assume "(heads(n \<mapsto> 0)) m = Some h"
    then show "\<exists>xs. links nx pv g h 0 xs \<and> distinct xs \<and> set xs = {t. \<exists>a. g t = Some a \<and> own a = m}"
    proof (cases "m = n")
      case True
      then show ?thesis using \<open>(heads(n \<mapsto> 0)) m = Some h\<close> none by (intro exI [of _ "[]"]) auto
    next
      case False
      then show ?thesis using \<open>(heads(n \<mapsto> 0)) m = Some h\<close> assms(1) unfolding lists_ok_def by simp
    qed
  qed (use assms in \<open>auto simp: lists_ok_def\<close>)
qed

lemma lists_ok_del:
  assumes "lists_ok own nx pv g heads" "\<And>t a. g t = Some a \<Longrightarrow> own a \<noteq> n"
  shows "lists_ok own nx pv g (heads(n := None))"
  using assms unfolding lists_ok_def by simp

section \<open>Updates of a table\<close>

definition upd :: "(nat \<rightharpoonup> 't) \<Rightarrow> nat \<Rightarrow> ('t \<Rightarrow> 't) \<Rightarrow> nat \<rightharpoonup> 't" where
  "upd g i f = g(i := map_option f (g i))"

lemma upd_apply: "upd g i f j = (if j = i then map_option f (g i) else g j)"
  by (simp add: upd_def)

lemma upd_None: "g i = None \<Longrightarrow> upd g i f = g"
  by (auto simp: upd_def)

lemma table_update:
  assumes "tbl_inv t"
  shows "tbl_inv (dbTable_update t i f)" and "dbTable_getPtr (dbTable_update t i f) = upd (dbTable_getPtr t) i f"
proof -
  show "tbl_inv (dbTable_update t i f)"
    using tbl.assign [OF assms] assms by (cases "dbTable_getPtr t i") (auto simp: dbTable_update_def)
  show "dbTable_getPtr (dbTable_update t i f) = upd (dbTable_getPtr t) i f"
  proof (cases "dbTable_getPtr t i")
    case None
    then show ?thesis by (simp add: upd_None dbTable_update_def)
  next
    case (Some a)
    then show ?thesis using tbl.assign [OF assms Some, of f] by (simp add: upd_def)
  qed
qed

lemma getPtr_0 [simp]: "dbTable_getPtr t 0 = None"
  by (simp add: dbTable_getPtr_def)

section \<open>The operations on chains\<close>

locale link_fields =
  fixes own nx pv :: "'t \<Rightarrow> nat" and rest :: "'t \<Rightarrow> 'r"
    and set_own set_nx set_pv :: "(nat \<Rightarrow> nat) \<Rightarrow> 't \<Rightarrow> 't"
  assumes own: "own (set_own f a) = f (own a)" "own (set_nx f a) = own a" "own (set_pv f a) = own a"
    and nx: "nx (set_own f a) = nx a" "nx (set_nx f a) = f (nx a)" "nx (set_pv f a) = nx a"
    and pv: "pv (set_own f a) = pv a" "pv (set_nx f a) = pv a" "pv (set_pv f a) = f (pv a)"
    and rest: "rest (set_own f a) = rest a" "rest (set_nx f a) = rest a" "rest (set_pv f a) = rest a"
begin

lemmas fields = own nx pv rest

lemma chain_prev:
  assumes "links nx pv g h p xs" "distinct xs" "g 0 = None"
  shows "links nx pv (upd g h (set_pv (\<lambda>_. q))) h q xs"
proof (cases xs)
  case Nil
  then show ?thesis using assms by simp
next
  case (Cons x ys)
  with assms obtain a where a: "h = x" "x \<noteq> 0" "g x = Some a" "links nx pv g (nx a) x ys" "x \<notin> set ys" by auto
  have "links nx pv (upd g x (set_pv (\<lambda>_. q))) (nx a) x ys"
    using a(4,5) by (subst links_cong [of ys _ g]) (auto simp: upd_apply)
  then show ?thesis using Cons a by (simp add: upd_apply fields)
qed

lemma chain_front:
  assumes "links nx pv g h 0 xs" "distinct xs" "g 0 = None" "g t = Some a" "t \<notin> set xs"
  shows "links nx pv (upd (upd g t (set_pv (\<lambda>_. 0) \<circ> set_nx (\<lambda>_. h))) h (set_pv (\<lambda>_. t))) t 0 (t # xs)"
proof -
  let ?g1 = "upd g t (set_pv (\<lambda>_. 0) \<circ> set_nx (\<lambda>_. h))"
  have t0: "t \<noteq> 0" using assms(3,4) by (metis option.distinct(1))
  have ht: "h \<noteq> t" using chain_head [OF assms(1)] assms(5) t0 by (cases xs) auto
  have "links nx pv ?g1 h 0 xs" using assms(1,5) by (subst links_cong [of xs _ g]) (auto simp: upd_apply)
  then have "links nx pv (upd ?g1 h (set_pv (\<lambda>_. t))) h t xs"
    using assms(2,3) t0 by (intro chain_prev) (auto simp: upd_apply)
  then show ?thesis using t0 ht assms(4) by (simp add: upd_apply fields)
qed

text \<open>Taking the first element out, and taking another one out.\<close>

lemma chain_unlink_head:
  assumes "links nx pv g t 0 (t # xs)" "distinct (t # xs)" "g 0 = None" "g t = Some a"
  shows "links nx pv (upd g (nx a) (set_pv (\<lambda>_. 0))) (nx a) 0 xs"
  using assms by (intro chain_prev [of g "nx a" t]) auto

lemma chain_inner:
  assumes "links nx pv g h p (xs @ t # ys)" "g t = Some a"
  shows "pv a = (if xs = [] then p else last xs)" and "links nx pv g (nx a) t ys"
proof -
  have "pv a = (if xs = [] then p else last xs) \<and> links nx pv g (nx a) t ys"
    using assms
  proof (induction xs arbitrary: h p)
    case (Cons x xs)
    from Cons.prems(1) obtain b where "links nx pv g (nx b) x (xs @ t # ys)" by auto
    from Cons.IH [OF this assms(2)] show ?case by simp
  qed simp
  then show "pv a = (if xs = [] then p else last xs)" and "links nx pv g (nx a) t ys" by blast+
qed

lemma chain_unlink_inner:
  assumes "links nx pv g h p (xs @ t # ys)" "distinct (xs @ t # ys)" "g 0 = None" "g t = Some a" "xs \<noteq> []"
  shows "links nx pv (upd (upd g (nx a) (set_pv (\<lambda>_. pv a))) (pv a) (set_nx (\<lambda>_. nx a))) h p (xs @ ys)"
  using assms
proof (induction xs arbitrary: h p)
  case (Cons x xs)
  let ?g = "upd (upd g (nx a) (set_pv (\<lambda>_. pv a))) (pv a) (set_nx (\<lambda>_. nx a))"
  from Cons.prems(1) obtain b where b: "h = x" "x \<noteq> 0" "g x = Some b" "pv b = p" "links nx pv g (nx b) x (xs @ t # ys)" by auto
  note pa = chain_inner [OF b(5) assms(4)]
  have "nx a \<noteq> x" using chain_head [OF pa(2)] Cons.prems(2) b(2) by (cases ys) auto
  show ?case
  proof (cases "xs = []")
    case True
    with b(5) pa have p: "pv a = x" "nx b = t" by auto
    have "links nx pv (upd g (nx a) (set_pv (\<lambda>_. x))) (nx a) x ys"
      using Cons.prems(2) assms(3) by (intro chain_prev [OF pa(2)]) auto
    then have "links nx pv ?g (nx a) x ys"
      using Cons.prems(2) p by (subst links_cong [of ys _ "upd g (nx a) (set_pv (\<lambda>_. x))"]) (auto simp: upd_apply)
    moreover have "?g x = Some (set_nx (\<lambda>_. nx a) b)" using b p \<open>nx a \<noteq> x\<close> by (simp add: upd_apply)
    ultimately show ?thesis using True b by (simp add: fields)
  next
    case False
    have d: "distinct (xs @ t # ys)" using Cons.prems(2) by simp
    have IH: "links nx pv ?g (nx b) x (xs @ ys)" using Cons.IH [OF b(5) d assms(3,4) False] .
    have "pv a \<in> set xs" using pa(1) False by simp
    then have "pv a \<noteq> x" using Cons.prems(2) by auto
    then have "?g x = Some b" using b \<open>nx a \<noteq> x\<close> by (simp add: upd_apply)
    then show ?thesis using IH b by simp
  qed
qed simp

section \<open>The operations keep the invariant\<close>

abbreviation list_view :: "'t \<Rightarrow> nat \<times> 'r" where
  "list_view a \<equiv> (own a, rest a)"

lemma owners: "{t. \<exists>a. g t = Some a \<and> own a = n} = {t. map_option own (g t) = Some n}"
  by auto

lemma view_own: "map_option list_view x = map_option list_view y \<Longrightarrow> map_option own x = map_option own y"
  by (cases x; cases y) simp_all

lemma view_upd: "(\<And>a. list_view (f a) = list_view a) \<Longrightarrow> map_option list_view (upd g i f j) = map_option list_view (g j)"
  by (simp add: upd_apply option.map_comp comp_def)

lemma linked:
  assumes ok: "lists_ok own nx pv g heads" and h: "heads n = Some h" and a: "g t = Some a" "own a = 0" and g0: "g 0 = None"
  defines "g1 \<equiv> upd g t (set_own (\<lambda>_. n))"
  defines "g2 \<equiv> upd (upd g1 t (set_pv (\<lambda>_. 0) \<circ> set_nx (\<lambda>_. h))) h (set_pv (\<lambda>_. t))"
  shows "map_option list_view (g2 j) = (if j = t then Some (n, rest a) else map_option list_view (g j))"
    and "lists_ok own nx pv g2 (heads(n \<mapsto> t))"
proof -
  have v: "map_option list_view (g2 j) = (if j = t then Some (n, rest a) else map_option list_view (g j))" for j
    unfolding g2_def by (subst view_upd, simp add: fields, subst view_upd) (simp_all add: fields g1_def upd_apply a)
  then show "map_option list_view (g2 j) = (if j = t then Some (n, rest a) else map_option list_view (g j))" .
  then have o: "map_option own (g2 j) = (if j = t then Some n else map_option own (g j))" for j
    using v [of j] a(1) view_own [of "g2 j" "Some (set_own (\<lambda>_. n) a)"] view_own [of "g2 j" "g j"] by (auto simp: fields)
  obtain xs where xs: "links nx pv g h 0 xs" "distinct xs" "set xs = {t. \<exists>a. g t = Some a \<and> own a = n}" "n \<noteq> 0"
    by (rule lists_okE [OF ok h])
  have t: "t \<notin> set xs" using xs a by auto
  show "lists_ok own nx pv g2 (heads(n \<mapsto> t))"
    unfolding lists_ok_def owners
  proof (intro conjI allI impI)
    fix m k
    assume m: "(heads(n \<mapsto> t)) m = Some k"
    show "\<exists>xs. links nx pv g2 k 0 xs \<and> distinct xs \<and> set xs = {t. map_option own (g2 t) = Some m}"
    proof (cases "m = n")
      case True
      have "links nx pv g1 h 0 xs" using xs(1) t by (subst links_cong [of xs _ g]) (auto simp: g1_def upd_apply)
      then have "links nx pv g2 t 0 (t # xs)"
        unfolding g2_def using xs(2) t a g0 by (intro chain_front [where a = "set_own (\<lambda>_. n) a"]) (auto simp: g1_def upd_apply)
      moreover have "set (t # xs) = {t. map_option own (g2 t) = Some n}"
        using xs(3) unfolding o owners by auto
      ultimately show ?thesis using m True xs(2) t by (intro exI [of _ "t # xs"]) simp
    next
      case False
      then have "heads m = Some k" using m by simp
      then obtain ys where ys: "links nx pv g k 0 ys" "distinct ys" "set ys = {t. \<exists>a. g t = Some a \<and> own a = m}" "m \<noteq> 0"
        by (rule lists_okE [OF ok])
      have "t \<notin> set ys" using ys(3,4) a by auto
      moreover have "h \<notin> set ys"
      proof (cases xs)
        case Nil
        then show ?thesis using chain_head [OF xs(1)] links_in [OF ys(1)] by auto
      next
        case (Cons x zs)
        then have "h \<in> set xs" using chain_head [OF xs(1)] by simp
        then show ?thesis using xs(3) ys(3) False by auto
      qed
      ultimately have "links nx pv g2 k 0 ys"
        using ys(1) by (subst links_cong [of ys _ g]) (auto simp: g2_def g1_def upd_apply)
      moreover have "set ys = {t. map_option own (g2 t) = Some m}" using ys(3,4) False a unfolding o owners by auto
      ultimately show ?thesis using ys(2) by blast
    qed
  next
    fix u b
    assume "g2 u = Some b"
    then have "map_option own (if u = t then Some (set_own (\<lambda>_. n) a) else g u) = Some (own b)" using o [of u] by (auto simp: fields)
    then show "own b = 0 \<or> (heads(n \<mapsto> t)) (own b) \<noteq> None"
      using lists_ok_own [OF ok] by (fastforce simp: fields split: if_splits)
  next
    show "(heads(n \<mapsto> t)) 0 = None" using ok xs(4) by (simp add: lists_ok_def)
  qed
qed

lemma unlinked:
  assumes ok: "lists_ok own nx pv g heads" and h: "heads n = Some h" and a: "g t = Some a" "own a = n" and g0: "g 0 = None"
    and f: "\<And>a. own (f a) = 0" "\<And>a. rest (f a) = rest a"
  defines "g1 \<equiv> (if h = t then upd g (nx a) (set_pv (\<lambda>_. 0))
      else upd (upd g (nx a) (set_pv (\<lambda>_. pv a))) (pv a) (set_nx (\<lambda>_. nx a)))"
  defines "g2 \<equiv> upd g1 t f"
  shows "map_option list_view (g2 j) = (if j = t then Some (0, rest a) else map_option list_view (g j))"
    and "lists_ok own nx pv g2 (heads(n \<mapsto> if h = t then nx a else h))"
proof -
  have v1: "map_option list_view (g1 j) = map_option list_view (g j)" for j
    unfolding g1_def by (cases "h = t") (simp_all add: view_upd fields)
  have r: "map_option rest (g1 t) = Some (rest a)" using v1 [of t] a(1) by (cases "g1 t") simp_all
  have v: "map_option list_view (g2 j) = (if j = t then Some (0, rest a) else map_option list_view (g j))" for j
    using v1 r by (cases "g1 t") (simp_all add: g2_def upd_apply f)
  then show "map_option list_view (g2 j) = (if j = t then Some (0, rest a) else map_option list_view (g j))" .
  have o: "map_option own (g2 j) = (if j = t then Some 0 else map_option own (g j))" for j
    using v [of j] by (cases "g2 j"; cases "g j") (auto split: if_splits)
  obtain xs where xs: "links nx pv g h 0 xs" "distinct xs" "set xs = {t. \<exists>a. g t = Some a \<and> own a = n}" "n \<noteq> 0"
    by (rule lists_okE [OF ok h])
  have t: "t \<in> set xs" using xs a by auto
  then obtain us ws where xs': "xs = us @ t # ws" by (meson split_list)
  have nx: "links nx pv g (nx a) t ws" and pv: "pv a = (if us = [] then 0 else last us)"
    using chain_inner [of g h 0 us t ws a] xs(1) xs' a(1) by simp_all
  have nxa: "nx a \<in> set ws \<or> nx a = 0" using chain_head [OF nx] by (cases ws) auto
  have pva: "pv a \<in> set us \<or> pv a = 0" using pv by simp
  have new: "links nx pv g1 (if h = t then nx a else h) 0 (us @ ws)"
  proof (cases us)
    case Nil
    then have "h = t" using xs(1) xs' by simp
    then show ?thesis using chain_unlink_head [of g t ws a] xs(1,2) xs' Nil g0 a(1) by (simp add: g1_def)
  next
    case (Cons u us')
    then have "h \<noteq> t" using xs(1,2) xs' by auto
    then show ?thesis using chain_unlink_inner [of g h 0 us t ws a] xs(1,2) xs' Cons g0 a(1) by (simp add: g1_def)
  qed
  show "lists_ok own nx pv g2 (heads(n \<mapsto> if h = t then nx a else h))"
    unfolding lists_ok_def owners
  proof (intro conjI allI impI)
    fix m k
    assume m: "(heads(n \<mapsto> if h = t then nx a else h)) m = Some k"
    show "\<exists>xs. links nx pv g2 k 0 xs \<and> distinct xs \<and> set xs = {t. map_option own (g2 t) = Some m}"
    proof (cases "m = n")
      case True
      have "t \<notin> set (us @ ws)" using xs(2) xs' by simp
      then have "links nx pv g2 k 0 (us @ ws)"
        using new m True by (subst links_cong [of _ _ g1]) (auto simp: g2_def upd_apply)
      moreover have "set (us @ ws) = {t. map_option own (g2 t) = Some m}"
      proof -
        have "set (us @ ws) = set xs - {t}" using xs(2) xs' by auto
        then show ?thesis using xs(3,4) True unfolding o owners by auto
      qed
      ultimately show ?thesis using xs(2) xs' by (intro exI [of _ "us @ ws"]) simp
    next
      case False
      then have "heads m = Some k" using m by simp
      then obtain ys where ys: "links nx pv g k 0 ys" "distinct ys" "set ys = {t. \<exists>a. g t = Some a \<and> own a = m}" "m \<noteq> 0"
        by (rule lists_okE [OF ok])
      have dis: "set ys \<inter> set xs = {}" using xs(3) ys(3) False by auto
      have "nx a \<notin> set ys \<and> pv a \<notin> set ys \<and> t \<notin> set ys"
        using nxa pva dis xs' links_in [OF ys(1), of 0] by auto
      then have "links nx pv g2 k 0 ys"
        using ys(1) by (subst links_cong [of ys _ g]) (auto simp: g2_def g1_def upd_apply)
      moreover have "set ys = {t. map_option own (g2 t) = Some m}" using ys(3,4) False a unfolding o owners by auto
      ultimately show ?thesis using ys(2) by blast
    qed
  next
    fix u b
    assume "g2 u = Some b"
    then have "Some (own b) = (if u = t then Some 0 else map_option own (g u))" using o [of u] by simp
    then show "own b = 0 \<or> (heads(n \<mapsto> if h = t then nx a else h)) (own b) \<noteq> None"
      using lists_ok_own [OF ok, of u] by (cases "g u") (auto split: if_splits)
  next
    show "(heads(n \<mapsto> if h = t then nx a else h)) 0 = None" using ok xs(4) by (simp add: lists_ok_def)
  qed
qed

text \<open>The same for tables.\<close>

lemma link_front_ok:
  assumes "tbl_inv tbl" and "lists_ok own nx pv (dbTable_getPtr tbl) heads" and "heads n = Some h"
    and "dbTable_getPtr tbl t = Some a" and "own a = 0"
  defines "tbl' \<equiv> link_front set_nx set_pv h t (dbTable_update tbl t (set_own (\<lambda>_. n)))"
  shows "tbl_inv tbl'"
    and "map_option list_view (dbTable_getPtr tbl' j) = (if j = t then Some (n, rest a) else map_option list_view (dbTable_getPtr tbl j))"
    and "lists_ok own nx pv (dbTable_getPtr tbl') (heads(n \<mapsto> t))"
proof -
  let ?g1 = "upd (dbTable_getPtr tbl) t (set_own (\<lambda>_. n))"
  show "tbl_inv tbl'" using assms(1) by (simp add: tbl'_def link_front_def Let_def table_update)
  have "dbTable_getPtr tbl' = upd (upd ?g1 t (set_pv (\<lambda>_. 0) \<circ> set_nx (\<lambda>_. h))) h (set_pv (\<lambda>_. t))"
    using assms(1) by (cases "h = 0") (simp_all add: tbl'_def link_front_def Let_def table_update upd_None upd_apply)
  then show "map_option list_view (dbTable_getPtr tbl' j) = (if j = t then Some (n, rest a) else map_option list_view (dbTable_getPtr tbl j))"
    and "lists_ok own nx pv (dbTable_getPtr tbl') (heads(n \<mapsto> t))"
    using linked [OF assms(2-5) getPtr_0] by simp_all
qed

lemma unlink_ok:
  assumes "tbl_inv tbl" and "lists_ok own nx pv (dbTable_getPtr tbl) heads" and "heads n = Some h"
    and "dbTable_getPtr tbl t = Some a" and "own a = n" and "unlink nx pv set_nx set_pv h t a tbl = (h', tbl1)"
    and "\<And>a. own (f a) = 0" "\<And>a. rest (f a) = rest a"
  defines "tbl' \<equiv> dbTable_update tbl1 t f"
  shows "tbl_inv tbl'"
    and "map_option list_view (dbTable_getPtr tbl' j) = (if j = t then Some (0, rest a) else map_option list_view (dbTable_getPtr tbl j))"
    and "lists_ok own nx pv (dbTable_getPtr tbl') (heads(n \<mapsto> h'))"
proof -
  let ?g = "dbTable_getPtr tbl"
  have h': "h' = (if h = t then nx a else h)" using assms(6) by (auto simp: unlink_def Let_def split: if_splits)
  show "tbl_inv tbl'" using assms(1,6) by (auto simp: tbl'_def unlink_def Let_def table_update split: if_splits)
  have "dbTable_getPtr tbl' = upd (if h = t then upd ?g (nx a) (set_pv (\<lambda>_. 0))
      else upd (upd ?g (nx a) (set_pv (\<lambda>_. pv a))) (pv a) (set_nx (\<lambda>_. nx a))) t f"
    using assms(1,6)
    by (cases "nx a = 0"; cases "pv a = 0") (auto simp: tbl'_def unlink_def Let_def table_update upd_None upd_apply split: if_splits)
  then show "map_option list_view (dbTable_getPtr tbl' j) = (if j = t then Some (0, rest a) else map_option list_view (dbTable_getPtr tbl j))"
    and "lists_ok own nx pv (dbTable_getPtr tbl') (heads(n \<mapsto> h'))"
    using unlinked [OF assms(2-5) getPtr_0 assms(7,8)] by (simp_all add: h')
qed

end

end
