(* ===== verification/Netlist.thy ===== *)
theory Netlist
  imports DbObject JournalLog NetLinks
begin

text \<open>
  The netlist of a block (\<^verbatim>\<open>db/dbNet.cpp\<close>, \<^verbatim>\<open>db/dbITerm.cpp\<close>, \<^verbatim>\<open>db/dbBTerm.cpp\<close>): nets, module nets, and
  the terminals of instances (iterms) and of the block (bterms) on them. Every operation that changes it writes what it does to the journal
  of the block, when there is one. A step of the netlist returns an error or a value, and the state; what was done before an error stays done.

  The hash tables of names are lists of the ids in them, which is what \<open>DbHashTable\<close> shows a hash table to be for its clients.
  The observers (\<^verbatim>\<open>callbacks_\<close>) and the debug output are left out. So are the wires, guides, groups and global connections of a net, the pins of a
  bterm and the instance a block may be a child of: where the code deals with them the step fails with \<open>Unmodelled\<close>.
\<close>

unbundle bit_operations_syntax

section \<open>Data\<close>

record dbNet =
  nt_flags :: "32 word"
  nt_name :: string
  nt_iterms :: nat
  nt_bterms :: nat
  nt_ndr :: "32 word"
  nt_other :: bool

record dbITerm =
  itm_net :: nat
  itm_mnet :: nat
  itm_inst :: nat
  itm_next :: nat
  itm_prev :: nat
  itm_next_mod :: nat
  itm_prev_mod :: nat

record dbBTerm =
  btm_name :: string
  btm_net :: nat
  btm_mnet :: nat
  btm_next :: nat
  btm_prev :: nat
  btm_next_mod :: nat
  btm_prev_mod :: nat
  btm_bpins :: bool

record dbModNet =
  mnt_iterms :: nat
  mnt_bterms :: nat

record dbInst =
  ins_dont_touch :: bool

record netlist =
  nl_nets :: "dbNet dbTable"
  nl_modnets :: "dbModNet dbTable"
  nl_iterms :: "dbITerm dbTable"
  nl_bterms :: "dbBTerm dbTable"
  nl_insts :: "dbInst dbTable"
  nl_net_hash :: "nat list"
  nl_bterm_hash :: "nat list"
  nl_parent_inst :: bool
  nl_journal :: "dbJournal option"
  nl_journal_stack :: "dbJournal list"
  nl_journal_check :: bool

text \<open>The flags are one word; their places in it are those of the fields of \<^verbatim>\<open>_dbNetFlags\<close>.\<close>

datatype NetFlag =
  special | wild_connect | wire_ordered | disconnected | spef | select | mark | mark_1 | wire_altered | extracted | rc_graph |
  dont_touch | block_rule

primrec flag_bit :: "NetFlag \<Rightarrow> nat" where
  "flag_bit special = 8"
| "flag_bit wild_connect = 9"
| "flag_bit wire_ordered = 10"
| "flag_bit disconnected = 12"
| "flag_bit spef = 13"
| "flag_bit select = 14"
| "flag_bit mark = 15"
| "flag_bit mark_1 = 16"
| "flag_bit wire_altered = 17"
| "flag_bit extracted = 18"
| "flag_bit rc_graph = 19"
| "flag_bit dont_touch = 23"
| "flag_bit block_rule = 30"

definition get_flag :: "NetFlag \<Rightarrow> dbNet \<Rightarrow> bool" where
  "get_flag f net \<longleftrightarrow> bit (nt_flags net) (flag_bit f)"

definition put_flag :: "NetFlag \<Rightarrow> bool \<Rightarrow> 32 word \<Rightarrow> 32 word" where
  "put_flag f v flags = (if v then set_bit (flag_bit f) flags else unset_bit (flag_bit f) flags)"

text \<open>A new net is a signal (0), routed (3, from bit 4) and of no source.\<close>

definition mk_dbNet :: dbNet where
  "mk_dbNet = \<lparr>nt_flags = push_bit 4 3, nt_name = [], nt_iterms = 0, nt_bterms = 0, nt_ndr = 0, nt_other = False\<rparr>"

definition mk_dbBTerm :: dbBTerm where
  "mk_dbBTerm = \<lparr>btm_name = [], btm_net = 0, btm_mnet = 0, btm_next = 0, btm_prev = 0, btm_next_mod = 0, btm_prev_mod = 0,
     btm_bpins = False\<rparr>"

section \<open>Steps\<close>

type_synonym 'a step = "netlist \<Rightarrow> (eco_error + 'a) \<times> netlist"

definition step_return :: "'a \<Rightarrow> 'a step" where
  "step_return a s = (Inr a, s)"

definition step_fail :: "eco_error \<Rightarrow> 'a step" where
  "step_fail e s = (Inl e, s)"

definition step_then :: "'a step \<Rightarrow> ('a \<Rightarrow> 'b step) \<Rightarrow> 'b step" where
  "step_then m k s = (case m s of (Inl e, s) \<Rightarrow> (Inl e, s) | (Inr a, s) \<Rightarrow> k a s)"

primrec step_each :: "('a \<Rightarrow> unit step) \<Rightarrow> 'a list \<Rightarrow> unit step" where
  "step_each f [] = step_return ()"
| "step_each f (x # xs) = step_then (f x) (\<lambda>_. step_each f xs)"

text \<open>Reading an object by its id.\<close>

definition get_obj :: "(netlist \<Rightarrow> 'o dbTable) \<Rightarrow> nat \<Rightarrow> 'o step" where
  "get_obj tbl i s = (case dbTable_getPtr (tbl s) i of None \<Rightarrow> (Inl BadId, s) | Some a \<Rightarrow> (Inr a, s))"

text \<open>The block may have no journal.\<close>

definition journal :: "Action \<Rightarrow> param list \<Rightarrow> unit step" where
  "journal action params s =
     (case nl_journal s of
        None \<Rightarrow> (Inr (), s)
      | Some j \<Rightarrow> (case write_action action params j of Inl e \<Rightarrow> (Inl e, s) | Inr j \<Rightarrow> (Inr (), s\<lparr>nl_journal := Some j\<rparr>)))"

text \<open>The types of objects are pushed as \<^verbatim>\<open>int\<close>.\<close>

definition type_param :: "dbObjectType \<Rightarrow> param" where
  "type_param type = PInt (object_code type)"

definition id_param :: "nat \<Rightarrow> param" where
  "id_param i = PUInt (of_nat i)"

text \<open>The overloads of \<^verbatim>\<open>updateField\<close> differ in the type of the values.\<close>

definition updateField :: "dbObjectType \<Rightarrow> nat \<Rightarrow> int \<Rightarrow> param \<Rightarrow> param \<Rightarrow> unit step" where [simp]:
  "updateField type i field_id prev_value new_value =
     journal kUpdateField [type_param type, id_param i, PInt field_id, prev_value, new_value]"

section \<open>Linking terminals\<close>

definition link_iterm_net :: "nat \<Rightarrow> nat \<Rightarrow> unit step" where
  "link_iterm_net i n = step_then (get_obj nl_nets n) (\<lambda>net s.
     (Inr (), s\<lparr>nl_iterms := link_front itm_next_update itm_prev_update (nt_iterms net) i
                  (dbTable_update (nl_iterms s) i (itm_net_update (\<lambda>_. n))),
               nl_nets := dbTable_update (nl_nets s) n (nt_iterms_update (\<lambda>_. i))\<rparr>))"

definition unlink_iterm_net :: "nat \<Rightarrow> nat \<Rightarrow> unit step" where
  "unlink_iterm_net i n = step_then (get_obj nl_iterms i) (\<lambda>iterm. step_then (get_obj nl_nets n) (\<lambda>net s.
     let (head, iterms) = unlink itm_next itm_prev itm_next_update itm_prev_update (nt_iterms net) i iterm (nl_iterms s)
     in (Inr (), s\<lparr>nl_iterms := dbTable_update iterms i (itm_net_update (\<lambda>_. 0)),
                  nl_nets := dbTable_update (nl_nets s) n (nt_iterms_update (\<lambda>_. head))\<rparr>)))"

text \<open>\<^verbatim>\<open>connect(dbModNet*)\<close> sets \<^verbatim>\<open>mnet_\<close> earlier, before a check that may throw, so the first line of the link is a step of its own.\<close>

definition set_iterm_mnet :: "nat \<Rightarrow> nat \<Rightarrow> unit step" where
  "set_iterm_mnet i m s = (Inr (), s\<lparr>nl_iterms := dbTable_update (nl_iterms s) i (itm_mnet_update (\<lambda>_. m))\<rparr>)"

definition link_iterm_modnet :: "nat \<Rightarrow> nat \<Rightarrow> unit step" where
  "link_iterm_modnet i m = step_then (get_obj nl_modnets m) (\<lambda>mnet s.
     (Inr (), s\<lparr>nl_iterms := link_front itm_next_mod_update itm_prev_mod_update (mnt_iterms mnet) i (nl_iterms s),
               nl_modnets := dbTable_update (nl_modnets s) m (mnt_iterms_update (\<lambda>_. i))\<rparr>))"

text \<open>\<open>clear\<close> is the rest of the cleaning up, which \<^verbatim>\<open>disconnectDbModNet\<close> does and \<^verbatim>\<open>disconnect\<close> does not.\<close>

definition unlink_iterm_modnet :: "(dbITerm \<Rightarrow> dbITerm) \<Rightarrow> nat \<Rightarrow> nat \<Rightarrow> unit step" where
  "unlink_iterm_modnet clear i m = step_then (get_obj nl_iterms i) (\<lambda>iterm. step_then (get_obj nl_modnets m) (\<lambda>mnet s.
     let (head, iterms) =
       unlink itm_next_mod itm_prev_mod itm_next_mod_update itm_prev_mod_update (mnt_iterms mnet) i iterm (nl_iterms s)
     in (Inr (), s\<lparr>nl_iterms := dbTable_update iterms i (itm_mnet_update (\<lambda>_. 0) \<circ> clear),
                  nl_modnets := dbTable_update (nl_modnets s) m (mnt_iterms_update (\<lambda>_. head))\<rparr>)))"

definition link_bterm_net :: "nat \<Rightarrow> nat \<Rightarrow> unit step" where
  "link_bterm_net b n = step_then (get_obj nl_nets n) (\<lambda>net s.
     (Inr (), s\<lparr>nl_bterms := link_front btm_next_update btm_prev_update (nt_bterms net) b
                  (dbTable_update (nl_bterms s) b (btm_net_update (\<lambda>_. n))),
               nl_nets := dbTable_update (nl_nets s) n (nt_bterms_update (\<lambda>_. b))\<rparr>))"

definition unlink_bterm_net :: "nat \<Rightarrow> nat \<Rightarrow> unit step" where
  "unlink_bterm_net b n = step_then (get_obj nl_bterms b) (\<lambda>bterm. step_then (get_obj nl_nets n) (\<lambda>net s.
     let (head, bterms) = unlink btm_next btm_prev btm_next_update btm_prev_update (nt_bterms net) b bterm (nl_bterms s)
     in (Inr (), s\<lparr>nl_bterms := dbTable_update bterms b (btm_net_update (\<lambda>_. 0)),
                  nl_nets := dbTable_update (nl_nets s) n (nt_bterms_update (\<lambda>_. head))\<rparr>)))"

definition link_bterm_modnet :: "nat \<Rightarrow> nat \<Rightarrow> unit step" where
  "link_bterm_modnet b m = step_then (get_obj nl_modnets m) (\<lambda>mnet s.
     (Inr (), s\<lparr>nl_bterms := link_front btm_next_mod_update btm_prev_mod_update (mnt_bterms mnet) b
                  (dbTable_update (nl_bterms s) b (btm_mnet_update (\<lambda>_. m))),
               nl_modnets := dbTable_update (nl_modnets s) m (mnt_bterms_update (\<lambda>_. b))\<rparr>))"

definition unlink_bterm_modnet :: "nat \<Rightarrow> nat \<Rightarrow> unit step" where
  "unlink_bterm_modnet b m = step_then (get_obj nl_bterms b) (\<lambda>bterm. step_then (get_obj nl_modnets m) (\<lambda>mnet s.
     let (head, bterms) =
       unlink btm_next_mod btm_prev_mod btm_next_mod_update btm_prev_mod_update (mnt_bterms mnet) b bterm (nl_bterms s)
     in (Inr (), s\<lparr>nl_bterms := dbTable_update bterms b
                    (btm_mnet_update (\<lambda>_. 0) \<circ> btm_prev_mod_update (\<lambda>_. 0) \<circ> btm_next_mod_update (\<lambda>_. 0)),
                  nl_modnets := dbTable_update (nl_modnets s) m (mnt_bterms_update (\<lambda>_. head))\<rparr>)))"

section \<open>Terminals of instances\<close>

definition dbITerm_disconnectDbNet :: "nat \<Rightarrow> unit step" where
  "dbITerm_disconnectDbNet i = step_then (get_obj nl_iterms i) (\<lambda>iterm.
     if itm_net iterm = 0 then step_return ()
     else step_then (get_obj nl_insts (itm_inst iterm)) (\<lambda>inst.
       if ins_dont_touch inst then step_fail (LogError 1104)
       else step_then (get_obj nl_nets (itm_net iterm)) (\<lambda>net.
         if get_flag dont_touch net then step_fail (LogError 1105)
         else step_then (journal kDisconnectObject [type_param dbITermObj, id_param i, id_param (itm_net iterm), PInt 0]) (\<lambda>_.
           unlink_iterm_net i (itm_net iterm)))))"

definition dbITerm_disconnectDbModNet :: "nat \<Rightarrow> unit step" where
  "dbITerm_disconnectDbModNet i = step_then (get_obj nl_iterms i) (\<lambda>iterm.
     if itm_mnet iterm = 0 then step_return ()
     else step_then (get_obj nl_modnets (itm_mnet iterm)) (\<lambda>_.
       step_then (journal kDisconnectObject [type_param dbITermObj, id_param i, PInt 0, id_param (itm_mnet iterm)]) (\<lambda>_.
         unlink_iterm_modnet (itm_prev_mod_update (\<lambda>_. 0) \<circ> itm_next_mod_update (\<lambda>_. 0)) i (itm_mnet iterm))))"

text \<open>The id 0 is the null pointer.\<close>

definition dbITerm_connect :: "nat \<Rightarrow> nat \<Rightarrow> unit step" where
  "dbITerm_connect i n = step_then (get_obj nl_iterms i) (\<lambda>iterm. step_then (get_obj nl_insts (itm_inst iterm)) (\<lambda>inst.
     if n = 0 then step_fail (LogError 440)
     else step_then (get_obj nl_nets n) (\<lambda>net.
       if itm_net iterm = n then step_return ()
       else if ins_dont_touch inst then step_fail (LogError 369)
       else if get_flag dont_touch net then step_fail (LogError 373)
       else step_then (if itm_net iterm \<noteq> 0 then dbITerm_disconnectDbNet i else step_return ()) (\<lambda>_.
         step_then (journal kConnectObject [type_param dbITermObj, id_param i, id_param n, PInt 0]) (\<lambda>_.
           link_iterm_net i n)))))"

definition dbITerm_connect_modnet :: "nat \<Rightarrow> nat \<Rightarrow> unit step" where
  "dbITerm_connect_modnet i m = step_then (get_obj nl_iterms i) (\<lambda>iterm. step_then (get_obj nl_insts (itm_inst iterm)) (\<lambda>inst.
     step_then (get_obj nl_modnets m) (\<lambda>_.
       if itm_mnet iterm = m then step_return ()
       else step_then (if itm_mnet iterm \<noteq> 0 then dbITerm_disconnectDbModNet i else step_return ()) (\<lambda>_.
         step_then (set_iterm_mnet i m) (\<lambda>_.
         if ins_dont_touch inst then step_fail (LogError 397)
         else step_then (journal kConnectObject [type_param dbITermObj, id_param i, PInt 0, id_param m]) (\<lambda>_.
           link_iterm_modnet i m))))))"

definition dbITerm_connect_both :: "nat \<Rightarrow> nat \<Rightarrow> nat \<Rightarrow> unit step" where
  "dbITerm_connect_both i n m = step_then (dbITerm_connect_modnet i m) (\<lambda>_. dbITerm_connect i n)"

definition dbITerm_disconnect :: "nat \<Rightarrow> unit step" where
  "dbITerm_disconnect i = step_then (get_obj nl_iterms i) (\<lambda>iterm.
     if itm_net iterm = 0 \<and> itm_mnet iterm = 0 then step_return ()
     else step_then (get_obj nl_insts (itm_inst iterm)) (\<lambda>inst.
       if ins_dont_touch inst then step_fail (LogError 370)
       else step_then (if itm_net iterm = 0 then step_return False
             else step_then (get_obj nl_nets (itm_net iterm)) (\<lambda>net. step_return (get_flag dont_touch net))) (\<lambda>touched.
         if touched then step_fail (LogError 372)
         else step_then (journal kDisconnectObject [type_param dbITermObj, id_param i, id_param (itm_net iterm), id_param (itm_mnet iterm)]) (\<lambda>_.
           step_then (if itm_net iterm = 0 then step_return () else unlink_iterm_net i (itm_net iterm)) (\<lambda>_.
             if itm_mnet iterm = 0 then step_return () else unlink_iterm_modnet (\<lambda>iterm. iterm) i (itm_mnet iterm))))))"

section \<open>Terminals of the block\<close>

definition bterm_connectNet :: "nat \<Rightarrow> nat \<Rightarrow> unit step" where
  "bterm_connectNet b n =
     step_then (journal kConnectObject [type_param dbBTermObj, id_param b, id_param n, PUInt 0]) (\<lambda>_. link_bterm_net b n)"

definition bterm_connectModNet :: "nat \<Rightarrow> nat \<Rightarrow> unit step" where
  "bterm_connectModNet b m =
     step_then (journal kConnectObject [type_param dbBTermObj, id_param b, PUInt 0, id_param m]) (\<lambda>_. link_bterm_modnet b m)"

definition bterm_disconnectNet :: "nat \<Rightarrow> unit step" where
  "bterm_disconnectNet b = step_then (get_obj nl_bterms b) (\<lambda>bterm.
     if btm_net bterm = 0 then step_return ()
     else step_then (get_obj nl_nets (btm_net bterm)) (\<lambda>_.
       step_then (journal kDisconnectObject [type_param dbBTermObj, id_param b, id_param (btm_net bterm), PUInt 0]) (\<lambda>_.
         unlink_bterm_net b (btm_net bterm))))"

definition bterm_disconnectModNet :: "nat \<Rightarrow> unit step" where
  "bterm_disconnectModNet b = step_then (get_obj nl_bterms b) (\<lambda>bterm.
     if btm_mnet bterm = 0 then step_return ()
     else step_then (get_obj nl_modnets (btm_mnet bterm)) (\<lambda>_.
       step_then (journal kDisconnectObject [type_param dbBTermObj, id_param b, PUInt 0, id_param (btm_mnet bterm)]) (\<lambda>_.
         unlink_bterm_modnet b (btm_mnet bterm))))"

definition dbBTerm_disconnectDbNet :: "nat \<Rightarrow> unit step" where
  "dbBTerm_disconnectDbNet b = step_then (get_obj nl_bterms b) (\<lambda>bterm.
     if btm_net bterm = 0 then step_return ()
     else step_then (get_obj nl_nets (btm_net bterm)) (\<lambda>net.
       if get_flag dont_touch net then step_fail (LogError 1106) else bterm_disconnectNet b))"

definition dbBTerm_disconnectDbModNet :: "nat \<Rightarrow> unit step" where
  "dbBTerm_disconnectDbModNet b = bterm_disconnectModNet b"

definition dbBTerm_disconnect :: "nat \<Rightarrow> unit step" where
  "dbBTerm_disconnect b = step_then (get_obj nl_bterms b) (\<lambda>bterm.
     if btm_net bterm = 0 then step_return ()
     else step_then (get_obj nl_nets (btm_net bterm)) (\<lambda>net.
       if get_flag dont_touch net then step_fail (LogError 375)
       else step_then (bterm_disconnectNet b) (\<lambda>_.
         if btm_mnet bterm = 0 then step_return () else bterm_disconnectModNet b)))"

definition dbBTerm_connect :: "nat \<Rightarrow> nat \<Rightarrow> unit step" where
  "dbBTerm_connect b n =
     (if n = 0 then step_return ()
      else step_then (get_obj nl_bterms b) (\<lambda>bterm. step_then (get_obj nl_nets n) (\<lambda>net.
        if btm_net bterm = n then step_return ()
        else if get_flag dont_touch net then step_fail (LogError 377)
        else step_then (if btm_net bterm \<noteq> 0 then dbBTerm_disconnectDbNet b else step_return ()) (\<lambda>_.
          bterm_connectNet b n))))"

definition dbBTerm_connect_modnet :: "nat \<Rightarrow> nat \<Rightarrow> unit step" where
  "dbBTerm_connect_modnet b m =
     (if m = 0 then step_return ()
      else step_then (get_obj nl_bterms b) (\<lambda>bterm. step_then (get_obj nl_modnets m) (\<lambda>_.
        if btm_mnet bterm = m then step_return ()
        else step_then (if btm_mnet bterm \<noteq> 0 then bterm_disconnectModNet b else step_return ()) (\<lambda>_.
          bterm_connectModNet b m))))"

definition dbBTerm_connect_both :: "nat \<Rightarrow> nat \<Rightarrow> nat \<Rightarrow> unit step" where
  "dbBTerm_connect_both b n m = step_then (dbBTerm_connect b n) (\<lambda>_. dbBTerm_connect_modnet b m)"

text \<open>A table that outgrows the ids of \<^verbatim>\<open>uint32_t\<close> is outside the model.\<close>

definition new_id :: "nat \<Rightarrow> bool" where
  "new_id i \<longleftrightarrow> int i < 2 ^ 32"

definition bterm_named :: "netlist \<Rightarrow> string \<Rightarrow> nat \<Rightarrow> bool" where
  "bterm_named s name b = (map_option btm_name (dbTable_getPtr (nl_bterms s) b) = Some (c_str name))"

definition dbBTerm_create :: "nat \<Rightarrow> string \<Rightarrow> nat option step" where
  "dbBTerm_create n name = step_then (get_obj nl_nets n) (\<lambda>net s.
     if list_ex (bterm_named s name) (nl_bterm_hash s) then (Inr None, s)
     else if get_flag dont_touch net then (Inl (LogError 376), s)
     else step_then (journal kCreateObject [type_param dbBTermObj, id_param n, PString (Some name)]) (\<lambda>_ s.
       let (b, bterms) = dbTable_create (nl_bterms s) (mk_dbBTerm\<lparr>btm_name := c_str name\<rparr>)
       in if \<not> new_id b \<or> nl_parent_inst s then (Inl Unmodelled, s)
          else step_then (bterm_connectNet b n) (\<lambda>_. step_return (Some b))
                 (s\<lparr>nl_bterms := bterms, nl_bterm_hash := b # nl_bterm_hash s\<rparr>)) s)"

definition dbBTerm_destroy :: "nat \<Rightarrow> unit step" where
  "dbBTerm_destroy b = step_then (get_obj nl_bterms b) (\<lambda>bterm.
     step_then (if btm_net bterm = 0 then step_return False
         else step_then (get_obj nl_nets (btm_net bterm)) (\<lambda>net. step_return (get_flag dont_touch net))) (\<lambda>touched.
       if touched then step_fail (LogError 374)
       else if btm_bpins bterm then step_fail Unmodelled
       else step_then (if btm_net bterm = 0 then step_return () else bterm_disconnectNet b) (\<lambda>_.
         step_then (journal kDeleteObject [type_param dbBTermObj, id_param b]) (\<lambda>_ s.
           case dbTable_destroy (nl_bterms s) b of
             None \<Rightarrow> (Inl BadId, s)
           | Some bterms \<Rightarrow> (Inr (), s\<lparr>nl_bterm_hash := remove1 b (nl_bterm_hash s), nl_bterms := bterms\<rparr>)))))"

section \<open>Nets\<close>

definition net_named :: "netlist \<Rightarrow> string \<Rightarrow> nat \<Rightarrow> bool" where
  "net_named s name n = (map_option nt_name (dbTable_getPtr (nl_nets s) n) = Some (c_str name))"

definition has_net :: "netlist \<Rightarrow> string \<Rightarrow> bool" where
  "has_net s name = list_ex (net_named s name) (nl_net_hash s)"

definition dbNet_create :: "string \<Rightarrow> bool \<Rightarrow> nat option step" where
  "dbNet_create name skipExistingCheck s =
     (if \<not> skipExistingCheck \<and> has_net s name then (Inr None, s)
      else
        let (n, nets) = dbTable_create (nl_nets s) mk_dbNet
        in if \<not> new_id n then (Inl Unmodelled, s)
           else step_then (journal kCreateObject [type_param dbNetObj, PString (Some name), id_param n]) (\<lambda>_ s.
             (Inr (Some n), s\<lparr>nl_nets := dbTable_update (nl_nets s) n (nt_name_update (\<lambda>_. c_str name)),
                             nl_net_hash := n # nl_net_hash s\<rparr>)) (s\<lparr>nl_nets := nets\<rparr>))"

text \<open>
  The loops over the terminals of a net read the next id before they change the terminal. The fuel is the number of places in the table.
\<close>

fun disconnect_iterms :: "nat \<Rightarrow> nat \<Rightarrow> unit step" where
  "disconnect_iterms fuel i =
     (if i = 0 then step_return ()
      else case fuel of
        0 \<Rightarrow> step_fail NoFuel
      | Suc fuel \<Rightarrow> step_then (get_obj nl_iterms i) (\<lambda>iterm.
          step_then (dbITerm_disconnect i) (\<lambda>_. disconnect_iterms fuel (itm_next iterm))))"

fun destroy_bterms :: "nat \<Rightarrow> nat \<Rightarrow> unit step" where
  "destroy_bterms fuel b =
     (if b = 0 then step_return ()
      else case fuel of
        0 \<Rightarrow> step_fail NoFuel
      | Suc fuel \<Rightarrow> step_then (get_obj nl_bterms b) (\<lambda>bterm.
          step_then (dbBTerm_destroy b) (\<lambda>_. destroy_bterms fuel (btm_next bterm))))"

declare disconnect_iterms.simps [simp del] destroy_bterms.simps [simp del]

definition dbNet_destroy_terms :: "nat \<Rightarrow> unit step" where
  "dbNet_destroy_terms n = step_then (get_obj nl_nets n) (\<lambda>net s.
     if get_flag dont_touch net then (Inl (LogError 364), s)
     else step_then (disconnect_iterms (length (tbl_slots (nl_iterms s))) (nt_iterms net)) (\<lambda>_.
       step_then (get_obj nl_nets n) (\<lambda>net s.
         destroy_bterms (length (tbl_slots (nl_bterms s))) (nt_bterms net) s)) s)"

definition dbNet_delete :: "nat \<Rightarrow> unit step" where
  "dbNet_delete n = step_then (get_obj nl_nets n) (\<lambda>net.
     step_then (journal kDeleteObject
         [type_param dbNetObj, PString (Some (nt_name net)), id_param n, PUInt (nt_flags net), PUInt (nt_ndr net)]) (\<lambda>_ s.
       case dbTable_destroy (nl_nets s) n of
         None \<Rightarrow> (Inl BadId, s)
       | Some nets \<Rightarrow> (Inr (), s\<lparr>nl_net_hash := remove1 n (nl_net_hash s), nl_nets := nets\<rparr>)))"

definition dbNet_destroy :: "nat \<Rightarrow> unit step" where
  "dbNet_destroy n = step_then (dbNet_destroy_terms n) (\<lambda>_. step_then (get_obj nl_nets n) (\<lambda>net.
     if nt_other net then step_fail Unmodelled else dbNet_delete n))"

definition dbNet_rename :: "nat \<Rightarrow> string \<Rightarrow> bool step" where
  "dbNet_rename n name = step_then (get_obj nl_nets n) (\<lambda>net s.
     if has_net s name then (Inr False, s)
     else step_then (updateField dbNetObj n 6 (PString (Some (nt_name net))) (PString (Some name))) (\<lambda>_ s.
       let s = s\<lparr>nl_net_hash := remove1 n (nl_net_hash s)\<rparr>;
           s = s\<lparr>nl_nets := dbTable_update (nl_nets s) n (nt_name_update (\<lambda>_. c_str name))\<rparr>
       in (Inr True, s\<lparr>nl_net_hash := n # nl_net_hash s\<rparr>)) s)"

definition dbNet_swapNetNames :: "nat \<Rightarrow> nat \<Rightarrow> bool \<Rightarrow> unit step" where
  "dbNet_swapNetNames dest source ok_to_journal =
     step_then (get_obj nl_nets dest) (\<lambda>dest_net. step_then (get_obj nl_nets source) (\<lambda>source_net.
     step_then (if ok_to_journal then journal kSwapObject [type_param dbNameObj, type_param dbNetObj, id_param source, id_param dest]
                else step_return ()) (\<lambda>_ s.
     let hash = remove1 source (remove1 dest (nl_net_hash s));
         nets = dbTable_update (nl_nets s) dest (nt_name_update (\<lambda>_. nt_name source_net));
         nets = dbTable_update nets source (nt_name_update (\<lambda>_. nt_name dest_net))
     in (Inr (), s\<lparr>nl_nets := nets, nl_net_hash := source # dest # hash\<rparr>))))"

text \<open>
  The setters of the flags read the old word, change it and write both to the journal. \<^verbatim>\<open>setWireAltered\<close> changes two flags, and
  \<^verbatim>\<open>setDoNotTouch\<close> writes nothing to the journal.
\<close>

definition set_net_flags :: "nat \<Rightarrow> (32 word \<Rightarrow> 32 word) \<Rightarrow> unit step" where
  "set_net_flags n f = step_then (get_obj nl_nets n) (\<lambda>net s.
     updateField dbNetObj n 0 (PUInt (nt_flags net)) (PUInt (f (nt_flags net)))
       (s\<lparr>nl_nets := dbTable_update (nl_nets s) n (nt_flags_update f)\<rparr>))"

definition dbNet_setSpef :: "nat \<Rightarrow> bool \<Rightarrow> unit step" where
  "dbNet_setSpef n value = set_net_flags n (put_flag spef value)"

definition dbNet_setSelect :: "nat \<Rightarrow> bool \<Rightarrow> unit step" where
  "dbNet_setSelect n value = set_net_flags n (put_flag select value)"

definition dbNet_setMark :: "nat \<Rightarrow> bool \<Rightarrow> unit step" where
  "dbNet_setMark n value = set_net_flags n (put_flag mark value)"

definition dbNet_setMark_1 :: "nat \<Rightarrow> bool \<Rightarrow> unit step" where
  "dbNet_setMark_1 n value = set_net_flags n (put_flag mark_1 value)"

definition dbNet_setWireOrdered :: "nat \<Rightarrow> bool \<Rightarrow> unit step" where
  "dbNet_setWireOrdered n value = set_net_flags n (put_flag wire_ordered value)"

definition dbNet_setDisconnected :: "nat \<Rightarrow> bool \<Rightarrow> unit step" where
  "dbNet_setDisconnected n value = set_net_flags n (put_flag disconnected value)"

definition dbNet_setExtracted :: "nat \<Rightarrow> bool \<Rightarrow> unit step" where
  "dbNet_setExtracted n value = set_net_flags n (put_flag extracted value)"

definition dbNet_setRCgraph :: "nat \<Rightarrow> bool \<Rightarrow> unit step" where
  "dbNet_setRCgraph n value = set_net_flags n (put_flag rc_graph value)"

definition dbNet_setSpecial :: "nat \<Rightarrow> unit step" where
  "dbNet_setSpecial n = set_net_flags n (put_flag special True)"

definition dbNet_clearSpecial :: "nat \<Rightarrow> unit step" where
  "dbNet_clearSpecial n = set_net_flags n (put_flag special False)"

definition dbNet_setWildConnected :: "nat \<Rightarrow> unit step" where
  "dbNet_setWildConnected n = set_net_flags n (put_flag wild_connect True)"

definition dbNet_clearWildConnected :: "nat \<Rightarrow> unit step" where
  "dbNet_clearWildConnected n = set_net_flags n (put_flag wild_connect False)"

definition dbNet_setWireAltered :: "nat \<Rightarrow> bool \<Rightarrow> unit step" where
  "dbNet_setWireAltered n value =
     set_net_flags n (\<lambda>w. let w = put_flag wire_altered value w in if value then put_flag wire_ordered False w else w)"

text \<open>The fields of four bits: the type of the signal at bit 0, the type of the wire at bit 4.\<close>

definition put_nibble :: "nat \<Rightarrow> 32 word \<Rightarrow> 32 word \<Rightarrow> 32 word" where
  "put_nibble pos value flags = (flags AND NOT (push_bit pos 15)) OR push_bit pos (take_bit 4 value)"

definition dbNet_setSigType :: "nat \<Rightarrow> 32 word \<Rightarrow> unit step" where
  "dbNet_setSigType n sig_type = set_net_flags n (put_nibble 0 sig_type)"

definition dbNet_setWireType :: "nat \<Rightarrow> 32 word \<Rightarrow> unit step" where
  "dbNet_setWireType n wire_type = set_net_flags n (put_nibble 4 wire_type)"

definition dbNet_setDoNotTouch :: "nat \<Rightarrow> bool \<Rightarrow> unit step" where
  "dbNet_setDoNotTouch n v = step_then (get_obj nl_nets n) (\<lambda>_ s.
     (Inr (), s\<lparr>nl_nets := dbTable_update (nl_nets s) n (nt_flags_update (put_flag dont_touch v))\<rparr>))"

text \<open>The setter of a flag. The flag of a rule of the block has none.\<close>

primrec dbNet_setFlag :: "NetFlag \<Rightarrow> nat \<Rightarrow> bool \<Rightarrow> unit step" where
  "dbNet_setFlag special n v = (if v then dbNet_setSpecial n else dbNet_clearSpecial n)"
| "dbNet_setFlag wild_connect n v = (if v then dbNet_setWildConnected n else dbNet_clearWildConnected n)"
| "dbNet_setFlag wire_ordered n v = dbNet_setWireOrdered n v"
| "dbNet_setFlag disconnected n v = dbNet_setDisconnected n v"
| "dbNet_setFlag spef n v = dbNet_setSpef n v"
| "dbNet_setFlag select n v = dbNet_setSelect n v"
| "dbNet_setFlag mark n v = dbNet_setMark n v"
| "dbNet_setFlag mark_1 n v = dbNet_setMark_1 n v"
| "dbNet_setFlag wire_altered n v = dbNet_setWireAltered n v"
| "dbNet_setFlag extracted n v = dbNet_setExtracted n v"
| "dbNet_setFlag rc_graph n v = dbNet_setRCgraph n v"
| "dbNet_setFlag dont_touch n v = dbNet_setDoNotTouch n v"
| "dbNet_setFlag block_rule n v = step_fail Unmodelled"

text \<open>A rule is its id and whether it is a rule of the block. The journal gets the type and the id of the rule: without a rule it follows a null pointer.\<close>

definition dbNet_setNonDefaultRule :: "nat \<Rightarrow> (32 word \<times> bool) option \<Rightarrow> unit step" where
  "dbNet_setNonDefaultRule n rule = step_then (get_obj nl_nets n) (\<lambda>net s.
     let prev_rule = nt_ndr net;
         prev_block_rule = get_flag block_rule net;
         new_rule = (case rule of None \<Rightarrow> 0 | Some (r, _) \<Rightarrow> r);
         new_block_rule = (case rule of None \<Rightarrow> False | Some (_, b) \<Rightarrow> b);
         s = s\<lparr>nl_nets := dbTable_update (nl_nets s) n (nt_ndr_update (\<lambda>_. new_rule) \<circ> nt_flags_update (put_flag block_rule new_block_rule))\<rparr>
     in case (rule, nl_journal s) of
          (None, Some _) \<Rightarrow> (Inl BadId, s)
        | (_, _) \<Rightarrow> journal kUpdateField [type_param dbTechNonDefaultRuleObj, PUInt new_rule, PInt 1, PUInt prev_rule, PUInt new_rule,
            PBool prev_block_rule, PBool new_block_rule] s)"

section \<open>Merging nets\<close>

text \<open>The ids of a list of terminals.\<close>

fun follow :: "('t \<Rightarrow> nat) \<Rightarrow> 't dbTable \<Rightarrow> nat \<Rightarrow> nat \<Rightarrow> eco_error + nat list" where
  "follow nx tbl fuel i =
     (if i = 0 then Inr []
      else case fuel of
        0 \<Rightarrow> Inl NoFuel
      | Suc fuel \<Rightarrow>
          (case dbTable_getPtr tbl i of
             None \<Rightarrow> Inl BadId
           | Some a \<Rightarrow> and_then (follow nx tbl fuel (nx a)) (\<lambda>is. Inr (i # is))))"

declare follow.simps [simp del]

definition net_iterms :: "nat \<Rightarrow> nat list step" where
  "net_iterms n = step_then (get_obj nl_nets n) (\<lambda>net s.
     (follow itm_next (nl_iterms s) (length (tbl_slots (nl_iterms s))) (nt_iterms net), s))"

definition net_bterms :: "nat \<Rightarrow> nat list step" where
  "net_bterms n = step_then (get_obj nl_nets n) (\<lambda>net s.
     (follow btm_next (nl_bterms s) (length (tbl_slots (nl_bterms s))) (nt_bterms net), s))"

primrec any_dont_touch :: "nat list \<Rightarrow> bool step" where
  "any_dont_touch [] = step_return False"
| "any_dont_touch (i # is) = step_then (get_obj nl_iterms i) (\<lambda>iterm. step_then (get_obj nl_insts (itm_inst iterm)) (\<lambda>inst.
     if ins_dont_touch inst then step_return True else any_dont_touch is))"

definition dbNet_canMergeNet :: "nat \<Rightarrow> nat \<Rightarrow> bool step" where
  "dbNet_canMergeNet n in_net = step_then (get_obj nl_nets n) (\<lambda>net. step_then (get_obj nl_nets in_net) (\<lambda>net'.
     if get_flag dont_touch net \<or> get_flag dont_touch net' then step_return False
     else step_then (net_iterms in_net) (\<lambda>iterms. step_then (any_dont_touch iterms) (\<lambda>t. step_return (\<not> t)))))"

definition dbNet_mergeNet :: "nat \<Rightarrow> nat \<Rightarrow> unit step" where
  "dbNet_mergeNet n in_net =
     step_then (net_iterms in_net) (\<lambda>iterms. step_then (step_each (\<lambda>i. dbITerm_connect i n) iterms) (\<lambda>_.
     step_then (net_bterms in_net) (\<lambda>bterms. step_then (step_each (\<lambda>b. dbBTerm_connect b n) bterms) (\<lambda>_.
     dbNet_destroy in_net))))"

section \<open>Editing\<close>

text \<open>The operations together; what they return is dropped.\<close>

datatype edit =
  ITermConnect nat nat | ITermConnectModNet nat nat | ITermConnectBoth nat nat nat
| ITermDisconnect nat | ITermDisconnectDbNet nat | ITermDisconnectDbModNet nat
| BTermConnect nat nat | BTermConnectModNet nat nat | BTermConnectBoth nat nat nat
| BTermDisconnect nat | BTermDisconnectDbNet nat | BTermDisconnectDbModNet nat
| BTermCreate nat string | BTermDestroy nat
| NetCreate string bool | NetDestroy nat | NetRename nat string | NetSwapNames nat nat | NetMerge nat nat
| NetSetFlag NetFlag nat bool | NetSetSigType nat "32 word" | NetSetWireType nat "32 word"
| NetSetNonDefaultRule nat "(32 word \<times> bool) option"

definition drop_result :: "'a step \<Rightarrow> unit step" where
  "drop_result m = step_then m (\<lambda>_. step_return ())"

primrec run_edit :: "edit \<Rightarrow> unit step" where
  "run_edit (ITermConnect i n) = dbITerm_connect i n"
| "run_edit (ITermConnectModNet i m) = dbITerm_connect_modnet i m"
| "run_edit (ITermConnectBoth i n m) = dbITerm_connect_both i n m"
| "run_edit (ITermDisconnect i) = dbITerm_disconnect i"
| "run_edit (ITermDisconnectDbNet i) = dbITerm_disconnectDbNet i"
| "run_edit (ITermDisconnectDbModNet i) = dbITerm_disconnectDbModNet i"
| "run_edit (BTermConnect b n) = dbBTerm_connect b n"
| "run_edit (BTermConnectModNet b m) = dbBTerm_connect_modnet b m"
| "run_edit (BTermConnectBoth b n m) = dbBTerm_connect_both b n m"
| "run_edit (BTermDisconnect b) = dbBTerm_disconnect b"
| "run_edit (BTermDisconnectDbNet b) = dbBTerm_disconnectDbNet b"
| "run_edit (BTermDisconnectDbModNet b) = dbBTerm_disconnectDbModNet b"
| "run_edit (BTermCreate n name) = drop_result (dbBTerm_create n name)"
| "run_edit (BTermDestroy b) = dbBTerm_destroy b"
| "run_edit (NetCreate name skip) = drop_result (dbNet_create name skip)"
| "run_edit (NetDestroy n) = dbNet_destroy n"
| "run_edit (NetRename n name) = drop_result (dbNet_rename n name)"
| "run_edit (NetSwapNames n source) = dbNet_swapNetNames n source True"
| "run_edit (NetMerge n in_net) = dbNet_mergeNet n in_net"
| "run_edit (NetSetFlag f n v) = dbNet_setFlag f n v"
| "run_edit (NetSetSigType n v) = dbNet_setSigType n v"
| "run_edit (NetSetWireType n v) = dbNet_setWireType n v"
| "run_edit (NetSetNonDefaultRule n rule) = dbNet_setNonDefaultRule n rule"

text \<open>A run of edits; a caller that catches the exception of one goes on with the next.\<close>

definition run_edits :: "edit list \<Rightarrow> netlist \<Rightarrow> netlist" where
  "run_edits es s = fold (\<lambda>e s. snd (run_edit e s)) es s"

end
