(* ===== verification/JournalLaws.thy ===== *)
theory JournalLaws
  imports JournalLog
begin

text \<open>
  What is written to a journal is read back, forwards and backwards, and one journal appended to another is the
  journal of both. \<open>log_bytes\<close> is the log of a list of actions. The locale \<open>journal_reader\<close> is for the
  clients of the two loops: a handler that reads the parameters of an action and does something to a state.
\<close>

section \<open>One value\<close>

definition tag :: "bool \<Rightarrow> LogDataType \<Rightarrow> byte list" where
  "tag dbg type = (if dbg then [log_type_byte type] else [])"

primrec param_bytes :: "bool \<Rightarrow> param \<Rightarrow> byte list" where
  "param_bytes dbg (PBool v) = tag dbg kLogBool @ [if v then 1 else 0]"
| "param_bytes dbg (PChar v) = tag dbg kLogChar @ [of_char v]"
| "param_bytes dbg (PUChar v) = tag dbg kLogUChar @ [v]"
| "param_bytes dbg (PInt v) = tag dbg kLogInt @ put_int v"
| "param_bytes dbg (PUInt v) = tag dbg kLogUInt @ put_uint v"
| "param_bytes dbg (PFloat v) = tag dbg kLogFloat @ put_float v"
| "param_bytes dbg (PDouble v) = tag dbg kLogDouble @ put_double v"
| "param_bytes dbg (PString v) = tag dbg kLogString @ tag dbg kLogInt @
     (case v of None \<Rightarrow> put_int (- 1) | Some s \<Rightarrow> put_int (int (length (c_str s))) @ map of_char (c_str s))"

lemma pushParam_bytes:
  "pushParam p l = l\<lparr>jl_data := jl_data l @ param_bytes (jl_debug l) p\<rparr>"
  by (cases p) (simp_all add: push_bool_def push_char_def push_uchar_def push_int_def push_uint_def push_float_def
      push_double_def push_string_def set_type_def push_back_def tag_def Let_def split: option.split)

lemma fold_pushParam:
  "fold pushParam ps l = l\<lparr>jl_data := jl_data l @ concat (map (param_bytes (jl_debug l)) ps)\<rparr>"
  by (induction ps arbitrary: l) (simp_all add: pushParam_bytes)

text \<open>A log between what has been read and what has not.\<close>

definition log_at :: "bool \<Rightarrow> byte list \<Rightarrow> byte list \<Rightarrow> dbJournalLog" where
  "log_at dbg pre rest = \<lparr>jl_data = pre @ rest, jl_idx = int (length pre), jl_debug = dbg\<rparr>"

lemma log_at_fields [simp]:
  "jl_data (log_at dbg pre rest) = pre @ rest" "jl_idx (log_at dbg pre rest) = int (length pre)"
  "jl_debug (log_at dbg pre rest) = dbg"
  by (simp_all add: log_at_def)

lemma log_atI:
  "jl_data l = pre @ rest \<Longrightarrow> jl_idx l = int (length pre) \<Longrightarrow> jl_debug l = dbg \<Longrightarrow> l = log_at dbg pre rest"
  by (cases l) (simp add: log_at_def)

lemma log_set_fields [simp]:
  "jl_data (log_set i l) = jl_data l" "jl_idx (log_set i l) = i" "jl_debug (log_set i l) = jl_debug l"
  "jl_data (moveBackOneInt l) = jl_data l" "jl_debug (moveBackOneInt l) = jl_debug l"
  by (simp_all add: log_set_def moveBackOneInt_def)

lemma log_next_at: "log_next (log_at dbg pre (b # rest)) = Inr (b, log_at dbg (pre @ [b]) rest)"
  by (simp add: log_next_def log_size_def log_at_def nth_append)

lemma log_nexts_at:
  "log_nexts (length bs) (log_at dbg pre (bs @ rest)) = Inr (bs, log_at dbg (pre @ bs) rest)"
  by (induction bs arbitrary: pre) (simp_all add: log_next_at)

lemma log_nexts_n:
  "length bs = n \<Longrightarrow> log_nexts n (log_at dbg pre (bs @ rest)) = Inr (bs, log_at dbg (pre @ bs) rest)"
  using log_nexts_at by blast

lemma check_type_at: "check_type t (log_at dbg pre (tag dbg t @ rest)) = Inr (log_at dbg (pre @ tag dbg t) rest)"
  by (simp add: check_type_def tag_def log_next_at)

lemma check_type_other:
  "log_type_byte t' \<noteq> log_type_byte t \<Longrightarrow> check_type t (log_at True pre (tag True t' @ rest)) = Inl (LogCritical 426)"
  by (simp add: check_type_def tag_def log_next_at)

lemma lengths [simp]: "length (put_int i) = 4" "length (put_uint u) = 4" "length (put_float u) = 4" "length (put_double d) = 8"
  by (simp_all add: put_int_def put_uint_def put_float_def put_double_def)

lemma word_of_put [simp]:
  "word_of_bytes (put_uint u) = u" "word_of_bytes (put_float u) = u" "word_of_bytes (put_double d) = d"
  by (simp_all add: put_uint_def put_float_def put_double_def word_of_bytes_of_word)

lemma sint_of_put: "fits_int32 i \<Longrightarrow> sint (word_of_bytes (put_int i) :: 32 word) = i"
  by (simp add: put_int_def word_of_bytes_of_word sint_word_of_int fits_int32_def INT_MIN_def INT_MAX_def)

lemma pop_uchar_at: "pop_uchar (log_at dbg pre (param_bytes dbg (PUChar b) @ rest)) = Inr (b, log_at dbg (pre @ param_bytes dbg (PUChar b)) rest)"
  by (simp add: pop_uchar_def check_type_at log_next_at)

lemma pop_bool_at: "pop_bool (log_at dbg pre (param_bytes dbg (PBool b) @ rest)) = Inr (b, log_at dbg (pre @ param_bytes dbg (PBool b)) rest)"
  by (simp add: pop_bool_def check_type_at log_next_at)

lemma pop_char_at: "pop_char (log_at dbg pre (param_bytes dbg (PChar b) @ rest)) = Inr (b, log_at dbg (pre @ param_bytes dbg (PChar b)) rest)"
  by (simp add: pop_char_def check_type_at log_next_at)

lemma pop_uint_at: "pop_uint (log_at dbg pre (param_bytes dbg (PUInt u) @ rest)) = Inr (u, log_at dbg (pre @ param_bytes dbg (PUInt u)) rest)"
  by (simp add: pop_uint_def check_type_at log_nexts_n)

lemma pop_int_at:
  "fits_int32 i \<Longrightarrow> pop_int (log_at dbg pre (param_bytes dbg (PInt i) @ rest)) = Inr (i, log_at dbg (pre @ param_bytes dbg (PInt i)) rest)"
  by (simp add: pop_int_def check_type_at log_nexts_n sint_of_put)

lemma pop_float_at: "pop_float (log_at dbg pre (param_bytes dbg (PFloat u) @ rest)) = Inr (u, log_at dbg (pre @ param_bytes dbg (PFloat u)) rest)"
  by (simp add: pop_float_def check_type_at log_nexts_n)

lemma pop_double_at: "pop_double (log_at dbg pre (param_bytes dbg (PDouble u) @ rest)) = Inr (u, log_at dbg (pre @ param_bytes dbg (PDouble u)) rest)"
  by (simp add: pop_double_def check_type_at log_nexts_n)

lemma map_char_of_of_char: "map (\<lambda>b. char_of (unat b)) (map of_char s :: byte list) = s"
  by (simp add: comp_def)

lemma pop_string_at:
  assumes "int (length s) < 2 ^ 31" "NUL \<notin> set s"
  shows "pop_string (log_at dbg pre (param_bytes dbg (PString (Some s)) @ rest)) =
    Inr (s, log_at dbg (pre @ param_bytes dbg (PString (Some s))) rest)"
proof -
  have f: "fits_int32 (int (length s))" using assms(1) by (simp add: fits_int32_def INT_MIN_def INT_MAX_def)
  have "pop_int (log_at dbg (pre @ tag dbg kLogString) (param_bytes dbg (PInt (int (length s))) @ map of_char s @ rest)) =
      Inr (int (length s), log_at dbg ((pre @ tag dbg kLogString) @ param_bytes dbg (PInt (int (length s)))) (map of_char s @ rest))"
    by (rule pop_int_at [OF f])
  then show ?thesis
    using assms(2) by (simp add: pop_string_def check_type_at c_str_id log_nexts_n map_char_of_of_char del: map_map)
qed

lemma pop_string_null:
  "pop_string (log_at dbg pre (param_bytes dbg (PString None) @ rest)) = Inr ([], log_at dbg (pre @ param_bytes dbg (PString None)) rest)"
proof -
  have "pop_int (log_at dbg (pre @ tag dbg kLogString) (param_bytes dbg (PInt (- 1)) @ rest)) =
      Inr (- 1, log_at dbg ((pre @ tag dbg kLogString) @ param_bytes dbg (PInt (- 1))) rest)"
    by (rule pop_int_at) (simp add: fits_int32_def INT_MIN_def INT_MAX_def)
  then show ?thesis by (simp add: pop_string_def check_type_at)
qed

lemmas pops_at = pop_uchar_at pop_bool_at pop_char_at pop_uint_at pop_int_at pop_float_at pop_double_at pop_string_at pop_string_null

text \<open>In a log that checks itself an \<^verbatim>\<open>int\<close> is not an \<^verbatim>\<open>unsigned int\<close>; in one that does not they are the same bytes.\<close>

lemma pop_uint_of_int:
  "pop_uint (log_at True pre (param_bytes True (PInt i) @ rest)) = Inl (LogCritical 426)"
  "pop_uint (log_at False pre (param_bytes False (PInt i) @ rest)) =
     Inr (word_of_int i, log_at False (pre @ param_bytes False (PInt i)) rest)"
proof -
  show "pop_uint (log_at True pre (param_bytes True (PInt i) @ rest)) = Inl (LogCritical 426)"
    by (simp add: pop_uint_def check_type_other)
  have "param_bytes False (PInt i) = param_bytes False (PUInt (word_of_int i))"
    by (simp add: put_int_def put_uint_def tag_def)
  then show "pop_uint (log_at False pre (param_bytes False (PInt i) @ rest)) =
     Inr (word_of_int i, log_at False (pre @ param_bytes False (PInt i)) rest)"
    using pop_uint_at [of False pre "word_of_int i" rest] by (simp del: param_bytes.simps)
qed

section \<open>Actions\<close>

type_synonym entry = "Action \<times> param list"

definition params_bytes :: "bool \<Rightarrow> param list \<Rightarrow> byte list" where
  "params_bytes dbg ps = concat (map (param_bytes dbg) ps)"

lemma params_bytes_simps [simp]:
  "params_bytes dbg [] = []" "params_bytes dbg (p # ps) = param_bytes dbg p @ params_bytes dbg ps"
  by (simp_all add: params_bytes_def)

definition entry_bytes :: "bool \<Rightarrow> int \<Rightarrow> entry \<Rightarrow> byte list" where
  "entry_bytes dbg idx e =
     param_bytes dbg (PUChar (action_byte (fst e))) @ params_bytes dbg (snd e) @
     param_bytes dbg (PUChar (action_byte kEndAction)) @ param_bytes dbg (PUInt (word_of_int idx))"

fun log_bytes :: "bool \<Rightarrow> int \<Rightarrow> entry list \<Rightarrow> byte list" where
  "log_bytes dbg base [] = []"
| "log_bytes dbg base (e # es) = entry_bytes dbg base e @ log_bytes dbg (base + int (length (entry_bytes dbg base e))) es"

lemma length_entry_bytes: "length (entry_bytes dbg idx e) = length (entry_bytes dbg 0 e)" "entry_bytes dbg idx e \<noteq> []"
  by (simp_all add: entry_bytes_def)

lemma log_bytes_append:
  "log_bytes dbg base (xs @ ys) = log_bytes dbg base xs @ log_bytes dbg (base + int (length (log_bytes dbg base xs))) ys"
  by (induction xs arbitrary: base) (simp_all add: add.assoc)

lemma log_bytes_Nil: "log_bytes dbg base es = [] \<longleftrightarrow> es = []"
  by (cases es) (simp_all add: length_entry_bytes(2))

definition journal_of :: "bool \<Rightarrow> entry list \<Rightarrow> dbJournal \<Rightarrow> bool" where
  "journal_of dbg es j \<longleftrightarrow>
     jl_data (jn_log j) = log_bytes dbg 0 es \<and> jl_debug (jn_log j) = dbg \<and> \<not> jn_start_action j"

lemma mk_dbJournal_of: "journal_of dbg [] (mk_dbJournal dbg)"
  by (simp add: journal_of_def mk_dbJournal_def mk_dbJournalLog_def)

lemma write_action_of:
  assumes "journal_of dbg es j"
  obtains j' where "write_action a ps j = Inr j'" "journal_of dbg (es @ [(a, ps)]) j'"
proof -
  have "push_uchar b l = pushParam (PUChar b) l" "push_uint u l = pushParam (PUInt u) l" for b u l by simp_all
  note p = this [unfolded pushParam_bytes]
  obtain j' where w: "write_action a ps j = Inr j'"
    using assms by (simp add: write_action_def beginAction_def journal_of_def)
  have "journal_of dbg (es @ [(a, ps)]) j'"
    using assms w
    by (auto simp: write_action_def beginAction_def endAction_def journal_of_def fold_pushParam p
        entry_bytes_def params_bytes_def log_bytes_append log_size_def simp del: param_bytes.simps)
  with w show ?thesis by (rule that)
qed

lemma action_of_byte [simp]: "action_of_byte (action_byte a) = Some a"
  by (cases a) (simp_all add: action_of_byte_def)

lemma action_byte_inj: "action_byte a = action_byte b \<longleftrightarrow> a = b"
proof
  assume "action_byte a = action_byte b"
  then have "action_of_byte (action_byte a) = action_of_byte (action_byte b)" by (rule arg_cong)
  then show "a = b" unfolding action_of_byte by (rule option.inject [THEN iffD1])
qed simp

section \<open>Reading a journal\<close>

text \<open>
  A handler does \<open>act\<close> on an entry, wherever the entry is in a log: it reads the parameters, or some of them,
  and leaves the log as it is. \<open>to_end\<close> says that it reads them all.
\<close>

definition handles :: "'s handler \<Rightarrow> bool \<Rightarrow> bool \<Rightarrow> entry \<Rightarrow> ('s \<Rightarrow> (eco_error + unit) \<times> 's) \<Rightarrow> bool" where
  "handles h dbg to_end e act \<longleftrightarrow>
     (\<forall>pre rest s. case h (fst e) (log_at dbg pre (params_bytes dbg (snd e) @ rest)) s of
        (Inl er, s') \<Rightarrow> act s = (Inl er, s')
      | (Inr l, s') \<Rightarrow> act s = (Inr (), s') \<and> jl_data l = pre @ params_bytes dbg (snd e) @ rest \<and> jl_debug l = dbg \<and>
          (to_end \<longrightarrow> jl_idx l = int (length pre + length (params_bytes dbg (snd e)))))"

fun run_all :: "('s \<Rightarrow> (eco_error + unit) \<times> 's) list \<Rightarrow> 's \<Rightarrow> (eco_error + unit) \<times> 's" where
  "run_all [] s = (Inr (), s)"
| "run_all (f # fs) s = (case f s of (Inl e, s') \<Rightarrow> (Inl e, s') | (Inr _, s') \<Rightarrow> run_all fs s')"

lemma run_all_append:
  "run_all (fs @ gs) s = (case run_all fs s of (Inl e, s') \<Rightarrow> (Inl e, s') | (Inr _, s') \<Rightarrow> run_all gs s')"
  by (induction fs arbitrary: s) (auto split: prod.split sum.split)

text \<open>The positions in a log fit an \<^verbatim>\<open>unsigned int\<close>.\<close>

definition small_log :: "byte list \<Rightarrow> bool" where
  "small_log bs \<longleftrightarrow> int (length bs) < 2 ^ 32"

lemma uint_of_idx: "0 \<le> i \<Longrightarrow> i < 2 ^ 32 \<Longrightarrow> uint (word_of_int i :: 32 word) = i"
  by (simp add: take_bit_int_eq_self unsigned_of_int)

locale journal_reader =
  fixes h :: "'s handler" and act :: "entry \<Rightarrow> 's \<Rightarrow> (eco_error + unit) \<times> 's" and dbg :: bool and good :: "entry \<Rightarrow> bool"
  assumes reads: "good e \<Longrightarrow> handles h dbg False e (act e)"
begin

lemma undo_from_actions:
  assumes "\<forall>e \<in> set es. good e" "es \<noteq> []" "small_log (log_bytes dbg 0 es)"
    and "jl_data l = log_bytes dbg 0 es @ rest" "jl_debug l = dbg"
    and "jl_idx l = int (length (log_bytes dbg 0 es)) - 4 - (if dbg then 1 else 0)"
  shows "undo_from h l s = Some (run_all (map act (rev es)) s)"
  using assms
proof (induction es arbitrary: l s rest rule: rev_induct)
  case (snoc e es)
  let ?i = "int (length (log_bytes dbg 0 es))"
  let ?A = "param_bytes dbg (PUChar (action_byte (fst e)))" and ?P = "params_bytes dbg (snd e)"
    and ?E = "param_bytes dbg (PUChar (action_byte kEndAction))" and ?U = "param_bytes dbg (PUInt (word_of_int ?i))"
  have data: "jl_data l = log_bytes dbg 0 es @ ?A @ ?P @ ?E @ ?U @ rest"
    using snoc.prems(4) by (simp add: log_bytes_append entry_bytes_def del: param_bytes.simps)
  have small: "?i < 2 ^ 32" "small_log (log_bytes dbg 0 es)"
    using snoc.prems(3) by (simp_all add: small_log_def log_bytes_append)
  have ui: "uint (word_of_int ?i :: 32 word) = ?i" using small(1) by (simp add: uint_of_idx del: of_int_of_nat_eq)
  have lenU: "int (length ?U) = 4 + (if dbg then 1 else 0)" by (simp add: tag_def)
  have l: "l = log_at dbg (log_bytes dbg 0 es @ ?A @ ?P @ ?E) (?U @ rest)"
    by (rule log_atI) (use data snoc.prems(5,6) lenU in \<open>simp_all add: log_bytes_append entry_bytes_def del: param_bytes.simps\<close>)
  have set_i: "log_set (uint (word_of_int ?i :: 32 word)) (log_at dbg pre post) = log_at dbg (log_bytes dbg 0 es) (?A @ more)"
    if "pre @ post = log_bytes dbg 0 es @ ?A @ more" for pre post more
    by (rule log_atI) (simp_all only: log_set_fields log_at_fields ui that)
  have start: "pop_uchar (log_set (uint (word_of_int ?i :: 32 word)) (log_at dbg ((log_bytes dbg 0 es @ ?A @ ?P @ ?E) @ ?U) rest)) =
      Inr (action_byte (fst e), log_at dbg (log_bytes dbg 0 es @ ?A) (?P @ ?E @ ?U @ rest))"
    by (subst set_i [where more = "?P @ ?E @ ?U @ rest"]) (simp_all only: append_assoc pop_uchar_at)
  have hd: "case h (fst e) (log_at dbg (log_bytes dbg 0 es @ ?A) (?P @ ?E @ ?U @ rest)) s of
        (Inl er, s') \<Rightarrow> act e s = (Inl er, s')
      | (Inr l, s') \<Rightarrow> act e s = (Inr (), s') \<and> jl_data l = (log_bytes dbg 0 es @ ?A) @ ?P @ ?E @ ?U @ rest \<and> jl_debug l = dbg"
    using reads [of e] snoc.prems(1) unfolding handles_def by (simp split: prod.splits sum.splits)
  have step: "undo_from h l s =
      (case h (fst e) (log_at dbg (log_bytes dbg 0 es @ ?A) (?P @ ?E @ ?U @ rest)) s of
         (Inl er, s) \<Rightarrow> Some (Inl er, s)
       | (Inr l, s) \<Rightarrow> if (word_of_int ?i :: 32 word) = 0 then Some (Inr (), s)
                       else undo_from h (moveBackOneInt (log_set (uint (word_of_int ?i :: 32 word)) l)) s)"
    by (subst undo_from.simps) (simp only: l pop_uint_at start sum.case prod.case do_action_def action_of_byte option.case)
  show ?case
  proof (cases "h (fst e) (log_at dbg (log_bytes dbg 0 es @ ?A) (?P @ ?E @ ?U @ rest)) s")
    case (Pair r s')
    show ?thesis
    proof (cases r)
      case (Inl er)
      with Pair hd step show ?thesis by simp
    next
      case (Inr l')
      with Pair hd have a: "act e s = (Inr (), s')"
        and l': "jl_data l' = log_bytes dbg 0 es @ (?A @ ?P @ ?E @ ?U @ rest)" "jl_debug l' = dbg"
        by simp_all
      show ?thesis
      proof (cases "es = []")
        case True
        with step Pair Inr a show ?thesis by simp
      next
        case False
        then have "log_bytes dbg 0 es \<noteq> []" by (simp add: log_bytes_Nil)
        then have "0 < ?i" by simp
        have nz: "(word_of_int ?i :: 32 word) \<noteq> 0"
        proof
          assume "(word_of_int ?i :: 32 word) = 0"
          then have "uint (word_of_int ?i :: 32 word) = 0" by (simp only: unsigned_0)
          with ui \<open>0 < ?i\<close> show False by linarith
        qed
        have "undo_from h (moveBackOneInt (log_set (uint (word_of_int ?i :: 32 word)) l')) s' = Some (run_all (map act (rev es)) s')"
          by (rule snoc.IH [OF _ False small(2)])
            (use snoc.prems(1) l' in \<open>simp_all add: moveBackOneInt_def log_set_def ui del: of_int_of_nat_eq\<close>)
        with step Pair Inr a nz show ?thesis by simp
      qed
    qed
  qed
qed simp

lemma undo_log_actions:
  assumes "\<forall>e \<in> set es. good e" "small_log (log_bytes dbg 0 es)" "jl_data l = log_bytes dbg 0 es" "jl_debug l = dbg"
  shows "undo_log h l s = Some (run_all (map act (rev es)) s)"
proof (cases "es = []")
  case True
  with assms show ?thesis by (simp add: undo_log_def)
next
  case False
  then have "jl_data l \<noteq> []" using assms(3) by (simp add: log_bytes_Nil)
  then show ?thesis
    unfolding undo_log_def
    using undo_from_actions [OF assms(1) False assms(2), of "moveBackOneInt (moveToEnd l)" "[]" s] assms(3,4)
    by (simp add: moveBackOneInt_def moveToEnd_def log_size_def)
qed

end

text \<open>A handler that reads all the parameters of an action can also be run forwards.\<close>

locale journal_player = journal_reader +
  assumes plays: "good e \<Longrightarrow> handles h dbg True e (act e) \<and> fst e \<noteq> kEndAction"
begin

lemma redo_from_actions:
  assumes "\<forall>e \<in> set es. good e" "small_log (pre @ log_bytes dbg (int (length pre)) es)"
  shows "redo_from h (log_at dbg pre (log_bytes dbg (int (length pre)) es)) s = Some (run_all (map act es) s)"
  using assms
proof (induction es arbitrary: pre s)
  case Nil
  then show ?case by (subst redo_from.simps) (simp add: log_end_def log_size_def)
next
  case (Cons e es)
  let ?i = "int (length pre)"
  let ?A = "param_bytes dbg (PUChar (action_byte (fst e)))" and ?P = "params_bytes dbg (snd e)"
    and ?E = "param_bytes dbg (PUChar (action_byte kEndAction))" and ?U = "param_bytes dbg (PUInt (word_of_int ?i))"
  let ?rest = "log_bytes dbg (?i + int (length (entry_bytes dbg ?i e))) es"
  have bytes: "log_bytes dbg ?i (e # es) = ?A @ ?P @ ?E @ ?U @ ?rest"
    by (simp add: entry_bytes_def del: param_bytes.simps)
  have nend: "\<not> log_end (log_at dbg pre (?A @ ?P @ ?E @ ?U @ ?rest))"
    by (simp add: log_end_def log_size_def tag_def)
  have "?i < 2 ^ 32" using Cons.prems(2) by (simp add: small_log_def)
  then have ui: "uint (word_of_int ?i :: 32 word) = ?i" by (simp add: uint_of_idx del: of_int_of_nat_eq)
  have ne: "action_byte (fst e) \<noteq> action_byte kEndAction" using plays Cons.prems(1) by (simp add: action_byte_inj del: action_byte.simps)
  have hd: "case h (fst e) (log_at dbg (pre @ ?A) (?P @ ?E @ ?U @ ?rest)) s of
        (Inl er, s') \<Rightarrow> act e s = (Inl er, s')
      | (Inr l, s') \<Rightarrow> act e s = (Inr (), s') \<and> jl_data l = (pre @ ?A) @ ?P @ ?E @ ?U @ ?rest \<and> jl_debug l = dbg \<and>
          jl_idx l = int (length (pre @ ?A) + length ?P)"
    using plays [of e] Cons.prems(1) unfolding handles_def by (simp split: prod.splits sum.splits)
  show ?case
  proof (cases "h (fst e) (log_at dbg (pre @ ?A) (?P @ ?E @ ?U @ ?rest)) s")
    case (Pair r s')
    show ?thesis
    proof (cases r)
      case (Inl er)
      with Pair hd have a: "act e s = (Inl er, s')" by simp
      have "redo_from h (log_at dbg pre (log_bytes dbg ?i (e # es))) s = Some (Inl er, s')"
        unfolding bytes
        by (subst redo_from.simps) (simp only: nend if_False pop_uchar_at sum.case prod.case ne do_action_def action_of_byte option.case Pair Inl)
      with a show ?thesis by simp
    next
      case (Inr l')
      with Pair hd have a: "act e s = (Inr (), s')" and "jl_data l' = (pre @ ?A @ ?P) @ ?E @ ?U @ ?rest" "jl_debug l' = dbg"
        "jl_idx l' = int (length (pre @ ?A @ ?P))" by simp_all
      then have l': "l' = log_at dbg (pre @ ?A @ ?P) (?E @ ?U @ ?rest)" by (intro log_atI)
      let ?pre = "((pre @ ?A @ ?P) @ ?E) @ ?U"
      have pre: "?pre = pre @ entry_bytes dbg ?i e" by (simp add: entry_bytes_def del: param_bytes.simps)
      have rest: "?rest = log_bytes dbg (int (length ?pre)) es" by (simp only: pre length_append of_nat_add)
      have "redo_from h (log_at dbg pre (log_bytes dbg ?i (e # es))) s = redo_from h (log_at dbg ?pre ?rest) s'"
        unfolding bytes
        by (subst redo_from.simps)
          (simp only: nend if_False pop_uchar_at sum.case prod.case ne do_action_def action_of_byte option.case Pair Inr l'
            and_then_simps pop_uint_at ui log_at_fields simp_thms)
      also have "\<dots> = Some (run_all (map act es) s')"
        unfolding rest
      proof (rule Cons.IH)
        have "?pre @ ?rest = pre @ log_bytes dbg ?i (e # es)" by (simp only: bytes append_assoc)
        then show "small_log (?pre @ log_bytes dbg (int (length ?pre)) es)"
          using Cons.prems(2) unfolding rest [symmetric] by (simp only:)
      qed (use Cons.prems(1) in simp)
      finally show ?thesis using a by simp
    qed
  qed
qed

lemma redo_log_actions:
  assumes "\<forall>e \<in> set es. good e" "small_log (log_bytes dbg 0 es)" "jl_data l = log_bytes dbg 0 es" "jl_debug l = dbg"
  shows "redo_log h l s = Some (run_all (map act es) s)"
proof -
  have "log_begin l = log_at dbg [] (log_bytes dbg 0 es)" by (rule log_atI) (simp_all add: log_begin_def assms)
  then show ?thesis using redo_from_actions [of es "[]" s] assms(1,2) by (simp add: redo_log_def)
qed

end

section \<open>Appending\<close>

fun starts :: "bool \<Rightarrow> int \<Rightarrow> entry list \<Rightarrow> int list" where
  "starts dbg base [] = []"
| "starts dbg base (e # es) = base # starts dbg (base + int (length (entry_bytes dbg base e))) es"

lemma starts_append:
  "starts dbg base (xs @ ys) = starts dbg base xs @ starts dbg (base + int (length (log_bytes dbg base xs))) ys"
  by (induction xs arbitrary: base) (simp_all add: add.assoc)

lemma action_indices_starts:
  assumes "es \<noteq> []" "small_log (log_bytes dbg 0 es)" "jl_data l = log_bytes dbg 0 es @ rest" "jl_debug l = dbg"
    and "jl_idx l = int (length (log_bytes dbg 0 es)) - 4 - (if dbg then 1 else 0)"
  shows "action_indices l acc = Some (Inr (starts dbg 0 es @ acc))"
  using assms
proof (induction es arbitrary: l acc rest rule: rev_induct)
  case (snoc e es)
  let ?i = "int (length (log_bytes dbg 0 es))"
  let ?U = "param_bytes dbg (PUInt (word_of_int ?i))"
  let ?pre = "log_bytes dbg 0 es @ param_bytes dbg (PUChar (action_byte (fst e))) @ params_bytes dbg (snd e) @
    param_bytes dbg (PUChar (action_byte kEndAction))"
  have small: "?i < 2 ^ 32" "small_log (log_bytes dbg 0 es)"
    using snoc.prems(2) by (simp_all add: small_log_def log_bytes_append)
  have ui: "uint (word_of_int ?i :: 32 word) = ?i" using small(1) by (simp add: uint_of_idx del: of_int_of_nat_eq)
  have lenU: "int (length ?U) = 4 + (if dbg then 1 else 0)" by (simp add: tag_def)
  have l: "l = log_at dbg ?pre (?U @ rest)"
    by (rule log_atI) (use snoc.prems(3-5) lenU in \<open>simp_all add: log_bytes_append entry_bytes_def del: param_bytes.simps\<close>)
  have last: "starts dbg 0 (es @ [e]) = starts dbg 0 es @ [?i]" by (simp add: starts_append)
  show ?case
  proof (cases "es = []")
    case True
    then show ?thesis
      unfolding l by (subst action_indices.simps) (simp add: pop_uint_at del: param_bytes.simps)
  next
    case False
    then have "0 < ?i" by (simp add: log_bytes_Nil)
    have nz: "(word_of_int ?i :: 32 word) \<noteq> 0"
    proof
      assume "(word_of_int ?i :: 32 word) = 0"
      then have "uint (word_of_int ?i :: 32 word) = 0" by (simp only: unsigned_0)
      with ui \<open>0 < ?i\<close> show False by linarith
    qed
    have "action_indices l acc = action_indices (moveBackOneInt (log_set ?i (log_at dbg (?pre @ ?U) rest))) (?i # acc)"
      unfolding l by (subst action_indices.simps) (simp only: pop_uint_at sum.case prod.case nz if_False ui)
    also have "\<dots> = Some (Inr (starts dbg 0 es @ ?i # acc))"
      by (rule snoc.IH [OF False small(2)]) (simp_all add: moveBackOneInt_def)
    finally show ?thesis by (simp add: last)
  qed
qed simp

lemma copy_actions_bytes:
  assumes "small_log (pre @ log_bytes dbg (int (length pre)) es)" "jl_debug l = dbg"
  shows "copy_actions shift (starts dbg (int (length pre)) es) (log_at dbg pre (log_bytes dbg (int (length pre)) es)) l =
    Inr (push_back (log_bytes dbg (int (length pre) + shift) es) l)"
  using assms
proof (induction es arbitrary: pre l)
  case Nil
  then show ?case by (simp add: log_end_def log_size_def push_back_def)
next
  case (Cons e es)
  let ?i = "int (length pre)"
  let ?AP = "param_bytes dbg (PUChar (action_byte (fst e))) @ params_bytes dbg (snd e)"
    and ?E = "param_bytes dbg (PUChar (action_byte kEndAction))" and ?U = "\<lambda>i. param_bytes dbg (PUInt (word_of_int i))"
  let ?j = "?i + int (length (entry_bytes dbg ?i e))"
  let ?rest = "log_bytes dbg ?j es"
  have bytes: "log_bytes dbg ?i (e # es) = ?AP @ ?E @ ?U ?i @ ?rest"
    by (simp add: entry_bytes_def del: param_bytes.simps)
  have nend: "\<not> log_end (log_at dbg pre (?AP @ ?E @ ?U ?i @ ?rest))"
    by (simp add: log_end_def log_size_def tag_def)
  have "?i < 2 ^ 32" using Cons.prems(1) by (simp add: small_log_def)
  then have ui: "uint (word_of_int ?i :: 32 word) = ?i" by (simp add: uint_of_idx del: of_int_of_nat_eq)
  let ?o = "log_at dbg pre (?AP @ ?E @ ?U ?i @ ?rest)"
  have next_idx: "(case starts dbg ?j es of [] \<Rightarrow> log_size ?o | k # _ \<Rightarrow> k) = ?j"
    by (cases es) (simp_all add: log_size_def entry_bytes_def del: param_bytes.simps)
  have len: "nat (?j - end_size ?o - ?i) = length ?AP"
    by (simp add: entry_bytes_def end_size_def tag_def nat_add_distrib)
  let ?pre = "((pre @ ?AP) @ ?E) @ ?U ?i"
  have pre: "?pre = pre @ entry_bytes dbg ?i e" by (simp add: entry_bytes_def del: param_bytes.simps)
  have j: "?j = int (length ?pre)" by (simp only: pre length_append of_nat_add)
  let ?l = "push_uint (word_of_int (?i + shift)) (push_uchar (action_byte kEndAction) (push_back ?AP l))"
  have l: "?l = push_back (?AP @ ?E @ ?U (?i + shift)) l"
    using pushParam_bytes [of "PUInt (word_of_int (?i + shift))"] pushParam_bytes [of "PUChar (action_byte kEndAction)"] Cons.prems(2)
    by (simp add: push_back_def del: param_bytes.simps action_byte.simps)
  have "copy_actions shift (starts dbg ?i (e # es)) (log_at dbg pre (log_bytes dbg ?i (e # es))) l =
      copy_actions shift (starts dbg ?j es) (log_at dbg ?pre ?rest) ?l"
    unfolding bytes starts.simps
    by (subst copy_actions.simps)
      (simp only: nend if_False list.case Let_def next_idx len log_at_fields simp_thms log_nexts_at
        and_then_simps prod.case pop_uchar_at pop_uint_at ui)
  also have "\<dots> = Inr (push_back (log_bytes dbg (int (length ?pre) + shift) es) ?l)"
    unfolding j
  proof (rule Cons.IH)
    have "?pre @ ?rest = pre @ log_bytes dbg ?i (e # es)" by (simp only: bytes append_assoc)
    then show "small_log (?pre @ log_bytes dbg (int (length ?pre)) es)"
      using Cons.prems(1) unfolding j [symmetric] by (simp only:)
    show "jl_debug ?l = dbg" unfolding l using Cons.prems(2) by (simp add: push_back_def)
  qed
  also have "\<dots> = Inr (push_back (log_bytes dbg (?i + shift) (e # es)) l)"
  proof -
    have eb: "?AP @ ?E @ ?U (?i + shift) = entry_bytes dbg (?i + shift) e" by (simp add: entry_bytes_def del: param_bytes.simps)
    have off: "int (length ?pre) + shift = ?i + shift + int (length (entry_bytes dbg (?i + shift) e))"
      using length_entry_bytes(1) [of dbg ?i e] length_entry_bytes(1) [of dbg "?i + shift" e] unfolding j [symmetric] by linarith
    show ?thesis unfolding l eb off by (simp add: push_back_def)
  qed
  finally show ?case .
qed

lemma log_append_bytes:
  assumes "jl_data l = log_bytes dbg 0 xs" "jl_debug l = dbg" "jl_data k = log_bytes dbg 0 ys" "jl_debug k = dbg"
    and "small_log (log_bytes dbg 0 ys)"
  obtains l' where "log_append l k = Some (Inr l')" "jl_data l' = log_bytes dbg 0 (xs @ ys)" "jl_debug l' = dbg"
proof (cases "ys = []")
  case True
  then show ?thesis using that [of l] assms by (simp add: log_append_def)
next
  case False
  then have ne: "jl_data k \<noteq> []" using assms(3) by (simp add: log_bytes_Nil)
  have i: "action_indices (moveBackOneInt (moveToEnd k)) [] = Some (Inr (starts dbg 0 ys @ []))"
    by (rule action_indices_starts [OF False assms(5), where rest = "[]"])
      (simp_all add: moveBackOneInt_def moveToEnd_def log_size_def assms)
  have "log_begin k = log_at dbg [] (log_bytes dbg 0 ys)" by (rule log_atI) (simp_all add: log_begin_def assms)
  then have "log_append l k = Some (Inr (push_back (log_bytes dbg (log_size l) ys) l))"
    using copy_actions_bytes [of "[]" dbg ys l "log_size l"] assms ne i by (simp add: log_append_def)
  then show ?thesis
    using that assms by (simp add: push_back_def log_bytes_append log_size_def)
qed

end
