(* ===== verification/NetlistLaws.thy ===== *)
theory NetlistLaws
  imports Netlist JournalLaws
begin

text \<open>
  The invariant of the netlist and what each step does to it. \<open>netlist_ok\<close> says that every list of terminals is right
  (\<open>lists_ok\<close>), that the names of nets are unique, and that the tables and the hash tables agree. \<open>conn\<close> is the netlist as
  its clients conn_see it: which net and module net each terminal is on, and the name, flags and rule of each net, without the order of
  the lists. \<open>moves\<close> says that a step keeps the invariant, changes \<open>conn\<close> by a function and writes given actions to the journal.
\<close>

section \<open>What clients conn_see\<close>

definition conn_see :: "('a \<Rightarrow> 'v) \<Rightarrow> 'a dbTable \<Rightarrow> nat \<rightharpoonup> 'v" where
  "conn_see v t i = map_option v (dbTable_getPtr t i)"

definition net_view :: "dbNet \<Rightarrow> string \<times> 32 word \<times> 32 word \<times> bool" where
  "net_view a = (nt_name a, nt_flags a, nt_ndr a, nt_other a)"

definition iterm_view :: "dbITerm \<Rightarrow> nat \<times> nat \<times> nat" where
  "iterm_view a = (itm_net a, itm_mnet a, itm_inst a)"

definition bterm_view :: "dbBTerm \<Rightarrow> nat \<times> nat \<times> string \<times> bool" where
  "bterm_view a = (btm_net a, btm_mnet a, btm_name a, btm_bpins a)"

record conn =
  cn_nets :: "nat \<rightharpoonup> string \<times> 32 word \<times> 32 word \<times> bool"
  cn_iterms :: "nat \<rightharpoonup> nat \<times> nat \<times> nat"
  cn_bterms :: "nat \<rightharpoonup> nat \<times> nat \<times> string \<times> bool"
  cn_modnets :: "nat \<rightharpoonup> unit"
  cn_insts :: "nat \<rightharpoonup> bool"

definition conn :: "netlist \<Rightarrow> conn" where
  "conn s =
     \<lparr>cn_nets = conn_see net_view (nl_nets s), cn_iterms = conn_see iterm_view (nl_iterms s), cn_bterms = conn_see bterm_view (nl_bterms s),
      cn_modnets = conn_see (\<lambda>_. ()) (nl_modnets s), cn_insts = conn_see ins_dont_touch (nl_insts s)\<rparr>"

lemma conn_fields [simp]:
  "cn_nets (conn s) = conn_see net_view (nl_nets s)" "cn_iterms (conn s) = conn_see iterm_view (nl_iterms s)"
  "cn_bterms (conn s) = conn_see bterm_view (nl_bterms s)" "cn_modnets (conn s) = conn_see (\<lambda>_. ()) (nl_modnets s)"
  "cn_insts (conn s) = conn_see ins_dont_touch (nl_insts s)"
  by (simp_all add: conn_def)

section \<open>The invariant\<close>

definition c_name :: "string \<Rightarrow> bool" where
  "c_name name \<longleftrightarrow> NUL \<notin> set name \<and> int (length name) < 2 ^ 31"

definition distinct_names :: "('v \<Rightarrow> string) \<Rightarrow> (nat \<rightharpoonup> 'v) \<Rightarrow> bool" where
  "distinct_names f g \<longleftrightarrow> (\<forall>a b x y. g a = Some x \<longrightarrow> g b = Some y \<longrightarrow> f x = f y \<longrightarrow> a = b)"

lemma distinct_names_upd:
  "distinct_names f g \<Longrightarrow> (\<And>b z. b \<noteq> a \<Longrightarrow> g b = Some z \<Longrightarrow> f z \<noteq> f y) \<Longrightarrow> distinct_names f (g(a \<mapsto> y))"
  by (auto simp: distinct_names_def) metis

lemma distinct_names_same: "distinct_names f g \<Longrightarrow> g a = Some x \<Longrightarrow> f y = f x \<Longrightarrow> distinct_names f (g(a \<mapsto> y))"
  by (rule distinct_names_upd) (auto simp: distinct_names_def)

text \<open>Ids fit \<^verbatim>\<open>uint32_t\<close>, every iterm has an instance, and no two nets and no two bterms have the same name.\<close>

definition conn_inv :: "conn \<Rightarrow> bool" where
  "conn_inv c \<longleftrightarrow>
     (\<forall>i \<in> dom (cn_nets c) \<union> dom (cn_modnets c) \<union> dom (cn_iterms c) \<union> dom (cn_bterms c). new_id i) \<and>
     (\<forall>i n m k. cn_iterms c i = Some (n, m, k) \<longrightarrow> cn_insts c k \<noteq> None) \<and>
     (\<forall>n x. cn_nets c n = Some x \<longrightarrow> c_name (fst x)) \<and>
     distinct_names fst (cn_nets c) \<and> distinct_names (\<lambda>(_, _, name, _). name) (cn_bterms c)"

lemma conn_ok_iterm:
  assumes "conn_inv c" "cn_iterms c i = Some (n, m, k)"
  shows "conn_inv (c\<lparr>cn_iterms := (cn_iterms c)(i \<mapsto> (n', m', k))\<rparr>)"
proof -
  have "new_id i" "cn_insts c k \<noteq> None" using assms unfolding conn_inv_def by blast+
  with assms(1) show ?thesis by (simp add: conn_inv_def)
qed

lemma conn_ok_bterm:
  assumes "conn_inv c" "cn_bterms c b = Some (n, m, name, p)"
  shows "conn_inv (c\<lparr>cn_bterms := (cn_bterms c)(b \<mapsto> (n', m', name, p'))\<rparr>)"
proof -
  have "new_id b" using assms unfolding conn_inv_def by blast
  moreover have "distinct_names (\<lambda>(_, _, name, _). name) ((cn_bterms c)(b \<mapsto> (n', m', name, p')))"
    by (rule distinct_names_same [where x = "(n, m, name, p)"]) (use assms in \<open>simp_all add: conn_inv_def\<close>)
  ultimately show ?thesis using assms(1) by (simp add: conn_inv_def)
qed

lemma conn_ok_net:
  assumes "conn_inv c" "new_id n" "c_name (fst y)" "\<And>m z. m \<noteq> n \<Longrightarrow> cn_nets c m = Some z \<Longrightarrow> fst z \<noteq> fst y"
  shows "conn_inv (c\<lparr>cn_nets := (cn_nets c)(n \<mapsto> y)\<rparr>)"
proof -
  have "distinct_names fst ((cn_nets c)(n \<mapsto> y))"
    by (rule distinct_names_upd) (use assms(1,4) in \<open>auto simp: conn_inv_def\<close>)
  with assms(1-3) show ?thesis by (cases y) (simp add: conn_inv_def)
qed

definition tables_ok :: "netlist \<Rightarrow> bool" where
  "tables_ok s \<longleftrightarrow> tbl_inv (nl_nets s) \<and> tbl_inv (nl_modnets s) \<and> tbl_inv (nl_iterms s) \<and> tbl_inv (nl_bterms s) \<and> tbl_inv (nl_insts s)"

definition hashes_ok :: "netlist \<Rightarrow> bool" where
  "hashes_ok s \<longleftrightarrow>
     distinct (nl_net_hash s) \<and> set (nl_net_hash s) = dom (dbTable_getPtr (nl_nets s)) \<and>
     distinct (nl_bterm_hash s) \<and> set (nl_bterm_hash s) = dom (dbTable_getPtr (nl_bterms s))"

definition iterm_lists_ok :: "netlist \<Rightarrow> bool" where
  "iterm_lists_ok s \<longleftrightarrow>
     lists_ok itm_net itm_next itm_prev (dbTable_getPtr (nl_iterms s)) (conn_see nt_iterms (nl_nets s)) \<and>
     lists_ok itm_mnet itm_next_mod itm_prev_mod (dbTable_getPtr (nl_iterms s)) (conn_see mnt_iterms (nl_modnets s))"

definition bterm_lists_ok :: "netlist \<Rightarrow> bool" where
  "bterm_lists_ok s \<longleftrightarrow>
     lists_ok btm_net btm_next btm_prev (dbTable_getPtr (nl_bterms s)) (conn_see nt_bterms (nl_nets s)) \<and>
     lists_ok btm_mnet btm_next_mod btm_prev_mod (dbTable_getPtr (nl_bterms s)) (conn_see mnt_bterms (nl_modnets s))"

definition journal_ready :: "netlist \<Rightarrow> bool" where
  "journal_ready s \<longleftrightarrow> (\<forall>j. nl_journal s = Some j \<longrightarrow> \<not> jn_start_action j)"

definition netlist_ok :: "netlist \<Rightarrow> bool" where
  "netlist_ok s \<longleftrightarrow> tables_ok s \<and> conn_inv (conn s) \<and> hashes_ok s \<and> iterm_lists_ok s \<and> bterm_lists_ok s \<and> journal_ready s"

lemma see_update:
  "tbl_inv t \<Longrightarrow> conn_see v (dbTable_update t i f) = (conn_see v t)(i := map_option (v \<circ> f) (dbTable_getPtr t i))"
  by (auto simp: conn_see_def fun_eq_iff table_update upd_apply option.map_comp)

lemma see_update_same: "tbl_inv t \<Longrightarrow> (\<And>a. v (f a) = v a) \<Longrightarrow> conn_see v (dbTable_update t i f) = conn_see v t"
  by (auto simp: see_update conn_see_def fun_eq_iff comp_def)

lemma see_Some: "conn_see v t i = Some x \<longleftrightarrow> (\<exists>a. dbTable_getPtr t i = Some a \<and> v a = x)"
  by (simp add: conn_see_def)

lemma see_None: "conn_see v t i = None \<longleftrightarrow> dbTable_getPtr t i = None"
  by (simp add: conn_see_def)

lemma dom_see: "dom (conn_see v t) = dom (dbTable_getPtr t)"
  by (auto simp: conn_see_def)

interpretation iterm_net: link_fields itm_net itm_next itm_prev
  "\<lambda>a. (itm_mnet a, itm_inst a, itm_next_mod a, itm_prev_mod a)" itm_net_update itm_next_update itm_prev_update
  by unfold_locales simp_all

interpretation iterm_mod: link_fields itm_mnet itm_next_mod itm_prev_mod
  "\<lambda>a. (itm_net a, itm_inst a, itm_next a, itm_prev a)" itm_mnet_update itm_next_mod_update itm_prev_mod_update
  by unfold_locales simp_all

interpretation bterm_net: link_fields btm_net btm_next btm_prev
  "\<lambda>a. (btm_mnet a, btm_name a, btm_bpins a, btm_next_mod a, btm_prev_mod a)" btm_net_update btm_next_update btm_prev_update
  by unfold_locales simp_all

interpretation bterm_mod: link_fields btm_mnet btm_next_mod btm_prev_mod
  "\<lambda>a. (btm_net a, btm_name a, btm_bpins a, btm_next a, btm_prev a)" btm_mnet_update btm_next_mod_update btm_prev_mod_update
  by unfold_locales simp_all

section \<open>Steps\<close>

lemma step_simps [simp]:
  "step_return a s = (Inr a, s)" "step_fail e s = (Inl e, s)"
  "m s = (Inl e, s') \<Longrightarrow> step_then m k s = (Inl e, s')"
  "m s = (Inr a, s') \<Longrightarrow> step_then m k s = k a s'"
  by (simp_all add: step_return_def step_fail_def step_then_def)

lemma fetch_simps [simp]:
  "dbTable_getPtr (tbl s) i = Some a \<Longrightarrow> get_obj tbl i s = (Inr a, s)"
  "dbTable_getPtr (tbl s) i = None \<Longrightarrow> get_obj tbl i s = (Inl BadId, s)"
  by (simp_all add: get_obj_def)

definition logged :: "netlist \<Rightarrow> entry list \<Rightarrow> netlist \<Rightarrow> bool" where
  "logged s es s' \<longleftrightarrow>
     nl_journal_stack s' = nl_journal_stack s \<and> nl_journal_check s' = nl_journal_check s \<and> nl_parent_inst s' = nl_parent_inst s \<and>
     (case nl_journal s of
        None \<Rightarrow> nl_journal s' = None
      | Some j \<Rightarrow> (\<exists>j'. nl_journal s' = Some j' \<and> (\<forall>dbg xs. journal_of dbg xs j \<longrightarrow> journal_of dbg (xs @ es) j')))"

lemma logged_refl: "logged s [] s"
  by (simp add: logged_def split: option.split)

lemma logged_trans: "logged s es t \<Longrightarrow> logged t fs u \<Longrightarrow> logged s (es @ fs) u"
  by (fastforce simp: logged_def split: option.splits)

lemma logged_cong:
  "nl_journal s' = nl_journal s \<Longrightarrow> nl_journal_stack s' = nl_journal_stack s \<Longrightarrow> nl_journal_check s' = nl_journal_check s \<Longrightarrow>
   nl_parent_inst s' = nl_parent_inst s \<Longrightarrow> logged s [] s'"
  by (simp add: logged_def split: option.split)

lemma conn_journal [simp]: "conn (s\<lparr>nl_journal := j\<rparr>) = conn s"
  by (simp add: conn_def)

lemma netlist_ok_journal: "netlist_ok s \<Longrightarrow> journal_ready (s\<lparr>nl_journal := j\<rparr>) \<Longrightarrow> netlist_ok (s\<lparr>nl_journal := j\<rparr>)"
  by (simp add: netlist_ok_def tables_ok_def hashes_ok_def iterm_lists_ok_def bterm_lists_ok_def)

lemma journal_writes:
  assumes "journal_ready s"
  obtains j where "journal a ps s = (Inr (), s\<lparr>nl_journal := j\<rparr>)" "logged s [(a, ps)] (s\<lparr>nl_journal := j\<rparr>)"
    "journal_ready (s\<lparr>nl_journal := j\<rparr>)"
proof (cases "nl_journal s")
  case None
  then have "s\<lparr>nl_journal := None\<rparr> = s" by simp
  then show ?thesis using that [of None] None assms by (simp add: journal_def logged_def journal_ready_def)
next
  case (Some j)
  then have nd: "\<not> jn_start_action j" using assms by (simp add: journal_ready_def)
  then obtain j' where w: "write_action a ps j = Inr j'" and nd': "\<not> jn_start_action j'"
    by (simp add: write_action_def beginAction_def endAction_def)
  have "journal_of dbg (xs @ [(a, ps)]) j'" if "journal_of dbg xs j" for dbg xs
    using write_action_of [OF that, of a ps] w by auto
  then show ?thesis
    using that [of "Some j'"] Some w nd' by (simp add: journal_def logged_def journal_ready_def)
qed

definition moves :: "netlist \<Rightarrow> entry list \<Rightarrow> conn \<Rightarrow> netlist \<Rightarrow> bool" where
  "moves s es c s' \<longleftrightarrow> netlist_ok s' \<and> conn s' = c \<and> logged s es s' \<and> (\<forall>xs. tbl_free (nl_nets s) xs \<longrightarrow> tbl_free (nl_nets s') xs)"

lemma moves_refl: "netlist_ok s \<Longrightarrow> moves s [] (conn s) s"
  by (simp add: moves_def logged_refl)

lemma moves_trans: "moves s es c t \<Longrightarrow> moves t fs d u \<Longrightarrow> moves s (es @ fs) d u"
  using logged_trans unfolding moves_def by blast

lemma moves_journal:
  assumes "netlist_ok s"
  obtains j where "journal a ps s = (Inr (), s\<lparr>nl_journal := j\<rparr>)" "moves s [(a, ps)] (conn s) (s\<lparr>nl_journal := j\<rparr>)"
proof -
  have "journal_ready s" using assms by (simp add: netlist_ok_def)
  then obtain j where j: "journal a ps s = (Inr (), s\<lparr>nl_journal := j\<rparr>)" "logged s [(a, ps)] (s\<lparr>nl_journal := j\<rparr>)"
    "journal_ready (s\<lparr>nl_journal := j\<rparr>)" by (rule journal_writes)
  from j(1) show ?thesis
  proof (rule that)
    show "moves s [(a, ps)] (conn s) (s\<lparr>nl_journal := j\<rparr>)"
      using j(2,3) netlist_ok_journal [OF assms] by (simp add: moves_def)
  qed
qed

section \<open>Linking and unlinking\<close>

text \<open>What is seen of a terminal, from the fields a link leaves alone.\<close>

lemma see_of_view:
  assumes "\<And>j. map_option w (dbTable_getPtr t' j) = (if j = i then Some y else map_option w (dbTable_getPtr t j))" "\<And>a. v a = f (w a)"
  shows "conn_see v t' = (conn_see v t)(i \<mapsto> f y)"
proof
  fix j
  have "conn_see v t j = map_option f (map_option w (dbTable_getPtr t j))" for t j
    using assms(2) by (cases "dbTable_getPtr t j") (simp_all add: conn_see_def)
  then show "conn_see v t' j = ((conn_see v t)(i \<mapsto> f y)) j" by (simp add: assms(1))
qed

text \<open>The list of the other kind of net stays as it is.\<close>

lemma lists_ok_other:
  assumes "\<And>j. map_option w (dbTable_getPtr t' j) = (if j = i then Some y else map_option w (dbTable_getPtr t j))"
    and "dbTable_getPtr t i = Some a" and "f y = (own a, nx a, pv a)" and "\<And>a. f (w a) = (own a, nx a, pv a)"
    and "lists_ok own nx pv (dbTable_getPtr t) h"
  shows "lists_ok own nx pv (dbTable_getPtr t') h"
proof (rule lists_ok_cong [OF _ assms(5)])
  fix j
  have c: "map_option (\<lambda>a. (own a, nx a, pv a)) x = map_option f (map_option w x)" for x
    by (simp add: option.map_comp comp_def assms(4))
  show "map_option (\<lambda>a. (own a, nx a, pv a)) (dbTable_getPtr t j) = map_option (\<lambda>a. (own a, nx a, pv a)) (dbTable_getPtr t' j)"
    unfolding c [of "dbTable_getPtr t' j"] assms(1) by (cases "j = i") (simp_all add: assms(2,3,4) c option.map_comp)
qed

lemma see_triv: "dbTable_getPtr t i = Some a \<Longrightarrow> v a = y \<Longrightarrow> (conn_see v t)(i \<mapsto> y) = conn_see v t"
  by (auto simp: conn_see_def)

lemma dom_same: "conn_see v t' = conn_see v t \<Longrightarrow> dom (dbTable_getPtr t') = dom (dbTable_getPtr t)"
  by (metis dom_see)

text \<open>A step that changes the iterms, or the bterms, and the heads of the lists.\<close>

lemma moves_iterms:
  assumes ok: "netlist_ok s" and a: "dbTable_getPtr (nl_iterms s) i = Some a"
    and t: "tbl_inv t" "conn_see iterm_view t = (conn_see iterm_view (nl_iterms s))(i \<mapsto> (n, m, itm_inst a))"
    and nets: "tbl_inv nets" "conn_see net_view nets = conn_see net_view (nl_nets s)" "conn_see nt_bterms nets = conn_see nt_bterms (nl_nets s)"
      "\<And>xs. tbl_free (nl_nets s) xs \<Longrightarrow> tbl_free nets xs"
    and mods: "tbl_inv mods" "conn_see (\<lambda>_. ()) mods = conn_see (\<lambda>_. ()) (nl_modnets s)" "conn_see mnt_bterms mods = conn_see mnt_bterms (nl_modnets s)"
    and ls: "lists_ok itm_net itm_next itm_prev (dbTable_getPtr t) (conn_see nt_iterms nets)"
      "lists_ok itm_mnet itm_next_mod itm_prev_mod (dbTable_getPtr t) (conn_see mnt_iterms mods)"
  shows "moves s [] (conn s\<lparr>cn_iterms := (cn_iterms (conn s))(i \<mapsto> (n, m, itm_inst a))\<rparr>)
    (s\<lparr>nl_iterms := t, nl_nets := nets, nl_modnets := mods\<rparr>)"
proof -
  let ?s = "s\<lparr>nl_iterms := t, nl_nets := nets, nl_modnets := mods\<rparr>"
  have c: "conn ?s = conn s\<lparr>cn_iterms := (cn_iterms (conn s))(i \<mapsto> (n, m, itm_inst a))\<rparr>"
    by (simp add: conn_def t nets mods)
  have "conn_inv (conn ?s)"
    unfolding c using ok a by (intro conn_ok_iterm) (auto simp: netlist_ok_def see_Some iterm_view_def)
  moreover have "hashes_ok ?s" using ok dom_same [OF nets(2)] by (simp add: netlist_ok_def hashes_ok_def)
  ultimately have "netlist_ok ?s"
    using ok t nets mods ls by (simp add: netlist_ok_def tables_ok_def iterm_lists_ok_def bterm_lists_ok_def journal_ready_def)
  moreover have "logged s [] ?s" by (rule logged_cong) simp_all
  ultimately show ?thesis using c nets(4) by (simp add: moves_def)
qed

lemma moves_bterms:
  assumes ok: "netlist_ok s" and a: "dbTable_getPtr (nl_bterms s) i = Some a"
    and t: "tbl_inv t" "conn_see bterm_view t = (conn_see bterm_view (nl_bterms s))(i \<mapsto> (n, m, btm_name a, btm_bpins a))"
    and nets: "tbl_inv nets" "conn_see net_view nets = conn_see net_view (nl_nets s)" "conn_see nt_iterms nets = conn_see nt_iterms (nl_nets s)"
      "\<And>xs. tbl_free (nl_nets s) xs \<Longrightarrow> tbl_free nets xs"
    and mods: "tbl_inv mods" "conn_see (\<lambda>_. ()) mods = conn_see (\<lambda>_. ()) (nl_modnets s)" "conn_see mnt_iterms mods = conn_see mnt_iterms (nl_modnets s)"
    and ls: "lists_ok btm_net btm_next btm_prev (dbTable_getPtr t) (conn_see nt_bterms nets)"
      "lists_ok btm_mnet btm_next_mod btm_prev_mod (dbTable_getPtr t) (conn_see mnt_bterms mods)"
  shows "moves s [] (conn s\<lparr>cn_bterms := (cn_bterms (conn s))(i \<mapsto> (n, m, btm_name a, btm_bpins a))\<rparr>)
    (s\<lparr>nl_bterms := t, nl_nets := nets, nl_modnets := mods\<rparr>)"
proof -
  let ?s = "s\<lparr>nl_bterms := t, nl_nets := nets, nl_modnets := mods\<rparr>"
  have c: "conn ?s = conn s\<lparr>cn_bterms := (cn_bterms (conn s))(i \<mapsto> (n, m, btm_name a, btm_bpins a))\<rparr>"
    by (simp add: conn_def t nets mods)
  have "conn_inv (conn ?s)"
    unfolding c using ok a by (intro conn_ok_bterm) (auto simp: netlist_ok_def see_Some bterm_view_def)
  moreover have "dom (dbTable_getPtr t) = dom (dbTable_getPtr (nl_bterms s))"
    using t(2) a by (metis dom_see dom_fun_upd insert_absorb domI option.distinct(1))
  then have "hashes_ok ?s" using ok dom_same [OF nets(2)] by (simp add: netlist_ok_def hashes_ok_def)
  ultimately have "netlist_ok ?s"
    using ok t nets mods ls by (simp add: netlist_ok_def tables_ok_def iterm_lists_ok_def bterm_lists_ok_def journal_ready_def)
  moreover have "logged s [] ?s" by (rule logged_cong) simp_all
  ultimately show ?thesis using c nets(4) by (simp add: moves_def)
qed

lemma netlist_okD:
  assumes "netlist_ok s"
  shows "tbl_inv (nl_nets s)" "tbl_inv (nl_modnets s)" "tbl_inv (nl_iterms s)" "tbl_inv (nl_bterms s)" "tbl_inv (nl_insts s)"
    and "lists_ok itm_net itm_next itm_prev (dbTable_getPtr (nl_iterms s)) (conn_see nt_iterms (nl_nets s))"
    and "lists_ok itm_mnet itm_next_mod itm_prev_mod (dbTable_getPtr (nl_iterms s)) (conn_see mnt_iterms (nl_modnets s))"
    and "lists_ok btm_net btm_next btm_prev (dbTable_getPtr (nl_bterms s)) (conn_see nt_bterms (nl_nets s))"
    and "lists_ok btm_mnet btm_next_mod btm_prev_mod (dbTable_getPtr (nl_bterms s)) (conn_see mnt_bterms (nl_modnets s))"
  using assms by (simp_all add: netlist_ok_def tables_ok_def iterm_lists_ok_def bterm_lists_ok_def)

text \<open>Changing the head of one list changes nothing else of a net.\<close>

lemma set_head:
  assumes "tbl_inv nets" "dbTable_getPtr nets n = Some N"
  shows "conn_see net_view (dbTable_update nets n (nt_iterms_update f)) = conn_see net_view nets"
    "conn_see nt_bterms (dbTable_update nets n (nt_iterms_update f)) = conn_see nt_bterms nets"
    "conn_see nt_iterms (dbTable_update nets n (nt_iterms_update f)) = (conn_see nt_iterms nets)(n \<mapsto> f (nt_iterms N))"
    "conn_see net_view (dbTable_update nets n (nt_bterms_update f)) = conn_see net_view nets"
    "conn_see nt_iterms (dbTable_update nets n (nt_bterms_update f)) = conn_see nt_iterms nets"
    "conn_see nt_bterms (dbTable_update nets n (nt_bterms_update f)) = (conn_see nt_bterms nets)(n \<mapsto> f (nt_bterms N))"
  using assms by (simp_all add: see_update_same net_view_def see_update)

lemma set_mod_head:
  assumes "tbl_inv mods" "dbTable_getPtr mods n = Some N"
  shows "conn_see mnt_bterms (dbTable_update mods n (mnt_iterms_update f)) = conn_see mnt_bterms mods"
    "conn_see mnt_iterms (dbTable_update mods n (mnt_iterms_update f)) = (conn_see mnt_iterms mods)(n \<mapsto> f (mnt_iterms N))"
    "conn_see mnt_iterms (dbTable_update mods n (mnt_bterms_update f)) = conn_see mnt_iterms mods"
    "conn_see mnt_bterms (dbTable_update mods n (mnt_bterms_update f)) = (conn_see mnt_bterms mods)(n \<mapsto> f (mnt_bterms N))"
  using assms by (simp_all add: see_update_same see_update)

lemma set_mod_unit: "tbl_inv mods \<Longrightarrow> conn_see (\<lambda>_. ()) (dbTable_update mods n g) = conn_see (\<lambda>_. ()) mods"
  by (simp add: see_update_same)

lemma see_eq: "dbTable_getPtr t n = Some N \<Longrightarrow> conn_see f t n = Some (f N)"
  by (simp add: conn_see_def)

lemma link_iterm_net:
  assumes ok: "netlist_ok s" and a: "dbTable_getPtr (nl_iterms s) i = Some a" "itm_net a = 0"
    and n: "dbTable_getPtr (nl_nets s) n = Some N"
  obtains s' where "link_iterm_net i n (s) = (Inr (), s')"
    "moves s [] (conn s\<lparr>cn_iterms := (cn_iterms (conn s))(i \<mapsto> (n, itm_mnet a, itm_inst a))\<rparr>) s'"
proof -
  note okD = netlist_okD [OF ok]
  define t where "t = link_front itm_next_update itm_prev_update (nt_iterms N) i (dbTable_update (nl_iterms s) i (itm_net_update (\<lambda>_. n)))"
  define nets where "nets = dbTable_update (nl_nets s) n (nt_iterms_update (\<lambda>_. i))"
  note l = iterm_net.link_front_ok [OF okD(3) okD(6) see_eq [OF n] a, folded t_def]
  note h = set_head [OF okD(1) n, of "\<lambda>_. i", folded nets_def]
  have ni: "tbl_inv nets" "\<And>xs. tbl_free (nl_nets s) xs \<Longrightarrow> tbl_free nets xs"
    using okD(1) by (simp_all add: nets_def table_update update_free)
  have v: "conn_see iterm_view t = (conn_see iterm_view (nl_iterms s))(i \<mapsto> (n, itm_mnet a, itm_inst a))"
    by (subst see_of_view [OF l(2), where f = "\<lambda>(n, m, k, _). (n, m, k)"]) (simp_all add: iterm_view_def)
  have other: "lists_ok itm_mnet itm_next_mod itm_prev_mod (dbTable_getPtr t) (conn_see mnt_iterms (nl_modnets s))"
    by (rule lists_ok_other [OF l(2) a(1) _ _ okD(7), where f = "\<lambda>(_, m, _, x, p). (m, x, p)"]) simp_all
  have "moves s [] (conn s\<lparr>cn_iterms := (cn_iterms (conn s))(i \<mapsto> (n, itm_mnet a, itm_inst a))\<rparr>) (s\<lparr>nl_iterms := t, nl_nets := nets, nl_modnets := nl_modnets s\<rparr>)"
    by (rule moves_iterms [OF ok a(1) l(1) v])
      (use okD l(3) other ni in \<open>simp_all add: h\<close>)
  moreover have "link_iterm_net i n (s) = (Inr (), s\<lparr>nl_iterms := t, nl_nets := nets, nl_modnets := nl_modnets s\<rparr>)"
    using n by (simp add: link_iterm_net_def t_def nets_def)
  ultimately show ?thesis using that by blast
qed

lemma unlink_iterm_net:
  assumes ok: "netlist_ok s" and a: "dbTable_getPtr (nl_iterms s) i = Some a" "itm_net a = n" and n: "dbTable_getPtr (nl_nets s) n = Some N"
  obtains s' where "unlink_iterm_net i n s = (Inr (), s')"
    "moves s [] (conn s\<lparr>cn_iterms := (cn_iterms (conn s))(i \<mapsto> (0, itm_mnet a, itm_inst a))\<rparr>) s'"
proof -
  note okD = netlist_okD [OF ok]
  obtain head t0 where u: "unlink itm_next itm_prev itm_next_update itm_prev_update (nt_iterms N) i a (nl_iterms s) = (head, t0)"
    by fastforce
  define t where "t = dbTable_update t0 i (itm_net_update (\<lambda>_. 0))"
  define nets where "nets = dbTable_update (nl_nets s) n (nt_iterms_update (\<lambda>_. head))"
  have f: "itm_net ((itm_net_update (\<lambda>_. 0)) a) = 0" for a by simp
  have r: "(itm_mnet ((itm_net_update (\<lambda>_. 0)) a), itm_inst ((itm_net_update (\<lambda>_. 0)) a),
      itm_next_mod ((itm_net_update (\<lambda>_. 0)) a), itm_prev_mod ((itm_net_update (\<lambda>_. 0)) a)) =
    (itm_mnet a, itm_inst a, itm_next_mod a, itm_prev_mod a)" for a
    by simp
  note l = iterm_net.unlink_ok [OF okD(3) okD(6) see_eq [OF n] a u f r, folded t_def]
  note h = set_head [OF okD(1) n, of "\<lambda>_. head", folded nets_def]
  have ni: "tbl_inv nets" "\<And>xs. tbl_free (nl_nets s) xs \<Longrightarrow> tbl_free nets xs"
    using okD(1) by (simp_all add: nets_def table_update update_free)
  have v: "conn_see iterm_view t = (conn_see iterm_view (nl_iterms s))(i \<mapsto> (0, itm_mnet a, itm_inst a))"
    by (subst see_of_view [OF l(2), where f = "\<lambda>(n, m, k, _). (n, m, k)"]) (simp_all add: iterm_view_def)
  have other: "lists_ok itm_mnet itm_next_mod itm_prev_mod (dbTable_getPtr t) (conn_see mnt_iterms (nl_modnets s))"
    by (rule lists_ok_other [OF l(2) a(1) _ _ okD(7), where f = "\<lambda>(_, m, _, x, p). (m, x, p)"]) simp_all
  have "moves s [] (conn s\<lparr>cn_iterms := (cn_iterms (conn s))(i \<mapsto> (0, itm_mnet a, itm_inst a))\<rparr>) (s\<lparr>nl_iterms := t, nl_nets := nets, nl_modnets := nl_modnets s\<rparr>)"
    by (rule moves_iterms [OF ok a(1) l(1) v])
      (use okD l(3) other ni in \<open>simp_all add: h\<close>)
  moreover have "unlink_iterm_net i n s = (Inr (), s\<lparr>nl_iterms := t, nl_nets := nets, nl_modnets := nl_modnets s\<rparr>)"
    using a n u by (simp add: unlink_iterm_net_def t_def nets_def)
  ultimately show ?thesis using that by blast
qed

lemma link_iterm_modnet:
  assumes ok: "netlist_ok s" and a: "dbTable_getPtr (nl_iterms s) i = Some a" "itm_mnet a = 0"
    and n: "dbTable_getPtr (nl_modnets s) n = Some N"
  obtains s' where "link_iterm_modnet i n (s\<lparr>nl_iterms := dbTable_update (nl_iterms s) i (itm_mnet_update (\<lambda>_. n))\<rparr>) = (Inr (), s')"
    "moves s [] (conn s\<lparr>cn_iterms := (cn_iterms (conn s))(i \<mapsto> (itm_net a, n, itm_inst a))\<rparr>) s'"
proof -
  note okD = netlist_okD [OF ok]
  define t where "t = link_front itm_next_mod_update itm_prev_mod_update (mnt_iterms N) i (dbTable_update (nl_iterms s) i (itm_mnet_update (\<lambda>_. n)))"
  define nets where "nets = dbTable_update (nl_modnets s) n (mnt_iterms_update (\<lambda>_. i))"
  note l = iterm_mod.link_front_ok [OF okD(3) okD(7) see_eq [OF n] a, folded t_def]
  note h = set_mod_head [OF okD(2) n, of "\<lambda>_. i", folded nets_def]
  have ni: "tbl_inv nets" "conn_see (\<lambda>_. ()) nets = conn_see (\<lambda>_. ()) (nl_modnets s)"
    using okD(2) by (simp_all add: nets_def table_update set_mod_unit)
  have v: "conn_see iterm_view t = (conn_see iterm_view (nl_iterms s))(i \<mapsto> (itm_net a, n, itm_inst a))"
    by (subst see_of_view [OF l(2), where f = "\<lambda>(m, n, k, _). (n, m, k)"]) (simp_all add: iterm_view_def)
  have other: "lists_ok itm_net itm_next itm_prev (dbTable_getPtr t) (conn_see nt_iterms (nl_nets s))"
    by (rule lists_ok_other [OF l(2) a(1) _ _ okD(6), where f = "\<lambda>(_, m, _, x, p). (m, x, p)"]) simp_all
  have "moves s [] (conn s\<lparr>cn_iterms := (cn_iterms (conn s))(i \<mapsto> (itm_net a, n, itm_inst a))\<rparr>) (s\<lparr>nl_iterms := t, nl_nets := nl_nets s, nl_modnets := nets\<rparr>)"
    by (rule moves_iterms [OF ok a(1) l(1) v])
      (use okD l(3) other ni in \<open>simp_all add: h\<close>)
  moreover have "link_iterm_modnet i n (s\<lparr>nl_iterms := dbTable_update (nl_iterms s) i (itm_mnet_update (\<lambda>_. n))\<rparr>) = (Inr (), s\<lparr>nl_iterms := t, nl_nets := nl_nets s, nl_modnets := nets\<rparr>)"
    using n by (simp add: link_iterm_modnet_def t_def nets_def)
  ultimately show ?thesis using that by blast
qed

lemma unlink_iterm_modnet:
  assumes ok: "netlist_ok s" and a: "dbTable_getPtr (nl_iterms s) i = Some a" "itm_mnet a = n" and n: "dbTable_getPtr (nl_modnets s) n = Some N"
    and clear: "\<And>a. (itm_net (clear a), itm_inst (clear a), itm_next (clear a), itm_prev (clear a)) = (itm_net a, itm_inst a, itm_next a, itm_prev a)"
  obtains s' where "unlink_iterm_modnet clear i n s = (Inr (), s')"
    "moves s [] (conn s\<lparr>cn_iterms := (cn_iterms (conn s))(i \<mapsto> (itm_net a, 0, itm_inst a))\<rparr>) s'"
proof -
  note okD = netlist_okD [OF ok]
  obtain head t0 where u: "unlink itm_next_mod itm_prev_mod itm_next_mod_update itm_prev_mod_update (mnt_iterms N) i a (nl_iterms s) = (head, t0)"
    by fastforce
  define t where "t = dbTable_update t0 i (itm_mnet_update (\<lambda>_. 0) \<circ> clear)"
  define nets where "nets = dbTable_update (nl_modnets s) n (mnt_iterms_update (\<lambda>_. head))"
  have f: "itm_mnet ((itm_mnet_update (\<lambda>_. 0) \<circ> clear) a) = 0" for a by simp
  have r: "(itm_net ((itm_mnet_update (\<lambda>_. 0) \<circ> clear) a), itm_inst ((itm_mnet_update (\<lambda>_. 0) \<circ> clear) a),
      itm_next ((itm_mnet_update (\<lambda>_. 0) \<circ> clear) a), itm_prev ((itm_mnet_update (\<lambda>_. 0) \<circ> clear) a)) =
    (itm_net a, itm_inst a, itm_next a, itm_prev a)" for a
    using clear [of a] by simp
  note l = iterm_mod.unlink_ok [OF okD(3) okD(7) see_eq [OF n] a u f r, folded t_def]
  note h = set_mod_head [OF okD(2) n, of "\<lambda>_. head", folded nets_def]
  have ni: "tbl_inv nets" "conn_see (\<lambda>_. ()) nets = conn_see (\<lambda>_. ()) (nl_modnets s)"
    using okD(2) by (simp_all add: nets_def table_update set_mod_unit)
  have v: "conn_see iterm_view t = (conn_see iterm_view (nl_iterms s))(i \<mapsto> (itm_net a, 0, itm_inst a))"
    by (subst see_of_view [OF l(2), where f = "\<lambda>(m, n, k, _). (n, m, k)"]) (simp_all add: iterm_view_def)
  have other: "lists_ok itm_net itm_next itm_prev (dbTable_getPtr t) (conn_see nt_iterms (nl_nets s))"
    by (rule lists_ok_other [OF l(2) a(1) _ _ okD(6), where f = "\<lambda>(_, m, _, x, p). (m, x, p)"]) simp_all
  have "moves s [] (conn s\<lparr>cn_iterms := (cn_iterms (conn s))(i \<mapsto> (itm_net a, 0, itm_inst a))\<rparr>) (s\<lparr>nl_iterms := t, nl_nets := nl_nets s, nl_modnets := nets\<rparr>)"
    by (rule moves_iterms [OF ok a(1) l(1) v])
      (use okD l(3) other ni in \<open>simp_all add: h\<close>)
  moreover have "unlink_iterm_modnet clear i n s = (Inr (), s\<lparr>nl_iterms := t, nl_nets := nl_nets s, nl_modnets := nets\<rparr>)"
    using a n u by (simp add: unlink_iterm_modnet_def t_def nets_def)
  ultimately show ?thesis using that by blast
qed

lemma link_bterm_net:
  assumes ok: "netlist_ok s" and a: "dbTable_getPtr (nl_bterms s) i = Some a" "btm_net a = 0"
    and n: "dbTable_getPtr (nl_nets s) n = Some N"
  obtains s' where "link_bterm_net i n (s) = (Inr (), s')"
    "moves s [] (conn s\<lparr>cn_bterms := (cn_bterms (conn s))(i \<mapsto> (n, btm_mnet a, btm_name a, btm_bpins a))\<rparr>) s'"
proof -
  note okD = netlist_okD [OF ok]
  define t where "t = link_front btm_next_update btm_prev_update (nt_bterms N) i (dbTable_update (nl_bterms s) i (btm_net_update (\<lambda>_. n)))"
  define nets where "nets = dbTable_update (nl_nets s) n (nt_bterms_update (\<lambda>_. i))"
  note l = bterm_net.link_front_ok [OF okD(4) okD(8) see_eq [OF n] a, folded t_def]
  note h = set_head [OF okD(1) n, of "\<lambda>_. i", folded nets_def]
  have ni: "tbl_inv nets" "\<And>xs. tbl_free (nl_nets s) xs \<Longrightarrow> tbl_free nets xs"
    using okD(1) by (simp_all add: nets_def table_update update_free)
  have v: "conn_see bterm_view t = (conn_see bterm_view (nl_bterms s))(i \<mapsto> (n, btm_mnet a, btm_name a, btm_bpins a))"
    by (subst see_of_view [OF l(2), where f = "\<lambda>(n, m, k, p, _). (n, m, k, p)"]) (simp_all add: bterm_view_def)
  have other: "lists_ok btm_mnet btm_next_mod btm_prev_mod (dbTable_getPtr t) (conn_see mnt_bterms (nl_modnets s))"
    by (rule lists_ok_other [OF l(2) a(1) _ _ okD(9), where f = "\<lambda>(_, m, _, _, x, p). (m, x, p)"]) simp_all
  have "moves s [] (conn s\<lparr>cn_bterms := (cn_bterms (conn s))(i \<mapsto> (n, btm_mnet a, btm_name a, btm_bpins a))\<rparr>) (s\<lparr>nl_bterms := t, nl_nets := nets, nl_modnets := nl_modnets s\<rparr>)"
    by (rule moves_bterms [OF ok a(1) l(1) v])
      (use okD l(3) other ni in \<open>simp_all add: h\<close>)
  moreover have "link_bterm_net i n (s) = (Inr (), s\<lparr>nl_bterms := t, nl_nets := nets, nl_modnets := nl_modnets s\<rparr>)"
    using n by (simp add: link_bterm_net_def t_def nets_def)
  ultimately show ?thesis using that by blast
qed

lemma unlink_bterm_net:
  assumes ok: "netlist_ok s" and a: "dbTable_getPtr (nl_bterms s) i = Some a" "btm_net a = n" and n: "dbTable_getPtr (nl_nets s) n = Some N"
  obtains s' where "unlink_bterm_net i n s = (Inr (), s')"
    "moves s [] (conn s\<lparr>cn_bterms := (cn_bterms (conn s))(i \<mapsto> (0, btm_mnet a, btm_name a, btm_bpins a))\<rparr>) s'"
proof -
  note okD = netlist_okD [OF ok]
  obtain head t0 where u: "unlink btm_next btm_prev btm_next_update btm_prev_update (nt_bterms N) i a (nl_bterms s) = (head, t0)"
    by fastforce
  define t where "t = dbTable_update t0 i (btm_net_update (\<lambda>_. 0))"
  define nets where "nets = dbTable_update (nl_nets s) n (nt_bterms_update (\<lambda>_. head))"
  have f: "btm_net ((btm_net_update (\<lambda>_. 0)) a) = 0" for a by simp
  have r: "(btm_mnet ((btm_net_update (\<lambda>_. 0)) a), btm_name ((btm_net_update (\<lambda>_. 0)) a), btm_bpins ((btm_net_update (\<lambda>_. 0)) a),
      btm_next_mod ((btm_net_update (\<lambda>_. 0)) a), btm_prev_mod ((btm_net_update (\<lambda>_. 0)) a)) =
    (btm_mnet a, btm_name a, btm_bpins a, btm_next_mod a, btm_prev_mod a)" for a
    by simp
  note l = bterm_net.unlink_ok [OF okD(4) okD(8) see_eq [OF n] a u f r, folded t_def]
  note h = set_head [OF okD(1) n, of "\<lambda>_. head", folded nets_def]
  have ni: "tbl_inv nets" "\<And>xs. tbl_free (nl_nets s) xs \<Longrightarrow> tbl_free nets xs"
    using okD(1) by (simp_all add: nets_def table_update update_free)
  have v: "conn_see bterm_view t = (conn_see bterm_view (nl_bterms s))(i \<mapsto> (0, btm_mnet a, btm_name a, btm_bpins a))"
    by (subst see_of_view [OF l(2), where f = "\<lambda>(n, m, k, p, _). (n, m, k, p)"]) (simp_all add: bterm_view_def)
  have other: "lists_ok btm_mnet btm_next_mod btm_prev_mod (dbTable_getPtr t) (conn_see mnt_bterms (nl_modnets s))"
    by (rule lists_ok_other [OF l(2) a(1) _ _ okD(9), where f = "\<lambda>(_, m, _, _, x, p). (m, x, p)"]) simp_all
  have "moves s [] (conn s\<lparr>cn_bterms := (cn_bterms (conn s))(i \<mapsto> (0, btm_mnet a, btm_name a, btm_bpins a))\<rparr>) (s\<lparr>nl_bterms := t, nl_nets := nets, nl_modnets := nl_modnets s\<rparr>)"
    by (rule moves_bterms [OF ok a(1) l(1) v])
      (use okD l(3) other ni in \<open>simp_all add: h\<close>)
  moreover have "unlink_bterm_net i n s = (Inr (), s\<lparr>nl_bterms := t, nl_nets := nets, nl_modnets := nl_modnets s\<rparr>)"
    using a n u by (simp add: unlink_bterm_net_def t_def nets_def)
  ultimately show ?thesis using that by blast
qed

lemma link_bterm_modnet:
  assumes ok: "netlist_ok s" and a: "dbTable_getPtr (nl_bterms s) i = Some a" "btm_mnet a = 0"
    and n: "dbTable_getPtr (nl_modnets s) n = Some N"
  obtains s' where "link_bterm_modnet i n (s) = (Inr (), s')"
    "moves s [] (conn s\<lparr>cn_bterms := (cn_bterms (conn s))(i \<mapsto> (btm_net a, n, btm_name a, btm_bpins a))\<rparr>) s'"
proof -
  note okD = netlist_okD [OF ok]
  define t where "t = link_front btm_next_mod_update btm_prev_mod_update (mnt_bterms N) i (dbTable_update (nl_bterms s) i (btm_mnet_update (\<lambda>_. n)))"
  define nets where "nets = dbTable_update (nl_modnets s) n (mnt_bterms_update (\<lambda>_. i))"
  note l = bterm_mod.link_front_ok [OF okD(4) okD(9) see_eq [OF n] a, folded t_def]
  note h = set_mod_head [OF okD(2) n, of "\<lambda>_. i", folded nets_def]
  have ni: "tbl_inv nets" "conn_see (\<lambda>_. ()) nets = conn_see (\<lambda>_. ()) (nl_modnets s)"
    using okD(2) by (simp_all add: nets_def table_update set_mod_unit)
  have v: "conn_see bterm_view t = (conn_see bterm_view (nl_bterms s))(i \<mapsto> (btm_net a, n, btm_name a, btm_bpins a))"
    by (subst see_of_view [OF l(2), where f = "\<lambda>(m, n, k, p, _). (n, m, k, p)"]) (simp_all add: bterm_view_def)
  have other: "lists_ok btm_net btm_next btm_prev (dbTable_getPtr t) (conn_see nt_bterms (nl_nets s))"
    by (rule lists_ok_other [OF l(2) a(1) _ _ okD(8), where f = "\<lambda>(_, m, _, _, x, p). (m, x, p)"]) simp_all
  have "moves s [] (conn s\<lparr>cn_bterms := (cn_bterms (conn s))(i \<mapsto> (btm_net a, n, btm_name a, btm_bpins a))\<rparr>) (s\<lparr>nl_bterms := t, nl_nets := nl_nets s, nl_modnets := nets\<rparr>)"
    by (rule moves_bterms [OF ok a(1) l(1) v])
      (use okD l(3) other ni in \<open>simp_all add: h\<close>)
  moreover have "link_bterm_modnet i n (s) = (Inr (), s\<lparr>nl_bterms := t, nl_nets := nl_nets s, nl_modnets := nets\<rparr>)"
    using n by (simp add: link_bterm_modnet_def t_def nets_def)
  ultimately show ?thesis using that by blast
qed

lemma unlink_bterm_modnet:
  assumes ok: "netlist_ok s" and a: "dbTable_getPtr (nl_bterms s) i = Some a" "btm_mnet a = n" and n: "dbTable_getPtr (nl_modnets s) n = Some N"
  obtains s' where "unlink_bterm_modnet i n s = (Inr (), s')"
    "moves s [] (conn s\<lparr>cn_bterms := (cn_bterms (conn s))(i \<mapsto> (btm_net a, 0, btm_name a, btm_bpins a))\<rparr>) s'"
proof -
  note okD = netlist_okD [OF ok]
  obtain head t0 where u: "unlink btm_next_mod btm_prev_mod btm_next_mod_update btm_prev_mod_update (mnt_bterms N) i a (nl_bterms s) = (head, t0)"
    by fastforce
  define t where "t = dbTable_update t0 i (btm_mnet_update (\<lambda>_. 0) \<circ> btm_prev_mod_update (\<lambda>_. 0) \<circ> btm_next_mod_update (\<lambda>_. 0))"
  define nets where "nets = dbTable_update (nl_modnets s) n (mnt_bterms_update (\<lambda>_. head))"
  have f: "btm_mnet ((btm_mnet_update (\<lambda>_. 0) \<circ> btm_prev_mod_update (\<lambda>_. 0) \<circ> btm_next_mod_update (\<lambda>_. 0)) a) = 0" for a by simp
  have r: "(btm_net ((btm_mnet_update (\<lambda>_. 0) \<circ> btm_prev_mod_update (\<lambda>_. 0) \<circ> btm_next_mod_update (\<lambda>_. 0)) a), btm_name ((btm_mnet_update (\<lambda>_. 0) \<circ> btm_prev_mod_update (\<lambda>_. 0) \<circ> btm_next_mod_update (\<lambda>_. 0)) a), btm_bpins ((btm_mnet_update (\<lambda>_. 0) \<circ> btm_prev_mod_update (\<lambda>_. 0) \<circ> btm_next_mod_update (\<lambda>_. 0)) a),
      btm_next ((btm_mnet_update (\<lambda>_. 0) \<circ> btm_prev_mod_update (\<lambda>_. 0) \<circ> btm_next_mod_update (\<lambda>_. 0)) a), btm_prev ((btm_mnet_update (\<lambda>_. 0) \<circ> btm_prev_mod_update (\<lambda>_. 0) \<circ> btm_next_mod_update (\<lambda>_. 0)) a)) =
    (btm_net a, btm_name a, btm_bpins a, btm_next a, btm_prev a)" for a
    by simp
  note l = bterm_mod.unlink_ok [OF okD(4) okD(9) see_eq [OF n] a u f r, folded t_def]
  note h = set_mod_head [OF okD(2) n, of "\<lambda>_. head", folded nets_def]
  have ni: "tbl_inv nets" "conn_see (\<lambda>_. ()) nets = conn_see (\<lambda>_. ()) (nl_modnets s)"
    using okD(2) by (simp_all add: nets_def table_update set_mod_unit)
  have v: "conn_see bterm_view t = (conn_see bterm_view (nl_bterms s))(i \<mapsto> (btm_net a, 0, btm_name a, btm_bpins a))"
    by (subst see_of_view [OF l(2), where f = "\<lambda>(m, n, k, p, _). (n, m, k, p)"]) (simp_all add: bterm_view_def)
  have other: "lists_ok btm_net btm_next btm_prev (dbTable_getPtr t) (conn_see nt_bterms (nl_nets s))"
    by (rule lists_ok_other [OF l(2) a(1) _ _ okD(8), where f = "\<lambda>(_, m, _, _, x, p). (m, x, p)"]) simp_all
  have "moves s [] (conn s\<lparr>cn_bterms := (cn_bterms (conn s))(i \<mapsto> (btm_net a, 0, btm_name a, btm_bpins a))\<rparr>) (s\<lparr>nl_bterms := t, nl_nets := nl_nets s, nl_modnets := nets\<rparr>)"
    by (rule moves_bterms [OF ok a(1) l(1) v])
      (use okD l(3) other ni in \<open>simp_all add: h\<close>)
  moreover have "unlink_bterm_modnet i n s = (Inr (), s\<lparr>nl_bterms := t, nl_nets := nl_nets s, nl_modnets := nets\<rparr>)"
    using a n u by (simp add: unlink_bterm_modnet_def t_def nets_def)
  ultimately show ?thesis using that by blast
qed

end
