(* ===== verification/NetEffects.thy ===== *)
theory NetEffects
  imports NetlistLaws
begin

text \<open>
  What each operation of the netlist does when nothing stops it: the change of \<open>conn\<close> and the action in the journal.
  The hypotheses are about \<open>conn\<close> only, so the same lemma says what the operation does when it is called by a client and
  when it is called to undo another one.
\<close>

definition may_touch :: "conn \<Rightarrow> nat \<Rightarrow> bool" where
  "may_touch c n \<longleftrightarrow> (\<exists>x. cn_nets c n = Some x \<and> \<not> bit (fst (snd x)) 23)"

lemma may_touchE:
  assumes "may_touch (conn s) n"
  obtains N where "dbTable_getPtr (nl_nets s) n = Some N" "\<not> get_flag dont_touch N"
  using assms by (auto simp: may_touch_def see_Some net_view_def get_flag_def)

lemma itermE:
  assumes "cn_iterms (conn s) i = Some (n, m, k)"
  obtains a where "dbTable_getPtr (nl_iterms s) i = Some a" "itm_net a = n" "itm_mnet a = m" "itm_inst a = k"
  using assms by (auto simp: see_Some iterm_view_def)

lemma btermE:
  assumes "cn_bterms (conn s) i = Some (n, m, nm, p)"
  obtains a where "dbTable_getPtr (nl_bterms s) i = Some a" "btm_net a = n" "btm_mnet a = m" "btm_name a = nm" "btm_bpins a = p"
  using assms by (auto simp: see_Some bterm_view_def)

lemma instE:
  assumes "cn_insts (conn s) k = Some d"
  obtains a where "dbTable_getPtr (nl_insts s) k = Some a" "ins_dont_touch a = d"
  using assms by (auto simp: see_Some)

lemma modnetE:
  assumes "cn_modnets (conn s) m \<noteq> None"
  obtains M where "dbTable_getPtr (nl_modnets s) m = Some M"
  using assms by (auto simp: conn_see_def)

lemma mod_not_0: "cn_modnets (conn s) m \<noteq> None \<Longrightarrow> m \<noteq> 0"
  by (rule notI) (simp add: conn_see_def)

lemma moves_journal_then:
  assumes "netlist_ok s" "\<And>j. moves s [(a, ps)] (conn s) (s\<lparr>nl_journal := j\<rparr>) \<Longrightarrow>
      \<exists>s'. k () (s\<lparr>nl_journal := j\<rparr>) = (r, s') \<and> moves (s\<lparr>nl_journal := j\<rparr>) es c s'"
  obtains s' where "step_then (journal a ps) k s = (r, s')" "moves s ((a, ps) # es) c s'"
proof -
  obtain j where j: "journal a ps s = (Inr (), s\<lparr>nl_journal := j\<rparr>)" "moves s [(a, ps)] (conn s) (s\<lparr>nl_journal := j\<rparr>)"
    using moves_journal [OF assms(1)] by metis
  from assms(2) [OF j(2)] obtain s' where "k () (s\<lparr>nl_journal := j\<rparr>) = (r, s')" "moves (s\<lparr>nl_journal := j\<rparr>) es c s'" by blast
  then show ?thesis using that j moves_trans [OF j(2)] by simp
qed

lemma moves_ok: "moves s es c s' \<Longrightarrow> netlist_ok s'" "moves s es c s' \<Longrightarrow> conn s' = c"
  by (simp_all add: moves_def)

section \<open>Terminals of instances\<close>

lemma dbITerm_disconnectDbNet_moves:
  assumes ok: "netlist_ok s" and i: "cn_iterms (conn s) i = Some (n, m, k)" "n \<noteq> 0" and k: "cn_insts (conn s) k = Some False"
    and n: "may_touch (conn s) n"
  obtains s' where "dbITerm_disconnectDbNet i s = (Inr (), s')"
    "moves s [(kDisconnectObject, [type_param dbITermObj, id_param i, id_param n, PInt 0])]
       (conn s\<lparr>cn_iterms := (cn_iterms (conn s))(i \<mapsto> (0, m, k))\<rparr>) s'"
proof -
  obtain a where a: "dbTable_getPtr (nl_iterms s) i = Some a" "itm_net a = n" "itm_mnet a = m" "itm_inst a = k" using i(1) by (rule itermE)
  obtain b where b: "dbTable_getPtr (nl_insts s) k = Some b" "\<not> ins_dont_touch b" using k by (rule instE) simp
  obtain N where N: "dbTable_getPtr (nl_nets s) n = Some N" "\<not> get_flag dont_touch N" using n by (rule may_touchE)
  let ?ps = "[type_param dbITermObj, id_param i, id_param n, PInt 0]" and ?c = "conn s\<lparr>cn_iterms := (cn_iterms (conn s))(i \<mapsto> (0, m, k))\<rparr>"
  have "\<exists>s'. (\<lambda>_. unlink_iterm_net i n) () (s\<lparr>nl_journal := j\<rparr>) = (Inr (), s') \<and> moves (s\<lparr>nl_journal := j\<rparr>) [] ?c s'"
    if "moves s [(kDisconnectObject, ?ps)] (conn s) (s\<lparr>nl_journal := j\<rparr>)" for j
    using unlink_iterm_net [OF moves_ok(1) [OF that], of i a n N] a N by simp metis
  then obtain s' where "step_then (journal kDisconnectObject ?ps) (\<lambda>_. unlink_iterm_net i n) s = (Inr (), s')"
    "moves s [(kDisconnectObject, ?ps)] ?c s'" by (rule moves_journal_then [OF ok])
  with that show ?thesis using a b N i(2) by (simp add: dbITerm_disconnectDbNet_def)
qed

lemma dbITerm_disconnectDbModNet_moves:
  assumes ok: "netlist_ok s" and i: "cn_iterms (conn s) i = Some (n, m, k)" and m: "cn_modnets (conn s) m \<noteq> None"
  obtains s' where "dbITerm_disconnectDbModNet i s = (Inr (), s')"
    "moves s [(kDisconnectObject, [type_param dbITermObj, id_param i, PInt 0, id_param m])]
       (conn s\<lparr>cn_iterms := (cn_iterms (conn s))(i \<mapsto> (n, 0, k))\<rparr>) s'"
proof -
  obtain a where a: "dbTable_getPtr (nl_iterms s) i = Some a" "itm_net a = n" "itm_mnet a = m" "itm_inst a = k" using i by (rule itermE)
  obtain M where M: "dbTable_getPtr (nl_modnets s) m = Some M" using m by (rule modnetE)
  let ?ps = "[type_param dbITermObj, id_param i, PInt 0, id_param m]" and ?c = "conn s\<lparr>cn_iterms := (cn_iterms (conn s))(i \<mapsto> (n, 0, k))\<rparr>"
  let ?f = "itm_prev_mod_update (\<lambda>_. 0) \<circ> itm_next_mod_update (\<lambda>_. 0)"
  have "\<exists>s'. (\<lambda>_. unlink_iterm_modnet ?f i m) () (s\<lparr>nl_journal := j\<rparr>) = (Inr (), s') \<and> moves (s\<lparr>nl_journal := j\<rparr>) [] ?c s'"
    if "moves s [(kDisconnectObject, ?ps)] (conn s) (s\<lparr>nl_journal := j\<rparr>)" for j
    using unlink_iterm_modnet [OF moves_ok(1) [OF that], of i a m M ?f] a M by simp metis
  then obtain s' where "step_then (journal kDisconnectObject ?ps) (\<lambda>_. unlink_iterm_modnet ?f i m) s = (Inr (), s')"
    "moves s [(kDisconnectObject, ?ps)] ?c s'" by (rule moves_journal_then [OF ok])
  with that show ?thesis using a M mod_not_0 [OF m] by (simp add: dbITerm_disconnectDbModNet_def)
qed

lemma dbITerm_connect_moves:
  assumes ok: "netlist_ok s" and i: "cn_iterms (conn s) i = Some (0, m, k)" and k: "cn_insts (conn s) k = Some False"
    and n: "may_touch (conn s) n"
  obtains s' where "dbITerm_connect i n s = (Inr (), s')"
    "moves s [(kConnectObject, [type_param dbITermObj, id_param i, id_param n, PInt 0])]
       (conn s\<lparr>cn_iterms := (cn_iterms (conn s))(i \<mapsto> (n, m, k))\<rparr>) s'"
proof -
  obtain a where a: "dbTable_getPtr (nl_iterms s) i = Some a" "itm_net a = 0" "itm_mnet a = m" "itm_inst a = k" using i by (rule itermE)
  obtain b where b: "dbTable_getPtr (nl_insts s) k = Some b" "\<not> ins_dont_touch b" using k by (rule instE) simp
  obtain N where N: "dbTable_getPtr (nl_nets s) n = Some N" "\<not> get_flag dont_touch N" using n by (rule may_touchE)
  have n0: "n \<noteq> 0" using N(1) by (rule_tac notI) simp
  let ?ps = "[type_param dbITermObj, id_param i, id_param n, PInt 0]" and ?c = "conn s\<lparr>cn_iterms := (cn_iterms (conn s))(i \<mapsto> (n, m, k))\<rparr>"
  have "\<exists>s'. (\<lambda>_. link_iterm_net i n) () (s\<lparr>nl_journal := j\<rparr>) = (Inr (), s') \<and> moves (s\<lparr>nl_journal := j\<rparr>) [] ?c s'"
    if "moves s [(kConnectObject, ?ps)] (conn s) (s\<lparr>nl_journal := j\<rparr>)" for j
    using link_iterm_net [OF moves_ok(1) [OF that], of i a n N] a N by simp metis
  then obtain s' where "step_then (journal kConnectObject ?ps) (\<lambda>_. link_iterm_net i n) s = (Inr (), s')"
    "moves s [(kConnectObject, ?ps)] ?c s'" by (rule moves_journal_then [OF ok])
  with that show ?thesis using a b N n0 by (simp add: dbITerm_connect_def)
qed

lemma journal_iterms:
  "journal a ps s = (Inr (), s\<lparr>nl_journal := j\<rparr>) \<Longrightarrow> journal a ps (s\<lparr>nl_iterms := t\<rparr>) = (Inr (), s\<lparr>nl_journal := j, nl_iterms := t\<rparr>)"
  by (cases s) (auto simp: journal_def split: option.splits sum.splits)

lemma dbITerm_connect_modnet_moves:
  assumes ok: "netlist_ok s" and i: "cn_iterms (conn s) i = Some (n, 0, k)" and k: "cn_insts (conn s) k = Some False"
    and m: "cn_modnets (conn s) m \<noteq> None"
  obtains s' where "dbITerm_connect_modnet i m s = (Inr (), s')"
    "moves s [(kConnectObject, [type_param dbITermObj, id_param i, PInt 0, id_param m])]
       (conn s\<lparr>cn_iterms := (cn_iterms (conn s))(i \<mapsto> (n, m, k))\<rparr>) s'"
proof -
  obtain a where a: "dbTable_getPtr (nl_iterms s) i = Some a" "itm_net a = n" "itm_mnet a = 0" "itm_inst a = k" using i by (rule itermE)
  obtain b where b: "dbTable_getPtr (nl_insts s) k = Some b" "\<not> ins_dont_touch b" using k by (rule instE) simp
  obtain M where M: "dbTable_getPtr (nl_modnets s) m = Some M" using m by (rule modnetE)
  let ?ps = "[type_param dbITermObj, id_param i, PInt 0, id_param m]" and ?c = "conn s\<lparr>cn_iterms := (cn_iterms (conn s))(i \<mapsto> (n, m, k))\<rparr>"
  let ?t = "dbTable_update (nl_iterms s) i (itm_mnet_update (\<lambda>_. m))"
  obtain j where j: "journal kConnectObject ?ps s = (Inr (), s\<lparr>nl_journal := j\<rparr>)"
    "moves s [(kConnectObject, ?ps)] (conn s) (s\<lparr>nl_journal := j\<rparr>)" using moves_journal [OF ok] by metis
  obtain s' where s': "link_iterm_modnet i m (s\<lparr>nl_journal := j, nl_iterms := ?t\<rparr>) = (Inr (), s')" "moves (s\<lparr>nl_journal := j\<rparr>) [] ?c s'"
    using link_iterm_modnet [OF moves_ok(1) [OF j(2)], of i a m M] a M by simp metis
  have "dbITerm_connect_modnet i m s = (Inr (), s')"
    using a b M mod_not_0 [OF m] journal_iterms [OF j(1), of ?t] s'(1) by (simp add: dbITerm_connect_modnet_def set_iterm_mnet_def step_then_def)
  then show ?thesis using that moves_trans [OF j(2) s'(2)] by simp
qed

lemma dbITerm_disconnect_moves:
  assumes ok: "netlist_ok s" and i: "cn_iterms (conn s) i = Some (n, m, k)" "n \<noteq> 0 \<or> m \<noteq> 0" and k: "cn_insts (conn s) k = Some False"
    and n: "n = 0 \<or> may_touch (conn s) n" and m: "m = 0 \<or> cn_modnets (conn s) m \<noteq> None"
  obtains s' where "dbITerm_disconnect i s = (Inr (), s')"
    "moves s [(kDisconnectObject, [type_param dbITermObj, id_param i, id_param n, id_param m])]
       (conn s\<lparr>cn_iterms := (cn_iterms (conn s))(i \<mapsto> (0, 0, k))\<rparr>) s'"
proof -
  obtain a where a: "dbTable_getPtr (nl_iterms s) i = Some a" "itm_net a = n" "itm_mnet a = m" "itm_inst a = k" using i(1) by (rule itermE)
  obtain b where b: "dbTable_getPtr (nl_insts s) k = Some b" "\<not> ins_dont_touch b" using k by (rule instE) simp
  let ?ps = "[type_param dbITermObj, id_param i, id_param n, id_param m]"
  let ?c1 = "conn s\<lparr>cn_iterms := (cn_iterms (conn s))(i \<mapsto> (0, m, k))\<rparr>" and ?c = "conn s\<lparr>cn_iterms := (cn_iterms (conn s))(i \<mapsto> (0, 0, k))\<rparr>"
  let ?k = "step_then (if n = 0 then step_return () else unlink_iterm_net i n) (\<lambda>_. if m = 0 then step_return () else unlink_iterm_modnet (\<lambda>x. x) i m)"
  have touched: "(if n = 0 then step_return False else step_then (get_obj nl_nets n) (\<lambda>net. step_return (get_flag dont_touch net))) s = (Inr False, s)"
  proof (cases "n = 0")
    case False
    then obtain N where "dbTable_getPtr (nl_nets s) n = Some N" "\<not> get_flag dont_touch N" using n by (auto elim: may_touchE)
    with False show ?thesis by simp
  qed simp
  have two: "\<exists>s'. ?k t = (Inr (), s') \<and> moves t [] ?c s'" if t: "netlist_ok t" "conn t = conn s" for t
  proof -
    have "cn_iterms (conn t) i = Some (n, m, k)" using i(1) t(2) by simp
    then obtain a' where a': "dbTable_getPtr (nl_iterms t) i = Some a'" "itm_net a' = n" "itm_mnet a' = m" "itm_inst a' = k" by (rule itermE)
    obtain u where u: "(if n = 0 then step_return () else unlink_iterm_net i n) t = (Inr (), u)" "moves t [] ?c1 u"
    proof (cases "n = 0")
      case True
      have "?c1 = conn t" using True t(2) i(1) by (cases "conn s") (auto simp: fun_upd_idem)
      then show ?thesis using that [of t] True moves_refl [OF t(1)] by simp
    next
      case False
      have "may_touch (conn t) n" using n t(2) False by simp
      then obtain N where "dbTable_getPtr (nl_nets t) n = Some N" by (rule may_touchE)
      then show ?thesis using unlink_iterm_net [OF t(1) a'(1,2)] that a' False t(2) by (simp del: conn_fields) metis
    qed
    have "cn_iterms (conn u) i = Some (0, m, k)" using moves_ok(2) [OF u(2)] by simp
    then obtain a2 where a2: "dbTable_getPtr (nl_iterms u) i = Some a2" "itm_net a2 = 0" "itm_mnet a2 = m" "itm_inst a2 = k" by (rule itermE)
    show ?thesis
    proof (cases "m = 0")
      case True
      then show ?thesis using u by simp
    next
      case False
      have "cn_modnets (conn u) m \<noteq> None" using m False moves_ok(2) [OF u(2)] by simp
      then obtain M where "dbTable_getPtr (nl_modnets u) m = Some M" by (rule modnetE)
      then obtain v where "unlink_iterm_modnet (\<lambda>x. x) i m u = (Inr (), v)"
        "moves u [] (conn u\<lparr>cn_iterms := (cn_iterms (conn u))(i \<mapsto> (itm_net a2, 0, itm_inst a2))\<rparr>) v"
        using unlink_iterm_modnet [OF moves_ok(1) [OF u(2)] a2(1,3)] by metis
      then show ?thesis using u moves_trans [OF u(2)] a2 False moves_ok(2) [OF u(2)] by (simp add: step_then_def)
    qed
  qed
  obtain s' where s': "step_then (journal kDisconnectObject ?ps) (\<lambda>_. ?k) s = (Inr (), s')" "moves s [(kDisconnectObject, ?ps)] ?c s'"
  proof (rule moves_journal_then [OF ok, where k = "\<lambda>_. ?k"])
    fix j
    assume "moves s [(kDisconnectObject, ?ps)] (conn s) (s\<lparr>nl_journal := j\<rparr>)"
    then show "\<exists>s'. (\<lambda>_. ?k) () (s\<lparr>nl_journal := j\<rparr>) = (Inr (), s') \<and> moves (s\<lparr>nl_journal := j\<rparr>) [] ?c s'"
      using two [of "s\<lparr>nl_journal := j\<rparr>"] by (simp add: moves_ok)
  qed
  have nz: "(n = 0 \<and> m = 0) = False" using i(2) by blast
  have "dbITerm_disconnect i s = (Inr (), s')"
    using s'(1) a b touched by (simp add: dbITerm_disconnect_def nz cong: if_cong)
  then show ?thesis using s'(2) by (rule that)
qed

section \<open>Terminals of the block\<close>

lemma dbBTerm_disconnectDbNet_moves:
  assumes ok: "netlist_ok s" and i: "cn_bterms (conn s) i = Some (n, m, nm, p)" "n \<noteq> 0" and n: "cn_nets (conn s) n \<noteq> None"
  obtains s' where "bterm_disconnectNet i s = (Inr (), s')" "may_touch (conn s) n \<Longrightarrow> dbBTerm_disconnectDbNet i s = (Inr (), s')"
    "moves s [(kDisconnectObject, [type_param dbBTermObj, id_param i, id_param n, PUInt 0])]
       (conn s\<lparr>cn_bterms := (cn_bterms (conn s))(i \<mapsto> (0, m, nm, p))\<rparr>) s'"
proof -
  obtain a where a: "dbTable_getPtr (nl_bterms s) i = Some a" "btm_net a = n" "btm_mnet a = m" "btm_name a = nm" "btm_bpins a = p"
    using i(1) by (rule btermE)
  obtain N where N: "dbTable_getPtr (nl_nets s) n = Some N" using n by (auto simp: conn_see_def)
  let ?ps = "[type_param dbBTermObj, id_param i, id_param n, PUInt 0]" and ?c = "conn s\<lparr>cn_bterms := (cn_bterms (conn s))(i \<mapsto> (0, m, nm, p))\<rparr>"
  have "\<exists>s'. (\<lambda>_. unlink_bterm_net i n) () (s\<lparr>nl_journal := j\<rparr>) = (Inr (), s') \<and> moves (s\<lparr>nl_journal := j\<rparr>) [] ?c s'"
    if "moves s [(kDisconnectObject, ?ps)] (conn s) (s\<lparr>nl_journal := j\<rparr>)" for j
    using unlink_bterm_net [OF moves_ok(1) [OF that], of i a n N] a N by simp metis
  then obtain s' where u: "step_then (journal kDisconnectObject ?ps) (\<lambda>_. unlink_bterm_net i n) s = (Inr (), s')"
    "moves s [(kDisconnectObject, ?ps)] ?c s'" by (rule moves_journal_then [OF ok])
  then have b: "bterm_disconnectNet i s = (Inr (), s')" using a N i(2) by (simp add: bterm_disconnectNet_def)
  moreover have "dbBTerm_disconnectDbNet i s = (Inr (), s')" if "may_touch (conn s) n"
    using may_touchE [OF that] a N b i(2) by (auto simp: dbBTerm_disconnectDbNet_def)
  ultimately show ?thesis using that u(2) by blast
qed

lemma bterm_disconnectModNet_moves:
  assumes ok: "netlist_ok s" and i: "cn_bterms (conn s) i = Some (n, m, nm, p)" and m: "cn_modnets (conn s) m \<noteq> None"
  obtains s' where "bterm_disconnectModNet i s = (Inr (), s')"
    "moves s [(kDisconnectObject, [type_param dbBTermObj, id_param i, PUInt 0, id_param m])]
       (conn s\<lparr>cn_bterms := (cn_bterms (conn s))(i \<mapsto> (n, 0, nm, p))\<rparr>) s'"
proof -
  obtain a where a: "dbTable_getPtr (nl_bterms s) i = Some a" "btm_net a = n" "btm_mnet a = m" "btm_name a = nm" "btm_bpins a = p"
    using i by (rule btermE)
  obtain M where M: "dbTable_getPtr (nl_modnets s) m = Some M" using m by (rule modnetE)
  let ?ps = "[type_param dbBTermObj, id_param i, PUInt 0, id_param m]" and ?c = "conn s\<lparr>cn_bterms := (cn_bterms (conn s))(i \<mapsto> (n, 0, nm, p))\<rparr>"
  have "\<exists>s'. (\<lambda>_. unlink_bterm_modnet i m) () (s\<lparr>nl_journal := j\<rparr>) = (Inr (), s') \<and> moves (s\<lparr>nl_journal := j\<rparr>) [] ?c s'"
    if "moves s [(kDisconnectObject, ?ps)] (conn s) (s\<lparr>nl_journal := j\<rparr>)" for j
    using unlink_bterm_modnet [OF moves_ok(1) [OF that], of i a m M] a M by simp metis
  then obtain s' where "step_then (journal kDisconnectObject ?ps) (\<lambda>_. unlink_bterm_modnet i m) s = (Inr (), s')"
    "moves s [(kDisconnectObject, ?ps)] ?c s'" by (rule moves_journal_then [OF ok])
  with that show ?thesis using a M mod_not_0 [OF m] by (simp add: bterm_disconnectModNet_def)
qed

lemma bterm_connectNet_moves:
  assumes ok: "netlist_ok s" and i: "cn_bterms (conn s) i = Some (0, m, nm, p)" and n: "cn_nets (conn s) n \<noteq> None"
  obtains s' where "bterm_connectNet i n s = (Inr (), s')" "may_touch (conn s) n \<Longrightarrow> dbBTerm_connect i n s = (Inr (), s')"
    "moves s [(kConnectObject, [type_param dbBTermObj, id_param i, id_param n, PUInt 0])]
       (conn s\<lparr>cn_bterms := (cn_bterms (conn s))(i \<mapsto> (n, m, nm, p))\<rparr>) s'"
proof -
  obtain a where a: "dbTable_getPtr (nl_bterms s) i = Some a" "btm_net a = 0" "btm_mnet a = m" "btm_name a = nm" "btm_bpins a = p"
    using i by (rule btermE)
  obtain N where N: "dbTable_getPtr (nl_nets s) n = Some N" using n by (auto simp: conn_see_def)
  have n0: "n \<noteq> 0" using N by (rule_tac notI) simp
  let ?ps = "[type_param dbBTermObj, id_param i, id_param n, PUInt 0]" and ?c = "conn s\<lparr>cn_bterms := (cn_bterms (conn s))(i \<mapsto> (n, m, nm, p))\<rparr>"
  have "\<exists>s'. (\<lambda>_. link_bterm_net i n) () (s\<lparr>nl_journal := j\<rparr>) = (Inr (), s') \<and> moves (s\<lparr>nl_journal := j\<rparr>) [] ?c s'"
    if "moves s [(kConnectObject, ?ps)] (conn s) (s\<lparr>nl_journal := j\<rparr>)" for j
    using link_bterm_net [OF moves_ok(1) [OF that], of i a n N] a N by simp metis
  then obtain s' where u: "bterm_connectNet i n s = (Inr (), s')" "moves s [(kConnectObject, ?ps)] ?c s'"
    unfolding bterm_connectNet_def by (rule moves_journal_then [OF ok])
  moreover have "dbBTerm_connect i n s = (Inr (), s')" if "may_touch (conn s) n"
    using may_touchE [OF that] a N u(1) n0 by (auto simp: dbBTerm_connect_def)
  ultimately show ?thesis using that by blast
qed

lemma bterm_connectModNet_moves:
  assumes ok: "netlist_ok s" and i: "cn_bterms (conn s) i = Some (n, 0, nm, p)" and m: "cn_modnets (conn s) m \<noteq> None"
  obtains s' where "bterm_connectModNet i m s = (Inr (), s')" "dbBTerm_connect_modnet i m s = (Inr (), s')"
    "moves s [(kConnectObject, [type_param dbBTermObj, id_param i, PUInt 0, id_param m])]
       (conn s\<lparr>cn_bterms := (cn_bterms (conn s))(i \<mapsto> (n, m, nm, p))\<rparr>) s'"
proof -
  obtain a where a: "dbTable_getPtr (nl_bterms s) i = Some a" "btm_net a = n" "btm_mnet a = 0" "btm_name a = nm" "btm_bpins a = p"
    using i by (rule btermE)
  obtain M where M: "dbTable_getPtr (nl_modnets s) m = Some M" using m by (rule modnetE)
  let ?ps = "[type_param dbBTermObj, id_param i, PUInt 0, id_param m]" and ?c = "conn s\<lparr>cn_bterms := (cn_bterms (conn s))(i \<mapsto> (n, m, nm, p))\<rparr>"
  have "\<exists>s'. (\<lambda>_. link_bterm_modnet i m) () (s\<lparr>nl_journal := j\<rparr>) = (Inr (), s') \<and> moves (s\<lparr>nl_journal := j\<rparr>) [] ?c s'"
    if "moves s [(kConnectObject, ?ps)] (conn s) (s\<lparr>nl_journal := j\<rparr>)" for j
    using link_bterm_modnet [OF moves_ok(1) [OF that], of i a m M] a M by simp metis
  then obtain s' where u: "bterm_connectModNet i m s = (Inr (), s')" "moves s [(kConnectObject, ?ps)] ?c s'"
    unfolding bterm_connectModNet_def by (rule moves_journal_then [OF ok])
  moreover have "dbBTerm_connect_modnet i m s = (Inr (), s')"
    using a M u(1) mod_not_0 [OF m] by (simp add: dbBTerm_connect_modnet_def)
  ultimately show ?thesis using that by blast
qed

section \<open>Nets\<close>

text \<open>Fields of nets other than the heads of their lists.\<close>

lemma moves_nets:
  assumes ok: "netlist_ok s"
    and nets: "tbl_inv nets" "conn_see nt_iterms nets = conn_see nt_iterms (nl_nets s)" "conn_see nt_bterms nets = conn_see nt_bterms (nl_nets s)"
      "\<And>xs. tbl_free (nl_nets s) xs \<Longrightarrow> tbl_free nets xs"
    and c: "conn_inv (conn s\<lparr>cn_nets := conn_see net_view nets\<rparr>)"
    and h: "distinct hash" "set hash = set (nl_net_hash s)"
  shows "moves s [] (conn s\<lparr>cn_nets := conn_see net_view nets\<rparr>) (s\<lparr>nl_nets := nets, nl_net_hash := hash\<rparr>)"
proof -
  let ?s = "s\<lparr>nl_nets := nets, nl_net_hash := hash\<rparr>"
  have c': "conn ?s = conn s\<lparr>cn_nets := conn_see net_view nets\<rparr>"
    by (simp add: conn_def)
  have "dom (dbTable_getPtr nets) = dom (dbTable_getPtr (nl_nets s))" using nets(2) by (rule dom_same)
  then have "netlist_ok ?s"
    using ok c h nets unfolding netlist_ok_def c'
    by (simp add: tables_ok_def hashes_ok_def iterm_lists_ok_def bterm_lists_ok_def journal_ready_def)
  moreover have "logged s [] ?s" by (rule logged_cong) simp_all
  ultimately show ?thesis using c' nets(4) by (simp add: moves_def)
qed

lemma moves_net:
  assumes ok: "netlist_ok s" and N: "dbTable_getPtr (nl_nets s) n = Some N"
    and f: "\<And>a. nt_iterms (f a) = nt_iterms a" "\<And>a. nt_bterms (f a) = nt_bterms a"
    and c: "conn_inv (conn s\<lparr>cn_nets := (cn_nets (conn s))(n \<mapsto> net_view (f N))\<rparr>)"
    and h: "distinct hash" "set hash = set (nl_net_hash s)"
  shows "moves s [] (conn s\<lparr>cn_nets := (cn_nets (conn s))(n \<mapsto> net_view (f N))\<rparr>)
    (s\<lparr>nl_nets := dbTable_update (nl_nets s) n f, nl_net_hash := hash\<rparr>)"
proof -
  note okD = netlist_okD [OF ok]
  have v: "conn_see net_view (dbTable_update (nl_nets s) n f) = (conn_see net_view (nl_nets s))(n \<mapsto> net_view (f N))"
    using okD(1) N by (simp add: see_update)
  have hd: "conn_see nt_iterms (dbTable_update (nl_nets s) n f) = conn_see nt_iterms (nl_nets s)"
    "conn_see nt_bterms (dbTable_update (nl_nets s) n f) = conn_see nt_bterms (nl_nets s)"
    using okD(1) f by (simp_all add: see_update_same)
  show ?thesis
    using moves_nets [OF ok _ hd _ _ h] okD(1) c v by (simp add: table_update update_free)
qed

lemma netE:
  assumes "cn_nets (conn s) n = Some (nm, fl, ndr, oth)"
  obtains N where "dbTable_getPtr (nl_nets s) n = Some N" "nt_name N = nm" "nt_flags N = fl" "nt_ndr N = ndr" "nt_other N = oth"
  using assms by (auto simp: see_Some net_view_def)

lemma conn_ok_net_same_name:
  assumes "conn_inv c" "cn_nets c n = Some x" "fst y = fst x"
  shows "conn_inv (c\<lparr>cn_nets := (cn_nets c)(n \<mapsto> y)\<rparr>)"
proof (rule conn_ok_net [OF assms(1)])
  show "new_id n" using assms(1,2) unfolding conn_inv_def by blast
  show "c_name (fst y)" using assms unfolding conn_inv_def by metis
  show "fst z \<noteq> fst y" if "m \<noteq> n" "cn_nets c m = Some z" for m z
    using assms that unfolding conn_inv_def distinct_names_def by metis
qed

lemma netlist_ok_conn: "netlist_ok s \<Longrightarrow> conn_inv (conn s)"
  by (simp add: netlist_ok_def)

text \<open>The journal is written after the change.\<close>

lemma set_net_flags_moves:
  assumes ok: "netlist_ok s" and n: "cn_nets (conn s) n = Some (nm, fl, ndr, oth)"
  obtains s' where "set_net_flags n f s = (Inr (), s')"
    "moves s [(kUpdateField, [type_param dbNetObj, id_param n, PInt 0, PUInt fl, PUInt (f fl)])]
       (conn s\<lparr>cn_nets := (cn_nets (conn s))(n \<mapsto> (nm, f fl, ndr, oth))\<rparr>) s'"
proof -
  obtain N where N: "dbTable_getPtr (nl_nets s) n = Some N" "nt_name N = nm" "nt_flags N = fl" "nt_ndr N = ndr" "nt_other N = oth"
    using n by (rule netE)
  let ?s = "s\<lparr>nl_nets := dbTable_update (nl_nets s) n (nt_flags_update f), nl_net_hash := nl_net_hash s\<rparr>"
  have "conn_inv (conn s\<lparr>cn_nets := (cn_nets (conn s))(n \<mapsto> net_view (nt_flags_update f N))\<rparr>)"
    using n N by (intro conn_ok_net_same_name [OF netlist_ok_conn [OF ok] n]) (simp add: net_view_def)
  then have m: "moves s [] (conn s\<lparr>cn_nets := (cn_nets (conn s))(n \<mapsto> net_view (nt_flags_update f N))\<rparr>) ?s"
    by (intro moves_net [OF ok N(1)]) (use ok in \<open>simp_all add: netlist_ok_def hashes_ok_def\<close>)
  obtain j where j: "journal kUpdateField [type_param dbNetObj, id_param n, PInt 0, PUInt fl, PUInt (f fl)] ?s = (Inr (), ?s\<lparr>nl_journal := j\<rparr>)"
    "moves ?s [(kUpdateField, [type_param dbNetObj, id_param n, PInt 0, PUInt fl, PUInt (f fl)])] (conn ?s) (?s\<lparr>nl_journal := j\<rparr>)"
    using moves_journal [OF moves_ok(1) [OF m]] by metis
  show ?thesis
    using that moves_trans [OF m j(2)] j(1) N moves_ok(2) [OF m] by (simp add: set_net_flags_def net_view_def del: conn_fields)
qed

lemma has_net_iff: "netlist_ok s \<Longrightarrow> has_net s name \<longleftrightarrow> (\<exists>n x. cn_nets (conn s) n = Some x \<and> fst x = c_str name)"
proof -
  assume "netlist_ok s"
  then have "set (nl_net_hash s) = dom (dbTable_getPtr (nl_nets s))" by (simp add: netlist_ok_def hashes_ok_def)
  then show ?thesis
    by (auto simp: has_net_def list_ex_iff net_named_def conn_see_def net_view_def)
qed

lemma c_name_id: "c_name name \<Longrightarrow> c_str name = name"
  by (simp add: c_name_def c_str_id)

lemma conn_ok_name: "conn_inv c \<Longrightarrow> cn_nets c n = Some x \<Longrightarrow> c_name (fst x)"
  unfolding conn_inv_def by blast

lemma conn_ok_id: "conn_inv c \<Longrightarrow> cn_nets c n = Some x \<Longrightarrow> new_id n"
  by (auto simp: conn_inv_def)

lemma dbNet_rename_moves:
  assumes ok: "netlist_ok s" and n: "cn_nets (conn s) n = Some (nm, fl, ndr, oth)" and name: "c_name name" "\<not> has_net s name"
  obtains s' where "dbNet_rename n name s = (Inr True, s')"
    "moves s [(kUpdateField, [type_param dbNetObj, id_param n, PInt 6, PString (Some nm), PString (Some name)])]
       (conn s\<lparr>cn_nets := (cn_nets (conn s))(n \<mapsto> (name, fl, ndr, oth))\<rparr>) s'"
proof -
  obtain N where N: "dbTable_getPtr (nl_nets s) n = Some N" "nt_name N = nm" "nt_flags N = fl" "nt_ndr N = ndr" "nt_other N = oth"
    using n by (rule netE)
  let ?ps = "[type_param dbNetObj, id_param n, PInt 6, PString (Some nm), PString (Some name)]"
  obtain j where j: "journal kUpdateField ?ps s = (Inr (), s\<lparr>nl_journal := j\<rparr>)"
    "moves s [(kUpdateField, ?ps)] (conn s) (s\<lparr>nl_journal := j\<rparr>)" using moves_journal [OF ok] by metis
  let ?s = "s\<lparr>nl_journal := j\<rparr>" and ?f = "nt_name_update (\<lambda>_. c_str name)" and ?h = "n # remove1 n (nl_net_hash s)"
  have hash: "distinct (nl_net_hash s)" "n \<in> set (nl_net_hash s)" using ok N(1) by (auto simp: netlist_ok_def hashes_ok_def)
  have c: "conn_inv (conn ?s\<lparr>cn_nets := (cn_nets (conn ?s))(n \<mapsto> net_view (?f N))\<rparr>)"
    using name has_net_iff [OF ok, of name] netlist_ok_conn [OF ok] conn_ok_id [OF netlist_ok_conn [OF ok] n]
    by (intro conn_ok_net) (auto simp: net_view_def c_name_id)
  have "moves ?s [] (conn ?s\<lparr>cn_nets := (cn_nets (conn ?s))(n \<mapsto> net_view (?f N))\<rparr>)
      (?s\<lparr>nl_nets := dbTable_update (nl_nets ?s) n ?f, nl_net_hash := ?h\<rparr>)"
    by (rule moves_net [where s = ?s and n = n and N = N and f = ?f and hash = ?h])
      (use N hash c moves_ok(1) [OF j(2)] in \<open>auto simp: distinct_remove1\<close>)
  then have "moves s [(kUpdateField, ?ps)] (conn s\<lparr>cn_nets := (cn_nets (conn s))(n \<mapsto> (name, fl, ndr, oth))\<rparr>)
      (?s\<lparr>nl_nets := dbTable_update (nl_nets ?s) n ?f, nl_net_hash := ?h\<rparr>)"
    using moves_trans [OF j(2)] N name(1) by (simp add: net_view_def c_name_id)
  moreover have "dbNet_rename n name s = (Inr True, ?s\<lparr>nl_nets := dbTable_update (nl_nets ?s) n ?f, nl_net_hash := ?h\<rparr>)"
    using N name j(1) by (simp add: dbNet_rename_def Let_def)
  ultimately show ?thesis by (rule_tac that)
qed

lemma dbNet_swapNetNames_moves:
  assumes ok: "netlist_ok s" and n: "cn_nets (conn s) n = Some (nm, fl, ndr, oth)" "cn_nets (conn s) m = Some (nm', fl', ndr', oth')"
    and nm: "n \<noteq> m"
  obtains s' where "dbNet_swapNetNames n m ok_to_journal s = (Inr (), s')"
    "moves s (if ok_to_journal then [(kSwapObject, [type_param dbNameObj, type_param dbNetObj, id_param m, id_param n])] else [])
       (conn s\<lparr>cn_nets := (cn_nets (conn s))(n \<mapsto> (nm', fl, ndr, oth), m \<mapsto> (nm, fl', ndr', oth'))\<rparr>) s'"
proof -
  obtain N where N: "dbTable_getPtr (nl_nets s) n = Some N" "nt_name N = nm" "nt_flags N = fl" "nt_ndr N = ndr" "nt_other N = oth"
    using n(1) by (rule netE)
  obtain M where M: "dbTable_getPtr (nl_nets s) m = Some M" "nt_name M = nm'" "nt_flags M = fl'" "nt_ndr M = ndr'" "nt_other M = oth'"
    using n(2) by (rule netE)
  let ?a = "(kSwapObject, [type_param dbNameObj, type_param dbNetObj, id_param m, id_param n])"
  let ?es = "if ok_to_journal then [?a] else []"
  obtain j where j: "(if ok_to_journal then journal kSwapObject (snd ?a) else step_return ()) s = (Inr (), s\<lparr>nl_journal := j\<rparr>)"
    "moves s ?es (conn s) (s\<lparr>nl_journal := j\<rparr>)"
  proof (cases ok_to_journal)
    case True
    obtain j where "journal kSwapObject (snd ?a) s = (Inr (), s\<lparr>nl_journal := j\<rparr>)"
      "moves s [(kSwapObject, snd ?a)] (conn s) (s\<lparr>nl_journal := j\<rparr>)" by (rule moves_journal [OF ok])
    then show ?thesis using that [of j] True by simp
  next
    case False
    then show ?thesis using that [of "nl_journal s"] moves_refl [OF ok] by simp
  qed
  let ?s = "s\<lparr>nl_journal := j\<rparr>"
  define nets where "nets = dbTable_update (dbTable_update (nl_nets s) n (nt_name_update (\<lambda>_. nm'))) m (nt_name_update (\<lambda>_. nm))"
  define hash where "hash = m # n # remove1 m (remove1 n (nl_net_hash s))"
  note inv = netlist_okD(1) [OF ok]
  let ?c = "conn s\<lparr>cn_nets := (cn_nets (conn s))(n \<mapsto> (nm', fl, ndr, oth), m \<mapsto> (nm, fl', ndr', oth'))\<rparr>"
  have v: "conn_see net_view nets = (conn_see net_view (nl_nets s))(n \<mapsto> (nm', fl, ndr, oth), m \<mapsto> (nm, fl', ndr', oth'))"
    using inv N M nm by (simp add: nets_def see_update table_update upd_apply net_view_def)
  have "conn_inv ?c"
  proof -
    have ck: "conn_inv (conn s)" by (rule netlist_ok_conn [OF ok])
    have dn: "distinct_names fst (cn_nets (conn s))" using ck by (simp add: conn_inv_def)
    have "distinct_names fst (cn_nets ?c)"
      unfolding distinct_names_def
    proof (intro allI impI)
      fix a b x y
      assume ab: "cn_nets ?c a = Some x" "cn_nets ?c b = Some y" "fst x = fst y"
      have old: "\<exists>x'. cn_nets (conn s) (if a = n then m else if a = m then n else a) = Some x' \<and> fst x' = fst x"
        if "cn_nets ?c a = Some x" for a x
        using that n by (cases x) (auto split: if_splits)
      obtain x' y' where x': "cn_nets (conn s) (if a = n then m else if a = m then n else a) = Some x'" "fst x' = fst x"
        "cn_nets (conn s) (if b = n then m else if b = m then n else b) = Some y'" "fst y' = fst y"
        using old [OF ab(1)] old [OF ab(2)] by blast
      then have "(if a = n then m else if a = m then n else a) = (if b = n then m else if b = m then n else b)"
        using dn [unfolded distinct_names_def, rule_format, OF x'(1,3)] x'(2,4) ab(3) by simp
      then show "a = b" by (auto split: if_splits)
    qed
    then show ?thesis
      using ck conn_ok_id [OF ck n(1)] conn_ok_id [OF ck n(2)] conn_ok_name [OF ck n(1)] conn_ok_name [OF ck n(2)]
      by (simp add: conn_inv_def del: conn_fields)
  qed
  then have "moves ?s [] (conn ?s\<lparr>cn_nets := conn_see net_view nets\<rparr>) (?s\<lparr>nl_nets := nets, nl_net_hash := hash\<rparr>)"
    by (intro moves_nets [OF moves_ok(1) [OF j(2)]])
      (use inv ok N(1) M(1) nm v in \<open>auto simp: nets_def hash_def see_update_same table_update update_free netlist_ok_def hashes_ok_def distinct_remove1\<close>)
  then have "moves ?s [] ?c (?s\<lparr>nl_nets := nets, nl_net_hash := hash\<rparr>)" using v by simp
  from moves_trans [OF j(2) this] have "moves s ?es ?c (?s\<lparr>nl_nets := nets, nl_net_hash := hash\<rparr>)" by (simp only: append_Nil2)
  moreover have "dbNet_swapNetNames n m ok_to_journal s = (Inr (), ?s\<lparr>nl_nets := nets, nl_net_hash := hash\<rparr>)"
    using N M j(1) by (simp add: dbNet_swapNetNames_def Let_def nets_def hash_def cong: if_cong)
  ultimately show ?thesis by (rule_tac that)
qed

text \<open>Creating and deleting change the table of nets, so what they do to the free ids is stated too.\<close>

definition new_flags :: "32 word" where
  "new_flags = nt_flags mk_dbNet"

lemma netlist_ok_nets:
  assumes ok: "netlist_ok s" and inv: "tbl_inv nets"
    and ls: "lists_ok itm_net itm_next itm_prev (dbTable_getPtr (nl_iterms s)) (conn_see nt_iterms nets)"
      "lists_ok btm_net btm_next btm_prev (dbTable_getPtr (nl_bterms s)) (conn_see nt_bterms nets)"
    and c: "conn_inv (conn s\<lparr>cn_nets := conn_see net_view nets\<rparr>)"
    and h: "distinct hash" "set hash = dom (dbTable_getPtr nets)"
  shows "netlist_ok (s\<lparr>nl_nets := nets, nl_net_hash := hash\<rparr>)"
    and "conn (s\<lparr>nl_nets := nets, nl_net_hash := hash\<rparr>) = conn s\<lparr>cn_nets := conn_see net_view nets\<rparr>"
proof -
  show c': "conn (s\<lparr>nl_nets := nets, nl_net_hash := hash\<rparr>) = conn s\<lparr>cn_nets := conn_see net_view nets\<rparr>"
    by (simp add: conn_def)
  show "netlist_ok (s\<lparr>nl_nets := nets, nl_net_hash := hash\<rparr>)"
    using assms unfolding netlist_ok_def c'
    by (simp add: tables_ok_def hashes_ok_def iterm_lists_ok_def bterm_lists_ok_def journal_ready_def)
qed

lemma journal_nets:
  "journal a ps s = (Inr (), s\<lparr>nl_journal := j\<rparr>) \<Longrightarrow> journal a ps (s\<lparr>nl_nets := t\<rparr>) = (Inr (), s\<lparr>nl_journal := j, nl_nets := t\<rparr>)"
  by (cases s) (auto simp: journal_def split: option.splits sum.splits)

lemma dbNet_create_effect:
  assumes ok: "netlist_ok s" and name: "c_name name" "\<not> has_net s name" and n: "dbTable_create (nl_nets s) mk_dbNet = (n, t)" "new_id n"
  obtains s' where "dbNet_create name skip s = (Inr (Some n), s')" "netlist_ok s'"
    "conn s' = conn s\<lparr>cn_nets := (cn_nets (conn s))(n \<mapsto> (name, new_flags, 0, False))\<rparr>" "cn_nets (conn s) n = None"
    "logged s [(kCreateObject, [type_param dbNetObj, PString (Some name), id_param n])] s'"
    "nl_nets s' = dbTable_update t n (nt_name_update (\<lambda>_. name))" "n \<noteq> 0"
proof -
  note okD = netlist_okD [OF ok]
  have c: "tbl_inv t" "n \<noteq> 0" "dbTable_getPtr (nl_nets s) n = None" "dbTable_getPtr t = (dbTable_getPtr (nl_nets s))(n \<mapsto> mk_dbNet)"
    using tbl.create [OF okD(1) n(1)] by simp_all
  define nets where "nets = dbTable_update t n (nt_name_update (\<lambda>_. name))"
  let ?ps = "[type_param dbNetObj, PString (Some name), id_param n]"
  obtain j where j: "journal kCreateObject ?ps s = (Inr (), s\<lparr>nl_journal := j\<rparr>)"
    "moves s [(kCreateObject, ?ps)] (conn s) (s\<lparr>nl_journal := j\<rparr>)" by (rule moves_journal [OF ok])
  let ?s = "s\<lparr>nl_journal := j\<rparr>" and ?h = "n # nl_net_hash s"
  have v: "conn_see net_view nets = (conn_see net_view (nl_nets s))(n \<mapsto> (name, new_flags, 0, False))"
    using c by (auto simp: nets_def see_update conn_see_def net_view_def mk_dbNet_def new_flags_def)
  have hd: "conn_see nt_iterms nets = (conn_see nt_iterms (nl_nets s))(n \<mapsto> 0)" "conn_see nt_bterms nets = (conn_see nt_bterms (nl_nets s))(n \<mapsto> 0)"
    using c by (auto simp: nets_def see_update conn_see_def mk_dbNet_def)
  have inv: "tbl_inv nets" using c by (simp add: nets_def table_update)
  have dom: "dom (dbTable_getPtr nets) = insert n (dom (dbTable_getPtr (nl_nets s)))"
    using c by (auto simp: nets_def table_update upd_apply split: if_splits)
  have ck: "conn_inv (conn ?s\<lparr>cn_nets := conn_see net_view nets\<rparr>)"
    unfolding v conn_journal conn_fields(1) [symmetric]
    by (rule conn_ok_net [OF netlist_ok_conn [OF ok] n(2)]) (use name has_net_iff [OF ok, of name] in \<open>auto simp: c_name_id\<close>)
  have h: "distinct ?h" "set ?h = dom (dbTable_getPtr nets)"
    using ok c(3) dom by (auto simp: netlist_ok_def hashes_ok_def)
  have ls: "lists_ok itm_net itm_next itm_prev (dbTable_getPtr (nl_iterms ?s)) (conn_see nt_iterms nets)"
    "lists_ok btm_net btm_next btm_prev (dbTable_getPtr (nl_bterms ?s)) (conn_see nt_bterms nets)"
    unfolding hd using okD c(2,3) by (simp_all add: lists_ok_new conn_see_def)
  note o = netlist_ok_nets [OF moves_ok(1) [OF j(2)] inv ls ck h]
  have run: "dbNet_create name skip s = (Inr (Some n), ?s\<lparr>nl_nets := nets, nl_net_hash := ?h\<rparr>)"
    using n name journal_nets [OF j(1), of t] by (simp add: dbNet_create_def nets_def c_name_id step_then_def)
  have log: "logged s [(kCreateObject, ?ps)] (?s\<lparr>nl_nets := nets, nl_net_hash := ?h\<rparr>)"
    using logged_trans [OF _ logged_cong] j(2) by (fastforce simp: moves_def)
  from run o(1) show ?thesis
    by (rule that) (use log o(2) v c in \<open>simp_all add: nets_def conn_see_def\<close>)
qed

lemma dbNet_delete_effect:
  assumes ok: "netlist_ok s" and n: "cn_nets (conn s) n = Some (nm, fl, ndr, oth)"
    and free: "\<And>i m k. cn_iterms (conn s) i \<noteq> Some (n, m, k)" "\<And>i m x p. cn_bterms (conn s) i \<noteq> Some (n, m, x, p)"
  obtains s' where "dbNet_delete n s = (Inr (), s')" "netlist_ok s'"
    "conn s' = conn s\<lparr>cn_nets := (cn_nets (conn s))(n := None)\<rparr>"
    "logged s [(kDeleteObject, [type_param dbNetObj, PString (Some nm), id_param n, PUInt fl, PUInt ndr])] s'"
    "dbTable_destroy (nl_nets s) n = Some (nl_nets s')"
proof -
  note okD = netlist_okD [OF ok]
  obtain N where N: "dbTable_getPtr (nl_nets s) n = Some N" "nt_name N = nm" "nt_flags N = fl" "nt_ndr N = ndr" "nt_other N = oth"
    using n by (rule netE)
  obtain t where t: "dbTable_destroy (nl_nets s) n = Some t" "tbl_inv t" "dbTable_getPtr t = (dbTable_getPtr (nl_nets s))(n := None)"
    using tbl.destroy [OF okD(1) N(1)] by blast
  let ?ps = "[type_param dbNetObj, PString (Some nm), id_param n, PUInt fl, PUInt ndr]"
  obtain j where j: "journal kDeleteObject ?ps s = (Inr (), s\<lparr>nl_journal := j\<rparr>)"
    "moves s [(kDeleteObject, ?ps)] (conn s) (s\<lparr>nl_journal := j\<rparr>)" by (rule moves_journal [OF ok])
  let ?s = "s\<lparr>nl_journal := j\<rparr>" and ?h = "remove1 n (nl_net_hash s)"
  have v: "conn_see f t = (conn_see f (nl_nets s))(n := None)" for f :: "dbNet \<Rightarrow> 'v"
    using t(3) by (auto simp: conn_see_def)
  have ck: "conn_inv (conn ?s\<lparr>cn_nets := conn_see net_view t\<rparr>)"
    using netlist_ok_conn [OF ok] unfolding v by (auto simp: conn_inv_def distinct_names_def)
  have h: "distinct ?h" "set ?h = dom (dbTable_getPtr t)"
    using ok t(3) by (auto simp: netlist_ok_def hashes_ok_def)
  have "itm_net a \<noteq> n" if "dbTable_getPtr (nl_iterms s) i = Some a" for i a
    using free(1) [of i "itm_mnet a" "itm_inst a"] that by (auto simp: conn_see_def iterm_view_def)
  moreover have "btm_net a \<noteq> n" if "dbTable_getPtr (nl_bterms s) i = Some a" for i a
    using free(2) [of i "btm_mnet a" "btm_name a" "btm_bpins a"] that by (auto simp: conn_see_def bterm_view_def)
  ultimately have ls: "lists_ok itm_net itm_next itm_prev (dbTable_getPtr (nl_iterms ?s)) (conn_see nt_iterms t)"
    "lists_ok btm_net btm_next btm_prev (dbTable_getPtr (nl_bterms ?s)) (conn_see nt_bterms t)"
    unfolding v using okD by (simp_all add: lists_ok_del)
  note o = netlist_ok_nets [OF moves_ok(1) [OF j(2)] t(2) ls ck h]
  have run: "dbNet_delete n s = (Inr (), ?s\<lparr>nl_nets := t, nl_net_hash := ?h\<rparr>)"
    using N t(1) j(1) by (simp add: dbNet_delete_def step_then_def)
  have log: "logged s [(kDeleteObject, ?ps)] (?s\<lparr>nl_nets := t, nl_net_hash := ?h\<rparr>)"
    using logged_trans [OF _ logged_cong] j(2) by (fastforce simp: moves_def)
  have cs: "conn (?s\<lparr>nl_nets := t, nl_net_hash := ?h\<rparr>) = conn s\<lparr>cn_nets := (cn_nets (conn s))(n := None)\<rparr>"
    unfolding o(2) by (simp add: v)
  from run o(1) cs log show ?thesis
    by (rule that) (use t in simp)
qed

end
