(* ===== verification/NetJournal.thy ===== *)
theory NetJournal
  imports Netlist
begin

text \<open>
  The journal as it is read (\<^verbatim>\<open>db/dbJournal.cpp\<close>): what undoing and redoing each action does to the netlist, and the
  ECOs of a block (\<^verbatim>\<open>dbDatabase::beginEco\<close>, \<^verbatim>\<open>endEco\<close>, \<^verbatim>\<open>commitEco\<close>, \<^verbatim>\<open>undoEco\<close>). A handler reads the parameters of an
  action from the log, calls an operation of the netlist and goes on with the log. The actions on objects outside the model fail with \<open>Unmodelled\<close>.
  No journal is written while one is undone.
\<close>

type_synonym reading = "dbJournalLog \<Rightarrow> netlist \<Rightarrow> (eco_error + dbJournalLog) \<times> netlist"

definition rd :: "(dbJournalLog \<Rightarrow> eco_error + 'a \<times> dbJournalLog) \<Rightarrow> ('a \<Rightarrow> reading) \<Rightarrow> reading" where
  "rd pop k l s = (case pop l of Inl e \<Rightarrow> (Inl e, s) | Inr (a, l) \<Rightarrow> k a l s)"

definition perform :: "'a step \<Rightarrow> ('a \<Rightarrow> reading) \<Rightarrow> reading" where
  "perform m k l s = (case m s of (Inl e, s) \<Rightarrow> (Inl e, s) | (Inr a, s) \<Rightarrow> k a l s)"

definition finished :: reading where
  "finished l s = (Inr l, s)"

definition stop :: "eco_error \<Rightarrow> reading" where
  "stop e l s = (Inl e, s)"

definition pop_id :: "dbJournalLog \<Rightarrow> eco_error + nat \<times> dbJournalLog" where
  "pop_id l = and_then (pop_uint l) (\<lambda>(w, l). Inr (unat w, l))"

definition assign_net :: "nat \<Rightarrow> (dbNet \<Rightarrow> dbNet) \<Rightarrow> unit step" where
  "assign_net n f = step_then (get_obj nl_nets n) (\<lambda>_ s. (Inr (), s\<lparr>nl_nets := dbTable_update (nl_nets s) n f\<rparr>))"

section \<open>Undo\<close>

definition undo_createObject :: reading where
  "undo_createObject = rd pop_int (\<lambda>type.
     if type = object_code dbNetObj then
       rd pop_string (\<lambda>name. rd pop_id (\<lambda>net_id. perform (dbNet_destroy net_id) (\<lambda>_. finished)))
     else if type \<in> object_code ` set [dbGuideObj, dbInstObj, dbModuleObj, dbModInstObj, dbModNetObj, dbModBTermObj, dbModITermObj]
     then stop Unmodelled else stop (LogCritical 441))"

definition undo_deleteObject :: reading where
  "undo_deleteObject = rd pop_int (\<lambda>type.
     if type = object_code dbNetObj then
       rd pop_string (\<lambda>name. rd pop_id (\<lambda>net_id. perform (dbNet_create (c_str name) False) (\<lambda>net.
         case net of
           None \<Rightarrow> stop BadId
         | Some n \<Rightarrow> rd pop_uint (\<lambda>flags. perform (assign_net n (nt_flags_update (\<lambda>_. flags))) (\<lambda>_.
             rd pop_uint (\<lambda>ndr_id. perform (assign_net n (nt_ndr_update (\<lambda>_. ndr_id))) (\<lambda>_. finished)))))))
     else if type \<in> object_code ` set [dbGuideObj, dbInstObj, dbModuleObj, dbModInstObj, dbModNetObj, dbModBTermObj, dbModITermObj]
     then stop Unmodelled else stop (LogCritical 417))"

definition undo_connectObject :: reading where
  "undo_connectObject = rd pop_int (\<lambda>type.
     if type = object_code dbITermObj then
       rd pop_id (\<lambda>iterm_id. rd pop_id (\<lambda>net_id. rd pop_id (\<lambda>mnet_id.
         perform (if net_id \<noteq> 0 then dbITerm_disconnectDbNet iterm_id
                  else if mnet_id \<noteq> 0 then dbITerm_disconnectDbModNet iterm_id else step_return ()) (\<lambda>_. finished))))
     else if type = object_code dbBTermObj then
       rd pop_id (\<lambda>bterm_id. rd pop_id (\<lambda>net_id. rd pop_id (\<lambda>mnet_id.
         perform (if net_id \<noteq> 0 then dbBTerm_disconnectDbNet bterm_id
                  else if mnet_id \<noteq> 0 then dbBTerm_disconnectDbModNet bterm_id else step_return ()) (\<lambda>_. finished))))
     else if type \<in> object_code ` set [dbModITermObj, dbModBTermObj] then stop Unmodelled else stop (LogCritical 442))"

definition undo_disconnectObject :: reading where
  "undo_disconnectObject = rd pop_int (\<lambda>type.
     if type = object_code dbITermObj then
       rd pop_id (\<lambda>iterm_id. rd pop_id (\<lambda>net_id.
         perform (if net_id \<noteq> 0 then dbITerm_connect iterm_id net_id else step_return ()) (\<lambda>_. rd pop_id (\<lambda>mnet_id.
         perform (if mnet_id \<noteq> 0 then dbITerm_connect_modnet iterm_id mnet_id else step_return ()) (\<lambda>_. finished)))))
     else if type = object_code dbBTermObj then
       rd pop_id (\<lambda>bterm_id. rd pop_id (\<lambda>net_id.
         perform (if net_id \<noteq> 0 then dbBTerm_connect bterm_id net_id else step_return ()) (\<lambda>_. rd pop_id (\<lambda>mnet_id.
         perform (if mnet_id \<noteq> 0 then dbBTerm_connect_modnet bterm_id mnet_id else step_return ()) (\<lambda>_. finished)))))
     else if type \<in> object_code ` set [dbModBTermObj, dbModITermObj] then stop Unmodelled else stop (LogCritical 443))"

text \<open>The net whose name was moved to the other one gets it back: the source is now the old destination.\<close>

definition undo_swapObject :: reading where
  "undo_swapObject = rd pop_int (\<lambda>type.
     if type = object_code dbNameObj then
       rd pop_int (\<lambda>sub_type.
         if sub_type = object_code dbNetObj then
           rd pop_id (\<lambda>source_net_id. rd pop_id (\<lambda>dest_net_id.
             perform (dbNet_swapNetNames dest_net_id source_net_id False) (\<lambda>_. finished)))
         else stop (LogCritical 467))
     else if type = object_code dbInstObj then stop Unmodelled else stop (LogCritical 444))"

definition undo_updateNetField :: reading where
  "undo_updateNetField = rd pop_id (\<lambda>net_id. perform (get_obj nl_nets net_id) (\<lambda>_. rd pop_int (\<lambda>field.
     if field = 0 then
       rd pop_uint (\<lambda>flags. perform (assign_net net_id (nt_flags_update (\<lambda>_. flags))) (\<lambda>_. rd pop_uint (\<lambda>new_flags. finished)))
     else if field = 6 then
       rd pop_string (\<lambda>prev_name. rd pop_string (\<lambda>new_name. perform (dbNet_rename net_id (c_str prev_name)) (\<lambda>_. finished)))
     else stop (LogCritical 408))))"

definition undo_updateOtherField :: "nat \<Rightarrow> reading" where
  "undo_updateOtherField code = rd pop_id (\<lambda>_. rd pop_int (\<lambda>_. stop (LogCritical code)))"

definition undo_updateField :: reading where
  "undo_updateField = rd pop_int (\<lambda>type.
     if type = object_code dbNetObj then undo_updateNetField
     else if type = object_code dbITermObj then undo_updateOtherField 410
     else if type = object_code dbRSegObj then undo_updateOtherField 411
     else if type = object_code dbCapNodeObj then undo_updateOtherField 412
     else if type \<in> object_code ` set [dbInstObj, dbModNetObj] then stop Unmodelled else stop (LogCritical 445))"

primrec undo_action :: "netlist handler" where
  "undo_action kCreateObject = undo_createObject"
| "undo_action kDeleteObject = undo_deleteObject"
| "undo_action kConnectObject = undo_connectObject"
| "undo_action kDisconnectObject = undo_disconnectObject"
| "undo_action kSwapObject = undo_swapObject"
| "undo_action kUpdateField = undo_updateField"
| "undo_action kEndAction = finished"

section \<open>Redo\<close>

definition redo_createObject :: reading where
  "redo_createObject = rd pop_int (\<lambda>type.
     if type = object_code dbNetObj then
       rd pop_string (\<lambda>name. rd pop_id (\<lambda>net_id. perform (dbNet_create (c_str name) False) (\<lambda>_. finished)))
     else if type = object_code dbBTermObj then
       rd pop_id (\<lambda>net_id. rd pop_string (\<lambda>name. perform (dbBTerm_create net_id (c_str name)) (\<lambda>_. finished)))
     else if type \<in> object_code ` set [dbInstObj, dbRSegObj, dbCapNodeObj, dbCCSegObj, dbModuleObj, dbModITermObj, dbModBTermObj,
         dbModInstObj, dbModNetObj]
     then stop Unmodelled else stop (LogCritical 1107))"

definition redo_deleteObject :: reading where
  "redo_deleteObject = rd pop_int (\<lambda>type.
     if type = object_code dbNetObj then
       rd pop_string (\<lambda>name. rd pop_id (\<lambda>net_id. rd pop_uint (\<lambda>flags. rd pop_uint (\<lambda>ndr_id.
         perform (dbNet_destroy net_id) (\<lambda>_. finished)))))
     else if type = object_code dbBTermObj then rd pop_id (\<lambda>bterm_id. perform (dbBTerm_destroy bterm_id) (\<lambda>_. finished))
     else if type \<in> object_code ` set [dbInstObj, dbRSegObj, dbCapNodeObj, dbCCSegObj, dbModuleObj, dbModITermObj, dbModBTermObj,
         dbModInstObj, dbModNetObj]
     then stop Unmodelled else stop (LogCritical 1108))"

text \<open>The case of a bterm does not read the module net.\<close>

definition redo_connectObject :: reading where
  "redo_connectObject = rd pop_int (\<lambda>type.
     if type = object_code dbITermObj then
       rd pop_id (\<lambda>iterm_id. rd pop_id (\<lambda>net_id.
         perform (if net_id \<noteq> 0 then dbITerm_connect iterm_id net_id else step_return ()) (\<lambda>_. rd pop_id (\<lambda>mod_net_id.
         perform (if mod_net_id \<noteq> 0 then dbITerm_connect_modnet iterm_id mod_net_id else step_return ()) (\<lambda>_. finished)))))
     else if type = object_code dbBTermObj then
       rd pop_id (\<lambda>bterm_id. rd pop_id (\<lambda>net_id. perform (get_obj nl_nets net_id) (\<lambda>_.
         perform (dbBTerm_connect bterm_id net_id) (\<lambda>_. finished))))
     else if type \<in> object_code ` set [dbModBTermObj, dbModITermObj] then stop Unmodelled else stop (LogCritical 1110))"

definition redo_disconnectObject :: reading where
  "redo_disconnectObject = rd pop_int (\<lambda>type.
     if type = object_code dbITermObj then
       rd pop_id (\<lambda>iterm_id. rd pop_id (\<lambda>net_id. rd pop_id (\<lambda>mnet_id.
         perform (if net_id \<noteq> 0 \<and> mnet_id \<noteq> 0 then dbITerm_disconnect iterm_id
                  else if net_id \<noteq> 0 then dbITerm_disconnectDbNet iterm_id
                  else if mnet_id \<noteq> 0 then dbITerm_disconnectDbModNet iterm_id else step_return ()) (\<lambda>_. finished))))
     else if type = object_code dbBTermObj then
       rd pop_id (\<lambda>bterm_id. rd pop_id (\<lambda>net_id.
         perform (if net_id \<noteq> 0 then dbBTerm_disconnectDbNet bterm_id else step_return ()) (\<lambda>_. rd pop_id (\<lambda>mnet_id.
         perform (if mnet_id \<noteq> 0 then dbBTerm_disconnectDbModNet bterm_id else step_return ()) (\<lambda>_. finished)))))
     else if type \<in> object_code ` set [dbModBTermObj, dbModITermObj] then stop Unmodelled else stop (LogCritical 1109))"

text \<open>No case for the names of nets: nothing more is read.\<close>

definition redo_swapObject :: reading where
  "redo_swapObject = rd pop_int (\<lambda>type. if type = object_code dbInstObj then stop Unmodelled else finished)"

definition redo_updateNetField :: reading where
  "redo_updateNetField = rd pop_id (\<lambda>net_id. perform (get_obj nl_nets net_id) (\<lambda>_. rd pop_int (\<lambda>field.
     if field = 0 then
       rd pop_uint (\<lambda>prev_flags. rd pop_uint (\<lambda>flags. perform (assign_net net_id (nt_flags_update (\<lambda>_. flags))) (\<lambda>_. finished)))
     else if field = 1 then
       rd pop_uint (\<lambda>prev_rule. rd pop_uint (\<lambda>rule_id. perform (assign_net net_id (nt_ndr_update (\<lambda>_. rule_id))) (\<lambda>_.
       rd pop_bool (\<lambda>prev_block_rule. rd pop_bool (\<lambda>cur_block_rule.
         perform (assign_net net_id (nt_flags_update (put_flag block_rule cur_block_rule))) (\<lambda>_. finished))))))
     else if field = 6 then
       rd pop_string (\<lambda>prev_name. rd pop_string (\<lambda>new_name. perform (dbNet_rename net_id (c_str new_name)) (\<lambda>_. finished)))
     else if field \<in> set [2, 3, 4, 5] then stop Unmodelled else finished)))"

definition redo_updateField :: reading where
  "redo_updateField = rd pop_int (\<lambda>type.
     if type = object_code dbNetObj then redo_updateNetField
     else if type \<in> object_code ` set [dbBlockObj, dbInstObj, dbBTermObj, dbITermObj, dbRSegObj, dbCCSegObj, dbCapNodeObj,
         dbModNetObj]
     then stop Unmodelled else finished)"

primrec redo_action :: "netlist handler" where
  "redo_action kCreateObject = redo_createObject"
| "redo_action kDeleteObject = redo_deleteObject"
| "redo_action kConnectObject = redo_connectObject"
| "redo_action kDisconnectObject = redo_disconnectObject"
| "redo_action kSwapObject = redo_swapObject"
| "redo_action kUpdateField = redo_updateField"
| "redo_action kEndAction = finished"

section \<open>ECOs\<close>

text \<open>The stack of the journals that have ended, the last one first.\<close>

definition endEco :: "unit step" where
  "endEco s =
     (case nl_journal s of
        None \<Rightarrow> (Inl BadId, s)
      | Some j \<Rightarrow> (Inr (), s\<lparr>nl_journal_stack := j # nl_journal_stack s, nl_journal := None\<rparr>))"

definition beginEco :: "netlist \<Rightarrow> netlist" where
  "beginEco s =
     (let s = (if nl_journal s \<noteq> None then snd (endEco s) else s)
      in s\<lparr>nl_journal := Some (mk_dbJournal (nl_journal_check s))\<rparr>)"

definition take_journal :: "netlist \<Rightarrow> (eco_error + dbJournal) \<times> netlist" where
  "take_journal s =
     (case nl_journal s of
        Some j \<Rightarrow> (Inr j, s\<lparr>nl_journal := None\<rparr>)
      | None \<Rightarrow>
          (case nl_journal_stack s of
             [] \<Rightarrow> (Inl BadId, s)
           | j # js \<Rightarrow> (Inr j, s\<lparr>nl_journal_stack := js\<rparr>)))"

definition commitEco :: "netlist \<Rightarrow> ((eco_error + unit) \<times> netlist) option" where
  "commitEco s =
     (case take_journal s of
        (Inl e, s) \<Rightarrow> Some (Inl e, s)
      | (Inr j, s) \<Rightarrow>
          (case nl_journal_stack s of
             [] \<Rightarrow> Some (Inr (), s)
           | prev # js \<Rightarrow> do {
               r \<leftarrow> log_append (jn_log prev) (jn_log j);
               Some (case r of
                 Inl e \<Rightarrow> (Inl e, s\<lparr>nl_journal := Some j\<rparr>)
               | Inr l \<Rightarrow> (Inr (), s\<lparr>nl_journal_stack := prev\<lparr>jn_log := l\<rparr> # js\<rparr>)) }))"

definition undoEco :: "netlist \<Rightarrow> ((eco_error + unit) \<times> netlist) option" where
  "undoEco s =
     (case take_journal s of
        (Inl e, s) \<Rightarrow> Some (Inl e, s)
      | (Inr j, s) \<Rightarrow> undo_log undo_action (jn_log j) s)"

text \<open>\<^verbatim>\<open>dbJournal::redo\<close>, for a journal that has been read from a file or taken from another block.\<close>

definition redo_journal :: "dbJournal \<Rightarrow> netlist \<Rightarrow> ((eco_error + unit) \<times> netlist) option" where
  "redo_journal j s = redo_log redo_action (jn_log j) s"

end
