(* ===== verification/NetUndo.thy ===== *)
theory NetUndo
  imports NetEffects NetJournal
begin

text \<open>
  Undoing an ECO restores the netlist. First, what each action in the log does when it is undone: \<open>undo_entry\<close> is one action undone, and
  the locale of \<open>JournalLaws\<close>, interpreted on the handlers of the netlist, turns the loop over the log into a run of these. Then \<open>tracked\<close>: a
  step has written actions whose undoing, from any netlist that looks like the one after the step, gives one that looks like the one before.
  It composes, so every operation is tracked, and the ECO of any run of operations is undone.
\<close>

section \<open>Undoing one action\<close>

definition undo_entry :: "entry \<Rightarrow> unit step" where
  "undo_entry e s =
     (case undo_action (fst e) (log_at False [] (params_bytes False (snd e))) s of
        (Inl er, s') \<Rightarrow> (Inl er, s') | (Inr _, s') \<Rightarrow> (Inr (), s'))"

definition good_entry :: "entry \<Rightarrow> bool" where
  "good_entry e \<longleftrightarrow> (\<exists>f. handles undo_action False False e f)"

lemma handles_undo_entry:
  assumes "handles undo_action False False e f"
  shows "undo_entry e = f"
proof
  fix s
  note h = assms [unfolded handles_def, THEN spec [of _ "[]"], THEN spec [of _ "[]"], THEN spec [of _ s], unfolded append_Nil append_Nil2]
  show "undo_entry e s = f s"
    using h by (auto simp: undo_entry_def split: prod.splits sum.splits)
qed

interpretation undoing: journal_reader undo_action undo_entry False good_entry
proof
  fix e
  assume "good_entry e"
  then obtain f where f: "handles undo_action False False e f" by (auto simp: good_entry_def)
  then show "handles undo_action False False e (undo_entry e)" by (simp add: handles_undo_entry)
qed

lemma unat_of_id: "new_id i \<Longrightarrow> unat (of_nat i :: 32 word) = i"
  by (simp add: new_id_def unsigned_of_nat take_bit_nat_eq_self)

lemma new_id_0 [simp]: "new_id 0"
  by (simp add: new_id_def)

lemma pop_id_at: "new_id i \<Longrightarrow> pop_id (log_at dbg pre (param_bytes dbg (id_param i) @ rest)) =
    Inr (i, log_at dbg (pre @ param_bytes dbg (id_param i)) rest)"
  by (simp add: pop_id_def id_param_def pop_uint_at unat_of_id del: param_bytes.simps)

lemma pop_id_0: "pop_id (log_at False pre (param_bytes False (PInt 0) @ rest)) = Inr (0, log_at False (pre @ param_bytes False (PInt 0)) rest)"
  "pop_id (log_at False pre (param_bytes False (PUInt 0) @ rest)) = Inr (0, log_at False (pre @ param_bytes False (PUInt 0)) rest)"
  by (simp_all add: pop_id_def pop_uint_of_int(2) pop_uint_at del: param_bytes.simps)

lemma pop_type_at: "pop_int (log_at dbg pre (param_bytes dbg (type_param type) @ rest)) =
    Inr (object_code type, log_at dbg (pre @ param_bytes dbg (type_param type)) rest)"
  unfolding type_param_def by (rule pop_int_at) (cases type, simp_all add: fits_int32_iff)

lemma pop_name_at: "c_name nm \<Longrightarrow> pop_string (log_at dbg pre (param_bytes dbg (PString (Some nm)) @ rest)) =
    Inr (nm, log_at dbg (pre @ param_bytes dbg (PString (Some nm))) rest)"
  by (rule pop_string_at) (simp_all add: c_name_def)

lemmas reading_simps = rd_def perform_def finished_def pop_id_at pop_id_0 pop_type_at pop_name_at pop_uint_at

lemma undo_connect_iterm:
  "new_id i \<Longrightarrow> new_id n \<Longrightarrow> n \<noteq> 0 \<Longrightarrow>
     handles undo_action False False (kConnectObject, [type_param dbITermObj, id_param i, id_param n, PInt 0]) (dbITerm_disconnectDbNet i)"
  "new_id i \<Longrightarrow> new_id m \<Longrightarrow> m \<noteq> 0 \<Longrightarrow>
     handles undo_action False False (kConnectObject, [type_param dbITermObj, id_param i, PInt 0, id_param m]) (dbITerm_disconnectDbModNet i)"
  unfolding handles_def
  by (simp_all add: undo_connectObject_def reading_simps del: param_bytes.simps split: prod.split sum.split)

lemma undo_connect_bterm:
  "new_id i \<Longrightarrow> new_id n \<Longrightarrow> n \<noteq> 0 \<Longrightarrow>
     handles undo_action False False (kConnectObject, [type_param dbBTermObj, id_param i, id_param n, PUInt 0]) (dbBTerm_disconnectDbNet i)"
  "new_id i \<Longrightarrow> new_id m \<Longrightarrow> m \<noteq> 0 \<Longrightarrow>
     handles undo_action False False (kConnectObject, [type_param dbBTermObj, id_param i, PUInt 0, id_param m]) (dbBTerm_disconnectDbModNet i)"
  unfolding handles_def
  by (simp_all add: undo_connectObject_def reading_simps del: param_bytes.simps split: prod.split sum.split)

lemma undo_disconnect_iterm:
  "new_id i \<Longrightarrow> new_id n \<Longrightarrow> n \<noteq> 0 \<Longrightarrow>
     handles undo_action False False (kDisconnectObject, [type_param dbITermObj, id_param i, id_param n, PInt 0]) (dbITerm_connect i n)"
  "new_id i \<Longrightarrow> new_id m \<Longrightarrow> m \<noteq> 0 \<Longrightarrow>
     handles undo_action False False (kDisconnectObject, [type_param dbITermObj, id_param i, PInt 0, id_param m]) (dbITerm_connect_modnet i m)"
  "new_id i \<Longrightarrow> new_id n \<Longrightarrow> new_id m \<Longrightarrow>
     handles undo_action False False (kDisconnectObject, [type_param dbITermObj, id_param i, id_param n, id_param m])
       (step_then (if n = 0 then step_return () else dbITerm_connect i n)
          (\<lambda>_. if m = 0 then step_return () else dbITerm_connect_modnet i m))"
  unfolding handles_def
  by (simp_all add: undo_disconnectObject_def reading_simps step_then_def del: param_bytes.simps split: prod.split sum.split)

lemma undo_disconnect_bterm:
  "new_id i \<Longrightarrow> new_id n \<Longrightarrow> n \<noteq> 0 \<Longrightarrow>
     handles undo_action False False (kDisconnectObject, [type_param dbBTermObj, id_param i, id_param n, PUInt 0]) (dbBTerm_connect i n)"
  "new_id i \<Longrightarrow> new_id m \<Longrightarrow> m \<noteq> 0 \<Longrightarrow>
     handles undo_action False False (kDisconnectObject, [type_param dbBTermObj, id_param i, PUInt 0, id_param m]) (dbBTerm_connect_modnet i m)"
  unfolding handles_def
  by (simp_all add: undo_disconnectObject_def reading_simps del: param_bytes.simps split: prod.split sum.split)

lemma undo_create_net:
  "new_id n \<Longrightarrow> c_name nm \<Longrightarrow>
     handles undo_action False False (kCreateObject, [type_param dbNetObj, PString (Some nm), id_param n]) (dbNet_destroy n)"
  unfolding handles_def
  by (simp add: undo_createObject_def reading_simps del: param_bytes.simps split: prod.split sum.split)

definition recreate_net :: "string \<Rightarrow> 32 word \<Rightarrow> 32 word \<Rightarrow> unit step" where
  "recreate_net nm flags ndr = step_then (dbNet_create nm False) (\<lambda>net.
     case net of
       None \<Rightarrow> step_fail BadId
     | Some n \<Rightarrow> step_then (assign_net n (nt_flags_update (\<lambda>_. flags))) (\<lambda>_. assign_net n (nt_ndr_update (\<lambda>_. ndr))))"

lemma undo_delete_net:
  "new_id n \<Longrightarrow> c_name nm \<Longrightarrow>
     handles undo_action False False (kDeleteObject, [type_param dbNetObj, PString (Some nm), id_param n, PUInt flags, PUInt ndr])
       (recreate_net nm flags ndr)"
  unfolding handles_def
  by (simp add: undo_deleteObject_def reading_simps recreate_net_def step_then_def stop_def c_name_id step_fail_def
      del: param_bytes.simps split: prod.split sum.split option.split)

lemma undo_swap_nets:
  "new_id n \<Longrightarrow> new_id m \<Longrightarrow>
     handles undo_action False False (kSwapObject, [type_param dbNameObj, type_param dbNetObj, id_param m, id_param n])
       (dbNet_swapNetNames n m False)"
  unfolding handles_def
  by (simp add: undo_swapObject_def reading_simps del: param_bytes.simps split: prod.split sum.split)

lemma pop_field_at: "fits_int32 i \<Longrightarrow> pop_int (log_at dbg pre (param_bytes dbg (PInt i) @ rest)) =
    Inr (i, log_at dbg (pre @ param_bytes dbg (PInt i)) rest)"
  by (rule pop_int_at)

lemma undo_net_flags:
  "new_id n \<Longrightarrow>
     handles undo_action False False (kUpdateField, [type_param dbNetObj, id_param n, PInt 0, PUInt old, PUInt new])
       (assign_net n (nt_flags_update (\<lambda>_. old)))"
  unfolding handles_def
  by (simp add: undo_updateField_def undo_updateNetField_def reading_simps pop_field_at fits_int32_iff assign_net_def step_then_def get_obj_def
      del: param_bytes.simps split: prod.split sum.split option.split) auto

lemma undo_net_name:
  assumes "new_id n" "c_name old" "c_name new"
  shows "handles undo_action False False (kUpdateField, [type_param dbNetObj, id_param n, PInt 6, PString (Some old), PString (Some new)])
     (drop_result (dbNet_rename n old))"
  unfolding handles_def
proof (intro allI)
  fix pre rest s
  show "case undo_action (fst (kUpdateField, [type_param dbNetObj, id_param n, PInt 6, PString (Some old), PString (Some new)]))
      (log_at False pre (params_bytes False (snd (kUpdateField, [type_param dbNetObj, id_param n, PInt 6, PString (Some old), PString (Some new)])) @ rest)) s of
      (Inl er, s') \<Rightarrow> drop_result (dbNet_rename n old) s = (Inl er, s')
    | (Inr l, s') \<Rightarrow> drop_result (dbNet_rename n old) s = (Inr (), s') \<and>
        jl_data l = pre @ params_bytes False (snd (kUpdateField, [type_param dbNetObj, id_param n, PInt 6, PString (Some old), PString (Some new)])) @ rest \<and>
        jl_debug l = False \<and> (False \<longrightarrow> jl_idx l = int (length pre +
          length (params_bytes False (snd (kUpdateField, [type_param dbNetObj, id_param n, PInt 6, PString (Some old), PString (Some new)])))))"
  proof (cases "dbTable_getPtr (nl_nets s) n")
    case None
    then have "drop_result (dbNet_rename n old) s = (Inl BadId, s)" by (simp add: drop_result_def dbNet_rename_def)
    with None assms show ?thesis
      by (simp add: undo_updateField_def undo_updateNetField_def reading_simps del: param_bytes.simps)
  next
    case (Some N)
    with assms show ?thesis
      by (simp add: undo_updateField_def undo_updateNetField_def reading_simps pop_field_at fits_int32_iff c_name_id drop_result_def step_then_def
          del: param_bytes.simps split: prod.split sum.split)
  qed
qed

section \<open>Steps that can be undone\<close>

definition undoable :: "entry list \<Rightarrow> netlist \<Rightarrow> netlist \<Rightarrow> bool" where
  "undoable es s s' \<longleftrightarrow>
     (\<forall>t. netlist_ok t \<longrightarrow> nl_journal t = None \<longrightarrow> conn t = conn s' \<longrightarrow> ids.room (nl_nets s') (nl_nets t) \<longrightarrow>
        (\<exists>t'. run_all (map undo_entry (rev es)) t = (Inr (), t') \<and> netlist_ok t' \<and> logged t [] t' \<and> conn t' = conn s \<and>
              ids.room (nl_nets s) (nl_nets t')))"

text \<open>No step changes an instance, or moves an iterm to another one.\<close>

definition iterm_inst :: "conn \<Rightarrow> nat \<Rightarrow> bool option" where
  "iterm_inst c i = (case cn_iterms c i of None \<Rightarrow> None | Some (_, _, k) \<Rightarrow> cn_insts c k)"

definition tracked :: "netlist \<Rightarrow> netlist \<Rightarrow> bool" where
  "tracked s s' \<longleftrightarrow> netlist_ok s' \<and> iterm_inst (conn s') = iterm_inst (conn s) \<and>
     (\<exists>es. logged s es s' \<and> (\<forall>e \<in> set es. good_entry e) \<and> undoable es s s')"

lemma inst_of_iterm:
  "cn_iterms c i = Some (n, m, k) \<Longrightarrow> iterm_inst (c\<lparr>cn_iterms := (cn_iterms c)(i \<mapsto> (n', m', k))\<rparr>) = iterm_inst c"
  by (rule ext) (simp add: iterm_inst_def split: option.split)

lemma inst_of_same: "iterm_inst (c\<lparr>cn_bterms := g\<rparr>) = iterm_inst c" "iterm_inst (c\<lparr>cn_nets := h\<rparr>) = iterm_inst c"
  by (rule ext, simp add: iterm_inst_def split: option.split)+

lemma logged_none: "nl_journal s = None \<Longrightarrow> logged s es s' \<Longrightarrow> logged s [] s'"
  by (simp add: logged_def)

lemma logged_nil_journal: "nl_journal s = None \<Longrightarrow> logged s [] s' \<Longrightarrow> nl_journal s' = None"
  by (simp add: logged_def)

lemma tracked_refl: "netlist_ok s \<Longrightarrow> tracked s s"
  unfolding tracked_def undoable_def by (intro conjI exI [of _ "[]"]) (auto simp: logged_refl)

lemma undoable_append:
  assumes "undoable es s t" "undoable fs t u"
  shows "undoable (es @ fs) s u"
  unfolding undoable_def
proof (intro allI impI)
  fix v
  assume v: "netlist_ok v" "nl_journal v = None" "conn v = conn u" "ids.room (nl_nets u) (nl_nets v)"
  then obtain w where w: "run_all (map undo_entry (rev fs)) v = (Inr (), w)" "netlist_ok w" "logged v [] w" "conn w = conn t"
    "ids.room (nl_nets t) (nl_nets w)"
    using assms(2) unfolding undoable_def by blast
  have "nl_journal w = None" using logged_nil_journal v(2) w(3) by blast
  then obtain x where "run_all (map undo_entry (rev es)) w = (Inr (), x)" "netlist_ok x" "logged w [] x" "conn x = conn s"
    "ids.room (nl_nets s) (nl_nets x)"
    using assms(1) w unfolding undoable_def by blast
  then show "\<exists>t'. run_all (map undo_entry (rev (es @ fs))) v = (Inr (), t') \<and> netlist_ok t' \<and> logged v [] t' \<and> conn t' = conn s \<and>
      ids.room (nl_nets s) (nl_nets t')"
    using w logged_trans [OF w(3), of "[]" x] by (auto simp: run_all_append)
qed

lemma tracked_trans:
  assumes "tracked s t" "tracked t u"
  shows "tracked s u"
proof -
  obtain es where es: "logged s es t" "\<forall>e \<in> set es. good_entry e" "undoable es s t" using assms(1) unfolding tracked_def by blast
  obtain fs where fs: "logged t fs u" "\<forall>e \<in> set fs. good_entry e" "undoable fs t u" using assms(2) unfolding tracked_def by blast
  show ?thesis
    unfolding tracked_def
  proof (intro conjI exI [of _ "es @ fs"])
    show "logged s (es @ fs) u" by (rule logged_trans [OF es(1) fs(1)])
    show "undoable (es @ fs) s u" by (rule undoable_append [OF es(3) fs(3)])
  qed (use assms es fs in \<open>auto simp: tracked_def\<close>)
qed

lemma room_free: "tbl_inv t \<Longrightarrow> (\<And>xs. tbl_free t xs \<Longrightarrow> tbl_free t' xs) \<Longrightarrow> ids.room t' u \<Longrightarrow> ids.room t u"
  unfolding ids.room_def using tbl_free_ex tbl_free_unique by metis

lemma room_free_right: "(\<And>xs. tbl_free u xs \<Longrightarrow> tbl_free u' xs) \<Longrightarrow> ids.room t u \<Longrightarrow> ids.room t u'"
  unfolding ids.room_def by metis

text \<open>A step that does not create or delete nets and writes one action.\<close>

lemma tracked_moves:
  assumes ok: "netlist_ok s" and m: "moves s [e] c s'" and i: "iterm_inst c = iterm_inst (conn s)"
    and h: "handles undo_action False False e f"
    and undo: "\<And>t. netlist_ok t \<Longrightarrow> conn t = c \<Longrightarrow> \<exists>t' fs. f t = (Inr (), t') \<and> moves t fs (conn s) t'"
  shows "tracked s s'"
  unfolding tracked_def
proof (intro conjI exI [of _ "[e]"])
  show "netlist_ok s'" "logged s [e] s'" using m by (simp_all add: moves_def)
  show "iterm_inst (conn s') = iterm_inst (conn s)" using m i by (simp add: moves_def)
  show "\<forall>e \<in> set [e]. good_entry e" using h by (auto simp: good_entry_def)
  show "undoable [e] s s'"
    unfolding undoable_def
  proof (intro allI impI)
    fix t
    assume t: "netlist_ok t" "nl_journal t = None" "conn t = conn s'" "ids.room (nl_nets s') (nl_nets t)"
    then obtain t' fs where f: "f t = (Inr (), t')" "moves t fs (conn s) t'" using undo [of t] m by (auto simp: moves_def)
    have r: "ids.room (nl_nets s) (nl_nets t)"
      using t(4) m netlist_okD(1) [OF ok] by (auto simp: moves_def intro: room_free)
    show "\<exists>t'. run_all (map undo_entry (rev [e])) t = (Inr (), t') \<and> netlist_ok t' \<and> logged t [] t' \<and> conn t' = conn s \<and>
        ids.room (nl_nets s) (nl_nets t')"
    proof (intro exI conjI)
      show "run_all (map undo_entry (rev [e])) t = (Inr (), t')" using f(1) handles_undo_entry [OF h] by simp
      show "logged t [] t'" using f(2) by (intro logged_none [OF t(2), of fs]) (simp add: moves_def)
      show "ids.room (nl_nets s) (nl_nets t')" using room_free_right [OF _ r] f(2) by (simp add: moves_def)
    qed (use f(2) in \<open>simp_all add: moves_def\<close>)
  qed
qed

text \<open>Tracking a sequence of steps.\<close>

lemma tracked_then:
  assumes "tracked s (snd (m s))" "\<And>a t. m s = (Inr a, t) \<Longrightarrow> tracked t (snd (k a t))"
  shows "tracked s (snd (step_then m k s))"
proof (cases "m s")
  case (Pair r t)
  show ?thesis
  proof (cases r)
    case (Inl e)
    with Pair assms(1) show ?thesis by simp
  next
    case (Inr a)
    with Pair have "m s = (Inr a, t)" by simp
    then show ?thesis using tracked_trans [OF _ assms(2)] assms(1) by simp
  qed
qed

lemma tracked_fetch:
  assumes "netlist_ok s" "\<And>a. dbTable_getPtr (tbl s) i = Some a \<Longrightarrow> tracked s (snd (k a s))"
  shows "tracked s (snd (step_then (get_obj tbl i) k s))"
  using assms tracked_refl by (cases "dbTable_getPtr (tbl s) i") simp_all

lemma tracked_each:
  assumes "netlist_ok s" "\<And>s x. netlist_ok s \<Longrightarrow> x \<in> set xs \<Longrightarrow> tracked s (snd (f x s))"
  shows "tracked s (snd (step_each f xs s))"
  using assms
proof (induction xs arbitrary: s)
  case Nil
  then show ?case by (simp add: tracked_refl)
next
  case (Cons x xs)
  have one: "tracked s (snd (f x s))" using Cons.prems by simp
  show ?case
    unfolding step_each.simps
  proof (rule tracked_then [where m = "f x", OF one])
    fix a t
    assume "f x s = (Inr a, t)"
    then have "netlist_ok t" using one by (simp add: tracked_def)
    then show "tracked t (snd (step_each f xs t))" using Cons by simp
  qed
qed

lemma tracked_ok: "tracked s s' \<Longrightarrow> netlist_ok s'"
  by (simp add: tracked_def)

end
