(* ===== verification/NetEdits.thy ===== *)
theory NetEdits
  imports NetUndo
begin

text \<open>
  Every operation of the netlist is tracked: what it wrote to the journal, undone, gives the netlist it started from, also when it stopped
  half-way with an error. \<open>reversible\<close> names the operations for which this does not hold.
\<close>

section \<open>Terminals are tracked\<close>

lemma tracked_iterm:
  assumes ok: "netlist_ok s" and i: "cn_iterms (conn s) i = Some (n, m, k)"
    and mv: "moves s [e] (conn s\<lparr>cn_iterms := (cn_iterms (conn s))(i \<mapsto> (n', m', k))\<rparr>) s'"
    and h: "handles undo_action False False e f"
    and undo: "\<And>t. netlist_ok t \<Longrightarrow> cn_iterms (conn t) i = Some (n', m', k) \<Longrightarrow> cn_nets (conn t) = cn_nets (conn s) \<Longrightarrow>
      cn_modnets (conn t) = cn_modnets (conn s) \<Longrightarrow> cn_insts (conn t) = cn_insts (conn s) \<Longrightarrow>
      \<exists>t' fs. f t = (Inr (), t') \<and> moves t fs (conn t\<lparr>cn_iterms := (cn_iterms (conn t))(i \<mapsto> (n, m, k))\<rparr>) t'"
  shows "tracked s s'"
proof (rule tracked_moves [OF ok mv _ h])
  let ?c = "conn s\<lparr>cn_iterms := (cn_iterms (conn s))(i \<mapsto> (n', m', k))\<rparr>"
  show "iterm_inst ?c = iterm_inst (conn s)" using i by (rule inst_of_iterm)
  fix t
  assume t: "netlist_ok t" "conn t = ?c"
  have "conn t\<lparr>cn_iterms := (cn_iterms (conn t))(i \<mapsto> (n, m, k))\<rparr> = conn s"
    unfolding t(2) using i by (simp add: fun_upd_idem del: conn_fields)
  then show "\<exists>t' fs. f t = (Inr (), t') \<and> moves t fs (conn s) t'"
    using undo [OF t(1)] t(2) by (simp del: conn_fields)
qed

lemma tracked_bterm:
  assumes ok: "netlist_ok s" and i: "cn_bterms (conn s) i = Some (n, m, x, p)"
    and mv: "moves s [e] (conn s\<lparr>cn_bterms := (cn_bterms (conn s))(i \<mapsto> (n', m', x, p))\<rparr>) s'"
    and h: "handles undo_action False False e f"
    and undo: "\<And>t. netlist_ok t \<Longrightarrow> cn_bterms (conn t) i = Some (n', m', x, p) \<Longrightarrow> cn_nets (conn t) = cn_nets (conn s) \<Longrightarrow>
      cn_modnets (conn t) = cn_modnets (conn s) \<Longrightarrow>
      \<exists>t' fs. f t = (Inr (), t') \<and> moves t fs (conn t\<lparr>cn_bterms := (cn_bterms (conn t))(i \<mapsto> (n, m, x, p))\<rparr>) t'"
  shows "tracked s s'"
proof (rule tracked_moves [OF ok mv _ h])
  let ?c = "conn s\<lparr>cn_bterms := (cn_bterms (conn s))(i \<mapsto> (n', m', x, p))\<rparr>"
  show "iterm_inst ?c = iterm_inst (conn s)" by (rule inst_of_same)
  fix t
  assume t: "netlist_ok t" "conn t = ?c"
  have "conn t\<lparr>cn_bterms := (cn_bterms (conn t))(i \<mapsto> (n, m, x, p))\<rparr> = conn s"
    unfolding t(2) using i by (simp add: fun_upd_idem del: conn_fields)
  then show "\<exists>t' fs. f t = (Inr (), t') \<and> moves t fs (conn s) t'"
    using undo [OF t(1)] t(2) by (simp del: conn_fields)
qed

text \<open>What the invariant says of one terminal.\<close>

lemma iterm_facts:
  assumes ok: "netlist_ok s" and a: "dbTable_getPtr (nl_iterms s) i = Some a"
  shows "cn_iterms (conn s) i = Some (itm_net a, itm_mnet a, itm_inst a)" "new_id i"
    "itm_net a \<noteq> 0 \<Longrightarrow> cn_nets (conn s) (itm_net a) \<noteq> None \<and> new_id (itm_net a)"
    "itm_mnet a \<noteq> 0 \<Longrightarrow> cn_modnets (conn s) (itm_mnet a) \<noteq> None \<and> new_id (itm_mnet a)"
    "iterm_inst (conn s) i = cn_insts (conn s) (itm_inst a)" "cn_insts (conn s) (itm_inst a) \<noteq> None"
proof -
  show i: "cn_iterms (conn s) i = Some (itm_net a, itm_mnet a, itm_inst a)" using a by (simp add: conn_see_def iterm_view_def)
  have ck: "conn_inv (conn s)" by (rule netlist_ok_conn [OF ok])
  show "new_id i" using ck i unfolding conn_inv_def by blast
  show "cn_insts (conn s) (itm_inst a) \<noteq> None" using ck i unfolding conn_inv_def by blast
  show "iterm_inst (conn s) i = cn_insts (conn s) (itm_inst a)" using i by (simp add: iterm_inst_def del: conn_fields)
  show "cn_nets (conn s) (itm_net a) \<noteq> None \<and> new_id (itm_net a)" if "itm_net a \<noteq> 0"
  proof -
    have n: "cn_nets (conn s) (itm_net a) \<noteq> None"
      using lists_ok_own [OF netlist_okD(6) [OF ok] a] that by (auto simp: conn_see_def)
    then show ?thesis using ck unfolding conn_inv_def by blast
  qed
  show "cn_modnets (conn s) (itm_mnet a) \<noteq> None \<and> new_id (itm_mnet a)" if "itm_mnet a \<noteq> 0"
  proof -
    have n: "cn_modnets (conn s) (itm_mnet a) \<noteq> None"
      using lists_ok_own [OF netlist_okD(7) [OF ok] a] that by (auto simp: conn_see_def)
    then show ?thesis using ck unfolding conn_inv_def by blast
  qed
qed

lemma bterm_facts:
  assumes ok: "netlist_ok s" and a: "dbTable_getPtr (nl_bterms s) i = Some a"
  shows "cn_bterms (conn s) i = Some (btm_net a, btm_mnet a, btm_name a, btm_bpins a)" "new_id i"
    "btm_net a \<noteq> 0 \<Longrightarrow> cn_nets (conn s) (btm_net a) \<noteq> None \<and> new_id (btm_net a)"
    "btm_mnet a \<noteq> 0 \<Longrightarrow> cn_modnets (conn s) (btm_mnet a) \<noteq> None \<and> new_id (btm_mnet a)"
proof -
  show i: "cn_bterms (conn s) i = Some (btm_net a, btm_mnet a, btm_name a, btm_bpins a)" using a by (simp add: conn_see_def bterm_view_def)
  have ck: "conn_inv (conn s)" by (rule netlist_ok_conn [OF ok])
  show "new_id i" using ck i unfolding conn_inv_def by blast
  show "cn_nets (conn s) (btm_net a) \<noteq> None \<and> new_id (btm_net a)" if "btm_net a \<noteq> 0"
  proof -
    have n: "cn_nets (conn s) (btm_net a) \<noteq> None"
      using lists_ok_own [OF netlist_okD(8) [OF ok] a] that by (auto simp: conn_see_def)
    then show ?thesis using ck unfolding conn_inv_def by blast
  qed
  show "cn_modnets (conn s) (btm_mnet a) \<noteq> None \<and> new_id (btm_mnet a)" if "btm_mnet a \<noteq> 0"
  proof -
    have n: "cn_modnets (conn s) (btm_mnet a) \<noteq> None"
      using lists_ok_own [OF netlist_okD(9) [OF ok] a] that by (auto simp: conn_see_def)
    then show ?thesis using ck unfolding conn_inv_def by blast
  qed
qed

lemma net_facts:
  assumes ok: "netlist_ok s" and N: "dbTable_getPtr (nl_nets s) n = Some N"
  shows "cn_nets (conn s) n = Some (nt_name N, nt_flags N, nt_ndr N, nt_other N)" "new_id n" "c_name (nt_name N)" "n \<noteq> 0"
    "\<not> get_flag dont_touch N \<Longrightarrow> may_touch (conn s) n"
proof -
  show n: "cn_nets (conn s) n = Some (nt_name N, nt_flags N, nt_ndr N, nt_other N)" using N by (simp add: conn_see_def net_view_def)
  have ck: "conn_inv (conn s)" by (rule netlist_ok_conn [OF ok])
  show "new_id n" using conn_ok_id [OF ck n] .
  show "c_name (nt_name N)" using conn_ok_name [OF ck n] by simp
  show "n \<noteq> 0" using N by (rule_tac notI) simp
  show "may_touch (conn s) n" if "\<not> get_flag dont_touch N"
    using that n by (simp add: may_touch_def get_flag_def del: conn_fields)
qed

lemma modnet_facts:
  assumes ok: "netlist_ok s" and M: "dbTable_getPtr (nl_modnets s) m = Some M"
  shows "cn_modnets (conn s) m \<noteq> None" "new_id m" "m \<noteq> 0"
proof -
  show m: "cn_modnets (conn s) m \<noteq> None" using M by (simp add: conn_see_def)
  show "new_id m" using netlist_ok_conn [OF ok] m unfolding conn_inv_def by blast
  show "m \<noteq> 0" using M by (rule_tac notI) simp
qed

lemma tracked_disconnectDbNet:
  assumes ok: "netlist_ok s"
  shows "tracked s (snd (dbITerm_disconnectDbNet i s))"
  unfolding dbITerm_disconnectDbNet_def
proof (rule tracked_fetch [OF ok])
  fix a
  assume a: "dbTable_getPtr (nl_iterms s) i = Some a"
  note f = iterm_facts [OF ok a]
  let ?k = "itm_inst a" and ?n = "itm_net a" and ?m = "itm_mnet a"
  show "tracked s (snd ((if ?n = 0 then step_return () else step_then (get_obj nl_insts ?k) (\<lambda>inst.
       if ins_dont_touch inst then step_fail (LogError 1104) else step_then (get_obj nl_nets ?n) (\<lambda>net.
         if get_flag dont_touch net then step_fail (LogError 1105)
         else step_then (journal kDisconnectObject [type_param dbITermObj, id_param i, id_param ?n, PInt 0]) (\<lambda>_.
           unlink_iterm_net i ?n)))) s))"
  proof (cases "?n = 0")
    case True
    then show ?thesis by (simp add: tracked_refl ok)
  next
    case False
    obtain b where b: "dbTable_getPtr (nl_insts s) ?k = Some b" "cn_insts (conn s) ?k = Some (ins_dont_touch b)" using f(6) by (auto simp: conn_see_def)
    obtain N where N: "dbTable_getPtr (nl_nets s) ?n = Some N" using f(3) False by (auto simp: conn_see_def)
    show ?thesis
    proof (cases "ins_dont_touch b \<or> get_flag dont_touch N")
      case True
      then show ?thesis using a b N False by (auto simp: tracked_refl ok)
    next
      case touch: False
      have mt: "may_touch (conn s) ?n" using net_facts(5) [OF ok N] touch by blast
      have k: "cn_insts (conn s) ?k = Some False" using b(2) touch by simp
      obtain s' where s': "dbITerm_disconnectDbNet i s = (Inr (), s')"
        "moves s [(kDisconnectObject, [type_param dbITermObj, id_param i, id_param ?n, PInt 0])]
          (conn s\<lparr>cn_iterms := (cn_iterms (conn s))(i \<mapsto> (0, ?m, ?k))\<rparr>) s'"
        by (rule dbITerm_disconnectDbNet_moves [OF ok f(1) False k mt])
      have "tracked s s'"
      proof (rule tracked_iterm [OF ok f(1) s'(2) undo_disconnect_iterm(1)])
        fix t
        assume t: "netlist_ok t" "cn_iterms (conn t) i = Some (0, ?m, ?k)" "cn_nets (conn t) = cn_nets (conn s)"
          "cn_insts (conn t) = cn_insts (conn s)"
        have "may_touch (conn t) ?n" using mt t(3) by (simp add: may_touch_def)
        then show "\<exists>t' fs. dbITerm_connect i ?n t = (Inr (), t') \<and>
            moves t fs (conn t\<lparr>cn_iterms := (cn_iterms (conn t))(i \<mapsto> (?n, ?m, ?k))\<rparr>) t'"
          using dbITerm_connect_moves [OF t(1,2)] k t(4) by metis
      qed (use f False in auto)
      then show ?thesis using s'(1) a b N False touch by (simp add: dbITerm_disconnectDbNet_def)
    qed
  qed
qed

lemma tracked_disconnectDbModNet:
  assumes ok: "netlist_ok s" and st: "iterm_inst (conn s) i \<noteq> Some True"
  shows "tracked s (snd (dbITerm_disconnectDbModNet i s))"
  unfolding dbITerm_disconnectDbModNet_def
proof (rule tracked_fetch [OF ok])
  fix a
  assume a: "dbTable_getPtr (nl_iterms s) i = Some a"
  note f = iterm_facts [OF ok a]
  let ?k = "itm_inst a" and ?n = "itm_net a" and ?m = "itm_mnet a"
  let ?f = "itm_prev_mod_update (\<lambda>_. 0) \<circ> itm_next_mod_update (\<lambda>_. 0)"
  show "tracked s (snd ((if ?m = 0 then step_return () else step_then (get_obj nl_modnets ?m) (\<lambda>_.
       step_then (journal kDisconnectObject [type_param dbITermObj, id_param i, PInt 0, id_param ?m]) (\<lambda>_. unlink_iterm_modnet ?f i ?m))) s))"
  proof (cases "?m = 0")
    case True
    then show ?thesis by (simp add: tracked_refl ok)
  next
    case False
    obtain M where M: "dbTable_getPtr (nl_modnets s) ?m = Some M" using f(4) False by (auto simp: conn_see_def)
    have k: "cn_insts (conn s) ?k = Some False" using f(5,6) st by (auto simp del: conn_fields)
    have m: "cn_modnets (conn s) ?m \<noteq> None" using f(4) False by blast
    obtain s' where s': "dbITerm_disconnectDbModNet i s = (Inr (), s')"
      "moves s [(kDisconnectObject, [type_param dbITermObj, id_param i, PInt 0, id_param ?m])]
        (conn s\<lparr>cn_iterms := (cn_iterms (conn s))(i \<mapsto> (?n, 0, ?k))\<rparr>) s'"
      by (rule dbITerm_disconnectDbModNet_moves [OF ok f(1) m])
    have "tracked s s'"
    proof (rule tracked_iterm [OF ok f(1) s'(2) undo_disconnect_iterm(2)])
      fix t
      assume t: "netlist_ok t" "cn_iterms (conn t) i = Some (?n, 0, ?k)" "cn_modnets (conn t) = cn_modnets (conn s)"
        "cn_insts (conn t) = cn_insts (conn s)"
      then show "\<exists>t' fs. dbITerm_connect_modnet i ?m t = (Inr (), t') \<and>
          moves t fs (conn t\<lparr>cn_iterms := (cn_iterms (conn t))(i \<mapsto> (?n, ?m, ?k))\<rparr>) t'"
        using dbITerm_connect_modnet_moves [OF t(1,2)] k m by metis
    qed (use f False in auto)
    then show ?thesis using s'(1) a M False by (simp add: dbITerm_disconnectDbModNet_def)
  qed
qed

text \<open>Connecting an iterm that is on no net.\<close>

lemma tracked_connect_free:
  assumes ok: "netlist_ok s" and i: "cn_iterms (conn s) i = Some (0, m, k)" and k: "cn_insts (conn s) k = Some False" and n: "may_touch (conn s) n"
  obtains s' where "dbITerm_connect i n s = (Inr (), s')" "tracked s s'"
proof -
  obtain s' where s': "dbITerm_connect i n s = (Inr (), s')"
    "moves s [(kConnectObject, [type_param dbITermObj, id_param i, id_param n, PInt 0])]
      (conn s\<lparr>cn_iterms := (cn_iterms (conn s))(i \<mapsto> (n, m, k))\<rparr>) s'"
    by (rule dbITerm_connect_moves [OF ok i k n])
  obtain a where a: "dbTable_getPtr (nl_iterms s) i = Some a" using i by (auto simp: conn_see_def)
  obtain N where N: "dbTable_getPtr (nl_nets s) n = Some N" using n by (rule may_touchE)
  have n0: "n \<noteq> 0" using net_facts [OF ok N] by blast
  have "tracked s s'"
  proof (rule tracked_iterm [OF ok i s'(2) undo_connect_iterm(1)])
    fix t
    assume t: "netlist_ok t" "cn_iterms (conn t) i = Some (n, m, k)" "cn_nets (conn t) = cn_nets (conn s)"
      "cn_insts (conn t) = cn_insts (conn s)"
    have "may_touch (conn t) n" using n t(3) by (simp add: may_touch_def)
    then show "\<exists>t' fs. dbITerm_disconnectDbNet i t = (Inr (), t') \<and>
        moves t fs (conn t\<lparr>cn_iterms := (cn_iterms (conn t))(i \<mapsto> (0, m, k))\<rparr>) t'"
      using dbITerm_disconnectDbNet_moves [OF t(1,2) n0] k t(4) by metis
  qed (use iterm_facts [OF ok a] net_facts [OF ok N] in auto)
  with s'(1) show ?thesis by (rule that)
qed

text \<open>After the old net is gone, \<^verbatim>\<open>connect\<close> is the same as for an iterm on no net.\<close>

lemma dbITerm_connect_again:
  assumes "dbTable_getPtr (nl_iterms s) i = Some a" "dbTable_getPtr (nl_insts s) (itm_inst a) = Some b" "\<not> ins_dont_touch b"
    "dbTable_getPtr (nl_nets s) n = Some N" "\<not> get_flag dont_touch N" "n \<noteq> 0" "itm_net a = 0"
  shows "dbITerm_connect i n s =
    step_then (journal kConnectObject [type_param dbITermObj, id_param i, id_param n, PInt 0]) (\<lambda>_. link_iterm_net i n) s"
  using assms by (simp add: dbITerm_connect_def)

lemma tracked_connect:
  assumes ok: "netlist_ok s"
  shows "tracked s (snd (dbITerm_connect i n s))"
proof -
  let ?rest = "step_then (journal kConnectObject [type_param dbITermObj, id_param i, id_param n, PInt 0]) (\<lambda>_. link_iterm_net i n)"
  consider (none) "snd (dbITerm_connect i n s) = s"
    | (go) a b N where "dbTable_getPtr (nl_iterms s) i = Some a" "dbTable_getPtr (nl_insts s) (itm_inst a) = Some b" "\<not> ins_dont_touch b"
        "dbTable_getPtr (nl_nets s) n = Some N" "\<not> get_flag dont_touch N" "n \<noteq> 0" "itm_net a \<noteq> n"
        "dbITerm_connect i n s = step_then (if itm_net a \<noteq> 0 then dbITerm_disconnectDbNet i else step_return ()) (\<lambda>_. ?rest) s"
    unfolding dbITerm_connect_def
    by (cases "dbTable_getPtr (nl_iterms s) i"; cases "dbTable_getPtr (nl_nets s) n") (fastforce simp: step_then_def get_obj_def step_fail_def step_return_def split: option.splits if_splits)+
  then show ?thesis
  proof cases
    case none
    then show ?thesis by (simp add: tracked_refl ok)
  next
    case go
    note f = iterm_facts [OF ok go(1)]
    have k: "cn_insts (conn s) (itm_inst a) = Some False" using go(2,3) by (simp add: conn_see_def)
    have mt: "may_touch (conn s) n" using net_facts(5) [OF ok go(4,5)] .
    show ?thesis
      unfolding go(8)
    proof (rule tracked_then)
      show "tracked s (snd ((if itm_net a \<noteq> 0 then dbITerm_disconnectDbNet i else step_return ()) s))"
        using tracked_disconnectDbNet [OF ok] tracked_refl [OF ok] by simp
      fix u t
      assume t: "(if itm_net a \<noteq> 0 then dbITerm_disconnectDbNet i else step_return ()) s = (Inr u, t)"
      have tt: "netlist_ok t \<and> cn_iterms (conn t) i = Some (0, itm_mnet a, itm_inst a) \<and> cn_nets (conn t) = cn_nets (conn s) \<and>
          cn_insts (conn t) = cn_insts (conn s)"
      proof (cases "itm_net a = 0")
        case True
        then show ?thesis using t f(1) ok by (simp del: conn_fields)
      next
        case False
        obtain N' where N': "dbTable_getPtr (nl_nets s) (itm_net a) = Some N'" using f(3) False by (auto simp: conn_see_def)
        have "\<not> get_flag dont_touch N'"
        proof
          assume "get_flag dont_touch N'"
          then have "dbITerm_disconnectDbNet i s = (Inl (LogError 1105), s)"
            using go(1-3) N' False by (simp add: dbITerm_disconnectDbNet_def)
          with t False show False by simp
        qed
        then have "may_touch (conn s) (itm_net a)" using net_facts(5) [OF ok N'] by blast
        then obtain s' where "dbITerm_disconnectDbNet i s = (Inr (), s')"
          "moves s [(kDisconnectObject, [type_param dbITermObj, id_param i, id_param (itm_net a), PInt 0])]
            (conn s\<lparr>cn_iterms := (cn_iterms (conn s))(i \<mapsto> (0, itm_mnet a, itm_inst a))\<rparr>) s'"
          by (rule dbITerm_disconnectDbNet_moves [OF ok f(1) False k])
        then show ?thesis using t False by (simp add: moves_def del: conn_fields)
      qed
      then have "may_touch (conn t) n" using mt by (simp add: may_touch_def del: conn_fields)
      moreover have "cn_insts (conn t) (itm_inst a) = Some False" using k tt by simp
      ultimately obtain t' where t': "dbITerm_connect i n t = (Inr (), t')" "tracked t t'"
        using tracked_connect_free [of t i "itm_mnet a" "itm_inst a" n] tt by metis
      obtain a' where a': "dbTable_getPtr (nl_iterms t) i = Some a'" "itm_net a' = 0" "itm_inst a' = itm_inst a"
        using itermE [of t i 0 "itm_mnet a" "itm_inst a"] tt by metis
      obtain b' where b': "dbTable_getPtr (nl_insts t) (itm_inst a') = Some b'" "\<not> ins_dont_touch b'"
        using instE [OF \<open>cn_insts (conn t) (itm_inst a) = Some False\<close>] a'(3) by metis
      obtain N'' where "dbTable_getPtr (nl_nets t) n = Some N''" "\<not> get_flag dont_touch N''" using \<open>may_touch (conn t) n\<close> by (rule may_touchE)
      then have "dbITerm_connect i n t = ?rest t" using dbITerm_connect_again [OF a'(1) b'] go(6) a'(2) by blast
      then show "tracked t (snd (?rest t))" using t' by (metis snd_conv)
    qed
  qed
qed

lemma tracked_connect_modnet_free:
  assumes ok: "netlist_ok s" and i: "cn_iterms (conn s) i = Some (n, 0, k)" and k: "cn_insts (conn s) k = Some False"
    and m: "cn_modnets (conn s) m \<noteq> None"
  obtains s' where "dbITerm_connect_modnet i m s = (Inr (), s')" "tracked s s'"
proof -
  obtain s' where s': "dbITerm_connect_modnet i m s = (Inr (), s')"
    "moves s [(kConnectObject, [type_param dbITermObj, id_param i, PInt 0, id_param m])]
      (conn s\<lparr>cn_iterms := (cn_iterms (conn s))(i \<mapsto> (n, m, k))\<rparr>) s'"
    by (rule dbITerm_connect_modnet_moves [OF ok i k m])
  obtain a where a: "dbTable_getPtr (nl_iterms s) i = Some a" using i by (auto simp: conn_see_def)
  obtain M where M: "dbTable_getPtr (nl_modnets s) m = Some M" using m by (rule modnetE)
  have "tracked s s'"
  proof (rule tracked_iterm [OF ok i s'(2) undo_connect_iterm(2)])
    fix t
    assume t: "netlist_ok t" "cn_iterms (conn t) i = Some (n, m, k)" "cn_modnets (conn t) = cn_modnets (conn s)"
    then have "cn_modnets (conn t) m \<noteq> None" using m by simp
    then show "\<exists>t' fs. dbITerm_disconnectDbModNet i t = (Inr (), t') \<and>
        moves t fs (conn t\<lparr>cn_iterms := (cn_iterms (conn t))(i \<mapsto> (n, 0, k))\<rparr>) t'"
      using dbITerm_disconnectDbModNet_moves [OF t(1,2)] by metis
  qed (use iterm_facts [OF ok a] modnet_facts [OF ok M] in auto)
  with s'(1) show ?thesis by (rule that)
qed

lemma dbITerm_connect_modnet_again:
  assumes "dbTable_getPtr (nl_iterms s) i = Some a" "dbTable_getPtr (nl_insts s) (itm_inst a) = Some b" "\<not> ins_dont_touch b"
    "dbTable_getPtr (nl_modnets s) m = Some M" "m \<noteq> 0" "itm_mnet a = 0"
  shows "dbITerm_connect_modnet i m s = step_then (set_iterm_mnet i m) (\<lambda>_.
    step_then (journal kConnectObject [type_param dbITermObj, id_param i, PInt 0, id_param m]) (\<lambda>_. link_iterm_modnet i m)) s"
  using assms by (simp add: dbITerm_connect_modnet_def)

lemma tracked_connect_modnet:
  assumes ok: "netlist_ok s" and st: "iterm_inst (conn s) i \<noteq> Some True"
  shows "tracked s (snd (dbITerm_connect_modnet i m s))"
  unfolding dbITerm_connect_modnet_def
proof (rule tracked_fetch [OF ok], rule tracked_fetch [OF ok], rule tracked_fetch [OF ok])
  fix a b M
  assume a: "dbTable_getPtr (nl_iterms s) i = Some a" and b: "dbTable_getPtr (nl_insts s) (itm_inst a) = Some b"
    and M: "dbTable_getPtr (nl_modnets s) m = Some M"
  note f = iterm_facts [OF ok a]
  have k: "cn_insts (conn s) (itm_inst a) = Some False" using f(5,6) st by (auto simp del: conn_fields)
  then have nb: "\<not> ins_dont_touch b" using b by (simp add: conn_see_def)
  note mf = modnet_facts [OF ok M]
  let ?rest = "step_then (set_iterm_mnet i m) (\<lambda>_.
      step_then (journal kConnectObject [type_param dbITermObj, id_param i, PInt 0, id_param m]) (\<lambda>_. link_iterm_modnet i m))"
  have "tracked s (snd (step_then (if itm_mnet a \<noteq> 0 then dbITerm_disconnectDbModNet i else step_return ()) (\<lambda>_. ?rest) s))"
  proof (rule tracked_then)
    show "tracked s (snd ((if itm_mnet a \<noteq> 0 then dbITerm_disconnectDbModNet i else step_return ()) s))"
      using tracked_disconnectDbModNet [OF ok st] tracked_refl [OF ok] by simp
    fix u t
    assume t: "(if itm_mnet a \<noteq> 0 then dbITerm_disconnectDbModNet i else step_return ()) s = (Inr u, t)"
    have tt: "netlist_ok t \<and> cn_iterms (conn t) i = Some (itm_net a, 0, itm_inst a) \<and> cn_modnets (conn t) = cn_modnets (conn s) \<and>
        cn_insts (conn t) = cn_insts (conn s)"
    proof (cases "itm_mnet a = 0")
      case True
      then show ?thesis using t f(1) ok by (simp del: conn_fields)
    next
      case False
      then have "cn_modnets (conn s) (itm_mnet a) \<noteq> None" using f(4) by blast
      then obtain s' where "dbITerm_disconnectDbModNet i s = (Inr (), s')"
        "moves s [(kDisconnectObject, [type_param dbITermObj, id_param i, PInt 0, id_param (itm_mnet a)])]
          (conn s\<lparr>cn_iterms := (cn_iterms (conn s))(i \<mapsto> (itm_net a, 0, itm_inst a))\<rparr>) s'"
        by (rule dbITerm_disconnectDbModNet_moves [OF ok f(1)])
      then show ?thesis using t False by (simp add: moves_def del: conn_fields)
    qed
    then have kt: "cn_insts (conn t) (itm_inst a) = Some False" and mt: "cn_modnets (conn t) m \<noteq> None" using k mf(1) by simp_all
    obtain t' where t': "dbITerm_connect_modnet i m t = (Inr (), t')" "tracked t t'"
      using tracked_connect_modnet_free [of t i "itm_net a" "itm_inst a" m] tt kt mt by metis
    obtain a' where a': "dbTable_getPtr (nl_iterms t) i = Some a'" "itm_mnet a' = 0" "itm_inst a' = itm_inst a"
      using itermE [of t i "itm_net a" 0 "itm_inst a"] tt by metis
    obtain b' where b': "dbTable_getPtr (nl_insts t) (itm_inst a') = Some b'" "\<not> ins_dont_touch b'"
      using instE [OF kt] a'(3) by metis
    obtain M' where "dbTable_getPtr (nl_modnets t) m = Some M'" using mt by (rule modnetE)
    then have "dbITerm_connect_modnet i m t = ?rest t" using dbITerm_connect_modnet_again [OF a'(1) b'] mf(3) a'(2) by blast
    then show "tracked t (snd (?rest t))" using t' by (metis snd_conv)
  qed
  then show "tracked s (snd ((if itm_mnet a = m then step_return () else
      step_then (if itm_mnet a \<noteq> 0 then dbITerm_disconnectDbModNet i else step_return ()) (\<lambda>_.
        step_then (set_iterm_mnet i m) (\<lambda>_. if ins_dont_touch b then step_fail (LogError 397) else
        step_then (journal kConnectObject [type_param dbITermObj, id_param i, PInt 0, id_param m]) (\<lambda>_. link_iterm_modnet i m)))) s))"
    using nb tracked_refl [OF ok] by simp
qed

lemma tracked_disconnect:
  assumes ok: "netlist_ok s"
  shows "tracked s (snd (dbITerm_disconnect i s))"
proof -
  consider (none) "snd (dbITerm_disconnect i s) = s"
    | (go) a b where "dbTable_getPtr (nl_iterms s) i = Some a" "dbTable_getPtr (nl_insts s) (itm_inst a) = Some b" "\<not> ins_dont_touch b"
        "itm_net a \<noteq> 0 \<or> itm_mnet a \<noteq> 0" "\<And>N. dbTable_getPtr (nl_nets s) (itm_net a) = Some N \<Longrightarrow> \<not> get_flag dont_touch N"
  proof (cases "dbTable_getPtr (nl_iterms s) i")
    case None
    then show ?thesis using that(1) by (simp add: dbITerm_disconnect_def)
  next
    case (Some a)
    show ?thesis
    proof (cases "itm_net a = 0 \<and> itm_mnet a = 0")
      case True
      then show ?thesis using that(1) Some by (simp add: dbITerm_disconnect_def)
    next
      case nz: False
      obtain b where b: "dbTable_getPtr (nl_insts s) (itm_inst a) = Some b" using iterm_facts(6) [OF ok Some] by (auto simp: conn_see_def)
      show ?thesis
      proof (cases "ins_dont_touch b \<or> (\<exists>N. dbTable_getPtr (nl_nets s) (itm_net a) = Some N \<and> get_flag dont_touch N)")
        case True
        then have "snd (dbITerm_disconnect i s) = s"
          using Some b nz by (cases "itm_net a = 0") (auto simp: dbITerm_disconnect_def step_then_def get_obj_def step_fail_def step_return_def)
        then show ?thesis by (rule that(1))
      next
        case False
        then show ?thesis by (intro that(2) [OF Some b]) (use nz in auto)
      qed
    qed
  qed
  then show ?thesis
  proof cases
    case none
    then show ?thesis by (simp add: tracked_refl ok)
  next
    case go
    note f = iterm_facts [OF ok go(1)]
    let ?n = "itm_net a" and ?m = "itm_mnet a" and ?k = "itm_inst a"
    have k: "cn_insts (conn s) ?k = Some False" using go(2,3) by (simp add: conn_see_def)
    have n: "?n = 0 \<or> may_touch (conn s) ?n"
    proof (cases "?n = 0")
      case False
      then obtain N where "dbTable_getPtr (nl_nets s) ?n = Some N" using f(3) by (auto simp: conn_see_def)
      then show ?thesis using go(5) net_facts(5) [OF ok] by blast
    qed simp
    have m: "?m = 0 \<or> cn_modnets (conn s) ?m \<noteq> None" using f(4) by blast
    obtain s' where s': "dbITerm_disconnect i s = (Inr (), s')"
      "moves s [(kDisconnectObject, [type_param dbITermObj, id_param i, id_param ?n, id_param ?m])]
        (conn s\<lparr>cn_iterms := (cn_iterms (conn s))(i \<mapsto> (0, 0, ?k))\<rparr>) s'"
      by (rule dbITerm_disconnect_moves [OF ok f(1) go(4) k n m])
    have ids: "new_id i" "new_id ?n" "new_id ?m" using f(2-4) new_id_0 by metis+
    have "tracked s s'"
    proof (rule tracked_iterm [OF ok f(1) s'(2) undo_disconnect_iterm(3) [OF ids]])
      fix t
      assume t: "netlist_ok t" "cn_iterms (conn t) i = Some (0, 0, ?k)" "cn_nets (conn t) = cn_nets (conn s)"
        "cn_modnets (conn t) = cn_modnets (conn s)" "cn_insts (conn t) = cn_insts (conn s)"
      have nt: "?n = 0 \<or> may_touch (conn t) ?n" using n t(3) by (simp add: may_touch_def)
      have kt: "cn_insts (conn t) ?k = Some False" using k t(5) by simp
      obtain u es where u: "(if ?n = 0 then step_return () else dbITerm_connect i ?n) t = (Inr (), u)"
        "moves t es (conn t\<lparr>cn_iterms := (cn_iterms (conn t))(i \<mapsto> (?n, 0, ?k))\<rparr>) u"
      proof (cases "?n = 0")
        case True
        have "conn t\<lparr>cn_iterms := (cn_iterms (conn t))(i \<mapsto> (?n, 0, ?k))\<rparr> = conn t" using t(2) True by (simp add: fun_upd_idem del: conn_fields)
        then show ?thesis using that [of t "[]"] moves_refl [OF t(1)] True by simp
      next
        case False
        then have mt: "may_touch (conn t) ?n" using nt by simp
        obtain u where "dbITerm_connect i ?n t = (Inr (), u)"
          "moves t [(kConnectObject, [type_param dbITermObj, id_param i, id_param ?n, PInt 0])]
            (conn t\<lparr>cn_iterms := (cn_iterms (conn t))(i \<mapsto> (?n, 0, ?k))\<rparr>) u"
          by (rule dbITerm_connect_moves [OF t(1,2) kt mt])
        then show ?thesis using that False by simp
      qed
      have ui: "cn_iterms (conn u) i = Some (?n, 0, ?k)" "cn_modnets (conn u) = cn_modnets (conn s)" "cn_insts (conn u) ?k = Some False"
        using moves_ok(2) [OF u(2)] t kt by simp_all
      show "\<exists>t' fs. step_then (if ?n = 0 then step_return () else dbITerm_connect i ?n)
          (\<lambda>_. if ?m = 0 then step_return () else dbITerm_connect_modnet i ?m) t = (Inr (), t') \<and>
          moves t fs (conn t\<lparr>cn_iterms := (cn_iterms (conn t))(i \<mapsto> (?n, ?m, ?k))\<rparr>) t'"
      proof (cases "?m = 0")
        case True
        then show ?thesis using u by auto
      next
        case False
        have "cn_modnets (conn u) ?m \<noteq> None" using m False ui(2) by simp
        then obtain v where v: "dbITerm_connect_modnet i ?m u = (Inr (), v)"
          "moves u [(kConnectObject, [type_param dbITermObj, id_param i, PInt 0, id_param ?m])]
            (conn u\<lparr>cn_iterms := (cn_iterms (conn u))(i \<mapsto> (?n, ?m, ?k))\<rparr>) v"
          by (rule dbITerm_connect_modnet_moves [OF moves_ok(1) [OF u(2)] ui(1,3)])
        have "conn u\<lparr>cn_iterms := (cn_iterms (conn u))(i \<mapsto> (?n, ?m, ?k))\<rparr> = conn t\<lparr>cn_iterms := (cn_iterms (conn t))(i \<mapsto> (?n, ?m, ?k))\<rparr>"
          using moves_ok(2) [OF u(2)] by simp
        then show ?thesis using u(1) v False moves_trans [OF u(2) v(2)] by auto
      qed
    qed
    then show ?thesis using s'(1) by simp
  qed
qed

text \<open>Terminals of the block.\<close>

text \<open>The operations on bterms that undo each other, in the form in which they are used to undo.\<close>

lemma dbBTerm_connect_ex:
  assumes ok: "netlist_ok t" and b: "cn_bterms (conn t) b = Some (0, m, x, p)" and n: "may_touch (conn t) n"
  shows "\<exists>t' fs. dbBTerm_connect b n t = (Inr (), t') \<and> moves t fs (conn t\<lparr>cn_bterms := (cn_bterms (conn t))(b \<mapsto> (n, m, x, p))\<rparr>) t'"
proof -
  have n': "cn_nets (conn t) n \<noteq> None" using n by (auto simp: may_touch_def simp del: conn_fields)
  show ?thesis by (rule bterm_connectNet_moves [OF ok b n']) (use n in blast)
qed

lemma dbBTerm_disconnectDbNet_ex:
  assumes ok: "netlist_ok t" and b: "cn_bterms (conn t) b = Some (n, m, x, p)" "n \<noteq> 0" and n: "may_touch (conn t) n"
  shows "\<exists>t' fs. dbBTerm_disconnectDbNet b t = (Inr (), t') \<and> moves t fs (conn t\<lparr>cn_bterms := (cn_bterms (conn t))(b \<mapsto> (0, m, x, p))\<rparr>) t'"
proof -
  have n': "cn_nets (conn t) n \<noteq> None" using n by (auto simp: may_touch_def simp del: conn_fields)
  show ?thesis by (rule dbBTerm_disconnectDbNet_moves [OF ok b n']) (use n in blast)
qed

lemma dbBTerm_connect_modnet_ex:
  assumes ok: "netlist_ok t" and b: "cn_bterms (conn t) b = Some (n, 0, x, p)" and m: "cn_modnets (conn t) m \<noteq> None"
  shows "\<exists>t' fs. dbBTerm_connect_modnet b m t = (Inr (), t') \<and> moves t fs (conn t\<lparr>cn_bterms := (cn_bterms (conn t))(b \<mapsto> (n, m, x, p))\<rparr>) t'"
  by (rule bterm_connectModNet_moves [OF ok b m]) blast

lemma dbBTerm_disconnectDbModNet_ex:
  assumes ok: "netlist_ok t" and b: "cn_bterms (conn t) b = Some (n, m, x, p)" and m: "cn_modnets (conn t) m \<noteq> None"
  shows "\<exists>t' fs. dbBTerm_disconnectDbModNet b t = (Inr (), t') \<and> moves t fs (conn t\<lparr>cn_bterms := (cn_bterms (conn t))(b \<mapsto> (n, 0, x, p))\<rparr>) t'"
  unfolding dbBTerm_disconnectDbModNet_def by (rule bterm_disconnectModNet_moves [OF ok b m]) blast

lemma tracked_bterm_disconnectNet:
  assumes ok: "netlist_ok s" and a: "dbTable_getPtr (nl_bterms s) b = Some a" "btm_net a \<noteq> 0" and n: "may_touch (conn s) (btm_net a)"
  obtains s' where "bterm_disconnectNet b s = (Inr (), s')" "dbBTerm_disconnectDbNet b s = (Inr (), s')" "tracked s s'"
    "cn_bterms (conn s') = (cn_bterms (conn s))(b \<mapsto> (0, btm_mnet a, btm_name a, btm_bpins a))" "cn_nets (conn s') = cn_nets (conn s)"
    "cn_modnets (conn s') = cn_modnets (conn s)"
proof -
  note f = bterm_facts [OF ok a(1)]
  have n': "cn_nets (conn s) (btm_net a) \<noteq> None" using f(3) a(2) by blast
  obtain s' where s': "bterm_disconnectNet b s = (Inr (), s')" "dbBTerm_disconnectDbNet b s = (Inr (), s')"
    "moves s [(kDisconnectObject, [type_param dbBTermObj, id_param b, id_param (btm_net a), PUInt 0])]
      (conn s\<lparr>cn_bterms := (cn_bterms (conn s))(b \<mapsto> (0, btm_mnet a, btm_name a, btm_bpins a))\<rparr>) s'"
    by (rule dbBTerm_disconnectDbNet_moves [OF ok f(1) a(2) n']) (use n in blast)
  have "tracked s s'"
  proof (rule tracked_bterm [OF ok f(1) s'(3) undo_disconnect_bterm(1)])
    fix t
    assume t: "netlist_ok t" "cn_bterms (conn t) b = Some (0, btm_mnet a, btm_name a, btm_bpins a)" "cn_nets (conn t) = cn_nets (conn s)"
    have "cn_nets (conn t) (btm_net a) \<noteq> None" "may_touch (conn t) (btm_net a)" using n n' t(3) by (simp_all add: may_touch_def)
    then show "\<exists>t' fs. dbBTerm_connect b (btm_net a) t = (Inr (), t') \<and>
        moves t fs (conn t\<lparr>cn_bterms := (cn_bterms (conn t))(b \<mapsto> (btm_net a, btm_mnet a, btm_name a, btm_bpins a))\<rparr>) t'"
      using dbBTerm_connect_ex [OF t(1,2)] by blast
  qed (use f a in auto)
  from s'(1,2) this show ?thesis by (rule that) (use moves_ok(2) [OF s'(3)] in \<open>simp_all del: conn_fields\<close>)
qed

lemma tracked_bterm_disconnectModNet:
  assumes ok: "netlist_ok s"
  shows "tracked s (snd (bterm_disconnectModNet b s))"
    and "dbTable_getPtr (nl_bterms s) b = Some a \<Longrightarrow> \<exists>s'. bterm_disconnectModNet b s = (Inr (), s') \<and>
      cn_bterms (conn s') b = Some (btm_net a, 0, btm_name a, btm_bpins a) \<and> cn_modnets (conn s') = cn_modnets (conn s)"
proof -
  have go: "\<exists>s'. bterm_disconnectModNet b s = (Inr (), s') \<and> tracked s s' \<and>
      cn_bterms (conn s') b = Some (btm_net a, 0, btm_name a, btm_bpins a) \<and> cn_modnets (conn s') = cn_modnets (conn s)"
    if a: "dbTable_getPtr (nl_bterms s) b = Some a" for a
  proof (cases "btm_mnet a = 0")
    case True
    then show ?thesis
      using a tracked_refl [OF ok] bterm_facts(1) [OF ok a] by (simp add: bterm_disconnectModNet_def del: conn_fields)
  next
    case False
    note f = bterm_facts [OF ok a]
    have m: "cn_modnets (conn s) (btm_mnet a) \<noteq> None" using f(4) False by blast
    obtain s' where s': "bterm_disconnectModNet b s = (Inr (), s')"
      "moves s [(kDisconnectObject, [type_param dbBTermObj, id_param b, PUInt 0, id_param (btm_mnet a)])]
        (conn s\<lparr>cn_bterms := (cn_bterms (conn s))(b \<mapsto> (btm_net a, 0, btm_name a, btm_bpins a))\<rparr>) s'"
      by (rule bterm_disconnectModNet_moves [OF ok f(1) m])
    have "tracked s s'"
    proof (rule tracked_bterm [OF ok f(1) s'(2) undo_disconnect_bterm(2)])
      fix t
      assume t: "netlist_ok t" "cn_bterms (conn t) b = Some (btm_net a, 0, btm_name a, btm_bpins a)" "cn_modnets (conn t) = cn_modnets (conn s)"
      then have "cn_modnets (conn t) (btm_mnet a) \<noteq> None" using m by simp
      then show "\<exists>t' fs. dbBTerm_connect_modnet b (btm_mnet a) t = (Inr (), t') \<and>
          moves t fs (conn t\<lparr>cn_bterms := (cn_bterms (conn t))(b \<mapsto> (btm_net a, btm_mnet a, btm_name a, btm_bpins a))\<rparr>) t'"
        using dbBTerm_connect_modnet_ex [OF t(1,2)] by blast
    qed (use f False in auto)
    then show ?thesis using s'(1) moves_ok(2) [OF s'(2)] by (simp del: conn_fields)
  qed
  show "tracked s (snd (bterm_disconnectModNet b s))"
  proof (cases "dbTable_getPtr (nl_bterms s) b")
    case None
    then show ?thesis by (simp add: bterm_disconnectModNet_def tracked_refl ok)
  next
    case (Some a)
    then show ?thesis using go by fastforce
  qed
  show "\<exists>s'. bterm_disconnectModNet b s = (Inr (), s') \<and> cn_bterms (conn s') b = Some (btm_net a, 0, btm_name a, btm_bpins a) \<and>
      cn_modnets (conn s') = cn_modnets (conn s)" if "dbTable_getPtr (nl_bterms s) b = Some a"
    using go [OF that] by blast
qed

lemma tracked_bterm_connectNet:
  assumes ok: "netlist_ok s" and b: "cn_bterms (conn s) b = Some (0, m, x, p)" and n: "may_touch (conn s) n"
  shows "tracked s (snd (bterm_connectNet b n s))"
proof -
  obtain N where N: "dbTable_getPtr (nl_nets s) n = Some N" using n by (rule may_touchE)
  have n': "cn_nets (conn s) n \<noteq> None" using N by (simp add: conn_see_def)
  obtain s' where s': "bterm_connectNet b n s = (Inr (), s')" "dbBTerm_connect b n s = (Inr (), s')"
    "moves s [(kConnectObject, [type_param dbBTermObj, id_param b, id_param n, PUInt 0])]
      (conn s\<lparr>cn_bterms := (cn_bterms (conn s))(b \<mapsto> (n, m, x, p))\<rparr>) s'"
    by (rule bterm_connectNet_moves [OF ok b n']) (use n in blast)
  obtain a where a: "dbTable_getPtr (nl_bterms s) b = Some a" using b by (auto simp: conn_see_def)
  note nf = net_facts [OF ok N]
  have "tracked s s'"
  proof (rule tracked_bterm [OF ok b s'(3) undo_connect_bterm(1)])
    fix t
    assume t: "netlist_ok t" "cn_bterms (conn t) b = Some (n, m, x, p)" "cn_nets (conn t) = cn_nets (conn s)"
    have "cn_nets (conn t) n \<noteq> None" "may_touch (conn t) n" using n n' t(3) by (simp_all add: may_touch_def)
    then show "\<exists>t' fs. dbBTerm_disconnectDbNet b t = (Inr (), t') \<and>
        moves t fs (conn t\<lparr>cn_bterms := (cn_bterms (conn t))(b \<mapsto> (0, m, x, p))\<rparr>) t'"
      using dbBTerm_disconnectDbNet_ex [OF t(1,2) nf(4)] by blast
  qed (use bterm_facts [OF ok a] nf in auto)
  with s'(1) show ?thesis by simp
qed

lemma tracked_bterm_connectModNet:
  assumes ok: "netlist_ok s" and b: "cn_bterms (conn s) b = Some (n, 0, x, p)" and m: "cn_modnets (conn s) m \<noteq> None"
  shows "tracked s (snd (bterm_connectModNet b m s))"
proof -
  obtain M where M: "dbTable_getPtr (nl_modnets s) m = Some M" using m by (rule modnetE)
  obtain s' where s': "bterm_connectModNet b m s = (Inr (), s')" "dbBTerm_connect_modnet b m s = (Inr (), s')"
    "moves s [(kConnectObject, [type_param dbBTermObj, id_param b, PUInt 0, id_param m])]
      (conn s\<lparr>cn_bterms := (cn_bterms (conn s))(b \<mapsto> (n, m, x, p))\<rparr>) s'"
    by (rule bterm_connectModNet_moves [OF ok b m])
  obtain a where a: "dbTable_getPtr (nl_bterms s) b = Some a" using b by (auto simp: conn_see_def)
  note mf = modnet_facts [OF ok M]
  have "tracked s s'"
  proof (rule tracked_bterm [OF ok b s'(3) undo_connect_bterm(2)])
    fix t
    assume t: "netlist_ok t" "cn_bterms (conn t) b = Some (n, m, x, p)" "cn_modnets (conn t) = cn_modnets (conn s)"
    have "cn_modnets (conn t) m \<noteq> None" using m t(3) by simp
    then show "\<exists>t' fs. dbBTerm_disconnectDbModNet b t = (Inr (), t') \<and>
        moves t fs (conn t\<lparr>cn_bterms := (cn_bterms (conn t))(b \<mapsto> (n, 0, x, p))\<rparr>) t'"
      using dbBTerm_disconnectDbModNet_ex [OF t(1,2)] by blast
  qed (use bterm_facts [OF ok a] mf in auto)
  with s'(1) show ?thesis by simp
qed

lemma tracked_dbBTerm_disconnectDbNet:
  assumes ok: "netlist_ok s"
  shows "tracked s (snd (dbBTerm_disconnectDbNet b s))"
  unfolding dbBTerm_disconnectDbNet_def
proof (rule tracked_fetch [OF ok])
  fix a
  assume a: "dbTable_getPtr (nl_bterms s) b = Some a"
  have "tracked s (snd (step_then (get_obj nl_nets (btm_net a)) (\<lambda>net.
      if get_flag dont_touch net then step_fail (LogError 1106) else bterm_disconnectNet b) s))" if nz: "btm_net a \<noteq> 0"
  proof (rule tracked_fetch [OF ok])
    fix N
    assume N: "dbTable_getPtr (nl_nets s) (btm_net a) = Some N"
    show "tracked s (snd ((if get_flag dont_touch N then step_fail (LogError 1106) else bterm_disconnectNet b) s))"
    proof (cases "get_flag dont_touch N")
      case True
      then show ?thesis by (simp add: tracked_refl ok)
    next
      case False
      then have mt: "may_touch (conn s) (btm_net a)" by (rule net_facts(5) [OF ok N])
      show ?thesis by (rule tracked_bterm_disconnectNet [OF ok a nz mt]) (use False in simp)
    qed
  qed
  then show "tracked s (snd ((if btm_net a = 0 then step_return () else step_then (get_obj nl_nets (btm_net a)) (\<lambda>net.
      if get_flag dont_touch net then step_fail (LogError 1106) else bterm_disconnectNet b)) s))"
    by (simp add: tracked_refl ok)
qed

lemma tracked_dbBTerm_disconnect:
  assumes ok: "netlist_ok s"
  shows "tracked s (snd (dbBTerm_disconnect b s))"
  unfolding dbBTerm_disconnect_def
proof (rule tracked_fetch [OF ok])
  fix a
  assume a: "dbTable_getPtr (nl_bterms s) b = Some a"
  let ?rest = "step_then (bterm_disconnectNet b) (\<lambda>_. if btm_mnet a = 0 then step_return () else bterm_disconnectModNet b)"
  have "tracked s (snd (step_then (get_obj nl_nets (btm_net a)) (\<lambda>net.
      if get_flag dont_touch net then step_fail (LogError 375) else ?rest) s))" if nz: "btm_net a \<noteq> 0"
  proof (rule tracked_fetch [OF ok])
    fix N
    assume N: "dbTable_getPtr (nl_nets s) (btm_net a) = Some N"
    show "tracked s (snd ((if get_flag dont_touch N then step_fail (LogError 375) else ?rest) s))"
    proof (cases "get_flag dont_touch N")
      case True
      then show ?thesis by (simp add: tracked_refl ok)
    next
      case False
      then have mt: "may_touch (conn s) (btm_net a)" by (rule net_facts(5) [OF ok N])
      obtain s' where s': "bterm_disconnectNet b s = (Inr (), s')" "tracked s s'"
        by (rule tracked_bterm_disconnectNet [OF ok a nz mt]) blast
      have "tracked s' (snd ((if btm_mnet a = 0 then step_return () else bterm_disconnectModNet b) s'))"
        using tracked_bterm_disconnectModNet(1) [OF tracked_ok [OF s'(2)]] tracked_refl [OF tracked_ok [OF s'(2)]] by simp
      then have "tracked s (snd ((if btm_mnet a = 0 then step_return () else bterm_disconnectModNet b) s'))"
        by (rule tracked_trans [OF s'(2)])
      then show ?thesis using False s'(1) by simp
    qed
  qed
  then show "tracked s (snd ((if btm_net a = 0 then step_return () else step_then (get_obj nl_nets (btm_net a)) (\<lambda>net.
      if get_flag dont_touch net then step_fail (LogError 375) else ?rest)) s))"
    by (simp add: tracked_refl ok)
qed

text \<open>What \<^verbatim>\<open>connect\<close> does first: it takes the bterm off the net it is on.\<close>

lemma bterm_disconnected:
  assumes ok: "netlist_ok s" and a: "dbTable_getPtr (nl_bterms s) b = Some a"
    and t: "(if btm_net a \<noteq> 0 then dbBTerm_disconnectDbNet b else step_return ()) s = (Inr u, t)"
  shows "netlist_ok t \<and> cn_bterms (conn t) = (cn_bterms (conn s))(b \<mapsto> (0, btm_mnet a, btm_name a, btm_bpins a)) \<and>
    cn_nets (conn t) = cn_nets (conn s)"
proof (cases "btm_net a = 0")
  case True
  then show ?thesis using t bterm_facts(1) [OF ok a] ok by (simp add: fun_upd_idem del: conn_fields)
next
  case False
  obtain N where N: "dbTable_getPtr (nl_nets s) (btm_net a) = Some N" using bterm_facts(3) [OF ok a False] by (auto simp: conn_see_def)
  have "\<not> get_flag dont_touch N"
  proof
    assume "get_flag dont_touch N"
    then have "dbBTerm_disconnectDbNet b s = (Inl (LogError 1106), s)"
      using a N False by (simp add: dbBTerm_disconnectDbNet_def)
    with t False show False by simp
  qed
  then have mt: "may_touch (conn s) (btm_net a)" by (rule net_facts(5) [OF ok N])
  obtain s' where "dbBTerm_disconnectDbNet b s = (Inr (), s')" "tracked s s'"
    "cn_bterms (conn s') = (cn_bterms (conn s))(b \<mapsto> (0, btm_mnet a, btm_name a, btm_bpins a))" "cn_nets (conn s') = cn_nets (conn s)"
    by (rule tracked_bterm_disconnectNet [OF ok a False mt]) blast
  then show ?thesis using t False tracked_ok by auto
qed

lemma tracked_dbBTerm_connect:
  assumes ok: "netlist_ok s"
  shows "tracked s (snd (dbBTerm_connect b n s))"
proof (cases "n = 0")
  case True
  then show ?thesis by (simp add: dbBTerm_connect_def tracked_refl ok)
next
  case n0: False
  have "tracked s (snd (step_then (get_obj nl_bterms b) (\<lambda>bterm. step_then (get_obj nl_nets n) (\<lambda>net.
        if btm_net bterm = n then step_return ()
        else if get_flag dont_touch net then step_fail (LogError 377)
        else step_then (if btm_net bterm \<noteq> 0 then dbBTerm_disconnectDbNet b else step_return ()) (\<lambda>_. bterm_connectNet b n))) s))"
  proof (rule tracked_fetch [OF ok], rule tracked_fetch [OF ok])
    fix a N
    assume a: "dbTable_getPtr (nl_bterms s) b = Some a" and N: "dbTable_getPtr (nl_nets s) n = Some N"
    have "tracked s (snd (step_then (if btm_net a \<noteq> 0 then dbBTerm_disconnectDbNet b else step_return ()) (\<lambda>_. bterm_connectNet b n) s))"
      if touch: "\<not> get_flag dont_touch N"
    proof (rule tracked_then)
      show "tracked s (snd ((if btm_net a \<noteq> 0 then dbBTerm_disconnectDbNet b else step_return ()) s))"
        using tracked_dbBTerm_disconnectDbNet [OF ok] tracked_refl [OF ok] by simp
      fix u t
      assume t: "(if btm_net a \<noteq> 0 then dbBTerm_disconnectDbNet b else step_return ()) s = (Inr u, t)"
      have mt: "may_touch (conn s) n" by (rule net_facts(5) [OF ok N touch])
      have "netlist_ok t \<and> cn_bterms (conn t) b = Some (0, btm_mnet a, btm_name a, btm_bpins a) \<and> cn_nets (conn t) = cn_nets (conn s)"
        using bterm_disconnected [OF ok a t] by simp
      moreover from this have "may_touch (conn t) n" using mt by (simp add: may_touch_def del: conn_fields)
      ultimately show "tracked t (snd (bterm_connectNet b n t))" using tracked_bterm_connectNet by blast
    qed
    then show "tracked s (snd ((if btm_net a = n then step_return () else if get_flag dont_touch N then step_fail (LogError 377)
        else step_then (if btm_net a \<noteq> 0 then dbBTerm_disconnectDbNet b else step_return ()) (\<lambda>_. bterm_connectNet b n)) s))"
      by (simp add: tracked_refl ok)
  qed
  then show ?thesis using n0 by (simp add: dbBTerm_connect_def)
qed

lemma tracked_dbBTerm_connect_modnet:
  assumes ok: "netlist_ok s"
  shows "tracked s (snd (dbBTerm_connect_modnet b m s))"
proof (cases "m = 0")
  case True
  then show ?thesis by (simp add: dbBTerm_connect_modnet_def tracked_refl ok)
next
  case m0: False
  have "tracked s (snd (step_then (get_obj nl_bterms b) (\<lambda>bterm. step_then (get_obj nl_modnets m) (\<lambda>_.
        if btm_mnet bterm = m then step_return ()
        else step_then (if btm_mnet bterm \<noteq> 0 then bterm_disconnectModNet b else step_return ()) (\<lambda>_. bterm_connectModNet b m))) s))"
  proof (rule tracked_fetch [OF ok], rule tracked_fetch [OF ok])
    fix a M
    assume a: "dbTable_getPtr (nl_bterms s) b = Some a" and M: "dbTable_getPtr (nl_modnets s) m = Some M"
    have "tracked s (snd (step_then (if btm_mnet a \<noteq> 0 then bterm_disconnectModNet b else step_return ()) (\<lambda>_. bterm_connectModNet b m) s))"
    proof (rule tracked_then)
      show "tracked s (snd ((if btm_mnet a \<noteq> 0 then bterm_disconnectModNet b else step_return ()) s))"
        using tracked_bterm_disconnectModNet(1) [OF ok] tracked_refl [OF ok] by simp
      fix u t
      assume t: "(if btm_mnet a \<noteq> 0 then bterm_disconnectModNet b else step_return ()) s = (Inr u, t)"
      have tt: "netlist_ok t \<and> cn_bterms (conn t) b = Some (btm_net a, 0, btm_name a, btm_bpins a) \<and> cn_modnets (conn t) = cn_modnets (conn s)"
      proof (cases "btm_mnet a = 0")
        case True
        then show ?thesis using t bterm_facts(1) [OF ok a] ok by (simp del: conn_fields)
      next
        case False
        then show ?thesis
          using t tracked_bterm_disconnectModNet(2) [OF ok a] tracked_ok [OF tracked_bterm_disconnectModNet(1) [OF ok, of b]] by auto
      qed
      then have "cn_modnets (conn t) m \<noteq> None" using modnet_facts(1) [OF ok M] by simp
      with tt show "tracked t (snd (bterm_connectModNet b m t))" using tracked_bterm_connectModNet by blast
    qed
    then show "tracked s (snd ((if btm_mnet a = m then step_return ()
        else step_then (if btm_mnet a \<noteq> 0 then bterm_disconnectModNet b else step_return ()) (\<lambda>_. bterm_connectModNet b m)) s))"
      by (simp add: tracked_refl ok)
  qed
  then show ?thesis using m0 by (simp add: dbBTerm_connect_modnet_def)
qed

end
