(* ===== verification/NetTracked.thy ===== *)
theory NetTracked
  imports NetEdits
begin

text \<open>
  The operations on nets are tracked: the flags, the names, creating and deleting, and merging. To undo the creation of a net is to destroy it, and
  to undo its deletion is to create it again, with the id it had (\<open>DbFreeList\<close>).
\<close>

section \<open>Fields and names\<close>

lemma assign_net_moves:
  assumes ok: "netlist_ok s" and n: "cn_nets (conn s) n = Some (nm, fl, ndr, oth)"
    and f: "\<And>a. nt_iterms (f a) = nt_iterms a" "\<And>a. nt_bterms (f a) = nt_bterms a" "\<And>a. nt_name (f a) = nt_name a"
      "\<And>a. nt_other (f a) = nt_other a"
    and g: "\<And>a. nt_flags a = fl \<Longrightarrow> nt_ndr a = ndr \<Longrightarrow> nt_flags (f a) = fl' \<and> nt_ndr (f a) = ndr'"
  shows "\<exists>s'. assign_net n f s = (Inr (), s') \<and> moves s [] (conn s\<lparr>cn_nets := (cn_nets (conn s))(n \<mapsto> (nm, fl', ndr', oth))\<rparr>) s'"
proof -
  obtain N where N: "dbTable_getPtr (nl_nets s) n = Some N" "nt_name N = nm" "nt_flags N = fl" "nt_ndr N = ndr" "nt_other N = oth"
    using n by (rule netE)
  have v: "net_view (f N) = (nm, fl', ndr', oth)" using N f g by (simp add: net_view_def)
  have ck: "conn_inv (conn s\<lparr>cn_nets := (cn_nets (conn s))(n \<mapsto> net_view (f N))\<rparr>)"
    by (rule conn_ok_net_same_name [OF netlist_ok_conn [OF ok] n]) (simp add: v)
  have "distinct (nl_net_hash s)" using ok by (simp add: netlist_ok_def hashes_ok_def)
  from moves_net [OF ok N(1) f(1,2) ck this refl] show ?thesis
    using N(1) by (simp add: assign_net_def v)
qed

lemma tracked_set_net_flags:
  assumes ok: "netlist_ok s"
  shows "tracked s (snd (set_net_flags n f s))"
proof (cases "dbTable_getPtr (nl_nets s) n")
  case None
  then show ?thesis by (simp add: set_net_flags_def tracked_refl ok)
next
  case (Some N)
  note nf = net_facts [OF ok Some]
  let ?fl = "nt_flags N"
  obtain s' where s': "set_net_flags n f s = (Inr (), s')"
    "moves s [(kUpdateField, [type_param dbNetObj, id_param n, PInt 0, PUInt ?fl, PUInt (f ?fl)])]
      (conn s\<lparr>cn_nets := (cn_nets (conn s))(n \<mapsto> (nt_name N, f ?fl, nt_ndr N, nt_other N))\<rparr>) s'"
    by (rule set_net_flags_moves [OF ok nf(1)])
  have "tracked s s'"
  proof (rule tracked_moves [OF ok s'(2) inst_of_same(2) undo_net_flags [OF nf(2)]])
    fix t
    assume t: "netlist_ok t" "conn t = conn s\<lparr>cn_nets := (cn_nets (conn s))(n \<mapsto> (nt_name N, f ?fl, nt_ndr N, nt_other N))\<rparr>"
    have tn: "cn_nets (conn t) n = Some (nt_name N, f ?fl, nt_ndr N, nt_other N)" unfolding t(2) by simp
    have bk: "conn t\<lparr>cn_nets := (cn_nets (conn t))(n \<mapsto> (nt_name N, ?fl, nt_ndr N, nt_other N))\<rparr> = conn s"
      unfolding t(2) using nf(1) by (simp add: fun_upd_idem del: conn_fields)
    show "\<exists>t' fs. assign_net n (nt_flags_update (\<lambda>_. ?fl)) t = (Inr (), t') \<and> moves t fs (conn s) t'"
      using assign_net_moves [OF t(1) tn, of "nt_flags_update (\<lambda>_. ?fl)" ?fl "nt_ndr N"] bk by auto
  qed
  then show ?thesis using s'(1) by simp
qed

lemma tracked_drop: "tracked s (snd (m s)) \<Longrightarrow> tracked s (snd (drop_result m s))"
  unfolding drop_result_def by (rule tracked_then) (simp_all add: tracked_refl tracked_ok)

lemma tracked_rename:
  assumes ok: "netlist_ok s" and name: "c_name name"
  shows "tracked s (snd (dbNet_rename n name s))"
proof (cases "dbTable_getPtr (nl_nets s) n")
  case None
  then show ?thesis by (simp add: dbNet_rename_def tracked_refl ok)
next
  case (Some N)
  note nf = net_facts [OF ok Some]
  show ?thesis
  proof (cases "has_net s name")
    case True
    then show ?thesis using Some by (simp add: dbNet_rename_def tracked_refl ok)
  next
    case False
    let ?nm = "nt_name N"
    obtain s' where s': "dbNet_rename n name s = (Inr True, s')"
      "moves s [(kUpdateField, [type_param dbNetObj, id_param n, PInt 6, PString (Some ?nm), PString (Some name)])]
        (conn s\<lparr>cn_nets := (cn_nets (conn s))(n \<mapsto> (name, nt_flags N, nt_ndr N, nt_other N))\<rparr>) s'"
      by (rule dbNet_rename_moves [OF ok nf(1) name False])
    have "tracked s s'"
    proof (rule tracked_moves [OF ok s'(2) inst_of_same(2) undo_net_name [OF nf(2,3) name]])
      fix t
      assume t: "netlist_ok t" "conn t = conn s\<lparr>cn_nets := (cn_nets (conn s))(n \<mapsto> (name, nt_flags N, nt_ndr N, nt_other N))\<rparr>"
      have tn: "cn_nets (conn t) n = Some (name, nt_flags N, nt_ndr N, nt_other N)" unfolding t(2) by simp
      have "name \<noteq> ?nm"
      proof
        assume "name = ?nm"
        then have "has_net s name" using has_net_iff [OF ok, of name] nf(1) name by (metis c_name_id fst_conv)
        with False show False ..
      qed
      moreover have "distinct_names fst (cn_nets (conn s))" using netlist_ok_conn [OF ok] by (simp add: conn_inv_def)
      ultimately have no: "\<not> has_net t ?nm"
        unfolding has_net_iff [OF t(1)] c_name_id [OF nf(3)] t(2) using nf(1)
        by (auto simp: distinct_names_def simp del: conn_fields split: if_splits)
      have bk: "conn t\<lparr>cn_nets := (cn_nets (conn t))(n \<mapsto> (?nm, nt_flags N, nt_ndr N, nt_other N))\<rparr> = conn s"
        unfolding t(2) using nf(1) by (simp add: fun_upd_idem del: conn_fields)
      obtain t' where "dbNet_rename n ?nm t = (Inr True, t')"
        "moves t [(kUpdateField, [type_param dbNetObj, id_param n, PInt 6, PString (Some name), PString (Some ?nm)])]
          (conn t\<lparr>cn_nets := (cn_nets (conn t))(n \<mapsto> (?nm, nt_flags N, nt_ndr N, nt_other N))\<rparr>) t'"
        by (rule dbNet_rename_moves [OF t(1) tn nf(3) no])
      then show "\<exists>t' fs. drop_result (dbNet_rename n ?nm) t = (Inr (), t') \<and> moves t fs (conn s) t'"
        unfolding bk by (auto simp: drop_result_def)
    qed
    then show ?thesis using s'(1) by simp
  qed
qed

lemma tracked_swapNetNames:
  assumes ok: "netlist_ok s" and nm: "n \<noteq> m"
  shows "tracked s (snd (dbNet_swapNetNames n m True s))"
proof (cases "dbTable_getPtr (nl_nets s) n = None \<or> dbTable_getPtr (nl_nets s) m = None")
  case True
  have "snd (dbNet_swapNetNames n m True s) = s"
    using True by (cases "dbTable_getPtr (nl_nets s) n") (auto simp: dbNet_swapNetNames_def)
  then show ?thesis by (simp add: tracked_refl ok)
next
  case False
  then obtain N M where N: "dbTable_getPtr (nl_nets s) n = Some N" and M: "dbTable_getPtr (nl_nets s) m = Some M" by auto
  note nf = net_facts [OF ok N] and mf = net_facts [OF ok M]
  let ?a = "(kSwapObject, [type_param dbNameObj, type_param dbNetObj, id_param m, id_param n])"
  let ?c = "conn s\<lparr>cn_nets := (cn_nets (conn s))(n \<mapsto> (nt_name M, nt_flags N, nt_ndr N, nt_other N),
    m \<mapsto> (nt_name N, nt_flags M, nt_ndr M, nt_other M))\<rparr>"
  obtain s' where s': "dbNet_swapNetNames n m True s = (Inr (), s')" "moves s (if True then [?a] else []) ?c s'"
    by (rule dbNet_swapNetNames_moves [OF ok nf(1) mf(1) nm])
  then have s'': "moves s [?a] ?c s'" by simp
  have "tracked s s'"
  proof (rule tracked_moves [OF ok s'' inst_of_same(2) undo_swap_nets [OF nf(2) mf(2)]])
    fix t
    assume t: "netlist_ok t" "conn t = ?c"
    have tn: "cn_nets (conn t) n = Some (nt_name M, nt_flags N, nt_ndr N, nt_other N)"
      "cn_nets (conn t) m = Some (nt_name N, nt_flags M, nt_ndr M, nt_other M)"
      unfolding t(2) using nm by simp_all
    have bk: "conn t\<lparr>cn_nets := (cn_nets (conn t))(n \<mapsto> (nt_name N, nt_flags N, nt_ndr N, nt_other N),
        m \<mapsto> (nt_name M, nt_flags M, nt_ndr M, nt_other M))\<rparr> = conn s"
      unfolding t(2) using nf(1) mf(1) nm by (cases "conn s") (auto simp: fun_eq_iff simp del: conn_fields)
    obtain t' where "dbNet_swapNetNames n m False t = (Inr (), t')"
      "moves t (if False then [?a] else [])
        (conn t\<lparr>cn_nets := (cn_nets (conn t))(n \<mapsto> (nt_name N, nt_flags N, nt_ndr N, nt_other N),
          m \<mapsto> (nt_name M, nt_flags M, nt_ndr M, nt_other M))\<rparr>) t'"
      by (rule dbNet_swapNetNames_moves [OF t(1) tn nm])
    then show "\<exists>t' fs. dbNet_swapNetNames n m False t = (Inr (), t') \<and> moves t fs (conn s) t'"
      unfolding bk by blast
  qed
  then show ?thesis using s'(1) by simp
qed

section \<open>Creating and deleting\<close>

text \<open>A net that is not there has no terminals, and the lists of a net without terminals are empty.\<close>

lemma no_net_no_terms:
  assumes ok: "netlist_ok s" and n: "cn_nets (conn s) n = None" "n \<noteq> 0"
  shows "cn_iterms (conn s) i \<noteq> Some (n, m, k)" "cn_bterms (conn s) i \<noteq> Some (n, m, x, p)"
proof -
  show "cn_iterms (conn s) i \<noteq> Some (n, m, k)"
  proof
    assume "cn_iterms (conn s) i = Some (n, m, k)"
    then obtain a where a: "dbTable_getPtr (nl_iterms s) i = Some a" "itm_net a = n" by (rule itermE)
    then show False using iterm_facts(3) [OF ok a(1)] n by blast
  qed
  show "cn_bterms (conn s) i \<noteq> Some (n, m, x, p)"
  proof
    assume "cn_bterms (conn s) i = Some (n, m, x, p)"
    then obtain a where a: "dbTable_getPtr (nl_bterms s) i = Some a" "btm_net a = n" by (rule btermE)
    then show False using bterm_facts(3) [OF ok a(1)] n by blast
  qed
qed

lemma head_0_iff:
  assumes "lists_ok own nx pv g heads" "heads n = Some h"
  shows "h = 0 \<longleftrightarrow> (\<forall>t a. g t = Some a \<longrightarrow> own a \<noteq> n)"
proof -
  obtain xs where xs: "links nx pv g h 0 xs" "set xs = {t. \<exists>a. g t = Some a \<and> own a = n}" by (rule lists_okE [OF assms])
  have "h = 0 \<longleftrightarrow> xs = []" using xs(1) by (cases xs) auto
  also have "\<dots> \<longleftrightarrow> set xs = {}" by simp
  finally show ?thesis unfolding xs(2) by blast
qed

lemma heads_0_iff:
  assumes ok: "netlist_ok s" and N: "dbTable_getPtr (nl_nets s) n = Some N"
  shows "nt_iterms N = 0 \<longleftrightarrow> (\<forall>i m k. cn_iterms (conn s) i \<noteq> Some (n, m, k))"
    and "nt_bterms N = 0 \<longleftrightarrow> (\<forall>i m x p. cn_bterms (conn s) i \<noteq> Some (n, m, x, p))"
proof -
  show "nt_iterms N = 0 \<longleftrightarrow> (\<forall>i m k. cn_iterms (conn s) i \<noteq> Some (n, m, k))"
    unfolding head_0_iff [OF netlist_okD(6) [OF ok] see_eq [OF N, of nt_iterms]]
    using iterm_facts(1) [OF ok] by (blast elim: itermE)
  show "nt_bterms N = 0 \<longleftrightarrow> (\<forall>i m x p. cn_bterms (conn s) i \<noteq> Some (n, m, x, p))"
    unfolding head_0_iff [OF netlist_okD(8) [OF ok] see_eq [OF N, of nt_bterms]]
    using bterm_facts(1) [OF ok] by (blast elim: btermE)
qed

lemma dbNet_destroy_empty:
  assumes N: "dbTable_getPtr (nl_nets s) n = Some N" "\<not> get_flag dont_touch N" "nt_iterms N = 0" "nt_bterms N = 0" "\<not> nt_other N"
  shows "dbNet_destroy n s = dbNet_delete n s"
proof -
  have "dbNet_destroy_terms n s = (Inr (), s)"
    using N by (simp add: dbNet_destroy_terms_def disconnect_iterms.simps destroy_bterms.simps)
  then show ?thesis using N by (simp add: dbNet_destroy_def)
qed

lemma new_flags_touch: "\<not> bit new_flags 23"
  by (simp add: new_flags_def mk_dbNet_def bit_simps)

lemma tracked_create:
  assumes ok: "netlist_ok s" and name: "c_name name" and skip: "skip \<Longrightarrow> \<not> has_net s name"
  shows "tracked s (snd (dbNet_create name skip s))"
proof (cases "has_net s name")
  case True
  then show ?thesis using skip by (cases skip) (simp_all add: dbNet_create_def tracked_refl ok)
next
  case no: False
  obtain n t where nt: "dbTable_create (nl_nets s) mk_dbNet = (n, t)" by fastforce
  show ?thesis
  proof (cases "new_id n")
    case False
    then show ?thesis using no nt by (simp add: dbNet_create_def tracked_refl ok)
  next
    case id: True
    let ?e = "(kCreateObject, [type_param dbNetObj, PString (Some name), id_param n])"
    obtain s' where s': "dbNet_create name skip s = (Inr (Some n), s')" "netlist_ok s'"
      "conn s' = conn s\<lparr>cn_nets := (cn_nets (conn s))(n \<mapsto> (name, new_flags, 0, False))\<rparr>" "cn_nets (conn s) n = None"
      "logged s [?e] s'" "nl_nets s' = dbTable_update t n (nt_name_update (\<lambda>_. name))" "n \<noteq> 0"
      by (rule dbNet_create_effect [OF ok name no nt id])
    note h = undo_create_net [OF id name]
    have "undoable [?e] s s'"
      unfolding undoable_def
    proof (intro allI impI)
      fix u
      assume u: "netlist_ok u" "nl_journal u = None" "conn u = conn s'" "ids.room (nl_nets s') (nl_nets u)"
      have un: "cn_nets (conn u) n = Some (name, new_flags, 0, False)" unfolding u(3) s'(3) by simp
      then obtain U where U: "dbTable_getPtr (nl_nets u) n = Some U" "nt_flags U = new_flags" "nt_other U = False" by (rule netE)
      have free: "cn_iterms (conn u) i \<noteq> Some (n, m, k)" "cn_bterms (conn u) i \<noteq> Some (n, m, x, p)" for i m k x p
        using no_net_no_terms [OF ok s'(4,7)] unfolding u(3) s'(3) by (simp_all del: conn_fields)
      obtain u' where u': "dbNet_delete n u = (Inr (), u')" "netlist_ok u'" "conn u' = conn u\<lparr>cn_nets := (cn_nets (conn u))(n := None)\<rparr>"
        "logged u [(kDeleteObject, [type_param dbNetObj, PString (Some name), id_param n, PUInt new_flags, PUInt 0])] u'"
        "dbTable_destroy (nl_nets u) n = Some (nl_nets u')"
        by (rule dbNet_delete_effect [OF u(1) un free])
      have "nt_iterms U = 0" "nt_bterms U = 0" using heads_0_iff [OF u(1) U(1)] free by blast+
      then have d: "dbNet_destroy n u = (Inr (), u')"
        using dbNet_destroy_empty [OF U(1)] U u'(1) new_flags_touch by (simp add: get_flag_def)
      have "ids.room t (nl_nets u)"
        using u(4) unfolding s'(6)
        by (rule ids.room_assign_rev [rotated]) (use tbl.create [OF netlist_okD(1) [OF ok] nt] in simp)
      then have r: "ids.room (nl_nets s) (nl_nets u')"
        by (rule ids.create_undone [OF netlist_okD(1) [OF ok] nt netlist_okD(1) [OF u(1)] _ U(1) u'(5)])
      have "conn u' = conn s"
        unfolding u'(3) u(3) s'(3) using s'(4) by (cases "conn s") (auto simp: fun_eq_iff simp del: conn_fields)
      then show "\<exists>u'. run_all (map undo_entry (rev [?e])) u = (Inr (), u') \<and> netlist_ok u' \<and> logged u [] u' \<and> conn u' = conn s \<and>
          ids.room (nl_nets s) (nl_nets u')"
        using d u' r handles_undo_entry [OF h] logged_none [OF u(2) u'(4)] by auto
    qed
    moreover have "iterm_inst (conn s') = iterm_inst (conn s)" unfolding s'(3) by (rule inst_of_same)
    ultimately have "tracked s s'"
      unfolding tracked_def using s'(2,5) h by (auto simp: good_entry_def intro!: exI [of _ "[?e]"] simp del: conn_fields)
    then show ?thesis using s'(1) by simp
  qed
qed

lemma tracked_delete:
  assumes ok: "netlist_ok s" and N: "dbTable_getPtr (nl_nets s) n = Some N" "nt_iterms N = 0" "nt_bterms N = 0" "\<not> nt_other N"
  shows "tracked s (snd (dbNet_delete n s))"
proof -
  note nf = net_facts [OF ok N(1)]
  let ?e = "(kDeleteObject, [type_param dbNetObj, PString (Some (nt_name N)), id_param n, PUInt (nt_flags N), PUInt (nt_ndr N)])"
  have free: "cn_iterms (conn s) i \<noteq> Some (n, m, k)" "cn_bterms (conn s) i \<noteq> Some (n, m, x, p)" for i m k x p
    using heads_0_iff [OF ok N(1)] N(2,3) by blast+
  obtain s' where s': "dbNet_delete n s = (Inr (), s')" "netlist_ok s'" "conn s' = conn s\<lparr>cn_nets := (cn_nets (conn s))(n := None)\<rparr>"
    "logged s [?e] s'" "dbTable_destroy (nl_nets s) n = Some (nl_nets s')"
    by (rule dbNet_delete_effect [OF ok nf(1) free])
  note h = undo_delete_net [OF nf(2,3), of "nt_flags N" "nt_ndr N"]
  have "undoable [?e] s s'"
    unfolding undoable_def
  proof (intro allI impI)
    fix u
    assume u: "netlist_ok u" "nl_journal u = None" "conn u = conn s'" "ids.room (nl_nets s') (nl_nets u)"
    have no: "\<not> has_net u (nt_name N)"
    proof
      assume "has_net u (nt_name N)"
      then obtain m x where "cn_nets (conn u) m = Some x" "fst x = nt_name N"
        using has_net_iff [OF u(1), of "nt_name N"] c_name_id [OF nf(3)] by auto
      then have "m \<noteq> n" "cn_nets (conn s) m = Some x" unfolding u(3) s'(3) by (auto split: if_splits simp del: conn_fields)
      moreover have "distinct_names fst (cn_nets (conn s))" using netlist_ok_conn [OF ok] by (simp add: conn_inv_def)
      ultimately show False using nf(1) \<open>fst x = nt_name N\<close> unfolding distinct_names_def by (metis fst_conv)
    qed
    obtain j v where jv: "dbTable_create (nl_nets u) mk_dbNet = (j, v)" by fastforce
    have r: "j = n" "ids.room (nl_nets s) v"
      using ids.destroy_undone [OF netlist_okD(1) [OF ok] N(1) s'(5) netlist_okD(1) [OF u(1)] u(4) jv] by blast+
    obtain w where w: "dbNet_create (nt_name N) False u = (Inr (Some n), w)" "netlist_ok w"
      "conn w = conn u\<lparr>cn_nets := (cn_nets (conn u))(n \<mapsto> (nt_name N, new_flags, 0, False))\<rparr>" "cn_nets (conn u) n = None"
      "logged u [(kCreateObject, [type_param dbNetObj, PString (Some (nt_name N)), id_param n])] w"
      "nl_nets w = dbTable_update v n (nt_name_update (\<lambda>_. nt_name N))" "n \<noteq> 0"
      by (rule dbNet_create_effect [OF u(1) nf(3) no jv [unfolded r(1)] nf(2)])
    have wn: "cn_nets (conn w) n = Some (nt_name N, new_flags, 0, False)" unfolding w(3) by simp
    obtain x where x: "assign_net n (nt_flags_update (\<lambda>_. nt_flags N)) w = (Inr (), x)"
      "moves w [] (conn w\<lparr>cn_nets := (cn_nets (conn w))(n \<mapsto> (nt_name N, nt_flags N, 0, False))\<rparr>) x"
      using assign_net_moves [OF w(2) wn, of "nt_flags_update (\<lambda>_. nt_flags N)" "nt_flags N" 0] by auto
    have xn: "cn_nets (conn x) n = Some (nt_name N, nt_flags N, 0, False)" using moves_ok(2) [OF x(2)] by simp
    obtain y where y: "assign_net n (nt_ndr_update (\<lambda>_. nt_ndr N)) x = (Inr (), y)"
      "moves x [] (conn x\<lparr>cn_nets := (cn_nets (conn x))(n \<mapsto> (nt_name N, nt_flags N, nt_ndr N, False))\<rparr>) y"
      using assign_net_moves [OF moves_ok(1) [OF x(2)] xn, of "nt_ndr_update (\<lambda>_. nt_ndr N)" "nt_flags N" "nt_ndr N"] by auto
    have run: "recreate_net (nt_name N) (nt_flags N) (nt_ndr N) u = (Inr (), y)"
      using w(1) x(1) y(1) by (simp add: recreate_net_def)
    have c: "conn y = conn s"
      unfolding moves_ok(2) [OF y(2)] unfolding moves_ok(2) [OF x(2)] w(3) u(3) s'(3) using nf(1) N(4)
      by (cases "conn s") (auto simp: fun_eq_iff simp del: conn_fields)
    have wf: "logged u [] y"
      using logged_none [OF u(2) logged_trans [OF w(5) logged_trans [of w "[]" x "[]" y]]] x(2) y(2) by (simp add: moves_def)
    have iv: "tbl_inv v" using tbl.create [OF netlist_okD(1) [OF u(1)] jv] by blast
    have "ids.room (nl_nets s) (nl_nets w)" unfolding w(6) by (rule ids.assign_room [OF iv r(2)])
    then have "ids.room (nl_nets s) (nl_nets x)" by (rule room_free_right [rotated]) (use x(2) in \<open>simp add: moves_def\<close>)
    then have ry: "ids.room (nl_nets s) (nl_nets y)" by (rule room_free_right [rotated]) (use y(2) in \<open>simp add: moves_def\<close>)
    show "\<exists>u'. run_all (map undo_entry (rev [?e])) u = (Inr (), u') \<and> netlist_ok u' \<and> logged u [] u' \<and> conn u' = conn s \<and>
        ids.room (nl_nets s) (nl_nets u')"
      using run c wf ry moves_ok(1) [OF y(2)] handles_undo_entry [OF h] by auto
  qed
  moreover have "iterm_inst (conn s') = iterm_inst (conn s)" unfolding s'(3) by (rule inst_of_same)
  ultimately have "tracked s s'"
    unfolding tracked_def using s'(2,4) h by (auto simp: good_entry_def intro!: exI [of _ "[?e]"] simp del: conn_fields)
  then show ?thesis using s'(1) by simp
qed

text \<open>Destroying a net takes its iterms off first. Each one is the head of the list when its turn comes.\<close>

definition keeps :: "(netlist \<Rightarrow> 'f) \<Rightarrow> 'a step \<Rightarrow> bool" where
  "keeps f m \<longleftrightarrow> (\<forall>s. f (snd (m s)) = f s)"

lemma keeps_return [simp]: "keeps f (step_return a)" "keeps f (step_fail e)"
  by (simp_all add: keeps_def)

lemma keeps_fetch [simp]: "keeps f (get_obj tbl i)"
  by (auto simp: keeps_def get_obj_def split: option.split)

lemma keeps_then: "keeps f m \<Longrightarrow> (\<And>a. keeps f (k a)) \<Longrightarrow> keeps f (step_then m k)"
  by (simp add: keeps_def step_then_def split: prod.split sum.split) (metis snd_conv)

lemma keeps_journal [simp]: "keeps nl_bterms (journal a ps)"
  by (auto simp: keeps_def journal_def split: option.split sum.split)

lemma keeps_unlink_iterm [simp]: "keeps nl_bterms (unlink_iterm_net i n)" "keeps nl_bterms (unlink_iterm_modnet f i m)"
  unfolding unlink_iterm_net_def unlink_iterm_modnet_def
  by (intro keeps_then keeps_fetch, simp add: keeps_def split: prod.split)+

lemma keeps_link_iterm [simp]: "keeps nl_bterms (link_iterm_net i n)"
  unfolding link_iterm_net_def by (intro keeps_then keeps_fetch) (simp add: keeps_def)

lemma keeps_disconnect: "keeps nl_bterms (dbITerm_disconnect i)" "keeps nl_bterms (dbITerm_disconnectDbNet i)"
  unfolding dbITerm_disconnect_def dbITerm_disconnectDbNet_def by (auto intro!: keeps_then)

lemma keeps_connect: "keeps nl_bterms (dbITerm_connect i n)"
  unfolding dbITerm_connect_def by (auto intro!: keeps_then keeps_disconnect)

lemma keeps_each: "(\<And>x. keeps f (g x)) \<Longrightarrow> keeps f (step_each g xs)"
  by (induction xs) (auto intro!: keeps_then)

lemma keepsD: "keeps f m \<Longrightarrow> m s = (r, t) \<Longrightarrow> f t = f s"
  unfolding keeps_def by (metis snd_conv)

lemma disconnect_head:
  assumes ok: "netlist_ok s" and a: "dbTable_getPtr (nl_iterms s) i = Some a" and N: "dbTable_getPtr (nl_nets s) n = Some N" "nt_iterms N = i"
    and own: "itm_net a = n" "n \<noteq> 0" and r: "dbITerm_disconnect i s = (Inr (), s')"
  shows "\<exists>N'. dbTable_getPtr (nl_nets s') n = Some N' \<and> nt_iterms N' = itm_next a"
proof -
  let ?unlink = "if itm_mnet a = 0 then step_return () else unlink_iterm_modnet (\<lambda>iterm. iterm) i (itm_mnet a)"
  obtain j where "step_then (unlink_iterm_net i n) (\<lambda>_. ?unlink) (s\<lparr>nl_journal := j\<rparr>) = (Inr (), s')"
  proof -
    let ?ps = "[type_param dbITermObj, id_param i, id_param (itm_net a), id_param (itm_mnet a)]"
    obtain b where b: "dbTable_getPtr (nl_insts s) (itm_inst a) = Some b" using iterm_facts(6) [OF ok a] by (auto simp: conn_see_def)
    have "\<not> ins_dont_touch b" "\<not> get_flag dont_touch N"
      using r a b N own by (auto simp: dbITerm_disconnect_def split: if_splits)
    then have d: "step_then (journal kDisconnectObject ?ps) (\<lambda>_. step_then (unlink_iterm_net i n) (\<lambda>_. ?unlink)) s = (Inr (), s')"
      using r a b N own by (simp add: dbITerm_disconnect_def)
    obtain j where "journal kDisconnectObject ?ps s = (Inr (), s\<lparr>nl_journal := j\<rparr>)"
      "moves s [(kDisconnectObject, ?ps)] (conn s) (s\<lparr>nl_journal := j\<rparr>)" by (rule moves_journal [OF ok])
    with d show ?thesis using that by simp
  qed
  then obtain t where t: "unlink_iterm_net i n (s\<lparr>nl_journal := j\<rparr>) = (Inr (), t)" "?unlink t = (Inr (), s')"
    by (auto simp: step_then_def split: prod.splits sum.splits)
  have "nl_nets s' = nl_nets t"
    using t(2) by (auto simp: unlink_iterm_modnet_def step_then_def get_obj_def split: option.splits sum.splits if_splits prod.splits)
  moreover have "nl_nets t = dbTable_update (nl_nets s) n (nt_iterms_update (\<lambda>_. itm_next a))"
    using t(1) a N by (auto simp: unlink_iterm_net_def step_then_def get_obj_def unlink_def split: prod.splits if_splits)
  ultimately show ?thesis using netlist_okD(1) [OF ok] N by (simp add: table_update upd_apply)
qed


lemma tracked_disconnect_iterms: "netlist_ok s \<Longrightarrow> tracked s (snd (disconnect_iterms fuel i s))"
proof (induction fuel arbitrary: i s)
  case 0
  then show ?case by (subst disconnect_iterms.simps) (simp add: tracked_refl)
next
  case (Suc fuel)
  have "tracked s (snd (step_then (get_obj nl_iterms i) (\<lambda>iterm. step_then (dbITerm_disconnect i) (\<lambda>_. disconnect_iterms fuel (itm_next iterm))) s))"
  proof (rule tracked_fetch [OF Suc.prems], rule tracked_then)
    show one: "tracked s (snd (dbITerm_disconnect i s))" by (rule tracked_disconnect [OF Suc.prems])
    fix a u t
    assume "dbITerm_disconnect i s = (Inr u, t)"
    then have "netlist_ok t" using tracked_ok [OF one] by simp
    then show "tracked t (snd (disconnect_iterms fuel (itm_next a) t))" by (rule Suc.IH)
  qed
  then show ?case using Suc.prems by (subst disconnect_iterms.simps) (simp add: tracked_refl)
qed

lemma disconnect_iterms_all:
  assumes "netlist_ok s" "dbTable_getPtr (nl_nets s) n = Some N" "nt_iterms N = i" "disconnect_iterms fuel i s = (Inr (), t)"
  shows "\<exists>N'. dbTable_getPtr (nl_nets t) n = Some N' \<and> nt_iterms N' = 0"
  using assms
proof (induction fuel arbitrary: i s N)
  case 0
  then show ?case by (subst (asm) disconnect_iterms.simps) (auto split: if_splits)
next
  case (Suc fuel)
  note ok = Suc.prems(1)
  show ?case
  proof (cases "i = 0")
    case True
    then show ?thesis using Suc.prems by (subst (asm) disconnect_iterms.simps) auto
  next
    case False
    obtain xs where xs: "links itm_next itm_prev (dbTable_getPtr (nl_iterms s)) i 0 xs"
      "set xs = {t. \<exists>a. dbTable_getPtr (nl_iterms s) t = Some a \<and> itm_net a = n}" "n \<noteq> 0"
      unfolding Suc.prems(3) [symmetric] by (rule lists_okE [OF netlist_okD(6) [OF ok] see_eq [OF Suc.prems(2), of nt_iterms]])
    then have "i \<in> set xs" using False by (cases xs) auto
    then obtain a where a: "dbTable_getPtr (nl_iterms s) i = Some a" "itm_net a = n" using xs(2) by blast
    have "step_then (dbITerm_disconnect i) (\<lambda>_. disconnect_iterms fuel (itm_next a)) s = (Inr (), t)"
      using Suc.prems(4) a(1) False by (subst (asm) disconnect_iterms.simps) simp
    then obtain u where u: "dbITerm_disconnect i s = (Inr (), u)" "disconnect_iterms fuel (itm_next a) u = (Inr (), t)"
      by (auto simp: step_then_def split: prod.splits sum.splits)
    obtain M where M: "dbTable_getPtr (nl_nets u) n = Some M" "nt_iterms M = itm_next a"
      using disconnect_head [OF ok a(1) Suc.prems(2,3) a(2) xs(3) u(1)] by blast
    have "netlist_ok u" using tracked_ok [OF tracked_disconnect [OF ok, of i]] u(1) by simp
    then show ?thesis using M u(2) by (rule Suc.IH)
  qed
qed

lemma keeps_disconnect_iterms: "keeps nl_bterms (disconnect_iterms fuel i)"
proof (induction fuel arbitrary: i)
  case (Suc fuel)
  then show ?case by (subst disconnect_iterms.simps) (auto intro!: keeps_then keeps_disconnect)
qed (simp add: disconnect_iterms.simps)

lemma tracked_destroy:
  assumes ok: "netlist_ok s" and b: "\<And>N. dbTable_getPtr (nl_nets s) n = Some N \<Longrightarrow> nt_bterms N = 0"
  shows "tracked s (snd (dbNet_destroy n s))"
proof (cases "dbTable_getPtr (nl_nets s) n")
  case None
  then show ?thesis by (simp add: dbNet_destroy_def dbNet_destroy_terms_def tracked_refl ok)
next
  case (Some N)
  note noterm = heads_0_iff(2) [OF ok Some, THEN iffD1, OF b [OF Some]]
  show ?thesis
  proof (cases "get_flag dont_touch N")
    case True
    then show ?thesis using Some by (simp add: dbNet_destroy_def dbNet_destroy_terms_def tracked_refl ok)
  next
    case False
    let ?loop = "disconnect_iterms (length (tbl_slots (nl_iterms s))) (nt_iterms N)"
    have loop: "tracked s (snd (?loop s))" by (rule tracked_disconnect_iterms [OF ok])
    show ?thesis
    proof (cases "?loop s")
      case (Pair r t)
      show ?thesis
      proof (cases r)
        case (Inl e)
        then show ?thesis using Pair loop Some False by (simp add: dbNet_destroy_def dbNet_destroy_terms_def)
      next
        case (Inr u)
        have t: "tracked s t" "netlist_ok t" using loop tracked_ok [OF loop] Pair by simp_all
        obtain M where M: "dbTable_getPtr (nl_nets t) n = Some M" "nt_iterms M = 0"
          using disconnect_iterms_all [OF ok Some refl, of _ t] Pair Inr by auto
        have "nl_bterms t = nl_bterms s" using keepsD [OF keeps_disconnect_iterms Pair] .
        then have mb: "nt_bterms M = 0" using noterm heads_0_iff(2) [OF t(2) M(1)] by simp
        have d: "dbNet_destroy n s = (if nt_other M then (Inl Unmodelled, t) else dbNet_delete n t)"
          using Pair Inr Some False M mb by (simp add: dbNet_destroy_def dbNet_destroy_terms_def destroy_bterms.simps)
        show ?thesis
        proof (cases "nt_other M")
          case True
          then show ?thesis using t(1) unfolding d by simp
        next
          case False
          then show ?thesis using tracked_trans [OF t(1) tracked_delete [OF t(2) M mb]] unfolding d by simp
        qed
      qed
    qed
  qed
qed


section \<open>Merging\<close>

lemma dbBTerm_connect_result:
  assumes ok: "netlist_ok s" and n0: "n \<noteq> 0" and r: "dbBTerm_connect b n s = (Inr (), s')"
  shows "\<exists>m x p. cn_bterms (conn s') = (cn_bterms (conn s))(b \<mapsto> (n, m, x, p))"
proof -
  obtain a N where a: "dbTable_getPtr (nl_bterms s) b = Some a" and N: "dbTable_getPtr (nl_nets s) n = Some N"
    using r n0 by (cases "dbTable_getPtr (nl_bterms s) b"; cases "dbTable_getPtr (nl_nets s) n") (auto simp: dbBTerm_connect_def)
  show ?thesis
  proof (cases "btm_net a = n")
    case True
    then have "s' = s" using r a N n0 by (simp add: dbBTerm_connect_def)
    then have "cn_bterms (conn s') = (cn_bterms (conn s))(b \<mapsto> (n, btm_mnet a, btm_name a, btm_bpins a))"
      using bterm_facts(1) [OF ok a] True by (simp add: fun_upd_idem del: conn_fields)
    then show ?thesis by blast
  next
    case False
    let ?off = "if btm_net a \<noteq> 0 then dbBTerm_disconnectDbNet b else step_return ()"
    have "\<not> get_flag dont_touch N" using r a N n0 False by (auto simp: dbBTerm_connect_def)
    then have go: "step_then ?off (\<lambda>_. bterm_connectNet b n) s = (Inr (), s')"
      using r a N n0 False by (simp add: dbBTerm_connect_def cong: if_cong)
    then obtain t where t: "?off s = (Inr (), t)" "bterm_connectNet b n t = (Inr (), s')"
      unfolding step_then_def by (auto split: prod.splits sum.splits)
    have d: "netlist_ok t" "cn_bterms (conn t) = (cn_bterms (conn s))(b \<mapsto> (0, btm_mnet a, btm_name a, btm_bpins a))"
      "cn_nets (conn t) = cn_nets (conn s)"
      using bterm_disconnected [OF ok a t(1)] by blast+
    have tb: "cn_bterms (conn t) b = Some (0, btm_mnet a, btm_name a, btm_bpins a)" unfolding d(2) by simp
    have "cn_nets (conn t) n \<noteq> None" unfolding d(3) using N by (simp add: conn_see_def)
    then obtain u where u: "bterm_connectNet b n t = (Inr (), u)"
      "conn u = conn t\<lparr>cn_bterms := (cn_bterms (conn t))(b \<mapsto> (n, btm_mnet a, btm_name a, btm_bpins a))\<rparr>"
      using bterm_connectNet_moves [OF d(1) tb] by (metis moves_ok(2))
    have "cn_bterms (conn s') = (cn_bterms (conn s))(b \<mapsto> (n, btm_mnet a, btm_name a, btm_bpins a))"
      using u t(2) d(2) by (simp del: conn_fields)
    then show ?thesis by blast
  qed
qed

text \<open>The iterators: they return, and visit the terminals of the net.\<close>

lemma follow_total:
  "links nx pv (dbTable_getPtr tbl) h p xs \<Longrightarrow> length xs \<le> fuel \<Longrightarrow> follow nx tbl fuel h = Inr xs"
proof (induction xs arbitrary: fuel h p)
  case Nil
  then show ?case by (simp add: follow.simps)
next
  case (Cons x xs)
  then obtain a k where a: "dbTable_getPtr tbl x = Some a" "links nx pv (dbTable_getPtr tbl) (nx a) x xs" "h = x" "x \<noteq> 0" "fuel = Suc k"
    by (cases fuel) auto
  then show ?case using Cons.IH [OF a(2), of k] Cons.prems(2) by (subst follow.simps) simp
qed

lemma follow_list:
  assumes inv: "tbl_inv tbl" and l: "lists_ok own nx pv (dbTable_getPtr tbl) heads" "heads n = Some h"
  obtains xs where "follow nx tbl (length (tbl_slots tbl)) h = Inr xs" "distinct xs"
    "set xs = {t. \<exists>a. dbTable_getPtr tbl t = Some a \<and> own a = n}" "links nx pv (dbTable_getPtr tbl) h 0 xs"
proof -
  obtain xs where xs: "links nx pv (dbTable_getPtr tbl) h 0 xs" "distinct xs" "set xs = {t. \<exists>a. dbTable_getPtr tbl t = Some a \<and> own a = n}"
    "n \<noteq> 0" by (rule lists_okE [OF l])
  have sh: "tbl_shape tbl" using inv by (simp add: tbl_inv_def)
  have "set xs \<subseteq> {..<length (tbl_slots tbl)}"
  proof
    fix x
    assume "x \<in> set xs"
    then obtain a where "dbTable_getPtr tbl x = Some a" using xs(3) by blast
    then have "x \<in> tbl_ids tbl" using getPtr_eq [OF sh, of x] by (simp split: if_splits)
    then show "x \<in> {..<length (tbl_slots tbl)}" by (simp add: tbl_ids_def)
  qed
  then have "card (set xs) \<le> card {..<length (tbl_slots tbl)}" by (rule card_mono [OF finite_lessThan])
  then have "length xs \<le> length (tbl_slots tbl)" using distinct_card [OF xs(2)] by simp
  from that [OF follow_total [OF xs(1) this] xs(2,3,1)] show ?thesis .
qed

lemma net_iterms_visits:
  assumes ok: "netlist_ok s" and N: "dbTable_getPtr (nl_nets s) n = Some N"
  shows "\<exists>is. net_iterms n s = (Inr is, s) \<and> distinct is \<and> set is = {i. \<exists>m k. cn_iterms (conn s) i = Some (n, m, k)}"
proof -
  obtain xs where xs: "follow itm_next (nl_iterms s) (length (tbl_slots (nl_iterms s))) (nt_iterms N) = Inr xs" "distinct xs"
    "set xs = {t. \<exists>a. dbTable_getPtr (nl_iterms s) t = Some a \<and> itm_net a = n}"
    by (rule follow_list [OF netlist_okD(3) [OF ok] netlist_okD(6) [OF ok] see_eq [OF N, of nt_iterms]]) (rule that)
  have "set xs = {i. \<exists>m k. cn_iterms (conn s) i = Some (n, m, k)}"
    unfolding xs(3) using iterm_facts(1) [OF ok] by (auto elim!: itermE simp del: conn_fields)
  then show ?thesis using xs(1,2) N by (simp add: net_iterms_def del: conn_fields)
qed

lemma net_bterms_visits:
  assumes ok: "netlist_ok s" and N: "dbTable_getPtr (nl_nets s) n = Some N"
  shows "\<exists>bs. net_bterms n s = (Inr bs, s) \<and> distinct bs \<and> set bs = {b. \<exists>m x p. cn_bterms (conn s) b = Some (n, m, x, p)}"
proof -
  obtain xs where xs: "follow btm_next (nl_bterms s) (length (tbl_slots (nl_bterms s))) (nt_bterms N) = Inr xs" "distinct xs"
    "set xs = {t. \<exists>a. dbTable_getPtr (nl_bterms s) t = Some a \<and> btm_net a = n}"
    by (rule follow_list [OF netlist_okD(4) [OF ok] netlist_okD(8) [OF ok] see_eq [OF N, of nt_bterms]]) (rule that)
  have "set xs = {b. \<exists>m x p. cn_bterms (conn s) b = Some (n, m, x, p)}"
    unfolding xs(3) using bterm_facts(1) [OF ok] by (auto elim!: btermE simp del: conn_fields)
  then show ?thesis using xs(1,2) N by (simp add: net_bterms_def del: conn_fields)
qed

lemma net_bterms_all:
  assumes ok: "netlist_ok s" and r: "net_bterms n s = (Inr bs, t)"
  shows "t = s \<and> (\<forall>b m x p. cn_bterms (conn s) b = Some (n, m, x, p) \<longrightarrow> b \<in> set bs)"
proof -
  obtain N where N: "dbTable_getPtr (nl_nets s) n = Some N"
    using r by (cases "dbTable_getPtr (nl_nets s) n") (simp_all add: net_bterms_def)
  obtain bs' where bs': "net_bterms n s = (Inr bs', s)" "set bs' = {b. \<exists>m x p. cn_bterms (conn s) b = Some (n, m, x, p)}"
    using net_bterms_visits [OF ok N] by (elim exE conjE) (rule that)
  have "t = s" "bs = bs'" using r bs'(1) by simp_all
  then show ?thesis using bs'(2) by blast
qed

lemma connect_each:
  assumes "netlist_ok s" "n \<noteq> 0" "n \<noteq> k" "step_each (\<lambda>b. dbBTerm_connect b n) bs s = (Inr (), t)"
    and "\<forall>b m x p. cn_bterms (conn s) b = Some (k, m, x, p) \<longrightarrow> b \<in> set bs"
  shows "\<forall>b m x p. cn_bterms (conn t) b \<noteq> Some (k, m, x, p)"
  using assms
proof (induction bs arbitrary: s)
  case Nil
  then show ?case by (simp del: conn_fields)
next
  case (Cons b bs)
  obtain u where u: "dbBTerm_connect b n s = (Inr (), u)" "step_each (\<lambda>b. dbBTerm_connect b n) bs u = (Inr (), t)"
    using Cons.prems(4) by (auto simp: step_then_def split: prod.splits sum.splits)
  have "netlist_ok u" using tracked_ok [OF tracked_dbBTerm_connect [OF Cons.prems(1), of b n]] u(1) by simp
  moreover obtain m x p where c: "cn_bterms (conn u) = (cn_bterms (conn s))(b \<mapsto> (n, m, x, p))"
    using dbBTerm_connect_result [OF Cons.prems(1,2) u(1)] by blast
  have "\<forall>b m x p. cn_bterms (conn u) b = Some (k, m, x, p) \<longrightarrow> b \<in> set bs"
    unfolding c using Cons.prems(3,5) by (auto simp del: conn_fields)
  ultimately show ?case using Cons.IH Cons.prems(2,3) u(2) by blast
qed

lemma tracked_merge:
  assumes ok: "netlist_ok s" and n: "n \<noteq> 0" "n \<noteq> k"
  shows "tracked s (snd (dbNet_mergeNet n k s))"
proof -
  have its: "\<exists>r. net_iterms k s = (r, s)" and bts: "\<And>t. \<exists>r. net_bterms k t = (r, t)" for s
    by (simp_all add: net_iterms_def net_bterms_def step_then_def get_obj_def split: option.split)
  have it: "netlist_ok s \<Longrightarrow> tracked s (snd (net_iterms k s))" for s using its [of s] tracked_refl by fastforce
  have bt: "netlist_ok s \<Longrightarrow> tracked s (snd (net_bterms k s))" for s using bts [of s] tracked_refl by fastforce
  show ?thesis
    unfolding dbNet_mergeNet_def
  proof (rule tracked_then [where m = "net_iterms k", OF it [OF ok]])
    fix "is" s1
    assume s1: "net_iterms k s = (Inr is, s1)"
    then have ok1: "netlist_ok s1" using its [of s] ok by fastforce
    have e1: "tracked s1 (snd (step_each (\<lambda>i. dbITerm_connect i n) is s1))"
      by (rule tracked_each [OF ok1]) (rule tracked_connect)
    show "tracked s1 (snd (step_then (step_each (\<lambda>i. dbITerm_connect i n) is) (\<lambda>_. step_then (net_bterms k) (\<lambda>bterms.
        step_then (step_each (\<lambda>b. dbBTerm_connect b n) bterms) (\<lambda>_. dbNet_destroy k))) s1))"
    proof (rule tracked_then [where m = "step_each (\<lambda>i. dbITerm_connect i n) is", OF e1])
      fix u s2
      assume "step_each (\<lambda>i. dbITerm_connect i n) is s1 = (Inr u, s2)"
      then have ok2: "netlist_ok s2" using tracked_ok [OF e1] by simp
      show "tracked s2 (snd (step_then (net_bterms k) (\<lambda>bterms.
          step_then (step_each (\<lambda>b. dbBTerm_connect b n) bterms) (\<lambda>_. dbNet_destroy k)) s2))"
      proof (rule tracked_then [where m = "net_bterms k", OF bt [OF ok2]])
        fix bs s3
        assume s3: "net_bterms k s2 = (Inr bs, s3)"
        note all = net_bterms_all [OF ok2 s3]
        have e3: "tracked s3 (snd (step_each (\<lambda>b. dbBTerm_connect b n) bs s3))"
          by (rule tracked_each) (use all ok2 tracked_dbBTerm_connect in simp_all)
        show "tracked s3 (snd (step_then (step_each (\<lambda>b. dbBTerm_connect b n) bs) (\<lambda>_. dbNet_destroy k) s3))"
        proof (rule tracked_then [where m = "step_each (\<lambda>b. dbBTerm_connect b n) bs", OF e3])
          fix v s4
          assume s4: "step_each (\<lambda>b. dbBTerm_connect b n) bs s3 = (Inr v, s4)"
          have ok4: "netlist_ok s4" using tracked_ok [OF e3] s4 by simp
          have none: "\<forall>b m x p. cn_bterms (conn s4) b \<noteq> Some (k, m, x, p)"
            by (rule connect_each [of s3 n k bs]) (use all ok2 n s4 in \<open>simp_all del: conn_fields\<close>)
          show "tracked s4 (snd (dbNet_destroy k s4))"
            by (rule tracked_destroy [OF ok4]) (use none heads_0_iff(2) [OF ok4] in blast)
        qed
      qed
    qed
  qed
qed

end
