(* ===== verification/NetEco.thy ===== *)
theory NetEco
  imports NetTracked
begin

text \<open>
  ECOs as a whole. An ECO that is undone leaves the netlist as it was, whatever operations it ran and wherever they stopped; a nested ECO
  that is committed is undone with the one around it. \<open>reversible\<close> names the calls for which this holds, and the last section has the journal
  that is played forwards.
\<close>

section \<open>What can be undone\<close>

text \<open>
  The code does not undo the rest: the creation and the destruction of a bterm, also by the destruction of its net; \<^verbatim>\<open>setDoNotTouch\<close>, which writes
  nothing to the journal, and \<^verbatim>\<open>setNonDefaultRule\<close>, which writes the wrong id; module nets of instances that must not be touched, which the code refuses too late;
  a second net of the same name, and a net that swaps names with itself.
\<close>

definition touchable :: "nat \<Rightarrow> netlist \<Rightarrow> bool" where
  "touchable i s \<longleftrightarrow>
     (case dbTable_getPtr (nl_iterms s) i of
        None \<Rightarrow> True
      | Some iterm \<Rightarrow> (case dbTable_getPtr (nl_insts s) (itm_inst iterm) of None \<Rightarrow> True | Some inst \<Rightarrow> \<not> ins_dont_touch inst))"

definition no_bterms :: "nat \<Rightarrow> netlist \<Rightarrow> bool" where
  "no_bterms n s \<longleftrightarrow> (case dbTable_getPtr (nl_nets s) n of None \<Rightarrow> True | Some net \<Rightarrow> nt_bterms net = 0)"

primrec reversible :: "edit \<Rightarrow> netlist \<Rightarrow> bool" where
  "reversible (ITermConnect i n) s = True"
| "reversible (ITermConnectModNet i m) s = touchable i s"
| "reversible (ITermConnectBoth i n m) s = touchable i s"
| "reversible (ITermDisconnect i) s = True"
| "reversible (ITermDisconnectDbNet i) s = True"
| "reversible (ITermDisconnectDbModNet i) s = touchable i s"
| "reversible (BTermConnect b n) s = True"
| "reversible (BTermConnectModNet b m) s = True"
| "reversible (BTermConnectBoth b n m) s = True"
| "reversible (BTermDisconnect b) s = True"
| "reversible (BTermDisconnectDbNet b) s = True"
| "reversible (BTermDisconnectDbModNet b) s = True"
| "reversible (BTermCreate n name) s = False"
| "reversible (BTermDestroy b) s = False"
| "reversible (NetCreate name skip) s = (c_name name \<and> \<not> (skip \<and> has_net s name))"
| "reversible (NetDestroy n) s = no_bterms n s"
| "reversible (NetRename n name) s = c_name name"
| "reversible (NetSwapNames n source) s = (n \<noteq> source)"
| "reversible (NetMerge n in_net) s = (n \<noteq> 0 \<and> n \<noteq> in_net)"
| "reversible (NetSetFlag f n v) s = (f \<noteq> dont_touch)"
| "reversible (NetSetSigType n v) s = True"
| "reversible (NetSetWireType n v) s = True"
| "reversible (NetSetNonDefaultRule n rule) s = False"

primrec reversible_run :: "edit list \<Rightarrow> netlist \<Rightarrow> bool" where
  "reversible_run [] s = True"
| "reversible_run (e # es) s = (reversible e s \<and> reversible_run es (snd (run_edit e s)))"

lemma touchable_inst: "touchable i s \<Longrightarrow> iterm_inst (conn s) i \<noteq> Some True"
  by (auto simp: touchable_def iterm_inst_def conn_see_def iterm_view_def split: option.splits)

lemma tracked_connect_both:
  assumes ok: "netlist_ok s" and i: "touchable i s"
  shows "tracked s (snd (dbITerm_connect_both i n m s))"
  unfolding dbITerm_connect_both_def
proof (rule tracked_then)
  show one: "tracked s (snd (dbITerm_connect_modnet i m s))" by (rule tracked_connect_modnet [OF ok touchable_inst [OF i]])
  fix u t
  assume "dbITerm_connect_modnet i m s = (Inr u, t)"
  then have "netlist_ok t" using tracked_ok [OF one] by simp
  then show "tracked t (snd (dbITerm_connect i n t))" by (rule tracked_connect)
qed

lemma tracked_bterm_connect_both:
  assumes ok: "netlist_ok s"
  shows "tracked s (snd (dbBTerm_connect_both b n m s))"
  unfolding dbBTerm_connect_both_def
proof (rule tracked_then)
  show one: "tracked s (snd (dbBTerm_connect b n s))" by (rule tracked_dbBTerm_connect [OF ok])
  fix u t
  assume "dbBTerm_connect b n s = (Inr u, t)"
  then have "netlist_ok t" using tracked_ok [OF one] by simp
  then show "tracked t (snd (dbBTerm_connect_modnet b m t))" by (rule tracked_dbBTerm_connect_modnet)
qed

lemmas flag_setters = dbNet_setSpef_def dbNet_setSelect_def dbNet_setMark_def dbNet_setMark_1_def dbNet_setWireOrdered_def
  dbNet_setDisconnected_def dbNet_setExtracted_def dbNet_setRCgraph_def dbNet_setSpecial_def dbNet_clearSpecial_def
  dbNet_setWildConnected_def dbNet_clearWildConnected_def dbNet_setWireAltered_def dbNet_setSigType_def dbNet_setWireType_def

lemma tracked_setFlag: "netlist_ok s \<Longrightarrow> f \<noteq> dont_touch \<Longrightarrow> tracked s (snd (dbNet_setFlag f n v s))"
  by (cases f) (simp_all add: flag_setters tracked_set_net_flags tracked_refl)

lemmas tracked_ops = tracked_connect tracked_connect_modnet tracked_connect_both tracked_disconnect tracked_disconnectDbNet
  tracked_disconnectDbModNet tracked_dbBTerm_connect tracked_dbBTerm_connect_modnet tracked_bterm_connect_both
  tracked_dbBTerm_disconnect tracked_dbBTerm_disconnectDbNet tracked_bterm_disconnectModNet(1)
  tracked_drop [where m = "dbNet_create name skip" for name skip, OF tracked_create] tracked_destroy tracked_drop [where m = "dbNet_rename n name" for n name, OF tracked_rename] tracked_swapNetNames tracked_merge tracked_set_net_flags
  tracked_setFlag

lemma tracked_edit: "netlist_ok s \<Longrightarrow> reversible e s \<Longrightarrow> tracked s (snd (run_edit e s))"
  by (cases e)
    (auto simp: dbBTerm_disconnectDbModNet_def dbNet_setSigType_def dbNet_setWireType_def no_bterms_def
      dest: touchable_inst intro!: tracked_ops)

lemma tracked_edits: "netlist_ok s \<Longrightarrow> reversible_run es s \<Longrightarrow> tracked s (run_edits es s)"
proof (induction es arbitrary: s)
  case Nil
  then show ?case by (simp add: run_edits_def tracked_refl)
next
  case (Cons e es)
  have one: "tracked s (snd (run_edit e s))" using Cons.prems by (simp add: tracked_edit)
  have "tracked (snd (run_edit e s)) (run_edits es (snd (run_edit e s)))"
    using Cons.IH [OF tracked_ok [OF one]] Cons.prems(2) by simp
  then show ?case using tracked_trans [OF one] by (simp add: run_edits_def)
qed

section \<open>ECOs\<close>

definition eco_bytes :: "netlist \<Rightarrow> byte list" where
  "eco_bytes s = (case nl_journal s of None \<Rightarrow> [] | Some j \<Rightarrow> jl_data (jn_log j))"

lemma beginEco_ok:
  assumes "netlist_ok s"
  shows "netlist_ok (beginEco s)" "conn (beginEco s) = conn s" "nl_nets (beginEco s) = nl_nets s"
    "nl_journal (beginEco s) = Some (mk_dbJournal (nl_journal_check s))" "nl_journal_check (beginEco s) = nl_journal_check s"
    "nl_journal_stack (beginEco s) = (case nl_journal s of None \<Rightarrow> nl_journal_stack s | Some j \<Rightarrow> j # nl_journal_stack s)"
  using assms
  by (auto simp: beginEco_def endEco_def Let_def netlist_ok_def tables_ok_def hashes_ok_def iterm_lists_ok_def bterm_lists_ok_def
      journal_ready_def conn_def mk_dbJournal_def split: option.split)

text \<open>Undoing a journal that holds given actions.\<close>

lemma undo_tracked:
  assumes u: "undoable es s s'" and g: "\<forall>e \<in> set es. good_entry e" and j: "journal_of False es j" and small: "small_log (jl_data (jn_log j))"
    and ok: "netlist_ok t" and c: "conn t = conn s'" "nl_nets t = nl_nets s'" and nj: "nl_journal t = None"
  shows "\<exists>t'. undo_log undo_action (jn_log j) t = Some (Inr (), t') \<and> netlist_ok t' \<and> logged t [] t' \<and> conn t' = conn s"
proof -
  have jd: "jl_data (jn_log j) = log_bytes False 0 es" "jl_debug (jn_log j) = False" using j by (simp_all add: journal_of_def)
  have run: "undo_log undo_action (jn_log j) t = Some (run_all (map undo_entry (rev es)) t)"
    by (rule undoing.undo_log_actions [OF g _ jd]) (use small jd(1) in simp)
  have "ids.room (nl_nets s') (nl_nets t)" unfolding c(2) [symmetric] by (rule ids.room_refl [OF netlist_okD(1) [OF ok]])
  then show ?thesis using u ok c(1) nj run unfolding undoable_def by fastforce
qed

lemma netlist_ok_no_journal: "netlist_ok s \<Longrightarrow> netlist_ok (s\<lparr>nl_journal := None\<rparr>)"
  by (rule netlist_ok_journal) (simp_all add: journal_ready_def)

lemma netlist_ok_stack:
  "netlist_ok s \<Longrightarrow> netlist_ok (s\<lparr>nl_journal := None, nl_journal_stack := js\<rparr>)" "conn (s\<lparr>nl_journal_stack := js\<rparr>) = conn s"
  by (simp_all add: netlist_ok_def tables_ok_def hashes_ok_def iterm_lists_ok_def bterm_lists_ok_def journal_ready_def conn_def)

text \<open>The journal after a run of edits that began with a new one.\<close>

lemma eco_run:
  assumes ok: "netlist_ok s" and nd: "\<not> nl_journal_check s" and rev: "reversible_run es (beginEco s)"
  obtains j xs where "nl_journal (run_edits es (beginEco s)) = Some j" "journal_of False xs j" "\<forall>e \<in> set xs. good_entry e"
    "undoable xs s (run_edits es (beginEco s))" "netlist_ok (run_edits es (beginEco s))"
    "nl_journal_stack (run_edits es (beginEco s)) = nl_journal_stack (beginEco s)" "\<not> nl_journal_check (run_edits es (beginEco s))"
proof -
  note b = beginEco_ok [OF ok]
  have t: "tracked (beginEco s) (run_edits es (beginEco s))" by (rule tracked_edits [OF b(1) rev])
  then obtain xs where xs: "logged (beginEco s) xs (run_edits es (beginEco s))" "\<forall>e \<in> set xs. good_entry e"
    "undoable xs (beginEco s) (run_edits es (beginEco s))" unfolding tracked_def by blast
  have "journal_of False [] (mk_dbJournal (nl_journal_check s))" using nd mk_dbJournal_of [of False] by simp
  then obtain j where j: "nl_journal (run_edits es (beginEco s)) = Some j" "journal_of False xs j"
    using xs(1) b(4) unfolding logged_def by fastforce
  from j xs(2) show ?thesis
    by (rule that) (use xs b tracked_ok [OF t] nd in \<open>simp_all add: undoable_def logged_def\<close>)
qed

lemma eco_undo:
  assumes ok: "netlist_ok s" and nd: "\<not> nl_journal_check s" and rev: "reversible_run es (beginEco s)"
    and small: "small_log (eco_bytes (run_edits es (beginEco s)))"
  shows "\<exists>t. undoEco (run_edits es (beginEco s)) = Some (Inr (), t) \<and> netlist_ok t \<and> conn t = conn s \<and> nl_journal t = None \<and>
    nl_journal_stack t = nl_journal_stack (beginEco s)"
proof -
  let ?s = "run_edits es (beginEco s)"
  obtain j xs where j: "nl_journal ?s = Some j" "journal_of False xs j" "\<forall>e \<in> set xs. good_entry e" "undoable xs s ?s" "netlist_ok ?s"
    "nl_journal_stack ?s = nl_journal_stack (beginEco s)" "\<not> nl_journal_check ?s" by (rule eco_run [OF ok nd rev])
  have "small_log (jl_data (jn_log j))" using small j(1) by (simp add: eco_bytes_def)
  then obtain t where "undo_log undo_action (jn_log j) (?s\<lparr>nl_journal := None\<rparr>) = Some (Inr (), t)" "netlist_ok t"
    "logged (?s\<lparr>nl_journal := None\<rparr>) [] t" "conn t = conn s"
    using undo_tracked [OF j(4,3,2) _ netlist_ok_no_journal [OF j(5)]] by auto
  then show ?thesis using j(1,6) by (auto simp: undoEco_def take_journal_def logged_def)
qed


lemma length_log_bytes: "length (log_bytes dbg base es) = length (log_bytes dbg base' es)"
proof (induction es arbitrary: base base')
  case (Cons e es)
  have "length (entry_bytes dbg base e) = length (entry_bytes dbg base' e)"
    by (rule trans [OF length_entry_bytes(1) length_entry_bytes(1) [symmetric]])
  then show ?case
    unfolding log_bytes.simps length_append using Cons.IH by (rule arg_cong2 [where f = "(+)"])
qed simp

text \<open>An ECO inside another one, committed: the journal goes to the end of the outer one, which is then undone as a whole.\<close>

lemma eco_nested:
  assumes ok: "netlist_ok s" and nd: "\<not> nl_journal_check s" and rev: "reversible_run es (beginEco s)"
    and s1: "s1 = run_edits es (beginEco s)" and rev': "reversible_run fs (beginEco s1)" and s2: "s2 = run_edits fs (beginEco s1)"
    and small: "small_log (eco_bytes s1 @ eco_bytes s2)" "small_log (eco_bytes s2)"
  shows "\<exists>s3 t. commitEco s2 = Some (Inr (), s3) \<and> nl_journal s3 = None \<and> conn s3 = conn s2 \<and>
    undoEco s3 = Some (Inr (), t) \<and> netlist_ok t \<and> conn t = conn s \<and> nl_journal_stack t = nl_journal_stack (beginEco s)"
proof -
  obtain j xs where j: "nl_journal s1 = Some j" "journal_of False xs j" "\<forall>e \<in> set xs. good_entry e" "undoable xs s s1" "netlist_ok s1"
    "nl_journal_stack s1 = nl_journal_stack (beginEco s)" "\<not> nl_journal_check s1"
    unfolding s1 by (rule eco_run [OF ok nd rev])
  obtain k ys where k: "nl_journal s2 = Some k" "journal_of False ys k" "\<forall>e \<in> set ys. good_entry e" "undoable ys s1 s2" "netlist_ok s2"
    "nl_journal_stack s2 = nl_journal_stack (beginEco s1)" "\<not> nl_journal_check s2"
    unfolding s2 by (rule eco_run [OF j(5,7) rev'])
  have jd: "jl_data (jn_log j) = log_bytes False 0 xs" "jl_debug (jn_log j) = False" "\<not> jn_start_action j"
    and kd: "jl_data (jn_log k) = log_bytes False 0 ys" "jl_debug (jn_log k) = False"
    using j(2) k(2) by (simp_all add: journal_of_def)
  have "small_log (log_bytes False 0 ys)" using small(2) k(1) kd(1) by (simp add: eco_bytes_def)
  then obtain l where l: "log_append (jn_log j) (jn_log k) = Some (Inr l)" "jl_data l = log_bytes False 0 (xs @ ys)" "jl_debug l = False"
    by (rule log_append_bytes [OF jd(1,2) kd])
  define m where "m = j\<lparr>jn_log := l\<rparr>"
  have m: "journal_of False (xs @ ys) m" using l jd(3) by (simp add: m_def journal_of_def)
  have stack: "nl_journal_stack s2 = j # nl_journal_stack (beginEco s)"
    using k(6) beginEco_ok(6) [OF j(5)] j(1,6) by simp
  let ?s3 = "s2\<lparr>nl_journal := None, nl_journal_stack := m # nl_journal_stack (beginEco s)\<rparr>"
  have commit: "commitEco s2 = Some (Inr (), ?s3)"
    using k(1) stack l(1) by (simp add: commitEco_def take_journal_def m_def)
  let ?s4 = "s2\<lparr>nl_journal := None, nl_journal_stack := nl_journal_stack (beginEco s)\<rparr>"
  have len: "length (log_bytes False 0 (xs @ ys)) = length (log_bytes False 0 xs) + length (log_bytes False 0 ys)"
    unfolding log_bytes_append using length_log_bytes [of False _ ys 0] by simp
  have sm: "small_log (jl_data (jn_log m))"
    using small(1) j(1) k(1) jd(1) kd(1) l(2) len by (simp add: m_def eco_bytes_def small_log_def)
  have g: "\<forall>e \<in> set (xs @ ys). good_entry e" using j(3) k(3) by auto
  have c4: "conn ?s4 = conn s2" "nl_nets ?s4 = nl_nets s2" "nl_journal ?s4 = None" by (simp_all add: conn_def)
  obtain t where t: "undo_log undo_action (jn_log m) ?s4 = Some (Inr (), t)" "netlist_ok t" "logged ?s4 [] t" "conn t = conn s"
    using undo_tracked [OF undoable_append [OF j(4) k(4)] g m sm netlist_ok_stack(1) [OF k(5)] c4] by blast
  have "undoEco ?s3 = Some (Inr (), t)" using t(1) by (simp add: undoEco_def take_journal_def)
  moreover have "conn ?s3 = conn s2" by (simp add: conn_def)
  ultimately show ?thesis using commit t by (auto simp: logged_def)
qed


section \<open>Actions that stop the undo\<close>

text \<open>The codes are those of the branches for other types of objects.\<close>

lemma undo_stops:
  "handles undo_action False False (kCreateObject, type_param dbBTermObj # ps) (step_fail (LogCritical 441))"
  "handles undo_action False False (kDeleteObject, type_param dbBTermObj # ps) (step_fail (LogCritical 417))"
  "handles undo_action False False (kUpdateField, type_param dbTechNonDefaultRuleObj # ps) (step_fail (LogCritical 445))"
  unfolding handles_def
  by (simp_all add: undo_createObject_def undo_deleteObject_def undo_updateField_def reading_simps stop_def del: param_bytes.simps)

lemma setNonDefaultRule_stops:
  assumes ok: "netlist_ok s" and nd: "\<not> nl_journal_check s" and rev: "reversible_run es (beginEco s)"
    and N: "dbTable_getPtr (nl_nets (run_edits es (beginEco s))) n = Some N"
    and small: "small_log (eco_bytes (run_edits (es @ [NetSetNonDefaultRule n (Some (r, b))]) (beginEco s)))"
  shows "\<exists>t. undoEco (run_edits (es @ [NetSetNonDefaultRule n (Some (r, b))]) (beginEco s)) = Some (Inl (LogCritical 445), t)"
proof -
  let ?s = "run_edits es (beginEco s)" and ?u = "run_edits (es @ [NetSetNonDefaultRule n (Some (r, b))]) (beginEco s)"
  obtain j xs where j: "nl_journal ?s = Some j" "journal_of False xs j" "\<forall>e \<in> set xs. good_entry e" "undoable xs s ?s" "netlist_ok ?s"
    "nl_journal_stack ?s = nl_journal_stack (beginEco s)" "\<not> nl_journal_check ?s" by (rule eco_run [OF ok nd rev])
  let ?ps = "[PUInt r, PInt 1, PUInt (nt_ndr N), PUInt r, PBool (get_flag block_rule N), PBool b]"
  let ?e = "(kUpdateField, type_param dbTechNonDefaultRuleObj # ?ps)"
  obtain j' where w: "write_action (fst ?e) (snd ?e) j = Inr j'" "journal_of False (xs @ [?e]) j'"
    using write_action_of [OF j(2)] by (metis prod.collapse)
  have u: "nl_journal ?u = Some j'"
    using N j(1) w(1) by (simp add: run_edits_def dbNet_setNonDefaultRule_def journal_def Let_def)
  have jd: "jl_data (jn_log j') = log_bytes False 0 (xs @ [?e])" "jl_debug (jn_log j') = False" using w(2) by (simp_all add: journal_of_def)
  have g: "\<forall>e \<in> set (xs @ [?e]). good_entry e" using j(3) undo_stops(3) by (auto simp: good_entry_def)
  have sm: "small_log (log_bytes False 0 (xs @ [?e]))" using small u jd(1) by (simp add: eco_bytes_def)
  have "undo_log undo_action (jn_log j') t = Some (Inl (LogCritical 445), t)" for t
    unfolding undoing.undo_log_actions [OF g sm jd] using handles_undo_entry [OF undo_stops(3)] by simp
  then show ?thesis using u by (simp add: undoEco_def take_journal_def)
qed

end
