(* ===== verification/NetRedo.thy ===== *)
theory NetRedo
  imports NetUndo
begin

text \<open>
  A journal played forwards (\<^verbatim>\<open>dbJournal::redo\<close>). \<open>records\<close> is the action that an operation writes, for the operations that redo
  repeats by calling them again. The locale \<open>journal_player\<close>, interpreted on the handlers of redo, turns the loop over a log of
  such actions into a run of these operations, which stops at the first error.
\<close>

definition redo_entry :: "entry \<Rightarrow> unit step" where
  "redo_entry e s =
     (case redo_action (fst e) (log_at False [] (params_bytes False (snd e))) s of
        (Inl er, s') \<Rightarrow> (Inl er, s') | (Inr _, s') \<Rightarrow> (Inr (), s'))"

definition replayed :: "entry \<Rightarrow> bool" where
  "replayed e \<longleftrightarrow> (\<exists>f. handles redo_action False True e f) \<and> fst e \<noteq> kEndAction"

lemma handles_redo_entry:
  assumes "handles redo_action False True e f"
  shows "redo_entry e = f"
proof
  fix s
  note h = assms [unfolded handles_def, THEN spec [of _ "[]"], THEN spec [of _ "[]"], THEN spec [of _ s], unfolded append_Nil append_Nil2]
  show "redo_entry e s = f s"
    using h by (auto simp: redo_entry_def split: prod.splits sum.splits)
qed

lemma handles_to_end: "handles h dbg True e f \<Longrightarrow> handles h dbg False e f"
  unfolding handles_def by (fastforce split: prod.splits sum.splits)

interpretation redoing: journal_player redo_action redo_entry False replayed
proof
  fix e
  assume "replayed e"
  then obtain f where f: "handles redo_action False True e f" "fst e \<noteq> kEndAction" by (auto simp: replayed_def)
  then show "handles redo_action False True e (redo_entry e) \<and> fst e \<noteq> kEndAction" by (simp add: handles_redo_entry)
  from f show "handles redo_action False False e (redo_entry e)" by (simp add: handles_redo_entry handles_to_end)
qed

fun records :: "edit \<Rightarrow> entry \<Rightarrow> bool" where
  "records (ITermConnect i n) e \<longleftrightarrow> new_id i \<and> new_id n \<and> n \<noteq> 0 \<and>
     e = (kConnectObject, [type_param dbITermObj, id_param i, id_param n, PInt 0])"
| "records (ITermConnectModNet i m) e \<longleftrightarrow> new_id i \<and> new_id m \<and> m \<noteq> 0 \<and>
     e = (kConnectObject, [type_param dbITermObj, id_param i, PInt 0, id_param m])"
| "records (ITermDisconnect i) e \<longleftrightarrow> new_id i \<and> (\<exists>n m. new_id n \<and> n \<noteq> 0 \<and> new_id m \<and> m \<noteq> 0 \<and>
     e = (kDisconnectObject, [type_param dbITermObj, id_param i, id_param n, id_param m]))"
| "records (ITermDisconnectDbNet i) e \<longleftrightarrow> new_id i \<and> (\<exists>n. new_id n \<and> n \<noteq> 0 \<and>
     e = (kDisconnectObject, [type_param dbITermObj, id_param i, id_param n, PInt 0]))"
| "records (ITermDisconnectDbModNet i) e \<longleftrightarrow> new_id i \<and> (\<exists>m. new_id m \<and> m \<noteq> 0 \<and>
     e = (kDisconnectObject, [type_param dbITermObj, id_param i, PInt 0, id_param m]))"
| "records (BTermDisconnectDbNet b) e \<longleftrightarrow> new_id b \<and> (\<exists>n. new_id n \<and> n \<noteq> 0 \<and>
     e = (kDisconnectObject, [type_param dbBTermObj, id_param b, id_param n, PUInt 0]))"
| "records (BTermDisconnectDbModNet b) e \<longleftrightarrow> new_id b \<and> (\<exists>m. new_id m \<and> m \<noteq> 0 \<and>
     e = (kDisconnectObject, [type_param dbBTermObj, id_param b, PUInt 0, id_param m]))"
| "records (BTermCreate n name) e \<longleftrightarrow> new_id n \<and> c_name name \<and>
     e = (kCreateObject, [type_param dbBTermObj, id_param n, PString (Some name)])"
| "records (BTermDestroy b) e \<longleftrightarrow> new_id b \<and> e = (kDeleteObject, [type_param dbBTermObj, id_param b])"
| "records (NetCreate name skip) e \<longleftrightarrow> \<not> skip \<and> c_name name \<and> (\<exists>n. new_id n \<and>
     e = (kCreateObject, [type_param dbNetObj, PString (Some name), id_param n]))"
| "records (NetDestroy n) e \<longleftrightarrow> new_id n \<and> (\<exists>name flags ndr. c_name name \<and>
     e = (kDeleteObject, [type_param dbNetObj, PString (Some name), id_param n, PUInt flags, PUInt ndr]))"
| "records (NetRename n name) e \<longleftrightarrow> new_id n \<and> c_name name \<and> (\<exists>old. c_name old \<and>
     e = (kUpdateField, [type_param dbNetObj, id_param n, PInt 6, PString (Some old), PString (Some name)]))"
| "records _ e \<longleftrightarrow> False"

lemma redo_connect:
  "new_id i \<Longrightarrow> new_id n \<Longrightarrow> n \<noteq> 0 \<Longrightarrow>
     handles redo_action False True (kConnectObject, [type_param dbITermObj, id_param i, id_param n, PInt 0]) (dbITerm_connect i n)"
  "new_id i \<Longrightarrow> new_id m \<Longrightarrow> m \<noteq> 0 \<Longrightarrow>
     handles redo_action False True (kConnectObject, [type_param dbITermObj, id_param i, PInt 0, id_param m]) (dbITerm_connect_modnet i m)"
  unfolding handles_def
  by (simp_all add: redo_connectObject_def reading_simps del: param_bytes.simps split: prod.split sum.split)

lemma redo_disconnect_iterm:
  "new_id i \<Longrightarrow> new_id n \<Longrightarrow> new_id m \<Longrightarrow> n \<noteq> 0 \<Longrightarrow> m \<noteq> 0 \<Longrightarrow>
     handles redo_action False True (kDisconnectObject, [type_param dbITermObj, id_param i, id_param n, id_param m]) (dbITerm_disconnect i)"
  "new_id i \<Longrightarrow> new_id n \<Longrightarrow> n \<noteq> 0 \<Longrightarrow>
     handles redo_action False True (kDisconnectObject, [type_param dbITermObj, id_param i, id_param n, PInt 0]) (dbITerm_disconnectDbNet i)"
  "new_id i \<Longrightarrow> new_id m \<Longrightarrow> m \<noteq> 0 \<Longrightarrow>
     handles redo_action False True (kDisconnectObject, [type_param dbITermObj, id_param i, PInt 0, id_param m]) (dbITerm_disconnectDbModNet i)"
  unfolding handles_def
  by (simp_all add: redo_disconnectObject_def reading_simps del: param_bytes.simps split: prod.split sum.split)

lemma redo_disconnect_bterm:
  "new_id b \<Longrightarrow> new_id n \<Longrightarrow> n \<noteq> 0 \<Longrightarrow>
     handles redo_action False True (kDisconnectObject, [type_param dbBTermObj, id_param b, id_param n, PUInt 0]) (dbBTerm_disconnectDbNet b)"
  "new_id b \<Longrightarrow> new_id m \<Longrightarrow> m \<noteq> 0 \<Longrightarrow>
     handles redo_action False True (kDisconnectObject, [type_param dbBTermObj, id_param b, PUInt 0, id_param m]) (dbBTerm_disconnectDbModNet b)"
  unfolding handles_def
  by (simp_all add: redo_disconnectObject_def reading_simps del: param_bytes.simps split: prod.split sum.split)

lemma redo_bterm:
  "new_id n \<Longrightarrow> c_name name \<Longrightarrow>
     handles redo_action False True (kCreateObject, [type_param dbBTermObj, id_param n, PString (Some name)]) (drop_result (dbBTerm_create n name))"
  "new_id b \<Longrightarrow> handles redo_action False True (kDeleteObject, [type_param dbBTermObj, id_param b]) (dbBTerm_destroy b)"
  unfolding handles_def
  by (simp_all add: redo_createObject_def redo_deleteObject_def reading_simps drop_result_def step_then_def c_name_id
      del: param_bytes.simps split: prod.split sum.split)

lemma redo_net:
  "new_id n \<Longrightarrow> c_name name \<Longrightarrow>
     handles redo_action False True (kCreateObject, [type_param dbNetObj, PString (Some name), id_param n]) (drop_result (dbNet_create name False))"
  "new_id n \<Longrightarrow> c_name name \<Longrightarrow>
     handles redo_action False True (kDeleteObject, [type_param dbNetObj, PString (Some name), id_param n, PUInt flags, PUInt ndr]) (dbNet_destroy n)"
  unfolding handles_def
  by (simp_all add: redo_createObject_def redo_deleteObject_def reading_simps drop_result_def step_then_def c_name_id
      del: param_bytes.simps split: prod.split sum.split)

lemma redo_net_name:
  assumes "new_id n" "c_name old" "c_name new"
  shows "handles redo_action False True (kUpdateField, [type_param dbNetObj, id_param n, PInt 6, PString (Some old), PString (Some new)])
     (drop_result (dbNet_rename n new))"
  unfolding handles_def
proof (intro allI)
  fix pre rest s
  let ?e = "(kUpdateField, [type_param dbNetObj, id_param n, PInt 6, PString (Some old), PString (Some new)])"
  show "case redo_action (fst ?e) (log_at False pre (params_bytes False (snd ?e) @ rest)) s of
      (Inl er, s') \<Rightarrow> drop_result (dbNet_rename n new) s = (Inl er, s')
    | (Inr l, s') \<Rightarrow> drop_result (dbNet_rename n new) s = (Inr (), s') \<and> jl_data l = pre @ params_bytes False (snd ?e) @ rest \<and>
        jl_debug l = False \<and> (True \<longrightarrow> jl_idx l = int (length pre + length (params_bytes False (snd ?e))))"
  proof (cases "dbTable_getPtr (nl_nets s) n")
    case None
    then have "drop_result (dbNet_rename n new) s = (Inl BadId, s)" by (simp add: drop_result_def dbNet_rename_def)
    with None assms show ?thesis
      by (simp add: redo_updateField_def redo_updateNetField_def reading_simps del: param_bytes.simps)
  next
    case (Some N)
    with assms show ?thesis
      by (simp add: redo_updateField_def redo_updateNetField_def reading_simps pop_field_at fits_int32_iff c_name_id drop_result_def step_then_def
          del: param_bytes.simps split: prod.split sum.split)
  qed
qed

lemmas redo_handles = redo_connect redo_disconnect_iterm redo_disconnect_bterm redo_bterm redo_net redo_net_name

lemma records_handles: "records ed e \<Longrightarrow> handles redo_action False True e (run_edit ed) \<and> fst e \<noteq> kEndAction"
  by (induction ed e rule: records.induct) (auto intro: redo_handles)

lemma records_replayed: "records ed e \<Longrightarrow> replayed e \<and> redo_entry e = run_edit ed"
  using records_handles handles_redo_entry unfolding replayed_def by blast

lemma redo_repeats:
  assumes r: "list_all2 records es xs" and j: "journal_of False xs j" and small: "small_log (jl_data (jn_log j))"
  shows "redo_journal j s = Some (run_all (map run_edit es) s)"
proof -
  have jd: "jl_data (jn_log j) = log_bytes False 0 xs" "jl_debug (jn_log j) = False" using j by (simp_all add: journal_of_def)
  have "(\<forall>e \<in> set xs. replayed e) \<and> map redo_entry xs = map run_edit es"
    using r by (induction rule: list_all2_induct) (auto dest: records_replayed)
  then show ?thesis
    using redoing.redo_log_actions [of xs "jn_log j" s] jd small by (simp add: redo_journal_def)
qed

end
