(* ===== verification/NetDemo.thy ===== *)
theory NetDemo
  imports NetEco NetRedo
begin

text \<open>
  A small netlist: two instances, the second of which must not be touched, an iterm of each and a third one of the first, a bterm, a module net,
  and two nets with nothing on them. It shows that the theorems apply, and where the code does not undo or redo what it wrote.
\<close>

definition demo_iterm :: "nat \<Rightarrow> dbITerm" where
  "demo_iterm k = \<lparr>itm_net = 0, itm_mnet = 0, itm_inst = k, itm_next = 0, itm_prev = 0, itm_next_mod = 0, itm_prev_mod = 0\<rparr>"

definition demo_modnet :: dbModNet where
  "demo_modnet = \<lparr>mnt_iterms = 0, mnt_bterms = 0\<rparr>"

definition demo_bterm :: dbBTerm where
  "demo_bterm = mk_dbBTerm\<lparr>btm_name := ''p''\<rparr>"

definition demo_net :: "string \<Rightarrow> dbNet" where
  "demo_net name = mk_dbNet\<lparr>nt_name := name\<rparr>"

definition put_all :: "'a list \<Rightarrow> 'a dbTable" where
  "put_all xs = fold (\<lambda>a t. snd (dbTable_create t a)) xs (mk_dbTable 4)"

definition demo_netlist :: "bool \<Rightarrow> netlist" where
  "demo_netlist check =
     \<lparr>nl_nets = put_all [demo_net ''a'', demo_net ''b''], nl_modnets = put_all [demo_modnet], nl_iterms = put_all [demo_iterm 1, demo_iterm 2, demo_iterm 1],
      nl_bterms = put_all [demo_bterm], nl_insts = put_all [\<lparr>ins_dont_touch = False\<rparr>, \<lparr>ins_dont_touch = True\<rparr>],
      nl_net_hash = [2, 1], nl_bterm_hash = [1], nl_parent_inst = False, nl_journal = None, nl_journal_stack = [], nl_journal_check = check\<rparr>"

lemma put_all_inv: "tbl_inv (put_all xs)"
proof -
  have "tbl_inv (snd (dbTable_create t a))" if "tbl_inv t" for t :: "'a dbTable" and a
    using tbl.create [OF that, of a] by (metis prod.collapse)
  then have "tbl_inv t \<Longrightarrow> tbl_inv (fold (\<lambda>a t. snd (dbTable_create t a)) xs t)" for t
    by (induction xs arbitrary: t) simp_all
  then show ?thesis unfolding put_all_def by (simp add: mk_dbTable_inv)
qed

text \<open>The tables of the demo have one page.\<close>

definition page :: "'a dbTable \<Rightarrow> 'a option list" where
  "page t = (if tbl_page_size t = 4 \<and> tbl_page_cnt t = 1 then map (dbTable_getPtr t) [1, 2, 3] else [])"

lemma getPtr_page:
  assumes "page t = [a, b, c]"
  shows "dbTable_getPtr t = (\<lambda>i. if i = 1 then a else if i = 2 then b else if i = 3 then c else None)"
proof
  fix i :: nat
  have t: "tbl_page_size t = 4" "tbl_page_cnt t = 1" "map (dbTable_getPtr t) [1, 2, 3] = [a, b, c]"
    using assms by (simp_all add: page_def split: if_splits)
  have "i = 0 \<or> i = 1 \<or> i = 2 \<or> i = 3 \<or> 4 \<le> i" by linarith
  moreover have "dbTable_getPtr t i = None" if "4 \<le> i"
    using that t(1,2) by (simp add: dbTable_getPtr_def div_eq_0_iff)
  ultimately show "dbTable_getPtr t i = (if i = 1 then a else if i = 2 then b else if i = 3 then c else None)"
    using t(3) by auto
qed

lemma demo_pages:
  "page (put_all [demo_modnet]) = [Some demo_modnet, None, None]"
  "page (put_all [demo_iterm 1, demo_iterm 2, demo_iterm 1]) = [Some (demo_iterm 1), Some (demo_iterm 2), Some (demo_iterm 1)]"
  "page (put_all [demo_net ''a'', demo_net ''b'']) = [Some (demo_net ''a''), Some (demo_net ''b''), None]"
  "page (put_all [demo_bterm]) = [Some (demo_bterm), None, None]"
  "page (put_all [\<lparr>ins_dont_touch = False\<rparr>, \<lparr>ins_dont_touch = True\<rparr>]) = [Some \<lparr>ins_dont_touch = False\<rparr>, Some \<lparr>ins_dont_touch = True\<rparr>, None]"
  by code_simp+

lemma lists_ok_free:
  assumes "\<And>t a. g t = Some a \<Longrightarrow> own a = 0" "\<And>n h. heads n = Some h \<Longrightarrow> h = 0" "heads 0 = None"
  shows "lists_ok own nx pv g heads"
  unfolding lists_ok_def
proof (intro conjI allI impI)
  fix n h
  assume n: "heads n = Some h"
  then have "n \<noteq> 0" using assms(3) by (rule_tac notI) simp
  then have "{t. \<exists>a. g t = Some a \<and> own a = n} = {}" using assms(1) by auto
  then show "\<exists>xs. links nx pv g h 0 xs \<and> distinct xs \<and> set xs = {t. \<exists>a. g t = Some a \<and> own a = n}"
    using assms(2) [OF n] by (intro exI [of _ "[]"]) simp
qed (use assms in auto)

lemma demo_fields:
  "itm_net (demo_iterm k) = 0" "itm_mnet (demo_iterm k) = 0" "itm_inst (demo_iterm k) = k"
  "mnt_iterms demo_modnet = 0" "mnt_bterms demo_modnet = 0"
  "btm_net demo_bterm = 0" "btm_mnet demo_bterm = 0"
  "nt_iterms (demo_net name) = 0" "nt_bterms (demo_net name) = 0" "nt_name (demo_net name) = name"
  by (simp_all add: demo_iterm_def demo_modnet_def demo_bterm_def mk_dbBTerm_def demo_net_def mk_dbNet_def)

lemma demo_names: "c_name ''a''" "c_name ''b''"
  by code_simp+

lemmas demo_ptrs = demo_pages [THEN getPtr_page]

lemma demo_ok: "netlist_ok (demo_netlist check)"
proof -
  let ?s = "demo_netlist check"
  have "tables_ok ?s" by (simp add: tables_ok_def demo_netlist_def put_all_inv)
  moreover have "conn_inv (conn ?s)"
    by (auto simp: conn_inv_def distinct_names_def conn_def conn_see_def demo_netlist_def demo_ptrs iterm_view_def bterm_view_def
        net_view_def demo_fields new_id_def demo_names simp del: One_nat_def split: if_splits)
  moreover have "hashes_ok ?s" by (auto simp: hashes_ok_def demo_netlist_def demo_ptrs split: if_splits)
  moreover have "iterm_lists_ok ?s"
    unfolding iterm_lists_ok_def
    by (intro conjI lists_ok_free) (auto simp: conn_see_def demo_netlist_def demo_ptrs demo_fields simp del: One_nat_def split: if_splits)
  moreover have "bterm_lists_ok ?s"
    unfolding bterm_lists_ok_def
    by (intro conjI lists_ok_free) (auto simp: conn_see_def demo_netlist_def demo_ptrs demo_fields simp del: One_nat_def split: if_splits)
  moreover have "journal_ready ?s" by (simp add: journal_ready_def demo_netlist_def)
  ultimately show ?thesis by (simp add: netlist_ok_def)
qed

text \<open>Edits that can be undone; the second throws, as the instance of the iterm must not be touched.\<close>

definition demo_edits :: "edit list" where
  "demo_edits = [ITermConnect 1 1, ITermConnect 2 1]"

lemma demo_no_check: "\<not> nl_journal_check (demo_netlist False)"
  by (simp add: demo_netlist_def)

lemma demo_reversible: "reversible_run demo_edits s"
  by (simp add: demo_edits_def)

lemma small_logI: "int (length xs) < 2 ^ 32 \<Longrightarrow> small_log xs"
  by (simp add: small_log_def)

lemma demo_small: "small_log (eco_bytes (run_edits demo_edits (beginEco (demo_netlist False))))"
  by (rule small_logI) code_simp

lemma demo_net_there: "\<exists>N. dbTable_getPtr (nl_nets (run_edits demo_edits (demo_netlist False))) 1 = Some N"
proof -
  have "dbTable_getPtr (nl_nets (run_edits demo_edits (demo_netlist False))) 1 \<noteq> None" by code_simp
  then show ?thesis by auto
qed

text \<open>A rule of a net, which writes 38 bytes.\<close>

lemma demo_nets: "nl_nets (demo_netlist check) = put_all [demo_net ''a'', demo_net ''b'']"
  by (simp add: demo_netlist_def)

lemma demo_net_1: "dbTable_getPtr (nl_nets (run_edits [] (beginEco (demo_netlist False)))) 1 = Some (demo_net ''a'')"
  by (simp add: run_edits_def beginEco_ok(3) [OF demo_ok] demo_nets demo_ptrs)

lemma demo_rule_small: "small_log (eco_bytes (run_edits ([] @ [NetSetNonDefaultRule 1 (Some (7, True))]) (beginEco (demo_netlist False))))"
proof -
  let ?ps = "[type_param dbTechNonDefaultRuleObj, PUInt 7, PInt 1, PUInt (nt_ndr (demo_net ''a'')), PUInt 7,
    PBool (get_flag block_rule (demo_net ''a'')), PBool True]"
  obtain j where j: "write_action kUpdateField ?ps (mk_dbJournal False) = Inr j" "journal_of False ([] @ [(kUpdateField, ?ps)]) j"
    by (rule write_action_of [OF mk_dbJournal_of])
  have b: "nl_journal (beginEco (demo_netlist False)) = Some (mk_dbJournal False)"
    using beginEco_ok(4) [OF demo_ok, of False] demo_no_check by simp
  have "nl_journal (run_edits ([] @ [NetSetNonDefaultRule 1 (Some (7, True))]) (beginEco (demo_netlist False))) = Some j"
    using demo_net_1 j(1) b by (simp add: run_edits_def dbNet_setNonDefaultRule_def journal_def Let_def)
  moreover have "length (jl_data (jn_log j)) \<le> 100"
    using j(2) by (simp add: journal_of_def entry_bytes_def params_bytes_def type_param_def tag_def)
  ultimately show ?thesis by (simp add: eco_bytes_def small_log_def)
qed

text \<open>An ECO within it.\<close>

definition demo_inner :: netlist where
  "demo_inner = run_edits [BTermConnect 1 2] (beginEco (run_edits demo_edits (beginEco (demo_netlist False))))"

lemma demo_inner_small:
  "small_log (eco_bytes (run_edits demo_edits (beginEco (demo_netlist False))) @ eco_bytes demo_inner)" "small_log (eco_bytes demo_inner)"
  by (rule small_logI, code_simp)+

text \<open>A journal with an action of each of two operations.\<close>

definition demo_journal :: dbJournal where
  "demo_journal = mk_dbJournal False\<lparr>jn_log := mk_dbJournalLog False\<lparr>jl_data := log_bytes False 0
     [(kConnectObject, [type_param dbITermObj, id_param 1, id_param 1, PInt 0]),
      (kDisconnectObject, [type_param dbITermObj, id_param 1, id_param 1, PInt 0])]\<rparr>\<rparr>"

lemma demo_journal_of: "journal_of False
     [(kConnectObject, [type_param dbITermObj, id_param 1, id_param 1, PInt 0]),
      (kDisconnectObject, [type_param dbITermObj, id_param 1, id_param 1, PInt 0])] demo_journal"
  by (simp add: journal_of_def demo_journal_def mk_dbJournal_def mk_dbJournalLog_def)

lemma demo_journal_small: "small_log (jl_data (jn_log demo_journal))"
  by (rule small_logI) code_simp

text \<open>Where else the journal does not undo or redo what it wrote: the tag of the 0 for the module net, the destruction
  of a bterm, a non-default rule that is cleared, a setter without a journal, and the handlers of redo that read too little.\<close>

lemma journal_gaps:
  "map_option fst (undoEco (run_edits [ITermConnect 1 1] (beginEco (demo_netlist True)))) = Some (Inl (LogCritical 426)) \<and>
   map_option fst (undoEco (run_edits [BTermDestroy 1] (beginEco (demo_netlist False)))) = Some (Inl (LogCritical 417)) \<and>
   fst (run_edit (NetSetNonDefaultRule 1 None) (beginEco (demo_netlist False))) = Inl BadId \<and>
   map_option (\<lambda>(r, s). (r, map_option (get_flag dont_touch) (dbTable_getPtr (nl_nets s) 1)))
     (undoEco (run_edits [NetSetFlag dont_touch 1 True] (beginEco (demo_netlist False)))) = Some (Inr (), Some True) \<and>
   map_option (\<lambda>j. map_option fst (redo_journal j (demo_netlist False)))
     (nl_journal (run_edits [BTermConnect 1 1] (beginEco (demo_netlist False)))) = Some (Some (Inl (LogCritical 419))) \<and>
   map_option (\<lambda>j. map_option fst (redo_journal j (demo_netlist False)))
     (nl_journal (run_edits [NetSwapNames 1 2] (beginEco (demo_netlist False)))) = Some (Some (Inl (LogCritical 419)))"
  by (intro conjI) code_simp+

text \<open>Operations that leave more or less behind than they mean to.\<close>

lemma half_done_operations:
  "(let (r, s) = run_edit (ITermConnectModNet 2 1) (demo_netlist False)
    in (r, map_option itm_mnet (dbTable_getPtr (nl_iterms s) 2), map_option mnt_iterms (dbTable_getPtr (nl_modnets s) 1))) =
     (Inl (LogError 397), Some 1, Some 0) \<and>
   (let s = run_edits [BTermConnectModNet 1 1, BTermDestroy 1] (demo_netlist False)
    in (map_option mnt_bterms (dbTable_getPtr (nl_modnets s) 1), dbTable_getPtr (nl_bterms s) 1)) = (Some 1, None) \<and>
   map_option btm_mnet (dbTable_getPtr (nl_bterms (run_edits [BTermConnectModNet 1 1, BTermDisconnect 1] (demo_netlist False))) 1) = Some 1 \<and>
   nl_net_hash (run_edits [NetSwapNames 1 1] (demo_netlist False)) = [1, 1, 2]"
  by (intro conjI) code_simp+

end
