(* ===== verification/Spec2Isabelle.thy ===== *)
theory Spec2Isabelle
  imports SceneDemo Demo DbEnums SpatialIndex DbHashTable NetDemo
begin

text \<open>
  OpenDB's three-dimensional core, as OpenROAD uses it to read, describe and check stacks of chips
  (sources under \<^verbatim>\<open>src/src/odb\<close> and \<^verbatim>\<open>src/src/utl\<close>); the netlist of a block with the journal that
  undoes and redoes changes to it; the wires of nets with their shapes and the track grids; and the
  viewer (\<^verbatim>\<open>src/src/gui/openroad3D\<close>), which builds a scene from a block and finds objects of it.

  \<^bold>\<open>The program.\<close> A database holds chips. A hierarchical chip contains instances of other chips,
  each with a place and one of 16 orientations; a chip has regions on its faces or inside it and the
  regions have bumps. Connections join two regions and nets join bumps, named by a path of instances
  down from the chip they belong to. \<^verbatim>\<open>ThreeDBlox\<close> builds such a design from its
  description. \<^verbatim>\<open>UnfoldedModel\<close> flattens that hierarchy into
  global coordinates, and \<^verbatim>\<open>Checker\<close> looks at the flat model and leaves a marker for every
  violation in a tree of marker categories of the top chip. Objects live in \<^verbatim>\<open>dbTable\<close>s
  and refer to each other by id; id 0 is the null reference.

  \<^bold>\<open>The theories.\<close>
    \<^item> \<open>OdbPrelude\<close>: integer ranges, C strings, the contract of an unstable sort.
    \<^item> \<open>Isotropy\<close>, \<open>Geom\<close>: \<^verbatim>\<open>isotropy.h\<close>, \<^verbatim>\<open>geom.h\<close> and \<^verbatim>\<open>geom.cpp\<close>, one
      definition per member function. \<open>GeomLaws\<close> relates them to the sets of points they stand for and
      adds the stream operators of the shapes.
    \<^item> \<open>DbStream\<close>: \<^verbatim>\<open>dbStream.h\<close>, values as lists of bytes; the locale \<open>stream_codec\<close> is the contract of a
      pair of stream operators.
    \<^item> \<open>DbEnums\<close>, \<open>DbOrient\<close>: \<^verbatim>\<open>dbTypes.h\<close> and \<^verbatim>\<open>dbTypes.cpp\<close>.
    \<^item> \<open>DbTransform\<close>: \<^verbatim>\<open>dbTransform.cpp\<close>, as a group acting on points.
    \<^item> \<open>DbObject\<close>: \<^verbatim>\<open>dbObject.h\<close>, the types of objects that markers and journals name.
    \<^item> \<open>DbTable\<close>: \<^verbatim>\<open>dbTable.inc\<close>; the locale \<open>object_table\<close> is what the rest of the database
      relies on.
    \<^item> \<open>DbHashTable\<close>: \<^verbatim>\<open>dbHashTable.hpp\<close>, chains of objects over a \<open>dbTable\<close>; the locale \<open>name_index\<close> is
      the finite map from names to ids its owners rely on, such as the chips of a database (\<open>db_chip_hash\<close>).
    \<^item> \<open>UnionFind\<close>: \<^verbatim>\<open>utl/unionFind.cpp\<close>; the locale \<open>union_find\<close> is what the checker relies on.
    \<^item> \<open>DbMarker\<close>: \<^verbatim>\<open>dbMarker.cpp\<close> and \<^verbatim>\<open>dbMarkerCategory.cpp\<close>.
    \<^item> \<open>ChipDb\<close>: the records and operations of \<^verbatim>\<open>dbChip*.cpp\<close>; \<open>ChipDbLaws\<close> what they do.
    \<^item> \<open>BumpMap\<close>: \<^verbatim>\<open>3dblox/bmapParser.cpp\<close> and \<^verbatim>\<open>3dblox/bmapWriter.cpp\<close>, on the text of the file.
    \<^item> \<open>ThreeDBlox\<close>: \<^verbatim>\<open>3dblox/3dblox.cpp\<close>, from the parsed description to the database; \<open>ThreeDBloxLaws\<close> shows
      that the instances are placed as described, that the paths of connections lead where they say and how large the
      design is. \<open>hier_ok\<close> is the invariant of the hierarchy.
    \<^item> \<open>UnfoldedModel\<close>, \<open>UnfoldedPointers\<close>: \<^verbatim>\<open>unfoldedModel.cpp\<close>; the second theory shows that
      every pointer of a model that is built leads to the right object.
    \<^item> \<open>Checker\<close>: \<^verbatim>\<open>3dblox/checker.cpp\<close>; \<open>CheckerLaws\<close>, \<open>FloatingChips\<close> and \<open>CheckerResult\<close> compare
      each check, and all of them together, with a declarative account of the violations.
    \<^item> \<open>DbWire\<close>: \<^verbatim>\<open>dbWireOpcode.h\<close> and \<^verbatim>\<open>dbWireCodec.cpp\<close>, the bytes of the wire of a net: encoder, decoder and the
      walk back to a point. \<open>WireCodec\<close> says how the decoder and the walk pass one operation, \<open>WireRoundtrip\<close> that what
      any sequence of calls draws is read back (\<open>draw\<close> is the drawing on paper).
    \<^item> \<open>DbShape\<close>: \<^verbatim>\<open>dbShape.h\<close>, \<^verbatim>\<open>dbWireShapeItr.cpp\<close> and \<^verbatim>\<open>dbITermShapeItr.cpp\<close>, the rectangles of wires and
      pins; \<open>WireShapes\<close> holds the small wires used as examples.
    \<^item> \<open>DbTrackGrid\<close>: \<^verbatim>\<open>dbTrackGrid.cpp\<close>.
    \<^item> \<open>JournalLog\<close>: \<^verbatim>\<open>dbJournalLog.cpp\<close> and the actions of \<^verbatim>\<open>dbJournal.cpp\<close>, the bytes of a journal with or without
      debug tags. \<open>JournalLaws\<close> says that what is written is read back; its locales \<open>journal_reader\<close> and
      \<open>journal_player\<close> play a log for any handler of its actions and are interpreted in \<open>NetUndo\<close> and \<open>NetRedo\<close>.
    \<^item> \<open>DbFreeList\<close>: which id a table gives next, and that creating and destroying bring it back.
    \<^item> \<open>NetLinks\<close>, \<open>Netlist\<close>: nets and the terminals of instances and of the block, \<^verbatim>\<open>dbNet.cpp\<close>, \<^verbatim>\<open>dbITerm.cpp\<close> and
      \<^verbatim>\<open>dbBTerm.cpp\<close>: the linked lists through the terminals, then one definition per operation, each of which writes the
      journal the way the code does. \<open>netlist_ok\<close> (\<open>NetlistLaws\<close>) is the invariant, \<open>conn\<close> what is on which net;
      \<open>NetEffects\<close> says what the operations do to both.
    \<^item> \<open>NetJournal\<close>: the handlers of undo and redo of \<^verbatim>\<open>dbJournal.cpp\<close> for these objects and the stack of journals of
      \<^verbatim>\<open>dbDatabase.cpp\<close>. \<open>NetUndo\<close> undoes one action, \<open>NetEdits\<close> and \<open>NetTracked\<close> relate what an operation does to the
      actions it writes (\<open>tracked\<close>), \<open>NetEco\<close> puts them together, \<open>NetRedo\<close> is the way forwards, and \<open>NetDemo\<close> holds
      examples and the gaps of the journal.
    \<^item> \<open>SceneTypes\<close>, \<open>SceneBuilder\<close>: \<^verbatim>\<open>OdbSceneBuilder.cpp\<close>, which draws a block: one pass for each kind of
      object, and the layers by name. \<open>SceneLaws\<close> shows that the passes return and what is in the scene (\<open>block_ok\<close> says
      for which blocks), \<open>SceneHeights\<close> what the heights mean, \<open>SceneLimits\<close> where the builder fails; \<open>SceneDemo\<close> holds examples.
    \<^item> \<open>SpatialIndex\<close>: \<^verbatim>\<open>SpatialIndex.h\<close> and \<^verbatim>\<open>SpatialIndex.cpp\<close> of the viewer: boxes, the view frustum, the
      octree and its queries; the locale \<open>pruned_search\<close> is shared by the two queries.
    \<^item> \<open>Demo\<close>: the small assemblies on which the theorems below are instantiated.

  \<^bold>\<open>How the code is read.\<close> C++ \<^verbatim>\<open>int\<close>s are \<open>int\<close>s; where the range matters \<open>fits_int32\<close> and
  \<open>fits_int64\<close> state it. Bytes of a stream are words. \<^verbatim>\<open>Logger::error\<close> throws, so an operation
  that may report an error returns the database it leaves behind and a sum. Pointers into the
  unfolded model are positions in its lists. Linked lists of ids are lists. A failed assertion, a null
  dereference and a recursion that does not end are \<open>None\<close>. Warnings that are only logged are left out.

  \<^bold>\<open>Fuel.\<close> \<open>buildUnfoldedChip\<close> recurses through the hierarchy, which may be cyclic; the model takes a
  bound on the depth. \<open>unfolding_terminates\<close> says which bound is enough when no chip contains itself and
  \<open>containment_cycle_never_unfolds\<close> that none is otherwise. \<open>UF_find\<close> and \<open>table_iter\<close> are partial functions
  that are shown to return; so are the loops of \<open>DbHashTable\<close>, which follow links in memory.
  The loops over the terminals of a net have as fuel the number of slots of the table, and a list of a well-formed netlist
  is never longer (\<open>follow_total\<close>).

  \<^bold>\<open>Parameters.\<close> \<^verbatim>\<open>std::sort\<close> is not stable; the checks that sort take the sorting function as an
  argument and \<open>std_sort_on\<close> is all that is assumed of it. Of the netlist below a chip only the locations of
  the instances bumps stand for are used; they are a map in the chip. Floats and doubles are rationals, and what a
  computed value is rounded to is a function \<open>fl\<close>: nothing is assumed of it in the reader, and in the spatial index
  that it is monotone, idempotent and commutes with doubling (\<open>float_rounding\<close>); \<^verbatim>\<open>std::sqrt\<close> is any function.
  \<^verbatim>\<open>std::stod\<close> is a function that reads 32-bit decimal numbers exactly (\<open>stod_exact\<close>). In the scene a
  pointer to a layer record is its index with the number of times the vector had moved; \<open>scene_env\<close> holds the rounding, the
  growth of a vector, the printing of a float and the technology, and the units per micron are positive. A hash is a
  32-bit word that wraps. The files a design
  includes are read by an argument of \<open>readDbx\<close>.

  \<^bold>\<open>Not modelled.\<close> The YAML, LEF, DEF and Verilog readers and writers, the chiplet definitions
  (\<^verbatim>\<open>readDbv\<close>), the instances and modules of a block with their journal, the merging of the parasitics of nets,
  most of the technology, the rendering and the widgets of the viewer,
  and the tools that work on the database (placement, routing, timing and so
  on): they are I/O, generated accessors, or programs of their own over the operations modelled here.
\<close>

section \<open>Checking an assembly\<close>

text \<open>
  C1. The whole checker: in a release build over a well-formed model it replaces the category
  3DBlox by one subcategory per kind of violation found, holding exactly one marker per violation
  and no empty subcategory, keeps every other top category, and does not get to the end (null
  marker) exactly when some kind has more than 10000 violations.
\<close>

theorem check_leaves_violations:
  assumes "db_ok db" "um_ok db um" "build_ok bld um" "\<not> bld_asserts bld"
    and "floating_groups (bld_sort_groups bld) db um = Some gs"
  shows "if \<forall>v\<in>set (violations bld db um gs). length (snd v) \<le> 10000
    then \<exists>db' i. Checker_check bld db (Some um) = Some db' \<and> mcs_ok (chip_categories db') \<and>
      mcs_map (chip_categories db') ''3DBlox'' = Some i \<and>
      dbTable_getPtr (mcs_tbl (chip_categories db')) i = Some (checked_category (violations bld db um gs)) \<and>
      (\<forall>j c. dbTable_getPtr (mcs_tbl (chip_categories db)) j = Some c \<longrightarrow> cat_name c \<noteq> ''3DBlox'' \<longrightarrow>
         dbTable_getPtr (mcs_tbl (chip_categories db')) j = Some c)
    else Checker_check bld db (Some um) = None"
  using assms by (rule Checker_check_result)

theorem check_leaves_violations_witness:
  "\<exists>db' i ms. Checker_check demo_build demo_db (Some demo_model) = Some db' \<and>
     mcs_map (chip_categories db') ''3DBlox'' = Some i \<and>
     map_option cat_categories (dbTable_getPtr (mcs_tbl (chip_categories db')) i) = Some ms \<and>
     map cat_name ms = [''Logical Connectivity'', ''Floating chips'']"
proof -
  have "\<forall>v\<in>set (violations demo_build demo_db demo_model [[2]]). length (snd v) \<le> 10000"
    using demo_counts by (simp add: violations_def)
  moreover have "map cat_name (cat_categories (checked_category (violations demo_build demo_db demo_model [[2]]))) =
      [''Logical Connectivity'', ''Floating chips'']"
    using demo_counts by (simp add: checked_category_def violations_def category_of_def)
  ultimately show ?thesis
    using check_leaves_violations [OF demo_db_ok demo_model_ok demo_build_ok _ demo_build_floating]
    by (fastforce simp: demo_build_def)
qed

text \<open>
  C2. checkFloatingChips' union-find loop always returns, and what it reports are exactly the
  connected components of the graph of valid connections that are not tied to the ground node,
  each once, biggest first; when no chip is tied to the ground exactly one biggest component is
  left out.
\<close>

theorem floating_chips_are_loose_components:
  assumes "um_ok db um" and "std_sort_on (\<lambda>g. int (length g)) srt"
  shows "\<exists>gs. floating_groups srt db um = Some gs \<and> reported db um gs"
  using floating_groups_correct [OF assms] by blast

theorem floating_chips_are_loose_components_witness:
  "\<exists>gs. floating_groups (sort_key (\<lambda>g. int (length g))) demo_db demo_model = Some gs \<and> reported demo_db demo_model gs"
  by (rule floating_chips_are_loose_components [OF demo_model_ok std_sort_on_sort_key])

text \<open>
  C3. The sweep of checkOverlappingChips, whatever order the unstable sort leaves equal keys in,
  finds every pair of chips whose cuboids overlap exactly once, and nothing else: the early break
  loses none.
\<close>

theorem overlap_sweep_finds_all_pairs:
  assumes "std_sort_on (\<lambda>c. cub_xlo (chip_cuboid um c)) srt"
  shows "(\<forall>p\<in>set (overlapping_chips srt um). fst p < length (um_chips um) \<and> snd p < length (um_chips um) \<and>
      fst p \<noteq> snd p \<and> Cuboid_overlaps (chip_cuboid um (fst p)) (chip_cuboid um (snd p))) \<and>
    (\<forall>a < length (um_chips um). \<forall>b < length (um_chips um).
      a \<noteq> b \<longrightarrow> Cuboid_overlaps (chip_cuboid um a) (chip_cuboid um b) \<longrightarrow>
      length (filter (\<lambda>p. p = (a, b) \<or> p = (b, a)) (overlapping_chips srt um)) = 1)"
  using overlapping_chips_correct(1) [OF assms] overlapping_chips_correct(2) [OF assms] by auto

theorem overlap_sweep_finds_all_pairs_witness:
  "length (filter (\<lambda>p. p = (0, 1) \<or> p = (1, 0))
     (overlapping_chips (sort_key (\<lambda>c. cub_xlo (chip_cuboid demo_overlap c))) demo_overlap)) = 1"
proof -
  have "Cuboid_overlaps (chip_cuboid demo_overlap 0) (chip_cuboid demo_overlap 1)" "length (um_chips demo_overlap) = 2"
    by code_simp+
  then show ?thesis
    using overlap_sweep_finds_all_pairs [OF std_sort_on_sort_key, of demo_overlap] by simp
qed

text \<open>
  C4. checkConnectionRegions leaves one marker per invalid connection, with the connection and
  both region instances as sources; describing a region never dereferences a null region or parent
  chip, whichever describe call the compiler evaluates first.
\<close>

theorem invalid_connections_reported:
  assumes "um_ok db um"
  shows "checkConnectionRegions first db um top_cat = found ''Connection regions''
    (map (invalid_marker first db um) (filter (\<lambda>k. \<not> isValid db um k) (um_connections um))) top_cat"
  by (rule checkConnectionRegions_eq [OF assms])

theorem invalid_connections_reported_witness:
  "checkConnectionRegions True demo_db demo_apart (Some (mk_dbMarkerCategory ''3DBlox'')) =
     found ''Connection regions'' [invalid_marker True demo_db demo_apart
       \<lparr>ucn_connection = 1, ucn_top_region = Some (1, 1), ucn_bottom_region = Some (0, 0)\<rparr>]
       (Some (mk_dbMarkerCategory ''3DBlox''))"
  unfolding invalid_connections_reported [OF demo_apart_ok] demo_apart_invalid by simp

text \<open>
  C5. checkLogicalConnectivity (assertions off) leaves one marker per aligned pair of bumps on
  different nets of a valid connection; a pair is a bump of the top region with the last bump of
  the bottom region at the same x and y, and each bump counts for the last net that lists it.
\<close>

theorem logical_mismatches_reported:
  "checkLogicalConnectivity False db um top_cat = found ''Logical Connectivity''
     (map (logical_found db um) (concat (map (aligned_mismatches db um) (um_connections um)))) top_cat \<and>
   bump_net_map um b = last_index (\<lambda>i. b \<in> set (un_connected_bumps (um_nets um ! i))) (length (um_nets um)) \<and>
   bot_bumps_at r pt = last_index (\<lambda>k. bump_xy (ur_bumps r ! k) = pt) (length (ur_bumps r))"
  by (simp add: checkLogicalConnectivity_eq bump_net_map_eq bot_bumps_at_eq)

text \<open>
  C6. In a build with assertions, a mismatch across a valid connection of positive thickness ends
  the check: the two region cuboids are apart in z and Cuboid::intersect asserts that they meet.
\<close>

theorem mismatch_across_gap_asserts:
  assumes "k \<in> set (um_connections um)" and "((c1, j1, k1), (c2, j2, k2)) \<in> set (aligned_mismatches db um k)"
    and "ucn_top_region k = Some (c1, j1)" "ucn_bottom_region k = Some (c2, j2)" "isValid db um k"
    and "UR_isTop (region_at um (c1, j1)) \<or> UR_isBottom (region_at um (c1, j1))"
      "UR_isTop (region_at um (c2, j2)) \<or> UR_isBottom (region_at um (c2, j2))"
    and "0 < cc_thickness (conn_of db (ucn_connection k))"
  shows "checkLogicalConnectivity True db um top_cat = None"
  using logical_asserts [OF assms(1,2) valid_apart [OF assms(5,3,4,6,7,8)]] .

theorem mismatch_across_gap_asserts_witness:
  "checkLogicalConnectivity True demo_thick demo_gap (Some (mk_dbMarkerCategory ''3DBlox'')) = None"
proof (rule mismatch_across_gap_asserts)
  show "demo_conn \<in> set (um_connections demo_gap)" by (simp add: demo_gap_def)
  show "((1, 1, 0), (0, 0, 0)) \<in> set (aligned_mismatches demo_thick demo_gap demo_conn)" by code_simp
  show "ucn_top_region demo_conn = Some (1, 1)" "ucn_bottom_region demo_conn = Some (0, 0)"
    by (simp_all add: demo_conn_def)
  show "isValid demo_thick demo_gap demo_conn" by code_simp
  show "UR_isTop (region_at demo_gap (1, 1)) \<or> UR_isBottom (region_at demo_gap (1, 1))"
    "UR_isTop (region_at demo_gap (0, 0)) \<or> UR_isBottom (region_at demo_gap (0, 0))" by code_simp+
  show "0 < cc_thickness (conn_of demo_thick (ucn_connection demo_conn))" by code_simp
qed

section \<open>Unfolding the hierarchy\<close>

text \<open>
  C7. Building the unfolded model returns when no hierarchical chip contains itself, directly or
  not: with a rank that falls from a chip to the masters inside it, recursion as deep as the rank
  is enough.
\<close>

theorem unfolding_terminates:
  assumes "hier_ranked db rk"
    and "\<forall>i\<in>set (chip_insts (chip_of db chip)).
      dbTable_getPtr (chip_tbl db) (ci_master (inst_of db i)) \<noteq> None \<and> rk (ci_master (inst_of db i)) < k"
  shows "\<exists>um. mk_UnfoldedModel k db chip = Some um"
  using assms by (rule mk_UnfoldedModel_total)

theorem unfolding_terminates_witness: "\<exists>um. mk_UnfoldedModel 2 demo_db 1 = Some um"
proof (rule unfolding_terminates)
  show "hier_ranked demo_db (\<lambda>c. if c = 1 then 1 else 0)"
    by (auto simp: hier_ranked_def demo_top_def demo_die_def demo_inst_def split: if_splits)
qed (auto simp: demo_top_def demo_inst_def)

text \<open>
  C8. The chips of the unfolded model are exactly the paths of instances from the top chip to a
  chip without hierarchy, each with the placements composed along the path and the cuboid of its
  master moved by them; a point of a chip goes through the placements from the inside out.
\<close>

theorem unfolded_chips_are_the_leaf_paths:
  assumes "mk_UnfoldedModel k db chip = Some um"
  shows "chip_place ` set (um_chips um) =
      {(p, path_transform db dbTransform_default p,
        dbTransform_apply_Cuboid (path_transform db dbTransform_default p)
          (dbChip_getCuboid (dbChipInst_getMasterChip db (last p)))) | i p.
        i \<in> set (chip_insts (chip_of db chip)) \<and> hier_path db i p} \<and>
    dbTransform_apply (path_transform db dbTransform_default p) pt =
      foldr (\<lambda>i q. dbTransform_apply (dbChipInst_getTransform (inst_of db i)) q) p pt"
  using unfolded_places [OF assms] by (simp add: apply_path_transform tr.act_unit)

theorem unfolded_chips_are_the_leaf_paths_witness:
  "chip_place ` set (um_chips demo_um) =
     {(p, path_transform demo_db dbTransform_default p,
       dbTransform_apply_Cuboid (path_transform demo_db dbTransform_default p)
         (dbChip_getCuboid (dbChipInst_getMasterChip demo_db (last p)))) | i p.
       i \<in> set (chip_insts (chip_of demo_db 1)) \<and> hier_path demo_db i p}"
  using unfolded_chips_are_the_leaf_paths [OF demo_um] by blast



text \<open>
  C10. A set of instances each of whose masters is hierarchical and contains another instance of
  the set is never unfolded, however deep the recursion may go: dbChipInst::create only forbids a
  chip directly inside itself, and on an indirect cycle the code does not return.
\<close>

theorem containment_cycle_never_unfolds:
  assumes "\<forall>i\<in>I. chip_type (chip_of db (ci_master (inst_of db i))) = HIER \<and>
      (\<exists>j\<in>I. j \<in> set (chip_insts (chip_of db (ci_master (inst_of db i)))))"
    and "i \<in> I"
  shows "buildUnfoldedChip k db path x um i = None"
  using assms by (intro build_cycle [of I]) auto

theorem containment_cycle_never_unfolds_witness:
  "\<forall>k path x um. buildUnfoldedChip k demo_ring path x um 1 = None"
  by (intro allI, rule containment_cycle_never_unfolds [of "{1, 2}"]) (auto simp: demo_ring demo_ring [simplified])

section \<open>Reading a design\<close>

text \<open>
  C11. ThreeDBlox::readDbx, after its includes: when the instances refer to chips that were read,
  with known orientations and different names, every instance is created under the new top chip
  with the described chip, orientation and location (microns rounded to database units), whatever
  becomes of the connections; a connection can fail with 511, 522, 523 or 524 only; and when none
  does the size of the top chip is the extent of its instances along each axis.
\<close>

theorem design_is_read:
  assumes "readHeaderIncludes db (dbx_includes data) = (db1, Inr ())" and "design_ok db1 data"
  shows "\<exists>db' r ids. readDbx fl readHeaderIncludes db data = (db', r) \<and> top_ok db' \<and>
    db_dbu_per_micron db' = db_dbu_per_micron db1 \<and> list_all2 (described fl db') (dbx_chiplet_instances data) ids \<and> chip_insts (chip_of db' (db_chip db')) = rev ids \<and>
    (case r of Inl e \<Rightarrow> e \<in> {Throws 511, Throws 522, Throws 523, Throws 524}
     | Inr c \<Rightarrow> c = db_chip db' \<and>
         (ids \<noteq> [] \<and> (\<forall>i \<in> set ids. Cuboid_fits (dbChipInst_getCuboid db' i)) \<longrightarrow>
          (let S = dbChipInst_getCuboid db' ` set ids; x = chip_of db' c
           in chip_width x = extent cub_xlo cub_xhi S \<and> chip_height x = extent cub_ylo cub_yhi S \<and>
              chip_thickness x = extent cub_zlo cub_zhi S)))"
  using assms by - (rule readDbx_correct)

theorem design_is_read_witness:
  "\<exists>db' r i j. readDbx (\<lambda>x. x) (\<lambda>db _. (db, Inr ())) demo_db demo_design = (db', r) \<and>
     chip_insts (chip_of db' (db_chip db')) = [j, i] \<and> dbChipInst_getLoc db' i = Point3D 1000 2000 0 \<and>
     dbChipInst_getLoc db' j = Point3D 1500 2000 10"
proof -
  obtain db' r ids where r: "readDbx (\<lambda>x. x) (\<lambda>db _. (db, Inr ())) demo_db demo_design = (db', r)"
    "list_all2 (described (\<lambda>x. x) db') (dbx_chiplet_instances demo_design) ids"
    "chip_insts (chip_of db' (db_chip db')) = rev ids" "db_dbu_per_micron db' = db_dbu_per_micron demo_db"
    using design_is_read [where readHeaderIncludes = "\<lambda>db _. (db, Inr ())" and fl = "\<lambda>x. x", OF _ demo_design_ok] by blast
  from r(4) have "db_dbu_per_micron db' = 1000" by (simp add: demo_db_def)
  moreover have "\<lfloor>1 / 2 :: rat\<rfloor> = 0" "\<lfloor>3001 / 2 :: rat\<rfloor> = 1500" "\<lfloor>21 / 2 :: rat\<rfloor> = 10"
    "\<lfloor>2001 / 2 :: rat\<rfloor> = 1000" "\<lfloor>4001 / 2 :: rat\<rfloor> = 2000" by (simp_all add: floor_eq_iff)
  ultimately show ?thesis using r
    by (auto simp: demo_design_def list_all2_Cons1 described_def to_dbu_def std_round_def)
qed

text \<open>
  C12. ThreeDBlox::createConnection over a well-formed hierarchy: when it throws, the message is
  511, 522, 523 or 524 and the database is unchanged (the path checks of dbChipConn::create, which
  leave a half-built connection behind, never fire); when both paths resolve and the top is a
  region, the connection is stored with the resolved regions, paths and thickness.
\<close>

theorem connections_resolve:
  assumes "top_ok db" and "tbl_inv (chip_conn_tbl db)"
  shows "(\<forall>db' e. createConnection fl db con = (db', Inl e) \<longrightarrow>
      e \<in> {Throws 511, Throws 522, Throws 523, Throws 524} \<and> db' = db) \<and>
    (\<forall>tr tp br bp. resolvePath db (con_top con) = Inr (tr, tp) \<longrightarrow> tr \<noteq> 0 \<longrightarrow> resolvePath db (con_bot con) = Inr (br, bp) \<longrightarrow>
      (\<exists>db' k. createConnection fl db con = (db', Inr k) \<and> conn_added fl db con db' k \<and> top_ok db'))"
  using createConnection_error [OF assms] createConnection_created [OF assms] by blast

theorem connections_resolve_witness:
  "\<exists>db' k. createConnection (\<lambda>x. x) demo_db \<lparr>con_name = ''k'', con_top = ''b.regions.back'', con_bot = ''~'', con_thickness = 0\<rparr> =
     (db', Inr k)"
proof -
  have "resolvePath demo_db ''b.regions.back'' = Inr (4, [2])" "resolvePath demo_db ''~'' = Inr (0, [])"
    by code_simp+
  moreover have "tbl_inv (chip_conn_tbl demo_db)" by (simp add: demo_db_def table_of_inv)
  ultimately show ?thesis
    using connections_resolve [OF demo_top_ok, where fl = "\<lambda>x. x"
      and con = "\<lparr>con_name = ''k'', con_top = ''b.regions.back'', con_bot = ''~'', con_thickness = 0\<rparr>"] by auto
qed

text \<open>
  C13. A bump map written by BmapWriter and read by BmapParser gives the bumps back, in order,
  with their names; the coordinates come back as whole microns of the coordinate taken modulo
  2^32, so they are kept exactly when they are not negative and a multiple of the units per
  micron.
\<close>

theorem bump_map_is_read_back:
  assumes "stod_exact stod" and "0 < u" "u < 2 ^ 32" and "\<forall>b \<in> set bumps. bump_names_ok b"
  shows "parseBumpMapContent stod (writeFile u bumps) = Inr (map (read_back u) bumps) \<and>
    (\<forall>x. 0 \<le> x \<longrightarrow> x < 2 ^ 31 \<longrightarrow> ((of_nat (micron_coord u x) :: rat) * of_nat u = of_int x \<longleftrightarrow> int u dvd x)) \<and>
    (\<forall>x. - (2 ^ 31) \<le> x \<longrightarrow> x < 0 \<longrightarrow> micron_coord u x = nat (2 ^ 32 + x) div u)"
  using bump_map_read_back [OF assms(1,3,4)] micron_coord_exact_iff [OF _ _ assms(2)] micron_coord_negative by blast

theorem bump_map_is_read_back_witness:
  "\<exists>e. parseBumpMapContent (\<lambda>s. Some (of_nat (read_digits s)))
     (writeFile 1000 [\<lparr>wb_inst_name = ''b1'', wb_cell_type = ''BUMP'', wb_origin = Point 2500 (- 1000), wb_bterm = None, wb_net = Some ''n''\<rparr>]) =
     Inr [e] \<and> bme_x e = 2 \<and> bme_y e = 4294966 \<and> (of_nat (micron_coord 1000 3000) :: rat) * 1000 = 3000"
  using bump_map_is_read_back [OF stod_exact_digits, of 1000
      "[\<lparr>wb_inst_name = ''b1'', wb_cell_type = ''BUMP'', wb_origin = Point 2500 (- 1000), wb_bterm = None, wb_net = Some ''n''\<rparr>]"]
  by (simp add: bump_names_ok_def is_word_def isspace_def name_or_dash_def read_back_def micron_coord_def)

section \<open>Chips, instances, connections\<close>

text \<open>
  C14. dbChipInst::create on a hierarchical parent gives a new instance that is first on the
  parent's list and found under its name, with one region instance per region of the master and
  one bump instance per bump, in their order; no other object changes.
\<close>

theorem instance_creation:
  assumes "insts_inv db" "tbl_inv (chip_tbl db)" and "dbTable_getPtr (chip_tbl db) parent_chip = Some pc"
    and "master_chip \<noteq> 0" "chip_type pc = HIER" "parent_chip \<noteq> master_chip"
    and "dbChip_findChipInst db parent_chip name = 0"
  shows "\<exists>db' i. dbChipInst_create db parent_chip master_chip name = (db', Inr i) \<and>
    insts_inv db' \<and> tbl_inv (chip_tbl db') \<and> inst_created db parent_chip master_chip name db' i"
  using assms by (rule dbChipInst_create_correct)

theorem instance_creation_witness:
  "\<exists>db' i. dbChipInst_create demo_db 1 2 ''d'' = (db', Inr i) \<and> inst_created demo_db 1 2 ''d'' db' i"
proof -
  have "insts_inv demo_db" "tbl_inv (chip_tbl demo_db)"
    by (simp_all add: insts_inv_def demo_db_def table_of_inv)
  then show ?thesis
    using instance_creation [of demo_db 1 demo_top 2 "''d''"]
    by (auto simp: demo_top_def dbChip_findChipInst_def)
qed

text \<open>
  C15. A dbChipInst or dbChipRegion creation that throws or returns null leaves the database as it
  was.
\<close>

theorem failed_creation_changes_nothing:
  "(snd (dbChipInst_create db parent_chip master_chip name) = Inl e \<longrightarrow>
      fst (dbChipInst_create db parent_chip master_chip name) = db) \<and>
   (snd (dbChipRegion_create db chip name side layer layer_tech) = Inl e \<longrightarrow>
      fst (dbChipRegion_create db chip name side layer layer_tech) = db)"
  using dbChipInst_create_error dbChipRegion_create_error by blast

theorem failed_creation_changes_nothing_witness:
  "snd (dbChipInst_create demo_db 1 1 ''d'') = Inl (Throws 507) \<and> fst (dbChipInst_create demo_db 1 1 ''d'') = demo_db"
proof -
  have "snd (dbChipInst_create demo_db 1 1 ''d'') = Inl (Throws 507)"
    by (simp add: dbChipInst_create_def demo_top_def)
  then show ?thesis using failed_creation_changes_nothing [of demo_db 1 1 "''d''" "Throws 507"] by blast
qed

text \<open>
  C16. dbChipConn::create with regions that belong to the ends of the paths: when both paths lead
  down from the parent chip the connection is stored with them and is first on the chip's list;
  otherwise it throws 510 and the half-built connection stays in the table, on no list.
\<close>

theorem connection_creation:
  assumes "tbl_inv (chip_conn_tbl db)" "tbl_inv (chip_tbl db)" and "dbTable_getPtr (chip_tbl db) c = Some x"
    and "top_region \<noteq> 0" "top_path \<noteq> []" "cri_parent (region_inst_of db top_region) = last top_path"
    and "bottom_region \<noteq> 0 \<longrightarrow> bottom_path \<noteq> [] \<and> cri_parent (region_inst_of db bottom_region) = last bottom_path"
  shows "\<exists>db' k v. dbTable_getPtr (chip_conn_tbl db) k = None \<and> dbTable_getPtr (chip_conn_tbl db') k = Some v \<and>
    (if path_in db c top_path \<and> (bottom_region \<noteq> 0 \<longrightarrow> path_in db c bottom_path)
     then dbChipConn_create db name c top_path top_region bottom_path bottom_region = (db', Inr k) \<and>
       v = \<lparr>cc_name = name, cc_thickness = 0, cc_chip = c, cc_top_region = top_region, cc_top_path = top_path,
            cc_bottom_region = bottom_region, cc_bottom_path = (if bottom_region \<noteq> 0 then bottom_path else [])\<rparr> \<and>
       chip_conns (chip_of db' c) = k # chip_conns x \<and> tbl_inv (chip_conn_tbl db') \<and> tbl_inv (chip_tbl db') \<and>
       dbTable_getPtr (chip_tbl db') = (dbTable_getPtr (chip_tbl db))(c \<mapsto> x\<lparr>chip_conns := k # chip_conns x\<rparr>) \<and>
       db' = db\<lparr>chip_conn_tbl := chip_conn_tbl db', chip_tbl := chip_tbl db'\<rparr>
     else dbChipConn_create db name c top_path top_region bottom_path bottom_region = (db', Inl (Throws 510)) \<and>
       chip_tbl db' = chip_tbl db)"
  using assms by (rule dbChipConn_create_correct)

theorem connection_creation_witness:
  "\<exists>db' k. dbChipConn_create demo_db ''k'' 1 [2] 4 [1] 1 = (db', Inr k) \<and> chip_conns (chip_of db' 1) = [k, 1, 2]"
proof -
  have "tbl_inv (chip_conn_tbl demo_db)" "tbl_inv (chip_tbl demo_db)" by (simp_all add: demo_db_def table_of_inv)
  moreover have "cri_parent (region_inst_of demo_db 4) = 2" "cri_parent (region_inst_of demo_db 1) = 1" by code_simp+
  moreover have "path_in demo_db 1 [2]" "path_in demo_db 1 [1]" by code_simp+
  ultimately show ?thesis
    using connection_creation [of demo_db 1 demo_top 4 "[2]" 1 "[1]" "''k''"] by (auto simp: demo_top_def)
qed

text \<open>
  C17. dbChipInst::setLoc puts the lower corner of the placed chip where it was asked to, in every
  one of the 16 orientations: getLoc then returns it.
\<close>

theorem set_location_get_location:
  assumes "tbl_inv (chip_inst_tbl db)" and "dbTable_getPtr (chip_inst_tbl db) i = Some x"
  shows "dbChipInst_getLoc (dbChipInst_setLoc db i loc) i = loc"
  using assms by (rule setLoc_getLoc)

theorem set_location_get_location_witness:
  "dbChipInst_getLoc (dbChipInst_setLoc demo_db 2 (Point3D 7 8 9)) 2 = Point3D 7 8 9"
  by (rule set_location_get_location [of demo_db 2 "demo_inst ''b'' (Point3D 0 0 10) 3 4"])
     (simp_all add: demo_db_def table_of_inv table_of_getPtr)

section \<open>Markers\<close>

section \<open>Wires\<close>

text \<open>
  C18. Whatever sequence of calls a client makes on dbWireEncoder (paths of every kind, points
  with and without extension, vias, rectangles, pins, colours, rules, branches at junctions), when
  no call fails and the calls make sense as a drawing (legs along an axis, vias from the layer of
  the path, branches at points whose layer is known), dbWireDecoder reads exactly that drawing
  back from the bytes: each call in order, with the wire type, layer and colours that held, and
  every id given by the encoder as the junction of the branch.
\<close>

theorem wire_is_read_back:
  assumes "calls dbg db cs (dbWireEncoder_begin, []) = Inr (e, ids)"
    and "drawing db (jct_id ids) cs pencil_begin = Some (evs, s)"
    and "dec_color d0 = None" and "dec_viacolor d0 = None"
  shows "decode_all dbg db (enc_wire e) (dbWireDecoder_begin d0) = Inr evs"
  using assms by - (rule codec_roundtrip)

theorem wire_is_read_back_witness:
  "\<exists>e. calls True two_layers branching_path (dbWireEncoder_begin, []) = Inr (e, branching_ids) \<and>
     decode_all True two_layers (enc_wire e) (dbWireDecoder_begin fresh_decoder) = Inr branching_events"
proof -
  obtain e where e: "calls True two_layers branching_path (dbWireEncoder_begin, []) = Inr (e, branching_ids)"
    using branching_encodes by blast
  from wire_is_read_back [OF e branching_draws] e show ?thesis by (auto simp: fresh_decoder_def)
qed

text \<open>
  C19. The ids the encoder returns name the points they were returned for: the backward walk over
  the bytes (getPrevPoint, which branches, shapes and routes start from) ends at such an id
  without leaving the wire, and finds the coordinates of that point and its layer, whenever the
  drawing says that the layer is known.
\<close>

theorem junctions_name_their_points:
  assumes "calls dbg db cs (dbWireEncoder_begin, []) = Inr (e, ids)"
    and "drawing db (jct_id ids) cs pencil_begin = Some (evs, s)"
  shows "length ids = length (pn_points s) \<and>
    (\<forall>k x y l. k < length ids \<and> pn_points s ! k = (x, y, Some l) \<longrightarrow>
       getPrevPoint db (enc_opcodes e) (enc_data e) (int (ids ! k)) True = Inr \<lparr>pnt_x = x, pnt_y = y, pnt_layer = l\<rparr>)"
  using ids_name_points [OF assms] by blast

theorem junctions_name_their_points_witness:
  "\<exists>e. calls True two_layers branching_path (dbWireEncoder_begin, []) = Inr (e, branching_ids) \<and>
     getPrevPoint two_layers (enc_opcodes e) (enc_data e) (int (branching_ids ! 2)) True =
       Inr \<lparr>pnt_x = 0, pnt_y = 700, pnt_layer = 2\<rparr>"
proof -
  obtain e where e: "calls True two_layers branching_path (dbWireEncoder_begin, []) = Inr (e, branching_ids)"
    using branching_encodes by blast
  have "(2::nat) < length branching_ids" "pn_points branching_end ! 2 = (0, 700, Some 2)"
    by (simp_all add: branching_ids_def branching_end_def)
  with junctions_name_their_points [OF e branching_draws] e show ?thesis by blast
qed

text \<open>
  C20. dbITermShapeItr, a state machine that is called until it returns false, yields exactly the
  boxes of all pins in order, transformed by the placement of the instance, each via box replaced
  by the placed boxes of its via when the iterator expands vias.
\<close>

theorem pin_shapes_are_flattened:
  assumes "boxes_shapes db expand t (concat mpins) = Inr ss"
  shows "iterm_yields db (dbITermShapeItr_begin expand t mpins) ss"
  using assms by (rule iterm_iterator_flattens)

theorem pin_shapes_are_flattened_witness:
  "iterm_yields no_db (dbITermShapeItr_begin True (mk_dbTransform dbOrientType.R0 (Point 100 0))
       [[], [\<lparr>bx_rect = Rect_reset 0 0 10 20, bx_layer = 1, bx_via = 0\<rparr>]])
     [setSegment_layer 1 (Rect_reset 100 0 110 20)]"
  by (rule pin_shapes_are_flattened) code_simp

section \<open>The netlist and its journal\<close>

text \<open>
  C21. Undoing an ECO restores the netlist: after beginEco, any sequence of the reversible
  operations on nets and terminals (each may stop half-way with an error, and the caller may go
  on), undoEco returns without an error, every terminal is on the net and module net it was on,
  every net has its id, name, flags and rule back, deleted nets included, all lists and tables are
  right, and the stack of journals is the one beginEco left. The journals are written without the
  debug tags and the log fits the 32-bit index.
\<close>

theorem eco_is_undone:
  assumes "netlist_ok s" and "\<not> nl_journal_check s" and "reversible_run es (beginEco s)"
    and "small_log (eco_bytes (run_edits es (beginEco s)))"
  shows "\<exists>t. undoEco (run_edits es (beginEco s)) = Some (Inr (), t) \<and> netlist_ok t \<and> conn t = conn s \<and>
    nl_journal t = None \<and> nl_journal_stack t = nl_journal_stack (beginEco s)"
  by (rule eco_undo [OF assms])

theorem eco_is_undone_witness:
  "\<exists>t. undoEco (run_edits demo_edits (beginEco (demo_netlist False))) = Some (Inr (), t) \<and> conn t = conn (demo_netlist False)"
  using eco_is_undone [OF demo_ok demo_no_check demo_reversible demo_small] by (elim exE conjE) (intro exI conjI)



text \<open>
  C23. Whatever reversible operations run, with or without a journal and also when some of them
  throw, the netlist stays well formed, and the iterators over the terminals of a net return: they
  visit every iterm and every bterm whose net it is exactly once, and no other.
\<close>

theorem edits_keep_the_lists:
  assumes "netlist_ok s" and "reversible_run es s" and "dbTable_getPtr (nl_nets (run_edits es s)) n = Some N"
  shows "netlist_ok (run_edits es s) \<and>
    (\<exists>is bs. net_iterms n (run_edits es s) = (Inr is, run_edits es s) \<and> distinct is \<and>
       set is = {i. \<exists>m k. cn_iterms (conn (run_edits es s)) i = Some (n, m, k)} \<and>
       net_bterms n (run_edits es s) = (Inr bs, run_edits es s) \<and> distinct bs \<and>
       set bs = {b. \<exists>m x p. cn_bterms (conn (run_edits es s)) b = Some (n, m, x, p)})"
proof -
  have "netlist_ok (run_edits es s)" by (rule tracked_ok [OF tracked_edits [OF assms(1,2)]])
  with net_iterms_visits [OF this assms(3)] net_bterms_visits [OF this assms(3)] show ?thesis by blast
qed

theorem edits_keep_the_lists_witness:
  "netlist_ok (run_edits demo_edits (demo_netlist False))"
proof -
  obtain N where "dbTable_getPtr (nl_nets (run_edits demo_edits (demo_netlist False))) 1 = Some N" using demo_net_there by blast
  then show ?thesis using edits_keep_the_lists [OF demo_ok demo_reversible] by blast
qed





section \<open>The scene of the viewer\<close>

text \<open>
  C26. OdbSceneBuilder::build on a design whose names fit the reserved fifty layers (every pointer
  resolves, no rectangle is inverted, whatever the rounding): it returns, the layers have
  different names and are sorted by height whatever the sort does with ties, every object is on
  one of them (or on none, or on 'pin') and has its box in order in every axis and its centre as
  translation, and there is exactly one object for every instance, wire segment, via part, pin
  shape, blockage, marker and track grid, in that order, under the right name.
\<close>

theorem scene_is_drawn_ok:
  assumes "env_ok env" and "names_ok N" and "block_ok env N block" and "std_sort_on lr_zBase srt"
    and "\<forall>l \<in> set (wd_layers (se_db env)). tl_width l < 2 ^ 31"
  shows "\<exists>snap. OdbSceneBuilder_build env srt counter cache (Some block) = Inr snap \<and>
    distinct (map lr_name (snap_layers snap)) \<and> sorted (map lr_zBase (snap_layers snap)) \<and>
    lr_name ` set (snap_layers snap) \<subseteq> N \<and>
    (\<forall>ob \<in> set (snap_objects snap). object_box_ok env ob \<and>
       ob_layerId ob \<in> {[], ''pin''} \<union> lr_name ` set (snap_layers snap)) \<and>
    map (\<lambda>ob. (ob_type ob, ob_displayName ob)) (snap_objects snap) = scene_labels env block"
proof -
  obtain snap where "OdbSceneBuilder_build env srt counter cache (Some block) = Inr snap"
    "distinct (map lr_name (snap_layers snap))" "sorted (map lr_zBase (snap_layers snap))"
    "set (map lr_name (snap_layers snap)) \<subseteq> N"
    "\<forall>ob \<in> set (snap_objects snap). object_box_ok env ob \<and> ob_layerId ob \<in> {[], ''pin''} \<union> set (map lr_name (snap_layers snap))"
    "map (\<lambda>ob. (ob_type ob, ob_displayName ob)) (snap_objects snap) = scene_labels env block"
    by (rule scene_is_drawn [OF assms(1-4) bspec [OF assms(5)]])
  then show ?thesis unfolding set_map by blast
qed

theorem scene_is_drawn_ok_witness:
  "\<exists>snap. OdbSceneBuilder_build tiny_env (sort_key lr_zBase) 0 Map.empty (Some tiny_block) = Inr snap \<and>
     sorted (map lr_zBase (snap_layers snap)) \<and>
     map (\<lambda>ob. (ob_type ob, ob_displayName ob)) (snap_objects snap) =
       [(ObjectType.Inst, ''u1''), (ObjectType.Wire, ''n1''), (ObjectType.Pin, ''u1/A''), (ObjectType.Blockage, ''blockage'')]"
proof -
  obtain snap where "OdbSceneBuilder_build tiny_env (sort_key lr_zBase) 0 Map.empty (Some tiny_block) = Inr snap"
    "sorted (map lr_zBase (snap_layers snap))"
    "map (\<lambda>ob. (ob_type ob, ob_displayName ob)) (snap_objects snap) = scene_labels tiny_env tiny_block"
    using scene_is_drawn_ok [OF tiny_env_ok tiny_names_ok tiny_block_ok std_sort_on_sort_key tiny_widths,
        where counter = 0 and cache = Map.empty]
    by (elim exE conjE) (rule that)
  then show ?thesis unfolding tiny_scene_labels by (intro exI conjI)
qed

text \<open>
  C27. In exact arithmetic the heights that computeLayerZPositions caches and the thicknesses put
  every layer of the technology on top of the one before it, without gap or overlap, from height
  0: the interval of the i-th layer runs from the sum of the thicknesses below it to that sum with
  its own, when the numbers of the layers are different.
\<close>

theorem layers_lie_on_each_other:
  assumes "exact_env env" and "se_has_tech env" and "distinct (map tl_number (wd_layers (se_db env)))"
    and "i < length (wd_layers (se_db env))" and "tl_width (wd_layers (se_db env) ! i) < 2 ^ 31"
  shows "layer_span env (compute_z env st) (wd_layers (se_db env) ! i) =
    (sum_list (map (exact_thickness (se_dbu env)) (take i (wd_layers (se_db env)))),
     sum_list (map (exact_thickness (se_dbu env)) (take (Suc i) (wd_layers (se_db env)))))"
  using layer_span_stacked [OF assms] by (simp add: layer_bottom_def)

theorem layers_lie_on_each_other_witness:
  "layer_span tiny_env (compute_z tiny_env (scene_begin 0 Map.empty)) (wd_layers (se_db tiny_env) ! 1) = (1/50, 3/50)"
proof -
  have "layer_span tiny_env (compute_z tiny_env (scene_begin 0 Map.empty)) (wd_layers (se_db tiny_env) ! 1) =
    (sum_list (map (exact_thickness (se_dbu tiny_env)) (take 1 (wd_layers (se_db tiny_env)))),
     sum_list (map (exact_thickness (se_dbu tiny_env)) (take (Suc 1) (wd_layers (se_db tiny_env)))))"
    by (rule layers_lie_on_each_other) (simp_all add: tiny_env_def two_layers_def exact_env_def)
  then show ?thesis by (simp add: tiny_env_def two_layers_def exact_thickness_def stack_thickness_def)
qed

text \<open>
  C28. In exact arithmetic a via from one layer of the stack to the layer two above it, whose
  definition has boxes on the cut layer between them, is drawn by processNets as three objects in
  one group: one as thick as the upper layer, one as thick as the lower one, and the cut exactly
  from the top of the lower to the bottom of the upper layer. The upper part has an empty object
  id.
\<close>

theorem vias_fill_the_gap:
  assumes "0 < se_dbu env" and "exact_env env" and "se_has_tech env" and "distinct (map tl_number (wd_layers (se_db env)))"
    and "\<forall>l \<in> set (wd_layers (se_db env)). tl_width l < 2 ^ 31" and "k + 2 < length (wd_layers (se_db env))"
    and "ss_z_cache st = ss_z_cache (compute_z env st)"
    and "process_via env net w i (wd_layers (se_db env) ! (k + 2)) (wd_layers (se_db env) ! k) s st = Inr st'"
    and "getViaBoxes (se_db env) (0, 0) s [] = Inr boxes"
    and "\<exists>b \<in> set boxes. layer_ref env (sh_layer b) = Inr (Some (wd_layers (se_db env) ! (k + 1)))"
    and "tl_type (wd_layers (se_db env) ! (k + 1)) = dbTechLayerType.CUT"
    and "\<forall>b \<in> set boxes. \<forall>l. layer_ref env (sh_layer b) = Inr (Some l) \<longrightarrow>
      tl_type l = dbTechLayerType.CUT \<longrightarrow> l = wd_layers (se_db env) ! (k + 1)"
  shows "\<exists>t b c. ss_objects st' = ss_objects st @ [t, b, c] \<and> z_span b = layer_span env st (wd_layers (se_db env) ! k) \<and>
    z_span c = (snd (z_span b), fst (z_span t)) \<and> z_span t = layer_span env st (wd_layers (se_db env) ! (k + 2)) \<and>
    ob_groupId b = ob_groupId t \<and> ob_groupId c = ob_groupId t \<and> ob_objectId t = []"
  by (rule vias_fill_gap [OF assms])

theorem vias_fill_the_gap_witness:
  "\<exists>st' t b c. process_via tiny_via_env ''n'' 7 0 (wd_layers tiny_stack ! 2) (wd_layers tiny_stack ! 0) tiny_via
       tiny_via_state = Inr st' \<and>
     ss_objects st' = [t, b, c] \<and> z_span c = (1/50, 1/20) \<and> ob_groupId c = ob_groupId t"
proof -
  obtain st' where st': "process_via tiny_via_env ''n'' 7 0 (wd_layers tiny_stack ! 2) (wd_layers tiny_stack ! 0) tiny_via tiny_via_state = Inr st'"
    using tiny_via_drawn by blast
  have "\<exists>t b c. ss_objects st' = ss_objects tiny_via_state @ [t, b, c] \<and>
      z_span b = layer_span tiny_via_env tiny_via_state (wd_layers (se_db tiny_via_env) ! 0) \<and>
      z_span c = (snd (z_span b), fst (z_span t)) \<and>
      z_span t = layer_span tiny_via_env tiny_via_state (wd_layers (se_db tiny_via_env) ! (0 + 2)) \<and>
      ob_groupId b = ob_groupId t \<and> ob_groupId c = ob_groupId t \<and> ob_objectId t = []"
    by (rule vias_fill_the_gap [OF _ _ _ _ _ _ _ _ tiny_via_boxes, where net = "''n''" and w = 7 and i = 0])
      (use st' tiny_via_facts in \<open>simp_all add: numeral_2_eq_2\<close>)
  note o = this [unfolded tiny_via_facts(8,9) append_Nil]
  have two: "(0 :: nat) + 2 = 2" by simp
  have "\<exists>t b c. ss_objects st' = [t, b, c] \<and> z_span c = (1/50, 1/20) \<and> ob_groupId c = ob_groupId t"
    using o unfolding two tiny_via_spans by (elim exE conjE) (rule exI, rule exI, rule exI, rule conjI, assumption, simp)
  with st' show ?thesis by blast
qed

text \<open>
  C29. getOrCreateLayer keeps pointers into a vector for which fifty elements were reserved: the
  fifty-first different layer name is created without trouble, and from then on the next use of
  any of the first fifty names reads a dangling pointer.
\<close>

theorem fifty_first_layer_is_fatal:
  assumes "layers_ok N st" and "length (ss_layers st) = 50" and "name \<notin> layer_names st"
    and "stippleForLayer name = Inr p"
  shows "\<exists>st'. getOrCreateLayer env name z st = Inr (50, st') \<and>
    (\<forall>old \<in> layer_names st. \<forall>z'. getOrCreateLayer env old z' st' = Inl BadPointer)"
  by (rule fifty_first_layer_dangles [OF assms]) blast

theorem fifty_first_layer_is_fatal_witness:
  "\<exists>st'. getOrCreateLayer tiny_env ''metal1'' 0 tiny_full = Inr (50, st') \<and>
     getOrCreateLayer tiny_env (tiny_name 3) 0 st' = Inl BadPointer"
proof -
  obtain p where "stippleForLayer ''metal1'' = Inr p" using tiny_stipple by blast
  from fifty_first_layer_is_fatal [OF tiny_full_ok tiny_full_length tiny_full_new this, of tiny_env 0]
  show ?thesis using tiny_full_old by blast
qed

text \<open>
  C30. dbTrackGrid: after any addGridPatternX and addGridPatternY the coordinates of an axis are
  those it had with the lines of the new pattern, in ascending order and each once, those of the
  other axis stay, and the cached coordinates never go stale; but the colour masks of both axes
  share one vector, so that the mask of a first pattern along y is the one of the first pattern
  along x.
\<close>

theorem tracks_are_the_union_of_patterns:
  fixes a n s m :: int and b :: bool
  assumes "track_grid_ok g"
  defines "gx \<equiv> addGridPatternX a n s m b g" and "gy \<equiv> addGridPatternY a n s m b g"
  shows "track_grid_ok gx \<and> track_grid_ok gy \<and> track_grid_ok (snd (getGridX g)) \<and> track_grid_ok (snd (getGridY g)) \<and>
    sorted (fst (getGridX gx)) \<and> distinct (fst (getGridX gx)) \<and> sorted (fst (getGridY gy)) \<and> distinct (fst (getGridY gy)) \<and>
    set (fst (getGridX gx)) = set (fst (getGridX g)) \<union> {a + j * s |j. 0 \<le> j \<and> j < n} \<and>
    set (fst (getGridY gy)) = set (fst (getGridY g)) \<union> {a + j * s |j. 0 \<le> j \<and> j < n} \<and>
    fst (getGridY gx) = fst (getGridY g) \<and> fst (getGridX gy) = fst (getGridX g) \<and>
    (tg_y_origin g = [] \<and> tg_x_origin g \<noteq> [] \<longrightarrow>
       getGridPatternY_masks dbg 0 gy = Inr (a, n, s, tg_first_mask g ! 0, tg_samemask g ! 0))"
  unfolding gx_def gy_def
proof (intro conjI impI)
  show "set (fst (getGridX (addGridPatternX a n s m b g))) = set (fst (getGridX g)) \<union> {a + j * s |j. 0 \<le> j \<and> j < n}"
    and "set (fst (getGridY (addGridPatternY a n s m b g))) = set (fst (getGridY g)) \<union> {a + j * s |j. 0 \<le> j \<and> j < n}"
    by (rule addGridPattern_tracks [OF assms(1)])+
  show "getGridPatternY_masks dbg 0 (addGridPatternY a n s m b g) = Inr (a, n, s, tg_first_mask g ! 0, tg_samemask g ! 0)"
    if "tg_y_origin g = [] \<and> tg_x_origin g \<noteq> []"
    using masks_of_second_axis [OF assms(1)] that by blast
qed (simp_all only: track_grid_ok_simps(2-5) [OF assms(1)] getGridX_tracks [OF track_grid_ok_simps(2) [OF assms(1)]]
      getGridY_tracks [OF track_grid_ok_simps(3) [OF assms(1)]] addGridPattern_tracks(3,4) [OF assms(1)])

theorem tracks_are_the_union_of_patterns_witness:
  "set (fst (getGridX (addGridPatternX 5 3 10 0 False (mk_dbTrackGrid 1)))) = {5, 15, 25} \<and>
   getGridPatternY_masks True 0 (addGridPatternY 0 2 7 2 True (addGridPatternX 5 3 10 0 False (mk_dbTrackGrid 1))) =
     Inr (0, 2, 7, 0, False)"
proof -
  have "set (fst (getGridX (mk_dbTrackGrid 1))) = {}" by code_simp
  moreover have "{5 + j * 10 |j. 0 \<le> j \<and> j < 3} = (\<lambda>j. 5 + j * 10) ` {0..<3 :: int}" by auto
  moreover have "{0..<3 :: int} = {0, 1, 2}" by code_simp
  ultimately show ?thesis
    using tracks_are_the_union_of_patterns [OF track_grid_ok_simps(1), of 5 3 10 0 False 1]
      tracks_are_the_union_of_patterns [OF track_grid_ok_simps(2) [OF track_grid_ok_simps(1)], of 0 2 7 2 True 5 3 10 0 False 1 True]
    by (simp add: addGridPatternX_def mk_dbTrackGrid_def)
qed

section \<open>The spatial index of the viewer\<close>

text \<open>
  C31. SpatialIndex::build stores every object in exactly one leaf, whatever the rounding of the
  floating-point arithmetic and however the boxes lie; nodeCount_ is the number of nodes, which is
  at most the number of objects times the depth plus one; the old contents are dropped.
\<close>

theorem octree_keeps_every_object:
  "case si_root (SpatialIndex_build fl s objs maxDepth) of
     None \<Rightarrow> objs = [] \<and> si_nodeCount (SpatialIndex_build fl s objs maxDepth) = 0
   | Some r \<Rightarrow> mset (leaf_ids r) = mset (map fst objs) \<and>
       si_nodeCount (SpatialIndex_build fl s objs maxDepth) = node_count r \<and>
       node_count r \<le> length objs * (nat maxDepth + 1)"
  using build_node_bound [of objs fl maxDepth "world_bounds fl objs" 0]
  by (simp add: SpatialIndex_build_fields build_leaf_ids build_node_count)

text \<open>
  C32. The queries of the index return only stored objects, each at most once per copy; a box
  query returns every object whose centre is in the box, a frustum query every object whose centre
  lies in no box that tests as outside, for any monotone floating-point rounding that commutes
  with doubling.
\<close>

theorem queries_find_the_centres:
  fixes s0 maxDepth
  assumes "float_rounding fl" and "\<forall>(i, b)\<in>set objs. box_ok fl b"
  defines "s \<equiv> SpatialIndex_build fl s0 objs maxDepth"
  shows "mset (getObjectsInBox s q) \<subseteq># mset (map fst objs) \<and> mset (getObjectsInFrustum fl s fr) \<subseteq># mset (map fst objs) \<and>
    (\<forall>i ob. (i, ob) \<in> set objs \<longrightarrow> in_box (AABB_center fl ob) q \<longrightarrow> i \<in> set (getObjectsInBox s q)) \<and>
    (\<forall>i ob. (i, ob) \<in> set objs \<longrightarrow> (\<forall>c. in_box (AABB_center fl ob) c \<longrightarrow> testBox fl fr c \<noteq> Outside) \<longrightarrow>
       i \<in> set (getObjectsInFrustum fl s fr))"
proof -
  let ?r = "fst (buildRecursive fl maxDepth (world_bounds fl objs) objs 0)"
  have "mset (queryBoxRecursive q ?r) \<subseteq># mset (map fst objs)" "mset (queryFrustumRecursive fl fr ?r) \<subseteq># mset (map fst objs)"
    using box_search.query_subset [of q ?r] frustum_search.query_subset [of fl fr ?r]
      build_leaf_ids [of fl maxDepth "world_bounds fl objs" objs 0] by simp_all
  then have "mset (getObjectsInBox s q) \<subseteq># mset (map fst objs)" "mset (getObjectsInFrustum fl s fr) \<subseteq># mset (map fst objs)"
    by (simp_all add: s_def getObjectsInBox_def getObjectsInFrustum_def SpatialIndex_build_fields)
  then show ?thesis
    using box_query_finds_centres [OF assms(1,2)] frustum_query_finds_centres [OF assms(1,2)] unfolding s_def by blast
qed

theorem queries_find_the_centres_witness:
  "''A'' \<in> set (getObjectsInBox (SpatialIndex_build (\<lambda>x. x) mk_SpatialIndex reaching_objects 6)
     \<lparr>bb_min = Vec3 20 (- 5) (- 5), bb_max = Vec3 40 5 5\<rparr>)"
proof -
  have "\<forall>(i, b)\<in>set reaching_objects. box_ok (\<lambda>x. x) b" by (simp add: reaching_objects_def box_ok_def)
  note q = queries_find_the_centres [OF exact_rounding this, of mk_SpatialIndex 6
      "\<lparr>bb_min = Vec3 20 (- 5) (- 5), bb_max = Vec3 40 5 5\<rparr>"]
  have "(''A'', \<lparr>bb_min = Vec3 0 (- 1) (- 1), bb_max = Vec3 60 1 1\<rparr>) \<in> set reaching_objects"
    by (simp add: reaching_objects_def)
  with q show ?thesis by (fastforce simp: in_box_def AABB_center_def)
qed

text \<open>
  C33. In exact arithmetic Frustum::testBox with the planes of a view matrix answers Inside
  exactly when every point of the box is seen (clip coordinates between -w and w), and Outside
  only when none is; so every object whose centre is seen is returned by the frustum query.
\<close>

theorem frustum_test_is_exact:
  assumes "in_box v b"
  shows "(testBox (\<lambda>x. x) (setFromMatrix (\<lambda>x. x) sqrtf m) b = Inside \<longleftrightarrow> (\<forall>v. in_box v b \<longrightarrow> seen m v)) \<and>
    (testBox (\<lambda>x. x) (setFromMatrix (\<lambda>x. x) sqrtf m) b = Outside \<longrightarrow> \<not> seen m v) \<and>
    ((\<forall>(i, b)\<in>set objs. box_ok (\<lambda>x. x) b) \<longrightarrow> (i, b) \<in> set objs \<longrightarrow> seen m (AABB_center (\<lambda>x. x) b) \<longrightarrow>
      i \<in> set (getObjectsInFrustum (\<lambda>x. x) (SpatialIndex_build (\<lambda>x. x) s objs maxDepth) (setFromMatrix (\<lambda>x. x) sqrtf m)))"
  using testBox_setFromMatrix [OF assms] seen_centres_found by blast

theorem frustum_test_is_exact_witness:
  "testBox (\<lambda>x. x) (setFromMatrix (\<lambda>x. x) (\<lambda>x. x) seen_matrix) \<lparr>bb_min = Vec3 54 0 0, bb_max = Vec3 56 1 1\<rparr> = Inside \<and>
   testBox (\<lambda>x. x) (setFromMatrix (\<lambda>x. x) (\<lambda>x. x) seen_matrix) \<lparr>bb_min = Vec3 54 0 0, bb_max = Vec3 56 1 1\<rparr> \<noteq> Outside"
proof -
  let ?b = "\<lparr>bb_min = Vec3 54 0 0, bb_max = Vec3 56 1 1\<rparr>"
  have b: "in_box (Vec3 55 0 0) ?b" by (simp add: in_box_def)
  have "\<forall>v. in_box v ?b \<longrightarrow> seen seen_matrix v"
    by (auto simp: in_box_def seen_def clip_def seen_matrix_def all_less_3)
  then show ?thesis
    using frustum_test_is_exact [OF b, of "\<lambda>x. x" seen_matrix] by simp
qed

section \<open>Union-find\<close>

text \<open>
  C34. After any sequence of unite calls on a fresh UnionFind, all of which return, two elements
  have the same representative exactly when they are connected by the united pairs.
\<close>

theorem united_classes_are_connectedness:
  assumes "\<forall>p\<in>set ps. fst p < n \<and> snd p < n"
  shows "\<exists>u. unite_all UF_unite ps (mk_UnionFind n) = Some u \<and> UF_inv u \<and>
    (\<forall>z<n. \<exists>u'. UF_find u z = Some (uf_rep u z, u')) \<and>
    (\<forall>z<n. \<forall>w<n. uf_rep u z = uf_rep u w \<longleftrightarrow> (z, w) \<in> sym_closure ps)"
  using uf.unite_all_mk [OF assms] uf.find by metis

theorem united_classes_are_connectedness_witness:
  "\<exists>u. unite_all UF_unite [(0, 1), (1, 2)] (mk_UnionFind 4) = Some u \<and> uf_rep u 0 = uf_rep u 2"
proof -
  have "(0, 2) \<in> sym_closure [(0, 1), (1, 2)]"
    unfolding sym_closure_def by (rule rtrancl_trans [of _ 1]) (auto intro: r_into_rtrancl)
  then show ?thesis using united_classes_are_connectedness [of "[(0, 1), (1, 2)]" 4] by force
qed

text \<open>
  C35. UnionFind::find recurses at most 1 + log2 of the number of elements deep: union by rank
  keeps 2^depth below the size.
\<close>

theorem find_depth_is_logarithmic:
  assumes "UF_inv uf" and "x < length (uf_parent uf)"
  shows "\<exists>d. UF_find_depth uf x = Some (Suc d) \<and> 2 ^ d \<le> length (uf_parent uf)"
  using assms by (rule UF_find_depth_log)

theorem find_depth_is_logarithmic_witness:
  "\<exists>d. UF_find_depth (mk_UnionFind 8) 3 = Some (Suc d) \<and> 2 ^ d \<le> (8 :: nat)"
  using find_depth_is_logarithmic [OF mk_UnionFind_inv, of 3 8] by (simp add: mk_UnionFind_def)

section \<open>Object tables\<close>

text \<open>
  C36. dbTable::create keeps the table invariant (free list, page shape, allocation count, top and
  bottom ids), hands out an id that was not in use and is not 0, and changes no other object.
\<close>

theorem table_create:
  assumes "tbl_inv t" and "dbTable_create t a = (i, t')"
  shows "tbl_inv t' \<and> i \<noteq> 0 \<and> dbTable_getPtr t i = None \<and> dbTable_getPtr t' = (dbTable_getPtr t)(i \<mapsto> a)"
  using assms by (rule tbl.create)

theorem table_create_witness:
  "\<exists>i t'. dbTable_create (mk_dbTable 128) (0 :: nat) = (i, t') \<and> tbl_inv t' \<and> dbTable_getPtr t' i = Some 0"
  using table_create [OF mk_dbTable_inv, of 128 "0 :: nat"] by (metis fun_upd_same old.prod.exhaust one_less_numeral_iff semiring_norm(76))

text \<open>
  C37. dbTable::destroy of a valid id returns, keeps the table invariant (top and bottom are
  searched again when the end ids go) and removes exactly that object; creating an object and
  destroying it gives the same contents back.
\<close>

theorem table_destroy:
  assumes "tbl_inv t" and "dbTable_getPtr t i = Some a"
  shows "(\<exists>t'. dbTable_destroy t i = Some t' \<and> tbl_inv t' \<and> dbTable_getPtr t' = (dbTable_getPtr t)(i := None)) \<and>
    (dbTable_create t b = (j, u) \<longrightarrow> (\<exists>t'. dbTable_destroy u j = Some t' \<and> tbl_inv t' \<and> dbTable_getPtr t' = dbTable_getPtr t))"
  using tbl.destroy [OF assms] tbl.destroy_create [OF assms(1)] by blast

theorem table_destroy_witness:
  "\<exists>t'. dbTable_destroy (table_of [5, 6, 7 :: nat]) 3 = Some t' \<and> dbTable_getPtr t' 3 = None \<and> dbTable_getPtr t' 2 = Some 6"
  using table_destroy [OF table_of_inv, of "[5, 6, 7 :: nat]" 3 7 0 0 "table_of []"] by (auto simp: table_of_getPtr)

text \<open>
  C38. Iterating a dbTable from begin by next ends and visits exactly the allocated ids, in
  ascending order and each once.
\<close>

theorem table_iteration:
  assumes "tbl_inv t"
  shows "table_iter dbTable_next t (dbTable_begin t) = Some (sorted_list_of_set (dom (dbTable_getPtr t)))"
  using assms by (rule tbl.iterates)

theorem table_iteration_witness:
  "table_iter dbTable_next (table_of [5, 6 :: nat]) (dbTable_begin (table_of [5, 6 :: nat])) = Some [1, 2]"
proof -
  have "dom (dbTable_getPtr (table_of [5, 6 :: nat])) = {1, 2}"
    by (auto simp: table_of_getPtr dom_def le_Suc_eq numeral_2_eq_2)
  then show ?thesis using table_iteration [OF table_of_inv [of "[5, 6 :: nat]"]] by simp
qed

section \<open>The hash table of names\<close>

text \<open>
  C39. dbHashTable is a finite map from C strings to the ids of its objects: over a table whose
  members have different names, insert of an object with a new name and remove of a member return,
  change what find returns for that name only, and keep the invariant (each object on the chain of
  its hash, a power of two of buckets, at most four objects per bucket on average, rounded down);
  no object is renamed; growing and shrinking are invisible.
\<close>

theorem hash_table_is_a_map:
  assumes "ht_index h M" and "inj_on (ht_cname h) M" and "ht_cname h i = Some n"
  shows "(i \<notin> M \<and> (\<forall>j \<in> M. ht_cname h j \<noteq> Some n) \<longrightarrow>
      (\<exists>h'. dbHashTable_insert h i = Some h' \<and> ht_index h' (insert i M) \<and> ht_cname h' = ht_cname h \<and>
         (\<forall>s. dbHashTable_find h' s = (if c_str s = n then Some i else dbHashTable_find h s)))) \<and>
    (i \<in> M \<longrightarrow>
      (\<exists>h'. dbHashTable_remove h i = Some h' \<and> ht_index h' (M - {i}) \<and> ht_cname h' = ht_cname h \<and>
         (\<forall>s. dbHashTable_find h' s = (if c_str s = n then Some 0 else dbHashTable_find h s)))) \<and>
    (\<forall>s. dbHashTable_hasMember h s = Some (\<exists>j \<in> M. ht_cname h j = Some (c_str s)))"
proof -
  have u: "names.unique h M" using assms(2) by (simp add: names.unique_def)
  have "dbHashTable_hasMember h s = Some (\<exists>j \<in> M. ht_cname h j = Some (c_str s))" for s
  proof -
    from names.lookup [OF assms(1), of s] obtain k where k: "dbHashTable_find h s = Some k"
      "if \<exists>j \<in> M. ht_cname h j = Some (c_str s) then k \<in> M \<and> ht_cname h k = Some (c_str s) else k = 0" by blast
    then have "k \<noteq> 0 \<longleftrightarrow> (\<exists>j \<in> M. ht_cname h j = Some (c_str s))" using names.proper [OF assms(1)] by metis
    then show ?thesis by (simp add: dbHashTable_hasMember_find k(1))
  qed
  then show ?thesis
    using names.add_lookup [OF assms(1) u _ assms(3)] names.del_lookup [OF assms(1) u _ assms(3)] by blast
qed

theorem hash_table_is_a_map_witness:
  "\<exists>h h'. dbHashTable_insert (mk_dbHashTable (table_of [\<lparr>no_name = ''clk'', no_next_entry = 0\<rparr>])) 1 = Some h \<and>
     dbHashTable_find h ''clk'' = Some 1 \<and> dbHashTable_hasMember h ''clk'' = Some True \<and>
     dbHashTable_remove h 1 = Some h' \<and> dbHashTable_find h' ''clk'' = Some 0"
proof -
  let ?h = "mk_dbHashTable (table_of [\<lparr>no_name = ''clk'', no_next_entry = 0\<rparr>])"
  have i: "ht_index ?h {}" by (rule ht_index_empty [OF table_of_inv])
  have s: "c_str ''clk'' = ''clk''" by (simp add: c_str_def NUL_char)
  have n: "ht_cname ?h 1 = Some ''clk''"
    by (simp add: ht_cname_def ht_name_def mk_dbHashTable_def table_of_getPtr s)
  from hash_table_is_a_map [OF i _ n] obtain h where h: "dbHashTable_insert ?h 1 = Some h" "ht_index h {1}"
    "ht_cname h = ht_cname ?h" "\<forall>s. dbHashTable_find h s = (if c_str s = ''clk'' then Some 1 else dbHashTable_find ?h s)" by auto
  have n': "ht_cname h 1 = Some ''clk''" using n h(3) by simp
  from hash_table_is_a_map [OF h(2) _ n'] obtain h' where "dbHashTable_remove h 1 = Some h'"
    "\<forall>s. dbHashTable_find h' s = (if c_str s = ''clk'' then Some 0 else dbHashTable_find h s)" by auto
  moreover have "dbHashTable_hasMember h ''clk'' = Some True"
    using hash_table_is_a_map [OF h(2) _ n'] n' s by simp
  ultimately show ?thesis using h(1,4) s by auto
qed

section \<open>Transforms and orientations\<close>

text \<open>
  C40. dbTransform::concat composes the maps of points, is associative, and invert gives the
  inverse on both sides; two transforms that move every point alike are equal.
\<close>

theorem transforms_form_a_group:
  "dbTransform_apply (dbTransform_concat a b) p = dbTransform_apply b (dbTransform_apply a p) \<and>
   dbTransform_concat (dbTransform_concat a b) c = dbTransform_concat a (dbTransform_concat b c) \<and>
   dbTransform_concat a (dbTransform_invert a) = dbTransform_default \<and>
   dbTransform_concat (dbTransform_invert a) a = dbTransform_default \<and>
   ((\<forall>q. dbTransform_apply a q = dbTransform_apply b q) \<longleftrightarrow> a = b)"
  using tr.act_comp tr.comp_assoc tr.comp_inv tr.inv_comp tr.faithful by metis

section \<open>Geometry\<close>

section \<open>Streams and names of values\<close>

end
